(* ===== verification/Go_Prelude.thy ===== *)
theory Go_Prelude
  imports Complex_Main
begin

text \<open>
  The shared layer of the development: the Go standard-library string functions the sources call
  (packages \<open>strings\<close>, \<open>strconv\<close>, \<open>path\<close>), over byte strings, the development's lemma
  collections, and generic lemmas on lists and options that the component theories share.

  A Go \<open>string\<close> is a byte sequence and an Isabelle \<open>string\<close> a list of 8-bit characters, so
  the two agree byte for byte. Functions of the Go library that work on Unicode runes are modelled
  on their UTF-8 encoding: \<open>space_len\<close> recognises the encodings of exactly the runes for which
  \<open>unicode.IsSpace\<close> holds. A Go \<open>int\<close> is an \<open>int\<close>: the counters of the program are
  bounded by the number of turns of a run and never come near the 64-bit limit.
\<close>

named_theorems go_string \<open>equations of the Go string functions\<close>
named_theorems ladder_defs \<open>definitions of the router's operations\<close>
named_theorems chain_defs \<open>definitions of the coding chain's operations\<close>

subsection \<open>Prefixes, substrings, trimming\<close>

definition has_prefix :: "string \<Rightarrow> string \<Rightarrow> bool" where
  "has_prefix s p = (take (length p) s = p)"

definition has_suffix :: "string \<Rightarrow> string \<Rightarrow> bool" where
  "has_suffix s p = (length p \<le> length s \<and> drop (length s - length p) s = p)"

fun contains :: "string \<Rightarrow> string \<Rightarrow> bool" where
  "contains [] sub = (sub = [])"
| "contains (c # s) sub = (has_prefix (c # s) sub \<or> contains s sub)"

fun str_index :: "string \<Rightarrow> string \<Rightarrow> nat option" where
  "str_index [] sub = (if sub = [] then Some 0 else None)"
| "str_index (c # s) sub =
     (if has_prefix (c # s) sub then Some 0 else map_option Suc (str_index s sub))"

definition trim_prefix :: "string \<Rightarrow> string \<Rightarrow> string" where
  "trim_prefix s p = (if has_prefix s p then drop (length p) s else s)"

definition cut_prefix :: "string \<Rightarrow> string \<Rightarrow> string option" where
  "cut_prefix s p = (if has_prefix s p then Some (drop (length p) s) else None)"

definition trim_char :: "char \<Rightarrow> string \<Rightarrow> string" where
  "trim_char c s = rev (dropWhile (\<lambda>x. x = c) (rev (dropWhile (\<lambda>x. x = c) s)))"

definition contains_any :: "string \<Rightarrow> string list \<Rightarrow> bool" where
  "contains_any s markers = list_ex (contains s) markers"

fun join :: "string \<Rightarrow> string list \<Rightarrow> string" where
  "join sep [] = []"
| "join sep [x] = x"
| "join sep (x # y # ys) = x @ sep @ join sep (y # ys)"

subsection \<open>Splitting\<close>

text \<open>\<open>split_p p s\<close> cuts \<open>s\<close> at every character satisfying \<open>p\<close> (\<open>strings.Split\<close> at a
  one-character separator); \<open>fields_func\<close> also drops the empty pieces (\<open>strings.FieldsFunc\<close>).\<close>

fun split_p :: "(char \<Rightarrow> bool) \<Rightarrow> string \<Rightarrow> string list" where
  "split_p p [] = [[]]"
| "split_p p (c # s) =
     (if p c then [] # split_p p s
      else (case split_p p s of [] \<Rightarrow> [[c]] | w # ws \<Rightarrow> (c # w) # ws))"

definition split_char :: "char \<Rightarrow> string \<Rightarrow> string list" where
  "split_char c s = split_p (\<lambda>x. x = c) s"

definition fields_func :: "(char \<Rightarrow> bool) \<Rightarrow> string \<Rightarrow> string list" where
  "fields_func p s = filter (\<lambda>w. w \<noteq> []) (split_p p s)"

text \<open>\<open>strings.Split\<close> at a separator that is not empty.\<close>

function split_str :: "string \<Rightarrow> string \<Rightarrow> string list" where
  "split_str sep s =
     (if sep = [] then [s]
      else case str_index s sep of
             None \<Rightarrow> [s]
           | Some i \<Rightarrow> take i s # split_str sep (drop (i + length sep) s))"
  by pat_completeness auto
termination
proof (relation "measure (\<lambda>(sep, s). length s + (if sep = [] then 1 else 0))")
  fix sep s :: string and i
  assume a: "sep \<noteq> []" "str_index s sep = Some i"
  have "s \<noteq> []"
  proof
    assume "s = []"
    with a show False by simp
  qed
  with a(1) show "((sep, drop (i + length sep) s), (sep, s))
      \<in> measure (\<lambda>(sep, s). length s + (if sep = [] then 1 else 0))" by simp
qed simp

declare split_str.simps [simp del]

subsection \<open>White space\<close>

definition ascii_space :: "char \<Rightarrow> bool" where
  "ascii_space c = (c = CHR '' '' \<or> c = CHR 0x09 \<or> c = CHR 0x0A \<or> c = CHR 0x0B
     \<or> c = CHR 0x0C \<or> c = CHR 0x0D)"

definition wide_space :: "char \<Rightarrow> char \<Rightarrow> char \<Rightarrow> bool" where
  "wide_space c d e =
     ((c = CHR 0xE1 \<and> d = CHR 0x9A \<and> e = CHR 0x80)
      \<or> (c = CHR 0xE2 \<and> d = CHR 0x80 \<and>
          (e \<in> set [CHR 0x80, CHR 0x81, CHR 0x82, CHR 0x83, CHR 0x84, CHR 0x85, CHR 0x86,
             CHR 0x87, CHR 0x88, CHR 0x89, CHR 0x8A, CHR 0xA8, CHR 0xA9, CHR 0xAF]))
      \<or> (c = CHR 0xE2 \<and> d = CHR 0x81 \<and> e = CHR 0x9F)
      \<or> (c = CHR 0xE3 \<and> d = CHR 0x80 \<and> e = CHR 0x80))"

text \<open>The number of bytes of the white-space rune at the head of a string, 0 if there is none.\<close>

fun space_len :: "string \<Rightarrow> nat" where
  "space_len [] = 0"
| "space_len (c # s) =
     (if ascii_space c then 1
      else case s of
        [] \<Rightarrow> 0
      | d # s' \<Rightarrow>
          (if c = CHR 0xC2 \<and> (d = CHR 0x85 \<or> d = CHR 0xA0) then 2
           else case s' of [] \<Rightarrow> 0 | e # _ \<Rightarrow> if wide_space c d e then 3 else 0))"

function fields_aux :: "string \<Rightarrow> string \<Rightarrow> string list" where
  "fields_aux acc [] = (if acc = [] then [] else [acc])"
| "fields_aux acc (c # s) =
     (let n = space_len (c # s)
      in if n = 0 then fields_aux (acc @ [c]) s
         else (if acc = [] then [] else [acc]) @ fields_aux [] (drop (n - 1) s))"
  by pat_completeness auto
termination by (relation "measure (\<lambda>(acc, s). length s)") auto

definition fields :: "string \<Rightarrow> string list" where
  "fields s = fields_aux [] s"

function trim_left :: "string \<Rightarrow> string" where
  "trim_left [] = []"
| "trim_left (c # s) =
     (let n = space_len (c # s) in if n = 0 then c # s else trim_left (drop (n - 1) s))"
  by pat_completeness auto
termination by (relation "measure length") auto

fun trim_right :: "string \<Rightarrow> string" where
  "trim_right [] = []"
| "trim_right (c # s) = (if trim_left (c # s) = [] then [] else c # trim_right s)"

definition trim_space :: "string \<Rightarrow> string" where
  "trim_space s = trim_right (trim_left s)"

definition blank :: "string \<Rightarrow> bool" where
  "blank s = (trim_space s = [])"

subsection \<open>Case and numbers\<close>

definition lower_char :: "char \<Rightarrow> char" where
  "lower_char c = (if 65 \<le> (of_char c :: nat) \<and> (of_char c :: nat) \<le> 90
     then char_of ((of_char c :: nat) + 32) else c)"

text \<open>\<open>strings.ToLower\<close> on ASCII; bytes of multi-byte runes are kept, so a comparison of the result
  with an ASCII marker agrees with Go's wherever the upper-case rune is ASCII.\<close>

definition to_lower :: "string \<Rightarrow> string" where
  "to_lower s = map lower_char s"

fun nat_str :: "nat \<Rightarrow> string" where
  "nat_str n = (if n < 10 then [char_of (48 + n)]
     else nat_str (n div 10) @ [char_of (48 + n mod 10)])"

declare nat_str.simps [simp del]

definition itoa :: "int \<Rightarrow> string" where
  "itoa i = (if i < 0 then CHR ''-'' # nat_str (nat (- i)) else nat_str (nat i))"

definition itoa2 :: "int \<Rightarrow> string" where
  "itoa2 i = (if 0 \<le> i \<and> i < 10 then CHR ''0'' # itoa i else itoa i)"

definition newline :: string where
  "newline = [CHR 0x0A]"

definition em_dash :: string where
  "em_dash = [CHR 0xE2, CHR 0x80, CHR 0x94]"

text \<open>Go's verb \<open>%q\<close>: printable ASCII is exact; the bytes of a multi-byte rune are kept.\<close>

definition hex_digit :: "nat \<Rightarrow> char" where
  "hex_digit n = (if n < 10 then char_of (48 + n) else char_of (87 + n))"

definition quote_char :: "char \<Rightarrow> string" where
  "quote_char c = (let n = (of_char c :: nat) in
     if n = 34 then [CHR 0x5C, c] else if n = 92 then [CHR 0x5C, c]
     else if n = 7 then [CHR 0x5C, CHR ''a'']
     else if n = 8 then [CHR 0x5C, CHR ''b'']
     else if n = 12 then [CHR 0x5C, CHR ''f'']
     else if n = 10 then [CHR 0x5C, CHR ''n'']
     else if n = 13 then [CHR 0x5C, CHR ''r'']
     else if n = 9 then [CHR 0x5C, CHR ''t'']
     else if n = 11 then [CHR 0x5C, CHR ''v'']
     else if n < 32 \<or> n = 127
     then [CHR 0x5C, CHR ''x'', hex_digit (n div 16), hex_digit (n mod 16)]
     else [c])"

definition go_quote :: "string \<Rightarrow> string" where
  "go_quote s = [CHR 0x22] @ concat (map quote_char s) @ [CHR 0x22]"

lemmas go_string_defs [go_string] =
  has_prefix_def has_suffix_def trim_prefix_def cut_prefix_def trim_char_def contains_any_def
  split_char_def fields_func_def fields_def ascii_space_def wide_space_def trim_space_def
  blank_def to_lower_def lower_char_def

subsection \<open>Lemmas on the string functions\<close>

lemma has_prefix_iff: "has_prefix s p \<longleftrightarrow> (\<exists>t. s = p @ t)"
  by (metis append_eq_conv_conj append_take_drop_id has_prefix_def)

lemma contains_iff: "contains s sub \<longleftrightarrow> (\<exists>a b. s = a @ sub @ b)"
proof (induction s)
  case Nil
  then show ?case by auto
next
  case (Cons c s)
  note IH = Cons.IH
  show ?case
  proof
    assume "contains (c # s) sub"
    then consider "has_prefix (c # s) sub" | "contains s sub" by auto
    then show "\<exists>a b. c # s = a @ sub @ b"
    proof cases
      case 1
      then show ?thesis by (metis append_Nil has_prefix_iff)
    next
      case 2
      with Cons.IH show ?thesis by (metis append_Cons)
    qed
  next
    assume "\<exists>a b. c # s = a @ sub @ b"
    then obtain a b where ab: "c # s = a @ sub @ b" by blast
    show "contains (c # s) sub"
    proof (cases a)
      case Nil
      with ab have "has_prefix (c # s) sub" by (auto simp: has_prefix_iff)
      then show ?thesis by simp
    next
      case (Cons a0 a')
      with ab have "s = a' @ sub @ b" by simp
      with IH have "contains s sub" by blast
      then show ?thesis by simp
    qed
  qed
qed

lemma contains_single [simp]: "contains s [c] \<longleftrightarrow> c \<in> set s"
  by (auto simp: contains_iff in_set_conv_decomp)

lemma contains_append: "contains s sub \<Longrightarrow> contains (s @ t) sub"
  by (metis append.assoc contains_iff)

lemma split_p_not_Nil [simp]: "split_p p s \<noteq> []"
  by (induction s) (auto split: list.splits)

lemma split_p_chars: "w \<in> set (split_p p s) \<Longrightarrow> x \<in> set w \<Longrightarrow> x \<in> set s \<and> \<not> p x"
proof (induction s arbitrary: w)
  case Nil
  then show ?case by simp
next
  case (Cons a s)
  show ?case
  proof (cases "p a")
    case True
    with Cons show ?thesis by auto
  next
    case False
    obtain v vs where vs: "split_p p s = v # vs"
      using split_p_not_Nil [of p s] by (meson neq_Nil_conv)
    with False Cons.prems have "w = a # v \<or> w \<in> set vs" by simp
    with Cons.IH [of v] Cons.IH [of w] Cons.prems(2) vs False show ?thesis by auto
  qed
qed

lemma split_p_none: "\<forall>x \<in> set s. \<not> p x \<Longrightarrow> split_p p s = [s]"
  by (induction s) auto

lemma split_p_append:
  "p c \<Longrightarrow> split_p p (s @ c # t) = split_p p s @ split_p p t"
  by (induction s) (auto split: list.splits)

lemma split_p_single:
  "\<forall>x \<in> set s. \<not> p x \<Longrightarrow> p c \<Longrightarrow> split_p p (s @ c # t) = s # split_p p t"
  by (simp add: split_p_append split_p_none)

lemma join_split: "join [c] (split_char c s) = s"
proof -
  have "join [c] (split_p (\<lambda>x. x = c) s) = s"
  proof (induction s)
    case Nil
    then show ?case by simp
  next
    case (Cons a s)
    then show ?case
      by (cases "split_p (\<lambda>x. x = c) s"; cases "tl (split_p (\<lambda>x. x = c) s)")
        (auto simp: neq_Nil_conv)
  qed
  then show ?thesis by (simp add: split_char_def)
qed

lemma fields_aux_nonempty: "w \<in> set (fields_aux acc s) \<Longrightarrow> w \<noteq> []"
  by (induction acc s rule: fields_aux.induct) (auto simp: Let_def split: if_splits)

lemma fields_nonempty [simp]: "[] \<notin> set (fields s)"
  using fields_aux_nonempty by (auto simp: fields_def)

lemma fields_aux_chars: "w \<in> set (fields_aux acc s) \<Longrightarrow> set w \<subseteq> set acc \<union> set s"
proof (induction acc s rule: fields_aux.induct)
  case (1 acc)
  then show ?case by (auto split: if_splits)
next
  case (2 acc c s)
  then show ?case
    by (fastforce simp: Let_def split: if_splits dest: in_set_dropD)
qed

lemma fields_chars: "w \<in> set (fields s) \<Longrightarrow> set w \<subseteq> set s"
  using fields_aux_chars [of w "[]" s] by (simp add: fields_def)

lemma has_suffix_iff: "has_suffix s p \<longleftrightarrow> (\<exists>t. s = t @ p)"
  by (metis append_eq_conv_conj append_take_drop_id diff_le_self has_suffix_def le_add2
      length_append length_drop diff_diff_cancel add_diff_cancel_right')

subsection \<open>Decimal numbers\<close>

definition digit :: "char \<Rightarrow> bool" where
  "digit c = (48 \<le> (of_char c :: nat) \<and> (of_char c :: nat) \<le> 57)"

definition decimal :: "string \<Rightarrow> nat" where
  "decimal s = foldl (\<lambda>a c. 10 * a + (of_char c - 48)) 0 s"

lemma nat_str_digits: "c \<in> set (nat_str n) \<Longrightarrow> digit c"
proof (induction n rule: nat_str.induct)
  case (1 n)
  then show ?case
    by (subst (asm) nat_str.simps) (auto simp: digit_def of_char_of take_bit_eq_mod split: if_splits)
qed

lemma decimal_nat_str [simp]: "decimal (nat_str n) = n"
proof (induction n rule: nat_str.induct)
  case (1 n)
  show ?case
  proof (cases "n < 10")
    case True
    then show ?thesis by (subst nat_str.simps) (simp add: decimal_def of_char_of)
  next
    case False
    then have "decimal (nat_str n) = 10 * decimal (nat_str (n div 10)) + n mod 10"
      by (subst nat_str.simps) (simp add: decimal_def of_char_of)
    with 1 False show ?thesis by simp
  qed
qed

lemma itoa_digits: "0 \<le> i \<Longrightarrow> c \<in> set (itoa i) \<Longrightarrow> digit c"
  using nat_str_digits by (auto simp: itoa_def)

lemma itoa_inj: "0 \<le> i \<Longrightarrow> 0 \<le> j \<Longrightarrow> itoa i = itoa j \<Longrightarrow> i = j"
  by (metis decimal_nat_str itoa_def linorder_not_le nat_eq_iff2)

text \<open>A numbered suffix behind a character that is no digit is read back uniquely.\<close>

lemma numbered_suffix_inj:
  assumes "a @ x # itoa i = b @ x # itoa j" "\<not> digit x" "0 \<le> i" "0 \<le> j"
  shows "a = b \<and> i = j"
proof -
  have "takeWhile digit (rev (c @ x # itoa k)) = rev (itoa k)" if "0 \<le> k" for c k
    using itoa_digits [OF that] assms(2) by (simp add: takeWhile_append)
  then have "itoa i = itoa j" using assms by (metis rev_is_rev_conv)
  with assms show ?thesis using itoa_inj by auto
qed

subsection \<open>Lemmas on lists\<close>

text \<open>The first element of a list with a property, its position, and update by position.\<close>

fun find_index :: "('a \<Rightarrow> bool) \<Rightarrow> 'a list \<Rightarrow> nat option" where
  "find_index p [] = None"
| "find_index p (x # xs) = (if p x then Some 0 else map_option Suc (find_index p xs))"

lemma find_index_Some:
  "find_index p xs = Some i \<longleftrightarrow> i < length xs \<and> p (xs ! i) \<and> (\<forall>j < i. \<not> p (xs ! j))"
proof (induction xs arbitrary: i)
  case Nil
  then show ?case by simp
next
  case (Cons x xs)
  show ?case
  proof (cases i)
    case 0
    then show ?thesis by (auto split: if_splits)
  next
    case (Suc k)
    have "(\<forall>j < Suc k. \<not> p ((x # xs) ! j)) \<longleftrightarrow> \<not> p x \<and> (\<forall>j < k. \<not> p (xs ! j))"
      by (auto simp: less_Suc_eq_0_disj)
    with Suc show ?thesis by (auto simp: Cons.IH)
  qed
qed

lemma find_index_None: "find_index p xs = None \<longleftrightarrow> (\<forall>x \<in> set xs. \<not> p x)"
  by (induction xs) auto

lemma find_index_less [dest]: "find_index p xs = Some i \<Longrightarrow> i < length xs"
  by (simp add: find_index_Some)

lemma find_index_holds: "find_index p xs = Some i \<Longrightarrow> p (xs ! i)"
  by (simp add: find_index_Some)

definition insert_at :: "nat \<Rightarrow> 'a \<Rightarrow> 'a list \<Rightarrow> 'a list" where
  "insert_at i x xs = take i xs @ x # drop i xs"

lemma length_insert_at [simp]: "length (insert_at i x xs) = Suc (length xs)"
  by (simp add: insert_at_def)

lemma set_insert_at [simp]: "set (insert_at i x xs) = insert x (set xs)"
  by (metis Un_insert_right append_take_drop_id insert_at_def list.simps(15) set_append)

lemma nth_insert_at:
  "i \<le> length xs \<Longrightarrow> k \<le> length xs \<Longrightarrow>
     insert_at i x xs ! k = (if k < i then xs ! k else if k = i then x else xs ! (k - 1))"
  by (auto simp: insert_at_def nth_append min_def not_less nth_Cons')

lemma map_insert_at: "map f (insert_at i x xs) = insert_at i (f x) (map f xs)"
  by (simp add: insert_at_def take_map drop_map)

lemma distinct_insert_at [simp]:
  "distinct (insert_at i x xs) \<longleftrightarrow> x \<notin> set xs \<and> distinct xs"
proof -
  have "distinct (insert_at i x xs) \<longleftrightarrow> distinct (x # (take i xs @ drop i xs))"
    unfolding insert_at_def distinct_append distinct.simps set_append by auto
  then show ?thesis by (simp only: append_take_drop_id distinct.simps)
qed

subsection \<open>Occurrences\<close>

lemma index_split:
  assumes "str_index s sub = Some i"
  shows "s = take i s @ sub @ drop (i + length sub) s"
  using assms
proof (induction s arbitrary: i)
  case Nil
  then show ?case by (auto split: if_splits)
next
  case (Cons c s)
  show ?case
  proof (cases "has_prefix (c # s) sub")
    case True
    with Cons.prems have "i = 0" by simp
    with True show ?thesis unfolding has_prefix_def
      by (metis add_0 append_Nil append_take_drop_id take_0)
  next
    case False
    with Cons.prems obtain j where "str_index s sub = Some j" "i = Suc j" by auto
    with Cons.IH show ?thesis by simp
  qed
qed

lemma index_None: "str_index s sub = None \<longleftrightarrow> \<not> contains s sub"
  by (induction s) auto

lemma index_prefix_free:
  "str_index d sub = Some i \<Longrightarrow> d = pre @ sub @ post \<Longrightarrow> sub \<noteq> [] \<Longrightarrow> i \<le> length pre"
proof (induction d arbitrary: i pre)
  case (Cons c d)
  show ?case
  proof (cases "has_prefix (c # d) sub")
    case False
    then obtain j where j: "str_index d sub = Some j" "i = Suc j" using Cons.prems(1) by auto
    from Cons.prems False obtain pre' where "pre = c # pre'" "d = pre' @ sub @ post"
      by (cases pre) (auto simp: has_prefix_def)
    with Cons.IH [OF j(1) this(2) Cons.prems(3)] j(2) show ?thesis by simp
  next
    case True
    then have "i = 0" using Cons.prems(1) by simp
    then show ?thesis by simp
  qed
qed simp

end
