(* ===== verification/Budget.thy ===== *)
theory Budget
  imports Go_Prelude
begin

text \<open>
  The shared counting budgets of \<open>internal/cost/cost.go\<close>: \<open>SpawnBudget\<close> (how many workers a
  spawn tree may start) and \<open>StrongTurnBudget\<close> (how many strong-rung turns it may serve). Both
  are mutex-protected counters; each locked method is one atomic step of the model. A
  reservation checks and counts under one lock, a strong turn is peeked and taken under two, and
  the two interleaving theorems below say what each of these designs guarantees when any number
  of workers draw from one pool.
\<close>

subsection \<open>Spawn budget\<close>

record spawn_budget =
  sp_cap :: int
  sp_count :: int

definition new_spawn_budget :: "int \<Rightarrow> spawn_budget" where
  "new_spawn_budget cap = \<lparr>sp_cap = cap, sp_count = 0\<rparr>"

definition reserve :: "spawn_budget \<Rightarrow> bool \<times> spawn_budget" where
  "reserve b =
     (if sp_cap b > 0 \<and> sp_count b \<ge> sp_cap b then (False, b)
      else (True, b\<lparr>sp_count := sp_count b + 1\<rparr>))"

text \<open>A run of the tree: the outcomes of a sequence of reservations, in the order the lock
  serialises them.\<close>

fun reserve_all :: "nat \<Rightarrow> spawn_budget \<Rightarrow> bool list \<times> spawn_budget" where
  "reserve_all 0 b = ([], b)"
| "reserve_all (Suc n) b =
     (let (ok, b1) = reserve b; (oks, b2) = reserve_all n b1 in (ok # oks, b2))"

subsection \<open>Strong-turn budget\<close>

record strong_turn_budget =
  st_cap :: int
  st_count :: int

definition new_strong_turn_budget :: "int \<Rightarrow> strong_turn_budget" where
  "new_strong_turn_budget cap = \<lparr>st_cap = cap, st_count = 0\<rparr>"

definition exhausted :: "strong_turn_budget \<Rightarrow> bool" where
  "exhausted b = (if st_cap b \<le> 0 then False else st_count b \<ge> st_cap b)"

definition take_turn :: "strong_turn_budget \<Rightarrow> strong_turn_budget" where
  "take_turn b = b\<lparr>st_count := st_count b + 1\<rparr>"

subsection \<open>The interface the router relies on\<close>

text \<open>
  The Go interface \<open>router.StrongBudget\<close> is a record of its two methods; the locale states what
  a provider promises, in terms of an abstract served count and cap.
\<close>

record 'b strong_budget_ops =
  sb_exhausted :: "'b \<Rightarrow> bool"
  sb_take :: "'b \<Rightarrow> 'b"

definition cost_budget_ops :: "strong_turn_budget strong_budget_ops" where
  "cost_budget_ops = \<lparr>sb_exhausted = exhausted, sb_take = take_turn\<rparr>"

locale strong_budget =
  fixes ops :: "'b strong_budget_ops"
    and served :: "'b \<Rightarrow> int"
    and cap :: "'b \<Rightarrow> int"
  assumes served_take: "served (sb_take ops b) = served b + 1"
    and cap_take: "cap (sb_take ops b) = cap b"
    and exhausted_iff: "sb_exhausted ops b \<longleftrightarrow> 0 < cap b \<and> cap b \<le> served b"
begin

definition within_cap :: "'b \<Rightarrow> bool" where
  "within_cap b \<longleftrightarrow> (0 < cap b \<longrightarrow> served b \<le> cap b)"

lemma take_within_cap: "\<not> sb_exhausted ops b \<Longrightarrow> within_cap (sb_take ops b)"
  by (auto simp: within_cap_def exhausted_iff served_take cap_take)

lemma exhausted_stays: "sb_exhausted ops b \<Longrightarrow> sb_exhausted ops (sb_take ops b)"
  by (auto simp: exhausted_iff served_take cap_take)

end

interpretation cost_pool: strong_budget cost_budget_ops st_count st_cap
  by unfold_locales (auto simp: cost_budget_ops_def take_turn_def exhausted_def)

subsection \<open>Workers drawing strong turns concurrently\<close>

text \<open>
  \<open>NextAdapter\<close> peeks \<open>Exhausted\<close> under the lock, releases it, and later calls \<open>Take\<close>. A worker
  between the two calls is \<open>Peeked\<close>; any worker may move at any time.
\<close>

datatype phase = Resting | Peeked

record draw_state =
  dr_pool :: strong_turn_budget
  dr_phase :: "phase list"

inductive draw_step :: "draw_state \<Rightarrow> draw_state \<Rightarrow> bool" where
  peek: "i < length (dr_phase s) \<Longrightarrow> dr_phase s ! i = Resting \<Longrightarrow> \<not> exhausted (dr_pool s) \<Longrightarrow>
     draw_step s (s\<lparr>dr_phase := (dr_phase s)[i := Peeked]\<rparr>)"
| take: "i < length (dr_phase s) \<Longrightarrow> dr_phase s ! i = Peeked \<Longrightarrow>
     draw_step s (s\<lparr>dr_phase := (dr_phase s)[i := Resting], dr_pool := take_turn (dr_pool s)\<rparr>)"

inductive_cases draw_stepE [elim]: "draw_step s t"

definition draw_init :: "int \<Rightarrow> nat \<Rightarrow> draw_state" where
  "draw_init cap n = \<lparr>dr_pool = new_strong_turn_budget cap, dr_phase = replicate n Resting\<rparr>"

definition in_flight :: "draw_state \<Rightarrow> nat" where
  "in_flight s = length (filter (\<lambda>p. p = Peeked) (dr_phase s))"

subsection \<open>Lemmas\<close>

lemma reserve_all_sound:
  "reserve_all n b = (oks, b') \<Longrightarrow>
     sp_cap b' = sp_cap b \<and> length oks = n
     \<and> sp_count b' = sp_count b + int (length (filter id oks))
     \<and> (0 < sp_cap b \<longrightarrow> sp_count b \<le> sp_cap b \<longrightarrow> sp_count b' \<le> sp_cap b)"
proof (induction n arbitrary: b oks b')
  case 0
  then show ?case by simp
next
  case (Suc n)
  obtain ok b1 where r: "reserve b = (ok, b1)" by fastforce
  obtain oks2 b2 where ra: "reserve_all n b1 = (oks2, b2)" by fastforce
  from r ra Suc.prems have eq: "oks = ok # oks2" "b' = b2" by auto
  from Suc.IH [OF ra] r eq show ?case
    by (auto simp: reserve_def split: if_splits)
qed

lemma filter_update_count:
  "i < length xs \<Longrightarrow> xs ! i = Resting \<Longrightarrow>
     length (filter (\<lambda>p. p = Peeked) (xs[i := Peeked])) = Suc (length (filter (\<lambda>p. p = Peeked) xs))"
proof (induction xs arbitrary: i)
  case Nil
  then show ?case by simp
next
  case (Cons x xs)
  then show ?case by (cases i) auto
qed

lemma filter_update_count_down:
  "i < length xs \<Longrightarrow> xs ! i = Peeked \<Longrightarrow>
     Suc (length (filter (\<lambda>p. p = Peeked) (xs[i := Resting]))) = length (filter (\<lambda>p. p = Peeked) xs)"
proof (induction xs arbitrary: i)
  case Nil
  then show ?case by simp
next
  case (Cons x xs)
  then show ?case by (cases i) auto
qed

definition draw_inv :: "int \<Rightarrow> nat \<Rightarrow> draw_state \<Rightarrow> bool" where
  "draw_inv cap n s \<longleftrightarrow> st_cap (dr_pool s) = cap \<and> length (dr_phase s) = n
     \<and> st_count (dr_pool s) + int (in_flight s) \<le> max 0 (cap + int n - 1)"

lemma draw_inv_step:
  assumes "0 < cap" "draw_step s t" "draw_inv cap n s"
  shows "draw_inv cap n t"
  using assms(2)
proof cases
  case (peek i)
  have "in_flight t = Suc (in_flight s)"
    using peek by (simp add: in_flight_def filter_update_count)
  moreover have "in_flight t \<le> n"
    using peek assms(3) by (simp add: in_flight_def draw_inv_def le_trans [OF length_filter_le])
  moreover have "st_count (dr_pool s) < cap"
    using peek assms by (simp add: exhausted_def draw_inv_def)
  ultimately show ?thesis using peek assms(3) by (simp add: draw_inv_def)
next
  case (take i)
  have "Suc (in_flight t) = in_flight s"
    using take filter_update_count_down [of i "dr_phase s"] by (simp add: in_flight_def)
  with take assms(3) show ?thesis by (simp add: draw_inv_def take_turn_def)
qed

lemma draw_inv_reach:
  assumes "0 < cap" "draw_step\<^sup>*\<^sup>* (draw_init cap n) s"
  shows "draw_inv cap n s"
  using assms(2)
proof (induction rule: rtranclp_induct)
  case base
  then show ?case
    by (simp add: draw_inv_def draw_init_def in_flight_def new_strong_turn_budget_def)
next
  case (step y z)
  with assms(1) show ?case by (blast intro: draw_inv_step)
qed

end
