(* ===== verification/Router.thy ===== *)
theory Router
  imports Budget
begin

text \<open>
  The model router, \<open>internal/router/router.go\<close>: an ordered ladder of model tiers with a resting
  floor, per-turn escalation triggers with de-escalation hysteresis, event-driven escalations, a
  per-worker usage bound on the top rung and a strong-turn pool shared across a spawn tree. An
  adapter is its model id; whether it is available is asked of the environment at each call, so
  \<open>next_adapter\<close> takes the availability of every rung as an argument. The shared pool is explicit
  state next to the router, since several routers draw from it. Thresholds and confidences are
  \<open>float64\<close> values that the code only compares: they are the rationals they denote.
\<close>

subsection \<open>Triggers, configuration, signals\<close>

datatype rstate = StateCheap | StateEscalated

datatype trigger =
    TriggerRetryExhaustion
  | TriggerLowConfidence
  | TriggerRepeatedToolError
  | TriggerParseFailure
  | TriggerExplicitHandoff
  | OtherTrigger string

definition priority :: "trigger list" where
  "priority = [TriggerExplicitHandoff, TriggerRetryExhaustion, TriggerParseFailure,
     TriggerRepeatedToolError, TriggerLowConfidence]"

record trigger_config =
  threshold_value :: rat
  enabled :: bool

record config =
  c_triggers :: "(trigger \<rightharpoonup> trigger_config) option"
  c_deesc_turns :: int

definition config_lookup :: "config \<Rightarrow> trigger \<Rightarrow> trigger_config option" where
  "config_lookup c k = (case c_triggers c of None \<Rightarrow> None | Some m \<Rightarrow> m k)"

definition default_config :: config where
  "default_config = \<lparr>c_triggers = Some [
      TriggerRetryExhaustion \<mapsto> \<lparr>threshold_value = 2, enabled = True\<rparr>,
      TriggerLowConfidence \<mapsto> \<lparr>threshold_value = 35 / 100, enabled = True\<rparr>,
      TriggerRepeatedToolError \<mapsto> \<lparr>threshold_value = 3, enabled = True\<rparr>,
      TriggerParseFailure \<mapsto> \<lparr>threshold_value = 2, enabled = True\<rparr>,
      TriggerExplicitHandoff \<mapsto> \<lparr>threshold_value = 1, enabled = True\<rparr>],
    c_deesc_turns = 2\<rparr>"

definition with_repeated_tool_error :: "config \<Rightarrow> int \<Rightarrow> config" where
  "with_repeated_tool_error c threshold =
     \<lparr>c_triggers = Some ((case c_triggers c of None \<Rightarrow> Map.empty | Some m \<Rightarrow> m)
         (TriggerRepeatedToolError \<mapsto> \<lparr>threshold_value = of_int threshold, enabled = True\<rparr>)),
      c_deesc_turns = c_deesc_turns c\<rparr>"

text \<open>A measured confidence is its value and its shortest decimal rendering, which the code
  prints into the trigger's detail.\<close>

record confidence =
  conf_value :: rat
  conf_text :: string

record signals =
  tool_errors :: int
  parse_failures :: int
  retries_used :: int
  explicit_handoff :: int
  sig_confidence :: "confidence option"
  sig_detail :: string

datatype edge_direction = EdgeNone | EdgeEscalate | EdgeDeescalate

record edge =
  direction :: edge_direction
  edge_trigger :: "trigger option"
  fired_threshold :: rat
  from_model :: string
  to_model :: string
  state_before :: string
  state_after :: string
  edge_detail :: string

definition no_edge :: edge where
  "no_edge = \<lparr>direction = EdgeNone, edge_trigger = None, fired_threshold = 0, from_model = [],
     to_model = [], state_before = [], state_after = [], edge_detail = []\<rparr>"

subsection \<open>The router and its construction\<close>

record router =
  r_tiers :: "string list"
  r_floor :: int
  r_cur :: int
  r_highest :: int
  r_config :: config
  r_clean_streak :: int
  r_bound_rung :: int
  r_bound_max :: int
  r_bound_served :: int
  r_bound_blocked :: int
  r_sticky_top :: bool
  r_cold_start :: int
  r_strong_unavailable :: int
  r_has_budget :: bool

type_synonym router_option = "router \<Rightarrow> router"

definition top_rung :: "router \<Rightarrow> int" where
  "top_rung r = int (length (r_tiers r)) - 1"

definition model_at :: "router \<Rightarrow> int \<Rightarrow> string" where
  "model_at r i = r_tiers r ! nat i"

definition with_escalation :: "int \<Rightarrow> int \<Rightarrow> router_option" where
  "with_escalation tool_error_threshold clean_turns r =
     (let m = (case c_triggers (r_config r) of None \<Rightarrow> Map.empty | Some m \<Rightarrow> m);
          m' = m(TriggerRepeatedToolError \<mapsto>
                 \<lparr>threshold_value = of_int tool_error_threshold, enabled = True\<rparr>);
          k = (if clean_turns > 0 then clean_turns else c_deesc_turns (r_config r))
      in r\<lparr>r_config := \<lparr>c_triggers = Some m', c_deesc_turns = k\<rparr>\<rparr>)"

definition with_config :: "config \<Rightarrow> router_option" where
  "with_config c r =
     r\<lparr>r_config :=
        \<lparr>c_triggers = (if c_triggers c \<noteq> None then c_triggers c else c_triggers (r_config r)),
         c_deesc_turns =
           (if c_deesc_turns c > 0 then c_deesc_turns c else c_deesc_turns (r_config r))\<rparr>\<rparr>"

definition with_bounded_top :: "int \<Rightarrow> router_option" where
  "with_bounded_top max_turns r =
     (if max_turns > 0 then r\<lparr>r_bound_rung := top_rung r, r_bound_max := max_turns\<rparr> else r)"

definition with_shared_strong_budget :: "bool \<Rightarrow> router_option" where
  "with_shared_strong_budget present r =
     (if \<not> present \<or> length (r_tiers r) < 2 then r
      else (let r1 = r\<lparr>r_has_budget := True\<rparr>
            in if r_bound_rung r1 < 0 then r1\<lparr>r_bound_rung := top_rung r1\<rparr> else r1))"

definition new_ladder :: "string list \<Rightarrow> int \<Rightarrow> router_option list \<Rightarrow> router" where
  "new_ladder tiers fl opts =
     (let fl1 = (if fl < 0 then 0 else fl);
          fl2 = (if fl1 > int (length tiers) - 1 then int (length tiers) - 1 else fl1);
          r = \<lparr>r_tiers = tiers, r_floor = fl2, r_cur = fl2, r_highest = fl2,
               r_config = \<lparr>c_triggers = Some Map.empty, c_deesc_turns = 2\<rparr>,
               r_clean_streak = 0, r_bound_rung = -1, r_bound_max = 0, r_bound_served = 0,
               r_bound_blocked = 0, r_sticky_top = False, r_cold_start = 0,
               r_strong_unavailable = 0, r_has_budget = False\<rparr>
      in fold (\<lambda>opt r. opt r) opts r)"

definition new_router :: "string \<Rightarrow> string \<Rightarrow> router_option list \<Rightarrow> router" where
  "new_router cheap strong opts = new_ladder [cheap, strong] 0 opts"

subsection \<open>Reading the router\<close>

definition current_model :: "router \<Rightarrow> string" where
  "current_model r = model_at r (r_cur r)"

definition highest_model :: "router \<Rightarrow> string" where
  "highest_model r = model_at r (r_highest r)"

definition router_state :: "router \<Rightarrow> rstate" where
  "router_state r = (if r_cur r > r_floor r then StateEscalated else StateCheap)"

definition bounded :: "router \<Rightarrow> int \<Rightarrow> bool" where
  "bounded r i = (r_bound_max r > 0 \<and> i = r_bound_rung r)"

definition guards_top :: "router \<Rightarrow> int \<Rightarrow> bool" where
  "guards_top r i = (r_bound_rung r \<ge> 0 \<and> i = r_bound_rung r \<and> (r_bound_max r > 0 \<or> r_has_budget r))"

definition per_worker_bound_spent :: "router \<Rightarrow> bool" where
  "per_worker_bound_spent r = (r_bound_max r > 0 \<and> r_bound_served r \<ge> r_bound_max r)"

text \<open>\<open>ex\<close> is what the shared pool's \<open>Exhausted\<close> answers at the time of the call.\<close>

definition strong_budget_exhausted :: "router \<Rightarrow> bool \<Rightarrow> bool" where
  "strong_budget_exhausted r ex = (r_has_budget r \<and> ex)"

definition strong_spent :: "router \<Rightarrow> bool \<Rightarrow> bool" where
  "strong_spent r ex = (per_worker_bound_spent r \<or> strong_budget_exhausted r ex)"

definition strong_bound_exhausted :: "router \<Rightarrow> bool \<Rightarrow> bool" where
  "strong_bound_exhausted r ex =
     (r_sticky_top r \<and> r_bound_rung r \<ge> 0 \<and> r_cur r = r_bound_rung r \<and> strong_spent r ex)"

definition top_bounce :: "router \<Rightarrow> bool \<Rightarrow> int \<Rightarrow> bool" where
  "top_bounce r ex i =
     (if \<not> guards_top r i then False
      else (per_worker_bound_spent r \<and> \<not> r_sticky_top r) \<or> strong_budget_exhausted r ex)"

definition will_serve_floor :: "router \<Rightarrow> bool \<Rightarrow> bool" where
  "will_serve_floor r ex =
     (let target = r_cur r;
          target' = (if top_bounce r ex target \<and> target > 0 then target - 1 else target)
      in target' = r_floor r)"

subsection \<open>Serving a turn\<close>

definition available_neighbour :: "(int \<Rightarrow> bool) \<Rightarrow> router \<Rightarrow> int \<Rightarrow> int option \<times> router" where
  "available_neighbour avail r target =
     (if target > r_floor r then
        (case find avail (rev [0..target - 1]) of
           Some i \<Rightarrow> (Some i, r\<lparr>r_strong_unavailable := r_strong_unavailable r + 1\<rparr>)
         | None \<Rightarrow> (None, r))
      else
        (case find avail [target + 1..top_rung r] of
           Some i \<Rightarrow> (Some i, r\<lparr>r_cold_start := r_cold_start r + 1\<rparr>)
         | None \<Rightarrow> (None, r)))"

definition bounce :: "router \<Rightarrow> bool \<Rightarrow> int \<times> router" where
  "bounce r ex =
     (if top_bounce r ex (r_cur r)
      then (if r_cur r > 0 then r_cur r - 1 else r_cur r,
            r\<lparr>r_bound_blocked := r_bound_blocked r + 1\<rparr>)
      else (r_cur r, r))"

definition fallback :: "(int \<Rightarrow> bool) \<Rightarrow> router \<Rightarrow> int \<Rightarrow> int \<times> router" where
  "fallback avail r target =
     (if avail target then (target, r)
      else (case available_neighbour avail r target of
              (Some alt, r') \<Rightarrow> (alt, r')
            | (None, r') \<Rightarrow> (target, r')))"

definition account :: "'b strong_budget_ops \<Rightarrow> int \<Rightarrow> router \<times> 'b \<Rightarrow> router \<times> 'b" where
  "account ops target = (\<lambda>(r, b).
     let r1 = (if guards_top r target \<and> r_bound_max r > 0
               then r\<lparr>r_bound_served := r_bound_served r + 1\<rparr> else r);
         b1 = (if guards_top r target \<and> r_has_budget r then sb_take ops b else b);
         r2 = (if target > r_highest r1 then r1\<lparr>r_highest := target\<rparr> else r1)
     in (r2, b1))"

text \<open>The first half of a call: the rung for the turn, chosen by what the peek of the pool answered. The
  second half is \<open>account\<close>. Between the two the pool is not locked; \<open>next_adapter\<close> is the call in which no
  other router draws in between, \<open>race_step\<close> of the laws has the two halves apart.\<close>

definition choose_rung :: "bool \<Rightarrow> (int \<Rightarrow> bool) \<Rightarrow> router \<Rightarrow> int \<times> router" where
  "choose_rung ex avail r = (let (target, r1) = bounce r ex in fallback avail r1 target)"

text \<open>The rung that serves the turn, the router after the call and the pool after it.\<close>

definition next_adapter ::
  "'b strong_budget_ops \<Rightarrow> (int \<Rightarrow> bool) \<Rightarrow> router \<times> 'b \<Rightarrow> int \<times> router \<times> 'b" where
  "next_adapter ops avail = (\<lambda>(r, b).
     let (target, r1) = bounce r (sb_exhausted ops b);
         (served, r2) = fallback avail r1 target;
         (r3, b3) = account ops served (r2, b)
     in (served, r3, b3))"

definition lift_floor_to_model :: "string \<Rightarrow> router \<Rightarrow> router" where
  "lift_floor_to_model model_id r =
     (if model_id = [] then r
      else (let target = (case find_index (\<lambda>m. m = model_id) (r_tiers r) of
                            None \<Rightarrow> -1 | Some i \<Rightarrow> int i)
            in if target \<le> r_floor r then r
               else (let target' = (if r_bound_max r > 0 \<and> r_bound_rung r \<ge> 0
                                       \<and> target \<ge> r_bound_rung r
                                    then r_bound_rung r - 1 else target)
                     in if target' \<le> r_floor r then r
                        else r\<lparr>r_floor := target', r_cur := target',
                               r_highest := max target' (r_highest r)\<rparr>)))"

subsection \<open>Trigger detection\<close>

fun fires :: "trigger \<Rightarrow> signals \<Rightarrow> rat \<Rightarrow> bool" where
  "fires TriggerRetryExhaustion s t = (of_int (retries_used s) \<ge> t)"
| "fires TriggerRepeatedToolError s t = (of_int (tool_errors s) \<ge> t)"
| "fires TriggerParseFailure s t = (of_int (parse_failures s) \<ge> t)"
| "fires TriggerExplicitHandoff s t = (of_int (explicit_handoff s) \<ge> t)"
| "fires TriggerLowConfidence s t =
     (case sig_confidence s of None \<Rightarrow> False | Some c \<Rightarrow> conf_value c < t)"
| "fires (OtherTrigger k) s t = False"

fun detail_base :: "trigger \<Rightarrow> signals \<Rightarrow> string" where
  "detail_base TriggerRetryExhaustion s = ''retries_used='' @ itoa (retries_used s)"
| "detail_base TriggerRepeatedToolError s = ''tool_errors='' @ itoa (tool_errors s)"
| "detail_base TriggerParseFailure s = ''parse_failures='' @ itoa (parse_failures s)"
| "detail_base TriggerExplicitHandoff s = ''explicit_handoff='' @ itoa (explicit_handoff s)"
| "detail_base TriggerLowConfidence s =
     ''confidence='' @ (case sig_confidence s of None \<Rightarrow> ''nil'' | Some c \<Rightarrow> conf_text c)"
| "detail_base (OtherTrigger k) s = k"

definition trigger_detail :: "trigger \<Rightarrow> signals \<Rightarrow> string" where
  "trigger_detail k s =
     (if sig_detail s \<noteq> [] then detail_base k s @ '' '' @ sig_detail s else detail_base k s)"

fun detect_in :: "trigger list \<Rightarrow> config \<Rightarrow> signals \<Rightarrow> (trigger \<times> rat \<times> string) option" where
  "detect_in [] c s = None"
| "detect_in (k # ks) c s =
     (case config_lookup c k of
        None \<Rightarrow> detect_in ks c s
      | Some tc \<Rightarrow>
          (if \<not> enabled tc then detect_in ks c s
           else if fires k s (threshold_value tc)
           then Some (k, threshold_value tc, trigger_detail k s)
           else detect_in ks c s))"

definition detect :: "router \<Rightarrow> signals \<Rightarrow> (trigger \<times> rat \<times> string) option" where
  "detect r s = detect_in priority (r_config r) s"

definition state_label :: "bool \<Rightarrow> string" where
  "state_label up = (if up then ''escalated'' else ''cheap'')"

subsection \<open>Transitions\<close>

definition at_top :: "router \<Rightarrow> bool" where
  "at_top r = (r_cur r \<ge> top_rung r)"

definition climb :: "router \<Rightarrow> router" where
  "climb r = r\<lparr>r_cur := r_cur r + 1, r_clean_streak := 0\<rparr>"

definition climb_edge :: "router \<Rightarrow> trigger option \<Rightarrow> rat \<Rightarrow> string \<Rightarrow> edge" where
  "climb_edge r trig threshold det =
     \<lparr>direction = EdgeEscalate, edge_trigger = trig, fired_threshold = threshold,
      from_model = model_at r (r_cur r), to_model = model_at r (r_cur r + 1),
      state_before = state_label (r_cur r > r_floor r), state_after = ''escalated'',
      edge_detail = det\<rparr>"

definition stick_if_top :: "router \<Rightarrow> router" where
  "stick_if_top r = (if r_cur r = top_rung r then r\<lparr>r_sticky_top := True\<rparr> else r)"

definition observe :: "signals \<Rightarrow> router \<Rightarrow> edge \<times> router" where
  "observe s r =
     (case detect r s of
        Some (trig, threshold, det) \<Rightarrow>
          (if r_cur r < top_rung r then (climb_edge r (Some trig) threshold det, climb r)
           else (no_edge, r\<lparr>r_clean_streak := 0\<rparr>))
      | None \<Rightarrow>
          (if r_cur r > r_floor r then
             (let r1 = r\<lparr>r_clean_streak := r_clean_streak r + 1\<rparr>
              in if r_clean_streak r1 \<ge> c_deesc_turns (r_config r1)
                 then (no_edge\<lparr>direction := EdgeDeescalate, from_model := model_at r (r_cur r),
                         to_model := model_at r (r_cur r - 1), state_before := ''escalated'',
                         state_after := ''de_escalated''\<rparr>,
                       r1\<lparr>r_cur := r_cur r - 1, r_clean_streak := 0, r_sticky_top := False\<rparr>)
                 else (no_edge, r1))
           else (no_edge, r)))"

datatype fault_kind = FaultNone | FaultContextOverflow | FaultMalformedToolCall | FaultTimeout | FaultRateLimit

fun fault_text :: "fault_kind \<Rightarrow> string" where
  "fault_text FaultNone = ''''"
| "fault_text FaultContextOverflow = ''context_overflow''"
| "fault_text FaultMalformedToolCall = ''malformed_tool_call''"
| "fault_text FaultTimeout = ''timeout''"
| "fault_text FaultRateLimit = ''rate_limit''"

fun fault_trigger :: "fault_kind \<Rightarrow> trigger option" where
  "fault_trigger FaultMalformedToolCall = Some TriggerParseFailure"
| "fault_trigger FaultContextOverflow = Some TriggerRetryExhaustion"
| "fault_trigger FaultTimeout = Some TriggerRetryExhaustion"
| "fault_trigger _ = None"

definition escalate_for_fault :: "fault_kind \<Rightarrow> router \<Rightarrow> edge \<times> router" where
  "escalate_for_fault f r =
     (if fault_trigger f = None \<or> at_top r then (no_edge, r)
      else (climb_edge r (fault_trigger f) 1 (''model_call_fault='' @ fault_text f), climb r))"

definition escalate_for_stuck_verify :: "int \<Rightarrow> router \<Rightarrow> edge \<times> router" where
  "escalate_for_stuck_verify fails r =
     (if at_top r then (no_edge, r)
      else (climb_edge r (Some TriggerRetryExhaustion) (of_int fails)
              (''verify_stuck consecutive_verify_fails='' @ itoa fails), climb r))"

definition escalate_for_no_progress :: "int \<Rightarrow> router \<Rightarrow> edge \<times> router" where
  "escalate_for_no_progress stalled r =
     (if at_top r then (no_edge, r)
      else (climb_edge r (Some TriggerRetryExhaustion) (of_int stalled)
              (''no_progress stalled_rounds='' @ itoa stalled), stick_if_top (climb r)))"

definition escalate_for_retry_exhaustion :: "int \<Rightarrow> router \<Rightarrow> edge \<times> router" where
  "escalate_for_retry_exhaustion rounds r =
     (if at_top r then (no_edge, r)
      else (climb_edge r (Some TriggerRetryExhaustion) (of_int rounds)
              (''round_budget_exhausted rounds='' @ itoa rounds), stick_if_top (climb r)))"

definition escalate_for_overflow :: "router \<Rightarrow> edge \<times> router" where
  "escalate_for_overflow r =
     (if at_top r then
        (if bounded r (r_cur r) \<and> r_bound_served r \<ge> r_bound_max r \<and> \<not> r_sticky_top r
         then (\<lparr>direction = EdgeEscalate, edge_trigger = fault_trigger FaultContextOverflow,
                fired_threshold = 0, from_model = model_at r (r_floor r),
                to_model = model_at r (r_cur r), state_before = ''escalated'',
                state_after = ''escalated'',
                edge_detail = ''context_overflow: unstick spent bound (floor cannot hold prompt)''\<rparr>,
               r\<lparr>r_sticky_top := True\<rparr>)
         else (no_edge, r))
      else (climb_edge r (fault_trigger FaultContextOverflow) 0
              ''context_overflow: floor window too small for prompt (mandatory escalation)'',
            stick_if_top (climb r)))"

definition deescalate_to_floor :: "router \<Rightarrow> edge \<times> router" where
  "deescalate_to_floor r =
     (if r_cur r \<le> r_floor r then (no_edge, r)
      else (no_edge\<lparr>direction := EdgeDeescalate, from_model := model_at r (r_cur r),
              to_model := model_at r (r_floor r), state_before := ''escalated'',
              state_after := ''de_escalated'',
              edge_detail := ''model_call_fault='' @ fault_text FaultRateLimit\<rparr>,
            r\<lparr>r_cur := r_floor r, r_clean_streak := 0, r_sticky_top := False\<rparr>))"

lemmas router_read_defs [ladder_defs] =
  current_model_def highest_model_def router_state_def bounded_def guards_top_def
  per_worker_bound_spent_def strong_budget_exhausted_def strong_spent_def top_bounce_def at_top_def
  climb_def stick_if_top_def

lemmas router_event_defs [ladder_defs] =
  escalate_for_fault_def escalate_for_stuck_verify_def escalate_for_no_progress_def
  escalate_for_retry_exhaustion_def escalate_for_overflow_def deescalate_to_floor_def

end
