(* ===== verification/Router_Laws.thy ===== *)
theory Router_Laws
  imports Router
begin

text \<open>
  What the router guarantees. A run is a sequence of calls, each one atomic, by any number of
  routers drawing from one shared pool: \<open>router_step\<close> has one rule per method that changes state.
  The lemmas establish the ladder invariant (every index the code uses is in range, so no call
  panics), the direction and size of every transition, the bound on the top rung and on the
  shared pool, and where the serving rung lies.
\<close>

subsection \<open>Well-formed routers\<close>

definition wf_router :: "router \<Rightarrow> bool" where
  "wf_router r \<longleftrightarrow>
     r_tiers r \<noteq> []
     \<and> 0 \<le> r_floor r \<and> r_floor r \<le> r_cur r \<and> r_cur r \<le> top_rung r
     \<and> r_floor r \<le> r_highest r \<and> r_highest r \<le> top_rung r
     \<and> (r_bound_rung r = -1 \<or> r_bound_rung r = top_rung r)
     \<and> 0 \<le> r_bound_max r \<and> (0 < r_bound_max r \<longrightarrow> r_bound_rung r = top_rung r)
     \<and> (r_has_budget r \<longrightarrow> r_bound_rung r = top_rung r \<and> 1 \<le> top_rung r)
     \<and> 0 < c_deesc_turns (r_config r)
     \<and> 0 \<le> r_clean_streak r \<and> r_clean_streak r < c_deesc_turns (r_config r)"

lemma top_rung_simps [simp]:
  "top_rung (r\<lparr>r_cur := a\<rparr>) = top_rung r"
  "top_rung (r\<lparr>r_clean_streak := a\<rparr>) = top_rung r"
  "top_rung (r\<lparr>r_sticky_top := s\<rparr>) = top_rung r"
  "top_rung (r\<lparr>r_floor := a\<rparr>) = top_rung r"
  "top_rung (r\<lparr>r_highest := a\<rparr>) = top_rung r"
  "top_rung (r\<lparr>r_bound_served := a\<rparr>) = top_rung r"
  "top_rung (r\<lparr>r_bound_blocked := a\<rparr>) = top_rung r"
  "top_rung (r\<lparr>r_cold_start := a\<rparr>) = top_rung r"
  "top_rung (r\<lparr>r_strong_unavailable := a\<rparr>) = top_rung r"
  "top_rung (r\<lparr>r_config := c\<rparr>) = top_rung r"
  "top_rung (r\<lparr>r_bound_rung := a\<rparr>) = top_rung r"
  "top_rung (r\<lparr>r_bound_max := a\<rparr>) = top_rung r"
  "top_rung (r\<lparr>r_has_budget := s\<rparr>) = top_rung r"
  by (simp_all add: top_rung_def)

text \<open>The options of the package, as the constructor's caller may pass them.\<close>

inductive ladder_option :: "router_option \<Rightarrow> bool" where
  "ladder_option (with_escalation n k)"
| "ladder_option (with_config c)"
| "ladder_option (with_bounded_top n)"
| "ladder_option (with_shared_strong_budget b)"

lemma ladder_option_wf: "ladder_option opt \<Longrightarrow> wf_router r \<Longrightarrow> r_clean_streak r = 0 \<Longrightarrow>
    wf_router (opt r) \<and> r_clean_streak (opt r) = 0"
  by (induction rule: ladder_option.induct)
    (auto simp: wf_router_def with_escalation_def with_config_def with_bounded_top_def
       with_shared_strong_budget_def Let_def top_rung_def)

lemma fold_options_wf:
  "list_all ladder_option opts \<Longrightarrow> wf_router r \<Longrightarrow> r_clean_streak r = 0 \<Longrightarrow>
     wf_router (fold (\<lambda>opt r. opt r) opts r)"
proof (induction opts arbitrary: r)
  case Nil
  then show ?case by simp
next
  case (Cons opt opts)
  then show ?case using ladder_option_wf [of opt r] by simp
qed

lemma new_ladder_wf:
  "tiers \<noteq> [] \<Longrightarrow> list_all ladder_option opts \<Longrightarrow> wf_router (new_ladder tiers fl opts)"
  unfolding new_ladder_def Let_def
  by (rule fold_options_wf) (auto simp: wf_router_def top_rung_def Suc_le_eq)

subsection \<open>Each method keeps the ladder well-formed\<close>

lemma find_upto_Some: "find p [a..b] = Some i \<Longrightarrow> a \<le> i \<and> i \<le> b \<and> p i"
  by (metis atLeastAtMost_iff find_Some_iff nth_mem set_upto)

lemma find_rev_upto_Some: "find p (rev [a..b]) = Some i \<Longrightarrow> a \<le> i \<and> i \<le> b \<and> p i"
  by (metis atLeastAtMost_iff find_Some_iff nth_mem set_rev set_upto)

lemma climb_wf: "wf_router r \<Longrightarrow> \<not> at_top r \<Longrightarrow> wf_router (climb r)"
  by (auto simp: wf_router_def climb_def at_top_def)

lemma stick_wf [simp]: "wf_router (stick_if_top r) = wf_router r"
  by (auto simp: wf_router_def stick_if_top_def)

lemma sticky_wf [simp]: "wf_router (r\<lparr>r_sticky_top := s\<rparr>) = wf_router r"
  by (auto simp: wf_router_def)

lemma observe_wf: "wf_router r \<Longrightarrow> wf_router (snd (observe s r))"
  by (auto simp: observe_def wf_router_def climb_def Let_def split: option.splits)

lemma events_wf:
  assumes "wf_router r"
  shows "wf_router (snd (escalate_for_fault f r))"
    and "wf_router (snd (escalate_for_stuck_verify n r))"
    and "wf_router (snd (escalate_for_no_progress n r))"
    and "wf_router (snd (escalate_for_retry_exhaustion n r))"
    and "wf_router (snd (escalate_for_overflow r))"
    and "wf_router (snd (deescalate_to_floor r))"
  using assms climb_wf [OF assms]
  by (auto simp: escalate_for_fault_def escalate_for_stuck_verify_def escalate_for_no_progress_def
      escalate_for_retry_exhaustion_def escalate_for_overflow_def)
    (auto simp: deescalate_to_floor_def wf_router_def)

lemma lift_floor_wf: "wf_router r \<Longrightarrow> wf_router (lift_floor_to_model m r)"
  by (auto simp: lift_floor_to_model_def Let_def wf_router_def top_rung_def split: option.splits)

text \<open>The calls of \<open>next_adapter\<close> change counters only.\<close>

definition same_ladder :: "router \<Rightarrow> router \<Rightarrow> bool" where
  "same_ladder r r' \<longleftrightarrow>
     r_tiers r' = r_tiers r \<and> r_floor r' = r_floor r \<and> r_cur r' = r_cur r
     \<and> r_config r' = r_config r \<and> r_clean_streak r' = r_clean_streak r
     \<and> r_bound_rung r' = r_bound_rung r \<and> r_bound_max r' = r_bound_max r
     \<and> r_sticky_top r' = r_sticky_top r \<and> r_has_budget r' = r_has_budget r"

lemma bounce_target:
  assumes "bounce r ex = (t, r1)"
  shows "r_cur r - 1 \<le> t \<and> t \<le> r_cur r \<and> (0 \<le> r_cur r \<longrightarrow> 0 \<le> t)
    \<and> same_ladder r r1 \<and> r_highest r1 = r_highest r \<and> r_bound_served r1 = r_bound_served r"
  using assms by (auto simp: bounce_def same_ladder_def split: if_splits)

lemma fallback_range:
  assumes "fallback avail r t = (s, r1)" "0 \<le> t" "t \<le> top_rung r" "0 \<le> r_floor r"
  shows "0 \<le> s \<and> s \<le> top_rung r \<and> same_ladder r r1 \<and> r_highest r1 = r_highest r
    \<and> r_bound_served r1 = r_bound_served r"
proof (cases "avail t")
  case True
  with assms show ?thesis by (auto simp: fallback_def same_ladder_def)
next
  case False
  with assms show ?thesis
    by (fastforce simp: fallback_def available_neighbour_def same_ladder_def
        split: option.splits if_splits dest: find_upto_Some find_rev_upto_Some)
qed

lemma account_same:
  "account ops t (r, b) = (r1, b1) \<Longrightarrow>
     same_ladder r r1 \<and> r_highest r1 = max t (r_highest r)
     \<and> r_bound_served r1 = r_bound_served r + (if guards_top r t \<and> r_bound_max r > 0 then 1 else 0)
     \<and> b1 = (if guards_top r t \<and> r_has_budget r then sb_take ops b else b)"
  by (auto simp: account_def Let_def same_ladder_def split: if_splits)

lemma same_ladder_trans: "same_ladder a b \<Longrightarrow> same_ladder b c \<Longrightarrow> same_ladder a c"
  by (simp add: same_ladder_def)

lemma same_ladder_reads:
  assumes "same_ladder r r'"
  shows "top_rung r' = top_rung r" "guards_top r' i = guards_top r i"
  using assms by (auto simp: same_ladder_def top_rung_def guards_top_def)

text \<open>The three phases of a call, put together: where the served rung lies and what the call
  counts.\<close>

lemma next_adapter_effect:
  assumes na: "next_adapter ops avail (r, b) = (s, r', b')" and wf: "wf_router r"
  shows "0 \<le> s \<and> s \<le> top_rung r \<and> same_ladder r r' \<and> r_highest r' = max s (r_highest r)
    \<and> r_bound_served r' = r_bound_served r + (if guards_top r s \<and> r_bound_max r > 0 then 1 else 0)
    \<and> b' = (if guards_top r s \<and> r_has_budget r then sb_take ops b else b)"
proof -
  obtain t r1 where b1: "bounce r (sb_exhausted ops b) = (t, r1)" by fastforce
  obtain s2 r2 where f2: "fallback avail r1 t = (s2, r2)" by fastforce
  obtain r3 b3 where a3: "account ops s2 (r2, b) = (r3, b3)" by fastforce
  from na b1 f2 a3 have eq: "s = s2" "r' = r3" "b' = b3" by (auto simp: next_adapter_def)
  note bt = bounce_target [OF b1]
  have l1: "same_ladder r r1" using bt by simp
  have "0 \<le> t" "t \<le> top_rung r1" "0 \<le> r_floor r1"
    using wf bt l1 by (auto simp: wf_router_def same_ladder_def top_rung_def)
  note fr = fallback_range [OF f2 this]
  have l2: "same_ladder r r2" using l1 fr same_ladder_trans by blast
  note ac = account_same [OF a3]
  have l3: "same_ladder r r3" using l2 ac same_ladder_trans by blast
  show ?thesis
    using bt fr ac l3 same_ladder_reads [OF l1] same_ladder_reads [OF l2] l2
    by (simp add: eq same_ladder_def)
qed

lemma next_adapter_wf:
  assumes "next_adapter ops avail (r, b) = (s, r', b')" "wf_router r"
  shows "wf_router r'"
proof -
  note eff = next_adapter_effect [OF assms]
  then have "same_ladder r r'" "r_highest r' = max s (r_highest r)" "s \<le> top_rung r" by auto
  with assms(2) same_ladder_reads(1) [of r r'] show ?thesis
    by (auto simp: wf_router_def same_ladder_def)
qed

subsection \<open>Runs of a spawn tree\<close>

text \<open>
  One call on one router. \<open>env\<close> says which availabilities the environment may answer with:
  \<open>\<lambda>_. True\<close> for any, \<open>all_up\<close> when every adapter is up. In a tree step one of the routers moves
  and the pool is handed on.
\<close>

definition all_up :: "(int \<Rightarrow> bool) \<Rightarrow> bool" where
  "all_up avail \<longleftrightarrow> (\<forall>i. avail i)"

inductive router_step ::
  "'b strong_budget_ops \<Rightarrow> ((int \<Rightarrow> bool) \<Rightarrow> bool) \<Rightarrow> router \<times> 'b \<Rightarrow> router \<times> 'b \<Rightarrow> bool"
  for ops env where
  serve: "env avail \<Longrightarrow> next_adapter ops avail (r, b) = (s, r', b') \<Longrightarrow>
     router_step ops env (r, b) (r', b')"
| observe: "router_step ops env (r, b) (snd (observe sig r), b)"
| fault: "router_step ops env (r, b) (snd (escalate_for_fault f r), b)"
| stuck_verify: "router_step ops env (r, b) (snd (escalate_for_stuck_verify n r), b)"
| no_progress: "router_step ops env (r, b) (snd (escalate_for_no_progress n r), b)"
| retry_exhaustion: "router_step ops env (r, b) (snd (escalate_for_retry_exhaustion n r), b)"
| overflow: "router_step ops env (r, b) (snd (escalate_for_overflow r), b)"
| to_floor: "router_step ops env (r, b) (snd (deescalate_to_floor r), b)"
| lift: "router_step ops env (r, b) (lift_floor_to_model m r, b)"

inductive_cases router_stepE: "router_step ops env (r, b) (r', b')"

inductive tree_step ::
  "'b strong_budget_ops \<Rightarrow> ((int \<Rightarrow> bool) \<Rightarrow> bool) \<Rightarrow> router list \<times> 'b \<Rightarrow> router list \<times> 'b \<Rightarrow> bool"
  for ops env where
  worker: "i < length rs \<Longrightarrow> router_step ops env (rs ! i, b) (r', b') \<Longrightarrow>
     tree_step ops env (rs, b) (rs[i := r'], b')"

lemma router_step_wf:
  assumes "router_step ops env (r, b) (r', b')" "wf_router r"
  shows "wf_router r'"
  using assms(1)
  by (rule router_stepE) (use assms(2) in \<open>auto intro: next_adapter_wf observe_wf events_wf lift_floor_wf\<close>)

lemma tree_step_wf:
  assumes "tree_step ops env (rs, b) (rs', b')" "\<forall>r \<in> set rs. wf_router r"
  shows "\<forall>r \<in> set rs'. wf_router r"
  using assms(1)
proof cases
  case (worker i r')
  then have "wf_router r'" using assms(2) router_step_wf by fastforce
  then show ?thesis using worker assms(2) by (auto dest: set_update_subset_insert [THEN subsetD])
qed

lemma tree_reach_wf:
  assumes "(tree_step ops env)\<^sup>*\<^sup>* (rs, b) (rs', b')" "\<forall>r \<in> set rs. wf_router r"
  shows "\<forall>r \<in> set rs'. wf_router r"
  using assms
proof (induction rule: rtranclp_induct2)
  case refl
  then show ?case by simp
next
  case (step rs1 b1 rs2 b2)
  show ?case by (rule tree_step_wf [OF step(2)]) (rule step(3) [OF step(4)])
qed

subsection \<open>Serving with every adapter up\<close>

lemma fallback_up: "all_up avail \<Longrightarrow> fallback avail r t = (t, r)"
  by (simp add: fallback_def all_up_def)

lemma next_adapter_up:
  assumes "all_up avail"
  shows "fst (next_adapter ops avail (r, b)) =
    (if top_bounce r (sb_exhausted ops b) (r_cur r) \<and> r_cur r > 0 then r_cur r - 1 else r_cur r)"
  using assms
  by (auto simp: next_adapter_def fallback_up bounce_def split: prod.splits)

lemma next_adapter_up_guarded:
  assumes na: "next_adapter ops avail (r, b) = (s, r', b')" and "all_up avail" "wf_router r"
    and "1 \<le> top_rung r" and g: "guards_top r s"
  shows "\<not> top_bounce r (sb_exhausted ops b) s \<and> s = r_cur r"
proof -
  have s: "s = (if top_bounce r (sb_exhausted ops b) (r_cur r) \<and> r_cur r > 0
      then r_cur r - 1 else r_cur r)"
    using next_adapter_up [OF assms(2), of ops r b] na by simp
  have "s = top_rung r"
    using g assms(3) by (auto simp: guards_top_def wf_router_def)
  with s assms(3,4) show ?thesis
    by (auto simp: wf_router_def split: if_splits)
qed

context strong_budget
begin

lemma next_adapter_within_cap:
  assumes na: "next_adapter ops avail (r, b) = (s, r', b')" and up: "all_up avail"
    and wf: "wf_router r" and "within_cap b"
  shows "within_cap b'"
proof (cases "guards_top r s \<and> r_has_budget r")
  case True
  then have "1 \<le> top_rung r" using wf by (simp add: wf_router_def)
  with next_adapter_up_guarded [OF na up wf] True have "\<not> top_bounce r (sb_exhausted ops b) s"
    by blast
  with True have "\<not> sb_exhausted ops b"
    by (simp add: top_bounce_def strong_budget_exhausted_def)
  moreover have "b' = sb_take ops b" using next_adapter_effect [OF na wf] True by simp
  ultimately show ?thesis using take_within_cap by simp
next
  case False
  then have "b' = b" using next_adapter_effect [OF na wf] by auto
  then show ?thesis using assms(4) by simp
qed

lemma router_step_within_cap:
  assumes "router_step ops all_up (r, b) (r', b')" "wf_router r" "within_cap b"
  shows "within_cap b'"
  using assms(1)
  by (rule router_stepE) (use assms(2,3) in \<open>auto intro: next_adapter_within_cap\<close>)

lemma tree_within_cap:
  assumes "(tree_step ops all_up)\<^sup>*\<^sup>* (rs, b) (rs', b')" "\<forall>r \<in> set rs. wf_router r" "within_cap b"
  shows "within_cap b'"
  using assms
proof (induction rule: rtranclp_induct2)
  case refl
  then show ?case by simp
next
  case (step rs1 b1 rs2 b2)
  have wf1: "\<forall>r \<in> set rs1. wf_router r" by (rule tree_reach_wf [OF step(1) step(4)])
  have in1: "within_cap b1" by (rule step(3) [OF step(4,5)])
  from step(2) show ?case
  proof cases
    case (worker i r')
    have "wf_router (rs1 ! i)" using wf1 worker(2) by simp
    then show ?thesis by (rule router_step_within_cap [OF worker(3) _ in1])
  qed
qed

lemma router_step_cap:
  assumes "router_step ops env (r, b) (r', b')" "wf_router r"
  shows "cap b' = cap b"
  using assms(1)
proof (rule router_stepE)
  fix avail s
  assume "next_adapter ops avail (r, b) = (s, r', b')"
  from next_adapter_effect [OF this assms(2)] show ?thesis by (simp add: cap_take)
qed auto

lemma tree_cap:
  assumes "(tree_step ops env)\<^sup>*\<^sup>* (rs, b) (rs', b')" "\<forall>r \<in> set rs. wf_router r"
  shows "cap b' = cap b"
  using assms
proof (induction rule: rtranclp_induct2)
  case refl
  then show ?case by simp
next
  case (step rs1 b1 rs2 b2)
  have wf1: "\<forall>r \<in> set rs1. wf_router r" by (rule tree_reach_wf [OF step(1) step(4)])
  have eq: "cap b1 = cap b" by (rule step(3) [OF step(4)])
  from step(2) show ?case
  proof cases
    case (worker i r')
    have "wf_router (rs1 ! i)" using wf1 worker(2) by simp
    then show ?thesis using router_step_cap [OF worker(3)] eq by simp
  qed
qed

end

subsection \<open>Calls that overlap\<close>

text \<open>
  The shared pool is peeked when a rung is chosen and drawn from when the turn is accounted for, under two
  acquisitions of its lock; another router of the tree may move in between. A state of the tree has the
  routers, the rung each has chosen and not yet accounted for, the pool, and the turns served so far as pairs of
  a router's number and the rung. At most \<open>m\<close> calls are between their two halves at a time.
\<close>

type_synonym 'b race_state = "router list \<times> int option list \<times> 'b \<times> (nat \<times> int) list"

definition busy :: "int option list \<Rightarrow> nat set" where
  "busy pend = {i. i < length pend \<and> pend ! i \<noteq> None}"

inductive race_step :: "'b strong_budget_ops \<Rightarrow> nat \<Rightarrow> 'b race_state \<Rightarrow> 'b race_state \<Rightarrow> bool" for ops m where
  choose: "i < length rs \<Longrightarrow> pend ! i = None \<Longrightarrow> card (busy pend) < m \<Longrightarrow> all_up avail \<Longrightarrow>
     choose_rung (sb_exhausted ops b) avail (rs ! i) = (s, r') \<Longrightarrow>
     race_step ops m (rs, pend, b, turns) (rs[i := r'], pend[i := Some s], b, turns)"
| serve: "i < length rs \<Longrightarrow> pend ! i = Some s \<Longrightarrow> account ops s (rs ! i, b) = (r', b') \<Longrightarrow>
     race_step ops m (rs, pend, b, turns) (rs[i := r'], pend[i := None], b', turns @ [(i, s)])"
| move: "i < length rs \<Longrightarrow> pend ! i = None \<Longrightarrow> router_step ops (\<lambda>_. False) (rs ! i, b) (r', b) \<Longrightarrow>
     race_step ops m (rs, pend, b, turns) (rs[i := r'], pend, b, turns)"

text \<open>A turn on the top rung of a router that draws from the pool, and those a list of turns holds.\<close>

definition strong_turn :: "router list \<Rightarrow> nat \<times> int \<Rightarrow> bool" where
  "strong_turn rs t \<longleftrightarrow> r_has_budget (rs ! fst t) \<and> snd t = top_rung (rs ! fst t)"

definition strong_turns :: "router list \<Rightarrow> (nat \<times> int) list \<Rightarrow> int" where
  "strong_turns rs turns = int (length (filter (strong_turn rs) turns))"

definition strong_busy :: "router list \<Rightarrow> int option list \<Rightarrow> nat set" where
  "strong_busy rs pend = {i. i < length pend \<and> (\<exists>s. pend ! i = Some s \<and> strong_turn rs (i, s))}"

lemma busy_finite [simp]: "finite (busy pend)" "finite (strong_busy rs pend)" "strong_busy rs pend \<subseteq> busy pend"
  by (auto simp: busy_def strong_busy_def)

lemma busy_update:
  "i < length pend \<Longrightarrow> busy (pend[i := x]) = (if x = None then busy pend - {i} else insert i (busy pend))"
  by (auto simp: busy_def nth_list_update)

lemma strong_busy_update:
  assumes "i < length pend" "strong_turn rs' = strong_turn rs"
  shows "strong_busy rs' (pend[i := x]) =
    (case x of None \<Rightarrow> strong_busy rs pend - {i}
     | Some s \<Rightarrow> (if strong_turn rs (i, s) then insert i (strong_busy rs pend) else strong_busy rs pend - {i}))"
  using assms(1) unfolding strong_busy_def assms(2)
  by (auto simp: nth_list_update split: option.splits if_splits)

text \<open>A router that a step changes keeps its ladder and its share of the pool.\<close>

definition same_share :: "router \<Rightarrow> router \<Rightarrow> bool" where
  "same_share r r' \<longleftrightarrow> r_has_budget r' = r_has_budget r \<and> top_rung r' = top_rung r"

lemma same_share_turns: "same_share (rs ! i) r' \<Longrightarrow> strong_turn (rs[i := r']) = strong_turn rs"
proof
  fix t
  assume "same_share (rs ! i) r'"
  then show "strong_turn (rs[i := r']) t = strong_turn rs t"
    by (cases "i < length rs"; cases "fst t = i") (simp_all add: strong_turn_def same_share_def list_update_beyond)
qed

lemma same_ladder_share: "same_ladder r r' \<Longrightarrow> same_share r r'"
  by (simp add: same_share_def same_ladder_reads(1)) (simp add: same_ladder_def)

lemma router_moves_share:
  assumes "router_step ops (\<lambda>_. False) (r, b) (r', b')"
  shows "same_share r r'"
  using assms
  by (rule router_stepE)
    (auto simp: same_share_def observe_def escalate_for_fault_def escalate_for_stuck_verify_def
      escalate_for_no_progress_def escalate_for_retry_exhaustion_def escalate_for_overflow_def
      deescalate_to_floor_def lift_floor_to_model_def climb_def stick_if_top_def Let_def split: option.splits)

lemma choose_rung_effect:
  assumes "choose_rung ex avail r = (s, r')" "wf_router r"
  shows "0 \<le> s \<and> s \<le> top_rung r \<and> same_ladder r r' \<and> r_highest r' = r_highest r"
proof -
  obtain t r1 where b: "bounce r ex = (t, r1)" by fastforce
  with assms(1) have f: "fallback avail r1 t = (s, r')" by (simp add: choose_rung_def)
  note bt = bounce_target [OF b]
  then have l: "same_ladder r r1" by blast
  have "0 \<le> t" "t \<le> top_rung r1" "0 \<le> r_floor r1"
    using assms(2) bt same_ladder_reads(1) [OF l] l by (auto simp: wf_router_def same_ladder_def)
  from fallback_range [OF f this] bt show ?thesis
    using same_ladder_trans [OF l] same_ladder_reads(1) [OF l] by auto
qed

lemma same_ladder_wf:
  "same_ladder r r' \<Longrightarrow> r_highest r' = max s (r_highest r) \<Longrightarrow> s \<le> top_rung r \<Longrightarrow> wf_router r \<Longrightarrow> wf_router r'"
  using same_ladder_reads(1) [of r r'] by (auto simp: wf_router_def same_ladder_def)

text \<open>With every adapter up the top rung of a router that draws from the pool is chosen only when the peek saw
  a turn left.\<close>

lemma choose_rung_peeks:
  assumes "choose_rung ex avail r = (s, r')" "wf_router r" "all_up avail" "r_has_budget r" "s = top_rung r"
  shows "\<not> ex"
proof
  assume ex
  have top: "r_bound_rung r = top_rung r" "1 \<le> top_rung r" "r_cur r \<le> top_rung r"
    using assms(2,4) by (simp_all add: wf_router_def)
  from assms(1,3) have "s = fst (bounce r ex)"
    by (auto simp: choose_rung_def fallback_up split: prod.splits)
  with \<open>ex\<close> assms(4,5) top show False
    by (auto simp: bounce_def top_bounce_def guards_top_def strong_budget_exhausted_def split: if_splits)
qed

lemma next_adapter_halves:
  "next_adapter ops avail (r, b) =
     (case choose_rung (sb_exhausted ops b) avail r of (s, r1) \<Rightarrow> (case account ops s (r1, b) of (r2, b2) \<Rightarrow> (s, r2, b2)))"
  by (simp add: next_adapter_def choose_rung_def split: prod.split)

context strong_budget
begin

definition race_inv :: "int \<Rightarrow> nat \<Rightarrow> 'b race_state \<Rightarrow> bool" where
  "race_inv c m st \<longleftrightarrow> (case st of (rs, pend, b, turns) \<Rightarrow>
     length pend = length rs \<and> (\<forall>r \<in> set rs. wf_router r)
     \<and> (\<forall>i s. i < length rs \<longrightarrow> pend ! i = Some s \<longrightarrow> s \<le> top_rung (rs ! i))
     \<and> cap b = c \<and> card (busy pend) \<le> m \<and> served b = strong_turns rs turns
     \<and> served b + int (card (strong_busy rs pend)) \<le> c + int m - 1)"

lemma race_invI:
  assumes "length pend = length rs" "\<forall>r \<in> set rs. wf_router r"
    "\<forall>i s. i < length rs \<longrightarrow> pend ! i = Some s \<longrightarrow> s \<le> top_rung (rs ! i)"
    "cap b = c" "card (busy pend) \<le> m" "served b = strong_turns rs turns"
    "served b + int (card (strong_busy rs pend)) \<le> c + int m - 1"
  shows "race_inv c m (rs, pend, b, turns)"
  using assms unfolding race_inv_def by blast

lemma race_invD:
  assumes "race_inv c m (rs, pend, b, turns)"
  shows "length pend = length rs" "\<forall>r \<in> set rs. wf_router r"
    "\<forall>i s. i < length rs \<longrightarrow> pend ! i = Some s \<longrightarrow> s \<le> top_rung (rs ! i)"
    "cap b = c" "card (busy pend) \<le> m" "served b = strong_turns rs turns"
    "served b + int (card (strong_busy rs pend)) \<le> c + int m - 1"
  using assms unfolding race_inv_def by blast+

lemma race_inv_keep:
  assumes "length pend = length rs" "\<forall>r \<in> set rs. wf_router r" "i < length rs" "same_share (rs ! i) r'" "wf_router r'"
    "\<forall>k s. k < length rs \<longrightarrow> pend ! k = Some s \<longrightarrow> s \<le> top_rung (rs ! k)"
    "\<And>s. x = Some s \<Longrightarrow> s \<le> top_rung (rs ! i)"
  shows "length (pend[i := x]) = length (rs[i := r'])" "\<forall>r \<in> set (rs[i := r']). wf_router r"
    "\<forall>k s. k < length (rs[i := r']) \<longrightarrow> pend[i := x] ! k = Some s \<longrightarrow> s \<le> top_rung (rs[i := r'] ! k)"
  using assms by (auto simp: nth_list_update same_share_def dest: set_update_subset_insert [THEN subsetD])

lemma race_step_inv:
  assumes "race_step ops m x y" "race_inv c m x" "0 < c"
  shows "race_inv c m y"
  using assms(1)
proof cases
  case (choose i rs pend avail b s r' turns)
  note inv = race_invD [OF assms(2) [unfolded choose(1)]]
  have wf: "wf_router (rs ! i)" using inv(2) choose(3) by simp
  note eff = choose_rung_effect [OF choose(7) wf]
  have sh: "same_share (rs ! i) r'" using eff same_ladder_share by blast
  have wf': "wf_router r'"
    using same_ladder_wf [of "rs ! i" r' "r_floor (rs ! i)"] eff wf by (simp add: wf_router_def max_def)
  note st = same_share_turns [OF sh]
  have busy: "busy (pend[i := Some s]) = insert i (busy pend)" "i \<notin> busy pend"
    using choose(3,4) inv(1) by (simp_all add: busy_update) (simp add: busy_def)
  have sb: "strong_busy (rs[i := r']) (pend[i := Some s]) =
      (if strong_turn rs (i, s) then insert i (strong_busy rs pend) else strong_busy rs pend)"
    using choose(3,4) inv(1) strong_busy_update [OF _ st, of i pend "Some s"] by (auto simp: strong_busy_def)
  have "card (strong_busy (rs[i := r']) (pend[i := Some s])) \<le> card (busy (pend[i := Some s]))"
    by (intro card_mono) simp_all
  then have le: "card (strong_busy (rs[i := r']) (pend[i := Some s])) \<le> m" using busy choose(5) by simp
  have "served b + int (card (strong_busy (rs[i := r']) (pend[i := Some s]))) \<le> c + int m - 1"
  proof (cases "strong_turn rs (i, s)")
    case True
    then have "\<not> sb_exhausted ops b"
      using choose_rung_peeks [OF choose(7) wf choose(6)] by (simp add: strong_turn_def)
    then have "served b < c" using exhausted_iff inv(4) assms(3) by auto
    with le show ?thesis by linarith
  next
    case False
    with sb inv(7) show ?thesis by simp
  qed
  then have bound: "served b + int (card (strong_busy (rs[i := r']) (pend[i := Some s]))) \<le> c + int m - 1" .
  have "card (busy (pend[i := Some s])) \<le> m" using busy choose(5) by simp
  moreover have "served b = strong_turns (rs[i := r']) turns" using inv(6) by (simp add: strong_turns_def st)
  moreover have "t \<le> top_rung (rs ! i)" if "Some s = Some t" for t using eff that by simp
  note race_inv_keep [OF inv(1,2) choose(3) sh wf' inv(3) this]
  ultimately show ?thesis unfolding choose(2) by (intro race_invI inv(4) bound)
next
  case (serve i rs pend s b r' b' turns)
  note inv = race_invD [OF assms(2) [unfolded serve(1)]]
  have wf: "wf_router (rs ! i)" using inv(2) serve(3) by simp
  note eff = account_same [OF serve(5)]
  have sh: "same_share (rs ! i) r'" using eff same_ladder_share by blast
  have s: "s \<le> top_rung (rs ! i)" using inv(3) serve(3,4) by blast
  have wf': "wf_router r'" using same_ladder_wf [of "rs ! i" r' s] eff s wf by blast
  note st = same_share_turns [OF sh]
  have g: "guards_top (rs ! i) s \<and> r_has_budget (rs ! i) \<longleftrightarrow> strong_turn rs (i, s)"
    using wf by (auto simp: guards_top_def strong_turn_def wf_router_def)
  have busy: "card (busy (pend[i := None])) \<le> m"
    using serve(3) inv(1,5) card_Diff1_le [of "busy pend" i] by (simp add: busy_update)
  have turns: "strong_turns (rs[i := r']) (turns @ [(i, s)]) = strong_turns rs turns + (if strong_turn rs (i, s) then 1 else 0)"
    by (simp add: strong_turns_def st)
  have b': "b' = (if strong_turn rs (i, s) then sb_take ops b else b)" using eff g by simp
  have sb: "strong_busy (rs[i := r']) (pend[i := None]) = strong_busy rs pend - {i}"
    using serve(3) inv(1) strong_busy_update [OF _ st, of i pend None] by simp
  have "served b' + int (card (strong_busy (rs[i := r']) (pend[i := None]))) = served b + int (card (strong_busy rs pend))"
  proof (cases "strong_turn rs (i, s)")
    case True
    then have "i \<in> strong_busy rs pend" using serve(3,4) inv(1) by (simp add: strong_busy_def)
    then have n: "card (strong_busy rs pend) = Suc (card (strong_busy rs pend - {i}))"
      using card.remove [OF busy_finite(2)] by blast
    have "served b' = served b + 1" using b' True served_take by simp
    then show ?thesis unfolding sb n by simp
  next
    case False
    then have "strong_busy rs pend - {i} = strong_busy rs pend" using serve(4) by (auto simp: strong_busy_def)
    moreover have "b' = b" using b' False by simp
    ultimately show ?thesis unfolding sb by simp
  qed
  moreover have "served b' = strong_turns (rs[i := r']) (turns @ [(i, s)])"
    using turns b' inv(6) served_take by simp
  moreover have "cap b' = c" using b' inv(4) cap_take by simp
  moreover have "served b' + int (card (strong_busy (rs[i := r']) (pend[i := None]))) \<le> c + int m - 1"
    using calculation(1) inv(7) by simp
  moreover have "t \<le> top_rung (rs ! i)" if "None = Some t" for t using that by simp
  note race_inv_keep [OF inv(1,2) serve(3) sh wf' inv(3) this]
  ultimately show ?thesis unfolding serve(2) by (intro race_invI busy)
next
  case (move i rs pend b r' turns)
  note inv = race_invD [OF assms(2) [unfolded move(1)]]
  have sh: "same_share (rs ! i) r'" by (rule router_moves_share [OF move(5)])
  have wf': "wf_router r'" using router_step_wf [OF move(5)] inv(2) move(3) by simp
  note st = same_share_turns [OF sh]
  have same: "pend[i := None] = pend" using move(4) by (metis list_update_id)
  note kept = race_inv_keep [OF inv(1,2) move(3) sh wf' inv(3), of None, unfolded same, OF option.distinct(1) [THEN notE]]
  have "strong_turns (rs[i := r']) turns = strong_turns rs turns" "strong_busy (rs[i := r']) pend = strong_busy rs pend"
    by (simp_all add: strong_turns_def strong_busy_def st)
  with inv show ?thesis unfolding move(2) by (intro race_invI kept inv(4,5)) simp_all
qed

lemma race_reach_inv:
  "(race_step ops m)\<^sup>*\<^sup>* x y \<Longrightarrow> race_inv c m x \<Longrightarrow> 0 < c \<Longrightarrow> race_inv c m y"
  by (induction rule: rtranclp_induct) (auto intro: race_step_inv)

end

end
