(* ===== verification/Router_Props.thy ===== *)
theory Router_Props
  imports Router_Laws
begin

text \<open>
  The properties of the router and of the budgets it draws from: the range of the indices, what a run of
  turns does to the ladder, the bound of a worker and the shared pool, in calls that are atomic and in calls
  that overlap between the peek of the pool and the draw from it.
\<close>

subsection \<open>Shared lemmas\<close>

text \<open>Routine calls: everything but the three last-resort escalations that stick to the top.\<close>

inductive routine_step ::
  "'b strong_budget_ops \<Rightarrow> router \<times> 'b \<Rightarrow> router \<times> 'b \<Rightarrow> bool" for ops where
  serve: "all_up avail \<Longrightarrow> next_adapter ops avail (r, b) = (s, r', b') \<Longrightarrow>
     routine_step ops (r, b) (r', b')"
| observe: "routine_step ops (r, b) (snd (observe sig r), b)"
| fault: "routine_step ops (r, b) (snd (escalate_for_fault f r), b)"
| stuck_verify: "routine_step ops (r, b) (snd (escalate_for_stuck_verify n r), b)"
| to_floor: "routine_step ops (r, b) (snd (deescalate_to_floor r), b)"
| lift: "routine_step ops (r, b) (lift_floor_to_model m r, b)"

inductive_cases routine_stepE: "routine_step ops (r, b) (r', b')"

definition bound_inv :: "router \<Rightarrow> bool" where
  "bound_inv r \<longleftrightarrow> wf_router r \<and> 1 \<le> top_rung r \<and> \<not> r_sticky_top r
     \<and> (0 < r_bound_max r \<longrightarrow> r_bound_served r \<le> r_bound_max r)"

lemma next_adapter_bound_inv:
  assumes na: "next_adapter ops avail (r, b) = (s, r', b')" and up: "all_up avail"
    and inv: "bound_inv r"
  shows "bound_inv r'"
proof -
  have wf: "wf_router r" and top: "1 \<le> top_rung r" using inv by (auto simp: bound_inv_def)
  note eff = next_adapter_effect [OF na wf]
  have l: "same_ladder r r'" using eff by blast
  have "r_bound_served r' \<le> r_bound_max r" if "0 < r_bound_max r"
  proof (cases "guards_top r s")
    case True
    with next_adapter_up_guarded [OF na up wf top] have "\<not> top_bounce r (sb_exhausted ops b) s"
      by blast
    with True inv that have "r_bound_served r < r_bound_max r"
      by (auto simp: top_bounce_def per_worker_bound_spent_def bound_inv_def)
    with eff show ?thesis by (auto split: if_splits)
  next
    case False
    with eff inv that show ?thesis by (auto simp: bound_inv_def)
  qed
  then show ?thesis
    using l inv next_adapter_wf [OF na wf] same_ladder_reads(1) [OF l]
    by (auto simp: bound_inv_def same_ladder_def)
qed

lemma routine_fields:
  "top_rung (snd (observe s r)) = top_rung r"
  "r_bound_max (snd (observe s r)) = r_bound_max r"
  "r_bound_served (snd (observe s r)) = r_bound_served r"
  "\<not> r_sticky_top r \<Longrightarrow> \<not> r_sticky_top (snd (observe s r))"
  "top_rung (snd (escalate_for_fault f r)) = top_rung r"
  "r_bound_max (snd (escalate_for_fault f r)) = r_bound_max r"
  "r_bound_served (snd (escalate_for_fault f r)) = r_bound_served r"
  "r_sticky_top (snd (escalate_for_fault f r)) = r_sticky_top r"
  "top_rung (snd (escalate_for_stuck_verify n r)) = top_rung r"
  "r_bound_max (snd (escalate_for_stuck_verify n r)) = r_bound_max r"
  "r_bound_served (snd (escalate_for_stuck_verify n r)) = r_bound_served r"
  "r_sticky_top (snd (escalate_for_stuck_verify n r)) = r_sticky_top r"
  by (auto simp: observe_def escalate_for_fault_def escalate_for_stuck_verify_def climb_def Let_def
      split: option.splits)

lemma routine_fields2:
  "top_rung (snd (deescalate_to_floor r)) = top_rung r"
  "r_bound_max (snd (deescalate_to_floor r)) = r_bound_max r"
  "r_bound_served (snd (deescalate_to_floor r)) = r_bound_served r"
  "\<not> r_sticky_top r \<Longrightarrow> \<not> r_sticky_top (snd (deescalate_to_floor r))"
  "top_rung (lift_floor_to_model m r) = top_rung r"
  "r_bound_max (lift_floor_to_model m r) = r_bound_max r"
  "r_bound_served (lift_floor_to_model m r) = r_bound_served r"
  "r_sticky_top (lift_floor_to_model m r) = r_sticky_top r"
  by (auto simp: deescalate_to_floor_def lift_floor_to_model_def Let_def split: option.splits)

lemma routine_step_inv:
  assumes "routine_step ops (r, b) (r', b')" "bound_inv r"
  shows "bound_inv r'"
  using assms(1)
proof (rule routine_stepE)
  fix avail s
  assume "next_adapter ops avail (r, b) = (s, r', b')" "all_up avail"
  then show ?thesis by (rule next_adapter_bound_inv) (rule assms(2))
qed (use assms(2) in \<open>auto simp: bound_inv_def routine_fields routine_fields2
       intro: observe_wf events_wf lift_floor_wf\<close>)

lemma routine_reach_inv:
  assumes "(routine_step ops)\<^sup>*\<^sup>* (r, b) (r', b')" "bound_inv r"
  shows "bound_inv r'"
  using assms
  by (induction rule: rtranclp_induct2) (auto intro: routine_step_inv)

lemma fold_options_bound_inv:
  "list_all ladder_option opts \<Longrightarrow> wf_router r \<Longrightarrow> r_clean_streak r = 0 \<Longrightarrow>
    \<not> r_sticky_top r \<Longrightarrow> r_bound_served r = 0 \<Longrightarrow> 1 \<le> top_rung r \<Longrightarrow>
    bound_inv (fold (\<lambda>opt r. opt r) opts r)"
proof (induction opts arbitrary: r)
  case Nil
  then show ?case by (simp add: bound_inv_def)
next
  case (Cons opt opts)
  have "\<not> r_sticky_top (opt r) \<and> r_bound_served (opt r) = 0 \<and> top_rung (opt r) = top_rung r"
    using Cons.prems(1,4,5)
    by (auto elim!: ladder_option.cases simp: with_escalation_def with_config_def
        with_bounded_top_def with_shared_strong_budget_def Let_def split: if_splits)
  with Cons ladder_option_wf [of opt r] show ?case by simp
qed

lemma new_ladder_bound_inv:
  "2 \<le> length tiers \<Longrightarrow> list_all ladder_option opts \<Longrightarrow> bound_inv (new_ladder tiers fl opts)"
  unfolding new_ladder_def Let_def
  by (rule fold_options_bound_inv) (auto simp: wf_router_def top_rung_def)

text \<open>A turn without a fired trigger, repeated.\<close>

definition clean_turns :: "signals \<Rightarrow> nat \<Rightarrow> router \<Rightarrow> router" where
  "clean_turns s n r = ((\<lambda>r. snd (observe s r)) ^^ n) r"

lemma observe_config [simp]: "r_config (snd (observe s r)) = r_config r"
  "r_floor (snd (observe s r)) = r_floor r"
  by (auto simp: observe_def climb_def Let_def split: option.splits)

lemma observe_clean:
  assumes "detect r s = None" "wf_router r"
  shows "r_cur (snd (observe s r)) =
      (if r_cur r > r_floor r \<and> r_clean_streak r + 1 = c_deesc_turns (r_config r)
       then r_cur r - 1 else r_cur r)"
    "r_clean_streak (snd (observe s r)) =
      (if r_cur r > r_floor r
       then (if r_clean_streak r + 1 = c_deesc_turns (r_config r) then 0 else r_clean_streak r + 1)
       else r_clean_streak r)"
  using assms by (auto simp: observe_def Let_def wf_router_def)

lemma clean_turns_position:
  assumes "detect r s = None" "wf_router r"
  shows "r_cur (clean_turns s n r) =
    max (r_floor r) (r_cur r - (r_clean_streak r + int n) div c_deesc_turns (r_config r))"
  using assms
proof (induction n arbitrary: r)
  case 0
  then have "r_clean_streak r div c_deesc_turns (r_config r) = 0"
    by (simp add: wf_router_def div_pos_pos_trivial)
  with 0 show ?case by (simp add: clean_turns_def wf_router_def)
next
  case (Suc n)
  let ?r = "snd (observe s r)" and ?k = "c_deesc_turns (r_config r)"
  have none: "detect ?r s = None" using Suc.prems(1) by (simp add: detect_def)
  have wf: "wf_router ?r" by (rule observe_wf [OF Suc.prems(2)])
  have k: "0 < ?k" and st: "0 \<le> r_clean_streak r" "r_clean_streak r < ?k"
    and fl: "r_floor r \<le> r_cur r"
    using Suc.prems(2) by (auto simp: wf_router_def)
  have step: "r_cur (clean_turns s (Suc n) r) =
      max (r_floor r) (r_cur ?r - (r_clean_streak ?r + int n) div ?k)"
    using Suc.IH [OF none wf] by (simp add: clean_turns_def funpow_Suc_right del: funpow.simps)
  note oc = observe_clean [OF Suc.prems]
  consider "r_cur r = r_floor r" | "r_floor r < r_cur r" "r_clean_streak r + 1 = ?k"
    | "r_floor r < r_cur r" "r_clean_streak r + 1 \<noteq> ?k" using fl by linarith
  then show ?case
  proof cases
    case 1
    have "0 \<le> (r_clean_streak r + int n) div ?k" "0 \<le> (r_clean_streak r + int (Suc n)) div ?k"
      using k st by (simp_all add: pos_imp_zdiv_nonneg_iff)
    with 1 oc step show ?thesis by simp
  next
    case 2
    then have "r_clean_streak r + int (Suc n) = ?k + int n" by simp
    then have "(r_clean_streak r + int (Suc n)) div ?k = 1 + int n div ?k"
      using k by (simp only: div_add_self1)
    with 2 oc step show ?thesis by simp
  next
    case 3
    with oc step show ?thesis by (simp add: algebra_simps)
  qed
qed

lemma detect_in_Some:
  "detect_in ks c s = Some (k, t, d) \<Longrightarrow>
     \<exists>i < length ks. ks ! i = k \<and> d = trigger_detail k s
       \<and> (\<exists>tc. config_lookup c k = Some tc \<and> enabled tc \<and> threshold_value tc = t \<and> fires k s t)
       \<and> (\<forall>j < i. \<forall>tc. config_lookup c (ks ! j) = Some tc \<longrightarrow> enabled tc \<longrightarrow>
            \<not> fires (ks ! j) s (threshold_value tc))"
proof (induction ks)
  case Nil
  then show ?case by simp
next
  case (Cons a ks)
  show ?case
  proof (cases "\<exists>tc. config_lookup c a = Some tc \<and> enabled tc \<and> fires a s (threshold_value tc)")
    case True
    with Cons.prems show ?thesis by (intro exI [of _ 0]) auto
  next
    case False
    with Cons.prems have "detect_in ks c s = Some (k, t, d)"
      by (auto split: option.splits if_splits)
    from Cons.IH [OF this] obtain i where i: "i < length ks" "ks ! i = k \<and> d = trigger_detail k s
       \<and> (\<exists>tc. config_lookup c k = Some tc \<and> enabled tc \<and> threshold_value tc = t \<and> fires k s t)
       \<and> (\<forall>j < i. \<forall>tc. config_lookup c (ks ! j) = Some tc \<longrightarrow> enabled tc \<longrightarrow>
            \<not> fires (ks ! j) s (threshold_value tc))" by blast
    with False show ?thesis
      by (intro exI [of _ "Suc i"]) (auto simp: less_Suc_eq_0_disj)
  qed
qed

lemma detect_in_None:
  "detect_in ks c s = None \<longleftrightarrow>
     (\<forall>k \<in> set ks. \<forall>tc. config_lookup c k = Some tc \<longrightarrow> enabled tc \<longrightarrow> \<not> fires k s (threshold_value tc))"
  by (induction ks) (auto split: option.splits)

lemma available_neighbour_None:
  "fst (available_neighbour avail r t) = None \<longleftrightarrow>
     (if t > r_floor r then \<forall>i. 0 \<le> i \<and> i < t \<longrightarrow> \<not> avail i
      else \<forall>i. t < i \<and> i \<le> top_rung r \<longrightarrow> \<not> avail i)"
proof (cases "t > r_floor r")
  case True
  then have "fst (available_neighbour avail r t) = None \<longleftrightarrow> find avail (rev [0..t - 1]) = None"
    by (simp add: available_neighbour_def split: option.splits)
  then show ?thesis using True by (auto simp: find_None_iff)
next
  case False
  then have "fst (available_neighbour avail r t) = None \<longleftrightarrow> find avail [t + 1..top_rung r] = None"
    by (simp add: available_neighbour_def split: option.splits)
  then show ?thesis using False by (auto simp: find_None_iff)
qed

lemma available_neighbour_Some:
  "fst (available_neighbour avail r t) = Some i \<Longrightarrow> avail i"
  by (auto simp: available_neighbour_def split: option.splits if_splits
      dest: find_upto_Some find_rev_upto_Some)

lemma fallback_unavailable:
  assumes "fallback avail r t = (s, r2)" "\<not> avail s"
  shows "s = t \<and> fst (available_neighbour avail r t) = None"
  using assms available_neighbour_Some [of avail r t]
  by (auto simp: fallback_def split: if_splits prod.splits option.splits)

subsection \<open>Budgets\<close>

text \<open>However many workers a spawn tree asks for, a positive spawn cap admits at most that many:
  over any sequence of reservations on a fresh budget the number of admitted spawns is the
  budget's count and never exceeds the cap, and a refused reservation consumes nothing.\<close>

theorem spawn_cap_bounds_admissions:
  assumes "0 < cap" and "reserve_all n (new_spawn_budget cap) = (oks, b)"
  shows "int (length (filter id oks)) = sp_count b \<and> sp_count b \<le> cap \<and> length oks = n"
  using reserve_all_sound [OF assms(2)] assms(1) by (simp add: new_spawn_budget_def)

theorem spawn_cap_bounds_admissions_witness:
  "reserve_all 3 (new_spawn_budget 2) = ([True, True, False], \<lparr>sp_cap = 2, sp_count = 2\<rparr>)
   \<and> int (length (filter id [True, True, False])) = sp_count \<lparr>sp_cap = 2, sp_count = 2\<rparr>"
proof -
  have r: "reserve_all 3 (new_spawn_budget 2) = ([True, True, False], \<lparr>sp_cap = 2, sp_count = 2\<rparr>)"
    by (simp add: eval_nat_numeral reserve_def new_spawn_budget_def)
  show ?thesis using r spawn_cap_bounds_admissions [OF _ r] by simp
qed

text \<open>The strong-turn pool is peeked and drawn under two separate lock acquisitions. With \<open>n\<close>
  workers interleaving arbitrarily on a fresh pool of positive cap, the pool can overshoot its cap
  by the workers caught between the two calls, and by no more: at most \<open>cap + n - 1\<close> turns are
  served.\<close>

theorem strong_pool_overshoot_bounded:
  assumes "0 < cap" and "draw_step\<^sup>*\<^sup>* (draw_init cap n) s"
  shows "st_count (dr_pool s) \<le> cap + int n - 1"
  using draw_inv_reach [OF assms] assms(1) by (auto simp: draw_inv_def)

theorem strong_pool_overshoot_bounded_witness:
  "draw_step\<^sup>*\<^sup>* (draw_init 1 2) \<lparr>dr_pool = \<lparr>st_cap = 1, st_count = 2\<rparr>, dr_phase = [Resting, Resting]\<rparr>
   \<and> (2::int) \<le> 1 + int 2 - 1"
proof -
  let ?s1 = "\<lparr>dr_pool = \<lparr>st_cap = 1, st_count = 0\<rparr>, dr_phase = [Peeked, Resting]\<rparr>"
  let ?s2 = "\<lparr>dr_pool = \<lparr>st_cap = 1, st_count = 0\<rparr>, dr_phase = [Peeked, Peeked]\<rparr>"
  let ?s3 = "\<lparr>dr_pool = \<lparr>st_cap = 1, st_count = 1\<rparr>, dr_phase = [Resting, Peeked]\<rparr>"
  let ?s4 = "\<lparr>dr_pool = \<lparr>st_cap = 1, st_count = 2\<rparr>, dr_phase = [Resting, Resting]\<rparr>"
  have "draw_step (draw_init 1 2) ?s1"
    using draw_step.peek [of 0 "draw_init 1 2"]
    by (simp add: draw_init_def new_strong_turn_budget_def exhausted_def eval_nat_numeral)
  moreover have "draw_step ?s1 ?s2"
    using draw_step.peek [of 1 ?s1] by (simp add: exhausted_def)
  moreover have "draw_step ?s2 ?s3"
    using draw_step.take [of 0 ?s2] by (simp add: take_turn_def)
  moreover have "draw_step ?s3 ?s4"
    using draw_step.take [of 1 ?s3] by (simp add: take_turn_def)
  ultimately have run: "draw_step\<^sup>*\<^sup>* (draw_init 1 2) ?s4"
    by (meson converse_rtranclp_into_rtranclp rtranclp.rtrancl_refl)
  show ?thesis using run strong_pool_overshoot_bounded [OF _ run] by simp
qed

subsection \<open>The ladder\<close>

text \<open>In every state a spawn tree of routers can reach, by any sequence of calls under any
  availability of the adapters, each router's floor, current and highest rung are valid indices of
  its ladder with the floor lowest, so no method reads past the ladder.\<close>

theorem ladder_indices_in_range:
  assumes "list_all (\<lambda>(tiers, fl, opts). tiers \<noteq> [] \<and> list_all ladder_option opts) specs"
    and "(tree_step ops env)\<^sup>*\<^sup>* (map (\<lambda>(tiers, fl, opts). new_ladder tiers fl opts) specs, b) (rs, b')"
    and "r \<in> set rs"
  shows "0 \<le> r_floor r \<and> r_floor r \<le> r_cur r \<and> r_cur r < int (length (r_tiers r))
    \<and> r_floor r \<le> r_highest r \<and> r_highest r < int (length (r_tiers r))"
proof -
  have "\<forall>r \<in> set (map (\<lambda>(tiers, fl, opts). new_ladder tiers fl opts) specs). wf_router r"
    using assms(1) by (auto simp: list_all_iff intro!: new_ladder_wf)
  from tree_reach_wf [OF assms(2) this] assms(3) have "wf_router r" by blast
  then show ?thesis by (auto simp: wf_router_def top_rung_def)
qed

theorem ladder_indices_in_range_witness:
  "r_cur (snd (escalate_for_fault FaultTimeout (new_ladder [''q'', ''s''] 0 [with_bounded_top 1]))) < 2"
proof -
  let ?r = "new_ladder [''q'', ''s''] 0 [with_bounded_top 1]"
  have step: "tree_step cost_budget_ops all_up ([?r], new_strong_turn_budget 1)
     ([?r][0 := snd (escalate_for_fault FaultTimeout ?r)], new_strong_turn_budget 1)"
    by (rule tree_step.worker) (auto intro: router_step.fault)
  have "list_all ladder_option [with_bounded_top 1]" by (simp add: ladder_option.intros)
  then show ?thesis
    using ladder_indices_in_range [where specs = "[([''q'', ''s''], 0, [with_bounded_top 1])]"
        and r = "snd (escalate_for_fault FaultTimeout ?r)" and rs = "[snd (escalate_for_fault FaultTimeout ?r)]",
        OF _ r_into_rtranclp] step
    by (simp add: escalate_for_fault_def climb_def new_ladder_def with_bounded_top_def at_top_def
        top_rung_def)
qed

text \<open>C6: Routers that draw from a strong-turn pool of positive cap serve no more strong turns than its cap
  allows while every adapter is available, as long as their calls do not overlap (\<open>m = 1\<close>), and at most one more
  per further call between its peek of the pool and its draw from it: with at most \<open>m\<close> such calls at a time, the
  turns served on the top rung of these routers number at most \<open>cap + m - 1\<close>, over any sequence of calls, faults,
  signals and last-resort escalations, and the pool counts every one of them. Routers without the pool are not
  bounded by it.\<close>

theorem strong_turns_within_pool:
  assumes "0 < cap" and "\<forall>r \<in> set rs. wf_router r"
    and "(race_step cost_budget_ops m)\<^sup>*\<^sup>* (rs, replicate (length rs) None, new_strong_turn_budget cap, [])
       (rs', pend, b', turns)"
  shows "strong_turns rs' turns \<le> cap + int m - 1 \<and> st_count b' = strong_turns rs' turns \<and> st_cap b' = cap"
proof -
  have none: "busy (replicate (length rs) None) = {}" "strong_busy rs (replicate (length rs) None) = {}"
    by (auto simp: busy_def strong_busy_def)
  have "cost_pool.race_inv cap m (rs, replicate (length rs) None, new_strong_turn_budget cap, [])"
    using assms(1,2) none
    by (intro cost_pool.race_invI) (simp_all add: new_strong_turn_budget_def strong_turns_def)
  from cost_pool.race_invD [OF cost_pool.race_reach_inv [OF assms(3) this assms(1)]]
  show ?thesis by simp
qed

text \<open>Two routers that start on their strong rung share a pool of one turn: the second is bounced.\<close>

definition demo_pooled :: router where
  "demo_pooled = new_ladder [''q'', ''s''] 1 [with_shared_strong_budget True]"

definition demo_tree :: "strong_turn_budget race_state" where
  "demo_tree = ([demo_pooled, demo_pooled], replicate (length [demo_pooled, demo_pooled]) None, new_strong_turn_budget 1, [])"

lemma demo_pooled_calls:
  "choose_rung False (\<lambda>_. True) demo_pooled = (1, demo_pooled)"
  "account cost_budget_ops 1 (demo_pooled, new_strong_turn_budget 1) =
     (demo_pooled\<lparr>r_highest := 1\<rparr>, \<lparr>st_cap = 1, st_count = 1\<rparr>)"
  "choose_rung True (\<lambda>_. True) demo_pooled = (0, demo_pooled\<lparr>r_bound_blocked := 1\<rparr>)"
  "account cost_budget_ops 0 (demo_pooled\<lparr>r_bound_blocked := 1\<rparr>, \<lparr>st_cap = 1, st_count = 1\<rparr>) =
     (demo_pooled\<lparr>r_bound_blocked := 1\<rparr>, \<lparr>st_cap = 1, st_count = 1\<rparr>)"
  "sb_exhausted cost_budget_ops \<lparr>st_cap = 1, st_count = 0\<rparr> = False"
  "sb_exhausted cost_budget_ops \<lparr>st_cap = 1, st_count = 1\<rparr> = True"
  by (simp_all add: choose_rung_def bounce_def fallback_def account_def demo_pooled_def new_ladder_def
      with_shared_strong_budget_def cost_budget_ops_def exhausted_def take_turn_def top_bounce_def guards_top_def
      per_worker_bound_spent_def strong_budget_exhausted_def top_rung_def new_strong_turn_budget_def)

lemma strong_turns_within_pool_witness:
  "strong_turns [demo_pooled\<lparr>r_highest := 1\<rparr>, demo_pooled\<lparr>r_bound_blocked := 1\<rparr>] [(0, 1), (1, 0)] \<le> 1"
proof -
  let ?r0 = "demo_pooled\<lparr>r_highest := 1\<rparr>" and ?r1 = "demo_pooled\<lparr>r_bound_blocked := 1\<rparr>"
  let ?b = "\<lparr>st_cap = 1, st_count = 1\<rparr>"
  let ?step = "race_step cost_budget_ops 1"
  have free: "busy [None, None] = {}" by (auto simp: busy_def nth_Cons split: nat.splits)
  have up: "all_up (\<lambda>_. True)" by (simp add: all_up_def)
  have s1: "?step demo_tree ([demo_pooled, demo_pooled], [Some 1, None], new_strong_turn_budget 1, [])"
    using race_step.choose [where i = 0 and ops = cost_budget_ops and m = 1 and rs = "[demo_pooled, demo_pooled]"
        and pend = "[None, None]" and b = "new_strong_turn_budget 1" and turns = "[]", OF _ _ _ up] demo_pooled_calls(1,5) free
    by (simp add: demo_tree_def new_strong_turn_budget_def numeral_2_eq_2)
  have s2: "?step ([demo_pooled, demo_pooled], [Some 1, None], new_strong_turn_budget 1, [])
      ([?r0, demo_pooled], [None, None], ?b, [(0, 1)])"
    using race_step.serve [where i = 0 and ops = cost_budget_ops and m = 1 and rs = "[demo_pooled, demo_pooled]"
        and pend = "[Some 1, None]" and s = 1 and b = "new_strong_turn_budget 1" and r' = ?r0 and b' = ?b and turns = "[]"]
      demo_pooled_calls(2)
    by simp
  have s3: "?step ([?r0, demo_pooled], [None, None], ?b, [(0, 1)]) ([?r0, ?r1], [None, Some 0], ?b, [(0, 1)])"
    using race_step.choose [where i = 1 and ops = cost_budget_ops and m = 1 and rs = "[?r0, demo_pooled]"
        and pend = "[None, None]" and b = ?b and turns = "[(0, 1)]", OF _ _ _ up] demo_pooled_calls(3,6) free
    by simp
  have s4: "?step ([?r0, ?r1], [None, Some 0], ?b, [(0, 1)]) ([?r0, ?r1], [None, None], ?b, [(0, 1), (1, 0)])"
    using race_step.serve [where i = 1 and ops = cost_budget_ops and m = 1 and rs = "[?r0, ?r1]"
        and pend = "[None, Some 0]" and s = 0 and b = ?b and r' = ?r1 and b' = ?b and turns = "[(0, 1)]"]
      demo_pooled_calls(4)
    by simp
  from s1 s2 s3 s4 have run: "?step\<^sup>*\<^sup>* demo_tree ([?r0, ?r1], [None, None], ?b, [(0, 1), (1, 0)])"
    by (meson converse_rtranclp_into_rtranclp rtranclp.rtrancl_refl)
  have "\<forall>r \<in> set [demo_pooled, demo_pooled]. wf_router r"
    using new_ladder_wf [of "[''q'', ''s'']"] by (simp add: demo_pooled_def ladder_option.intros)
  from strong_turns_within_pool [OF _ this run [unfolded demo_tree_def]] show ?thesis by simp
qed

text \<open>The availability of the adapters matters. On a two-rung ladder with a spent pool and the
  cheap adapter down, the refused climb falls back to the cheap rung, the cold-start fallback
  climbs from there onto the spent strong rung again, and a strong turn is served beyond the
  cap.\<close>

theorem spent_pool_overdrawn_by_cold_start:
  "\<exists>r b avail. wf_router r \<and> r_has_budget r \<and> st_cap b = 1 \<and> exhausted b
     \<and> fst (next_adapter cost_budget_ops avail (r, b)) = top_rung r
     \<and> st_count (snd (snd (next_adapter cost_budget_ops avail (r, b)))) > st_cap b"
proof -
  let ?r = "climb (new_ladder [''q'', ''s''] 0 [with_shared_strong_budget True])"
  let ?b = "\<lparr>st_cap = 1, st_count = 1\<rparr>"
  have "wf_router ?r"
    by (rule climb_wf [OF new_ladder_wf])
      (auto simp: ladder_option.intros at_top_def top_rung_def new_ladder_def
        with_shared_strong_budget_def)
  moreover have "next_adapter cost_budget_ops (\<lambda>i. i = 1) (?r, ?b) =
      (1, ?r\<lparr>r_bound_blocked := 1, r_cold_start := 1, r_highest := 1\<rparr>, \<lparr>st_cap = 1, st_count = 2\<rparr>)"
    by (simp add: next_adapter_def bounce_def fallback_def available_neighbour_def account_def
        climb_def new_ladder_def with_shared_strong_budget_def cost_budget_ops_def exhausted_def
        take_turn_def top_bounce_def guards_top_def per_worker_bound_spent_def
        strong_budget_exhausted_def top_rung_def)
  ultimately show ?thesis
    by (intro exI [of _ ?r] exI [of _ ?b] exI [of _ "\<lambda>i. i = 1"])
      (simp add: climb_def new_ladder_def with_shared_strong_budget_def exhausted_def top_rung_def)
qed

text \<open>With every adapter available and only routine escalation (turn-boundary triggers, model
  faults, stuck verification, rate-limit descent, carried floors), the usage-bounded top rung of a
  ladder of at least two rungs never serves more than its bound, over any sequence of calls.\<close>

theorem bounded_top_routine_use:
  assumes "2 \<le> length tiers" and "list_all ladder_option opts"
    and "(routine_step ops)\<^sup>*\<^sup>* (new_ladder tiers fl opts, b) (r', b')" and "0 < r_bound_max r'"
  shows "r_bound_served r' \<le> r_bound_max r'"
proof -
  have "bound_inv (new_ladder tiers fl opts)"
    by (rule new_ladder_bound_inv [OF assms(1,2)])
  from routine_reach_inv [OF assms(3) this] assms(4) show ?thesis by (simp add: bound_inv_def)
qed

theorem bounded_top_routine_use_witness:
  "r_bound_served (fst (snd (next_adapter cost_budget_ops (\<lambda>_. True)
      (new_ladder [''q'', ''s''] 1 [with_bounded_top 3], new_strong_turn_budget 0)))) \<le> 3"
proof -
  let ?r = "new_ladder [''q'', ''s''] 1 [with_bounded_top 3]"
  obtain s r' b' where na:
    "next_adapter cost_budget_ops (\<lambda>_. True) (?r, new_strong_turn_budget 0) = (s, r', b')"
    using prod_cases3 by blast
  have step: "routine_step cost_budget_ops (?r, new_strong_turn_budget 0) (r', b')"
    by (rule routine_step.serve [OF _ na]) (simp add: all_up_def)
  then have run: "(routine_step cost_budget_ops)\<^sup>*\<^sup>* (?r, new_strong_turn_budget 0) (r', b')" by blast
  have "wf_router ?r" by (rule new_ladder_wf) (auto simp: ladder_option.intros)
  then have m: "r_bound_max r' = 3"
    using next_adapter_effect [OF na]
    by (auto simp: same_ladder_def new_ladder_def with_bounded_top_def)
  have "list_all ladder_option [with_bounded_top 3]" by (simp add: ladder_option.intros)
  with bounded_top_routine_use [OF _ _ run] m na show ?thesis by simp
qed

text \<open>A run of turns folded into a router, and where the ladder stands before each of them.\<close>

definition after_turns :: "router \<Rightarrow> signals list \<Rightarrow> router" where
  "after_turns r sigs = fold (\<lambda>s r. snd (observe s r)) sigs r"

definition rung_before :: "router \<Rightarrow> signals list \<Rightarrow> nat \<Rightarrow> int" where
  "rung_before r sigs t = r_cur (after_turns r (take t sigs))"

definition clean_turn :: "router \<Rightarrow> signals list \<Rightarrow> nat \<Rightarrow> bool" where
  "clean_turn r sigs t \<longleftrightarrow> detect r (sigs ! t) = None"

definition clean_there :: "router \<Rightarrow> signals list \<Rightarrow> nat \<Rightarrow> nat \<Rightarrow> bool" where
  "clean_there r sigs t j \<longleftrightarrow> clean_turn r sigs j \<and> rung_before r sigs j = rung_before r sigs t"

text \<open>The last turns, as many as the hysteresis asks for and turn \<open>t\<close> included, were clean and all at the rung
  of \<open>t\<close>.\<close>

definition rested :: "router \<Rightarrow> signals list \<Rightarrow> nat \<Rightarrow> bool" where
  "rested r sigs t \<longleftrightarrow> (let k = nat (c_deesc_turns (r_config r)) in
     k \<le> t + 1 \<and> (\<forall>j. t + 1 - k \<le> j \<and> j \<le> t \<longrightarrow> clean_there r sigs t j))"

lemma after_turns_Suc: "t < length sigs \<Longrightarrow>
    after_turns r (take (Suc t) sigs) = snd (observe (sigs ! t) (after_turns r (take t sigs)))"
  by (simp add: after_turns_def take_Suc_conv_app_nth)

lemma observe_fixed: "r_tiers (snd (observe s r)) = r_tiers r" "detect (snd (observe s r)) s' = detect r s'"
  by (auto simp: observe_def climb_def detect_def Let_def split: option.splits)

lemma after_turns_fixed: "r_config (after_turns r sigs) = r_config r" "r_floor (after_turns r sigs) = r_floor r"
  "r_tiers (after_turns r sigs) = r_tiers r" "detect (after_turns r sigs) s = detect r s"
  by (induction sigs arbitrary: r) (simp_all add: after_turns_def observe_fixed)

lemma after_turns_wf: "wf_router r \<Longrightarrow> wf_router (after_turns r sigs)"
  by (induction sigs arbitrary: r) (simp_all add: after_turns_def observe_wf)

text \<open>The streak counts the clean turns back to the last trigger or move, and none on the floor.\<close>

definition streak_exact :: "router \<Rightarrow> signals list \<Rightarrow> nat \<Rightarrow> bool" where
  "streak_exact r sigs t \<longleftrightarrow> (\<exists>n. r_clean_streak (after_turns r (take t sigs)) = int n \<and> n \<le> t
     \<and> (\<forall>j. t - n \<le> j \<and> j < t \<longrightarrow> clean_there r sigs t j)
     \<and> (n < t \<longrightarrow> \<not> clean_there r sigs t (t - n - 1) \<or> rung_before r sigs t = r_floor r)
     \<and> (rung_before r sigs t = r_floor r \<longrightarrow> n = 0))"

lemma streak_exactI:
  assumes "r_clean_streak (after_turns r (take t sigs)) = int n" "n \<le> t"
    "\<And>j. t - n \<le> j \<Longrightarrow> j < t \<Longrightarrow> clean_there r sigs t j"
    "n < t \<Longrightarrow> \<not> clean_there r sigs t (t - n - 1) \<or> rung_before r sigs t = r_floor r"
    "rung_before r sigs t = r_floor r \<Longrightarrow> n = 0"
  shows "streak_exact r sigs t"
  using assms unfolding streak_exact_def by blast

lemma streak_rested:
  assumes "streak_exact r sigs t" "clean_turn r sigs t" "rung_before r sigs t > r_floor r" "0 < c_deesc_turns (r_config r)"
  shows "rested r sigs t \<longleftrightarrow> c_deesc_turns (r_config r) \<le> r_clean_streak (after_turns r (take t sigs)) + 1"
proof -
  obtain n where n: "r_clean_streak (after_turns r (take t sigs)) = int n" "n \<le> t"
    and in_n: "\<forall>j. t - n \<le> j \<and> j < t \<longrightarrow> clean_there r sigs t j"
    and max: "n < t \<longrightarrow> \<not> clean_there r sigs t (t - n - 1) \<or> rung_before r sigs t = r_floor r"
    using assms(1) unfolding streak_exact_def by blast
  define k where "k = nat (c_deesc_turns (r_config r))"
  have k: "c_deesc_turns (r_config r) = int k" "0 < k" using assms(4) by (simp_all add: k_def)
  have now: "clean_there r sigs t t" using assms(2) by (simp add: clean_there_def)
  have "rested r sigs t \<longleftrightarrow> k \<le> n + 1"
  proof
    assume rest: "rested r sigs t"
    then have w: "k \<le> t + 1" "\<forall>j. t + 1 - k \<le> j \<and> j \<le> t \<longrightarrow> clean_there r sigs t j"
      unfolding rested_def Let_def k_def by blast+
    show "k \<le> n + 1"
    proof (rule ccontr)
      assume "\<not> k \<le> n + 1"
      with w(1) have "n < t" "t + 1 - k \<le> t - n - 1" "t - n - 1 \<le> t" by linarith+
      with max w(2) assms(3) show False by fastforce
    qed
  next
    assume kn: "k \<le> n + 1"
    have "clean_there r sigs t j" if "t + 1 - k \<le> j" "j \<le> t" for j
    proof (cases "j = t")
      case False
      with that kn have "t - n \<le> j \<and> j < t" by linarith
      with in_n show ?thesis by blast
    qed (use now in simp)
    moreover have "k \<le> t + 1" using kn n(2) by simp
    ultimately show "rested r sigs t" unfolding rested_def Let_def k_def by blast
  qed
  also have "\<dots> \<longleftrightarrow> int k \<le> int n + 1" by linarith
  finally show ?thesis using n(1) k(1) by simp
qed

text \<open>One turn of a run, in terms of the run so far.\<close>

lemma turn_move:
  assumes wf: "wf_router r" and t: "t < length sigs" and ex: "streak_exact r sigs t"
  shows "rung_before r sigs (Suc t) =
      (if \<not> clean_turn r sigs t then min (rung_before r sigs t + 1) (top_rung r)
       else if rung_before r sigs t > r_floor r \<and> rested r sigs t then rung_before r sigs t - 1
       else rung_before r sigs t)"
    and "r_clean_streak (after_turns r (take (Suc t) sigs)) =
      (if \<not> clean_turn r sigs t then 0
       else if rung_before r sigs t > r_floor r
       then (if rested r sigs t then 0 else r_clean_streak (after_turns r (take t sigs)) + 1)
       else r_clean_streak (after_turns r (take t sigs)))"
proof -
  let ?a = "after_turns r (take t sigs)" and ?s = "sigs ! t"
  have a: "wf_router ?a" by (rule after_turns_wf [OF wf])
  have f: "r_floor ?a = r_floor r" "r_config ?a = r_config r" "top_rung ?a = top_rung r" "detect ?a ?s = detect r ?s"
    by (simp_all add: after_turns_fixed top_rung_def)
  have le: "r_cur ?a \<le> top_rung r" "0 < c_deesc_turns (r_config r)" using a by (simp_all add: wf_router_def f)
  have rest: "rested r sigs t \<longleftrightarrow> c_deesc_turns (r_config r) \<le> r_clean_streak ?a + 1"
    if "clean_turn r sigs t" "rung_before r sigs t > r_floor r" using streak_rested [OF ex that le(2)] .
  show "rung_before r sigs (Suc t) =
      (if \<not> clean_turn r sigs t then min (rung_before r sigs t + 1) (top_rung r)
       else if rung_before r sigs t > r_floor r \<and> rested r sigs t then rung_before r sigs t - 1
       else rung_before r sigs t)"
    "r_clean_streak (after_turns r (take (Suc t) sigs)) =
      (if \<not> clean_turn r sigs t then 0
       else if rung_before r sigs t > r_floor r then (if rested r sigs t then 0 else r_clean_streak ?a + 1)
       else r_clean_streak ?a)"
    unfolding rung_before_def after_turns_Suc [OF t]
    using le rest
    by (auto simp: observe_def f clean_turn_def rung_before_def climb_def Let_def min_def split: option.splits)
qed

lemma streak_exact_step:
  assumes wf: "wf_router r" and t: "t < length sigs" and ex: "streak_exact r sigs t"
  shows "streak_exact r sigs (Suc t)"
proof -
  obtain n where n: "r_clean_streak (after_turns r (take t sigs)) = int n" "n \<le> t"
    and in_n: "\<forall>j. t - n \<le> j \<and> j < t \<longrightarrow> clean_there r sigs t j"
    and max: "n < t \<longrightarrow> \<not> clean_there r sigs t (t - n - 1) \<or> rung_before r sigs t = r_floor r"
    and fl: "rung_before r sigs t = r_floor r \<longrightarrow> n = 0"
    using ex unfolding streak_exact_def by blast
  note move = turn_move [OF wf t ex]
  have ge: "r_floor r \<le> rung_before r sigs t"
    using after_turns_wf [OF wf, of "take t sigs"] by (simp add: wf_router_def rung_before_def after_turns_fixed)
  have prev: "Suc t - 0 - 1 = t" by simp
  consider (dirty) "\<not> clean_turn r sigs t"
    | (down) "clean_turn r sigs t" "rung_before r sigs t > r_floor r" "rested r sigs t"
    | (stay) "clean_turn r sigs t" "rung_before r sigs t > r_floor r" "\<not> rested r sigs t"
    | (floor) "clean_turn r sigs t" "rung_before r sigs t = r_floor r" using ge by fastforce
  then show ?thesis
  proof cases
    case dirty
    with move(2) show ?thesis
      by (intro streak_exactI [of _ _ _ 0]) (simp_all add: clean_there_def)
  next
    case down
    with move show ?thesis
      by (intro streak_exactI [of _ _ _ 0]) (simp_all add: clean_there_def)
  next
    case stay
    then have m: "rung_before r sigs (Suc t) = rung_before r sigs t"
      "r_clean_streak (after_turns r (take (Suc t) sigs)) = int (Suc n)" using move n(1) by simp_all
    have same: "clean_there r sigs (Suc t) j = clean_there r sigs t j" for j by (simp only: clean_there_def m(1))
    show ?thesis
    proof (rule streak_exactI [OF m(2)])
      show "Suc n \<le> Suc t" using n(2) by simp
      show "clean_there r sigs (Suc t) j" if "Suc t - Suc n \<le> j" "j < Suc t" for j
      proof (cases "j = t")
        case True
        with stay(1) show ?thesis unfolding same by (simp add: clean_there_def)
      next
        case False
        with that have "t - n \<le> j \<and> j < t" by linarith
        with in_n show ?thesis unfolding same by blast
      qed
      show "\<not> clean_there r sigs (Suc t) (Suc t - Suc n - 1) \<or> rung_before r sigs (Suc t) = r_floor r" if "Suc n < Suc t"
        using max that unfolding same m(1) by simp
      show "Suc n = 0" if "rung_before r sigs (Suc t) = r_floor r" using that stay(2) m(1) by simp
    qed
  next
    case floor
    with move fl n(1) show ?thesis
      by (intro streak_exactI [of _ _ _ 0]) simp_all
  qed
qed

lemma streak_exact_all:
  assumes "wf_router r" "r_clean_streak r = 0"
  shows "t \<le> length sigs \<Longrightarrow> streak_exact r sigs t"
proof (induction t)
  case 0
  show ?case using assms(2) by (intro streak_exactI [of _ _ _ 0]) (simp_all add: after_turns_def)
next
  case (Suc t)
  then show ?case using streak_exact_step [OF assms(1)] by simp
qed

lemma new_ladder_streak: "list_all ladder_option opts \<Longrightarrow> r_clean_streak (new_ladder tiers fl opts) = 0"
proof -
  have "r_clean_streak (fold (\<lambda>opt r. opt r) opts r) = r_clean_streak r" if "list_all ladder_option opts" for r
    using that
  proof (induction opts arbitrary: r)
    case (Cons opt opts)
    have "r_clean_streak (opt r) = r_clean_streak r"
      using Cons.prems by (auto elim!: ladder_option.cases simp: with_escalation_def with_config_def
          with_bounded_top_def with_shared_strong_budget_def Let_def split: if_splits)
    with Cons show ?case by simp
  qed simp
  then show "list_all ladder_option opts \<Longrightarrow> ?thesis" by (simp add: new_ladder_def Let_def)
qed

lemma observe_edge:
  assumes "observe s a = (e, r')"
  shows "direction e = (if r_cur a < r_cur r' then EdgeEscalate else if r_cur r' < r_cur a then EdgeDeescalate else EdgeNone)
    \<and> (direction e \<noteq> EdgeNone \<longrightarrow> from_model e = r_tiers a ! nat (r_cur a) \<and> to_model e = r_tiers a ! nat (r_cur r'))
    \<and> (direction e = EdgeEscalate \<longrightarrow> detect a s = Some (the (edge_trigger e), fired_threshold e, edge_detail e))"
proof (cases "detect a s")
  case None
  show ?thesis
  proof (cases "r_cur a > r_floor a \<and> c_deesc_turns (r_config a) \<le> r_clean_streak a + 1")
    case True
    with None assms have "direction e = EdgeDeescalate" "from_model e = model_at a (r_cur a)" "to_model e = model_at a (r_cur a - 1)"
      "r_cur r' = r_cur a - 1" by (auto simp: observe_def)
    then show ?thesis by (simp add: model_at_def)
  next
    case False
    with None assms have "direction e = EdgeNone" "r_cur r' = r_cur a"
      by (auto simp: observe_def no_edge_def Let_def split: if_splits)
    then show ?thesis by simp
  qed
next
  case (Some x)
  obtain k q d where x: "x = (k, q, d)" by (cases x)
  show ?thesis
  proof (cases "r_cur a < top_rung a")
    case True
    with Some x assms have "e = climb_edge a (Some k) q d" "r' = climb a" by (simp_all add: observe_def)
    then show ?thesis using Some x by (simp add: climb_edge_def climb_def model_at_def)
  next
    case False
    with Some x assms have "e = no_edge" "r' = a\<lparr>r_clean_streak := 0\<rparr>" by (simp_all add: observe_def)
    then show ?thesis by (simp add: no_edge_def)
  qed
qed

text \<open>C34: Over any run of turns folded into a freshly built ladder: a turn in which a trigger is detected climbs
  one rung unless the ladder is at its top; a clean turn descends one rung exactly when it is above the
  floor and completes as many clean turns in a row at that rung as the hysteresis asks for; every other turn
  leaves the rung. The rung never leaves the range from the floor to the top, and the edge returned says
  which of the three happened, between which models, and for a climb by which trigger.\<close>

theorem observe_transition:
  assumes "tiers \<noteq> []" "list_all ladder_option opts" "r = new_ladder tiers fl opts" "t < length sigs"
    and "observe (sigs ! t) (after_turns r (take t sigs)) = (e, r')"
  shows "r_floor r \<le> rung_before r sigs t \<and> rung_before r sigs t \<le> top_rung r
    \<and> rung_before r sigs (t + 1) =
        (if detect r (sigs ! t) \<noteq> None
         then if rung_before r sigs t = top_rung r then rung_before r sigs t else rung_before r sigs t + 1
         else if r_floor r < rung_before r sigs t \<and> rested r sigs t then rung_before r sigs t - 1
         else rung_before r sigs t)
    \<and> direction e = (if rung_before r sigs t < rung_before r sigs (t + 1) then EdgeEscalate
        else if rung_before r sigs (t + 1) < rung_before r sigs t then EdgeDeescalate else EdgeNone)
    \<and> (direction e \<noteq> EdgeNone \<longrightarrow> from_model e = r_tiers r ! nat (rung_before r sigs t)
        \<and> to_model e = r_tiers r ! nat (rung_before r sigs (t + 1)))
    \<and> (direction e = EdgeEscalate \<longrightarrow>
        detect r (sigs ! t) = Some (the (edge_trigger e), fired_threshold e, edge_detail e))"
proof -
  let ?a = "after_turns r (take t sigs)"
  have wf: "wf_router r" and st: "r_clean_streak r = 0"
    using new_ladder_wf [OF assms(1,2)] new_ladder_streak [OF assms(2)] assms(3) by simp_all
  have a: "wf_router ?a" by (rule after_turns_wf [OF wf])
  have f: "r_floor ?a = r_floor r" "r_tiers ?a = r_tiers r" "top_rung ?a = top_rung r" "detect ?a s = detect r s" for s
    by (simp_all add: after_turns_fixed top_rung_def)
  have range: "r_floor r \<le> rung_before r sigs t" "rung_before r sigs t \<le> top_rung r"
    using a by (simp_all add: wf_router_def rung_before_def f)
  have move: "rung_before r sigs (t + 1) =
        (if detect r (sigs ! t) \<noteq> None
         then if rung_before r sigs t = top_rung r then rung_before r sigs t else rung_before r sigs t + 1
         else if r_floor r < rung_before r sigs t \<and> rested r sigs t then rung_before r sigs t - 1
         else rung_before r sigs t)"
    using turn_move(1) [OF wf assms(4) streak_exact_all [OF wf st]] assms(4) range
    by (auto simp: clean_turn_def min_def)
  have edge: "rung_before r sigs (t + 1) = r_cur r'" "rung_before r sigs t = r_cur ?a"
    using after_turns_Suc [OF assms(4), of r] assms(5) by (simp_all add: rung_before_def)
  note edge_exact = observe_edge [OF assms(5), unfolded f]
  from range move show ?thesis using edge_exact unfolding edge by blast
qed

text \<open>Two failing turns climb two rungs, the third clean turn in a row at the top would come down with a
  hysteresis of three; a trigger in between starts the count again.\<close>

definition failing_turn :: signals where
  "failing_turn = \<lparr>tool_errors = 3, parse_failures = 0, retries_used = 0, explicit_handoff = 0,
     sig_confidence = None, sig_detail = []\<rparr>"

definition good_turn :: signals where
  "good_turn = failing_turn\<lparr>tool_errors := 0\<rparr>"

definition demo_ladder :: router where
  "demo_ladder = new_ladder [''q'', ''m'', ''s''] 0 [with_escalation 1 2]"

lemma demo_ladder_turns:
  "r_floor demo_ladder = 0" "top_rung demo_ladder = 2" "c_deesc_turns (r_config demo_ladder) = 2"
  "detect demo_ladder good_turn = None" "detect demo_ladder failing_turn \<noteq> None"
  by (simp_all add: demo_ladder_def new_ladder_def with_escalation_def top_rung_def detect_def priority_def
      config_lookup_def good_turn_def failing_turn_def)

theorem observe_transition_witness:
  "map (rung_before demo_ladder [failing_turn, good_turn, failing_turn, good_turn, good_turn]) [0, 1, 2, 3, 4, 5] = [0, 1, 1, 2, 2, 1]"
proof -
  let ?sigs = "[failing_turn, good_turn, failing_turn, good_turn, good_turn]"
  have opts: "list_all ladder_option [with_escalation 1 2]" by (simp add: ladder_option.intros)
  have step: "rung_before demo_ladder ?sigs (t + 1) =
        (if detect demo_ladder (?sigs ! t) \<noteq> None
         then if rung_before demo_ladder ?sigs t = 2 then rung_before demo_ladder ?sigs t else rung_before demo_ladder ?sigs t + 1
         else if 0 < rung_before demo_ladder ?sigs t \<and> rested demo_ladder ?sigs t then rung_before demo_ladder ?sigs t - 1
         else rung_before demo_ladder ?sigs t)" if "t < 5" for t
  proof -
    have "t < length ?sigs" using that by simp
    from observe_transition [OF _ opts demo_ladder_def this surjective_pairing]
    show ?thesis unfolding demo_ladder_turns(1,2) by blast
  qed
  have r0: "rung_before demo_ladder ?sigs 0 = 0"
    by (simp add: rung_before_def after_turns_def demo_ladder_def new_ladder_def with_escalation_def)
  note d = demo_ladder_turns(4,5)
  have c: "clean_there demo_ladder ?sigs t j \<longleftrightarrow> ?sigs ! j = good_turn \<and> rung_before demo_ladder ?sigs j = rung_before demo_ladder ?sigs t"
    if "j < 5" for t j
    using d that by (auto simp: clean_there_def clean_turn_def less_Suc_eq numeral_eq_Suc)
  have rest: "rested demo_ladder ?sigs t \<longleftrightarrow> clean_there demo_ladder ?sigs t (t - 1) \<and> clean_there demo_ladder ?sigs t t"
    if "0 < t" for t
    using that unfolding rested_def Let_def demo_ladder_turns(3)
    by (auto simp: le_Suc_eq) (metis One_nat_def Suc_pred diff_le_self le_antisym not_less_eq_eq)
  have g: "failing_turn \<noteq> good_turn" by (simp add: good_turn_def failing_turn_def)
  have r1: "rung_before demo_ladder ?sigs 1 = 1" using step [of 0] r0 d by simp
  have r2: "rung_before demo_ladder ?sigs 2 = 1" using step [of 1] r1 d rest [of 1] c [of 0 1] g by (simp add: numeral_2_eq_2)
  have r3: "rung_before demo_ladder ?sigs 3 = 2" using step [of 2] r2 d by simp
  have r4: "rung_before demo_ladder ?sigs 4 = 2" using step [of 3] r3 d rest [of 3] c [of 2 3] g by simp
  have r5: "rung_before demo_ladder ?sigs 5 = 1"
    using step [of 4] r4 r3 d rest [of 4] c [of 3 4] c [of 4 4] by simp
  show ?thesis using r0 r1 r2 r3 r4 r5 by simp
qed

text \<open>De-escalation hysteresis in closed form: from any well-formed router, after \<open>n\<close> further
  clean turns the ladder has descended one rung per \<open>K\<close> clean turns (counting the streak already
  under way) and stops at the floor.\<close>

theorem deescalation_hysteresis:
  assumes "wf_router r" and "detect r s = None"
  shows "r_cur (clean_turns s n r) =
    max (r_floor r) (r_cur r - (r_clean_streak r + int n) div c_deesc_turns (r_config r))"
  by (rule clean_turns_position [OF assms(2,1)])

theorem deescalation_hysteresis_witness:
  "let sig = \<lparr>tool_errors = 0, parse_failures = 0, retries_used = 0, explicit_handoff = 0,
        sig_confidence = None, sig_detail = []\<rparr>;
       r = climb (climb (new_ladder [''q'', ''m'', ''s''] 0 [with_escalation 1 2]))
   in r_cur r = 2 \<and> r_cur (clean_turns sig 3 r) = 1"
proof -
  let ?sig = "\<lparr>tool_errors = 0, parse_failures = 0, retries_used = 0, explicit_handoff = 0,
        sig_confidence = None, sig_detail = []\<rparr>"
  let ?base = "new_ladder [''q'', ''m'', ''s''] 0 [with_escalation 1 2]"
  let ?r = "climb (climb ?base)"
  have "wf_router ?base" by (rule new_ladder_wf) (auto simp: ladder_option.intros)
  moreover have "\<not> at_top ?base" "\<not> at_top (climb ?base)"
    by (auto simp: at_top_def climb_def new_ladder_def with_escalation_def top_rung_def)
  ultimately have wf: "wf_router ?r" using climb_wf by blast
  have "detect ?r ?sig = None"
    by (simp add: detect_def priority_def new_ladder_def with_escalation_def climb_def
        config_lookup_def)
  from deescalation_hysteresis [OF wf this, of 3] show ?thesis
    by (simp add: new_ladder_def with_escalation_def climb_def)
qed

text \<open>Trigger detection is the contract's priority rule. It reports no trigger exactly when no
  enabled configured trigger of the taxonomy fires; and a reported trigger is enabled, fires at its
  configured threshold, and no enabled configured trigger before it in priority order fires.\<close>

theorem detect_first_by_priority:
  "(detect r s = None \<longleftrightarrow>
      (\<forall>k \<in> set priority. \<forall>tc. config_lookup (r_config r) k = Some tc \<longrightarrow> enabled tc \<longrightarrow>
         \<not> fires k s (threshold_value tc)))
   \<and> (\<forall>k t d. detect r s = Some (k, t, d) \<longrightarrow>
      (\<exists>i < length priority. priority ! i = k \<and> d = trigger_detail k s
         \<and> (\<exists>tc. config_lookup (r_config r) k = Some tc \<and> enabled tc \<and> threshold_value tc = t
              \<and> fires k s t)
         \<and> (\<forall>j < i. \<forall>tc. config_lookup (r_config r) (priority ! j) = Some tc \<longrightarrow> enabled tc \<longrightarrow>
              \<not> fires (priority ! j) s (threshold_value tc))))"
  using detect_in_Some [of priority "r_config r" s] detect_in_None [of priority "r_config r" s]
  unfolding detect_def by blast

theorem detect_first_by_priority_witness:
  "let sig = \<lparr>tool_errors = 9, parse_failures = 0, retries_used = 2, explicit_handoff = 0,
        sig_confidence = None, sig_detail = []\<rparr>;
       r = new_ladder [''q'', ''s''] 0 [with_config default_config]
   in detect r sig = Some (TriggerRetryExhaustion, 2, trigger_detail TriggerRetryExhaustion sig)
      \<and> (\<exists>i < length priority. priority ! i = TriggerRetryExhaustion)"
proof -
  let ?sig = "\<lparr>tool_errors = 9, parse_failures = 0, retries_used = 2, explicit_handoff = 0,
        sig_confidence = None, sig_detail = []\<rparr>"
  let ?r = "new_ladder [''q'', ''s''] 0 [with_config default_config]"
  have d: "detect ?r ?sig = Some (TriggerRetryExhaustion, 2, trigger_detail TriggerRetryExhaustion ?sig)"
    by (simp add: detect_def priority_def new_ladder_def with_config_def default_config_def
        config_lookup_def)
  with detect_first_by_priority [of ?r ?sig] show ?thesis by (auto simp: Let_def)
qed

text \<open>A turn is routed into an unavailable adapter only when the fallback has nothing better:
  every lower rung is down when the served rung lies above the floor, every higher rung is down
  otherwise; and then the served rung is the one the usage bound had left the call with.\<close>

theorem served_rung_available:
  assumes "wf_router r" and "next_adapter ops avail (r, b) = (s, r', b')" and "\<not> avail s"
  shows "s = fst (bounce r (sb_exhausted ops b))
    \<and> (if s > r_floor r then \<forall>i. 0 \<le> i \<and> i < s \<longrightarrow> \<not> avail i
       else \<forall>i. s < i \<and> i \<le> top_rung r \<longrightarrow> \<not> avail i)"
proof -
  obtain t r1 where b1: "bounce r (sb_exhausted ops b) = (t, r1)" by fastforce
  obtain r2 where f2: "fallback avail r1 t = (s, r2)"
    using assms(2) b1 by (auto simp: next_adapter_def split: prod.splits)
  have sl: "same_ladder r r1" using bounce_target [OF b1] by blast
  have l: "r_floor r1 = r_floor r" "top_rung r1 = top_rung r"
    using sl same_ladder_reads(1) [OF sl] by (simp_all add: same_ladder_def)
  have "s = t \<and> fst (available_neighbour avail r1 t) = None"
    using fallback_unavailable [OF f2 assms(3)] by simp
  then show ?thesis using b1 l available_neighbour_None [of avail r1 t] by simp
qed

theorem served_rung_available_witness:
  "fst (next_adapter cost_budget_ops (\<lambda>_. False)
      (new_ladder [''q'', ''s''] 0 [], new_strong_turn_budget 0)) = 0"
proof -
  let ?r = "new_ladder [''q'', ''s''] 0 []"
  have wf: "wf_router ?r" by (rule new_ladder_wf) auto
  obtain s r' b' where na:
    "next_adapter cost_budget_ops (\<lambda>_. False) (?r, new_strong_turn_budget 0) = (s, r', b')"
    using prod_cases3 by blast
  from served_rung_available [OF wf na] na show ?thesis
    by (simp add: bounce_def new_ladder_def top_bounce_def guards_top_def)
qed

text \<open>A carried floor only ever rises and never comes to rest on the usage-bounded top rung: a
  router resting below a bounded top still rests below it after any lift, with its position on the
  new floor whenever the floor moved.\<close>

theorem lifted_floor_below_bounded_top:
  assumes "wf_router r" and "0 < r_bound_max r" and "r_floor r < top_rung r"
  shows "r_floor (lift_floor_to_model m r) < top_rung r
    \<and> r_floor r \<le> r_floor (lift_floor_to_model m r)
    \<and> (lift_floor_to_model m r = r
        \<or> r_cur (lift_floor_to_model m r) = r_floor (lift_floor_to_model m r))"
  using assms
  by (auto simp: lift_floor_to_model_def Let_def wf_router_def top_rung_def split: option.splits)

theorem lifted_floor_below_bounded_top_witness:
  "r_floor (lift_floor_to_model ''s'' (new_ladder [''q'', ''m'', ''s''] 0 [with_bounded_top 1])) < 2"
proof -
  let ?r = "new_ladder [''q'', ''m'', ''s''] 0 [with_bounded_top 1]"
  have wf: "wf_router ?r" by (rule new_ladder_wf) (auto simp: ladder_option.intros)
  from lifted_floor_below_bounded_top [OF wf, of "''s''"] show ?thesis
    by (simp add: new_ladder_def with_bounded_top_def top_rung_def)
qed

text \<open>The mandatory overflow escalation unsticks a spent bound. A router bounced off its top
  rung by its own spent bound, with the shared pool not exhausted, answers an overflow with an
  escalate edge, and with every adapter up its next turn is served by the top rung.\<close>

theorem overflow_unsticks_spent_bound:
  assumes "wf_router r" and "r_cur r = top_rung r" and "per_worker_bound_spent r"
    and "\<not> r_sticky_top r" and "\<not> sb_exhausted ops b" and "all_up avail"
  shows "direction (fst (escalate_for_overflow r)) = EdgeEscalate
    \<and> fst (next_adapter ops avail (snd (escalate_for_overflow r), b)) = top_rung r"
proof -
  have "bounded r (r_cur r)" using assms(1-3)
    by (auto simp: bounded_def per_worker_bound_spent_def wf_router_def)
  with assms have "snd (escalate_for_overflow r) = r\<lparr>r_sticky_top := True\<rparr>"
    and "direction (fst (escalate_for_overflow r)) = EdgeEscalate"
    by (auto simp: escalate_for_overflow_def at_top_def per_worker_bound_spent_def)
  then show ?thesis
    using next_adapter_up [OF assms(6), of ops "r\<lparr>r_sticky_top := True\<rparr>" b] assms(2,5)
    by (simp add: top_bounce_def strong_budget_exhausted_def)
qed

theorem overflow_unsticks_spent_bound_witness:
  "let r = (climb (new_ladder [''q'', ''s''] 0 [with_bounded_top 1]))\<lparr>r_bound_served := 1\<rparr>
   in fst (next_adapter cost_budget_ops (\<lambda>_. True) (r, new_strong_turn_budget 0)) = 0
      \<and> fst (next_adapter cost_budget_ops (\<lambda>_. True)
           (snd (escalate_for_overflow r), new_strong_turn_budget 0)) = 1"
proof -
  let ?r = "(climb (new_ladder [''q'', ''s''] 0 [with_bounded_top 1]))\<lparr>r_bound_served := 1\<rparr>"
  have "wf_router (climb (new_ladder [''q'', ''s''] 0 [with_bounded_top 1]))"
    by (rule climb_wf [OF new_ladder_wf])
      (auto simp: ladder_option.intros at_top_def top_rung_def new_ladder_def with_bounded_top_def)
  then have wf: "wf_router ?r" by (simp add: wf_router_def)
  have up: "all_up (\<lambda>_. True)" by (simp add: all_up_def)
  have ne: "\<not> sb_exhausted cost_budget_ops (new_strong_turn_budget 0)"
    by (simp add: cost_budget_ops_def exhausted_def new_strong_turn_budget_def)
  have "fst (next_adapter cost_budget_ops (\<lambda>_. True) (?r, new_strong_turn_budget 0)) = 0"
    using next_adapter_up [OF up, of cost_budget_ops ?r]
    by (simp add: top_bounce_def guards_top_def per_worker_bound_spent_def climb_def new_ladder_def
        with_bounded_top_def top_rung_def)
  with overflow_unsticks_spent_bound [OF wf _ _ _ ne up] show ?thesis
    by (simp add: Let_def per_worker_bound_spent_def climb_def new_ladder_def with_bounded_top_def
        top_rung_def)
qed

end
