(* ===== verification/Tool_Types.thy ===== *)
theory Tool_Types
  imports Go_Prelude
begin

text \<open>
  The tool-dispatch contract, \<open>internal/tool\<close>: calls, results, error classes and the tally that
  feeds the escalation triggers, and the salvage of a \<open>sys.exec\<close> command from its decoded
  parameter. A Go \<open>any\<close> decoded from JSON is a \<open>go_value\<close>.
\<close>

datatype go_value =
    VNil
  | VBool bool
  | VNum rat
  | VStr string
  | VStrs "string list"
  | VList "go_value list"
  | VMap "(string \<times> go_value) list"

record call =
  call_id :: string
  surface :: string
  action :: string
  params :: "(string \<rightharpoonup> go_value) option"
  rationale :: string

datatype error_class = ClassNone | ClassTransient | ClassTool | ClassUsage | ClassParse | ClassFatal

record result =
  res_call :: call
  res_ok :: bool
  res_value :: go_value
  res_class :: error_class
  latency_ms :: int
  span_id :: string

definition fail :: "call \<Rightarrow> error_class \<Rightarrow> string \<Rightarrow> int \<Rightarrow> result" where
  "fail c cls msg latency =
     \<lparr>res_call = c, res_ok = False, res_value = VMap [(''error'', VStr msg)], res_class = cls,
      latency_ms = latency, span_id = []\<rparr>"

record error_tally =
  t_tool_errors :: int
  t_usage_errors :: int
  t_parse_failures :: int
  t_transient_errors :: int

definition zero_tally :: error_tally where
  "zero_tally = \<lparr>t_tool_errors = 0, t_usage_errors = 0, t_parse_failures = 0, t_transient_errors = 0\<rparr>"

fun tally_one :: "error_class \<Rightarrow> error_tally \<Rightarrow> error_tally" where
  "tally_one ClassParse t =
     t\<lparr>t_parse_failures := t_parse_failures t + 1, t_tool_errors := t_tool_errors t + 1\<rparr>"
| "tally_one ClassTransient t =
     t\<lparr>t_transient_errors := t_transient_errors t + 1, t_tool_errors := t_tool_errors t + 1\<rparr>"
| "tally_one ClassTool t = t\<lparr>t_tool_errors := t_tool_errors t + 1\<rparr>"
| "tally_one ClassFatal t = t\<lparr>t_tool_errors := t_tool_errors t + 1\<rparr>"
| "tally_one ClassUsage t = t\<lparr>t_usage_errors := t_usage_errors t + 1\<rparr>"
| "tally_one ClassNone t = t"

definition tally :: "result list \<Rightarrow> error_tally" where
  "tally results = fold (\<lambda>r. tally_one (res_class r)) results zero_tally"

subsection \<open>The command of an exec call\<close>

definition join_argv :: "string list \<Rightarrow> string" where
  "join_argv parts = join '' '' (filter (\<lambda>p. p \<noteq> []) parts)"

fun all_strings :: "go_value list \<Rightarrow> string list option" where
  "all_strings [] = Some []"
| "all_strings (VStr s # vs) = map_option (\<lambda>ss. s # ss) (all_strings vs)"
| "all_strings (_ # vs) = None"

fun command_string :: "go_value \<Rightarrow> string" where
  "command_string (VStr s) = s"
| "command_string (VStrs ss) = join_argv ss"
| "command_string (VList vs) =
     (case all_strings vs of None \<Rightarrow> [] | Some parts \<Rightarrow> join_argv parts)"
| "command_string _ = []"

subsection \<open>Lemmas\<close>

definition class_count :: "error_class list \<Rightarrow> result list \<Rightarrow> int" where
  "class_count cs results = int (length (filter (\<lambda>r. res_class r \<in> set cs) results))"

lemma tally_fold:
  "t_tool_errors (fold (\<lambda>r. tally_one (res_class r)) rs t) =
     t_tool_errors t + class_count [ClassParse, ClassTransient, ClassTool, ClassFatal] rs
   \<and> t_usage_errors (fold (\<lambda>r. tally_one (res_class r)) rs t) =
     t_usage_errors t + class_count [ClassUsage] rs
   \<and> t_parse_failures (fold (\<lambda>r. tally_one (res_class r)) rs t) =
     t_parse_failures t + class_count [ClassParse] rs
   \<and> t_transient_errors (fold (\<lambda>r. tally_one (res_class r)) rs t) =
     t_transient_errors t + class_count [ClassTransient] rs"
proof (induction rs arbitrary: t)
  case Nil
  then show ?case by (simp add: class_count_def)
next
  case (Cons r rs)
  show ?case by (cases "res_class r") (auto simp: Cons.IH class_count_def)
qed

lemma all_strings_map [simp]: "all_strings (map VStr ss) = Some ss"
  by (induction ss) auto

lemma command_string_salvage:
  "command_string (VList (map VStr ss)) = command_string (VStrs ss)"
  by simp

end
