(* ===== verification/Hooks.thy ===== *)
theory Hooks
  imports Tool_Types
begin

text \<open>
  The lifecycle hook surface, \<open>internal/hooks/hooks.go\<close>. A hook is a function on the shared
  context that may also panic: it returns the context as it left it and the panic value, if any.
  The context has the fields the modelled hooks read and write; the transcript, the metadata and
  the job profile, which hooks only pass through, are one polymorphic field \<open>hc_rest\<close>.
\<close>

datatype hook_kind =
    SessionStart | PreUserPrompt | PreTurn | PreToolUse | PostToolUse | PostTurn | Stop | SessionEnd
  | OtherKind string

definition hook_order :: "hook_kind list" where
  "hook_order = [SessionStart, PreUserPrompt, PreTurn, PreToolUse, PostToolUse, PostTurn, Stop, SessionEnd]"

record hook_error =
  he_hook :: string
  he_err :: string

record 'x hook_context =
  hc_kind :: hook_kind
  hc_session :: string
  hc_turn :: int
  hc_tool_call :: "call option"
  hc_deny :: bool
  hc_deny_reason :: string
  hc_deny_non_escalatable :: bool
  hc_request_escalation :: bool
  hc_errors :: "hook_error list"
  hc_rest :: 'x

type_synonym 'x hook_func = "'x hook_context \<Rightarrow> 'x hook_context \<times> string option"

type_synonym 'x hook_surface = "hook_kind \<Rightarrow> (string \<times> 'x hook_func) list"

definition new_surface :: "'x hook_surface" where
  "new_surface = (\<lambda>_. [])"

definition valid_kind :: "hook_kind \<Rightarrow> bool" where
  "valid_kind k = list_ex (\<lambda>kk. kk = k) hook_order"

datatype hook_register_error = UnknownHookKind hook_kind

definition register ::
  "'x hook_surface \<Rightarrow> hook_kind \<Rightarrow> string \<Rightarrow> 'x hook_func \<Rightarrow> hook_register_error + 'x hook_surface" where
  "register s kind name fn =
     (if \<not> valid_kind kind then Inl (UnknownHookKind kind)
      else Inr (s(kind := s kind @ [(name, fn)])))"

definition fire_one :: "string \<times> 'x hook_func \<Rightarrow> 'x hook_context \<Rightarrow> 'x hook_context" where
  "fire_one h ctx =
     (case snd h ctx of
        (ctx', None) \<Rightarrow> ctx'
      | (ctx', Some msg) \<Rightarrow>
          ctx'\<lparr>hc_errors := hc_errors ctx' @ [\<lparr>he_hook = fst h, he_err = msg\<rparr>]\<rparr>)"

definition fire :: "'x hook_surface \<Rightarrow> hook_kind \<Rightarrow> 'x hook_context \<Rightarrow> 'x hook_context" where
  "fire s kind ctx = fold fire_one (s kind) (ctx\<lparr>hc_kind := kind\<rparr>)"

subsection \<open>Lemmas\<close>

text \<open>A veto survives every later hook that does not lift one.\<close>

definition keeps_veto :: "'x hook_func \<Rightarrow> bool" where
  "keeps_veto f \<longleftrightarrow> (\<forall>ctx. hc_deny ctx \<longrightarrow> hc_deny (fst (f ctx)))"

lemma fire_one_keeps_veto: "keeps_veto (snd h) \<Longrightarrow> hc_deny ctx \<Longrightarrow> hc_deny (fire_one h ctx)"
  by (force simp: fire_one_def keeps_veto_def split: prod.splits option.splits)

lemma fold_fire_keeps_veto:
  "list_all (\<lambda>h. keeps_veto (snd h)) hs \<Longrightarrow> hc_deny ctx \<Longrightarrow> hc_deny (fold fire_one hs ctx)"
  by (induction hs arbitrary: ctx) (auto intro: fire_one_keeps_veto)

lemma register_appends:
  "register s k name fn = Inr s' \<Longrightarrow> s' k = s k @ [(name, fn)] \<and> (\<forall>k'. k' \<noteq> k \<longrightarrow> s' k' = s k')"
  by (auto simp: register_def split: if_splits)

end
