(* ===== verification/Shell_Safe.thy ===== *)
theory Shell_Safe
  imports Go_Prelude
begin

text \<open>
  The shell-shape deny rule shared by the exec allowlist and the risk gate,
  \<open>internal/shellsafe/shellsafe.go\<close>: the scan for file redirections and the reject reason.
\<close>

definition redir_char :: "char \<Rightarrow> bool" where
  "redir_char c = (c = CHR ''<'' \<or> c = CHR ''>'')"

text \<open>What follows a redirection operator starting with \<open>c\<close>: the repeated operator is collapsed
  and blanks are skipped.\<close>

definition redir_target :: "char \<Rightarrow> string \<Rightarrow> string" where
  "redir_target c s = dropWhile (\<lambda>x. x = CHR '' '') (dropWhile (\<lambda>x. x = c) s)"

function has_file_redirection :: "string \<Rightarrow> bool" where
  "has_file_redirection [] = False"
| "has_file_redirection (c # s) =
     (if \<not> redir_char c then has_file_redirection s
      else (case redir_target c s of
              [] \<Rightarrow> True
            | d # _ \<Rightarrow> if d = CHR ''&'' then has_file_redirection (dropWhile (\<lambda>x. x = c) s)
                       else True))"
  by pat_completeness auto
termination
  by (relation "measure length") (auto simp: le_imp_less_Suc length_dropWhile_le)

definition backtick :: string where
  "backtick = [CHR 0x60]"

definition reject_reason :: "string \<Rightarrow> string" where
  "reject_reason command =
     (if contains command ''$('' \<or> contains command backtick
      then ''command substitution ($(...) or backticks)''
      else if contains command ''<('' \<or> contains command ''>(''
      then ''process substitution (<(...) or >(...))''
      else if contains command ''${'' then ''parameter expansion (${...})''
      else if has_file_redirection command
      then ''file redirection (>, >>, <) escaping the allowlisted command''
      else [])"

subsection \<open>What the scan decides\<close>

text \<open>Declaratively: some redirection operator is not followed by \<open>&\<close>.\<close>

definition escapes_to_file :: "string \<Rightarrow> bool" where
  "escapes_to_file s \<longleftrightarrow> (\<exists>pre c post. s = pre @ c # post \<and> redir_char c
     \<and> (\<forall>t. redir_target c post \<noteq> CHR ''&'' # t))"

lemma escapes_to_file_Cons:
  "escapes_to_file (c # s) \<longleftrightarrow>
     (redir_char c \<and> (\<forall>t. redir_target c s \<noteq> CHR ''&'' # t)) \<or> escapes_to_file s"
proof
  assume "escapes_to_file (c # s)"
  then obtain pre d post where *: "c # s = pre @ d # post" "redir_char d"
    "\<forall>t. redir_target d post \<noteq> CHR ''&'' # t" by (auto simp: escapes_to_file_def)
  then show "(redir_char c \<and> (\<forall>t. redir_target c s \<noteq> CHR ''&'' # t)) \<or> escapes_to_file s"
    by (cases pre) (auto simp: escapes_to_file_def)
next
  assume "(redir_char c \<and> (\<forall>t. redir_target c s \<noteq> CHR ''&'' # t)) \<or> escapes_to_file s"
  then show "escapes_to_file (c # s)"
    unfolding escapes_to_file_def by (metis append_Cons append_Nil)
qed

lemma escapes_to_file_run:
  assumes "redir_target c s = CHR ''&'' # t"
  shows "escapes_to_file s = escapes_to_file (dropWhile (\<lambda>x. x = c) s)"
  using assms
proof (induction s)
  case Nil
  then show ?case by (simp add: redir_target_def)
next
  case (Cons d s)
  show ?case
  proof (cases "d = c")
    case True
    with Cons have "redir_target c s = CHR ''&'' # t" by (simp add: redir_target_def)
    with Cons True show ?thesis by (simp add: escapes_to_file_Cons)
  next
    case False
    then show ?thesis by simp
  qed
qed

lemma has_file_redirection_iff: "has_file_redirection s = escapes_to_file s"
proof (induction s rule: has_file_redirection.induct)
  case 1
  then show ?case by (simp add: escapes_to_file_def)
next
  case (2 c s)
  show ?case
  proof (cases "redir_char c")
    case False
    with 2 show ?thesis by (simp add: escapes_to_file_Cons)
  next
    case True
    show ?thesis
    proof (cases "redir_target c s")
      case Nil
      with True show ?thesis by (simp add: escapes_to_file_Cons)
    next
      case (Cons d t)
      then show ?thesis
        using True 2(2) [of d t] escapes_to_file_run [of c s t]
        by (auto simp: escapes_to_file_Cons)
    qed
  qed
qed

end
