(* ===== verification/Exec_Allowlist.thy ===== *)
theory Exec_Allowlist
  imports Shell_Safe
begin

text \<open>
  The exec allowlist of the \<open>sys\<close> organ, \<open>internal/sysorgan/allowlist.go\<close>: which command heads
  \<open>sys.exec\<close> runs. The result of \<open>permit\<close> is \<open>None\<close> when the command may run and the reason of the
  refusal otherwise. \<open>file_base\<close> is \<open>filepath.Base\<close>.
\<close>

datatype permit_error =
    EmptyCommand
  | ShellShape string
  | NoCommandFound
  | NotAllowlisted string

definition default_exec_allowlist :: "string list" where
  "default_exec_allowlist = [
     ''git'', ''go'', ''gofmt'', ''make'', ''cargo'', ''npm'', ''node'', ''python3'', ''python'',
     ''ls'', ''cat'', ''head'', ''tail'', ''wc'', ''grep'', ''rg'', ''find'', ''echo'', ''pwd'',
     ''test'', ''true'', ''false'', ''sort'', ''uniq'', ''sed'', ''awk'', ''cut'', ''tr'',
     ''cd'', ''mkdir'', ''stat'', ''file'', ''du'', ''df'',
     ''podman'', ''docker'', ''systemctl'', ''curl'']"

definition load_allowlist :: "string \<Rightarrow> string set" where
  "load_allowlist extra =
     set default_exec_allowlist \<union>
     set (filter (\<lambda>c. c \<noteq> []) (map trim_space (split_char (CHR '','') extra)))"

definition after_last :: "(char \<Rightarrow> bool) \<Rightarrow> string \<Rightarrow> string" where
  "after_last p s = rev (takeWhile (\<lambda>x. \<not> p x) (rev s))"

definition file_base :: "string \<Rightarrow> string" where
  "file_base path =
     (if path = [] then ''.''
      else (let stripped = rev (dropWhile (\<lambda>x. x = CHR ''/'') (rev path));
                base = after_last (\<lambda>x. x = CHR ''/'') stripped
            in if base = [] then ''/'' else base))"

definition env_char :: "char \<Rightarrow> bool" where
  "env_char r = (let n = (of_char r :: nat) in
     r = CHR ''_'' \<or> (65 \<le> n \<and> n \<le> 90) \<or> (97 \<le> n \<and> n \<le> 122) \<or> (48 \<le> n \<and> n \<le> 57))"

definition is_env_assignment :: "string \<Rightarrow> bool" where
  "is_env_assignment tok =
     (CHR ''='' \<in> set tok
      \<and> (let name = takeWhile (\<lambda>x. x \<noteq> CHR ''='') tok in name \<noteq> [] \<and> list_all env_char name))"

definition shell_sep :: "char \<Rightarrow> bool" where
  "shell_sep r = (r = CHR '';'' \<or> r = CHR ''|'' \<or> r = CHR ''&'')"

definition first_word :: "string \<Rightarrow> string option" where
  "first_word seg = find (\<lambda>tok. \<not> is_env_assignment tok) (fields seg)"

definition command_heads :: "string \<Rightarrow> string list" where
  "command_heads command =
     List.map_filter (\<lambda>seg. map_option file_base (first_word seg)) (fields_func shell_sep command)"

definition permit :: "string set \<Rightarrow> string \<Rightarrow> permit_error option" where
  "permit allowed command =
     (if trim_space command = [] then Some EmptyCommand
      else if reject_reason command \<noteq> [] then Some (ShellShape (reject_reason command))
      else (let heads = command_heads command
            in if heads = [] then Some NoCommandFound
               else map_option NotAllowlisted (find (\<lambda>h. h \<notin> allowed) heads)))"

subsection \<open>Lemmas\<close>

lemma find_None_all: "find p xs = None \<longleftrightarrow> (\<forall>x \<in> set xs. \<not> p x)"
  by (induction xs) auto

lemma in_command_heads:
  "h \<in> set (command_heads command) \<longleftrightarrow>
     (\<exists>seg tok. seg \<in> set (fields_func shell_sep command) \<and> first_word seg = Some tok \<and> h = file_base tok)"
  by (force simp: command_heads_def List.map_filter_def)

lemma permit_None_iff:
  "permit allowed command = None \<longleftrightarrow>
     trim_space command \<noteq> [] \<and> reject_reason command = [] \<and> command_heads command \<noteq> []
     \<and> set (command_heads command) \<subseteq> allowed"
  by (auto simp: permit_def Let_def find_None_all)

lemma file_base_no_slash:
  assumes "CHR ''/'' \<notin> set tok" "tok \<noteq> []"
  shows "file_base tok = tok"
proof -
  have "dropWhile (\<lambda>x. x = CHR ''/'') (rev tok) = rev tok"
    using assms by (cases "rev tok") (auto simp: in_set_conv_decomp)
  moreover have "takeWhile (\<lambda>x. x \<noteq> CHR ''/'') (rev tok) = rev tok"
    using assms by (auto simp: takeWhile_eq_all_conv)
  ultimately show ?thesis using assms
    unfolding file_base_def after_last_def Let_def by (simp del: takeWhile_eq_all_conv)
qed

end
