(* ===== verification/Risk_Gate.thy ===== *)
theory Risk_Gate
  imports Hooks Exec_Allowlist
begin

text \<open>
  The risk-gating layer, \<open>internal/risk/risk.go\<close>: the classifier of tool calls, the gates and the
  pre-tool-use hook that consults a gate for a gated call. A gate is the Go interface \<open>Gate\<close>: a
  function from the call and its verdict to the decision and a reason. The locale \<open>risk_gate\<close>
  states what the hook relies on (a refusal says why) and is interpreted on every gate.
\<close>

datatype risk_class = Safe | Mutating | Destructive | Outward

fun class_text :: "risk_class \<Rightarrow> string" where
  "class_text Safe = ''safe''"
| "class_text Mutating = ''mutating''"
| "class_text Destructive = ''destructive''"
| "class_text Outward = ''outward''"

record verdict =
  v_class :: risk_class
  v_gated :: bool
  v_reason :: string

definition safe_verdict :: verdict where
  "safe_verdict = \<lparr>v_class = Safe, v_gated = False, v_reason = []\<rparr>"

definition classify :: "call \<Rightarrow> verdict" where
  "classify c =
     (if surface c = ''sys'' then
        (if action c = ''exec''
         then \<lparr>v_class = Destructive, v_gated = True,
               v_reason = ''sys.exec runs an arbitrary (allowlisted) shell command''\<rparr>
         else safe_verdict)
      else if surface c = ''fs'' then
        (if action c = ''write'' \<or> action c = ''edit'' \<or> action c = ''move''
         then \<lparr>v_class = Mutating, v_gated = False,
               v_reason = ''fs.'' @ action c @ '' mutates a file on disk''\<rparr>
         else if action c = ''remove''
         then \<lparr>v_class = Destructive, v_gated = True,
               v_reason = ''fs.remove deletes a file or directory from disk''\<rparr>
         else safe_verdict)
      else if surface c = ''work'' then
        (if action c = ''forge_delete''
         then \<lparr>v_class = Destructive, v_gated = True,
               v_reason = ''work.forge_delete removes a ledger record''\<rparr>
         else safe_verdict)
      else safe_verdict)"

type_synonym gate_fn = "call \<Rightarrow> verdict \<Rightarrow> bool \<times> string"

definition allow_all :: gate_fn where
  "allow_all c v = (True, [])"

definition call_text :: "call \<Rightarrow> verdict \<Rightarrow> string" where
  "call_text c v =
     surface c @ ''.'' @ action c @ '' ('' @ class_text (v_class v) @ '': '' @ v_reason v @ '')''"

definition deny_gated :: gate_fn where
  "deny_gated c v =
     (False, ''risk gate blocked '' @ call_text c v @ '' '' @ em_dash
        @ '' no approver is wired; re-run with -risk-gate=off to permit, or attach an automated gate'')"

definition safe_exec_heads :: "string list" where
  "safe_exec_heads = [
     ''go'', ''gofmt'', ''cat'', ''ls'', ''head'', ''tail'', ''wc'', ''grep'', ''rg'', ''find'',
     ''pwd'', ''echo'', ''test'', ''true'', ''false'', ''sort'', ''uniq'', ''cut'', ''tr'',
     ''diff'', ''stat'', ''file'']"

definition safe_git_subcommands :: "string list" where
  "safe_git_subcommands = [
     ''restore'', ''checkout'', ''stash'', ''diff'', ''status'', ''show'', ''log'', ''ls-files'',
     ''rev-parse'']"

definition exec_command_of :: "call \<Rightarrow> string" where
  "exec_command_of c =
     (case params c of
        None \<Rightarrow> []
      | Some p \<Rightarrow> command_string (case p ''command'' of None \<Rightarrow> VNil | Some v \<Rightarrow> v))"

definition exec_segments :: "string \<Rightarrow> string list" where
  "exec_segments command =
     fields_func (\<lambda>r. r = CHR '';'' \<or> r = CHR ''|'' \<or> r = CHR ''&'') command"

definition base_name :: "string \<Rightarrow> string" where
  "base_name tok = after_last (\<lambda>x. x = CHR ''/'' \<or> x = CHR 0x5C) tok"

definition risk_is_env_assignment :: "string \<Rightarrow> bool" where
  "risk_is_env_assignment tok =
     (case find_index (\<lambda>x. x = CHR ''='') tok of
        None \<Rightarrow> False
      | Some eq \<Rightarrow> 0 < eq \<and> list_all env_char (take eq tok))"

fun head_of :: "string list \<Rightarrow> string" where
  "head_of [] = []"
| "head_of (tok # toks) = (if risk_is_env_assignment tok then head_of toks else base_name tok)"

definition seg_head :: "string \<Rightarrow> string" where
  "seg_head seg = head_of (Go_Prelude.fields seg)"

fun git_sub :: "string list \<Rightarrow> string" where
  "git_sub [] = []"
| "git_sub (t # ts) =
     (if \<not> has_prefix t ''-'' then t
      else if t = ''-C'' \<or> t = ''-c'' then git_sub (drop 1 ts)
      else git_sub ts)"

definition git_subcommand :: "string \<Rightarrow> string" where
  "git_subcommand seg =
     (case dropWhile risk_is_env_assignment (Go_Prelude.fields seg) of
        [] \<Rightarrow> []
      | t # ts \<Rightarrow> if base_name t \<noteq> ''git'' then [] else git_sub ts)"

definition unsafe_git_reason :: "string \<Rightarrow> string" where
  "unsafe_git_reason seg =
     (let sub = git_subcommand seg
      in if sub = []
         then ''sys.exec: bare '' @ backtick @ ''git'' @ backtick @ '' is not auto-approved by the build-test gate; only recovery/inspection subcommands are (restore, checkout, stash, diff, status, show, log, ls-files, rev-parse).''
         else if sub \<notin> set safe_git_subcommands
         then ''sys.exec: '' @ backtick @ ''git '' @ sub @ backtick @ '' is not auto-approved by the build-test gate (it auto-approves only git recovery/inspection: restore, checkout, stash, diff, status, show, log, ls-files, rev-parse). Run it with an explicit approver or -risk-gate=off if it is genuinely needed.''
         else [])"

text \<open>The loop over the segments: the flag is \<open>sawHead\<close>.\<close>

fun unsafe_segments :: "bool \<Rightarrow> string list \<Rightarrow> string" where
  "unsafe_segments saw [] = (if saw then [] else ''sys.exec: no command found'')"
| "unsafe_segments saw (seg # segs) =
     (let head = seg_head seg
      in if head = [] then unsafe_segments saw segs
         else if head = ''git'' then
           (if unsafe_git_reason seg \<noteq> [] then unsafe_git_reason seg else unsafe_segments True segs)
         else if head \<notin> set safe_exec_heads
         then ''sys.exec: command '' @ go_quote head @ '' is not auto-approved by the build-test gate (it auto-approves build/test/inspection only: go, gofmt, read-only tools, and safe git recovery/inspection). Run it with an explicit approver or -risk-gate=off if it is genuinely needed.''
         else unsafe_segments True segs)"

definition unsafe_exec_reason :: "string \<Rightarrow> string" where
  "unsafe_exec_reason cmd =
     (if reject_reason cmd \<noteq> []
      then ''sys.exec: '' @ reject_reason cmd @ '' is not auto-approved by the build-test gate''
      else unsafe_segments False (exec_segments cmd))"

definition missing_command_reason :: string where
  "missing_command_reason = ''sys.exec: missing '' @ go_quote ''command'' @ '' string param '' @ em_dash
     @ '' pass {'' @ go_quote ''command'' @ '': '' @ go_quote ''go test ./...''
     @ ''} (the argv is one shell string under '' @ go_quote ''command'' @ '', not a list)''"

definition build_test_gate :: gate_fn where
  "build_test_gate c v =
     (if surface c = ''sys'' \<and> action c = ''exec'' then
        (let cmd = trim_space (exec_command_of c)
         in if cmd = [] then (False, missing_command_reason)
            else if unsafe_exec_reason cmd \<noteq> [] then (False, unsafe_exec_reason cmd)
            else (True, []))
      else (False, ''build-test gate denies '' @ call_text c v @ '' '' @ em_dash
              @ '' only build/test/inspection sys.exec is auto-approved; a destructive action needs an explicit approver (or -risk-gate=off for a trusted run)''))"

definition confirm_func :: "(call \<Rightarrow> verdict \<Rightarrow> bool) \<Rightarrow> gate_fn" where
  "confirm_func f c v = (if f c v then (True, []) else (False, ''risk gate denied '' @ call_text c v))"

definition guard :: "gate_fn \<Rightarrow> 'x hook_func" where
  "guard g ctx =
     (case hc_tool_call ctx of
        None \<Rightarrow> (ctx, None)
      | Some c \<Rightarrow>
          (let v = classify c
           in if \<not> v_gated v then (ctx, None)
              else (case g c v of
                      (True, _) \<Rightarrow> (ctx, None)
                    | (False, reason) \<Rightarrow>
                        (ctx\<lparr>hc_deny := True, hc_deny_reason := reason\<rparr>, None))))"

subsection \<open>The gate interface\<close>

locale risk_gate =
  fixes approve :: gate_fn
  assumes reason_iff_denied: "fst (approve c v) \<longleftrightarrow> snd (approve c v) = []"
begin

lemma guard_denies:
  assumes "hc_tool_call ctx = Some c" "\<not> hc_deny ctx"
  shows "hc_deny (fst (guard approve ctx)) \<longleftrightarrow> v_gated (classify c) \<and> \<not> fst (approve c (classify c))"
  using assms by (auto simp: guard_def Let_def split: prod.splits bool.splits)

lemma guard_says_why:
  assumes "hc_deny (fst (guard approve ctx))" "\<not> hc_deny ctx"
  shows "hc_deny_reason (fst (guard approve ctx)) \<noteq> []"
proof (cases "hc_tool_call ctx")
  case None
  with assms show ?thesis by (simp add: guard_def)
next
  case (Some c)
  with assms reason_iff_denied [of c "classify c"] show ?thesis
    by (auto simp: guard_def Let_def split: prod.splits bool.splits if_splits)
qed

lemma guard_keeps_veto: "keeps_veto (guard approve)"
  by (auto simp: keeps_veto_def guard_def Let_def split: option.splits prod.splits bool.splits)

lemma guard_never_panics: "snd (guard approve ctx) = None"
  by (auto simp: guard_def Let_def split: option.splits prod.splits bool.splits)

end

interpretation allow_gate: risk_gate allow_all
  by unfold_locales (simp add: allow_all_def)

interpretation deny_gate: risk_gate deny_gated
  by unfold_locales (simp add: deny_gated_def)

interpretation confirm_gate: risk_gate "confirm_func f" for f
  by unfold_locales (simp add: confirm_func_def)

interpretation bt_gate: risk_gate build_test_gate
  by unfold_locales (simp add: build_test_gate_def Let_def missing_command_reason_def)

subsection \<open>Lemmas\<close>

lemma gated_cases:
  "v_gated (classify c) \<longleftrightarrow>
     (surface c = ''sys'' \<and> action c = ''exec'') \<or> (surface c = ''fs'' \<and> action c = ''remove'')
     \<or> (surface c = ''work'' \<and> action c = ''forge_delete'')"
  by (auto simp: classify_def safe_verdict_def)

lemma env_assignment_agree: "risk_is_env_assignment tok = is_env_assignment tok"
proof (cases "find_index (\<lambda>x. x = CHR ''='') tok")
  case None
  then have "CHR ''='' \<notin> set tok" by (auto simp: find_index_None)
  then show ?thesis by (simp add: None risk_is_env_assignment_def is_env_assignment_def)
next
  case (Some i)
  then have i: "i < length tok" "tok ! i = CHR ''=''" "\<forall>j < i. tok ! j \<noteq> CHR ''=''"
    by (auto simp: find_index_Some)
  then have "takeWhile (\<lambda>x. x \<noteq> CHR ''='') tok = take i tok"
    by (intro takeWhile_eq_take_P_nth) auto
  moreover have "CHR ''='' \<in> set tok" using i by (metis nth_mem)
  moreover have "take i tok \<noteq> [] \<longleftrightarrow> 0 < i" using i by auto
  ultimately show ?thesis by (simp add: Some risk_is_env_assignment_def is_env_assignment_def Let_def)
qed

text \<open>What one segment has to be for the gate, and what it is declaratively.\<close>

definition safe_segment :: "string \<Rightarrow> bool" where
  "safe_segment seg \<longleftrightarrow>
     seg_head seg = [] \<or> seg_head seg \<in> set safe_exec_heads
     \<or> (seg_head seg = ''git'' \<and> git_subcommand seg \<in> set safe_git_subcommands)"

lemma git_not_head: "''git'' \<notin> set safe_exec_heads"
  by (simp add: safe_exec_heads_def)

lemma empty_not_sub: "[] \<notin> set safe_git_subcommands"
  by (simp add: safe_git_subcommands_def)

lemma unsafe_git_reason_empty:
  "unsafe_git_reason seg = [] \<longleftrightarrow> git_subcommand seg \<in> set safe_git_subcommands"
  using empty_not_sub by (auto simp: unsafe_git_reason_def Let_def)

lemma unsafe_segments_empty:
  "unsafe_segments saw segs = [] \<longleftrightarrow>
     (\<forall>seg \<in> set segs. safe_segment seg) \<and> (saw \<or> (\<exists>seg \<in> set segs. seg_head seg \<noteq> []))"
proof (induction segs arbitrary: saw)
  case Nil
  then show ?case by simp
next
  case (Cons seg segs)
  show ?case
    using git_not_head
    by (auto simp: Let_def Cons.IH safe_segment_def unsafe_git_reason_empty)
qed

lemma unsafe_exec_reason_empty:
  "unsafe_exec_reason cmd = [] \<longleftrightarrow>
     reject_reason cmd = [] \<and> (\<forall>seg \<in> set (exec_segments cmd). safe_segment seg)
     \<and> (\<exists>seg \<in> set (exec_segments cmd). seg_head seg \<noteq> [])"
  by (auto simp: unsafe_exec_reason_def unsafe_segments_empty)

lemma build_test_approves:
  "fst (build_test_gate c v) \<longleftrightarrow>
     surface c = ''sys'' \<and> action c = ''exec'' \<and> trim_space (exec_command_of c) \<noteq> []
     \<and> unsafe_exec_reason (trim_space (exec_command_of c)) = []"
  by (auto simp: build_test_gate_def Let_def)

end
