(* ===== verification/Risk_Props.thy ===== *)
theory Risk_Props
  imports Risk_Gate
begin

text \<open>
  The properties of the risk gate and of the exec allowlist: the guard vetoes what its gate
  refuses, among hooks that leave the call and a veto alone, what the build/test gate approves, how its decision relates to the allowlist of the
  \<open>sys\<close> organ, and the newline gap both share.
\<close>

lemma fold_fire_append: "fold fire_one (hs @ hs') ctx = fold fire_one hs' (fold fire_one hs ctx)"
  by simp

definition keeps_call :: "'x hook_func \<Rightarrow> bool" where
  "keeps_call f \<longleftrightarrow> (\<forall>ctx. hc_tool_call (fst (f ctx)) = hc_tool_call ctx)"

lemma fold_fire_keeps_call:
  "list_all (\<lambda>h. keeps_call (snd h)) hs \<Longrightarrow> hc_tool_call (fold fire_one hs ctx) = hc_tool_call ctx"
proof (induction hs arbitrary: ctx)
  case Nil
  then show ?case by simp
next
  case (Cons h hs)
  have "hc_tool_call (fire_one h ctx) = hc_tool_call ctx"
    using Cons.prems
    by (cases "snd h ctx"; cases "snd (snd h ctx)") (auto simp: fire_one_def keeps_call_def dest: spec [of _ ctx])
  with Cons show ?case by simp
qed

lemma fire_guard_denies:
  assumes "hc_tool_call ctx = Some c" "v_gated (classify c)" "\<not> fst (g c (classify c))"
  shows "hc_deny (fire_one (name, guard g) ctx)"
  using assms by (auto simp: fire_one_def guard_def Let_def split: prod.splits bool.splits)

text \<open>Among hooks that leave the pending call alone before the guard (they may panic) and lift no veto after it,
  a gated call that the gate does not approve leaves the pre-tool-use surface vetoed.\<close>

lemma gated_call_needs_approval:
  assumes hooks: "s PreToolUse = before @ (name, guard g) # after"
    and before: "list_all (\<lambda>h. keeps_call (snd h)) before"
    and after: "list_all (\<lambda>h. keeps_veto (snd h)) after"
    and call: "hc_tool_call ctx = Some c"
    and gated: "v_gated (classify c)"
    and refused: "\<not> fst (g c (classify c))"
  shows "hc_deny (fire s PreToolUse ctx)"
proof -
  let ?mid = "fold fire_one before (ctx\<lparr>hc_kind := PreToolUse\<rparr>)"
  have "hc_tool_call ?mid = Some c"
    using fold_fire_keeps_call [OF before, of "ctx\<lparr>hc_kind := PreToolUse\<rparr>"] call by simp
  then have "hc_deny (fire_one (name, guard g) ?mid)"
    using gated refused by (rule fire_guard_denies)
  with after show ?thesis
    by (simp add: fire_def hooks fold_fire_keeps_veto)
qed

definition panicking_hook :: "unit hook_func" where
  "panicking_hook ctx = (ctx, Some ''boom'')"

definition remove_call :: call where
  "remove_call = \<lparr>call_id = ''1'', surface = ''fs'', action = ''remove'', params = None, rationale = []\<rparr>"

definition sample_context :: "unit hook_context" where
  "sample_context = \<lparr>hc_kind = PreTurn, hc_session = ''s'', hc_turn = 1, hc_tool_call = Some remove_call,
     hc_deny = False, hc_deny_reason = [], hc_deny_non_escalatable = False,
     hc_request_escalation = False, hc_errors = [], hc_rest = ()\<rparr>"

lemma gated_call_needs_approval_witness:
  "hc_deny (fire (\<lambda>k. if k = PreToolUse then [(''p'', panicking_hook), (''risk'', guard build_test_gate)] else [])
     PreToolUse sample_context)"
  by (rule gated_call_needs_approval [where before = "[(''p'', panicking_hook)]" and after = "[]"
        and name = "''risk''" and g = build_test_gate and c = remove_call])
    (simp_all add: keeps_call_def panicking_hook_def sample_context_def remove_call_def classify_def
      build_test_gate_def)

lemma reject_reason_empty:
  "reject_reason cmd = [] \<longleftrightarrow>
     \<not> contains cmd ''$('' \<and> \<not> contains cmd backtick \<and> \<not> contains cmd ''<(''
     \<and> \<not> contains cmd ''>('' \<and> \<not> contains cmd ''${'' \<and> \<not> escapes_to_file cmd"
  by (simp add: reject_reason_def has_file_redirection_iff)

text \<open>C32: The build/test gate approves a call exactly when it is a \<open>sys.exec\<close> whose command has no
  substitution, no expansion and no redirection to a file, at least one segment with a command, and
  in every segment either no command, a head of the build/test set, or \<open>git\<close> with a recovery or
  inspection subcommand.\<close>

theorem build_test_gate_exact:
  "fst (build_test_gate c v) \<longleftrightarrow>
     (let cmd = trim_space (exec_command_of c)
      in surface c = ''sys'' \<and> action c = ''exec'' \<and> cmd \<noteq> []
         \<and> (\<forall>bad \<in> {''$('', backtick, ''<('', ''>('', ''${''}. \<not> (\<exists>a b. cmd = a @ bad @ b))
         \<and> \<not> (\<exists>pre op post. cmd = pre @ op # post \<and> (op = CHR ''<'' \<or> op = CHR ''>'')
               \<and> \<not> (\<exists>t. redir_target op post = CHR ''&'' # t))
         \<and> (\<exists>seg \<in> set (exec_segments cmd). seg_head seg \<noteq> [])
         \<and> (\<forall>seg \<in> set (exec_segments cmd). seg_head seg = [] \<or> seg_head seg \<in> set safe_exec_heads
               \<or> (seg_head seg = ''git'' \<and> git_subcommand seg \<in> set safe_git_subcommands)))"
  unfolding Let_def build_test_approves unsafe_exec_reason_empty safe_segment_def reject_reason_empty
  by (simp add: contains_iff escapes_to_file_def redir_char_def conj_ac)

definition go_test_call :: call where
  "go_test_call = \<lparr>call_id = ''1'', surface = ''sys'', action = ''exec'',
     params = Some [''command'' \<mapsto> VStrs [''go'', ''test'', ''./...'']], rationale = []\<rparr>"

theorem build_test_gate_exact_witness:
  "list_all (\<lambda>seg. seg_head seg = [] \<or> seg_head seg \<in> set safe_exec_heads
     \<or> (seg_head seg = ''git'' \<and> git_subcommand seg \<in> set safe_git_subcommands))
     (exec_segments (trim_space (exec_command_of go_test_call)))"
proof -
  have "fst (build_test_gate go_test_call safe_verdict)" by code_simp
  then show ?thesis
    unfolding list_all_iff build_test_gate_exact [of go_test_call safe_verdict] Let_def by blast
qed

subsection \<open>The gate and the allowlist\<close>

lemma head_of_first_word:
  "head_of toks = (case find (\<lambda>tok. \<not> is_env_assignment tok) toks of None \<Rightarrow> [] | Some tok \<Rightarrow> base_name tok)"
  by (induction toks) (auto simp: env_assignment_agree)

lemma seg_head_first_word:
  "seg_head seg = (case first_word seg of None \<Rightarrow> [] | Some tok \<Rightarrow> base_name tok)"
  by (simp add: seg_head_def first_word_def head_of_first_word)

lemma first_word_nonempty: "first_word seg = Some tok \<Longrightarrow> tok \<noteq> [] \<and> set tok \<subseteq> set seg"
  unfolding first_word_def find_Some_iff
  by (metis fields_chars fields_nonempty nth_mem)

lemma base_name_file_base:
  assumes "tok \<noteq> []" "CHR 0x5C \<notin> set tok" "last tok \<noteq> CHR ''/''"
  shows "base_name tok = file_base tok" "base_name tok \<noteq> []"
proof -
  have "hd (rev tok) \<noteq> CHR ''/''" using assms by (simp add: hd_rev)
  then have strip: "dropWhile (\<lambda>x. x = CHR ''/'') (rev tok) = rev tok"
    using assms by (cases "rev tok") auto
  have same: "takeWhile (\<lambda>x. \<not> (x = CHR ''/'' \<or> x = CHR 0x5C)) (rev tok)
      = takeWhile (\<lambda>x. x \<noteq> CHR ''/'') (rev tok)"
    using assms(2) by (intro takeWhile_cong) auto
  have ne: "takeWhile (\<lambda>x. x \<noteq> CHR ''/'') (rev tok) \<noteq> []"
    using assms by (cases "rev tok") (auto simp: hd_rev dest: arg_cong [of _ _ last])
  from strip same ne show "base_name tok = file_base tok" "base_name tok \<noteq> []"
    using assms(1) by (simp_all add: base_name_def file_base_def after_last_def Let_def)
qed

lemma exec_segments_sep: "exec_segments cmd = fields_func shell_sep cmd"
proof -
  have "shell_sep = (\<lambda>r. r = CHR '';'' \<or> r = CHR ''|'' \<or> r = CHR ''&'')"
    by (rule ext) (simp add: shell_sep_def)
  then show ?thesis by (simp add: exec_segments_def)
qed

lemma segment_chars: "seg \<in> set (exec_segments cmd) \<Longrightarrow> set seg \<subseteq> set cmd"
  using split_p_chars by (fastforce simp: exec_segments_def fields_func_def)

text \<open>Every head the gate approves is one the organ runs, save \<open>diff\<close>.\<close>

lemma safe_heads_allowlisted:
  "h \<in> set safe_exec_heads \<Longrightarrow> h \<noteq> ''diff'' \<Longrightarrow> h \<in> load_allowlist extra"
  unfolding safe_exec_heads_def load_allowlist_def default_exec_allowlist_def by auto

text \<open>a command the build/test gate approves is not then refused by the allowlist of the
  \<open>sys\<close> organ, whatever the allowlist is extended with, when it has no backslash, no command word
  ending in a slash (on these the two head extractions differ) and does not run \<open>diff\<close>.\<close>

theorem approved_command_permitted:
  assumes approved: "unsafe_exec_reason cmd = []"
    and no_backslash: "CHR 0x5C \<notin> set cmd"
    and no_slash: "\<forall>seg \<in> set (exec_segments cmd). \<forall>tok. first_word seg = Some tok \<longrightarrow> last tok \<noteq> CHR ''/''"
    and no_diff: "\<forall>seg \<in> set (exec_segments cmd). seg_head seg \<noteq> ''diff''"
    and nonblank: "trim_space cmd \<noteq> []"
  shows "permit (load_allowlist extra) cmd = None"
proof -
  have safe: "safe_segment seg" if "seg \<in> set (exec_segments cmd)" for seg
    using approved that by (simp add: unsafe_exec_reason_empty)
  have head: "file_base tok = seg_head seg \<and> seg_head seg \<noteq> []"
    if "seg \<in> set (exec_segments cmd)" "first_word seg = Some tok" for seg tok
  proof -
    have "CHR 0x5C \<notin> set tok"
      using first_word_nonempty [OF that(2)] segment_chars [OF that(1)] no_backslash by blast
    moreover have "last tok \<noteq> CHR ''/''" using no_slash that by blast
    ultimately show ?thesis
      using base_name_file_base [of tok] first_word_nonempty [OF that(2)] that(2)
      by (simp add: seg_head_first_word)
  qed
  have "file_base tok \<in> load_allowlist extra"
    if "seg \<in> set (exec_segments cmd)" "first_word seg = Some tok" for seg tok
    using head [OF that] safe [OF that(1)] no_diff that(1) safe_heads_allowlisted [of _ extra]
    by (auto simp: safe_segment_def load_allowlist_def default_exec_allowlist_def)
  then have "set (command_heads cmd) \<subseteq> load_allowlist extra"
    by (auto simp: in_command_heads exec_segments_sep)
  moreover obtain seg where "seg \<in> set (exec_segments cmd)" "seg_head seg \<noteq> []"
    using approved by (auto simp: unsafe_exec_reason_empty)
  then have "\<exists>h. h \<in> set (command_heads cmd)"
    unfolding in_command_heads exec_segments_sep [symmetric]
    by (auto simp: seg_head_first_word split: option.splits)
  then have "command_heads cmd \<noteq> []" by auto
  moreover have "reject_reason cmd = []" using approved by (simp add: unsafe_exec_reason_empty)
  ultimately show ?thesis using nonblank by (simp add: permit_None_iff)
qed

definition two_commands :: string where
  "two_commands = ''go build ./... && git -C sub status''"

theorem approved_command_permitted_witness:
  "permit (load_allowlist ''jq'') two_commands = None"
proof (rule approved_command_permitted)
  have seg: "exec_segments two_commands = [''go build ./... '', '' git -C sub status'']" by code_simp
  show "unsafe_exec_reason two_commands = []" by code_simp
  show "CHR 0x5C \<notin> set two_commands" by code_simp
  have "list_all (\<lambda>s. case first_word s of None \<Rightarrow> True | Some tok \<Rightarrow> last tok \<noteq> CHR ''/'')
      (exec_segments two_commands)" by code_simp
  then show "\<forall>s \<in> set (exec_segments two_commands). \<forall>tok. first_word s = Some tok \<longrightarrow> last tok \<noteq> CHR ''/''"
    by (auto simp: list_all_iff split: option.splits)
  show "\<forall>s \<in> set (exec_segments two_commands). seg_head s \<noteq> ''diff''" by code_simp
  show "trim_space two_commands \<noteq> []" by code_simp
qed

lemma plain_shape:
  assumes "\<And>x. x \<in> set cmd \<Longrightarrow> x \<noteq> CHR ''$'' \<and> x \<noteq> CHR ''<'' \<and> x \<noteq> CHR ''>'' \<and> x \<noteq> CHR 0x60"
  shows "reject_reason cmd = []"
proof -
  have "\<not> contains cmd (b # bs)" if "b \<in> {CHR ''$'', CHR ''<'', CHR ''>'', CHR 0x60}" for b bs
    using assms that unfolding contains_iff by fastforce
  moreover have "\<not> escapes_to_file cmd"
    using assms unfolding escapes_to_file_def redir_char_def by fastforce
  moreover have "CHR 0x60 \<notin> set cmd" using assms by blast
  ultimately show ?thesis by (simp add: reject_reason_empty backtick_def)
qed

text \<open>A newline ends a shell command, yet neither head extraction splits at it: behind
  \<open>go version\<close> and a newline every text without the characters of the deny rule and the separators
  is approved by the build/test gate and permitted by the allowlist, whatever command it names.\<close>

theorem newline_hides_command:
  assumes "set rest \<inter> set ''$<>;|&'' = {}" "CHR 0x60 \<notin> set rest"
  shows "unsafe_exec_reason (''go version'' @ newline @ rest) = []
    \<and> permit (set default_exec_allowlist) (''go version'' @ newline @ rest) = None"
proof -
  let ?cmd = "''go version'' @ newline @ rest"
  have plain: "x \<noteq> CHR ''$'' \<and> x \<noteq> CHR ''<'' \<and> x \<noteq> CHR ''>'' \<and> x \<noteq> CHR 0x60 \<and> \<not> shell_sep x" if "x \<in> set ?cmd" for x
    using assms that by (auto simp: newline_def shell_sep_def)
  have shape: "reject_reason ?cmd = []" using plain by (intro plain_shape) blast
  have seg: "fields_func shell_sep ?cmd = [?cmd]"
    using split_p_none [of ?cmd shell_sep] plain by (simp add: fields_func_def)
  have first: "first_word ?cmd = Some ''go''"
    by (simp add: first_word_def go_string is_env_assignment_def newline_def)
  then have "seg_head ?cmd = ''go''"
    by (simp add: seg_head_first_word base_name_def after_last_def)
  then have "unsafe_exec_reason ?cmd = []"
    using shape seg by (simp add: unsafe_exec_reason_def exec_segments_sep safe_exec_heads_def Let_def)
  moreover have "command_heads ?cmd = [''go'']"
    unfolding command_heads_def seg
    by (simp add: first List.map_filter_def file_base_no_slash del: append_Cons append_Nil)
  moreover have "trim_space ?cmd \<noteq> []" by (simp add: go_string)
  ultimately show ?thesis
    using shape by (simp add: permit_None_iff default_exec_allowlist_def)
qed

theorem newline_hides_command_witness:
  "unsafe_exec_reason (''go version'' @ newline @ ''rm -rf src'') = []
    \<and> permit (set default_exec_allowlist) (''go version'' @ newline @ ''rm -rf src'') = None"
  by (rule newline_hides_command) simp_all

end
