(* ===== verification/Path_Glob.thy ===== *)
theory Path_Glob
  imports Go_Prelude
begin

text \<open>
  The path-glob matcher, \<open>internal/pathglob/pathglob.go\<close>, behind every protected-path decision.
  \<open>path_match\<close> is \<open>path.Match\<close> of the Go library on one path segment: \<open>*\<close>, \<open>?\<close>, classes and
  backslash escapes, a malformed pattern matching nothing. \<open>?\<close> and a class consume one byte, which
  is Go's rune on ASCII paths.
\<close>

fun get_esc :: "string \<Rightarrow> (char \<times> string) option" where
  "get_esc [] = None"
| "get_esc (c # s) =
     (if c = CHR ''-'' \<or> c = CHR '']'' then None
      else if c = CHR 0x5C then (case s of d # e # t \<Rightarrow> Some (d, e # t) | _ \<Rightarrow> None)
      else if s = [] then None else Some (c, s))"

lemma get_esc_length: "get_esc s = Some (c, t) \<Longrightarrow> length t < length s"
  by (cases s) (auto split: if_splits list.splits)

text \<open>The ranges of a class after its \<open>[\<close> and \<open>^\<close>: whether \<open>r\<close> lies in one of them, and the
  pattern behind the closing bracket.\<close>

function class_ranges :: "char \<Rightarrow> bool \<Rightarrow> bool \<Rightarrow> string \<Rightarrow> (bool \<times> string) option" where
  "class_ranges r seen matched s =
     (if seen \<and> s \<noteq> [] \<and> hd s = CHR '']'' then Some (matched, tl s)
      else (case get_esc s of
              None \<Rightarrow> None
            | Some (lo, s1) \<Rightarrow>
                (if hd s1 = CHR ''-'' then
                   (case get_esc (tl s1) of
                      None \<Rightarrow> None
                    | Some (hi, s2) \<Rightarrow>
                        class_ranges r True (matched \<or> ((of_char lo :: nat) \<le> of_char r \<and> (of_char r :: nat) \<le> of_char hi)) s2)
                 else class_ranges r True (matched \<or> lo = r) s1)))"
  by pat_completeness auto
termination
proof (relation "measure (\<lambda>(r, seen, matched, s). length s)", goal_cases)
  case 1
  then show ?case by simp
next
  case (2 r seen matched s p lo s1 p' hi s2)
  then have "get_esc s = Some (lo, s1)" "get_esc (tl s1) = Some (hi, s2)" by simp_all
  from this [THEN get_esc_length] show ?case by simp
next
  case (3 r seen matched s p lo s1)
  then have "length s1 < length s" using get_esc_length by auto
  then show ?case by simp
qed

declare class_ranges.simps [simp del]

definition match_class :: "char \<Rightarrow> string \<Rightarrow> (bool \<times> string) option" where
  "match_class r s =
     (if s \<noteq> [] \<and> hd s = CHR ''^''
      then map_option (\<lambda>(b, t). (\<not> b, t)) (class_ranges r False False (tl s))
      else class_ranges r False False s)"

lemma class_ranges_length: "class_ranges r seen matched s = Some (b, t) \<Longrightarrow> length t < length s"
proof (induction r seen matched s rule: class_ranges.induct)
  case (1 r seen matched s)
  show ?case
  proof (cases "seen \<and> s \<noteq> [] \<and> hd s = CHR '']''")
    case True
    then have "length (tl s) < length s" by (cases s) auto
    with True "1.prems" show ?thesis by (simp add: class_ranges.simps)
  next
    case False
    with "1.prems" obtain lo s1 where esc: "get_esc s = Some (lo, s1)"
      by (subst (asm) class_ranges.simps) (auto split: option.splits)
    note l1 = get_esc_length [OF esc]
    show ?thesis
    proof (cases "hd s1 = CHR ''-''")
      case True
      with False "1.prems" esc obtain hi s2 where hi: "get_esc (tl s1) = Some (hi, s2)"
        by (subst (asm) class_ranges.simps) (auto split: option.splits)
      have "length t < length s2"
        using "1.IH"(1) [OF False esc refl True hi refl] "1.prems" False esc True hi
        by (subst (asm) (2) class_ranges.simps) simp
      with l1 get_esc_length [OF hi] show ?thesis by simp
    next
      case no: False
      have "length t < length s1"
        using "1.IH"(2) [OF False esc refl no] "1.prems" False esc no
        by (subst (asm) (2) class_ranges.simps) simp
      with l1 show ?thesis by simp
    qed
  qed
qed

lemma match_class_length: "match_class r s = Some (b, t) \<Longrightarrow> length t < length s"
  by (auto simp: match_class_def split: if_splits dest!: class_ranges_length)

function path_match :: "string \<Rightarrow> string \<Rightarrow> bool" where
  "path_match [] name = (name = [])"
| "path_match (p # ps) name =
     (if p = CHR ''*'' then
        path_match ps name
        \<or> (case name of [] \<Rightarrow> False | c # n \<Rightarrow> c \<noteq> CHR ''/'' \<and> path_match (p # ps) n)
      else if p = CHR 0x5C then
        (case (ps, name) of (q # qs, c # n) \<Rightarrow> q = c \<and> path_match qs n | _ \<Rightarrow> False)
      else (case name of
              [] \<Rightarrow> False
            | c # n \<Rightarrow>
                (if p = CHR ''?'' then c \<noteq> CHR ''/'' \<and> path_match ps n
                 else if p = CHR ''['' then
                   (case match_class c ps of
                      None \<Rightarrow> False
                    | Some (ok, qs) \<Rightarrow> ok \<and> path_match qs n)
                 else p = c \<and> path_match ps n)))"
  by pat_completeness auto
termination
  by (relation "measure (\<lambda>(ps, n). length ps + length n)")
    (auto dest: match_class_length)

fun match_segments :: "string list \<Rightarrow> string list \<Rightarrow> bool" where
  "match_segments segs [] = (segs = [])"
| "match_segments segs (pat # pats) =
     (if pat = ''**'' then
        (if pats = [] then True
         else list_ex (\<lambda>i. match_segments (drop i segs) pats) [0..<Suc (length segs)])
      else (case segs of
              [] \<Rightarrow> False
            | seg # segs' \<Rightarrow> path_match pat seg \<and> match_segments segs' pats))"

definition segments :: "string \<Rightarrow> string list" where
  "segments p = split_char (CHR ''/'') (trim_char (CHR ''/'') p)"

definition matches :: "string \<Rightarrow> string \<Rightarrow> bool" where
  "matches p pattern = match_segments (segments p) (segments pattern)"

definition matches_any :: "string \<Rightarrow> string list \<Rightarrow> bool" where
  "matches_any p patterns = list_ex (matches p) patterns"

text \<open>The loop of \<open>IsProtected\<close>: the flag is \<open>matchedPositive\<close>.\<close>

fun is_protected_loop :: "string \<Rightarrow> bool \<Rightarrow> string list \<Rightarrow> bool" where
  "is_protected_loop p matched [] = matched"
| "is_protected_loop p matched (pat # pats) =
     (case cut_prefix pat ''!'' of
        Some ex \<Rightarrow> if matches p ex then False else is_protected_loop p matched pats
      | None \<Rightarrow> is_protected_loop p (matched \<or> matches p pat) pats)"

definition is_protected :: "string \<Rightarrow> string list \<Rightarrow> bool" where
  "is_protected p patterns = is_protected_loop p False patterns"

subsection \<open>A declarative reading of the patterns\<close>

inductive glob :: "string list \<Rightarrow> string list \<Rightarrow> bool" where
  glob_nil: "glob [] []"
| glob_deep: "glob segs pats \<Longrightarrow> glob (skipped @ segs) (''**'' # pats)"
| glob_seg: "pat \<noteq> ''**'' \<Longrightarrow> path_match pat seg \<Longrightarrow> glob segs pats \<Longrightarrow> glob (seg # segs) (pat # pats)"

inductive_simps glob_no_pats [simp]: "glob segs []"
inductive_cases glob_consE: "glob segs (pat # pats)"

lemma match_segments_glob: "match_segments segs pats \<longleftrightarrow> glob segs pats"
proof (induction pats arbitrary: segs)
  case Nil
  then show ?case by simp
next
  case (Cons pat pats)
  show ?case
  proof (cases "pat = ''**''")
    case True
    have "glob segs (pat # pats) \<longleftrightarrow> (\<exists>i < Suc (length segs). glob (drop i segs) pats)"
    proof
      assume "glob segs (pat # pats)"
      then obtain sk s where "segs = sk @ s" "glob s pats" using True by (auto elim: glob_consE)
      then show "\<exists>i < Suc (length segs). glob (drop i segs) pats"
        by (intro exI [of _ "length sk"]) simp
    next
      assume "\<exists>i < Suc (length segs). glob (drop i segs) pats"
      then obtain i where "glob (drop i segs) pats" by blast
      then show "glob segs (pat # pats)"
        using glob_deep [of "drop i segs" pats "take i segs"] True by simp
    qed
    moreover have "glob (drop (length segs) segs) pats" if "pats = []" using that by simp
    ultimately show ?thesis
      using True Cons.IH by (auto simp: list_ex_iff Bex_def less_Suc_eq simp del: upt_Suc)
  next
    case False
    then show ?thesis
      using Cons.IH by (cases segs) (auto elim!: glob_consE intro: glob_seg)
  qed
qed

lemma is_protected_loop_iff:
  "is_protected_loop p matched pats \<longleftrightarrow>
     (matched \<or> (\<exists>pat \<in> set pats. cut_prefix pat ''!'' = None \<and> matches p pat))
     \<and> \<not> (\<exists>pat \<in> set pats. \<exists>ex. cut_prefix pat ''!'' = Some ex \<and> matches p ex)"
  by (induction pats arbitrary: matched) (auto split: option.splits)

lemma path_match_star:
  "path_match (CHR ''*'' # ps) name \<longleftrightarrow>
     (\<exists>a b. name = a @ b \<and> CHR ''/'' \<notin> set a \<and> path_match ps b)"
proof (induction name)
  case Nil
  then show ?case by simp
next
  case (Cons c name)
  note IH = Cons.IH
  show ?case
  proof
    assume "path_match (CHR ''*'' # ps) (c # name)"
    then consider "path_match ps (c # name)" | "c \<noteq> CHR ''/''" "path_match (CHR ''*'' # ps) name" by auto
    then show "\<exists>a b. c # name = a @ b \<and> CHR ''/'' \<notin> set a \<and> path_match ps b"
    proof cases
      case 1
      then show ?thesis by (intro exI [of _ "[]"] exI [of _ "c # name"]) simp
    next
      case 2
      with Cons.IH obtain a b where "name = a @ b" "CHR ''/'' \<notin> set a" "path_match ps b" by blast
      with 2 show ?thesis by (intro exI [of _ "c # a"] exI [of _ b]) simp
    qed
  next
    assume "\<exists>a b. c # name = a @ b \<and> CHR ''/'' \<notin> set a \<and> path_match ps b"
    then obtain a b where ab: "c # name = a @ b" "CHR ''/'' \<notin> set a" "path_match ps b" by blast
    show "path_match (CHR ''*'' # ps) (c # name)"
    proof (cases a)
      case Nil
      with ab show ?thesis by simp
    next
      case (Cons x a')
      with ab IH have "path_match (CHR ''*'' # ps) name" "c \<noteq> CHR ''/''" by auto
      then show ?thesis by simp
    qed
  qed
qed

definition literal :: "string \<Rightarrow> bool" where
  "literal s = (set s \<inter> {CHR ''*'', CHR ''?'', CHR ''['', CHR 0x5C} = {})"

lemma path_match_literal: "literal ps \<Longrightarrow> path_match ps name \<longleftrightarrow> name = ps"
proof (induction ps arbitrary: name)
  case Nil
  then show ?case by simp
next
  case (Cons p ps)
  then have "literal ps" by (simp add: literal_def)
  with Cons show ?case by (cases name) (auto simp: literal_def)
qed

subsection \<open>Properties\<close>

lemma segments_not_Nil: "segments p \<noteq> []"
  by (simp add: segments_def split_char_def)

lemma segment_no_slash: "seg \<in> set (segments p) \<Longrightarrow> CHR ''/'' \<notin> set seg"
  by (auto simp: segments_def split_char_def dest!: split_p_chars)

lemma star_suffix:
  assumes "CHR ''/'' \<notin> set seg" "literal suffix"
  shows "path_match (CHR ''*'' # suffix) seg \<longleftrightarrow> has_suffix seg suffix"
  using assms(1) unfolding path_match_star path_match_literal [OF assms(2)] has_suffix_iff by auto

lemma glob_last:
  assumes "pat \<noteq> ''**''"
  shows "glob segs [''**'', pat] \<longleftrightarrow> segs \<noteq> [] \<and> path_match pat (last segs)"
proof
  assume "glob segs [''**'', pat]"
  then obtain sk s where "segs = sk @ s" "glob s [pat]" by (auto elim: glob_consE)
  moreover from this(2) assms obtain seg where "s = [seg]" "path_match pat seg" by (auto elim: glob_consE)
  ultimately show "segs \<noteq> [] \<and> path_match pat (last segs)" by simp
next
  assume "segs \<noteq> [] \<and> path_match pat (last segs)"
  then show "glob segs [''**'', pat]"
    using glob_deep [OF glob_seg [OF assms _ glob_nil], of "last segs" "butlast segs"] by simp
qed

lemma matches_deep_suffix:
  assumes "segments pattern = [''**'', CHR ''*'' # suffix]" "literal suffix"
  shows "matches p pattern \<longleftrightarrow> has_suffix (last (segments p)) suffix"
proof -
  have "suffix \<noteq> ''*''" using assms(2) by (auto simp: literal_def)
  then have "CHR ''*'' # suffix \<noteq> ''**''" by simp
  from glob_last [OF this, of "segments p"] show ?thesis
    using segments_not_Nil [of p] star_suffix [OF segment_no_slash assms(2), of "last (segments p)" p]
    by (simp add: matches_def match_segments_glob assms(1))
qed

text \<open>C11: A path is protected exactly when some pattern without \<open>!\<close> matches it and no exception
  pattern does, where \<open>**\<close> stands for any number of segments and every other pattern segment for one
  segment: the order of the patterns does not matter.\<close>

theorem is_protected_declarative:
  "is_protected p patterns \<longleftrightarrow>
     (\<exists>pat. pat \<in> set patterns \<and> \<not> has_prefix pat ''!'' \<and> glob (segments p) (segments pat))
     \<and> \<not> (\<exists>ex. ''!'' @ ex \<in> set patterns \<and> glob (segments p) (segments ex))"
proof -
  have some: "cut_prefix pat ''!'' = Some ex \<longleftrightarrow> pat = CHR ''!'' # ex" for pat ex
    by (cases pat) (auto simp: cut_prefix_def has_prefix_def)
  have none: "cut_prefix pat ''!'' = None \<longleftrightarrow> \<not> has_prefix pat ''!''" for pat
    by (simp add: cut_prefix_def)
  have "(\<exists>pat \<in> set patterns. \<exists>ex. pat = CHR ''!'' # ex \<and> glob (segments p) (segments ex)) \<longleftrightarrow>
      (\<exists>ex. CHR ''!'' # ex \<in> set patterns \<and> glob (segments p) (segments ex))" by auto
  then show ?thesis
    by (simp add: is_protected_def is_protected_loop_iff matches_def match_segments_glob some none Bex_def)
qed

text \<open>the protected set of a test-authoring profile, all Go files but the tests, protects
  exactly the paths whose last segment ends in \<open>.go\<close> and not in \<open>_test.go\<close>, at every depth.\<close>

theorem test_author_profile_protects:
  "is_protected p [''**/*.go'', ''!**/*_test.go''] \<longleftrightarrow>
     has_suffix (last (segments p)) ''.go'' \<and> \<not> has_suffix (last (segments p)) ''_test.go''"
proof -
  have "segments ''**/*.go'' = [''**'', CHR ''*'' # ''.go'']"
    "segments ''**/*_test.go'' = [''**'', CHR ''*'' # ''_test.go'']" by code_simp+
  from this [THEN matches_deep_suffix, of p] show ?thesis
    by (simp add: is_protected_def cut_prefix_def has_prefix_def literal_def)
qed

end
