(* ===== verification/Coding_Spec.thy ===== *)
theory Coding_Spec
  imports Path_Glob Tool_Types
begin

text \<open>
  The specification types of the atomic coding chain, \<open>internal/coding/spec.go\<close> and
  \<open>feature_chain.go\<close>: tasks, chains, their validation and the assembly of a feature chain.
  A Go map is an association list whose order is the iteration order of the run. \<open>file_clean\<close> is
  \<open>filepath.Clean\<close> on a Unix path.
\<close>

datatype worker_kind = WorkerDeterministic | WorkerModel | UnknownKind string

record input_ref =
  ir_from :: string
  ir_field :: string

record assertion =
  as_name :: string
  as_command :: "string list"
  as_description :: string

record extraction =
  ex_name :: string
  ex_command :: "string list"
  ex_format :: string

record output_contract =
  oc_assertions :: "assertion list"
  oc_extractions :: "extraction list"

record worker_config =
  wc_kind :: worker_kind
  wc_command :: "string list"
  wc_timeout_seconds :: int
  wc_system_prompt :: string
  wc_inline_sibling_docs :: bool

record atomic_task =
  at_slug :: string
  at_goal :: string
  at_inputs :: "(string \<times> input_ref) list"
  at_workspace :: "string list"
  at_protected :: "string list"
  at_allow_test_only :: bool
  at_gate :: "string list list"
  at_oracles :: "(string \<times> string) list"
  at_contract :: output_contract
  at_worker :: worker_config
  at_conventions :: "string list"
  at_max_iterations :: int

record chain =
  ch_slug :: string
  ch_target_repo :: string
  ch_base_branch :: string
  ch_tasks :: "atomic_task list"

definition valid_worker_kind :: "worker_kind \<Rightarrow> bool" where
  "valid_worker_kind k = (k = WorkerDeterministic \<or> k = WorkerModel)"

definition default_max_iterations :: int where
  "default_max_iterations = 5"

subsection \<open>Lexical path cleaning\<close>

fun clean_step :: "bool \<Rightarrow> string \<Rightarrow> string list \<Rightarrow> string list" where
  "clean_step rooted seg stack =
     (if seg = [] \<or> seg = ''.'' then stack
      else if seg = ''..'' then
        (case stack of
           [] \<Rightarrow> if rooted then [] else [''..'']
         | s # rest \<Rightarrow> if s = ''..'' then ''..'' # stack else rest)
      else seg # stack)"

definition clean_stack :: "string \<Rightarrow> string list" where
  "clean_stack p = fold (clean_step (has_prefix p ''/'')) (split_char (CHR ''/'') p) []"

definition file_clean :: "string \<Rightarrow> string" where
  "file_clean p =
     (let body = join ''/'' (rev (clean_stack p))
      in if has_prefix p ''/'' then ''/'' @ body else if body = [] then ''.'' else body)"

definition is_abs :: "string \<Rightarrow> bool" where
  "is_abs p = has_prefix p ''/''"

subsection \<open>Validation\<close>

datatype spec_error =
    NoTasks
  | NoSlug nat
  | DuplicateSlug string
  | UnknownWorkerKind string
  | ConventionsNotModel string
  | MissingCommand string
  | NegativeIterations string int
  | OraclePathUnclean string string
  | OracleUnprotected string string
  | InputSelf string string
  | InputNotEarlier string string string
  | EmptyGoal string
  | NoGate string
  | OracleNotTest string string

fun validate_oracles :: "atomic_task \<Rightarrow> (string \<times> string) list \<Rightarrow> spec_error option" where
  "validate_oracles t [] = None"
| "validate_oracles t ((path, src) # rest) =
     (let clean = file_clean path
      in if path = [] \<or> clean \<noteq> path \<or> is_abs path \<or> has_prefix clean ''..''
         then Some (OraclePathUnclean (at_slug t) path)
         else if \<not> is_protected path (at_protected t)
         then Some (OracleUnprotected (at_slug t) path)
         else validate_oracles t rest)"

fun validate_inputs :: "atomic_task \<Rightarrow> string list \<Rightarrow> (string \<times> input_ref) list \<Rightarrow> spec_error option" where
  "validate_inputs t earlier [] = None"
| "validate_inputs t earlier ((name, ref) # rest) =
     (if ir_from ref = at_slug t then Some (InputSelf (at_slug t) name)
      else if ir_from ref \<notin> set earlier
      then Some (InputNotEarlier (at_slug t) name (ir_from ref))
      else validate_inputs t earlier rest)"

definition validate_task :: "atomic_task \<Rightarrow> string list \<Rightarrow> spec_error option" where
  "validate_task t earlier =
     (let kind = wc_kind (at_worker t)
      in if \<not> valid_worker_kind kind then Some (UnknownWorkerKind (at_slug t))
         else if kind \<noteq> WorkerModel \<and> at_conventions t \<noteq> [] then Some (ConventionsNotModel (at_slug t))
         else if kind = WorkerDeterministic \<and> wc_command (at_worker t) = []
         then Some (MissingCommand (at_slug t))
         else if at_max_iterations t < 0
         then Some (NegativeIterations (at_slug t) (at_max_iterations t))
         else (case validate_oracles t (at_oracles t) of
                 Some e \<Rightarrow> Some e
               | None \<Rightarrow> validate_inputs t earlier (at_inputs t)))"

fun validate_from :: "nat \<Rightarrow> string list \<Rightarrow> atomic_task list \<Rightarrow> spec_error option" where
  "validate_from i seen [] = None"
| "validate_from i seen (t # ts) =
     (if blank (at_slug t) then Some (NoSlug i)
      else if at_slug t \<in> set seen then Some (DuplicateSlug (at_slug t))
      else (case validate_task t seen of
              Some e \<Rightarrow> Some e
            | None \<Rightarrow> validate_from (Suc i) (at_slug t # seen) ts))"

definition validate :: "chain \<Rightarrow> spec_error option" where
  "validate c = (if ch_tasks c = [] then Some NoTasks else validate_from 0 [] (ch_tasks c))"

definition max_iterations :: "atomic_task \<Rightarrow> int" where
  "max_iterations t = (if at_max_iterations t \<le> 0 then default_max_iterations else at_max_iterations t)"

definition extraction_format :: "extraction \<Rightarrow> string" where
  "extraction_format e = (if ex_format e = ''json'' then ''json'' else ''string'')"

definition task_by_slug :: "chain \<Rightarrow> string \<Rightarrow> atomic_task option" where
  "task_by_slug c slug = find (\<lambda>t. at_slug t = slug) (ch_tasks c)"

subsection \<open>Feature chains\<close>

record feature_task =
  ft_slug :: string
  ft_goal :: string
  ft_gate :: "string list list"
  ft_oracles :: "(string \<times> string) list"
  ft_workspace :: "string list"
  ft_inputs :: "(string \<times> input_ref) list"
  ft_max_iterations :: int

definition empty_contract :: output_contract where
  "empty_contract = \<lparr>oc_assertions = [], oc_extractions = []\<rparr>"

definition model_worker_config :: worker_config where
  "model_worker_config = \<lparr>wc_kind = WorkerModel, wc_command = [], wc_timeout_seconds = 0,
     wc_system_prompt = [], wc_inline_sibling_docs = False\<rparr>"

definition feature_at :: "feature_task \<Rightarrow> atomic_task" where
  "feature_at ft = \<lparr>at_slug = ft_slug ft, at_goal = ft_goal ft, at_inputs = ft_inputs ft,
     at_workspace = ft_workspace ft, at_protected = [''**/*_test.go''], at_allow_test_only = False,
     at_gate = ft_gate ft, at_oracles = ft_oracles ft, at_contract = empty_contract,
     at_worker = model_worker_config, at_conventions = [], at_max_iterations = ft_max_iterations ft\<rparr>"

fun feature_ats :: "nat \<Rightarrow> feature_task list \<Rightarrow> spec_error + atomic_task list" where
  "feature_ats i [] = Inr []"
| "feature_ats i (ft # fts) =
     (if blank (ft_slug ft) then Inl (NoSlug i)
      else if blank (ft_goal ft) then Inl (EmptyGoal (ft_slug ft))
      else if ft_gate ft = [] then Inl (NoGate (ft_slug ft))
      else (case find (\<lambda>(path, src). \<not> has_suffix path ''_test.go'') (ft_oracles ft) of
              Some (path, src) \<Rightarrow> Inl (OracleNotTest (ft_slug ft) path)
            | None \<Rightarrow> (case feature_ats (Suc i) fts of
                         Inl e \<Rightarrow> Inl e
                       | Inr ats \<Rightarrow> Inr (feature_at ft # ats))))"

definition build_feature_chain :: "string \<Rightarrow> string \<Rightarrow> feature_task list \<Rightarrow> spec_error + chain" where
  "build_feature_chain slug target tasks =
     (if tasks = [] then Inl NoTasks
      else (case feature_ats 0 tasks of
              Inl e \<Rightarrow> Inl e
            | Inr ats \<Rightarrow>
                (let c = \<lparr>ch_slug = slug, ch_target_repo = target, ch_base_branch = [], ch_tasks = ats\<rparr>
                 in case validate c of Some e \<Rightarrow> Inl e | None \<Rightarrow> Inr c)))"

subsection \<open>What a clean path is\<close>

definition clean_segs :: "string list \<Rightarrow> bool" where
  "clean_segs stack = (list_all (\<lambda>s. s \<noteq> [] \<and> CHR ''/'' \<notin> set s) stack)"

text \<open>On a relative path the stack keeps its \<open>..\<close> segments at the bottom.\<close>

definition dots_below :: "string list \<Rightarrow> bool" where
  "dots_below stack \<longleftrightarrow> (\<exists>names n. stack = names @ replicate n ''..'' \<and> ''..'' \<notin> set names)"

lemma dots_below_Cons: "s \<noteq> ''..'' \<Longrightarrow> dots_below (s # stack) \<longleftrightarrow> dots_below stack"
proof
  assume s: "s \<noteq> ''..''" and "dots_below (s # stack)"
  then obtain names n where *: "s # stack = names @ replicate n ''..''" "''..'' \<notin> set names"
    by (auto simp: dots_below_def)
  with s obtain x ns where "names = x # ns" by (cases names; cases n) auto
  with * show "dots_below stack" unfolding dots_below_def
    by (intro exI [of _ ns] exI [of _ n]) simp
next
  assume s: "s \<noteq> ''..''" and "dots_below stack"
  then obtain names n where "stack = names @ replicate n ''..''" "''..'' \<notin> set names"
    by (auto simp: dots_below_def)
  with s show "dots_below (s # stack)" unfolding dots_below_def
    by (intro exI [of _ "s # names"] exI [of _ n]) auto
qed

lemma dots_below_dots: "dots_below (''..'' # stack) \<Longrightarrow> \<exists>n. stack = replicate n ''..''"
proof -
  assume "dots_below (''..'' # stack)"
  then obtain names n where "''..'' # stack = names @ replicate n ''..''" "''..'' \<notin> set names"
    by (auto simp: dots_below_def)
  then show ?thesis by (cases names; cases n) auto
qed

lemma clean_step_inv:
  assumes "dots_below stack" "clean_segs stack" "CHR ''/'' \<notin> set seg"
  shows "dots_below (clean_step False seg stack) \<and> clean_segs (clean_step False seg stack)"
proof -
  consider "seg = [] \<or> seg = ''.''" | "seg = ''..''" | "seg \<noteq> []" "seg \<noteq> ''.''" "seg \<noteq> ''..''" by blast
  then show ?thesis
  proof cases
    case 1
    with assms show ?thesis by auto
  next
    case 2
    show ?thesis
    proof (cases stack)
      case Nil
      have "dots_below [''..'']" unfolding dots_below_def
        by (intro exI [of _ "[]"] exI [of _ 1]) simp
      with 2 Nil show ?thesis by (simp add: clean_segs_def)
    next
      case (Cons x rest)
      show ?thesis
      proof (cases "x = ''..''")
        case True
        with Cons assms(1) dots_below_dots obtain n where n: "rest = replicate n ''..''" by blast
        have "dots_below (''..'' # ''..'' # rest)" unfolding dots_below_def n
          by (intro exI [of _ "[]"] exI [of _ "Suc (Suc n)"]) simp
        with 2 Cons True assms(2) show ?thesis by (simp add: clean_segs_def)
      next
        case False
        with 2 Cons assms dots_below_Cons [OF False] show ?thesis by (simp add: clean_segs_def)
      qed
    qed
  next
    case 3
    with assms dots_below_Cons [OF 3(3)] show ?thesis by (simp add: clean_segs_def)
  qed
qed

lemma clean_fold_inv:
  assumes "dots_below stack" "clean_segs stack" "\<forall>s \<in> set segs. CHR ''/'' \<notin> set s"
  shows "dots_below (fold (clean_step False) segs stack) \<and> clean_segs (fold (clean_step False) segs stack)"
  using assms
proof (induction segs arbitrary: stack)
  case Nil
  then show ?case by simp
next
  case (Cons seg segs)
  have "dots_below (clean_step False seg stack) \<and> clean_segs (clean_step False seg stack)"
    using Cons.prems by (intro clean_step_inv) auto
  with Cons show ?case by (simp del: clean_step.simps)
qed

lemma clean_stack_inv:
  assumes "\<not> is_abs p"
  shows "dots_below (clean_stack p) \<and> clean_segs (clean_stack p)"
proof -
  have "dots_below []" by (simp add: dots_below_def)
  moreover have "\<forall>s \<in> set (split_char (CHR ''/'') p). CHR ''/'' \<notin> set s"
    by (auto simp: split_char_def dest: split_p_chars)
  ultimately show ?thesis
    using assms clean_fold_inv [of "[]"] by (simp add: clean_stack_def is_abs_def clean_segs_def)
qed

lemma split_join:
  assumes "\<forall>s \<in> set segs. c \<notin> set s" "segs \<noteq> []"
  shows "split_char c (join [c] segs) = segs"
  using assms
proof (induction segs rule: induct_list012)
  case 1
  then show ?case by simp
next
  case (2 x)
  have "\<forall>y \<in> set x. y \<noteq> c" using "2.prems" by auto
  then show ?case by (simp add: split_char_def split_p_none)
next
  case (3 x y zs)
  have "\<forall>z \<in> set x. z \<noteq> c" using "3.prems" by auto
  then show ?case
    using 3 by (simp add: split_char_def split_p_single [where p = "\<lambda>x. x = c"])
qed

lemma has_prefix_join: "has_prefix (join sep (x # xs)) x"
  by (cases xs) (auto simp: has_prefix_iff)

lemma clean_relative_no_dots:
  assumes "file_clean p = p" "p \<noteq> []" "\<not> is_abs p" "\<not> has_prefix p ''..''"
  shows "''..'' \<notin> set (split_char (CHR ''/'') p)"
proof (cases "clean_stack p = []")
  case True
  then have "p = ''.''" using assms by (simp add: file_clean_def is_abs_def Let_def)
  then show ?thesis by (simp add: split_char_def)
next
  case False
  let ?segs = "rev (clean_stack p)"
  have inv: "dots_below (clean_stack p)" "clean_segs (clean_stack p)"
    using clean_stack_inv assms(3) by auto
  have "hd ?segs \<noteq> []" using inv(2) False by (auto simp: clean_segs_def list_all_iff hd_rev)
  then have "join ''/'' ?segs \<noteq> []"
    using False has_prefix_join [of "''/''" "hd ?segs" "tl ?segs"] by (auto simp: has_prefix_iff)
  then have p: "p = join ''/'' ?segs"
    using assms by (simp add: file_clean_def is_abs_def Let_def)
  have "split_char (CHR ''/'') (join ''/'' ?segs) = ?segs"
    using inv(2) False by (intro split_join) (auto simp: clean_segs_def list_all_iff)
  moreover have "''..'' \<notin> set ?segs"
  proof -
    obtain names n where st: "clean_stack p = names @ replicate n ''..''" "''..'' \<notin> set names"
      using inv(1) by (auto simp: dots_below_def)
    have "n = 0"
    proof (rule ccontr)
      assume "n \<noteq> 0"
      then obtain m where "n = Suc m" by (cases n) auto
      then have "?segs = ''..'' # rev (names @ replicate m ''..'')"
        using st(1) by (simp add: replicate_append_same [symmetric])
      then have "has_prefix p ''..''" using p has_prefix_join by metis
      with assms(4) show False by simp
    qed
    with st show ?thesis by simp
  qed
  ultimately show ?thesis using p by simp
qed

subsection \<open>What validation establishes\<close>

definition safe_oracle :: "atomic_task \<Rightarrow> string \<Rightarrow> bool" where
  "safe_oracle t path \<longleftrightarrow> path \<noteq> [] \<and> \<not> is_abs path \<and> ''..'' \<notin> set (split_char (CHR ''/'') path)
     \<and> is_protected path (at_protected t)"

lemma validate_oracles_None:
  "validate_oracles t os = None \<Longrightarrow> (path, src) \<in> set os \<Longrightarrow> safe_oracle t path"
  by (induction t os rule: validate_oracles.induct)
    (auto simp: Let_def safe_oracle_def clean_relative_no_dots split: if_splits)

lemma validate_inputs_None:
  "validate_inputs t earlier ins = None \<Longrightarrow> (name, ref) \<in> set ins \<Longrightarrow> ir_from ref \<in> set earlier"
  by (induction t earlier ins rule: validate_inputs.induct) (auto split: if_splits)

definition task_ok :: "string set \<Rightarrow> atomic_task \<Rightarrow> bool" where
  "task_ok earlier t \<longleftrightarrow> \<not> blank (at_slug t) \<and> valid_worker_kind (wc_kind (at_worker t))
     \<and> (wc_kind (at_worker t) = WorkerDeterministic \<longrightarrow> wc_command (at_worker t) \<noteq> [])
     \<and> 0 \<le> at_max_iterations t
     \<and> (\<forall>(path, src) \<in> set (at_oracles t). safe_oracle t path)
     \<and> (\<forall>(name, ref) \<in> set (at_inputs t). ir_from ref \<in> earlier)"

lemma validate_task_None:
  "validate_task t seen = None \<Longrightarrow> \<not> blank (at_slug t) \<Longrightarrow> task_ok (set seen) t"
  by (auto simp: validate_task_def task_ok_def Let_def split: if_splits option.splits
      dest: validate_oracles_None validate_inputs_None)

lemma validate_from_None:
  assumes "validate_from i seen ts = None"
  shows "distinct (map at_slug ts) \<and> set (map at_slug ts) \<inter> set seen = {}
    \<and> (\<forall>k < length ts. task_ok (set seen \<union> set (map at_slug (take k ts))) (ts ! k))"
  using assms
proof (induction i seen ts rule: validate_from.induct)
  case (1 i seen)
  then show ?case by simp
next
  case (2 i seen t ts)
  have ok: "\<not> blank (at_slug t)" "at_slug t \<notin> set seen" "validate_task t seen = None"
    and tail: "validate_from (Suc i) (at_slug t # seen) ts = None"
    using "2.prems" by (auto split: if_splits option.splits)
  note IH = "2.IH" [OF ok tail]
  have "task_ok (set seen \<union> set (map at_slug (take k (t # ts)))) ((t # ts) ! k)"
    if "k < length (t # ts)" for k
  proof (cases k)
    case 0
    then show ?thesis using validate_task_None [OF ok(3,1)] by simp
  next
    case (Suc j)
    then have "task_ok (set (at_slug t # seen) \<union> set (map at_slug (take j ts))) (ts ! j)"
      using IH that by auto
    with Suc show ?thesis by simp
  qed
  with IH ok(2) show ?case by auto
qed

lemma validate_None:
  assumes "validate c = None"
  shows "ch_tasks c \<noteq> []" "distinct (map at_slug (ch_tasks c))"
    "k < length (ch_tasks c) \<Longrightarrow>
       task_ok (set (map at_slug (take k (ch_tasks c)))) (ch_tasks c ! k)"
  using assms validate_from_None [of 0 "[]" "ch_tasks c"] by (auto simp: validate_def split: if_splits)

text \<open>A chain that validates has at least one task, distinct non-blank slugs, inputs that only
  reference outputs of earlier tasks, and seeded oracles that the worker cannot edit and that lie
  inside the worktree: relative paths without any \<open>..\<close> segment.\<close>

theorem validated_chain:
  assumes "validate c = None" and "k < length (ch_tasks c)"
  shows "distinct (map at_slug (ch_tasks c)) \<and> \<not> blank (at_slug (ch_tasks c ! k))
    \<and> (\<forall>(name, ref) \<in> set (at_inputs (ch_tasks c ! k)). \<exists>j < k. at_slug (ch_tasks c ! j) = ir_from ref)
    \<and> (\<forall>(path, src) \<in> set (at_oracles (ch_tasks c ! k)).
         \<not> is_abs path \<and> ''..'' \<notin> set (split_char (CHR ''/'') path)
         \<and> is_protected path (at_protected (ch_tasks c ! k)))"
proof (intro conjI)
  note ok = validate_None(3) [OF assms]
  show "distinct (map at_slug (ch_tasks c))" by (rule validate_None(2) [OF assms(1)])
  show "\<not> blank (at_slug (ch_tasks c ! k))" using ok by (simp add: task_ok_def)
  have "\<exists>j < k. at_slug (ch_tasks c ! j) = ir_from ref"
    if "(name, ref) \<in> set (at_inputs (ch_tasks c ! k))" for name ref
  proof -
    have "ir_from ref \<in> set (map at_slug (take k (ch_tasks c)))"
      using ok that by (auto simp: task_ok_def)
    then obtain j where "j < k" "at_slug (ch_tasks c ! j) = ir_from ref"
      using assms(2) by (auto simp: in_set_conv_nth)
    then show ?thesis by blast
  qed
  then show "\<forall>(name, ref) \<in> set (at_inputs (ch_tasks c ! k)). \<exists>j < k. at_slug (ch_tasks c ! j) = ir_from ref"
    by blast
  show "\<forall>(path, src) \<in> set (at_oracles (ch_tasks c ! k)).
      \<not> is_abs path \<and> ''..'' \<notin> set (split_char (CHR ''/'') path)
      \<and> is_protected path (at_protected (ch_tasks c ! k))"
    using ok by (auto simp: task_ok_def safe_oracle_def)
qed

definition sample_features :: "feature_task list" where
  "sample_features =
     [\<lparr>ft_slug = ''parse'', ft_goal = ''add a parser'', ft_gate = [[''go'', ''test'', ''./p'']],
       ft_oracles = [(''p/parse_test.go'', ''package p'')], ft_workspace = [''p/parse.go''],
       ft_inputs = [], ft_max_iterations = 0\<rparr>,
      \<lparr>ft_slug = ''print'', ft_goal = ''add a printer'', ft_gate = [[''go'', ''test'', ''./q'']],
       ft_oracles = [], ft_workspace = [''q/print.go''],
       ft_inputs = [(''api'', \<lparr>ir_from = ''parse'', ir_field = ''sig''\<rparr>)], ft_max_iterations = 2\<rparr>]"

definition sample_chain :: chain where
  "sample_chain = \<lparr>ch_slug = ''c'', ch_target_repo = ''/r'', ch_base_branch = [],
     ch_tasks = map feature_at sample_features\<rparr>"

theorem validated_chain_witness:
  "\<exists>j < 1. at_slug (ch_tasks sample_chain ! j) = ''parse''"
proof -
  have "validate sample_chain = None" "1 < length (ch_tasks sample_chain)" by code_simp+
  from validated_chain [OF this]
  have "\<forall>(name, ref) \<in> set (at_inputs (ch_tasks sample_chain ! 1)).
      \<exists>j < 1. at_slug (ch_tasks sample_chain ! j) = ir_from ref" by blast
  then show ?thesis by (simp add: sample_chain_def sample_features_def feature_at_def)
qed

lemma feature_ats_Inr:
  "feature_ats i fts = Inr ats \<Longrightarrow> ats = map feature_at fts
     \<and> (\<forall>ft \<in> set fts. \<not> blank (ft_goal ft) \<and> ft_gate ft \<noteq> [])"
  by (induction i fts arbitrary: ats rule: feature_ats.induct)
    (auto split: if_splits option.splits sum.splits)

text \<open>a feature chain that is built is valid, is made of the given tasks in order, and every
  task has a goal and an authored gate and protects exactly the paths whose last segment ends in
  \<open>_test.go\<close>: no ungated feature task and no editable oracle gets through.\<close>

theorem built_feature_chain:
  assumes "build_feature_chain slug target tasks = Inr c"
  shows "validate c = None \<and> map at_slug (ch_tasks c) = map ft_slug tasks
    \<and> (\<forall>t \<in> set (ch_tasks c). at_gate t \<noteq> [] \<and> \<not> blank (at_goal t)
         \<and> (\<forall>p. is_protected p (at_protected t) \<longleftrightarrow> has_suffix (last (segments p)) ''_test.go''))"
proof -
  obtain ats where ats: "feature_ats 0 tasks = Inr ats" "ch_tasks c = ats" "validate c = None"
    using assms by (auto simp: build_feature_chain_def Let_def split: if_splits sum.splits option.splits)
  have seg: "segments ''**/*_test.go'' = [''**'', CHR ''*'' # ''_test.go'']" by code_simp
  have "is_protected p [''**/*_test.go''] \<longleftrightarrow> has_suffix (last (segments p)) ''_test.go''" for p
    using matches_deep_suffix [OF seg, of p]
    by (simp add: is_protected_def cut_prefix_def has_prefix_def literal_def)
  then show ?thesis
    using ats feature_ats_Inr [OF ats(1)] by (auto simp: feature_at_def)
qed

theorem built_feature_chain_witness:
  "build_feature_chain ''c'' ''/r'' sample_features = Inr sample_chain
    \<and> map at_slug (ch_tasks sample_chain) = [''parse'', ''print'']"
proof -
  have "build_feature_chain ''c'' ''/r'' sample_features = Inr sample_chain" by code_simp
  with built_feature_chain [OF this] show ?thesis by (simp add: sample_features_def)
qed

end
