(* ===== verification/Coding_State.thy ===== *)
theory Coding_State
  imports Coding_Spec
begin

text \<open>
  The run state of a coding chain and its event log, \<open>internal/coding/state.go\<close> and
  \<open>events.go\<close>: the record of an atomic task (AT), the run state, the typed events, the projection
  \<open>fold_log\<close> (Go: \<open>Fold\<close>) and the compaction of a log. A pointer into the slice of records is the
  index of the record; a nil pointer is \<open>None\<close>.
\<close>

datatype chain_status = ChainPending | ChainRunning | ChainPaused | ChainSuccess | ChainFailed | ChainAborted

datatype at_status = ATPending | ATRunning | ATSuccess | ATFailed | ATSkipped

datatype worker_status =
    WorkerUnset
  | WorkerSuccess
  | WorkerGateFailure
  | WorkerCommandError
  | WorkerMaxIterationsExhausted
  | WorkerWorkspaceViolation
  | WorkerOutputContractViolation
  | WorkerGateIntegrityViolation
  | WorkerFakeGreen
  | WorkerTestOnlyDiff
  | WorkerVerifierRejected
  | WorkerVerifierError
  | WorkerRespawnCapReached
  | WorkerForceAdvance

datatype gate_flag_kind = FlagProtectedPathEdit | FlagTestOnlyDiff | FlagCoverageAdvisory

record gate_flag =
  gf_kind :: gate_flag_kind
  gf_detail :: string

record at_record =
  ar_slug :: string
  ar_spec :: atomic_task
  ar_position :: int
  ar_status :: at_status
  ar_iterations :: int
  ar_outputs :: "(string \<times> go_value) list"
  ar_commit_sha :: string
  ar_worker_status :: worker_status
  ar_diagnostic :: string
  ar_worktree :: string
  ar_flags :: "gate_flag list"
  ar_highest_tier :: string
  ar_respawn_count :: int
  ar_last_real_diagnostic :: string
  ar_parent_slug :: string
  ar_branch_index :: int
  ar_parent_sha :: string

record run_state =
  rs_run_id :: string
  rs_chain_slug :: string
  rs_target_repo :: string
  rs_base_branch :: string
  rs_integration :: string
  rs_status :: chain_status
  rs_position :: int
  rs_ats :: "at_record list"
  rs_failed :: string
  rs_promote_diagnostic :: string

text \<open>A fresh record, as \<open>Start\<close> and \<open>branch_fix\<close> build it: the remaining fields are Go's zero
  values. The empty run state is \<open>&RunState{}\<close>; its status \<open>""\<close> is overwritten by the first event
  of every log and is written \<open>ChainPending\<close>.\<close>

definition new_record :: "string \<Rightarrow> atomic_task \<Rightarrow> int \<Rightarrow> at_record" where
  "new_record slug spec pos = \<lparr>ar_slug = slug, ar_spec = spec, ar_position = pos, ar_status = ATPending,
     ar_iterations = 0, ar_outputs = [], ar_commit_sha = [], ar_worker_status = WorkerUnset,
     ar_diagnostic = [], ar_worktree = [], ar_flags = [], ar_highest_tier = [], ar_respawn_count = 0,
     ar_last_real_diagnostic = [], ar_parent_slug = [], ar_branch_index = 0, ar_parent_sha = []\<rparr>"

definition empty_state :: run_state where
  "empty_state = \<lparr>rs_run_id = [], rs_chain_slug = [], rs_target_repo = [], rs_base_branch = [],
     rs_integration = [], rs_status = ChainPending, rs_position = 0, rs_ats = [], rs_failed = [],
     rs_promote_diagnostic = []\<rparr>"

definition current :: "run_state \<Rightarrow> nat option" where
  "current s = (if rs_position s < 0 \<or> int (length (rs_ats s)) \<le> rs_position s then None
     else Some (nat (rs_position s)))"

definition find_slug :: "string \<Rightarrow> at_record list \<Rightarrow> nat option" where
  "find_slug slug ats = find_index (\<lambda>r. ar_slug r = slug) ats"

definition find_at :: "run_state \<Rightarrow> string \<Rightarrow> nat option" where
  "find_at s slug = find_slug slug (rs_ats s)"

definition renumber :: "at_record list \<Rightarrow> at_record list" where
  "renumber ats = map (\<lambda>(i, r). r\<lparr>ar_position := int i\<rparr>) (enumerate 0 ats)"

definition reset_at :: "at_record \<Rightarrow> at_record" where
  "reset_at r = r\<lparr>ar_status := ATPending, ar_iterations := 0, ar_outputs := [], ar_commit_sha := [],
     ar_worker_status := WorkerUnset, ar_diagnostic := [], ar_worktree := [], ar_flags := []\<rparr>"

definition is_resolved :: "at_record \<Rightarrow> bool" where
  "is_resolved r = (ar_status r = ATSuccess \<or> ar_status r = ATSkipped)"

definition set_at :: "nat \<Rightarrow> at_record \<Rightarrow> run_state \<Rightarrow> run_state" where
  "set_at i r s = s\<lparr>rs_ats := (rs_ats s)[i := r]\<rparr>"

subsection \<open>Events and their projection\<close>

datatype event =
    EvChainStarted string string string string string "at_record list"
  | EvATStatus at_record
  | EvATInserted at_record
  | EvChainStatus chain_status string int

definition put_status :: "at_record \<Rightarrow> at_record list \<Rightarrow> at_record list" where
  "put_status r ats = (case find_slug (ar_slug r) ats of None \<Rightarrow> ats | Some i \<Rightarrow> ats[i := r])"

definition put_insert :: "at_record \<Rightarrow> at_record list \<Rightarrow> at_record list" where
  "put_insert r ats =
     (let pos = (if ar_position r < 0 \<or> int (length ats) < ar_position r then length ats
                 else nat (ar_position r))
      in renumber (insert_at pos r ats))"

fun fold_event :: "event \<Rightarrow> run_state \<Rightarrow> run_state" where
  "fold_event (EvChainStarted rid slug target base integ seeds) s =
     s\<lparr>rs_run_id := rid, rs_chain_slug := slug, rs_target_repo := target, rs_base_branch := base,
       rs_integration := integ, rs_status := ChainPending, rs_ats := seeds\<rparr>"
| "fold_event (EvATStatus r) s = s\<lparr>rs_ats := put_status r (rs_ats s)\<rparr>"
| "fold_event (EvATInserted r) s = s\<lparr>rs_ats := put_insert r (rs_ats s)\<rparr>"
| "fold_event (EvChainStatus st failed pos) s =
     s\<lparr>rs_status := st, rs_failed := failed, rs_position := pos\<rparr>"

definition fold_log :: "event list \<Rightarrow> run_state" where
  "fold_log events = fold fold_event events empty_state"

subsection \<open>Compaction\<close>

record compact_state =
  cs_out :: "event list"
  cs_started :: "event option"
  cs_chain :: "event option"
  cs_last :: "(string \<times> nat) list"
  cs_inserted :: "string list"

definition compact_put :: "string \<Rightarrow> event \<Rightarrow> compact_state \<Rightarrow> compact_state" where
  "compact_put slug e cs =
     (case map_of (cs_last cs) slug of
        Some idx \<Rightarrow> cs\<lparr>cs_out := (cs_out cs)[idx := e]\<rparr>
      | None \<Rightarrow> cs\<lparr>cs_out := cs_out cs @ [e], cs_last := (slug, length (cs_out cs)) # cs_last cs\<rparr>)"

fun compact_event :: "event \<Rightarrow> compact_state \<Rightarrow> compact_state" where
  "compact_event (EvChainStarted rid slug target base integ seeds) cs =
     cs\<lparr>cs_started := Some (EvChainStarted rid slug target base integ seeds)\<rparr>"
| "compact_event (EvATInserted r) cs =
     compact_put (ar_slug r) (EvATInserted r) (cs\<lparr>cs_inserted := ar_slug r # cs_inserted cs\<rparr>)"
| "compact_event (EvATStatus r) cs =
     compact_put (ar_slug r)
       (if ar_slug r \<in> set (cs_inserted cs) then EvATInserted r else EvATStatus r) cs"
| "compact_event (EvChainStatus st failed pos) cs = cs\<lparr>cs_chain := Some (EvChainStatus st failed pos)\<rparr>"

definition empty_compact :: compact_state where
  "empty_compact = \<lparr>cs_out = [], cs_started = None, cs_chain = None, cs_last = [], cs_inserted = []\<rparr>"

definition opt_list :: "'a option \<Rightarrow> 'a list" where
  "opt_list x = (case x of None \<Rightarrow> [] | Some a \<Rightarrow> [a])"

definition compact :: "event list \<Rightarrow> event list" where
  "compact events =
     (let cs = fold compact_event events empty_compact
      in opt_list (cs_started cs) @ cs_out cs @ opt_list (cs_chain cs))"

subsection \<open>Lemmas\<close>

lemma map_slug_renumber [simp]: "map ar_slug (renumber ats) = map ar_slug ats"
  by (rule nth_equalityI) (simp_all add: renumber_def nth_enumerate_eq)

lemma length_renumber [simp]: "length (renumber ats) = length ats"
  by (simp add: renumber_def)

lemma nth_renumber: "i < length ats \<Longrightarrow> renumber ats ! i = (ats ! i)\<lparr>ar_position := int i\<rparr>"
  by (simp add: renumber_def nth_enumerate_eq)

definition numbered :: "at_record list \<Rightarrow> bool" where
  "numbered ats \<longleftrightarrow> (\<forall>i < length ats. ar_position (ats ! i) = int i)"

lemma numbered_renumber [simp]: "numbered (renumber ats)"
  by (simp add: numbered_def nth_renumber)

lemma renumber_numbered: "numbered ats \<Longrightarrow> renumber ats = ats"
  by (rule nth_equalityI) (simp_all add: numbered_def nth_renumber)

lemma renumber_update:
  "i < length ats \<Longrightarrow> renumber (ats[i := r]) = (renumber ats)[i := r\<lparr>ar_position := int i\<rparr>]"
  by (rule nth_equalityI) (auto simp: nth_renumber nth_list_update)

lemma find_slug_less: "find_slug slug ats = Some i \<Longrightarrow> i < length ats \<and> ar_slug (ats ! i) = slug"
  by (simp add: find_slug_def find_index_Some)

lemma find_slug_cong: "map ar_slug ats = map ar_slug ats' \<Longrightarrow> find_slug slug ats = find_slug slug ats'"
proof (induction ats arbitrary: ats')
  case Nil
  then show ?case by (cases ats') (auto simp: find_slug_def)
next
  case (Cons a as)
  then show ?case by (cases ats') (auto simp: find_slug_def)
qed

lemma find_slug_distinct:
  assumes "distinct (map ar_slug ats)" "i < length ats"
  shows "find_slug (ar_slug (ats ! i)) ats = Some i"
  using assms by (auto simp: find_slug_def find_index_Some distinct_conv_nth)

lemma slugs_put_status [simp]: "map ar_slug (put_status r ats) = map ar_slug ats"
proof (cases "find_slug (ar_slug r) ats")
  case None
  then show ?thesis by (simp add: put_status_def)
next
  case (Some i)
  then have "ar_slug (ats ! i) = ar_slug r" "i < length ats" by (auto dest: find_slug_less)
  then show ?thesis using Some
    by (simp add: put_status_def map_update) (metis list_update_id nth_map)
qed

lemma put_status_nth:
  assumes "distinct (map ar_slug ats)" "i < length ats" "ar_slug r = ar_slug (ats ! i)"
  shows "put_status r ats = ats[i := r]"
  using find_slug_distinct [OF assms(1,2)] assms(3) by (simp add: put_status_def)

lemma put_status_after:
  "put_status r (put_status r' ats) =
     (case find_slug (ar_slug r) ats of
        None \<Rightarrow> put_status r' ats
      | Some i \<Rightarrow> (put_status r' ats)[i := r])"
  using find_slug_cong [OF slugs_put_status, of "ar_slug r" r' ats]
  by (subst put_status_def) simp

lemma put_status_commute:
  assumes "ar_slug r \<noteq> ar_slug r'"
  shows "put_status r (put_status r' ats) = put_status r' (put_status r ats)"
proof (cases "find_slug (ar_slug r) ats"; cases "find_slug (ar_slug r') ats")
  fix i j
  assume i: "find_slug (ar_slug r) ats = Some i" and j: "find_slug (ar_slug r') ats = Some j"
  then have "i \<noteq> j" using assms find_slug_less by metis
  with i j show ?thesis by (simp add: put_status_after) (simp add: put_status_def list_update_swap)
qed (simp_all add: put_status_after, simp_all add: put_status_def)

lemma put_status_again:
  "ar_slug r = ar_slug r' \<Longrightarrow> put_status r (put_status r' ats) = put_status r ats"
  using find_slug_cong [OF slugs_put_status, of "ar_slug r'" r' ats]
  by (auto simp: put_status_def split: option.splits)

lemma slugs_put_insert:
  assumes "0 \<le> ar_position r" "ar_position r \<le> int (length ats)"
  shows "map ar_slug (put_insert r ats) = insert_at (nat (ar_position r)) (ar_slug r) (map ar_slug ats)"
  using assms by (simp add: put_insert_def Let_def map_insert_at)

subsection \<open>The log and the live state\<close>

text \<open>A log is synced with a live state when it projects to it up to the chain-level fields, which
  the next chain event carries.\<close>

definition synced :: "event list \<Rightarrow> run_state \<Rightarrow> bool" where
  "synced lg s \<longleftrightarrow> (\<exists>st failed pos.
     fold_log lg = s\<lparr>rs_status := st, rs_failed := failed, rs_position := pos\<rparr>)"

lemma synced_fold [simp]: "synced lg (fold_log lg)"
  unfolding synced_def
  by (intro exI [of _ "rs_status (fold_log lg)"] exI [of _ "rs_failed (fold_log lg)"]
      exI [of _ "rs_position (fold_log lg)"]) simp

lemma synced_chain_fields:
  "synced lg (s\<lparr>rs_status := st\<rparr>) = synced lg s" "synced lg (s\<lparr>rs_failed := f\<rparr>) = synced lg s"
  "synced lg (s\<lparr>rs_position := p\<rparr>) = synced lg s"
  by (simp_all add: synced_def)

lemma fold_log_snoc: "fold_log (lg @ [e]) = fold_event e (fold_log lg)"
  by (simp add: fold_log_def)

lemma synced_at:
  assumes "synced lg s" "distinct (map ar_slug (rs_ats s))" "i < length (rs_ats s)"
    "ar_slug r = ar_slug (rs_ats s ! i)"
  shows "synced (lg @ [EvATStatus r]) (set_at i r s)"
proof -
  obtain st f p where eq: "fold_log lg = s\<lparr>rs_status := st, rs_failed := f, rs_position := p\<rparr>"
    using assms(1) by (auto simp: synced_def)
  have "fold_log (lg @ [EvATStatus r]) =
      (set_at i r s)\<lparr>rs_status := st, rs_failed := f, rs_position := p\<rparr>"
    using put_status_nth [OF assms(2-4)] by (simp add: fold_log_snoc eq set_at_def)
  then show ?thesis unfolding synced_def by blast
qed

lemma synced_insert:
  assumes "synced lg s" "0 \<le> ar_position r" "ar_position r \<le> int (length (rs_ats s))"
  shows "synced (lg @ [EvATInserted r])
    (s\<lparr>rs_ats := renumber (insert_at (nat (ar_position r)) r (rs_ats s))\<rparr>)"
proof -
  obtain st f p where eq: "fold_log lg = s\<lparr>rs_status := st, rs_failed := f, rs_position := p\<rparr>"
    using assms(1) by (auto simp: synced_def)
  have "fold_log (lg @ [EvATInserted r]) =
      (s\<lparr>rs_ats := renumber (insert_at (nat (ar_position r)) r (rs_ats s))\<rparr>)
        \<lparr>rs_status := st, rs_failed := f, rs_position := p\<rparr>"
    using assms(2,3) by (simp add: fold_log_snoc eq put_insert_def Let_def)
  then show ?thesis unfolding synced_def by blast
qed

lemma synced_chain:
  "synced lg s \<Longrightarrow> fold_log (lg @ [EvChainStatus (rs_status s) (rs_failed s) (rs_position s)]) = s"
  by (auto simp: synced_def fold_log_snoc)

subsection \<open>Compaction of a log without inserts\<close>

lemma put_status_fold:
  "ar_slug r \<notin> set (map ar_slug rs) \<Longrightarrow> put_status r (fold put_status rs ats) = fold put_status rs (put_status r ats)"
  by (induction rs arbitrary: ats) (auto simp: put_status_commute)

lemma fold_put_update:
  assumes "distinct (map ar_slug rs)" "i < length rs" "ar_slug r = ar_slug (rs ! i)"
  shows "fold put_status (rs[i := r]) ats = put_status r (fold put_status rs ats)"
  using assms
proof (induction rs arbitrary: i ats)
  case Nil
  then show ?case by simp
next
  case (Cons x rs)
  show ?case
  proof (cases i)
    case 0
    with Cons.prems show ?thesis by (simp add: put_status_fold put_status_again)
  next
    case (Suc j)
    with Cons show ?thesis by simp
  qed
qed

lemma fold_at_events:
  "fold fold_event (map EvATStatus rs) s = s\<lparr>rs_ats := fold put_status rs (rs_ats s)\<rparr>"
  by (induction rs arbitrary: s) auto

fun delta :: "event \<Rightarrow> bool" where
  "delta (EvATStatus r) = True"
| "delta (EvChainStatus st f p) = True"
| "delta _ = False"

definition compact_inv :: "event list \<Rightarrow> compact_state \<Rightarrow> at_record list \<Rightarrow> bool" where
  "compact_inv lg cs rs \<longleftrightarrow>
     cs_out cs = map EvATStatus rs \<and> distinct (map ar_slug rs) \<and> cs_inserted cs = []
     \<and> (\<forall>slug idx. map_of (cs_last cs) slug = Some idx \<longleftrightarrow> idx < length rs \<and> ar_slug (rs ! idx) = slug)
     \<and> (\<forall>x \<in> set (opt_list (cs_chain cs)). \<exists>st f p. x = EvChainStatus st f p)
     \<and> (\<forall>s. fold fold_event (opt_list (cs_chain cs)) (s\<lparr>rs_ats := fold put_status rs (rs_ats s)\<rparr>)
           = fold fold_event lg s)"

lemma compact_status_step:
  assumes inv: "compact_inv lg cs rs"
  shows "\<exists>rs'. compact_inv (lg @ [EvATStatus r]) (compact_event (EvATStatus r) cs) rs'"
proof -
  have chain: "fold fold_event (opt_list (cs_chain cs)) (s\<lparr>rs_ats := put_status r (rs_ats s)\<rparr>)
      = fold_event (EvATStatus r) (fold fold_event (opt_list (cs_chain cs)) s)" for s
    using inv by (cases "cs_chain cs") (auto simp: compact_inv_def opt_list_def)
  have upd: "fold fold_event (opt_list (cs_chain cs)) (s\<lparr>rs_ats := put_status r (fold put_status rs (rs_ats s))\<rparr>)
      = fold fold_event (lg @ [EvATStatus r]) s" for s
    using inv chain [of "s\<lparr>rs_ats := fold put_status rs (rs_ats s)\<rparr>"] by (simp add: compact_inv_def)
  show ?thesis
  proof (cases "map_of (cs_last cs) (ar_slug r)")
    case None
    then have fresh: "ar_slug r \<notin> set (map ar_slug rs)"
      using inv by (auto simp: compact_inv_def in_set_conv_nth) (metis option.distinct(1))
    have last: "map_of (cs_last cs) slug = Some idx \<longleftrightarrow> idx < length rs \<and> ar_slug (rs ! idx) = slug" for slug idx
      using inv by (simp add: compact_inv_def)
    have "map_of ((ar_slug r, length rs) # cs_last cs) slug = Some idx
        \<longleftrightarrow> idx < length (rs @ [r]) \<and> ar_slug ((rs @ [r]) ! idx) = slug" for slug idx
    proof (cases "idx < length rs")
      case True
      then have "ar_slug (rs ! idx) \<noteq> ar_slug r" using fresh by (metis length_map nth_map nth_mem)
      with True last show ?thesis by (auto simp: nth_append)
    next
      case False
      then have "idx = length rs" if "idx < length (rs @ [r])" using that by simp
      with False last show ?thesis by (auto simp: nth_append)
    qed
    then have "compact_inv (lg @ [EvATStatus r]) (compact_event (EvATStatus r) cs) (rs @ [r])"
      using inv fresh None upd unfolding compact_inv_def by (simp add: compact_put_def)
    then show ?thesis by blast
  next
    case (Some idx)
    then have idx: "idx < length rs" "ar_slug r = ar_slug (rs ! idx)"
      using inv by (auto simp: compact_inv_def)
    have slugs: "map ar_slug (rs[idx := r]) = map ar_slug rs"
      using idx by (simp add: map_update) (metis list_update_id nth_map)
    then have nth: "k < length rs \<Longrightarrow> ar_slug (rs[idx := r] ! k) = ar_slug (rs ! k)" for k
      by (metis length_list_update nth_map)
    have "compact_inv (lg @ [EvATStatus r]) (compact_event (EvATStatus r) cs) (rs[idx := r])"
    proof -
      have "cs_out cs = map EvATStatus rs" "cs_inserted cs = []" "distinct (map ar_slug rs)"
        using inv by (simp_all add: compact_inv_def)
      moreover from this have "compact_event (EvATStatus r) cs = cs\<lparr>cs_out := map EvATStatus (rs[idx := r])\<rparr>"
        using Some by (simp add: compact_put_def map_update)
      moreover have "distinct (map ar_slug (rs[idx := r]))" using inv slugs by (simp add: compact_inv_def)
      ultimately show ?thesis
        using inv nth upd fold_put_update [OF _ idx] unfolding compact_inv_def by auto
    qed
    then show ?thesis by blast
  qed
qed

lemma compact_chain_step:
  assumes inv: "compact_inv lg cs rs"
  shows "compact_inv (lg @ [EvChainStatus st f p]) (compact_event (EvChainStatus st f p) cs) rs"
proof -
  have "fold_event (EvChainStatus st f p) (fold fold_event (opt_list (cs_chain cs)) s)
      = fold_event (EvChainStatus st f p) s" for s
    using inv by (cases "cs_chain cs") (auto simp: compact_inv_def opt_list_def)
  with inv show ?thesis
    unfolding compact_inv_def by (simp add: opt_list_def) (metis fold_event.simps(4))
qed

lemma compact_run:
  assumes "list_all delta lg" "cs_out cs = []" "cs_last cs = []" "cs_inserted cs = []" "cs_chain cs = None"
  shows "\<exists>rs. compact_inv lg (fold compact_event lg cs) rs"
  using assms(1)
proof (induction lg rule: rev_induct)
  case Nil
  show ?case using assms by (intro exI [of _ "[]"]) (simp add: compact_inv_def opt_list_def)
next
  case (snoc e lg)
  then obtain rs where "compact_inv lg (fold compact_event lg cs) rs" by auto
  with snoc.prems show ?case
    by (cases e) (auto dest: compact_status_step [of _ _ _ _] compact_chain_step simp del: compact_event.simps)
qed

lemma compact_after_start:
  assumes "list_all delta lg"
  shows "fold_log (compact (EvChainStarted rid slug target base integ seeds # lg))
    = fold_log (EvChainStarted rid slug target base integ seeds # lg)"
proof -
  let ?e = "EvChainStarted rid slug target base integ seeds"
  let ?cs = "compact_event ?e empty_compact"
  have keep: "cs_started (fold compact_event l cs) = cs_started cs" if "list_all delta l" for l cs
    using that
  proof (induction l arbitrary: cs)
    case Nil
    then show ?case by simp
  next
    case (Cons e l)
    then show ?case by (cases e) (simp_all add: compact_put_def split: option.splits)
  qed
  obtain rs where inv: "compact_inv lg (fold compact_event lg ?cs) rs"
    using compact_run [OF assms, of ?cs] by (auto simp: empty_compact_def)
  have "fold_log (compact (?e # lg)) =
      fold fold_event (opt_list (cs_chain (fold compact_event lg ?cs)))
        (fold fold_event (map EvATStatus rs) (fold_event ?e empty_state))"
    using inv keep [OF assms, of ?cs]
    by (simp add: fold_log_def compact_def Let_def opt_list_def [of "Some _"] compact_inv_def)
  also have "\<dots> = fold fold_event lg (fold_event ?e empty_state)"
    using inv unfolding fold_at_events compact_inv_def by blast
  finally show ?thesis by (simp add: fold_log_def)
qed

end
