(* ===== verification/Coding_Gate.thy ===== *)
theory Coding_Gate
  imports Coding_State Risk_Gate "HOL-Library.List_Lexorder" "HOL-Library.Char_ord"
begin

text \<open>
  The gate of the coding chain and the checks around it that are functions of texts:
  \<open>internal/coding/gate.go\<close>, \<open>flags.go\<close>, \<open>guard.go\<close>, the diff parsers of \<open>redgreen.go\<close>,
  \<open>gatescope.go\<close>, the report parser of \<open>verifier.go\<close> and \<open>classify.go\<close>, with the helpers of
  \<open>internal/agent\<close> they share. Commands run on an abstract world of type \<open>'w\<close>: a runner takes the
  argument vector, the directory and the timeout and returns the outcome and the new world.
\<close>

record command_result =
  cr_command :: "string list"
  cr_exit :: int
  cr_stdout :: string
  cr_stderr :: string

type_synonym 'w runner = "string list \<Rightarrow> string \<Rightarrow> int \<Rightarrow> 'w \<Rightarrow> command_result \<times> 'w"

subsection \<open>The owned exec runner\<close>

text \<open>How a process ended; a negative exit code stands for one killed by a signal.\<close>

datatype process_end = ProcOk | ProcExit int | ProcNotStarted

definition classify_exit :: "bool \<Rightarrow> process_end \<Rightarrow> int" where
  "classify_exit deadline_exceeded e =
     (case e of
        ProcOk \<Rightarrow> 0
      | ProcExit code \<Rightarrow> if deadline_exceeded then 124 else if 0 \<le> code then code else 1
      | ProcNotStarted \<Rightarrow> if deadline_exceeded then 124 else 127)"

definition exec_runner ::
  "(string list \<Rightarrow> string \<Rightarrow> int \<Rightarrow> 'w \<Rightarrow> (bool \<times> process_end \<times> string \<times> string) \<times> 'w) \<Rightarrow> (int \<Rightarrow> string) \<Rightarrow> 'w runner" where
  "exec_runner os_run duration_text command dir timeout w =
     (if command = []
      then (\<lparr>cr_command = [], cr_exit = 127, cr_stdout = [], cr_stderr = ''empty command''\<rparr>, w)
      else (case os_run command dir timeout w of
              ((late, e, out, err), w') \<Rightarrow>
                (let code = classify_exit late e
                 in (\<lparr>cr_command = command, cr_exit = code, cr_stdout = out,
                      cr_stderr = (if code = 124 then ''timeout after '' @ duration_text timeout else err)\<rparr>, w'))))"

subsection \<open>The gate\<close>

record gate_result =
  gr_passed :: bool
  gr_runs :: "command_result list"
  gr_diagnostic :: string

definition gate_tail_bytes :: nat where
  "gate_tail_bytes = 4096"

definition truncated_marker :: string where
  "truncated_marker = [CHR 0xE2, CHR 0x80, CHR 0xA6] @ ''truncated'' @ [CHR 0xE2, CHR 0x80, CHR 0xA6] @ newline"

definition tail_of :: "string \<Rightarrow> nat \<Rightarrow> string" where
  "tail_of s limit = (if length s \<le> limit then s else truncated_marker @ drop (length s - limit) s)"

definition gate_diagnostic :: "command_result \<Rightarrow> string" where
  "gate_diagnostic run =
     ''gate command '' @ go_quote (join '' '' (cr_command run)) @ '' exited '' @ itoa (cr_exit run) @ newline
     @ ''stdout:'' @ newline @ tail_of (cr_stdout run) gate_tail_bytes @ newline
     @ ''stderr:'' @ newline @ tail_of (cr_stderr run) gate_tail_bytes"

text \<open>The loop of \<open>Gate.Run\<close>; \<open>runs\<close> are the runs collected so far.\<close>

fun gate_loop :: "'w runner \<Rightarrow> string \<Rightarrow> int \<Rightarrow> command_result list \<Rightarrow> string list list \<Rightarrow> 'w \<Rightarrow> gate_result \<times> 'w" where
  "gate_loop run dir timeout runs [] w =
     (\<lparr>gr_passed = runs \<noteq> [], gr_runs = runs, gr_diagnostic = []\<rparr>, w)"
| "gate_loop run dir timeout runs (c # cs) w =
     (case run c dir timeout w of
        (r, w') \<Rightarrow>
          if cr_exit r \<noteq> 0
          then (\<lparr>gr_passed = False, gr_runs = runs @ [r], gr_diagnostic = gate_diagnostic r\<rparr>, w')
          else gate_loop run dir timeout (runs @ [r]) cs w')"

definition gate_run :: "'w runner \<Rightarrow> string list list \<Rightarrow> int \<Rightarrow> string \<Rightarrow> 'w \<Rightarrow> gate_result \<times> 'w" where
  "gate_run run cmds timeout dir w = gate_loop run dir timeout [] cmds w"

subsection \<open>Diffs\<close>

definition lines_of :: "string \<Rightarrow> string list" where
  "lines_of s = split_char (CHR 0x0A) s"

definition header_path :: "string \<Rightarrow> string option" where
  "header_path line =
     (let fs = Go_Prelude.fields line
      in if length fs < 4 then None else Some (trim_prefix (fs ! 3) ''b/''))"

definition changed_paths :: "string \<Rightarrow> string list" where
  "changed_paths diff =
     List.map_filter header_path (filter (\<lambda>l. has_prefix l ''diff --git '') (lines_of diff))"

definition is_test_file :: "string \<Rightarrow> bool" where
  "is_test_file p = has_suffix p ''_test.go''"

definition gate_flags :: "string \<Rightarrow> atomic_task \<Rightarrow> gate_flag list" where
  "gate_flags diff spec =
     (if diff = [] then []
      else
        (let changed = changed_paths diff;
             protected_hits = filter (\<lambda>p. is_protected p (at_protected spec)) changed;
             go_files = filter (\<lambda>p. has_suffix p ''.go'') changed;
             test_files = filter is_test_file go_files
         in (if protected_hits \<noteq> []
             then [\<lparr>gf_kind = FlagProtectedPathEdit,
                    gf_detail = ''worker modified protected gate path(s): '' @ join '', '' protected_hits\<rparr>]
             else [])
            @ (if go_files \<noteq> [] \<and> length go_files = length test_files
               then [\<lparr>gf_kind = FlagTestOnlyDiff,
                      gf_detail = ''implementation diff is test-only (no production .go changed): '' @ join '', '' test_files\<rparr>]
               else [])))"

definition find_flag :: "gate_flag list \<Rightarrow> gate_flag_kind \<Rightarrow> gate_flag option" where
  "find_flag flags k = find (\<lambda>f. gf_kind f = k) flags"

subsection \<open>The protected-path gate at the dispatch boundary\<close>

definition string_param :: "call \<Rightarrow> string \<Rightarrow> string" where
  "string_param c key =
     (case params c of
        None \<Rightarrow> []
      | Some p \<Rightarrow> (case p key of Some (VStr v) \<Rightarrow> v | _ \<Rightarrow> []))"

definition tool_call_path :: "call \<Rightarrow> string" where
  "tool_call_path c =
     (if string_param c ''path'' \<noteq> [] then string_param c ''path'' else string_param c ''file_path'')"

definition protected_path_gate :: "string list \<Rightarrow> gate_fn" where
  "protected_path_gate protected c v =
     (if v_class v \<noteq> Mutating then (True, [])
      else if surface c \<noteq> ''fs'' \<or> (action c \<noteq> ''write'' \<and> action c \<noteq> ''edit'') then (True, [])
      else (let p = tool_call_path c
            in if p \<noteq> [] \<and> is_protected p protected
               then (False, ''refused: '' @ p @ '' is a protected gate path (the gate is orchestrator-owned and immutable)'')
               else (True, [])))"

definition protected_path_guard :: "string list \<Rightarrow> 'x hook_func" where
  "protected_path_guard protected ctx =
     (case hc_tool_call ctx of
        None \<Rightarrow> (ctx, None)
      | Some c \<Rightarrow>
          (if protected = [] then (ctx, None)
           else (case protected_path_gate protected c (classify c) of
                   (True, _) \<Rightarrow> (ctx, None)
                 | (False, reason) \<Rightarrow> (ctx\<lparr>hc_deny := True, hc_deny_reason := reason\<rparr>, None))))"

interpretation protected_gate: risk_gate "protected_path_gate protected" for protected
  by unfold_locales (simp add: protected_path_gate_def Let_def)

subsection \<open>Parsing the worker's tests out of a diff\<close>

definition before_char :: "char \<Rightarrow> string \<Rightarrow> string" where
  "before_char c s = takeWhile (\<lambda>x. x \<noteq> c) s"

definition post_image_path :: "string \<Rightarrow> string" where
  "post_image_path line =
     (let p = before_char (CHR 0x09) (trim_space (trim_prefix line ''+++ ''))
      in if p = ''/dev/null'' then [] else trim_prefix p ''b/'')"

definition word_char :: "char \<Rightarrow> bool" where
  "word_char c = env_char c"

definition regexp_space :: "char \<Rightarrow> bool" where
  "regexp_space c = (c = CHR '' '' \<or> c = CHR 0x09 \<or> c = CHR 0x0A \<or> c = CHR 0x0C \<or> c = CHR 0x0D)"

text \<open>The regular expression \<open>testFuncRe\<close>: the name of the test function a line declares.\<close>

definition test_func_name :: "string \<Rightarrow> string option" where
  "test_func_name line =
     (if \<not> has_prefix line ''func Test'' then None
      else (let rest = drop 5 line;
                name = takeWhile word_char rest;
                after = dropWhile regexp_space (drop (length name) rest)
            in if has_prefix after ''('' then Some name else None))"

definition path_dir :: "string \<Rightarrow> string" where
  "path_dir p =
     file_clean (rev (dropWhile (\<lambda>x. x \<noteq> CHR ''/'') (rev p)))"

record test_run_spec =
  tr_pkg :: string
  tr_funcs :: "string list"

record worker_test_additions =
  ta_files :: "string list"
  ta_specs :: "test_run_spec list"

text \<open>The scan of a diff: the changed test files so far, the functions added per directory (an
  association list in order of addition) and the post-image path of the current file.\<close>

fun scan_additions ::
  "string list \<Rightarrow> (string \<times> string) list \<Rightarrow> string \<Rightarrow> string list \<Rightarrow> string list \<times> (string \<times> string) list" where
  "scan_additions files funcs cur [] = (files, funcs)"
| "scan_additions files funcs cur (line # ls) =
     (if has_prefix line ''+++ '' then
        (let cur' = post_image_path line
         in scan_additions
              (if is_test_file cur' \<and> cur' \<notin> set files then files @ [cur'] else files)
              funcs cur' ls)
      else if has_prefix line ''+'' \<and> \<not> has_prefix line ''+++'' \<and> is_test_file cur then
        (case test_func_name (trim_space (drop 1 line)) of
           Some name \<Rightarrow> scan_additions files (funcs @ [(path_dir cur, name)]) cur ls
         | None \<Rightarrow> scan_additions files funcs cur ls)
      else scan_additions files funcs cur ls)"

definition dedupe_sorted :: "string list \<Rightarrow> string list" where
  "dedupe_sorted xs = sort (remdups xs)"

definition specs_from_funcs :: "(string \<times> string) list \<Rightarrow> test_run_spec list" where
  "specs_from_funcs funcs =
     map (\<lambda>d. \<lparr>tr_pkg = d, tr_funcs = dedupe_sorted (map snd (filter (\<lambda>(d', f). d' = d) funcs))\<rparr>)
       (sort (remdups (map fst funcs)))"

definition parse_worker_test_additions :: "string \<Rightarrow> worker_test_additions" where
  "parse_worker_test_additions diff =
     (case scan_additions [] [] [] (lines_of diff) of
        (files, funcs) \<Rightarrow> \<lparr>ta_files = files, ta_specs = specs_from_funcs funcs\<rparr>)"

text \<open>The scan for test files that existed before the diff: the files so far, the current path and
  whether the current section creates its file.\<close>

definition flush_modified :: "string \<Rightarrow> bool \<Rightarrow> string list \<Rightarrow> string list" where
  "flush_modified cur is_new files =
     (if cur \<noteq> [] \<and> \<not> is_new \<and> is_test_file cur \<and> cur \<notin> set files then files @ [cur] else files)"

fun scan_modified :: "string list \<Rightarrow> string \<Rightarrow> bool \<Rightarrow> string list \<Rightarrow> string list" where
  "scan_modified files cur is_new [] = flush_modified cur is_new files"
| "scan_modified files cur is_new (line # ls) =
     (if has_prefix line ''diff --git '' then
        scan_modified (flush_modified cur is_new files)
          (case header_path line of None \<Rightarrow> [] | Some p \<Rightarrow> p) False ls
      else if has_prefix line ''new file mode '' then scan_modified files cur True ls
      else if line = ''--- /dev/null'' then scan_modified files cur True ls
      else if has_prefix line ''+++ '' then
        (let p = post_image_path line
         in scan_modified files (if p \<noteq> [] then p else cur) is_new ls)
      else scan_modified files cur is_new ls)"

definition parse_modified_existing_test_files :: "string \<Rightarrow> string list" where
  "parse_modified_existing_test_files diff = scan_modified [] [] False (lines_of diff)"

subsection \<open>Scoping the gate\<close>

definition gate_has_whole_repo_go_test :: "string list list \<Rightarrow> bool" where
  "gate_has_whole_repo_go_test cmds = list_ex (list_ex (\<lambda>tok. contains tok ''go test ./...'')) cmds"

definition rel_segs :: "string \<Rightarrow> string list" where
  "rel_segs p = (if p = [] then [] else if p = ''/'' then [[]] else split_char (CHR ''/'') p)"

fun drop_common :: "string list \<Rightarrow> string list \<Rightarrow> string list \<times> string list" where
  "drop_common (b # bs) (t # ts) = (if b = t then drop_common bs ts else (b # bs, t # ts))"
| "drop_common bs ts = (bs, ts)"

text \<open>\<open>filepath.Rel\<close> on Unix paths; \<open>None\<close> is the error.\<close>

definition file_rel :: "string \<Rightarrow> string \<Rightarrow> string option" where
  "file_rel basepath targpath =
     (let base = file_clean basepath; targ = file_clean targpath
      in if targ = base then Some ''.''
         else (let base' = (if base = ''.'' then [] else base)
               in if is_abs base' \<noteq> is_abs targ then None
                  else (case drop_common (rel_segs base') (rel_segs targ) of
                          (bs, ts) \<Rightarrow>
                            if bs \<noteq> [] \<and> ts \<noteq> [] \<and> hd bs = ''..'' then None
                            else Some (join ''/'' (replicate (length bs) ''..'' @ ts)))))"

definition file_join :: "string \<Rightarrow> string \<Rightarrow> string" where
  "file_join a b =
     (if a = [] \<and> b = [] then [] else if a = [] then file_clean b
      else if b = [] then file_clean a else file_clean (a @ ''/'' @ b))"

definition file_scope :: "(string \<Rightarrow> bool) \<Rightarrow> string \<Rightarrow> string \<Rightarrow> string \<Rightarrow> string option" where
  "file_scope dir_exists prefix gate_dir f =
     (case file_rel prefix f of
        None \<Rightarrow> None
      | Some mod_rel \<Rightarrow>
          if mod_rel = ''.'' \<or> has_prefix mod_rel ''..'' then None
          else (let pkg = path_dir mod_rel
                in if pkg = [] \<or> pkg = ''.'' \<or> is_abs pkg \<or> has_prefix pkg ''..'' then None
                   else if \<not> dir_exists (file_join gate_dir pkg) then None
                   else Some (''./'' @ pkg @ ''/...'')))"

fun scopes_loop :: "(string \<Rightarrow> string option) \<Rightarrow> string list \<Rightarrow> string list \<Rightarrow> string list option" where
  "scopes_loop scope acc [] = Some acc"
| "scopes_loop scope acc (f # fs) =
     (case scope f of
        None \<Rightarrow> None
      | Some s \<Rightarrow> scopes_loop scope (if s \<in> set acc then acc else acc @ [s]) fs)"

definition go_test_scopes :: "(string \<Rightarrow> bool) \<Rightarrow> string list \<Rightarrow> string \<Rightarrow> string \<Rightarrow> string list" where
  "go_test_scopes dir_exists changed dir gate_dir =
     (if changed = [] then []
      else (case file_rel dir gate_dir of
              None \<Rightarrow> []
            | Some prefix \<Rightarrow>
                (case scopes_loop (file_scope dir_exists (if prefix = [] then ''.'' else prefix) gate_dir) [] changed of
                   None \<Rightarrow> []
                 | Some scopes \<Rightarrow> sort scopes)))"

definition replace_first :: "string \<Rightarrow> string \<Rightarrow> string \<Rightarrow> string" where
  "replace_first s old new =
     (case str_index s old of None \<Rightarrow> s | Some i \<Rightarrow> take i s @ new @ drop (i + length old) s)"

definition scope_go_test :: "string list \<Rightarrow> string list \<Rightarrow> string list" where
  "scope_go_test cmd pkgs =
     (if pkgs = [] then cmd
      else if length cmd = 3 \<and> cmd ! 0 = ''sh'' \<and> cmd ! 1 = ''-c'' then
        (if \<not> contains (cmd ! 2) ''go test ./...'' then cmd
         else [''sh'', ''-c'', replace_first (cmd ! 2) ''go test ./...'' (''go test '' @ join '' '' pkgs)])
      else if 3 \<le> length cmd \<and> cmd ! 0 = ''go'' \<and> cmd ! 1 = ''test'' then
        (case find_index (\<lambda>x. x = ''./...'') (drop 2 cmd) of
           None \<Rightarrow> cmd
         | Some i \<Rightarrow> take (i + 2) cmd @ pkgs @ drop (i + 3) cmd)
      else cmd)"

definition no_scope_gate_diagnostic :: "string list \<Rightarrow> string \<Rightarrow> string" where
  "no_scope_gate_diagnostic changed gate_dir =
     (if changed = []
      then ''gate not run: no Go edits detected in the worktree. The build/test gate verifies your CHANGE '' @ em_dash @ '' an unchanged tree has nothing to test, and the whole-module suite would only time out. Make the code edit with your fs tools (do not just describe it), then the gate re-runs scoped to the package you touched.''
      else ''gate not run: the edited Go file(s) ['' @ join '', '' changed @ ''] could not be mapped to a package directory under the module root '' @ go_quote gate_dir @ '', so the whole-module '' @ backtick @ ''go test ./...'' @ backtick @ '' (which times out on a large module) was skipped. Put the fix in a package under the module root.'')"

definition scope_or_skip_gate ::
  "(string \<Rightarrow> bool) \<Rightarrow> string list list \<Rightarrow> string list \<Rightarrow> string \<Rightarrow> string \<Rightarrow> string list list \<times> string" where
  "scope_or_skip_gate dir_exists cmds changed dir gate_dir =
     (if \<not> gate_has_whole_repo_go_test cmds then (cmds, [])
      else (let scopes = go_test_scopes dir_exists changed dir gate_dir
            in if scopes = [] then ([], no_scope_gate_diagnostic changed gate_dir)
               else (map (\<lambda>c. scope_go_test c scopes) cmds, [])))"

end
