(* ===== verification/Coding_Verify.thy ===== *)
theory Coding_Verify
  imports Coding_Gate
begin

text \<open>
  What follows a green gate and what triages a red one: the independent verifier's report and the
  decision on it (\<open>internal/coding/verifier.go\<close>), the inputs and the output contract of a task
  (\<open>taskio.go\<close>), the failure triage (\<open>classify.go\<close>). The verifier is the Go interface
  \<open>Verifier\<close>, a function on the world that returns its report or an error; \<open>parse_json\<close> stands for
  \<open>encoding/json\<close>.
\<close>

datatype verdict_word = VerdictPass | VerdictFail | VerdictUnknown

text \<open>\<open>verdictRe\<close> at the head of a text, and its leftmost match.\<close>

definition verdict_here :: "string \<Rightarrow> verdict_word option" where
  "verdict_here s =
     (if to_lower (take 7 s) \<noteq> ''verdict'' then None
      else (case dropWhile regexp_space (drop 7 s) of
              [] \<Rightarrow> None
            | c # t \<Rightarrow>
                (if c = CHR '':'' \<or> c = CHR ''='' then
                   (let w = to_lower (take 4 (dropWhile regexp_space t))
                    in if w = ''pass'' then Some VerdictPass
                       else if w = ''fail'' then Some VerdictFail else None)
                 else None)))"

fun first_verdict :: "string \<Rightarrow> verdict_word" where
  "first_verdict [] = VerdictUnknown"
| "first_verdict (c # s) =
     (case verdict_here (c # s) of Some v \<Rightarrow> v | None \<Rightarrow> first_verdict s)"

definition evidence_tokens :: "string list" where
  "evidence_tokens = [''ok '', ''ok'' @ [CHR 0x09], ''--- FAIL'', ''FAIL'' @ [CHR 0x09], ''FAIL '',
     ''exit status'', ''no test files'', ''=== RUN'', ''PASS'' @ newline @ ''ok'', ''build failed'', ''cannot find'']"

definition fence :: string where
  "fence = backtick @ backtick @ backtick"

definition first_fenced_block :: "string \<Rightarrow> string" where
  "first_fenced_block s =
     (case str_index s fence of
        None \<Rightarrow> []
      | Some i \<Rightarrow>
          (let rest = drop (i + 3) s;
               body = (if CHR 0x0A \<in> set rest then tl (dropWhile (\<lambda>x. x \<noteq> CHR 0x0A) rest) else rest)
           in case str_index body fence of
                None \<Rightarrow> []
              | Some j \<Rightarrow> trim_space (take j body)))"

definition has_command_evidence :: "string \<Rightarrow> string list list \<Rightarrow> bool" where
  "has_command_evidence s gate =
     (let block = first_fenced_block s
      in block \<noteq> []
         \<and> (list_ex (\<lambda>cmd. cmd \<noteq> [] \<and> hd cmd \<noteq> [] \<and> contains block (hd cmd)) gate
            \<or> list_ex (contains block) evidence_tokens))"

definition parse_verifier_report :: "string \<Rightarrow> string list list \<Rightarrow> verdict_word \<times> bool" where
  "parse_verifier_report s gate = (first_verdict s, has_command_evidence s gate)"

fun verdict_label :: "verdict_word \<Rightarrow> string" where
  "verdict_label VerdictUnknown = ''UNKNOWN (no parseable VERDICT: line)''"
| "verdict_label VerdictPass = ''PASS''"
| "verdict_label VerdictFail = ''FAIL''"

definition first_nonempty_command :: "string list list \<Rightarrow> string list" where
  "first_nonempty_command gate = (case find (\<lambda>cmd. cmd \<noteq> []) gate of None \<Rightarrow> [] | Some cmd \<Rightarrow> cmd)"

type_synonym 'w verifier = "atomic_task \<Rightarrow> string \<Rightarrow> 'w \<Rightarrow> (string + string) \<times> 'w"

definition spot_check :: "'w runner \<Rightarrow> int \<Rightarrow> atomic_task \<Rightarrow> string \<Rightarrow> 'w \<Rightarrow> (worker_status \<times> string) \<times> 'w" where
  "spot_check run timeout spec dir w =
     (let cmd = first_nonempty_command (at_gate spec)
      in if cmd = [] then ((WorkerSuccess, []), w)
         else (case run cmd dir timeout w of
                 (r, w') \<Rightarrow>
                   if cr_exit r \<noteq> 0
                   then ((WorkerVerifierRejected, ''spot-check FAILED: verifier reported PASS but '' @ go_quote (join '' '' cmd) @ '' exited '' @ itoa (cr_exit r)), w')
                   else ((WorkerSuccess, []), w')))"

definition run_verify_phase ::
  "'w runner \<Rightarrow> int \<Rightarrow> 'w verifier option \<Rightarrow> atomic_task \<Rightarrow> string \<Rightarrow> 'w \<Rightarrow> (worker_status \<times> string) \<times> 'w" where
  "run_verify_phase run timeout verifier spec dir w =
     (case verifier of
        None \<Rightarrow> ((WorkerSuccess, []), w)
      | Some verify \<Rightarrow>
          (case verify spec dir w of
             (Inl err, w') \<Rightarrow> ((WorkerVerifierError, ''independent verifier: '' @ err), w')
           | (Inr report, w') \<Rightarrow>
               (case parse_verifier_report report (at_gate spec) of
                  (v, evidence) \<Rightarrow>
                    if v = VerdictPass \<and> \<not> evidence
                    then ((WorkerVerifierRejected, ''verifier reported PASS without a command-block of real output (a check without a run block is not a PASS)''), w')
                    else if v \<noteq> VerdictPass
                    then ((WorkerVerifierRejected, ''independent verifier verdict: '' @ verdict_label v), w')
                    else spot_check run timeout spec dir w')))"

subsection \<open>Inputs and outputs of a task\<close>

definition available_outputs :: "(string \<times> go_value) list \<Rightarrow> string" where
  "available_outputs m = (if m = [] then ''(none)'' else join '', '' (map fst m))"

definition upstream :: "at_record list \<Rightarrow> string \<Rightarrow> at_record option" where
  "upstream ats from =
     find (\<lambda>cand. ar_status cand = ATSuccess \<and> (ar_slug cand = from \<or> ar_parent_slug cand = from)) (rev ats)"

definition resolve_input :: "at_record list \<Rightarrow> string \<Rightarrow> input_ref \<Rightarrow> string + go_value" where
  "resolve_input ats name ref =
     (case upstream ats (ir_from ref) of
        None \<Rightarrow> Inl (''input '' @ go_quote name @ '' references '' @ go_quote (ir_from ref)
                  @ '' but no successful AT with that slug (or parent) was found'')
      | Some up \<Rightarrow>
          (case map_of (ar_outputs up) (ir_field ref) of
             None \<Rightarrow> Inl (''input '' @ go_quote name @ '' references '' @ ir_from ref @ ''.'' @ ir_field ref
                  @ '' but that output is missing from '' @ go_quote (ar_slug up) @ ''; available: ''
                  @ available_outputs (ar_outputs up))
           | Some v \<Rightarrow> Inr v))"

fun resolve_each :: "at_record list \<Rightarrow> (string \<times> input_ref) list \<Rightarrow> string + (string \<times> go_value) list" where
  "resolve_each ats [] = Inr []"
| "resolve_each ats ((name, ref) # rest) =
     (case resolve_input ats name ref of
        Inl e \<Rightarrow> Inl e
      | Inr v \<Rightarrow> (case resolve_each ats rest of Inl e \<Rightarrow> Inl e | Inr vs \<Rightarrow> Inr ((name, v) # vs)))"

definition resolve_inputs :: "run_state \<Rightarrow> atomic_task \<Rightarrow> string + (string \<times> go_value) list" where
  "resolve_inputs s spec = resolve_each (rs_ats s) (at_inputs spec)"

definition failed_run :: "string \<Rightarrow> string \<Rightarrow> string list \<Rightarrow> command_result \<Rightarrow> string" where
  "failed_run what name cmd r =
     what @ '' '' @ go_quote name @ '' failed: '' @ go_quote (join '' '' cmd) @ '' exited '' @ itoa (cr_exit r)
     @ newline @ ''stderr:'' @ newline @ tail_of (cr_stderr r) gate_tail_bytes"

fun check_assertions :: "'w runner \<Rightarrow> int \<Rightarrow> string \<Rightarrow> assertion list \<Rightarrow> 'w \<Rightarrow> string option \<times> 'w" where
  "check_assertions run timeout dir [] w = (None, w)"
| "check_assertions run timeout dir (a # as) w =
     (case run (as_command a) dir timeout w of
        (r, w') \<Rightarrow>
          if cr_exit r \<noteq> 0 then (Some (failed_run ''assertion'' (as_name a) (as_command a) r), w')
          else check_assertions run timeout dir as w')"

definition put_output :: "string \<Rightarrow> go_value \<Rightarrow> (string \<times> go_value) list \<Rightarrow> (string \<times> go_value) list" where
  "put_output k v m =
     (if k \<in> set (map fst m) then map (\<lambda>(k', v'). (k', if k' = k then v else v')) m else m @ [(k, v)])"

fun extract_outputs ::
  "(string \<Rightarrow> string + go_value) \<Rightarrow> 'w runner \<Rightarrow> int \<Rightarrow> string \<Rightarrow> (string \<times> go_value) list
     \<Rightarrow> extraction list \<Rightarrow> 'w \<Rightarrow> (string + (string \<times> go_value) list) \<times> 'w" where
  "extract_outputs parse_json run timeout dir out [] w = (Inr out, w)"
| "extract_outputs parse_json run timeout dir out (e # es) w =
     (case run (ex_command e) dir timeout w of
        (r, w') \<Rightarrow>
          if cr_exit r \<noteq> 0
          then (Inl (''extraction '' @ go_quote (ex_name e) @ '' command failed: '' @ go_quote (join '' '' (ex_command e))
                  @ '' exited '' @ itoa (cr_exit r) @ newline @ ''stderr:'' @ newline @ tail_of (cr_stderr r) gate_tail_bytes), w')
          else if extraction_format e = ''json'' then
            (case parse_json (cr_stdout r) of
               Inl err \<Rightarrow> (Inl (''extraction '' @ go_quote (ex_name e)
                  @ '' declared format=json but stdout is not valid JSON: '' @ err), w')
             | Inr v \<Rightarrow> extract_outputs parse_json run timeout dir (put_output (ex_name e) v out) es w')
          else extract_outputs parse_json run timeout dir
                 (put_output (ex_name e) (VStr (trim_space (cr_stdout r))) out) es w')"

definition verify_contract ::
  "(string \<Rightarrow> string + go_value) \<Rightarrow> 'w runner \<Rightarrow> int \<Rightarrow> atomic_task \<Rightarrow> string \<Rightarrow> 'w
     \<Rightarrow> (string + (string \<times> go_value) list) \<times> 'w" where
  "verify_contract parse_json run timeout spec dir w =
     (case check_assertions run timeout dir (oc_assertions (at_contract spec)) w of
        (Some e, w') \<Rightarrow> (Inl e, w')
      | (None, w') \<Rightarrow>
          extract_outputs parse_json run timeout dir [] (oc_extractions (at_contract spec)) w')"

subsection \<open>Failure triage\<close>

definition compile_markers :: "string list" where
  "compile_markers = [''[build failed]'', ''syntax error'', ''undefined:'', ''imported and not used'',
     ''declared and not used'', ''no required module provides package'', ''missing go.sum entry'', ''cannot find package'']"

definition assertion_markers :: "string list" where
  "assertion_markers = [''--- fail:'', ''assertion failed'', ''expected '', ''got '', ''not equal:'']"

definition classify_failure :: "at_record \<Rightarrow> string \<times> string" where
  "classify_failure ar =
     (let diag = to_lower (ar_diagnostic ar);
          has_compile = contains_any diag compile_markers;
          has_assertion = contains_any diag assertion_markers
      in if ar_worker_status ar = WorkerWorkspaceViolation
         then (''spec_bug'', ''workspace allowlist may be wrong; suggests edit'')
         else if has_compile \<and> contains diag ''test''
         then (''test_bug'', ''tests fail to compile; suggests edit with a tighter spec'')
         else if has_compile \<and> (contains diag ''build'' \<or> contains diag ''vet'')
         then (''impl_bug'', ''compile error in build/vet; suggests branch_fix'')
         else if has_assertion \<and> \<not> has_compile
         then (''ambiguous'', ''tests compiled but assertions failed; could be an impl bug (branch_fix upstream) or a test bug (edit)'')
         else if ar_worker_status ar = WorkerMaxIterationsExhausted
         then (''ambiguous'', ''worker exhausted iterations; branch_fix with diff context is the default'')
         else (''ambiguous'', ''no clear pattern; inspect the diff''))"

end
