(* ===== verification/Coding_Orch.thy ===== *)
theory Coding_Orch
  imports Coding_Verify
begin

text \<open>
  The orchestrator of the coding chain, \<open>internal/coding/orchestrator.go\<close>, with the deterministic
  worker (\<open>worker.go\<close>), the no-git repository (\<open>repo.go\<close>) and the two replay checks of
  \<open>redgreen.go\<close>. The Go interfaces the orchestrator is built over (\<open>Runner\<close>, \<open>Repo\<close>,
  \<open>Workspace\<close>, \<open>Worker\<close>, \<open>Verifier\<close>, the coverage and pause callbacks) are functions on an
  abstract world \<open>'w\<close>, so a theorem about the orchestrator holds for every implementation, every
  model and every file system. The emitter is the in-memory log: each operation returns the log it
  extended. An optional capability of a repository is an option.
\<close>

subsection \<open>The interfaces\<close>

record 'w workspace =
  ws_dir :: string
  ws_seed :: "(string \<times> string) list \<Rightarrow> 'w \<Rightarrow> string option \<times> 'w"
  ws_commit :: "string \<Rightarrow> 'w \<Rightarrow> (string + string option) \<times> 'w"
  ws_close :: "'w \<Rightarrow> string option \<times> 'w"

record 'w package_reader =
  list_package :: "string \<Rightarrow> 'w \<Rightarrow> (string + string list) \<times> 'w"
  show_file :: "string \<Rightarrow> 'w \<Rightarrow> (string + string) \<times> 'w"
  diff_commits :: "string \<Rightarrow> string \<Rightarrow> 'w \<Rightarrow> (string + string) \<times> 'w"
  diff_worktree :: "string \<Rightarrow> string \<Rightarrow> 'w \<Rightarrow> (string + string) \<times> 'w"

type_synonym 'w replay =
  "string \<Rightarrow> string \<Rightarrow> string list \<Rightarrow> test_run_spec list \<Rightarrow> int \<Rightarrow> 'w \<Rightarrow> (string + command_result list) \<times> 'w"

record 'w repo =
  repo_init :: "run_state \<Rightarrow> 'w \<Rightarrow> string option \<times> 'w"
  head_sha :: "'w \<Rightarrow> (string + string) \<times> 'w"
  open_ws :: "string \<Rightarrow> at_record \<Rightarrow> 'w \<Rightarrow> (string + 'w workspace) \<times> 'w"
  fast_forward :: "string \<Rightarrow> 'w \<Rightarrow> string option \<times> 'w"
  reset_to :: "string \<Rightarrow> 'w \<Rightarrow> string option \<times> 'w"
  promote :: "'w \<Rightarrow> string option \<times> 'w"
  reader :: "'w package_reader option"
  red_green :: "'w replay option"
  is_git_repo :: bool

record feedback =
  fb_iteration :: int
  fb_inputs :: "(string \<times> go_value) list"
  fb_prior_diagnostic :: string
  fb_carried_tier :: string

record attempt_result =
  att_error :: "string option"
  att_note :: string
  att_tier :: string

type_synonym 'w worker = "atomic_task \<Rightarrow> string \<Rightarrow> feedback \<Rightarrow> 'w \<Rightarrow> attempt_result \<times> 'w"

record coverage_grade =
  cg_verdict :: string
  cg_advisory :: string

record 'w orch =
  o_runner :: "'w runner"
  o_repo :: "'w repo"
  o_unbound_noop :: bool
  o_seed_files :: "string \<Rightarrow> (string \<times> string) list \<Rightarrow> 'w \<Rightarrow> string option \<times> 'w"
  o_gate_timeout :: int
  o_model :: "'w worker option"
  o_verifier :: "'w verifier option"
  o_new_run_id :: "'w \<Rightarrow> string \<times> 'w"
  o_should_pause :: "(string \<Rightarrow> 'w \<Rightarrow> bool \<times> 'w) option"
  o_coverage :: "(string \<Rightarrow> string \<Rightarrow> int \<Rightarrow> 'w \<Rightarrow> coverage_grade \<times> 'w) option"
  o_respawn_cap :: int
  o_seeded_tier :: string
  o_gofmt :: bool
  o_module_dir :: "string \<Rightarrow> 'w \<Rightarrow> string option"
  o_dir_exists :: "'w \<Rightarrow> string \<Rightarrow> bool"
  o_parse_json :: "string \<Rightarrow> string + go_value"

definition noop_workspace :: "(string \<Rightarrow> (string \<times> string) list \<Rightarrow> 'w \<Rightarrow> string option \<times> 'w) \<Rightarrow> string \<Rightarrow> 'w workspace" where
  "noop_workspace seed dir = \<lparr>ws_dir = dir, ws_seed = seed dir, ws_commit = (\<lambda>msg w. (Inr None, w)),
     ws_close = (\<lambda>w. (None, w))\<rparr>"

definition noop_repo :: "(string \<Rightarrow> (string \<times> string) list \<Rightarrow> 'w \<Rightarrow> string option \<times> 'w) \<Rightarrow> string \<Rightarrow> 'w repo" where
  "noop_repo seed dir = \<lparr>repo_init = (\<lambda>s w. (None, w)), head_sha = (\<lambda>w. (Inr [], w)),
     open_ws = (\<lambda>fork ar w. (Inr (noop_workspace seed dir), w)),
     fast_forward = (\<lambda>sha w. (None, w)), reset_to = (\<lambda>sha w. (None, w)), promote = (\<lambda>w. (None, w)),
     reader = None, red_green = None, is_git_repo = False\<rparr>"

definition deterministic_attempt :: "'w runner \<Rightarrow> 'w worker" where
  "deterministic_attempt run spec dir fb w =
     (let cmd = wc_command (at_worker spec)
      in case run cmd dir (wc_timeout_seconds (at_worker spec) * 1000000000) w of
           (r, w') \<Rightarrow>
             if cr_exit r \<noteq> 0
             then (\<lparr>att_error = Some (''worker command '' @ go_quote (join '' '' cmd) @ '' exited '' @ itoa (cr_exit r)
                       @ newline @ ''stderr:'' @ newline @ tail_of (cr_stderr r) gate_tail_bytes),
                    att_note = [], att_tier = []\<rparr>, w')
             else (\<lparr>att_error = None, att_note = ''ran '' @ join '' '' cmd, att_tier = []\<rparr>, w'))"

subsection \<open>The checks on the world\<close>

definition worktree_diff :: "'w orch \<Rightarrow> string \<Rightarrow> string \<Rightarrow> 'w \<Rightarrow> string \<times> 'w" where
  "worktree_diff orc dir parent w =
     (if parent = [] then ([], w)
      else (case reader (o_repo orc) of
              None \<Rightarrow> ([], w)
            | Some pr \<Rightarrow>
                (case diff_worktree pr dir parent w of
                   (Inl e, w') \<Rightarrow> ([], w')
                 | (Inr diff, w') \<Rightarrow> (diff, w'))))"

definition tautology_verdict :: "'w orch \<Rightarrow> string \<Rightarrow> string \<Rightarrow> 'w \<Rightarrow> (string + string) \<times> 'w" where
  "tautology_verdict orc dir parent w =
     (case (red_green (o_repo orc), reader (o_repo orc)) of
        (Some replay, Some pr) \<Rightarrow>
          (if parent = [] then (Inr [], w)
           else (case diff_worktree pr dir parent w of
                   (Inl e, w1) \<Rightarrow> (Inl e, w1)
                 | (Inr diff, w1) \<Rightarrow>
                     (if diff = [] then (Inr [], w1)
                      else (let adds = parse_worker_test_additions diff
                            in if ta_specs adds = [] then (Inr [], w1)
                               else (case replay parent dir (ta_files adds) (ta_specs adds) (o_gate_timeout orc) w1 of
                                       (Inl e, w2) \<Rightarrow> (Inl (''red-before-green replay: '' @ e), w2)
                                     | (Inr results, w2) \<Rightarrow>
                                         (case find_index (\<lambda>r. cr_exit r = 0) results of
                                            None \<Rightarrow> (Inr [], w2)
                                          | Some i \<Rightarrow> (Inr (''tautological-test (passes on unfixed code): ''
                                              @ tr_pkg (ta_specs adds ! i) @ '' ['' @ join '','' (tr_funcs (ta_specs adds ! i)) @ '']''), w2)))))))
      | _ \<Rightarrow> (Inr [], w))"

definition oracle_tamper_verdict :: "'w orch \<Rightarrow> string \<Rightarrow> string \<Rightarrow> string \<Rightarrow> 'w \<Rightarrow> (string + string) \<times> 'w" where
  "oracle_tamper_verdict orc dir parent diff w =
     (case red_green (o_repo orc) of
        None \<Rightarrow> (Inr [], w)
      | Some replay \<Rightarrow>
          (let modified = parse_modified_existing_test_files diff;
               specs = map (\<lambda>d. \<lparr>tr_pkg = d, tr_funcs = [''.+'']\<rparr>) (rev (remdups (rev (map path_dir modified))))
           in if parent = [] \<or> modified = [] then (Inr [], w)
              else (case replay parent dir [] specs (o_gate_timeout orc) w of
                      (Inl e, w') \<Rightarrow> (Inl (''oracle-preservation replay: '' @ e), w')
                    | (Inr results, w') \<Rightarrow>
                        (case find_index (\<lambda>r. cr_exit r \<noteq> 0) results of
                           None \<Rightarrow> (Inr [], w')
                         | Some i \<Rightarrow> (Inr (''oracle-tamper: the pre-existing test(s) in '' @ tr_pkg (specs ! i)
                             @ '' FAIL against production at the fork point, so making the gate green by editing ''
                             @ join '', '' modified @ '' weakened a failing oracle instead of fixing production '' @ em_dash
                             @ '' report the production bug and stop; never rewrite a failing test to assert the current (buggy) output''), w')))))"

definition porcelain_go_file :: "string \<Rightarrow> string option" where
  "porcelain_go_file line =
     (if length line < 4 then None
      else if contains (take 2 line) ''D'' then None
      else (let p = trim_space (drop 2 line);
                p' = (case str_index p '' -> '' of None \<Rightarrow> p | Some i \<Rightarrow> drop (i + 4) p);
                path = trim_char (CHR 0x22) p'
            in if has_suffix path ''.go'' then Some path else None))"

definition changed_go_files :: "'w orch \<Rightarrow> string \<Rightarrow> 'w \<Rightarrow> string list \<times> 'w" where
  "changed_go_files orc dir w =
     (case o_runner orc [''git'', ''status'', ''--porcelain'', ''--untracked-files=all''] dir (o_gate_timeout orc) w of
        (r, w') \<Rightarrow>
          if cr_exit r \<noteq> 0 then ([], w')
          else (List.map_filter porcelain_go_file (lines_of (cr_stdout r)), w'))"

definition gofmt_changed_go :: "'w orch \<Rightarrow> string \<Rightarrow> 'w \<Rightarrow> 'w" where
  "gofmt_changed_go orc dir w =
     (case changed_go_files orc dir w of
        (files, w') \<Rightarrow>
          if files = [] then w'
          else snd (o_runner orc ([''gofmt'', ''-w''] @ files) dir (o_gate_timeout orc) w'))"

definition scoped_gate :: "'w orch \<Rightarrow> atomic_task \<Rightarrow> string \<Rightarrow> string \<Rightarrow> 'w \<Rightarrow> (string list list \<times> string) \<times> 'w" where
  "scoped_gate orc spec dir gate_dir w =
     (if gate_has_whole_repo_go_test (at_gate spec) \<and> is_git_repo (o_repo orc)
      then (case changed_go_files orc dir w of
              (files, w') \<Rightarrow> (scope_or_skip_gate (o_dir_exists orc w') (at_gate spec) files dir gate_dir, w'))
      else ((at_gate spec, []), w))"

subsection \<open>The worker-to-gate loop\<close>

text \<open>What one iteration of the loop decides: stop with a status, a diagnostic and flags, or go on
  with the diagnostic fed back.\<close>

datatype loop_step = Halt worker_status string "gate_flag list" | Revise string

text \<open>The checks on a green gate, in the order of the code.\<close>

definition judge_green ::
  "'w orch \<Rightarrow> atomic_task \<Rightarrow> string \<Rightarrow> string \<Rightarrow> string \<Rightarrow> gate_flag list \<Rightarrow> 'w \<Rightarrow> loop_step \<times> 'w" where
  "judge_green orc spec dir parent diff flags w =
     (case tautology_verdict orc dir parent w of
        (Inl e, w1) \<Rightarrow> (Halt WorkerCommandError e flags, w1)
      | (Inr verdict, w1) \<Rightarrow>
          (if verdict \<noteq> [] then (Halt WorkerFakeGreen verdict flags, w1)
           else
             (let test_only = find_flag flags FlagTestOnlyDiff;
                  finish = (\<lambda>w2. case o_coverage orc of
                      None \<Rightarrow> (Halt WorkerSuccess [] flags, w2)
                    | Some cov \<Rightarrow>
                        (case cov dir diff (o_gate_timeout orc) w2 of
                           (g, w3) \<Rightarrow>
                             (Halt WorkerSuccess []
                                (if cg_verdict g = ''proposed''
                                 then flags @ [\<lparr>gf_kind = FlagCoverageAdvisory, gf_detail = cg_advisory g\<rparr>]
                                 else flags), w3)))
              in case test_only of
                   None \<Rightarrow> finish w1
                 | Some f \<Rightarrow>
                     (if \<not> at_allow_test_only spec then (Halt WorkerTestOnlyDiff (gf_detail f) flags, w1)
                      else (case oracle_tamper_verdict orc dir parent diff w1 of
                              (Inl e, w2) \<Rightarrow> (Halt WorkerCommandError e flags, w2)
                            | (Inr verdict', w2) \<Rightarrow>
                                (if verdict' \<noteq> [] then (Halt WorkerFakeGreen verdict' flags, w2)
                                 else finish w2))))))"

definition judge_attempt :: "'w orch \<Rightarrow> atomic_task \<Rightarrow> string \<Rightarrow> string \<Rightarrow> string \<Rightarrow> 'w \<Rightarrow> loop_step \<times> 'w" where
  "judge_attempt orc spec dir gate_dir parent w =
     (let w1 = (if o_gofmt orc then gofmt_changed_go orc dir w else w)
      in case worktree_diff orc dir parent w1 of
           (diff, w2) \<Rightarrow>
             (let flags = gate_flags diff spec
              in case find_flag flags FlagProtectedPathEdit of
                   Some f \<Rightarrow> (Halt WorkerGateIntegrityViolation (gf_detail f) flags, w2)
                 | None \<Rightarrow>
                     (case scoped_gate orc spec dir gate_dir w2 of
                        ((cmds, skip), w3) \<Rightarrow>
                          if skip \<noteq> [] then (Revise skip, w3)
                          else (case gate_run (o_runner orc) cmds (o_gate_timeout orc) gate_dir w3 of
                                  (gr, w4) \<Rightarrow>
                                    if gr_passed gr then judge_green orc spec dir parent diff flags w4
                                    else (Revise (gr_diagnostic gr), w4)))))"

definition attempt_once ::
  "'w orch \<Rightarrow> 'w worker \<Rightarrow> atomic_task \<Rightarrow> string \<Rightarrow> string \<Rightarrow> string \<Rightarrow> feedback \<Rightarrow> 'w \<Rightarrow> (loop_step \<times> string) \<times> 'w" where
  "attempt_once orc worker spec dir gate_dir parent fb w =
     (case worker spec dir fb w of
        (res, w1) \<Rightarrow>
          (case att_error res of
             Some e \<Rightarrow> ((Halt WorkerCommandError e [], att_tier res), w1)
           | None \<Rightarrow>
               (case judge_attempt orc spec dir gate_dir parent w1 of
                  (stp, w2) \<Rightarrow> ((stp, att_tier res), w2))))"

definition carry_tier :: "string \<Rightarrow> at_record \<Rightarrow> at_record" where
  "carry_tier tier ar = (if tier \<noteq> [] then ar\<lparr>ar_highest_tier := tier\<rparr> else ar)"

type_synonym loop_result = "worker_status \<times> string \<times> int \<times> gate_flag list"

fun worker_loop ::
  "(feedback \<Rightarrow> 'w \<Rightarrow> (loop_step \<times> string) \<times> 'w) \<Rightarrow> (string \<times> go_value) list \<Rightarrow> worker_status \<Rightarrow> int
     \<Rightarrow> nat \<Rightarrow> int \<Rightarrow> string \<Rightarrow> at_record \<Rightarrow> 'w \<Rightarrow> loop_result \<times> at_record \<times> 'w" where
  "worker_loop attempt inputs exhausted max_iter 0 iter diag ar w =
     ((exhausted, diag, max_iter, []),
      (if diag \<noteq> [] then ar\<lparr>ar_last_real_diagnostic := diag\<rparr> else ar), w)"
| "worker_loop attempt inputs exhausted max_iter (Suc n) iter diag ar w =
     (case attempt \<lparr>fb_iteration = iter, fb_inputs = inputs, fb_prior_diagnostic = diag,
                    fb_carried_tier = ar_highest_tier ar\<rparr> w of
        ((stp, tier), w') \<Rightarrow>
          (case stp of
             Halt status d flags \<Rightarrow> ((status, d, iter, flags), carry_tier tier ar, w')
           | Revise d \<Rightarrow> worker_loop attempt inputs exhausted max_iter n (iter + 1) d (carry_tier tier ar) w'))"

definition attempt_budget :: "atomic_task \<Rightarrow> int \<times> worker_status" where
  "attempt_budget spec =
     (if wc_kind (at_worker spec) = WorkerDeterministic then (1, WorkerGateFailure)
      else (max_iterations spec, WorkerMaxIterationsExhausted))"

definition worker_for :: "'w orch \<Rightarrow> worker_kind \<Rightarrow> 'w worker option" where
  "worker_for orc kind = (if kind = WorkerModel then o_model orc else Some (deterministic_attempt (o_runner orc)))"

fun kind_text :: "worker_kind \<Rightarrow> string" where
  "kind_text WorkerDeterministic = ''deterministic''"
| "kind_text WorkerModel = ''model''"
| "kind_text (UnknownKind k) = k"

definition stuck_verdict :: "string \<Rightarrow> int \<Rightarrow> string \<Rightarrow> string" where
  "stuck_verdict slug cap diag =
     ''stuck on '' @ go_quote slug @ '': per-duty respawn cap ('' @ itoa cap @ '') reached '' @ em_dash
     @ '' escalation exhausted, halting instead of re-spawning. Last gate diagnostic: ''
     @ (if blank diag then ''(no gate diagnostic)'' else diag)"

definition run_worker_loop ::
  "'w orch \<Rightarrow> at_record \<Rightarrow> string \<Rightarrow> (string \<times> go_value) list \<Rightarrow> 'w \<Rightarrow> loop_result \<times> at_record \<times> 'w" where
  "run_worker_loop orc ar dir inputs w =
     (let spec = ar_spec ar
      in case worker_for orc (wc_kind (at_worker spec)) of
           None \<Rightarrow> ((WorkerCommandError, ''no worker wired for kind '' @ go_quote (kind_text (wc_kind (at_worker spec))), 0, []), ar, w)
         | Some worker \<Rightarrow>
             (if 0 < o_respawn_cap orc \<and> o_respawn_cap orc \<le> ar_respawn_count ar
              then ((WorkerRespawnCapReached, stuck_verdict (at_slug spec) (o_respawn_cap orc) (ar_last_real_diagnostic ar), 0, []), ar, w)
              else
                (case attempt_budget spec of
                   (max_iter, exhausted) \<Rightarrow>
                     (let gate_dir = (case o_module_dir orc dir w of None \<Rightarrow> dir | Some md \<Rightarrow> md)
                      in worker_loop (attempt_once orc worker spec dir gate_dir (ar_parent_sha ar)) inputs exhausted
                           max_iter (nat max_iter) 1 [] (ar\<lparr>ar_respawn_count := ar_respawn_count ar + 1\<rparr>) w))))"

end
