(* ===== verification/Coding_Run.thy ===== *)
theory Coding_Run
  imports Coding_Orch
begin

text \<open>
  The operations of a coding chain: starting and running it (\<open>internal/coding/orchestrator.go\<close>),
  the staging operations (\<open>staging.go\<close>) and the operator's interventions (\<open>intervene.go\<close>, with
  \<open>captureDiff\<close> of \<open>context.go\<close>). Every operation takes the state, the log and the world and
  returns their new values; an operation that fails returns its error and the state as it left it.
\<close>

subsection \<open>Running one task\<close>

definition emit_at :: "at_record \<Rightarrow> event list \<Rightarrow> event list" where
  "emit_at ar lg = lg @ [EvATStatus ar]"

definition emit_chain :: "run_state \<Rightarrow> event list \<Rightarrow> event list" where
  "emit_chain s lg = lg @ [EvChainStatus (rs_status s) (rs_failed s) (rs_position s)]"

definition fail_at :: "worker_status \<Rightarrow> string \<Rightarrow> at_record \<Rightarrow> at_record" where
  "fail_at st diag ar = ar\<lparr>ar_status := ATFailed, ar_worker_status := st, ar_diagnostic := diag\<rparr>"

definition seed_oracles :: "'w workspace \<Rightarrow> at_record \<Rightarrow> 'w \<Rightarrow> string option \<times> at_record \<times> 'w" where
  "seed_oracles ws ar w =
     (if at_oracles (ar_spec ar) = [] then (None, ar, w)
      else (case ws_seed ws (at_oracles (ar_spec ar)) w of
              (Some e, w1) \<Rightarrow> (Some e, ar, w1)
            | (None, w1) \<Rightarrow>
                (case ws_commit ws (''seed acceptance oracle: AT '' @ itoa2 (ar_position ar) @ '' '' @ ar_slug ar) w1 of
                   (Inl e, w2) \<Rightarrow> (Some e, ar, w2)
                 | (Inr None, w2) \<Rightarrow> (None, ar, w2)
                 | (Inr (Some sha), w2) \<Rightarrow> (None, ar\<lparr>ar_parent_sha := sha\<rparr>, w2))))"

text \<open>Committing a verified task: the last part of \<open>runOne\<close>.\<close>

definition land :: "'w orch \<Rightarrow> 'w workspace \<Rightarrow> at_record \<Rightarrow> 'w \<Rightarrow> bool \<times> at_record \<times> 'w" where
  "land orc ws ar w =
     (let finish = (\<lambda>ar' w'. (True, ar'\<lparr>ar_worktree := [], ar_status := ATSuccess\<rparr>, snd (ws_close ws w')))
      in case ws_commit ws (''AT '' @ itoa2 (ar_position ar) @ '': '' @ ar_slug ar) w of
           (Inl e, w1) \<Rightarrow> (False, fail_at WorkerCommandError (''commit: '' @ e) ar, w1)
         | (Inr (Some sha), w1) \<Rightarrow>
             finish (ar\<lparr>ar_commit_sha := sha\<rparr>) (snd (fast_forward (o_repo orc) sha w1))
         | (Inr None, w1) \<Rightarrow>
             (case head_sha (o_repo orc) w1 of
                (Inl e, w2) \<Rightarrow> finish ar w2
              | (Inr head, w2) \<Rightarrow> finish (ar\<lparr>ar_commit_sha := head\<rparr>) w2))"

definition verify_and_land :: "'w orch \<Rightarrow> 'w workspace \<Rightarrow> at_record \<Rightarrow> 'w \<Rightarrow> bool \<times> at_record \<times> 'w" where
  "verify_and_land orc ws ar w =
     (case run_verify_phase (o_runner orc) (o_gate_timeout orc) (o_verifier orc) (ar_spec ar) (ws_dir ws) w of
        ((vstatus, vdiag), w1) \<Rightarrow>
          if vstatus \<noteq> WorkerSuccess then (False, fail_at vstatus vdiag ar, w1)
          else (case verify_contract (o_parse_json orc) (o_runner orc) (o_gate_timeout orc) (ar_spec ar) (ws_dir ws) w1 of
                  (Inl e, w2) \<Rightarrow> (False, fail_at WorkerOutputContractViolation e ar, w2)
                | (Inr outputs, w2) \<Rightarrow> land orc ws (ar\<lparr>ar_outputs := outputs\<rparr>) w2))"

definition work_in :: "'w orch \<Rightarrow> 'w workspace \<Rightarrow> (string \<times> go_value) list \<Rightarrow> at_record \<Rightarrow> 'w \<Rightarrow> bool \<times> at_record \<times> 'w" where
  "work_in orc ws inputs ar w =
     (case seed_oracles ws (ar\<lparr>ar_worktree := ws_dir ws\<rparr>) w of
        (Some e, ar1, w1) \<Rightarrow> (False, fail_at WorkerCommandError (''seed oracle: '' @ e) ar1, w1)
      | (None, ar1, w1) \<Rightarrow>
          (case run_worker_loop orc ar1 (ws_dir ws) inputs w1 of
             ((status, diag, iters, flags), ar2, w2) \<Rightarrow>
               (let ar3 = ar2\<lparr>ar_iterations := iters, ar_worker_status := status, ar_diagnostic := diag, ar_flags := flags\<rparr>
                in if status \<noteq> WorkerSuccess then (False, ar3\<lparr>ar_status := ATFailed\<rparr>, w2)
                   else verify_and_land orc ws ar3 w2)))"

definition fork_point :: "'w orch \<Rightarrow> at_record \<Rightarrow> 'w \<Rightarrow> at_record \<times> 'w" where
  "fork_point orc ar w =
     (if ar_parent_sha ar \<noteq> [] then (ar, w)
      else (case head_sha (o_repo orc) w of
              (Inl e, w') \<Rightarrow> (ar, w')
            | (Inr sha, w') \<Rightarrow> (ar\<lparr>ar_parent_sha := sha\<rparr>, w')))"

definition run_body :: "'w orch \<Rightarrow> run_state \<Rightarrow> at_record \<Rightarrow> 'w \<Rightarrow> bool \<times> at_record \<times> 'w" where
  "run_body orc s ar w =
     (case resolve_inputs s (ar_spec ar) of
        Inl e \<Rightarrow> (False, fail_at WorkerCommandError e ar, w)
      | Inr inputs \<Rightarrow>
          (case fork_point orc ar w of
             (ar1, w1) \<Rightarrow>
               (case open_ws (o_repo orc) (ar_parent_sha ar1) ar1 w1 of
                  (Inl e, w2) \<Rightarrow> (False, fail_at WorkerCommandError (''open workspace: '' @ e) ar1, w2)
                | (Inr ws, w2) \<Rightarrow> work_in orc ws inputs ar1 w2)))"

definition run_one :: "'w orch \<Rightarrow> run_state \<Rightarrow> nat \<Rightarrow> event list \<Rightarrow> 'w \<Rightarrow> bool \<times> run_state \<times> event list \<times> 'w" where
  "run_one orc s idx lg w =
     (let ar = (rs_ats s ! idx)\<lparr>ar_status := ATRunning\<rparr>; s1 = set_at idx ar s; lg1 = emit_at ar lg
      in case run_body orc s1 ar w of
           (ok, ar', w') \<Rightarrow> (ok, set_at idx ar' s1, emit_at ar' lg1, w'))"

subsection \<open>Starting and running a chain\<close>

definition start ::
  "'w orch \<Rightarrow> chain \<Rightarrow> string \<Rightarrow> event list \<Rightarrow> 'w \<Rightarrow> (string + spec_error + 'w orch \<times> run_state) \<times> event list \<times> 'w" where
  "start orc c run_id lg w =
     (case validate c of
        Some e \<Rightarrow> (Inr (Inl e), lg, w)
      | None \<Rightarrow>
          (case (if run_id = [] then o_new_run_id orc w else (run_id, w)) of
             (rid, w1) \<Rightarrow>
               (let orc' = (if o_unbound_noop orc
                            then orc\<lparr>o_repo := noop_repo (o_seed_files orc) (ch_target_repo c),
                                     o_unbound_noop := (ch_target_repo c = [])\<rparr>
                            else orc);
                    seeds = map (\<lambda>(i, t). (new_record (at_slug t) t (int i))\<lparr>ar_highest_tier := o_seeded_tier orc\<rparr>)
                              (enumerate 0 (ch_tasks c));
                    s = empty_state\<lparr>rs_run_id := rid, rs_chain_slug := ch_slug c, rs_target_repo := ch_target_repo c,
                          rs_base_branch := ch_base_branch c,
                          rs_integration := ''coding/runs/'' @ rid @ ''/integration'', rs_status := ChainPending,
                          rs_ats := seeds\<rparr>
                in case repo_init (o_repo orc') s w1 of
                     (Some e, w2) \<Rightarrow> (Inl (''init integration branch: '' @ e), lg, w2)
                   | (None, w2) \<Rightarrow>
                       (Inr (Inr (orc', s)),
                        lg @ [EvChainStarted rid (ch_slug c) (ch_target_repo c) (ch_base_branch c) (rs_integration s) seeds], w2))))"

definition pause_check :: "'w orch \<Rightarrow> run_state \<Rightarrow> 'w \<Rightarrow> bool \<times> 'w" where
  "pause_check orc s w = (case o_should_pause orc of None \<Rightarrow> (False, w) | Some f \<Rightarrow> f (rs_run_id s) w)"

lemma run_one_frame:
  "run_one orc s idx lg w = (ok, s', lg', w') \<Longrightarrow>
     length (rs_ats s') = length (rs_ats s) \<and> rs_position s' = rs_position s"
  by (auto simp: run_one_def Let_def set_at_def split: prod.splits)

function run_loop :: "'w orch \<Rightarrow> run_state \<Rightarrow> event list \<Rightarrow> 'w \<Rightarrow> run_state \<times> event list \<times> 'w" where
  "run_loop orc s lg w =
     (if int (length (rs_ats s)) \<le> rs_position s
      then (let s' = s\<lparr>rs_status := ChainSuccess\<rparr> in (s', emit_chain s' lg, w))
      else (case pause_check orc s w of
              (True, w1) \<Rightarrow> (let s' = s\<lparr>rs_status := ChainPaused\<rparr> in (s', emit_chain s' lg, w1))
            | (False, w1) \<Rightarrow>
                (let ar = rs_ats s ! nat (rs_position s)
                 in if is_resolved ar then run_loop orc (s\<lparr>rs_position := rs_position s + 1\<rparr>) lg w1
                    else (case run_one orc s (nat (rs_position s)) lg w1 of
                            (False, s1, lg1, w2) \<Rightarrow>
                              (let s' = s1\<lparr>rs_status := ChainFailed, rs_failed := ar_slug ar\<rparr>
                               in (s', emit_chain s' lg1, w2))
                          | (True, s1, lg1, w2) \<Rightarrow>
                              run_loop orc (s1\<lparr>rs_position := rs_position s1 + 1\<rparr>) lg1 w2))))"
  by pat_completeness auto
termination
proof (relation "measure (\<lambda>(orc, s, lg, w). nat (int (length (rs_ats s)) - rs_position s))", goal_cases)
  case 3
  then show ?case by (auto dest!: run_one_frame [OF sym])
qed auto

declare run_loop.simps [simp del]

definition run_to_completion :: "'w orch \<Rightarrow> run_state \<Rightarrow> event list \<Rightarrow> 'w \<Rightarrow> run_state \<times> event list \<times> 'w" where
  "run_to_completion orc s lg w = run_loop orc (s\<lparr>rs_status := ChainRunning\<rparr>) lg w"

definition resume :: "'w orch \<Rightarrow> run_state \<Rightarrow> event list \<Rightarrow> 'w \<Rightarrow> run_state \<times> event list \<times> 'w" where
  "resume orc s lg w = run_to_completion orc s lg w"

subsection \<open>Staging\<close>

datatype stage_error =
    NotStageable chain_status
  | NoCurrentAT int
  | EmptyEditGoal
  | EmptyCommit
  | EmptyJustification
  | AdvanceFailed string string
  | NoOriginalAT string
  | BadTarget string nat int
  | BranchesExhausted int string

definition stageable :: "run_state \<Rightarrow> bool" where
  "stageable s = (rs_status s = ChainPaused \<or> rs_status s = ChainFailed \<or> rs_status s = ChainPending)"

definition pending :: "run_state \<Rightarrow> run_state" where
  "pending s = s\<lparr>rs_status := ChainPending, rs_failed := []\<rparr>"

definition retry :: "run_state \<Rightarrow> event list \<Rightarrow> stage_error + run_state \<times> event list" where
  "retry s lg =
     (if \<not> stageable s then Inl (NotStageable (rs_status s))
      else (case current s of
              None \<Rightarrow> Inl (NoCurrentAT (rs_position s))
            | Some i \<Rightarrow>
                (let ar = reset_at (rs_ats s ! i); s' = pending (set_at i ar s)
                 in Inr (s', emit_chain s' (emit_at ar lg)))))"

definition skip :: "run_state \<Rightarrow> event list \<Rightarrow> stage_error + run_state \<times> event list" where
  "skip s lg =
     (if \<not> stageable s then Inl (NotStageable (rs_status s))
      else (case current s of
              None \<Rightarrow> Inl (NoCurrentAT (rs_position s))
            | Some i \<Rightarrow>
                (let ar = (rs_ats s ! i)\<lparr>ar_status := ATSkipped\<rparr>;
                     s' = pending ((set_at i ar s)\<lparr>rs_position := rs_position s + 1\<rparr>)
                 in Inr (s', emit_chain s' (emit_at ar lg)))))"

definition abort :: "run_state \<Rightarrow> event list \<Rightarrow> run_state \<times> event list" where
  "abort s lg = (let s' = s\<lparr>rs_status := ChainAborted\<rparr> in (s', emit_chain s' lg))"

subsection \<open>Interventions\<close>

record edit =
  ed_goal :: string
  ed_workspace :: "string list option"

definition intervene_edit :: "run_state \<Rightarrow> edit \<Rightarrow> event list \<Rightarrow> stage_error + run_state \<times> event list" where
  "intervene_edit s e lg =
     (if \<not> stageable s then Inl (NotStageable (rs_status s))
      else (case current s of
              None \<Rightarrow> Inl (NoCurrentAT (rs_position s))
            | Some i \<Rightarrow>
                (if blank (ed_goal e) then Inl EmptyEditGoal
                 else
                   (let ar = rs_ats s ! i;
                        spec = (ar_spec ar)\<lparr>at_goal := ed_goal e\<rparr>;
                        spec' = (case ed_workspace e of None \<Rightarrow> spec | Some ws \<Rightarrow> spec\<lparr>at_workspace := ws\<rparr>);
                        ar' = reset_at (ar\<lparr>ar_spec := spec'\<rparr>);
                        s' = pending (set_at i ar' s)
                    in Inr (s', emit_chain s' (emit_at ar' lg))))))"

definition intervene_force_advance ::
  "'w orch \<Rightarrow> run_state \<Rightarrow> string \<Rightarrow> string \<Rightarrow> event list \<Rightarrow> 'w \<Rightarrow> (stage_error + run_state \<times> event list) \<times> 'w" where
  "intervene_force_advance orc s commit just lg w =
     (if \<not> stageable s then (Inl (NotStageable (rs_status s)), w)
      else if blank commit then (Inl EmptyCommit, w)
      else if blank just then (Inl EmptyJustification, w)
      else (case current s of
              None \<Rightarrow> (Inl (NoCurrentAT (rs_position s)), w)
            | Some i \<Rightarrow>
                (case reset_to (o_repo orc) commit w of
                   (Some e, w') \<Rightarrow> (Inl (AdvanceFailed commit e), w')
                 | (None, w') \<Rightarrow>
                     (let ar = (rs_ats s ! i)\<lparr>ar_commit_sha := commit, ar_status := ATSuccess,
                            ar_worker_status := WorkerForceAdvance, ar_diagnostic := ''force_advance: '' @ just,
                            ar_worktree := []\<rparr>;
                          s1 = (set_at i ar s)\<lparr>rs_position := rs_position s + 1\<rparr>;
                          lg1 = emit_at ar lg
                      in case current s1 of
                           None \<Rightarrow> (let s' = pending s1 in (Inr (s', emit_chain s' lg1), w'))
                         | Some j \<Rightarrow>
                             (let nxt = reset_at (rs_ats s1 ! j); s' = pending (set_at j nxt s1)
                              in (Inr (s', emit_chain s' (emit_at nxt lg1)), w'))))))"

definition capture_diff :: "'w repo \<Rightarrow> at_record \<Rightarrow> 'w \<Rightarrow> string \<times> 'w" where
  "capture_diff repo ar w =
     (case reader repo of
        None \<Rightarrow> ([], w)
      | Some pr \<Rightarrow>
          (if ar_parent_sha ar = [] then ([], w)
           else if ar_commit_sha ar \<noteq> [] then
             (case diff_commits pr (ar_parent_sha ar) (ar_commit_sha ar) w of
                (Inl e, w') \<Rightarrow> ([], w') | (Inr d, w') \<Rightarrow> (d, w'))
           else if ar_worktree ar \<noteq> [] then
             (case diff_worktree pr (ar_worktree ar) (ar_parent_sha ar) w of
                (Inl e, w') \<Rightarrow> ([], w') | (Inr d, w') \<Rightarrow> (d, w'))
           else ([], w)))"

fun prior_diffs :: "'w repo \<Rightarrow> at_record list \<Rightarrow> 'w \<Rightarrow> (string \<times> string) list \<times> 'w" where
  "prior_diffs repo [] w = ([], w)"
| "prior_diffs repo (rec # recs) w =
     (case capture_diff repo rec w of
        (d, w1) \<Rightarrow>
          (case prior_diffs repo recs w1 of
             (ds, w2) \<Rightarrow>
               (if d = [] then ds
                else ((if 0 < ar_branch_index rec
                       then ''branch '' @ itoa (ar_branch_index rec) @ '' of '' @ ar_slug rec
                       else ''original target ('' @ ar_slug rec @ '')''), d) # ds, w2)))"

definition build_branch_fix_goal :: "string \<Rightarrow> string \<Rightarrow> (string \<times> string) list \<Rightarrow> string" where
  "build_branch_fix_goal goal diag priors =
     ''You are revising a prior implementation attempt that failed validation.'' @ newline @ newline
     @ ''ORIGINAL GOAL:'' @ newline @ goal @ newline @ newline
     @ ''FAILURE CONTEXT (from the downstream gate or your own gate):'' @ newline @ diag @ newline
     @ (if priors = [] then []
        else newline @ ''The following prior attempts failed. Each diff is against the same fork point. Study them, recognize the failure pattern, and avoid repeating it.'' @ newline
             @ concat (map (\<lambda>(label, d). newline @ ''--- '' @ label @ '' ---'' @ newline @ fence @ ''diff'' @ newline
                 @ d @ newline @ fence @ newline) priors))
     @ newline @ ''Emit the corrected files using your fs tools.''"

definition default_max_branches :: int where
  "default_max_branches = 3"

definition branch_slug :: "string \<Rightarrow> int \<Rightarrow> string" where
  "branch_slug target n = target @ ''-fix'' @ itoa n"

definition original_index :: "run_state \<Rightarrow> string \<Rightarrow> nat option" where
  "original_index s slug = find_index (\<lambda>r. ar_slug r = slug \<and> ar_branch_index r = 0) (rs_ats s)"

definition branches_of :: "string \<Rightarrow> at_record list \<Rightarrow> at_record list" where
  "branches_of target ats = filter (\<lambda>r. ar_parent_slug r = target) ats"

text \<open>Superseding: the failed downstream task is reset when the target had landed, then the target
  (at \<open>t\<close>) and its branches are skipped.\<close>

definition reset_downstream :: "nat \<Rightarrow> nat option \<Rightarrow> at_record list \<Rightarrow> at_record list" where
  "reset_downstream t f ats =
     (case f of
        None \<Rightarrow> ats
      | Some i \<Rightarrow>
          if i \<noteq> t \<and> ar_commit_sha (ats ! t) \<noteq> []
          then ats[i := (reset_at (ats ! i))\<lparr>ar_parent_sha := []\<rparr>] else ats)"

definition supersede :: "nat \<Rightarrow> string \<Rightarrow> at_record list \<Rightarrow> at_record list" where
  "supersede t target ats =
     map (\<lambda>(i, r). if i = t \<or> ar_parent_slug r = target
                   then r\<lparr>ar_commit_sha := [], ar_status := ATSkipped\<rparr> else r) (enumerate 0 ats)"

fun emit_slugs :: "at_record list \<Rightarrow> string list \<Rightarrow> event list \<Rightarrow> event list" where
  "emit_slugs ats [] lg = lg"
| "emit_slugs ats (slug # slugs) lg =
     emit_slugs ats slugs
       (case find_slug slug ats of None \<Rightarrow> lg | Some i \<Rightarrow> emit_at (ats ! i) lg)"

definition rewind :: "'w orch \<Rightarrow> nat \<Rightarrow> int \<Rightarrow> at_record \<Rightarrow> 'w \<Rightarrow> 'w" where
  "rewind orc t failed_idx target w =
     (if int t \<noteq> failed_idx \<and> ar_commit_sha target \<noteq> []
      then (case (if ar_parent_sha target = []
                  then (case head_sha (o_repo orc) w of (Inl e, w1) \<Rightarrow> ([], w1) | (Inr head, w1) \<Rightarrow> (head, w1))
                  else (ar_parent_sha target, w)) of
              (fork, w1) \<Rightarrow> snd (reset_to (o_repo orc) fork w1))
      else w)"

definition insert_branch ::
  "run_state \<Rightarrow> nat \<Rightarrow> string \<Rightarrow> at_record list \<Rightarrow> at_record \<Rightarrow> event list \<Rightarrow> run_state \<times> event list" where
  "insert_branch s t target existing branch lg =
     (let failed = current s;
          ats1 = supersede t target (reset_downstream t failed (rs_ats s));
          ats2 = renumber (insert_at t branch ats1);
          s' = pending (s\<lparr>rs_ats := ats2, rs_position := int t\<rparr>);
          lg1 = (case find_slug (ar_slug branch) ats2 of None \<Rightarrow> lg | Some i \<Rightarrow> lg @ [EvATInserted (ats2 ! i)]);
          reset_slug = (case failed of
                          None \<Rightarrow> []
                        | Some i \<Rightarrow> if int t \<noteq> rs_position s \<and> ar_slug (rs_ats s ! i) \<noteq> []
                                    then [ar_slug (rs_ats s ! i)] else [])
      in (s', emit_chain s' (emit_slugs ats2 (target # map ar_slug existing @ reset_slug) lg1)))"

definition intervene_branch_fix ::
  "'w orch \<Rightarrow> run_state \<Rightarrow> string \<Rightarrow> string \<Rightarrow> int \<Rightarrow> event list \<Rightarrow> 'w \<Rightarrow> (stage_error + run_state \<times> event list) \<times> 'w" where
  "intervene_branch_fix orc s target_slug diag max_branches lg w =
     (if \<not> stageable s then (Inl (NotStageable (rs_status s)), w)
      else
        (let limit = (if max_branches \<le> 0 then default_max_branches else max_branches)
         in case original_index s target_slug of
              None \<Rightarrow> (Inl (NoOriginalAT target_slug), w)
            | Some t \<Rightarrow>
                (let target = rs_ats s ! t; failed = current s;
                     is_branch = (case failed of None \<Rightarrow> False | Some i \<Rightarrow> ar_parent_slug (rs_ats s ! i) = target_slug);
                     existing = branches_of target_slug (rs_ats s);
                     n = int (length existing) + 1
                 in if \<not> (int t = rs_position s \<or> int t = rs_position s - 1 \<or> is_branch)
                    then (Inl (BadTarget target_slug t (rs_position s)), w)
                    else if limit < n then (Inl (BranchesExhausted limit target_slug), w)
                    else
                      (let diag' = (if diag \<noteq> [] then diag
                                    else (case failed of
                                            Some i \<Rightarrow> if ar_diagnostic (rs_ats s ! i) \<noteq> [] then ar_diagnostic (rs_ats s ! i)
                                                      else ''(no diagnostic recorded)''
                                          | None \<Rightarrow> ''(no diagnostic recorded)''))
                       in case prior_diffs (o_repo orc) (target # existing) w of
                            (priors, w1) \<Rightarrow>
                              (let slug = branch_slug target_slug n;
                                   spec = (ar_spec target)\<lparr>at_slug := slug,
                                     at_goal := build_branch_fix_goal (at_goal (ar_spec target)) diag' priors\<rparr>;
                                   branch = (new_record slug spec (int t))\<lparr>ar_parent_slug := target_slug,
                                     ar_branch_index := n, ar_parent_sha := ar_parent_sha target\<rparr>
                               in (Inr (insert_branch s t target_slug existing branch lg),
                                   rewind orc t (rs_position s) target w1))))))"

end
