(* ===== verification/Coding_Laws.thy ===== *)
theory Coding_Laws
  imports Coding_Run
begin

text \<open>
  The laws of the coding chain: what a run of one task keeps of its record, the shape of the task
  list (distinct slugs, branches directly before their target), the invariant of the run state and
  its preservation by every operation, and the agreement of the event log with the live state.
\<close>

subsection \<open>What a run keeps of a record\<close>

definition same_task :: "at_record \<Rightarrow> at_record \<Rightarrow> bool" where
  "same_task r r' \<longleftrightarrow> ar_slug r' = ar_slug r \<and> ar_parent_slug r' = ar_parent_slug r
     \<and> ar_branch_index r' = ar_branch_index r \<and> ar_position r' = ar_position r"

lemma same_task_refl [simp]: "same_task r r"
  by (simp add: same_task_def)

lemma same_task_trans: "same_task a b \<Longrightarrow> same_task b c \<Longrightarrow> same_task a c"
  by (simp add: same_task_def)

lemma same_task_reset [simp]: "same_task r (reset_at r)"
  by (simp add: same_task_def reset_at_def)

text \<open>The worker loop keeps the record but for the carried tier and the last diagnostic.\<close>

lemma worker_loop_keeps:
  "worker_loop attempt inputs exhausted m n iter diag ar w = (res, ar', w') \<Longrightarrow>
     same_task ar ar' \<and> ar_respawn_count ar' = ar_respawn_count ar"
proof (induction n arbitrary: iter diag ar w)
  case 0
  then show ?case by (auto simp: same_task_def split: if_splits)
next
  case (Suc n)
  have keep: "same_task ar (carry_tier tier ar) \<and> ar_respawn_count (carry_tier tier ar) = ar_respawn_count ar" for tier
    by (simp add: carry_tier_def same_task_def)
  show ?case
    using Suc.prems keep by (fastforce split: prod.splits loop_step.splits dest: Suc.IH same_task_trans)
qed

lemma seed_oracles_keeps:
  "seed_oracles ws ar w = (e, ar', w') \<Longrightarrow> same_task ar ar' \<and> ar_respawn_count ar' = ar_respawn_count ar"
  by (auto simp: seed_oracles_def same_task_def split: prod.splits option.splits sum.splits if_splits)

lemma fork_point_keeps:
  "fork_point orc ar w = (ar', w') \<Longrightarrow> same_task ar ar' \<and> ar_respawn_count ar' = ar_respawn_count ar"
  by (auto simp: fork_point_def same_task_def split: prod.splits sum.splits if_splits)

lemma land_keeps:
  assumes "land orc ws ar w = (ok, ar', w')"
  shows "same_task ar ar' \<and> ar_respawn_count ar' = ar_respawn_count ar
    \<and> ar_status ar' = (if ok then ATSuccess else ATFailed)"
  using assms
  by (auto simp: land_def fail_at_def same_task_def Let_def split: prod.splits sum.splits option.splits)

lemma verify_and_land_keeps:
  assumes "verify_and_land orc ws ar w = (ok, ar', w')"
  shows "same_task ar ar' \<and> ar_respawn_count ar' = ar_respawn_count ar
    \<and> ar_status ar' = (if ok then ATSuccess else ATFailed)"
  using assms
  by (auto simp: verify_and_land_def fail_at_def same_task_def split: prod.splits sum.splits if_splits
      dest!: land_keeps)

text \<open>One entry into the loop counts once, and only below the cap.\<close>

lemma run_worker_loop_keeps:
  assumes "run_worker_loop orc ar dir inputs w = (res, ar', w')"
  shows "same_task ar ar'
    \<and> (ar_respawn_count ar' = ar_respawn_count ar
       \<or> (ar_respawn_count ar' = ar_respawn_count ar + 1
          \<and> (0 < o_respawn_cap orc \<longrightarrow> ar_respawn_count ar < o_respawn_cap orc)))"
proof -
  have "same_task ar (ar\<lparr>ar_respawn_count := ar_respawn_count ar + 1\<rparr>)" by (simp add: same_task_def)
  with assms show ?thesis
    unfolding run_worker_loop_def Let_def
    by (auto split: option.splits if_splits prod.splits dest!: worker_loop_keeps intro: same_task_trans)
qed

definition counted :: "'w orch \<Rightarrow> at_record \<Rightarrow> at_record \<Rightarrow> bool" where
  "counted orc r r' \<longleftrightarrow> ar_respawn_count r' = ar_respawn_count r
     \<or> (ar_respawn_count r' = ar_respawn_count r + 1
        \<and> (0 < o_respawn_cap orc \<longrightarrow> ar_respawn_count r < o_respawn_cap orc))"

lemma work_in_keeps:
  assumes "work_in orc ws inputs ar w = (ok, ar', w')"
  shows "same_task ar ar' \<and> counted orc ar ar' \<and> ar_status ar' = (if ok then ATSuccess else ATFailed)"
proof -
  obtain e ar1 w1 where seed: "seed_oracles ws (ar\<lparr>ar_worktree := ws_dir ws\<rparr>) w = (e, ar1, w1)"
    by (metis prod_cases3)
  have k1: "same_task ar ar1 \<and> ar_respawn_count ar1 = ar_respawn_count ar"
    using seed_oracles_keeps [OF seed] by (simp add: same_task_def)
  obtain status diag iters flags ar2 w2 where
    loop: "run_worker_loop orc ar1 (ws_dir ws) inputs w1 = ((status, diag, iters, flags), ar2, w2)"
    by (metis prod_cases3 prod_cases4)
  note k2 = run_worker_loop_keeps [OF loop]
  let ?ar3 = "ar2\<lparr>ar_iterations := iters, ar_worker_status := status, ar_diagnostic := diag, ar_flags := flags\<rparr>"
  have k3: "same_task ar ?ar3 \<and> counted orc ar ?ar3"
    using k1 k2 by (auto simp: same_task_def counted_def)
  show ?thesis
  proof (cases e)
    case (Some x)
    with assms seed k1 show ?thesis
      by (auto simp: work_in_def fail_at_def same_task_def counted_def)
  next
    case None
    show ?thesis
    proof (cases "status = WorkerSuccess")
      case True
      with assms seed None loop have "verify_and_land orc ws ?ar3 w2 = (ok, ar', w')"
        by (simp add: work_in_def Let_def)
      from verify_and_land_keeps [OF this] k3 show ?thesis
        by (auto simp: same_task_def counted_def)
    next
      case False
      with assms seed None loop k3 show ?thesis
        by (auto simp: work_in_def Let_def same_task_def counted_def)
    qed
  qed
qed

lemma run_body_keeps:
  assumes "run_body orc s ar w = (ok, ar', w')"
  shows "same_task ar ar' \<and> counted orc ar ar' \<and> ar_status ar' = (if ok then ATSuccess else ATFailed)"
proof (cases "resolve_inputs s (ar_spec ar)")
  case (Inl e)
  with assms show ?thesis by (auto simp: run_body_def fail_at_def same_task_def counted_def)
next
  case (Inr inputs)
  obtain ar1 w1 where fork: "fork_point orc ar w = (ar1, w1)" by fastforce
  note k1 = fork_point_keeps [OF fork]
  obtain r w2 where opn: "open_ws (o_repo orc) (ar_parent_sha ar1) ar1 w1 = (r, w2)" by fastforce
  show ?thesis
  proof (cases r)
    case (Inl e)
    with assms Inr fork opn k1 show ?thesis
      by (auto simp: run_body_def fail_at_def same_task_def counted_def)
  next
    case (Inr ws)
    with assms fork opn \<open>resolve_inputs s (ar_spec ar) = Inr inputs\<close>
    have "work_in orc ws inputs ar1 w2 = (ok, ar', w')" by (simp add: run_body_def)
    from work_in_keeps [OF this] k1 show ?thesis by (auto simp: same_task_def counted_def)
  qed
qed

text \<open>A run of one task changes one record and writes its two transitions to the log.\<close>

lemma run_one_effect:
  assumes "run_one orc s i lg w = (ok, s', lg', w')"
  obtains ar where "s' = set_at i ar s"
    "lg' = emit_at ar (emit_at ((rs_ats s ! i)\<lparr>ar_status := ATRunning\<rparr>) lg)"
    "same_task (rs_ats s ! i) ar" "counted orc (rs_ats s ! i) ar"
    "ar_status ar = (if ok then ATSuccess else ATFailed)"
proof -
  let ?r = "(rs_ats s ! i)\<lparr>ar_status := ATRunning\<rparr>"
  obtain ar where body: "run_body orc (set_at i ?r s) ?r w = (ok, ar, w')"
    and s': "s' = set_at i ar (set_at i ?r s)" and lg': "lg' = emit_at ar (emit_at ?r lg)"
    using assms by (auto simp: run_one_def Let_def split: prod.splits)
  have "set_at i ar (set_at i ?r s) = set_at i ar s" by (simp add: set_at_def)
  with run_body_keeps [OF body] s' lg' show ?thesis
    by (intro that [of ar]) (auto simp: same_task_def counted_def)
qed

subsection \<open>The shape of the task list\<close>

text \<open>The identity of a record: its slug, its parent and its branch index. An original has no parent
  and index 0; the branches of a target stand directly before it.\<close>

type_synonym task_id = "string \<times> string \<times> int"

definition task_id :: "at_record \<Rightarrow> task_id" where
  "task_id r = (ar_slug r, ar_parent_slug r, ar_branch_index r)"

abbreviation ids :: "run_state \<Rightarrow> task_id list" where
  "ids s \<equiv> map task_id (rs_ats s)"

fun adjacent :: "task_id list \<Rightarrow> bool" where
  "adjacent [] = True"
| "adjacent [x] = (fst (snd x) = [])"
| "adjacent (x # y # zs) =
     ((fst (snd x) = [] \<or> fst y = fst (snd x) \<or> fst (snd y) = fst (snd x)) \<and> adjacent (y # zs))"

definition branch_count :: "string \<Rightarrow> task_id list \<Rightarrow> int" where
  "branch_count p xs = int (length (filter (\<lambda>x. fst (snd x) = p) xs))"

definition id_ok :: "string set \<Rightarrow> task_id list \<Rightarrow> task_id \<Rightarrow> bool" where
  "id_ok origs xs x \<longleftrightarrow> (case x of (slug, parent, b) \<Rightarrow>
     (b = 0 \<and> parent = [] \<and> slug \<in> origs)
     \<or> (1 \<le> b \<and> b \<le> branch_count parent xs \<and> parent \<in> origs \<and> slug = branch_slug parent b))"

definition shape :: "string set \<Rightarrow> task_id list \<Rightarrow> bool" where
  "shape origs xs \<longleftrightarrow> distinct (map fst xs) \<and> adjacent xs \<and> (\<forall>x \<in> set xs. id_ok origs xs x)"

text \<open>No original slug is empty or looks like a branch of another original.\<close>

definition clash_free :: "string set \<Rightarrow> bool" where
  "clash_free origs \<longleftrightarrow> [] \<notin> origs \<and> (\<forall>t \<in> origs. \<forall>n \<ge> 1. branch_slug t n \<notin> origs)"

lemma branch_count_nonneg [simp]: "0 \<le> branch_count p xs"
  by (simp add: branch_count_def)

lemma branch_slug_inj:
  assumes "branch_slug t n = branch_slug t' m" "0 \<le> n" "0 \<le> m"
  shows "t = t' \<and> n = m"
proof -
  have "(t @ ''-fi'') @ CHR ''x'' # itoa n = (t' @ ''-fi'') @ CHR ''x'' # itoa m"
    using assms(1) by (simp add: branch_slug_def)
  from numbered_suffix_inj [OF this _ assms(2,3)] show ?thesis by (simp add: digit_def)
qed

lemma shape_original:
  assumes "shape origs xs" "t < length xs" "xs ! t = (target, p, 0)"
  shows "target \<in> origs \<and> p = []"
  using assms nth_mem [OF assms(2)] by (auto simp: shape_def id_ok_def)

lemma shape_fresh:
  assumes "shape origs xs" "clash_free origs" "target \<in> origs"
  shows "branch_slug target (branch_count target xs + 1) \<notin> set (map fst xs)"
proof
  let ?n = "branch_count target xs + 1"
  assume "branch_slug target ?n \<in> set (map fst xs)"
  then obtain p b where x: "(branch_slug target ?n, p, b) \<in> set xs" by auto
  then have "id_ok origs xs (branch_slug target ?n, p, b)" using assms(1) by (auto simp: shape_def)
  moreover have n: "1 \<le> ?n" by (simp add: branch_count_def)
  moreover have "branch_slug target ?n \<notin> origs"
    using assms(2,3) n by (auto simp: clash_free_def)
  ultimately have "branch_slug target ?n = branch_slug p b" "1 \<le> b" "b \<le> branch_count p xs"
    by (auto simp: id_ok_def)
  with branch_slug_inj [of target ?n p b] n show False by auto
qed

lemma adjacent_insert:
  assumes "adjacent xs" "t < length xs" "fst (xs ! t) = target" "fst (snd (xs ! t)) = []"
  shows "adjacent (insert_at t (slug, target, n) xs)"
  using assms
proof (induction xs arbitrary: t rule: adjacent.induct)
  case 1
  then show ?case by simp
next
  case (2 x)
  then show ?case by (simp add: insert_at_def)
next
  case (3 x y zs)
  show ?case
  proof (cases t)
    case 0
    with 3 show ?thesis by (simp add: insert_at_def)
  next
    case (Suc k)
    then have "adjacent (insert_at k (slug, target, n) (y # zs))"
      using 3 by simp
    moreover have "insert_at t (slug, target, n) (x # y # zs) = x # insert_at k (slug, target, n) (y # zs)"
      using Suc by (simp add: insert_at_def)
    ultimately show ?thesis
      using 3 Suc by (cases k) (auto simp: insert_at_def)
  qed
qed

lemma branch_count_insert:
  "branch_count p (insert_at t x xs) = branch_count p xs + (if fst (snd x) = p then 1 else 0)"
proof -
  have "branch_count p (insert_at t x xs) = branch_count p (take t xs @ drop t xs) + (if fst (snd x) = p then 1 else 0)"
    unfolding insert_at_def branch_count_def filter_append by simp
  then show ?thesis by simp
qed

lemma shape_insert:
  assumes shape: "shape origs xs" and free: "clash_free origs" and t: "t < length xs"
    and target: "xs ! t = (target, p, 0)" and n: "n = branch_count target xs + 1"
  shows "shape origs (insert_at t (branch_slug target n, target, n) xs)"
proof -
  let ?x = "(branch_slug target n, target, n)"
  have orig: "target \<in> origs" "p = []" using shape_original [OF shape t target] by auto
  have "distinct (map fst (insert_at t ?x xs))"
    using shape shape_fresh [OF shape free orig(1)] n by (simp add: map_insert_at shape_def)
  moreover have "adjacent (insert_at t ?x xs)"
    using shape t target orig(2) by (intro adjacent_insert) (auto simp: shape_def)
  moreover have "id_ok origs (insert_at t ?x xs) ?x"
    using orig(1) n by (simp add: id_ok_def branch_count_insert)
  moreover have "id_ok origs (insert_at t ?x xs) y" if "y \<in> set xs" for y
  proof -
    obtain slug q b where y: "y = (slug, q, b)" by (cases y) auto
    have "id_ok origs xs (slug, q, b)" using shape that y by (auto simp: shape_def)
    then show ?thesis unfolding y id_ok_def by (auto simp: branch_count_insert)
  qed
  ultimately show ?thesis by (simp add: shape_def)
qed

text \<open>From a branch of a target every record up to the target is a branch of that target.\<close>

lemma adjacent_run:
  assumes "adjacent xs" "i < length xs" "fst (snd (xs ! i)) = target" "target \<noteq> []"
  shows "\<exists>j. i < j \<and> j < length xs \<and> fst (xs ! j) = target
    \<and> (\<forall>k. i \<le> k \<and> k < j \<longrightarrow> fst (snd (xs ! k)) = target)"
  using assms
proof (induction xs arbitrary: i rule: adjacent.induct)
  case 1
  then show ?case by simp
next
  case (2 x)
  then show ?case by simp
next
  case (3 x y zs)
  have shift: "\<exists>j. i < j \<and> j < length (x # y # zs) \<and> fst ((x # y # zs) ! j) = target
      \<and> (\<forall>k. i \<le> k \<and> k < j \<longrightarrow> fst (snd ((x # y # zs) ! k)) = target)"
    if i': "i' < length (y # zs)" "fst (snd ((y # zs) ! i')) = target"
      and le: "i \<le> Suc i'" "\<forall>k. i \<le> k \<and> k < Suc i' \<longrightarrow> fst (snd ((x # y # zs) ! k)) = target" for i'
  proof -
    obtain j where j: "i' < j" "j < length (y # zs)" "fst ((y # zs) ! j) = target"
      "\<forall>k. i' \<le> k \<and> k < j \<longrightarrow> fst (snd ((y # zs) ! k)) = target"
      using "3.IH" [of i'] "3.prems" i' by auto
    have "fst (snd ((x # y # zs) ! k)) = target" if "i \<le> k" "k < Suc j" for k
    proof (cases "k < Suc i'")
      case True
      with that le(2) show ?thesis by blast
    next
      case False
      then obtain m where "k = Suc m" "i' \<le> m" by (cases k) auto
      with that j(4) show ?thesis by simp
    qed
    with j le show ?thesis by (intro exI [of _ "Suc j"]) auto
  qed
  show ?case
  proof (cases i)
    case 0
    show ?thesis
    proof (cases "fst y = target")
      case True
      with 0 "3.prems" show ?thesis by (intro exI [of _ 1]) auto
    next
      case False
      with 0 "3.prems" have "fst (snd y) = target" by auto
      with 0 "3.prems" show ?thesis by (intro shift [of 0]) auto
    qed
  next
    case (Suc k)
    with "3.prems" show ?thesis by (intro shift [of k]) auto
  qed
qed

subsection \<open>The invariant of the run state\<close>

definition record_ok :: "'w orch \<Rightarrow> at_record \<Rightarrow> bool" where
  "record_ok orc r \<longleftrightarrow> 0 \<le> ar_respawn_count r
     \<and> (0 < o_respawn_cap orc \<longrightarrow> ar_respawn_count r \<le> o_respawn_cap orc)"

definition base_inv :: "'w orch \<Rightarrow> string set \<Rightarrow> run_state \<Rightarrow> bool" where
  "base_inv orc origs s \<longleftrightarrow> shape origs (ids s) \<and> numbered (rs_ats s)
     \<and> 0 \<le> rs_position s \<and> rs_position s \<le> int (length (rs_ats s))
     \<and> (\<forall>i. int i < rs_position s \<longrightarrow> is_resolved (rs_ats s ! i))
     \<and> (\<forall>r \<in> set (rs_ats s). record_ok orc r)"

definition status_ok :: "run_state \<Rightarrow> bool" where
  "status_ok s \<longleftrightarrow>
     (rs_status s = ChainSuccess \<longrightarrow> rs_position s = int (length (rs_ats s)))
     \<and> (rs_status s = ChainFailed \<longrightarrow> (\<exists>i. current s = Some i \<and> ar_status (rs_ats s ! i) = ATFailed
          \<and> rs_failed s = ar_slug (rs_ats s ! i)))"

text \<open>During an operation the log is synced; between operations it projects to the state.\<close>

definition live :: "'w orch \<Rightarrow> string set \<Rightarrow> run_state \<Rightarrow> event list \<Rightarrow> bool" where
  "live orc origs s lg \<longleftrightarrow> base_inv orc origs s \<and> synced lg s"

definition settled :: "'w orch \<Rightarrow> string set \<Rightarrow> run_state \<Rightarrow> event list \<Rightarrow> bool" where
  "settled orc origs s lg \<longleftrightarrow> base_inv orc origs s \<and> status_ok s \<and> fold_log lg = s"

lemma settled_live: "settled orc origs s lg \<Longrightarrow> live orc origs s lg"
  by (auto simp: settled_def live_def)

lemma base_inv_status [simp]:
  "base_inv orc origs (s\<lparr>rs_status := st\<rparr>) = base_inv orc origs s"
  "base_inv orc origs (s\<lparr>rs_failed := f\<rparr>) = base_inv orc origs s"
  by (simp_all add: base_inv_def)

lemma live_status [simp]:
  "live orc origs (s\<lparr>rs_status := st\<rparr>) lg = live orc origs s lg"
  "live orc origs (s\<lparr>rs_failed := f\<rparr>) lg = live orc origs s lg"
  by (simp_all add: live_def synced_chain_fields)

lemma live_pending [simp]: "live orc origs (pending s) lg = live orc origs s lg"
  by (simp add: pending_def)

lemma live_distinct: "live orc origs s lg \<Longrightarrow> distinct (map ar_slug (rs_ats s))"
  by (simp add: live_def base_inv_def shape_def task_id_def comp_def)

lemma record_ok_reset: "record_ok orc r \<Longrightarrow> record_ok orc (reset_at r)"
  by (simp add: record_ok_def reset_at_def)

lemma record_ok_counted: "record_ok orc r \<Longrightarrow> counted orc r r' \<Longrightarrow> record_ok orc r'"
  by (auto simp: record_ok_def counted_def)

lemma live_record_ok: "live orc origs s lg \<Longrightarrow> i < length (rs_ats s) \<Longrightarrow> record_ok orc (rs_ats s ! i)"
  by (simp add: live_def base_inv_def)

lemma live_set_at:
  assumes live: "live orc origs s lg" and i: "i < length (rs_ats s)" and same: "same_task (rs_ats s ! i) r"
    and ok: "record_ok orc r" and res: "int i < rs_position s \<longrightarrow> is_resolved r"
  shows "live orc origs (set_at i r s) (emit_at r lg)"
proof -
  have "task_id r = task_id (rs_ats s ! i)" using same by (simp add: task_id_def same_task_def)
  then have ids: "ids (set_at i r s) = ids s"
    using i by (simp add: set_at_def map_update) (metis list_update_id nth_map)
  have "numbered (rs_ats (set_at i r s))"
    using live i same by (auto simp: live_def base_inv_def numbered_def set_at_def same_task_def nth_list_update)
  moreover have "\<forall>k. int k < rs_position (set_at i r s) \<longrightarrow> is_resolved (rs_ats (set_at i r s) ! k)"
    using live i res by (auto simp: live_def base_inv_def set_at_def nth_list_update)
  moreover have "\<forall>x \<in> set (rs_ats (set_at i r s)). record_ok orc x"
    using live ok set_update_subset_insert [of "rs_ats s" i r]
    by (auto simp: live_def base_inv_def set_at_def)
  ultimately have "base_inv orc origs (set_at i r s)"
    using live ids by (simp add: live_def base_inv_def) (simp add: set_at_def)
  moreover have "synced (emit_at r lg) (set_at i r s)"
    unfolding emit_at_def using live live_distinct [OF live] i same
    by (intro synced_at) (auto simp: live_def same_task_def)
  ultimately show ?thesis by (simp add: live_def)
qed

lemma live_advance:
  assumes "live orc origs s lg" "rs_position s < int (length (rs_ats s))"
    "is_resolved (rs_ats s ! nat (rs_position s))"
  shows "live orc origs (s\<lparr>rs_position := rs_position s + 1\<rparr>) lg"
proof -
  have "is_resolved (rs_ats s ! i)" if "int i < rs_position s + 1" for i
  proof (cases "int i = rs_position s")
    case True
    then have "i = nat (rs_position s)" by simp
    with assms show ?thesis by simp
  next
    case False
    with assms that show ?thesis by (auto simp: live_def base_inv_def)
  qed
  with assms show ?thesis by (auto simp: live_def base_inv_def synced_chain_fields)
qed

lemma live_settled:
  "live orc origs s lg \<Longrightarrow> status_ok s \<Longrightarrow> settled orc origs s (emit_chain s lg)"
  by (simp add: live_def settled_def emit_chain_def synced_chain)

lemma set_at_fields [simp]:
  "rs_position (set_at i r s) = rs_position s" "rs_status (set_at i r s) = rs_status s"
  "length (rs_ats (set_at i r s)) = length (rs_ats s)" "rs_failed (set_at i r s) = rs_failed s"
  "i < length (rs_ats s) \<Longrightarrow> rs_ats (set_at i r s) ! i = r"
  by (simp_all add: set_at_def)

lemma current_Some: "current s = Some i \<longleftrightarrow> i < length (rs_ats s) \<and> int i = rs_position s"
  by (auto simp: current_def)

subsection \<open>Running\<close>

lemma run_one_live:
  assumes live: "live orc origs s lg" and i: "i < length (rs_ats s)" "int i = rs_position s"
    and run: "run_one orc s i lg w = (ok, s', lg', w')"
  shows "live orc origs s' lg' \<and> rs_position s' = rs_position s \<and> length (rs_ats s') = length (rs_ats s)
    \<and> ar_slug (rs_ats s' ! i) = ar_slug (rs_ats s ! i)
    \<and> ar_status (rs_ats s' ! i) = (if ok then ATSuccess else ATFailed)"
proof -
  let ?r = "(rs_ats s ! i)\<lparr>ar_status := ATRunning\<rparr>"
  obtain ar where ar: "s' = set_at i ar s" "lg' = emit_at ar (emit_at ?r lg)" "same_task (rs_ats s ! i) ar"
    "counted orc (rs_ats s ! i) ar" "ar_status ar = (if ok then ATSuccess else ATFailed)"
    using run_one_effect [OF run] by blast
  have ok: "record_ok orc (rs_ats s ! i)" using live i(1) by (rule live_record_ok)
  have l1: "live orc origs (set_at i ?r s) (emit_at ?r lg)"
    using ok i by (intro live_set_at [OF live]) (auto simp: same_task_def record_ok_def)
  then have "live orc origs (set_at i ar (set_at i ?r s)) (emit_at ar (emit_at ?r lg))"
    using i ar record_ok_counted [OF ok ar(4)] by (intro live_set_at [OF l1]) (auto simp: same_task_def)
  moreover have "set_at i ar (set_at i ?r s) = set_at i ar s" by (simp add: set_at_def)
  ultimately show ?thesis using ar i by (simp add: same_task_def)
qed

lemma run_loop_settled:
  assumes "live orc origs s lg" "run_loop orc s lg w = (s', lg', w')"
  shows "settled orc origs s' lg'"
  using assms
proof (induction orc s lg w rule: run_loop.induct)
  case (1 orc s lg w)
  note live = "1.prems"(1) and run = "1.prems"(2)
  show ?case
  proof (cases "int (length (rs_ats s)) \<le> rs_position s")
    case True
    let ?s = "s\<lparr>rs_status := ChainSuccess\<rparr>"
    have "status_ok ?s" using True live by (simp add: status_ok_def live_def base_inv_def)
    with live_settled [of orc origs ?s lg] live True run show ?thesis
      by (subst (asm) run_loop.simps) (auto simp: Let_def)
  next
    case False
    obtain paused w1 where pause: "pause_check orc s w = (paused, w1)" by fastforce
    let ?i = "nat (rs_position s)"
    have i: "?i < length (rs_ats s)" "int ?i = rs_position s"
      using False live by (auto simp: live_def base_inv_def)
    consider "paused" | "\<not> paused" "is_resolved (rs_ats s ! ?i)" | "\<not> paused" "\<not> is_resolved (rs_ats s ! ?i)"
      by blast
    then show ?thesis
    proof cases
      case 1
      let ?s = "s\<lparr>rs_status := ChainPaused\<rparr>"
      have "status_ok ?s" by (simp add: status_ok_def)
      with live_settled [of orc origs ?s lg] live 1 False pause run show ?thesis
        by (subst (asm) run_loop.simps) (auto simp: Let_def)
    next
      case 2
      have "run_loop orc (s\<lparr>rs_position := rs_position s + 1\<rparr>) lg w1 = (s', lg', w')"
        using run False pause 2 by (subst (asm) run_loop.simps) (auto simp: Let_def)
      with "1.IH"(1) [OF False pause [symmetric]] 2 live_advance [OF live] False show ?thesis
        by auto
    next
      case 3
      obtain ok s1 lg1 w2 where one: "run_one orc s ?i lg w1 = (ok, s1, lg1, w2)" by (metis prod_cases4)
      note eff = run_one_live [OF live i one]
      show ?thesis
      proof (cases ok)
        case True
        have "run_loop orc (s1\<lparr>rs_position := rs_position s1 + 1\<rparr>) lg1 w2 = (s', lg', w')"
          using run False pause 3 one True by (subst (asm) run_loop.simps) (auto simp: Let_def)
        moreover have "live orc origs (s1\<lparr>rs_position := rs_position s1 + 1\<rparr>) lg1"
          using eff True i False by (intro live_advance) (auto simp: is_resolved_def)
        ultimately show ?thesis
          using "1.IH"(2) [OF False pause [symmetric]] 3 one True by auto
      next
        case not_ok: False
        let ?s = "s1\<lparr>rs_status := ChainFailed, rs_failed := ar_slug (rs_ats s ! ?i)\<rparr>"
        have "current ?s = Some ?i" using eff i by (simp add: current_Some)
        then have "status_ok ?s" using eff not_ok by (simp add: status_ok_def)
        moreover have "s' = ?s \<and> lg' = emit_chain ?s lg1"
          using run False pause 3 one not_ok by (subst (asm) run_loop.simps) (auto simp: Let_def)
        ultimately show ?thesis using live_settled [of orc origs ?s lg1] eff by simp
      qed
    qed
  qed
qed

subsection \<open>Staging\<close>

lemma status_ok_pending [simp]: "status_ok (pending s)"
  by (simp add: status_ok_def pending_def)

lemma settled_pending: "live orc origs s lg \<Longrightarrow> settled orc origs (pending s) (emit_chain (pending s) lg)"
  by (simp add: live_settled)

lemma retry_settled:
  assumes "settled orc origs s lg" "retry s lg = Inr (s', lg')"
  shows "settled orc origs s' lg'"
proof -
  obtain i where i: "current s = Some i" "s' = pending (set_at i (reset_at (rs_ats s ! i)) s)"
    "lg' = emit_chain s' (emit_at (reset_at (rs_ats s ! i)) lg)"
    using assms(2) by (auto simp: retry_def Let_def split: if_splits option.splits)
  note live = settled_live [OF assms(1)]
  have "live orc origs (set_at i (reset_at (rs_ats s ! i)) s) (emit_at (reset_at (rs_ats s ! i)) lg)"
    using i(1) live_record_ok [OF live, of i]
    by (intro live_set_at [OF live]) (auto simp: current_Some record_ok_reset)
  with settled_pending i show ?thesis by blast
qed

lemma skip_settled:
  assumes "settled orc origs s lg" "skip s lg = Inr (s', lg')"
  shows "settled orc origs s' lg'"
proof -
  obtain i where i: "current s = Some i"
    "s' = pending ((set_at i ((rs_ats s ! i)\<lparr>ar_status := ATSkipped\<rparr>) s)\<lparr>rs_position := rs_position s + 1\<rparr>)"
    "lg' = emit_chain s' (emit_at ((rs_ats s ! i)\<lparr>ar_status := ATSkipped\<rparr>) lg)"
    using assms(2) by (auto simp: skip_def Let_def split: if_splits option.splits)
  note live = settled_live [OF assms(1)]
  let ?r = "(rs_ats s ! i)\<lparr>ar_status := ATSkipped\<rparr>"
  have "live orc origs (set_at i ?r s) (emit_at ?r lg)"
    using i(1) live_record_ok [OF live, of i]
    by (intro live_set_at [OF live]) (auto simp: current_Some same_task_def record_ok_def)
  moreover have "nat (rs_position s) = i" using i(1) by (auto simp: current_Some)
  ultimately have "live orc origs ((set_at i ?r s)\<lparr>rs_position := rs_position s + 1\<rparr>) (emit_at ?r lg)"
    using live_advance [of orc origs "set_at i ?r s"] i(1) by (auto simp: current_Some is_resolved_def)
  with settled_pending i show ?thesis by blast
qed

lemma abort_settled:
  assumes "settled orc origs s lg" "abort s lg = (s', lg')"
  shows "settled orc origs s' lg'"
proof -
  have "settled orc origs (s\<lparr>rs_status := ChainAborted\<rparr>) (emit_chain (s\<lparr>rs_status := ChainAborted\<rparr>) lg)"
    using settled_live [OF assms(1)] by (intro live_settled) (auto simp: status_ok_def)
  with assms(2) show ?thesis by (auto simp: abort_def Let_def)
qed

lemma edit_settled:
  assumes "settled orc origs s lg" "intervene_edit s e lg = Inr (s', lg')"
  shows "settled orc origs s' lg'"
proof -
  obtain i spec where i: "current s = Some i" "s' = pending (set_at i (reset_at ((rs_ats s ! i)\<lparr>ar_spec := spec\<rparr>)) s)"
    "lg' = emit_chain s' (emit_at (reset_at ((rs_ats s ! i)\<lparr>ar_spec := spec\<rparr>)) lg)"
    using assms(2) by (auto simp: intervene_edit_def Let_def split: if_splits option.splits)
  note live = settled_live [OF assms(1)]
  let ?r = "reset_at ((rs_ats s ! i)\<lparr>ar_spec := spec\<rparr>)"
  have "live orc origs (set_at i ?r s) (emit_at ?r lg)"
    using i(1) live_record_ok [OF live, of i]
    by (intro live_set_at [OF live]) (auto simp: current_Some same_task_def record_ok_def reset_at_def)
  with settled_pending i show ?thesis by blast
qed

lemma force_advance_settled:
  assumes "settled orc origs s lg" "intervene_force_advance orc s sha just lg w = (Inr (s', lg'), w')"
  shows "settled orc origs s' lg'"
proof -
  obtain i where i: "current s = Some i"
    using assms(2) by (auto simp: intervene_force_advance_def split: if_splits option.splits)
  let ?r = "(rs_ats s ! i)\<lparr>ar_commit_sha := sha, ar_status := ATSuccess, ar_worker_status := WorkerForceAdvance,
    ar_diagnostic := ''force_advance: '' @ just, ar_worktree := []\<rparr>"
  let ?s1 = "(set_at i ?r s)\<lparr>rs_position := rs_position s + 1\<rparr>"
  note live = settled_live [OF assms(1)]
  have "live orc origs (set_at i ?r s) (emit_at ?r lg)"
    using i live_record_ok [OF live, of i]
    by (intro live_set_at [OF live]) (auto simp: current_Some same_task_def record_ok_def)
  moreover have "nat (rs_position s) = i" using i by (auto simp: current_Some)
  ultimately have l1: "live orc origs ?s1 (emit_at ?r lg)"
    using live_advance [of orc origs "set_at i ?r s"] i by (auto simp: current_Some is_resolved_def)
  show ?thesis
  proof (cases "current ?s1")
    case None
    with assms(2) i have "s' = pending ?s1" "lg' = emit_chain (pending ?s1) (emit_at ?r lg)"
      by (auto simp: intervene_force_advance_def Let_def split: if_splits option.splits prod.splits)
    with settled_pending [OF l1] show ?thesis by simp
  next
    case (Some j)
    let ?n = "reset_at (rs_ats ?s1 ! j)"
    have "live orc origs (set_at j ?n ?s1) (emit_at ?n (emit_at ?r lg))"
      using Some live_record_ok [OF l1, of j]
      by (intro live_set_at [OF l1]) (auto simp: current_Some record_ok_reset)
    moreover from assms(2) i Some
    have "s' = pending (set_at j ?n ?s1)" "lg' = emit_chain (pending (set_at j ?n ?s1)) (emit_at ?n (emit_at ?r lg))"
      by (auto simp: intervene_force_advance_def Let_def split: if_splits option.splits prod.splits)
    ultimately show ?thesis using settled_pending by blast
  qed
qed

subsection \<open>Branches\<close>

definition superseded_at :: "nat \<Rightarrow> string \<Rightarrow> nat option \<Rightarrow> at_record list \<Rightarrow> nat \<Rightarrow> at_record" where
  "superseded_at t target f ats i =
     (let r = (if f = Some i \<and> i \<noteq> t \<and> ar_commit_sha (ats ! t) \<noteq> []
               then (reset_at (ats ! i))\<lparr>ar_parent_sha := []\<rparr> else ats ! i)
      in if i = t \<or> ar_parent_slug r = target then r\<lparr>ar_commit_sha := [], ar_status := ATSkipped\<rparr> else r)"

lemma supersede_nth:
  "i < length ats \<Longrightarrow> supersede t target (reset_downstream t f ats) ! i = superseded_at t target f ats i"
  by (auto simp: supersede_def reset_downstream_def superseded_at_def nth_enumerate_eq nth_list_update
      Let_def split: option.splits)

lemma length_supersede [simp]: "length (supersede t target (reset_downstream t f ats)) = length ats"
  by (auto simp: supersede_def reset_downstream_def split: option.splits)

lemma superseded_same: "same_task (ats ! i) (superseded_at t target f ats i)"
  by (auto simp: superseded_at_def same_task_def reset_at_def Let_def)

lemma superseded_record_ok: "record_ok orc (ats ! i) \<Longrightarrow> record_ok orc (superseded_at t target f ats i)"
  by (auto simp: superseded_at_def record_ok_def reset_at_def Let_def)

lemma superseded_changed:
  "superseded_at t target f ats i \<noteq> ats ! i \<Longrightarrow>
     i = t \<or> ar_parent_slug (ats ! i) = target \<or> (f = Some i \<and> i \<noteq> t)"
  by (auto simp: superseded_at_def reset_at_def Let_def split: if_splits)

lemma superseded_resolved:
  assumes "f \<noteq> Some i \<and> is_resolved (ats ! i) \<or> ar_parent_slug (ats ! i) = target"
  shows "is_resolved (superseded_at t target f ats i)"
  using assms by (auto simp: superseded_at_def is_resolved_def reset_at_def Let_def)

lemma emit_slugs_synced:
  assumes "synced lg s" "map ar_slug (rs_ats s) = map ar_slug ats" "distinct (map ar_slug ats)"
    "\<forall>k < length ats. rs_ats s ! k = ats ! k \<or> ar_slug (ats ! k) \<in> set slugs"
  shows "synced (emit_slugs ats slugs lg) (s\<lparr>rs_ats := ats\<rparr>)"
  using assms
proof (induction slugs arbitrary: lg s)
  case Nil
  have "length (rs_ats s) = length ats" using Nil.prems(2) map_eq_imp_length_eq by blast
  then have "ats = rs_ats s" using Nil.prems(4) by (intro nth_equalityI) auto
  with Nil.prems(1) show ?case by simp
next
  case (Cons slug slugs)
  have len: "length (rs_ats s) = length ats" using Cons.prems(2) map_eq_imp_length_eq by blast
  show ?case
  proof (cases "find_slug slug ats")
    case None
    then have "\<forall>k < length ats. ar_slug (ats ! k) \<noteq> slug"
      by (simp add: find_slug_def find_index_None)
    with Cons None show ?thesis by auto
  next
    case (Some i)
    then have i: "i < length ats" "ar_slug (ats ! i) = slug" by (auto dest: find_slug_less)
    have same: "ar_slug (ats ! i) = ar_slug (rs_ats s ! i)"
      using Cons.prems(2) i len by (metis nth_map)
    let ?s = "set_at i (ats ! i) s"
    have "synced (lg @ [EvATStatus (ats ! i)]) ?s"
      using Cons.prems i len same by (intro synced_at) auto
    moreover have "map ar_slug (rs_ats ?s) = map ar_slug ats"
      using Cons.prems(2) i len same by (simp add: set_at_def map_update) (metis list_update_id nth_map)
    moreover have "\<forall>k < length ats. rs_ats ?s ! k = ats ! k \<or> ar_slug (ats ! k) \<in> set slugs"
      using Cons.prems(3,4) i len by (auto simp: set_at_def nth_list_update distinct_conv_nth)
    ultimately have "synced (emit_slugs ats slugs (lg @ [EvATStatus (ats ! i)])) (?s\<lparr>rs_ats := ats\<rparr>)"
      using Cons.IH Cons.prems(3) by blast
    moreover have "?s\<lparr>rs_ats := ats\<rparr> = s\<lparr>rs_ats := ats\<rparr>" by (simp add: set_at_def)
    ultimately show ?thesis using Some by (simp add: emit_at_def)
  qed
qed

lemma slug_ids: "map ar_slug xs = map fst (map task_id xs)"
  by (simp add: task_id_def comp_def)

definition branch_ready ::
  "'w orch \<Rightarrow> string set \<Rightarrow> run_state \<Rightarrow> event list \<Rightarrow> nat \<Rightarrow> string \<Rightarrow> at_record \<Rightarrow> bool" where
  "branch_ready orc origs s lg t target branch \<longleftrightarrow>
     live orc origs s lg \<and> clash_free origs \<and> t < length (rs_ats s)
     \<and> task_id (rs_ats s ! t) = (target, [], 0)
     \<and> task_id branch = (branch_slug target (branch_count target (ids s) + 1), target, branch_count target (ids s) + 1)
     \<and> ar_position branch = int t \<and> ar_respawn_count branch = 0
     \<and> (int t = rs_position s \<or> int t = rs_position s - 1
        \<or> (\<exists>i. current s = Some i \<and> ar_parent_slug (rs_ats s ! i) = target))"

definition with_branch :: "run_state \<Rightarrow> nat \<Rightarrow> string \<Rightarrow> at_record \<Rightarrow> at_record list" where
  "with_branch s t target branch =
     renumber (insert_at t branch (supersede t target (reset_downstream t (current s) (rs_ats s))))"

lemma length_with_branch [simp]: "length (with_branch s t target branch) = Suc (length (rs_ats s))"
  by (simp add: with_branch_def)

lemma with_branch_nth:
  assumes "t < length (rs_ats s)" "k \<le> length (rs_ats s)"
  shows "with_branch s t target branch ! k =
    (if k < t then superseded_at t target (current s) (rs_ats s) k else if k = t then branch
     else superseded_at t target (current s) (rs_ats s) (k - 1))\<lparr>ar_position := int k\<rparr>"
  using assms by (auto simp: with_branch_def nth_renumber nth_insert_at supersede_nth)

lemma with_branch_ids:
  assumes "t < length (rs_ats s)"
  shows "map task_id (with_branch s t target branch) = insert_at t (task_id branch) (ids s)"
proof (rule nth_equalityI)
  fix k
  assume "k < length (map task_id (with_branch s t target branch))"
  then have k: "k \<le> length (rs_ats s)" by simp
  have pos: "task_id (r\<lparr>ar_position := p\<rparr>) = task_id r" for r p by (simp add: task_id_def)
  have keep: "task_id (superseded_at t target (current s) (rs_ats s) i) = task_id (rs_ats s ! i)" for i
    using superseded_same [of "rs_ats s" i t target "current s"] by (simp add: task_id_def same_task_def)
  have "task_id (with_branch s t target branch ! k) = insert_at t (task_id branch) (ids s) ! k"
    using k assms by (simp add: with_branch_nth nth_insert_at pos keep)
  then show "map task_id (with_branch s t target branch) ! k = insert_at t (task_id branch) (ids s) ! k"
    using k by simp
qed simp

lemma with_branch_shape:
  assumes "branch_ready orc origs s lg t target branch"
  shows "shape origs (map task_id (with_branch s t target branch))"
proof -
  have "shape origs (insert_at t (branch_slug target (branch_count target (ids s) + 1), target,
      branch_count target (ids s) + 1) (ids s))"
    using assms by (intro shape_insert [where p = "[]"]) (auto simp: branch_ready_def live_def base_inv_def)
  with assms show ?thesis by (simp add: with_branch_ids branch_ready_def)
qed

lemma with_branch_distinct:
  "branch_ready orc origs s lg t target branch \<Longrightarrow> distinct (map ar_slug (with_branch s t target branch))"
  using with_branch_shape unfolding slug_ids shape_def by blast

lemma ready_slug_nonempty:
  assumes "branch_ready orc origs s lg t target branch" "i < length (rs_ats s)"
  shows "ar_slug (rs_ats s ! i) \<noteq> []"
proof -
  have "id_ok origs (ids s) (task_id (rs_ats s ! i))"
    using assms by (auto simp: branch_ready_def live_def base_inv_def shape_def)
  with assms show ?thesis
    by (auto simp: id_ok_def task_id_def clash_free_def branch_slug_def branch_ready_def)
qed

text \<open>From a failing branch of the target up to the target itself there are only branches of it.\<close>

lemma ready_between:
  assumes ready: "branch_ready orc origs s lg t target branch"
    and i: "i < length (rs_ats s)" "ar_parent_slug (rs_ats s ! i) = target" "i \<le> k" "k < t"
  shows "ar_parent_slug (rs_ats s ! k) = target"
proof -
  have t: "t < length (rs_ats s)" "ar_slug (rs_ats s ! t) = target"
    using ready by (auto simp: branch_ready_def task_id_def)
  have "adjacent (ids s)" "target \<noteq> []"
    using ready ready_slug_nonempty [OF ready t(1)] t by (auto simp: branch_ready_def live_def base_inv_def shape_def)
  moreover have "i < length (ids s)" "fst (snd (ids s ! i)) = target" using i by (simp_all add: task_id_def)
  ultimately obtain j where j': "j < length (ids s)" "fst (ids s ! j) = target"
    and j: "\<forall>m. i \<le> m \<and> m < j \<longrightarrow> fst (snd (ids s ! m)) = target"
    using adjacent_run [of "ids s" i target] by blast
  have "distinct (map ar_slug (rs_ats s))" using ready live_distinct by (auto simp: branch_ready_def)
  moreover have "j < length (rs_ats s)" "ar_slug (rs_ats s ! j) = target"
    using j' by (simp_all add: task_id_def)
  ultimately have "j = t" using t by (metis length_map nth_eq_iff_index_eq nth_map)
  with j i have "fst (snd (ids s ! k)) = target" by blast
  with i t show ?thesis by (simp add: task_id_def)
qed

lemma before_resolved:
  assumes ready: "branch_ready orc origs s lg t target branch" and k: "k < t"
  shows "is_resolved (superseded_at t target (current s) (rs_ats s) k)"
proof (cases "int k < rs_position s")
  case True
  with ready have "is_resolved (rs_ats s ! k)" by (simp add: branch_ready_def live_def base_inv_def)
  with True show ?thesis by (intro superseded_resolved) (auto simp: current_Some)
next
  case False
  with ready k obtain i where "current s = Some i" "ar_parent_slug (rs_ats s ! i) = target"
    by (auto simp: branch_ready_def)
  with ready_between [OF ready, of i k] k False show ?thesis
    by (intro superseded_resolved) (auto simp: current_Some)
qed

lemma with_branch_base:
  assumes ready: "branch_ready orc origs s lg t target branch"
  shows "base_inv orc origs (s\<lparr>rs_ats := with_branch s t target branch, rs_position := int t\<rparr>)"
proof -
  have t: "t < length (rs_ats s)" using ready by (simp add: branch_ready_def)
  have "is_resolved (with_branch s t target branch ! k)" if "k < t" for k
    using that t before_resolved [OF ready that] by (simp add: with_branch_nth is_resolved_def)
  moreover have "record_ok orc (superseded_at t target (current s) (rs_ats s) i)" if "i < length (rs_ats s)" for i
    using ready that by (intro superseded_record_ok) (simp add: branch_ready_def live_def base_inv_def)
  then have "record_ok orc (with_branch s t target branch ! k)" if "k \<le> length (rs_ats s)" for k
    using that t ready by (auto simp: with_branch_nth record_ok_def branch_ready_def)
  then have "\<forall>r \<in> set (with_branch s t target branch). record_ok orc r"
    by (auto simp: in_set_conv_nth less_Suc_eq_le)
  moreover have "numbered (with_branch s t target branch)" by (simp add: with_branch_def)
  ultimately show ?thesis using with_branch_shape [OF ready] t by (simp add: base_inv_def)
qed

definition emitted :: "run_state \<Rightarrow> nat \<Rightarrow> string \<Rightarrow> string list" where
  "emitted s t target = target # map ar_slug (branches_of target (rs_ats s)) @
     (case current s of
        None \<Rightarrow> []
      | Some i \<Rightarrow> if int t \<noteq> rs_position s \<and> ar_slug (rs_ats s ! i) \<noteq> [] then [ar_slug (rs_ats s ! i)] else [])"

lemma changed_emitted:
  assumes ready: "branch_ready orc origs s lg t target branch" and i: "i < length (rs_ats s)"
    and changed: "superseded_at t target (current s) (rs_ats s) i \<noteq> rs_ats s ! i"
  shows "ar_slug (rs_ats s ! i) \<in> set (emitted s t target)"
proof -
  consider "i = t" | "ar_parent_slug (rs_ats s ! i) = target" | "current s = Some i" "i \<noteq> t"
    using superseded_changed [OF changed] by blast
  then show ?thesis
  proof cases
    case 1
    with ready show ?thesis by (simp add: branch_ready_def task_id_def emitted_def)
  next
    case 2
    with i have "rs_ats s ! i \<in> set (branches_of target (rs_ats s))" by (simp add: branches_of_def)
    then show ?thesis by (simp add: emitted_def)
  next
    case 3
    then have "int t \<noteq> rs_position s" by (auto simp: current_Some)
    with 3(1) ready_slug_nonempty [OF ready i] show ?thesis by (simp add: emitted_def)
  qed
qed

lemma with_branch_synced:
  assumes ready: "branch_ready orc origs s lg t target branch"
  shows "synced (emit_slugs (with_branch s t target branch) (emitted s t target) (lg @ [EvATInserted branch]))
    (s\<lparr>rs_ats := with_branch s t target branch\<rparr>)"
proof -
  let ?base = "renumber (insert_at t branch (rs_ats s))" and ?new = "with_branch s t target branch"
  have t: "t < length (rs_ats s)" "ar_position branch = int t" "synced lg s"
    using ready by (simp_all add: branch_ready_def live_def)
  have s1: "synced (lg @ [EvATInserted branch]) (s\<lparr>rs_ats := ?base\<rparr>)"
    using synced_insert [OF t(3), of branch] t by simp
  have base_nth: "?base ! k = (if k < t then rs_ats s ! k else if k = t then branch else rs_ats s ! (k - 1))\<lparr>ar_position := int k\<rparr>"
    if "k \<le> length (rs_ats s)" for k using that t by (auto simp: nth_renumber nth_insert_at)
  have slug: "ar_slug (superseded_at t target (current s) (rs_ats s) i) = ar_slug (rs_ats s ! i)" for i
    using superseded_same [of "rs_ats s" i t target "current s"] by (simp add: same_task_def)
  have slugs: "ar_slug (?base ! k) = ar_slug (?new ! k)" if "k \<le> length (rs_ats s)" for k
    using that t slug by (simp add: base_nth with_branch_nth)
  have "map ar_slug ?base = map ar_slug ?new"
    by (rule nth_equalityI) (use slugs in \<open>simp_all del: map_slug_renumber\<close>)
  moreover have "?base ! k = ?new ! k \<or> ar_slug (?new ! k) \<in> set (emitted s t target)"
    if "k < length ?new" for k
  proof -
    have em: "superseded_at t target (current s) (rs_ats s) i = rs_ats s ! i \<or> ar_slug (rs_ats s ! i) \<in> set (emitted s t target)"
      if "i < length (rs_ats s)" for i using changed_emitted [OF ready that] by blast
    consider "k < t" | "k = t" | "t < k" "k - 1 < length (rs_ats s)" using \<open>k < length ?new\<close> by fastforce
    then show ?thesis
    proof cases
      case 1
      with em [of k] t slug [of k] show ?thesis by (auto simp: base_nth with_branch_nth)
    next
      case 2
      with t show ?thesis by (simp add: base_nth with_branch_nth)
    next
      case 3
      with em [OF 3(2)] \<open>k < length ?new\<close> t slug [of "k - 1"] show ?thesis
        by (auto simp: base_nth with_branch_nth)
    qed
  qed
  ultimately show ?thesis
    using emit_slugs_synced [OF s1, of ?new "emitted s t target"] with_branch_distinct [OF ready] by simp
qed

lemma branches_count: "int (length (branches_of target ats)) = branch_count target (map task_id ats)"
  by (simp add: branches_of_def branch_count_def filter_map comp_def task_id_def)

lemma insert_branch_settled:
  assumes ready: "branch_ready orc origs s lg t target branch"
    and ins: "insert_branch s t target (branches_of target (rs_ats s)) branch lg = (s', lg')"
  shows "settled orc origs s' lg'"
proof -
  let ?new = "with_branch s t target branch"
  have t: "t < length (rs_ats s)" "ar_position branch = int t" using ready by (simp_all add: branch_ready_def)
  have new_t: "?new ! t = branch" using t by (simp add: with_branch_nth)
  then have "find_slug (ar_slug branch) ?new = Some t"
    using find_slug_distinct [OF with_branch_distinct [OF ready], of t] t by simp
  then have "s' = pending (s\<lparr>rs_ats := ?new, rs_position := int t\<rparr>)"
    "lg' = emit_chain s' (emit_slugs ?new (emitted s t target) (lg @ [EvATInserted branch]))"
    using ins new_t
    unfolding insert_branch_def Let_def with_branch_def [symmetric] emitted_def [symmetric] by auto
  moreover have "live orc origs (s\<lparr>rs_ats := ?new, rs_position := int t\<rparr>)
      (emit_slugs ?new (emitted s t target) (lg @ [EvATInserted branch]))"
    using with_branch_base [OF ready] with_branch_synced [OF ready]
    by (simp add: live_def synced_chain_fields)
  ultimately show ?thesis using settled_pending by blast
qed

lemma branch_fix_settled:
  assumes st: "settled orc origs s lg" and free: "clash_free origs"
    and run: "intervene_branch_fix orc s target diag maxb lg w = (Inr (s', lg'), w')"
  shows "settled orc origs s' lg'"
proof -
  let ?n = "int (length (branches_of target (rs_ats s))) + 1"
  obtain t spec sha where idx: "original_index s target = Some t"
    and place: "int t = rs_position s \<or> int t = rs_position s - 1
      \<or> (\<exists>i. current s = Some i \<and> ar_parent_slug (rs_ats s ! i) = target)"
    and ins: "insert_branch s t target (branches_of target (rs_ats s))
      ((new_record (branch_slug target ?n) spec (int t))\<lparr>ar_parent_slug := target, ar_branch_index := ?n, ar_parent_sha := sha\<rparr>)
      lg = (s', lg')"
    using run unfolding intervene_branch_fix_def Let_def
    by (auto split: if_splits option.splits prod.splits)
  have t: "t < length (rs_ats s)" "ar_slug (rs_ats s ! t) = target" "ar_branch_index (rs_ats s ! t) = 0"
    using idx by (auto simp: original_index_def find_index_Some)
  moreover have "id_ok origs (ids s) (task_id (rs_ats s ! t))"
    using st t(1) by (auto simp: settled_def base_inv_def shape_def)
  ultimately have "task_id (rs_ats s ! t) = (target, [], 0)" by (auto simp: id_ok_def task_id_def)
  moreover have "task_id ((new_record slug spec p)\<lparr>ar_parent_slug := target, ar_branch_index := b, ar_parent_sha := sha\<rparr>)
      = (slug, target, b)" for slug p b by (simp add: task_id_def new_record_def)
  ultimately show ?thesis
    using t free place settled_live [OF st]
    by (intro insert_branch_settled [OF _ ins]) (simp add: branch_ready_def branches_count, simp add: new_record_def)
qed

subsection \<open>Chains as a transition system\<close>

text \<open>One operation on a chain, in any world: the operation is called with some world and leaves
  some other, so interleaved changes of files and branches are included.\<close>

inductive chain_step :: "'w orch \<Rightarrow> run_state \<times> event list \<Rightarrow> run_state \<times> event list \<Rightarrow> bool"
  for orc :: "'w orch" where
  step_resume: "resume orc s lg w = (s', lg', w') \<Longrightarrow> chain_step orc (s, lg) (s', lg')"
| step_retry: "retry s lg = Inr (s', lg') \<Longrightarrow> chain_step orc (s, lg) (s', lg')"
| step_skip: "skip s lg = Inr (s', lg') \<Longrightarrow> chain_step orc (s, lg) (s', lg')"
| step_abort: "abort s lg = (s', lg') \<Longrightarrow> chain_step orc (s, lg) (s', lg')"
| step_edit: "intervene_edit s e lg = Inr (s', lg') \<Longrightarrow> chain_step orc (s, lg) (s', lg')"
| step_force: "intervene_force_advance orc s sha just lg w = (Inr (s', lg'), w') \<Longrightarrow>
    chain_step orc (s, lg) (s', lg')"
| step_branch: "intervene_branch_fix orc s target diag maxb lg w = (Inr (s', lg'), w') \<Longrightarrow>
    chain_step orc (s, lg) (s', lg')"

inductive_cases chain_stepE: "chain_step orc x y"

lemma resume_settled:
  "settled orc origs s lg \<Longrightarrow> resume orc s lg w = (s', lg', w') \<Longrightarrow> settled orc origs s' lg'"
  unfolding resume_def run_to_completion_def
  by (rule run_loop_settled [of orc origs "s\<lparr>rs_status := ChainRunning\<rparr>"]) (simp_all add: settled_live)

lemma chain_step_settled:
  assumes "chain_step orc x y" "clash_free origs" "settled orc origs (fst x) (snd x)"
  shows "settled orc origs (fst y) (snd y)"
  using assms(1)
proof (cases rule: chain_step.cases)
  case (step_branch s target diag maxb lg w s' lg' w')
  with assms(2,3) show ?thesis by (auto intro: branch_fix_settled)
qed (use assms(3) in \<open>auto intro: resume_settled retry_settled skip_settled abort_settled edit_settled
    force_advance_settled\<close>)

lemma chain_run_settled:
  assumes "(chain_step orc)\<^sup>*\<^sup>* x y" "clash_free origs" "settled orc origs (fst x) (snd x)"
  shows "settled orc origs (fst y) (snd y)"
  using assms by (induction rule: rtranclp_induct) (auto dest: chain_step_settled)

lemma adjacent_originals: "\<forall>x \<in> set xs. fst (snd x) = [] \<Longrightarrow> adjacent xs"
  by (induction xs rule: adjacent.induct) auto

lemma start_settled:
  assumes run: "start orc c run_id [] w = (Inr (Inr (orc', s)), lg, w')"
    and origs: "origs = set (map at_slug (ch_tasks c))"
  shows "settled orc' origs s lg"
proof -
  have valid: "validate c = None" using run by (auto simp: start_def split: option.splits)
  let ?seed = "\<lambda>(i, t). (new_record (at_slug t) t (int i))\<lparr>ar_highest_tier := o_seeded_tier orc\<rparr>"
  obtain rid integ where s: "s = empty_state\<lparr>rs_run_id := rid, rs_chain_slug := ch_slug c, rs_target_repo := ch_target_repo c,
      rs_base_branch := ch_base_branch c, rs_integration := integ, rs_status := ChainPending,
      rs_ats := map ?seed (enumerate 0 (ch_tasks c))\<rparr>"
    and lg: "lg = [EvChainStarted rid (ch_slug c) (ch_target_repo c) (ch_base_branch c) integ (map ?seed (enumerate 0 (ch_tasks c)))]"
    using run valid by (auto simp: start_def Let_def split: prod.splits option.splits)
  have nth: "rs_ats s ! i = (new_record (at_slug (ch_tasks c ! i)) (ch_tasks c ! i) (int i))\<lparr>ar_highest_tier := o_seeded_tier orc\<rparr>"
    if "i < length (ch_tasks c)" for i using that by (simp add: s nth_enumerate_eq)
  have len: "length (rs_ats s) = length (ch_tasks c)" by (simp add: s)
  have ids: "ids s = map (\<lambda>t. (at_slug t, [], 0)) (ch_tasks c)"
    by (rule nth_equalityI) (simp_all add: len nth task_id_def new_record_def)
  have "shape origs (ids s)"
    using validate_None(2) [OF valid] unfolding ids shape_def
    by (auto simp: comp_def id_ok_def origs intro: adjacent_originals)
  moreover have "numbered (rs_ats s)" by (simp add: numbered_def len nth new_record_def)
  moreover have "\<forall>r \<in> set (rs_ats s). record_ok orc' r"
    by (auto simp: in_set_conv_nth len nth record_ok_def new_record_def)
  moreover have "rs_position s = 0" "rs_status s = ChainPending" by (simp_all add: s empty_state_def)
  ultimately have "base_inv orc' origs s \<and> status_ok s" by (simp add: base_inv_def status_ok_def)
  moreover have "fold_log lg = s" by (simp add: lg s fold_log_def)
  ultimately show ?thesis by (simp add: settled_def)
qed

end
