(* ===== verification/Coding_Demo.thy ===== *)
theory Coding_Demo
  imports Coding_Laws
begin

text \<open>
  A concrete coding chain on which the properties are instantiated: deterministic workers over the
  no-git repository, in a world that counts the commands run. The gate of a task is the command
  named like the task; the gate of \<open>a\<close> fails while fewer than three commands have run, the gate of
  \<open>never\<close> always.
\<close>

subsection \<open>A concrete chain\<close>

definition demo_runner :: "nat runner" where
  "demo_runner cmd dir timeout n =
     (\<lparr>cr_command = cmd, cr_exit = (if cmd = [''a''] \<and> n < 3 \<or> cmd = [''never''] then 1 else 0), cr_stdout = ''ok'', cr_stderr = []\<rparr>, Suc n)"

definition demo_seed :: "string \<Rightarrow> (string \<times> string) list \<Rightarrow> nat \<Rightarrow> string option \<times> nat" where
  "demo_seed dir files n = (None, n)"

definition demo_orch :: "nat orch" where
  "demo_orch = \<lparr>o_runner = demo_runner, o_repo = noop_repo demo_seed ''/r'', o_unbound_noop = False,
     o_seed_files = demo_seed, o_gate_timeout = 0, o_model = None, o_verifier = None,
     o_new_run_id = (\<lambda>n. (''id'', n)), o_should_pause = None, o_coverage = None, o_respawn_cap = 2,
     o_seeded_tier = [], o_gofmt = False, o_module_dir = (\<lambda>d w. None), o_dir_exists = (\<lambda>w d. True),
     o_parse_json = (\<lambda>t. Inl ''no json'')\<rparr>"

definition demo_task :: "string \<Rightarrow> atomic_task" where
  "demo_task slug = \<lparr>at_slug = slug, at_goal = ''do it'', at_inputs = [], at_workspace = [],
     at_protected = [], at_allow_test_only = False, at_gate = [[slug]], at_oracles = [],
     at_contract = empty_contract,
     at_worker = \<lparr>wc_kind = WorkerDeterministic, wc_command = [''make''], wc_timeout_seconds = 1,
        wc_system_prompt = [], wc_inline_sibling_docs = False\<rparr>,
     at_conventions = [], at_max_iterations = 0\<rparr>"

definition demo_chain :: "string list \<Rightarrow> chain" where
  "demo_chain slugs = \<lparr>ch_slug = ''c'', ch_target_repo = ''/r'', ch_base_branch = [],
     ch_tasks = map demo_task slugs\<rparr>"

definition demo_state :: "string list \<Rightarrow> run_state" where
  "demo_state slugs = empty_state\<lparr>rs_run_id := ''id'', rs_chain_slug := ''c'', rs_target_repo := ''/r'',
     rs_integration := ''coding/runs/id/integration'',
     rs_ats := map (\<lambda>(i, s). new_record s (demo_task s) (int i)) (enumerate 0 slugs)\<rparr>"

definition demo_log :: "string list \<Rightarrow> event list" where
  "demo_log slugs = [EvChainStarted ''id'' ''c'' ''/r'' [] ''coding/runs/id/integration'' (rs_ats (demo_state slugs))]"

lemma demo_start:
  assumes "validate (demo_chain slugs) = None"
  shows "start demo_orch (demo_chain slugs) [] [] n = (Inr (Inr (demo_orch, demo_state slugs)), demo_log slugs, n)"
proof -
  have seeds: "map (\<lambda>(i, t). (new_record (at_slug t) t (int i))\<lparr>ar_highest_tier := []\<rparr>) (enumerate 0 (ch_tasks (demo_chain slugs)))
      = rs_ats (demo_state slugs)"
    by (rule nth_equalityI)
      (simp_all add: demo_chain_def demo_state_def demo_task_def nth_enumerate_eq new_record_def)
  show ?thesis
    using assms seeds
    by (simp add: start_def demo_orch_def noop_repo_def demo_log_def Let_def)
      (simp add: demo_state_def demo_chain_def empty_state_def)
qed

text \<open>The demonstration run: the gate of \<open>a\<close> fails, the operator retries, the chain goes green.\<close>

definition demo_failed :: "run_state \<times> event list \<times> nat" where
  "demo_failed = resume demo_orch (demo_state [''a'', ''b'']) (demo_log [''a'', ''b'']) 0"

definition demo_retried :: "run_state \<times> event list" where
  "demo_retried = (case retry (fst demo_failed) (fst (snd demo_failed)) of Inl e \<Rightarrow> (empty_state, []) | Inr x \<Rightarrow> x)"

definition demo_done :: "run_state \<times> event list \<times> nat" where
  "demo_done = resume demo_orch (fst demo_retried) (snd demo_retried) 2"

lemma demo_valid: "validate (demo_chain [''a'', ''b'']) = None"
  by code_simp

lemma demo_clash_free: "clash_free (set (map at_slug (ch_tasks (demo_chain [''a'', ''b'']))))"
proof -
  have "branch_slug t n \<noteq> ''a'' \<and> branch_slug t n \<noteq> ''b''" for t n
    by (cases t) (auto simp: branch_slug_def)
  then show ?thesis by (simp add: clash_free_def demo_chain_def demo_task_def)
qed

lemma demo_run:
  "(chain_step demo_orch)\<^sup>*\<^sup>* (demo_state [''a'', ''b''], demo_log [''a'', ''b'']) (fst demo_done, fst (snd demo_done))"
proof -
  have "chain_step demo_orch (demo_state [''a'', ''b''], demo_log [''a'', ''b'']) (fst demo_failed, fst (snd demo_failed))"
    by (rule step_resume [of _ _ _ 0 _ _ "snd (snd demo_failed)"]) (simp add: demo_failed_def)
  moreover have "retry (fst demo_failed) (fst (snd demo_failed)) = Inr demo_retried"
  proof -
    have "\<not> isl (retry (fst demo_failed) (fst (snd demo_failed)))" by code_simp
    then show ?thesis by (auto simp: demo_retried_def split: sum.splits)
  qed
  then have "chain_step demo_orch (fst demo_failed, fst (snd demo_failed)) (fst demo_retried, snd demo_retried)"
    by (intro step_retry) simp
  moreover have "chain_step demo_orch (fst demo_retried, snd demo_retried) (fst demo_done, fst (snd demo_done))"
    by (rule step_resume [of _ _ _ 2 _ _ "snd (snd demo_done)"]) (simp add: demo_done_def)
  ultimately show ?thesis by (meson converse_rtranclp_into_rtranclp rtranclp.rtrancl_refl)
qed

end
