(* ===== verification/Coding_Props.thy ===== *)
theory Coding_Props
  imports Coding_Demo
begin

text \<open>
  The properties of the coding chain: the event log projects to the live state after every sequence
  of operations, a chain is reported green only when every task is resolved, how often the respawn cap lets a
  worker start on a task, the shape of the task list, compaction of the log, and the gaps found.
\<close>

subsection \<open>The log and the state\<close>

text \<open>C1: Whatever operations are applied to a started chain (runs, retries, skips, aborts, edits,
  force-advances, branch fixes, in any order and against any worker, repository and gate), replaying
  the event log yields exactly the live run state, as long as no slug of a task is empty or has the form
  \<open>other-fix<n>\<close> of a branch of another task.\<close>

theorem event_log_projects_to_state:
  assumes "start orc c run_id [] w = (Inr (Inr (orc', s0)), lg0, w')"
    and "clash_free (set (map at_slug (ch_tasks c)))"
    and "(chain_step orc')\<^sup>*\<^sup>* (s0, lg0) (s, lg)"
  shows "fold_log lg = s"
  using chain_run_settled [OF assms(3,2)] start_settled [OF assms(1) refl] by (simp add: settled_def)

theorem event_log_projects_to_state_witness:
  "fold_log (fst (snd demo_done)) = fst demo_done \<and> length (fst (snd demo_done)) = 11"
proof -
  have "fold_log (fst (snd demo_done)) = fst demo_done"
    by (rule event_log_projects_to_state [OF demo_start [OF demo_valid, of 0] demo_clash_free demo_run])
  moreover have "length (fst (snd demo_done)) = 11" by code_simp
  ultimately show ?thesis by blast
qed

text \<open>C18: A chain reports success only when every one of its tasks succeeded or was skipped, and
  reports a failure only at its current task, which failed and is the one it names, as long as no slug of a task is
  empty or has the form \<open>other-fix<n>\<close> of a branch of another task.\<close>

theorem chain_outcome:
  assumes "start orc c run_id [] w = (Inr (Inr (orc', s0)), lg0, w')"
    and "clash_free (set (map at_slug (ch_tasks c)))"
    and "(chain_step orc')\<^sup>*\<^sup>* (s0, lg0) (s, lg)"
  shows "(rs_status s = ChainSuccess \<longrightarrow> (\<forall>r \<in> set (rs_ats s). ar_status r = ATSuccess \<or> ar_status r = ATSkipped))
    \<and> (rs_status s = ChainFailed \<longrightarrow> (\<exists>i < length (rs_ats s). int i = rs_position s
         \<and> ar_status (rs_ats s ! i) = ATFailed \<and> rs_failed s = ar_slug (rs_ats s ! i)))"
proof -
  have "settled orc' (set (map at_slug (ch_tasks c))) s lg"
    using chain_run_settled [OF assms(3,2)] start_settled [OF assms(1) refl] by simp
  then have inv: "base_inv orc' (set (map at_slug (ch_tasks c))) s" "status_ok s" by (simp_all add: settled_def)
  have "ar_status r = ATSuccess \<or> ar_status r = ATSkipped" if "rs_status s = ChainSuccess" "r \<in> set (rs_ats s)" for r
  proof -
    obtain i where "i < length (rs_ats s)" "r = rs_ats s ! i" using \<open>r \<in> set (rs_ats s)\<close> by (auto simp: in_set_conv_nth)
    with inv that(1) show ?thesis by (auto simp: base_inv_def status_ok_def is_resolved_def)
  qed
  moreover have "\<exists>i < length (rs_ats s). int i = rs_position s
         \<and> ar_status (rs_ats s ! i) = ATFailed \<and> rs_failed s = ar_slug (rs_ats s ! i)" if "rs_status s = ChainFailed"
    using inv(2) that by (auto simp: status_ok_def current_Some)
  ultimately show ?thesis by blast
qed

theorem chain_outcome_witness:
  "rs_status (fst demo_done) = ChainSuccess
    \<and> list_all (\<lambda>r. ar_status r = ATSuccess \<or> ar_status r = ATSkipped) (rs_ats (fst demo_done))"
proof -
  have "rs_status (fst demo_done) = ChainSuccess" by code_simp
  with chain_outcome [OF demo_start [OF demo_valid, of 0] demo_clash_free demo_run] show ?thesis
    unfolding list_all_iff by blast
qed

subsection \<open>The calls of the model worker\<close>

text \<open>
  A tally \<open>c\<close> is any reading of the world that goes up by one for the slug of a task when the model worker is
  called for the first attempt of a loop on it, and that nothing else changes: no command, no operation of the
  repository or of a worktree, no later attempt. It counts the entries into the worker-to-gate loop from outside.
\<close>

definition keeps :: "('w \<Rightarrow> 'c) \<Rightarrow> ('w \<Rightarrow> 'a \<times> 'w) \<Rightarrow> bool" where
  "keeps c f \<longleftrightarrow> (\<forall>w. c (snd (f w)) = c w)"

definition quiet_workspace :: "('w \<Rightarrow> 'c) \<Rightarrow> 'w workspace \<Rightarrow> bool" where
  "quiet_workspace c ws \<longleftrightarrow> (\<forall>files. keeps c (ws_seed ws files)) \<and> (\<forall>msg. keeps c (ws_commit ws msg)) \<and> keeps c (ws_close ws)"

definition quiet_repo :: "('w \<Rightarrow> 'c) \<Rightarrow> 'w repo \<Rightarrow> bool" where
  "quiet_repo c repo \<longleftrightarrow> keeps c (head_sha repo) \<and> (\<forall>sha. keeps c (fast_forward repo sha)) \<and> (\<forall>sha. keeps c (reset_to repo sha))
     \<and> (\<forall>fork ar. keeps c (open_ws repo fork ar))
     \<and> (\<forall>fork ar w ws. fst (open_ws repo fork ar w) = Inr ws \<longrightarrow> quiet_workspace c ws)
     \<and> (\<forall>pr. reader repo = Some pr \<longrightarrow> (\<forall>a b. keeps c (diff_commits pr a b)) \<and> (\<forall>d b. keeps c (diff_worktree pr d b)))
     \<and> (\<forall>rg. red_green repo = Some rg \<longrightarrow> (\<forall>ref src files specs t. keeps c (rg ref src files specs t)))"

definition bump :: "bool \<Rightarrow> string \<Rightarrow> feedback \<Rightarrow> (string \<Rightarrow> nat) \<Rightarrow> string \<Rightarrow> nat" where
  "bump model slug fb n = (if model \<and> fb_iteration fb = 1 then n(slug := Suc (n slug)) else n)"

definition tallied :: "'w orch \<Rightarrow> ('w \<Rightarrow> string \<Rightarrow> nat) \<Rightarrow> bool" where
  "tallied orc c \<longleftrightarrow> (\<forall>cmd dir t. keeps c (o_runner orc cmd dir t)) \<and> quiet_repo c (o_repo orc)
     \<and> (\<forall>v. o_verifier orc = Some v \<longrightarrow> (\<forall>spec dir. keeps c (v spec dir)))
     \<and> (\<forall>p. o_should_pause orc = Some p \<longrightarrow> (\<forall>rid. keeps c (p rid)))
     \<and> (\<forall>g. o_coverage orc = Some g \<longrightarrow> (\<forall>dir diff t. keeps c (g dir diff t)))
     \<and> (\<forall>m. o_model orc = Some m \<longrightarrow> (\<forall>spec dir fb w. c (snd (m spec dir fb w)) = bump True (at_slug spec) fb (c w)))"

lemma quiet_wsD:
  assumes "quiet_workspace c ws"
  shows "c (snd (ws_seed ws files w)) = c w" "c (snd (ws_commit ws msg w)) = c w" "c (snd (ws_close ws w)) = c w"
  using assms by (simp_all add: quiet_workspace_def keeps_def)

lemma quiet_repoD:
  assumes "quiet_repo c repo"
  shows "c (snd (head_sha repo w)) = c w" "c (snd (fast_forward repo sha w)) = c w" "c (snd (reset_to repo sha w)) = c w"
    "c (snd (open_ws repo fork ar w)) = c w" "fst (open_ws repo fork ar w) = Inr ws \<Longrightarrow> quiet_workspace c ws"
    "reader repo = Some pr \<Longrightarrow> c (snd (diff_commits pr a b w)) = c w"
    "reader repo = Some pr \<Longrightarrow> c (snd (diff_worktree pr a b w)) = c w"
    "red_green repo = Some rg \<Longrightarrow> c (snd (rg ref src files specs t w)) = c w"
  using assms by (simp_all add: quiet_repo_def keeps_def)

lemma tallied_repo: "tallied orc c \<Longrightarrow> quiet_repo c (o_repo orc)"
  by (simp add: tallied_def)

lemma talliedD:
  assumes "tallied orc c"
  shows "c (snd (o_runner orc cmd dir t w)) = c w"
    "o_verifier orc = Some v \<Longrightarrow> c (snd (v spec dir w)) = c w"
    "o_should_pause orc = Some p \<Longrightarrow> c (snd (p rid w)) = c w"
    "o_coverage orc = Some g \<Longrightarrow> c (snd (g dir diff t w)) = c w"
    "worker_for orc kind = Some worker \<Longrightarrow> c (snd (worker spec dir fb w)) = bump (kind = WorkerModel) (at_slug spec) fb (c w)"
  using assms by (auto simp: tallied_def keeps_def worker_for_def bump_def deterministic_attempt_def Let_def case_prod_unfold split: if_splits)

text \<open>The checks of an attempt keep the tally.\<close>

lemma checks_keep:
  assumes "tallied orc c"
  shows "c (snd (worktree_diff orc dir parent w)) = c w" "c (snd (tautology_verdict orc dir parent w)) = c w"
    "c (snd (oracle_tamper_verdict orc dir parent diff w)) = c w" "c (snd (changed_go_files orc dir w)) = c w"
    "c (gofmt_changed_go orc dir w) = c w" "c (snd (scoped_gate orc spec dir gate_dir w)) = c w"
proof -
  note d = talliedD [OF assms] quiet_repoD [OF tallied_repo [OF assms]]
  show "c (snd (worktree_diff orc dir parent w)) = c w"
    using d by (simp add: worktree_diff_def case_prod_unfold split: option.split sum.split)
  show "c (snd (tautology_verdict orc dir parent w)) = c w"
    using d by (simp add: tautology_verdict_def case_prod_unfold Let_def split: option.split sum.split)
  show "c (snd (oracle_tamper_verdict orc dir parent diff w)) = c w"
    using d by (simp add: oracle_tamper_verdict_def case_prod_unfold Let_def split: option.split sum.split)
  show go: "c (snd (changed_go_files orc dir w)) = c w" for w
    using d by (simp add: changed_go_files_def case_prod_unfold)
  show "c (gofmt_changed_go orc dir w) = c w"
    using d go by (simp add: gofmt_changed_go_def case_prod_unfold)
  show "c (snd (scoped_gate orc spec dir gate_dir w)) = c w"
    using go by (simp add: scoped_gate_def case_prod_unfold)
qed

lemma runs_keep:
  assumes "\<And>cmd dir t w. c (snd (run cmd dir t w)) = c w"
  shows "c (snd (gate_loop run dir t runs cmds w)) = c w" "c (snd (check_assertions run t dir as w)) = c w"
    "c (snd (extract_outputs pj run t dir out es w)) = c w"
proof -
  show "c (snd (gate_loop run dir t runs cmds w)) = c w"
    using assms by (induction cmds arbitrary: runs w) (simp_all add: case_prod_unfold)
  show "c (snd (check_assertions run t dir as w)) = c w"
    using assms by (induction as arbitrary: w) (simp_all add: case_prod_unfold)
  show "c (snd (extract_outputs pj run t dir out es w)) = c w"
    using assms by (induction es arbitrary: out w) (simp_all add: case_prod_unfold split: sum.split)
qed

lemma judge_keeps:
  assumes "tallied orc c"
  shows "c (snd (judge_attempt orc spec dir gate_dir parent w)) = c w"
proof -
  note d = talliedD [OF assms] checks_keep [OF assms] runs_keep [of c "o_runner orc", OF talliedD(1) [OF assms]]
  have green: "c (snd (judge_green orc spec dir parent diff flags w)) = c w" for diff flags w
    using d by (simp add: judge_green_def case_prod_unfold Let_def split: option.split sum.split)
  show ?thesis
    using d green by (simp add: judge_attempt_def gate_run_def case_prod_unfold Let_def split: option.split)
qed

lemma attempt_bumps:
  assumes "tallied orc c" "worker_for orc kind = Some worker"
  shows "c (snd (attempt_once orc worker spec dir gate_dir parent fb w)) = bump (kind = WorkerModel) (at_slug spec) fb (c w)"
  using talliedD(5) [OF assms] judge_keeps [OF assms(1)]
  by (simp add: attempt_once_def case_prod_unfold split: option.split)

lemma later_attempts_keep:
  assumes "\<And>fb w. c (snd (attempt fb w)) = bump b slug fb (c w)"
  shows "1 < iter \<Longrightarrow> c (snd (snd (worker_loop attempt inputs ex m n iter diag ar w))) = c w"
proof (induction n arbitrary: iter diag ar w)
  case (Suc n)
  have "c (snd (attempt \<lparr>fb_iteration = iter, fb_inputs = inputs, fb_prior_diagnostic = diag, fb_carried_tier = ar_highest_tier ar\<rparr> w)) = c w"
    using assms Suc.prems by (simp add: bump_def)
  with Suc show ?case by (simp add: case_prod_unfold split: loop_step.split)
qed simp

lemma loop_bumps_once:
  assumes "\<And>fb w. c (snd (attempt fb w)) = bump b slug fb (c w)"
  shows "c (snd (snd (worker_loop attempt inputs ex m n 1 diag ar w))) \<in> {c w, (c w)(slug := Suc (c w slug))}"
proof (cases n)
  case (Suc k)
  have "c (snd (attempt \<lparr>fb_iteration = 1, fb_inputs = inputs, fb_prior_diagnostic = diag, fb_carried_tier = ar_highest_tier ar\<rparr> w))
      \<in> {c w, (c w)(slug := Suc (c w slug))}"
    using assms by (simp add: bump_def)
  then show ?thesis using later_attempts_keep [OF assms, where iter = 2] Suc
    by (simp add: case_prod_unfold split: loop_step.split)
qed simp

subsection \<open>The tally and the records\<close>

text \<open>A record keeps the tally when the tally of its slug is at most its respawn count. A step on one record keeps
  it: the tally stays, or goes up by one for that slug together with the count.\<close>

definition tally_ok :: "(string \<Rightarrow> nat) \<Rightarrow> at_record \<Rightarrow> bool" where
  "tally_ok n r \<longleftrightarrow> at_slug (ar_spec r) = ar_slug r \<and> int (n (ar_slug r)) \<le> ar_respawn_count r"

definition same_slug :: "at_record \<Rightarrow> at_record \<Rightarrow> bool" where
  "same_slug r r' \<longleftrightarrow> ar_slug r' = ar_slug r \<and> at_slug (ar_spec r') = at_slug (ar_spec r)"

definition tally_step :: "(string \<Rightarrow> nat) \<Rightarrow> at_record \<Rightarrow> (string \<Rightarrow> nat) \<Rightarrow> at_record \<Rightarrow> bool" where
  "tally_step n r n' r' \<longleftrightarrow> same_slug r r'
     \<and> (n' = n \<and> ar_respawn_count r \<le> ar_respawn_count r'
        \<or> n' = n(at_slug (ar_spec r) := Suc (n (at_slug (ar_spec r)))) \<and> ar_respawn_count r' = ar_respawn_count r + 1)"

lemma tally_step_refl: "same_slug r r' \<Longrightarrow> ar_respawn_count r' = ar_respawn_count r \<Longrightarrow> tally_step n r n r'"
  by (simp add: tally_step_def)

lemma tally_step_with: "tally_step n r n' r' \<Longrightarrow> same_slug r' r'' \<Longrightarrow> ar_respawn_count r'' = ar_respawn_count r' \<Longrightarrow> tally_step n r n' r''"
  by (auto simp: tally_step_def same_slug_def)

lemma tally_step_after: "same_slug r r' \<Longrightarrow> ar_respawn_count r' = ar_respawn_count r \<Longrightarrow> tally_step n r' n' r'' \<Longrightarrow> tally_step n r n' r''"
  by (auto simp: tally_step_def same_slug_def)

lemma worker_loop_slug:
  "worker_loop attempt inputs ex m n iter diag ar w = (res, ar', w') \<Longrightarrow> same_slug ar ar' \<and> ar_respawn_count ar' = ar_respawn_count ar"
proof (induction n arbitrary: iter diag ar w)
  case 0
  then show ?case by (auto simp: same_slug_def split: if_splits)
next
  case (Suc n)
  have "same_slug ar (carry_tier tier ar) \<and> ar_respawn_count (carry_tier tier ar) = ar_respawn_count ar" for tier
    by (simp add: carry_tier_def same_slug_def)
  then show ?case
    using Suc.prems by (auto split: prod.splits loop_step.splits dest!: Suc.IH simp: same_slug_def)
qed

lemma worker_loop_tally:
  assumes "tallied orc c" "run_worker_loop orc ar dir inputs w = (res, ar', w')"
  shows "tally_step (c w) ar (c w') ar'"
proof (cases "worker_for orc (wc_kind (at_worker (ar_spec ar)))")
  case None
  with assms(2) show ?thesis by (auto simp: run_worker_loop_def Let_def intro: tally_step_refl simp: same_slug_def)
next
  case (Some worker)
  let ?ar = "ar\<lparr>ar_respawn_count := ar_respawn_count ar + 1\<rparr>" and ?slug = "at_slug (ar_spec ar)"
  show ?thesis
  proof (cases "0 < o_respawn_cap orc \<and> o_respawn_cap orc \<le> ar_respawn_count ar")
    case True
    with Some assms(2) show ?thesis by (auto simp: run_worker_loop_def Let_def intro: tally_step_refl simp: same_slug_def)
  next
    case False
    obtain m ex where budget: "attempt_budget (ar_spec ar) = (m, ex)" by fastforce
    define gate_dir where "gate_dir = (case o_module_dir orc dir w of None \<Rightarrow> dir | Some md \<Rightarrow> md)"
    let ?attempt = "attempt_once orc worker (ar_spec ar) dir gate_dir (ar_parent_sha ar)"
    have loop: "worker_loop ?attempt inputs ex m (nat m) 1 [] ?ar w = (res, ar', w')"
      using assms(2) Some False budget unfolding run_worker_loop_def Let_def gate_dir_def by auto
    have "c w' \<in> {c w, (c w)(?slug := Suc (c w ?slug))}"
      using loop_bumps_once [of c ?attempt, OF attempt_bumps [OF assms(1) Some], of inputs ex m "nat m" "[]" ?ar w] loop by simp
    with worker_loop_slug [OF loop] show ?thesis by (auto simp: tally_step_def same_slug_def)
  qed
qed

lemma land_tally:
  assumes "tallied orc c" "quiet_workspace c ws" "verify_and_land orc ws ar w = (ok, ar', w')"
  shows "c w' = c w \<and> same_slug ar ar' \<and> ar_respawn_count ar' = ar_respawn_count ar"
proof -
  note d = talliedD [OF assms(1)] quiet_repoD [OF tallied_repo [OF assms(1)]] quiet_wsD [OF assms(2)]
    runs_keep [of c "o_runner orc", OF talliedD(1) [OF assms(1)]]
  have land: "c (snd (snd (land orc ws ar w))) = c w" for ar w
    using d by (simp add: land_def case_prod_unfold Let_def split: option.split sum.split)
  have verify: "c (snd (run_verify_phase (o_runner orc) t (o_verifier orc) spec dir w)) = c w" for t spec dir w
    using d by (simp add: run_verify_phase_def spot_check_def case_prod_unfold Let_def split: option.split sum.split)
  have contract: "c (snd (verify_contract pj (o_runner orc) t spec dir w)) = c w" for pj t spec dir w
    using d by (simp add: verify_contract_def case_prod_unfold split: option.split)
  have "c (snd (snd (verify_and_land orc ws ar w))) = c w"
    using land verify contract by (simp add: verify_and_land_def case_prod_unfold split: sum.split)
  moreover have "same_slug r r' \<and> ar_respawn_count r' = ar_respawn_count r" if "land orc ws r w = (b, r', w1)" for r w b r' w1
    using that by (auto simp: land_def fail_at_def same_slug_def Let_def split: prod.splits sum.splits option.splits)
  then have "same_slug ar ar' \<and> ar_respawn_count ar' = ar_respawn_count ar"
    using assms(3) by (fastforce simp: verify_and_land_def fail_at_def same_slug_def split: prod.splits sum.splits if_splits)
  ultimately show ?thesis using assms(3) by simp
qed


lemma work_tally:
  assumes "tallied orc c" "quiet_workspace c ws" "work_in orc ws inputs ar w = (ok, ar', w')"
  shows "tally_step (c w) ar (c w') ar'"
proof -
  obtain e ar1 w1 where seed: "seed_oracles ws (ar\<lparr>ar_worktree := ws_dir ws\<rparr>) w = (e, ar1, w1)"
    by (metis prod_cases3)
  have "c (snd (snd (seed_oracles ws r w))) = c w" for r
    using quiet_wsD [OF assms(2)] by (simp add: seed_oracles_def case_prod_unfold split: option.split sum.split)
  with seed have c1: "c w1 = c w" by (metis snd_conv)
  have k1: "same_slug ar ar1" "ar_respawn_count ar1 = ar_respawn_count ar"
    using seed by (auto simp: seed_oracles_def same_slug_def split: prod.splits option.splits sum.splits if_splits)
  obtain status diag iters flags ar2 w2 where
    loop: "run_worker_loop orc ar1 (ws_dir ws) inputs w1 = ((status, diag, iters, flags), ar2, w2)"
    by (metis prod_cases3 prod_cases4)
  let ?ar3 = "ar2\<lparr>ar_iterations := iters, ar_worker_status := status, ar_diagnostic := diag, ar_flags := flags\<rparr>"
  have k2: "tally_step (c w) ar (c w2) ?ar3"
    using tally_step_with [OF tally_step_after [OF k1 worker_loop_tally [OF assms(1) loop, unfolded c1]], of ?ar3]
    by (simp add: same_slug_def)
  show ?thesis
  proof (cases e)
    case (Some x)
    with assms(3) seed k1 c1 show ?thesis
      by (auto simp: work_in_def fail_at_def same_slug_def intro!: tally_step_refl)
  next
    case None
    show ?thesis
    proof (cases "status = WorkerSuccess")
      case True
      with assms(3) seed None loop have "verify_and_land orc ws ?ar3 w2 = (ok, ar', w')"
        by (simp add: work_in_def Let_def)
      from land_tally [OF assms(1,2) this] k2 show ?thesis by (auto intro: tally_step_with)
    next
      case False
      with assms(3) seed None loop have "ar' = ?ar3\<lparr>ar_status := ATFailed\<rparr>" "w' = w2"
        by (auto simp: work_in_def Let_def)
      with k2 show ?thesis by (auto intro!: tally_step_with [OF k2] simp: same_slug_def)
    qed
  qed
qed

lemma run_one_tally:
  assumes "tallied orc c" "run_one orc s i lg w = (ok, s', lg', w')"
  obtains ar where "s' = set_at i ar s" "tally_step (c w) (rs_ats s ! i) (c w') ar"
proof -
  note q = quiet_repoD [OF tallied_repo [OF assms(1)]]
  let ?r = "(rs_ats s ! i)\<lparr>ar_status := ATRunning\<rparr>" and ?s = "set_at i ((rs_ats s ! i)\<lparr>ar_status := ATRunning\<rparr>) s"
  obtain ar where body: "run_body orc ?s ?r w = (ok, ar, w')" and s': "s' = set_at i ar ?s"
    using assms(2) by (auto simp: run_one_def Let_def split: prod.splits)
  have "tally_step (c w) ?r (c w') ar"
  proof (cases "resolve_inputs ?s (ar_spec ?r)")
    case (Inl e)
    with body show ?thesis by (auto simp: run_body_def fail_at_def same_slug_def intro!: tally_step_refl)
  next
    case (Inr inputs)
    obtain ar1 w1 where fork: "fork_point orc ?r w = (ar1, w1)" by fastforce
    have c1: "c w1 = c w" and k1: "same_slug ?r ar1" "ar_respawn_count ar1 = ar_respawn_count ?r"
      using fork q(1) [of w] by (auto simp: fork_point_def same_slug_def split: prod.splits sum.splits if_splits)
    obtain res w2 where opn: "open_ws (o_repo orc) (ar_parent_sha ar1) ar1 w1 = (res, w2)" by fastforce
    then have c2: "c w2 = c w" using q(4) [of "ar_parent_sha ar1" ar1 w1] c1 by simp
    show ?thesis
    proof (cases res)
      case (Inl e)
      with body Inr fork opn k1 c2 show ?thesis
        by (auto simp: run_body_def fail_at_def same_slug_def intro!: tally_step_refl)
    next
      case (Inr ws)
      with body fork opn \<open>resolve_inputs ?s (ar_spec ?r) = Inr inputs\<close>
      have work: "work_in orc ws inputs ar1 w2 = (ok, ar, w')" by (simp add: run_body_def)
      have "quiet_workspace c ws" using q(5) [of "ar_parent_sha ar1" ar1 w1 ws] opn Inr by simp
      from work_tally [OF assms(1) this work] c2 k1 show ?thesis by (auto intro: tally_step_after)
    qed
  qed
  then have "tally_step (c w) (rs_ats s ! i) (c w') ar" by (simp add: tally_step_def same_slug_def)
  with that [of ar] s' show ?thesis by (simp add: set_at_def)
qed

text \<open>The invariant of a chain: every record keeps the tally, and nothing was tallied for other slugs.\<close>

definition tally_inv :: "(string \<Rightarrow> nat) \<Rightarrow> run_state \<Rightarrow> bool" where
  "tally_inv n s \<longleftrightarrow> (\<forall>r \<in> set (rs_ats s). tally_ok n r) \<and> (\<forall>slug. slug \<notin> ar_slug ` set (rs_ats s) \<longrightarrow> n slug = 0)"

lemma tally_inv_records [simp]:
  "tally_inv n (s\<lparr>rs_status := st\<rparr>) = tally_inv n s" "tally_inv n (s\<lparr>rs_failed := f\<rparr>) = tally_inv n s"
  "tally_inv n (s\<lparr>rs_position := p\<rparr>) = tally_inv n s" "tally_inv n (pending s) = tally_inv n s"
  by (simp_all add: tally_inv_def pending_def)

lemma set_at_slugs:
  "i < length (rs_ats s) \<Longrightarrow> ar_slug r = ar_slug (rs_ats s ! i) \<Longrightarrow> map ar_slug (rs_ats (set_at i r s)) = map ar_slug (rs_ats s)"
  by (simp add: set_at_def map_update) (metis list_update_id map_update nth_map)

lemma tally_inv_step:
  assumes "tally_inv n s" "i < length (rs_ats s)" "tally_step n (rs_ats s ! i) n' r" "distinct (map ar_slug (rs_ats s))"
  shows "tally_inv n' (set_at i r s)"
proof -
  let ?x = "rs_ats s ! i"
  have x: "tally_ok n ?x" using assms(1,2) by (simp add: tally_inv_def)
  have same: "ar_slug r = ar_slug ?x" "at_slug (ar_spec r) = ar_slug ?x"
    using assms(3) x by (auto simp: tally_step_def same_slug_def tally_ok_def)
  have r: "tally_ok n' r" using assms(3) x by (auto simp: tally_step_def same_slug_def tally_ok_def)
  have other: "n' slug = n slug" if "slug \<noteq> ar_slug ?x" for slug
    using assms(3) x that by (auto simp: tally_step_def tally_ok_def)
  have slugs: "ar_slug ` set (rs_ats (set_at i r s)) = ar_slug ` set (rs_ats s)"
    using set_at_slugs [OF assms(2) same(1)] by (metis list.set_map)
  have "tally_ok n' y" if "y \<in> set (rs_ats (set_at i r s))" for y
  proof -
    from that obtain k where k: "k < length (rs_ats s)" "y = (if k = i then r else rs_ats s ! k)"
      by (auto simp: set_at_def in_set_conv_nth nth_list_update)
    show ?thesis
    proof (cases "k = i")
      case False
      then have "ar_slug (rs_ats s ! k) \<noteq> ar_slug ?x"
        using nth_eq_iff_index_eq [OF assms(4), of k i] k(1) assms(2) by simp
      moreover have "tally_ok n (rs_ats s ! k)" using assms(1) k(1) by (simp add: tally_inv_def)
      ultimately show ?thesis using other k(2) False by (simp add: tally_ok_def)
    qed (use k r in simp)
  qed
  moreover have "n' slug = 0" if "slug \<notin> ar_slug ` set (rs_ats s)" for slug
  proof -
    have "slug \<noteq> ar_slug ?x" using that assms(2) by auto
    with other that assms(1) show ?thesis by (simp add: tally_inv_def)
  qed
  ultimately show ?thesis unfolding tally_inv_def slugs by blast
qed

lemma run_loop_tally:
  assumes "tallied orc c" "live orc origs s lg" "tally_inv (c w) s" "run_loop orc s lg w = (s', lg', w')"
  shows "tally_inv (c w') s'"
  using assms
proof (induction orc s lg w rule: run_loop.induct)
  case (1 orc s lg w)
  note t = "1.prems"(1) and live = "1.prems"(2) and inv = "1.prems"(3) and run = "1.prems"(4)
  show ?case
  proof (cases "int (length (rs_ats s)) \<le> rs_position s")
    case True
    with inv run show ?thesis by (subst (asm) run_loop.simps) (auto simp: Let_def)
  next
    case False
    obtain paused w1 where pause: "pause_check orc s w = (paused, w1)" by fastforce
    have c1: "c w1 = c w" using pause talliedD(3) [OF t] by (auto simp: pause_check_def split: option.splits) (metis snd_conv)
    let ?i = "nat (rs_position s)"
    have i: "?i < length (rs_ats s)" "int ?i = rs_position s"
      using False live by (auto simp: live_def base_inv_def)
    consider "paused" | "\<not> paused" "is_resolved (rs_ats s ! ?i)" | "\<not> paused" "\<not> is_resolved (rs_ats s ! ?i)"
      by blast
    then show ?thesis
    proof cases
      case 1
      with False pause run inv c1 show ?thesis by (subst (asm) run_loop.simps) (auto simp: Let_def)
    next
      case 2
      have "run_loop orc (s\<lparr>rs_position := rs_position s + 1\<rparr>) lg w1 = (s', lg', w')"
        using run False pause 2 by (subst (asm) run_loop.simps) (auto simp: Let_def)
      with "1.IH"(1) [OF False pause [symmetric]] 2 live_advance [OF live] False t inv c1 show ?thesis
        by auto
    next
      case 3
      obtain ok s1 lg1 w2 where one: "run_one orc s ?i lg w1 = (ok, s1, lg1, w2)" by (metis prod_cases4)
      note eff = run_one_live [OF live i one]
      from run_one_tally [OF t one] obtain ar where ar: "s1 = set_at ?i ar s" "tally_step (c w1) (rs_ats s ! ?i) (c w2) ar" .
      have inv1: "tally_inv (c w2) s1"
        using tally_inv_step [OF _ i(1) ar(2) live_distinct [OF live]] inv c1 ar(1) by simp
      show ?thesis
      proof (cases ok)
        case True
        have "run_loop orc (s1\<lparr>rs_position := rs_position s1 + 1\<rparr>) lg1 w2 = (s', lg', w')"
          using run False pause 3 one True by (subst (asm) run_loop.simps) (auto simp: Let_def)
        moreover have "live orc origs (s1\<lparr>rs_position := rs_position s1 + 1\<rparr>) lg1"
          using eff True i False by (intro live_advance) (auto simp: is_resolved_def)
        ultimately show ?thesis
          using "1.IH"(2) [OF False pause [symmetric]] 3 one True t inv1 by auto
      next
        case not_ok: False
        then have "s' = s1\<lparr>rs_status := ChainFailed, rs_failed := ar_slug (rs_ats s ! ?i)\<rparr>" "w' = w2"
          using run False pause 3 one by (subst (asm) run_loop.simps; simp add: Let_def; elim conjE; simp)+
        with inv1 show ?thesis by simp
      qed
    qed
  qed
qed

text \<open>What the invariant reads of a record.\<close>

definition tally_key :: "at_record \<Rightarrow> string \<times> string \<times> int" where
  "tally_key r = (ar_slug r, at_slug (ar_spec r), ar_respawn_count r)"

lemma tally_inv_keys:
  "tally_inv n s \<longleftrightarrow> (\<forall>(a, b, k) \<in> tally_key ` set (rs_ats s). b = a \<and> int (n a) \<le> k)
     \<and> (\<forall>slug. slug \<notin> fst ` tally_key ` set (rs_ats s) \<longrightarrow> n slug = 0)"
  by (auto simp: tally_inv_def tally_ok_def tally_key_def image_image)

lemma tally_inv_same: "tally_key ` set (rs_ats s') = tally_key ` set (rs_ats s) \<Longrightarrow> tally_inv n s' = tally_inv n s"
  unfolding tally_inv_keys by simp

lemma set_at_keys:
  assumes "i < length (rs_ats s)" "tally_key r = tally_key (rs_ats s ! i)"
  shows "tally_key ` set (rs_ats (set_at i r s)) = tally_key ` set (rs_ats s)"
proof -
  have "map tally_key (rs_ats (set_at i r s)) = map tally_key (rs_ats s)"
    using assms by (simp add: set_at_def map_update) (metis list_update_id map_update nth_map)
  then show ?thesis by (metis list.set_map)
qed

lemma tally_inv_set_at:
  "i < length (rs_ats s) \<Longrightarrow> tally_key r = tally_key (rs_ats s ! i) \<Longrightarrow> tally_inv n (set_at i r s) = tally_inv n s"
  by (rule tally_inv_same [OF set_at_keys])

lemma superseded_keys: "map tally_key (supersede t target (reset_downstream t f ats)) = map tally_key ats"
proof (rule nth_equalityI)
  fix i
  assume "i < length (map tally_key (supersede t target (reset_downstream t f ats)))"
  then have "i < length ats" by simp
  then show "map tally_key (supersede t target (reset_downstream t f ats)) ! i = map tally_key ats ! i"
    by (simp add: supersede_nth superseded_at_def tally_key_def reset_at_def Let_def)
qed simp

lemma with_branch_keys:
  assumes "t \<le> length (rs_ats s)"
  shows "tally_key ` set (with_branch s t target branch) = insert (tally_key branch) (tally_key ` set (rs_ats s))"
proof -
  have "map tally_key (renumber xs) = map tally_key xs" for xs
    by (rule nth_equalityI) (simp_all add: nth_renumber tally_key_def)
  then have r: "tally_key ` set (renumber xs) = tally_key ` set xs" for xs by (metis list.set_map)
  have i: "tally_key ` set (insert_at t branch xs) = insert (tally_key branch) (tally_key ` set xs)" for xs
    by (auto simp: insert_at_def dest: in_set_takeD in_set_dropD) (metis Un_iff append_take_drop_id image_eqI set_append)
  have "tally_key ` set (supersede t target (reset_downstream t (current s) (rs_ats s))) = tally_key ` set (rs_ats s)"
    using superseded_keys [of t target "current s" "rs_ats s"] by (metis list.set_map)
  then show ?thesis unfolding with_branch_def r i by simp
qed

lemma branch_fix_tally:
  assumes st: "settled orc origs s lg" and free: "clash_free origs" and t: "tallied orc c" and inv: "tally_inv (c w) s"
    and run: "intervene_branch_fix orc s target diag maxb lg w = (Inr (s', lg'), w')"
  shows "tally_inv (c w') s'"
proof -
  let ?n = "int (length (branches_of target (rs_ats s))) + 1"
  let ?slug = "branch_slug target ?n"
  obtain t0 goal sha w1 priors where idx: "original_index s target = Some t0"
    and ins: "insert_branch s t0 target (branches_of target (rs_ats s))
      ((new_record ?slug ((ar_spec (rs_ats s ! t0))\<lparr>at_slug := ?slug, at_goal := goal\<rparr>) (int t0))
        \<lparr>ar_parent_slug := target, ar_branch_index := ?n, ar_parent_sha := sha\<rparr>) lg = (s', lg')"
    and priors: "prior_diffs (o_repo orc) (rs_ats s ! t0 # branches_of target (rs_ats s)) w = (priors, w1)"
    and w': "w' = rewind orc t0 (rs_position s) (rs_ats s ! t0) w1"
    using run unfolding intervene_branch_fix_def Let_def
    by (auto split: if_splits option.splits prod.splits)
  note q = quiet_repoD [OF tallied_repo [OF t]]
  have cap: "c (snd (capture_diff (o_repo orc) r w)) = c w" for r w
    using q by (simp add: capture_diff_def case_prod_unfold split: option.split sum.split)
  have "c (snd (prior_diffs (o_repo orc) rs w)) = c w" for rs w
    by (induction rs arbitrary: w) (simp_all add: cap case_prod_unfold)
  with priors have "c w1 = c w" by (metis snd_conv)
  moreover have "c (rewind orc a b r v) = c v" for a b r v
    using q by (simp add: rewind_def case_prod_unfold split: sum.split)
  ultimately have c: "c w' = c w" by (simp add: w')
  let ?branch = "(new_record ?slug ((ar_spec (rs_ats s ! t0))\<lparr>at_slug := ?slug, at_goal := goal\<rparr>) (int t0))
        \<lparr>ar_parent_slug := target, ar_branch_index := ?n, ar_parent_sha := sha\<rparr>"
  have t0: "t0 < length (rs_ats s)" using idx by (auto simp: original_index_def find_index_Some)
  have ats: "rs_ats s' = with_branch s t0 target ?branch"
    using ins unfolding insert_branch_def Let_def with_branch_def [symmetric] by (auto simp: pending_def)
  have keys: "tally_key ` set (rs_ats s') = insert (?slug, ?slug, 0) (tally_key ` set (rs_ats s))"
    unfolding ats using with_branch_keys [of t0 s target ?branch] t0 by (simp add: tally_key_def new_record_def)
  have "distinct (map ar_slug (rs_ats s'))"
    using branch_fix_settled [OF st free run] settled_live live_distinct by blast
  then have card: "card (set (map ar_slug (rs_ats s'))) = Suc (length (rs_ats s))"
    unfolding ats using distinct_card [of "map ar_slug (with_branch s t0 target ?branch)"] by simp
  have "set (map ar_slug xs) = fst ` tally_key ` set xs" for xs
    by (auto simp: tally_key_def image_image)
  then have slugs: "set (map ar_slug (rs_ats s')) = insert ?slug (set (map ar_slug (rs_ats s)))"
    using keys by simp
  have "?slug \<notin> set (map ar_slug (rs_ats s))"
  proof
    assume "?slug \<in> set (map ar_slug (rs_ats s))"
    then have "set (map ar_slug (rs_ats s')) = set (map ar_slug (rs_ats s))" using slugs insert_absorb by metis
    with card card_length [of "map ar_slug (rs_ats s)"] show False by simp
  qed
  then have "c w ?slug = 0" using inv by (simp add: tally_inv_def)
  with inv show ?thesis unfolding c tally_inv_keys keys by auto
qed

subsection \<open>Chains with their world\<close>

text \<open>One operation on a chain in the world it leaves behind, or a change of the world that leaves the tally: an
  operation that was refused, or somebody else's work.\<close>

inductive worked_step :: "'w orch \<Rightarrow> ('w \<Rightarrow> string \<Rightarrow> nat) \<Rightarrow> run_state \<times> event list \<times> 'w \<Rightarrow> run_state \<times> event list \<times> 'w \<Rightarrow> bool"
  for orc :: "'w orch" and c :: "'w \<Rightarrow> string \<Rightarrow> nat" where
  worked_resume: "resume orc s lg w = (s', lg', w') \<Longrightarrow> worked_step orc c (s, lg, w) (s', lg', w')"
| worked_retry: "retry s lg = Inr (s', lg') \<Longrightarrow> worked_step orc c (s, lg, w) (s', lg', w)"
| worked_skip: "skip s lg = Inr (s', lg') \<Longrightarrow> worked_step orc c (s, lg, w) (s', lg', w)"
| worked_abort: "abort s lg = (s', lg') \<Longrightarrow> worked_step orc c (s, lg, w) (s', lg', w)"
| worked_edit: "intervene_edit s e lg = Inr (s', lg') \<Longrightarrow> worked_step orc c (s, lg, w) (s', lg', w)"
| worked_force: "intervene_force_advance orc s sha just lg w = (Inr (s', lg'), w') \<Longrightarrow> worked_step orc c (s, lg, w) (s', lg', w')"
| worked_branch: "intervene_branch_fix orc s target diag maxb lg w = (Inr (s', lg'), w') \<Longrightarrow> worked_step orc c (s, lg, w) (s', lg', w')"
| worked_other: "c w' = c w \<Longrightarrow> worked_step orc c (s, lg, w) (s, lg, w')"

lemma worked_chain: "worked_step orc c (s, lg, w) (s', lg', w') \<Longrightarrow> (chain_step orc)\<^sup>*\<^sup>* (s, lg) (s', lg')"
  by (induction "(s, lg, w)" "(s', lg', w')" rule: worked_step.induct) (auto intro: chain_step.intros)

lemma worked_step_tally:
  assumes "worked_step orc c (s, lg, w) (s', lg', w')" "settled orc origs s lg" "clash_free origs" "tallied orc c" "tally_inv (c w) s"
  shows "tally_inv (c w') s'"
  using assms(1)
proof cases
  case worked_resume
  with run_loop_tally [OF assms(4), of origs "s\<lparr>rs_status := ChainRunning\<rparr>" lg w s' lg' w'] settled_live [OF assms(2)] assms(5)
  show ?thesis by (simp add: resume_def run_to_completion_def)
next
  case (worked_force sha just)
  have "c w' = c w"
    using worked_force quiet_repoD(3) [OF tallied_repo [OF assms(4)], of sha w]
    by (auto simp: intervene_force_advance_def Let_def split: if_splits option.splits prod.splits)
  moreover have "tally_inv (c w) s'"
    using worked_force assms(5)
    by (auto simp: intervene_force_advance_def Let_def current_Some tally_inv_set_at tally_key_def reset_at_def
        split: if_splits option.splits prod.splits)
  ultimately show ?thesis by simp
next
  case (worked_branch target diag maxb)
  then show ?thesis by (rule branch_fix_tally [OF assms(2-5)])
qed (use assms(5) in \<open>auto simp: retry_def skip_def abort_def intervene_edit_def Let_def current_Some tally_inv_set_at
    tally_key_def reset_at_def split: if_splits option.splits\<close>)

text \<open>C38: With a per-duty respawn cap set, no sequence of operations (resumes, retries, edits, skips, force-advances,
  branch fixes) enters the worker-to-gate loop of one task with a model worker more often than the cap: by any tally of the
  first calls of the model worker in the world, kept from the start of the chain, the slug of a task is counted at most that
  often. No slug of a task is empty or has the form \<open>other-fix<n>\<close> of a branch of another.\<close>

theorem respawn_cap_bounds_entries:
  assumes "start orc ch run_id [] w = (Inr (Inr (orc', s0)), lg0, w0)"
    and "clash_free (set (map at_slug (ch_tasks ch)))" and "0 < o_respawn_cap orc'"
    and "tallied orc' c" and "c w0 = (\<lambda>_. 0)"
    and "(worked_step orc' c)\<^sup>*\<^sup>* (s0, lg0, w0) (s, lg, w')"
  shows "int (c w' slug) \<le> o_respawn_cap orc'"
proof -
  let ?origs = "set (map at_slug (ch_tasks ch))"
  have zero: "tally_inv (c w0) s0"
    using assms(1,5)
    by (auto simp: start_def tally_inv_def tally_ok_def new_record_def Let_def split: option.splits prod.splits if_splits)
  from assms(6) have "settled orc' ?origs s lg \<and> tally_inv (c w') s"
  proof (induction "(s, lg, w')" arbitrary: s lg w' rule: rtranclp_induct)
    case base
    show ?case using start_settled [OF assms(1) refl] zero by simp
  next
    case (step y)
    obtain s1 lg1 w1 where y: "y = (s1, lg1, w1)" using prod_cases3 by blast
    have IH: "settled orc' ?origs s1 lg1" "tally_inv (c w1) s1" using step(3) [OF y] by simp_all
    have "worked_step orc' c (s1, lg1, w1) (s, lg, w')" using step(2) y by simp
    with worked_step_tally [OF this IH(1) assms(2,4) IH(2)] chain_run_settled [OF worked_chain assms(2)] IH(1)
    show ?case by fastforce
  qed
  then have inv: "base_inv orc' ?origs s" "tally_inv (c w') s" by (simp_all add: settled_def)
  show ?thesis
  proof (cases "slug \<in> ar_slug ` set (rs_ats s)")
    case True
    then obtain r where "r \<in> set (rs_ats s)" "slug = ar_slug r" by blast
    then have "int (c w' slug) \<le> ar_respawn_count r" "record_ok orc' r"
      using inv by (auto simp: tally_inv_def tally_ok_def base_inv_def)
    with assms(3) show ?thesis by (auto simp: record_ok_def)
  next
    case False
    then have "c w' slug = 0" using inv(2) by (simp add: tally_inv_def)
    with assms(3) show ?thesis by simp
  qed
qed

text \<open>A chain of one task whose gate always fails, in a world that is its own tally.\<close>

definition counting_orch :: "(string \<Rightarrow> nat) orch" where
  "counting_orch =
     \<lparr>o_runner = (\<lambda>cmd dir t n. (\<lparr>cr_command = cmd, cr_exit = 1, cr_stdout = [], cr_stderr = []\<rparr>, n)),
      o_repo = noop_repo (\<lambda>dir files n. (None, n)) ''/r'', o_unbound_noop = False, o_seed_files = (\<lambda>dir files n. (None, n)),
      o_gate_timeout = 0,
      o_model = Some (\<lambda>spec dir fb n. (\<lparr>att_error = None, att_note = [], att_tier = []\<rparr>, bump True (at_slug spec) fb n)),
      o_verifier = None, o_new_run_id = (\<lambda>n. (''id'', n)), o_should_pause = None, o_coverage = None, o_respawn_cap = 1,
      o_seeded_tier = [], o_gofmt = False, o_module_dir = (\<lambda>d w. None), o_dir_exists = (\<lambda>w d. True),
      o_parse_json = (\<lambda>t. Inl ''no json'')\<rparr>"

definition counting_task :: atomic_task where
  "counting_task = (demo_task ''a'')\<lparr>at_worker := (at_worker (demo_task ''a''))\<lparr>wc_kind := WorkerModel\<rparr>, at_max_iterations := 2\<rparr>"

definition counting_chain :: chain where
  "counting_chain = (demo_chain [])\<lparr>ch_tasks := [counting_task]\<rparr>"

definition counting_state :: run_state where
  "counting_state = (demo_state [])\<lparr>rs_ats := [new_record ''a'' counting_task 0]\<rparr>"

definition counting_log :: "event list" where
  "counting_log = [EvChainStarted ''id'' ''c'' ''/r'' [] ''coding/runs/id/integration'' (rs_ats counting_state)]"

definition counting_run :: "run_state \<times> event list \<times> (string \<Rightarrow> nat)" where
  "counting_run = resume counting_orch counting_state counting_log (\<lambda>_. 0)"

lemma counting_start:
  "start counting_orch counting_chain [] [] (\<lambda>_. 0) = (Inr (Inr (counting_orch, counting_state)), counting_log, \<lambda>_. 0)"
proof -
  have "validate counting_chain = None" by code_simp
  then show ?thesis
    by (simp add: start_def counting_orch_def noop_repo_def counting_log_def Let_def)
      (simp add: counting_state_def counting_chain_def counting_task_def demo_task_def demo_chain_def demo_state_def new_record_def
        empty_state_def)
qed

lemma counting_tallied: "tallied counting_orch (\<lambda>n. n)"
  by (auto simp: tallied_def keeps_def quiet_repo_def quiet_workspace_def counting_orch_def noop_repo_def noop_workspace_def)

theorem respawn_cap_bounds_entries_witness:
  "snd (snd counting_run) ''a'' = 1 \<and> int (snd (snd counting_run) ''a'') \<le> 1"
proof
  have "clash_free (set (map at_slug (ch_tasks counting_chain)))"
    using demo_clash_free by (auto simp: clash_free_def counting_chain_def counting_task_def demo_chain_def demo_task_def)
  moreover have "worked_step counting_orch (\<lambda>n. n) (counting_state, counting_log, \<lambda>_. 0) counting_run"
    using worked_resume [of counting_orch counting_state counting_log "\<lambda>_. 0" "fst counting_run" "fst (snd counting_run)" "snd (snd counting_run)"]
    by (simp add: counting_run_def)
  ultimately have "int (snd (snd counting_run) ''a'') \<le> o_respawn_cap counting_orch"
    using respawn_cap_bounds_entries [OF counting_start, of "\<lambda>n. n" "fst counting_run" "fst (snd counting_run)" "snd (snd counting_run)" "''a''"]
      counting_tallied
    by (simp add: counting_orch_def r_into_rtranclp)
  then show "int (snd (snd counting_run) ''a'') \<le> 1" by (simp add: counting_orch_def)
  show "snd (snd counting_run) ''a'' = 1" by code_simp
qed

text \<open>The slugs of a chain stay distinct under every sequence of operations, positions stay the
  indices, and a branch record stands directly before its target or before another branch of it,
  carries the target's name with its index, and is never the last record.\<close>

theorem branches_precede_target:
  assumes "start orc c run_id [] w = (Inr (Inr (orc', s0)), lg0, w')"
    and "clash_free (set (map at_slug (ch_tasks c)))"
    and "(chain_step orc')\<^sup>*\<^sup>* (s0, lg0) (s, lg)"
    and "i < length (rs_ats s)"
  shows "distinct (map ar_slug (rs_ats s)) \<and> ar_position (rs_ats s ! i) = int i
    \<and> (ar_parent_slug (rs_ats s ! i) \<noteq> [] \<longrightarrow>
        ar_slug (rs_ats s ! i) = ar_parent_slug (rs_ats s ! i) @ ''-fix'' @ itoa (ar_branch_index (rs_ats s ! i))
        \<and> (\<exists>j > i. j < length (rs_ats s) \<and> ar_slug (rs_ats s ! j) = ar_parent_slug (rs_ats s ! i)
             \<and> (\<forall>k. i \<le> k \<and> k < j \<longrightarrow> ar_parent_slug (rs_ats s ! k) = ar_parent_slug (rs_ats s ! i))))"
proof -
  let ?p = "ar_parent_slug (rs_ats s ! i)"
  have st: "settled orc' (set (map at_slug (ch_tasks c))) s lg"
    using chain_run_settled [OF assms(3,2)] start_settled [OF assms(1) refl] by simp
  then have shape: "shape (set (map at_slug (ch_tasks c))) (ids s)" and num: "numbered (rs_ats s)"
    by (simp_all add: settled_def base_inv_def)
  have "ar_slug (rs_ats s ! i) = ?p @ ''-fix'' @ itoa (ar_branch_index (rs_ats s ! i))
        \<and> (\<exists>j > i. j < length (rs_ats s) \<and> ar_slug (rs_ats s ! j) = ?p
             \<and> (\<forall>k. i \<le> k \<and> k < j \<longrightarrow> ar_parent_slug (rs_ats s ! k) = ?p))" if "?p \<noteq> []"
  proof
    have "id_ok (set (map at_slug (ch_tasks c))) (ids s) (task_id (rs_ats s ! i))"
      using shape assms(4) by (auto simp: shape_def)
    with that show "ar_slug (rs_ats s ! i) = ?p @ ''-fix'' @ itoa (ar_branch_index (rs_ats s ! i))"
      by (auto simp: id_ok_def task_id_def branch_slug_def)
    have "fst (snd (ids s ! i)) = ?p" using assms(4) by (simp add: task_id_def)
    with adjacent_run [of "ids s" i ?p] shape assms(4) that
    obtain j where j: "i < j" "j < length (ids s)" "fst (ids s ! j) = ?p"
      and run: "\<forall>k. i \<le> k \<and> k < j \<longrightarrow> fst (snd (ids s ! k)) = ?p" unfolding shape_def by auto
    have "ar_parent_slug (rs_ats s ! k) = ?p" if "i \<le> k" "k < j" for k
    proof -
      have "fst (snd (ids s ! k)) = ?p" using run that by blast
      with j(2) that(2) show ?thesis by (simp add: task_id_def)
    qed
    moreover have "ar_slug (rs_ats s ! j) = ?p" using j by (simp add: task_id_def)
    ultimately show "\<exists>j > i. j < length (rs_ats s) \<and> ar_slug (rs_ats s ! j) = ?p
             \<and> (\<forall>k. i \<le> k \<and> k < j \<longrightarrow> ar_parent_slug (rs_ats s ! k) = ?p)"
      using j by (metis length_map)
  qed
  moreover have "distinct (map ar_slug (rs_ats s))" using live_distinct [OF settled_live [OF st]] .
  ultimately show ?thesis using num assms(4) by (simp add: numbered_def)
qed

definition demo_branched :: "run_state \<times> event list" where
  "demo_branched = (case fst (intervene_branch_fix demo_orch (fst demo_failed) ''a'' [] 0 (fst (snd demo_failed)) 2) of
     Inl e \<Rightarrow> (empty_state, []) | Inr x \<Rightarrow> x)"

theorem branches_precede_target_witness:
  "map ar_slug (rs_ats (fst demo_branched)) = [''a-fix1'', ''a'', ''b'']
    \<and> (\<exists>j > 0. j < length (rs_ats (fst demo_branched)) \<and> ar_slug (rs_ats (fst demo_branched) ! j) = ''a'')"
proof -
  have "chain_step demo_orch (demo_state [''a'', ''b''], demo_log [''a'', ''b'']) (fst demo_failed, fst (snd demo_failed))"
    by (rule step_resume [of _ _ _ 0 _ _ "snd (snd demo_failed)"]) (simp add: demo_failed_def)
  moreover have "fst (intervene_branch_fix demo_orch (fst demo_failed) ''a'' [] 0 (fst (snd demo_failed)) 2) = Inr demo_branched"
  proof -
    have "\<not> isl (fst (intervene_branch_fix demo_orch (fst demo_failed) ''a'' [] 0 (fst (snd demo_failed)) 2))" by code_simp
    then show ?thesis by (auto simp: demo_branched_def split: sum.splits)
  qed
  then have "intervene_branch_fix demo_orch (fst demo_failed) ''a'' [] 0 (fst (snd demo_failed)) 2
      = (Inr (fst demo_branched, snd demo_branched), snd (intervene_branch_fix demo_orch (fst demo_failed) ''a'' [] 0 (fst (snd demo_failed)) 2))"
    by (simp add: prod_eq_iff)
  then have "chain_step demo_orch (fst demo_failed, fst (snd demo_failed)) (fst demo_branched, snd demo_branched)"
    by (rule step_branch)
  ultimately have run: "(chain_step demo_orch)\<^sup>*\<^sup>* (demo_state [''a'', ''b''], demo_log [''a'', ''b'']) (fst demo_branched, snd demo_branched)"
    by (meson converse_rtranclp_into_rtranclp rtranclp.rtrancl_refl)
  have slugs: "map ar_slug (rs_ats (fst demo_branched)) = [''a-fix1'', ''a'', ''b'']"
    "ar_parent_slug (rs_ats (fst demo_branched) ! 0) = ''a''" by code_simp+
  then have "0 < length (rs_ats (fst demo_branched))" by (metis length_map length_greater_0_conv list.distinct(1))
  from branches_precede_target [OF demo_start [OF demo_valid, of 0] demo_clash_free run this] slugs show ?thesis by auto
qed

subsection \<open>Compaction and collisions\<close>

text \<open>compacting a log without branch inserts keeps the state it projects to.\<close>

theorem compact_keeps_projection:
  assumes "list_all delta lg"
  shows "fold_log (compact (EvChainStarted rid slug target base integ seeds # lg))
    = fold_log (EvChainStarted rid slug target base integ seeds # lg)"
  using assms by (rule compact_after_start)

theorem compact_keeps_projection_witness:
  "fold_log (compact (fst (snd demo_done))) = fold_log (fst (snd demo_done))
    \<and> length (compact (fst (snd demo_done))) < length (fst (snd demo_done))"
proof -
  have shape: "fst (snd demo_done) = hd (demo_log [''a'', ''b'']) # tl (fst (snd demo_done))" by code_simp
  have "list_all delta (tl (fst (snd demo_done)))" by code_simp
  from compact_keeps_projection [OF this]
  have "fold_log (compact (fst (snd demo_done))) = fold_log (fst (snd demo_done))"
    by (subst (1 2) shape) (simp add: demo_log_def)
  moreover have "length (compact (fst (snd demo_done))) < length (fst (snd demo_done))" by code_simp
  ultimately show ?thesis by blast
qed

text \<open>A run with two branch fixes: \<open>never\<close> fails, is branched, its branch fails, then \<open>a\<close> is
  branched.\<close>

definition stage_or :: "(stage_error + run_state \<times> event list) \<times> nat \<Rightarrow> run_state \<times> event list" where
  "stage_or x = (case fst x of Inl e \<Rightarrow> (empty_state, []) | Inr y \<Rightarrow> y)"

definition branch_never :: "run_state \<times> event list" where
  "branch_never = (let (s, lg, w) = resume demo_orch (demo_state [''a'', ''never'']) (demo_log [''a'', ''never'']) 3
     in stage_or (intervene_branch_fix demo_orch s ''never'' [] 0 lg w))"

definition branch_a :: "run_state \<times> event list" where
  "branch_a = (let (s, lg, w) = resume demo_orch (fst branch_never) (snd branch_never) 9
     in stage_or (intervene_branch_fix demo_orch s ''a'' [] 0 lg w))"

text \<open>compaction is not fold-equivalent once a branch was inserted before another one: the status
  of the earlier branch carries its later position, and the compacted log inserts it there. Here the
  branch \<open>never-fix1\<close> ends up behind the task it supersedes.\<close>

theorem compact_reorders_branches:
  "map ar_slug (rs_ats (fold_log (snd branch_a))) = [''a-fix1'', ''a'', ''never-fix1'', ''never'']
   \<and> map ar_slug (rs_ats (fold_log (compact (snd branch_a)))) = [''a-fix1'', ''a'', ''never'', ''never-fix1'']"
proof
  show "map ar_slug (rs_ats (fold_log (snd branch_a))) = [''a-fix1'', ''a'', ''never-fix1'', ''never'']" by code_simp
  show "map ar_slug (rs_ats (fold_log (compact (snd branch_a)))) = [''a-fix1'', ''a'', ''never'', ''never-fix1'']" by code_simp
qed

definition collided :: "run_state \<times> event list" where
  "collided = (let (s, lg, w) = resume demo_orch (demo_state [''never-fix1'', ''never'']) (demo_log [''never-fix1'', ''never'']) 0
     in stage_or (intervene_branch_fix demo_orch s ''never'' [] 0 lg w))"

text \<open>Validation accepts a task whose slug is that of a branch of another task; a branch fix then
  creates a second record with that slug, and the log no longer projects to the live state.\<close>

theorem branch_slug_collision:
  "validate (demo_chain [''never-fix1'', ''never'']) = None
   \<and> map ar_slug (rs_ats (fst collided)) = [''never-fix1'', ''never-fix1'', ''never'']
   \<and> fold_log (snd collided) \<noteq> fst collided"
proof (intro conjI)
  show "validate (demo_chain [''never-fix1'', ''never'']) = None" by code_simp
  show "map ar_slug (rs_ats (fst collided)) = [''never-fix1'', ''never-fix1'', ''never'']" by code_simp
  have "map ar_parent_slug (rs_ats (fold_log (snd collided))) \<noteq> map ar_parent_slug (rs_ats (fst collided))" by code_simp
  then show "fold_log (snd collided) \<noteq> fst collided" by auto
qed

end
