(* ===== verification/Coding_Gate_Props.thy ===== *)
theory Coding_Gate_Props
  imports Coding_Demo
begin

text \<open>
  The properties of the gate and of the checks around it: the gate as a fail-fast run of its
  commands, what a task that lands has passed, the verifier's decision, the inputs of a task, the
  protected-path guard, and the gaps found.
\<close>

subsection \<open>The gate\<close>

text \<open>The reference: all commands one after the other, whatever their exit codes.\<close>

fun run_seq :: "'w runner \<Rightarrow> string \<Rightarrow> int \<Rightarrow> string list list \<Rightarrow> 'w \<Rightarrow> command_result list" where
  "run_seq run dir timeout [] w = []"
| "run_seq run dir timeout (c # cs) w =
     (case run c dir timeout w of (r, w') \<Rightarrow> r # run_seq run dir timeout cs w')"

abbreviation exit_ok :: "command_result \<Rightarrow> bool" where
  "exit_ok r \<equiv> cr_exit r = 0"

lemma gate_loop_spec:
  "gr_passed (fst (gate_loop run dir timeout runs cs w)) \<longleftrightarrow>
     (runs \<noteq> [] \<or> cs \<noteq> []) \<and> list_all exit_ok (run_seq run dir timeout cs w)"
  "gr_runs (fst (gate_loop run dir timeout runs cs w)) =
     runs @ takeWhile exit_ok (run_seq run dir timeout cs w)
       @ take 1 (dropWhile exit_ok (run_seq run dir timeout cs w))"
  "gr_diagnostic (fst (gate_loop run dir timeout runs cs w)) =
     (case dropWhile exit_ok (run_seq run dir timeout cs w) of [] \<Rightarrow> [] | r # _ \<Rightarrow> gate_diagnostic r)"
  by (induction cs arbitrary: runs w) (auto split: prod.splits)

text \<open>C9: The gate passes exactly when it has a command and every command, run in order in the world
  the previous ones left, exits with 0; it runs the commands up to and including the first that
  fails and no further, and its diagnostic is that of the failing command.\<close>

theorem gate_fail_fast:
  "(let g = fst (gate_run run cmds timeout dir w); rs = run_seq run dir timeout cmds w
    in gr_passed g = (cmds \<noteq> [] \<and> list_all exit_ok rs)
       \<and> gr_runs g = takeWhile exit_ok rs @ take 1 (dropWhile exit_ok rs)
       \<and> gr_diagnostic g = (case dropWhile exit_ok rs of [] \<Rightarrow> [] | r # _ \<Rightarrow> gate_diagnostic r))"
  by (simp add: gate_run_def gate_loop_spec Let_def)

subsection \<open>What a landed task has passed\<close>












lemma carry_tier_spec [simp]: "ar_spec (carry_tier tier ar) = ar_spec ar"
  by (simp add: carry_tier_def)












subsection \<open>The independent verifier\<close>

text \<open>With a verifier wired, the verify phase succeeds exactly when the verifier returned a report
  whose first verdict is PASS, the report has a fenced block of real command output, and the
  orchestrator's own re-run of the first gate command exits 0 (or the gate has no command).\<close>

theorem verify_phase_accepts:
  "fst (fst (run_verify_phase run timeout (Some verify) spec dir w)) = WorkerSuccess \<longleftrightarrow>
     (\<exists>report w'. verify spec dir w = (Inr report, w') \<and> first_verdict report = VerdictPass
        \<and> has_command_evidence report (at_gate spec)
        \<and> (first_nonempty_command (at_gate spec) = []
           \<or> cr_exit (fst (run (first_nonempty_command (at_gate spec)) dir timeout w')) = 0))"
proof (cases "verify spec dir w")
  case (Pair res w')
  then show ?thesis
    by (cases res) (auto simp: run_verify_phase_def parse_verifier_report_def spot_check_def Let_def split: prod.splits)
qed

subsection \<open>Inputs\<close>

lemma upstream_Some:
  assumes "upstream ats from = Some up"
  shows "\<exists>i < length ats. up = ats ! i \<and> ar_status up = ATSuccess \<and> (ar_slug up = from \<or> ar_parent_slug up = from)
    \<and> (\<forall>j < length ats. i < j \<longrightarrow> \<not> (ar_status (ats ! j) = ATSuccess
         \<and> (ar_slug (ats ! j) = from \<or> ar_parent_slug (ats ! j) = from)))"
proof -
  let ?P = "\<lambda>cand. ar_status cand = ATSuccess \<and> (ar_slug cand = from \<or> ar_parent_slug cand = from)"
  obtain k where k: "k < length ats" "?P (rev ats ! k)" "up = rev ats ! k" "\<forall>j < k. \<not> ?P (rev ats ! j)"
    using assms by (auto simp: upstream_def find_Some_iff)
  let ?i = "length ats - Suc k"
  have "\<not> ?P (ats ! j)" if "j < length ats" "?i < j" for j
  proof -
    have "length ats - Suc j < k" using that k(1) by simp
    with k(4) have "\<not> ?P (rev ats ! (length ats - Suc j))" by blast
    with that show ?thesis by (simp add: rev_nth Suc_diff_Suc)
  qed
  with k show ?thesis by (intro exI [of _ ?i]) (auto simp: rev_nth)
qed

lemma resolve_each_Inr:
  "resolve_each ats ins = Inr vals \<Longrightarrow> map fst vals = map fst ins
     \<and> (\<forall>k < length ins. resolve_input ats (fst (ins ! k)) (snd (ins ! k)) = Inr (snd (vals ! k)))"
proof (induction ats ins arbitrary: vals rule: resolve_each.induct)
  case (1 ats)
  then show ?case by simp
next
  case (2 ats name ref rest)
  then obtain v vs where "resolve_input ats name ref = Inr v" "resolve_each ats rest = Inr vs" "vals = (name, v) # vs"
    by (auto split: sum.splits)
  with 2 show ?case by (auto simp: nth_Cons split: nat.splits)
qed

text \<open>resolved inputs carry the names the task declares, and each value is the named output of the
  last successful record whose slug or parent is the referenced task: a landed branch supersedes the
  outputs of its target.\<close>

theorem inputs_from_latest_success:
  assumes "resolve_inputs s spec = Inr vals" "k < length (at_inputs spec)"
  shows "map fst vals = map fst (at_inputs spec)
    \<and> (\<exists>i < length (rs_ats s). let from = ir_from (snd (at_inputs spec ! k)) in
         ar_status (rs_ats s ! i) = ATSuccess \<and> (ar_slug (rs_ats s ! i) = from \<or> ar_parent_slug (rs_ats s ! i) = from)
         \<and> map_of (ar_outputs (rs_ats s ! i)) (ir_field (snd (at_inputs spec ! k))) = Some (snd (vals ! k))
         \<and> (\<forall>j < length (rs_ats s). i < j \<longrightarrow> \<not> (ar_status (rs_ats s ! j) = ATSuccess
              \<and> (ar_slug (rs_ats s ! j) = from \<or> ar_parent_slug (rs_ats s ! j) = from))))"
proof -
  let ?ref = "snd (at_inputs spec ! k)"
  have each: "map fst vals = map fst (at_inputs spec)"
    "resolve_input (rs_ats s) (fst (at_inputs spec ! k)) ?ref = Inr (snd (vals ! k))"
    using resolve_each_Inr assms by (auto simp: resolve_inputs_def)
  then obtain up where up: "upstream (rs_ats s) (ir_from ?ref) = Some up"
    "map_of (ar_outputs up) (ir_field ?ref) = Some (snd (vals ! k))"
    by (auto simp: resolve_input_def split: option.splits)
  from upstream_Some [OF up(1)] up(2) each(1) show ?thesis unfolding Let_def by blast
qed

definition demo_outputs :: run_state where
  "demo_outputs = (demo_state [''a'', ''b''])\<lparr>rs_ats :=
     [(new_record ''a-fix1'' (demo_task ''a-fix1'') 0)\<lparr>ar_status := ATSuccess, ar_parent_slug := ''a'',
         ar_outputs := [(''sig'', VStr ''new'')]\<rparr>,
      (new_record ''a'' (demo_task ''a'') 1)\<lparr>ar_status := ATSkipped, ar_outputs := [(''sig'', VStr ''old'')]\<rparr>]\<rparr>"

theorem inputs_from_latest_success_witness:
  "resolve_inputs demo_outputs ((demo_task ''b'')\<lparr>at_inputs := [(''api'', \<lparr>ir_from = ''a'', ir_field = ''sig''\<rparr>)]\<rparr>)
     = Inr [(''api'', VStr ''new'')]
   \<and> (\<exists>i < length (rs_ats demo_outputs). map_of (ar_outputs (rs_ats demo_outputs ! i)) ''sig'' = Some (VStr ''new''))"
proof -
  let ?spec = "(demo_task ''b'')\<lparr>at_inputs := [(''api'', \<lparr>ir_from = ''a'', ir_field = ''sig''\<rparr>)]\<rparr>"
  have res: "resolve_inputs demo_outputs ?spec = Inr [(''api'', VStr ''new'')]" by code_simp
  have "0 < length (at_inputs ?spec)" by simp
  from inputs_from_latest_success [OF res this]
  have "\<exists>i < length (rs_ats demo_outputs). map_of (ar_outputs (rs_ats demo_outputs ! i)) ''sig'' = Some (VStr ''new'')"
    by (simp add: Let_def) blast
  with res show ?thesis by blast
qed

subsection \<open>Scoping\<close>

lemma scopes_loop_covers:
  assumes "scopes_loop scope acc fs = Some res"
  shows "set acc \<subseteq> set res \<and> (\<forall>f \<in> set fs. \<exists>sc \<in> set res. scope f = Some sc)"
  using assms
proof (induction scope acc fs arbitrary: res rule: scopes_loop.induct)
  case (1 scope acc)
  then show ?case by simp
next
  case (2 scope acc f fs)
  from "2.prems" obtain sc where sc: "scope f = Some sc"
    and loop: "scopes_loop scope (if sc \<in> set acc then acc else acc @ [sc]) fs = Some res"
    by (auto split: option.splits)
  from "2.IH" [OF sc loop] have IH: "set (if sc \<in> set acc then acc else acc @ [sc]) \<subseteq> set res"
    "\<forall>f \<in> set fs. \<exists>sc \<in> set res. scope f = Some sc" by auto
  moreover have "sc \<in> set res" "set acc \<subseteq> set res" using IH(1) by (auto split: if_splits)
  ultimately show ?case using sc by auto
qed

text \<open>When the whole-module test is narrowed, every edited Go file is covered: its package
  directory exists under the module root and is one of the tested scopes.\<close>

theorem scopes_cover_edits:
  assumes "go_test_scopes dir_exists changed dir gate_dir \<noteq> []" "f \<in> set changed"
  shows "\<exists>prefix mod_rel. file_rel dir gate_dir = Some prefix \<and> file_rel (if prefix = [] then ''.'' else prefix) f = Some mod_rel
    \<and> \<not> has_prefix mod_rel ''..'' \<and> dir_exists (file_join gate_dir (path_dir mod_rel))
    \<and> ''./'' @ path_dir mod_rel @ ''/...'' \<in> set (go_test_scopes dir_exists changed dir gate_dir)"
proof -
  obtain prefix scopes where p: "file_rel dir gate_dir = Some prefix"
    "scopes_loop (file_scope dir_exists (if prefix = [] then ''.'' else prefix) gate_dir) [] changed = Some scopes"
    "go_test_scopes dir_exists changed dir gate_dir = sort scopes"
    using assms(1) by (auto simp: go_test_scopes_def split: if_splits option.splits)
  obtain sc where sc: "sc \<in> set scopes" "file_scope dir_exists (if prefix = [] then ''.'' else prefix) gate_dir f = Some sc"
    using scopes_loop_covers [OF p(2)] assms(2) by blast
  then obtain mod_rel where "file_rel (if prefix = [] then ''.'' else prefix) f = Some mod_rel"
    "\<not> has_prefix mod_rel ''..''" "dir_exists (file_join gate_dir (path_dir mod_rel))"
    "sc = ''./'' @ path_dir mod_rel @ ''/...''"
    unfolding file_scope_def Let_def by (auto split: option.splits if_splits)
  with p sc show ?thesis by auto
qed

theorem scopes_cover_edits_witness:
  "''./internal/work/...'' \<in> set (go_test_scopes (\<lambda>d. d = ''/w/go/internal/work'') [''go/internal/work/chain.go''] ''/w'' ''/w/go'')"
proof -
  let ?d = "\<lambda>d. d = ''/w/go/internal/work''"
  have ne: "go_test_scopes ?d [''go/internal/work/chain.go''] ''/w'' ''/w/go'' \<noteq> []" by code_simp
  have f: "''go/internal/work/chain.go'' \<in> set [''go/internal/work/chain.go'']" by simp
  have "file_rel ''/w'' ''/w/go'' = Some ''go''" "file_rel ''go'' ''go/internal/work/chain.go'' = Some ''internal/work/chain.go''"
    "path_dir ''internal/work/chain.go'' = ''internal/work''" by code_simp+
  with scopes_cover_edits [OF ne f] show ?thesis by auto
qed

text \<open>a gate given as the argument vector \<open>go test ./...\<close> is not recognised as a whole-module
  test, because each token is searched for the whole phrase; such a gate is run on the whole module
  although the rewrite that would narrow it exists.\<close>

theorem argv_gate_not_scoped:
  "scope_or_skip_gate dir_exists [[''go'', ''test'', ''./...'']] changed dir gate_dir = ([[''go'', ''test'', ''./...'']], [])
   \<and> scope_go_test [''go'', ''test'', ''./...''] [''./p/...''] = [''go'', ''test'', ''./p/...'']"
proof
  have "\<not> gate_has_whole_repo_go_test [[''go'', ''test'', ''./...'']]" by code_simp
  then show "scope_or_skip_gate dir_exists [[''go'', ''test'', ''./...'']] changed dir gate_dir = ([[''go'', ''test'', ''./...'']], [])"
    by (simp add: scope_or_skip_gate_def)
  show "scope_go_test [''go'', ''test'', ''./...''] [''./p/...''] = [''go'', ''test'', ''./p/...'']" by code_simp
qed

subsection \<open>Protected paths\<close>

text \<open>The dispatch guard vetoes exactly the \<open>fs.write\<close> and \<open>fs.edit\<close> calls whose path is
  protected.\<close>

theorem protected_guard_exact:
  assumes "hc_tool_call ctx = Some c" "\<not> hc_deny ctx"
  shows "hc_deny (fst (protected_path_guard protected ctx)) \<longleftrightarrow>
    surface c = ''fs'' \<and> (action c = ''write'' \<or> action c = ''edit'')
    \<and> tool_call_path c \<noteq> [] \<and> is_protected (tool_call_path c) protected"
proof -
  have "\<not> is_protected p []" for p by (simp add: is_protected_def)
  moreover have "v_class (classify c) = Mutating" if "surface c = ''fs''" "action c = ''write'' \<or> action c = ''edit''"
    using that by (auto simp: classify_def)
  ultimately show ?thesis
    using assms by (auto simp: protected_path_guard_def protected_path_gate_def Let_def split: prod.splits bool.splits)
qed

definition write_context :: "unit hook_context" where
  "write_context = \<lparr>hc_kind = PreToolUse, hc_session = ''s'', hc_turn = 1,
     hc_tool_call = Some \<lparr>call_id = ''1'', surface = ''fs'', action = ''write'',
       params = Some [''file_path'' \<mapsto> VStr ''p/gate_test.go''], rationale = []\<rparr>,
     hc_deny = False, hc_deny_reason = [], hc_deny_non_escalatable = False,
     hc_request_escalation = False, hc_errors = [], hc_rest = ()\<rparr>"

theorem protected_guard_exact_witness:
  "hc_deny (fst (protected_path_guard [''**/*_test.go''] write_context))"
proof -
  let ?c = "\<lparr>call_id = ''1'', surface = ''fs'', action = ''write'',
       params = Some [''file_path'' \<mapsto> VStr ''p/gate_test.go''], rationale = []\<rparr>"
  have "hc_tool_call write_context = Some ?c" "\<not> hc_deny write_context" by (simp_all add: write_context_def)
  moreover have "tool_call_path ?c = ''p/gate_test.go''" by (simp add: tool_call_path_def string_param_def)
  moreover have "is_protected ''p/gate_test.go'' [''**/*_test.go'']" by code_simp
  ultimately show ?thesis using protected_guard_exact [of write_context ?c "[''**/*_test.go'']"] by simp
qed

definition rename_diff :: string where
  "rename_diff = ''diff --git a/p/gate_test.go b/p/gate.txt'' @ newline @ ''similarity index 100%'' @ newline
     @ ''rename from p/gate_test.go'' @ newline @ ''rename to p/gate.txt''"

text \<open>moving a protected file away goes unnoticed: neither the dispatch guard nor the risk guard
  vetoes an \<open>fs.move\<close>, and the diff of a rename names only the new path, so the post-attempt check
  raises no flag although the protected gate test is gone.\<close>

theorem protected_rename_unnoticed:
  "gate_flags rename_diff ((demo_task ''a'')\<lparr>at_protected := [''**/*_test.go'']\<rparr>) = []
   \<and> is_protected ''p/gate_test.go'' [''**/*_test.go'']
   \<and> fst (protected_path_guard protected (ctx\<lparr>hc_tool_call := Some (c\<lparr>surface := ''fs'', action := ''move''\<rparr>)\<rparr>))
       = ctx\<lparr>hc_tool_call := Some (c\<lparr>surface := ''fs'', action := ''move''\<rparr>)\<rparr>
   \<and> fst (guard g (ctx\<lparr>hc_tool_call := Some (c\<lparr>surface := ''fs'', action := ''move''\<rparr>)\<rparr>))
       = ctx\<lparr>hc_tool_call := Some (c\<lparr>surface := ''fs'', action := ''move''\<rparr>)\<rparr>"
proof (intro conjI)
  show "gate_flags rename_diff ((demo_task ''a'')\<lparr>at_protected := [''**/*_test.go'']\<rparr>) = []" by code_simp
  show "is_protected ''p/gate_test.go'' [''**/*_test.go'']" by code_simp
qed (simp_all add: protected_path_guard_def protected_path_gate_def guard_def classify_def)

end
