(* ===== verification/Cost.thy ===== *)
theory Cost
  imports Go_Prelude
begin

text \<open>
  Pricing and cost accounting, \<open>internal/cost/cost.go\<close>: the price table, \<open>Price\<close> and
  \<open>PriceUsage\<close>, the tier classification, the per-model ledger and the shared meter. The rates are
  decimal constants and every cost is a polynomial in them: the model computes with the exact
  rationals, the code with their \<open>float64\<close> roundings. The ledger's map of pointers is an association
  list with one entry per model; the order in which Go iterates over the map is not observable in
  the total, and in the breakdown only between rollups of equal cost.
\<close>

subsection \<open>The price table\<close>

record rate =
  in_per_1k :: rat
  cached_in_per_1k :: rat
  cache_write_per_1k :: rat
  out_per_1k :: rat

definition per_mega :: "rat \<Rightarrow> rat \<Rightarrow> rat \<Rightarrow> rat \<Rightarrow> rate" where
  "per_mega i c w u = \<lparr>in_per_1k = i / 1000, cached_in_per_1k = c / 1000, cache_write_per_1k = w / 1000, out_per_1k = u / 1000\<rparr>"

text \<open>The table's literals are USD per 1K tokens; \<open>per_mega\<close> takes them per 1M, so \<open>0.005\<close> reads 5.\<close>

definition price_table :: "(string \<times> rate) list" where
  "price_table = [
     (''claude-opus-4-8'', per_mega 5 (1/2) (25/4) 25),
     (''claude-opus-4-7'', per_mega 5 (1/2) (25/4) 25),
     (''claude-sonnet-4-6'', per_mega 3 (3/10) (15/4) 15),
     (''claude-haiku-4-5-20251001'', per_mega 1 (1/10) (5/4) 5),
     (''google/gemini-3.1-flash-lite'', per_mega (1/4) (1/40) (3125/10000) (3/2)),
     (''deepseek-v4-pro'', per_mega (7/10) (7/100) (875/1000) (14/10)),
     (''deepseek-chat'', per_mega (28/100) (28/1000) (35/100) (42/100)),
     (''deepseek/deepseek-v3.2'', per_mega (2145/10000) (2145/100000) (268/1000) (3218/10000)),
     (''qwen2.5-32b'', per_mega 0 0 0 0),
     (''Qwen2.5-32B-Instruct-Q4_K_M.gguf'', per_mega 0 0 0 0),
     (''echo'', per_mega 0 0 0 0)]"

datatype price_source = PricedUnknown | PricedProvider | PricedTable | PricedUnpriced | PricedMixed

record cost_usage =
  cu_input :: int
  cu_cached :: int
  cu_cache_write :: int
  cu_output :: int
  cu_provider_usd :: rat
  cu_reported :: bool

definition price :: "string \<Rightarrow> int \<Rightarrow> int \<Rightarrow> rat" where
  "price model_id input outp =
     (case map_of price_table model_id of
        None \<Rightarrow> 0
      | Some r \<Rightarrow> of_int input / 1000 * in_per_1k r + of_int outp / 1000 * out_per_1k r)"

definition price_usage :: "string \<Rightarrow> cost_usage \<Rightarrow> rat \<times> price_source" where
  "price_usage model_id u =
     (if cu_reported u then (cu_provider_usd u, PricedProvider)
      else (case map_of price_table model_id of
              None \<Rightarrow> (0, PricedUnpriced)
            | Some r \<Rightarrow>
                (let fresh = cu_input u - cu_cached u - cu_cache_write u;
                     fresh' = (if fresh < 0 then 0 else fresh)
                 in (of_int fresh' / 1000 * in_per_1k r + of_int (cu_cached u) / 1000 * cached_in_per_1k r
                     + of_int (cu_cache_write u) / 1000 * cache_write_per_1k r
                     + of_int (cu_output u) / 1000 * out_per_1k r, PricedTable))))"

definition is_priced :: "string \<Rightarrow> bool" where
  "is_priced model_id = (map_of price_table model_id \<noteq> None)"

subsection \<open>Tiers\<close>

datatype tier = TierUnknown | TierLocal | TierMid | TierStrong

definition tier_table :: "(string \<times> tier) list" where
  "tier_table = [
     (''claude-opus-4-8'', TierStrong), (''claude-opus-4-7'', TierStrong), (''claude-sonnet-4-6'', TierStrong),
     (''claude-haiku-4-5-20251001'', TierMid), (''google/gemini-3.1-flash-lite'', TierMid),
     (''deepseek-v4-pro'', TierMid), (''deepseek-chat'', TierMid), (''deepseek/deepseek-v3.2'', TierMid),
     (''qwen2.5-32b'', TierLocal), (''Qwen2.5-32B-Instruct-Q4_K_M.gguf'', TierLocal), (''echo'', TierLocal)]"

definition tier_family :: "(string \<times> tier) list" where
  "tier_family = [(''opus'', TierStrong), (''sonnet'', TierStrong), (''haiku'', TierMid), (''gemini'', TierMid),
     (''deepseek'', TierMid), (''qwen'', TierLocal), (''.gguf'', TierLocal), (''echo'', TierLocal)]"

definition classify_tier :: "string \<Rightarrow> tier" where
  "classify_tier model_id =
     (case map_of tier_table model_id of
        Some t \<Rightarrow> t
      | None \<Rightarrow> (case find (\<lambda>(needle, t). contains (to_lower model_id) needle) tier_family of
                   Some (needle, t) \<Rightarrow> t
                 | None \<Rightarrow> TierUnknown))"

subsection \<open>The ledger\<close>

record model_total =
  mt_model :: string
  mt_input :: int
  mt_cached :: int
  mt_cache_write :: int
  mt_output :: int
  mt_usd :: rat
  mt_priced :: bool
  mt_priced_from :: price_source

type_synonym ledger = "model_total list"

definition combine_source :: "price_source \<Rightarrow> price_source \<Rightarrow> price_source" where
  "combine_source have_src add_src =
     (if have_src = PricedUnknown then add_src else if have_src = add_src then have_src else PricedMixed)"

definition fresh_total :: "string \<Rightarrow> model_total" where
  "fresh_total model_id = \<lparr>mt_model = model_id, mt_input = 0, mt_cached = 0, mt_cache_write = 0, mt_output = 0,
     mt_usd = 0, mt_priced = False, mt_priced_from = PricedUnknown\<rparr>"

definition accrue :: "cost_usage \<Rightarrow> rat \<Rightarrow> price_source \<Rightarrow> model_total \<Rightarrow> model_total" where
  "accrue u usd src t =
     (let from_src = combine_source (mt_priced_from t) src
      in t\<lparr>mt_input := mt_input t + cu_input u, mt_cached := mt_cached t + cu_cached u,
           mt_cache_write := mt_cache_write t + cu_cache_write u, mt_output := mt_output t + cu_output u,
           mt_usd := mt_usd t + usd, mt_priced_from := from_src,
           mt_priced := (from_src \<noteq> PricedUnpriced \<and> from_src \<noteq> PricedUnknown)\<rparr>)"

fun update_total :: "string \<Rightarrow> (model_total \<Rightarrow> model_total) \<Rightarrow> ledger \<Rightarrow> ledger" where
  "update_total model_id f [] = [f (fresh_total model_id)]"
| "update_total model_id f (t # ts) =
     (if mt_model t = model_id then f t # ts else t # update_total model_id f ts)"

definition ledger_add :: "string \<Rightarrow> cost_usage \<Rightarrow> ledger \<Rightarrow> rat \<times> ledger" where
  "ledger_add model_id u l =
     (case price_usage model_id u of (usd, src) \<Rightarrow> (usd, update_total model_id (accrue u usd src) l))"

definition total_usd :: "ledger \<Rightarrow> rat" where
  "total_usd l = sum_list (map mt_usd l)"

definition breakdown :: "ledger \<Rightarrow> model_total list" where
  "breakdown l = sort_key (\<lambda>t. - mt_usd t) l"

subsection \<open>The shared meter\<close>

record meter =
  me_ceiling :: rat
  me_total :: rat

definition new_meter :: "rat \<Rightarrow> meter" where
  "new_meter limit = \<lparr>me_ceiling = limit, me_total = 0\<rparr>"

definition meter_add :: "rat \<Rightarrow> meter \<Rightarrow> rat \<times> meter" where
  "meter_add usd m = (me_total m + usd, m\<lparr>me_total := me_total m + usd\<rparr>)"

definition exceeded :: "meter \<Rightarrow> bool" where
  "exceeded m = (if me_ceiling m \<le> 0 then False else me_ceiling m \<le> me_total m)"

subsection \<open>Accounting laws\<close>

text \<open>A run of priced calls: the ledger after them and what each call returned.\<close>

fun ledger_adds :: "(string \<times> cost_usage) list \<Rightarrow> ledger \<Rightarrow> rat list \<times> ledger" where
  "ledger_adds [] l = ([], l)"
| "ledger_adds ((model_id, u) # calls) l =
     (case ledger_add model_id u l of
        (usd, l1) \<Rightarrow> (case ledger_adds calls l1 of (usds, l2) \<Rightarrow> (usd # usds, l2)))"

lemma update_total_models:
  "mt_model (f (fresh_total m)) = m \<Longrightarrow> (\<And>t. mt_model (f t) = mt_model t) \<Longrightarrow>
     set (map mt_model (update_total m f l)) = insert m (set (map mt_model l))"
  by (induction l) auto

lemma update_total_distinct:
  assumes f: "\<And>t. mt_model (f t) = mt_model t"
  shows "distinct (map mt_model l) \<Longrightarrow> distinct (map mt_model (update_total m f l))"
proof (induction l)
  case (Cons t l)
  have "set (map mt_model (update_total m f l)) = insert m (set (map mt_model l))"
    by (rule update_total_models) (simp_all add: f fresh_total_def)
  with Cons show ?case by (auto simp: f)
qed simp

lemma accrue_model [simp]: "mt_model (accrue u usd src t) = mt_model t"
  by (simp add: accrue_def Let_def)

lemma update_total_usd:
  "total_usd (update_total m (accrue u usd src) l) = total_usd l + usd"
  by (induction l) (auto simp: total_usd_def accrue_def fresh_total_def Let_def)

lemma ledger_add_total: "ledger_add m u l = (usd, l') \<Longrightarrow> total_usd l' = total_usd l + usd"
  by (auto simp: ledger_add_def update_total_usd split: prod.splits)

lemma ledger_adds_total:
  "ledger_adds calls l = (usds, l') \<Longrightarrow> total_usd l' = total_usd l + sum_list usds"
proof (induction calls l arbitrary: usds l' rule: ledger_adds.induct)
  case (2 m u calls l)
  obtain usd l1 where a: "ledger_add m u l = (usd, l1)" by fastforce
  obtain us l2 where b: "ledger_adds calls l1 = (us, l2)" by fastforce
  from a b "2.prems" have "usds = usd # us" "l' = l2" by auto
  with "2.IH" [OF a [symmetric] b] ledger_add_total [OF a] show ?case by simp
qed simp

lemma ledger_adds_distinct:
  "ledger_adds calls l = (usds, l') \<Longrightarrow> distinct (map mt_model l) \<Longrightarrow> distinct (map mt_model l')"
proof (induction calls l arbitrary: usds l' rule: ledger_adds.induct)
  case (2 m u calls l)
  obtain usd l1 where a: "ledger_add m u l = (usd, l1)" by fastforce
  obtain us l2 where b: "ledger_adds calls l1 = (us, l2)" by fastforce
  have "distinct (map mt_model l1)"
    using a "2.prems"(2) by (auto simp: ledger_add_def update_total_distinct split: prod.splits)
  with "2.IH" [OF a [symmetric] b] a b "2.prems"(1) show ?case by auto
qed simp

lemma breakdown_sorted: "sorted_wrt (\<lambda>a b. mt_usd b \<le> mt_usd a) (breakdown l)"
proof -
  have "sorted (map (\<lambda>t. - mt_usd t) (breakdown l))" by (simp add: breakdown_def)
  then show ?thesis by (simp add: sorted_map)
qed

lemma rates_nonneg:
  assumes "map_of price_table m = Some r"
  shows "0 \<le> in_per_1k r \<and> 0 \<le> cached_in_per_1k r \<and> 0 \<le> cache_write_per_1k r \<and> 0 \<le> out_per_1k r
    \<and> cached_in_per_1k r \<le> in_per_1k r"
  using assms by (auto simp: price_table_def per_mega_def split: if_splits)

lemma price_nonneg: "0 \<le> i \<Longrightarrow> 0 \<le> u \<Longrightarrow> 0 \<le> price m i u"
  using rates_nonneg [of m] by (auto simp: price_def intro!: add_nonneg_nonneg mult_nonneg_nonneg split: option.splits)

lemma exceeded_stays: "exceeded m \<Longrightarrow> 0 \<le> usd \<Longrightarrow> exceeded (snd (meter_add usd m))"
  by (auto simp: exceeded_def meter_add_def split: if_splits)

lemma tiers_priced: "map_of tier_table m \<noteq> None \<longleftrightarrow> is_priced m"
  by (auto simp: tier_table_def price_table_def is_priced_def)

end
