(* ===== verification/Operator_Seat.thy ===== *)
theory Operator_Seat
  imports Coding_Laws Router_Laws Cost
begin

text \<open>
  The operator seat of the coding chain, \<open>internal/coding/{context,operator,operator_seat,bridge}.go\<close>:
  on a failed or paused chain it gathers the failed task's context, asks the tier a per-point router
  selects for one decision, applies it and resumes, until the chain leaves the operator's hands, the
  strong tier has failed a point too, or the intervention budget is spent. \<open>RunDuty\<close> is the whole
  coding path of one duty. The operator is a parameter (a function on the world); \<open>model_decide\<close> is
  the production operator over a parameter for the model call and one for the JSON decoder. The
  ladder's router has no shared pool: its budget interface is the inert \<open>no_pool\<close>.
\<close>

subsection \<open>The operator's context\<close>

definition package_dirs :: "string list \<Rightarrow> string list" where
  "package_dirs ws =
     sort (remdups (filter (\<lambda>d. d \<noteq> [] \<and> d \<noteq> ''.'') (map path_dir (filter (\<lambda>p. has_suffix p ''.go'') ws))))"

definition current_package_cap :: nat where
  "current_package_cap = 2400"

definition cap_bytes :: "string \<Rightarrow> nat \<Rightarrow> string" where
  "cap_bytes s limit = (if length s \<le> limit then s else take limit s)"

fun file_chunks :: "'w package_reader \<Rightarrow> string list \<Rightarrow> 'w \<Rightarrow> string list \<times> 'w" where
  "file_chunks pr [] w = ([], w)"
| "file_chunks pr (f # fs) w =
     (if \<not> has_suffix f ''.go'' \<or> has_suffix f ''_test.go'' then file_chunks pr fs w
      else (case show_file pr f w of
              (Inl e, w1) \<Rightarrow> file_chunks pr fs w1
            | (Inr body, w1) \<Rightarrow>
                (if body = [] then file_chunks pr fs w1
                 else (case file_chunks pr fs w1 of
                         (cs, w2) \<Rightarrow> ((''// '' @ f @ newline @ cap_bytes body current_package_cap) # cs, w2)))))"

fun dir_chunks :: "'w package_reader \<Rightarrow> string list \<Rightarrow> 'w \<Rightarrow> string list \<times> 'w" where
  "dir_chunks pr [] w = ([], w)"
| "dir_chunks pr (d # ds) w =
     (case list_package pr d w of
        (Inl e, w1) \<Rightarrow> dir_chunks pr ds w1
      | (Inr files, w1) \<Rightarrow>
          (case file_chunks pr files w1 of
             (cs, w2) \<Rightarrow> (case dir_chunks pr ds w2 of (cs', w3) \<Rightarrow> (cs @ cs', w3))))"

definition current_package_files :: "'w repo \<Rightarrow> atomic_task \<Rightarrow> 'w \<Rightarrow> string \<times> 'w" where
  "current_package_files rp spec w =
     (case reader rp of
        None \<Rightarrow> ([], w)
      | Some pr \<Rightarrow>
          (let dirs = package_dirs (at_workspace spec)
           in if dirs = [] then ([], w)
              else (case dir_chunks pr dirs w of (cs, w1) \<Rightarrow> (join (newline @ newline) cs, w1))))"

record operator_context =
  oc_failed_slug :: string
  oc_goal :: string
  oc_worker_status :: worker_status
  oc_diagnostic :: string
  oc_gate_tails :: string
  oc_package_files :: string
  oc_diff :: string
  oc_hint :: string

subsection \<open>Decisions\<close>

type_synonym operator_op = string

definition op_edit :: operator_op where "op_edit = ''edit''"
definition op_branch_fix :: operator_op where "op_branch_fix = ''branch_fix''"
definition op_force_advance :: operator_op where "op_force_advance = ''force_advance''"
definition op_skip :: operator_op where "op_skip = ''skip''"
definition op_abort :: operator_op where "op_abort = ''abort''"

lemmas op_defs = op_edit_def op_branch_fix_def op_force_advance_def op_skip_def op_abort_def

definition allowed_ops :: "operator_op list" where
  "allowed_ops = [op_edit, op_branch_fix, op_force_advance, op_skip, op_abort]"

record operator_decision =
  dec_op :: operator_op
  dec_target :: string
  dec_goal :: string
  dec_commit :: string
  dec_justification :: string
  dec_reason :: string

record model_usage =
  mu_input :: int
  mu_output :: int
  mu_cached :: int
  mu_cache_write :: int
  mu_cost_usd :: rat
  mu_reported :: bool

text \<open>An error value keeps what its message is rendered from: the cause and the raw reply.\<close>

datatype operator_error =
    CompletionFailed string
  | Unparseable string string
  | DisallowedOp operator_op string

type_synonym 'w operator =
  "string \<Rightarrow> operator_context \<Rightarrow> 'w \<Rightarrow> (operator_error + operator_decision \<times> model_usage) \<times> 'w"

definition or_none :: "string \<Rightarrow> string" where
  "or_none s = (if blank s then ''(none)'' else s)"

fun worker_status_text :: "worker_status \<Rightarrow> string" where
  "worker_status_text WorkerUnset = ''''"
| "worker_status_text WorkerSuccess = ''success''"
| "worker_status_text WorkerGateFailure = ''gate_failure''"
| "worker_status_text WorkerCommandError = ''command_error''"
| "worker_status_text WorkerMaxIterationsExhausted = ''max_iterations_exhausted''"
| "worker_status_text WorkerWorkspaceViolation = ''workspace_violation''"
| "worker_status_text WorkerOutputContractViolation = ''output_contract_violation''"
| "worker_status_text WorkerGateIntegrityViolation = ''gate_integrity_violation''"
| "worker_status_text WorkerFakeGreen = ''fake_green_tautological_test''"
| "worker_status_text WorkerTestOnlyDiff = ''test_only_diff''"
| "worker_status_text WorkerVerifierRejected = ''verifier_rejected''"
| "worker_status_text WorkerVerifierError = ''verifier_error''"
| "worker_status_text WorkerRespawnCapReached = ''respawn_cap_reached''"
| "worker_status_text WorkerForceAdvance = ''force_advance''"

definition dquote :: string where
  "dquote = [CHR 0x22]"

definition operator_system_prompt :: string where
  "operator_system_prompt =
     ''You are the OPERATOR of a gate-verified coding chain. A chain is decomposed into atomic tasks (ATs); a local model writes each one; a deterministic GATE (build/test commands) verifies it. When an AT''
     @ [CHR 0x27]
     @ ''s gate keeps failing, YOU decide the single intervention that unsticks it. You do NOT edit the repo yourself ''
     @ em_dash @ '' you emit one structured intervention the orchestrator applies.'' @ newline @ newline
     @ ''Pick exactly one op:'' @ newline @ ''- '' @ dquote @ ''branch_fix'' @ dquote
     @ '': spawn a fresh worker attempt for the failed AT with the prior diff + gate error as context. Best when the implementation does not COMPILE and a clean re-attempt with the error in view will fix it. Needs target_at.''
     @ newline @ ''- '' @ dquote @ ''edit'' @ dquote @ '': replace the failed AT'' @ [CHR 0x27]
     @ ''s GOAL with a corrected, PRECISE instruction. Needs target_at and goal. The worker REGENERATES THE WHOLE FILE from your goal, so a vague goal makes it play whack-a-mole. Your goal MUST pin the fix down using the CURRENT PACKAGE FILES below as ground truth: (1) name the EXACT symbols/signatures that already exist; do not invent constructors; (2) state an explicit SCOPE boundary ''
     @ em_dash
     @ '' use ONLY symbols that exist NOW; do NOT reference methods/types a later AT will add; (3) include the verbatim corrected code when you can.''
     @ newline @ ''- '' @ dquote @ ''skip'' @ dquote
     @ '': give up on this AT and advance (rare; only if it is non-load-bearing).'' @ newline @ ''- '' @ dquote
     @ ''force_advance'' @ dquote
     @ '': accept a specific commit as success. Needs commit_sha + justification. Rare.'' @ newline @ newline
     @ ''CRITICAL: never tell the worker to weaken or rewrite a TEST to match a wrong implementation. Fix the implementation, not the assertion.''
     @ newline @ newline @ ''Respond with ONLY a JSON object, no prose, no code fence:'' @ newline @ ''{''
     @ dquote @ ''op'' @ dquote @ '':'' @ dquote @ ''...'' @ dquote @ '','' @ dquote @ ''target_at'' @ dquote
     @ '':'' @ dquote @ ''<slug>'' @ dquote @ '','' @ dquote @ ''goal'' @ dquote @ '':'' @ dquote
     @ ''<for edit only>'' @ dquote @ '','' @ dquote @ ''commit_sha'' @ dquote @ '':'' @ dquote
     @ ''<for force_advance only>'' @ dquote @ '','' @ dquote @ ''justification'' @ dquote @ '':'' @ dquote
     @ ''<for force_advance only>'' @ dquote @ '','' @ dquote @ ''reason'' @ dquote @ '':'' @ dquote
     @ ''<one sentence>'' @ dquote @ ''}''"

definition build_operator_message :: "operator_context \<Rightarrow> string" where
  "build_operator_message c =
     ''FAILED AT: '' @ oc_failed_slug c @ newline
     @ (if oc_hint c = [] then [] else ''HEURISTIC: '' @ oc_hint c @ newline)
     @ newline @ ''AT GOAL (current):'' @ newline @ oc_goal c @ newline
     @ newline @ ''WORKER STATUS: '' @ worker_status_text (oc_worker_status c) @ newline
     @ ''DIAGNOSTIC:'' @ newline @ or_none (oc_diagnostic c) @ newline
     @ newline @ ''FAILING GATE OUTPUT:'' @ newline @ or_none (oc_gate_tails c) @ newline
     @ newline @ ''CURRENT PACKAGE FILES (ground truth '' @ em_dash @ '' the symbols that exist NOW; do not reference anything not present here):''
     @ newline @ or_none (oc_package_files c) @ newline
     @ newline @ ''WORKER'' @ [CHR 0x27] @ ''S DIFF (the broken attempt):'' @ newline @ or_none (oc_diff c) @ newline
     @ newline @ ''Emit the single best intervention as JSON.''"

text \<open>\<open>(?s)\{.*\}\<close>: from the first opening brace to the last closing one after it.\<close>

definition json_object :: "string \<Rightarrow> string" where
  "json_object t = rev (dropWhile (\<lambda>c. c \<noteq> CHR ''}'') (rev (dropWhile (\<lambda>c. c \<noteq> CHR ''{'') t)))"

definition parse_decision ::
  "(string \<Rightarrow> string + operator_decision) \<Rightarrow> string \<Rightarrow> operator_error + operator_decision" where
  "parse_decision unmarshal t =
     (let blob = trim_space t; m = json_object blob
      in case unmarshal (if m \<noteq> [] then m else blob) of
           Inl e \<Rightarrow> Inl (Unparseable e t)
         | Inr dec \<Rightarrow>
             (let dec' = dec\<lparr>dec_op := trim_space (dec_op dec)\<rparr>
              in if dec_op dec' \<in> set allowed_ops then Inr dec' else Inl (DisallowedOp (dec_op dec') t)))"

text \<open>\<open>ask\<close> is the adapter's completion on a message list of roles and contents, \<open>unmarshal\<close> the JSON
  decoder into the decision's fields.\<close>

definition model_decide ::
  "(string \<Rightarrow> (string \<times> string) list \<Rightarrow> 'w \<Rightarrow> (string + string \<times> model_usage) \<times> 'w)
   \<Rightarrow> (string \<Rightarrow> string + operator_decision) \<Rightarrow> 'w operator" where
  "model_decide ask unmarshal adapter octx w =
     (case ask adapter [(''system'', operator_system_prompt), (''user'', build_operator_message octx)] w of
        (Inl e, w') \<Rightarrow> (Inl (CompletionFailed e), w')
      | (Inr (t, usage), w') \<Rightarrow>
          (case parse_decision unmarshal t of
             Inl e \<Rightarrow> (Inl e, w')
           | Inr dec \<Rightarrow> (Inr (dec, usage), w')))"

subsection \<open>The seat\<close>

record intervention =
  iv_point :: string
  iv_attempt :: int
  iv_tier :: string
  iv_model :: string
  iv_op :: operator_op
  iv_reason :: string
  iv_carried :: bool
  iv_escalated :: bool
  iv_input :: int
  iv_output :: int
  iv_cost_usd :: rat
  iv_classify :: string
  iv_landed_at_mid :: bool

record seat_result =
  sr_status :: chain_status
  sr_interventions :: "intervention list"
  sr_total_usd :: rat
  sr_causes :: "(string \<times> string) list"

text \<open>The adapters are their model ids; \<open>se_available\<close> is what an adapter's availability probe
  answers in the current world.\<close>

record 'w seat =
  se_orch :: "'w orch"
  se_operator :: "'w operator"
  se_mid :: string
  se_coder :: "string option"
  se_strong :: string
  se_k :: int
  se_max :: int
  se_available :: "'w \<Rightarrow> string \<Rightarrow> bool"

definition new_operator_seat ::
  "'w orch \<Rightarrow> 'w operator \<Rightarrow> string \<Rightarrow> string \<Rightarrow> ('w \<Rightarrow> string \<Rightarrow> bool) \<Rightarrow> 'w seat" where
  "new_operator_seat orc op mid strong avail =
     \<lparr>se_orch = orc, se_operator = op, se_mid = mid, se_coder = None, se_strong = strong, se_k = 2,
      se_max = 30, se_available = avail\<rparr>"

definition with_k :: "int \<Rightarrow> 'w seat \<Rightarrow> 'w seat" where
  "with_k k se = (if 1 \<le> k then se\<lparr>se_k := k\<rparr> else se)"

definition with_max_interventions :: "int \<Rightarrow> 'w seat \<Rightarrow> 'w seat" where
  "with_max_interventions n se = (if 0 < n then se\<lparr>se_max := n\<rparr> else se)"

definition with_coder_rung :: "string option \<Rightarrow> 'w seat \<Rightarrow> 'w seat" where
  "with_coder_rung coder se = (if coder \<noteq> None then se\<lparr>se_coder := coder\<rparr> else se)"

definition ladder :: "'w seat \<Rightarrow> string list" where
  "ladder se = [se_mid se] @ (case se_coder se of None \<Rightarrow> [] | Some c \<Rightarrow> [c]) @ [se_strong se]"

definition tier_name :: "'w seat \<Rightarrow> string \<Rightarrow> string" where
  "tier_name se m =
     (if m = se_strong se then ''strong''
      else if m = se_mid se then ''mid''
      else if se_coder se = Some m then ''coder''
      else ''mid'')"

definition gather_context :: "'w seat \<Rightarrow> run_state \<Rightarrow> string \<Rightarrow> 'w \<Rightarrow> operator_context \<times> 'w" where
  "gather_context se s point w =
     (case find_at s point of
        None \<Rightarrow>
          (\<lparr>oc_failed_slug = point, oc_goal = [], oc_worker_status = WorkerUnset, oc_diagnostic = [],
            oc_gate_tails = [], oc_package_files = [], oc_diff = [], oc_hint = []\<rparr>, w)
      | Some i \<Rightarrow>
          (let ar = rs_ats s ! i
           in case current_package_files (o_repo (se_orch se)) (ar_spec ar) w of
                (files, w1) \<Rightarrow>
                  (case capture_diff (o_repo (se_orch se)) ar w1 of
                     (d, w2) \<Rightarrow>
                       (\<lparr>oc_failed_slug = point, oc_goal = at_goal (ar_spec ar),
                         oc_worker_status = ar_worker_status ar, oc_diagnostic = ar_diagnostic ar,
                         oc_gate_tails = ar_diagnostic ar, oc_package_files = files, oc_diff = d,
                         oc_hint = snd (classify_failure ar)\<rparr>, w2))))"

definition apply_decision ::
  "'w orch \<Rightarrow> run_state \<Rightarrow> string \<Rightarrow> operator_decision \<Rightarrow> event list \<Rightarrow> 'w
   \<Rightarrow> (stage_error + run_state \<times> event list) \<times> 'w" where
  "apply_decision orc s point dec lg w =
     (if dec_op dec = op_edit then (intervene_edit s \<lparr>ed_goal = dec_goal dec, ed_workspace = None\<rparr> lg, w)
      else if dec_op dec = op_branch_fix
      then intervene_branch_fix orc s (if dec_target dec = [] then point else dec_target dec) [] 0 lg w
      else if dec_op dec = op_force_advance
      then intervene_force_advance orc s (dec_commit dec) (dec_justification dec) lg w
      else if dec_op dec = op_skip then (skip s lg, w)
      else if dec_op dec = op_abort then (Inr (abort s lg), w)
      else (Inr (s, lg), w))"

definition needs_operator :: "chain_status \<Rightarrow> bool" where
  "needs_operator st = (st = ChainFailed \<or> st = ChainPaused)"

definition failed_point :: "run_state \<Rightarrow> string" where
  "failed_point s =
     (if rs_failed s \<noteq> [] then rs_failed s
      else (case current s of Some i \<Rightarrow> ar_slug (rs_ats s ! i) | None \<Rightarrow> []))"

definition point_cleared :: "run_state \<Rightarrow> string \<Rightarrow> bool" where
  "point_cleared s point =
     (if \<not> needs_operator (rs_status s) then True
      else if (case find_at s point of
                 Some i \<Rightarrow> ar_status (rs_ats s ! i) = ATSuccess \<or> ar_status (rs_ats s ! i) = ATSkipped
               | None \<Rightarrow> False) then True
      else rs_failed s \<noteq> [] \<and> rs_failed s \<noteq> point)"

text \<open>Why the mid tier failed an escalated point. Go collects the causes in a map; here they are listed by
  first appearance of the point.\<close>

definition cause_of :: "intervention list \<Rightarrow> string option" where
  "cause_of recs =
     (if \<not> list_ex iv_escalated recs then None
      else (let landing = (case find iv_carried recs of None \<Rightarrow> [] | Some r \<Rightarrow> iv_op r);
                mid_ops = map iv_op (filter (\<lambda>r. iv_tier r = ''mid'') recs)
            in Some (if landing = [] then ''undetermined''
                     else if landing \<in> set mid_ops then ''authoring'' else ''classification'')))"

definition score_escalation_causes :: "intervention list \<Rightarrow> (string \<times> string) list" where
  "score_escalation_causes recs =
     concat (map (\<lambda>p. case cause_of (filter (\<lambda>r. iv_point r = p) recs) of None \<Rightarrow> [] | Some c \<Rightarrow> [(p, c)])
       (rev (remdups (rev (map iv_point recs)))))"

definition carried_fraction :: "intervention list \<Rightarrow> rat" where
  "carried_fraction recs =
     (let points = remdups (map iv_point recs);
          carried = filter (\<lambda>p. list_ex (\<lambda>r. iv_point r = p \<and> iv_landed_at_mid r) recs
                      \<and> \<not> list_ex (\<lambda>r. iv_point r = p \<and> iv_escalated r) recs) points
      in if points = [] then 1 else of_nat (length carried) / of_nat (length points))"

subsection \<open>The intervention loop\<close>

definition no_pool :: "unit strong_budget_ops" where
  "no_pool = \<lparr>sb_exhausted = (\<lambda>_. False), sb_take = (\<lambda>_. ())\<rparr>"

text \<open>What the loop carries over the whole run, and what it carries at one point.\<close>

record 'w seat_run =
  sn_state :: run_state
  sn_log :: "event list"
  sn_world :: 'w
  sn_recs :: "intervention list"
  sn_usd :: rat

record visit =
  v_router :: router
  v_attempt :: int
  v_failed :: int

datatype visit_end = Carried | NotCarried | Halted

definition fresh_visit :: "'w seat \<Rightarrow> visit" where
  "fresh_visit se = \<lparr>v_router = new_ladder (ladder se) 0 [with_escalation (se_k se) 1, with_bounded_top 1],
     v_attempt = 0, v_failed = 0\<rparr>"

definition rung_available :: "'w seat \<Rightarrow> 'w \<Rightarrow> int \<Rightarrow> bool" where
  "rung_available se w i = se_available se w (ladder se ! nat i)"

definition attempt_signals :: "int \<Rightarrow> signals" where
  "attempt_signals n = \<lparr>tool_errors = n, parse_failures = 0, retries_used = 0, explicit_handoff = 0,
     sig_confidence = None, sig_detail = []\<rparr>"

definition cap_reached :: "run_state \<Rightarrow> string \<Rightarrow> bool" where
  "cap_reached s point =
     (case find_at s point of None \<Rightarrow> False | Some i \<Rightarrow> ar_worker_status (rs_ats s ! i) = WorkerRespawnCapReached)"

definition record_of ::
  "'w seat \<Rightarrow> string \<Rightarrow> int \<Rightarrow> string \<Rightarrow> operator_context \<Rightarrow> operator_decision \<Rightarrow> model_usage \<Rightarrow> bool \<Rightarrow> intervention" where
  "record_of se point attempt m octx dec usage carried =
     \<lparr>iv_point = point, iv_attempt = attempt, iv_tier = tier_name se m, iv_model = m, iv_op = dec_op dec,
      iv_reason = dec_reason dec, iv_carried = carried, iv_escalated = (tier_name se m \<noteq> ''mid''),
      iv_input = mu_input usage, iv_output = mu_output usage,
      iv_cost_usd = price m (mu_input usage) (mu_output usage), iv_classify = oc_hint octx,
      iv_landed_at_mid = (carried \<and> tier_name se m = ''mid'')\<rparr>"

text \<open>One turn of the inner loop: \<open>None\<close> when the loop goes on.\<close>

definition seat_turn :: "'w seat \<Rightarrow> string \<Rightarrow> visit \<Rightarrow> 'w seat_run \<Rightarrow> visit_end option \<times> visit \<times> 'w seat_run" where
  "seat_turn se point v r =
     (case next_adapter no_pool (rung_available se (sn_world r)) (v_router v, ()) of
        (served, rt, _) \<Rightarrow>
          (let m = model_at rt served; attempt = v_attempt v + 1;
               v1 = v\<lparr>v_router := rt, v_attempt := attempt\<rparr>
           in case gather_context se (sn_state r) point (sn_world r) of
                (octx, w1) \<Rightarrow>
                  (case se_operator se m octx w1 of
                     (Inl e, w2) \<Rightarrow> (Some Halted, v1, r\<lparr>sn_world := w2\<rparr>)
                   | (Inr (dec, usage), w2) \<Rightarrow>
                       (case apply_decision (se_orch se) (sn_state r) point dec (sn_log r) w2 of
                          (Inl e, w3) \<Rightarrow> (Some Halted, v1, r\<lparr>sn_world := w3\<rparr>)
                        | (Inr (s1, lg1), w3) \<Rightarrow>
                            (case resume (se_orch se) s1 lg1 w3 of
                               (s2, lg2, w4) \<Rightarrow>
                                 (let carried = point_cleared s2 point;
                                      rec = record_of se point attempt m octx dec usage carried;
                                      r' = \<lparr>sn_state = s2, sn_log = lg2, sn_world = w4, sn_recs = sn_recs r @ [rec],
                                            sn_usd = sn_usd r + iv_cost_usd rec\<rparr>
                                  in if carried then (Some Carried, v1, r')
                                     else if cap_reached s2 point then (Some Halted, v1, r')
                                     else if m = se_strong se then (Some Halted, v1, r')
                                     else (None,
                                           v1\<lparr>v_failed := v_failed v + 1,
                                              v_router := snd (observe (attempt_signals (v_failed v + 1)) rt)\<rparr>,
                                           r')))))))"

text \<open>The inner loop, with the interventions left; the run's \<open>total\<close> is the budget minus that number.\<close>

fun visit_point :: "'w seat \<Rightarrow> string \<Rightarrow> nat \<Rightarrow> visit \<Rightarrow> 'w seat_run \<Rightarrow> visit_end \<times> nat \<times> 'w seat_run" where
  "visit_point se point 0 v r = (NotCarried, 0, r)"
| "visit_point se point (Suc n) v r =
     (case seat_turn se point v r of
        (Some e, v', r') \<Rightarrow> (e, n, r')
      | (None, v', r') \<Rightarrow> visit_point se point n v' r')"

lemma visit_point_left: "visit_point se point n v r = (e, n', r') \<Longrightarrow> n' \<le> n \<and> (0 < n \<longrightarrow> n' < n)"
proof (induction n arbitrary: v r)
  case (Suc n)
  obtain o1 v1 r1 where t: "seat_turn se point v r = (o1, v1, r1)" by (metis surj_pair)
  show ?case
  proof (cases o1)
    case None
    with Suc.prems t have "visit_point se point n v1 r1 = (e, n', r')" by simp
    from Suc.IH [OF this] show ?thesis by simp
  qed (use Suc.prems t in auto)
qed simp

function seat_loop :: "'w seat \<Rightarrow> nat \<Rightarrow> 'w seat_run \<Rightarrow> 'w seat_run" where
  "seat_loop se n r =
     (if needs_operator (rs_status (sn_state r)) \<and> 0 < n
      then (let point = failed_point (sn_state r)
            in if point = [] then r
               else (case visit_point se point n (fresh_visit se) r of
                       (Carried, n', r') \<Rightarrow> seat_loop se n' r'
                     | (NotCarried, n', r') \<Rightarrow> r'
                     | (Halted, n', r') \<Rightarrow> r'))
      else r)"
  by pat_completeness auto
termination
  by (relation "measure (\<lambda>(se, n, r). n)") (auto dest!: visit_point_left [OF sym])

declare seat_loop.simps [simp del]

definition seat_finish :: "'w seat_run \<Rightarrow> seat_result" where
  "seat_finish r = \<lparr>sr_status = rs_status (sn_state r), sr_interventions = sn_recs r, sr_total_usd = sn_usd r,
     sr_causes = score_escalation_causes (sn_recs r)\<rparr>"

definition run_seat ::
  "'w seat \<Rightarrow> run_state \<Rightarrow> event list \<Rightarrow> 'w \<Rightarrow> seat_result \<times> run_state \<times> event list \<times> 'w" where
  "run_seat se s lg w =
     (let r = seat_loop se (nat (se_max se)) \<lparr>sn_state = s, sn_log = lg, sn_world = w, sn_recs = [], sn_usd = 0\<rparr>
      in (seat_finish r, sn_state r, sn_log r, sn_world r))"

subsection \<open>The coding path of one duty\<close>

text \<open>The fields of a job profile that the bridge reads.\<close>

record job_profile =
  jp_verify_command :: "string list"
  jp_verify_max_rounds :: int
  jp_protect_paths :: "string list"

definition bridge_chain :: "string \<Rightarrow> string \<Rightarrow> string \<Rightarrow> job_profile \<Rightarrow> chain" where
  "bridge_chain slug duty target_repo p =
     \<lparr>ch_slug = slug, ch_target_repo = target_repo, ch_base_branch = [],
      ch_tasks = [\<lparr>at_slug = ''duty'', at_goal = duty, at_inputs = [], at_workspace = [],
        at_protected = jp_protect_paths p, at_allow_test_only = False,
        at_gate = (if jp_verify_command p = [] then [] else [jp_verify_command p]), at_oracles = [],
        at_contract = empty_contract, at_worker = model_worker_config, at_conventions = [],
        at_max_iterations = jp_verify_max_rounds p\<rparr>]\<rparr>"

record bridge_result =
  br_answer :: string
  br_cost_usd :: rat
  br_highest_tier :: string
  br_success :: bool

fun status_text :: "chain_status \<Rightarrow> string" where
  "status_text ChainPending = ''pending''"
| "status_text ChainRunning = ''running''"
| "status_text ChainPaused = ''paused''"
| "status_text ChainSuccess = ''success''"
| "status_text ChainFailed = ''failed''"
| "status_text ChainAborted = ''aborted''"

definition integration_commit :: "run_state \<Rightarrow> string" where
  "integration_commit s =
     (case find (\<lambda>ar. ar_commit_sha ar \<noteq> []) (rev (rs_ats s)) of None \<Rightarrow> [] | Some ar \<Rightarrow> ar_commit_sha ar)"

definition done_notice :: string where
  "done_notice = '' '' @ em_dash @ '' gate-verified and landed on the working tree; this duty is DONE, synthesize and finish (a confirming read is enough ''
     @ em_dash @ '' do NOT spawn another coding run to re-verify).''"

definition synthesize_answer :: "run_state \<Rightarrow> string" where
  "synthesize_answer s =
     (if rs_status s = ChainSuccess then
        (let sha = integration_commit s;
             base = (if sha \<noteq> [] then ''coding chain succeeded; integration commit '' @ sha else ''coding chain succeeded'')
         in if rs_promote_diagnostic s \<noteq> []
            then base @ '' (WARNING: not promoted to working tree: '' @ rs_promote_diagnostic s @ '')''
            else base @ done_notice)
      else
        (let point = failed_point s;
             diag = (case find_at s point of None \<Rightarrow> [] | Some i \<Rightarrow> ar_diagnostic (rs_ats s ! i));
             diag' = (if diag = [] then ''(no diagnostic)'' else diag)
         in ''coding chain '' @ status_text (rs_status s) @ '' on '' @ go_quote point @ '': '' @ diag'))"

text \<open>The run after \<open>Start\<close>. The seat points to the orchestrator it is run with, which \<open>Start\<close> may have
  bound to the target directory, so it works on that updated value. The final state, log and world are
  returned beside the result.\<close>

definition seat_phase ::
  "'w orch \<Rightarrow> 'w seat option \<Rightarrow> run_state \<Rightarrow> event list \<Rightarrow> 'w \<Rightarrow> rat \<times> run_state \<times> event list \<times> 'w" where
  "seat_phase orc seat s lg w =
     (case seat of
        None \<Rightarrow> (0, s, lg, w)
      | Some se \<Rightarrow>
          if rs_status s = ChainSuccess then (0, s, lg, w)
          else (case run_seat (se\<lparr>se_orch := orc\<rparr>) s lg w of (res, s', lg', w') \<Rightarrow> (sr_total_usd res, s', lg', w')))"

definition promote_phase :: "'w orch \<Rightarrow> run_state \<Rightarrow> 'w \<Rightarrow> run_state \<times> 'w" where
  "promote_phase orc s w =
     (if rs_status s = ChainSuccess
      then (case promote (o_repo orc) w of
              (Some e, w') \<Rightarrow> (s\<lparr>rs_promote_diagnostic := e\<rparr>, w')
            | (None, w') \<Rightarrow> (s, w'))
      else (s, w))"

definition finish_duty ::
  "'w orch \<Rightarrow> 'w seat option \<Rightarrow> run_state \<Rightarrow> event list \<Rightarrow> 'w \<Rightarrow> bridge_result \<times> run_state \<times> event list \<times> 'w" where
  "finish_duty orc seat s lg w =
     (let (s1, lg1, w1) = run_to_completion orc s lg w;
          (usd, s2, lg2, w2) = seat_phase orc seat s1 lg1 w1;
          (s3, w3) = promote_phase orc s2 w2
      in (\<lparr>br_answer = synthesize_answer s3, br_cost_usd = usd,
           br_highest_tier = (case rs_ats s3 of [] \<Rightarrow> [] | ar # ars \<Rightarrow> ar_highest_tier ar),
           br_success = (rs_status s3 = ChainSuccess)\<rparr>, s3, lg2, w3))"

definition run_duty ::
  "'w orch \<Rightarrow> 'w seat option \<Rightarrow> chain \<Rightarrow> string \<Rightarrow> event list \<Rightarrow> 'w
   \<Rightarrow> ((string + spec_error) + bridge_result \<times> run_state) \<times> event list \<times> 'w" where
  "run_duty orc seat c run_id lg w =
     (case start orc c run_id lg w of
        (Inl e, lg1, w1) \<Rightarrow> (Inl (Inl e), lg1, w1)
      | (Inr (Inl e), lg1, w1) \<Rightarrow> (Inl (Inr e), lg1, w1)
      | (Inr (Inr (orc', s)), lg1, w1) \<Rightarrow>
          (case finish_duty orc' seat s lg1 w1 of
             (res, s', lg2, w2) \<Rightarrow> (Inr (res, s'), lg2, w2)))"

end
