(* ===== verification/Seat_Laws.thy ===== *)
theory Seat_Laws
  imports Operator_Seat Coding_Demo
begin

text \<open>
  The laws of the operator seat and of the duty bridge: every state the seat reaches is reached by the
  chain's own operations, so the chain's invariant and the projection of the log carry over to whole
  duties; every intervention is counted; a strong-tier record that did not carry its point is the last
  one; with every adapter up the router follows a fixed schedule.
\<close>

subsection \<open>The seat moves the chain by its operations\<close>

lemma apply_step:
  "apply_decision orc s point dec lg w = (Inr (s', lg'), w') \<Longrightarrow> (chain_step orc)\<^sup>*\<^sup>* (s, lg) (s', lg')"
  unfolding apply_decision_def
  by (auto split: if_splits intro!: r_into_rtranclp intro: step_edit step_branch step_force step_skip step_abort)

text \<open>What a turn leaves: either only the world moved, or one decision was applied, the chain resumed
  and the outcome recorded.\<close>

lemma seat_turn_cases:
  assumes "seat_turn se point v r = (out, v', r')"
  obtains (stopped) w where "out = Some Halted" "r' = r\<lparr>sn_world := w\<rparr>"
  | (acted) served rt b octx w1 dec usage w2 s1 lg1 w3 where
      "next_adapter no_pool (rung_available se (sn_world r)) (v_router v, ()) = (served, rt, b)"
      "gather_context se (sn_state r) point (sn_world r) = (octx, w1)"
      "apply_decision (se_orch se) (sn_state r) point dec (sn_log r) w2 = (Inr (s1, lg1), w3)"
      "resume (se_orch se) s1 lg1 w3 = (sn_state r', sn_log r', sn_world r')"
      "sn_recs r' = sn_recs r @ [record_of se point (v_attempt v + 1) (model_at rt served) octx dec usage
         (point_cleared (sn_state r') point)]"
      "out = (if point_cleared (sn_state r') point then Some Carried
         else if cap_reached (sn_state r') point \<or> model_at rt served = se_strong se then Some Halted else None)"
      "out = None \<longrightarrow> v' = \<lparr>v_router = snd (observe (attempt_signals (v_failed v + 1)) rt),
         v_attempt = v_attempt v + 1, v_failed = v_failed v + 1\<rparr>"
proof -
  obtain served rt b where na: "next_adapter no_pool (rung_available se (sn_world r)) (v_router v, ()) = (served, rt, b)"
    by (metis surj_pair)
  obtain octx w1 where gc: "gather_context se (sn_state r) point (sn_world r) = (octx, w1)" by fastforce
  obtain ans w2 where dq: "se_operator se (model_at rt served) octx w1 = (ans, w2)" by fastforce
  show thesis
  proof (cases ans)
    case (Inl e)
    with assms na gc dq show thesis by (intro stopped) (auto simp: seat_turn_def Let_def)
  next
    case (Inr x)
    obtain dec usage where x: "x = (dec, usage)" by fastforce
    obtain res w3 where ad: "apply_decision (se_orch se) (sn_state r) point dec (sn_log r) w2 = (res, w3)" by fastforce
    show thesis
    proof (cases res)
      case (Inl e)
      with assms na gc dq Inr x ad show thesis by (intro stopped) (auto simp: seat_turn_def Let_def)
    next
      case res: (Inr y)
      obtain s1 lg1 where y: "y = (s1, lg1)" by fastforce
      obtain s2 lg2 w4 where rs: "resume (se_orch se) s1 lg1 w3 = (s2, lg2, w4)" by (metis surj_pair)
      from assms na gc dq Inr x ad res y rs
      have "r' = \<lparr>sn_state = s2, sn_log = lg2, sn_world = w4,
          sn_recs = sn_recs r @ [record_of se point (v_attempt v + 1) (model_at rt served) octx dec usage (point_cleared s2 point)],
          sn_usd = sn_usd r + iv_cost_usd (record_of se point (v_attempt v + 1) (model_at rt served) octx dec usage (point_cleared s2 point))\<rparr>
        \<and> out = (if point_cleared s2 point then Some Carried
         else if cap_reached s2 point \<or> model_at rt served = se_strong se then Some Halted else None)
        \<and> (out = None \<longrightarrow> v' = \<lparr>v_router = snd (observe (attempt_signals (v_failed v + 1)) rt),
         v_attempt = v_attempt v + 1, v_failed = v_failed v + 1\<rparr>)"
        by (auto simp: seat_turn_def Let_def split: if_splits)
      with ad rs res y na gc show thesis by (intro acted [of served rt b octx w1 dec w2 s1 lg1 w3]) auto
    qed
  qed
qed

lemma seat_turn_reach:
  assumes "seat_turn se point v r = (out, v', r')"
  shows "(chain_step (se_orch se))\<^sup>*\<^sup>* (sn_state r, sn_log r) (sn_state r', sn_log r')"
  using assms
proof (cases rule: seat_turn_cases)
  case (acted served rt b octx w1 dec usage w2 s1 lg1 w3)
  show ?thesis
    by (rule rtranclp.rtrancl_into_rtrancl [OF apply_step [OF acted(3)] step_resume [OF acted(4)]])
qed simp

text \<open>A relation that every turn respects holds between the ends of a visit and of the whole loop.\<close>

lemma visit_point_rel:
  assumes turn: "\<And>v r out v' r'. seat_turn se point v r = (out, v', r') \<Longrightarrow> R\<^sup>*\<^sup>* r r'"
  shows "visit_point se point n v r = (e, n', r') \<Longrightarrow> R\<^sup>*\<^sup>* r r'"
proof (induction n arbitrary: v r)
  case (Suc n)
  obtain out v1 r1 where t: "seat_turn se point v r = (out, v1, r1)" by (metis surj_pair)
  show ?case
  proof (cases out)
    case None
    with Suc t have "R\<^sup>*\<^sup>* r1 r'" by simp
    with turn [OF t] show ?thesis by (rule rtranclp_trans)
  next
    case (Some e1)
    with Suc.prems t turn [OF t] show ?thesis by simp
  qed
qed simp

lemma seat_loop_rel:
  assumes turn: "\<And>point v r out v' r'. seat_turn se point v r = (out, v', r') \<Longrightarrow> R\<^sup>*\<^sup>* r r'"
  shows "R\<^sup>*\<^sup>* r (seat_loop se n r)"
proof (induction n arbitrary: r rule: less_induct)
  case (less n)
  show ?case
  proof (cases "needs_operator (rs_status (sn_state r)) \<and> 0 < n \<and> failed_point (sn_state r) \<noteq> []")
    case True
    let ?p = "failed_point (sn_state r)"
    obtain e n' r' where v: "visit_point se ?p n (fresh_visit se) r = (e, n', r')" by (metis surj_pair)
    have R: "R\<^sup>*\<^sup>* r r'" by (rule visit_point_rel [OF turn v])
    have "n' < n" using visit_point_left [OF v] True by simp
    from less [OF this] R have "R\<^sup>*\<^sup>* r (seat_loop se n' r')" by (metis rtranclp_trans)
    with R v True show ?thesis by (subst seat_loop.simps) (cases e; simp add: Let_def)
  next
    case False
    then show ?thesis by (subst seat_loop.simps) (auto simp: Let_def)
  qed
qed

lemma run_seat_reach:
  fixes se :: "'w seat"
  assumes "run_seat se s lg w = (res, s', lg', w')"
  shows "(chain_step (se_orch se))\<^sup>*\<^sup>* (s, lg) (s', lg')"
proof -
  define R where "R = (\<lambda>(a :: 'w seat_run) (b :: 'w seat_run).
    (chain_step (se_orch se))\<^sup>*\<^sup>* (sn_state a, sn_log a) (sn_state b, sn_log b))"
  have "R\<^sup>*\<^sup>* r (seat_loop se n r)" for r n
    by (rule seat_loop_rel) (auto simp: R_def dest: seat_turn_reach)
  moreover have "R\<^sup>*\<^sup>* a b \<Longrightarrow> R a b" for a b
    by (induction rule: rtranclp_induct) (auto simp: R_def)
  ultimately have "R r (seat_loop se n r)" for r n by blast
  from this [of "\<lparr>sn_state = s, sn_log = lg, sn_world = w, sn_recs = [], sn_usd = 0\<rparr>" "nat (se_max se)"]
  show ?thesis using assms by (simp add: run_seat_def R_def Let_def)
qed

lemma seat_phase_reach:
  assumes "seat_phase orc seat s lg w = (usd, s', lg', w')"
  shows "(chain_step orc)\<^sup>*\<^sup>* (s, lg) (s', lg')"
proof (cases "seat = None \<or> rs_status s = ChainSuccess")
  case False
  then obtain se where "seat = Some se" "rs_status s \<noteq> ChainSuccess" by auto
  with assms obtain res where "run_seat (se\<lparr>se_orch := orc\<rparr>) s lg w = (res, s', lg', w')"
    by (auto simp: seat_phase_def split: prod.splits)
  from run_seat_reach [OF this] show ?thesis by simp
qed (use assms in \<open>auto simp: seat_phase_def split: option.splits\<close>)

lemma promote_phase_state:
  "promote_phase orc s w = (s', w') \<Longrightarrow> rs_status s' = rs_status s \<and> rs_ats s' = rs_ats s
     \<and> s'\<lparr>rs_promote_diagnostic := d\<rparr> = s\<lparr>rs_promote_diagnostic := d\<rparr>"
  by (auto simp: promote_phase_def split: if_splits prod.splits option.splits)

lemma finish_duty_reach:
  assumes "finish_duty orc seat s lg w = (res, s', lg', w')"
  obtains s2 where "(chain_step orc)\<^sup>*\<^sup>* (s, lg) (s2, lg')" "rs_ats s' = rs_ats s2" "rs_status s' = rs_status s2"
    "\<And>d. s'\<lparr>rs_promote_diagnostic := d\<rparr> = s2\<lparr>rs_promote_diagnostic := d\<rparr>"
    "br_success res \<longleftrightarrow> rs_status s' = ChainSuccess"
proof -
  obtain s1 lg1 w1 where rc: "run_to_completion orc s lg w = (s1, lg1, w1)" by (metis surj_pair)
  obtain usd s2 lg2 w2 where m: "seat_phase orc seat s1 lg1 w1 = (usd, s2, lg2, w2)" by (metis surj_pair)
  obtain s3 w3 where p: "promote_phase orc s2 w2 = (s3, w3)" by fastforce
  have "chain_step orc (s, lg) (s1, lg1)" by (rule step_resume [of orc s lg w s1 lg1 w1]) (simp add: resume_def rc)
  then have "(chain_step orc)\<^sup>*\<^sup>* (s, lg) (s2, lg2)"
    using seat_phase_reach [OF m] by (rule converse_rtranclp_into_rtranclp)
  moreover have "s' = s3" "lg' = lg2" "br_success res \<longleftrightarrow> rs_status s3 = ChainSuccess"
    using assms rc m p by (auto simp: finish_duty_def Let_def)
  ultimately show thesis using promote_phase_state [OF p] by (intro that [of s2]) auto
qed

subsection \<open>Bounds of the loop\<close>

lemma run_loop_status:
  "run_loop orc s lg w = (s', lg', w') \<Longrightarrow> rs_status s' \<in> {ChainSuccess, ChainPaused, ChainFailed}"
proof (induction orc s lg w arbitrary: s' lg' w' rule: run_loop.induct)
  case (1 orc s lg w)
  show ?case
    using "1.prems"
    by (subst (asm) run_loop.simps) (auto simp: Let_def split: if_splits prod.splits bool.splits dest: "1.IH")
qed

lemma resume_status:
  "resume orc s lg w = (s', lg', w') \<Longrightarrow> rs_status s' \<noteq> ChainAborted"
  unfolding resume_def run_to_completion_def by (auto dest: run_loop_status)

lemma seat_turn_aborted:
  assumes "seat_turn se point v r = (out, v', r')"
  shows "rs_status (sn_state r') = ChainAborted \<longrightarrow> rs_status (sn_state r) = ChainAborted"
  using assms by (cases rule: seat_turn_cases) (auto dest: resume_status)

lemma seat_loop_aborted:
  "rs_status (sn_state (seat_loop se n r)) = ChainAborted \<longrightarrow> rs_status (sn_state r) = ChainAborted"
proof -
  define R where "R = (\<lambda>(a :: 'a seat_run) (b :: 'a seat_run).
    rs_status (sn_state b) = ChainAborted \<longrightarrow> rs_status (sn_state a) = ChainAborted)"
  have "R\<^sup>*\<^sup>* r (seat_loop se n r)" by (rule seat_loop_rel) (auto simp: R_def dest: seat_turn_aborted)
  then have "R r (seat_loop se n r)" by (induction rule: rtranclp_induct) (auto simp: R_def)
  then show ?thesis by (simp add: R_def)
qed

lemma seat_turn_recs:
  assumes "seat_turn se point v r = (out, v', r')"
  shows "length (sn_recs r') \<le> Suc (length (sn_recs r))"
  using assms by (cases rule: seat_turn_cases) auto

lemma visit_point_recs:
  "visit_point se point n v r = (e, n', r') \<Longrightarrow> length (sn_recs r') + n' \<le> length (sn_recs r) + n"
proof (induction n arbitrary: v r)
  case (Suc n)
  obtain out v1 r1 where t: "seat_turn se point v r = (out, v1, r1)" by (metis surj_pair)
  show ?case
  proof (cases out)
    case None
    with Suc.prems t have "visit_point se point n v1 r1 = (e, n', r')" by simp
    from Suc.IH [OF this] seat_turn_recs [OF t] show ?thesis by simp
  next
    case (Some e1)
    with Suc.prems t seat_turn_recs [OF t] show ?thesis by simp
  qed
qed simp

lemma seat_loop_recs: "length (sn_recs (seat_loop se n r)) \<le> length (sn_recs r) + n"
proof (induction n arbitrary: r rule: less_induct)
  case (less n)
  show ?case
  proof (cases "needs_operator (rs_status (sn_state r)) \<and> 0 < n \<and> failed_point (sn_state r) \<noteq> []")
    case True
    obtain e n' r' where v: "visit_point se (failed_point (sn_state r)) n (fresh_visit se) r = (e, n', r')"
      by (metis surj_pair)
    have "n' < n" using visit_point_left [OF v] True by simp
    from less [OF this, of r'] visit_point_recs [OF v] v True show ?thesis
      by (subst seat_loop.simps) (cases e; simp add: Let_def)
  qed (subst seat_loop.simps, auto simp: Let_def)
qed

text \<open>Every strong-tier record so far carried its point.\<close>

definition strong_carried :: "'w seat \<Rightarrow> intervention list \<Rightarrow> bool" where
  "strong_carried se recs \<longleftrightarrow> (\<forall>x \<in> set recs. iv_model x = se_strong se \<longrightarrow> iv_carried x)"

lemma strong_carried_butlast: "strong_carried se recs \<Longrightarrow> strong_carried se (butlast recs)"
  by (auto simp: strong_carried_def dest: in_set_butlastD)

lemma seat_turn_strong:
  assumes "seat_turn se point v r = (out, v', r')" "strong_carried se (sn_recs r)"
  shows "strong_carried se (butlast (sn_recs r')) \<and> (out \<noteq> Some Halted \<longrightarrow> strong_carried se (sn_recs r'))"
  using assms(1)
proof (cases rule: seat_turn_cases)
  case (stopped w)
  then show ?thesis using assms(2) by (simp add: strong_carried_butlast)
next
  case (acted served rt b octx w1 dec usage w2 s1 lg1 w3)
  then show ?thesis using assms(2) by (auto simp: strong_carried_def record_of_def split: if_splits)
qed

lemma visit_point_strong:
  "visit_point se point n v r = (e, n', r') \<Longrightarrow> strong_carried se (sn_recs r) \<Longrightarrow>
     strong_carried se (butlast (sn_recs r')) \<and> (e \<noteq> Halted \<longrightarrow> strong_carried se (sn_recs r'))"
proof (induction n arbitrary: v r)
  case (Suc n)
  obtain out v1 r1 where t: "seat_turn se point v r = (out, v1, r1)" by (metis surj_pair)
  note step = seat_turn_strong [OF t Suc.prems(2)]
  show ?case
  proof (cases out)
    case None
    with Suc.prems t have "visit_point se point n v1 r1 = (e, n', r')" by simp
    from Suc.IH [OF this] step None show ?thesis by simp
  next
    case (Some e1)
    with Suc.prems t step show ?thesis by simp
  qed
qed (simp add: strong_carried_butlast)

lemma seat_loop_strong:
  "strong_carried se (sn_recs r) \<Longrightarrow> strong_carried se (butlast (sn_recs (seat_loop se n r)))"
proof (induction n arbitrary: r rule: less_induct)
  case (less n)
  show ?case
  proof (cases "needs_operator (rs_status (sn_state r)) \<and> 0 < n \<and> failed_point (sn_state r) \<noteq> []")
    case True
    obtain e n' r' where v: "visit_point se (failed_point (sn_state r)) n (fresh_visit se) r = (e, n', r')"
      by (metis surj_pair)
    have "n' < n" using visit_point_left [OF v] True by simp
    from less(1) [OF this, of r'] visit_point_strong [OF v less(2)] v True show ?thesis
      by (subst seat_loop.simps) (cases e; simp add: Let_def)
  next
    case False
    then have "seat_loop se n r = r" by (subst seat_loop.simps) (auto simp: Let_def)
    with less(2) show ?thesis by (simp add: strong_carried_butlast)
  qed
qed

subsection \<open>The escalation schedule\<close>

definition seat_config :: "'w seat \<Rightarrow> config" where
  "seat_config se = \<lparr>c_triggers = Some [TriggerRepeatedToolError \<mapsto> \<lparr>threshold_value = of_int (se_k se), enabled = True\<rparr>],
     c_deesc_turns = 1\<rparr>"

definition on_schedule :: "'w seat \<Rightarrow> visit \<Rightarrow> bool" where
  "on_schedule se v \<longleftrightarrow>
     r_tiers (v_router v) = ladder se \<and> r_floor (v_router v) = 0 \<and> r_config (v_router v) = seat_config se
     \<and> r_bound_rung (v_router v) = top_rung (v_router v) \<and> r_bound_served (v_router v) = 0
     \<and> \<not> r_has_budget (v_router v) \<and> wf_router (v_router v)
     \<and> v_attempt v = v_failed v \<and> 0 \<le> v_failed v
     \<and> r_cur (v_router v) = max 0 (v_failed v + 1 - se_k se)"

lemma ladder_length: "2 \<le> length (ladder se)" "ladder se ! (length (ladder se) - 1) = se_strong se"
  by (simp_all add: ladder_def split: option.splits)

lemma ladder_top: "r_tiers r = ladder se \<Longrightarrow> model_at r (top_rung r) = se_strong se"
  using ladder_length [of se] by (simp add: model_at_def top_rung_def nat_diff_distrib')

lemma fresh_visit_schedule:
  assumes "1 \<le> se_k se"
  shows "on_schedule se (fresh_visit se)"
  using assms ladder_length(1) [of se]
  by (auto simp: on_schedule_def fresh_visit_def new_ladder_def with_escalation_def with_bounded_top_def Let_def
      seat_config_def wf_router_def top_rung_def)

lemma detect_attempts:
  assumes "r_config r = seat_config se"
  shows "detect r (attempt_signals n) = None \<longleftrightarrow> n < se_k se"
  by (simp add: assms detect_def priority_def seat_config_def config_lookup_def attempt_signals_def not_le)

lemma scheduled_adapter:
  assumes sched: "on_schedule se v" and up: "\<And>w m. se_available se w m"
    and na: "next_adapter no_pool (rung_available se w) (v_router v, ()) = (served, rt, b)"
  shows "served = r_cur (v_router v) \<and> r_tiers rt = ladder se \<and> same_ladder (v_router v) rt
    \<and> wf_router rt \<and> (served < top_rung (v_router v) \<longrightarrow> r_bound_served rt = 0)"
proof -
  let ?r = "v_router v"
  have wf: "wf_router ?r" using sched by (simp add: on_schedule_def)
  have "all_up (rung_available se w)" using up by (simp add: all_up_def rung_available_def)
  from next_adapter_up [OF this, of no_pool ?r "()"]
  have "served = (if top_bounce ?r False (r_cur ?r) \<and> r_cur ?r > 0 then r_cur ?r - 1 else r_cur ?r)"
    using na by (simp add: no_pool_def)
  moreover have "\<not> top_bounce ?r False (r_cur ?r)"
    using sched by (auto simp: on_schedule_def top_bounce_def per_worker_bound_spent_def strong_budget_exhausted_def wf_router_def)
  ultimately have served: "served = r_cur ?r" by simp
  note eff = next_adapter_effect [OF na wf]
  have "served < top_rung ?r \<longrightarrow> \<not> guards_top ?r served"
    using sched by (auto simp: on_schedule_def guards_top_def)
  with eff served sched next_adapter_wf [OF na wf] show ?thesis
    by (auto simp: on_schedule_def same_ladder_def)
qed

lemma seat_turn_schedule:
  assumes t: "seat_turn se point v r = (out, v', r')" and sched: "on_schedule se v" and up: "\<And>w m. se_available se w m"
    and k: "1 \<le> se_k se"
  shows "(out = None \<longrightarrow> on_schedule se v' \<and> v_attempt v' = v_attempt v + 1)
    \<and> (sn_recs r' = sn_recs r \<or> (\<exists>x. sn_recs r' = sn_recs r @ [x] \<and> iv_attempt x = v_attempt v + 1
         \<and> iv_model x = ladder se ! nat (max 0 (iv_attempt x - se_k se))
         \<and> iv_attempt x < se_k se + int (length (ladder se))))"
  using t
proof (cases rule: seat_turn_cases)
  case (acted served rt b octx w1 dec usage w2 s1 lg1 w3)
  note sa = scheduled_adapter [OF sched up acted(1)]
  have top: "top_rung rt = top_rung (v_router v)" using sa same_ladder_reads(1) by blast
  have cur: "served = max 0 (v_failed v + 1 - se_k se)" "v_attempt v = v_failed v" "served \<le> top_rung (v_router v)"
    using sched sa by (auto simp: on_schedule_def wf_router_def)
  have len: "top_rung (v_router v) = int (length (ladder se)) - 1" using sched by (simp add: on_schedule_def top_rung_def)
  have rec: "\<exists>x. sn_recs r' = sn_recs r @ [x] \<and> iv_attempt x = v_attempt v + 1
      \<and> iv_model x = ladder se ! nat (max 0 (iv_attempt x - se_k se)) \<and> iv_attempt x < se_k se + int (length (ladder se))"
    using acted(5) cur len sa by (auto simp: record_of_def model_at_def)
  have "on_schedule se v' \<and> v_attempt v' = v_attempt v + 1" if none: "out = None"
  proof -
    have v': "v' = \<lparr>v_router = snd (observe (attempt_signals (v_failed v + 1)) rt),
         v_attempt = v_attempt v + 1, v_failed = v_failed v + 1\<rparr>" using acted(7) none by blast
    have "model_at rt served \<noteq> se_strong se" using acted(6) none by (auto split: if_splits)
    then have low: "served < top_rung (v_router v)" using ladder_top [of rt se] sa cur(3) top by (auto simp: less_le)
    have rt: "r_floor rt = 0" "r_config rt = seat_config se" "r_bound_rung rt = top_rung rt" "\<not> r_has_budget rt"
      "r_cur rt = served" "r_bound_served rt = 0"
      using sa sched low top by (auto simp: on_schedule_def same_ladder_def)
    have wf: "wf_router (snd (observe (attempt_signals (v_failed v + 1)) rt))" using sa by (simp add: observe_wf)
    show ?thesis
    proof (cases "v_failed v + 1 < se_k se")
      case True
      then have "detect rt (attempt_signals (v_failed v + 1)) = None" using detect_attempts [OF rt(2)] by simp
      moreover have "served = 0" using cur True by simp
      ultimately have "snd (observe (attempt_signals (v_failed v + 1)) rt) = rt" using rt by (simp add: observe_def)
      with v' rt sa sched True cur show ?thesis by (auto simp: on_schedule_def)
    next
      case False
      then obtain d where "detect rt (attempt_signals (v_failed v + 1)) = Some d"
        using detect_attempts [OF rt(2)] by fastforce
      then have ob: "snd (observe (attempt_signals (v_failed v + 1)) rt) = climb rt"
        using low rt top by (cases d) (simp add: observe_def)
      with v' rt sa sched False cur wf show ?thesis
        by (auto simp: on_schedule_def climb_def)
    qed
  qed
  with rec show ?thesis by blast
qed simp

lemma visit_point_schedule:
  "visit_point se point n v r = (e, n', r') \<Longrightarrow> on_schedule se v \<Longrightarrow> (\<And>w m. se_available se w m) \<Longrightarrow> 1 \<le> se_k se \<Longrightarrow>
     \<exists>new. sn_recs r' = sn_recs r @ new \<and> map iv_attempt new = map (\<lambda>i. v_attempt v + 1 + int i) [0..<length new]
       \<and> (\<forall>x \<in> set new. iv_model x = ladder se ! nat (max 0 (iv_attempt x - se_k se))
            \<and> iv_attempt x < se_k se + int (length (ladder se)))"
proof (induction n arbitrary: v r)
  case (Suc n)
  obtain out v1 r1 where t: "seat_turn se point v r = (out, v1, r1)" by (metis surj_pair)
  note step = seat_turn_schedule [OF t Suc.prems(2,3,4)]
  show ?case
  proof (cases out)
    case None
    with Suc.prems t have vp: "visit_point se point n v1 r1 = (e, n', r')" by simp
    obtain new where new: "sn_recs r' = sn_recs r1 @ new"
      "map iv_attempt new = map (\<lambda>i. v_attempt v1 + 1 + int i) [0..<length new]"
      "\<forall>x \<in> set new. iv_model x = ladder se ! nat (max 0 (iv_attempt x - se_k se))
            \<and> iv_attempt x < se_k se + int (length (ladder se))"
      using Suc.IH [OF vp] step None Suc.prems(3,4) by blast
    have "sn_recs r1 \<noteq> sn_recs r" using t None by (cases rule: seat_turn_cases) auto
    with step obtain x where x: "sn_recs r1 = sn_recs r @ [x]" "iv_attempt x = v_attempt v + 1"
      "iv_model x = ladder se ! nat (max 0 (iv_attempt x - se_k se))" "iv_attempt x < se_k se + int (length (ladder se))"
      by blast
    have "map iv_attempt (x # new) = map (\<lambda>i. v_attempt v + 1 + int i) [0..<length (x # new)]"
      using x(2) new(2) step None by (auto simp: upt_conv_Cons map_Suc_upt [symmetric] simp del: upt_Suc)
    with x new show ?thesis by (intro exI [of _ "x # new"]) auto
  next
    case (Some e1)
    with Suc.prems t have "r' = r1" by simp
    with step show ?thesis by (elim conjE disjE exE) (fastforce intro: exI [of _ "[]"])+
  qed
qed simp

subsection \<open>A concrete seat\<close>

text \<open>A duty whose gate never passes and whose worker does nothing, with an operator that always decides
  the same way.\<close>

definition idle_worker :: "nat worker" where
  "idle_worker spec dir fb w = (\<lparr>att_error = None, att_note = [], att_tier = []\<rparr>, w)"

definition seat_orch :: "nat orch" where
  "seat_orch = demo_orch\<lparr>o_model := Some idle_worker, o_respawn_cap := 0\<rparr>"

definition fixed_operator :: "operator_op \<Rightarrow> nat operator" where
  "fixed_operator op m octx w =
     (Inr (\<lparr>dec_op = op, dec_target = [], dec_goal = ''again'', dec_commit = [], dec_justification = [], dec_reason = []\<rparr>,
           \<lparr>mu_input = 10, mu_output = 5, mu_cached = 0, mu_cache_write = 0, mu_cost_usd = 0, mu_reported = False\<rparr>), w)"

definition demo_seat :: "operator_op \<Rightarrow> nat seat" where
  "demo_seat op = new_operator_seat seat_orch (fixed_operator op) ''mid'' ''strong'' (\<lambda>w m. True)"

definition demo_profile :: job_profile where
  "demo_profile = \<lparr>jp_verify_command = [''never''], jp_verify_max_rounds = 1, jp_protect_paths = []\<rparr>"

definition demo_duty :: chain where
  "demo_duty = bridge_chain ''c'' ''do it'' ''/r'' demo_profile"

definition stuck_state :: run_state where
  "stuck_state = (case start seat_orch demo_duty [] [] 0 of
     (Inr (Inr (orc, s)), lg, w) \<Rightarrow> fst (run_to_completion orc s lg w) | _ \<Rightarrow> empty_state)"

definition stuck_run :: "nat seat_run" where
  "stuck_run = \<lparr>sn_state = stuck_state, sn_log = [], sn_world = 0, sn_recs = [], sn_usd = 0\<rparr>"

lemma stuck_models:
  "map iv_model (sr_interventions (fst (run_seat (demo_seat op_edit) stuck_state [] 0))) = [''mid'', ''mid'', ''strong'']"
  by code_simp

end
