(* ===== verification/Seat_Props.thy ===== *)
theory Seat_Props
  imports Seat_Laws
begin

text \<open>
  The properties of the operator seat and of the duty bridge, with their instances on the concrete
  seat. The last two state behaviour that the documentation of the code does not expect.
\<close>

lemma fold_log_promote: "rs_promote_diagnostic (fold_log lg) = []"
proof -
  have "rs_promote_diagnostic (fold_event e s) = rs_promote_diagnostic s" for e s
    by (cases e) auto
  then have "rs_promote_diagnostic (fold fold_event evs s) = rs_promote_diagnostic s" for evs s
    by (induction evs arbitrary: s) auto
  then show ?thesis by (simp add: fold_log_def empty_state_def)
qed

lemma duty_clash_free: "clash_free {''duty''}"
proof -
  have "branch_slug t n \<noteq> ''duty''" for t n
  proof
    assume "branch_slug t n = ''duty''"
    then have "CHR ''-'' \<in> set ''duty''" by (metis branch_slug_def Un_iff list.set_intros(1) set_append)
    then show False by simp
  qed
  then show ?thesis by (simp add: clash_free_def)
qed

subsection \<open>The loop\<close>

text \<open>C31: The seat is bounded: a run makes at most its maximum number of interventions, and when the
  strong tier was asked and the point was still not carried the run ends there, so every earlier
  strong-tier intervention carried its point.\<close>
theorem seat_bounded:
  assumes "run_seat se s lg w = (res, s', lg', w')"
  shows "length (sr_interventions res) \<le> nat (se_max se)
    \<and> (\<forall>x \<in> set (butlast (sr_interventions res)). iv_model x = se_strong se \<longrightarrow> iv_carried x)"
  using assms seat_loop_recs [of se "nat (se_max se)" "\<lparr>sn_state = s, sn_log = lg, sn_world = w, sn_recs = [], sn_usd = 0\<rparr>"]
    seat_loop_strong [of se "\<lparr>sn_state = s, sn_log = lg, sn_world = w, sn_recs = [], sn_usd = 0\<rparr>" "nat (se_max se)"]
  by (auto simp: run_seat_def seat_finish_def Let_def strong_carried_def)

theorem seat_bounded_witness:
  "length (sr_interventions (fst (run_seat (demo_seat op_edit) stuck_state [] 0))) \<le> 30
   \<and> map iv_model (sr_interventions (fst (run_seat (demo_seat op_edit) stuck_state [] 0))) = [''mid'', ''mid'', ''strong'']"
proof -
  let ?r = "run_seat (demo_seat op_edit) stuck_state [] 0"
  have "?r = (fst ?r, fst (snd ?r), fst (snd (snd ?r)), snd (snd (snd ?r)))" by simp
  from seat_bounded [OF this] stuck_models show ?thesis by (simp add: demo_seat_def new_operator_seat_def)
qed

text \<open>The escalation schedule: while a seat works on one point with every adapter up, its
  interventions are numbered from 1, the first \<open>k\<close> go to the mid tier and each later one to the next rung
  of the ladder, and there are fewer of them than \<open>k\<close> plus the number of rungs.\<close>
theorem seat_escalation_schedule:
  assumes "visit_point se point n (fresh_visit se) r = (e, n', r')"
    and "\<And>w m. se_available se w m" and "1 \<le> se_k se"
  shows "\<exists>new. sn_recs r' = sn_recs r @ new \<and> map iv_attempt new = map (\<lambda>i. 1 + int i) [0..<length new]
    \<and> (\<forall>x \<in> set new. iv_model x = ladder se ! nat (max 0 (iv_attempt x - se_k se)))
    \<and> int (length new) < se_k se + int (length (ladder se))"
proof -
  obtain new where new: "sn_recs r' = sn_recs r @ new" "map iv_attempt new = map (\<lambda>i. 1 + int i) [0..<length new]"
    "\<forall>x \<in> set new. iv_model x = ladder se ! nat (max 0 (iv_attempt x - se_k se)) \<and> iv_attempt x < se_k se + int (length (ladder se))"
    using visit_point_schedule [OF assms(1) fresh_visit_schedule [OF assms(3)] assms(2,3)] by (auto simp: fresh_visit_def)
  have "int (length new) < se_k se + int (length (ladder se))"
  proof (cases "new = []")
    case False
    then have "map iv_attempt new ! (length new - 1) = int (length new)"
      unfolding new(2) by (simp add: Suc_le_eq of_nat_diff)
    then have "iv_attempt (last new) = int (length new)" using False by (simp add: last_conv_nth)
    with new(3) False show ?thesis using last_in_set by fastforce
  qed (use assms(3) in simp)
  with new show ?thesis by blast
qed

theorem seat_escalation_schedule_witness:
  "(\<forall>w m. se_available (demo_seat op_edit) w m) \<and> 1 \<le> se_k (demo_seat op_edit)
   \<and> length (sn_recs (snd (snd (visit_point (demo_seat op_edit) ''duty'' 30 (fresh_visit (demo_seat op_edit)) stuck_run)))) < 4"
proof -
  let ?v = "visit_point (demo_seat op_edit) ''duty'' 30 (fresh_visit (demo_seat op_edit)) stuck_run"
  have eq: "?v = (fst ?v, fst (snd ?v), snd (snd ?v))" by simp
  have up: "\<And>w m. se_available (demo_seat op_edit) w m" and k: "1 \<le> se_k (demo_seat op_edit)"
    by (simp_all add: demo_seat_def new_operator_seat_def)
  have "ladder (demo_seat op_edit) = [''mid'', ''strong'']" "se_k (demo_seat op_edit) = 2"
    by (simp_all add: demo_seat_def new_operator_seat_def ladder_def)
  with seat_escalation_schedule [OF eq up k] up k show ?thesis by (auto simp: stuck_run_def)
qed

subsection \<open>The duty\<close>

text \<open>C30: A duty that the bridge runs to its end, with or without a seat, leaves a log that projects to the
  final run state up to the promote diagnostic, which no event carries; and it is reported a success only
  when every task of the chain, branches included, is resolved.\<close>
theorem duty_log_projects:
  assumes run: "run_duty orc seat (bridge_chain slug duty target p) run_id [] w = (Inr (res, s), lg, w')"
  shows "fold_log lg = s\<lparr>rs_promote_diagnostic := []\<rparr> \<and> (br_success res \<longrightarrow> (\<forall>r \<in> set (rs_ats s). is_resolved r))"
proof -
  let ?c = "bridge_chain slug duty target p"
  obtain orc' s0 lg1 w1 where st: "start orc ?c run_id [] w = (Inr (Inr (orc', s0)), lg1, w1)"
    and fd: "finish_duty orc' seat s0 lg1 w1 = (res, s, lg, w')"
    using run by (auto simp: run_duty_def split: prod.splits sum.splits)
  obtain s2 where reach: "(chain_step orc')\<^sup>*\<^sup>* (s0, lg1) (s2, lg)" and eq: "rs_ats s = rs_ats s2" "rs_status s = rs_status s2"
      "\<And>d. s\<lparr>rs_promote_diagnostic := d\<rparr> = s2\<lparr>rs_promote_diagnostic := d\<rparr>" "br_success res \<longleftrightarrow> rs_status s = ChainSuccess"
    using fd by (rule finish_duty_reach) blast
  have "settled orc' {''duty''} s0 lg1" by (rule start_settled [OF st]) (simp add: bridge_chain_def)
  then have settled: "settled orc' {''duty''} s2 lg"
    using chain_run_settled [OF reach duty_clash_free] by simp
  then have "fold_log lg = s2" by (simp add: settled_def)
  moreover from this fold_log_promote [of lg] have "s2\<lparr>rs_promote_diagnostic := []\<rparr> = s2" by simp
  moreover have "\<forall>r \<in> set (rs_ats s2). is_resolved r" if "rs_status s2 = ChainSuccess"
    using settled that by (auto simp: settled_def base_inv_def status_ok_def in_set_conv_nth)
  ultimately show ?thesis using eq by simp
qed

theorem duty_log_projects_witness:
  "fst (snd (run_duty seat_orch (Some (demo_seat op_skip)) demo_duty [] [] 0)) \<noteq> []
   \<and> (\<exists>res s. fst (run_duty seat_orch (Some (demo_seat op_skip)) demo_duty [] [] 0) = Inr (res, s)
        \<and> fold_log (fst (snd (run_duty seat_orch (Some (demo_seat op_skip)) demo_duty [] [] 0))) = s\<lparr>rs_promote_diagnostic := []\<rparr>)"
proof -
  let ?d = "run_duty seat_orch (Some (demo_seat op_skip)) demo_duty [] [] 0"
  have "\<not> isl (fst ?d)" "fst (snd ?d) \<noteq> []" by code_simp+
  moreover from this(1) obtain res s where r: "fst ?d = Inr (res, s)" by (cases "fst ?d") auto
  then have "?d = (Inr (res, s), fst (snd ?d), snd (snd ?d))" by (metis prod.collapse)
  then have "run_duty seat_orch (Some (demo_seat op_skip)) (bridge_chain ''c'' ''do it'' ''/r'' demo_profile) [] [] 0
      = (Inr (res, s), fst (snd ?d), snd (snd ?d))" by (simp only: demo_duty_def)
  from duty_log_projects [OF this] have "fold_log (fst (snd ?d)) = s\<lparr>rs_promote_diagnostic := []\<rparr>" ..
  ultimately show ?thesis using r by blast
qed

text \<open>An operator's \<open>abort\<close> does not stop the chain: the seat resumes after every applied decision, and
  a resumed chain is running again, so a seat run ends aborted only if the chain was aborted before it.\<close>
theorem operator_abort_is_undone:
  "sr_status (fst (run_seat se s lg w)) = ChainAborted \<longleftrightarrow> rs_status s = ChainAborted"
proof
  assume "sr_status (fst (run_seat se s lg w)) = ChainAborted"
  with seat_loop_aborted [of se "nat (se_max se)" "\<lparr>sn_state = s, sn_log = lg, sn_world = w, sn_recs = [], sn_usd = 0\<rparr>"]
  show "rs_status s = ChainAborted" by (simp add: run_seat_def seat_finish_def Let_def)
next
  assume "rs_status s = ChainAborted"
  then have "seat_loop se n \<lparr>sn_state = s, sn_log = lg, sn_world = w, sn_recs = [], sn_usd = 0\<rparr>
      = \<lparr>sn_state = s, sn_log = lg, sn_world = w, sn_recs = [], sn_usd = 0\<rparr>" for n
    by (subst seat_loop.simps) (simp add: needs_operator_def)
  with \<open>rs_status s = ChainAborted\<close> show "sr_status (fst (run_seat se s lg w)) = ChainAborted"
    by (simp add: run_seat_def seat_finish_def Let_def)
qed

text \<open>A skipped duty is reported as verified: the gate of the duty never passes, the operator skips its
  only task, and the bridge reports success with the notice that the work is gate-verified and landed,
  although the task is skipped and nothing was committed.\<close>
theorem skipped_duty_reported_verified:
  "\<exists>res s. fst (run_duty seat_orch (Some (demo_seat op_skip)) demo_duty [] [] 0) = Inr (res, s)
     \<and> br_success res \<and> br_answer res = ''coding chain succeeded'' @ done_notice
     \<and> map ar_status (rs_ats s) = [ATSkipped] \<and> map ar_worker_status (rs_ats s) = [WorkerMaxIterationsExhausted]
     \<and> map ar_commit_sha (rs_ats s) = [[]]"
proof -
  let ?d = "fst (run_duty seat_orch (Some (demo_seat op_skip)) demo_duty [] [] 0)"
  have "case ?d of Inl e \<Rightarrow> False | Inr (res, s) \<Rightarrow>
     br_success res \<and> br_answer res = ''coding chain succeeded'' @ done_notice
     \<and> map ar_status (rs_ats s) = [ATSkipped] \<and> map ar_worker_status (rs_ats s) = [WorkerMaxIterationsExhausted]
     \<and> map ar_commit_sha (rs_ats s) = [[]]"
    by code_simp
  then show ?thesis by (auto split: sum.splits)
qed

end
