(* ===== verification/Compaction.thy ===== *)
theory Compaction
  imports Tool_Types Router
begin

text \<open>
  Bounding the agent's transcript: the chat messages and faults of \<open>internal/model/model.go\<close> and
  \<open>internal/model/fault.go\<close>, and the reminders, the eviction of tool results within a turn and
  the turn-group compactor of \<open>internal/agent/compaction.go\<close>.

  The JSON encoder of tool-call parameters is an argument \<open>jm\<close> (\<^const>\<open>None\<close> for a
  marshalling error), the summarizer model an argument over an explicit world. The calibrated token
  ratio is a rational: the product with an estimate is exact here, where the code rounds to a
  \<open>float64\<close>, and its conversion to an integer truncates toward zero.
\<close>

named_theorems compaction_defs \<open>definitions of the transcript operations\<close>

subsection \<open>Messages, usage, responses and faults\<close>

datatype role = RoleSystem | RoleUser | RoleAssistant | RoleTool

fun role_name :: "role \<Rightarrow> string" where
  "role_name RoleSystem = ''system''"
| "role_name RoleUser = ''user''"
| "role_name RoleAssistant = ''assistant''"
| "role_name RoleTool = ''tool''"

record chat_message =
  m_role :: role
  m_content :: string
  m_tool_call_id :: string
  m_name :: string
  m_tool_calls :: "call list"

definition text_message :: "role \<Rightarrow> string \<Rightarrow> chat_message" where
  "text_message r s =
     \<lparr>m_role = r, m_content = s, m_tool_call_id = [], m_name = [], m_tool_calls = []\<rparr>"

text \<open>The sentinels an error wraps, as \<open>errors.Is\<close> and \<open>errors.As\<close> find them, and its text.\<close>

datatype sentinel =
    ErrContextOverflow | ErrMalformedToolCall | ErrRateLimit | DeadlineExceeded | NetTimeout

record go_error =
  err_wraps :: "sentinel list"
  err_text :: string

definition is_timeout :: "go_error \<Rightarrow> bool" where
  "is_timeout e = (DeadlineExceeded \<in> set (err_wraps e) \<or> NetTimeout \<in> set (err_wraps e))"

definition classify_fault :: "go_error option \<Rightarrow> fault_kind" where
  "classify_fault err = (case err of
       None \<Rightarrow> FaultNone
     | Some e \<Rightarrow>
         (if ErrContextOverflow \<in> set (err_wraps e) then FaultContextOverflow
          else if ErrMalformedToolCall \<in> set (err_wraps e) then FaultMalformedToolCall
          else if ErrRateLimit \<in> set (err_wraps e) then FaultRateLimit
          else if is_timeout e then FaultTimeout
          else FaultNone))"

definition overflow_markers :: "string list" where
  "overflow_markers =
     [''exceed_context_size'', ''context size'', ''context length'', ''context window'',
      ''maximum context'', ''too many tokens'', ''prompt is too long'', ''reduce the length'',
      ''n_ctx'']"

definition looks_like_context_overflow :: "int \<Rightarrow> string \<Rightarrow> bool" where
  "looks_like_context_overflow status body =
     ((status = 400 \<or> status = 413 \<or> status = 500)
      \<and> list_ex (contains (to_lower body)) overflow_markers)"

definition looks_like_rate_limit :: "int \<Rightarrow> bool" where
  "looks_like_rate_limit status = (status = 429 \<or> status = 529)"

subsection \<open>Reminders\<close>

definition compaction_marker :: string where
  "compaction_marker = ''[corpos:compacted-context]''"

definition goal_reminder_marker :: string where
  "goal_reminder_marker = ''[corpos:goal-reminder]''"

definition spawn_force_marker :: string where
  "spawn_force_marker = ''[corpos:spawn-now]''"

definition evicted_marker :: string where
  "evicted_marker = ''[corpos:evicted-tool-result]''"

definition goal_reminder :: "string \<Rightarrow> chat_message" where
  "goal_reminder anchor = text_message RoleUser
     (goal_reminder_marker @ '' Reminder '' @ em_dash
      @ '' stay on the ACTIVE GOAL and do not substitute a different target:'' @ newline @ anchor)"

definition drop_marked :: "string \<Rightarrow> chat_message list \<Rightarrow> chat_message list" where
  "drop_marked marker ms = filter (\<lambda>m. \<not> has_prefix (m_content m) marker) ms"

definition refresh_goal_reminder :: "chat_message list \<Rightarrow> string \<Rightarrow> chat_message list" where
  "refresh_goal_reminder ms anchor =
     (if blank anchor then ms else drop_marked goal_reminder_marker ms @ [goal_reminder anchor])"

definition clear_spawn_force :: "chat_message list \<Rightarrow> chat_message list" where
  "clear_spawn_force ms = drop_marked spawn_force_marker ms"

definition spawn_force_reminder :: "int \<Rightarrow> chat_message" where
  "spawn_force_reminder rounds = text_message RoleUser
     (spawn_force_marker @ '' You have spent '' @ itoa rounds
      @ '' tool round(s) reading/grepping and have NOT called agent.spawn. ''
      @ ''Investigation is the WORKER's job, not yours '' @ em_dash
      @ '' your own tools cannot edit anything. STOP investigating and ''
      @ ''call agent.spawn NOW: spawn a scoped worker whose duty restates the goal and names the files/symbols you have ''
      @ ''already found. For a code/bug/test duty pass profile=\"atomic-coding-chain\".'')"

definition refresh_spawn_force :: "chat_message list \<Rightarrow> int \<Rightarrow> chat_message list" where
  "refresh_spawn_force ms rounds = clear_spawn_force ms @ [spawn_force_reminder rounds]"

subsection \<open>Size estimates\<close>

type_synonym json_marshal = "(string \<rightharpoonup> go_value) \<Rightarrow> string option"

definition param_tokens :: "json_marshal \<Rightarrow> (string \<rightharpoonup> go_value) option \<Rightarrow> int" where
  "param_tokens jm ps = (case ps of
       None \<Rightarrow> 0
     | Some m \<Rightarrow> (if m = Map.empty then 0
                 else case jm m of None \<Rightarrow> 0 | Some b \<Rightarrow> int (length b div 4)))"

definition call_tokens :: "json_marshal \<Rightarrow> call \<Rightarrow> int" where
  "call_tokens jm c =
     int ((length (surface c) + length (action c)) div 4) + param_tokens jm (params c) + 8"

definition message_tokens :: "json_marshal \<Rightarrow> chat_message \<Rightarrow> int" where
  "message_tokens jm m =
     int (length (m_content m) div 4) + 4 + sum_list (map (call_tokens jm) (m_tool_calls m))"

definition estimate_tokens :: "json_marshal \<Rightarrow> chat_message list \<Rightarrow> int" where
  "estimate_tokens jm ms = sum_list (map (message_tokens jm) ms)"

text \<open>Go's conversion of a floating-point value to an integer.\<close>

definition trunc :: "rat \<Rightarrow> int" where
  "trunc x = (if x < 0 then - \<lfloor>- x\<rfloor> else \<lfloor>x\<rfloor>)"

definition floor_ratio :: "rat \<Rightarrow> rat" where
  "floor_ratio r = (if r < 1 then 1 else r)"

record compactor =
  c_budget :: int
  c_recency_turns :: int
  c_token_ratio :: rat

definition max_token_ratio :: rat where
  "max_token_ratio = 5 / 2"

definition observe_token_ratio :: "rat \<Rightarrow> compactor \<Rightarrow> compactor" where
  "observe_token_ratio r c =
     (let r = (if r > max_token_ratio then max_token_ratio else r)
      in if r > c_token_ratio c then c\<lparr>c_token_ratio := r\<rparr> else c)"

definition current_size :: "json_marshal \<Rightarrow> compactor \<Rightarrow> chat_message list \<Rightarrow> int \<Rightarrow> int" where
  "current_size jm c ms overhead =
     overhead + trunc (of_int (estimate_tokens jm ms) * floor_ratio (c_token_ratio c))"

subsection \<open>Eviction of tool results within a turn\<close>

definition min_keep_tool_results :: int where
  "min_keep_tool_results = 3"

definition hard_keep_tool_results :: int where
  "hard_keep_tool_results = 1"

definition evictable :: "chat_message \<Rightarrow> bool" where
  "evictable m = (m_role m = RoleTool \<and> \<not> has_prefix (m_content m) evicted_marker)"

definition evict_message :: "chat_message \<Rightarrow> chat_message" where
  "evict_message m = m\<lparr>m_content :=
     evicted_marker @ '' '' @ (if m_name m = [] then ''tool'' else m_name m)
     @ '' result elided ('' @ itoa (int (length (m_content m)))
     @ '' chars) to stay within the context budget; re-run the tool (prefer fs.read with an outline/symbol view or a line range) if you still need this data.''\<rparr>"

definition evictable_idxs :: "chat_message list \<Rightarrow> nat list" where
  "evictable_idxs ms = filter (\<lambda>i. evictable (ms ! i)) [0..<length ms]"

text \<open>The inner loop of one pass: elide positions \<open>idxs ! evicted\<close> while \<open>evicted < stop\<close> and the
  size is over budget. The flag tells that the pass returned early.\<close>

function evict_pass ::
  "(chat_message list \<Rightarrow> bool) \<Rightarrow> nat list \<Rightarrow> int \<Rightarrow> nat \<Rightarrow> chat_message list
     \<Rightarrow> bool \<times> nat \<times> chat_message list" where
  "evict_pass fits idxs stop evicted ms =
     (if int evicted < stop \<and> evicted < length idxs
      then if fits ms then (True, evicted, ms)
           else let i = idxs ! evicted
                in evict_pass fits idxs stop (Suc evicted) (ms[i := evict_message (ms ! i)])
      else (False, evicted, ms))"
  by pat_completeness auto
termination by (relation "measure (\<lambda>(fits, idxs, stop, evicted, ms). length idxs - evicted)") auto

declare evict_pass.simps [simp del]

fun evict_passes ::
  "(chat_message list \<Rightarrow> bool) \<Rightarrow> nat list \<Rightarrow> int list \<Rightarrow> nat \<Rightarrow> chat_message list
     \<Rightarrow> nat \<times> chat_message list" where
  "evict_passes fits idxs [] evicted ms = (evicted, ms)"
| "evict_passes fits idxs (lo # los) evicted ms =
     (case evict_pass fits idxs (int (length idxs) - lo) evicted ms of
        (returned, evicted', ms') \<Rightarrow>
          if returned \<or> fits ms' then (evicted', ms')
          else evict_passes fits idxs los evicted' ms')"

definition evict_size :: "json_marshal \<Rightarrow> int \<Rightarrow> rat \<Rightarrow> chat_message list \<Rightarrow> int" where
  "evict_size jm overhead ratio ms =
     overhead + trunc (of_int (estimate_tokens jm ms) * floor_ratio ratio)"

definition evict_tool_results ::
  "json_marshal \<Rightarrow> chat_message list \<Rightarrow> int \<Rightarrow> int \<Rightarrow> int \<Rightarrow> int \<Rightarrow> rat
     \<Rightarrow> nat \<times> chat_message list" where
  "evict_tool_results jm ms budget overhead keep hard_min ratio =
     (let keep = (if keep < 0 then 0 else keep);
          hard_min = (if hard_min < 0 then 0 else hard_min);
          hard_min = (if hard_min > keep then keep else hard_min);
          fits = (\<lambda>ms. evict_size jm overhead ratio ms \<le> budget)
      in if fits ms then (0, ms)
         else evict_passes fits (evictable_idxs ms) [keep, hard_min] 0 ms)"

subsection \<open>The turn-group compactor\<close>

record compaction_event =
  ev_turn_index :: int
  ev_tokens_before :: int
  ev_tokens_after :: int
  ev_groups_evicted :: int
  ev_budget :: int
  ev_overhead :: int

definition over_budget :: "compaction_event \<Rightarrow> bool" where
  "over_budget e = (ev_tokens_after e > ev_budget e)"

definition summary_reserve_tokens :: int where
  "summary_reserve_tokens = 1024"

definition min_tail_tokens :: int where
  "min_tail_tokens = 512"

definition user_message_indices :: "chat_message list \<Rightarrow> nat list" where
  "user_message_indices body = filter (\<lambda>i. m_role (body ! i) = RoleUser) [0..<length body]"

definition is_summary :: "chat_message \<Rightarrow> bool" where
  "is_summary m = (m_role m = RoleSystem \<and> has_prefix (m_content m) compaction_marker)"

definition split_for_compaction ::
  "chat_message list \<Rightarrow> chat_message list \<times> chat_message list" where
  "split_for_compaction ms =
     (let pinned = (\<lambda>m. m_role m = RoleSystem \<and> \<not> has_prefix (m_content m) compaction_marker);
          rest = dropWhile pinned ms
      in (takeWhile pinned ms,
          case rest of [] \<Rightarrow> [] | m # ms' \<Rightarrow> if is_summary m then ms' else rest))"

text \<open>The loop of \<open>recencyStartForBudget\<close> walks the older group boundaries, newest first.\<close>

fun recency_walk ::
  "json_marshal \<Rightarrow> chat_message list \<Rightarrow> int \<Rightarrow> int \<Rightarrow> nat list \<Rightarrow> nat \<times> int \<Rightarrow> nat \<times> int" where
  "recency_walk jm body max_groups tail_budget [] acc = acc"
| "recency_walk jm body max_groups tail_budget (cand # cands) (start, kept) =
     (if \<not> kept < max_groups then (start, kept)
      else if estimate_tokens jm (drop cand body) > tail_budget then (start, kept)
      else recency_walk jm body max_groups tail_budget cands (cand, kept + 1))"

definition recency_start_for_budget ::
  "json_marshal \<Rightarrow> chat_message list \<Rightarrow> nat list \<Rightarrow> int \<Rightarrow> int \<Rightarrow> nat \<times> int" where
  "recency_start_for_budget jm body user_idxs max_groups tail_budget =
     recency_walk jm body max_groups tail_budget (tl (rev user_idxs)) (last user_idxs, 1)"

definition render_summary_message :: "string \<Rightarrow> string \<Rightarrow> string" where
  "render_summary_message anchor summary =
     compaction_marker @ newline
     @ ''This session's context was compacted to stay within budget.'' @ newline @ newline
     @ (if anchor \<noteq> []
        then ''ACTIVE GOAL (verbatim first user prompt):'' @ newline @ anchor @ newline @ newline
        else [])
     @ ''## Summary of earlier turns'' @ newline @ summary"

type_synonym 'w summarizer = "chat_message list \<Rightarrow> 'w \<Rightarrow> (go_error + string) \<times> 'w"

definition summary_line :: "chat_message \<Rightarrow> string" where
  "summary_line m = role_name (m_role m) @ '': '' @ m_content m
     @ concat (map (\<lambda>c. '' [tool_call '' @ surface c @ ''.'' @ action c @ '']'') (m_tool_calls m))
     @ newline"

definition summary_prompt :: "string \<Rightarrow> chat_message list \<Rightarrow> chat_message list" where
  "summary_prompt prev middle =
     [text_message RoleSystem ''Summarize the following agent transcript span, preserving decisions made, facts established, files/identifiers touched, and any open threads. Be terse and factual. Output only the summary.'',
      text_message RoleUser
        ((if prev \<noteq> []
          then ''Summary so far (extend, do not drop):'' @ newline @ prev @ newline @ newline
          else [])
         @ ''Transcript span to fold into the summary:'' @ newline
         @ concat (map summary_line middle))]"

definition summarize ::
  "'w summarizer \<Rightarrow> string \<Rightarrow> chat_message list \<Rightarrow> 'w \<Rightarrow> (go_error + string) \<times> 'w" where
  "summarize sm prev middle w =
     (case sm (summary_prompt prev middle) w of
        (Inl e, w') \<Rightarrow> (Inl (e\<lparr>err_text := ''compaction summary: '' @ err_text e\<rparr>), w')
      | (Inr t, w') \<Rightarrow> (Inr t, w'))"

definition tail_budget_for ::
  "json_marshal \<Rightarrow> compactor \<Rightarrow> chat_message list \<Rightarrow> int \<Rightarrow> int \<Rightarrow> int" where
  "tail_budget_for jm c real_system budget overhead =
     (let fit = trunc (of_int (budget - overhead) / floor_ratio (c_token_ratio c));
          tb = fit - estimate_tokens jm real_system - summary_reserve_tokens
      in if tb < min_tail_tokens then min_tail_tokens else tb)"

record compact_result =
  k_transcript :: "chat_message list"
  k_summary :: string
  k_event :: "compaction_event option"
  k_error :: "go_error option"

definition compact_to_budget ::
  "json_marshal \<Rightarrow> 'w summarizer \<Rightarrow> compactor \<Rightarrow> chat_message list \<Rightarrow> string \<Rightarrow> string
     \<Rightarrow> int \<Rightarrow> int \<Rightarrow> int \<Rightarrow> int \<Rightarrow> 'w \<Rightarrow> compact_result \<times> 'w" where
  "compact_to_budget jm sm c ms anchor prev overhead turn budget recency_turns w =
     (let recency_turns = (if recency_turns < 1 then 1 else recency_turns);
          unchanged = \<lparr>k_transcript = ms, k_summary = prev, k_event = None, k_error = None\<rparr>;
          before = current_size jm c ms overhead
      in if before \<le> budget then (unchanged, w)
         else
           let (real_system, body) = split_for_compaction ms;
               user_idxs = user_message_indices body
           in if length user_idxs < 2 then (unchanged, w)
              else
                let tail_budget = tail_budget_for jm c real_system budget overhead;
                    (start, kept) =
                      recency_start_for_budget jm body user_idxs recency_turns tail_budget;
                    middle = take start body;
                    recency = drop start body
                in if middle = [] then (unchanged, w)
                   else
                     (case summarize sm prev middle w of
                        (Inl e, w') \<Rightarrow> (unchanged\<lparr>k_error := Some e\<rparr>, w')
                      | (Inr summary, w') \<Rightarrow>
                          let out = real_system
                                @ [text_message RoleSystem (render_summary_message anchor summary)]
                                @ recency
                          in (\<lparr>k_transcript = out, k_summary = summary,
                               k_event = Some \<lparr>ev_turn_index = turn, ev_tokens_before = before,
                                 ev_tokens_after = current_size jm c out overhead,
                                 ev_groups_evicted = int (length user_idxs) - kept,
                                 ev_budget = budget, ev_overhead = overhead\<rparr>,
                               k_error = None\<rparr>, w')))"

definition compact_transcript ::
  "json_marshal \<Rightarrow> 'w summarizer \<Rightarrow> compactor \<Rightarrow> chat_message list \<Rightarrow> string \<Rightarrow> string
     \<Rightarrow> int \<Rightarrow> int \<Rightarrow> 'w \<Rightarrow> compact_result \<times> 'w" where
  "compact_transcript jm sm c ms anchor prev overhead turn w =
     compact_to_budget jm sm c ms anchor prev overhead turn (c_budget c) (c_recency_turns c) w"

definition first_user_content :: "chat_message list \<Rightarrow> string" where
  "first_user_content ms =
     (case filter (\<lambda>m. m_role m = RoleUser) ms of [] \<Rightarrow> [] | m # _ \<Rightarrow> m_content m)"

end
