(* ===== verification/Compaction_Laws.thy ===== *)
theory Compaction_Laws
  imports Compaction
begin

text \<open>
  The lemmas on the transcript operations: estimates are positive and additive, eviction elides the
  fewest oldest tool results that make the transcript fit, the recency tail is the longest run of
  recent turn groups within its budget, and the pairing of tool calls with their results survives
  every rewriting that cuts at a turn boundary.
\<close>

subsection \<open>Estimates\<close>

lemma param_tokens_nonneg [simp]: "0 \<le> param_tokens jm ps"
  by (simp add: param_tokens_def split: option.splits)

lemma call_tokens_nonneg [simp]: "0 \<le> call_tokens jm c"
  using param_tokens_nonneg [of jm "params c"] by (simp add: call_tokens_def)

lemma message_tokens_pos: "4 \<le> message_tokens jm m"
proof -
  have "0 \<le> sum_list (map (call_tokens jm) (m_tool_calls m))" by (rule sum_list_nonneg) auto
  then show ?thesis by (simp add: message_tokens_def)
qed

lemma estimate_Nil [simp]: "estimate_tokens jm [] = 0"
  by (simp add: estimate_tokens_def)

lemma estimate_Cons [simp]:
  "estimate_tokens jm (m # ms) = message_tokens jm m + estimate_tokens jm ms"
  by (simp add: estimate_tokens_def)

lemma estimate_append [simp]:
  "estimate_tokens jm (xs @ ys) = estimate_tokens jm xs + estimate_tokens jm ys"
  by (simp add: estimate_tokens_def)

lemma estimate_ge: "4 * int (length ms) \<le> estimate_tokens jm ms"
proof (induction ms)
  case Nil
  then show ?case by simp
next
  case (Cons m ms)
  with message_tokens_pos [of jm m] show ?case by simp
qed

lemma estimate_nonneg [simp]: "0 \<le> estimate_tokens jm ms"
  using estimate_ge [of ms jm] by simp

lemma trunc_nonneg: "0 \<le> x \<Longrightarrow> trunc x = \<lfloor>x\<rfloor>"
  by (simp add: trunc_def)

lemma floor_ratio_ge: "1 \<le> floor_ratio r"
  by (simp add: floor_ratio_def)

lemma trunc_scaled_le:
  assumes "0 \<le> n" "1 \<le> r" "n \<le> trunc (of_int b / r)" "0 \<le> b"
  shows "trunc (of_int n * r) \<le> b"
proof -
  have pos: "0 \<le> (of_int b :: rat) / r" "0 \<le> of_int n * r" using assms by auto
  then have "of_int n \<le> (of_int b :: rat) / r"
    using assms(3) by (simp add: trunc_nonneg le_floor_iff)
  then have "of_int n * r \<le> of_int b" using assms(2) by (simp add: pos_le_divide_eq)
  then show ?thesis using pos by (simp add: trunc_nonneg floor_le_iff)
qed

lemma observe_ratio_bounds:
  assumes "c_token_ratio c \<le> max_token_ratio"
  shows "c_token_ratio c \<le> c_token_ratio (observe_token_ratio r c)
    \<and> c_token_ratio (observe_token_ratio r c) \<le> max_token_ratio
    \<and> c_budget (observe_token_ratio r c) = c_budget c
    \<and> c_recency_turns (observe_token_ratio r c) = c_recency_turns c"
  using assms by (simp add: observe_token_ratio_def Let_def)

subsection \<open>Eviction\<close>

definition elided :: "nat list \<Rightarrow> chat_message list \<Rightarrow> chat_message list" where
  "elided is ms = map (\<lambda>i. if i \<in> set is then evict_message (ms ! i) else ms ! i) [0..<length ms]"

lemma length_elided [simp]: "length (elided is ms) = length ms"
  by (simp add: elided_def)

lemma nth_elided [simp]:
  "i < length ms \<Longrightarrow> elided is ms ! i = (if i \<in> set is then evict_message (ms ! i) else ms ! i)"
  by (simp add: elided_def)

lemma elided_Nil [simp]: "elided [] ms = ms"
  by (rule nth_equalityI) auto

lemma elided_snoc:
  assumes "i < length ms" "i \<notin> set is"
  shows "(elided is ms)[i := evict_message (elided is ms ! i)] = elided (is @ [i]) ms"
  using assms by (intro nth_equalityI) (auto simp: nth_list_update)

lemma evictable_idxs_less: "i \<in> set (evictable_idxs ms) \<Longrightarrow> i < length ms \<and> evictable (ms ! i)"
  by (auto simp: evictable_idxs_def)

lemma distinct_evictable_idxs [simp]: "distinct (evictable_idxs ms)"
  by (simp add: evictable_idxs_def)

lemma sorted_evictable_idxs [simp]: "sorted (evictable_idxs ms)"
  by (simp add: evictable_idxs_def sorted_wrt_filter)

lemma evict_pass_spec:
  assumes "evict_pass fits idxs stop k (elided (take k idxs) ms) = (ret, n, ms')"
    and "distinct idxs" "\<forall>i \<in> set idxs. i < length ms" "k \<le> length idxs"
  shows "k \<le> n \<and> n \<le> length idxs \<and> ms' = elided (take n idxs) ms
    \<and> (\<forall>j. k \<le> j \<longrightarrow> j < n \<longrightarrow> \<not> fits (elided (take j idxs) ms))
    \<and> (int k \<le> stop \<longrightarrow> int n \<le> stop)
    \<and> (ret \<longrightarrow> fits (elided (take n idxs) ms)) \<and> (\<not> ret \<longrightarrow> n = length idxs \<or> stop \<le> int n)"
  using assms
proof (induction "length idxs - k" arbitrary: k)
  case 0
  then show ?case by (subst (asm) evict_pass.simps) auto
next
  case (Suc d)
  show ?case
  proof (cases "int k < stop \<and> \<not> fits (elided (take k idxs) ms)")
    case True
    have k: "k < length idxs" using Suc.hyps(2) by simp
    let ?i = "idxs ! k"
    have i: "?i < length ms" "?i \<notin> set (take k idxs)"
      using Suc.prems(2,3) k by (simp, auto simp: in_set_conv_nth nth_eq_iff_index_eq)
    have "evict_pass fits idxs stop (Suc k) (elided (take (Suc k) idxs) ms) = (ret, n, ms')"
      using Suc.prems(1) True k elided_snoc [OF i]
      by (subst (asm) evict_pass.simps) (simp add: Let_def take_Suc_conv_app_nth)
    then have IH: "Suc k \<le> n \<and> n \<le> length idxs \<and> ms' = elided (take n idxs) ms
      \<and> (\<forall>j. Suc k \<le> j \<longrightarrow> j < n \<longrightarrow> \<not> fits (elided (take j idxs) ms))
      \<and> (int (Suc k) \<le> stop \<longrightarrow> int n \<le> stop)
      \<and> (ret \<longrightarrow> fits (elided (take n idxs) ms)) \<and> (\<not> ret \<longrightarrow> n = length idxs \<or> stop \<le> int n)"
      using Suc.hyps(1) [of "Suc k"] Suc.hyps(2) Suc.prems k by simp
    moreover have "\<not> fits (elided (take j idxs) ms)" if "k \<le> j" "j < n" for j
      using that True IH by (cases "j = k") auto
    ultimately show ?thesis using True by auto
  next
    case False
    with Suc.prems show ?thesis by (subst (asm) evict_pass.simps) (auto split: if_splits)
  qed
qed

text \<open>The clamped floor of the second pass.\<close>

definition hard_floor :: "int \<Rightarrow> int \<Rightarrow> nat" where
  "hard_floor keep hard_min = nat (min (max 0 hard_min) (max 0 keep))"

lemma evict_tool_results_least:
  assumes "evict_tool_results jm ms budget overhead keep hard_min ratio = (n, ms')"
  defines "idxs \<equiv> evictable_idxs ms"
    and "fits \<equiv> \<lambda>ms. evict_size jm overhead ratio ms \<le> budget"
  shows "ms' = elided (take n idxs) ms \<and> n \<le> length idxs - hard_floor keep hard_min
    \<and> (\<forall>j < n. \<not> fits (elided (take j idxs) ms))
    \<and> (fits ms' \<or> n = length idxs - hard_floor keep hard_min)"
proof (cases "fits ms")
  case True
  with assms show ?thesis by (simp add: evict_tool_results_def Let_def)
next
  case False
  define lo where "lo = max 0 keep"
  define hi where "hi = min (max 0 hard_min) lo"
  have ranges: "0 \<le> hi" "hi \<le> lo" by (auto simp: lo_def hi_def)
  have hf: "hard_floor keep hard_min = nat hi" by (simp add: hard_floor_def hi_def lo_def)
  obtain r1 n1 m1 where p1: "evict_pass fits idxs (int (length idxs) - lo) 0 ms = (r1, n1, m1)"
    by (metis prod_cases3)
  have wf: "distinct idxs" "\<forall>i \<in> set idxs. i < length ms"
    using evictable_idxs_less by (auto simp: idxs_def)
  have s1: "n1 \<le> length idxs \<and> m1 = elided (take n1 idxs) ms
    \<and> (\<forall>j < n1. \<not> fits (elided (take j idxs) ms))
    \<and> (0 \<le> int (length idxs) - lo \<longrightarrow> int n1 \<le> int (length idxs) - lo)
    \<and> (r1 \<longrightarrow> fits (elided (take n1 idxs) ms))"
    using evict_pass_spec [of fits idxs "int (length idxs) - lo" 0 ms r1 n1 m1] p1 wf
    by simp
  have n1_neg: "n1 = 0" if "\<not> 0 \<le> int (length idxs) - lo"
    using p1 that by (subst (asm) evict_pass.simps) auto
  have n1_le: "n1 \<le> length idxs - nat hi" using s1 n1_neg ranges by linarith
  have res: "evict_passes fits idxs [lo, hi] 0 ms = (n, ms')"
  proof -
    have "(if (if hard_min < 0 then 0 else hard_min) > lo then lo
           else if hard_min < 0 then 0 else hard_min) = hi" by (auto simp: hi_def lo_def)
    moreover have "(if keep < 0 then 0 else keep) = lo" by (auto simp: lo_def)
    moreover have "evict_tool_results jm ms budget overhead keep hard_min ratio =
      evict_passes fits idxs
        [if keep < 0 then 0 else keep,
         if (if hard_min < 0 then 0 else hard_min) > (if keep < 0 then 0 else keep)
         then (if keep < 0 then 0 else keep) else if hard_min < 0 then 0 else hard_min] 0 ms"
      using False unfolding evict_tool_results_def Let_def idxs_def fits_def by (rule if_not_P)
    ultimately show ?thesis using assms(1) by presburger
  qed
  show ?thesis
  proof (cases "fits m1")
    case True
    with res p1 have "n = n1" "ms' = m1" by auto
    with s1 True n1_le hf show ?thesis by auto
  next
    case unfit: False
    then have nr: "\<not> r1" using s1 by blast
    obtain r2 n2 m2 where p2: "evict_pass fits idxs (int (length idxs) - hi) n1 m1 = (r2, n2, m2)"
      by (metis prod_cases3)
    have nm: "n = n2" "ms' = m2" using res p1 p2 nr unfit by (auto split: if_splits)
    have s2: "n1 \<le> n2 \<and> n2 \<le> length idxs \<and> m2 = elided (take n2 idxs) ms
      \<and> (\<forall>j. n1 \<le> j \<longrightarrow> j < n2 \<longrightarrow> \<not> fits (elided (take j idxs) ms))
      \<and> (int n1 \<le> int (length idxs) - hi \<longrightarrow> int n2 \<le> int (length idxs) - hi)
      \<and> (r2 \<longrightarrow> fits (elided (take n2 idxs) ms)) \<and> (\<not> r2 \<longrightarrow> n2 = length idxs \<or> int (length idxs) - hi \<le> int n2)"
      using evict_pass_spec [of fits idxs "int (length idxs) - hi" n1 ms r2 n2 m2] p2 wf s1 by simp
    have unfits: "\<not> fits (elided (take j idxs) ms)" if "j < n2" for j
      using that s1 s2 by (cases "j < n1") auto
    have upper: "n2 \<le> length idxs - nat hi"
    proof (cases "hi \<le> int (length idxs)")
      case True
      with n1_le have "int n1 \<le> int (length idxs) - hi" using ranges by linarith
      with s2 have "int n2 \<le> int (length idxs) - hi" by blast
      then show ?thesis using ranges by linarith
    next
      case False
      then have "n2 = n1" using p2 by (subst (asm) evict_pass.simps) auto
      with n1_le show ?thesis by simp
    qed
    have "fits m2 \<or> n2 = length idxs - nat hi"
    proof (cases r2)
      case True
      with s2 show ?thesis by simp
    next
      case False
      with s2 have "n2 = length idxs \<or> int (length idxs) - hi \<le> int n2" by blast
      with upper ranges show ?thesis by linarith
    qed
    with s2 unfits upper nm hf show ?thesis by auto
  qed
qed

subsection \<open>Pairing of tool calls and results\<close>

text \<open>\<open>paired_from ps ms\<close>: the messages \<open>ms\<close> first answer the pending calls \<open>ps\<close> in order, and
  every later request of calls is followed at once by its results.\<close>

fun paired_from :: "string list \<Rightarrow> chat_message list \<Rightarrow> bool" where
  "paired_from ps [] = (ps = [])"
| "paired_from [] (m # ms) =
     (m_role m \<noteq> RoleTool
      \<and> paired_from (if m_role m = RoleAssistant then map call_id (m_tool_calls m) else []) ms)"
| "paired_from (p # ps) (m # ms) =
     (m_role m = RoleTool \<and> m_tool_call_id m = p \<and> paired_from ps ms)"

abbreviation paired :: "chat_message list \<Rightarrow> bool" where
  "paired ms \<equiv> paired_from [] ms"

lemma paired_append:
  "paired_from ps xs \<Longrightarrow> paired ys \<Longrightarrow> paired_from ps (xs @ ys)"
  by (induction ps xs rule: paired_from.induct) auto

lemma paired_cut:
  "paired_from ps (xs @ y # ys) \<Longrightarrow> m_role y \<noteq> RoleTool \<Longrightarrow>
     paired_from ps xs \<and> paired (y # ys)"
proof (induction xs arbitrary: ps)
  case Nil
  then show ?case by (cases ps) auto
next
  case (Cons x xs)
  then show ?case by (cases ps) auto
qed

lemma paired_cong:
  assumes "list_all2 (\<lambda>m m'. m_role m = m_role m' \<and> m_tool_call_id m = m_tool_call_id m'
      \<and> m_tool_calls m = m_tool_calls m') ms ms'"
  shows "paired_from ps ms = paired_from ps ms'"
  using assms
proof (induction ms ms' arbitrary: ps rule: list_all2_induct)
  case Nil
  then show ?case by simp
next
  case (Cons m ms m' ms')
  then show ?case by (cases ps) auto
qed

lemma elided_same_shape:
  "list_all2 (\<lambda>m m'. m_role m = m_role m' \<and> m_tool_call_id m = m_tool_call_id m'
      \<and> m_tool_calls m = m_tool_calls m') ms (elided is ms)"
  by (auto simp: list_all2_conv_all_nth evict_message_def)

lemma paired_elided: "paired_from ps (elided is ms) = paired_from ps ms"
  using paired_cong [OF elided_same_shape] by metis

lemma paired_text [simp]: "r \<noteq> RoleTool \<Longrightarrow> paired [text_message r s]"
  by (simp add: text_message_def)

lemma paired_snoc:
  "paired ms \<Longrightarrow> r \<noteq> RoleTool \<Longrightarrow> paired (ms @ [text_message r s])"
  by (rule paired_append [OF _ paired_text])

lemma paired_system: "list_all (\<lambda>m. m_role m = RoleSystem) ms \<Longrightarrow> paired ms"
  by (induction ms) auto

text \<open>Dropping messages that neither request nor answer a call keeps the pairing.\<close>

lemma paired_filter:
  assumes "paired_from ps ms"
    and "\<forall>m \<in> set ms. \<not> keep m \<longrightarrow> m_role m \<noteq> RoleTool \<and>
           (m_role m = RoleAssistant \<longrightarrow> m_tool_calls m = [])"
  shows "paired_from ps (filter keep ms)"
  using assms
proof (induction ps ms rule: paired_from.induct)
  case (1 ps)
  then show ?case by simp
next
  case (2 m ms)
  then show ?case by (cases "keep m"; cases "m_role m") auto
next
  case (3 p ps m ms)
  then show ?case by auto
qed

subsection \<open>Splitting and the recency tail\<close>

lemma split_parts:
  assumes "split_for_compaction ms = (sys, body)"
  shows "list_all (\<lambda>m. m_role m = RoleSystem \<and> \<not> is_summary m) sys
    \<and> (\<exists>s. ms = sys @ s @ body \<and> list_all is_summary s \<and> length s \<le> 1)"
proof -
  let ?p = "\<lambda>m. m_role m = RoleSystem \<and> \<not> has_prefix (m_content m) compaction_marker"
  have sys: "sys = takeWhile ?p ms"
    using assms by (simp add: split_for_compaction_def Let_def)
  have body: "body = (case dropWhile ?p ms of [] \<Rightarrow> []
      | m # ms' \<Rightarrow> if is_summary m then ms' else dropWhile ?p ms)"
    using assms by (simp add: split_for_compaction_def Let_def)
  have 1: "list_all (\<lambda>m. m_role m = RoleSystem \<and> \<not> is_summary m) sys"
    using set_takeWhileD unfolding sys list_all_iff is_summary_def by fastforce
  have app: "ms = sys @ dropWhile ?p ms" by (simp add: sys)
  have "\<exists>s. dropWhile ?p ms = s @ body \<and> list_all is_summary s \<and> length s \<le> 1"
  proof (cases "dropWhile ?p ms")
    case Nil
    with body have "dropWhile ?p ms = [] @ body \<and> list_all is_summary [] \<and> length [] \<le> 1"
      by simp
    then show ?thesis by metis
  next
    case (Cons m ms')
    with body show ?thesis by (cases "is_summary m") (auto intro: exI [of _ "[m]"])
  qed
  with app 1 show ?thesis by metis
qed

lemma split_rebuilt:
  assumes "list_all (\<lambda>m. m_role m = RoleSystem \<and> \<not> is_summary m) sys" "is_summary s"
  shows "split_for_compaction (sys @ s # tail) = (sys, tail)"
proof -
  have "\<forall>m \<in> set sys. m_role m = RoleSystem \<and> \<not> has_prefix (m_content m) compaction_marker"
    using assms(1) by (auto simp: list_all_iff is_summary_def)
  then show ?thesis using assms(2)
    by (simp add: split_for_compaction_def Let_def is_summary_def takeWhile_append dropWhile_append)
qed

lemma rendered_is_summary [simp]:
  "is_summary (text_message RoleSystem (render_summary_message anchor summary))"
  by (simp add: is_summary_def text_message_def render_summary_message_def has_prefix_iff)

lemma rendered_contains:
  "contains (render_summary_message anchor summary) anchor"
  "contains (render_summary_message anchor summary) summary"
proof -
  let ?head = "compaction_marker @ newline
     @ ''This session's context was compacted to stay within budget.'' @ newline @ newline"
    and ?goal = "''ACTIVE GOAL (verbatim first user prompt):'' @ newline"
    and ?title = "''## Summary of earlier turns'' @ newline"
  show "contains (render_summary_message anchor summary) anchor"
  proof (cases "anchor = []")
    case True
    then show ?thesis unfolding contains_iff by (metis append_Nil)
  next
    case False
    then have "render_summary_message anchor summary =
        (?head @ ?goal) @ anchor @ (newline @ newline @ ?title @ summary)"
      by (simp only: render_summary_message_def append.assoc if_True not_False_eq_True)
    then show ?thesis unfolding contains_iff by blast
  qed
  have "render_summary_message anchor summary =
      (?head @ (if anchor \<noteq> [] then ?goal @ anchor @ newline @ newline else []) @ ?title)
        @ summary @ []"
    by (simp only: render_summary_message_def append.assoc append_Nil2)
  then show "contains (render_summary_message anchor summary) summary"
    unfolding contains_iff by blast
qed

lemma user_indices:
  "i \<in> set (user_message_indices body) \<Longrightarrow> i < length body \<and> m_role (body ! i) = RoleUser"
  by (auto simp: user_message_indices_def)

lemma sorted_user_indices [simp]: "sorted_wrt (<) (user_message_indices body)"
  by (simp add: user_message_indices_def sorted_wrt_filter sorted_wrt_upt)

lemma recency_walk_spec:
  assumes "recency_walk jm body mg tb (rev (take k idxs)) (idxs ! k, kept0) = (start, kept)"
    and "k < length idxs" "kept0 + int k = int (length idxs)"
  shows "kept0 \<le> kept \<and> kept \<le> int (length idxs) \<and> start = idxs ! nat (int (length idxs) - kept)
    \<and> (kept0 < kept \<longrightarrow> kept \<le> mg \<and> estimate_tokens jm (drop start body) \<le> tb)
    \<and> (mg \<le> kept \<or> kept = int (length idxs)
        \<or> tb < estimate_tokens jm (drop (idxs ! nat (int (length idxs) - kept - 1)) body))"
  using assms
proof (induction k arbitrary: kept0)
  case 0
  then show ?case by simp
next
  case (Suc k)
  have rv: "rev (take (Suc k) idxs) = idxs ! k # rev (take k idxs)"
    using Suc.prems(2) by (simp add: take_Suc_conv_app_nth)
  have n: "nat (int (length idxs) - kept0) = Suc k" "nat (int (length idxs) - kept0 - 1) = k"
    using Suc.prems(3) by auto
  show ?case
  proof (cases "kept0 < mg \<and> estimate_tokens jm (drop (idxs ! k) body) \<le> tb")
    case True
    then have "recency_walk jm body mg tb (rev (take k idxs)) (idxs ! k, kept0 + 1) = (start, kept)"
      using Suc.prems(1) rv by simp
    note IH = Suc.IH [OF this]
    have "k < length idxs" "kept0 + 1 + int k = int (length idxs)" using Suc.prems by auto
    note IH = IH [OF this]
    have "kept = kept0 + 1 \<Longrightarrow> start = idxs ! k"
      using IH Suc.prems(3) by (metis add.commute add_diff_cancel_left' nat_int add.assoc of_nat_Suc)
    with IH True show ?thesis by (cases "kept = kept0 + 1") auto
  next
    case False
    then have "start = idxs ! Suc k" "kept = kept0"
      using Suc.prems(1) rv by (auto split: if_splits)
    with n False Suc.prems(3) show ?thesis by auto
  qed
qed

text \<open>The kept tail: a whole number of the most recent groups, at least one, at most the cap, within
  the tail budget when more than one, and not extendable.\<close>

lemma recency_start_spec:
  assumes "recency_start_for_budget jm body idxs mg tb = (start, kept)" "idxs \<noteq> []"
  shows "1 \<le> kept \<and> kept \<le> int (length idxs) \<and> start = idxs ! nat (int (length idxs) - kept)
    \<and> (1 < kept \<longrightarrow> kept \<le> mg \<and> estimate_tokens jm (drop start body) \<le> tb)
    \<and> (mg \<le> kept \<or> kept = int (length idxs)
        \<or> tb < estimate_tokens jm (drop (idxs ! nat (int (length idxs) - kept - 1)) body))"
proof -
  let ?k = "length idxs - 1"
  have "tl (rev idxs) = rev (take ?k idxs)"
    using assms(2) by (metis butlast_conv_take butlast_rev rev_rev_ident)
  moreover have "last idxs = idxs ! ?k" using assms(2) by (rule last_conv_nth)
  ultimately have "recency_walk jm body mg tb (rev (take ?k idxs)) (idxs ! ?k, 1) = (start, kept)"
    using assms(1) by (simp add: recency_start_for_budget_def)
  moreover have "?k < length idxs" "1 + int ?k = int (length idxs)"
    using assms(2) by (auto simp: of_nat_diff Suc_le_eq)
  ultimately show ?thesis by (rule recency_walk_spec)
qed

subsection \<open>Shape of a compaction\<close>

lemma compact_unchanged:
  assumes "k_event (fst (compact_to_budget jm sm c ms anchor prev overhead turn budget rt w)) = None"
  shows "k_transcript (fst (compact_to_budget jm sm c ms anchor prev overhead turn budget rt w)) = ms
    \<and> k_summary (fst (compact_to_budget jm sm c ms anchor prev overhead turn budget rt w)) = prev"
  using assms
  by (auto simp: compact_to_budget_def Let_def split: prod.splits sum.splits if_splits)

lemma compact_fired:
  assumes "compact_to_budget jm sm c ms anchor prev overhead turn budget rt w = (r, w')"
    and "k_event r = Some ev"
  obtains sys body start kept summary where
    "split_for_compaction ms = (sys, body)" "2 \<le> length (user_message_indices body)"
    "budget < current_size jm c ms overhead"
    "recency_start_for_budget jm body (user_message_indices body) (max 1 rt)
       (tail_budget_for jm c sys budget overhead) = (start, kept)"
    "take start body \<noteq> []" "summarize sm prev (take start body) w = (Inr summary, w')"
    "k_transcript r =
       sys @ text_message RoleSystem (render_summary_message anchor summary) # drop start body"
    "k_summary r = summary" "k_error r = None"
    "ev = \<lparr>ev_turn_index = turn, ev_tokens_before = current_size jm c ms overhead,
       ev_tokens_after = current_size jm c (k_transcript r) overhead,
       ev_groups_evicted = int (length (user_message_indices body)) - kept,
       ev_budget = budget, ev_overhead = overhead\<rparr>"
proof -
  obtain sys body where sp: "split_for_compaction ms = (sys, body)" by fastforce
  let ?rt = "if rt < 1 then 1 else rt"
  have rt: "?rt = max 1 rt" by simp
  obtain start kept where rs: "recency_start_for_budget jm body (user_message_indices body) ?rt
      (tail_budget_for jm c sys budget overhead) = (start, kept)" by fastforce
  obtain sres w2 where su: "summarize sm prev (take start body) w = (sres, w2)" by fastforce
  have over: "budget < current_size jm c ms overhead"
    and two: "2 \<le> length (user_message_indices body)" and mid: "take start body \<noteq> []"
    using assms sp rs by (auto simp: compact_to_budget_def Let_def split: if_splits)
  have body: "(r, w') = (case (sres, w2) of
      (Inl e, w') \<Rightarrow> (\<lparr>k_transcript = ms, k_summary = prev, k_event = None, k_error = Some e\<rparr>, w')
    | (Inr summary, w') \<Rightarrow>
        let out = sys @ [text_message RoleSystem (render_summary_message anchor summary)]
              @ drop start body
        in (\<lparr>k_transcript = out, k_summary = summary,
             k_event = Some \<lparr>ev_turn_index = turn, ev_tokens_before = current_size jm c ms overhead,
               ev_tokens_after = current_size jm c out overhead,
               ev_groups_evicted = int (length (user_message_indices body)) - kept,
               ev_budget = budget, ev_overhead = overhead\<rparr>,
             k_error = None\<rparr>, w'))"
    using assms(1) sp rs su over two mid
    by (simp add: compact_to_budget_def Let_def split: if_splits prod.splits sum.splits)
  show ?thesis
  proof (cases sres)
    case (Inl e)
    with body assms(2) show ?thesis by simp
  next
    case (Inr summary)
    then have r: "r = \<lparr>k_transcript =
          sys @ text_message RoleSystem (render_summary_message anchor summary) # drop start body,
        k_summary = summary,
        k_event = Some \<lparr>ev_turn_index = turn, ev_tokens_before = current_size jm c ms overhead,
          ev_tokens_after = current_size jm c
            (sys @ text_message RoleSystem (render_summary_message anchor summary) # drop start body)
            overhead,
          ev_groups_evicted = int (length (user_message_indices body)) - kept,
          ev_budget = budget, ev_overhead = overhead\<rparr>,
        k_error = None\<rparr>" and w': "w' = w2"
      using body by (simp_all add: Let_def)
    show ?thesis
      by (rule that [of sys body start kept summary])
        (use sp rs su over two mid rt r w' Inr assms(2) in simp_all)
  qed
qed

text \<open>The tail of a compaction starts at a user message of the body.\<close>

lemma recency_tail_head:
  assumes "recency_start_for_budget jm body (user_message_indices body) mg tb = (start, kept)"
    and "2 \<le> length (user_message_indices body)"
  shows "start < length body \<and> m_role (body ! start) = RoleUser"
proof -
  let ?ix = "user_message_indices body"
  have ne: "?ix \<noteq> []" using assms(2) by auto
  note spec = recency_start_spec [OF assms(1) ne]
  then have "start = ?ix ! nat (int (length ?ix) - kept)" "nat (int (length ?ix) - kept) < length ?ix"
    by linarith+
  then have "start \<in> set ?ix" by simp
  then show ?thesis by (rule user_indices)
qed

subsection \<open>Rewritings keep the pairing\<close>

text \<open>No message that requests or answers a call starts with a reminder marker.\<close>

definition unmarked :: "chat_message list \<Rightarrow> bool" where
  "unmarked ms = list_all (\<lambda>m. has_prefix (m_content m) goal_reminder_marker
     \<or> has_prefix (m_content m) spawn_force_marker \<longrightarrow> m_role m \<noteq> RoleTool \<and> m_tool_calls m = []) ms"

lemma unmarked_append [simp]: "unmarked (xs @ ys) \<longleftrightarrow> unmarked xs \<and> unmarked ys"
  by (simp add: unmarked_def)

lemma unmarked_Nil [simp]: "unmarked []"
  by (simp add: unmarked_def)

lemma unmarked_text [simp]: "r \<noteq> RoleTool \<Longrightarrow> unmarked [text_message r t]"
  by (simp add: unmarked_def text_message_def)

lemma unmarked_subset: "set ys \<subseteq> set xs \<Longrightarrow> unmarked xs \<Longrightarrow> unmarked ys"
  by (auto simp: unmarked_def list_all_iff)

lemma evict_paired:
  "paired ms \<Longrightarrow> paired (snd (evict_tool_results jm ms budget overhead keep hard_min ratio))"
  using evict_tool_results_least [of jm ms budget overhead keep hard_min ratio]
  by (cases "evict_tool_results jm ms budget overhead keep hard_min ratio") (simp add: paired_elided)

lemma evicted_unmarked:
  assumes "unmarked ms"
  shows "unmarked (snd (evict_tool_results jm ms budget overhead keep hard_min ratio))"
proof -
  obtain n ms' where e: "evict_tool_results jm ms budget overhead keep hard_min ratio = (n, ms')"
    by fastforce
  have "ms' = elided (take n (evictable_idxs ms)) ms"
    using evict_tool_results_least [OF e] by blast
  moreover have "unmarked [evict_message m]" for m
    by (simp add: unmarked_def evict_message_def evicted_marker_def goal_reminder_marker_def
        spawn_force_marker_def has_prefix_def)
  ultimately show ?thesis
    using assms e by (auto simp: unmarked_def list_all_length)
qed

lemma compact_paired:
  assumes "paired ms"
  shows "paired (k_transcript (fst (compact_to_budget jm sm c ms anchor prev overhead turn b rt w)))"
proof -
  obtain r w' where r: "compact_to_budget jm sm c ms anchor prev overhead turn b rt w = (r, w')"
    by fastforce
  show ?thesis
  proof (cases "k_event r")
    case None
    with compact_unchanged [of jm sm c ms anchor prev overhead turn b rt w] r assms
    show ?thesis by simp
  next
    case (Some ev)
    from r Some obtain sys body start kept summary where f:
      "split_for_compaction ms = (sys, body)" "2 \<le> length (user_message_indices body)"
      "recency_start_for_budget jm body (user_message_indices body) (max 1 rt)
         (tail_budget_for jm c sys b overhead) = (start, kept)"
      "k_transcript r =
         sys @ text_message RoleSystem (render_summary_message anchor summary) # drop start body"
      by (rule compact_fired)
    have st: "start < length body" "m_role (body ! start) = RoleUser"
      using recency_tail_head [OF f(3,2)] by auto
    obtain s where ms: "ms = sys @ s @ body" and sys: "list_all (\<lambda>m. m_role m = RoleSystem) sys"
      using split_parts [OF f(1)] by (auto simp: list_all_iff)
    have "ms = (sys @ s @ take start body) @ body ! start # drop (Suc start) body"
      using ms st(1) by (simp add: id_take_nth_drop [symmetric])
    with assms have "paired (body ! start # drop (Suc start) body)"
      using paired_cut [of "[]" "sys @ s @ take start body"] st(2) by (metis role.distinct(9))
    then have tail: "paired (drop start body)" using st(1) by (simp add: Cons_nth_drop_Suc)
    have "paired (sys @ [text_message RoleSystem (render_summary_message anchor summary)])"
      by (rule paired_snoc [OF paired_system [OF sys]]) simp
    from paired_append [OF this tail] show ?thesis using r f(4) by simp
  qed
qed

lemma compact_unmarked:
  assumes "unmarked ms"
  shows "unmarked (k_transcript (fst (compact_to_budget jm sm c ms anchor prev overhead turn b rt w)))"
proof -
  obtain r w' where r: "compact_to_budget jm sm c ms anchor prev overhead turn b rt w = (r, w')"
    by fastforce
  show ?thesis
  proof (cases "k_event r")
    case None
    with compact_unchanged [of jm sm c ms anchor prev overhead turn b rt w] r assms
    show ?thesis by simp
  next
    case (Some ev)
    from r Some obtain sys body start kept summary where f:
      "split_for_compaction ms = (sys, body)"
      "k_transcript r =
         sys @ text_message RoleSystem (render_summary_message anchor summary) # drop start body"
      by (rule compact_fired)
    obtain s where ms: "ms = sys @ s @ body" using split_parts [OF f(1)] by auto
    have "unmarked sys" "unmarked (drop start body)"
      using assms unfolding ms by (auto intro: unmarked_subset [OF set_drop_subset])
    moreover have "unmarked [text_message RoleSystem (render_summary_message anchor summary)]" by simp
    ultimately have "unmarked (sys @ [text_message RoleSystem (render_summary_message anchor summary)]
        @ drop start body)" by (simp only: unmarked_append)
    then show ?thesis using r f(2) by simp
  qed
qed

lemma drop_marked_paired:
  assumes "paired_from ps ms" "unmarked ms" "k = goal_reminder_marker \<or> k = spawn_force_marker"
  shows "paired_from ps (drop_marked k ms)"
  unfolding drop_marked_def
  by (rule paired_filter [OF assms(1)]) (use assms(2,3) in \<open>auto simp: unmarked_def list_all_iff\<close>)

lemma drop_marked_unmarked: "unmarked ms \<Longrightarrow> unmarked (drop_marked k ms)"
  by (rule unmarked_subset) (auto simp: drop_marked_def)

lemma refresh_paired:
  assumes "paired ms" "unmarked ms"
  shows "paired (refresh_goal_reminder ms anchor)" "paired (refresh_spawn_force ms rounds)"
    "paired (clear_spawn_force ms)" "unmarked (refresh_goal_reminder ms anchor)"
    "unmarked (refresh_spawn_force ms rounds)" "unmarked (clear_spawn_force ms)"
  using assms drop_marked_paired [OF assms] drop_marked_unmarked [OF assms(2)]
  unfolding refresh_goal_reminder_def goal_reminder_def refresh_spawn_force_def
    clear_spawn_force_def spawn_force_reminder_def
  by (simp_all add: paired_snoc)

end
