(* ===== verification/Compaction_Props.thy ===== *)
theory Compaction_Props
  imports Compaction_Laws
begin

text \<open>
  The properties of the transcript bounds: what a compaction keeps and how large its result is, what
  eviction elides, and that neither separates a tool call from its result.
\<close>

subsection \<open>What a compaction keeps\<close>

text \<open>C23: A compaction is undone by the split that the next one starts with: splitting the rewritten
  transcript gives back the pinned system prompts of the original one and the verbatim tail, so the
  rolling summary never stacks. The tail is a proper suffix of the old body that starts at a user
  message, and the one message between carries the active goal verbatim.\<close>

theorem compaction_split_roundtrip:
  assumes "compact_to_budget jm sm c ms anchor prev overhead turn budget rt w = (r, w')"
    and "k_event r = Some ev"
  shows "\<exists>sys body middle tail summary. split_for_compaction ms = (sys, body)
    \<and> split_for_compaction (k_transcript r) = (sys, tail)
    \<and> body = middle @ tail \<and> middle \<noteq> [] \<and> tail \<noteq> [] \<and> m_role (hd tail) = RoleUser
    \<and> k_transcript r = sys @ [text_message RoleSystem (render_summary_message anchor summary)] @ tail
    \<and> contains (render_summary_message anchor summary) anchor
    \<and> contains (render_summary_message anchor summary) (k_summary r)"
proof -
  from assms obtain sys body start kept summary where f:
    "split_for_compaction ms = (sys, body)" "2 \<le> length (user_message_indices body)"
    "recency_start_for_budget jm body (user_message_indices body) (max 1 rt)
       (tail_budget_for jm c sys budget overhead) = (start, kept)"
    "take start body \<noteq> []"
    "k_transcript r =
       sys @ text_message RoleSystem (render_summary_message anchor summary) # drop start body"
    "k_summary r = summary" by (rule compact_fired)
  have hd: "drop start body \<noteq> []" "m_role (hd (drop start body)) = RoleUser"
    using recency_tail_head [OF f(3,2)] by (auto simp: hd_drop_conv_nth)
  have "list_all (\<lambda>m. m_role m = RoleSystem \<and> \<not> is_summary m) sys"
    using split_parts [OF f(1)] by blast
  then have again: "split_for_compaction (k_transcript r) = (sys, drop start body)"
    unfolding f(5) by (rule split_rebuilt) simp
  have goal: "contains (render_summary_message anchor summary) anchor"
    and summ: "contains (render_summary_message anchor summary) summary"
    by (rule rendered_contains)+
  show ?thesis
    using f again hd goal summ append_take_drop_id [of start body] by (metis append_Cons append_Nil)
qed

text \<open>A compaction brings the context under its budget whenever the pinned prompts leave room
  for the reserve and the minimal tail, the summary message fits its reserve, and the latest turn
  group alone fits the tail.\<close>

theorem compaction_under_budget:
  assumes "compact_to_budget jm sm c ms anchor prev overhead turn budget rt w = (r, w')"
    and "k_event r = Some ev" and "split_for_compaction ms = (sys, body)" and "overhead \<le> budget"
    and "estimate_tokens jm sys + summary_reserve_tokens + min_tail_tokens
      \<le> trunc (of_int (budget - overhead) / floor_ratio (c_token_ratio c))"
    and "message_tokens jm (text_message RoleSystem (render_summary_message anchor (k_summary r)))
      \<le> summary_reserve_tokens"
    and "estimate_tokens jm (drop (last (user_message_indices body)) body)
      \<le> tail_budget_for jm c sys budget overhead"
  shows "current_size jm c (k_transcript r) overhead \<le> budget \<and> \<not> over_budget ev"
proof -
  from assms(1,2) obtain sys' body' start kept summary where f:
    "split_for_compaction ms = (sys', body')" "2 \<le> length (user_message_indices body')"
    "recency_start_for_budget jm body' (user_message_indices body') (max 1 rt)
       (tail_budget_for jm c sys' budget overhead) = (start, kept)"
    "k_transcript r =
       sys' @ text_message RoleSystem (render_summary_message anchor summary) # drop start body'"
    "k_summary r = summary"
    "ev = \<lparr>ev_turn_index = turn, ev_tokens_before = current_size jm c ms overhead,
       ev_tokens_after = current_size jm c (k_transcript r) overhead,
       ev_groups_evicted = int (length (user_message_indices body')) - kept,
       ev_budget = budget, ev_overhead = overhead\<rparr>" by (rule compact_fired)
  have eq: "sys' = sys" "body' = body" using f(1) assms(3) by auto
  let ?ix = "user_message_indices body" and ?r = "floor_ratio (c_token_ratio c)"
  have ne: "?ix \<noteq> []" using f(2) eq by auto
  note spec = recency_start_spec [OF f(3) [unfolded eq] ne]
  have "start = last ?ix" if "kept = 1"
    using spec that ne by (simp add: last_conv_nth nat_diff_distrib)
  then have tail: "estimate_tokens jm (drop start body) \<le> tail_budget_for jm c sys budget overhead"
    using spec assms(7) by (cases "kept = 1") auto
  have tb: "tail_budget_for jm c sys budget overhead =
      trunc (of_int (budget - overhead) / ?r) - estimate_tokens jm sys - summary_reserve_tokens"
    using assms(5) by (simp add: tail_budget_for_def Let_def)
  have est: "estimate_tokens jm (k_transcript r) \<le> trunc (of_int (budget - overhead) / ?r)"
    using tail tb assms(6) f(4,5) eq by simp
  have "trunc (of_int (estimate_tokens jm (k_transcript r)) * ?r) \<le> budget - overhead"
    by (rule trunc_scaled_le [OF estimate_nonneg floor_ratio_ge est]) (use assms(4) in simp)
  then have "current_size jm c (k_transcript r) overhead \<le> budget"
    by (simp add: current_size_def)
  then show ?thesis using f(6) by (simp add: over_budget_def)
qed

subsection \<open>Eviction\<close>

text \<open>C24: Eviction within a turn elides the oldest tool results, as few of them as bring the context
  under its budget, and never the last \<open>hard_floor\<close> ones; when it ends above the budget, every
  other result is elided. Roles, identifiers, names and requested calls are untouched.\<close>

theorem eviction_least:
  assumes "evict_tool_results jm ms budget overhead keep hard_min ratio = (n, ms')"
  shows "ms' = elided (take n (evictable_idxs ms)) ms
    \<and> n \<le> length (evictable_idxs ms) - hard_floor keep hard_min
    \<and> list_all (\<lambda>j. budget < evict_size jm overhead ratio (elided (take j (evictable_idxs ms)) ms))
        [0..<n]
    \<and> (evict_size jm overhead ratio ms' \<le> budget
        \<or> n = length (evictable_idxs ms) - hard_floor keep hard_min)
    \<and> map m_role ms' = map m_role ms \<and> map m_tool_call_id ms' = map m_tool_call_id ms
    \<and> map m_name ms' = map m_name ms \<and> map m_tool_calls ms' = map m_tool_calls ms"
proof -
  note s = evict_tool_results_least [OF assms]
  have len: "length ms' = length ms" using s by simp
  have nth: "m_role (ms' ! i) = m_role (ms ! i) \<and> m_tool_call_id (ms' ! i) = m_tool_call_id (ms ! i)
      \<and> m_name (ms' ! i) = m_name (ms ! i) \<and> m_tool_calls (ms' ! i) = m_tool_calls (ms ! i)"
    if "i < length ms" for i using s that by (simp add: evict_message_def)
  have maps: "map m_role ms' = map m_role ms" "map m_tool_call_id ms' = map m_tool_call_id ms"
    "map m_name ms' = map m_name ms" "map m_tool_calls ms' = map m_tool_calls ms"
    by (rule nth_equalityI; simp add: len nth)+
  show ?thesis using s maps by (auto simp: list_all_iff not_le)
qed

text \<open>C25: Eviction and compaction keep every request of tool calls followed by exactly its results, in order;
  refreshing and clearing the reminders does so when no message that requests or answers a call starts with a
  reminder marker.\<close>

theorem rewrites_keep_pairing:
  assumes "paired ms"
  shows "paired (snd (evict_tool_results jm ms budget overhead keep hard_min ratio))
    \<and> paired (k_transcript (fst (compact_to_budget jm sm c ms anchor prev overhead turn b rt w)))
    \<and> (list_all (\<lambda>m. has_prefix (m_content m) goal_reminder_marker
          \<or> has_prefix (m_content m) spawn_force_marker
          \<longrightarrow> m_role m \<noteq> RoleTool \<and> m_tool_calls m = []) ms
        \<longrightarrow> paired (refresh_goal_reminder ms anchor) \<and> paired (refresh_spawn_force ms rounds)
          \<and> paired (clear_spawn_force ms))"
  using evict_paired [OF assms] compact_paired [OF assms] refresh_paired [OF assms]
  by (simp add: unmarked_def)

subsection \<open>Witnesses\<close>

definition no_json :: json_marshal where
  "no_json m = None"

definition long_text :: string where
  "long_text = replicate 8000 CHR ''x''"

lemma length_long_text [simp]: "length long_text = 8000"
  by (simp only: long_text_def length_replicate)

lemma long_text_no_marker [simp]: "\<not> has_prefix long_text (CHR ''['' # p)"
proof
  assume "has_prefix long_text (CHR ''['' # p)"
  then obtain t where "long_text = CHR ''['' # p @ t" by (auto simp: has_prefix_iff)
  then have "hd long_text = CHR ''[''" by (metis list.sel(1))
  moreover have "hd long_text = CHR ''x''"
    unfolding long_text_def by (rule hd_replicate) (simp only: zero_neq_numeral not_False_eq_True)
  ultimately show False by simp
qed

definition brief_system :: "chat_message list" where
  "brief_system = [text_message RoleSystem ''be brief'']"

definition long_body :: "chat_message list" where
  "long_body = [text_message RoleUser long_text, text_message RoleAssistant long_text,
     text_message RoleUser ''go on'']"

definition small_compactor :: compactor where
  "small_compactor = \<lparr>c_budget = 4000, c_recency_turns = 4, c_token_ratio = 1\<rparr>"

definition terse_summarizer :: "unit summarizer" where
  "terse_summarizer ms w = (Inr ''two long messages'', w)"

definition read_call :: "string \<Rightarrow> call" where
  "read_call i = \<lparr>call_id = i, surface = ''fs'', action = ''read'', params = None, rationale = []\<rparr>"

definition call_message :: "string \<Rightarrow> string \<Rightarrow> chat_message" where
  "call_message s i = (text_message RoleAssistant s)\<lparr>m_tool_calls := [read_call i]\<rparr>"

definition result_message :: "string \<Rightarrow> string \<Rightarrow> chat_message" where
  "result_message i s =
     (text_message RoleTool s)\<lparr>m_tool_call_id := i, m_name := ''fs''\<rparr>"

definition read_chat :: "string \<Rightarrow> chat_message list" where
  "read_chat s = [text_message RoleUser ''fix it'', call_message [] ''a'', result_message ''a'' s,
     call_message [] ''b'', result_message ''b'' s]"

lemmas chat_eval = text_message_def current_size_def trunc_def floor_ratio_def message_tokens_def
  summary_reserve_tokens_def min_tail_tokens_def small_compactor_def

lemma long_split: "split_for_compaction (brief_system @ long_body) = (brief_system, long_body)"
  by (simp add: split_for_compaction_def brief_system_def long_body_def text_message_def
      has_prefix_def is_summary_def compaction_marker_def)

lemma long_users: "user_message_indices long_body = [0, 2]"
  by (simp add: user_message_indices_def long_body_def text_message_def)

lemma long_sizes:
  "current_size no_json small_compactor (brief_system @ long_body) 0 = 4019"
  "tail_budget_for no_json small_compactor brief_system 4000 0 = 2970"
  "recency_start_for_budget no_json long_body [0, 2] 4 2970 = (2, 1)"
  by (simp_all add: chat_eval brief_system_def long_body_def tail_budget_for_def
      recency_start_for_budget_def)

lemma long_middle: "long_body \<noteq> []" "drop 2 long_body = [text_message RoleUser ''go on'']"
  by (simp_all add: long_body_def)

definition compacted_chat :: "chat_message list" where
  "compacted_chat = brief_system
     @ [text_message RoleSystem (render_summary_message ''g'' ''two long messages''),
        text_message RoleUser ''go on'']"

lemma compacted_size:
  "message_tokens no_json
     (text_message RoleSystem (render_summary_message ''g'' ''two long messages'')) = 48"
  "current_size no_json small_compactor compacted_chat 0 = 59"
  by (simp_all add: chat_eval brief_system_def compacted_chat_def render_summary_message_def
      compaction_marker_def newline_def)

lemma long_compacts:
  "compact_to_budget no_json terse_summarizer small_compactor (brief_system @ long_body) ''g'' [] 0 7
     4000 4 ()
     = (\<lparr>k_transcript = compacted_chat, k_summary = ''two long messages'',
         k_event = Some \<lparr>ev_turn_index = 7, ev_tokens_before = 4019, ev_tokens_after = 59,
           ev_groups_evicted = 1, ev_budget = 4000, ev_overhead = 0\<rparr>,
         k_error = None\<rparr>, ())"
  unfolding compact_to_budget_def
  by (simp only: Let_def long_split prod.case long_users long_sizes)
    (simp add: long_sizes long_middle summarize_def terse_summarizer_def compacted_size
      compacted_chat_def [symmetric])

theorem compaction_split_roundtrip_witness:
  "\<exists>sys body middle tail summary.
    split_for_compaction (brief_system @ long_body) = (sys, body)
    \<and> split_for_compaction compacted_chat = (sys, tail)
    \<and> body = middle @ tail \<and> middle \<noteq> [] \<and> tail \<noteq> [] \<and> m_role (hd tail) = RoleUser
    \<and> compacted_chat = sys @ [text_message RoleSystem (render_summary_message ''g'' summary)] @ tail
    \<and> contains (render_summary_message ''g'' summary) ''g''
    \<and> contains (render_summary_message ''g'' summary) ''two long messages''"
  using compaction_split_roundtrip [OF long_compacts] by simp

theorem compaction_under_budget_witness:
  "current_size no_json small_compactor compacted_chat 0 \<le> 4000"
  using compaction_under_budget [OF long_compacts _ long_split]
  by (simp add: compacted_size long_users long_sizes long_middle)

text \<open>Eviction can make the context larger: a short result is replaced by a longer notice. Two
  results of two bytes each, over a budget of ten, end with one elided and a larger estimate.\<close>

theorem eviction_can_grow:
  "evict_size no_json 0 1 (read_chat ''ok'') < evict_size no_json 0 1
     (snd (evict_tool_results no_json (read_chat ''ok'') 10 0 min_keep_tool_results
        hard_keep_tool_results 1))
   \<and> fst (evict_tool_results no_json (read_chat ''ok'') 10 0 min_keep_tool_results
        hard_keep_tool_results 1) = 1"
  by (simp add: evict_tool_results_def evict_size_def read_chat_def chat_eval call_message_def
      result_message_def min_keep_tool_results_def hard_keep_tool_results_def evictable_idxs_def
      evictable_def evict_pass.simps call_tokens_def read_call_def param_tokens_def has_prefix_def
      evicted_marker_def evict_message_def)

lemmas evict_eval = evict_size_def read_chat_def chat_eval call_message_def result_message_def
  evictable_idxs_def evictable_def evict_pass.simps call_tokens_def read_call_def param_tokens_def
  evicted_marker_def evict_message_def

theorem eviction_least_witness:
  "\<exists>n ms'. evict_tool_results no_json (read_chat long_text) 2500 0 3 1 1 = (n, ms')
    \<and> n \<le> length (evictable_idxs (read_chat long_text)) - hard_floor 3 1
    \<and> (evict_size no_json 0 1 ms' \<le> 2500
        \<or> n = length (evictable_idxs (read_chat long_text)) - hard_floor 3 1)
    \<and> map m_role ms' = [RoleUser, RoleAssistant, RoleTool, RoleAssistant, RoleTool]"
proof -
  obtain n ms' where e: "evict_tool_results no_json (read_chat long_text) 2500 0 3 1 1 = (n, ms')"
    by fastforce
  have "map m_role (read_chat long_text)
      = [RoleUser, RoleAssistant, RoleTool, RoleAssistant, RoleTool]"
    by (simp add: read_chat_def text_message_def call_message_def result_message_def)
  with eviction_least [OF e] e show ?thesis by auto
qed

lemma read_chat_paired: "paired (read_chat ''ok'')"
  by (simp add: read_chat_def text_message_def call_message_def result_message_def read_call_def)

theorem rewrites_keep_pairing_witness:
  "paired (snd (evict_tool_results no_json (read_chat ''ok'') 10 0 3 1 1))
   \<and> paired (refresh_goal_reminder (read_chat ''ok'') ''fix it'')
   \<and> paired (refresh_spawn_force (read_chat ''ok'') 4)"
proof -
  have "list_all (\<lambda>m. has_prefix (m_content m) goal_reminder_marker
          \<or> has_prefix (m_content m) spawn_force_marker
          \<longrightarrow> m_role m \<noteq> RoleTool \<and> m_tool_calls m = []) (read_chat ''ok'')"
    by (simp add: read_chat_def text_message_def call_message_def result_message_def has_prefix_def
        goal_reminder_marker_def spawn_force_marker_def)
  with rewrites_keep_pairing [OF read_chat_paired, where jm = no_json and budget = 10
      and overhead = 0 and keep = 3 and hard_min = 1 and ratio = 1 and sm = terse_summarizer
      and c = small_compactor and anchor = "''fix it''" and prev = "[]" and turn = 0 and b = 10
      and rt = 1 and w = "()" and rounds = 4]
  show ?thesis by (elim conjE impE) auto
qed

text \<open>A refresh of the goal reminder drops every message that starts with the marker, whatever
  its role: an assistant message that quotes the reminder and requests a call is removed, and the
  result of that call is left without its request.\<close>

theorem reminder_orphans_result:
  "paired [text_message RoleUser ''fix it'', call_message goal_reminder_marker ''a'',
       result_message ''a'' ''ok'']
   \<and> \<not> paired (refresh_goal_reminder
       [text_message RoleUser ''fix it'', call_message goal_reminder_marker ''a'',
        result_message ''a'' ''ok''] ''fix it'')"
  by (simp add: text_message_def call_message_def result_message_def read_call_def
      refresh_goal_reminder_def drop_marked_def has_prefix_def goal_reminder_marker_def go_string)

end
