(* ===== verification/Agent_Audit.thy ===== *)
theory Agent_Audit
  imports Coding_Gate Compaction
begin

text \<open>
  The audits of an agent turn, \<open>internal/agent\<close>: the regular expressions and verdicts of
  \<open>workaudit.go\<close>, \<open>requiredread.go\<close>, \<open>fakegreen.go\<close> and \<open>scaffoldfab.go\<close>, the guard
  registry of \<open>guards.go\<close>, the protected-path hook of \<open>protectpath.go\<close>, the verification gate of
  \<open>verify.go\<close> with its scoping (\<open>verifyscope.go\<close>), and the distillation of its output
  (\<open>gatedistill.go\<close>).
\<close>

subsection \<open>Regular expressions\<close>

text \<open>The constructs the expressions of these files use, matched on bytes: \<open>re_ends s r i\<close> are the
  positions at which a match of \<open>r\<close> that starts at \<open>i\<close> may end. A case-insensitive character
  also matches the two non-ASCII runes that fold to ASCII letters (the long s and the Kelvin sign).\<close>

datatype re =
    RChar char | RFold char | RClass "char \<Rightarrow> bool" | RMany "char \<Rightarrow> bool"
  | RSeq "re list" | RAlt "re list" | RBound

definition word_at :: "string \<Rightarrow> nat \<Rightarrow> bool" where
  "word_at s i = (i < length s \<and> word_char (s ! i))"

definition word_boundary :: "string \<Rightarrow> nat \<Rightarrow> bool" where
  "word_boundary s i = ((0 < i \<and> word_at s (i - 1)) \<noteq> word_at s i)"

definition fold_ends :: "string \<Rightarrow> char \<Rightarrow> nat \<Rightarrow> nat list" where
  "fold_ends s c i =
     (if i < length s \<and> lower_char (s ! i) = c then [i + 1] else [])
     @ (if c = CHR ''s'' \<and> take 2 (drop i s) = [CHR 0xC5, CHR 0xBF] then [i + 2] else [])
     @ (if c = CHR ''k'' \<and> take 3 (drop i s) = [CHR 0xE2, CHR 0x84, CHR 0xAA] then [i + 3] else [])"

fun re_ends :: "string \<Rightarrow> re \<Rightarrow> nat \<Rightarrow> nat list"
  and re_seq :: "string \<Rightarrow> re list \<Rightarrow> nat \<Rightarrow> nat list"
  and re_alt :: "string \<Rightarrow> re list \<Rightarrow> nat \<Rightarrow> nat list" where
  "re_ends s (RChar c) i = (if i < length s \<and> s ! i = c then [i + 1] else [])"
| "re_ends s (RFold c) i = fold_ends s c i"
| "re_ends s (RClass p) i = (if i < length s \<and> p (s ! i) then [i + 1] else [])"
| "re_ends s (RMany p) i = [i..<i + length (takeWhile p (drop i s)) + 1]"
| "re_ends s (RSeq rs) i = re_seq s rs i"
| "re_ends s (RAlt rs) i = re_alt s rs i"
| "re_ends s RBound i = (if word_boundary s i then [i] else [])"
| "re_seq s [] i = [i]"
| "re_seq s (r # rs) i = concat (map (re_seq s rs) (re_ends s r i))"
| "re_alt s [] i = []"
| "re_alt s (r # rs) i = re_ends s r i @ re_alt s rs i"

definition match_string :: "re \<Rightarrow> string \<Rightarrow> bool" where
  "match_string r s = list_ex (\<lambda>i. re_ends s r i \<noteq> []) [0..<length s + 1]"

definition lit :: "string \<Rightarrow> re" where
  "lit w = RSeq (map RChar w)"

definition ilit :: "string \<Rightarrow> re" where
  "ilit w = RSeq (map RFold w)"

definition spaces1 :: re where
  "spaces1 = RSeq [RClass regexp_space, RMany regexp_space]"

definition opt_re :: "re \<Rightarrow> re" where
  "opt_re r = RAlt [RSeq [], r]"

subsection \<open>Dispatch evidence\<close>

definition is_mutating_write :: "result \<Rightarrow> bool" where
  "is_mutating_write r =
     (res_ok r \<and> surface (res_call r) = ''fs''
      \<and> action (res_call r) \<in> set [''write'', ''edit'', ''move'', ''remove''])"

definition count_mutations :: "result list \<Rightarrow> nat" where
  "count_mutations ds = length (filter is_mutating_write ds)"

definition call_param :: "call \<Rightarrow> string \<Rightarrow> go_value" where
  "call_param c key =
     (case params c of None \<Rightarrow> VNil | Some m \<Rightarrow> (case m key of None \<Rightarrow> VNil | Some v \<Rightarrow> v))"

definition fs_call_path :: "call \<Rightarrow> string" where
  "fs_call_path c =
     (if string_param c ''file_path'' \<noteq> [] then string_param c ''file_path''
      else string_param c ''path'')"

subsection \<open>The work audit\<close>

definition json_action_key_re :: re where
  "json_action_key_re = RSeq [lit (CHR 0x22 # ''action'' @ [CHR 0x22]), RMany regexp_space, lit '':'']"

definition json_envelope_key_re :: re where
  "json_envelope_key_re = RSeq [lit [CHR 0x22],
     RAlt [lit ''surface'', lit ''params'', lit ''tool'', lit ''arguments'', lit ''tool_call''],
     lit [CHR 0x22], RMany regexp_space, lit '':'']"

definition verification_claim_re :: re where
  "verification_claim_re = RAlt [
     RSeq [ilit ''test'', opt_re (ilit ''s''), spaces1, opt_re (RSeq [ilit ''all'', spaces1]),
       RAlt [ilit ''pass'', ilit ''passed'', ilit ''passing'',
             RSeq [ilit ''are'', spaces1, ilit ''green'']]],
     RSeq [ilit ''all'', spaces1, ilit ''test'', opt_re (ilit ''s''), spaces1, ilit ''pass''],
     ilit ''--- pass'',
     RSeq [RBound, ilit ''pass'', RBound],
     RSeq [RBound, ilit ''ok'', spaces1, ilit ''corpos/''],
     RSeq [ilit ''build'', spaces1,
       RAlt [ilit ''succeeded'', ilit ''successful'', ilit ''passes'',
             RSeq [ilit ''is'', spaces1, ilit ''clean''],
             RSeq [ilit ''completed'', spaces1, ilit ''success'']]],
     RSeq [ilit ''verif'', RAlt [ilit ''y'', ilit ''ied'', ilit ''ication''], spaces1,
       RAlt [ilit ''step'', ilit ''complete'', ilit ''succe'', ilit ''pass'']],
     RSeq [ilit ''passed'', spaces1, ilit ''success'']]"

definition gate_exec_re :: re where
  "gate_exec_re = RSeq [RBound,
     RAlt [RSeq [ilit ''go'', spaces1, RAlt [ilit ''test'', ilit ''build'', ilit ''vet'']],
           ilit ''gofmt''],
     RBound]"

definition ran_gate :: "result list \<Rightarrow> bool" where
  "ran_gate ds = list_ex (\<lambda>d. res_ok d \<and> surface (res_call d) = ''sys'' \<and> action (res_call d) = ''exec''
     \<and> (case call_param (res_call d) ''command'' of
          VStr cmd \<Rightarrow> match_string gate_exec_re cmd | _ \<Rightarrow> False)) ds"

definition claims_verification :: "string \<Rightarrow> bool" where
  "claims_verification t = (t \<noteq> [] \<and> match_string verification_claim_re t)"

definition looks_like_prose_tool_call :: "string \<Rightarrow> bool" where
  "looks_like_prose_tool_call t =
     (t \<noteq> [] \<and> match_string (lit ''{'') t \<and> match_string json_action_key_re t
      \<and> match_string json_envelope_key_re t)"

definition prose_verdict :: string where
  "prose_verdict = ''fabrication: the assistant narrated a tool-call envelope in prose instead of emitting a real tool call (no actual dispatch)''"

definition no_work_verdict :: string where
  "no_work_verdict = ''no-work: done was claimed but zero substantive mutation (fs.write/edit/move/remove) dispatches occurred''"

definition fabricated_verification_verdict :: string where
  "fabricated_verification_verdict = ''verification-fabrication: done claims the change is verified (tests/build pass) but no build/test/format gate (go test/build/vet or gofmt) was run ''
     @ em_dash @ '' the claim is not backed by a real gate''"

definition work_audit_assess :: "bool \<Rightarrow> string \<Rightarrow> result list \<Rightarrow> bool \<Rightarrow> string" where
  "work_audit_assess require_mutation t ds loop_gated =
     (if looks_like_prose_tool_call t then prose_verdict
      else if require_mutation \<and> count_mutations ds = 0 then no_work_verdict
      else if \<not> loop_gated \<and> require_mutation \<and> count_mutations ds > 0
           \<and> claims_verification t \<and> \<not> ran_gate ds
      then fabricated_verification_verdict
      else [])"

subsection \<open>Required reads\<close>

definition fs_read_path :: "call \<Rightarrow> string" where
  "fs_read_path c =
     (if surface c \<noteq> ''fs'' \<or> action c \<noteq> ''read'' then [] else fs_call_path c)"

definition read_results :: "bool \<Rightarrow> result list \<Rightarrow> string list" where
  "read_results ok ds = map (\<lambda>d. fs_read_path (res_call d))
     (filter (\<lambda>d. fs_read_path (res_call d) \<noteq> [] \<and> res_ok d = ok) ds)"

definition required_reads_assess :: "string list \<Rightarrow> result list \<Rightarrow> string" where
  "required_reads_assess paths ds =
     (let unread = sort (filter (\<lambda>p. p \<notin> set (read_results True ds)) paths);
          failed = list_ex (\<lambda>p. p \<in> set (read_results False ds)) unread
      in if unread = [] then []
         else (if failed then ''required-read-failed'' else ''required-read-unsatisfied'')
              @ '': the duty declared the contract source(s) '' @ join '', '' unread
              @ '' as required, but they were not read successfully '' @ em_dash
              @ '' surface this and stop, do NOT invent a contract and proceed (a done-claim built on an unread required source is a fabricated-contract false green)'')"

subsection \<open>Worker-authored tests and scaffolds\<close>

text \<open>The distinct paths, in the order of their first occurrence.\<close>

fun dedupe :: "string list \<Rightarrow> string list \<Rightarrow> string list" where
  "dedupe seen [] = []"
| "dedupe seen (p # ps) = (if p \<in> set seen then dedupe seen ps else p # dedupe (p # seen) ps)"

definition worker_authored_test_paths :: "result list \<Rightarrow> string list" where
  "worker_authored_test_paths ds = dedupe []
     (filter is_test_file (map (\<lambda>d. tool_call_path (res_call d)) (filter is_mutating_write ds)))"

definition fake_green_verdict :: "result list \<Rightarrow> string" where
  "fake_green_verdict ds =
     (let authored = worker_authored_test_paths ds
      in if authored = [] then []
         else ''fake-green: the verify gate passed but the worker authored the test file(s) it runs (''
              @ join '', '' authored @ '') '' @ em_dash
              @ '' a worker-added test cannot be the gate (fix production code; the acceptance test must be principal-authored and immutable)'')"

definition is_build_scaffold_path :: "string \<Rightarrow> bool" where
  "is_build_scaffold_path p = (file_base p \<in> set [''go.mod'', ''go.sum'', ''go.work''])"

definition within_dir :: "string \<Rightarrow> string \<Rightarrow> bool" where
  "within_dir dir t =
     (if dir = [] then \<not> is_abs t
      else (let d = rev (dropWhile (\<lambda>x. x = CHR ''/'') (rev dir))
            in if t = d then True
               else if \<not> is_abs t then True
               else has_prefix t (d @ ''/'')))"

fun scaffold_fabrication_verdict :: "result list \<Rightarrow> string \<Rightarrow> string" where
  "scaffold_fabrication_verdict [] dir = []"
| "scaffold_fabrication_verdict (d # ds) dir =
     (let p = tool_call_path (res_call d)
      in if is_mutating_write d \<and> p \<noteq> [] \<and> is_build_scaffold_path p \<and> within_dir dir p
         then ''fabricated a build-scaffold ('' @ file_base p @ '') in the verify-dir to pass the gate ''
              @ em_dash @ '' fix the real code, don't manufacture what the gate checks''
         else scaffold_fabrication_verdict ds dir)"

subsection \<open>The guard registry\<close>

datatype guard_stage = StageFabrication | StageFakeGreen

datatype guard =
    WorkAudit bool | RequiredReads "string list" | FakeGreenGuard | ScaffoldFabricationGuard string

record guard_input =
  gi_text :: string
  gi_dispatches :: "result list"
  gi_loop_gated :: bool

fun stage_of :: "guard \<Rightarrow> guard_stage" where
  "stage_of (WorkAudit m) = StageFabrication"
| "stage_of (RequiredReads ps) = StageFabrication"
| "stage_of FakeGreenGuard = StageFakeGreen"
| "stage_of (ScaffoldFabricationGuard dir) = StageFakeGreen"

fun guard_assess :: "guard \<Rightarrow> guard_input \<Rightarrow> string" where
  "guard_assess (WorkAudit m) i = work_audit_assess m (gi_text i) (gi_dispatches i) (gi_loop_gated i)"
| "guard_assess (RequiredReads ps) i = required_reads_assess ps (gi_dispatches i)"
| "guard_assess FakeGreenGuard i = fake_green_verdict (gi_dispatches i)"
| "guard_assess (ScaffoldFabricationGuard dir) i = scaffold_fabrication_verdict (gi_dispatches i) dir"

text \<open>The first refusal of a stage; \<^const>\<open>None\<close> when every guard passes.\<close>

fun registry_assess :: "guard list \<Rightarrow> guard_stage \<Rightarrow> guard_input \<Rightarrow> string option" where
  "registry_assess [] stage i = None"
| "registry_assess (g # gs) stage i =
     (if stage_of g \<noteq> stage then registry_assess gs stage i
      else if guard_assess g i \<noteq> [] then Some (guard_assess g i)
      else registry_assess gs stage i)"

definition guard_catalog :: "guard list" where
  "guard_catalog = [WorkAudit True, RequiredReads [''<declared-contract-source>''], FakeGreenGuard,
     ScaffoldFabricationGuard []]"

subsection \<open>Protected paths\<close>

definition protect_path_guard :: "string list \<Rightarrow> 'x hook_func" where
  "protect_path_guard protected ctx =
     (case hc_tool_call ctx of
        None \<Rightarrow> (ctx, None)
      | Some c \<Rightarrow>
          if protected = [] then (ctx, None)
          else if surface c \<noteq> ''fs'' \<or> (action c \<noteq> ''write'' \<and> action c \<noteq> ''edit'') then (ctx, None)
          else let p = tool_call_path c
               in if p \<noteq> [] \<and> is_protected p protected
                  then (ctx\<lparr>hc_deny := True, hc_deny_non_escalatable := True,
                          hc_deny_reason := ''refused: '' @ p @ '' is a protected path '' @ em_dash
                            @ '' fix production code to pass the verify gate, do not edit the test/acceptance file to force green''\<rparr>,
                        None)
                  else (ctx, None))"

subsection \<open>The verification gate\<close>

record verify_gate =
  vg_command :: "string list"
  vg_dir :: string
  vg_max_rounds :: int
  vg_timeout :: int

definition max_rounds_or_default :: "verify_gate \<Rightarrow> int" where
  "max_rounds_or_default g = (if vg_max_rounds g > 0 then vg_max_rounds g else 3)"

text \<open>The gate process; the flag tells that it runs detached from the turn's cancellation.\<close>

type_synonym 'w gate_runner =
  "bool \<Rightarrow> string list \<Rightarrow> string \<Rightarrow> int \<Rightarrow> 'w \<Rightarrow> (int \<times> string) \<times> 'w"

definition check_scoped ::
  "'w gate_runner \<Rightarrow> bool \<Rightarrow> verify_gate \<Rightarrow> string list \<Rightarrow> 'w \<Rightarrow> (bool \<times> string) \<times> 'w" where
  "check_scoped run detached g pkgs w =
     (let timeout = (if vg_timeout g \<le> 0 then 300000000000 else vg_timeout g)
      in case run detached (scope_go_test (vg_command g) pkgs) (vg_dir g) timeout w of
           ((exit, out), w') \<Rightarrow> ((exit = 0, tail_of out 4096), w'))"

definition edit_scope :: "(string \<Rightarrow> bool) \<Rightarrow> string \<Rightarrow> string \<Rightarrow> string option" where
  "edit_scope dir_exists verify_dir p =
     (let base = file_base verify_dir;
          rel = (if base \<noteq> [] \<and> base \<noteq> ''.'' then trim_prefix p (base @ ''/'') else p);
          dir = path_dir rel
      in if dir = [] \<or> dir = ''.'' \<or> is_abs dir \<or> has_prefix dir ''..'' then None
         else if \<not> dir_exists (file_join verify_dir dir) then None
         else Some (''./'' @ dir @ ''/...''))"

definition go_edits :: "result list \<Rightarrow> string list" where
  "go_edits ds = filter (\<lambda>p. p \<noteq> [] \<and> has_suffix p ''.go'')
     (map (\<lambda>d. tool_call_path (res_call d)) (filter is_mutating_write ds))"

text \<open>The scopes of the edited packages; no scope means the whole repository.\<close>

definition go_packages_from_edits :: "result list \<Rightarrow> string \<Rightarrow> (string \<Rightarrow> bool) \<Rightarrow> string list" where
  "go_packages_from_edits ds verify_dir dir_exists =
     (case scopes_loop (edit_scope dir_exists verify_dir) [] (go_edits ds) of
        None \<Rightarrow> []
      | Some pkgs \<Rightarrow> sort pkgs)"

subsection \<open>Distilling the gate's output\<close>

definition ellipsis :: string where
  "ellipsis = [CHR 0xE2, CHR 0x80, CHR 0xA6]"

definition digits1 :: re where
  "digits1 = RSeq [RClass digit, RMany digit]"

definition go_file_locus :: re where
  "go_file_locus = RSeq [lit ''.go:'', digits1, opt_re (RSeq [lit '':'', digits1]), lit '':'']"

definition is_noise_line :: "string \<Rightarrow> bool" where
  "is_noise_line t =
     ((has_prefix t ''{'' \<and> contains t (CHR 0x22 # ''level'' @ [CHR 0x22, CHR '':'']))
      \<or> has_prefix t ''=== RUN'' \<or> has_prefix t ''=== CONT'' \<or> has_prefix t ''=== PAUSE''
      \<or> has_prefix t ''=== NAME'' \<or> has_prefix t ''--- PASS'' \<or> has_prefix t ''--- SKIP''
      \<or> t = ''PASS'' \<or> has_prefix t ''ok  '' \<or> has_prefix t (''ok'' @ [CHR 0x09]))"

definition is_salient_gate_line :: "string \<Rightarrow> bool" where
  "is_salient_gate_line t =
     (contains t ''FAIL'' \<or> has_prefix t ''panic:'' \<or> contains t ''import cycle''
      \<or> has_prefix t ''# '' \<or> match_string go_file_locus t)"

definition clip_line :: "string \<Rightarrow> string" where
  "clip_line l =
     (if length l > 400 then take 400 l @ '' '' @ ellipsis @ ''(line truncated)'' else l)"

fun distill_loop :: "nat \<Rightarrow> string list \<Rightarrow> string list" where
  "distill_loop kept [] = []"
| "distill_loop kept (l # rest) =
     (let t = trim_space l
      in if t = [] \<or> is_noise_line t \<or> \<not> is_salient_gate_line t then distill_loop kept rest
         else clip_line l #
           (if kept + 1 \<ge> 80 then [ellipsis @ ''(further output omitted)'']
            else distill_loop (kept + 1) rest))"

definition distill_gate_output :: "string \<Rightarrow> string" where
  "distill_gate_output raw =
     (let kept = distill_loop 0 (split_char (CHR 0x0A) raw)
      in if trim_space (join newline kept) = [] then raw else join newline kept)"

end
