(* ===== verification/Narrated.thy ===== *)
theory Narrated
  imports Agent_Audit
begin

text \<open>
  Recovery of tool calls a model wrote as text, \<open>internal/agent/narrated.go\<close>: the candidates of
  a text (the first object of each fenced block, then every balanced object) and the first of them
  that decodes to a call of an offered surface. The decoder \<open>json.Unmarshal\<close> into the narrated
  shape is an argument, \<^const>\<open>None\<close> for its error.
\<close>

subsection \<open>Balanced objects\<close>

definition quote_ch :: char where
  "quote_ch = CHR 0x22"

definition escape_ch :: char where
  "escape_ch = CHR 0x5C"

text \<open>The loop of \<open>balancedObjects\<close>: \<open>i\<close> is the position of the first character of the last
  argument in \<open>s\<close>, \<open>start\<close> the position of the open object, if any.\<close>

fun scan_objects ::
  "string \<Rightarrow> bool \<Rightarrow> nat \<Rightarrow> nat \<Rightarrow> nat option \<Rightarrow> bool \<Rightarrow> bool \<Rightarrow> string \<Rightarrow> string list" where
  "scan_objects s first i depth start in_str esc [] = []"
| "scan_objects s first i depth start in_str esc (ch # rest) =
     (if in_str then
        (if esc then scan_objects s first (Suc i) depth start True False rest
         else if ch = escape_ch then scan_objects s first (Suc i) depth start True True rest
         else scan_objects s first (Suc i) depth start (ch \<noteq> quote_ch) False rest)
      else if ch = quote_ch then scan_objects s first (Suc i) depth start True esc rest
      else if ch = CHR ''{'' then
        scan_objects s first (Suc i) (Suc depth) (if depth = 0 then Some i else start) False esc rest
      else if ch = CHR ''}'' \<and> depth > 0 then
        (case start of
           Some st \<Rightarrow>
             (if depth = 1
              then take (Suc i - st) (drop st s)
                   # (if first then [] else scan_objects s first (Suc i) 0 None False esc rest)
              else scan_objects s first (Suc i) (depth - 1) start False esc rest)
         | None \<Rightarrow> scan_objects s first (Suc i) (depth - 1) start False esc rest)
      else scan_objects s first (Suc i) depth start False esc rest)"

definition balanced_objects :: "string \<Rightarrow> bool \<Rightarrow> string list" where
  "balanced_objects s first = scan_objects s first 0 0 None False False s"

definition first_balanced_object :: "string \<Rightarrow> string" where
  "first_balanced_object s = (case balanced_objects s True of [] \<Rightarrow> [] | x # _ \<Rightarrow> x)"

definition all_balanced_objects :: "string \<Rightarrow> string list" where
  "all_balanced_objects s = balanced_objects s False"

subsection \<open>Fenced blocks and candidates\<close>

definition fence :: string where
  "fence = backtick @ backtick @ backtick"

definition is_lang_tag :: "string \<Rightarrow> bool" where
  "is_lang_tag s =
     (s \<noteq> [] \<and> length s \<le> 12
      \<and> list_all (\<lambda>c. c \<notin> set [CHR '' '', CHR 0x09, CHR ''{'', CHR ''}'', quote_ch]) s)"

definition strip_tag :: "string \<Rightarrow> string" where
  "strip_tag inner =
     (case find_index (\<lambda>c. c = CHR 0x0A) inner of
        None \<Rightarrow> inner
      | Some nl \<Rightarrow>
          (let tag = trim_space (take nl inner)
           in if tag = [] \<or> is_lang_tag tag then drop (nl + 1) inner else inner))"

fun odd_parts :: "string list \<Rightarrow> string list" where
  "odd_parts (a # b # rest) = b # odd_parts rest"
| "odd_parts _ = []"

definition fenced_blocks :: "string \<Rightarrow> string list" where
  "fenced_blocks t = map strip_tag (odd_parts (split_str fence t))"

definition json_object_candidates :: "string \<Rightarrow> string list" where
  "json_object_candidates t =
     filter (\<lambda>b. b \<noteq> []) (map first_balanced_object (fenced_blocks t)) @ all_balanced_objects t"

subsection \<open>Recovery\<close>

record narrated_call =
  nc_name :: string
  nc_action :: string
  nc_params :: "(string \<rightharpoonup> go_value) option"
  nc_rationale :: string

definition accepts_narrated :: "string list \<Rightarrow> narrated_call \<Rightarrow> bool" where
  "accepts_narrated surfaces nc =
     (nc_name nc \<noteq> [] \<and> nc_action nc \<noteq> [] \<and> (surfaces = [] \<or> nc_name nc \<in> set surfaces))"

definition narrated_to_call :: "narrated_call \<Rightarrow> call" where
  "narrated_to_call nc =
     \<lparr>call_id = [], surface = nc_name nc, action = nc_action nc, params = nc_params nc,
      rationale = nc_rationale nc\<rparr>"

fun first_narrated ::
  "(string \<Rightarrow> narrated_call option) \<Rightarrow> string list \<Rightarrow> string list \<Rightarrow> call list" where
  "first_narrated unmarshal surfaces [] = []"
| "first_narrated unmarshal surfaces (blob # blobs) =
     (case unmarshal blob of
        None \<Rightarrow> first_narrated unmarshal surfaces blobs
      | Some nc \<Rightarrow> if accepts_narrated surfaces nc then [narrated_to_call nc]
                  else first_narrated unmarshal surfaces blobs)"

definition recover_narrated ::
  "(string \<Rightarrow> narrated_call option) \<Rightarrow> string \<Rightarrow> string list \<Rightarrow> call list" where
  "recover_narrated unmarshal t surfaces =
     first_narrated unmarshal surfaces (json_object_candidates t)"

subsection \<open>The objects of a text\<close>

text \<open>The language of brace-balanced texts: \<open>quoted t\<close> holds of the rest of a string literal up to
  and including its closing quote, \<open>object_body b\<close> of what may stand between two braces.\<close>

inductive quoted :: "string \<Rightarrow> bool" where
  close: "quoted [quote_ch]"
| char: "c \<noteq> quote_ch \<Longrightarrow> c \<noteq> escape_ch \<Longrightarrow> quoted t \<Longrightarrow> quoted (c # t)"
| escaped: "quoted t \<Longrightarrow> quoted (escape_ch # c # t)"

inductive object_body :: "string \<Rightarrow> bool" where
  empty: "object_body []"
| plain: "c \<notin> {quote_ch, CHR ''{'', CHR ''}''} \<Longrightarrow> object_body b \<Longrightarrow> object_body (c # b)"
| literal: "quoted t \<Longrightarrow> object_body b \<Longrightarrow> object_body (quote_ch # t @ b)"
| nested: "object_body a \<Longrightarrow> object_body b \<Longrightarrow> object_body (CHR ''{'' # a @ CHR ''}'' # b)"

lemma quote_distinct [simp]:
  "quote_ch \<noteq> escape_ch" "escape_ch \<noteq> quote_ch" "quote_ch \<noteq> CHR ''{''" "CHR ''{'' \<noteq> quote_ch"
  "quote_ch \<noteq> CHR ''}''" "CHR ''}'' \<noteq> quote_ch"
  by (simp_all add: quote_ch_def escape_ch_def)

lemma scan_quoted:
  assumes "quoted t"
  shows "scan_objects s f i d st True False (t @ rest) =
    scan_objects s f (i + length t) d st False False rest"
  using assms
proof (induction t arbitrary: i rule: quoted.induct)
  case close
  then show ?case by simp
next
  case (char c t)
  then show ?case using char.IH [of "Suc i"] by simp
next
  case (escaped t c)
  then show ?case using escaped.IH [of "Suc (Suc i)"] by simp
qed

text \<open>Inside an object the scanner passes over any body and is at the same depth behind it.\<close>

lemma scan_body:
  assumes "object_body b"
  shows "scan_objects s f i (Suc d) (Some st) False False (b @ rest) =
    scan_objects s f (i + length b) (Suc d) (Some st) False False rest"
  using assms
proof (induction b arbitrary: i d rest rule: object_body.induct)
  case empty
  then show ?case by simp
next
  case (plain c b)
  then show ?case using plain.IH [of "Suc i" d rest] by simp
next
  case (literal t b)
  then show ?case
    using scan_quoted [OF literal(1), of s f "Suc i" "Suc d" "Some st" "b @ rest"]
      literal.IH [of "Suc i + length t" d rest] by (simp add: add.assoc)
next
  case (nested a b)
  then show ?case
    using nested.IH(1) [of "Suc i" "Suc d" "CHR ''}'' # b @ rest"]
      nested.IH(2) [of "Suc (Suc i + length a)" d rest] by (simp add: add.assoc)
qed

lemma scan_outside:
  assumes "list_all (\<lambda>c. c \<notin> {quote_ch, CHR ''{'', CHR ''}''}) p"
  shows "scan_objects s f i 0 None False False (p @ rest) =
    scan_objects s f (i + length p) 0 None False False rest"
  using assms by (induction p arbitrary: i) auto

lemma balanced_object_found:
  assumes "object_body b" "list_all (\<lambda>c. c \<notin> {quote_ch, CHR ''{'', CHR ''}''}) p"
  shows "balanced_objects (p @ CHR ''{'' # b @ CHR ''}'' # rest) f =
    (CHR ''{'' # b @ ''}'') #
      (if f then [] else
         scan_objects (p @ CHR ''{'' # b @ CHR ''}'' # rest) f (length p + length b + 2) 0 None
           False False rest)"
proof -
  let ?s = "p @ CHR ''{'' # b @ CHR ''}'' # rest"
  have sub: "take (Suc (length p + Suc (length b)) - length p) (drop (length p) ?s)
      = CHR ''{'' # b @ ''}''" by simp
  show ?thesis
    unfolding balanced_objects_def scan_outside [OF assms(2)]
    using scan_body [OF assms(1), of ?s f "Suc (length p)" 0 "length p" "CHR ''}'' # rest"] sub
    by simp
qed

lemma no_fence_candidates:
  assumes "str_index t fence = None"
  shows "json_object_candidates t = all_balanced_objects t"
proof -
  have "fence \<noteq> []" by (simp add: fence_def backtick_def)
  then have "split_str fence t = [t]" using assms by (subst split_str.simps) simp
  then show ?thesis by (simp add: json_object_candidates_def fenced_blocks_def)
qed

text \<open>C29: A call narrated as a bare object is recovered exactly, that call and no other, when the text holds no fence,
  the prose before the object holds no double quote and no brace, the object is balanced, and it decodes to a call of an
  offered surface. What follows the object does not matter. A stray quote in the prose before it can lose the call.\<close>

theorem narrated_call_recovered:
  assumes "object_body b" "list_all (\<lambda>c. c \<notin> {quote_ch, CHR ''{'', CHR ''}''}) p"
    and "t = p @ CHR ''{'' # b @ CHR ''}'' # rest" and "str_index t fence = None"
    and "unmarshal (CHR ''{'' # b @ ''}'') = Some nc" and "accepts_narrated surfaces nc"
  shows "recover_narrated unmarshal t surfaces = [narrated_to_call nc]"
  using balanced_object_found [OF assms(1,2), of rest False] no_fence_candidates [OF assms(4)]
    assms(3,5,6)
  by (simp add: recover_narrated_def all_balanced_objects_def)

definition sample_body :: string where
  "sample_body = quote_ch # ''name'' @ quote_ch # '': {}''"

definition sample_narrated :: narrated_call where
  "sample_narrated =
     \<lparr>nc_name = ''fs'', nc_action = ''read'', nc_params = None, nc_rationale = []\<rparr>"

definition sample_unmarshal :: "string \<Rightarrow> narrated_call option" where
  "sample_unmarshal s =
     (if s = CHR ''{'' # sample_body @ ''}'' then Some sample_narrated else None)"

lemma sample_body_ok: "object_body sample_body"
proof -
  have "quoted (''name'' @ [quote_ch])"
    by (simp add: quote_ch_def escape_ch_def quoted.intros [unfolded quote_ch_def escape_ch_def])
  moreover have "object_body '': {}''"
    using object_body.nested [OF object_body.empty object_body.empty]
    by (auto intro!: object_body.plain simp: quote_ch_def)
  ultimately show ?thesis
    using object_body.literal [of "''name'' @ [quote_ch]" "'': {}''"]
    by (simp add: sample_body_def)
qed

theorem narrated_call_recovered_witness:
  "recover_narrated sample_unmarshal
     (''Now I call '' @ CHR ''{'' # sample_body @ CHR ''}'' # '' and wait'') [''fs'']
   = [narrated_to_call sample_narrated]"
  using narrated_call_recovered [OF sample_body_ok, of "''Now I call ''"
      "''Now I call '' @ CHR ''{'' # sample_body @ CHR ''}'' # '' and wait''" "'' and wait''"
      sample_unmarshal sample_narrated "[''fs'']"]
  by (simp add: quote_ch_def fence_def backtick_def sample_body_def has_prefix_def
      sample_unmarshal_def accepts_narrated_def sample_narrated_def)

end
