(* ===== verification/Agent_State.thy ===== *)
theory Agent_State
  imports Narrated Cost
begin

text \<open>
  The agent loop of \<open>internal/agent/loop.go\<close>, first part: the configuration and the state of a
  \<open>Loop\<close>, its options, and the operations a round is made of that do not decide its outcome:
  hooks, telemetry, the transcript bounds, the circuit breaker, the verification gate, the accounting
  of a model call, the result cap and the truncated-view guard, and the end of a turn.

  One record \<open>agent\<close> holds the fields of the \<open>Loop\<close> that change (prefix \<open>l\<close>), the local
  variables of \<open>Run\<close> (prefix \<open>tn\<close>) and the world, which carries the models, the tools, the gate,
  the store, the clock, the shared strong-turn pool and the shared cost meter. The record \<open>env\<close> has
  the fields that are fixed once a loop is built and the functions by which the loop acts on the
  world.
\<close>

subsection \<open>Configuration, state, results\<close>

record circuit_breaker =
  cb_max_cost :: rat
  cb_max_tokens :: int
  cb_no_progress :: int

record response =
  rs_model :: string
  rs_text :: string
  rs_calls :: "call list"
  rs_usage :: cost_usage

text \<open>What a hook may read and write beside the fields of \<^typ>\<open>'x hook_context\<close>.\<close>

record 'w hook_rest =
  hr_transcript :: "chat_message list"
  hr_additions :: "string list"
  hr_metadata :: "(string \<rightharpoonup> go_value) option"
  hr_prompt :: string
  hr_result :: "result option"
  hr_confidence :: "confidence option"
  hr_world :: 'w

text \<open>The rows of the session store, which a loop writes on a best-effort basis.\<close>

datatype store_row =
    StartTurn int string
  | RecordCost int string int int rat
  | RecordToolCall int call string string result string
  | EndTurn int int int bool
  | RecordEscalation int edge string

record 'w env =
  e_specs :: "string list"
  e_max_rounds :: int
  e_session :: string
  e_breaker :: circuit_breaker
  e_goal_every :: int
  e_spawn_every :: int
  e_profile_tools :: "(string \<times> string list) list option"
  e_floor_window :: int
  e_tier_budgets :: "int list"
  e_verify :: "verify_gate option"
  e_terminal_green :: "verify_gate option"
  e_opp_every :: int
  e_stuck_after :: int
  e_fab_reprompts :: int
  e_result_cap :: int
  e_guards :: "guard list"
  e_verify_dir :: string
  e_start_rung :: string
  e_hooks :: "'w hook_rest hook_surface"
  e_prober :: "(string \<Rightarrow> 'w \<Rightarrow> (string \<rightharpoonup> go_value) option \<times> 'w) option"
  e_complete :: "string \<Rightarrow> chat_message list \<Rightarrow> 'w \<Rightarrow> (go_error + response) \<times> 'w"
  e_available :: "string \<Rightarrow> 'w \<Rightarrow> bool"
  e_dispatch :: "call \<Rightarrow> 'w \<Rightarrow> result \<times> 'w"
  e_marshal :: json_marshal
  e_encode :: "go_value \<Rightarrow> string"
  e_encode_params :: "(string \<rightharpoonup> go_value) option \<Rightarrow> string"
  e_unmarshal :: "string \<Rightarrow> narrated_call option"
  e_summarizer :: "'w summarizer"
  e_run_gate :: "'w gate_runner"
  e_dir_exists :: "string \<Rightarrow> 'w \<Rightarrow> bool"
  e_module_dir :: "string \<Rightarrow> string option"
  e_ground :: "string \<Rightarrow> string \<Rightarrow> 'w \<Rightarrow> string list \<times> 'w"
  e_store :: bool
  e_append :: "int \<Rightarrow> role \<Rightarrow> string \<Rightarrow> 'w \<Rightarrow> go_error option \<times> 'w"
  e_record :: "store_row \<Rightarrow> 'w \<Rightarrow> 'w"
  e_propose :: "(edge \<Rightarrow> int \<Rightarrow> 'w \<Rightarrow> string option \<times> 'w) option"
  e_pool :: "'w strong_budget_ops"
  e_meter :: "'w \<Rightarrow> meter option"
  e_set_meter :: "meter \<Rightarrow> 'w \<Rightarrow> 'w"
  e_done :: "'w \<Rightarrow> bool"
  e_sleep :: "int \<Rightarrow> 'w \<Rightarrow> bool \<times> 'w"
  e_now :: "'w \<Rightarrow> int"
  e_extend :: "int \<Rightarrow> 'w \<Rightarrow> 'w"

record fault_recovery =
  fr_overflow :: int
  fr_malformed :: int
  fr_timeout :: int
  fr_rate_limit :: int

record 'w agent =
  l_router :: router
  l_ledger :: ledger
  l_started :: bool
  l_turns :: int
  l_total_tokens :: int
  l_compactor :: "compactor option"
  l_goal_anchor :: string
  l_summary :: string
  l_spec_tokens :: int
  l_calibrated :: bool
  l_narrated_seq :: int
  l_verify_rounds :: int
  l_last_opp :: int
  l_last_reconcile :: string
  l_fab_rounds :: int
  l_truncated :: "string list"
  l_transcript :: "chat_message list"
  tn_turn :: int
  tn_start_len :: nat
  tn_round :: int
  tn_cycle_start :: int
  tn_last_progress :: int
  tn_prev_rung :: string
  tn_last_spawn :: int
  tn_prev_sig :: string
  tn_model :: string
  tn_dispatches :: "result list"
  tn_faults :: fault_recovery
  tn_compaction :: "compaction_event option"
  tn_exhausted :: bool
  tn_handoff :: bool
  tn_confidence :: "confidence option"
  tn_aborted :: bool
  world :: 'w

text \<open>The verdicts of a turn, with the values their texts print.\<close>

datatype stop_verdict =
    TreeCostCeiling rat rat
  | CostCeiling rat rat int
  | TokenCeiling int int int
  | NoProgress int
  | StrongBoundReached string int
  | StrongPoolSpent
  | TerminalFaultRed fault_kind
  | GracefulFaultRed fault_kind

datatype escalate_verdict =
    Unsatisfied stop_verdict
  | GateStillRed "string list" int
  | GuardRefused string
  | GateOutput stop_verdict string

record turn_result =
  tr_text :: string
  tr_dispatches :: "result list"
  tr_cost :: rat
  tr_persist_err :: "go_error option"
  tr_compaction :: "compaction_event option"
  tr_verify_failed :: bool
  tr_model_fault :: fault_kind
  tr_stopped :: "stop_verdict option"
  tr_fabricated :: string
  tr_escalate :: "escalate_verdict option"
  tr_highest :: string

datatype turn_error =
    ExceededRounds int
  | StuckRereading int
  | OverflowUnrecoverable int go_error
  | OverflowNoHeadroom go_error
  | MalformedPersists int go_error
  | ModelTurn go_error
  | JoinedErrors turn_error go_error

datatype turn_outcome = Answered turn_result | Failed turn_result turn_error | Panicked

subsection \<open>Options and construction\<close>

type_synonym 'w loop_option = "'w env \<times> 'w agent \<Rightarrow> 'w env \<times> 'w agent"

definition with_max_rounds :: "int \<Rightarrow> 'w loop_option" where
  "with_max_rounds n = (\<lambda>(e, s). (if n > 0 then e\<lparr>e_max_rounds := n\<rparr> else e, s))"

definition with_circuit_breaker :: "circuit_breaker \<Rightarrow> 'w loop_option" where
  "with_circuit_breaker b = (\<lambda>(e, s). (e\<lparr>e_breaker := b\<rparr>, s))"

definition with_goal_reminder :: "int \<Rightarrow> 'w loop_option" where
  "with_goal_reminder n = (\<lambda>(e, s). (if n > 0 then e\<lparr>e_goal_every := n\<rparr> else e, s))"

definition with_spawn_forcing :: "int \<Rightarrow> 'w loop_option" where
  "with_spawn_forcing n = (\<lambda>(e, s). (if n > 0 then e\<lparr>e_spawn_every := n\<rparr> else e, s))"

definition with_system_prompt :: "string \<Rightarrow> 'w loop_option" where
  "with_system_prompt p = (\<lambda>(e, s).
     (e, if p \<noteq> [] then s\<lparr>l_transcript := l_transcript s @ [text_message RoleSystem p]\<rparr> else s))"

definition with_floor_window :: "int \<Rightarrow> 'w loop_option" where
  "with_floor_window n = (\<lambda>(e, s). (if n > 0 then e\<lparr>e_floor_window := n\<rparr> else e, s))"

definition with_tier_budgets :: "int list \<Rightarrow> 'w loop_option" where
  "with_tier_budgets bs = (\<lambda>(e, s). (e\<lparr>e_tier_budgets := bs\<rparr>, s))"

definition with_compaction :: "int \<Rightarrow> int \<Rightarrow> 'w summarizer option \<Rightarrow> 'w loop_option" where
  "with_compaction budget recency sm = (\<lambda>(e, s).
     (case sm of
        None \<Rightarrow> (e, s)
      | Some f \<Rightarrow>
          if budget > 0 \<and> recency > 0
          then (e\<lparr>e_summarizer := f\<rparr>,
                s\<lparr>l_compactor := Some \<lparr>c_budget = budget, c_recency_turns = recency,
                                    c_token_ratio = 1\<rparr>\<rparr>)
          else (e, s)))"

definition with_extra_hook ::
  "hook_kind \<Rightarrow> string \<Rightarrow> 'w hook_rest hook_func option \<Rightarrow> 'w loop_option" where
  "with_extra_hook kind name fn = (\<lambda>(e, s).
     (case fn of
        None \<Rightarrow> (e, s)
      | Some f \<Rightarrow>
          (case register (e_hooks e) kind name f of
             Inl _ \<Rightarrow> (e, s)
           | Inr h \<Rightarrow> (e\<lparr>e_hooks := h\<rparr>, s))))"

definition usable_gate :: "verify_gate option \<Rightarrow> bool" where
  "usable_gate g = (case g of None \<Rightarrow> False | Some v \<Rightarrow> vg_command v \<noteq> [])"

definition with_verify :: "verify_gate option \<Rightarrow> 'w loop_option" where
  "with_verify g = (\<lambda>(e, s). (if usable_gate g then e\<lparr>e_verify := g\<rparr> else e, s))"

definition with_terminal_green :: "verify_gate option \<Rightarrow> 'w loop_option" where
  "with_terminal_green g = (\<lambda>(e, s). (if usable_gate g then e\<lparr>e_terminal_green := g\<rparr> else e, s))"

definition with_opportunistic_verify :: "int \<Rightarrow> 'w loop_option" where
  "with_opportunistic_verify n = (\<lambda>(e, s). (e\<lparr>e_opp_every := max 0 n\<rparr>, s))"

definition with_verify_dir :: "string \<Rightarrow> 'w loop_option" where
  "with_verify_dir dir = (\<lambda>(e, s). (e\<lparr>e_verify_dir := dir\<rparr>, s))"

definition with_start_rung :: "string \<Rightarrow> 'w loop_option" where
  "with_start_rung m = (\<lambda>(e, s). (e\<lparr>e_start_rung := m\<rparr>, s))"

definition with_guard :: "guard \<Rightarrow> 'w loop_option" where
  "with_guard g = (\<lambda>(e, s). (e\<lparr>e_guards := e_guards e @ [g]\<rparr>, s))"

definition with_required_reads :: "string list \<Rightarrow> 'w loop_option" where
  "with_required_reads ps = (if ps = [] then (\<lambda>x. x) else with_guard (RequiredReads ps))"

definition with_verify_stuck_escalation :: "int \<Rightarrow> 'w loop_option" where
  "with_verify_stuck_escalation n = (\<lambda>(e, s). (e\<lparr>e_stuck_after := max 0 n\<rparr>, s))"

definition with_fabrication_reprompts :: "int \<Rightarrow> 'w loop_option" where
  "with_fabrication_reprompts n = (\<lambda>(e, s). (e\<lparr>e_fab_reprompts := max 0 n\<rparr>, s))"

definition with_tool_result_cap :: "int \<Rightarrow> 'w loop_option" where
  "with_tool_result_cap n = (\<lambda>(e, s). (e\<lparr>e_result_cap := max 0 n\<rparr>, s))"

definition with_resumed :: "chat_message list \<Rightarrow> int \<Rightarrow> 'w loop_option" where
  "with_resumed history start_turn = (\<lambda>(e, s).
     (e, s\<lparr>l_transcript := l_transcript s @ history,
          l_turns := (if start_turn > 0 then start_turn else l_turns s)\<rparr>))"

definition zero_faults :: fault_recovery where
  "zero_faults = \<lparr>fr_overflow = 0, fr_malformed = 0, fr_timeout = 0, fr_rate_limit = 0\<rparr>"

definition fresh_agent :: "router \<Rightarrow> 'w \<Rightarrow> 'w agent" where
  "fresh_agent r w =
     \<lparr>l_router = r, l_ledger = [], l_started = False, l_turns = 0, l_total_tokens = 0,
      l_compactor = None, l_goal_anchor = [], l_summary = [], l_spec_tokens = 0,
      l_calibrated = False, l_narrated_seq = 0, l_verify_rounds = 0, l_last_opp = 0,
      l_last_reconcile = [], l_fab_rounds = 0, l_truncated = [], l_transcript = [],
      tn_turn = 0, tn_start_len = 0, tn_round = 0, tn_cycle_start = 0, tn_last_progress = 0,
      tn_prev_rung = [], tn_last_spawn = 0, tn_prev_sig = [], tn_model = [], tn_dispatches = [],
      tn_faults = zero_faults, tn_compaction = None, tn_exhausted = False, tn_handoff = False,
      tn_confidence = None, tn_aborted = False, world = w\<rparr>"

definition loop_defaults :: "'w env \<Rightarrow> 'w env" where
  "loop_defaults e = e\<lparr>e_max_rounds := 12, e_breaker := \<lparr>cb_max_cost = 0, cb_max_tokens = 0,
     cb_no_progress = 0\<rparr>, e_goal_every := 0, e_spawn_every := 0, e_floor_window := 0,
     e_tier_budgets := [], e_verify := None, e_terminal_green := None, e_opp_every := 0,
     e_stuck_after := 2, e_fab_reprompts := 2, e_result_cap := 0, e_guards := [],
     e_verify_dir := [], e_start_rung := [], e_hooks := new_surface\<rparr>"

definition new_loop :: "'w env \<Rightarrow> router \<Rightarrow> 'w \<Rightarrow> 'w loop_option list \<Rightarrow> 'w env \<times> 'w agent" where
  "new_loop base r w opts =
     (let (e, s) = fold (\<lambda>opt es. opt es) opts (loop_defaults base, fresh_agent r w);
          s = (if e_start_rung e \<noteq> []
               then s\<lparr>l_router := lift_floor_to_model (e_start_rung e) (l_router s)\<rparr> else s);
          e = (case e_verify e of
                 None \<Rightarrow> e
               | Some g \<Rightarrow>
                   if e_verify_dir e = [] then e
                   else e\<lparr>e_verify := Some (g\<lparr>vg_dir :=
                          (case e_module_dir e (e_verify_dir e) of
                             None \<Rightarrow> e_verify_dir e | Some md \<Rightarrow> md)\<rparr>)\<rparr>)
      in (e\<lparr>e_guards := e_guards e @ [FakeGreenGuard]\<rparr>, s))"

subsection \<open>Hooks and turn signals\<close>

definition hook_ctx :: "'w env \<Rightarrow> hook_kind \<Rightarrow> int \<Rightarrow> 'w agent \<Rightarrow> 'w hook_rest hook_context" where
  "hook_ctx e kind turn s =
     \<lparr>hc_kind = kind, hc_session = e_session e, hc_turn = turn, hc_tool_call = None,
      hc_deny = False, hc_deny_reason = [], hc_deny_non_escalatable = False,
      hc_request_escalation = False, hc_errors = [],
      hc_rest = \<lparr>hr_transcript = l_transcript s, hr_additions = [], hr_metadata = None,
        hr_prompt = [], hr_result = None, hr_confidence = None, hr_world = world s\<rparr>\<rparr>"

definition fire_hook ::
  "'w env \<Rightarrow> hook_kind \<Rightarrow> 'w hook_rest hook_context \<Rightarrow> 'w agent
     \<Rightarrow> 'w hook_rest hook_context \<times> 'w agent" where
  "fire_hook e kind ctx s =
     (let c = fire (e_hooks e) kind ctx
      in (c, s\<lparr>l_transcript := hr_transcript (hc_rest c), world := hr_world (hc_rest c)\<rparr>))"

definition harvest :: "'w hook_rest hook_context \<Rightarrow> 'w agent \<Rightarrow> 'w agent" where
  "harvest c s = s\<lparr>tn_handoff := tn_handoff s \<or> hc_request_escalation c,
     tn_confidence := (case hr_confidence (hc_rest c) of None \<Rightarrow> tn_confidence s | Some v \<Rightarrow> Some v)\<rparr>"

subsection \<open>Telemetry\<close>

definition record_row :: "'w env \<Rightarrow> store_row \<Rightarrow> 'w agent \<Rightarrow> 'w agent" where
  "record_row e row s = (if e_store e then s\<lparr>world := e_record e row (world s)\<rparr> else s)"

definition propose_edge :: "'w env \<Rightarrow> edge \<Rightarrow> 'w agent \<Rightarrow> string \<times> 'w agent" where
  "propose_edge e edge s =
     (if direction edge \<noteq> EdgeEscalate then ([], s)
      else (case e_propose e of
              None \<Rightarrow> ([], s)
            | Some p \<Rightarrow>
                (case p edge (tn_turn s) (world s) of
                   (None, w) \<Rightarrow> ([], s\<lparr>world := w\<rparr>)
                 | (Some i, w) \<Rightarrow> (i, s\<lparr>world := w\<rparr>))))"

definition record_escalation_edge :: "'w env \<Rightarrow> edge \<Rightarrow> 'w agent \<Rightarrow> 'w agent" where
  "record_escalation_edge e edge s =
     (if direction edge = EdgeNone then s
      else (case propose_edge e edge s of
              (event, s') \<Rightarrow> record_row e (RecordEscalation (tn_turn s) edge event) s'))"

subsection \<open>Bounding the transcript\<close>

definition sync_budget_to_rung :: "'w env \<Rightarrow> 'w agent \<Rightarrow> 'w agent" where
  "sync_budget_to_rung e s =
     (case l_compactor s of
        None \<Rightarrow> s
      | Some c \<Rightarrow>
          (let rung = r_cur (l_router s)
           in if e_tier_budgets e = [] \<or> rung < 0 \<or> rung \<ge> int (length (e_tier_budgets e)) then s
              else (let b = e_tier_budgets e ! nat rung
                    in if b > 0 then s\<lparr>l_compactor := Some (c\<lparr>c_budget := b\<rparr>)\<rparr> else s)))"

definition floor_fits :: "int \<Rightarrow> int \<Rightarrow> bool" where
  "floor_fits n w = (if w \<le> 0 then True else n < w * 4 div 5)"

definition context_tokens :: "'w env \<Rightarrow> 'w agent \<Rightarrow> int" where
  "context_tokens e s =
     (case l_compactor s of
        None \<Rightarrow> 0
      | Some c \<Rightarrow> current_size (e_marshal e) c (l_transcript s) (l_spec_tokens s))"

definition bound_within_turn :: "'w env \<Rightarrow> 'w agent \<Rightarrow> 'w agent" where
  "bound_within_turn e s =
     (case l_compactor s of
        None \<Rightarrow> s
      | Some c \<Rightarrow>
          (let before = current_size (e_marshal e) c (l_transcript s) (l_spec_tokens s)
           in if c_budget c \<le> 0 \<or> before \<le> c_budget c then s
              else (case evict_tool_results (e_marshal e) (l_transcript s) (c_budget c)
                       (l_spec_tokens s) min_keep_tool_results hard_keep_tool_results
                       (c_token_ratio c) of
                      (n, ms) \<Rightarrow>
                        if n = 0 then s
                        else s\<lparr>l_transcript := ms,
                          tn_compaction := Some \<lparr>ev_turn_index = l_turns s, ev_tokens_before = before,
                            ev_tokens_after = current_size (e_marshal e) c ms (l_spec_tokens s),
                            ev_groups_evicted = int n, ev_budget = c_budget c,
                            ev_overhead = l_spec_tokens s\<rparr>\<rparr>)))"

definition anchor_goal :: "'w agent \<Rightarrow> 'w agent" where
  "anchor_goal s =
     (if l_goal_anchor s = [] then s\<lparr>l_goal_anchor := first_user_content (l_transcript s)\<rparr> else s)"

text \<open>The rewriting both compactions of the loop share; an error of the summarizer is swallowed.\<close>

definition rewrite_to ::
  "'w env \<Rightarrow> compactor \<Rightarrow> int \<Rightarrow> int \<Rightarrow> 'w agent \<Rightarrow> compaction_event option \<times> 'w agent" where
  "rewrite_to e c budget recency s =
     (case compact_to_budget (e_marshal e) (e_summarizer e) c (l_transcript s) (l_goal_anchor s)
         (l_summary s) (l_spec_tokens s) (l_turns s) budget recency (world s) of
        (k, w) \<Rightarrow>
          if k_error k \<noteq> None \<or> k_event k = None then (None, s\<lparr>world := w\<rparr>)
          else (k_event k, s\<lparr>l_transcript := k_transcript k, l_summary := k_summary k, world := w\<rparr>))"

definition maybe_compact :: "'w env \<Rightarrow> 'w agent \<Rightarrow> compaction_event option \<times> 'w agent" where
  "maybe_compact e s =
     (case l_compactor s of
        None \<Rightarrow> (None, s)
      | Some c \<Rightarrow> rewrite_to e c (c_budget c) (c_recency_turns c) (anchor_goal s))"

definition force_target :: "int \<Rightarrow> int \<Rightarrow> nat \<Rightarrow> int" where
  "force_target spec_tokens budget attempt =
     (let t = ((\<lambda>t. t * 3 div 4) ^^ attempt) budget
      in if t < spec_tokens + 256 then spec_tokens + 256 else t)"

definition force_compact :: "'w env \<Rightarrow> nat \<Rightarrow> 'w agent \<Rightarrow> compaction_event option \<times> 'w agent" where
  "force_compact e attempt s =
     (case l_compactor s of
        None \<Rightarrow> (None, s)
      | Some c \<Rightarrow> rewrite_to e c (force_target (l_spec_tokens s) (c_budget c) attempt)
                  (c_recency_turns c - (int attempt - 1)) (anchor_goal s))"

subsection \<open>The circuit breaker\<close>

definition breaker_enabled :: "circuit_breaker \<Rightarrow> bool" where
  "breaker_enabled b = (cb_max_cost b > 0 \<or> cb_max_tokens b > 0 \<or> cb_no_progress b > 0)"

text \<open>The verdict that stops the turn before the next model call, and whether a stronger rung may
  be tried instead.\<close>

definition breaker_trip :: "'w env \<Rightarrow> 'w agent \<Rightarrow> (stop_verdict \<times> bool) option" where
  "breaker_trip e s =
     (let b = e_breaker e; spent = total_usd (l_ledger s);
          own =
            (if \<not> breaker_enabled b then None
             else if cb_max_cost b > 0 \<and> spent \<ge> cb_max_cost b
             then Some (CostCeiling (cb_max_cost b) spent (tn_round s), False)
             else if cb_max_tokens b > 0 \<and> l_total_tokens s \<ge> cb_max_tokens b
             then Some (TokenCeiling (cb_max_tokens b) (l_total_tokens s) (tn_round s), False)
             else if cb_no_progress b > 0 \<and> tn_round s - tn_last_progress s \<ge> cb_no_progress b
             then Some (NoProgress (tn_round s - tn_last_progress s), True)
             else None)
      in case e_meter e (world s) of
           None \<Rightarrow> own
         | Some m \<Rightarrow>
             if exceeded m then Some (TreeCostCeiling (me_ceiling m) (me_total m), False) else own)"

subsection \<open>Spawning\<close>

definition spawn_capable :: "'w env \<Rightarrow> bool" where
  "spawn_capable e =
     (case e_profile_tools e of
        None \<Rightarrow> False
      | Some ts \<Rightarrow> list_ex (\<lambda>(srf, acts). srf = ''agent'' \<and> (acts = [] \<or> ''spawn'' \<in> set acts)) ts)"

definition is_spawn_call :: "result \<Rightarrow> bool" where
  "is_spawn_call r = (surface (res_call r) = ''agent'' \<and> action (res_call r) = ''spawn'')"

definition tool_call_signature :: "json_marshal \<Rightarrow> call list \<Rightarrow> string" where
  "tool_call_signature jm cs = concat (map (\<lambda>c. surface c @ ''.'' @ action c
     @ (case params c of
          None \<Rightarrow> []
        | Some m \<Rightarrow> if m = Map.empty then [] else (case jm m of None \<Rightarrow> [] | Some b \<Rightarrow> b))
     @ newline) cs)"

subsection \<open>The verification gate of the loop\<close>

definition verify_scoped_gate ::
  "'w env \<Rightarrow> bool \<Rightarrow> verify_gate \<Rightarrow> 'w agent \<Rightarrow> (bool \<times> string) \<times> 'w agent" where
  "verify_scoped_gate e detached g s =
     (case check_scoped (e_run_gate e) detached g
         (go_packages_from_edits (tn_dispatches s) (vg_dir g) (\<lambda>d. e_dir_exists e d (world s)))
         (world s) of
        (r, w) \<Rightarrow> (r, s\<lparr>world := w\<rparr>))"

subsection \<open>Accounting for a model call\<close>

definition calibrate :: "response \<Rightarrow> int \<Rightarrow> 'w agent \<Rightarrow> 'w agent" where
  "calibrate resp sent s =
     (let input = cu_input (rs_usage resp)
      in if input \<le> 0 then s
         else if \<not> l_calibrated s
         then s\<lparr>l_calibrated := True,
               l_spec_tokens := (if input - sent > 0 then input - sent else l_spec_tokens s)\<rparr>
         else (case l_compactor s of
                 None \<Rightarrow> s
               | Some c \<Rightarrow>
                   if sent > 0 \<and> input - l_spec_tokens s > 0
                   then s\<lparr>l_compactor := Some (observe_token_ratio
                           (of_int (input - l_spec_tokens s) / of_int sent) c)\<rparr>
                   else s))"

definition account_for_call :: "'w env \<Rightarrow> response \<Rightarrow> int \<Rightarrow> 'w agent \<Rightarrow> 'w agent" where
  "account_for_call e resp sent s =
     (case ledger_add (rs_model resp) (rs_usage resp) (l_ledger s) of
        (usd, lg) \<Rightarrow>
          (let u = rs_usage resp;
               s1 = s\<lparr>l_ledger := lg, l_total_tokens := l_total_tokens s + cu_input u + cu_output u\<rparr>;
               s2 = (case e_meter e (world s1) of
                       None \<Rightarrow> s1
                     | Some m \<Rightarrow> s1\<lparr>world := e_set_meter e (snd (meter_add usd m)) (world s1)\<rparr>);
               s3 = calibrate resp sent s2;
               s4 = (if tn_model s3 = []
                     then record_row e (StartTurn (tn_turn s3) (rs_model resp))
                            (s3\<lparr>tn_model := rs_model resp\<rparr>)
                     else s3)
           in record_row e (RecordCost (tn_turn s4) (rs_model resp) (cu_input u) (cu_output u) usd) s4))"

subsection \<open>Capping a tool result\<close>

definition cont :: "char \<Rightarrow> nat \<Rightarrow> nat \<Rightarrow> bool" where
  "cont c lo hi = (let n = (of_char c :: nat) in lo \<le> n \<and> n \<le> hi)"

text \<open>\<open>utf8.ValidString\<close>.\<close>

fun valid_utf8 :: "string \<Rightarrow> bool" where
  "valid_utf8 [] = True"
| "valid_utf8 (c # s) =
     (if cont c 0 127 then valid_utf8 s
      else case s of
        [] \<Rightarrow> False
      | d # s1 \<Rightarrow>
          if cont c 194 223 then cont d 128 191 \<and> valid_utf8 s1
          else case s1 of
            [] \<Rightarrow> False
          | f # s2 \<Rightarrow>
              if cont c 224 239 then
                cont d (if cont c 224 224 then 160 else 128) (if cont c 237 237 then 159 else 191)
                \<and> cont f 128 191 \<and> valid_utf8 s2
              else case s2 of
                [] \<Rightarrow> False
              | g # s3 \<Rightarrow>
                  cont c 240 244
                  \<and> cont d (if cont c 240 240 then 144 else 128) (if cont c 244 244 then 143 else 191)
                  \<and> cont f 128 191 \<and> cont g 128 191 \<and> valid_utf8 s3)"

fun back_off :: "string \<Rightarrow> nat \<Rightarrow> string" where
  "back_off s 0 = []"
| "back_off s (Suc n) = (if valid_utf8 (take (Suc n) s) then take (Suc n) s else back_off s n)"

definition tool_result_cap :: "'w env \<Rightarrow> 'w agent \<Rightarrow> int" where
  "tool_result_cap e s =
     (if e_result_cap e > 0 then e_result_cap e
      else (let cap = (case l_compactor s of
                         None \<Rightarrow> 4096
                       | Some c \<Rightarrow> if c_budget c > 0 then c_budget c div 4 * 4 else 4096)
            in if cap < 1024 then 1024 else cap))"

definition cap_notice :: "nat \<Rightarrow> nat \<Rightarrow> string" where
  "cap_notice shown len = newline @ newline @ ''[tool result truncated: '' @ itoa (int shown) @ '' of ''
     @ itoa (int len) @ '' chars shown. The full result is too large for the context window ''
     @ em_dash @ '' narrow the call (fetch one record by id rather than listing all, add a limit/offset, read a line range, or grep a tighter pattern) to get the part you need.]''"

definition cap_tool_result :: "'w env \<Rightarrow> 'w agent \<Rightarrow> string \<Rightarrow> string" where
  "cap_tool_result e s content =
     (let cap = tool_result_cap e s
      in if int (length content) \<le> cap then content
         else (let head = back_off content (nat cap)
               in head @ cap_notice (length head) (length content)))"

subsection \<open>Truncated views\<close>

definition num_param :: "call \<Rightarrow> string \<Rightarrow> rat" where
  "num_param c key = (case call_param c key of VNum v \<Rightarrow> v | _ \<Rightarrow> 0)"

definition fs_read_is_whole_file :: "call \<Rightarrow> bool" where
  "fs_read_is_whole_file c = (num_param c ''limit'' \<le> 0 \<and> num_param c ''offset'' \<le> 1)"

definition track_truncated_view :: "'w env \<Rightarrow> call \<Rightarrow> string \<Rightarrow> 'w agent \<Rightarrow> 'w agent" where
  "track_truncated_view e c raw s =
     (let p = fs_call_path c
      in if surface c \<noteq> ''fs'' \<or> action c \<noteq> ''read'' \<or> p = [] then s
         else if int (length raw) > tool_result_cap e s
         then s\<lparr>l_truncated := List.insert p (l_truncated s)\<rparr>
         else if fs_read_is_whole_file c then s\<lparr>l_truncated := removeAll p (l_truncated s)\<rparr>
         else s)"

definition truncated_write_reason :: "'w agent \<Rightarrow> call \<Rightarrow> string" where
  "truncated_write_reason s c =
     (let p = fs_call_path c
      in if surface c \<noteq> ''fs'' \<or> action c \<noteq> ''write'' \<or> p = [] \<or> p \<notin> set (l_truncated s) then []
         else ''fs.write blocked: your most recent read of '' @ go_quote p
           @ '' was truncated, so you have not seen the whole file '' @ em_dash
           @ '' a whole-file write would overwrite the unseen part with whatever you reconstructed. Use fs.edit for a targeted change, or read the file whole (no offset/limit, small enough to not truncate) before writing it.'')"

subsection \<open>The end of a turn\<close>

fun append_messages ::
  "'w env \<Rightarrow> int \<Rightarrow> chat_message list \<Rightarrow> 'w \<Rightarrow> go_error option \<times> 'w" where
  "append_messages e turn [] w = (None, w)"
| "append_messages e turn (m # ms) w =
     (case e_append e turn (m_role m) (m_content m) w of
        (None, w') \<Rightarrow> append_messages e turn ms w'
      | (Some err, w') \<Rightarrow>
          (Some (err\<lparr>err_text := ''persist session message: '' @ err_text err\<rparr>), w'))"

text \<open>The slice \<open>l.transcript[startLen:]\<close> panics when the transcript is shorter than
  \<open>startLen\<close>: \<^const>\<open>None\<close>.\<close>

definition persist_messages :: "'w env \<Rightarrow> 'w agent \<Rightarrow> (go_error option \<times> 'w agent) option" where
  "persist_messages e s =
     (if \<not> e_store e then Some (None, s)
      else if length (l_transcript s) < tn_start_len s then None
      else (case append_messages e (tn_turn s) (drop (tn_start_len s) (l_transcript s)) (world s) of
              (err, w) \<Rightarrow> Some (err, s\<lparr>world := w\<rparr>)))"

definition turn_signals_of :: "'w env \<Rightarrow> 'w agent \<Rightarrow> signals" where
  "turn_signals_of e s =
     (let t = tally (tn_dispatches s)
      in \<lparr>tool_errors = t_tool_errors t, parse_failures = t_parse_failures t,
          retries_used = (if tn_exhausted s then e_max_rounds e else 0),
          explicit_handoff = (if tn_handoff s then 1 else 0), sig_confidence = tn_confidence s,
          sig_detail = (if tn_exhausted s then ''max tool rounds exhausted'' else [])\<rparr>)"

definition finish_turn :: "'w env \<Rightarrow> 'w agent \<Rightarrow> (go_error option \<times> 'w agent) option" where
  "finish_turn e s =
     (case persist_messages e s of
        None \<Rightarrow> None
      | Some (perr, s1) \<Rightarrow>
          (let sg = turn_signals_of e s1
           in case observe sg (l_router s1) of
                (edge, r) \<Rightarrow>
                  (let s2 = record_row e (EndTurn (tn_turn s1) (tool_errors sg) (parse_failures sg)
                               (tn_aborted s1)) (s1\<lparr>l_router := r\<rparr>);
                       s3 = record_escalation_edge e edge s2
                   in Some (perr, snd (fire_hook e PostTurn (hook_ctx e PostTurn (tn_turn s3) s3) s3)))))"

definition base_result :: "go_error option \<Rightarrow> 'w agent \<Rightarrow> turn_result" where
  "base_result perr s =
     \<lparr>tr_text = [], tr_dispatches = tn_dispatches s, tr_cost = total_usd (l_ledger s),
      tr_persist_err = perr, tr_compaction = tn_compaction s, tr_verify_failed = False,
      tr_model_fault = FaultNone, tr_stopped = None, tr_fabricated = [], tr_escalate = None,
      tr_highest = []\<rparr>"

text \<open>Close the turn and return the result that \<open>f\<close> completes.\<close>

definition conclude ::
  "'w env \<Rightarrow> (turn_result \<Rightarrow> turn_result) \<Rightarrow> 'w agent \<Rightarrow> turn_outcome \<times> 'w agent" where
  "conclude e f s =
     (case finish_turn e s of
        None \<Rightarrow> (Panicked, s)
      | Some (perr, s') \<Rightarrow> (Answered (f (base_result perr s')), s'))"

end
