(* ===== verification/Agent_Loop.thy ===== *)
theory Agent_Loop
  imports Agent_State
begin

text \<open>
  The agent loop, second part: the recovery from model faults (\<open>internal/agent/recovery.go\<close>) and
  \<open>Loop.Run\<close> with the operations that decide its outcome. A round is a sequence of phases, each
  of which passes the state on, asks for the next round (\<open>continue\<close>), leaves the loop
  (\<open>break\<close>) or ends the turn. The loop itself has no bound in the code; the model runs it on fuel
  and returns \<^const>\<open>None\<close> when the fuel is spent.
\<close>

subsection \<open>Recovery from model faults\<close>

datatype recover_action = RecoverAbort turn_error | RecoverRetry | RecoverGraceful

text \<open>Apply a forced move of the router; the flag tells whether its edge has the wanted direction,
  and only then is the edge recorded.\<close>

definition force_edge ::
  "'w env \<Rightarrow> (router \<Rightarrow> edge \<times> router) \<Rightarrow> edge_direction \<Rightarrow> 'w agent \<Rightarrow> bool \<times> 'w agent" where
  "force_edge e move want s =
     (case move (l_router s) of
        (edge, r) \<Rightarrow>
          if direction edge = want
          then (True, record_escalation_edge e edge (s\<lparr>l_router := r\<rparr>))
          else (False, s\<lparr>l_router := r\<rparr>))"

definition recover_overflow :: "'w env \<Rightarrow> go_error \<Rightarrow> 'w agent \<Rightarrow> recover_action \<times> 'w agent" where
  "recover_overflow e err s0 =
     (let n = fr_overflow (tn_faults s0) + 1;
          s = s0\<lparr>tn_faults := (tn_faults s0)\<lparr>fr_overflow := n\<rparr>\<rparr>
      in if n > 4 then (RecoverAbort (OverflowUnrecoverable (n - 1) err), s)
         else (case force_compact e (nat n) s of
                 (Some _, s1) \<Rightarrow> (RecoverRetry, s1)
               | (None, s1) \<Rightarrow>
                   (case force_edge e escalate_for_overflow EdgeEscalate s1 of
                      (True, s2) \<Rightarrow> (RecoverRetry, s2)
                    | (False, s2) \<Rightarrow> (RecoverAbort (OverflowNoHeadroom err), s2))))"

definition in_quotes :: "string \<Rightarrow> string" where
  "in_quotes w = CHR 0x22 # w @ [CHR 0x22]"

definition malformed_reprompt :: string where
  "malformed_reprompt = ''Your previous tool call could not be parsed: its function arguments were not valid JSON ''
     @ ''(it was likely truncated). Re-issue the tool call with a single complete, well-formed JSON object ''
     @ ''for the arguments, e.g. {'' @ in_quotes ''action'' @ '':'' @ in_quotes ''<action>'' @ '',''
     @ in_quotes ''params'' @ '':{...}}. Do not cut it off.''"

definition recover_malformed :: "'w env \<Rightarrow> go_error \<Rightarrow> 'w agent \<Rightarrow> recover_action \<times> 'w agent" where
  "recover_malformed e err s0 =
     (let n = fr_malformed (tn_faults s0) + 1;
          s = s0\<lparr>tn_faults := (tn_faults s0)\<lparr>fr_malformed := n\<rparr>\<rparr>
      in if n > 3
         then (case force_edge e (escalate_for_fault FaultMalformedToolCall) EdgeEscalate s of
                 (True, s1) \<Rightarrow> (RecoverRetry, s1)
               | (False, s1) \<Rightarrow> (RecoverAbort (MalformedPersists (n - 1) err), s1))
         else (RecoverRetry,
               s\<lparr>l_transcript := l_transcript s @ [text_message RoleUser malformed_reprompt]\<rparr>))"

definition recover_timeout :: "'w env \<Rightarrow> 'w agent \<Rightarrow> recover_action \<times> 'w agent" where
  "recover_timeout e s0 =
     (if e_done e (world s0) then (RecoverGraceful, s0)
      else (let n = fr_timeout (tn_faults s0) + 1;
                s = s0\<lparr>tn_faults := (tn_faults s0)\<lparr>fr_timeout := n\<rparr>\<rparr>
            in if n > 2
               then (case force_edge e (escalate_for_fault FaultTimeout) EdgeEscalate s of
                       (True, s1) \<Rightarrow> (RecoverRetry, s1)
                     | (False, s1) \<Rightarrow> (RecoverGraceful, s1))
               else (case force_compact e (nat n) s of
                       (Some _, s1) \<Rightarrow> (RecoverRetry, s1)
                     | (None, s1) \<Rightarrow>
                         (RecoverRetry,
                          snd (force_edge e (escalate_for_fault FaultTimeout) EdgeEscalate s1)))))"

text \<open>The wait before a retry, in nanoseconds.\<close>

fun backoff_loop :: "nat \<Rightarrow> int \<Rightarrow> int" where
  "backoff_loop 0 d = d"
| "backoff_loop (Suc n) d = (if d * 2 \<ge> 8000000000 then 8000000000 else backoff_loop n (d * 2))"

definition backoff_duration :: "int \<Rightarrow> int" where
  "backoff_duration attempt = backoff_loop (nat (attempt - 1)) 500000000"

definition recover_rate_limit :: "'w env \<Rightarrow> 'w agent \<Rightarrow> recover_action \<times> 'w agent" where
  "recover_rate_limit e s0 =
     (let n = fr_rate_limit (tn_faults s0) + 1;
          s = s0\<lparr>tn_faults := (tn_faults s0)\<lparr>fr_rate_limit := n\<rparr>\<rparr>
      in if n > 4
         then (case force_edge e deescalate_to_floor EdgeDeescalate s of
                 (True, s1) \<Rightarrow> (RecoverRetry, s1)
               | (False, s1) \<Rightarrow> (RecoverGraceful, s1))
         else (case e_sleep e (backoff_duration n) (world s) of
                 (slept, w) \<Rightarrow> (if slept then RecoverRetry else RecoverGraceful, s\<lparr>world := w\<rparr>)))"

definition recover_from_fault :: "'w env \<Rightarrow> go_error \<Rightarrow> 'w agent \<Rightarrow> recover_action \<times> 'w agent" where
  "recover_from_fault e err s =
     (case classify_fault (Some err) of
        FaultContextOverflow \<Rightarrow> recover_overflow e err s
      | FaultMalformedToolCall \<Rightarrow> recover_malformed e err s
      | FaultTimeout \<Rightarrow> recover_timeout e s
      | FaultRateLimit \<Rightarrow> recover_rate_limit e s
      | FaultNone \<Rightarrow> (RecoverAbort (ModelTurn err), s))"

subsection \<open>Green trees\<close>

definition guards_refuse :: "'w env \<Rightarrow> guard_stage \<Rightarrow> string \<Rightarrow> bool \<Rightarrow> 'w agent \<Rightarrow> string option" where
  "guards_refuse e stage t gated s =
     registry_assess (e_guards e) stage
       \<lparr>gi_text = t, gi_dispatches = tn_dispatches s, gi_loop_gated = gated\<rparr>"

text \<open>Finish with success when the gate passes on the current tree and no guard refuses the green.\<close>

definition opportunistic_green :: "'w env \<Rightarrow> string \<Rightarrow> 'w agent \<Rightarrow> turn_outcome option \<times> 'w agent" where
  "opportunistic_green e final s =
     (case (case e_verify e of None \<Rightarrow> e_terminal_green e | Some g \<Rightarrow> Some g) of
        None \<Rightarrow> (None, s)
      | Some g \<Rightarrow>
          (case verify_scoped_gate e False g s of
             ((ok, out), s1) \<Rightarrow>
               if \<not> ok then (None, s1)
               else if guards_refuse e StageFakeGreen final False s1 \<noteq> None then (None, s1)
               else (case conclude e (\<lambda>r. r\<lparr>tr_text := final\<rparr>) s1 of (res, s2) \<Rightarrow> (Some res, s2))))"

definition gate_feedback :: "string \<Rightarrow> string \<Rightarrow> string list \<Rightarrow> string list \<Rightarrow> string \<Rightarrow> string" where
  "gate_feedback lead closing cmd grounds shown =
     lead @ '' ('' @ backtick @ join '' '' cmd @ backtick @ '' exited non-zero):'' @ newline @ shown
     @ newline @ newline
     @ (if grounds \<noteq> [] then join (newline @ newline) grounds @ newline @ newline else [])
     @ closing"

definition reconcile_closing :: string where
  "reconcile_closing = ''Reconcile your changes against this REAL output now '' @ em_dash
     @ '' in particular, correct any test assertion whose expected value differs from what the gate shows ''
     @ em_dash @ '' then continue.''"

definition opportunistic_reconcile ::
  "'w env \<Rightarrow> string \<Rightarrow> 'w agent \<Rightarrow> turn_outcome option \<times> 'w agent" where
  "opportunistic_reconcile e final s =
     (case e_verify e of
        None \<Rightarrow> (None, s)
      | Some g \<Rightarrow>
          (case verify_scoped_gate e False g s of
             ((ok, out), s1) \<Rightarrow>
               if ok then
                 (if guards_refuse e StageFakeGreen final False s1 \<noteq> None then (None, s1)
                  else (case conclude e (\<lambda>r. r\<lparr>tr_text := final\<rparr>) s1 of
                          (res, s2) \<Rightarrow> (Some res, s2)))
               else if out = [] \<or> out = l_last_reconcile s1 then (None, s1)
               else (case e_ground e out (vg_dir g) (world s1) of
                       (grounds, w) \<Rightarrow>
                         (None, s1\<lparr>l_last_reconcile := out, world := w,
                            l_transcript := l_transcript s1 @ [text_message RoleUser
                              (gate_feedback (''Checkpoint '' @ em_dash @ '' the verification gate currently FAILS'')
                                 reconcile_closing (vg_command g) grounds (distill_gate_output out))],
                            tn_last_progress := tn_round s1\<rparr>))))"

subsection \<open>Closing a turn on a fault\<close>

definition close_on_fault ::
  "'w env \<Rightarrow> bool \<Rightarrow> (fault_kind \<Rightarrow> stop_verdict) \<Rightarrow> go_error \<Rightarrow> 'w agent
     \<Rightarrow> turn_outcome option \<times> 'w agent" where
  "close_on_fault e detached stopped err s =
     (case e_verify e of
        None \<Rightarrow> (None, s)
      | Some g \<Rightarrow>
          (case finish_turn e s of
             None \<Rightarrow> (Some Panicked, s)
           | Some (perr, s1) \<Rightarrow>
               (case verify_scoped_gate e detached g s1 of
                  ((ok, out), s2) \<Rightarrow>
                    (let r = base_result perr s2; k = classify_fault (Some err)
                     in (Some (Answered
                           (if ok then r
                            else r\<lparr>tr_model_fault := k, tr_stopped := Some (stopped k),
                                   tr_escalate := Some (GateOutput (stopped k) (trim_space out))\<rparr>)),
                         s2)))))"

definition close_on_terminal_fault :: "'w env \<Rightarrow> go_error \<Rightarrow> 'w agent \<Rightarrow> turn_outcome option \<times> 'w agent" where
  "close_on_terminal_fault e err s = close_on_fault e False TerminalFaultRed err s"

definition close_on_graceful_fault :: "'w env \<Rightarrow> go_error \<Rightarrow> 'w agent \<Rightarrow> turn_outcome option \<times> 'w agent" where
  "close_on_graceful_fault e err s = close_on_fault e True GracefulFaultRed err s"

text \<open>What the loop does when a recovery ends the turn.\<close>

definition end_gracefully :: "'w env \<Rightarrow> go_error \<Rightarrow> 'w agent \<Rightarrow> turn_outcome \<times> 'w agent" where
  "end_gracefully e err s =
     (case close_on_graceful_fault e err s of
        (Some res, s1) \<Rightarrow> (res, s1)
      | (None, s1) \<Rightarrow> conclude e (\<lambda>r. r\<lparr>tr_model_fault := classify_fault (Some err)\<rparr>) s1)"

definition empty_result :: turn_result where
  "empty_result = \<lparr>tr_text = [], tr_dispatches = [], tr_cost = 0, tr_persist_err = None,
     tr_compaction = None, tr_verify_failed = False, tr_model_fault = FaultNone, tr_stopped = None,
     tr_fabricated = [], tr_escalate = None, tr_highest = []\<rparr>"

definition end_aborted :: "'w env \<Rightarrow> go_error \<Rightarrow> turn_error \<Rightarrow> 'w agent \<Rightarrow> turn_outcome \<times> 'w agent" where
  "end_aborted e err why s =
     (case close_on_terminal_fault e err s of
        (Some res, s1) \<Rightarrow> (res, s1)
      | (None, s1) \<Rightarrow>
          (case finish_turn e (s1\<lparr>tn_aborted := True\<rparr>) of
             None \<Rightarrow> (Panicked, s1)
           | Some (perr, s2) \<Rightarrow>
               (Failed empty_result (case perr of None \<Rightarrow> why | Some p \<Rightarrow> JoinedErrors why p), s2)))"

subsection \<open>Dispatching a round's calls\<close>

definition denial :: "call \<Rightarrow> error_class \<Rightarrow> string \<Rightarrow> string \<Rightarrow> string \<Rightarrow> result" where
  "denial c cls reason key tag =
     \<lparr>res_call = c, res_ok = False,
      res_value = VMap [(''error'', VStr reason), (key, VStr tag)], res_class = cls,
      latency_ms = 0, span_id = []\<rparr>"

text \<open>The result of one call: a veto of a hook, the refusal of a whole-file write after a truncated
  read, or what the provider returns.\<close>

definition resolve_call ::
  "'w env \<Rightarrow> 'w hook_rest hook_context \<Rightarrow> call \<Rightarrow> 'w agent \<Rightarrow> result \<times> 'w agent" where
  "resolve_call e ctx c s =
     (if hc_deny ctx
      then (denial c (if hc_deny_non_escalatable ctx then ClassUsage else ClassTool)
              (hc_deny_reason ctx) ''risk_gate'' ''blocked'', s)
      else if truncated_write_reason s c \<noteq> []
      then (denial c ClassUsage (truncated_write_reason s c) ''fs_guard'' ''truncated_view'', s)
      else (case e_dispatch e c (world s) of (r, w) \<Rightarrow> (r, s\<lparr>world := w\<rparr>)))"

definition dispatch_call :: "'w env \<Rightarrow> call \<Rightarrow> bool \<times> int \<times> 'w agent \<Rightarrow> bool \<times> int \<times> 'w agent" where
  "dispatch_call e call0 = (\<lambda>(mutated, elapsed, s).
     (case fire_hook e PreToolUse
         ((hook_ctx e PreToolUse (tn_turn s) s)\<lparr>hc_tool_call := Some call0\<rparr>) s of
        (pc, s1) \<Rightarrow>
          (let c = (case hc_tool_call pc of None \<Rightarrow> call0 | Some c \<Rightarrow> c);
               s2 = harvest pc s1;
               began = e_now e (world s2)
           in case resolve_call e pc c s2 of
                (res, s3) \<Rightarrow>
                  (let wrote = is_mutating_write res; spawned = is_spawn_call res;
                       s4 = s3\<lparr>tn_dispatches := tn_dispatches s3 @ [res],
                              tn_last_progress := (if wrote then tn_round s3 else tn_last_progress s3)\<rparr>;
                       s5 = (if spawned
                             then s4\<lparr>tn_last_spawn := tn_round s4 + 1,
                                    l_transcript := clear_spawn_force (l_transcript s4)\<rparr>
                             else s4);
                       spent = (if spawned then e_now e (world s5) - began else 0);
                       raw = e_encode e (res_value res);
                       s6 = record_row e (RecordToolCall (tn_turn s5) c (e_encode_params e (params c))
                              raw res (tn_model s5)) (track_truncated_view e c raw s5)
                   in case fire_hook e PostToolUse
                        (let h = hook_ctx e PostToolUse (tn_turn s6) s6
                         in h\<lparr>hc_tool_call := Some c,
                              hc_rest := (hc_rest h)\<lparr>hr_result := Some res\<rparr>\<rparr>) s6 of
                        (oc, s7) \<Rightarrow>
                          (let c' = (case hc_tool_call oc of None \<Rightarrow> c | Some c' \<Rightarrow> c');
                               s8 = harvest oc s7
                           in (mutated \<or> wrote, elapsed + spent,
                               s8\<lparr>l_transcript := l_transcript s8 @
                                 [\<lparr>m_role = RoleTool, m_content = cap_tool_result e s8 raw,
                                   m_tool_call_id = call_id c', m_name = surface c',
                                   m_tool_calls = []\<rparr>]\<rparr>))))))"

definition dispatch_round :: "'w env \<Rightarrow> call list \<Rightarrow> 'w agent \<Rightarrow> bool \<times> int \<times> 'w agent" where
  "dispatch_round e cs s = fold (dispatch_call e) cs (False, 0, s)"

subsection \<open>The done-claim\<close>

definition requeue :: "string \<Rightarrow> 'w agent \<Rightarrow> 'w agent" where
  "requeue msg s = s\<lparr>l_transcript := l_transcript s @ [text_message RoleUser msg],
     tn_cycle_start := tn_round s + 1, tn_last_progress := tn_round s\<rparr>"

definition fabrication_reprompt :: "string \<Rightarrow> string" where
  "fabrication_reprompt reason =
     ''Your previous turn claimed done but was REJECTED by the work audit: '' @ reason @ newline
     @ ''Narration is not execution '' @ em_dash @ '' actually CALL fs.edit/fs.write to make the change now, then stop. ''
     @ ''If you genuinely cannot, say so plainly and do NOT claim done.''"

definition stuck_verify_lift :: "'w env \<Rightarrow> 'w agent \<Rightarrow> 'w agent" where
  "stuck_verify_lift e s =
     (if e_stuck_after e > 0 \<and> l_verify_rounds s mod e_stuck_after e = 0
      then snd (force_edge e (escalate_for_stuck_verify (l_verify_rounds s)) EdgeEscalate s)
      else s)"

text \<open>A red gate at a done-claim: another revise cycle, or the verdict that the gate is still red.\<close>

definition revise_or_refuse ::
  "'w env \<Rightarrow> verify_gate \<Rightarrow> string \<Rightarrow> string \<Rightarrow> 'w agent \<Rightarrow> turn_outcome option \<times> 'w agent" where
  "revise_or_refuse e g claim out s =
     (if l_verify_rounds s < max_rounds_or_default g
      then (let s1 = stuck_verify_lift e (s\<lparr>l_verify_rounds := l_verify_rounds s + 1\<rparr>)
            in case e_ground e out (vg_dir g) (world s1) of
                 (grounds, w) \<Rightarrow>
                   (None, requeue (gate_feedback ''Automated verification failed''
                       ''Fix the code so it passes, then stop.'' (vg_command g) grounds
                       (distill_gate_output out)) (s1\<lparr>world := w\<rparr>)))
      else (case conclude e (\<lambda>r. r\<lparr>tr_text := claim, tr_verify_failed := True,
               tr_escalate := Some (GateStillRed (vg_command g) (l_verify_rounds s))\<rparr>) s of
              (res, s1) \<Rightarrow> (Some res, s1)))"

definition verify_claim :: "'w env \<Rightarrow> string \<Rightarrow> 'w agent \<Rightarrow> turn_outcome option \<times> 'w agent" where
  "verify_claim e claim s =
     (case e_verify e of
        None \<Rightarrow> (case conclude e (\<lambda>r. r\<lparr>tr_text := claim\<rparr>) s of (res, s1) \<Rightarrow> (Some res, s1))
      | Some g \<Rightarrow>
          (case verify_scoped_gate e False g s of
             ((ok, out), s1) \<Rightarrow>
               if \<not> ok then revise_or_refuse e g claim out s1
               else (case guards_refuse e StageFakeGreen claim True s1 of
                       Some reason \<Rightarrow>
                         (case conclude e (\<lambda>r. r\<lparr>tr_text := claim, tr_verify_failed := True,
                             tr_escalate := Some (GuardRefused reason)\<rparr>) s1 of
                            (res, s2) \<Rightarrow> (Some res, s2))
                     | None \<Rightarrow>
                         (case conclude e (\<lambda>r. r\<lparr>tr_text := claim\<rparr>) s1 of
                            (res, s2) \<Rightarrow> (Some res, s2)))))"

definition on_declared_done :: "'w env \<Rightarrow> string \<Rightarrow> 'w agent \<Rightarrow> turn_outcome option \<times> 'w agent" where
  "on_declared_done e claim s =
     (case guards_refuse e StageFabrication claim (e_verify e \<noteq> None) s of
        Some reason \<Rightarrow>
          (if l_fab_rounds s < e_fab_reprompts e
           then (None, requeue (fabrication_reprompt reason)
                   (s\<lparr>l_fab_rounds := l_fab_rounds s + 1\<rparr>))
           else (case conclude e (\<lambda>r. r\<lparr>tr_text := claim, tr_fabricated := reason\<rparr>) s of
                   (res, s1) \<Rightarrow> (Some res, s1)))
      | None \<Rightarrow> verify_claim e claim s)"

subsection \<open>The phases of a round\<close>

datatype round_end = Again | BreakOut "int option" | EndTurnWith turn_outcome

type_synonym 'w phase = "'w agent \<Rightarrow> round_end option \<times> 'w agent"

definition next_phase :: "'w phase \<Rightarrow> 'w phase \<Rightarrow> 'w phase" where
  "next_phase p q s = (case p s of (None, s1) \<Rightarrow> q s1 | (Some r, s1) \<Rightarrow> (Some r, s1))"

definition ending :: "turn_outcome \<times> 'w agent \<Rightarrow> round_end option \<times> 'w agent" where
  "ending rs = (Some (EndTurnWith (fst rs)), snd rs)"

definition try_green ::
  "'w env \<Rightarrow> string \<Rightarrow> ('w agent \<Rightarrow> round_end option \<times> 'w agent) \<Rightarrow> 'w phase" where
  "try_green e final otherwise s =
     (case opportunistic_green e final s of
        (Some res, s1) \<Rightarrow> (Some (EndTurnWith res), s1)
      | (None, s1) \<Rightarrow> otherwise s1)"

definition exhaustion_guard :: "'w env \<Rightarrow> 'w phase" where
  "exhaustion_guard e s =
     (if tn_round s - tn_cycle_start s \<ge> e_max_rounds e
      then try_green e [] (\<lambda>s1.
             (case force_edge e (escalate_for_retry_exhaustion (tn_round s1 - tn_cycle_start s1))
                 EdgeEscalate s1 of
                (True, s2) \<Rightarrow>
                  (Some Again, s2\<lparr>tn_cycle_start := tn_round s2, tn_last_progress := tn_round s2\<rparr>)
              | (False, s2) \<Rightarrow> (Some (BreakOut None), s2))) s
      else (None, s))"

definition note_rung :: "'w env \<Rightarrow> 'w phase" where
  "note_rung e s =
     (let cur = current_model (l_router s);
          s1 = (if tn_prev_rung s \<noteq> [] \<and> cur \<noteq> tn_prev_rung s
                then s\<lparr>tn_last_progress := tn_round s\<rparr> else s)
      in (None, sync_budget_to_rung e (s1\<lparr>tn_prev_rung := cur\<rparr>)))"

definition stop_with :: "'w env \<Rightarrow> stop_verdict \<Rightarrow> 'w phase" where
  "stop_with e v s =
     ending (conclude e (\<lambda>r. r\<lparr>tr_stopped := Some v,
        tr_escalate := (if e_verify e \<noteq> None then Some (Unsatisfied v) else None)\<rparr>) s)"

definition pool_spent :: "'w env \<Rightarrow> 'w agent \<Rightarrow> bool" where
  "pool_spent e s = sb_exhausted (e_pool e) (world s)"

definition strong_bound_verdict :: "'w env \<Rightarrow> 'w agent \<Rightarrow> stop_verdict" where
  "strong_bound_verdict e s =
     (if strong_budget_exhausted (l_router s) (pool_spent e s) then StrongPoolSpent
      else StrongBoundReached (current_model (l_router s)) (r_bound_max (l_router s)))"

text \<open>The verdict is worded after \<open>finishTurn\<close>, whose observation may move the router.\<close>

definition strong_bound_guard :: "'w env \<Rightarrow> 'w phase" where
  "strong_bound_guard e s =
     (if strong_bound_exhausted (l_router s) (pool_spent e s)
      then try_green e [] (\<lambda>s1.
             (case finish_turn e s1 of
                None \<Rightarrow> (Some (EndTurnWith Panicked), s1)
              | Some (perr, s2) \<Rightarrow>
                  (let v = strong_bound_verdict e s2
                   in (Some (EndTurnWith (Answered ((base_result perr s2)\<lparr>tr_stopped := Some v,
                         tr_escalate := (if e_verify e \<noteq> None then Some (Unsatisfied v) else None)\<rparr>))),
                       s2)))) s
      else (None, s))"

definition breaker_guard :: "'w env \<Rightarrow> 'w phase" where
  "breaker_guard e s =
     (case breaker_trip e s of
        None \<Rightarrow> (None, s)
      | Some (v, escalatable) \<Rightarrow>
          if escalatable
          then (case force_edge e (escalate_for_no_progress (tn_round s - tn_last_progress s))
                   EdgeEscalate s of
                  (True, s1) \<Rightarrow> (Some Again, s1\<lparr>tn_last_progress := tn_round s1\<rparr>)
                | (False, s1) \<Rightarrow> stop_with e v s1)
          else stop_with e v s)"

definition bound_transcript :: "'w env \<Rightarrow> 'w phase" where
  "bound_transcript e s =
     (let s1 = bound_within_turn e s;
          s2 = (if e_goal_every e > 0 \<and> tn_round s1 > 0 \<and> tn_round s1 mod e_goal_every e = 0
                then s1\<lparr>l_transcript := refresh_goal_reminder (l_transcript s1) (l_goal_anchor s1)\<rparr>
                else s1);
          s3 = (if e_spawn_every e > 0 \<and> spawn_capable e \<and> tn_last_spawn s2 = 0
                   \<and> tn_round s2 - tn_last_spawn s2 \<ge> e_spawn_every e
                then s2\<lparr>l_transcript := refresh_spawn_force (l_transcript s2)
                                         (tn_round s2 - tn_last_spawn s2)\<rparr>
                else s2)
      in (None, s3))"

definition note_compaction :: "compaction_event option \<times> 'w agent \<Rightarrow> 'w agent" where
  "note_compaction = (\<lambda>(ev, s). case ev of None \<Rightarrow> s | Some x \<Rightarrow> s\<lparr>tn_compaction := Some x\<rparr>)"

definition floor_fit_guard :: "'w env \<Rightarrow> 'w phase" where
  "floor_fit_guard e s =
     (if e_floor_window e > 0 \<and> will_serve_floor (l_router s) (pool_spent e s)
         \<and> \<not> floor_fits (context_tokens e s) (e_floor_window e)
      then (let s1 = note_compaction (force_compact e 1 s)
            in if floor_fits (context_tokens e s1) (e_floor_window e) then (None, s1)
               else (case force_edge e escalate_for_overflow EdgeEscalate s1 of
                       (True, s2) \<Rightarrow> (Some Again, s2\<lparr>tn_last_progress := tn_round s2\<rparr>)
                     | (False, s2) \<Rightarrow> (None, s2)))
      else (None, s))"

definition guard_phases :: "'w env \<Rightarrow> 'w phase" where
  "guard_phases e =
     next_phase (exhaustion_guard e) (next_phase (note_rung e) (next_phase (strong_bound_guard e)
       (next_phase (breaker_guard e) (next_phase (bound_transcript e) (floor_fit_guard e)))))"

text \<open>The one model call of a round; the rung that serves it draws on the shared pool.\<close>

definition call_model :: "'w env \<Rightarrow> 'w agent \<Rightarrow> int \<times> (go_error + response) \<times> 'w agent" where
  "call_model e s =
     (case next_adapter (e_pool e) (\<lambda>i. e_available e (model_at (l_router s) i) (world s))
         (l_router s, world s) of
        (rung, r, w) \<Rightarrow>
          (let sent = estimate_tokens (e_marshal e) (l_transcript s)
           in case e_complete e (model_at r rung) (l_transcript s) w of
                (reply, w') \<Rightarrow> (sent, reply, s\<lparr>l_router := r, world := w'\<rparr>)))"

definition handle_fault :: "'w env \<Rightarrow> go_error \<Rightarrow> 'w phase" where
  "handle_fault e err s =
     (case recover_from_fault e err s of
        (RecoverRetry, s1) \<Rightarrow> (Some Again, s1)
      | (RecoverGraceful, s1) \<Rightarrow> ending (end_gracefully e err s1)
      | (RecoverAbort why, s1) \<Rightarrow> ending (end_aborted e err why s1))"

fun number_narrated :: "int \<Rightarrow> call list \<Rightarrow> call list" where
  "number_narrated n [] = []"
| "number_narrated n (c # cs) =
     c\<lparr>call_id := ''narrated-'' @ itoa (n + 1)\<rparr> # number_narrated (n + 1) cs"

definition narrated_calls :: "'w env \<Rightarrow> response \<Rightarrow> 'w agent \<Rightarrow> call list \<times> 'w agent" where
  "narrated_calls e resp s =
     (if rs_calls resp \<noteq> [] then (rs_calls resp, s)
      else (let rec = recover_narrated (e_unmarshal e) (rs_text resp) (e_specs e)
            in (number_narrated (l_narrated_seq s) rec,
                s\<lparr>l_narrated_seq := l_narrated_seq s + int (length rec)\<rparr>)))"

definition repeated_call_guard :: "'w env \<Rightarrow> string \<Rightarrow> call list \<Rightarrow> 'w phase" where
  "repeated_call_guard e final cs s =
     (let sig = tool_call_signature (e_marshal e) cs
      in if sig \<noteq> [] \<and> sig = tn_prev_sig s \<and> tn_round s - tn_last_progress s \<ge> 3
         then (case force_edge e (escalate_for_no_progress (tn_round s - tn_last_progress s))
                  EdgeEscalate s of
                 (True, s1) \<Rightarrow>
                   (Some Again, s1\<lparr>tn_cycle_start := tn_round s1, tn_last_progress := tn_round s1,
                                  tn_prev_sig := []\<rparr>)
               | (False, s1) \<Rightarrow>
                   try_green e final
                     (\<lambda>s2. (Some (BreakOut (Some (tn_round s2 - tn_last_progress s2))), s2)) s1)
         else (None, s\<lparr>tn_prev_sig := sig\<rparr>))"

definition mid_flight :: "'w env \<Rightarrow> bool \<Rightarrow> string \<Rightarrow> 'w phase" where
  "mid_flight e mutated final s =
     (if e_opp_every e > 0 \<and> mutated \<and> tn_round s - l_last_opp s \<ge> e_opp_every e
      then (case opportunistic_reconcile e final (s\<lparr>l_last_opp := tn_round s\<rparr>) of
              (Some res, s1) \<Rightarrow> (Some (EndTurnWith res), s1)
            | (None, s1) \<Rightarrow> (Some Again, s1))
      else (Some Again, s))"

definition act_on_calls :: "'w env \<Rightarrow> string \<Rightarrow> call list \<Rightarrow> 'w phase" where
  "act_on_calls e final cs s0 =
     (let s = s0\<lparr>l_transcript := l_transcript s0 @
                [(text_message RoleAssistant final)\<lparr>m_tool_calls := cs\<rparr>]\<rparr>
      in if cs = []
         then (case on_declared_done e final s of
                 (Some res, s1) \<Rightarrow> (Some (EndTurnWith res), s1)
               | (None, s1) \<Rightarrow> (Some Again, s1))
         else (case dispatch_round e cs s of
                 (mutated, elapsed, s1) \<Rightarrow>
                   mid_flight e mutated final
                     (if elapsed > 0 then s1\<lparr>world := e_extend e elapsed (world s1)\<rparr> else s1)))"

definition use_response :: "'w env \<Rightarrow> int \<Rightarrow> response \<Rightarrow> 'w phase" where
  "use_response e sent resp s =
     (case narrated_calls e resp (account_for_call e resp sent s) of
        (cs, s1) \<Rightarrow>
          next_phase (repeated_call_guard e (rs_text resp) cs) (act_on_calls e (rs_text resp) cs) s1)"

definition work_phase :: "'w env \<Rightarrow> 'w phase" where
  "work_phase e s =
     (case call_model e s of
        (sent, Inl err, s1) \<Rightarrow> handle_fault e err s1
      | (sent, Inr resp, s1) \<Rightarrow> use_response e sent resp s1)"

definition run_round :: "'w env \<Rightarrow> 'w phase" where
  "run_round e = next_phase (guard_phases e) (work_phase e)"

subsection \<open>The turn\<close>

text \<open>The code behind the loop, reached by a break.\<close>

definition end_exhausted :: "'w env \<Rightarrow> int option \<Rightarrow> 'w agent \<Rightarrow> turn_outcome \<times> 'w agent" where
  "end_exhausted e detail s =
     (case finish_turn e (s\<lparr>tn_exhausted := True\<rparr>) of
        None \<Rightarrow> (Panicked, s)
      | Some (perr, s1) \<Rightarrow>
          (Failed (base_result perr s1)
             (case detail of None \<Rightarrow> ExceededRounds (e_max_rounds e) | Some n \<Rightarrow> StuckRereading n), s1))"

fun run_rounds :: "'w env \<Rightarrow> nat \<Rightarrow> 'w agent \<Rightarrow> (turn_outcome \<times> 'w agent) option" where
  "run_rounds e 0 s = None"
| "run_rounds e (Suc n) s =
     (case run_round e s of
        (Some (EndTurnWith res), s1) \<Rightarrow> Some (res, s1)
      | (Some (BreakOut detail), s1) \<Rightarrow> Some (end_exhausted e detail s1)
      | (Some Again, s1) \<Rightarrow> run_rounds e n (s1\<lparr>tn_round := tn_round s1 + 1\<rparr>)
      | (None, s1) \<Rightarrow> run_rounds e n (s1\<lparr>tn_round := tn_round s1 + 1\<rparr>))"

definition start_session :: "'w env \<Rightarrow> 'w agent \<Rightarrow> 'w agent" where
  "start_session e s =
     (if l_started s then s
      else (snd (fire_hook e SessionStart (hook_ctx e SessionStart 0 s) s))\<lparr>l_started := True\<rparr>)"

definition start_turn :: "'w agent \<Rightarrow> compaction_event option \<Rightarrow> 'w agent" where
  "start_turn s ev = s\<lparr>tn_turn := l_turns s, l_turns := l_turns s + 1,
     tn_start_len := length (l_transcript s), tn_round := 0, tn_cycle_start := 0,
     tn_last_progress := 0, tn_prev_rung := [], tn_last_spawn := 0, tn_prev_sig := [],
     tn_model := [], tn_dispatches := [], tn_faults := zero_faults, tn_compaction := ev,
     tn_exhausted := False, tn_handoff := False, tn_confidence := None, tn_aborted := False\<rparr>"

definition probe_context ::
  "'w env \<Rightarrow> string \<Rightarrow> 'w agent \<Rightarrow> (string \<rightharpoonup> go_value) option \<times> 'w agent" where
  "probe_context e prompt s =
     (case e_prober e of
        None \<Rightarrow> (None, s)
      | Some p \<Rightarrow> (case p prompt (world s) of (md, w) \<Rightarrow> (md, s\<lparr>world := w\<rparr>)))"

definition receive_prompt :: "'w env \<Rightarrow> string \<Rightarrow> 'w agent \<Rightarrow> 'w agent" where
  "receive_prompt e prompt s =
     (case probe_context e prompt s of
        (md, s1) \<Rightarrow>
          (let h = hook_ctx e PreUserPrompt (tn_turn s1) s1
           in case fire_hook e PreUserPrompt
                (h\<lparr>hc_rest := (hc_rest h)\<lparr>hr_prompt := prompt, hr_metadata := md\<rparr>\<rparr>) s1 of
                (pre, s2) \<Rightarrow>
                  (let s3 = harvest pre (s2\<lparr>l_transcript := l_transcript s2
                              @ map (text_message RoleSystem) (hr_additions (hc_rest pre))\<rparr>);
                       s4 = s3\<lparr>l_transcript := l_transcript s3 @ [text_message RoleUser prompt],
                              l_goal_anchor := (if l_goal_anchor s3 = [] then prompt
                                                else l_goal_anchor s3)\<rparr>
                   in case fire_hook e PreTurn (hook_ctx e PreTurn (tn_turn s4) s4) s4 of
                        (pt, s5) \<Rightarrow> harvest pt s5)))"

definition begin_turn :: "'w env \<Rightarrow> string \<Rightarrow> 'w agent \<Rightarrow> 'w agent" where
  "begin_turn e prompt s =
     (case maybe_compact e (start_session e s) of
        (ev, s1) \<Rightarrow> receive_prompt e prompt (start_turn s1 ev))"

definition stamp_highest :: "router \<Rightarrow> turn_outcome \<Rightarrow> turn_outcome" where
  "stamp_highest r res = (case res of
       Answered t \<Rightarrow> Answered (t\<lparr>tr_highest := highest_model r\<rparr>)
     | Failed t err \<Rightarrow> Failed (t\<lparr>tr_highest := highest_model r\<rparr>) err
     | Panicked \<Rightarrow> Panicked)"

definition run_turn :: "'w env \<Rightarrow> nat \<Rightarrow> string \<Rightarrow> 'w agent \<Rightarrow> (turn_outcome \<times> 'w agent) option" where
  "run_turn e fuel prompt s =
     map_option (\<lambda>(res, s1). (stamp_highest (l_router s1) res, s1))
       (run_rounds e fuel (begin_turn e prompt s))"

definition close_loop :: "'w env \<Rightarrow> 'w agent \<Rightarrow> 'w agent" where
  "close_loop e s =
     (if \<not> l_started s then s
      else (let s1 = snd (fire_hook e Stop (hook_ctx e Stop (l_turns s) s) s)
            in snd (fire_hook e SessionEnd (hook_ctx e SessionEnd (l_turns s1) s1) s1)))"

definition cost :: "'w agent \<Rightarrow> rat \<times> model_total list" where
  "cost s = (total_usd (l_ledger s), breakdown (l_ledger s))"

subsection \<open>Resuming a session\<close>

record stored_message =
  sm_turn :: int
  sm_role :: role
  sm_content :: string

definition replayed :: "stored_message \<Rightarrow> chat_message list" where
  "replayed m = (case sm_role m of
       RoleUser \<Rightarrow> [text_message RoleUser (sm_content m)]
     | RoleAssistant \<Rightarrow>
         if sm_content m \<noteq> [] then [text_message RoleAssistant (sm_content m)] else []
     | _ \<Rightarrow> [])"

definition resume_state :: "stored_message list \<Rightarrow> chat_message list \<times> int" where
  "resume_state ms = (concat (map replayed ms), fold (\<lambda>m k. max (sm_turn m) k) ms (-1) + 1)"

end
