(* ===== verification/Agent_Laws.thy ===== *)
theory Agent_Laws
  imports Agent_Loop Compaction_Laws
begin

text \<open>
  The lemmas on the agent loop: which fields each operation leaves alone, and that a clean result
  of a gated loop comes straight from a run of the gate that passed.
\<close>

subsection \<open>Frames\<close>

text \<open>The operations below change the world and at most the named fields; every other field of the
  loop and of the turn is left as it was.\<close>

lemma record_row_frame [simp]:
  "l_router (record_row e row s) = l_router s" "l_ledger (record_row e row s) = l_ledger s"
  "l_started (record_row e row s) = l_started s" "l_turns (record_row e row s) = l_turns s"
  "l_total_tokens (record_row e row s) = l_total_tokens s"
  "l_compactor (record_row e row s) = l_compactor s"
  "l_goal_anchor (record_row e row s) = l_goal_anchor s"
  "l_summary (record_row e row s) = l_summary s"
  "l_spec_tokens (record_row e row s) = l_spec_tokens s"
  "l_calibrated (record_row e row s) = l_calibrated s"
  "l_narrated_seq (record_row e row s) = l_narrated_seq s"
  "l_verify_rounds (record_row e row s) = l_verify_rounds s"
  "l_last_opp (record_row e row s) = l_last_opp s"
  "l_last_reconcile (record_row e row s) = l_last_reconcile s"
  "l_fab_rounds (record_row e row s) = l_fab_rounds s"
  "l_truncated (record_row e row s) = l_truncated s"
  "l_transcript (record_row e row s) = l_transcript s" "tn_turn (record_row e row s) = tn_turn s"
  "tn_start_len (record_row e row s) = tn_start_len s" "tn_round (record_row e row s) = tn_round s"
  "tn_cycle_start (record_row e row s) = tn_cycle_start s"
  "tn_last_progress (record_row e row s) = tn_last_progress s"
  "tn_prev_rung (record_row e row s) = tn_prev_rung s"
  "tn_last_spawn (record_row e row s) = tn_last_spawn s"
  "tn_prev_sig (record_row e row s) = tn_prev_sig s" "tn_model (record_row e row s) = tn_model s"
  "tn_dispatches (record_row e row s) = tn_dispatches s"
  "tn_faults (record_row e row s) = tn_faults s"
  "tn_compaction (record_row e row s) = tn_compaction s"
  "tn_exhausted (record_row e row s) = tn_exhausted s"
  "tn_handoff (record_row e row s) = tn_handoff s"
  "tn_confidence (record_row e row s) = tn_confidence s"
  "tn_aborted (record_row e row s) = tn_aborted s"
  by (simp_all add: record_row_def)

lemma propose_edge_frame [simp]:
  "l_router (snd (propose_edge e edge s)) = l_router s"
  "l_ledger (snd (propose_edge e edge s)) = l_ledger s"
  "l_started (snd (propose_edge e edge s)) = l_started s"
  "l_turns (snd (propose_edge e edge s)) = l_turns s"
  "l_total_tokens (snd (propose_edge e edge s)) = l_total_tokens s"
  "l_compactor (snd (propose_edge e edge s)) = l_compactor s"
  "l_goal_anchor (snd (propose_edge e edge s)) = l_goal_anchor s"
  "l_summary (snd (propose_edge e edge s)) = l_summary s"
  "l_spec_tokens (snd (propose_edge e edge s)) = l_spec_tokens s"
  "l_calibrated (snd (propose_edge e edge s)) = l_calibrated s"
  "l_narrated_seq (snd (propose_edge e edge s)) = l_narrated_seq s"
  "l_verify_rounds (snd (propose_edge e edge s)) = l_verify_rounds s"
  "l_last_opp (snd (propose_edge e edge s)) = l_last_opp s"
  "l_last_reconcile (snd (propose_edge e edge s)) = l_last_reconcile s"
  "l_fab_rounds (snd (propose_edge e edge s)) = l_fab_rounds s"
  "l_truncated (snd (propose_edge e edge s)) = l_truncated s"
  "l_transcript (snd (propose_edge e edge s)) = l_transcript s"
  "tn_turn (snd (propose_edge e edge s)) = tn_turn s"
  "tn_start_len (snd (propose_edge e edge s)) = tn_start_len s"
  "tn_round (snd (propose_edge e edge s)) = tn_round s"
  "tn_cycle_start (snd (propose_edge e edge s)) = tn_cycle_start s"
  "tn_last_progress (snd (propose_edge e edge s)) = tn_last_progress s"
  "tn_prev_rung (snd (propose_edge e edge s)) = tn_prev_rung s"
  "tn_last_spawn (snd (propose_edge e edge s)) = tn_last_spawn s"
  "tn_prev_sig (snd (propose_edge e edge s)) = tn_prev_sig s"
  "tn_model (snd (propose_edge e edge s)) = tn_model s"
  "tn_dispatches (snd (propose_edge e edge s)) = tn_dispatches s"
  "tn_faults (snd (propose_edge e edge s)) = tn_faults s"
  "tn_compaction (snd (propose_edge e edge s)) = tn_compaction s"
  "tn_exhausted (snd (propose_edge e edge s)) = tn_exhausted s"
  "tn_handoff (snd (propose_edge e edge s)) = tn_handoff s"
  "tn_confidence (snd (propose_edge e edge s)) = tn_confidence s"
  "tn_aborted (snd (propose_edge e edge s)) = tn_aborted s"
  by (simp_all add: propose_edge_def split: option.splits prod.splits)

lemma record_edge_frame [simp]:
  "l_router (record_escalation_edge e edge s) = l_router s"
  "l_ledger (record_escalation_edge e edge s) = l_ledger s"
  "l_started (record_escalation_edge e edge s) = l_started s"
  "l_turns (record_escalation_edge e edge s) = l_turns s"
  "l_total_tokens (record_escalation_edge e edge s) = l_total_tokens s"
  "l_compactor (record_escalation_edge e edge s) = l_compactor s"
  "l_goal_anchor (record_escalation_edge e edge s) = l_goal_anchor s"
  "l_summary (record_escalation_edge e edge s) = l_summary s"
  "l_spec_tokens (record_escalation_edge e edge s) = l_spec_tokens s"
  "l_calibrated (record_escalation_edge e edge s) = l_calibrated s"
  "l_narrated_seq (record_escalation_edge e edge s) = l_narrated_seq s"
  "l_verify_rounds (record_escalation_edge e edge s) = l_verify_rounds s"
  "l_last_opp (record_escalation_edge e edge s) = l_last_opp s"
  "l_last_reconcile (record_escalation_edge e edge s) = l_last_reconcile s"
  "l_fab_rounds (record_escalation_edge e edge s) = l_fab_rounds s"
  "l_truncated (record_escalation_edge e edge s) = l_truncated s"
  "l_transcript (record_escalation_edge e edge s) = l_transcript s"
  "tn_turn (record_escalation_edge e edge s) = tn_turn s"
  "tn_start_len (record_escalation_edge e edge s) = tn_start_len s"
  "tn_round (record_escalation_edge e edge s) = tn_round s"
  "tn_cycle_start (record_escalation_edge e edge s) = tn_cycle_start s"
  "tn_last_progress (record_escalation_edge e edge s) = tn_last_progress s"
  "tn_prev_rung (record_escalation_edge e edge s) = tn_prev_rung s"
  "tn_last_spawn (record_escalation_edge e edge s) = tn_last_spawn s"
  "tn_prev_sig (record_escalation_edge e edge s) = tn_prev_sig s"
  "tn_model (record_escalation_edge e edge s) = tn_model s"
  "tn_dispatches (record_escalation_edge e edge s) = tn_dispatches s"
  "tn_faults (record_escalation_edge e edge s) = tn_faults s"
  "tn_compaction (record_escalation_edge e edge s) = tn_compaction s"
  "tn_exhausted (record_escalation_edge e edge s) = tn_exhausted s"
  "tn_handoff (record_escalation_edge e edge s) = tn_handoff s"
  "tn_confidence (record_escalation_edge e edge s) = tn_confidence s"
  "tn_aborted (record_escalation_edge e edge s) = tn_aborted s"
  by (simp_all add: record_escalation_edge_def case_prod_beta)

lemma force_edge_frame [simp]:
  "l_ledger (snd (force_edge e move want s)) = l_ledger s"
  "l_started (snd (force_edge e move want s)) = l_started s"
  "l_turns (snd (force_edge e move want s)) = l_turns s"
  "l_total_tokens (snd (force_edge e move want s)) = l_total_tokens s"
  "l_compactor (snd (force_edge e move want s)) = l_compactor s"
  "l_goal_anchor (snd (force_edge e move want s)) = l_goal_anchor s"
  "l_summary (snd (force_edge e move want s)) = l_summary s"
  "l_spec_tokens (snd (force_edge e move want s)) = l_spec_tokens s"
  "l_calibrated (snd (force_edge e move want s)) = l_calibrated s"
  "l_narrated_seq (snd (force_edge e move want s)) = l_narrated_seq s"
  "l_verify_rounds (snd (force_edge e move want s)) = l_verify_rounds s"
  "l_last_opp (snd (force_edge e move want s)) = l_last_opp s"
  "l_last_reconcile (snd (force_edge e move want s)) = l_last_reconcile s"
  "l_fab_rounds (snd (force_edge e move want s)) = l_fab_rounds s"
  "l_truncated (snd (force_edge e move want s)) = l_truncated s"
  "l_transcript (snd (force_edge e move want s)) = l_transcript s"
  "tn_turn (snd (force_edge e move want s)) = tn_turn s"
  "tn_start_len (snd (force_edge e move want s)) = tn_start_len s"
  "tn_round (snd (force_edge e move want s)) = tn_round s"
  "tn_cycle_start (snd (force_edge e move want s)) = tn_cycle_start s"
  "tn_last_progress (snd (force_edge e move want s)) = tn_last_progress s"
  "tn_prev_rung (snd (force_edge e move want s)) = tn_prev_rung s"
  "tn_last_spawn (snd (force_edge e move want s)) = tn_last_spawn s"
  "tn_prev_sig (snd (force_edge e move want s)) = tn_prev_sig s"
  "tn_model (snd (force_edge e move want s)) = tn_model s"
  "tn_dispatches (snd (force_edge e move want s)) = tn_dispatches s"
  "tn_faults (snd (force_edge e move want s)) = tn_faults s"
  "tn_compaction (snd (force_edge e move want s)) = tn_compaction s"
  "tn_exhausted (snd (force_edge e move want s)) = tn_exhausted s"
  "tn_handoff (snd (force_edge e move want s)) = tn_handoff s"
  "tn_confidence (snd (force_edge e move want s)) = tn_confidence s"
  "tn_aborted (snd (force_edge e move want s)) = tn_aborted s"
  by (simp_all add: force_edge_def split: prod.splits)

lemma fire_hook_frame [simp]:
  "l_router (snd (fire_hook e kind ctx s)) = l_router s"
  "l_ledger (snd (fire_hook e kind ctx s)) = l_ledger s"
  "l_started (snd (fire_hook e kind ctx s)) = l_started s"
  "l_turns (snd (fire_hook e kind ctx s)) = l_turns s"
  "l_total_tokens (snd (fire_hook e kind ctx s)) = l_total_tokens s"
  "l_compactor (snd (fire_hook e kind ctx s)) = l_compactor s"
  "l_goal_anchor (snd (fire_hook e kind ctx s)) = l_goal_anchor s"
  "l_summary (snd (fire_hook e kind ctx s)) = l_summary s"
  "l_spec_tokens (snd (fire_hook e kind ctx s)) = l_spec_tokens s"
  "l_calibrated (snd (fire_hook e kind ctx s)) = l_calibrated s"
  "l_narrated_seq (snd (fire_hook e kind ctx s)) = l_narrated_seq s"
  "l_verify_rounds (snd (fire_hook e kind ctx s)) = l_verify_rounds s"
  "l_last_opp (snd (fire_hook e kind ctx s)) = l_last_opp s"
  "l_last_reconcile (snd (fire_hook e kind ctx s)) = l_last_reconcile s"
  "l_fab_rounds (snd (fire_hook e kind ctx s)) = l_fab_rounds s"
  "l_truncated (snd (fire_hook e kind ctx s)) = l_truncated s"
  "tn_turn (snd (fire_hook e kind ctx s)) = tn_turn s"
  "tn_start_len (snd (fire_hook e kind ctx s)) = tn_start_len s"
  "tn_round (snd (fire_hook e kind ctx s)) = tn_round s"
  "tn_cycle_start (snd (fire_hook e kind ctx s)) = tn_cycle_start s"
  "tn_last_progress (snd (fire_hook e kind ctx s)) = tn_last_progress s"
  "tn_prev_rung (snd (fire_hook e kind ctx s)) = tn_prev_rung s"
  "tn_last_spawn (snd (fire_hook e kind ctx s)) = tn_last_spawn s"
  "tn_prev_sig (snd (fire_hook e kind ctx s)) = tn_prev_sig s"
  "tn_model (snd (fire_hook e kind ctx s)) = tn_model s"
  "tn_dispatches (snd (fire_hook e kind ctx s)) = tn_dispatches s"
  "tn_faults (snd (fire_hook e kind ctx s)) = tn_faults s"
  "tn_compaction (snd (fire_hook e kind ctx s)) = tn_compaction s"
  "tn_exhausted (snd (fire_hook e kind ctx s)) = tn_exhausted s"
  "tn_handoff (snd (fire_hook e kind ctx s)) = tn_handoff s"
  "tn_confidence (snd (fire_hook e kind ctx s)) = tn_confidence s"
  "tn_aborted (snd (fire_hook e kind ctx s)) = tn_aborted s"
  by (simp_all add: fire_hook_def Let_def)

lemma harvest_frame [simp]:
  "l_router (harvest ctx s) = l_router s" "l_ledger (harvest ctx s) = l_ledger s"
  "l_started (harvest ctx s) = l_started s" "l_turns (harvest ctx s) = l_turns s"
  "l_total_tokens (harvest ctx s) = l_total_tokens s" "l_compactor (harvest ctx s) = l_compactor s"
  "l_goal_anchor (harvest ctx s) = l_goal_anchor s" "l_summary (harvest ctx s) = l_summary s"
  "l_spec_tokens (harvest ctx s) = l_spec_tokens s" "l_calibrated (harvest ctx s) = l_calibrated s"
  "l_narrated_seq (harvest ctx s) = l_narrated_seq s"
  "l_verify_rounds (harvest ctx s) = l_verify_rounds s" "l_last_opp (harvest ctx s) = l_last_opp s"
  "l_last_reconcile (harvest ctx s) = l_last_reconcile s"
  "l_fab_rounds (harvest ctx s) = l_fab_rounds s" "l_truncated (harvest ctx s) = l_truncated s"
  "l_transcript (harvest ctx s) = l_transcript s" "tn_turn (harvest ctx s) = tn_turn s"
  "tn_start_len (harvest ctx s) = tn_start_len s" "tn_round (harvest ctx s) = tn_round s"
  "tn_cycle_start (harvest ctx s) = tn_cycle_start s"
  "tn_last_progress (harvest ctx s) = tn_last_progress s"
  "tn_prev_rung (harvest ctx s) = tn_prev_rung s" "tn_last_spawn (harvest ctx s) = tn_last_spawn s"
  "tn_prev_sig (harvest ctx s) = tn_prev_sig s" "tn_model (harvest ctx s) = tn_model s"
  "tn_dispatches (harvest ctx s) = tn_dispatches s" "tn_faults (harvest ctx s) = tn_faults s"
  "tn_compaction (harvest ctx s) = tn_compaction s" "tn_exhausted (harvest ctx s) = tn_exhausted s"
  "tn_aborted (harvest ctx s) = tn_aborted s"
  by (simp_all add: harvest_def)

lemma gate_frame [simp]:
  "l_router (snd (verify_scoped_gate e det g s)) = l_router s"
  "l_ledger (snd (verify_scoped_gate e det g s)) = l_ledger s"
  "l_started (snd (verify_scoped_gate e det g s)) = l_started s"
  "l_turns (snd (verify_scoped_gate e det g s)) = l_turns s"
  "l_total_tokens (snd (verify_scoped_gate e det g s)) = l_total_tokens s"
  "l_compactor (snd (verify_scoped_gate e det g s)) = l_compactor s"
  "l_goal_anchor (snd (verify_scoped_gate e det g s)) = l_goal_anchor s"
  "l_summary (snd (verify_scoped_gate e det g s)) = l_summary s"
  "l_spec_tokens (snd (verify_scoped_gate e det g s)) = l_spec_tokens s"
  "l_calibrated (snd (verify_scoped_gate e det g s)) = l_calibrated s"
  "l_narrated_seq (snd (verify_scoped_gate e det g s)) = l_narrated_seq s"
  "l_verify_rounds (snd (verify_scoped_gate e det g s)) = l_verify_rounds s"
  "l_last_opp (snd (verify_scoped_gate e det g s)) = l_last_opp s"
  "l_last_reconcile (snd (verify_scoped_gate e det g s)) = l_last_reconcile s"
  "l_fab_rounds (snd (verify_scoped_gate e det g s)) = l_fab_rounds s"
  "l_truncated (snd (verify_scoped_gate e det g s)) = l_truncated s"
  "l_transcript (snd (verify_scoped_gate e det g s)) = l_transcript s"
  "tn_turn (snd (verify_scoped_gate e det g s)) = tn_turn s"
  "tn_start_len (snd (verify_scoped_gate e det g s)) = tn_start_len s"
  "tn_round (snd (verify_scoped_gate e det g s)) = tn_round s"
  "tn_cycle_start (snd (verify_scoped_gate e det g s)) = tn_cycle_start s"
  "tn_last_progress (snd (verify_scoped_gate e det g s)) = tn_last_progress s"
  "tn_prev_rung (snd (verify_scoped_gate e det g s)) = tn_prev_rung s"
  "tn_last_spawn (snd (verify_scoped_gate e det g s)) = tn_last_spawn s"
  "tn_prev_sig (snd (verify_scoped_gate e det g s)) = tn_prev_sig s"
  "tn_model (snd (verify_scoped_gate e det g s)) = tn_model s"
  "tn_dispatches (snd (verify_scoped_gate e det g s)) = tn_dispatches s"
  "tn_faults (snd (verify_scoped_gate e det g s)) = tn_faults s"
  "tn_compaction (snd (verify_scoped_gate e det g s)) = tn_compaction s"
  "tn_exhausted (snd (verify_scoped_gate e det g s)) = tn_exhausted s"
  "tn_handoff (snd (verify_scoped_gate e det g s)) = tn_handoff s"
  "tn_confidence (snd (verify_scoped_gate e det g s)) = tn_confidence s"
  "tn_aborted (snd (verify_scoped_gate e det g s)) = tn_aborted s"
  by (simp_all add: verify_scoped_gate_def split: prod.splits)

lemma sync_frame [simp]:
  "l_router (sync_budget_to_rung e s) = l_router s"
  "l_ledger (sync_budget_to_rung e s) = l_ledger s"
  "l_started (sync_budget_to_rung e s) = l_started s"
  "l_turns (sync_budget_to_rung e s) = l_turns s"
  "l_total_tokens (sync_budget_to_rung e s) = l_total_tokens s"
  "l_goal_anchor (sync_budget_to_rung e s) = l_goal_anchor s"
  "l_summary (sync_budget_to_rung e s) = l_summary s"
  "l_spec_tokens (sync_budget_to_rung e s) = l_spec_tokens s"
  "l_calibrated (sync_budget_to_rung e s) = l_calibrated s"
  "l_narrated_seq (sync_budget_to_rung e s) = l_narrated_seq s"
  "l_verify_rounds (sync_budget_to_rung e s) = l_verify_rounds s"
  "l_last_opp (sync_budget_to_rung e s) = l_last_opp s"
  "l_last_reconcile (sync_budget_to_rung e s) = l_last_reconcile s"
  "l_fab_rounds (sync_budget_to_rung e s) = l_fab_rounds s"
  "l_truncated (sync_budget_to_rung e s) = l_truncated s"
  "l_transcript (sync_budget_to_rung e s) = l_transcript s"
  "tn_turn (sync_budget_to_rung e s) = tn_turn s"
  "tn_start_len (sync_budget_to_rung e s) = tn_start_len s"
  "tn_round (sync_budget_to_rung e s) = tn_round s"
  "tn_cycle_start (sync_budget_to_rung e s) = tn_cycle_start s"
  "tn_last_progress (sync_budget_to_rung e s) = tn_last_progress s"
  "tn_prev_rung (sync_budget_to_rung e s) = tn_prev_rung s"
  "tn_last_spawn (sync_budget_to_rung e s) = tn_last_spawn s"
  "tn_prev_sig (sync_budget_to_rung e s) = tn_prev_sig s"
  "tn_model (sync_budget_to_rung e s) = tn_model s"
  "tn_dispatches (sync_budget_to_rung e s) = tn_dispatches s"
  "tn_faults (sync_budget_to_rung e s) = tn_faults s"
  "tn_compaction (sync_budget_to_rung e s) = tn_compaction s"
  "tn_exhausted (sync_budget_to_rung e s) = tn_exhausted s"
  "tn_handoff (sync_budget_to_rung e s) = tn_handoff s"
  "tn_confidence (sync_budget_to_rung e s) = tn_confidence s"
  "tn_aborted (sync_budget_to_rung e s) = tn_aborted s"
  by (simp_all add: sync_budget_to_rung_def Let_def split: option.splits)

lemma bound_frame [simp]:
  "l_router (bound_within_turn e s) = l_router s" "l_ledger (bound_within_turn e s) = l_ledger s"
  "l_started (bound_within_turn e s) = l_started s" "l_turns (bound_within_turn e s) = l_turns s"
  "l_total_tokens (bound_within_turn e s) = l_total_tokens s"
  "l_compactor (bound_within_turn e s) = l_compactor s"
  "l_goal_anchor (bound_within_turn e s) = l_goal_anchor s"
  "l_summary (bound_within_turn e s) = l_summary s"
  "l_spec_tokens (bound_within_turn e s) = l_spec_tokens s"
  "l_calibrated (bound_within_turn e s) = l_calibrated s"
  "l_narrated_seq (bound_within_turn e s) = l_narrated_seq s"
  "l_verify_rounds (bound_within_turn e s) = l_verify_rounds s"
  "l_last_opp (bound_within_turn e s) = l_last_opp s"
  "l_last_reconcile (bound_within_turn e s) = l_last_reconcile s"
  "l_fab_rounds (bound_within_turn e s) = l_fab_rounds s"
  "l_truncated (bound_within_turn e s) = l_truncated s"
  "tn_turn (bound_within_turn e s) = tn_turn s"
  "tn_start_len (bound_within_turn e s) = tn_start_len s"
  "tn_round (bound_within_turn e s) = tn_round s"
  "tn_cycle_start (bound_within_turn e s) = tn_cycle_start s"
  "tn_last_progress (bound_within_turn e s) = tn_last_progress s"
  "tn_prev_rung (bound_within_turn e s) = tn_prev_rung s"
  "tn_last_spawn (bound_within_turn e s) = tn_last_spawn s"
  "tn_prev_sig (bound_within_turn e s) = tn_prev_sig s"
  "tn_model (bound_within_turn e s) = tn_model s"
  "tn_dispatches (bound_within_turn e s) = tn_dispatches s"
  "tn_faults (bound_within_turn e s) = tn_faults s"
  "tn_exhausted (bound_within_turn e s) = tn_exhausted s"
  "tn_handoff (bound_within_turn e s) = tn_handoff s"
  "tn_confidence (bound_within_turn e s) = tn_confidence s"
  "tn_aborted (bound_within_turn e s) = tn_aborted s"
  by (simp_all add: bound_within_turn_def Let_def split: option.splits prod.splits)

lemma anchor_frame [simp]:
  "l_router (anchor_goal s) = l_router s" "l_ledger (anchor_goal s) = l_ledger s"
  "l_started (anchor_goal s) = l_started s" "l_turns (anchor_goal s) = l_turns s"
  "l_total_tokens (anchor_goal s) = l_total_tokens s" "l_compactor (anchor_goal s) = l_compactor s"
  "l_summary (anchor_goal s) = l_summary s" "l_spec_tokens (anchor_goal s) = l_spec_tokens s"
  "l_calibrated (anchor_goal s) = l_calibrated s"
  "l_narrated_seq (anchor_goal s) = l_narrated_seq s"
  "l_verify_rounds (anchor_goal s) = l_verify_rounds s" "l_last_opp (anchor_goal s) = l_last_opp s"
  "l_last_reconcile (anchor_goal s) = l_last_reconcile s"
  "l_fab_rounds (anchor_goal s) = l_fab_rounds s" "l_truncated (anchor_goal s) = l_truncated s"
  "l_transcript (anchor_goal s) = l_transcript s" "tn_turn (anchor_goal s) = tn_turn s"
  "tn_start_len (anchor_goal s) = tn_start_len s" "tn_round (anchor_goal s) = tn_round s"
  "tn_cycle_start (anchor_goal s) = tn_cycle_start s"
  "tn_last_progress (anchor_goal s) = tn_last_progress s"
  "tn_prev_rung (anchor_goal s) = tn_prev_rung s" "tn_last_spawn (anchor_goal s) = tn_last_spawn s"
  "tn_prev_sig (anchor_goal s) = tn_prev_sig s" "tn_model (anchor_goal s) = tn_model s"
  "tn_dispatches (anchor_goal s) = tn_dispatches s" "tn_faults (anchor_goal s) = tn_faults s"
  "tn_compaction (anchor_goal s) = tn_compaction s" "tn_exhausted (anchor_goal s) = tn_exhausted s"
  "tn_handoff (anchor_goal s) = tn_handoff s" "tn_confidence (anchor_goal s) = tn_confidence s"
  "tn_aborted (anchor_goal s) = tn_aborted s"
  by (simp_all add: anchor_goal_def)

lemma rewrite_frame [simp]:
  "l_router (snd (rewrite_to e c b r s)) = l_router s"
  "l_ledger (snd (rewrite_to e c b r s)) = l_ledger s"
  "l_started (snd (rewrite_to e c b r s)) = l_started s"
  "l_turns (snd (rewrite_to e c b r s)) = l_turns s"
  "l_total_tokens (snd (rewrite_to e c b r s)) = l_total_tokens s"
  "l_compactor (snd (rewrite_to e c b r s)) = l_compactor s"
  "l_goal_anchor (snd (rewrite_to e c b r s)) = l_goal_anchor s"
  "l_spec_tokens (snd (rewrite_to e c b r s)) = l_spec_tokens s"
  "l_calibrated (snd (rewrite_to e c b r s)) = l_calibrated s"
  "l_narrated_seq (snd (rewrite_to e c b r s)) = l_narrated_seq s"
  "l_verify_rounds (snd (rewrite_to e c b r s)) = l_verify_rounds s"
  "l_last_opp (snd (rewrite_to e c b r s)) = l_last_opp s"
  "l_last_reconcile (snd (rewrite_to e c b r s)) = l_last_reconcile s"
  "l_fab_rounds (snd (rewrite_to e c b r s)) = l_fab_rounds s"
  "l_truncated (snd (rewrite_to e c b r s)) = l_truncated s"
  "tn_turn (snd (rewrite_to e c b r s)) = tn_turn s"
  "tn_start_len (snd (rewrite_to e c b r s)) = tn_start_len s"
  "tn_round (snd (rewrite_to e c b r s)) = tn_round s"
  "tn_cycle_start (snd (rewrite_to e c b r s)) = tn_cycle_start s"
  "tn_last_progress (snd (rewrite_to e c b r s)) = tn_last_progress s"
  "tn_prev_rung (snd (rewrite_to e c b r s)) = tn_prev_rung s"
  "tn_last_spawn (snd (rewrite_to e c b r s)) = tn_last_spawn s"
  "tn_prev_sig (snd (rewrite_to e c b r s)) = tn_prev_sig s"
  "tn_model (snd (rewrite_to e c b r s)) = tn_model s"
  "tn_dispatches (snd (rewrite_to e c b r s)) = tn_dispatches s"
  "tn_faults (snd (rewrite_to e c b r s)) = tn_faults s"
  "tn_compaction (snd (rewrite_to e c b r s)) = tn_compaction s"
  "tn_exhausted (snd (rewrite_to e c b r s)) = tn_exhausted s"
  "tn_handoff (snd (rewrite_to e c b r s)) = tn_handoff s"
  "tn_confidence (snd (rewrite_to e c b r s)) = tn_confidence s"
  "tn_aborted (snd (rewrite_to e c b r s)) = tn_aborted s"
  by (simp_all add: rewrite_to_def split: prod.splits)

lemma force_compact_frame [simp]:
  "l_router (snd (force_compact e n s)) = l_router s"
  "l_ledger (snd (force_compact e n s)) = l_ledger s"
  "l_started (snd (force_compact e n s)) = l_started s"
  "l_turns (snd (force_compact e n s)) = l_turns s"
  "l_total_tokens (snd (force_compact e n s)) = l_total_tokens s"
  "l_compactor (snd (force_compact e n s)) = l_compactor s"
  "l_spec_tokens (snd (force_compact e n s)) = l_spec_tokens s"
  "l_calibrated (snd (force_compact e n s)) = l_calibrated s"
  "l_narrated_seq (snd (force_compact e n s)) = l_narrated_seq s"
  "l_verify_rounds (snd (force_compact e n s)) = l_verify_rounds s"
  "l_last_opp (snd (force_compact e n s)) = l_last_opp s"
  "l_last_reconcile (snd (force_compact e n s)) = l_last_reconcile s"
  "l_fab_rounds (snd (force_compact e n s)) = l_fab_rounds s"
  "l_truncated (snd (force_compact e n s)) = l_truncated s"
  "tn_turn (snd (force_compact e n s)) = tn_turn s"
  "tn_start_len (snd (force_compact e n s)) = tn_start_len s"
  "tn_round (snd (force_compact e n s)) = tn_round s"
  "tn_cycle_start (snd (force_compact e n s)) = tn_cycle_start s"
  "tn_last_progress (snd (force_compact e n s)) = tn_last_progress s"
  "tn_prev_rung (snd (force_compact e n s)) = tn_prev_rung s"
  "tn_last_spawn (snd (force_compact e n s)) = tn_last_spawn s"
  "tn_prev_sig (snd (force_compact e n s)) = tn_prev_sig s"
  "tn_model (snd (force_compact e n s)) = tn_model s"
  "tn_dispatches (snd (force_compact e n s)) = tn_dispatches s"
  "tn_faults (snd (force_compact e n s)) = tn_faults s"
  "tn_compaction (snd (force_compact e n s)) = tn_compaction s"
  "tn_exhausted (snd (force_compact e n s)) = tn_exhausted s"
  "tn_handoff (snd (force_compact e n s)) = tn_handoff s"
  "tn_confidence (snd (force_compact e n s)) = tn_confidence s"
  "tn_aborted (snd (force_compact e n s)) = tn_aborted s"
  by (simp_all add: force_compact_def split: option.splits)

lemma maybe_compact_frame [simp]:
  "l_router (snd (maybe_compact e s)) = l_router s"
  "l_ledger (snd (maybe_compact e s)) = l_ledger s"
  "l_started (snd (maybe_compact e s)) = l_started s"
  "l_turns (snd (maybe_compact e s)) = l_turns s"
  "l_total_tokens (snd (maybe_compact e s)) = l_total_tokens s"
  "l_compactor (snd (maybe_compact e s)) = l_compactor s"
  "l_spec_tokens (snd (maybe_compact e s)) = l_spec_tokens s"
  "l_calibrated (snd (maybe_compact e s)) = l_calibrated s"
  "l_narrated_seq (snd (maybe_compact e s)) = l_narrated_seq s"
  "l_verify_rounds (snd (maybe_compact e s)) = l_verify_rounds s"
  "l_last_opp (snd (maybe_compact e s)) = l_last_opp s"
  "l_last_reconcile (snd (maybe_compact e s)) = l_last_reconcile s"
  "l_fab_rounds (snd (maybe_compact e s)) = l_fab_rounds s"
  "l_truncated (snd (maybe_compact e s)) = l_truncated s"
  "tn_turn (snd (maybe_compact e s)) = tn_turn s"
  "tn_start_len (snd (maybe_compact e s)) = tn_start_len s"
  "tn_round (snd (maybe_compact e s)) = tn_round s"
  "tn_cycle_start (snd (maybe_compact e s)) = tn_cycle_start s"
  "tn_last_progress (snd (maybe_compact e s)) = tn_last_progress s"
  "tn_prev_rung (snd (maybe_compact e s)) = tn_prev_rung s"
  "tn_last_spawn (snd (maybe_compact e s)) = tn_last_spawn s"
  "tn_prev_sig (snd (maybe_compact e s)) = tn_prev_sig s"
  "tn_model (snd (maybe_compact e s)) = tn_model s"
  "tn_dispatches (snd (maybe_compact e s)) = tn_dispatches s"
  "tn_faults (snd (maybe_compact e s)) = tn_faults s"
  "tn_compaction (snd (maybe_compact e s)) = tn_compaction s"
  "tn_exhausted (snd (maybe_compact e s)) = tn_exhausted s"
  "tn_handoff (snd (maybe_compact e s)) = tn_handoff s"
  "tn_confidence (snd (maybe_compact e s)) = tn_confidence s"
  "tn_aborted (snd (maybe_compact e s)) = tn_aborted s"
  by (simp_all add: maybe_compact_def split: option.splits)

lemma track_frame [simp]:
  "l_router (track_truncated_view e c raw s) = l_router s"
  "l_ledger (track_truncated_view e c raw s) = l_ledger s"
  "l_started (track_truncated_view e c raw s) = l_started s"
  "l_turns (track_truncated_view e c raw s) = l_turns s"
  "l_total_tokens (track_truncated_view e c raw s) = l_total_tokens s"
  "l_compactor (track_truncated_view e c raw s) = l_compactor s"
  "l_goal_anchor (track_truncated_view e c raw s) = l_goal_anchor s"
  "l_summary (track_truncated_view e c raw s) = l_summary s"
  "l_spec_tokens (track_truncated_view e c raw s) = l_spec_tokens s"
  "l_calibrated (track_truncated_view e c raw s) = l_calibrated s"
  "l_narrated_seq (track_truncated_view e c raw s) = l_narrated_seq s"
  "l_verify_rounds (track_truncated_view e c raw s) = l_verify_rounds s"
  "l_last_opp (track_truncated_view e c raw s) = l_last_opp s"
  "l_last_reconcile (track_truncated_view e c raw s) = l_last_reconcile s"
  "l_fab_rounds (track_truncated_view e c raw s) = l_fab_rounds s"
  "l_transcript (track_truncated_view e c raw s) = l_transcript s"
  "tn_turn (track_truncated_view e c raw s) = tn_turn s"
  "tn_start_len (track_truncated_view e c raw s) = tn_start_len s"
  "tn_round (track_truncated_view e c raw s) = tn_round s"
  "tn_cycle_start (track_truncated_view e c raw s) = tn_cycle_start s"
  "tn_last_progress (track_truncated_view e c raw s) = tn_last_progress s"
  "tn_prev_rung (track_truncated_view e c raw s) = tn_prev_rung s"
  "tn_last_spawn (track_truncated_view e c raw s) = tn_last_spawn s"
  "tn_prev_sig (track_truncated_view e c raw s) = tn_prev_sig s"
  "tn_model (track_truncated_view e c raw s) = tn_model s"
  "tn_dispatches (track_truncated_view e c raw s) = tn_dispatches s"
  "tn_faults (track_truncated_view e c raw s) = tn_faults s"
  "tn_compaction (track_truncated_view e c raw s) = tn_compaction s"
  "tn_exhausted (track_truncated_view e c raw s) = tn_exhausted s"
  "tn_handoff (track_truncated_view e c raw s) = tn_handoff s"
  "tn_confidence (track_truncated_view e c raw s) = tn_confidence s"
  "tn_aborted (track_truncated_view e c raw s) = tn_aborted s"
  by (simp_all add: track_truncated_view_def Let_def)

lemma calibrate_frame [simp]:
  "l_router (calibrate resp sent s) = l_router s" "l_ledger (calibrate resp sent s) = l_ledger s"
  "l_started (calibrate resp sent s) = l_started s" "l_turns (calibrate resp sent s) = l_turns s"
  "l_total_tokens (calibrate resp sent s) = l_total_tokens s"
  "l_goal_anchor (calibrate resp sent s) = l_goal_anchor s"
  "l_summary (calibrate resp sent s) = l_summary s"
  "l_narrated_seq (calibrate resp sent s) = l_narrated_seq s"
  "l_verify_rounds (calibrate resp sent s) = l_verify_rounds s"
  "l_last_opp (calibrate resp sent s) = l_last_opp s"
  "l_last_reconcile (calibrate resp sent s) = l_last_reconcile s"
  "l_fab_rounds (calibrate resp sent s) = l_fab_rounds s"
  "l_truncated (calibrate resp sent s) = l_truncated s"
  "l_transcript (calibrate resp sent s) = l_transcript s"
  "tn_turn (calibrate resp sent s) = tn_turn s"
  "tn_start_len (calibrate resp sent s) = tn_start_len s"
  "tn_round (calibrate resp sent s) = tn_round s"
  "tn_cycle_start (calibrate resp sent s) = tn_cycle_start s"
  "tn_last_progress (calibrate resp sent s) = tn_last_progress s"
  "tn_prev_rung (calibrate resp sent s) = tn_prev_rung s"
  "tn_last_spawn (calibrate resp sent s) = tn_last_spawn s"
  "tn_prev_sig (calibrate resp sent s) = tn_prev_sig s"
  "tn_model (calibrate resp sent s) = tn_model s"
  "tn_dispatches (calibrate resp sent s) = tn_dispatches s"
  "tn_faults (calibrate resp sent s) = tn_faults s"
  "tn_compaction (calibrate resp sent s) = tn_compaction s"
  "tn_exhausted (calibrate resp sent s) = tn_exhausted s"
  "tn_handoff (calibrate resp sent s) = tn_handoff s"
  "tn_confidence (calibrate resp sent s) = tn_confidence s"
  "tn_aborted (calibrate resp sent s) = tn_aborted s"
  by (simp_all add: calibrate_def Let_def split: option.splits)

lemma resolve_frame [simp]:
  "l_router (snd (resolve_call e ctx c s)) = l_router s"
  "l_ledger (snd (resolve_call e ctx c s)) = l_ledger s"
  "l_started (snd (resolve_call e ctx c s)) = l_started s"
  "l_turns (snd (resolve_call e ctx c s)) = l_turns s"
  "l_total_tokens (snd (resolve_call e ctx c s)) = l_total_tokens s"
  "l_compactor (snd (resolve_call e ctx c s)) = l_compactor s"
  "l_goal_anchor (snd (resolve_call e ctx c s)) = l_goal_anchor s"
  "l_summary (snd (resolve_call e ctx c s)) = l_summary s"
  "l_spec_tokens (snd (resolve_call e ctx c s)) = l_spec_tokens s"
  "l_calibrated (snd (resolve_call e ctx c s)) = l_calibrated s"
  "l_narrated_seq (snd (resolve_call e ctx c s)) = l_narrated_seq s"
  "l_verify_rounds (snd (resolve_call e ctx c s)) = l_verify_rounds s"
  "l_last_opp (snd (resolve_call e ctx c s)) = l_last_opp s"
  "l_last_reconcile (snd (resolve_call e ctx c s)) = l_last_reconcile s"
  "l_fab_rounds (snd (resolve_call e ctx c s)) = l_fab_rounds s"
  "l_truncated (snd (resolve_call e ctx c s)) = l_truncated s"
  "l_transcript (snd (resolve_call e ctx c s)) = l_transcript s"
  "tn_turn (snd (resolve_call e ctx c s)) = tn_turn s"
  "tn_start_len (snd (resolve_call e ctx c s)) = tn_start_len s"
  "tn_round (snd (resolve_call e ctx c s)) = tn_round s"
  "tn_cycle_start (snd (resolve_call e ctx c s)) = tn_cycle_start s"
  "tn_last_progress (snd (resolve_call e ctx c s)) = tn_last_progress s"
  "tn_prev_rung (snd (resolve_call e ctx c s)) = tn_prev_rung s"
  "tn_last_spawn (snd (resolve_call e ctx c s)) = tn_last_spawn s"
  "tn_prev_sig (snd (resolve_call e ctx c s)) = tn_prev_sig s"
  "tn_model (snd (resolve_call e ctx c s)) = tn_model s"
  "tn_dispatches (snd (resolve_call e ctx c s)) = tn_dispatches s"
  "tn_faults (snd (resolve_call e ctx c s)) = tn_faults s"
  "tn_compaction (snd (resolve_call e ctx c s)) = tn_compaction s"
  "tn_exhausted (snd (resolve_call e ctx c s)) = tn_exhausted s"
  "tn_handoff (snd (resolve_call e ctx c s)) = tn_handoff s"
  "tn_confidence (snd (resolve_call e ctx c s)) = tn_confidence s"
  "tn_aborted (snd (resolve_call e ctx c s)) = tn_aborted s"
  by (simp_all add: resolve_call_def split: prod.splits)

lemma note_compaction_frame [simp]:
  "l_router (note_compaction (ev, s)) = l_router s"
  "l_ledger (note_compaction (ev, s)) = l_ledger s"
  "l_started (note_compaction (ev, s)) = l_started s"
  "l_turns (note_compaction (ev, s)) = l_turns s"
  "l_total_tokens (note_compaction (ev, s)) = l_total_tokens s"
  "l_compactor (note_compaction (ev, s)) = l_compactor s"
  "l_goal_anchor (note_compaction (ev, s)) = l_goal_anchor s"
  "l_summary (note_compaction (ev, s)) = l_summary s"
  "l_spec_tokens (note_compaction (ev, s)) = l_spec_tokens s"
  "l_calibrated (note_compaction (ev, s)) = l_calibrated s"
  "l_narrated_seq (note_compaction (ev, s)) = l_narrated_seq s"
  "l_verify_rounds (note_compaction (ev, s)) = l_verify_rounds s"
  "l_last_opp (note_compaction (ev, s)) = l_last_opp s"
  "l_last_reconcile (note_compaction (ev, s)) = l_last_reconcile s"
  "l_fab_rounds (note_compaction (ev, s)) = l_fab_rounds s"
  "l_truncated (note_compaction (ev, s)) = l_truncated s"
  "l_transcript (note_compaction (ev, s)) = l_transcript s"
  "tn_turn (note_compaction (ev, s)) = tn_turn s"
  "tn_start_len (note_compaction (ev, s)) = tn_start_len s"
  "tn_round (note_compaction (ev, s)) = tn_round s"
  "tn_cycle_start (note_compaction (ev, s)) = tn_cycle_start s"
  "tn_last_progress (note_compaction (ev, s)) = tn_last_progress s"
  "tn_prev_rung (note_compaction (ev, s)) = tn_prev_rung s"
  "tn_last_spawn (note_compaction (ev, s)) = tn_last_spawn s"
  "tn_prev_sig (note_compaction (ev, s)) = tn_prev_sig s"
  "tn_model (note_compaction (ev, s)) = tn_model s"
  "tn_dispatches (note_compaction (ev, s)) = tn_dispatches s"
  "tn_faults (note_compaction (ev, s)) = tn_faults s"
  "tn_exhausted (note_compaction (ev, s)) = tn_exhausted s"
  "tn_handoff (note_compaction (ev, s)) = tn_handoff s"
  "tn_confidence (note_compaction (ev, s)) = tn_confidence s"
  "tn_aborted (note_compaction (ev, s)) = tn_aborted s"
  by (simp_all add: note_compaction_def split: option.splits)

lemma stuck_lift_frame [simp]:
  "l_ledger (stuck_verify_lift e s) = l_ledger s" "l_started (stuck_verify_lift e s) = l_started s"
  "l_turns (stuck_verify_lift e s) = l_turns s"
  "l_total_tokens (stuck_verify_lift e s) = l_total_tokens s"
  "l_compactor (stuck_verify_lift e s) = l_compactor s"
  "l_goal_anchor (stuck_verify_lift e s) = l_goal_anchor s"
  "l_summary (stuck_verify_lift e s) = l_summary s"
  "l_spec_tokens (stuck_verify_lift e s) = l_spec_tokens s"
  "l_calibrated (stuck_verify_lift e s) = l_calibrated s"
  "l_narrated_seq (stuck_verify_lift e s) = l_narrated_seq s"
  "l_verify_rounds (stuck_verify_lift e s) = l_verify_rounds s"
  "l_last_opp (stuck_verify_lift e s) = l_last_opp s"
  "l_last_reconcile (stuck_verify_lift e s) = l_last_reconcile s"
  "l_fab_rounds (stuck_verify_lift e s) = l_fab_rounds s"
  "l_truncated (stuck_verify_lift e s) = l_truncated s"
  "l_transcript (stuck_verify_lift e s) = l_transcript s"
  "tn_turn (stuck_verify_lift e s) = tn_turn s"
  "tn_start_len (stuck_verify_lift e s) = tn_start_len s"
  "tn_round (stuck_verify_lift e s) = tn_round s"
  "tn_cycle_start (stuck_verify_lift e s) = tn_cycle_start s"
  "tn_last_progress (stuck_verify_lift e s) = tn_last_progress s"
  "tn_prev_rung (stuck_verify_lift e s) = tn_prev_rung s"
  "tn_last_spawn (stuck_verify_lift e s) = tn_last_spawn s"
  "tn_prev_sig (stuck_verify_lift e s) = tn_prev_sig s"
  "tn_model (stuck_verify_lift e s) = tn_model s"
  "tn_dispatches (stuck_verify_lift e s) = tn_dispatches s"
  "tn_faults (stuck_verify_lift e s) = tn_faults s"
  "tn_compaction (stuck_verify_lift e s) = tn_compaction s"
  "tn_exhausted (stuck_verify_lift e s) = tn_exhausted s"
  "tn_handoff (stuck_verify_lift e s) = tn_handoff s"
  "tn_confidence (stuck_verify_lift e s) = tn_confidence s"
  "tn_aborted (stuck_verify_lift e s) = tn_aborted s"
  by (simp_all add: stuck_verify_lift_def)

lemma requeue_frame [simp]:
  "l_router (requeue msg s) = l_router s" "l_ledger (requeue msg s) = l_ledger s"
  "l_started (requeue msg s) = l_started s" "l_turns (requeue msg s) = l_turns s"
  "l_total_tokens (requeue msg s) = l_total_tokens s" "l_compactor (requeue msg s) = l_compactor s"
  "l_goal_anchor (requeue msg s) = l_goal_anchor s" "l_summary (requeue msg s) = l_summary s"
  "l_spec_tokens (requeue msg s) = l_spec_tokens s" "l_calibrated (requeue msg s) = l_calibrated s"
  "l_narrated_seq (requeue msg s) = l_narrated_seq s"
  "l_verify_rounds (requeue msg s) = l_verify_rounds s" "l_last_opp (requeue msg s) = l_last_opp s"
  "l_last_reconcile (requeue msg s) = l_last_reconcile s"
  "l_fab_rounds (requeue msg s) = l_fab_rounds s" "l_truncated (requeue msg s) = l_truncated s"
  "tn_turn (requeue msg s) = tn_turn s" "tn_start_len (requeue msg s) = tn_start_len s"
  "tn_round (requeue msg s) = tn_round s" "tn_prev_rung (requeue msg s) = tn_prev_rung s"
  "tn_last_spawn (requeue msg s) = tn_last_spawn s" "tn_prev_sig (requeue msg s) = tn_prev_sig s"
  "tn_model (requeue msg s) = tn_model s" "tn_dispatches (requeue msg s) = tn_dispatches s"
  "tn_faults (requeue msg s) = tn_faults s" "tn_compaction (requeue msg s) = tn_compaction s"
  "tn_exhausted (requeue msg s) = tn_exhausted s" "tn_handoff (requeue msg s) = tn_handoff s"
  "tn_confidence (requeue msg s) = tn_confidence s" "tn_aborted (requeue msg s) = tn_aborted s"
  by (simp_all add: requeue_def)

lemma persist_frame:
  assumes "persist_messages e s = Some (perr, s1)"
  shows "l_router s1 = l_router s" "l_ledger s1 = l_ledger s" "l_started s1 = l_started s"
    "l_turns s1 = l_turns s" "l_total_tokens s1 = l_total_tokens s"
    "l_compactor s1 = l_compactor s" "l_goal_anchor s1 = l_goal_anchor s"
    "l_summary s1 = l_summary s" "l_spec_tokens s1 = l_spec_tokens s"
    "l_calibrated s1 = l_calibrated s" "l_narrated_seq s1 = l_narrated_seq s"
    "l_verify_rounds s1 = l_verify_rounds s" "l_last_opp s1 = l_last_opp s"
    "l_last_reconcile s1 = l_last_reconcile s" "l_fab_rounds s1 = l_fab_rounds s"
    "l_truncated s1 = l_truncated s" "l_transcript s1 = l_transcript s" "tn_turn s1 = tn_turn s"
    "tn_start_len s1 = tn_start_len s" "tn_round s1 = tn_round s"
    "tn_cycle_start s1 = tn_cycle_start s" "tn_last_progress s1 = tn_last_progress s"
    "tn_prev_rung s1 = tn_prev_rung s" "tn_last_spawn s1 = tn_last_spawn s"
    "tn_prev_sig s1 = tn_prev_sig s" "tn_model s1 = tn_model s"
    "tn_dispatches s1 = tn_dispatches s" "tn_faults s1 = tn_faults s"
    "tn_compaction s1 = tn_compaction s" "tn_exhausted s1 = tn_exhausted s"
    "tn_handoff s1 = tn_handoff s" "tn_confidence s1 = tn_confidence s"
    "tn_aborted s1 = tn_aborted s"
  using assms by (auto simp: persist_messages_def split: if_splits prod.splits)

lemma finish_frame:
  assumes "finish_turn e s = Some (perr, s1)"
  shows "l_ledger s1 = l_ledger s" "l_started s1 = l_started s" "l_turns s1 = l_turns s"
    "l_total_tokens s1 = l_total_tokens s" "l_compactor s1 = l_compactor s"
    "l_goal_anchor s1 = l_goal_anchor s" "l_summary s1 = l_summary s"
    "l_spec_tokens s1 = l_spec_tokens s" "l_calibrated s1 = l_calibrated s"
    "l_narrated_seq s1 = l_narrated_seq s" "l_verify_rounds s1 = l_verify_rounds s"
    "l_last_opp s1 = l_last_opp s" "l_last_reconcile s1 = l_last_reconcile s"
    "l_fab_rounds s1 = l_fab_rounds s" "l_truncated s1 = l_truncated s" "tn_turn s1 = tn_turn s"
    "tn_start_len s1 = tn_start_len s" "tn_round s1 = tn_round s"
    "tn_cycle_start s1 = tn_cycle_start s" "tn_last_progress s1 = tn_last_progress s"
    "tn_prev_rung s1 = tn_prev_rung s" "tn_last_spawn s1 = tn_last_spawn s"
    "tn_prev_sig s1 = tn_prev_sig s" "tn_model s1 = tn_model s"
    "tn_dispatches s1 = tn_dispatches s" "tn_faults s1 = tn_faults s"
    "tn_compaction s1 = tn_compaction s" "tn_exhausted s1 = tn_exhausted s"
    "tn_handoff s1 = tn_handoff s" "tn_confidence s1 = tn_confidence s"
    "tn_aborted s1 = tn_aborted s"
  using assms
  by (auto simp: finish_turn_def Let_def persist_frame split: option.splits prod.splits)

lemma conclude_cases:
  assumes "conclude e f s = (res, s1)"
  obtains "finish_turn e s = None" "res = Panicked" "s1 = s"
  | perr where "finish_turn e s = Some (perr, s1)" "res = Answered (f (base_result perr s1))"
  using assms by (auto simp: conclude_def split: option.splits prod.splits)

subsection \<open>A clean result comes from a green gate\<close>

text \<open>A result that reports no stop, no escalation, no fabrication and no fault.\<close>

definition clean_result :: "turn_result \<Rightarrow> bool" where
  "clean_result r =
     (tr_stopped r = None \<and> tr_escalate r = None \<and> tr_fabricated r = [] \<and> \<not> tr_verify_failed r
      \<and> tr_model_fault r = FaultNone)"

text \<open>The last thing the loop did before it ended, but for closing the turn, was a run of the gate
  \<open>g\<close>, scoped to the dispatches \<open>ds\<close>, that passed.\<close>

definition closed_on_green :: "'w env \<Rightarrow> verify_gate \<Rightarrow> result list \<Rightarrow> 'w agent \<Rightarrow> bool" where
  "closed_on_green e g ds s2 =
     (\<exists>detached s0 out s1. verify_scoped_gate e detached g s0 = ((True, out), s1)
        \<and> tn_dispatches s0 = ds \<and> (s2 = s1 \<or> (\<exists>perr. finish_turn e s1 = Some (perr, s2))))"

definition sound_answer :: "'w env \<Rightarrow> turn_outcome \<Rightarrow> 'w agent \<Rightarrow> bool" where
  "sound_answer e res s1 =
     (case res of
        Answered r \<Rightarrow>
          (\<forall>g. e_verify e = Some g \<longrightarrow> clean_result r \<longrightarrow> closed_on_green e g (tr_dispatches r) s1)
      | _ \<Rightarrow> True)"

definition sound_phase :: "'w env \<Rightarrow> 'w phase \<Rightarrow> bool" where
  "sound_phase e p = (\<forall>s res s1. p s = (Some (EndTurnWith res), s1) \<longrightarrow> sound_answer e res s1)"

lemma sound_phaseI:
  "(\<And>s res s1. p s = (Some (EndTurnWith res), s1) \<Longrightarrow> sound_answer e res s1) \<Longrightarrow> sound_phase e p"
  by (simp add: sound_phase_def)

lemma sound_phaseD: "sound_phase e p \<Longrightarrow> p s = (Some (EndTurnWith res), s1) \<Longrightarrow> sound_answer e res s1"
  by (simp add: sound_phase_def)

lemma sound_next: "sound_phase e p \<Longrightarrow> sound_phase e q \<Longrightarrow> sound_phase e (next_phase p q)"
  by (auto simp: sound_phase_def next_phase_def split: prod.splits option.splits)

lemma sound_panic [simp]: "sound_answer e Panicked s"
  by (simp add: sound_answer_def)

lemma sound_unclean:
  assumes "conclude e f s = (res, s1)" "\<And>r. \<not> clean_result (f r)"
  shows "sound_answer e res s1"
  using assms(1) by (rule conclude_cases) (auto simp: sound_answer_def assms(2))

lemma sound_after_gate:
  assumes "verify_scoped_gate e d g s0 = ((True, out), s)" "conclude e f s = (res, s1)"
    and "e_verify e = Some g" "\<And>r. tr_dispatches (f r) = tr_dispatches r"
  shows "sound_answer e res s1"
  using assms(2)
proof (rule conclude_cases)
  fix perr assume fin: "finish_turn e s = Some (perr, s1)"
    and res: "res = Answered (f (base_result perr s1))"
  have "tn_dispatches (snd (verify_scoped_gate e d g s0)) = tn_dispatches s0" by simp
  with assms(1) have "tn_dispatches s = tn_dispatches s0" by simp
  then have "tn_dispatches s1 = tn_dispatches s0" using finish_frame [OF fin] by simp
  moreover have "closed_on_green e g (tn_dispatches s0) s1"
    unfolding closed_on_green_def using assms(1) fin by blast
  ultimately show ?thesis using res assms(3,4) by (simp add: sound_answer_def base_result_def)
qed simp

lemma sound_ungated: "e_verify e = None \<Longrightarrow> sound_answer e res s1"
  by (simp add: sound_answer_def split: turn_outcome.splits)

lemma opportunistic_green_sound:
  assumes "opportunistic_green e final s = (Some res, s1)"
  shows "sound_answer e res s1"
proof (cases "e_verify e")
  case None
  then show ?thesis by (rule sound_ungated)
next
  case (Some g)
  obtain ok out s0 where g: "verify_scoped_gate e False g s = ((ok, out), s0)" by (metis prod.collapse)
  with assms Some have ok: "ok" and c: "conclude e (\<lambda>r. r\<lparr>tr_text := final\<rparr>) s0 = (res, s1)"
    by (auto simp: opportunistic_green_def split: if_splits prod.splits)
  have gg: "verify_scoped_gate e False g s = ((True, out), s0)" using g ok by simp
  show ?thesis by (rule sound_after_gate [OF gg c Some]) simp
qed

lemma opportunistic_reconcile_sound:
  assumes "opportunistic_reconcile e final s = (Some res, s1)"
  shows "sound_answer e res s1"
proof (cases "e_verify e")
  case None
  then show ?thesis by (rule sound_ungated)
next
  case (Some g)
  obtain ok out s0 where g: "verify_scoped_gate e False g s = ((ok, out), s0)" by (metis prod.collapse)
  with assms Some have ok: "ok" and c: "conclude e (\<lambda>r. r\<lparr>tr_text := final\<rparr>) s0 = (res, s1)"
    by (auto simp: opportunistic_reconcile_def split: if_splits prod.splits)
  have gg: "verify_scoped_gate e False g s = ((True, out), s0)" using g ok by simp
  show ?thesis by (rule sound_after_gate [OF gg c Some]) simp
qed

lemma close_on_fault_sound:
  assumes "close_on_fault e d stopped err s = (Some res, s1)"
  shows "sound_answer e res s1"
proof (cases "e_verify e")
  case None
  then show ?thesis by (rule sound_ungated)
next
  case (Some g)
  show ?thesis
  proof (cases "finish_turn e s")
    case None
    with assms Some show ?thesis by (simp add: close_on_fault_def)
  next
    case fin: (Some p)
    obtain perr s0 where p: "p = (perr, s0)" by fastforce
    obtain ok out s2 where g: "verify_scoped_gate e d g s0 = ((ok, out), s2)"
      by (metis prod.collapse)
    with gate_frame [of e d g s0] have ds: "tn_dispatches s2 = tn_dispatches s0" by simp
    show ?thesis
    proof (cases ok)
      case True
      with assms Some fin p g have "res = Answered (base_result perr s2)" "s1 = s2"
        by (auto simp: close_on_fault_def Let_def)
      with True g ds Some show ?thesis
        by (auto simp: sound_answer_def closed_on_green_def base_result_def)
    next
      case False
      with assms Some fin p g show ?thesis
        by (auto simp: close_on_fault_def Let_def sound_answer_def clean_result_def)
    qed
  qed
qed

lemma close_on_fault_handles:
  assumes "e_verify e = Some g"
  shows "\<exists>res s1. close_on_fault e d stopped err s = (Some res, s1)"
proof (cases "finish_turn e s")
  case None
  with assms show ?thesis by (simp add: close_on_fault_def)
next
  case (Some p)
  obtain perr s0 where p: "p = (perr, s0)" by fastforce
  obtain ok out s2 where "verify_scoped_gate e d g s0 = ((ok, out), s2)" by (metis prod.collapse)
  with assms Some p show ?thesis by (simp add: close_on_fault_def Let_def)
qed

lemma end_gracefully_sound:
  assumes "end_gracefully e err s = (res, s1)"
  shows "sound_answer e res s1"
proof (cases "e_verify e")
  case None
  then show ?thesis by (rule sound_ungated)
next
  case (Some g)
  then obtain res' s2 where "close_on_graceful_fault e err s = (Some res', s2)"
    unfolding close_on_graceful_fault_def using close_on_fault_handles by blast
  with assms show ?thesis
    by (auto simp: end_gracefully_def close_on_graceful_fault_def intro: close_on_fault_sound)
qed

lemma end_aborted_sound:
  assumes "end_aborted e err why s = (res, s1)"
  shows "sound_answer e res s1"
proof (cases "close_on_terminal_fault e err s")
  case (Pair ro s2)
  show ?thesis
  proof (cases ro)
    case None
    with Pair assms show ?thesis
      by (auto simp: end_aborted_def sound_answer_def split: option.splits)
  next
    case (Some r)
    with Pair assms show ?thesis
      by (auto simp: end_aborted_def close_on_terminal_fault_def intro: close_on_fault_sound)
  qed
qed

lemma registry_reason: "registry_assess gs stage i = Some reason \<Longrightarrow> reason \<noteq> []"
  by (induction gs) (auto split: if_splits)

lemma on_declared_done_sound:
  assumes "on_declared_done e claim s = (Some res, s1)"
  shows "sound_answer e res s1"
proof (cases "guards_refuse e StageFabrication claim (e_verify e \<noteq> None) s")
  case (Some reason)
  then have "reason \<noteq> []" unfolding guards_refuse_def by (rule registry_reason)
  with Some assms show ?thesis
    by (auto simp: on_declared_done_def clean_result_def split: if_splits prod.splits
        intro!: sound_unclean)
next
  case None
  then have v: "verify_claim e claim s = (Some res, s1)" using assms by (simp add: on_declared_done_def)
  show ?thesis
  proof (cases "e_verify e")
    case None
    then show ?thesis by (rule sound_ungated)
  next
    case (Some g)
    obtain ok out s0 where g: "verify_scoped_gate e False g s = ((ok, out), s0)"
      by (metis prod.collapse)
    show ?thesis
    proof (cases ok)
      case False
      with v Some g show ?thesis
        by (auto simp: verify_claim_def revise_or_refuse_def Let_def clean_result_def
            split: if_splits prod.splits intro!: sound_unclean)
    next
      case True
      show ?thesis
      proof (cases "guards_refuse e StageFakeGreen claim True s0")
        case None
        with True v Some g have c: "conclude e (\<lambda>r. r\<lparr>tr_text := claim\<rparr>) s0 = (res, s1)"
          by (auto simp: verify_claim_def split: prod.splits)
        have gg: "verify_scoped_gate e False g s = ((True, out), s0)" using g True by simp
        show ?thesis by (rule sound_after_gate [OF gg c Some]) simp
      next
        case (Some reason)
        with True v g \<open>e_verify e = Some g\<close> show ?thesis
          by (auto simp: verify_claim_def clean_result_def split: prod.splits intro!: sound_unclean)
      qed
    qed
  qed
qed

lemma try_green_sound: "sound_phase e q \<Longrightarrow> sound_phase e (try_green e final q)"
  by (rule sound_phaseI)
    (auto simp: try_green_def split: prod.splits option.splits
      intro: opportunistic_green_sound sound_phaseD)

lemma ending_sound:
  assumes "\<And>res s1. f = (res, s1) \<Longrightarrow> sound_answer e res s1"
    and "ending f = (Some (EndTurnWith res), s1)"
  shows "sound_answer e res s1"
  using assms(1) [of "fst f" "snd f"] assms(2) by (auto simp: ending_def)

lemma stop_with_sound: "sound_phase e (stop_with e v)"
proof (rule sound_phaseI)
  fix s res s1 assume "stop_with e v s = (Some (EndTurnWith res), s1)"
  then show "sound_answer e res s1"
    unfolding stop_with_def
    by (rule ending_sound [rotated]) (rule sound_unclean, auto simp: clean_result_def)
qed

lemma exhaustion_guard_sound: "sound_phase e (exhaustion_guard e)"
proof (rule sound_phaseI)
  fix s res s1 assume a: "exhaustion_guard e s = (Some (EndTurnWith res), s1)"
  let ?q = "\<lambda>s1. case force_edge e (escalate_for_retry_exhaustion (tn_round s1 - tn_cycle_start s1))
      EdgeEscalate s1 of
      (True, s2) \<Rightarrow> (Some Again, s2\<lparr>tn_cycle_start := tn_round s2, tn_last_progress := tn_round s2\<rparr>)
    | (False, s2) \<Rightarrow> (Some (BreakOut None), s2)"
  have "sound_phase e ?q" by (rule sound_phaseI) (auto split: prod.splits bool.splits)
  then have "sound_phase e (try_green e [] ?q)" by (rule try_green_sound)
  with a show "sound_answer e res s1"
    by (auto simp: exhaustion_guard_def split: if_splits dest: sound_phaseD)
qed

lemma strong_bound_guard_sound: "sound_phase e (strong_bound_guard e)"
proof (rule sound_phaseI)
  fix s res s1 assume a: "strong_bound_guard e s = (Some (EndTurnWith res), s1)"
  let ?q = "\<lambda>s1. case finish_turn e s1 of
      None \<Rightarrow> (Some (EndTurnWith Panicked), s1)
    | Some (perr, s2) \<Rightarrow>
        (let v = strong_bound_verdict e s2
         in (Some (EndTurnWith (Answered ((base_result perr s2)\<lparr>tr_stopped := Some v,
               tr_escalate := (if e_verify e \<noteq> None then Some (Unsatisfied v) else None)\<rparr>))), s2))"
  have "sound_phase e ?q"
    by (rule sound_phaseI)
      (auto simp: Let_def sound_answer_def clean_result_def split: option.splits prod.splits)
  then have "sound_phase e (try_green e [] ?q)" by (rule try_green_sound)
  with a show "sound_answer e res s1"
    by (auto simp: strong_bound_guard_def split: if_splits dest: sound_phaseD)
qed

lemma breaker_guard_sound: "sound_phase e (breaker_guard e)"
  by (rule sound_phaseI)
    (auto simp: breaker_guard_def split: option.splits prod.splits if_splits bool.splits
      dest: sound_phaseD [OF stop_with_sound])

lemma quiet_phases_sound:
  "sound_phase e (note_rung e)" "sound_phase e (bound_transcript e)" "sound_phase e (floor_fit_guard e)"
  by (auto simp: sound_phase_def note_rung_def bound_transcript_def floor_fit_guard_def Let_def
      split: if_splits prod.splits bool.splits)

lemma handle_fault_sound: "sound_phase e (handle_fault e err)"
  by (rule sound_phaseI)
    (auto simp: handle_fault_def split: prod.splits recover_action.splits
      intro: ending_sound [rotated] end_gracefully_sound end_aborted_sound)

lemma repeated_call_guard_sound: "sound_phase e (repeated_call_guard e final cs)"
proof (rule sound_phaseI)
  fix s res s1 assume a: "repeated_call_guard e final cs s = (Some (EndTurnWith res), s1)"
  let ?q = "\<lambda>s2. (Some (BreakOut (Some (tn_round s2 - tn_last_progress s2))), s2)"
  have "sound_phase e ?q" by (rule sound_phaseI) auto
  then have "sound_phase e (try_green e final ?q)" by (rule try_green_sound)
  with a show "sound_answer e res s1"
    by (auto simp: repeated_call_guard_def Let_def split: if_splits prod.splits bool.splits
        dest: sound_phaseD)
qed

lemma act_on_calls_sound: "sound_phase e (act_on_calls e final cs)"
  by (rule sound_phaseI)
    (auto simp: act_on_calls_def mid_flight_def Let_def split: if_splits prod.splits option.splits
      intro: on_declared_done_sound opportunistic_reconcile_sound)

lemma use_response_sound: "sound_phase e (use_response e sent resp)"
  by (rule sound_phaseI)
    (auto simp: use_response_def split: prod.splits
      intro: sound_phaseD [OF sound_next [OF repeated_call_guard_sound act_on_calls_sound]])

lemma run_round_sound: "sound_phase e (run_round e)"
proof -
  have "sound_phase e (work_phase e)"
    by (rule sound_phaseI)
      (auto simp: work_phase_def split: prod.splits sum.splits
        intro: sound_phaseD [OF handle_fault_sound] sound_phaseD [OF use_response_sound])
  then show ?thesis
    unfolding run_round_def guard_phases_def
    by (intro sound_next exhaustion_guard_sound strong_bound_guard_sound breaker_guard_sound
        quiet_phases_sound)
qed

lemma run_rounds_sound: "run_rounds e n s = Some (res, s1) \<Longrightarrow> sound_answer e res s1"
proof (induction n arbitrary: s)
  case 0
  then show ?case by simp
next
  case (Suc n)
  obtain x s2 where x: "run_round e s = (x, s2)" by fastforce
  with Suc show ?case
    by (auto split: option.splits round_end.splits dest: sound_phaseD [OF run_round_sound]
        simp: end_exhausted_def sound_answer_def)
qed

text \<open>A clean answer of a gated turn closed on a run of the gate that passed.\<close>

lemma run_turn_closed:
  assumes "run_turn e n prompt s = Some (Answered r, s1)" "e_verify e = Some g" "clean_result r"
  shows "closed_on_green e g (tr_dispatches r) s1"
proof -
  obtain res where res: "run_rounds e n (begin_turn e prompt s) = Some (res, s1)"
    and r: "stamp_highest (l_router s1) res = Answered r"
    using assms(1) by (auto simp: run_turn_def)
  then obtain t where t: "res = Answered t" "r = t\<lparr>tr_highest := highest_model (l_router s1)\<rparr>"
    by (cases res) (auto simp: stamp_highest_def)
  have "sound_answer e res s1" using res by (rule run_rounds_sound)
  then show ?thesis using t assms(2,3) by (simp add: sound_answer_def clean_result_def)
qed

end
