(* ===== verification/Agent_Bounds.thy ===== *)
theory Agent_Bounds
  imports Agent_Laws
begin

text \<open>
  How long a turn of the agent loop can go on and what it can spend: every round that asks for
  another one uses up part of a finite allowance unless the provider throttles the loop, and the
  ledger grows by at most one call behind each check of the ceilings.
\<close>

subsection \<open>Rounds use up a finite allowance\<close>

text \<open>What may still reset the round budget of a cycle: the rungs above the current one, the
  re-prompts of fabricated claims and the revise cycles of the gate.\<close>

definition allowance :: "'w env \<Rightarrow> 'w agent \<Rightarrow> nat" where
  "allowance e s = nat (top_rung (l_router s) - r_cur (l_router s))
     + nat (e_fab_reprompts e - l_fab_rounds s)
     + (case e_verify e of None \<Rightarrow> 0
        | Some g \<Rightarrow> nat (max_rounds_or_default g - l_verify_rounds s))"

definition potential :: "'w env \<Rightarrow> 'w agent \<Rightarrow> nat" where
  "potential e s = allowance e s * (nat (e_max_rounds e) + 2)
     + nat (e_max_rounds e - (tn_round s - tn_cycle_start s))"

text \<open>A stretch of a round either keeps the cycle and the allowance, or starts a new cycle and
  draws on the allowance.\<close>

definition spends :: "'w env \<Rightarrow> 'w agent \<Rightarrow> 'w agent \<Rightarrow> bool" where
  "spends e s s1 =
     (tn_round s1 = tn_round s
      \<and> (tn_cycle_start s1 = tn_cycle_start s \<and> allowance e s1 \<le> allowance e s
         \<or> tn_round s \<le> tn_cycle_start s1 \<and> tn_cycle_start s1 \<le> tn_round s + 1
           \<and> allowance e s1 < allowance e s))"

lemma spends_refl [simp]: "spends e s s"
  by (simp add: spends_def)

lemma spends_trans: "spends e s s1 \<Longrightarrow> spends e s1 s2 \<Longrightarrow> spends e s s2"
  unfolding spends_def by auto

lemma spends_same:
  assumes "tn_round s1 = tn_round s" "tn_cycle_start s1 = tn_cycle_start s"
    "l_router s1 = l_router s" "l_fab_rounds s1 = l_fab_rounds s" "l_verify_rounds s1 = l_verify_rounds s"
  shows "spends e s s1"
  using assms by (simp add: spends_def allowance_def split: option.splits)

text \<open>The moves the loop forces on the router climb by one rung whenever they report an
  escalation, except for the one that lifts the usage bound at the top.\<close>

definition climbs :: "(router \<Rightarrow> edge \<times> router) \<Rightarrow> bool" where
  "climbs move = (\<forall>r. top_rung (snd (move r)) = top_rung r \<and> r_cur r \<le> r_cur (snd (move r))
     \<and> (direction (fst (move r)) = EdgeEscalate
         \<longrightarrow> r_cur (snd (move r)) = r_cur r + 1 \<and> r_cur r < top_rung r))"

definition never_drops :: "(router \<Rightarrow> edge \<times> router) \<Rightarrow> bool" where
  "never_drops move = (\<forall>r. top_rung (snd (move r)) = top_rung r \<and> r_cur r \<le> r_cur (snd (move r)))"

lemma moves_climb:
  "climbs (escalate_for_retry_exhaustion n)" "climbs (escalate_for_no_progress n)"
  "climbs (escalate_for_stuck_verify n)"
  by (simp_all add: climbs_def ladder_defs top_rung_def no_edge_def)

lemma moves_never_drop:
  "never_drops (escalate_for_retry_exhaustion n)" "never_drops (escalate_for_no_progress n)"
  "never_drops (escalate_for_stuck_verify n)" "never_drops (escalate_for_fault k)"
  "never_drops escalate_for_overflow"
  by (auto simp: never_drops_def ladder_defs top_rung_def no_edge_def)

lemma force_edge_router:
  "l_router (snd (force_edge e move want s)) = snd (move (l_router s))"
  by (simp add: force_edge_def split: prod.splits)

lemma force_edge_taken:
  "fst (force_edge e move want s) \<longleftrightarrow> direction (fst (move (l_router s))) = want"
  by (simp add: force_edge_def split: prod.splits)

lemma force_edge_spends:
  assumes "never_drops move"
  shows "spends e s (snd (force_edge e move want s))"
proof -
  have "nat (top_rung (snd (move r)) - r_cur (snd (move r))) \<le> nat (top_rung r - r_cur r)" for r
    using assms by (intro nat_mono) (simp add: never_drops_def)
  then have "allowance e (snd (force_edge e move want s)) \<le> allowance e s"
    by (simp add: allowance_def force_edge_router split: option.splits)
  then show ?thesis by (simp add: spends_def)
qed

lemma force_edge_draws:
  assumes "climbs move" "force_edge e move EdgeEscalate s = (True, s1)"
  shows "allowance e s1 < allowance e s \<and> tn_round s1 = tn_round s"
proof -
  have s1: "s1 = snd (force_edge e move EdgeEscalate s)" using assms(2) by simp
  have "direction (fst (move (l_router s))) = EdgeEscalate"
    using force_edge_taken [of e move EdgeEscalate s] assms(2) by simp
  with assms(1) show ?thesis
    unfolding s1 by (simp add: allowance_def climbs_def force_edge_router split: option.splits)
qed

definition spending :: "'w env \<Rightarrow> 'w phase \<Rightarrow> bool" where
  "spending e p = (\<forall>s x s1. p s = (x, s1) \<longrightarrow> x = None \<or> x = Some Again \<longrightarrow> spends e s s1)"

lemma spendingI:
  "(\<And>s x s1. p s = (x, s1) \<Longrightarrow> x = None \<or> x = Some Again \<Longrightarrow> spends e s s1) \<Longrightarrow> spending e p"
  unfolding spending_def by blast

lemma spendingD: "spending e p \<Longrightarrow> p s = (x, s1) \<Longrightarrow> x = None \<or> x = Some Again \<Longrightarrow> spends e s s1"
  unfolding spending_def by blast

lemma next_phase_None:
  "next_phase p q s = (None, s1) \<longleftrightarrow> (\<exists>s0. p s = (None, s0) \<and> q s0 = (None, s1))"
  by (cases "p s"; cases "fst (p s)") (simp_all add: next_phase_def)

lemma next_phase_assoc: "next_phase (next_phase p q) r = next_phase p (next_phase q r)"
  by (rule ext) (simp add: next_phase_def split: prod.split option.split)

lemma spending_next: "spending e p \<Longrightarrow> spending e q \<Longrightarrow> spending e (next_phase p q)"
proof (rule spendingI)
  fix s x s1
  assume a: "spending e p" "spending e q" "next_phase p q s = (x, s1)" "x = None \<or> x = Some Again"
  obtain y s0 where y: "p s = (y, s0)" by fastforce
  show "spends e s s1"
  proof (cases y)
    case None
    with a y show ?thesis
      by (auto simp: next_phase_def intro: spends_trans dest: spendingD)
  next
    case (Some z)
    with a y show ?thesis by (auto simp: next_phase_def dest: spendingD)
  qed
qed

lemma gate_spends: "verify_scoped_gate e d g s = (r, s1) \<Longrightarrow> spends e s s1"
  using gate_frame [of e d g s] by (intro spends_same) simp_all

lemma opportunistic_green_spends:
  "opportunistic_green e final s = (None, s1) \<Longrightarrow> spends e s s1"
  by (auto simp: opportunistic_green_def Let_def split: option.splits prod.splits if_splits
      intro: gate_spends)

lemma opportunistic_reconcile_spends:
  assumes "opportunistic_reconcile e final s = (None, s1)"
  shows "spends e s s1"
proof (cases "e_verify e")
  case None
  with assms show ?thesis by (simp add: opportunistic_reconcile_def)
next
  case (Some g)
  obtain ok out s0 where g: "verify_scoped_gate e False g s = ((ok, out), s0)"
    by (metis prod.collapse)
  have "spends e s0 s1"
    using assms Some g
    by (auto simp: opportunistic_reconcile_def split: prod.splits if_splits intro: spends_same)
  with gate_spends [OF g] show ?thesis by (rule spends_trans)
qed

lemma try_green_spending: "spending e q \<Longrightarrow> spending e (try_green e final q)"
  by (rule spendingI)
    (auto simp: try_green_def split: prod.splits option.splits
      intro: spends_trans opportunistic_green_spends dest: spendingD)

lemma next_adapter_keeps:
  "next_adapter ops av (r, b) = (rung, r1, b1) \<Longrightarrow> r_cur r1 = r_cur r \<and> top_rung r1 = top_rung r"
  by (auto simp: next_adapter_def bounce_def fallback_def available_neighbour_def account_def Let_def
      top_rung_def split: if_splits option.splits prod.splits)

lemma call_model_spends:
  assumes "call_model e s = (sent, reply, s1)"
  shows "spends e s s1"
proof -
  obtain rung r w where n: "next_adapter (e_pool e)
      (\<lambda>i. e_available e (model_at (l_router s) i) (world s)) (l_router s, world s) = (rung, r, w)"
    by (metis prod_cases3)
  then obtain w' where "s1 = s\<lparr>l_router := r, world := w'\<rparr>"
    using assms by (auto simp: call_model_def Let_def split: prod.splits)
  then show ?thesis
    using next_adapter_keeps [OF n] by (simp add: spends_def allowance_def split: option.splits)
qed

lemma account_frame [simp]:
  "l_router (account_for_call e resp sent s) = l_router s"
  "l_fab_rounds (account_for_call e resp sent s) = l_fab_rounds s"
  "l_verify_rounds (account_for_call e resp sent s) = l_verify_rounds s"
  "l_narrated_seq (account_for_call e resp sent s) = l_narrated_seq s"
  "l_transcript (account_for_call e resp sent s) = l_transcript s"
  "l_last_opp (account_for_call e resp sent s) = l_last_opp s"
  "l_truncated (account_for_call e resp sent s) = l_truncated s"
  "tn_round (account_for_call e resp sent s) = tn_round s"
  "tn_cycle_start (account_for_call e resp sent s) = tn_cycle_start s"
  "tn_last_progress (account_for_call e resp sent s) = tn_last_progress s"
  "tn_prev_sig (account_for_call e resp sent s) = tn_prev_sig s"
  "tn_last_spawn (account_for_call e resp sent s) = tn_last_spawn s"
  "tn_faults (account_for_call e resp sent s) = tn_faults s"
  "tn_dispatches (account_for_call e resp sent s) = tn_dispatches s"
  by (simp_all add: account_for_call_def case_prod_beta Let_def split: option.splits)

lemma dispatch_call_frame:
  "l_router (snd (snd (dispatch_call e c (m, t, s)))) = l_router s"
  "l_ledger (snd (snd (dispatch_call e c (m, t, s)))) = l_ledger s"
  "l_fab_rounds (snd (snd (dispatch_call e c (m, t, s)))) = l_fab_rounds s"
  "l_verify_rounds (snd (snd (dispatch_call e c (m, t, s)))) = l_verify_rounds s"
  "tn_round (snd (snd (dispatch_call e c (m, t, s)))) = tn_round s"
  "tn_cycle_start (snd (snd (dispatch_call e c (m, t, s)))) = tn_cycle_start s"
  by (simp_all add: dispatch_call_def case_prod_beta Let_def)

lemma dispatch_calls_frame:
  "l_router (snd (snd (fold (dispatch_call e) cs x))) = l_router (snd (snd x))
   \<and> l_ledger (snd (snd (fold (dispatch_call e) cs x))) = l_ledger (snd (snd x))
   \<and> l_fab_rounds (snd (snd (fold (dispatch_call e) cs x))) = l_fab_rounds (snd (snd x))
   \<and> l_verify_rounds (snd (snd (fold (dispatch_call e) cs x))) = l_verify_rounds (snd (snd x))
   \<and> tn_round (snd (snd (fold (dispatch_call e) cs x))) = tn_round (snd (snd x))
   \<and> tn_cycle_start (snd (snd (fold (dispatch_call e) cs x))) = tn_cycle_start (snd (snd x))"
proof (induction cs arbitrary: x)
  case Nil
  then show ?case by simp
next
  case (Cons c cs)
  show ?case by (cases x) (simp add: Cons.IH dispatch_call_frame)
qed

lemma dispatch_round_frame:
  assumes "dispatch_round e cs s = (m, t, s1)"
  shows "l_router s1 = l_router s" "l_ledger s1 = l_ledger s" "l_fab_rounds s1 = l_fab_rounds s"
    "l_verify_rounds s1 = l_verify_rounds s" "tn_round s1 = tn_round s"
    "tn_cycle_start s1 = tn_cycle_start s"
  using assms dispatch_calls_frame [of e cs "(False, 0, s)"] by (simp_all add: dispatch_round_def)

lemma narrated_frame:
  assumes "narrated_calls e resp s = (cs, s1)"
  shows "l_router s1 = l_router s" "l_ledger s1 = l_ledger s" "l_fab_rounds s1 = l_fab_rounds s"
    "l_verify_rounds s1 = l_verify_rounds s" "tn_round s1 = tn_round s"
    "tn_cycle_start s1 = tn_cycle_start s" "l_transcript s1 = l_transcript s"
    "tn_dispatches s1 = tn_dispatches s" "world s1 = world s"
  using assms by (auto simp: narrated_calls_def Let_def split: if_splits)

lemma allowance_same:
  assumes "l_router s1 = l_router s" "l_fab_rounds s1 = l_fab_rounds s"
    "l_verify_rounds s1 = l_verify_rounds s"
  shows "allowance e s1 = allowance e s"
  using assms by (simp add: allowance_def split: option.splits)

lemma new_cycle_spends:
  assumes "allowance e s2 < allowance e s" "tn_round s2 = tn_round s" "l_router s1 = l_router s2"
    "l_fab_rounds s1 = l_fab_rounds s2" "l_verify_rounds s1 = l_verify_rounds s2"
    "tn_round s1 = tn_round s2"
    "tn_round s2 \<le> tn_cycle_start s1" "tn_cycle_start s1 \<le> tn_round s2 + 1"
  shows "spends e s s1"
  using assms allowance_same [OF assms(3-5), of e] by (simp add: spends_def)

lemma requeue_spends:
  assumes "allowance e s1 < allowance e s" "tn_round s1 = tn_round s"
  shows "spends e s (requeue msg s1)"
  by (rule new_cycle_spends [OF assms]) (simp_all add: requeue_def)

lemma lift_never_drops: "allowance e (stuck_verify_lift e s) \<le> allowance e s"
proof (cases "e_stuck_after e > 0 \<and> l_verify_rounds s mod e_stuck_after e = 0")
  case True
  have "spends e s (snd (force_edge e (escalate_for_stuck_verify (l_verify_rounds s)) EdgeEscalate s))"
    by (rule force_edge_spends) (rule moves_never_drop)
  with True show ?thesis by (auto simp: stuck_verify_lift_def spends_def)
qed (simp only: stuck_verify_lift_def if_False order_refl)

lemma revise_spends:
  assumes "revise_or_refuse e g claim out s = (None, s1)" "e_verify e = Some g"
  shows "spends e s s1"
proof -
  let ?s0 = "s\<lparr>l_verify_rounds := l_verify_rounds s + 1\<rparr>"
  have lt: "l_verify_rounds s < max_rounds_or_default g"
    using assms(1) by (auto simp: revise_or_refuse_def split: if_splits prod.splits)
  obtain msg w where s1: "s1 = requeue msg ((stuck_verify_lift e ?s0)\<lparr>world := w\<rparr>)"
    using assms(1) lt by (auto simp: revise_or_refuse_def Let_def split: prod.splits)
  have "allowance e ?s0 < allowance e s" using lt assms(2) by (simp add: allowance_def)
  with lift_never_drops [of e ?s0] have "allowance e (stuck_verify_lift e ?s0) < allowance e s" by simp
  then show ?thesis unfolding s1
    by (intro requeue_spends) (simp_all add: allowance_def split: option.splits)
qed

lemma on_declared_done_spends:
  assumes "on_declared_done e claim s = (None, s1)"
  shows "spends e s s1"
proof (cases "guards_refuse e StageFabrication claim (e_verify e \<noteq> None) s")
  case (Some reason)
  then have lt: "l_fab_rounds s < e_fab_reprompts e"
    and s1: "s1 = requeue (fabrication_reprompt reason) (s\<lparr>l_fab_rounds := l_fab_rounds s + 1\<rparr>)"
    using assms by (auto simp: on_declared_done_def split: if_splits prod.splits)
  show ?thesis unfolding s1
    by (intro requeue_spends) (use lt in \<open>simp_all add: allowance_def split: option.splits\<close>)
next
  case None
  then have v: "verify_claim e claim s = (None, s1)" using assms by (simp add: on_declared_done_def)
  show ?thesis
  proof (cases "e_verify e")
    case None
    with v show ?thesis by (simp add: verify_claim_def split: prod.splits)
  next
    case (Some g)
    obtain ok out s0 where g: "verify_scoped_gate e False g s = ((ok, out), s0)"
      by (metis prod.collapse)
    with v Some have "revise_or_refuse e g claim out s0 = (None, s1)"
      by (auto simp: verify_claim_def split: if_splits option.splits prod.splits)
    with Some have "spends e s0 s1" by (intro revise_spends)
    with gate_spends [OF g] show ?thesis by (rule spends_trans)
  qed
qed

lemma act_on_calls_spending: "spending e (act_on_calls e final cs)"
proof (rule spendingI)
  fix s x s1 assume a: "act_on_calls e final cs s = (x, s1)" and x: "x = None \<or> x = Some Again"
  let ?s = "s\<lparr>l_transcript := l_transcript s @
              [(text_message RoleAssistant final)\<lparr>m_tool_calls := cs\<rparr>]\<rparr>"
  have 0: "spends e s ?s" by (rule spends_same) simp_all
  show "spends e s s1"
  proof (cases "cs = []")
    case True
    with a x have "on_declared_done e final ?s = (None, s1)"
      by (auto simp: act_on_calls_def Let_def split: prod.splits option.splits)
    from spends_trans [OF 0 on_declared_done_spends [OF this]] show ?thesis .
  next
    case False
    obtain m t s2 where d: "dispatch_round e cs ?s = (m, t, s2)" by (metis prod_cases3)
    define s3 where "s3 = (if t > 0 then s2\<lparr>world := e_extend e t (world s2)\<rparr> else s2)"
    have 1: "spends e ?s s3"
      by (rule spends_same) (simp_all add: s3_def dispatch_round_frame [OF d])
    have "mid_flight e m final s3 = (x, s1)"
      using a False d by (simp add: act_on_calls_def Let_def s3_def)
    then have "spends e s3 s1"
      using x spends_trans [of e s3 "s3\<lparr>l_last_opp := tn_round s3\<rparr>" s1,
          OF spends_same opportunistic_reconcile_spends]
      by (auto simp: mid_flight_def split: if_splits prod.splits option.splits)
    with 0 1 show ?thesis by (blast intro: spends_trans)
  qed
qed

lemma repeated_call_guard_spending: "spending e (repeated_call_guard e final cs)"
proof (rule spendingI)
  fix s x s1
  assume a: "repeated_call_guard e final cs s = (x, s1)" and x: "x = None \<or> x = Some Again"
  let ?f = "force_edge e (escalate_for_no_progress (tn_round s - tn_last_progress s)) EdgeEscalate s"
  consider "x = None" "s1 = s\<lparr>tn_prev_sig := tool_call_signature (e_marshal e) cs\<rparr>"
    | s2 where "?f = (True, s2)"
        "s1 = s2\<lparr>tn_cycle_start := tn_round s2, tn_last_progress := tn_round s2, tn_prev_sig := []\<rparr>"
    using a x by (auto simp: repeated_call_guard_def Let_def try_green_def
        split: if_splits prod.splits bool.splits option.splits)
  then show "spends e s s1"
  proof cases
    case 1
    then show ?thesis by (auto intro: spends_same)
  next
    case 2
    from force_edge_draws [OF moves_climb(2) 2(1)] show ?thesis
      by (intro new_cycle_spends [of e s2 s s1]) (simp_all add: 2(2))
  qed
qed

lemma use_response_spending: "spending e (use_response e sent resp)"
proof (rule spendingI)
  fix s x s1 assume a: "use_response e sent resp s = (x, s1)" and x: "x = None \<or> x = Some Again"
  obtain cs s0 where n: "narrated_calls e resp (account_for_call e resp sent s) = (cs, s0)" by fastforce
  have 0: "spends e s s0" by (rule spends_same) (simp_all add: narrated_frame [OF n])
  have "spends e s0 s1"
    using a n x spendingD [OF spending_next [OF repeated_call_guard_spending act_on_calls_spending]]
    by (simp add: use_response_def)
  with 0 show "spends e s s1" by (rule spends_trans)
qed

text \<open>The guards at the top of a round. The first one ends the cycle whose budget is spent.\<close>

lemma exhaustion_guard_spends:
  assumes "exhaustion_guard e s = (x, s1)" "x = None \<or> x = Some Again"
  shows "spends e s s1 \<and> (x = None \<longrightarrow> tn_round s - tn_cycle_start s < e_max_rounds e)
    \<and> (x = Some Again \<longrightarrow> allowance e s1 < allowance e s \<and> tn_cycle_start s1 = tn_round s)"
proof (cases "tn_round s - tn_cycle_start s \<ge> e_max_rounds e")
  case False
  with assms show ?thesis by (auto simp: exhaustion_guard_def)
next
  case True
  obtain s0 where g: "opportunistic_green e [] s = (None, s0)"
    using assms True by (auto simp: exhaustion_guard_def try_green_def split: prod.splits option.splits)
  let ?f = "force_edge e (escalate_for_retry_exhaustion (tn_round s0 - tn_cycle_start s0)) EdgeEscalate s0"
  obtain s2 where f: "?f = (True, s2)" and x: "x = Some Again"
    and s1: "s1 = s2\<lparr>tn_cycle_start := tn_round s2, tn_last_progress := tn_round s2\<rparr>"
    using assms True g
    by (auto simp: exhaustion_guard_def try_green_def split: prod.splits bool.splits)
  have 0: "spends e s s0" using g by (rule opportunistic_green_spends)
  have d: "allowance e s2 < allowance e s0" "tn_round s2 = tn_round s0"
    using force_edge_draws [OF moves_climb(1) f] by auto
  have r0: "tn_round s0 = tn_round s" using 0 by (simp add: spends_def)
  have "allowance e s0 \<le> allowance e s" using 0 by (auto simp: spends_def)
  then have lt: "allowance e s2 < allowance e s" using d by simp
  moreover have "allowance e s1 = allowance e s2" by (rule allowance_same) (simp_all add: s1)
  moreover have "spends e s s1"
    by (rule new_cycle_spends [OF lt]) (simp_all add: s1 d r0)
  ultimately show ?thesis using x d r0 by (simp add: s1)
qed

lemma note_rung_spending: "spending e (note_rung e)"
  by (rule spendingI) (auto simp: note_rung_def Let_def intro!: spends_same)

lemma strong_bound_guard_spending: "spending e (strong_bound_guard e)"
  by (rule spendingI)
    (auto simp: strong_bound_guard_def try_green_def Let_def
      split: if_splits prod.splits option.splits)

lemma stop_with_ends: "stop_with e v s = (x, s1) \<Longrightarrow> x \<noteq> None \<and> x \<noteq> Some Again"
  by (auto simp: stop_with_def ending_def)

lemma breaker_guard_spending: "spending e (breaker_guard e)"
proof (rule spendingI)
  fix s x s1 assume a: "breaker_guard e s = (x, s1)" and x: "x = None \<or> x = Some Again"
  let ?f = "force_edge e (escalate_for_no_progress (tn_round s - tn_last_progress s)) EdgeEscalate s"
  consider "s1 = s" | s2 where "?f = (True, s2)" "s1 = s2\<lparr>tn_last_progress := tn_round s2\<rparr>"
    using a x stop_with_ends
    by (auto simp: breaker_guard_def split: option.splits prod.splits if_splits bool.splits) blast+
  then show "spends e s s1"
  proof cases
    case 1
    then show ?thesis by simp
  next
    case 2
    have "spends e s s2" using force_edge_spends [OF moves_never_drop(2), of e s] 2(1)
      by (metis snd_conv)
    then show ?thesis by (rule spends_trans) (simp add: 2(2) spends_same)
  qed
qed

lemma bound_transcript_spending: "spending e (bound_transcript e)"
  by (rule spendingI) (auto simp: bound_transcript_def Let_def intro!: spends_same)

lemma floor_fit_guard_spending: "spending e (floor_fit_guard e)"
proof (rule spendingI)
  fix s x s1 assume a: "floor_fit_guard e s = (x, s1)" and x: "x = None \<or> x = Some Again"
  define s0 where "s0 = note_compaction (force_compact e 1 s)"
  have 0: "spends e s s0"
    unfolding s0_def by (cases "force_compact e 1 s")
      (rule spends_same; metis note_compaction_frame force_compact_frame snd_conv)
  obtain b s2 where f: "force_edge e escalate_for_overflow EdgeEscalate s0 = (b, s2)" by fastforce
  have "s1 = s \<or> s1 = s0 \<or> s1 = s2 \<or> s1 = s2\<lparr>tn_last_progress := tn_round s2\<rparr>"
    using a f by (auto simp: floor_fit_guard_def Let_def s0_def split: if_splits bool.splits)
  moreover have 2: "spends e s s2"
    using spends_trans [OF 0 force_edge_spends [OF moves_never_drop(5)]] f by (metis snd_conv)
  moreover have "spends e s (s2\<lparr>tn_last_progress := tn_round s2\<rparr>)"
    by (rule spends_trans [OF 2]) (simp add: spends_same)
  ultimately show "spends e s s1" using 0 by auto
qed

text \<open>Recovery from a fault that is no rate limit.\<close>

lemma recovery_spends:
  assumes "recover_from_fault e err s = (RecoverRetry, s1)"
    and "classify_fault (Some err) \<noteq> FaultRateLimit"
  shows "spends e s s1"
proof -
  have fc: "spends e s' (snd (force_compact e n s'))" for n s'
    by (rule spends_same) simp_all
  have fe: "spends e s' (snd (force_edge e escalate_for_overflow d s'))"
    "spends e s' (snd (force_edge e (escalate_for_fault k) d s'))" for d k s'
    by (rule force_edge_spends, rule moves_never_drop)+
  let ?n = "\<lambda>f. f (tn_faults s) + 1"
  have 0: "spends e s (s\<lparr>tn_faults := fr\<rparr>)" for fr by (rule spends_same) simp_all
  show ?thesis
  proof (cases "classify_fault (Some err)")
    case FaultContextOverflow
    let ?s = "s\<lparr>tn_faults := (tn_faults s)\<lparr>fr_overflow := ?n fr_overflow\<rparr>\<rparr>"
    obtain ev s2 where c: "force_compact e (nat (?n fr_overflow)) ?s = (ev, s2)" by fastforce
    obtain b s3 where f: "force_edge e escalate_for_overflow EdgeEscalate s2 = (b, s3)" by fastforce
    have "s1 = s2 \<or> s1 = s3" using FaultContextOverflow assms(1) c f
      by (auto simp: recover_from_fault_def recover_overflow_def Let_def
          split: if_splits option.splits bool.splits)
    moreover have "spends e s s2" using spends_trans [OF 0 fc] c by (metis snd_conv)
    moreover have "spends e s2 s3" using fe(1) f by (metis snd_conv)
    ultimately show ?thesis by (blast intro: spends_trans)
  next
    case FaultMalformedToolCall
    let ?s = "s\<lparr>tn_faults := (tn_faults s)\<lparr>fr_malformed := ?n fr_malformed\<rparr>\<rparr>"
    obtain b s3 where f:
      "force_edge e (escalate_for_fault FaultMalformedToolCall) EdgeEscalate ?s = (b, s3)"
      by fastforce
    have "s1 = s3 \<or> s1 = ?s\<lparr>l_transcript := l_transcript ?s @ [text_message RoleUser malformed_reprompt]\<rparr>"
      using FaultMalformedToolCall assms(1) f
      by (auto simp: recover_from_fault_def recover_malformed_def Let_def
          split: if_splits bool.splits)
    moreover have "spends e s s3" using spends_trans [OF 0 fe(2)] f by (metis snd_conv)
    moreover have "spends e s (?s\<lparr>l_transcript := l_transcript ?s @ [text_message RoleUser malformed_reprompt]\<rparr>)"
      by (rule spends_same) simp_all
    ultimately show ?thesis by blast
  next
    case FaultTimeout
    let ?s = "s\<lparr>tn_faults := (tn_faults s)\<lparr>fr_timeout := ?n fr_timeout\<rparr>\<rparr>"
    obtain ev s2 where c: "force_compact e (nat (?n fr_timeout)) ?s = (ev, s2)" by fastforce
    have "s1 = s2 \<or> s1 = snd (force_edge e (escalate_for_fault FaultTimeout) EdgeEscalate s2)
        \<or> s1 = snd (force_edge e (escalate_for_fault FaultTimeout) EdgeEscalate ?s)"
      using FaultTimeout assms(1) c
      by (auto simp: recover_from_fault_def recover_timeout_def Let_def
          split: if_splits option.splits bool.splits prod.splits)
    moreover have "spends e s s2" using spends_trans [OF 0 fc] c by (metis snd_conv)
    ultimately show ?thesis using spends_trans [OF _ fe(2)] 0 by blast
  next
    case FaultNone
    with assms show ?thesis by (simp add: recover_from_fault_def)
  qed (use assms in simp)
qed

lemma call_model_reply:
  assumes "call_model e s = (sent, reply, s1)"
  shows "\<exists>m w. reply = fst (e_complete e m (l_transcript s) w)"
proof -
  obtain rung r w where n: "next_adapter (e_pool e)
      (\<lambda>i. e_available e (model_at (l_router s) i) (world s)) (l_router s, world s) = (rung, r, w)"
    by (metis prod_cases3)
  obtain rep w' where k: "e_complete e (model_at r rung) (l_transcript s) w = (rep, w')" by fastforce
  have "reply = rep" using assms by (simp add: call_model_def Let_def n k)
  with k show ?thesis by (metis fst_conv)
qed

definition never_throttled :: "'w env \<Rightarrow> bool" where
  "never_throttled e = (\<forall>m ms w. case fst (e_complete e m ms w) of
       Inl err \<Rightarrow> classify_fault (Some err) \<noteq> FaultRateLimit | Inr _ \<Rightarrow> True)"

lemma work_phase_spending:
  assumes "never_throttled e"
  shows "spending e (work_phase e)"
proof (rule spendingI)
  fix s x s1 assume a: "work_phase e s = (x, s1)" and x: "x = None \<or> x = Some Again"
  obtain sent reply s0 where c: "call_model e s = (sent, reply, s0)" by (metis prod_cases3)
  have 0: "spends e s s0" using c by (rule call_model_spends)
  show "spends e s s1"
  proof (cases reply)
    case (Inl err)
    obtain m w where r: "reply = fst (e_complete e m (l_transcript s) w)"
      using call_model_reply [OF c] by blast
    have "case fst (e_complete e m (l_transcript s) w) of
        Inl err \<Rightarrow> classify_fault (Some err) \<noteq> FaultRateLimit | Inr _ \<Rightarrow> True"
      using assms unfolding never_throttled_def by blast
    then have k: "classify_fault (Some err) \<noteq> FaultRateLimit"
      unfolding r [symmetric] Inl by simp
    have "recover_from_fault e err s0 = (RecoverRetry, s1)"
      using a c Inl x
      by (auto simp: work_phase_def handle_fault_def ending_def
          split: prod.splits recover_action.splits)
    from spends_trans [OF 0 recovery_spends [OF this k]] show ?thesis .
  next
    case (Inr resp)
    have "use_response e sent resp s0 = (x, s1)" using a c Inr by (simp add: work_phase_def)
    from spends_trans [OF 0 spendingD [OF use_response_spending this x]] show ?thesis .
  qed
qed

lemma run_round_spends:
  assumes "never_throttled e" "run_round e s = (x, s1)" "x = None \<or> x = Some Again"
  shows "potential e (s1\<lparr>tn_round := tn_round s1 + 1\<rparr>) < potential e s"
proof -
  let ?rest = "next_phase (note_rung e) (next_phase (strong_bound_guard e)
     (next_phase (breaker_guard e) (next_phase (bound_transcript e) (floor_fit_guard e))))"
  have rest: "spending e (next_phase ?rest (work_phase e))"
    by (intro spending_next note_rung_spending strong_bound_guard_spending breaker_guard_spending
        bound_transcript_spending floor_fit_guard_spending work_phase_spending assms(1))
  have assoc: "run_round e s = next_phase (exhaustion_guard e) (next_phase ?rest (work_phase e)) s"
    by (simp only: run_round_def guard_phases_def next_phase_assoc)
  obtain y s0 where y: "exhaustion_guard e s = (y, s0)" by fastforce
  have "spends e s s1 \<and> (tn_round s - tn_cycle_start s < e_max_rounds e \<or> tn_cycle_start s1 = tn_round s
      \<and> allowance e s1 < allowance e s)"
  proof (cases y)
    case None
    with y assms(2,3) have "next_phase ?rest (work_phase e) s0 = (x, s1)"
      unfolding assoc by (simp add: next_phase_def)
    then have "spends e s0 s1" using rest assms(3) by (blast dest: spendingD)
    with exhaustion_guard_spends [OF y] None show ?thesis by (blast intro: spends_trans)
  next
    case (Some z)
    with y assms(2,3) have "x = Some Again" "y = Some Again" "s0 = s1"
      unfolding assoc by (auto simp: next_phase_def)
    with exhaustion_guard_spends [OF y] show ?thesis by blast
  qed
  then have sp: "spends e s s1"
    and lt: "tn_cycle_start s1 = tn_cycle_start s \<longrightarrow> allowance e s1 < allowance e s
        \<or> tn_round s - tn_cycle_start s < e_max_rounds e"
    by auto
  let ?s2 = "s1\<lparr>tn_round := tn_round s1 + 1\<rparr>" and ?M = "nat (e_max_rounds e)"
  have al: "allowance e ?s2 = allowance e s1" by (rule allowance_same) simp_all
  have rd: "tn_round s1 = tn_round s" using sp by (simp add: spends_def)
  show ?thesis
  proof (cases "allowance e s1 < allowance e s")
    case True
    then have cs: "tn_cycle_start s1 = tn_cycle_start s \<or> tn_cycle_start s1 \<le> tn_round s + 1"
      using sp by (auto simp: spends_def)
    have "allowance e s1 * (?M + 2) + (?M + 2) \<le> allowance e s * (?M + 2)"
      using True by (metis Suc_leI add.commute mult_Suc mult_le_mono1)
    moreover have "nat (e_max_rounds e - (tn_round ?s2 - tn_cycle_start s1))
        \<le> nat (e_max_rounds e - (tn_round s - tn_cycle_start s)) + ?M"
    proof (cases "tn_cycle_start s1 = tn_cycle_start s")
      case True
      then show ?thesis using rd by simp
    next
      case False
      then have "tn_cycle_start s1 \<le> tn_round s + 1" using cs by simp
      then show ?thesis using rd by simp
    qed
    ultimately show ?thesis using al by (simp add: potential_def)
  next
    case False
    then have "tn_cycle_start s1 = tn_cycle_start s" "allowance e s1 = allowance e s"
      "tn_round s - tn_cycle_start s < e_max_rounds e"
      using sp lt by (auto simp: spends_def)
    then show ?thesis using al rd by (simp add: potential_def)
  qed
qed

lemma run_rounds_terminate:
  assumes "never_throttled e" "potential e s < n"
  shows "\<exists>res s1. run_rounds e n s = Some (res, s1)"
  using assms(2)
proof (induction n arbitrary: s)
  case 0
  then show ?case by simp
next
  case (Suc n)
  obtain x s1 where x: "run_round e s = (x, s1)" by fastforce
  let ?s2 = "s1\<lparr>tn_round := tn_round s1 + 1\<rparr>"
  show ?case
  proof (cases "x = None \<or> x = Some Again")
    case True
    with run_round_spends [OF assms(1) x] Suc.prems have "potential e ?s2 < n" by simp
    from Suc.IH [OF this] x True show ?thesis by auto
  next
    case False
    with x show ?thesis by (cases x; cases "the x") auto
  qed
qed

subsection \<open>The ledger\<close>

lemma conclude_ledger: "conclude e f s = (res, s1) \<Longrightarrow> l_ledger s1 = l_ledger s"
  by (erule conclude_cases) (simp_all add: finish_frame)

lemma gate_ledger: "verify_scoped_gate e d g s = (r, s1) \<Longrightarrow> l_ledger s1 = l_ledger s"
  using gate_frame [of e d g s] by simp

definition unpaid :: "'w phase \<Rightarrow> bool" where
  "unpaid p = (\<forall>s x s1. p s = (x, s1) \<longrightarrow> l_ledger s1 = l_ledger s)"

lemma unpaidI: "(\<And>s x s1. p s = (x, s1) \<Longrightarrow> l_ledger s1 = l_ledger s) \<Longrightarrow> unpaid p"
  unfolding unpaid_def by blast

lemma unpaidD: "unpaid p \<Longrightarrow> p s = (x, s1) \<Longrightarrow> l_ledger s1 = l_ledger s"
  unfolding unpaid_def by blast

lemma unpaid_next: "unpaid p \<Longrightarrow> unpaid q \<Longrightarrow> unpaid (next_phase p q)"
  by (rule unpaidI) (auto simp: next_phase_def split: prod.splits option.splits dest!: unpaidD)

lemma opportunistic_green_unpaid: "opportunistic_green e final s = (x, s1) \<Longrightarrow> l_ledger s1 = l_ledger s"
  by (auto simp: opportunistic_green_def Let_def split: option.splits prod.splits if_splits
      dest!: gate_ledger conclude_ledger)

lemma opportunistic_reconcile_unpaid:
  "opportunistic_reconcile e final s = (x, s1) \<Longrightarrow> l_ledger s1 = l_ledger s"
  by (auto simp: opportunistic_reconcile_def Let_def split: option.splits prod.splits if_splits
      dest!: gate_ledger conclude_ledger)

lemma try_green_unpaid: "unpaid q \<Longrightarrow> unpaid (try_green e final q)"
  by (rule unpaidI) (auto simp: try_green_def split: prod.splits option.splits
      dest!: opportunistic_green_unpaid unpaidD)

lemma force_edge_unpaid: "force_edge e move want s = (b, s1) \<Longrightarrow> l_ledger s1 = l_ledger s"
  using force_edge_frame [of e move want s] by simp

lemma force_compact_unpaid: "force_compact e n s = (ev, s1) \<Longrightarrow> l_ledger s1 = l_ledger s"
  using force_compact_frame [of e n s] by simp

lemma close_on_fault_unpaid: "close_on_fault e d st err s = (x, s1) \<Longrightarrow> l_ledger s1 = l_ledger s"
  by (auto simp: close_on_fault_def Let_def finish_frame split: option.splits prod.splits
      dest!: gate_ledger)

lemma stop_with_unpaid: "unpaid (stop_with e v)"
  by (rule unpaidI) (auto simp: stop_with_def ending_def intro: conclude_ledger surjective_pairing)

lemma exhaustion_guard_unpaid: "unpaid (exhaustion_guard e)"
proof (rule unpaidI)
  fix s x s1 assume a: "exhaustion_guard e s = (x, s1)"
  let ?q = "\<lambda>s1. case force_edge e (escalate_for_retry_exhaustion (tn_round s1 - tn_cycle_start s1))
      EdgeEscalate s1 of
      (True, s2) \<Rightarrow> (Some Again, s2\<lparr>tn_cycle_start := tn_round s2, tn_last_progress := tn_round s2\<rparr>)
    | (False, s2) \<Rightarrow> (Some (BreakOut None), s2)"
  have "unpaid ?q"
    by (rule unpaidI) (auto split: prod.splits bool.splits dest!: force_edge_unpaid)
  then have "unpaid (try_green e [] ?q)" by (rule try_green_unpaid)
  with a show "l_ledger s1 = l_ledger s"
    by (auto simp: exhaustion_guard_def split: if_splits dest!: unpaidD)
qed

lemma strong_bound_guard_unpaid: "unpaid (strong_bound_guard e)"
proof (rule unpaidI)
  fix s x s1 assume a: "strong_bound_guard e s = (x, s1)"
  let ?q = "\<lambda>s1. case finish_turn e s1 of
      None \<Rightarrow> (Some (EndTurnWith Panicked), s1)
    | Some (perr, s2) \<Rightarrow>
        (let v = strong_bound_verdict e s2
         in (Some (EndTurnWith (Answered ((base_result perr s2)\<lparr>tr_stopped := Some v,
               tr_escalate := (if e_verify e \<noteq> None then Some (Unsatisfied v) else None)\<rparr>))), s2))"
  have "unpaid ?q"
    by (rule unpaidI) (auto simp: Let_def finish_frame split: option.splits prod.splits)
  then have "unpaid (try_green e [] ?q)" by (rule try_green_unpaid)
  with a show "l_ledger s1 = l_ledger s"
    by (auto simp: strong_bound_guard_def split: if_splits dest!: unpaidD)
qed

lemma breaker_guard_unpaid: "unpaid (breaker_guard e)"
  by (rule unpaidI)
    (auto simp: breaker_guard_def split: option.splits prod.splits if_splits bool.splits
      dest!: force_edge_unpaid unpaidD [OF stop_with_unpaid])

lemma note_rung_unpaid: "unpaid (note_rung e)"
  by (rule unpaidI) (auto simp: note_rung_def Let_def)

lemma bound_transcript_unpaid: "unpaid (bound_transcript e)"
  by (rule unpaidI) (auto simp: bound_transcript_def Let_def)

lemma floor_fit_guard_unpaid: "unpaid (floor_fit_guard e)"
proof (rule unpaidI)
  fix s x s1 assume a: "floor_fit_guard e s = (x, s1)"
  obtain ev s0 where c: "force_compact e 1 s = (ev, s0)" by fastforce
  obtain b s2 where f: "force_edge e escalate_for_overflow EdgeEscalate (note_compaction (ev, s0)) = (b, s2)"
    by fastforce
  have "l_ledger s2 = l_ledger s"
    using force_edge_unpaid [OF f] force_compact_unpaid [OF c] by simp
  moreover have "l_ledger (note_compaction (ev, s0)) = l_ledger s"
    using force_compact_unpaid [OF c] by simp
  ultimately show "l_ledger s1 = l_ledger s"
    using a c f by (auto simp: floor_fit_guard_def Let_def split: if_splits bool.splits)
qed

lemma recovery_unpaid: "recover_from_fault e err s = (x, s1) \<Longrightarrow> l_ledger s1 = l_ledger s"
  by (auto simp: recover_from_fault_def recover_overflow_def recover_malformed_def
      recover_timeout_def recover_rate_limit_def Let_def
      split: fault_kind.splits if_splits prod.splits option.splits bool.splits
      dest!: force_compact_unpaid force_edge_unpaid)

lemma handle_fault_unpaid: "unpaid (handle_fault e err)"
proof (rule unpaidI)
  fix s x s1 assume a: "handle_fault e err s = (x, s1)"
  obtain act s0 where r: "recover_from_fault e err s = (act, s0)" by fastforce
  have g: "l_ledger (snd (end_gracefully e err s0)) = l_ledger s0"
    by (auto simp: end_gracefully_def close_on_graceful_fault_def split: prod.splits option.splits
        dest!: close_on_fault_unpaid)
      (metis conclude_ledger prod.collapse)
  have ab: "l_ledger (snd (end_aborted e err why s0)) = l_ledger s0" for why
    by (auto simp: end_aborted_def close_on_terminal_fault_def finish_frame
        split: prod.splits option.splits dest!: close_on_fault_unpaid)
  show "l_ledger s1 = l_ledger s"
    using a r g ab recovery_unpaid [OF r]
    by (auto simp: handle_fault_def ending_def split: recover_action.splits)
qed

lemma on_declared_done_unpaid:
  assumes "on_declared_done e claim s = (x, s1)"
  shows "l_ledger s1 = l_ledger s"
proof -
  have lift: "l_ledger (stuck_verify_lift e s') = l_ledger s'" for s' by simp
  have rev: "revise_or_refuse e g claim out s' = (x, s1) \<Longrightarrow> l_ledger s1 = l_ledger s'" for g out s'
    by (auto simp: revise_or_refuse_def Let_def split: if_splits prod.splits dest!: conclude_ledger)
  have "verify_claim e claim s = (x, s1) \<Longrightarrow> l_ledger s1 = l_ledger s"
    by (auto simp: verify_claim_def split: option.splits prod.splits if_splits
        dest!: gate_ledger conclude_ledger rev)
  then show ?thesis
    using assms by (auto simp: on_declared_done_def split: option.splits if_splits prod.splits
        dest!: conclude_ledger)
qed

lemma act_on_calls_unpaid: "unpaid (act_on_calls e final cs)"
  by (rule unpaidI)
    (auto simp: act_on_calls_def mid_flight_def Let_def dispatch_round_frame
      split: if_splits prod.splits option.splits
      dest!: on_declared_done_unpaid opportunistic_reconcile_unpaid)

lemma repeated_call_guard_unpaid: "unpaid (repeated_call_guard e final cs)"
proof (rule unpaidI)
  fix s x s1 assume a: "repeated_call_guard e final cs s = (x, s1)"
  let ?q = "\<lambda>s2. (Some (BreakOut (Some (tn_round s2 - tn_last_progress s2))), s2)"
  have "unpaid ?q" by (rule unpaidI) auto
  then have "unpaid (try_green e final ?q)" by (rule try_green_unpaid)
  with a show "l_ledger s1 = l_ledger s"
    by (auto simp: repeated_call_guard_def Let_def split: if_splits prod.splits bool.splits
        dest!: unpaidD force_edge_unpaid)
qed

text \<open>The state in which a round calls its model is within every ceiling.\<close>

definition affordable :: "'w env \<Rightarrow> ledger \<Rightarrow> bool" where
  "affordable e lg = (0 < cb_max_cost (e_breaker e) \<longrightarrow> total_usd lg < cb_max_cost (e_breaker e))"

lemma guard_phases_affordable:
  assumes "guard_phases e s = (x, s1)"
  shows "l_ledger s1 = l_ledger s \<and> (x = None \<longrightarrow> affordable e (l_ledger s))"
proof -
  let ?top = "next_phase (exhaustion_guard e) (next_phase (note_rung e) (strong_bound_guard e))"
  let ?bottom = "next_phase (bound_transcript e) (floor_fit_guard e)"
  have split: "guard_phases e = next_phase ?top (next_phase (breaker_guard e) ?bottom)"
    by (simp only: guard_phases_def next_phase_assoc)
  have top: "unpaid ?top"
    by (intro unpaid_next exhaustion_guard_unpaid note_rung_unpaid strong_bound_guard_unpaid)
  have bottom: "unpaid ?bottom"
    by (intro unpaid_next bound_transcript_unpaid floor_fit_guard_unpaid)
  have "unpaid (guard_phases e)"
    unfolding split by (intro unpaid_next top breaker_guard_unpaid bottom)
  then have same: "l_ledger s1 = l_ledger s" using assms by (rule unpaidD)
  moreover have "affordable e (l_ledger s)" if none: "x = None"
  proof -
    obtain s0 s' where t: "?top s = (None, s0)" and b: "breaker_guard e s0 = (None, s')"
    proof -
      have "next_phase ?top (next_phase (breaker_guard e) ?bottom) s = (None, s1)"
        using assms none unfolding split by simp
      then obtain s0 where 1: "?top s = (None, s0)"
        and 2: "next_phase (breaker_guard e) ?bottom s0 = (None, s1)"
        by (rule exE [OF next_phase_None [THEN iffD1]]) blast
      from 2 obtain s' where "breaker_guard e s0 = (None, s')"
        by (rule exE [OF next_phase_None [THEN iffD1]]) blast
      with 1 show thesis by (rule that)
    qed
    have "breaker_trip e s0 = None"
    proof (rule ccontr)
      assume "breaker_trip e s0 \<noteq> None"
      then obtain v esc where v: "breaker_trip e s0 = Some (v, esc)" by auto
      obtain f s2 where f: "force_edge e (escalate_for_no_progress (tn_round s0 - tn_last_progress s0))
          EdgeEscalate s0 = (f, s2)" by fastforce
      have "stop_with e v s0 = (None, s') \<or> stop_with e v s2 = (None, s')"
        using b v f by (simp add: breaker_guard_def split: if_splits bool.splits)
      then show False using stop_with_ends by blast
    qed
    then have "affordable e (l_ledger s0)"
      by (auto simp: breaker_trip_def affordable_def breaker_enabled_def Let_def
          split: option.splits if_splits)
    with unpaidD [OF top t] show ?thesis by simp
  qed
  ultimately show ?thesis by blast
qed

lemma account_ledger:
  "l_ledger (account_for_call e resp sent s) = snd (ledger_add (rs_model resp) (rs_usage resp) (l_ledger s))"
  by (simp add: account_for_call_def case_prod_beta Let_def split: option.splits)

text \<open>A round adds at most the reply of one call to the ledger, and only behind the ceilings.\<close>

lemma run_round_ledger:
  assumes "run_round e s = (x, s1)"
  shows "l_ledger s1 = l_ledger s
    \<or> affordable e (l_ledger s) \<and> (\<exists>m ms w resp. fst (e_complete e m ms w) = Inr resp
        \<and> l_ledger s1 = snd (ledger_add (rs_model resp) (rs_usage resp) (l_ledger s)))"
proof -
  obtain y s0 where g: "guard_phases e s = (y, s0)" by fastforce
  note aff = guard_phases_affordable [OF g]
  show ?thesis
  proof (cases y)
    case (Some z)
    with assms g aff show ?thesis by (simp add: run_round_def next_phase_def)
  next
    case None
    then have w: "work_phase e s0 = (x, s1)" using assms g by (simp add: run_round_def next_phase_def)
    obtain sent reply s2 where c: "call_model e s0 = (sent, reply, s2)" by (metis prod_cases3)
    have l2: "l_ledger s2 = l_ledger s0" using c by (auto simp: call_model_def Let_def split: prod.splits)
    obtain m v where r: "reply = fst (e_complete e m (l_transcript s0) v)"
      using call_model_reply [OF c] by blast
    show ?thesis
    proof (cases reply)
      case (Inl err)
      then have "handle_fault e err s2 = (x, s1)" using w c by (simp add: work_phase_def)
      from unpaidD [OF handle_fault_unpaid this] l2 aff show ?thesis by simp
    next
      case (Inr resp)
      obtain cs s3 where n: "narrated_calls e resp (account_for_call e resp sent s2) = (cs, s3)" by fastforce
      have "next_phase (repeated_call_guard e (rs_text resp) cs) (act_on_calls e (rs_text resp) cs) s3 = (x, s1)"
        using w c Inr n by (simp add: work_phase_def use_response_def)
      from unpaidD [OF unpaid_next [OF repeated_call_guard_unpaid act_on_calls_unpaid] this]
      have "l_ledger s1 = snd (ledger_add (rs_model resp) (rs_usage resp) (l_ledger s))"
        using narrated_frame(2) [OF n] account_ledger [of e resp sent s2] l2 aff by simp
      moreover have "fst (e_complete e m (l_transcript s0) v) = Inr resp" using r Inr by simp
      ultimately show ?thesis using aff None by blast
    qed
  qed
qed

lemma end_exhausted_ledger: "l_ledger (snd (end_exhausted e d s)) = l_ledger s"
  by (auto simp: end_exhausted_def finish_frame split: option.splits prod.splits)

lemma run_rounds_ledger:
  assumes "run_rounds e n s = Some (res, s1)"
    and price: "\<And>m ms w resp. fst (e_complete e m ms w) = Inr resp \<Longrightarrow>
      fst (price_usage (rs_model resp) (rs_usage resp)) \<le> k"
    and "0 < cb_max_cost (e_breaker e)" "total_usd (l_ledger s) < cb_max_cost (e_breaker e) + k"
    "0 \<le> k"
  shows "total_usd (l_ledger s1) < cb_max_cost (e_breaker e) + k"
  using assms(1,4)
proof (induction n arbitrary: s)
  case 0
  then show ?case by simp
next
  case (Suc n)
  obtain x s2 where x: "run_round e s = (x, s2)" by fastforce
  have step: "total_usd (l_ledger s2) < cb_max_cost (e_breaker e) + k"
    using run_round_ledger [OF x]
  proof
    assume "l_ledger s2 = l_ledger s"
    with Suc.prems show ?thesis by simp
  next
    assume a: "affordable e (l_ledger s) \<and> (\<exists>m ms w resp. fst (e_complete e m ms w) = Inr resp
        \<and> l_ledger s2 = snd (ledger_add (rs_model resp) (rs_usage resp) (l_ledger s)))"
    then obtain m ms w resp where r: "fst (e_complete e m ms w) = Inr resp"
      and l: "l_ledger s2 = snd (ledger_add (rs_model resp) (rs_usage resp) (l_ledger s))" by blast
    obtain usd src where u: "price_usage (rs_model resp) (rs_usage resp) = (usd, src)" by fastforce
    have "total_usd (l_ledger s2) = total_usd (l_ledger s) + usd"
      using l u by (intro ledger_add_total [of "rs_model resp" "rs_usage resp"])
        (simp add: ledger_add_def)
    moreover have "usd \<le> k" using price [OF r] u by simp
    moreover have "total_usd (l_ledger s) < cb_max_cost (e_breaker e)"
      using a assms(3) by (simp add: affordable_def)
    ultimately show ?thesis by simp
  qed
  have again: "run_rounds e n (s2\<lparr>tn_round := tn_round s2 + 1\<rparr>) = Some (res, s1) \<Longrightarrow> ?case"
    using step by (intro Suc.IH [of "s2\<lparr>tn_round := tn_round s2 + 1\<rparr>"]) simp_all
  show ?case
  proof (cases x)
    case None
    with Suc.prems(1) x again show ?thesis by simp
  next
    case (Some z)
    show ?thesis
    proof (cases z)
      case Again
      with Suc.prems(1) x again Some show ?thesis by simp
    next
      case (BreakOut d)
      with Suc.prems(1) x Some have "s1 = snd (end_exhausted e d s2)" by simp
      with step show ?thesis by (simp add: end_exhausted_ledger)
    next
      case (EndTurnWith r)
      with Suc.prems(1) x Some step show ?thesis by simp
    qed
  qed
qed

end
