(* ===== verification/Agent_Pairing.thy ===== *)
theory Agent_Pairing
  imports Agent_Bounds
begin

text \<open>
  The transcript of the agent loop stays well formed: whenever a model is called, every request of
  tool calls in the transcript is followed at once by its results, one for each call and in order,
  as long as the hooks leave the transcript and the calls alone and neither a model's text nor a
  tool's result starts with one of the loop's own reminder markers.
\<close>

subsection \<open>Open calls\<close>

text \<open>The calls that are still to be answered behind a transcript, \<^const>\<open>None\<close> when it is ill
  formed.\<close>

fun open_calls :: "string list \<Rightarrow> chat_message list \<Rightarrow> string list option" where
  "open_calls ps [] = Some ps"
| "open_calls [] (m # ms) =
     (if m_role m = RoleTool then None
      else open_calls (if m_role m = RoleAssistant then map call_id (m_tool_calls m) else []) ms)"
| "open_calls (p # ps) (m # ms) =
     (if m_role m = RoleTool \<and> m_tool_call_id m = p then open_calls ps ms else None)"

lemma paired_open: "paired_from ps ms \<longleftrightarrow> open_calls ps ms = Some []"
  by (induction ps ms rule: open_calls.induct) auto

lemma open_calls_append:
  "open_calls ps (xs @ ys) = Option.bind (open_calls ps xs) (\<lambda>qs. open_calls qs ys)"
  by (induction ps xs rule: open_calls.induct) auto

lemma open_calls_filter:
  assumes "open_calls ps ms = Some qs"
    and "\<forall>m \<in> set ms. \<not> keep m \<longrightarrow> m_role m \<noteq> RoleTool \<and> m_tool_calls m = []"
  shows "open_calls ps (filter keep ms) = Some qs"
  using assms
proof (induction ps ms rule: open_calls.induct)
  case (1 ps)
  then show ?case by simp
next
  case (2 m ms)
  then show ?case by (cases "keep m"; cases "m_role m") auto
next
  case (3 p ps m ms)
  then show ?case by (auto split: if_splits)
qed

lemma open_calls_clear:
  "open_calls ps ms = Some qs \<Longrightarrow> unmarked ms \<Longrightarrow> open_calls ps (clear_spawn_force ms) = Some qs"
  unfolding clear_spawn_force_def drop_marked_def
  by (rule open_calls_filter) (auto simp: unmarked_def list_all_iff)

subsection \<open>Assumptions on the environment\<close>

definition marked :: "string \<Rightarrow> bool" where
  "marked t = (has_prefix t goal_reminder_marker \<or> has_prefix t spawn_force_marker)"

definition tame_hooks :: "'w env \<Rightarrow> bool" where
  "tame_hooks e = (\<forall>kind ctx.
     hr_transcript (hc_rest (fire (e_hooks e) kind ctx)) = hr_transcript (hc_rest ctx)
     \<and> hc_tool_call (fire (e_hooks e) kind ctx) = hc_tool_call ctx)"

definition tame_env :: "'w env \<Rightarrow> bool" where
  "tame_env e = (tame_hooks e \<and> (\<forall>v. \<not> marked (e_encode e v))
     \<and> (\<forall>m ms w. case fst (e_complete e m ms w) of Inl _ \<Rightarrow> True | Inr resp \<Rightarrow> \<not> marked (rs_text resp)))"

lemma fire_hook_transcript:
  assumes "tame_hooks e" "hr_transcript (hc_rest ctx) = l_transcript s"
  shows "l_transcript (snd (fire_hook e kind ctx s)) = l_transcript s"
    "hc_tool_call (fst (fire_hook e kind ctx s)) = hc_tool_call ctx"
  using assms by (simp_all add: fire_hook_def Let_def tame_hooks_def)

lemma hook_ctx_transcript [simp]:
  "hr_transcript (hc_rest (hook_ctx e kind turn s)) = l_transcript s"
  "hc_tool_call (hook_ctx e kind turn s) = None"
  by (simp_all add: hook_ctx_def)

lemma marker_prefix:
  assumes "has_prefix (take k raw @ newline @ t) m" "CHR 0x0A \<notin> set m"
  shows "has_prefix raw m"
proof -
  obtain u where u: "take k raw @ newline @ t = m @ u" using assms(1) by (auto simp: has_prefix_iff)
  show ?thesis
  proof (cases "length m \<le> length (take k raw)")
    case True
    then have "m = take (length m) (take k raw)" using u by (metis append_eq_append_conv_if append_take_drop_id)
    then show ?thesis by (metis has_prefix_iff append_take_drop_id append.assoc)
  next
    case False
    have "(take k raw @ newline @ t) ! length (take k raw) = CHR 0x0A"
      by (simp add: newline_def nth_append)
    moreover have "(m @ u) ! length (take k raw) = m ! length (take k raw)"
      using False by (simp only: nth_append not_le if_True)
    ultimately have "m ! length (take k raw) = CHR 0x0A" using u by simp
    with False assms(2) show ?thesis by (metis not_le nth_mem)
  qed
qed

lemma back_off_prefix: "\<exists>k. back_off s n = take k s"
  by (induction n) (auto intro: exI [of _ 0])

lemma cap_unmarked:
  assumes "\<not> marked raw"
  shows "\<not> marked (cap_tool_result e s raw)"
proof (cases "int (length raw) \<le> tool_result_cap e s")
  case True
  with assms show ?thesis by (simp add: cap_tool_result_def Let_def)
next
  case False
  obtain k where k: "back_off raw (nat (tool_result_cap e s)) = take k raw" using back_off_prefix by blast
  obtain t where "cap_notice (length (take k raw)) (length raw) = newline @ t"
    by (simp add: cap_notice_def)
  with False k have eq: "cap_tool_result e s raw = take k raw @ newline @ t"
    by (simp add: cap_tool_result_def Let_def)
  have "CHR 0x0A \<notin> set goal_reminder_marker" "CHR 0x0A \<notin> set spawn_force_marker"
    by (simp_all add: goal_reminder_marker_def spawn_force_marker_def)
  with marker_prefix [of k raw t] assms show ?thesis unfolding eq marked_def by blast
qed

subsection \<open>The invariant\<close>

definition well_paired :: "'w agent \<Rightarrow> bool" where
  "well_paired s = (paired (l_transcript s) \<and> unmarked (l_transcript s))"

lemma well_paired_same: "l_transcript s1 = l_transcript s \<Longrightarrow> well_paired s1 = well_paired s"
  by (simp add: well_paired_def)

lemma well_paired_user: "well_paired s \<Longrightarrow> r \<noteq> RoleTool \<Longrightarrow>
    well_paired (s\<lparr>l_transcript := l_transcript s @ [text_message r t]\<rparr>)"
  by (simp add: well_paired_def paired_snoc)

lemma well_paired_requeue: "well_paired s \<Longrightarrow> well_paired (requeue msg s)"
  by (simp add: requeue_def well_paired_def paired_snoc)

lemma well_paired_bound:
  assumes "well_paired s"
  shows "well_paired (bound_within_turn e s)"
proof (cases "l_compactor s")
  case None
  with assms show ?thesis by (simp add: bound_within_turn_def)
next
  case (Some c)
  obtain n ms where ev: "evict_tool_results (e_marshal e) (l_transcript s) (c_budget c)
      (l_spec_tokens s) min_keep_tool_results hard_keep_tool_results (c_token_ratio c) = (n, ms)"
    by fastforce
  have "l_transcript (bound_within_turn e s) = l_transcript s
      \<or> l_transcript (bound_within_turn e s) = ms"
    using Some ev by (simp add: bound_within_turn_def Let_def)
  moreover have "paired ms" "unmarked ms"
    using assms ev evict_paired [of "l_transcript s" "e_marshal e" "c_budget c" "l_spec_tokens s"
        min_keep_tool_results hard_keep_tool_results "c_token_ratio c"]
      evicted_unmarked [of "l_transcript s" "e_marshal e" "c_budget c" "l_spec_tokens s"
        min_keep_tool_results hard_keep_tool_results "c_token_ratio c"]
    by (simp_all add: well_paired_def)
  ultimately show ?thesis using assms unfolding well_paired_def by auto
qed

lemma well_paired_rewrite:
  assumes "well_paired s"
  shows "well_paired (snd (rewrite_to e c b r s))"
proof -
  obtain k w where k: "compact_to_budget (e_marshal e) (e_summarizer e) c (l_transcript s)
      (l_goal_anchor s) (l_summary s) (l_spec_tokens s) (l_turns s) b r (world s) = (k, w)"
    by fastforce
  have "l_transcript (snd (rewrite_to e c b r s)) = l_transcript s
      \<or> l_transcript (snd (rewrite_to e c b r s)) = k_transcript k"
    using k by (simp add: rewrite_to_def)
  moreover have "paired (k_transcript k)" "unmarked (k_transcript k)"
    using assms k compact_paired [of "l_transcript s" "e_marshal e" "e_summarizer e" c
        "l_goal_anchor s" "l_summary s" "l_spec_tokens s" "l_turns s" b r "world s"]
      compact_unmarked [of "l_transcript s" "e_marshal e" "e_summarizer e" c
        "l_goal_anchor s" "l_summary s" "l_spec_tokens s" "l_turns s" b r "world s"]
    by (simp_all add: well_paired_def)
  ultimately show ?thesis using assms unfolding well_paired_def by auto
qed

lemma well_paired_anchor: "well_paired (anchor_goal s) = well_paired s"
  by (simp add: well_paired_def)

lemma well_paired_force: "well_paired s \<Longrightarrow> well_paired (snd (force_compact e n s))"
  by (cases "l_compactor s") (simp_all add: force_compact_def well_paired_rewrite well_paired_anchor)

lemma well_paired_maybe: "well_paired s \<Longrightarrow> well_paired (snd (maybe_compact e s))"
  by (cases "l_compactor s") (simp_all add: maybe_compact_def well_paired_rewrite well_paired_anchor)

lemma finish_transcript:
  assumes "tame_hooks e" "finish_turn e s = Some (perr, s1)"
  shows "l_transcript s1 = l_transcript s"
proof -
  obtain err s0 where p: "persist_messages e s = Some (err, s0)"
    using assms(2) by (cases "persist_messages e s") (auto simp: finish_turn_def)
  obtain edge r where o1: "observe (turn_signals_of e s0) (l_router s0) = (edge, r)" by fastforce
  let ?s2 = "record_row e (EndTurn (tn_turn s0) (tool_errors (turn_signals_of e s0))
      (parse_failures (turn_signals_of e s0)) (tn_aborted s0)) (s0\<lparr>l_router := r\<rparr>)"
  let ?s3 = "record_escalation_edge e edge ?s2"
  have "s1 = snd (fire_hook e PostTurn (hook_ctx e PostTurn (tn_turn ?s3) ?s3) ?s3)"
    using assms(2) p o1 by (simp add: finish_turn_def Let_def)
  then have "l_transcript s1 = l_transcript ?s3"
    by (simp only: fire_hook_transcript(1) [OF assms(1) hook_ctx_transcript(1)])
  then show ?thesis using persist_frame(17) [OF p] by simp
qed

subsection \<open>Every phase keeps the invariant\<close>

definition keeps_paired :: "'w phase \<Rightarrow> bool" where
  "keeps_paired p = (\<forall>s x s1. p s = (x, s1) \<longrightarrow> well_paired s \<longrightarrow> well_paired s1)"

lemma keeps_pairedI:
  "(\<And>s x s1. p s = (x, s1) \<Longrightarrow> well_paired s \<Longrightarrow> well_paired s1) \<Longrightarrow> keeps_paired p"
  unfolding keeps_paired_def by blast

lemma keeps_pairedD: "keeps_paired p \<Longrightarrow> p s = (x, s1) \<Longrightarrow> well_paired s \<Longrightarrow> well_paired s1"
  unfolding keeps_paired_def by blast

lemma keeps_paired_next: "keeps_paired p \<Longrightarrow> keeps_paired q \<Longrightarrow> keeps_paired (next_phase p q)"
  by (rule keeps_pairedI) (auto simp: next_phase_def split: prod.splits option.splits dest: keeps_pairedD)

lemma keeps_same: "(\<And>s x s1. p s = (x, s1) \<Longrightarrow> l_transcript s1 = l_transcript s) \<Longrightarrow> keeps_paired p"
  by (rule keeps_pairedI) (metis well_paired_same)

lemma gate_transcript:
  "verify_scoped_gate e d g s = (r, s1) \<Longrightarrow> l_transcript s1 = l_transcript s"
  using gate_frame(17) [of e d g s] by simp

lemma force_edge_transcript: "force_edge e move want s = (b, s1) \<Longrightarrow> l_transcript s1 = l_transcript s"
  using force_edge_frame(16) [of e move want s] by simp

lemma force_compact_keeps: "force_compact e n s = (ev, s1) \<Longrightarrow> well_paired s \<Longrightarrow> well_paired s1"
  using well_paired_force [of s e n] by simp

lemma requeue_keeps: "requeue msg s = s1 \<Longrightarrow> well_paired s \<Longrightarrow> well_paired s1"
  using well_paired_requeue by blast

lemma conclude_transcript:
  "conclude e f s = (res, s1) \<Longrightarrow> tame_hooks e \<Longrightarrow> l_transcript s1 = l_transcript s"
  by (erule conclude_cases) (simp_all add: finish_transcript)

lemma opportunistic_green_transcript:
  "opportunistic_green e final s = (x, s1) \<Longrightarrow> tame_hooks e \<Longrightarrow> l_transcript s1 = l_transcript s"
  by (auto simp: opportunistic_green_def Let_def split: option.splits prod.splits if_splits
      dest!: gate_transcript conclude_transcript)

lemma opportunistic_reconcile_keeps:
  assumes "opportunistic_reconcile e final s = (x, s1)" "tame_hooks e" "well_paired s"
  shows "well_paired s1"
proof (cases "e_verify e")
  case None
  with assms show ?thesis by (simp add: opportunistic_reconcile_def)
next
  case (Some g)
  obtain ok out s0 where g: "verify_scoped_gate e False g s = ((ok, out), s0)"
    by (cases "verify_scoped_gate e False g s") auto
  have s0: "well_paired s0" using well_paired_same [OF gate_transcript [OF g]] assms(3) by simp
  have concl: "conclude e f s0 = (res, s1) \<Longrightarrow> well_paired s1" for f res
    using well_paired_same [OF conclude_transcript [OF _ assms(2)]] s0 by blast
  show ?thesis
  proof (cases ok)
    case True
    obtain res s2 where c: "conclude e (\<lambda>r. r\<lparr>tr_text := final\<rparr>) s0 = (res, s2)" by fastforce
    then have "s1 = s0 \<or> conclude e (\<lambda>r. r\<lparr>tr_text := final\<rparr>) s0 = (res, s1)"
      using assms(1) Some g True by (auto simp: opportunistic_reconcile_def split: if_splits)
    with s0 concl show ?thesis by blast
  next
    case False
    obtain grounds w where gr: "e_ground e out (vg_dir g) (world s0) = (grounds, w)" by fastforce
    have "s1 = s0 \<or> (\<exists>t. l_transcript s1 = l_transcript s0 @ [text_message RoleUser t])"
      using assms(1) Some g False gr by (auto simp: opportunistic_reconcile_def split: if_splits)
    with s0 show ?thesis by (auto simp: well_paired_def paired_snoc)
  qed
qed

lemma try_green_keeps:
  assumes "tame_hooks e" "keeps_paired q"
  shows "keeps_paired (try_green e final q)"
proof (rule keeps_pairedI)
  fix s x s1 assume a: "try_green e final q s = (x, s1)" and s: "well_paired s"
  obtain y s0 where o1: "opportunistic_green e final s = (y, s0)" by fastforce
  have "well_paired s0"
    using well_paired_same [OF opportunistic_green_transcript [OF o1 assms(1)]] s by simp
  with a o1 keeps_pairedD [OF assms(2)] show "well_paired s1"
    by (auto simp: try_green_def split: option.splits)
qed

lemma close_on_fault_transcript:
  "close_on_fault e d st err s = (x, s1) \<Longrightarrow> tame_hooks e \<Longrightarrow> l_transcript s1 = l_transcript s"
  by (auto simp: close_on_fault_def Let_def finish_transcript split: option.splits prod.splits
      dest!: gate_transcript)

lemma stop_with_keeps: "tame_hooks e \<Longrightarrow> keeps_paired (stop_with e v)"
  by (rule keeps_same)
    (auto simp: stop_with_def ending_def intro: conclude_transcript surjective_pairing)

lemma exhaustion_guard_keeps:
  assumes "tame_hooks e"
  shows "keeps_paired (exhaustion_guard e)"
proof (rule keeps_pairedI)
  fix s x s1 assume a: "exhaustion_guard e s = (x, s1)" and s: "well_paired s"
  let ?q = "\<lambda>s1. case force_edge e (escalate_for_retry_exhaustion (tn_round s1 - tn_cycle_start s1))
      EdgeEscalate s1 of
      (True, s2) \<Rightarrow> (Some Again, s2\<lparr>tn_cycle_start := tn_round s2, tn_last_progress := tn_round s2\<rparr>)
    | (False, s2) \<Rightarrow> (Some (BreakOut None), s2)"
  have "keeps_paired ?q"
    by (rule keeps_same) (auto split: prod.splits bool.splits dest!: force_edge_transcript)
  from try_green_keeps [OF assms this] have "keeps_paired (try_green e [] ?q)" .
  with a s show "well_paired s1"
    by (auto simp: exhaustion_guard_def split: if_splits dest!: keeps_pairedD)
qed

lemma strong_bound_guard_keeps:
  assumes "tame_hooks e"
  shows "keeps_paired (strong_bound_guard e)"
proof (rule keeps_pairedI)
  fix s x s1 assume a: "strong_bound_guard e s = (x, s1)" and s: "well_paired s"
  let ?q = "\<lambda>s1. case finish_turn e s1 of
      None \<Rightarrow> (Some (EndTurnWith Panicked), s1)
    | Some (perr, s2) \<Rightarrow>
        (let v = strong_bound_verdict e s2
         in (Some (EndTurnWith (Answered ((base_result perr s2)\<lparr>tr_stopped := Some v,
               tr_escalate := (if e_verify e \<noteq> None then Some (Unsatisfied v) else None)\<rparr>))), s2))"
  have "keeps_paired ?q"
    by (rule keeps_same)
      (auto simp: Let_def finish_transcript [OF assms] split: option.splits prod.splits)
  from try_green_keeps [OF assms this] have "keeps_paired (try_green e [] ?q)" .
  with a s show "well_paired s1"
    by (auto simp: strong_bound_guard_def split: if_splits dest!: keeps_pairedD)
qed

lemma breaker_guard_keeps:
  assumes "tame_hooks e"
  shows "keeps_paired (breaker_guard e)"
proof (rule keeps_pairedI)
  fix s x s1 assume a: "breaker_guard e s = (x, s1)" and s: "well_paired s"
  note stop = keeps_pairedD [OF stop_with_keeps [OF assms]]
  show "well_paired s1"
  proof (cases "breaker_trip e s")
    case None
    with a s show ?thesis by (simp add: breaker_guard_def)
  next
    case (Some ve)
    obtain v esc where ve: "ve = (v, esc)" by fastforce
    obtain b s0 where f: "force_edge e (escalate_for_no_progress (tn_round s - tn_last_progress s))
        EdgeEscalate s = (b, s0)" by fastforce
    have "well_paired s0" using well_paired_same [OF force_edge_transcript [OF f]] s by simp
    then show ?thesis
      using a s Some ve f stop [of v s0] stop [of v s]
      by (auto simp: breaker_guard_def well_paired_def split: if_splits bool.splits)
  qed
qed

lemma note_rung_keeps: "keeps_paired (note_rung e)"
  by (rule keeps_same) (auto simp: note_rung_def Let_def)

lemma bound_transcript_keeps: "keeps_paired (bound_transcript e)"
proof (rule keeps_pairedI)
  fix s x s1 assume a: "bound_transcript e s = (x, s1)" and s: "well_paired s"
  from well_paired_bound [OF s] have b: "well_paired (bound_within_turn e s)" .
  let ?t = "l_transcript (bound_within_turn e s)"
  have t: "paired ?t" "unmarked ?t" using b by (simp_all add: well_paired_def)
  have r: "paired (refresh_goal_reminder ?t x)" "unmarked (refresh_goal_reminder ?t x)" for x
    by (rule refresh_paired [OF t])+
  have "paired (l_transcript s1) \<and> unmarked (l_transcript s1)"
    using a t r refresh_paired(2,5) [OF t] refresh_paired(2,5) [OF r]
    by (auto simp: bound_transcript_def Let_def)
  then show "well_paired s1" by (simp add: well_paired_def)
qed

lemma floor_fit_guard_keeps: "keeps_paired (floor_fit_guard e)"
proof (rule keeps_pairedI)
  fix s x s1 assume a: "floor_fit_guard e s = (x, s1)" and s: "well_paired s"
  obtain ev s0 where c: "force_compact e 1 s = (ev, s0)" by fastforce
  obtain b s2 where f: "force_edge e escalate_for_overflow EdgeEscalate (note_compaction (ev, s0)) = (b, s2)"
    by fastforce
  have n: "well_paired (note_compaction (ev, s0))"
    using force_compact_keeps [OF c s] by (simp add: well_paired_def)
  have "well_paired s2" using well_paired_same [OF force_edge_transcript [OF f]] n by simp
  with n s a c f show "well_paired s1"
    by (auto simp: floor_fit_guard_def Let_def well_paired_def split: if_splits bool.splits)
qed

lemma guard_phases_keeps: "tame_hooks e \<Longrightarrow> keeps_paired (guard_phases e)"
  unfolding guard_phases_def
  by (intro keeps_paired_next exhaustion_guard_keeps note_rung_keeps strong_bound_guard_keeps
      breaker_guard_keeps bound_transcript_keeps floor_fit_guard_keeps)


lemma recovery_keeps:
  assumes "recover_from_fault e err s = (act, s1)" "well_paired s"
  shows "well_paired s1"
proof -
  have bump: "well_paired (s\<lparr>tn_faults := f\<rparr>)" for f
    using assms(2) by (simp add: well_paired_def)
  have user: "well_paired (s\<lparr>tn_faults := f,
      l_transcript := l_transcript s @ [text_message RoleUser t]\<rparr>)" for f t
    using assms(2) by (simp add: well_paired_def paired_snoc)
  have w: "well_paired (s\<lparr>tn_faults := f, world := w\<rparr>)" for f w
    using assms(2) by (simp add: well_paired_def)
  have edge: "force_edge e move want s2 = (b, s3) \<Longrightarrow> well_paired s2 \<Longrightarrow> well_paired s3"
    for move want s2 b s3
    using well_paired_same [OF force_edge_transcript] by blast
  show ?thesis
    using assms(1)
  proof (cases "classify_fault (Some err)")
    case FaultContextOverflow
    let ?n = "fr_overflow (tn_faults s) + 1"
    let ?s = "s\<lparr>tn_faults := (tn_faults s)\<lparr>fr_overflow := ?n\<rparr>\<rparr>"
    obtain ev s0 where c: "force_compact e (nat ?n) ?s = (ev, s0)" by fastforce
    obtain b s2 where f: "force_edge e escalate_for_overflow EdgeEscalate s0 = (b, s2)" by fastforce
    have s0: "well_paired s0" by (rule force_compact_keeps [OF c bump])
    have s2: "well_paired s2" by (rule edge [OF f s0])
    have "recover_overflow e err s = (act, s1)"
      using assms(1) FaultContextOverflow by (simp add: recover_from_fault_def)
    then show ?thesis
      using c f s0 s2 bump
      by (auto simp: recover_overflow_def Let_def split: if_splits option.splits bool.splits)
  next
    case FaultMalformedToolCall
    let ?s = "s\<lparr>tn_faults := (tn_faults s)\<lparr>fr_malformed := fr_malformed (tn_faults s) + 1\<rparr>\<rparr>"
    obtain b s2 where f: "force_edge e (escalate_for_fault FaultMalformedToolCall) EdgeEscalate ?s = (b, s2)"
      by fastforce
    have s2: "well_paired s2" by (rule edge [OF f bump])
    have "recover_malformed e err s = (act, s1)"
      using assms(1) FaultMalformedToolCall by (simp add: recover_from_fault_def)
    then show ?thesis
      using f s2 user by (auto simp: recover_malformed_def Let_def split: if_splits bool.splits)
  next
    case FaultTimeout
    let ?n = "fr_timeout (tn_faults s) + 1"
    let ?s = "s\<lparr>tn_faults := (tn_faults s)\<lparr>fr_timeout := ?n\<rparr>\<rparr>"
    obtain b s2 where f: "force_edge e (escalate_for_fault FaultTimeout) EdgeEscalate ?s = (b, s2)"
      by fastforce
    obtain ev s0 where c: "force_compact e (nat ?n) ?s = (ev, s0)" by fastforce
    obtain b' s3 where g: "force_edge e (escalate_for_fault FaultTimeout) EdgeEscalate s0 = (b', s3)"
      by fastforce
    have s0: "well_paired s0" by (rule force_compact_keeps [OF c bump])
    have s23: "well_paired s2" "well_paired s3" by (rule edge [OF f bump], rule edge [OF g s0])
    have "recover_timeout e s = (act, s1)"
      using assms(1) FaultTimeout by (simp add: recover_from_fault_def)
    then show ?thesis
      using c f g s0 s23 assms(2)
      by (auto simp: recover_timeout_def Let_def split: if_splits option.splits bool.splits)
  next
    case FaultRateLimit
    let ?n = "fr_rate_limit (tn_faults s) + 1"
    let ?s = "s\<lparr>tn_faults := (tn_faults s)\<lparr>fr_rate_limit := ?n\<rparr>\<rparr>"
    obtain b s2 where f: "force_edge e deescalate_to_floor EdgeDeescalate ?s = (b, s2)" by fastforce
    obtain z v where sl: "e_sleep e (backoff_duration ?n) (world ?s) = (z, v)" by fastforce
    have s2: "well_paired s2" by (rule edge [OF f bump])
    have "recover_rate_limit e s = (act, s1)"
      using assms(1) FaultRateLimit by (simp add: recover_from_fault_def)
    then show ?thesis
      using f s2 sl w by (auto simp: recover_rate_limit_def Let_def split: if_splits bool.splits)
  qed (use assms in \<open>simp add: recover_from_fault_def\<close>)
qed

lemma end_gracefully_transcript:
  assumes "tame_hooks e"
  shows "l_transcript (snd (end_gracefully e err s)) = l_transcript s"
proof -
  obtain x s1 where c: "close_on_graceful_fault e err s = (x, s1)" by fastforce
  have 1: "l_transcript s1 = l_transcript s"
    using close_on_fault_transcript [OF _ assms] c by (simp add: close_on_graceful_fault_def)
  obtain res s2 where d: "conclude e (\<lambda>r. r\<lparr>tr_model_fault := classify_fault (Some err)\<rparr>) s1 = (res, s2)"
    by fastforce
  show ?thesis
    using c d 1 conclude_transcript [OF d assms] by (cases x) (simp_all add: end_gracefully_def)
qed

lemma end_aborted_transcript:
  assumes "tame_hooks e"
  shows "l_transcript (snd (end_aborted e err why s)) = l_transcript s"
proof -
  obtain x s1 where c: "close_on_terminal_fault e err s = (x, s1)" by fastforce
  have 1: "l_transcript s1 = l_transcript s"
    using close_on_fault_transcript [OF _ assms] c by (simp add: close_on_terminal_fault_def)
  show ?thesis
    using c 1 finish_transcript [OF assms]
    by (cases x) (auto simp: end_aborted_def split: option.splits prod.splits)
qed

lemma handle_fault_keeps:
  assumes "tame_hooks e"
  shows "keeps_paired (handle_fault e err)"
proof (rule keeps_pairedI)
  fix s x s1 assume a: "handle_fault e err s = (x, s1)" and s: "well_paired s"
  obtain act s0 where r: "recover_from_fault e err s = (act, s0)" by fastforce
  have "well_paired s0" by (rule recovery_keeps [OF r s])
  then show "well_paired s1"
    using a r end_gracefully_transcript [OF assms, of err s0]
      end_aborted_transcript [OF assms, of err _ s0]
    by (cases act) (auto simp: handle_fault_def ending_def well_paired_def)
qed

lemma revise_keeps:
  assumes "revise_or_refuse e g claim out s = (x, s1)" "tame_hooks e" "well_paired s"
  shows "well_paired s1"
proof (cases "l_verify_rounds s < max_rounds_or_default g")
  case True
  let ?s = "stuck_verify_lift e (s\<lparr>l_verify_rounds := l_verify_rounds s + 1\<rparr>)"
  obtain grounds w where gr: "e_ground e out (vg_dir g) (world ?s) = (grounds, w)" by fastforce
  have "well_paired (?s\<lparr>world := w\<rparr>)" using assms(3) by (simp add: well_paired_def)
  with well_paired_requeue show ?thesis
    using assms(1) True gr by (auto simp: revise_or_refuse_def Let_def)
next
  case False
  then have "\<exists>f res. conclude e f s = (res, s1)"
    using assms(1) by (auto simp: revise_or_refuse_def split: prod.splits)
  then show ?thesis using conclude_transcript [OF _ assms(2)] well_paired_same assms(3) by blast
qed

lemma verify_claim_keeps:
  assumes "verify_claim e claim s = (x, s1)" "tame_hooks e" "well_paired s"
  shows "well_paired s1"
proof (cases "e_verify e")
  case None
  then have "\<exists>f res. conclude e f s = (res, s1)"
    using assms(1) by (auto simp: verify_claim_def split: prod.splits)
  then show ?thesis using conclude_transcript [OF _ assms(2)] well_paired_same assms(3) by blast
next
  case (Some g)
  obtain ok out s0 where g: "verify_scoped_gate e False g s = ((ok, out), s0)"
    by (cases "verify_scoped_gate e False g s") auto
  have s0: "well_paired s0" using well_paired_same [OF gate_transcript [OF g]] assms(3) by simp
  have "revise_or_refuse e g claim out s0 = (x, s1) \<or> (\<exists>f res. conclude e f s0 = (res, s1))"
    using assms(1) Some g by (auto simp: verify_claim_def split: if_splits prod.splits option.splits)
  then show ?thesis
    using revise_keeps [OF _ assms(2) s0] conclude_transcript [OF _ assms(2)] well_paired_same s0
    by blast
qed

lemma on_declared_done_keeps:
  assumes "on_declared_done e claim s = (x, s1)" "tame_hooks e" "well_paired s"
  shows "well_paired s1"
proof (cases "guards_refuse e StageFabrication claim (e_verify e \<noteq> None) s")
  case None
  with assms verify_claim_keeps show ?thesis by (simp add: on_declared_done_def)
next
  case (Some reason)
  have "well_paired (s\<lparr>l_fab_rounds := n\<rparr>)" for n using assms(3) by (simp add: well_paired_def)
  with well_paired_requeue
  have r: "well_paired (requeue m (s\<lparr>l_fab_rounds := n\<rparr>))" for m n by blast
  have "(\<exists>m n. s1 = requeue m (s\<lparr>l_fab_rounds := n\<rparr>)) \<or> (\<exists>f res. conclude e f s = (res, s1))"
    using assms(1) Some by (auto simp: on_declared_done_def split: if_splits prod.splits)
  then show ?thesis
    using r conclude_transcript [OF _ assms(2)] well_paired_same assms(3) by blast
qed

subsection \<open>Dispatching answers the open calls in order\<close>

text \<open>The calls \<open>ps\<close> are still to be answered.\<close>

definition awaiting :: "string list \<Rightarrow> 'w agent \<Rightarrow> bool" where
  "awaiting ps s = (open_calls [] (l_transcript s) = Some ps \<and> unmarked (l_transcript s))"

lemma awaiting_same: "l_transcript s1 = l_transcript s \<Longrightarrow> awaiting ps s1 = awaiting ps s"
  by (simp add: awaiting_def)

lemma awaiting_Nil: "awaiting [] s = well_paired s"
  by (simp add: awaiting_def well_paired_def paired_open)

lemma awaiting_answer:
  assumes "awaiting (p # ps) s" "\<not> marked t"
  shows "awaiting ps (s\<lparr>l_transcript := l_transcript s @
    [\<lparr>m_role = RoleTool, m_content = t, m_tool_call_id = p, m_name = n, m_tool_calls = []\<rparr>]\<rparr>)"
  using assms by (simp add: awaiting_def open_calls_append unmarked_def marked_def)

lemma awaiting_clear:
  "awaiting ps s \<Longrightarrow> awaiting ps (s\<lparr>tn_last_spawn := k, l_transcript := clear_spawn_force (l_transcript s)\<rparr>)"
  by (simp add: awaiting_def open_calls_clear) (auto simp: clear_spawn_force_def intro: drop_marked_unmarked)

lemma resolve_transcript: "resolve_call e ctx c s = (r, s1) \<Longrightarrow> l_transcript s1 = l_transcript s"
  using resolve_frame(17) [of e ctx c s] by simp

lemma dispatch_call_answers:
  assumes "tame_env e" "awaiting (call_id c # ps) s" "dispatch_call e c (m, t, s) = (m', t', s')"
  shows "awaiting ps s'"
proof -
  have th: "tame_hooks e" and enc: "\<And>v. \<not> marked (e_encode e v)"
    using assms(1) by (auto simp: tame_env_def)
  obtain pc s1 where 1: "fire_hook e PreToolUse
      ((hook_ctx e PreToolUse (tn_turn s) s)\<lparr>hc_tool_call := Some c\<rparr>) s = (pc, s1)" by fastforce
  have t1: "l_transcript s1 = l_transcript s" "hc_tool_call pc = Some c"
    using fire_hook_transcript [OF th, of "(hook_ctx e PreToolUse (tn_turn s) s)\<lparr>hc_tool_call := Some c\<rparr>" s
        PreToolUse] 1 by simp_all
  let ?s2 = "harvest pc s1"
  obtain res s3 where 3: "resolve_call e pc c ?s2 = (res, s3)" by fastforce
  have t3: "l_transcript s3 = l_transcript s" using resolve_transcript [OF 3] t1 by simp
  let ?s4 = "s3\<lparr>tn_dispatches := tn_dispatches s3 @ [res],
      tn_last_progress := (if is_mutating_write res then tn_round s3 else tn_last_progress s3)\<rparr>"
  let ?s5 = "if is_spawn_call res
      then ?s4\<lparr>tn_last_spawn := tn_round ?s4 + 1, l_transcript := clear_spawn_force (l_transcript ?s4)\<rparr>
      else ?s4"
  have a4: "awaiting (call_id c # ps) ?s4" using assms(2) t3 by (simp add: awaiting_def)
  have a5: "awaiting (call_id c # ps) ?s5"
    using a4 awaiting_clear [OF a4] by (cases "is_spawn_call res") (simp_all only: if_True if_False)
  let ?raw = "e_encode e (res_value res)"
  let ?s6 = "record_row e (RecordToolCall (tn_turn ?s5) c (e_encode_params e (params c)) ?raw res
      (tn_model ?s5)) (track_truncated_view e c ?raw ?s5)"
  have t6: "l_transcript ?s6 = l_transcript ?s5" by simp
  have a6: "awaiting (call_id c # ps) ?s6" using awaiting_same [OF t6] a5 by blast
  let ?ctx = "(hook_ctx e PostToolUse (tn_turn ?s6) ?s6)\<lparr>hc_tool_call := Some c,
      hc_rest := (hc_rest (hook_ctx e PostToolUse (tn_turn ?s6) ?s6))\<lparr>hr_result := Some res\<rparr>\<rparr>"
  obtain oc s7 where 7: "fire_hook e PostToolUse ?ctx ?s6 = (oc, s7)" by fastforce
  have ctx: "hr_transcript (hc_rest ?ctx) = l_transcript ?s6" "hc_tool_call ?ctx = Some c"
    by (simp_all add: hook_ctx_def)
  have t7: "l_transcript s7 = l_transcript ?s6" "hc_tool_call oc = Some c"
    using fire_hook_transcript [OF th ctx(1), of PostToolUse] 7 ctx(2) by (metis snd_conv, metis fst_conv)
  let ?s8 = "harvest oc s7"
  have a8: "awaiting (call_id c # ps) ?s8"
    using awaiting_same [of ?s8 ?s6] t7(1) a6 by simp
  have "s' = ?s8\<lparr>l_transcript := l_transcript ?s8 @
      [\<lparr>m_role = RoleTool, m_content = cap_tool_result e ?s8 ?raw, m_tool_call_id = call_id c,
        m_name = surface c, m_tool_calls = []\<rparr>]\<rparr>"
    using assms(3) 1 3 7 t1(2) t7(2)
    by (simp add: dispatch_call_def Let_def)
  then show ?thesis using awaiting_answer [OF a8 cap_unmarked [OF enc]] by metis
qed

lemma dispatch_calls_answer:
  assumes "tame_env e"
  shows "awaiting (map call_id cs) (snd (snd x)) \<Longrightarrow> awaiting [] (snd (snd (fold (dispatch_call e) cs x)))"
proof (induction cs arbitrary: x)
  case Nil
  then show ?case by simp
next
  case (Cons c cs)
  obtain m t s where x: "x = (m, t, s)" by (metis prod_cases3)
  obtain m' t' s' where d: "dispatch_call e c (m, t, s) = (m', t', s')" by (metis prod_cases3)
  have "awaiting (map call_id cs) s'"
    using dispatch_call_answers [OF assms _ d] Cons.prems x by simp
  with Cons.IH [of "(m', t', s')"] x d show ?case by simp
qed

lemma act_on_calls_keeps:
  assumes "tame_env e" "\<not> marked final"
  shows "keeps_paired (act_on_calls e final cs)"
proof (rule keeps_pairedI)
  fix s x s1 assume a: "act_on_calls e final cs s = (x, s1)" and s: "well_paired s"
  have th: "tame_hooks e" using assms(1) by (simp add: tame_env_def)
  let ?s = "s\<lparr>l_transcript := l_transcript s @ [(text_message RoleAssistant final)\<lparr>m_tool_calls := cs\<rparr>]\<rparr>"
  have open1: "awaiting (map call_id cs) ?s"
    using s assms(2)
    by (simp add: awaiting_def well_paired_def paired_open open_calls_append text_message_def
        unmarked_def marked_def)
  show "well_paired s1"
  proof (cases "cs = []")
    case True
    then have w: "well_paired ?s" using open1 by (simp add: awaiting_Nil)
    obtain y s0 where d: "on_declared_done e final ?s = (y, s0)" by fastforce
    have "s1 = s0" using a d True by (cases y) (simp_all add: act_on_calls_def Let_def)
    with on_declared_done_keeps [OF d th w] show ?thesis by simp
  next
    case False
    obtain m t s2 where d: "dispatch_round e cs ?s = (m, t, s2)" by (metis prod_cases3)
    have "awaiting [] s2"
      using dispatch_calls_answer [OF assms(1), of cs "(False, 0, ?s)"] open1 d
      by (simp add: dispatch_round_def)
    then have w2: "well_paired s2" by (simp add: awaiting_Nil)
    let ?s3 = "if t > 0 then s2\<lparr>world := e_extend e t (world s2)\<rparr> else s2"
    have w3: "well_paired ?s3" "well_paired (?s3\<lparr>l_last_opp := k\<rparr>)" for k
      using w2 by (simp_all add: well_paired_def)
    have m: "mid_flight e m final ?s3 = (x, s1)"
      using a d False by (simp add: act_on_calls_def Let_def)
    show ?thesis
    proof (cases "e_opp_every e > 0 \<and> m \<and> tn_round ?s3 - l_last_opp ?s3 \<ge> e_opp_every e")
      case True
      obtain y s4 where r: "opportunistic_reconcile e final (?s3\<lparr>l_last_opp := tn_round ?s3\<rparr>) = (y, s4)"
        by fastforce
      have "s1 = s4" using m r True unfolding mid_flight_def by (cases y) simp_all
      with opportunistic_reconcile_keeps [OF r th w3(2)] show ?thesis by simp
    next
      case False
      then have "mid_flight e m final ?s3 = (Some Again, ?s3)"
        unfolding mid_flight_def by (rule if_not_P)
      with m w3(1) show ?thesis by simp
    qed
  qed
qed

lemma repeated_call_guard_keeps:
  assumes "tame_hooks e"
  shows "keeps_paired (repeated_call_guard e final cs)"
proof (rule keeps_pairedI)
  fix s x s1 assume a: "repeated_call_guard e final cs s = (x, s1)" and s: "well_paired s"
  let ?q = "\<lambda>s2. (Some (BreakOut (Some (tn_round s2 - tn_last_progress s2))), s2)"
  have "keeps_paired ?q" by (rule keeps_same) auto
  from try_green_keeps [OF assms this] have q: "keeps_paired (try_green e final ?q)" .
  obtain b s0 where f: "force_edge e (escalate_for_no_progress (tn_round s - tn_last_progress s))
      EdgeEscalate s = (b, s0)" by fastforce
  have s0: "well_paired s0" using well_paired_same [OF force_edge_transcript [OF f]] s by simp
  have "l_transcript s1 = l_transcript s0 \<or> l_transcript s1 = l_transcript s
      \<or> try_green e final ?q s0 = (x, s1)"
    using a f by (auto simp: repeated_call_guard_def Let_def split: if_splits bool.splits)
  with s s0 keeps_pairedD [OF q _ s0] well_paired_same show "well_paired s1" by blast
qed

lemma account_transcript [simp]: "l_transcript (account_for_call e resp sent s) = l_transcript s"
  by (simp add: account_for_call_def case_prod_beta Let_def split: option.splits)

lemma call_model_transcript: "call_model e s = (sent, reply, s1) \<Longrightarrow> l_transcript s1 = l_transcript s"
  by (auto simp: call_model_def Let_def split: prod.splits)

lemma work_phase_keeps:
  assumes "tame_env e"
  shows "keeps_paired (work_phase e)"
proof (rule keeps_pairedI)
  fix s x s1 assume a: "work_phase e s = (x, s1)" and s: "well_paired s"
  have th: "tame_hooks e" using assms by (simp add: tame_env_def)
  obtain sent reply s0 where c: "call_model e s = (sent, reply, s0)" by (metis prod_cases3)
  have s0: "well_paired s0" using well_paired_same [OF call_model_transcript [OF c]] s by simp
  show "well_paired s1"
  proof (cases reply)
    case (Inl err)
    with a c have "handle_fault e err s0 = (x, s1)" by (simp add: work_phase_def)
    from keeps_pairedD [OF handle_fault_keeps [OF th] this s0] show ?thesis .
  next
    case (Inr resp)
    obtain m w where "reply = fst (e_complete e m (l_transcript s) w)"
      using call_model_reply [OF c] by blast
    then have "fst (e_complete e m (l_transcript s) w) = Inr resp" using Inr by simp
    with assms have unm: "\<not> marked (rs_text resp)"
      unfolding tame_env_def by (metis sum.case(2))
    obtain cs s2 where n: "narrated_calls e resp (account_for_call e resp sent s0) = (cs, s2)" by fastforce
    have s2: "well_paired s2"
      using well_paired_same [of s2 s0] narrated_frame(7) [OF n] s0 by simp
    have "next_phase (repeated_call_guard e (rs_text resp) cs) (act_on_calls e (rs_text resp) cs) s2 = (x, s1)"
      using a c Inr n by (simp add: work_phase_def use_response_def)
    from keeps_pairedD [OF keeps_paired_next [OF repeated_call_guard_keeps [OF th]
          act_on_calls_keeps [OF assms unm]] this s2] show ?thesis .
  qed
qed

lemma run_round_keeps: "tame_env e \<Longrightarrow> keeps_paired (run_round e)"
  unfolding run_round_def
  by (intro keeps_paired_next guard_phases_keeps work_phase_keeps) (simp_all add: tame_env_def)

subsection \<open>The rounds of a turn\<close>

text \<open>The states in which a round of the turn that starts in \<open>s0\<close> begins.\<close>

inductive round_state :: "'w env \<Rightarrow> 'w agent \<Rightarrow> 'w agent \<Rightarrow> bool" for e s0 where
  first_round: "round_state e s0 s0"
| later_round: "round_state e s0 s \<Longrightarrow> run_round e s = (x, s1) \<Longrightarrow> x = None \<or> x = Some Again
    \<Longrightarrow> round_state e s0 (s1\<lparr>tn_round := tn_round s1 + 1\<rparr>)"

lemma round_state_paired:
  assumes "round_state e s0 s" "tame_env e" "well_paired s0"
  shows "well_paired s"
  using assms(1)
proof induction
  case first_round
  show ?case by (rule assms(3))
next
  case (later_round s x s1)
  have "well_paired s1" using keeps_pairedD [OF run_round_keeps [OF assms(2)]] later_round by blast
  then show ?case by (simp add: well_paired_def)
qed

lemma paired_users: "paired (map (text_message RoleSystem) xs)" "unmarked (map (text_message RoleSystem) xs)"
  by (induction xs) (auto simp: text_message_def unmarked_def)

lemma start_session_transcript: "tame_hooks e \<Longrightarrow> l_transcript (start_session e s) = l_transcript s"
  by (simp add: start_session_def fire_hook_transcript)

lemma receive_prompt_keeps:
  assumes "tame_hooks e" "well_paired s"
  shows "well_paired (receive_prompt e prompt s)"
proof -
  obtain md s1 where 1: "probe_context e prompt s = (md, s1)" by fastforce
  have t1: "l_transcript s1 = l_transcript s"
    using 1 by (auto simp: probe_context_def split: option.splits prod.splits)
  let ?h = "hook_ctx e PreUserPrompt (tn_turn s1) s1"
  let ?ctx = "?h\<lparr>hc_rest := (hc_rest ?h)\<lparr>hr_prompt := prompt, hr_metadata := md\<rparr>\<rparr>"
  obtain pre s2 where 2: "fire_hook e PreUserPrompt ?ctx s1 = (pre, s2)" by fastforce
  have ctx: "hr_transcript (hc_rest ?ctx) = l_transcript s1" by (simp add: hook_ctx_def)
  have t2: "l_transcript s2 = l_transcript s"
    using fire_hook_transcript(1) [OF assms(1) ctx, of PreUserPrompt] 2 t1 by simp
  let ?s3 = "harvest pre (s2\<lparr>l_transcript := l_transcript s2
      @ map (text_message RoleSystem) (hr_additions (hc_rest pre))\<rparr>)"
  have s3: "well_paired ?s3"
    using assms(2) t2 by (simp add: well_paired_def paired_append paired_users)
  let ?s4 = "?s3\<lparr>l_transcript := l_transcript ?s3 @ [text_message RoleUser prompt],
      l_goal_anchor := (if l_goal_anchor ?s3 = [] then prompt else l_goal_anchor ?s3)\<rparr>"
  have s4: "well_paired ?s4"
    using well_paired_user [OF s3, of RoleUser prompt] by (simp add: well_paired_def)
  obtain pt s5 where 5: "fire_hook e PreTurn (hook_ctx e PreTurn (tn_turn ?s4) ?s4) ?s4 = (pt, s5)"
    by fastforce
  have "l_transcript s5 = l_transcript ?s4"
    using fire_hook_transcript(1) [OF assms(1) hook_ctx_transcript(1), of PreTurn] 5 by (metis snd_conv)
  then have "well_paired (harvest pt s5)" using well_paired_same [of "harvest pt s5" ?s4] s4 by simp
  moreover have "receive_prompt e prompt s = harvest pt s5"
    using 1 2 5 by (simp add: receive_prompt_def Let_def)
  ultimately show ?thesis by simp
qed

lemma begin_turn_keeps:
  assumes "tame_hooks e" "well_paired s"
  shows "well_paired (begin_turn e prompt s)"
proof -
  have 0: "well_paired (start_session e s)"
    using well_paired_same [OF start_session_transcript [OF assms(1)]] assms(2) by simp
  obtain ev s1 where m: "maybe_compact e (start_session e s) = (ev, s1)" by fastforce
  have "well_paired s1" using well_paired_maybe [OF 0, of e] m by simp
  then have "well_paired (start_turn s1 ev)" by (simp add: start_turn_def well_paired_def)
  from receive_prompt_keeps [OF assms(1) this] show ?thesis by (simp add: begin_turn_def m)
qed

lemma end_exhausted_transcript: "tame_hooks e \<Longrightarrow> l_transcript (snd (end_exhausted e d s)) = l_transcript s"
  by (auto simp: end_exhausted_def finish_transcript split: option.splits prod.splits)

lemma run_rounds_paired:
  assumes "tame_env e"
  shows "run_rounds e n s = Some (res, s1) \<Longrightarrow> well_paired s \<Longrightarrow> well_paired s1"
proof (induction n arbitrary: s)
  case 0
  then show ?case by simp
next
  case (Suc n)
  have th: "tame_hooks e" using assms by (simp add: tame_env_def)
  obtain x s2 where x: "run_round e s = (x, s2)" by fastforce
  have s2: "well_paired s2" by (rule keeps_pairedD [OF run_round_keeps [OF assms] x Suc.prems(2)])
  then have s3: "well_paired (s2\<lparr>tn_round := k\<rparr>)" for k by (simp add: well_paired_def)
  have again: "run_rounds e n (s2\<lparr>tn_round := tn_round s2 + 1\<rparr>) = Some (res, s1) \<Longrightarrow> ?case"
    by (rule Suc.IH [OF _ s3])
  show ?case
  proof (cases x)
    case None
    with Suc.prems(1) x again show ?thesis by simp
  next
    case (Some z)
    show ?thesis
    proof (cases z)
      case Again
      with Suc.prems(1) x again Some show ?thesis by simp
    next
      case (BreakOut d)
      with Suc.prems(1) x Some have "s1 = snd (end_exhausted e d s2)" by simp
      with end_exhausted_transcript [OF th] s2 show ?thesis by (simp add: well_paired_def)
    next
      case (EndTurnWith r)
      with Suc.prems(1) x Some s2 show ?thesis by simp
    qed
  qed
qed

end
