(* ===== verification/Agent_Demo.thy ===== *)
theory Agent_Demo
  imports Agent_Pairing
begin

text \<open>
  A small world in which turns of the agent loop can be evaluated: its state counts the model calls
  made, a script answers each of them, the gate always gives the same exit code, every tool call
  succeeds and no hook is registered.
\<close>

definition demo_router :: "string list \<Rightarrow> router" where
  "demo_router tiers = \<lparr>r_tiers = tiers, r_floor = 0, r_cur = 0, r_highest = 0,
     r_config = \<lparr>c_triggers = None, c_deesc_turns = 2\<rparr>, r_clean_streak = 0, r_bound_rung = -1,
     r_bound_max = 0, r_bound_served = 0, r_bound_blocked = 0, r_sticky_top = False,
     r_cold_start = 0, r_strong_unavailable = 0, r_has_budget = False\<rparr>"

definition demo_usage :: cost_usage where
  "demo_usage = \<lparr>cu_input = 0, cu_cached = 0, cu_cache_write = 0, cu_output = 0,
     cu_provider_usd = 1, cu_reported = True\<rparr>"

definition says :: "string \<Rightarrow> call list \<Rightarrow> go_error + response" where
  "says t cs = Inr \<lparr>rs_model = ''floor'', rs_text = t, rs_calls = cs, rs_usage = demo_usage\<rparr>"

definition faults :: "sentinel \<Rightarrow> go_error + response" where
  "faults k = Inl \<lparr>err_wraps = [k], err_text = ''fault''\<rparr>"

definition succeed :: "call \<Rightarrow> result" where
  "succeed c = \<lparr>res_call = c, res_ok = True, res_value = VMap [], res_class = ClassNone,
     latency_ms = 0, span_id = []\<rparr>"

definition demo_call :: "string \<Rightarrow> string \<Rightarrow> call" where
  "demo_call act path = \<lparr>call_id = ''1'', surface = ''fs'', action = act,
     params = Some [''file_path'' \<mapsto> VStr path], rationale = []\<rparr>"

definition demo_gate :: verify_gate where
  "demo_gate = \<lparr>vg_command = [''make''], vg_dir = [], vg_max_rounds = 1, vg_timeout = 0\<rparr>"

definition scripted :: "(string \<Rightarrow> nat \<Rightarrow> go_error + response) \<Rightarrow> int \<Rightarrow> nat env" where
  "scripted script code =
     \<lparr>e_specs = [], e_max_rounds = 12, e_session = [],
      e_breaker = \<lparr>cb_max_cost = 0, cb_max_tokens = 0, cb_no_progress = 0\<rparr>,
      e_goal_every = 0, e_spawn_every = 0, e_profile_tools = None, e_floor_window = 0,
      e_tier_budgets = [], e_verify = None, e_terminal_green = None, e_opp_every = 0,
      e_stuck_after = 0, e_fab_reprompts = 0, e_result_cap = 0, e_guards = [],
      e_verify_dir = [], e_start_rung = [], e_hooks = new_surface, e_prober = None,
      e_complete = (\<lambda>m ms w. (script m w, w + 1)), e_available = (\<lambda>_ _. True),
      e_dispatch = (\<lambda>c w. (succeed c, w)), e_marshal = (\<lambda>_. Some ''{}''),
      e_encode = (\<lambda>_. ''{}''), e_encode_params = (\<lambda>_. ''{}''), e_unmarshal = (\<lambda>_. None),
      e_summarizer = (\<lambda>_ w. (Inr ''brief'', w)),
      e_run_gate = (\<lambda>_ _ _ _ w. ((code, ''out''), w)), e_dir_exists = (\<lambda>_ _. True),
      e_module_dir = (\<lambda>_. None), e_ground = (\<lambda>_ _ w. ([], w)), e_store = False,
      e_append = (\<lambda>_ _ _ w. (None, w)), e_record = (\<lambda>_ w. w), e_propose = None,
      e_pool = \<lparr>sb_exhausted = (\<lambda>_. False), sb_take = (\<lambda>w. w)\<rparr>, e_meter = (\<lambda>_. None),
      e_set_meter = (\<lambda>_ w. w), e_done = (\<lambda>_. False), e_sleep = (\<lambda>_ w. (True, w)),
      e_now = (\<lambda>_. 0), e_extend = (\<lambda>_ w. w)\<rparr>"

lemmas demo_defs = demo_router_def demo_usage_def says_def faults_def succeed_def demo_call_def
  demo_gate_def scripted_def

lemma scripted_tame [simp]: "tame_hooks (scripted script code)"
  by (simp add: tame_hooks_def scripted_def new_surface_def fire_def)

lemmas turn_defs = begin_turn_def start_session_def fire_hook_def hook_ctx_def fire_def
  new_surface_def maybe_compact_def start_turn_def receive_prompt_def probe_context_def harvest_def
  zero_faults_def fresh_agent_def

lemmas guard_defs = guard_phases_def next_phase_def exhaustion_guard_def note_rung_def
  sync_budget_to_rung_def strong_bound_guard_def pool_spent_def breaker_guard_def breaker_trip_def
  breaker_enabled_def bound_transcript_def bound_within_turn_def floor_fit_guard_def

lemma recover_none [simp]: "recover_narrated (\<lambda>_. None) t sp = []"
proof -
  have "first_narrated (\<lambda>_. None) sp bs = []" for bs by (induction bs) auto
  then show ?thesis by (simp add: recover_narrated_def)
qed

lemma detect_none [simp]:
  assumes "c_triggers (r_config r) = None"
  shows "detect r sg = None"
proof -
  from assms have "detect_in ts (r_config r) sg = None" for ts
    by (induction ts) (simp_all add: config_lookup_def)
  then show ?thesis by (simp add: detect_def)
qed

lemmas model_defs = current_model_def model_at_def top_rung_def strong_bound_exhausted_def
  strong_budget_exhausted_def call_model_def next_adapter_def bounce_def top_bounce_def
  fallback_def account_def guards_top_def

lemmas reply_defs = model_defs work_phase_def use_response_def account_for_call_def ledger_add_def
  price_usage_def accrue_def fresh_total_def combine_source_def calibrate_def record_row_def
  narrated_calls_def next_phase_def repeated_call_guard_def tool_call_signature_def act_on_calls_def

lemmas end_defs = on_declared_done_def guards_refuse_def verify_claim_def verify_scoped_gate_def
  check_scoped_def go_packages_from_edits_def go_edits_def conclude_def finish_turn_def
  persist_messages_def turn_signals_of_def tally_def zero_tally_def observe_def
  record_escalation_edge_def no_edge_def base_result_def

lemmas fault_defs = handle_fault_def recover_from_fault_def classify_fault_def is_timeout_def
  ending_def end_aborted_def close_on_terminal_fault_def close_on_fault_def empty_result_def

text \<open>A model that says it is done on the first call, behind a gate and a ceiling.\<close>

definition done_env :: "int \<Rightarrow> nat env" where
  "done_env code = (scripted (\<lambda>_ _. says ''ok'' []) code)\<lparr>e_verify := Some demo_gate,
     e_breaker := \<lparr>cb_max_cost = 1 / 2, cb_max_tokens = 0, cb_no_progress = 0\<rparr>\<rparr>"

definition demo_agent :: "string list \<Rightarrow> nat agent" where
  "demo_agent tiers = fresh_agent (demo_router tiers) 0"

lemma begin_done: "begin_turn (done_env code) ''p'' (demo_agent [''floor'']) =
    (demo_agent [''floor''])\<lparr>l_started := True, l_turns := 1,
      l_transcript := [text_message RoleUser ''p''], l_goal_anchor := ''p''\<rparr>"
  by (simp add: turn_defs demo_defs done_env_def demo_agent_def)

lemma guards_done: "guard_phases (done_env code) ((demo_agent [''floor''])\<lparr>l_started := True,
      l_turns := 1, l_transcript := t, l_goal_anchor := g\<rparr>) =
    (None, (demo_agent [''floor''])\<lparr>l_started := True,
      l_turns := 1, l_transcript := t, l_goal_anchor := g, tn_prev_rung := ''floor''\<rparr>)"
  by (simp add: guard_defs turn_defs model_defs demo_defs done_env_def demo_agent_def total_usd_def)

lemma done_round:
  obtains r s1 where "work_phase (done_env 0) ((demo_agent [''floor''])\<lparr>l_started := True,
      l_turns := 1, l_transcript := t, l_goal_anchor := g, tn_prev_rung := ''floor''\<rparr>) =
    (Some (EndTurnWith (Answered r)), s1)" "clean_result r" "total_usd (l_ledger s1) = 1"
  by (simp add: Let_def reply_defs end_defs turn_defs demo_defs done_env_def demo_agent_def
      clean_result_def total_usd_def)

lemma done_turn:
  obtains r s1 where "run_turn (done_env 0) (Suc n) ''p'' (demo_agent [''floor'']) =
    Some (Answered r, s1)" "clean_result r" "total_usd (l_ledger s1) = 1"
proof -
  obtain r s1 where w: "work_phase (done_env 0) ((demo_agent [''floor''])\<lparr>l_started := True,
      l_turns := 1, l_transcript := [text_message RoleUser ''p''], l_goal_anchor := ''p'',
      tn_prev_rung := ''floor''\<rparr>) = (Some (EndTurnWith (Answered r)), s1)"
    and c: "clean_result r" "total_usd (l_ledger s1) = 1" by (rule done_round)
  have "run_turn (done_env 0) (Suc n) ''p'' (demo_agent [''floor'']) =
      Some (Answered (r\<lparr>tr_highest := highest_model (l_router s1)\<rparr>), s1)"
    by (simp add: run_turn_def begin_done run_round_def next_phase_def guards_done w stamp_highest_def)
  then show thesis
    by (rule that [of "r\<lparr>tr_highest := highest_model (l_router s1)\<rparr>"]) (use c in \<open>auto simp: clean_result_def\<close>)
qed

lemma done_env_calm: "never_throttled (done_env code)" "tame_env (done_env code)"
  by (simp_all add: never_throttled_def tame_env_def tame_hooks_def marked_def done_env_def demo_defs
      new_surface_def fire_def goal_reminder_marker_def spawn_force_marker_def has_prefix_def)

end
