(* ===== verification/Agent_Faults.thy ===== *)
theory Agent_Faults
  imports Agent_Laws
begin

text \<open>
  The errors of a turn: which error a turn that fails returns, and that a fault of the model becomes
  one only when no gate can judge the tree and no recovery applies.
\<close>

text \<open>The model fault a turn error reports.\<close>

fun blamed :: "turn_error \<Rightarrow> go_error option" where
  "blamed (ExceededRounds n) = None"
| "blamed (StuckRereading n) = None"
| "blamed (OverflowUnrecoverable n err) = Some err"
| "blamed (OverflowNoHeadroom err) = Some err"
| "blamed (MalformedPersists n err) = Some err"
| "blamed (ModelTurn err) = Some err"
| "blamed (JoinedErrors why p) = blamed why"

definition fault_answer :: "'w env \<Rightarrow> turn_outcome \<Rightarrow> bool" where
  "fault_answer e res = (case res of
       Failed r err \<Rightarrow>
         e_verify e = None \<and> r = empty_result
         \<and> (\<exists>ge. blamed err = Some ge
              \<and> classify_fault (Some ge) \<noteq> FaultTimeout \<and> classify_fault (Some ge) \<noteq> FaultRateLimit)
     | _ \<Rightarrow> True)"

definition fault_phase :: "'w env \<Rightarrow> 'w phase \<Rightarrow> bool" where
  "fault_phase e p = (\<forall>s x s1. p s = (x, s1) \<longrightarrow> (case x of
       Some (EndTurnWith res) \<Rightarrow> fault_answer e res
     | Some (BreakOut (Some k)) \<Rightarrow> 3 \<le> k
     | _ \<Rightarrow> True))"

lemma fault_phaseI:
  assumes "\<And>s res s1. p s = (Some (EndTurnWith res), s1) \<Longrightarrow> fault_answer e res"
    and "\<And>s k s1. p s = (Some (BreakOut (Some k)), s1) \<Longrightarrow> 3 \<le> k"
  shows "fault_phase e p"
  using assms by (force simp: fault_phase_def split: option.splits round_end.splits)

lemma fault_phaseD:
  assumes "fault_phase e p"
  shows "p s = (Some (EndTurnWith res), s1) \<Longrightarrow> fault_answer e res"
    "p s = (Some (BreakOut (Some k)), s1) \<Longrightarrow> 3 \<le> k"
  using assms by (fastforce simp: fault_phase_def)+

lemma fault_next: "fault_phase e p \<Longrightarrow> fault_phase e q \<Longrightarrow> fault_phase e (next_phase p q)"
  by (rule fault_phaseI) (auto simp: next_phase_def split: prod.splits option.splits dest: fault_phaseD)

lemma fault_answered [simp]: "fault_answer e (Answered r)" "fault_answer e Panicked"
  by (simp_all add: fault_answer_def)

lemma conclude_fault: "conclude e f s = (res, s1) \<Longrightarrow> fault_answer e res"
  by (erule conclude_cases) simp_all

lemma opportunistic_fault:
  "opportunistic_green e final s = (Some res, s1) \<Longrightarrow> fault_answer e res"
  "opportunistic_reconcile e final s = (Some res, s1) \<Longrightarrow> fault_answer e res"
  by (auto simp: opportunistic_green_def opportunistic_reconcile_def
      split: option.splits prod.splits if_splits dest: conclude_fault)

lemma try_green_fault: "fault_phase e q \<Longrightarrow> fault_phase e (try_green e final q)"
  by (rule fault_phaseI)
    (auto simp: try_green_def split: prod.splits option.splits
      dest: opportunistic_fault fault_phaseD)

lemma close_on_fault_answers: "close_on_fault e d st err s = (Some res, s1) \<Longrightarrow> fault_answer e res"
  by (auto simp: close_on_fault_def Let_def split: option.splits prod.splits if_splits)

lemma end_gracefully_fault: "fault_answer e (fst (end_gracefully e err s))"
  by (auto simp: end_gracefully_def close_on_graceful_fault_def split: prod.splits option.splits
      dest: close_on_fault_answers conclude_fault)
    (metis conclude_fault prod.collapse)

lemma end_aborted_fault:
  assumes "blamed why = Some err" "classify_fault (Some err) \<noteq> FaultTimeout"
    "classify_fault (Some err) \<noteq> FaultRateLimit"
  shows "fault_answer e (fst (end_aborted e err why s))"
proof (cases "e_verify e")
  case None
  then show ?thesis
    using assms
    by (auto simp: end_aborted_def close_on_terminal_fault_def close_on_fault_def fault_answer_def
        split: option.splits prod.splits)
next
  case (Some g)
  obtain res s1 where "close_on_terminal_fault e err s = (Some res, s1)"
    unfolding close_on_terminal_fault_def using close_on_fault_handles [OF Some] by blast
  then show ?thesis
    by (auto simp: end_aborted_def close_on_terminal_fault_def dest: close_on_fault_answers)
qed

lemma recovery_aborts:
  assumes "recover_from_fault e err s = (RecoverAbort why, s1)"
  shows "blamed why = Some err" "classify_fault (Some err) \<noteq> FaultTimeout"
    "classify_fault (Some err) \<noteq> FaultRateLimit"
  using assms
  by (auto simp: recover_from_fault_def recover_overflow_def recover_malformed_def
      recover_timeout_def recover_rate_limit_def Let_def
      split: fault_kind.splits if_splits prod.splits option.splits bool.splits)

lemma handle_fault_fault: "fault_phase e (handle_fault e err)"
  by (rule fault_phaseI)
    (auto simp: handle_fault_def ending_def split: prod.splits recover_action.splits
      intro: end_gracefully_fault end_aborted_fault [OF recovery_aborts])

lemma stop_with_fault: "fault_phase e (stop_with e v)"
  by (rule fault_phaseI)
    (auto simp: stop_with_def ending_def intro: conclude_fault surjective_pairing)

lemma exhaustion_guard_fault: "fault_phase e (exhaustion_guard e)"
proof -
  let ?q = "\<lambda>s1. case force_edge e (escalate_for_retry_exhaustion (tn_round s1 - tn_cycle_start s1))
      EdgeEscalate s1 of
      (True, s2) \<Rightarrow> (Some Again, s2\<lparr>tn_cycle_start := tn_round s2, tn_last_progress := tn_round s2\<rparr>)
    | (False, s2) \<Rightarrow> (Some (BreakOut None), s2)"
  have "fault_phase e ?q" by (rule fault_phaseI) (auto split: prod.splits bool.splits)
  then have q: "fault_phase e (try_green e [] ?q)" by (rule try_green_fault)
  show ?thesis
    by (rule fault_phaseI)
      (use fault_phaseD [OF q] in \<open>auto simp: exhaustion_guard_def split: if_splits\<close>)
qed

lemma strong_bound_guard_fault: "fault_phase e (strong_bound_guard e)"
proof -
  let ?q = "\<lambda>s1. case finish_turn e s1 of
      None \<Rightarrow> (Some (EndTurnWith Panicked), s1)
    | Some (perr, s2) \<Rightarrow>
        (let v = strong_bound_verdict e s2
         in (Some (EndTurnWith (Answered ((base_result perr s2)\<lparr>tr_stopped := Some v,
               tr_escalate := (if e_verify e \<noteq> None then Some (Unsatisfied v) else None)\<rparr>))), s2))"
  have "fault_phase e ?q"
    by (rule fault_phaseI) (auto simp: Let_def split: option.splits prod.splits)
  then have q: "fault_phase e (try_green e [] ?q)" by (rule try_green_fault)
  show ?thesis
    by (rule fault_phaseI)
      (use fault_phaseD [OF q] in \<open>auto simp: strong_bound_guard_def split: if_splits\<close>)
qed

lemma breaker_guard_fault: "fault_phase e (breaker_guard e)"
  by (rule fault_phaseI)
    (auto simp: breaker_guard_def split: option.splits prod.splits if_splits bool.splits
      dest: fault_phaseD [OF stop_with_fault])

lemma quiet_phases_fault:
  "fault_phase e (note_rung e)" "fault_phase e (bound_transcript e)" "fault_phase e (floor_fit_guard e)"
  by (rule fault_phaseI;
      auto simp: note_rung_def bound_transcript_def floor_fit_guard_def Let_def
        split: if_splits prod.splits bool.splits)+

lemma on_declared_done_fault: "on_declared_done e claim s = (Some res, s1) \<Longrightarrow> fault_answer e res"
  by (auto simp: on_declared_done_def verify_claim_def revise_or_refuse_def Let_def
      split: option.splits if_splits prod.splits dest: conclude_fault)

lemma opportunistic_green_undecided:
  assumes "opportunistic_green e final s = (None, s1)"
  shows "tn_round s1 = tn_round s \<and> tn_last_progress s1 = tn_last_progress s"
proof (cases "case e_verify e of None \<Rightarrow> e_terminal_green e | Some g \<Rightarrow> Some g")
  case None
  with assms show ?thesis by (simp add: opportunistic_green_def)
next
  case (Some g)
  obtain ok out s0 where g: "verify_scoped_gate e False g s = ((ok, out), s0)"
    by (cases "verify_scoped_gate e False g s") auto
  then have "s1 = s0"
    using assms Some by (auto simp: opportunistic_green_def split: if_splits prod.splits)
  then show ?thesis using gate_frame(20,22) [of e False g s] g by simp
qed

lemma repeated_call_guard_fault: "fault_phase e (repeated_call_guard e final cs)"
proof (rule fault_phaseI)
  let ?q = "\<lambda>s2. (Some (BreakOut (Some (tn_round s2 - tn_last_progress s2))), s2)"
  show "fault_answer e res"
    if a: "repeated_call_guard e final cs s = (Some (EndTurnWith res), s1)" for s res s1
    using a by (auto simp: repeated_call_guard_def try_green_def Let_def
        split: if_splits prod.splits bool.splits option.splits dest: opportunistic_fault)
  show "3 \<le> k" if a: "repeated_call_guard e final cs s = (Some (BreakOut (Some k)), s1)" for s k s1
  proof -
    obtain b s0 where f: "force_edge e (escalate_for_no_progress (tn_round s - tn_last_progress s))
        EdgeEscalate s = (b, s0)" by fastforce
    obtain y s2 where o1: "opportunistic_green e final s0 = (y, s2)" by fastforce
    have long: "tn_round s - tn_last_progress s \<ge> 3"
      using a by (auto simp: repeated_call_guard_def Let_def split: if_splits)
    have "tn_round s0 = tn_round s" "tn_last_progress s0 = tn_last_progress s"
      using f force_edge_frame(19,21) [of e "escalate_for_no_progress (tn_round s - tn_last_progress s)"
          EdgeEscalate s] by simp_all
    moreover have "y = None \<Longrightarrow> tn_round s2 = tn_round s0 \<and> tn_last_progress s2 = tn_last_progress s0"
      using o1 opportunistic_green_undecided by blast
    ultimately show ?thesis
      using a f o1 long
      by (auto simp: repeated_call_guard_def try_green_def Let_def
          split: if_splits bool.splits option.splits)
  qed
qed

lemma act_on_calls_fault: "fault_phase e (act_on_calls e final cs)"
  by (rule fault_phaseI)
    (auto simp: act_on_calls_def mid_flight_def Let_def split: if_splits prod.splits option.splits
      dest: on_declared_done_fault opportunistic_fault)

lemma work_phase_fault: "fault_phase e (work_phase e)"
proof -
  have u: "fault_phase e (use_response e sent resp)" for sent resp
    by (rule fault_phaseI)
      (auto simp: use_response_def split: prod.splits
        dest: fault_phaseD [OF fault_next [OF repeated_call_guard_fault act_on_calls_fault]])
  show ?thesis
    by (rule fault_phaseI)
      (auto simp: work_phase_def split: prod.splits sum.splits
        dest: fault_phaseD [OF handle_fault_fault] fault_phaseD [OF u])
qed

lemma run_round_fault: "fault_phase e (run_round e)"
  unfolding run_round_def guard_phases_def
  by (intro fault_next exhaustion_guard_fault strong_bound_guard_fault breaker_guard_fault
      quiet_phases_fault work_phase_fault)

text \<open>The errors of a turn.\<close>

definition turn_failure :: "'w env \<Rightarrow> turn_outcome \<Rightarrow> bool" where
  "turn_failure e res = (case res of
       Failed r err \<Rightarrow>
         (case blamed err of
            Some ge \<Rightarrow> fault_answer e res
          | None \<Rightarrow> err = ExceededRounds (e_max_rounds e) \<or> (\<exists>k \<ge> 3. err = StuckRereading k))
     | _ \<Rightarrow> True)"

lemma run_rounds_failure: "run_rounds e n s = Some (res, s1) \<Longrightarrow> turn_failure e res"
proof (induction n arbitrary: s)
  case 0
  then show ?case by simp
next
  case (Suc n)
  obtain x s2 where x: "run_round e s = (x, s2)" by fastforce
  have fa: "fault_answer e r \<Longrightarrow> turn_failure e r" for r
    by (auto simp: turn_failure_def fault_answer_def split: turn_outcome.splits)
  have ex: "d = None \<or> (\<exists>k \<ge> 3. d = Some k) \<Longrightarrow> turn_failure e (fst (end_exhausted e d s2))" for d
    by (auto simp: end_exhausted_def turn_failure_def split: option.splits prod.splits)
  show ?case
  proof (cases x)
    case None
    with Suc x show ?thesis by simp
  next
    case (Some z)
    show ?thesis
    proof (cases z)
      case Again
      with Suc x Some show ?thesis by simp
    next
      case (BreakOut d)
      then have "d = None \<or> (\<exists>k \<ge> 3. d = Some k)"
        using x Some fault_phaseD(2) [OF run_round_fault] by (cases d) auto
      from ex [OF this] Suc.prems x Some BreakOut show ?thesis by simp
    next
      case (EndTurnWith r)
      then have "fault_answer e r" using x Some fault_phaseD(1) [OF run_round_fault] by simp
      with Suc.prems x Some EndTurnWith fa show ?thesis by simp
    qed
  qed
qed

end
