(* ===== verification/Agent_Props.thy ===== *)
theory Agent_Props
  imports Agent_Demo Agent_Faults
begin

text \<open>
  The properties of the agent loop: what a clean result means, that a turn ends, what it can cost,
  what a model is shown, which errors a turn returns, and where the loop departs from its comments.
\<close>

subsection \<open>Clean results\<close>

text \<open>C3: A gated turn that reports a clean result, no stop, no escalation, no fabrication and no
  fault, ended on a run of its gate, scoped to the calls of the result, that passed: nothing but the
  closing of the turn came after it.\<close>

theorem clean_done_is_verified:
  assumes "run_turn e n prompt s = Some (Answered r, s1)" "e_verify e = Some g" "clean_result r"
  shows "closed_on_green e g (tr_dispatches r) s1"
  by (rule run_turn_closed [OF assms])

theorem clean_done_is_verified_witness:
  "\<exists>r s1. run_turn (done_env 0) 1 ''p'' (demo_agent [''floor'']) = Some (Answered r, s1)
     \<and> closed_on_green (done_env 0) demo_gate (tr_dispatches r) s1"
proof -
  obtain r s1 where t: "run_turn (done_env 0) (Suc 0) ''p'' (demo_agent [''floor'']) =
      Some (Answered r, s1)" "clean_result r" by (rule done_turn)
  have "e_verify (done_env 0) = Some demo_gate" by (simp add: done_env_def)
  from clean_done_is_verified [OF t(1) this t(2)] t(1) show ?thesis by (metis One_nat_def)
qed

subsection \<open>Termination\<close>

text \<open>C5: A turn whose models are never rate limited ends: the rounds left in its cycle, the rungs
  above the current one and the unspent re-prompts and revise cycles bound the number of its
  rounds.\<close>

theorem turn_terminates:
  assumes "never_throttled e" "potential e (begin_turn e prompt s) < n"
  shows "\<exists>res s1. run_turn e n prompt s = Some (res, s1)"
  using run_rounds_terminate [OF assms] by (auto simp: run_turn_def)

theorem turn_terminates_witness:
  "\<exists>res s1. run_turn (done_env 1) 27 ''p'' (demo_agent [''floor'']) = Some (res, s1)"
proof (rule turn_terminates)
  show "never_throttled (done_env 1)" by (rule done_env_calm)
  show "potential (done_env 1) (begin_turn (done_env 1) ''p'' (demo_agent [''floor''])) < 27"
    unfolding begin_done
    by (simp add: potential_def allowance_def max_rounds_or_default_def done_env_def
        demo_agent_def fresh_agent_def demo_defs top_rung_def)
qed

subsection \<open>Cost\<close>

definition call_price_at_most :: "'w env \<Rightarrow> rat \<Rightarrow> bool" where
  "call_price_at_most e k = (\<forall>m ms w. case fst (e_complete e m ms w) of
       Inl _ \<Rightarrow> True | Inr resp \<Rightarrow> fst (price_usage (rs_model resp) (rs_usage resp)) \<le> k)"

lemma start_session_ledger: "l_ledger (start_session e s) = l_ledger s"
  by (simp add: start_session_def)

lemma begin_turn_ledger: "l_ledger (begin_turn e prompt s) = l_ledger s"
proof -
  obtain ev s1 where m: "maybe_compact e (start_session e s) = (ev, s1)" by fastforce
  have "l_ledger s1 = l_ledger s"
    using maybe_compact_frame(2) [of e "start_session e s"] m start_session_ledger [of e s] by simp
  moreover have "l_ledger (receive_prompt e prompt s') = l_ledger s'" for s'
    by (simp add: receive_prompt_def probe_context_def case_prod_beta Let_def split: option.splits)
  ultimately show ?thesis by (simp add: begin_turn_def m start_turn_def)
qed

text \<open>C19: The cost ceiling is overshot by less than one call: a turn that starts under the ceiling
  of its breaker ends less than the price of the dearest call above it.\<close>

theorem cost_ceiling_overshoot:
  assumes "run_turn e n prompt s = Some (res, s1)" "call_price_at_most e k" "0 \<le> k"
    and "0 < cb_max_cost (e_breaker e)" "total_usd (l_ledger s) < cb_max_cost (e_breaker e)"
  shows "total_usd (l_ledger s1) < cb_max_cost (e_breaker e) + k"
proof -
  obtain res' where r: "run_rounds e n (begin_turn e prompt s) = Some (res', s1)"
    using assms(1) by (auto simp: run_turn_def)
  have price: "fst (price_usage (rs_model resp) (rs_usage resp)) \<le> k"
    if "fst (e_complete e m ms w) = Inr resp" for m ms w resp
    using assms(2) [unfolded call_price_at_most_def, rule_format, of m ms w] that by simp
  have "total_usd (l_ledger (begin_turn e prompt s)) < cb_max_cost (e_breaker e) + k"
    using assms(3,5) by (simp add: begin_turn_ledger)
  from run_rounds_ledger [OF r price assms(4) this assms(3)] show ?thesis .
qed

theorem cost_ceiling_overshoot_witness:
  "\<exists>res s1. run_turn (done_env 0) 1 ''p'' (demo_agent [''floor'']) = Some (res, s1)
     \<and> total_usd (l_ledger s1) < 1 / 2 + 1"
proof -
  obtain r s1 where t: "run_turn (done_env 0) (Suc 0) ''p'' (demo_agent [''floor'']) =
      Some (Answered r, s1)" by (rule done_turn)
  have "total_usd (l_ledger s1) < cb_max_cost (e_breaker (done_env 0)) + 1"
    by (rule cost_ceiling_overshoot [OF t])
      (simp_all add: call_price_at_most_def done_env_def demo_defs price_usage_def total_usd_def
        demo_agent_def fresh_agent_def)
  then show ?thesis using t by (auto simp: done_env_def)
qed

subsection \<open>What a model is shown\<close>

text \<open>C20: Whenever a round of a turn calls a model, every request of tool calls in the transcript is
  followed at once by its results, one for each call and in order, however the transcript was
  evicted, compacted, reminded or re-prompted before; and the turn leaves the transcript so. The hooks leave
  transcript and calls alone, no answer of a model and no encoded result starts with a reminder marker, and the turn
  starts from a paired transcript, as a fresh one is, in which no message that requests or answers a call starts so.\<close>

theorem model_sees_paired_transcript:
  assumes "tame_env e" "paired (l_transcript s)" "unmarked (l_transcript s)"
  shows "(round_state e (begin_turn e prompt s) s1 \<longrightarrow> guard_phases e s1 = (None, s2)
      \<longrightarrow> paired (l_transcript s2))
    \<and> (run_turn e n prompt s = Some (res, s3) \<longrightarrow> paired (l_transcript s3))"
proof -
  have th: "tame_hooks e" using assms(1) by (simp add: tame_env_def)
  have b: "well_paired (begin_turn e prompt s)"
    using begin_turn_keeps [OF th] assms(2,3) by (simp add: well_paired_def)
  have "paired (l_transcript s2)"
    if "round_state e (begin_turn e prompt s) s1" "guard_phases e s1 = (None, s2)"
    using keeps_pairedD [OF guard_phases_keeps [OF th] that(2)
        round_state_paired [OF that(1) assms(1) b]] by (simp add: well_paired_def)
  moreover have "paired (l_transcript s3)" if t: "run_turn e n prompt s = Some (res, s3)"
  proof -
    obtain r where "run_rounds e n (begin_turn e prompt s) = Some (r, s3)"
      using t by (auto simp: run_turn_def)
    from run_rounds_paired [OF assms(1) this b] show ?thesis by (simp add: well_paired_def)
  qed
  ultimately show ?thesis by blast
qed

theorem model_sees_paired_transcript_witness:
  "\<exists>s1 s2. round_state (done_env 0) (begin_turn (done_env 0) ''p'' (demo_agent [''floor''])) s1
     \<and> guard_phases (done_env 0) s1 = (None, s2) \<and> paired (l_transcript s2)"
proof -
  let ?s = "begin_turn (done_env 0) ''p'' (demo_agent [''floor''])"
  have r: "round_state (done_env 0) ?s ?s" by (rule first_round)
  obtain s2 where g: "guard_phases (done_env 0) ?s = (None, s2)"
    unfolding begin_done guards_done by blast
  have "paired (l_transcript (demo_agent [''floor'']))" "unmarked (l_transcript (demo_agent [''floor'']))"
    by (simp_all add: demo_agent_def fresh_agent_def)
  from model_sees_paired_transcript [OF done_env_calm(2) this] r g show ?thesis by blast
qed

subsection \<open>Errors\<close>

text \<open>C21: A turn fails only for the reasons listed: its rounds are used up, it repeats one call for
  three rounds without progress, or no gate is configured and a model fault that is neither a timeout
  nor a rate limit is left after its recovery; only then is the result empty.\<close>

theorem turn_errors:
  assumes "run_turn e n prompt s = Some (Failed r err, s1)"
  shows "case blamed err of
      None \<Rightarrow> err = ExceededRounds (e_max_rounds e) \<or> (\<exists>k. err = StuckRereading k \<and> 3 \<le> k)
    | Some ge \<Rightarrow> e_verify e = None \<and> tr_dispatches r = [] \<and> tr_cost r = 0
        \<and> classify_fault (Some ge) \<noteq> FaultTimeout \<and> classify_fault (Some ge) \<noteq> FaultRateLimit"
proof -
  obtain res where res: "run_rounds e n (begin_turn e prompt s) = Some (res, s1)"
    and r: "stamp_highest (l_router s1) res = Failed r err"
    using assms(1) by (auto simp: run_turn_def)
  then obtain t where t: "res = Failed t err" "r = t\<lparr>tr_highest := highest_model (l_router s1)\<rparr>"
    by (cases res) (auto simp: stamp_highest_def)
  have "turn_failure e res" using res by (rule run_rounds_failure)
  then show ?thesis
    using t by (auto simp: turn_failure_def fault_answer_def empty_result_def split: option.splits)
qed

definition broken_env :: "nat env" where
  "broken_env = scripted (\<lambda>_ _. Inl \<lparr>err_wraps = [], err_text = ''refused''\<rparr>) 0"

lemma broken_turn:
  obtains r s1 where "run_turn broken_env 1 ''p'' (demo_agent [''floor'']) =
    Some (Failed r (ModelTurn \<lparr>err_wraps = [], err_text = ''refused''\<rparr>), s1)"
  by (simp add: run_turn_def stamp_highest_def run_round_def Let_def turn_defs guard_defs reply_defs
      end_defs fault_defs demo_defs broken_env_def demo_agent_def total_usd_def)

theorem turn_errors_witness:
  "\<exists>r s1. run_turn broken_env 1 ''p'' (demo_agent [''floor'']) =
      Some (Failed r (ModelTurn \<lparr>err_wraps = [], err_text = ''refused''\<rparr>), s1) \<and> tr_cost r = 0"
proof -
  obtain r s1 where t: "run_turn broken_env 1 ''p'' (demo_agent [''floor'']) =
      Some (Failed r (ModelTurn \<lparr>err_wraps = [], err_text = ''refused''\<rparr>), s1)" by (rule broken_turn)
  from turn_errors [OF t] t show ?thesis by auto
qed

end
