(* ===== verification/Agent_Thrash.thy ===== *)
theory Agent_Thrash
  imports Agent_Demo
begin

text \<open>
  A turn that never ends: the floor keeps writing without claiming to be done, the strong rung is
  rate limited. The exhausted round budget lifts the turn to the strong rung with a fresh budget, the
  rate limit drops it back to the floor, and so on.
\<close>

definition thrash_env :: "nat env" where
  "thrash_env = scripted (\<lambda>m _. if m = ''strong'' then faults ErrRateLimit
     else says ''more'' [demo_call ''edit'' ''a.txt'']) 0"

text \<open>What holds of the state whenever a round begins.\<close>

definition thrashing :: "nat agent \<Rightarrow> bool" where
  "thrashing s =
     (r_tiers (l_router s) = [''floor'', ''strong''] \<and> r_floor (l_router s) = 0
      \<and> c_triggers (r_config (l_router s)) = None \<and> r_bound_rung (l_router s) = -1
      \<and> \<not> r_has_budget (l_router s) \<and> l_compactor s = None
      \<and> 0 \<le> fr_rate_limit (tn_faults s)
      \<and> (r_cur (l_router s) = 0
           \<and> (tn_prev_rung s = ''strong'' \<or> tn_round s - tn_last_progress s \<le> 1)
         \<or> r_cur (l_router s) = 1
           \<and> tn_round s - tn_cycle_start s \<le> 1 + min (fr_rate_limit (tn_faults s)) 4))"

lemmas thrash_defs = thrash_env_def demo_defs guard_defs model_defs ladder_defs force_edge_def
  new_surface_def fire_def

text \<open>The guards let a round through that has budget left.\<close>

lemma thrash_exhaustion:
  "tn_round s - tn_cycle_start s < 12 \<Longrightarrow> exhaustion_guard thrash_env s = (None, s)"
  by (simp add: exhaustion_guard_def thrash_env_def scripted_def)

text \<open>The state with the serving rung noted.\<close>

definition noted :: "nat agent \<Rightarrow> nat agent" where
  "noted s = (if tn_prev_rung s \<noteq> [] \<and> current_model (l_router s) \<noteq> tn_prev_rung s
     then s\<lparr>tn_last_progress := tn_round s\<rparr> else s)\<lparr>tn_prev_rung := current_model (l_router s)\<rparr>"

lemma noted_frame [simp]:
  "l_compactor (noted s) = l_compactor s" "l_router (noted s) = l_router s"
  "tn_round (noted s) = tn_round s" "tn_cycle_start (noted s) = tn_cycle_start s"
  "tn_faults (noted s) = tn_faults s" "tn_prev_rung (noted s) = current_model (l_router s)"
  by (simp_all add: noted_def)

lemma thrash_rung: "l_compactor s = None \<Longrightarrow> note_rung thrash_env s = (None, noted s)"
proof -
  assume "l_compactor s = None"
  then have "l_compactor (if b then s\<lparr>tn_last_progress := k\<rparr> else s) = None" for b k by simp
  then show ?thesis by (simp add: note_rung_def sync_budget_to_rung_def Let_def noted_def)
qed

lemma thrash_strong: "r_bound_rung (l_router s) = -1 \<Longrightarrow> strong_bound_guard thrash_env s = (None, s)"
  by (simp add: strong_bound_guard_def strong_bound_exhausted_def)

lemma thrash_breaker: "breaker_guard thrash_env s = (None, s)"
  by (simp add: breaker_guard_def breaker_trip_def breaker_enabled_def Let_def thrash_env_def scripted_def)

lemma thrash_bound: "l_compactor s = None \<Longrightarrow> bound_transcript thrash_env s = (None, s)"
  by (simp add: bound_transcript_def bound_within_turn_def Let_def thrash_env_def scripted_def)

lemma thrash_fit: "floor_fit_guard thrash_env s = (None, s)"
  by (simp add: floor_fit_guard_def thrash_env_def scripted_def)

lemma thrash_guards:
  assumes "l_compactor s = None" "r_bound_rung (l_router s) = -1" "tn_round s - tn_cycle_start s < 12"
  shows "guard_phases thrash_env s = (None, noted s)"
  using assms
  by (simp add: guard_phases_def next_phase_def thrash_exhaustion thrash_rung thrash_strong
      thrash_breaker thrash_bound thrash_fit)

lemma thrash_call:
  assumes "r_bound_rung (l_router s) = -1" "\<not> r_has_budget (l_router s)"
  obtains sent h where "call_model thrash_env s = (sent,
      (if current_model (l_router s) = ''strong'' then faults ErrRateLimit
       else says ''more'' [demo_call ''edit'' ''a.txt'']),
      s\<lparr>l_router := h, world := world s + 1\<rparr>)"
    "h = l_router s \<or> (\<exists>k. h = (l_router s)\<lparr>r_highest := k\<rparr>)"
proof -
  let ?r = "l_router s"
  let ?h = "if r_cur ?r > r_highest ?r then ?r\<lparr>r_highest := r_cur ?r\<rparr> else ?r"
  have "model_at ?h (r_cur ?r) = current_model ?r" by (simp add: model_at_def current_model_def)
  then have "call_model thrash_env s = (estimate_tokens (e_marshal thrash_env) (l_transcript s),
      (if current_model ?r = ''strong'' then faults ErrRateLimit
       else says ''more'' [demo_call ''edit'' ''a.txt'']), s\<lparr>l_router := ?h, world := world s + 1\<rparr>)"
    using assms
    by (simp add: call_model_def next_adapter_def bounce_def top_bounce_def guards_top_def fallback_def
        account_def Let_def thrash_env_def scripted_def model_at_def current_model_def)
  then show thesis by (rule that) auto
qed

text \<open>Round budget exhausted on the floor.\<close>

lemma thrash_exhausted:
  assumes "thrashing s" "r_cur (l_router s) = 0" "12 \<le> tn_round s - tn_cycle_start s"
  shows "\<exists>s1. run_round thrash_env s = (Some Again, s1) \<and> thrashing (s1\<lparr>tn_round := tn_round s1 + 1\<rparr>)"
proof -
  have "\<exists>s1. exhaustion_guard thrash_env s = (Some Again, s1)
      \<and> thrashing (s1\<lparr>tn_round := tn_round s1 + 1\<rparr>)"
    using assms
    by (simp add: thrashing_def exhaustion_guard_def try_green_def opportunistic_green_def
        thrash_env_def demo_defs force_edge_def ladder_defs top_rung_def climb_edge_def
        record_escalation_edge_def propose_edge_def record_row_def)
  then show ?thesis by (auto simp: run_round_def guard_phases_def next_phase_def)
qed

text \<open>The strong rung is throttled: four waits, then back to the floor.\<close>

lemma thrash_throttled:
  assumes "thrashing s" "r_cur (l_router s) = 1"
  shows "\<exists>s1. run_round thrash_env s = (Some Again, s1) \<and> thrashing (s1\<lparr>tn_round := tn_round s1 + 1\<rparr>)"
proof -
  have g: "guard_phases thrash_env s = (None, noted s)"
    using assms by (intro thrash_guards) (auto simp: thrashing_def min_def split: if_splits)
  have strong: "current_model (l_router s) = ''strong''"
    using assms by (simp add: thrashing_def current_model_def model_at_def)
  obtain sent h where c: "call_model thrash_env (noted s) = (sent, faults ErrRateLimit,
      (noted s)\<lparr>l_router := h, world := world (noted s) + 1\<rparr>)"
    and h: "h = l_router s \<or> (\<exists>k. h = (l_router s)\<lparr>r_highest := k\<rparr>)"
    using thrash_call [of "noted s"] assms(1) strong by (auto simp: thrashing_def)
  let ?s = "(noted s)\<lparr>l_router := h, world := world (noted s) + 1\<rparr>"
  have s: "thrashing ?s" "r_cur (l_router ?s) = 1" "tn_prev_rung ?s = ''strong''"
    using assms strong h by (auto simp: thrashing_def)
  have "\<exists>s1. handle_fault thrash_env \<lparr>err_wraps = [ErrRateLimit], err_text = ''fault''\<rparr> ?s = (Some Again, s1)
      \<and> thrashing (s1\<lparr>tn_round := tn_round s1 + 1\<rparr>)"
  proof (cases "fr_rate_limit (tn_faults ?s) < 4")
    case True
    then show ?thesis
      using s by (simp add: handle_fault_def recover_from_fault_def classify_fault_def
          recover_rate_limit_def Let_def thrash_env_def scripted_def thrashing_def)
  next
    case False
    then show ?thesis
      using s by (simp add: handle_fault_def recover_from_fault_def classify_fault_def
          recover_rate_limit_def Let_def thrash_env_def scripted_def thrashing_def force_edge_def
          deescalate_to_floor_def no_edge_def record_escalation_edge_def propose_edge_def
          record_row_def)
  qed
  then have "\<exists>s1. work_phase thrash_env (noted s) = (Some Again, s1)
      \<and> thrashing (s1\<lparr>tn_round := tn_round s1 + 1\<rparr>)"
    using c by (simp add: work_phase_def faults_def)
  with g show ?thesis by (auto simp: run_round_def next_phase_def)
qed

lemma thrash_dispatch:
  assumes "thrashing a" "r_cur (l_router a) = 0" "tn_round a - tn_last_progress a \<le> 1"
  shows "\<exists>s1. next_phase (repeated_call_guard thrash_env t [demo_call ''edit'' ''a.txt''])
        (act_on_calls thrash_env t [demo_call ''edit'' ''a.txt'']) a = (Some Again, s1)
      \<and> thrashing (s1\<lparr>tn_round := tn_round s1 + 1\<rparr>)"
  using assms
  by (simp add: next_phase_def repeated_call_guard_def Let_def act_on_calls_def mid_flight_def
      dispatch_round_def dispatch_call_def fire_hook_def hook_ctx_def fire_def new_surface_def
      harvest_def resolve_call_def denial_def truncated_write_reason_def is_mutating_write_def
      is_spawn_call_def track_truncated_view_def record_row_def thrash_env_def scripted_def
      demo_call_def succeed_def thrashing_def)

text \<open>The floor writes a file and asks for another round.\<close>

lemma thrash_writes:
  assumes "thrashing s" "r_cur (l_router s) = 0" "\<not> 12 \<le> tn_round s - tn_cycle_start s"
  shows "\<exists>s1. run_round thrash_env s = (Some Again, s1) \<and> thrashing (s1\<lparr>tn_round := tn_round s1 + 1\<rparr>)"
proof -
  have g: "guard_phases thrash_env s = (None, noted s)"
    using assms by (intro thrash_guards) (auto simp: thrashing_def)
  have cheap: "current_model (l_router s) = ''floor''"
    using assms by (simp add: thrashing_def current_model_def model_at_def)
  obtain sent h where c: "call_model thrash_env (noted s) =
      (sent, says ''more'' [demo_call ''edit'' ''a.txt''],
       (noted s)\<lparr>l_router := h, world := world (noted s) + 1\<rparr>)"
    and h: "h = l_router s \<or> (\<exists>k. h = (l_router s)\<lparr>r_highest := k\<rparr>)"
    using thrash_call [of "noted s"] assms(1) cheap by (auto simp: thrashing_def)
  let ?s = "(noted s)\<lparr>l_router := h, world := world (noted s) + 1\<rparr>"
  have s: "thrashing ?s" "r_cur (l_router ?s) = 0" "tn_round ?s - tn_last_progress ?s \<le> 1"
    using assms cheap h by (auto simp: thrashing_def noted_def)
  obtain resp where r: "says ''more'' [demo_call ''edit'' ''a.txt''] = Inr resp"
    "rs_calls resp = [demo_call ''edit'' ''a.txt'']" by (simp add: says_def)
  let ?a = "account_for_call thrash_env resp sent ?s"
  have fr: "l_router ?a = l_router ?s" "l_compactor ?a = l_compactor ?s" "tn_faults ?a = tn_faults ?s"
    "tn_round ?a = tn_round ?s" "tn_last_progress ?a = tn_last_progress ?s"
    "tn_prev_rung ?a = tn_prev_rung ?s" "tn_cycle_start ?a = tn_cycle_start ?s"
    using s(1)
    by (simp_all add: account_for_call_def calibrate_def record_row_def case_prod_beta Let_def
        thrash_env_def scripted_def thrashing_def)
  then have a: "thrashing ?a" "r_cur (l_router ?a) = 0" "tn_round ?a - tn_last_progress ?a \<le> 1"
    using s by (auto simp: thrashing_def)
  have "\<exists>s1. next_phase (repeated_call_guard thrash_env (rs_text resp) (rs_calls resp))
        (act_on_calls thrash_env (rs_text resp) (rs_calls resp)) ?a = (Some Again, s1)
      \<and> thrashing (s1\<lparr>tn_round := tn_round s1 + 1\<rparr>)"
    unfolding r(2) by (rule thrash_dispatch [OF a])
  then have "\<exists>s1. work_phase thrash_env (noted s) = (Some Again, s1)
      \<and> thrashing (s1\<lparr>tn_round := tn_round s1 + 1\<rparr>)"
    using c r by (simp add: work_phase_def use_response_def narrated_calls_def demo_call_def)
  with g show ?thesis by (auto simp: run_round_def next_phase_def)
qed

lemma thrash_goes_on: "thrashing s \<Longrightarrow> run_rounds thrash_env n s = None"
proof (induction n arbitrary: s)
  case 0
  then show ?case by simp
next
  case (Suc n)
  have "r_cur (l_router s) = 0 \<or> r_cur (l_router s) = 1" using Suc.prems by (auto simp: thrashing_def)
  then obtain s1 where "run_round thrash_env s = (Some Again, s1)"
    "thrashing (s1\<lparr>tn_round := tn_round s1 + 1\<rparr>)"
    using thrash_exhausted thrash_throttled thrash_writes Suc.prems by metis
  with Suc.IH show ?case by simp
qed

text \<open>A turn need not end, although every rung has a round budget: on a two-rung ladder whose
  floor keeps writing and whose top is rate limited, no number of rounds is enough. The exhausted
  budget lifts the rung and starts a fresh cycle, the rate limit drops it again, and neither move is
  counted.\<close>

theorem throttled_turn_never_ends:
  "run_turn thrash_env n ''p'' (demo_agent [''floor'', ''strong'']) = None"
proof -
  have "thrashing (begin_turn thrash_env ''p'' (demo_agent [''floor'', ''strong'']))"
    by (simp add: turn_defs thrash_env_def demo_defs demo_agent_def thrashing_def)
  from thrash_goes_on [OF this] show ?thesis by (simp add: run_turn_def)
qed

end
