(* ===== verification/Agent_Findings.thy ===== *)
theory Agent_Findings
  imports Agent_Thrash Compaction_Props
begin

text \<open>
  Where the agent loop departs from what its comments say, each shown on a concrete run: a recovery
  that panics the process, a fault that launders a refused green, and counters of one turn that
  survive into the next.
\<close>

subsection \<open>A recovery that panics\<close>

text \<open>The first call overflows the context, the second would answer; the session is stored.\<close>

definition shrink_env :: "nat env" where
  "shrink_env = (scripted (\<lambda>_ n. if n = 0 then faults ErrContextOverflow else says ''ok'' []) 0)
     \<lparr>e_store := True\<rparr>"

definition shrink_chat :: "chat_message list" where
  "shrink_chat = [text_message RoleUser long_text, text_message RoleAssistant long_text,
     text_message RoleUser ''go on'', text_message RoleAssistant ''done'']"

definition shrink_agent :: "nat agent" where
  "shrink_agent = (demo_agent [''floor''])\<lparr>l_started := True, l_turns := 2,
     l_transcript := shrink_chat, l_goal_anchor := ''g'',
     l_compactor := Some \<lparr>c_budget = 5000, c_recency_turns = 1, c_token_ratio = 1\<rparr>\<rparr>"

lemma begin_shrink: "begin_turn shrink_env ''p'' shrink_agent =
    shrink_agent\<lparr>l_turns := 3, l_transcript := shrink_chat @ [text_message RoleUser ''p''],
      tn_turn := 2, tn_start_len := 4\<rparr>"
proof -
  have "maybe_compact shrink_env shrink_agent = (None, shrink_agent)"
    by (simp add: maybe_compact_def anchor_goal_def rewrite_to_def compact_to_budget_def Let_def
        shrink_agent_def shrink_env_def shrink_chat_def demo_agent_def fresh_agent_def scripted_def chat_eval
        current_size_def)
  then show ?thesis
    by (simp add: begin_turn_def start_session_def start_turn_def receive_prompt_def probe_context_def
        fire_hook_def hook_ctx_def fire_def new_surface_def harvest_def zero_faults_def Let_def
        shrink_env_def scripted_def shrink_agent_def shrink_chat_def demo_agent_def fresh_agent_def)
qed

lemma shrink_sizes:
  "split_for_compaction (shrink_chat @ [text_message RoleUser ''p'']) =
     ([], shrink_chat @ [text_message RoleUser ''p''])"
  "user_message_indices (shrink_chat @ [text_message RoleUser ''p'']) = [0, 2, 4]"
  "recency_start_for_budget jm body [0, 2, 4] 1 tb = (4, 1)"
  "drop 4 (shrink_chat @ [text_message RoleUser ''p'']) = [text_message RoleUser ''p'']"
  "take 4 (shrink_chat @ [text_message RoleUser ''p'']) = shrink_chat" "shrink_chat \<noteq> []"
  by (simp_all add: split_for_compaction_def shrink_chat_def text_message_def is_summary_def
      user_message_indices_def recency_start_for_budget_def has_prefix_def compaction_marker_def)

definition shrunk_chat :: "chat_message list" where
  "shrunk_chat = [text_message RoleSystem (render_summary_message ''g'' ''brief''),
     text_message RoleUser ''p'']"

lemma shrink_compacts:
  assumes "l_compactor s = Some \<lparr>c_budget = 5000, c_recency_turns = 1, c_token_ratio = 1\<rparr>"
    "l_transcript s = shrink_chat @ [text_message RoleUser ''p'']" "l_goal_anchor s = ''g''"
    "l_spec_tokens s = 0"
  shows "\<exists>ev. force_compact shrink_env 1 s =
      (Some ev, s\<lparr>l_transcript := shrunk_chat, l_summary := ''brief''\<rparr>)"
proof -
  have big: "\<not> current_size jm \<lparr>c_budget = 5000, c_recency_turns = 1, c_token_ratio = 1\<rparr>
      (shrink_chat @ [text_message RoleUser ''p'']) 0 \<le> 3750" for jm
    by (simp add: chat_eval shrink_chat_def)
  have two: "\<not> length [0, 2, 4 :: nat] < 2" and one: "(if (1::int) < 1 then 1 else 1) = (1::int)"
    by simp_all
  have target: "force_target 0 5000 (Suc 0) = 3750" by (simp add: force_target_def)
  have "\<exists>ev. compact_to_budget (e_marshal shrink_env) (e_summarizer shrink_env)
      \<lparr>c_budget = 5000, c_recency_turns = 1, c_token_ratio = 1\<rparr>
      (shrink_chat @ [text_message RoleUser ''p'']) ''g'' prev 0 turn 3750 1 w =
    (\<lparr>k_transcript = shrunk_chat, k_summary = ''brief'', k_event = Some ev, k_error = None\<rparr>, w)"
    for prev turn w
    unfolding compact_to_budget_def
    by (simp only: Let_def shrink_sizes prod.case big two if_False one)
      (simp add: summarize_def shrink_env_def scripted_def shrunk_chat_def)
  then obtain ev where c: "compact_to_budget (e_marshal shrink_env) (e_summarizer shrink_env)
      \<lparr>c_budget = 5000, c_recency_turns = 1, c_token_ratio = 1\<rparr>
      (shrink_chat @ [text_message RoleUser ''p'']) ''g'' (l_summary s) 0 (l_turns s) 3750 1 (world s) =
    (\<lparr>k_transcript = shrunk_chat, k_summary = ''brief'', k_event = Some ev, k_error = None\<rparr>, world s)"
    by metis
  have anchor: "anchor_goal s = s" using assms by (simp add: anchor_goal_def)
  show ?thesis using assms by (simp add: force_compact_def anchor rewrite_to_def target c)
qed

lemma shrink_guards:
  assumes "l_compactor s = Some c" "0 < c_budget c"
    "current_size (\<lambda>_. Some ''{}'') c (l_transcript s) (l_spec_tokens s) \<le> c_budget c"
    "tn_round s - tn_cycle_start s < 12" "current_model (l_router s) = ''floor''"
    "r_bound_rung (l_router s) = -1" "tn_prev_rung s = [] \<or> tn_prev_rung s = ''floor''"
  shows "guard_phases shrink_env s = (None, s\<lparr>tn_prev_rung := ''floor''\<rparr>)"
proof -
  have 1: "exhaustion_guard shrink_env s = (None, s)"
    using assms(4) by (simp add: exhaustion_guard_def shrink_env_def scripted_def)
  have 2: "note_rung shrink_env s = (None, s\<lparr>tn_prev_rung := ''floor''\<rparr>)"
    using assms(1,5,7)
    by (elim disjE)
      (simp_all add: note_rung_def sync_budget_to_rung_def Let_def shrink_env_def scripted_def)
  let ?s = "s\<lparr>tn_prev_rung := ''floor''\<rparr>"
  have 3: "strong_bound_guard shrink_env ?s = (None, ?s)"
    using assms(6) by (simp add: strong_bound_guard_def strong_bound_exhausted_def)
  have 4: "breaker_guard shrink_env ?s = (None, ?s)"
    by (simp add: breaker_guard_def breaker_trip_def breaker_enabled_def Let_def shrink_env_def
        scripted_def)
  have 5: "bound_transcript shrink_env ?s = (None, ?s)"
  proof -
    have "e_marshal shrink_env = (\<lambda>_. Some ''{}'')" by (simp add: shrink_env_def scripted_def)
    then have "bound_within_turn shrink_env ?s = ?s"
      using assms(1-3) by (simp add: bound_within_turn_def Let_def)
    then show ?thesis by (simp add: bound_transcript_def Let_def shrink_env_def scripted_def)
  qed
  have 6: "floor_fit_guard shrink_env ?s = (None, ?s)"
    by (simp add: floor_fit_guard_def shrink_env_def scripted_def)
  show ?thesis by (simp add: guard_phases_def next_phase_def 1 2 3 4 5 6)
qed

text \<open>The first round recovers by the compaction, the second one ends the turn.\<close>

definition shrink_start :: "nat agent" where
  "shrink_start = shrink_agent\<lparr>l_turns := 3, l_transcript := shrink_chat @ [text_message RoleUser ''p''],
     tn_turn := 2, tn_start_len := 4\<rparr>"

definition shrink_second :: "nat agent" where
  "shrink_second = shrink_start\<lparr>tn_prev_rung := ''floor'', world := 1,
     tn_faults := \<lparr>fr_overflow = 1, fr_malformed = 0, fr_timeout = 0, fr_rate_limit = 0\<rparr>,
     l_transcript := shrunk_chat, l_summary := ''brief''\<rparr>"

lemma shrink_first: "run_round shrink_env shrink_start = (Some Again, shrink_second)"
proof -
  let ?s = "shrink_start\<lparr>tn_prev_rung := ''floor''\<rparr>"
  have g: "guard_phases shrink_env shrink_start = (None, ?s)"
    by (rule shrink_guards [where c = "\<lparr>c_budget = 5000, c_recency_turns = 1, c_token_ratio = 1\<rparr>"])
      (simp_all add: shrink_start_def shrink_agent_def demo_agent_def fresh_agent_def demo_router_def
        current_model_def model_at_def chat_eval shrink_chat_def)
  have c: "\<exists>sent. call_model shrink_env ?s = (sent, faults ErrContextOverflow, ?s\<lparr>world := 1\<rparr>)"
    by (simp add: model_defs Let_def shrink_env_def scripted_def shrink_start_def shrink_agent_def
        demo_agent_def fresh_agent_def demo_router_def)
  let ?t = "?s\<lparr>world := 1, tn_faults := \<lparr>fr_overflow = 1, fr_malformed = 0, fr_timeout = 0,
      fr_rate_limit = 0\<rparr>\<rparr>"
  have "\<exists>ev. force_compact shrink_env 1 ?t =
      (Some ev, ?t\<lparr>l_transcript := shrunk_chat, l_summary := ''brief''\<rparr>)"
    by (rule shrink_compacts)
      (simp_all add: shrink_start_def shrink_agent_def demo_agent_def fresh_agent_def)
  then have "handle_fault shrink_env \<lparr>err_wraps = [ErrContextOverflow], err_text = ''fault''\<rparr>
      (?s\<lparr>world := 1\<rparr>) = (Some Again, shrink_second)"
    by (auto simp: handle_fault_def recover_from_fault_def classify_fault_def recover_overflow_def
        Let_def shrink_second_def shrink_start_def shrink_agent_def demo_agent_def fresh_agent_def
        zero_faults_def)
  with g c show ?thesis by (auto simp: run_round_def next_phase_def work_phase_def faults_def)
qed

lemma shrink_ends: "\<exists>s1. run_round shrink_env (shrink_second\<lparr>tn_round := 1\<rparr>) = (Some (EndTurnWith Panicked), s1)"
proof -
  let ?s = "shrink_second\<lparr>tn_round := 1\<rparr>"
  have "guard_phases shrink_env ?s = (None, ?s\<lparr>tn_prev_rung := ''floor''\<rparr>)"
    by (rule shrink_guards [where c = "\<lparr>c_budget = 5000, c_recency_turns = 1, c_token_ratio = 1\<rparr>"])
      (simp_all add: shrink_second_def shrink_start_def shrink_agent_def demo_agent_def
        fresh_agent_def demo_router_def current_model_def model_at_def chat_eval shrunk_chat_def
        render_summary_message_def compaction_marker_def newline_def)
  moreover have "\<exists>s1. work_phase shrink_env (?s\<lparr>tn_prev_rung := ''floor''\<rparr>) = (Some (EndTurnWith Panicked), s1)"
    by (simp add: Let_def reply_defs end_defs turn_defs demo_defs shrink_env_def shrink_second_def
      shrink_start_def shrink_agent_def shrunk_chat_def demo_agent_def total_usd_def)
  ultimately show ?thesis by (auto simp: run_round_def next_phase_def)
qed

text \<open>A turn can panic: the compaction that recovers from an overflow within a turn may leave
  fewer messages than the turn found at its start, and the end of the turn then slices the transcript
  from that start to store what the turn added.\<close>

theorem overflow_recovery_panics:
  "map_option fst (run_turn shrink_env 2 ''p'' shrink_agent) = Some Panicked"
proof -
  have b: "begin_turn shrink_env ''p'' shrink_agent = shrink_start"
    by (simp add: begin_shrink shrink_start_def)
  have "tn_round shrink_second = 0"
    by (simp add: shrink_second_def shrink_start_def shrink_agent_def demo_agent_def fresh_agent_def)
  with shrink_ends shrink_first show ?thesis
    by (auto simp: run_turn_def b numeral_2_eq_2 stamp_highest_def)
qed

subsection \<open>A fault launders a refused green\<close>

text \<open>The first answer edits a test file, the second one is \<open>reply\<close>; the gate passes.\<close>

definition launder_env :: "(go_error + response) \<Rightarrow> nat env" where
  "launder_env reply = (scripted (\<lambda>_ n. if n = 0
       then says ''more'' [demo_call ''edit'' ''x_test.go''] else reply) 0)
     \<lparr>e_verify := Some demo_gate, e_guards := [FakeGreenGuard]\<rparr>"

lemma launder_first:
  "\<exists>s1. run_round (launder_env reply) (begin_turn (launder_env reply) ''p'' (demo_agent [''floor''])) =
      (Some Again, s1)
    \<and> tn_dispatches s1 = [succeed (demo_call ''edit'' ''x_test.go'')]
    \<and> l_router s1 = demo_router [''floor''] \<and> l_compactor s1 = None \<and> tn_round s1 = 0
    \<and> tn_cycle_start s1 = 0 \<and> tn_prev_rung s1 = ''floor'' \<and> world s1 = 1
    \<and> tn_faults s1 = zero_faults \<and> l_fab_rounds s1 = 0"
  by (simp add: Let_def run_round_def guard_defs reply_defs turn_defs demo_defs launder_env_def
      demo_agent_def mid_flight_def dispatch_round_def dispatch_call_def resolve_call_def
      truncated_write_reason_def is_mutating_write_def is_spawn_call_def track_truncated_view_def)

lemma launder_guards:
  assumes "l_compactor s = None" "l_router s = demo_router [''floor'']" "tn_prev_rung s = ''floor''"
    "tn_round s = 1" "tn_cycle_start s = 0"
  shows "guard_phases (launder_env reply) s = (None, s\<lparr>tn_prev_rung := ''floor''\<rparr>)"
  using assms
  by (simp add: guard_defs launder_env_def scripted_def model_defs demo_router_def Let_def)

lemma launder_call:
  assumes "l_router s = demo_router [''floor'']" "world s = 1"
  shows "\<exists>sent. call_model (launder_env reply) s = (sent, reply, s\<lparr>world := 2\<rparr>)"
  using assms by (simp add: model_defs Let_def demo_router_def launder_env_def scripted_def)

lemma launder_gate:
  assumes "tn_dispatches s = [succeed (demo_call ''edit'' ''x_test.go'')]"
  shows "\<exists>out. verify_scoped_gate (launder_env reply) d demo_gate s = ((True, out), s)"
    "guards_refuse (launder_env reply) StageFakeGreen t b s \<noteq> None"
    "guards_refuse (launder_env reply) StageFabrication t b s = None"
  using assms
  by (simp_all add: verify_scoped_gate_def check_scoped_def scope_go_test_def demo_gate_def
      launder_env_def scripted_def guards_refuse_def fake_green_verdict_def
      worker_authored_test_paths_def is_mutating_write_def succeed_def demo_call_def
      tool_call_path_def string_param_def is_test_file_def has_suffix_def)

lemma launder_second:
  assumes "l_compactor s = None" "l_router s = demo_router [''floor'']" "tn_prev_rung s = ''floor''"
    "tn_round s = 1" "tn_cycle_start s = 0" "world s = 1"
    "tn_dispatches s = [succeed (demo_call ''edit'' ''x_test.go'')]"
  shows "\<exists>r s1. run_round (launder_env (says ''ok'' [])) s = (Some (EndTurnWith (Answered r)), s1)
      \<and> tr_verify_failed r \<and> tr_dispatches r = tn_dispatches s"
    "\<exists>r s1. run_round (launder_env (Inl \<lparr>err_wraps = [], err_text = ''refused''\<rparr>)) s =
        (Some (EndTurnWith (Answered r)), s1)
      \<and> clean_result r \<and> tr_dispatches r = tn_dispatches s"
proof -
  let ?s = "s\<lparr>tn_prev_rung := ''floor''\<rparr>" and ?s2 = "s\<lparr>tn_prev_rung := ''floor'', world := 2\<rparr>"
  note g = launder_guards [OF assms(1-5)]
  have c: "\<exists>sent. call_model (launder_env reply) ?s = (sent, reply, ?s2)" for reply
    using launder_call [of ?s] assms(2,6) by simp
  have fin: "\<exists>s1. finish_turn (launder_env reply) s' = Some (None, s1) \<and> tn_dispatches s1 = tn_dispatches s'"
    if "l_router s' = demo_router [''floor'']" for s' reply
    using that
    by (simp add: finish_turn_def persist_messages_def observe_def demo_router_def Let_def
        record_row_def record_escalation_edge_def no_edge_def launder_env_def scripted_def)
  let ?e1 = "launder_env (says ''ok'' [])"
  obtain resp where resp: "says ''ok'' [] = Inr resp" "rs_calls resp = []" "rs_text resp = ''ok''"
    by (simp add: says_def)
  show "\<exists>r s1. run_round ?e1 s = (Some (EndTurnWith (Answered r)), s1)
      \<and> tr_verify_failed r \<and> tr_dispatches r = tn_dispatches s"
  proof -
    obtain sent where call: "call_model ?e1 ?s = (sent, Inr resp, ?s2)" using c [of "Inr resp"] resp by auto
    define s4 where "s4 = (let a = account_for_call ?e1 resp sent ?s2
      in a\<lparr>tn_prev_sig := [], l_transcript := l_transcript a @
           [(text_message RoleAssistant ''ok'')\<lparr>m_tool_calls := []\<rparr>]\<rparr>)"
    have s4: "l_router s4 = demo_router [''floor'']" "tn_dispatches s4 = tn_dispatches s"
      using assms(2) by (simp_all add: s4_def Let_def)
    note gates = launder_gate [of s4 "says ''ok'' []", unfolded s4, OF assms(7)]
    obtain out where gate: "verify_scoped_gate ?e1 False demo_gate s4 = ((True, out), s4)"
      using gates(1) by blast
    obtain reason where ref: "guards_refuse ?e1 StageFakeGreen ''ok'' True s4 = Some reason"
      using gates(2) by blast
    have fab: "guards_refuse ?e1 StageFabrication ''ok'' True s4 = None" by (rule gates(3))
    obtain s5 where f: "finish_turn ?e1 s4 = Some (None, s5)" "tn_dispatches s5 = tn_dispatches s4"
      using fin [OF s4(1)] by blast
    have v: "e_verify ?e1 = Some demo_gate" by (simp add: launder_env_def)
    have "\<exists>r. on_declared_done ?e1 ''ok'' s4 = (Some (Answered r), s5)
        \<and> tr_verify_failed r \<and> tr_dispatches r = tn_dispatches s"
      using f s4(2)
      by (simp add: on_declared_done_def verify_claim_def v fab ref gate conclude_def base_result_def)
    moreover have "next_phase (repeated_call_guard ?e1 ''ok'' []) (act_on_calls ?e1 ''ok'' [])
        (account_for_call ?e1 resp sent ?s2) =
      (case on_declared_done ?e1 ''ok'' s4 of
         (Some res, s1) \<Rightarrow> (Some (EndTurnWith res), s1) | (None, s1) \<Rightarrow> (Some Again, s1))"
      by (simp add: next_phase_def repeated_call_guard_def tool_call_signature_def act_on_calls_def
          Let_def s4_def)
    moreover have "narrated_calls ?e1 resp a = ([], a)" for a
      using resp(2) by (simp add: narrated_calls_def launder_env_def scripted_def Let_def)
    ultimately show ?thesis
      using g [of "says ''ok'' []"] call resp(3)
      by (auto simp: run_round_def next_phase_def [of "guard_phases ?e1"] work_phase_def use_response_def)
  qed
  let ?err = "\<lparr>err_wraps = [], err_text = ''refused''\<rparr>"
  let ?e2 = "launder_env (Inl ?err)"
  have v: "e_verify ?e2 = Some demo_gate" by (simp add: launder_env_def)
  obtain s3 where f: "finish_turn ?e2 ?s2 = Some (None, s3)" "tn_dispatches s3 = tn_dispatches s"
    using fin [of ?s2] assms(2) by auto
  obtain out where gate: "verify_scoped_gate ?e2 False demo_gate s3 = ((True, out), s3)"
    using launder_gate(1) [of s3] f(2) assms(7) by metis
  have "handle_fault ?e2 ?err ?s2 = (Some (EndTurnWith (Answered (base_result None s3))), s3)"
    by (simp add: handle_fault_def recover_from_fault_def classify_fault_def is_timeout_def
        ending_def end_aborted_def close_on_terminal_fault_def close_on_fault_def v f gate Let_def)
  then show "\<exists>r s1. run_round ?e2 s = (Some (EndTurnWith (Answered r)), s1)
      \<and> clean_result r \<and> tr_dispatches r = tn_dispatches s"
    using g [of "Inl ?err"] c [of "Inl ?err"] f(2)
    by (auto simp: run_round_def next_phase_def work_phase_def clean_result_def base_result_def)
qed

lemma launder_turn:
  assumes "\<And>s. l_compactor s = None \<Longrightarrow> l_router s = demo_router [''floor''] \<Longrightarrow>
      tn_prev_rung s = ''floor'' \<Longrightarrow> tn_round s = 1 \<Longrightarrow> tn_cycle_start s = 0 \<Longrightarrow> world s = 1 \<Longrightarrow>
      tn_dispatches s = [succeed (demo_call ''edit'' ''x_test.go'')] \<Longrightarrow>
      \<exists>r s1. run_round (launder_env reply) s = (Some (EndTurnWith (Answered r)), s1)
        \<and> P r \<and> tr_dispatches r = tn_dispatches s"
  shows "\<exists>r s1 h. run_turn (launder_env reply) 2 ''p'' (demo_agent [''floor'']) =
      Some (Answered (r\<lparr>tr_highest := h\<rparr>), s1)
    \<and> P r \<and> tr_dispatches r = [succeed (demo_call ''edit'' ''x_test.go'')]"
proof -
  obtain s where s: "run_round (launder_env reply)
      (begin_turn (launder_env reply) ''p'' (demo_agent [''floor''])) = (Some Again, s)"
    "tn_dispatches s = [succeed (demo_call ''edit'' ''x_test.go'')]"
    "l_router s = demo_router [''floor'']" "l_compactor s = None" "tn_round s = 0"
    "tn_cycle_start s = 0" "tn_prev_rung s = ''floor''" "world s = 1"
    using launder_first [of reply] by blast
  then obtain r s1 where "run_round (launder_env reply) (s\<lparr>tn_round := 1\<rparr>) =
      (Some (EndTurnWith (Answered r)), s1)" "P r"
    "tr_dispatches r = [succeed (demo_call ''edit'' ''x_test.go'')]"
    using assms [of "s\<lparr>tn_round := 1\<rparr>"] by auto
  with s(1,5) have "run_turn (launder_env reply) 2 ''p'' (demo_agent [''floor'']) =
        Some (Answered (r\<lparr>tr_highest := highest_model (l_router s1)\<rparr>), s1)
      \<and> P r \<and> tr_dispatches r = [succeed (demo_call ''edit'' ''x_test.go'')]"
    by (simp add: run_turn_def numeral_2_eq_2 stamp_highest_def)
  then show ?thesis by blast
qed

text \<open>A fault launders a green that the done-claim refuses: after the same edit of a test file,
  with the same passing gate, an agent that claims done is refused as unverified, while one whose next
  call fails for good ends with a clean result, since the close on a fault runs the gate but not the
  guards behind it.\<close>

theorem fault_launders_fake_green:
  "\<exists>r1 r2 s1 s2. run_turn (launder_env (says ''ok'' [])) 2 ''p'' (demo_agent [''floor'']) =
       Some (Answered r1, s1)
     \<and> run_turn (launder_env (Inl \<lparr>err_wraps = [], err_text = ''refused''\<rparr>)) 2 ''p''
         (demo_agent [''floor'']) = Some (Answered r2, s2)
     \<and> tr_dispatches r1 = tr_dispatches r2 \<and> \<not> clean_result r1 \<and> clean_result r2"
proof -
  obtain r1 s1 h1 where 1: "run_turn (launder_env (says ''ok'' [])) 2 ''p'' (demo_agent [''floor'']) =
      Some (Answered (r1\<lparr>tr_highest := h1\<rparr>), s1)" "tr_verify_failed r1"
    "tr_dispatches r1 = [succeed (demo_call ''edit'' ''x_test.go'')]"
    using launder_turn [of _ tr_verify_failed, OF launder_second(1)] by blast
  obtain r2 s2 h2 where 2: "run_turn (launder_env (Inl \<lparr>err_wraps = [], err_text = ''refused''\<rparr>)) 2 ''p''
      (demo_agent [''floor'']) = Some (Answered (r2\<lparr>tr_highest := h2\<rparr>), s2)" "clean_result r2"
    "tr_dispatches r2 = [succeed (demo_call ''edit'' ''x_test.go'')]"
    using launder_turn [of _ clean_result, OF launder_second(2)] by blast
  have "tr_dispatches (r1\<lparr>tr_highest := h1\<rparr>) = tr_dispatches (r2\<lparr>tr_highest := h2\<rparr>)"
    "\<not> clean_result (r1\<lparr>tr_highest := h1\<rparr>)" "clean_result (r2\<lparr>tr_highest := h2\<rparr>)"
    using 1(2,3) 2(2,3) by (simp_all add: clean_result_def)
  with 1(1) 2(1) show ?thesis by blast
qed

subsection \<open>Counters that outlive their turn\<close>

text \<open>The start of a turn resets the round, but neither the round of the last opportunistic check,
  which the next one is measured from, nor the re-prompts and revise cycles already spent.\<close>

lemma counters_survive:
  "tn_round (begin_turn e prompt s) = 0 \<and> l_last_opp (begin_turn e prompt s) = l_last_opp s
   \<and> l_fab_rounds (begin_turn e prompt s) = l_fab_rounds s
   \<and> l_verify_rounds (begin_turn e prompt s) = l_verify_rounds s"
proof -
  obtain ev s1 where m: "maybe_compact e (start_session e s) = (ev, s1)" by fastforce
  have r: "tn_round (receive_prompt e prompt s') = tn_round s'
      \<and> l_last_opp (receive_prompt e prompt s') = l_last_opp s'
      \<and> l_fab_rounds (receive_prompt e prompt s') = l_fab_rounds s'
      \<and> l_verify_rounds (receive_prompt e prompt s') = l_verify_rounds s'" for s'
    by (simp add: receive_prompt_def probe_context_def case_prod_beta Let_def split: option.splits)
  have "l_last_opp s1 = l_last_opp s \<and> l_fab_rounds s1 = l_fab_rounds s
      \<and> l_verify_rounds s1 = l_verify_rounds s"
    using maybe_compact_frame [of e "start_session e s"] unfolding m
    by (simp add: start_session_def)
  with r show ?thesis by (simp add: begin_turn_def m start_turn_def)
qed

end
