(* ===== verification/Fs_Text.thy ===== *)
theory Fs_Text
  imports Coding_Gate
begin

text \<open>
  The text algorithms of the file-system organ, \<open>internal/fsorgan\<close>: the line model of
  \<open>read.go\<close>, and of \<open>edit.go\<close> the exact, the white-space tolerant and the line-number tolerant
  replacement and the hint for a text that was not found. They are pure functions of byte strings;
  the organ of theory \<open>Fs_Organ\<close> applies them to files.
\<close>

named_theorems fs_text_defs \<open>definitions of the text algorithms\<close>

subsection \<open>Runes\<close>

definition byte_in :: "nat \<Rightarrow> nat \<Rightarrow> char \<Rightarrow> bool" where
  "byte_in lo hi c = (lo \<le> (of_char c :: nat) \<and> (of_char c :: nat) \<le> hi)"

text \<open>The number of bytes of the UTF-8 encoded rune at the head of a string, 0 where the decoder
  finds none and consumes one byte as an error.\<close>

fun rune_width :: "string \<Rightarrow> nat" where
  "rune_width [] = 0"
| "rune_width [c] = (if byte_in 0 127 c then 1 else 0)"
| "rune_width [c, d] =
     (if byte_in 0 127 c then 1
      else if byte_in 194 223 c \<and> byte_in 128 191 d then 2 else 0)"
| "rune_width [c, d, f] =
     (if byte_in 0 127 c then 1
      else if byte_in 194 223 c then (if byte_in 128 191 d then 2 else 0)
      else if byte_in 224 239 c
        \<and> byte_in (if byte_in 224 224 c then 160 else 128) (if byte_in 237 237 c then 159 else 191) d
        \<and> byte_in 128 191 f then 3 else 0)"
| "rune_width (c # d # f # g # s) =
     (if byte_in 0 127 c then 1
      else if byte_in 194 223 c then (if byte_in 128 191 d then 2 else 0)
      else if byte_in 224 239 c then
        (if byte_in (if byte_in 224 224 c then 160 else 128) (if byte_in 237 237 c then 159 else 191) d
          \<and> byte_in 128 191 f then 3 else 0)
      else if byte_in 240 244 c
        \<and> byte_in (if byte_in 240 240 c then 144 else 128) (if byte_in 244 244 c then 143 else 191) d
        \<and> byte_in 128 191 f \<and> byte_in 128 191 g then 4 else 0)"

definition rune_error :: string where
  "rune_error = [CHR 0xEF, CHR 0xBF, CHR 0xBD]"

text \<open>The runes of a string, each as its encoding; a byte that belongs to none is the replacement
  rune.\<close>

function runes :: "string \<Rightarrow> string list" where
  "runes [] = []"
| "runes (c # s) =
     (let n = rune_width (c # s)
      in if n = 0 then rune_error # runes s else take n (c # s) # runes (drop (n - 1) s))"
  by pat_completeness auto
termination by (relation "measure length") auto

subsection \<open>Lines\<close>

definition lines_of :: "string \<Rightarrow> string list" where
  "lines_of s = split_char (CHR 0x0A) s"

definition line_count :: "string \<Rightarrow> int" where
  "line_count s =
     (if s = [] then 0
      else (let n = int (count_list s (CHR 0x0A))
            in if has_suffix s newline then n else n + 1))"

definition strip_bom :: "string \<Rightarrow> string" where
  "strip_bom s = trim_prefix s [CHR 0xEF, CHR 0xBB, CHR 0xBF]"

definition trim_cr :: "string \<Rightarrow> string" where
  "trim_cr l = (if has_suffix l [CHR 0x0D] then take (length l - 1) l else l)"

definition cap_line :: "string \<Rightarrow> string" where
  "cap_line l =
     (let l = trim_cr l
      in if length l > 60000 then take 60000 l @ ''... [truncated]'' else l)"

text \<open>The lines at the positions from \<open>line_offset\<close> up to \<open>end_line\<close> (negative: no end), and the
  number of all lines.\<close>

definition select_lines :: "string \<Rightarrow> int \<Rightarrow> int \<Rightarrow> string list \<times> int" where
  "select_lines file line_offset end_line =
     (let ls = lines_of (strip_bom file);
          last = (if end_line < 0 then length ls else nat end_line)
      in (map cap_line (drop (nat line_offset) (take last ls)), int (length ls)))"

definition tab :: char where
  "tab = CHR 0x09"

definition numbered_lines :: "int \<Rightarrow> string list \<Rightarrow> string list" where
  "numbered_lines start ls = map (\<lambda>i. itoa (start + int i) @ tab # ls ! i) [0..<length ls]"

definition render_lines :: "int \<Rightarrow> string list \<Rightarrow> string" where
  "render_lines start ls = join newline (numbered_lines start ls)"

subsection \<open>Occurrences\<close>

text \<open>\<open>strings.Count\<close> and \<open>strings.ReplaceAll\<close> for a text that is not empty.\<close>

definition count_str :: "string \<Rightarrow> string \<Rightarrow> nat" where
  "count_str s sub = length (split_str sub s) - 1"

definition replace_every :: "string \<Rightarrow> string \<Rightarrow> string \<Rightarrow> string" where
  "replace_every s old new = join new (split_str old s)"

definition lf_text :: "string \<Rightarrow> string" where
  "lf_text s = replace_every s [CHR 0x0D, CHR 0x0A] newline"

subsection \<open>The white-space tolerant replacement\<close>

definition indent_char :: "char \<Rightarrow> bool" where
  "indent_char c = (c = CHR '' '' \<or> c = tab)"

definition leading_ws :: "string \<Rightarrow> string" where
  "leading_ws s = takeWhile indent_char s"

text \<open>The lines of a block; the empty piece behind a final newline is dropped.\<close>

definition block_lines :: "string \<Rightarrow> string list" where
  "block_lines s =
     (let ls = lines_of s in if length ls > 1 \<and> last ls = [] then butlast ls else ls)"

definition block_at :: "string list \<Rightarrow> string list \<Rightarrow> nat \<Rightarrow> bool" where
  "block_at ls block i =
     (map trim_space (take (length block) (drop i ls)) = map trim_space block)"

definition block_matches :: "string list \<Rightarrow> string list \<Rightarrow> nat list" where
  "block_matches ls block =
     (if length block \<le> length ls
      then filter (block_at ls block) [0..<length ls - length block + 1] else [])"

definition line_start :: "string list \<Rightarrow> nat \<Rightarrow> nat" where
  "line_start ls i = sum_list (map (\<lambda>l. length l + 1) (take i ls))"

definition rebase_line :: "string \<Rightarrow> string \<Rightarrow> string \<Rightarrow> string" where
  "rebase_line basis target l =
     (if blank l then l
      else target @ (if has_prefix l basis then drop (length basis) l
                     else dropWhile indent_char l))"

definition rebase :: "string \<Rightarrow> string \<Rightarrow> string" where
  "rebase target new =
     (let nl = lines_of new;
          basis = (case filter (\<lambda>l. \<not> blank l) nl of [] \<Rightarrow> [] | l # _ \<Rightarrow> leading_ws l)
      in join newline (if basis \<noteq> target then map (rebase_line basis target) nl else nl))"

definition line_trimmed_replace :: "string \<Rightarrow> string \<Rightarrow> string \<Rightarrow> string option" where
  "line_trimmed_replace content old new =
     (let block = block_lines old; ls = lines_of content
      in case block_matches ls block of
           [i] \<Rightarrow>
             (let final = i + length block - 1;
                  start = line_start ls i;
                  stop = min (line_start ls final + length (ls ! final)) (length content)
              in Some (take start content @ rebase (leading_ws (ls ! i)) new @ drop stop content))
         | _ \<Rightarrow> None)"

subsection \<open>The line-number tolerant replacement\<close>

definition strip_number :: "string \<Rightarrow> string option" where
  "strip_number l =
     (let rest = dropWhile digit l
      in if rest \<noteq> l \<and> rest \<noteq> [] \<and> hd rest = tab then Some (tl rest) else None)"

definition strip_line_numbers :: "string \<Rightarrow> string option" where
  "strip_line_numbers s =
     (let ls = block_lines s;
          out = map (\<lambda>l. case strip_number l of None \<Rightarrow> l | Some r \<Rightarrow> r) ls
      in if list_ex (\<lambda>l. strip_number l \<noteq> None) ls \<and> list_ex (\<lambda>l. l \<noteq> []) out
         then Some (join newline out) else None)"

subsection \<open>The hint\<close>

fun trigrams :: "string list \<Rightarrow> string list list" where
  "trigrams (a # b # c # rs) = [a, b, c] # trigrams (b # c # rs)"
| "trigrams rs = []"

definition trigram_overlap :: "string list list \<Rightarrow> string list list \<Rightarrow> nat" where
  "trigram_overlap as bs =
     sum_list (map (\<lambda>k. min (count_list as k) (count_list bs k)) (remdups as))"

definition line_score :: "string list list \<Rightarrow> string \<Rightarrow> rat" where
  "line_score want l =
     (if blank l then 0
      else of_nat (trigram_overlap want (trigrams (runes (trim_space l)))) / of_nat (length want))"

text \<open>The first line with the best score above the one so far.\<close>

fun best_line :: "(string \<Rightarrow> rat) \<Rightarrow> nat \<Rightarrow> string list \<Rightarrow> (nat \<times> rat) option \<Rightarrow> (nat \<times> rat) option" where
  "best_line score i [] best = best"
| "best_line score i (l # ls) best =
     best_line score (Suc i) ls
       (if score l > (case best of None \<Rightarrow> 0 | Some (_, b) \<Rightarrow> b) then Some (i, score l) else best)"

definition nearest_edit_hint :: "string \<Rightarrow> string \<Rightarrow> string option" where
  "nearest_edit_hint content old =
     (let anchor = (case filter (\<lambda>l. \<not> blank l) (lines_of old) of [] \<Rightarrow> [] | l # _ \<Rightarrow> trim_space l)
      in if length (runes anchor) < 12 then None
         else (let ls = lines_of content
               in case best_line (line_score (trigrams (runes anchor))) 0 ls None of
                    None \<Rightarrow> None
                  | Some (i, b) \<Rightarrow>
                      if b < 1 / 2 then None
                      else Some (join newline (take (min (length (block_lines old)) 12) (drop i ls)))))"

definition edit_line_count :: "string \<Rightarrow> nat" where
  "edit_line_count s =
     count_list (rev (dropWhile (\<lambda>c. c = CHR 0x0A) (rev s))) (CHR 0x0A) + 1"

subsection \<open>The edit of a text\<close>

definition quoted_word :: "string \<Rightarrow> string" where
  "quoted_word w = CHR 0x22 # w @ [CHR 0x22]"

definition not_found_text :: "string \<Rightarrow> string \<Rightarrow> string" where
  "not_found_text content old =
     ''fs.edit: String to replace not found in file. If you copied old_string from fs.read output, strip the leading ''
     @ quoted_word (''<n>'' @ [CHR 0x5C, CHR ''t''])
     @ '' line-number prefix from each line '' @ em_dash
     @ '' old_string must match the file's raw text, not the numbered display.''
     @ (case nearest_edit_hint content old of
          None \<Rightarrow> []
        | Some hint \<Rightarrow> newline @ ''The closest existing text in the file is below '' @ em_dash
            @ '' copy it EXACTLY into old_string (verbatim; do not abbreviate, paraphrase, or add quotes):''
            @ newline @ hint)
     @ (if edit_line_count old \<ge> 3
        then newline @ ''Your old_string spans several lines '' @ em_dash
          @ '' reproducing a whole block verbatim is what missed. If you are INSERTING code, do NOT replace a block: set old_string to ONE short unique existing line next to the insertion point, and new_string to that SAME line plus your added lines.''
        else [])
     @ newline @ ''String: '' @ old"

definition ambiguous_text :: "nat \<Rightarrow> string \<Rightarrow> string" where
  "ambiguous_text n old =
     ''fs.edit: Found '' @ itoa (int n) @ '' matches of the string to replace, but replace_all is false. To replace all occurrences, set replace_all to true. To replace only one occurrence, please provide more context to uniquely identify the instance.''
     @ newline @ ''String: '' @ old"

text \<open>The replacement of an old text that occurs \<open>n > 0\<close> times.\<close>

definition replace_found :: "string \<Rightarrow> string \<Rightarrow> string \<Rightarrow> bool \<Rightarrow> nat \<Rightarrow> string + (string \<times> int)" where
  "replace_found content old new every n =
     (if n > 1 \<and> \<not> every then Inl (ambiguous_text n old)
      else if every then Inr (replace_every content old new, int n)
      else Inr (replace_first content old new, 1))"

definition fuzzy_replace :: "string \<Rightarrow> string \<Rightarrow> string \<Rightarrow> bool \<Rightarrow> string option" where
  "fuzzy_replace content old new every =
     (if every then None else line_trimmed_replace content old new)"

text \<open>The edit of a text whose line ends are normalised by an old text that is not empty: the error,
  or the new text with the number of replacements.\<close>

definition edit_text :: "string \<Rightarrow> string \<Rightarrow> string \<Rightarrow> bool \<Rightarrow> string + (string \<times> int)" where
  "edit_text content old new every =
     (let n = count_str content old
      in if n > 0 then replace_found content old new every n
         else (case fuzzy_replace content old new every of
                 Some out \<Rightarrow> Inr (out, 1)
               | None \<Rightarrow>
                   (case strip_line_numbers old of
                      None \<Rightarrow> Inl (not_found_text content old)
                    | Some st \<Rightarrow>
                        if st = old then Inl (not_found_text content old)
                        else if count_str content st > 0
                        then replace_found content st new every (count_str content st)
                        else (case fuzzy_replace content st new every of
                                Some out \<Rightarrow> Inr (out, 1)
                              | None \<Rightarrow> Inl (not_found_text content old)))))"

end
