(* ===== verification/Fs_Os.thy ===== *)
theory Fs_Os
  imports Fs_Text
begin

text \<open>
  What the file-system organ of \<open>internal/fsorgan\<close> stands on: the operating system as a record of
  functions over an explicit world, path expansion (\<open>path.go\<close>), the worktree sandbox
  (\<open>sandbox.go\<close>), the read registry (\<open>readstate.go\<close>) and the decoding of a call's parameters
  and encoding of its result through JSON (\<open>decodeParams\<close>, \<open>asResult\<close>).
\<close>

named_theorems fs_defs \<open>definitions of the file-system organ\<close>

subsection \<open>The operating system\<close>

text \<open>An error as \<open>errors.Is\<close> classifies it, with its text.\<close>

datatype os_kind = OsNotExist | OsPermission | OsNotEmpty | OsCrossDevice | OsOther

record os_error =
  oe_kind :: os_kind
  oe_text :: string

text \<open>File information; the modification time is in nanoseconds.\<close>

record file_info =
  fi_dir :: bool
  fi_size :: int
  fi_mtime :: int

definition unix_milli :: "file_info \<Rightarrow> int" where
  "unix_milli fi = fi_mtime fi div 1000000"

datatype entry_type = EntryDir | EntrySymlink | EntryOther

text \<open>An entry of a directory; the size is unknown when its information cannot be read.\<close>

record dir_entry =
  de_name :: string
  de_type :: entry_type
  de_size :: "int option"

text \<open>The tree that a walk visits, in its order: regular files, other entries, directories with
  their entries or the error of reading them.\<close>

datatype tree = TFile string | TOther string | TDir string "os_error + tree list"

text \<open>The functions of the system. \<open>os_elapsed\<close> is the time in milliseconds between the two clock
  readings of an action, \<open>os_copy_tree\<close> the copy that replaces a rename across devices,
  \<open>os_regexp\<close> the compiler of regular expressions.\<close>

record 'w os =
  os_home :: string
  os_cwd :: "os_error + string"
  os_eval_symlinks :: "string \<Rightarrow> 'w \<Rightarrow> os_error + string"
  os_stat :: "string \<Rightarrow> 'w \<Rightarrow> os_error + file_info"
  os_lstat :: "string \<Rightarrow> 'w \<Rightarrow> os_error + file_info"
  os_read_file :: "string \<Rightarrow> 'w \<Rightarrow> os_error + string"
  os_read_dir :: "string \<Rightarrow> 'w \<Rightarrow> os_error + dir_entry list"
  os_tree :: "string \<Rightarrow> 'w \<Rightarrow> os_error + tree list"
  os_mkdir_all :: "string \<Rightarrow> 'w \<Rightarrow> os_error option \<times> 'w"
  os_write_file :: "string \<Rightarrow> string \<Rightarrow> 'w \<Rightarrow> os_error option \<times> 'w"
  os_remove :: "string \<Rightarrow> 'w \<Rightarrow> os_error option \<times> 'w"
  os_remove_all :: "string \<Rightarrow> 'w \<Rightarrow> os_error option \<times> 'w"
  os_rename :: "string \<Rightarrow> string \<Rightarrow> 'w \<Rightarrow> os_error option \<times> 'w"
  os_copy_tree :: "string \<Rightarrow> string \<Rightarrow> file_info \<Rightarrow> 'w \<Rightarrow> os_error option \<times> 'w"
  os_regexp :: "string \<Rightarrow> string + (string \<Rightarrow> bool)"
  os_elapsed :: "'w \<Rightarrow> int"

subsection \<open>Paths\<close>

definition expand_user_path :: "'w os \<Rightarrow> string \<Rightarrow> string" where
  "expand_user_path os p =
     (if p = ''~'' then (if os_home os \<noteq> [] then os_home os else p)
      else if has_prefix p ''~/'' then (if os_home os \<noteq> [] then file_join (os_home os) (drop 2 p) else p)
      else p)"

definition file_abs :: "'w os \<Rightarrow> string \<Rightarrow> os_error + string" where
  "file_abs os p =
     (if is_abs p then Inr (file_clean p)
      else (case os_cwd os of Inl e \<Rightarrow> Inl e | Inr wd \<Rightarrow> Inr (file_join wd p)))"

definition abs_path :: "'w os \<Rightarrow> string \<Rightarrow> string" where
  "abs_path os p = (case file_abs os p of Inl _ \<Rightarrow> p | Inr a \<Rightarrow> a)"

subsection \<open>The worktree sandbox\<close>

text \<open>The search upwards for an existing ancestor of an absolute clean path: the second argument is
  the stack of its segments, deepest first, the third the segments found missing so far.\<close>

fun eval_upwards :: "(string \<Rightarrow> os_error + string) \<Rightarrow> string list \<Rightarrow> string list \<Rightarrow> string \<Rightarrow> os_error + string" where
  "eval_upwards eval [] missing target =
     (case eval ''/'' of
        Inr r \<Rightarrow> Inr (foldl file_join r missing)
      | Inl e \<Rightarrow> if oe_kind e = OsNotExist then Inr target else Inl e)"
| "eval_upwards eval (seg # up) missing target =
     (case eval (''/'' @ join ''/'' (rev (seg # up))) of
        Inr r \<Rightarrow> Inr (foldl file_join r missing)
      | Inl e \<Rightarrow>
          if oe_kind e \<noteq> OsNotExist then Inl e else eval_upwards eval up (seg # missing) target)"

definition eval_existing_prefix :: "'w os \<Rightarrow> string \<Rightarrow> 'w \<Rightarrow> os_error + string" where
  "eval_existing_prefix os target w =
     eval_upwards (\<lambda>p. os_eval_symlinks os p w) (clean_stack target) [] target"

definition escapes :: "string option \<Rightarrow> bool" where
  "escapes rel = (case rel of None \<Rightarrow> True | Some r \<Rightarrow> r = ''..'' \<or> has_prefix r ''../'')"

definition sandbox_abs :: "string \<Rightarrow> string \<Rightarrow> string" where
  "sandbox_abs root_abs p = (if is_abs p then file_clean p else file_join root_abs p)"

text \<open>A path resolved under a sandbox root, or the text of the refusal; an empty root is no
  sandbox.\<close>

definition resolve_within :: "'w os \<Rightarrow> string \<Rightarrow> string \<Rightarrow> 'w \<Rightarrow> string + string" where
  "resolve_within os sroot path0 w =
     (let path = expand_user_path os path0
      in if sroot = [] then Inr path
         else (case file_abs os sroot of
            Inl e \<Rightarrow> Inl (''resolve sandbox root '' @ go_quote sroot @ '': '' @ oe_text e)
          | Inr root_abs0 \<Rightarrow>
              (let root_abs = file_clean root_abs0; target = sandbox_abs root_abs path
               in if escapes (file_rel root_abs target)
                  then Inl (''path '' @ go_quote path @ '' escapes the worktree sandbox '' @ go_quote root_abs)
                  else (case os_eval_symlinks os root_abs w of
                     Inl e \<Rightarrow> Inl (''resolve sandbox root '' @ go_quote root_abs @ '': '' @ oe_text e)
                   | Inr real_root \<Rightarrow>
                       (case eval_existing_prefix os target w of
                          Inl e \<Rightarrow> Inl (''resolve path '' @ go_quote path @ '': '' @ oe_text e)
                        | Inr real_abs \<Rightarrow>
                            if escapes (file_rel real_root real_abs)
                            then Inl (''path '' @ go_quote path @ '' escapes the worktree sandbox ''
                                   @ go_quote root_abs @ '' via a symlink'')
                            else Inr target)))))"

text \<open>The recovery of a path that names a file by its place in the source repository: the one
  tail of it, of two segments or more, that exists under the root.\<close>

definition exists_at :: "'w os \<Rightarrow> string \<Rightarrow> 'w \<Rightarrow> bool" where
  "exists_at os p w = (case os_stat os p w of Inl _ \<Rightarrow> False | Inr _ \<Rightarrow> True)"

definition join_segs :: "string list \<Rightarrow> string" where
  "join_segs segs = file_clean (join ''/'' segs)"

definition path_tails :: "string list \<Rightarrow> string list" where
  "path_tails segs = map (\<lambda>i. join_segs (drop i segs)) [0..<length segs - 1]"

definition recover_worktree_path :: "'w os \<Rightarrow> string \<Rightarrow> string \<Rightarrow> 'w \<Rightarrow> string option" where
  "recover_worktree_path os sroot path w =
     (if blank sroot then None
      else (let segs = filter (\<lambda>s. s \<noteq> [] \<and> s \<noteq> ''.'') (split_char (CHR ''/'') (trim_space path))
            in if length segs < 2 then None
               else (case filter (\<lambda>t. exists_at os (file_join sroot t) w) (path_tails segs) of
                       [t] \<Rightarrow> Some t
                     | _ \<Rightarrow> None)))"

subsection \<open>The read registry\<close>

record read_mark =
  rm_mtime :: int
  rm_full :: bool

type_synonym read_registry = "string \<rightharpoonup> read_mark"

definition mark_read :: "'w os \<Rightarrow> string \<Rightarrow> int \<Rightarrow> bool \<Rightarrow> read_registry \<Rightarrow> read_registry" where
  "mark_read os path mtime full reads =
     (let key = abs_path os path
      in case reads key of
           Some prev \<Rightarrow>
             if \<not> full \<and> rm_full prev \<and> mtime \<le> rm_mtime prev then reads
             else reads(key \<mapsto> \<lparr>rm_mtime = mtime, rm_full = full\<rparr>)
         | None \<Rightarrow> reads(key \<mapsto> \<lparr>rm_mtime = mtime, rm_full = full\<rparr>))"

definition not_read_text :: string where
  "not_read_text = ''File has not been read yet. Read it whole (fs.read with no offset/limit) before writing or editing it.''"

definition partly_read_text :: string where
  "partly_read_text = ''Only a partial/ranged read of this file is on record, which does not enable editing. Do a whole-file fs.read (no offset/limit) first, then edit.''"

definition modified_text :: string where
  "modified_text = ''File has been modified since read, either by the user or by a linter. Read it again before attempting to write it.''"

text \<open>The reason a file may not be written, if there is one.\<close>

definition check_writable :: "'w os \<Rightarrow> string \<Rightarrow> int \<Rightarrow> read_registry \<Rightarrow> string option" where
  "check_writable os path now reads =
     (case reads (abs_path os path) of
        None \<Rightarrow> Some not_read_text
      | Some mark \<Rightarrow>
          if \<not> rm_full mark then Some partly_read_text
          else if now > rm_mtime mark then Some modified_text
          else None)"

record 'w fs =
  fs_reads :: read_registry
  fs_world :: 'w

definition new_fs :: "'w \<Rightarrow> 'w fs" where
  "new_fs w = \<lparr>fs_reads = Map.empty, fs_world = w\<rparr>"

subsection \<open>Parameters and results\<close>

text \<open>A call's parameters pass through their JSON text. The encoder writes the keys in order and
  replaces bytes that are no UTF-8; the decoder matches a key with a field up to case, where two
  runes beyond ASCII fold to letters, lets the last match win, ignores null for a plain field and
  fails on a value of another type.\<close>

definition json_text :: "string \<Rightarrow> string" where
  "json_text s = concat (runes s)"

definition object_of :: "(string \<rightharpoonup> go_value) option \<Rightarrow> (string \<times> go_value) list" where
  "object_of ps =
     (case ps of None \<Rightarrow> [] | Some m \<Rightarrow> map (\<lambda>k. (k, the (m k))) (sorted_list_of_set (dom m)))"

definition fold_rune :: "string \<Rightarrow> string" where
  "fold_rune r = (if r = [CHR 0xC5, CHR 0xBF] then ''s''
     else if r = [CHR 0xE2, CHR 0x84, CHR 0xAA] then ''k'' else to_lower r)"

definition fold_key :: "string \<Rightarrow> string" where
  "fold_key k = concat (map fold_rune (runes k))"

definition field_values :: "string \<Rightarrow> (string \<times> go_value) list \<Rightarrow> go_value list" where
  "field_values name obj = map snd (filter (\<lambda>(k, v). fold_key k = name) obj)"

fun as_string :: "go_value \<Rightarrow> string option" where
  "as_string (VStr s) = Some (json_text s)"
| "as_string _ = None"

fun as_bool :: "go_value \<Rightarrow> bool option" where
  "as_bool (VBool b) = Some b"
| "as_bool _ = None"

fun as_int :: "go_value \<Rightarrow> int option" where
  "as_int (VNum q) =
     (if of_int \<lfloor>q\<rfloor> = q \<and> - (2 ^ 63) \<le> \<lfloor>q\<rfloor> \<and> \<lfloor>q\<rfloor> < 2 ^ 63 then Some \<lfloor>q\<rfloor> else None)"
| "as_int _ = None"

fun decode_values :: "(go_value \<Rightarrow> 'a option) \<Rightarrow> 'a \<Rightarrow> go_value list \<Rightarrow> 'a option" where
  "decode_values f x [] = Some x"
| "decode_values f x (v # vs) =
     (if v = VNil then decode_values f x vs
      else (case f v of None \<Rightarrow> None | Some y \<Rightarrow> decode_values f y vs))"

fun decode_pointer :: "(go_value \<Rightarrow> 'a option) \<Rightarrow> 'a option \<Rightarrow> go_value list \<Rightarrow> 'a option option" where
  "decode_pointer f x [] = Some x"
| "decode_pointer f x (v # vs) =
     (if v = VNil then decode_pointer f None vs
      else (case f v of None \<Rightarrow> None | Some y \<Rightarrow> decode_pointer f (Some y) vs))"

fun decode_lax :: "string \<Rightarrow> go_value list \<Rightarrow> string" where
  "decode_lax x [] = x"
| "decode_lax x (v # vs) =
     decode_lax (case as_string v of None \<Rightarrow> x | Some s \<Rightarrow> s) vs"

definition string_field :: "string \<Rightarrow> (string \<times> go_value) list \<Rightarrow> string option" where
  "string_field name obj = decode_values as_string [] (field_values name obj)"

definition bool_field :: "string \<Rightarrow> (string \<times> go_value) list \<Rightarrow> bool option" where
  "bool_field name obj = decode_values as_bool False (field_values name obj)"

definition int_field :: "string \<Rightarrow> (string \<times> go_value) list \<Rightarrow> int option" where
  "int_field name obj = decode_values as_int 0 (field_values name obj)"

definition int_pointer :: "string \<Rightarrow> (string \<times> go_value) list \<Rightarrow> int option option" where
  "int_pointer name obj = decode_pointer as_int None (field_values name obj)"

definition bool_pointer :: "string \<Rightarrow> (string \<times> go_value) list \<Rightarrow> bool option option" where
  "bool_pointer name obj = decode_pointer as_bool None (field_values name obj)"

text \<open>A path under its own name, or under the alias when that is blank.\<close>

definition aliased :: "string \<Rightarrow> (string \<times> go_value) list \<Rightarrow> string \<Rightarrow> string" where
  "aliased alias obj p = (if blank p then decode_lax [] (field_values alias obj) else p)"

text \<open>The error of an action: parameters that do not decode, or its text.\<close>

datatype fs_error = InvalidParams string | FsError string

definition field_str :: "string \<Rightarrow> string \<Rightarrow> string \<times> go_value" where
  "field_str k s = (k, VStr (json_text s))"

definition field_int :: "string \<Rightarrow> int \<Rightarrow> string \<times> go_value" where
  "field_int k i = (k, VNum (of_int i))"

lemmas param_defs [fs_defs] =
  object_of_def field_values_def string_field_def bool_field_def int_field_def int_pointer_def
  bool_pointer_def aliased_def

end
