(* ===== verification/Fs_Search.thy ===== *)
theory Fs_Search
  imports Fs_Os
begin

text \<open>
  The searching actions of the file-system organ: directory resolution, tree walks and glob
  patterns (\<open>discovery.go\<close>), \<open>fs.ls\<close> (\<open>ls.go\<close>), \<open>fs.glob\<close> (\<open>glob.go\<close>) and \<open>fs.grep\<close>
  (\<open>grep.go\<close>). The regular expressions a caller gives to \<open>fs.grep\<close> are compiled by a parameter of
  the operating-system record; the ones the organ builds from a glob are matched here.
\<close>

text \<open>What a handler returns: the fields of its result, an error, or a panic.\<close>

datatype fs_reply = FsOk "(string \<times> go_value) list" | FsFail fs_error | FsPanic

subsection \<open>Directories and walks\<close>

definition vcs_exclude_dirs :: "string list" where
  "vcs_exclude_dirs = [''.git'', ''.svn'', ''.hg'', ''.bzr'', ''.jj'', ''.sl'']"

text \<open>The absolute form of a path to search, where a blank path means the sandbox root or else the
  working directory.\<close>

definition search_target :: "'w os \<Rightarrow> string \<Rightarrow> string \<Rightarrow> string \<Rightarrow> string + string" where
  "search_target os sroot path label =
     (if \<not> blank path then Inr path
      else if sroot \<noteq> [] then Inr sroot
      else (case os_cwd os of
              Inl e \<Rightarrow> Inl (label @ '': resolve working directory: '' @ oe_text e)
            | Inr wd \<Rightarrow> Inr wd))"

definition search_abs :: "'w os \<Rightarrow> string \<Rightarrow> string \<Rightarrow> string \<Rightarrow> 'w \<Rightarrow> string + string" where
  "search_abs os sroot path label w =
     (case resolve_within os sroot path w of
        Inl e \<Rightarrow> Inl (label @ '': '' @ e)
      | Inr resolved \<Rightarrow>
          (case file_abs os resolved of
             Inl e \<Rightarrow> Inl (label @ '': absolutize '' @ go_quote path @ '': '' @ oe_text e)
           | Inr a \<Rightarrow> Inr a))"

definition resolve_dir :: "'w os \<Rightarrow> string \<Rightarrow> string \<Rightarrow> string \<Rightarrow> 'w \<Rightarrow> string + string" where
  "resolve_dir os sroot path0 label w =
     (case search_target os sroot path0 label of
        Inl e \<Rightarrow> Inl e
      | Inr path \<Rightarrow>
          (case search_abs os sroot path label w of
             Inl e \<Rightarrow> Inl e
           | Inr a \<Rightarrow>
               (case os_stat os a w of
                  Inl _ \<Rightarrow> Inl (label @ '': path does not exist: '' @ path)
                | Inr fi \<Rightarrow>
                    if \<not> fi_dir fi then Inl (label @ '': '' @ path @ '' is not a directory'') else Inr a)))"

fun walk_tree :: "string \<Rightarrow> tree \<Rightarrow> os_error + string list"
  and walk_trees :: "string \<Rightarrow> tree list \<Rightarrow> os_error + string list" where
  "walk_tree pre (TFile n) = Inr [pre @ n]"
| "walk_tree pre (TOther n) = Inr []"
| "walk_tree pre (TDir n entries) =
     (if n \<in> set vcs_exclude_dirs then Inr []
      else (case entries of Inl e \<Rightarrow> Inl e | Inr ts \<Rightarrow> walk_trees (pre @ n @ ''/'') ts))"
| "walk_trees pre [] = Inr []"
| "walk_trees pre (t # ts) =
     (case walk_tree pre t of
        Inl e \<Rightarrow> Inl e
      | Inr here \<Rightarrow>
          (case walk_trees pre ts of Inl e \<Rightarrow> Inl e | Inr rest \<Rightarrow> Inr (here @ rest)))"

definition walk_files :: "'w os \<Rightarrow> string \<Rightarrow> 'w \<Rightarrow> os_error + string list" where
  "walk_files os dir w = (case os_tree os dir w of Inl e \<Rightarrow> Inl e | Inr ts \<Rightarrow> walk_trees [] ts)"

text \<open>Newest first, by name where the times agree; a file that cannot be examined counts as time 0.\<close>

definition mtime_of :: "'w os \<Rightarrow> string \<Rightarrow> 'w \<Rightarrow> string \<Rightarrow> int" where
  "mtime_of os dir w rel =
     (case os_stat os (file_join dir rel) w of Inl _ \<Rightarrow> 0 | Inr fi \<Rightarrow> fi_mtime fi)"

definition sort_by_mtime :: "'w os \<Rightarrow> string \<Rightarrow> 'w \<Rightarrow> string list \<Rightarrow> string list" where
  "sort_by_mtime os dir w rels = sort_key (\<lambda>r. - mtime_of os dir w r) (sort rels)"

subsection \<open>Glob patterns\<close>

text \<open>The pieces of the expression built from a pattern: any run of runes but newlines, an optional
  slash, a run and one rune within a segment, a literal rune. A byte of the pattern that is not
  ASCII is quoted as a rune of its own.\<close>

datatype glob_token = GlobDeep | GlobSlash | GlobRun | GlobOne | GlobLit string

definition byte_rune :: "char \<Rightarrow> string" where
  "byte_rune c =
     (let n = (of_char c :: nat)
      in if n < 128 then [c] else [char_of (192 + n div 64), char_of (128 + n mod 64)])"

fun glob_tokens :: "string \<Rightarrow> glob_token list" where
  "glob_tokens [] = []"
| "glob_tokens (c # s) =
     (if c = CHR ''*'' then
        (case s of
           d # s1 \<Rightarrow>
             if d = CHR ''*'' then
               (case s1 of
                  f # s2 \<Rightarrow> if f = CHR ''/'' then GlobDeep # GlobSlash # glob_tokens s2
                            else GlobDeep # glob_tokens s1
                | [] \<Rightarrow> [GlobDeep])
             else GlobRun # glob_tokens s
         | [] \<Rightarrow> [GlobRun])
      else if c = CHR ''?'' then GlobOne # glob_tokens s
      else GlobLit (byte_rune c) # glob_tokens s)"

fun glob_runes :: "glob_token list \<Rightarrow> string list \<Rightarrow> bool" where
  "glob_runes [] rs = (rs = [])"
| "glob_runes (GlobLit r # ts) [] = False"
| "glob_runes (GlobLit r # ts) (x # rs) = (x = r \<and> glob_runes ts rs)"
| "glob_runes (GlobOne # ts) [] = False"
| "glob_runes (GlobOne # ts) (x # rs) = (x \<noteq> ''/'' \<and> glob_runes ts rs)"
| "glob_runes (GlobSlash # ts) [] = glob_runes ts []"
| "glob_runes (GlobSlash # ts) (x # rs) =
     ((x = ''/'' \<and> glob_runes ts rs) \<or> glob_runes ts (x # rs))"
| "glob_runes (GlobRun # ts) [] = glob_runes ts []"
| "glob_runes (GlobRun # ts) (x # rs) =
     ((x \<noteq> ''/'' \<and> glob_runes (GlobRun # ts) rs) \<or> glob_runes ts (x # rs))"
| "glob_runes (GlobDeep # ts) [] = glob_runes ts []"
| "glob_runes (GlobDeep # ts) (x # rs) =
     ((x \<noteq> newline \<and> glob_runes (GlobDeep # ts) rs) \<or> glob_runes ts (x # rs))"

text \<open>A pattern without a slash is matched against the base name.\<close>

definition match_glob :: "string \<Rightarrow> string \<Rightarrow> bool" where
  "match_glob pattern rel =
     glob_runes (glob_tokens pattern)
       (runes (if contains pattern ''/'' then rel else file_base rel))"

definition glob_max_results :: nat where
  "glob_max_results = 100"

definition handle_glob :: "'w os \<Rightarrow> string \<Rightarrow> (string \<rightharpoonup> go_value) option \<Rightarrow> 'w \<Rightarrow> fs_reply" where
  "handle_glob os sroot ps w =
     (let obj = object_of ps
      in case (string_field ''pattern'' obj, string_field ''path'' obj) of
           (Some pattern, Some path0) \<Rightarrow>
             (let path = aliased ''file_path'' obj path0
              in if blank pattern then FsFail (FsError ''fs.glob requires pattern'')
                 else (case resolve_dir os sroot path ''fs.glob'' w of
                    Inl e \<Rightarrow> FsFail (FsError e)
                  | Inr dir \<Rightarrow>
                      (case walk_files os dir w of
                         Inl e \<Rightarrow> FsFail (FsError (''fs.glob: '' @ oe_text e))
                       | Inr rels \<Rightarrow>
                           (let matched = sort_by_mtime os dir w (filter (match_glob pattern) rels);
                                shown = take glob_max_results matched
                            in FsOk [(''filenames'', VList (map (\<lambda>r. VStr (json_text r)) shown)),
                                 field_int ''num_files'' (int (length shown)),
                                 (''truncated'', VBool (length matched > glob_max_results)),
                                 field_int ''duration_ms'' (os_elapsed os w)]))))
         | _ \<Rightarrow> FsFail (InvalidParams ''fs.glob''))"

subsection \<open>Listing a directory\<close>

definition ls_entry :: "dir_entry \<Rightarrow> go_value" where
  "ls_entry de = VMap [field_str ''name'' (de_name de),
     (''type'', VStr (case de_type de of EntrySymlink \<Rightarrow> ''symlink'' | EntryDir \<Rightarrow> ''dir'' | EntryOther \<Rightarrow> ''file'')),
     field_int ''size'' (if de_type de = EntryDir then 0
                         else (case de_size de of None \<Rightarrow> 0 | Some n \<Rightarrow> n))]"

definition handle_ls :: "'w os \<Rightarrow> string \<Rightarrow> (string \<rightharpoonup> go_value) option \<Rightarrow> 'w \<Rightarrow> fs_reply" where
  "handle_ls os sroot ps w =
     (let obj = object_of ps
      in case (string_field ''path'' obj, bool_pointer ''all'' obj) of
           (Some path0, Some all_flag) \<Rightarrow>
             (case resolve_dir os sroot (aliased ''file_path'' obj path0) ''fs.ls'' w of
                Inl e \<Rightarrow> FsFail (FsError e)
              | Inr a \<Rightarrow>
                  (case os_read_dir os a w of
                     Inl e \<Rightarrow> FsFail (FsError (''fs.ls: '' @ oe_text e))
                   | Inr des \<Rightarrow>
                       (let shown = filter (\<lambda>de. all_flag = Some True \<or> \<not> has_prefix (de_name de) ''.'') des
                        in FsOk [field_str ''path'' a, (''entries'', VList (map ls_entry shown)),
                                 field_int ''count'' (int (length shown))])))
         | _ \<Rightarrow> FsFail (InvalidParams ''fs.ls''))"

subsection \<open>Searching contents\<close>

record grep_params =
  gp_pattern :: string
  gp_path :: string
  gp_glob :: string
  gp_type :: string
  gp_output_mode :: string
  gp_context_before :: "int option"
  gp_context_after :: "int option"
  gp_context :: "int option"
  gp_show_line_numbers :: "bool option"
  gp_case_insensitive :: "bool option"
  gp_head_limit :: "int option"
  gp_offset :: int
  gp_multiline :: bool

definition decode_grep :: "(string \<times> go_value) list \<Rightarrow> grep_params option" where
  "decode_grep obj =
     (case (string_field ''pattern'' obj, string_field ''path'' obj, string_field ''glob'' obj,
            string_field ''type'' obj, string_field ''output_mode'' obj) of
        (Some pattern, Some path, Some gl, Some ty, Some mode) \<Rightarrow>
          (case (int_pointer ''context_before'' obj, int_pointer ''context_after'' obj,
                 int_pointer ''context'' obj, bool_pointer ''show_line_numbers'' obj,
                 bool_pointer ''case_insensitive'' obj, int_pointer ''head_limit'' obj,
                 int_field ''offset'' obj, bool_field ''multiline'' obj) of
             (Some before, Some after, Some ctx, Some show_lines, Some insensitive, Some limit,
              Some off, Some multi) \<Rightarrow>
               Some \<lparr>gp_pattern = pattern, gp_path = aliased ''file_path'' obj path, gp_glob = gl,
                 gp_type = ty, gp_output_mode = mode, gp_context_before = before,
                 gp_context_after = after, gp_context = ctx, gp_show_line_numbers = show_lines,
                 gp_case_insensitive = insensitive, gp_head_limit = limit, gp_offset = off,
                 gp_multiline = multi\<rparr>
           | _ \<Rightarrow> None)
      | _ \<Rightarrow> None)"

definition grep_path_hint :: "string \<Rightarrow> string" where
  "grep_path_hint t =
     (if CHR ''{'' \<in> set t \<or> CHR ''}'' \<in> set t \<or> CHR '','' \<in> set t
      then '' '' @ em_dash @ '' '' @ backtick @ ''path'' @ backtick
        @ '' is a single file or directory, not a shell brace-expansion or comma-list. To search several files, set ''
        @ backtick @ ''path'' @ backtick @ '' to their directory and use the '' @ backtick @ ''glob'' @ backtick
        @ '' param to match them (e.g. glob='' @ quoted_word ''*.go'' @ '').''
      else if CHR ''*'' \<in> set t \<or> CHR ''?'' \<in> set t
      then '' '' @ em_dash @ '' '' @ backtick @ ''path'' @ backtick
        @ '' is a literal file or directory, not a glob. Put the directory in '' @ backtick @ ''path'' @ backtick
        @ '' and the wildcard in the '' @ backtick @ ''glob'' @ backtick
        @ '' param (e.g. path='' @ quoted_word ''dir'' @ '', glob='' @ quoted_word ''*.go'' @ '').''
      else [])"

text \<open>The directory the results are relative to, and the files to search.\<close>

definition grep_files :: "'w os \<Rightarrow> string \<Rightarrow> string \<Rightarrow> string \<Rightarrow> 'w \<Rightarrow> string + string \<times> string list" where
  "grep_files os sroot path gl w =
     (case search_target os sroot (trim_space path) ''fs.grep'' of
        Inl e \<Rightarrow> Inl e
      | Inr t \<Rightarrow>
          (case search_abs os sroot t ''fs.grep'' w of
             Inl e \<Rightarrow> Inl e
           | Inr a \<Rightarrow>
               (case os_stat os a w of
                  Inl _ \<Rightarrow> Inl (''fs.grep: path does not exist: '' @ t @ grep_path_hint t)
                | Inr fi \<Rightarrow>
                    if \<not> fi_dir fi then Inr (path_dir a, [file_base a])
                    else (case walk_files os a w of
                            Inl e \<Rightarrow> Inl (''fs.grep: '' @ oe_text e)
                          | Inr rels \<Rightarrow>
                              Inr (a, if blank gl then rels
                                      else filter (match_glob (trim_space gl)) rels)))))"

record file_match =
  fm_rel :: string
  fm_lines :: "string list"
  fm_matched :: "nat list"

definition search_file :: "'w os \<Rightarrow> (string \<Rightarrow> bool) \<Rightarrow> string \<Rightarrow> 'w \<Rightarrow> string \<Rightarrow> file_match list" where
  "search_file os re base w rel =
     (case os_read_file os (file_join base rel) w of
        Inl _ \<Rightarrow> []
      | Inr raw \<Rightarrow>
          if CHR 0x00 \<in> set raw then []
          else (let ls = lines_of (lf_text raw);
                    matched = filter (\<lambda>n. re (ls ! (n - 1))) [1..<length ls + 1]
                in if matched = [] then []
                   else [\<lparr>fm_rel = rel, fm_lines = ls, fm_matched = matched\<rparr>]))"

text \<open>Paging: the items behind the offset up to the limit, and the limit when it took effect. The
  slice up to a negative limit panics: \<^const>\<open>None\<close>.\<close>

definition apply_head_limit :: "'a list \<Rightarrow> int option \<Rightarrow> int \<Rightarrow> ('a list \<times> int) option" where
  "apply_head_limit items limit off =
     (let rest = drop (nat (max 0 off)) items
      in if limit = Some 0 then Some (rest, 0)
         else (let eff = (case limit of None \<Rightarrow> 250 | Some n \<Rightarrow> n)
               in if int (length rest) > eff
                  then (if eff < 0 then None else Some (take (nat eff) rest, eff))
                  else Some (rest, 0)))"

definition context_window :: "grep_params \<Rightarrow> int \<times> int" where
  "context_window gp =
     (case gp_context gp of
        Some c \<Rightarrow> (max 0 c, max 0 c)
      | None \<Rightarrow>
          (case gp_context_before gp of Some n \<Rightarrow> max 0 n | None \<Rightarrow> 0,
           case gp_context_after gp of Some n \<Rightarrow> max 0 n | None \<Rightarrow> 0))"

definition format_grep_line :: "string \<Rightarrow> nat \<Rightarrow> string \<Rightarrow> string \<Rightarrow> bool \<Rightarrow> string" where
  "format_grep_line rel n t sep show_line =
     (let t = (if length t > 500 then take 500 t @ '' [... truncated]'' else t)
      in if show_line then rel @ sep @ itoa (int n) @ sep @ t else rel @ sep @ t)"

text \<open>A sum of machine integers that are not negative.\<close>

definition add64 :: "int \<Rightarrow> int \<Rightarrow> int" where
  "add64 a b = (if a + b < 2 ^ 63 then a + b else a + b - 2 ^ 64)"

definition shown_line :: "int \<times> int \<Rightarrow> nat list \<Rightarrow> nat \<Rightarrow> bool" where
  "shown_line ctx matched l =
     list_ex (\<lambda>n. int n - fst ctx \<le> int l \<and> int l \<le> add64 (int n) (snd ctx)) matched"

definition match_lines :: "grep_params \<Rightarrow> file_match \<Rightarrow> string list" where
  "match_lines gp m =
     map (\<lambda>l. format_grep_line (fm_rel m) l (fm_lines m ! (l - 1))
            (if l \<in> set (fm_matched m) then '':'' else ''-'') (gp_show_line_numbers gp \<noteq> Some False))
       (filter (shown_line (context_window gp) (fm_matched m)) [1..<length (fm_lines m) + 1])"

definition count_line :: "file_match \<Rightarrow> string" where
  "count_line m = fm_rel m @ '':'' @ itoa (int (length (fm_matched m)))"

text \<open>The number behind the last colon; the lines it reads end in one.\<close>

definition parse_trailing_count :: "string \<Rightarrow> nat option" where
  "parse_trailing_count l =
     (let t = rev (takeWhile (\<lambda>c. c \<noteq> CHR '':'') (rev l))
      in if CHR '':'' \<in> set l \<and> t \<noteq> [] \<and> list_all digit t then Some (decimal t) else None)"

definition applied_fields :: "grep_params \<Rightarrow> int \<Rightarrow> (string \<times> go_value) list" where
  "applied_fields gp applied =
     (if applied \<noteq> 0 then [field_int ''applied_limit'' applied] else [])
     @ (if gp_offset gp > 0 then [field_int ''applied_offset'' (gp_offset gp)] else [])"

definition opt_str :: "string \<Rightarrow> string \<Rightarrow> (string \<times> go_value) list" where
  "opt_str k s = (if s = [] then [] else [field_str k s])"

definition opt_int :: "string \<Rightarrow> int \<Rightarrow> (string \<times> go_value) list" where
  "opt_int k n = (if n = 0 then [] else [field_int k n])"

definition build_grep_filenames ::
  "'w os \<Rightarrow> string \<Rightarrow> 'w \<Rightarrow> grep_params \<Rightarrow> file_match list \<Rightarrow> fs_reply" where
  "build_grep_filenames os base w gp ms =
     (case apply_head_limit (sort_by_mtime os base w (map fm_rel ms)) (gp_head_limit gp) (gp_offset gp) of
        None \<Rightarrow> FsPanic
      | Some (paged, applied) \<Rightarrow>
          FsOk ([field_str ''mode'' ''files_with_matches'',
                 (''filenames'', VList (map (\<lambda>r. VStr (json_text r)) paged)),
                 field_int ''num_files'' (int (length paged))] @ applied_fields gp applied))"

definition build_grep_count :: "grep_params \<Rightarrow> file_match list \<Rightarrow> fs_reply" where
  "build_grep_count gp ms =
     (case apply_head_limit (map count_line ms) (gp_head_limit gp) (gp_offset gp) of
        None \<Rightarrow> FsPanic
      | Some (paged, applied) \<Rightarrow>
          (let counts = concat (map (\<lambda>l. case parse_trailing_count l of None \<Rightarrow> [] | Some n \<Rightarrow> [n]) paged)
           in FsOk ([field_str ''mode'' ''count'', (''filenames'', VList []),
                     field_int ''num_files'' (int (length counts))]
                    @ opt_str ''content'' (join newline paged)
                    @ opt_int ''num_matches'' (int (sum_list counts)) @ applied_fields gp applied)))"

definition build_grep_content :: "grep_params \<Rightarrow> file_match list \<Rightarrow> fs_reply" where
  "build_grep_content gp ms =
     (case apply_head_limit (concat (map (match_lines gp) ms)) (gp_head_limit gp) (gp_offset gp) of
        None \<Rightarrow> FsPanic
      | Some (paged, applied) \<Rightarrow>
          FsOk ([field_str ''mode'' ''content'', (''filenames'', VList []), field_int ''num_files'' 0]
                @ opt_str ''content'' (join newline paged)
                @ opt_int ''num_lines'' (int (length paged)) @ applied_fields gp applied))"

definition compile_grep :: "'w os \<Rightarrow> string \<Rightarrow> bool \<Rightarrow> string + (string \<Rightarrow> bool)" where
  "compile_grep os pattern insensitive = os_regexp os ((if insensitive then ''(?i)'' else []) @ pattern)"

definition grep_mode :: "grep_params \<Rightarrow> string" where
  "grep_mode gp = (if gp_output_mode gp = [] then ''files_with_matches'' else gp_output_mode gp)"

definition grep_refusal :: "grep_params \<Rightarrow> string option" where
  "grep_refusal gp =
     (if blank (gp_pattern gp) then Some ''fs.grep requires pattern''
      else if \<not> blank (gp_type gp)
      then Some (''fs.grep: the '' @ backtick @ ''type'' @ backtick
        @ '' filter is not supported by the native organ; use '' @ backtick @ ''glob'' @ backtick @ '' to filter files'')
      else if gp_multiline gp
      then Some (''fs.grep: '' @ backtick @ ''multiline'' @ backtick
        @ '' is not supported by the native organ (line-oriented search only)'')
      else if grep_mode gp \<notin> set [''content'', ''files_with_matches'', ''count'']
      then Some (''fs.grep: invalid output_mode '' @ go_quote (grep_mode gp)
        @ '' (want content|files_with_matches|count)'')
      else None)"

definition grep_search :: "'w os \<Rightarrow> string \<Rightarrow> grep_params \<Rightarrow> 'w \<Rightarrow> fs_reply" where
  "grep_search os sroot gp w =
     (case compile_grep os (gp_pattern gp) (gp_case_insensitive gp = Some True) of
        Inl e \<Rightarrow> FsFail (FsError (''fs.grep: invalid pattern: '' @ e))
      | Inr re \<Rightarrow>
          (case grep_files os sroot (gp_path gp) (gp_glob gp) w of
             Inl e \<Rightarrow> FsFail (FsError e)
           | Inr (base, files) \<Rightarrow>
               (let ms = concat (map (search_file os re base w) files)
                in if grep_mode gp = ''content'' then build_grep_content gp ms
                   else if grep_mode gp = ''count'' then build_grep_count gp ms
                   else build_grep_filenames os base w gp ms)))"

definition handle_grep :: "'w os \<Rightarrow> string \<Rightarrow> (string \<rightharpoonup> go_value) option \<Rightarrow> 'w \<Rightarrow> fs_reply" where
  "handle_grep os sroot ps w =
     (case decode_grep (object_of ps) of
        None \<Rightarrow> FsFail (InvalidParams ''fs.grep'')
      | Some gp \<Rightarrow>
          (case grep_refusal gp of
             Some e \<Rightarrow> FsFail (FsError e)
           | None \<Rightarrow> grep_search os sroot gp w))"

end
