(* ===== verification/Fs_Organ.thy ===== *)
theory Fs_Organ
  imports Fs_Search
begin

text \<open>
  The actions of the file-system organ that read and change files, \<open>internal/fsorgan\<close>:
  \<open>fs.read\<close> (\<open>read.go\<close>), \<open>fs.write\<close> (\<open>write.go\<close>), \<open>fs.edit\<close> (\<open>edit.go\<close>), \<open>fs.move\<close>
  (\<open>move.go\<close>) and \<open>fs.remove\<close> (\<open>remove.go\<close>), and the dispatch of a call (\<open>fsorgan.go\<close>). A
  handler takes the state, the read registry with the world, and returns its reply with the new state.
\<close>

type_synonym 'w handler = "'w fs \<Rightarrow> fs_reply \<times> 'w fs"

definition refuse :: "string \<Rightarrow> 'w handler" where
  "refuse msg s = (FsFail (FsError msg), s)"

text \<open>A path of a call resolved under the sandbox, or the refusal under the action's name.\<close>

definition in_sandbox :: "'w os \<Rightarrow> string \<Rightarrow> string \<Rightarrow> string \<Rightarrow> (string \<Rightarrow> 'w handler) \<Rightarrow> 'w handler" where
  "in_sandbox os sroot label path k s =
     (case resolve_within os sroot path (fs_world s) of
        Inl e \<Rightarrow> refuse (label @ '': '' @ e) s
      | Inr resolved \<Rightarrow> k resolved s)"

text \<open>The message for a failed examination of a path that is there.\<close>

definition stat_error :: "string \<Rightarrow> string \<Rightarrow> os_error \<Rightarrow> string" where
  "stat_error label path e =
     (if oe_kind e = OsPermission then label @ '': permission denied: '' @ path
      else label @ '': '' @ oe_text e)"

subsection \<open>Reading\<close>

text \<open>A number of tenths, rounded half to even, as the verb \<open>%.1f\<close> prints it, without a final
  \<open>.0\<close>.\<close>

definition tenths :: "rat \<Rightarrow> int" where
  "tenths q =
     (let x = q * 10; f = \<lfloor>x\<rfloor>; r = x - of_int f
      in if r < 1 / 2 then f else if r > 1 / 2 then f + 1 else if even f then f else f + 1)"

definition trim_dot_zero :: "rat \<Rightarrow> string" where
  "trim_dot_zero q =
     (let t = tenths q
      in itoa (t div 10) @ (if t mod 10 = 0 then [] else ''.'' @ itoa (t mod 10)))"

definition human_byte_size :: "int \<Rightarrow> string" where
  "human_byte_size n =
     (let kb = of_int n / 1024; mb = kb / 1024
      in if kb < 1 then itoa n @ '' bytes''
         else if kb < 1024 then trim_dot_zero kb @ ''KB''
         else if mb < 1024 then trim_dot_zero mb @ ''MB''
         else trim_dot_zero (mb / 1024) @ ''GB'')"

definition max_read_size_bytes :: int where
  "max_read_size_bytes = 262144"

record read_params =
  rp_path :: string
  rp_offset :: int
  rp_limit :: int

definition decode_read :: "(string \<times> go_value) list \<Rightarrow> read_params option" where
  "decode_read obj =
     (case (string_field ''file_path'' obj, int_field ''offset'' obj, int_field ''limit'' obj) of
        (Some p, Some off, Some n) \<Rightarrow>
          Some \<lparr>rp_path = aliased ''path'' obj p, rp_offset = off, rp_limit = n\<rparr>
      | _ \<Rightarrow> None)"

definition read_start :: "read_params \<Rightarrow> int" where
  "read_start rp = (if rp_offset rp < 1 then 1 else rp_offset rp)"

definition read_end :: "read_params \<Rightarrow> int" where
  "read_end rp = (if rp_limit rp \<le> 0 then -1 else read_start rp - 1 + rp_limit rp)"

definition short_file_text :: "int \<Rightarrow> int \<Rightarrow> string" where
  "short_file_text start n =
     ''<system-reminder>Warning: the file exists but is shorter than the provided offset ('' @ itoa start
     @ ''). The file has '' @ itoa n @ '' lines.</system-reminder>''"

definition read_reply :: "string \<Rightarrow> int \<Rightarrow> string list \<Rightarrow> int \<Rightarrow> fs_reply" where
  "read_reply path start selected n =
     FsOk (if join newline selected = []
           then [field_str ''file_path'' path, field_str ''content'' [],
                 field_str ''warning'' (short_file_text start n), field_int ''start_line'' start,
                 field_int ''line_count'' 0, field_int ''total_lines'' n]
           else [field_str ''file_path'' path, field_str ''content'' (render_lines start selected),
                 field_int ''start_line'' start, field_int ''line_count'' (int (length selected)),
                 field_int ''total_lines'' n])"

definition read_error :: "string \<Rightarrow> os_error \<Rightarrow> string" where
  "read_error path e =
     (if oe_kind e = OsNotExist then ''fs.read: file does not exist: '' @ path
      else stat_error ''fs.read'' path e)"

definition too_large_text :: "int \<Rightarrow> string" where
  "too_large_text n = ''fs.read: file content ('' @ human_byte_size n @ '') exceeds maximum allowed size (''
     @ human_byte_size max_read_size_bytes
     @ ''). Use offset and limit parameters to read specific portions of the file, or search for specific content instead of reading the whole file.''"

definition read_file :: "'w os \<Rightarrow> read_params \<Rightarrow> string \<Rightarrow> 'w handler" where
  "read_file os rp path s =
     (case os_stat os path (fs_world s) of
        Inl e \<Rightarrow> refuse (read_error path e) s
      | Inr fi \<Rightarrow>
          if fi_dir fi then refuse (''fs.read: '' @ path @ '' is a directory, not a file'') s
          else if rp_limit rp \<le> 0 \<and> fi_size fi > max_read_size_bytes
          then refuse (too_large_text (fi_size fi)) s
          else (case os_read_file os path (fs_world s) of
                  Inl e \<Rightarrow> refuse (''fs.read: '' @ oe_text e) s
                | Inr raw \<Rightarrow>
                    (case select_lines raw (read_start rp - 1) (read_end rp) of
                       (selected, n) \<Rightarrow>
                         (read_reply path (read_start rp) selected n,
                          s\<lparr>fs_reads := mark_read os path (unix_milli fi)
                              (rp_offset rp \<le> 1 \<and> rp_limit rp \<le> 0) (fs_reads s)\<rparr>))))"

definition handle_read :: "'w os \<Rightarrow> string \<Rightarrow> (string \<rightharpoonup> go_value) option \<Rightarrow> 'w handler" where
  "handle_read os sroot ps s =
     (case decode_read (object_of ps) of
        None \<Rightarrow> (FsFail (InvalidParams ''fs.read''), s)
      | Some rp \<Rightarrow>
          if blank (rp_path rp) then refuse ''fs.read requires file_path'' s
          else in_sandbox os sroot ''fs.read'' (rp_path rp) (read_file os rp) s)"

subsection \<open>Writing\<close>

definition write_file_mkdir :: "'w os \<Rightarrow> string \<Rightarrow> string \<Rightarrow> 'w \<Rightarrow> string option \<times> 'w" where
  "write_file_mkdir os path content w =
     (case os_mkdir_all os (path_dir path) w of
        (Some e, w1) \<Rightarrow> (Some (''create parent dir: '' @ oe_text e), w1)
      | (None, w1) \<Rightarrow>
          (case os_write_file os path content w1 of
             (Some e, w2) \<Rightarrow> (Some (oe_text e), w2)
           | (None, w2) \<Rightarrow> (None, w2)))"

definition mark_written :: "'w os \<Rightarrow> string \<Rightarrow> 'w fs \<Rightarrow> 'w fs" where
  "mark_written os path s =
     (case os_stat os path (fs_world s) of
        Inl _ \<Rightarrow> s
      | Inr fi \<Rightarrow> s\<lparr>fs_reads := mark_read os path (unix_milli fi) True (fs_reads s)\<rparr>)"

text \<open>Write a file, record it as read and reply, or fail under the action's name.\<close>

definition write_and_reply ::
  "'w os \<Rightarrow> string \<Rightarrow> string \<Rightarrow> string \<Rightarrow> (string \<times> go_value) list \<Rightarrow> 'w handler" where
  "write_and_reply os label path content reply s =
     (case write_file_mkdir os path content (fs_world s) of
        (Some e, w) \<Rightarrow> refuse (label @ '': '' @ e) (s\<lparr>fs_world := w\<rparr>)
      | (None, w) \<Rightarrow> (FsOk reply, mark_written os path (s\<lparr>fs_world := w\<rparr>)))"

definition write_reply :: "string \<Rightarrow> bool \<Rightarrow> string \<Rightarrow> (string \<times> go_value) list" where
  "write_reply path created content =
     [field_str ''file_path'' path, (''created'', VBool created),
      field_int ''bytes_written'' (int (length content)), field_int ''line_count'' (line_count content)]"

definition clobber_text :: "string \<Rightarrow> string" where
  "clobber_text path = ''fs.write: '' @ path @ '' already exists '' @ em_dash
     @ '' use fs.edit for a targeted change, or pass overwrite:true to replace the whole file deliberately''"

definition write_file :: "'w os \<Rightarrow> string \<Rightarrow> bool \<Rightarrow> string \<Rightarrow> 'w handler" where
  "write_file os content overwrite path s =
     (case os_stat os path (fs_world s) of
        Inl e \<Rightarrow>
          if oe_kind e \<noteq> OsNotExist then refuse (stat_error ''fs.write'' path e) s
          else write_and_reply os ''fs.write'' path content (write_reply path True content) s
      | Inr fi \<Rightarrow>
          if fi_dir fi then refuse (''fs.write: '' @ path @ '' is a directory, not a file'') s
          else if \<not> overwrite then refuse (clobber_text path) s
          else (case check_writable os path (unix_milli fi) (fs_reads s) of
                  Some reason \<Rightarrow> refuse (''fs.write: '' @ reason) s
                | None \<Rightarrow>
                    write_and_reply os ''fs.write'' path content (write_reply path False content) s))"

definition handle_write :: "'w os \<Rightarrow> string \<Rightarrow> (string \<rightharpoonup> go_value) option \<Rightarrow> 'w handler" where
  "handle_write os sroot ps s =
     (let obj = object_of ps
      in case (string_field ''file_path'' obj, string_field ''content'' obj, bool_field ''overwrite'' obj) of
           (Some p, Some content, Some overwrite) \<Rightarrow>
             (let path = aliased ''path'' obj p
              in if blank path then refuse ''fs.write requires file_path'' s
                 else in_sandbox os sroot ''fs.write'' path (write_file os content overwrite) s)
         | _ \<Rightarrow> (FsFail (InvalidParams ''fs.write''), s))"

subsection \<open>Editing\<close>

definition no_op_text :: string where
  "no_op_text = ''fs.edit: old_string and new_string are identical, so this edit is a no-op. old_string must be the EXACT existing text to find; new_string must be that text WITH your change applied ''
     @ em_dash @ '' they must differ. Put the current code in old_string and the edited code in new_string.''"

definition edit_reply :: "string \<Rightarrow> bool \<Rightarrow> int \<Rightarrow> (string \<times> go_value) list" where
  "edit_reply path created n =
     [field_str ''file_path'' path, (''created'', VBool created), field_int ''replacements'' n]"

definition edit_existing :: "'w os \<Rightarrow> string \<Rightarrow> string \<Rightarrow> bool \<Rightarrow> string \<Rightarrow> 'w handler" where
  "edit_existing os old new every path s =
     (case os_read_file os path (fs_world s) of
        Inl e \<Rightarrow> refuse (''fs.edit: '' @ oe_text e) s
      | Inr raw \<Rightarrow>
          (let content = lf_text raw
           in if old = [] then
                (if \<not> blank content then refuse ''fs.edit: Cannot create new file - file already exists.'' s
                 else write_and_reply os ''fs.edit'' path new (edit_reply path False 1) s)
              else (case edit_text content old new every of
                      Inl msg \<Rightarrow> refuse msg s
                    | Inr (out, n) \<Rightarrow>
                        write_and_reply os ''fs.edit'' path out (edit_reply path False n) s)))"

definition edit_file :: "'w os \<Rightarrow> string \<Rightarrow> string \<Rightarrow> bool \<Rightarrow> string \<Rightarrow> 'w handler" where
  "edit_file os old new every path s =
     (case os_stat os path (fs_world s) of
        Inl e \<Rightarrow>
          if oe_kind e \<noteq> OsNotExist then refuse (stat_error ''fs.edit'' path e) s
          else if old \<noteq> [] then refuse (''fs.edit: file does not exist: '' @ path) s
          else write_and_reply os ''fs.edit'' path new (edit_reply path True 1) s
      | Inr fi \<Rightarrow>
          if fi_dir fi then refuse (''fs.edit: '' @ path @ '' is a directory, not a file'') s
          else (case check_writable os path (unix_milli fi) (fs_reads s) of
                  Some reason \<Rightarrow> refuse (''fs.edit: '' @ reason) s
                | None \<Rightarrow> edit_existing os old new every path s))"

definition handle_edit :: "'w os \<Rightarrow> string \<Rightarrow> (string \<rightharpoonup> go_value) option \<Rightarrow> 'w handler" where
  "handle_edit os sroot ps s =
     (let obj = object_of ps
      in case (string_field ''file_path'' obj, string_field ''old_string'' obj,
               string_field ''new_string'' obj, bool_field ''replace_all'' obj) of
           (Some p, Some old, Some new, Some every) \<Rightarrow>
             (let path = aliased ''path'' obj p
              in if blank path then refuse ''fs.edit requires file_path'' s
                 else if old = new then refuse no_op_text s
                 else in_sandbox os sroot ''fs.edit'' path (edit_file os old new every) s)
         | _ \<Rightarrow> (FsFail (InvalidParams ''fs.edit''), s))"

subsection \<open>Moving\<close>

text \<open>The name of an entry under a directory that the destination is.\<close>

definition final_dest :: "'w os \<Rightarrow> string \<Rightarrow> string \<Rightarrow> 'w \<Rightarrow> string" where
  "final_dest os src dst w =
     (case os_stat os dst w of
        Inl _ \<Rightarrow> dst | Inr fi \<Rightarrow> if fi_dir fi then file_join dst (file_base src) else dst)"

definition move_reply :: "string \<Rightarrow> string \<Rightarrow> bool \<Rightarrow> bool \<Rightarrow> fs_reply" where
  "move_reply src dst is_dir cross =
     FsOk [field_str ''source'' src, field_str ''dest'' dst, (''is_dir'', VBool is_dir),
           (''cross_device'', VBool cross)]"

definition move_across :: "'w os \<Rightarrow> string \<Rightarrow> string \<Rightarrow> file_info \<Rightarrow> 'w handler" where
  "move_across os src dst fi s =
     (case os_copy_tree os src dst fi (fs_world s) of
        (Some e, w) \<Rightarrow> refuse (''fs.move: cross-device copy: '' @ oe_text e) (s\<lparr>fs_world := w\<rparr>)
      | (None, w) \<Rightarrow>
          (case os_remove_all os src w of
             (Some e, w1) \<Rightarrow>
               refuse (''fs.move: cross-device remove source after copy: '' @ oe_text e) (s\<lparr>fs_world := w1\<rparr>)
           | (None, w1) \<Rightarrow> (move_reply src dst (fi_dir fi) True, s\<lparr>fs_world := w1\<rparr>)))"

definition rename_to :: "'w os \<Rightarrow> string \<Rightarrow> string \<Rightarrow> file_info \<Rightarrow> 'w handler" where
  "rename_to os src dst fi s =
     (case os_mkdir_all os (path_dir dst) (fs_world s) of
        (Some e, w) \<Rightarrow> refuse (''fs.move: create destination parent: '' @ oe_text e) (s\<lparr>fs_world := w\<rparr>)
      | (None, w) \<Rightarrow>
          (case os_rename os src dst w of
             (None, w1) \<Rightarrow> (move_reply src dst (fi_dir fi) False, s\<lparr>fs_world := w1\<rparr>)
           | (Some e, w1) \<Rightarrow>
               if oe_kind e \<noteq> OsCrossDevice then refuse (''fs.move: '' @ oe_text e) (s\<lparr>fs_world := w1\<rparr>)
               else move_across os src dst fi (s\<lparr>fs_world := w1\<rparr>)))"

definition move_file :: "'w os \<Rightarrow> string \<Rightarrow> string \<Rightarrow> 'w handler" where
  "move_file os src dst s =
     (case os_stat os src (fs_world s) of
        Inl e \<Rightarrow>
          refuse (if oe_kind e = OsNotExist then ''fs.move: source does not exist: '' @ src
                  else stat_error ''fs.move'' src e) s
      | Inr fi \<Rightarrow>
          (let final = final_dest os src dst (fs_world s)
           in case os_stat os final (fs_world s) of
                Inr _ \<Rightarrow> refuse (''fs.move: destination already exists: '' @ final
                           @ '' (remove it first if a replace is intended)'') s
              | Inl e \<Rightarrow>
                  if oe_kind e \<noteq> OsNotExist then refuse (stat_error ''fs.move'' final e) s
                  else rename_to os src final fi s))"

definition move_source :: "(string \<times> go_value) list \<Rightarrow> string \<Rightarrow> string \<Rightarrow> string \<Rightarrow> string" where
  "move_source obj p first second =
     (if blank p
      then (let a = decode_lax [] (field_values first obj)
            in if a \<noteq> [] then a else decode_lax [] (field_values second obj))
      else p)"

definition handle_move :: "'w os \<Rightarrow> string \<Rightarrow> (string \<rightharpoonup> go_value) option \<Rightarrow> 'w handler" where
  "handle_move os sroot ps s =
     (let obj = object_of ps
      in case (string_field ''source'' obj, string_field ''dest'' obj) of
           (Some a, Some b) \<Rightarrow>
             (let src = move_source obj a ''src'' ''from''; dst = move_source obj b ''destination'' ''to''
              in if blank src then refuse ''fs.move requires source'' s
                 else if blank dst then refuse ''fs.move requires dest'' s
                 else in_sandbox os sroot ''fs.move'' src (\<lambda>src'.
                        in_sandbox os sroot ''fs.move'' dst (move_file os src')) s)
         | _ \<Rightarrow> (FsFail (InvalidParams ''fs.move''), s))"

subsection \<open>Removing\<close>

definition dangerous_remove_targets :: "string list" where
  "dangerous_remove_targets =
     [''/'', ''/home'', ''/usr'', ''/etc'', ''/var'', ''/bin'', ''/lib'', ''/boot'', ''/root'']"

definition remove_reply :: "string \<Rightarrow> bool \<Rightarrow> fs_reply" where
  "remove_reply path was_dir = FsOk [field_str ''file_path'' path, (''was_dir'', VBool was_dir)]"

text \<open>Remove by one of the two removals of the system, and reply.\<close>

definition remove_with ::
  "('w \<Rightarrow> os_error option \<times> 'w) \<Rightarrow> (os_error \<Rightarrow> string) \<Rightarrow> fs_reply \<Rightarrow> 'w handler" where
  "remove_with rm msg reply s =
     (case rm (fs_world s) of
        (Some e, w) \<Rightarrow> refuse (msg e) (s\<lparr>fs_world := w\<rparr>)
      | (None, w) \<Rightarrow> (reply, s\<lparr>fs_world := w\<rparr>))"

definition remove_path :: "'w os \<Rightarrow> bool \<Rightarrow> string \<Rightarrow> 'w handler" where
  "remove_path os recursive path s =
     (let cleaned = file_clean (abs_path os path); plain = (\<lambda>e. ''fs.remove: '' @ oe_text e)
      in if cleaned \<in> set dangerous_remove_targets
         then refuse (''fs.remove: refusing to remove a protected filesystem root: '' @ cleaned) s
         else (case os_lstat os path (fs_world s) of
            Inl e \<Rightarrow>
              refuse (if oe_kind e = OsNotExist then ''fs.remove: path does not exist: '' @ path
                      else stat_error ''fs.remove'' path e) s
          | Inr fi \<Rightarrow>
              if fi_dir fi \<and> \<not> recursive
              then remove_with (os_remove os path)
                     (\<lambda>e. if oe_kind e = OsNotEmpty
                          then ''fs.remove: '' @ path @ '' is a non-empty directory; pass recursive=true to delete it and its contents''
                          else plain e) (remove_reply path True) s
              else if fi_dir fi then remove_with (os_remove_all os path) plain (remove_reply path True) s
              else remove_with (os_remove os path) plain (remove_reply path False) s))"

definition handle_remove :: "'w os \<Rightarrow> string \<Rightarrow> (string \<rightharpoonup> go_value) option \<Rightarrow> 'w handler" where
  "handle_remove os sroot ps s =
     (let obj = object_of ps
      in case (string_field ''file_path'' obj, bool_field ''recursive'' obj) of
           (Some p, Some recursive) \<Rightarrow>
             (let path = aliased ''path'' obj p
              in if blank path then refuse ''fs.remove requires file_path'' s
                 else in_sandbox os sroot ''fs.remove'' path (remove_path os recursive) s)
         | _ \<Rightarrow> (FsFail (InvalidParams ''fs.remove''), s))"

subsection \<open>Dispatch\<close>

text \<open>A path parameter that does not exist under the sandbox is replaced by the tail of it that
  does, if there is exactly one.\<close>

definition remap_key :: "'w os \<Rightarrow> string \<Rightarrow> 'w \<Rightarrow> string \<Rightarrow> (string \<rightharpoonup> go_value) \<Rightarrow> (string \<rightharpoonup> go_value)" where
  "remap_key os sroot w key ps =
     (case ps key of
        Some (VStr raw) \<Rightarrow>
          if raw = [] then ps
          else if (case resolve_within os sroot raw w of Inl _ \<Rightarrow> False | Inr r \<Rightarrow> exists_at os r w) then ps
          else (case recover_worktree_path os sroot raw w of
                  None \<Rightarrow> ps
                | Some t \<Rightarrow> if t = raw then ps else ps(key \<mapsto> VStr t))
      | _ \<Rightarrow> ps)"

definition remap_worktree_paths ::
  "'w os \<Rightarrow> string \<Rightarrow> 'w \<Rightarrow> (string \<rightharpoonup> go_value) option \<Rightarrow> (string \<rightharpoonup> go_value) option" where
  "remap_worktree_paths os sroot w ps =
     (if sroot = [] then ps
      else map_option (fold (remap_key os sroot w) [''file_path'', ''path'', ''source'', ''dest'']) ps)"

definition fs_handle :: "'w os \<Rightarrow> string \<Rightarrow> string \<Rightarrow> (string \<rightharpoonup> go_value) option \<Rightarrow> 'w handler" where
  "fs_handle os sroot act ps s =
     (if act = ''read'' then handle_read os sroot ps s
      else if act = ''write'' then handle_write os sroot ps s
      else if act = ''edit'' then handle_edit os sroot ps s
      else if act = ''move'' then handle_move os sroot ps s
      else if act = ''remove'' then handle_remove os sroot ps s
      else if act = ''ls'' then (handle_ls os sroot ps (fs_world s), s)
      else if act = ''glob'' then (handle_glob os sroot ps (fs_world s), s)
      else if act = ''grep'' then (handle_grep os sroot ps (fs_world s), s)
      else refuse (''fs.'' @ act @ '': unknown action'') s)"

text \<open>The sandbox root of a dispatch context, \<open>WithRoot\<close>: a blank root sets none.\<close>

definition context_root :: "string \<Rightarrow> string" where
  "context_root r = (if blank r then [] else r)"

definition error_text :: "(string \<Rightarrow> string) \<Rightarrow> fs_error \<Rightarrow> string" where
  "error_text decode_error e =
     (case e of FsError t \<Rightarrow> t | InvalidParams act \<Rightarrow> act @ '': invalid params: '' @ decode_error act)"

text \<open>Dispatch of one call; \<^const>\<open>None\<close> is a panic. The text of a decoding error is an argument.\<close>

definition fs_dispatch ::
  "'w os \<Rightarrow> (string \<Rightarrow> string) \<Rightarrow> string \<Rightarrow> call \<Rightarrow> 'w fs \<Rightarrow> result option \<times> 'w fs" where
  "fs_dispatch os decode_error r c s =
     (let sroot = context_root r;
          c' = c\<lparr>params := remap_worktree_paths os sroot (fs_world s) (params c)\<rparr>
      in case fs_handle os sroot (action c) (params c') s of
           (FsOk reply, s1) \<Rightarrow>
             (Some \<lparr>res_call = c', res_ok = True, res_value = VMap reply, res_class = ClassNone,
                latency_ms = os_elapsed os (fs_world s1), span_id = []\<rparr>, s1)
         | (FsFail e, s1) \<Rightarrow>
             (Some \<lparr>res_call = c', res_ok = False,
                res_value = VMap [(''error'', VStr (error_text decode_error e))],
                res_class = ClassUsage, latency_ms = os_elapsed os (fs_world s1), span_id = []\<rparr>, s1)
         | (FsPanic, s1) \<Rightarrow> (None, s1))"

end
