(* ===== verification/Fs_Text_Laws.thy ===== *)
theory Fs_Text_Laws
  imports Fs_Text
begin

text \<open>
  Lemmas on the text algorithms of the file-system organ: texts as joined lines, occurrences as
  splits, the region a tolerant replacement rewrites, and the stripping of line numbers.
\<close>

subsection \<open>Joined lines\<close>

lemma join_append:
  "xs \<noteq> [] \<Longrightarrow> ys \<noteq> [] \<Longrightarrow> join sep (xs @ ys) = join sep xs @ sep @ join sep ys"
proof (induction xs)
  case (Cons x xs)
  then show ?case by (cases xs; cases ys) auto
qed simp

lemma join_Cons: "join sep (x # xs) = (if xs = [] then x else x @ sep @ join sep xs)"
  by (cases xs) auto

lemma lines_join [simp]: "join newline (lines_of s) = s"
  by (simp add: lines_of_def newline_def join_split)

lemma lines_not_Nil [simp]: "lines_of s \<noteq> []"
  by (simp add: lines_of_def split_char_def)

lemma line_no_newline: "l \<in> set (lines_of s) \<Longrightarrow> CHR 0x0A \<notin> set l"
  using split_p_chars [of l "\<lambda>x. x = CHR 0x0A" s] by (auto simp: lines_of_def split_char_def)

lemma lines_of_join:
  assumes "ls \<noteq> []" "\<forall>l\<in>set ls. CHR 0x0A \<notin> set l"
  shows "lines_of (join newline ls) = ls"
  using assms
proof (induction ls)
  case (Cons l ls)
  show ?case
  proof (cases "ls = []")
    case True
    with Cons.prems show ?thesis
      using split_p_none [of l "\<lambda>x. x = CHR 0x0A"] by (auto simp: lines_of_def split_char_def)
  next
    case False
    with Cons show ?thesis
      using split_p_single [of l "\<lambda>x. x = CHR 0x0A" "CHR 0x0A" "join newline ls"]
      by (auto simp: join_Cons lines_of_def split_char_def newline_def)
  qed
qed simp

text \<open>A text cut at line \<open>i\<close>: the lines before it, each with its newline, and the rest.\<close>

lemma line_start_length: "i \<le> length ls \<Longrightarrow>
    line_start ls i = length (concat (map (\<lambda>l. l @ newline) (take i ls)))"
  by (simp add: line_start_def length_concat comp_def newline_def)

lemma cut_lines:
  assumes "i < length ls"
  shows "join newline ls = concat (map (\<lambda>l. l @ newline) (take i ls)) @ join newline (drop i ls)"
  using assms
proof (induction i arbitrary: ls)
  case (Suc i)
  then obtain l ls' where ls: "ls = l # ls'" by (cases ls) auto
  with Suc have "ls' \<noteq> []" by auto
  with Suc.IH [of ls'] Suc.prems ls show ?case by (simp add: join_Cons)
qed simp

lemma join_block_length:
  assumes "0 < k" "i + k \<le> length ls"
  shows "line_start ls (i + k - 1) + length (ls ! (i + k - 1))
    = line_start ls i + length (join newline (take k (drop i ls)))"
proof -
  obtain m where k: "k = Suc m" using assms(1) by (cases k) auto
  have "take k (drop i ls) = take m (drop i ls) @ [ls ! (i + m)]"
    using assms(2) by (simp add: k take_Suc_conv_app_nth)
  moreover have "length (join newline (xs @ [x])) = length (concat (map (\<lambda>l. l @ newline) xs)) + length x"
    for xs :: "string list" and x
    by (induction xs) (auto simp: join_Cons newline_def)
  moreover have "line_start ls (i + m) = line_start ls i
      + length (concat (map (\<lambda>l. l @ newline) (take m (drop i ls))))"
  proof -
    have "take (i + m) ls = take i ls @ take m (drop i ls)" by (simp add: take_add)
    then show ?thesis
      by (simp add: line_start_def length_concat comp_def newline_def)
  qed
  ultimately show ?thesis by (simp add: k)
qed

subsection \<open>Occurrences\<close>

lemma split_str_not_Nil [simp]: "split_str sep s \<noteq> []"
  by (subst split_str.simps) (auto split: option.splits)

lemma count_str_zero: "sub \<noteq> [] \<Longrightarrow> count_str s sub = 0 \<longleftrightarrow> \<not> contains s sub"
  by (subst index_None [symmetric], subst count_str_def, subst split_str.simps)
    (auto split: option.splits)

lemma join_split_str: "join sep (split_str sep s) = s"
proof (induction sep s rule: split_str.induct)
  case (1 sep s)
  show ?case
  proof (cases "sep = [] \<or> str_index s sep = None")
    case True
    then show ?thesis by (subst split_str.simps) auto
  next
    case False
    then obtain i where i: "sep \<noteq> []" "str_index s sep = Some i" by auto
    with 1 have "join sep (split_str sep (drop (i + length sep) s)) = drop (i + length sep) s" by simp
    with i index_split [OF i(2)] show ?thesis
      by (subst split_str.simps) (simp add: join_Cons)
  qed
qed

text \<open>The one occurrence of a text, and its replacement.\<close>

lemma replace_first_split:
  assumes "sub \<noteq> []" "count_str s sub > 0"
  obtains pre post where "s = pre @ sub @ post" "replace_first s sub new = pre @ new @ post"
proof -
  from assms obtain i where i: "str_index s sub = Some i"
    using count_str_zero [of sub s] index_None [of s sub] by auto
  with index_split [OF i] that show ?thesis by (simp add: replace_first_def)
qed

lemma lf_text_id: "CHR 0x0D \<notin> set s \<Longrightarrow> lf_text s = s"
proof -
  assume "CHR 0x0D \<notin> set s"
  then have "\<not> contains s [CHR 0x0D, CHR 0x0A]" by (auto simp: contains_iff)
  then have "str_index s [CHR 0x0D, CHR 0x0A] = None" by (simp add: index_None)
  then show ?thesis by (simp add: lf_text_def replace_every_def split_str.simps)
qed

subsection \<open>The white-space tolerant replacement\<close>

lemma leading_ws_newline: "leading_ws (l @ newline @ s) = leading_ws l"
  by (induction l) (auto simp: leading_ws_def newline_def indent_char_def tab_def)

lemma leading_ws_join: "ls \<noteq> [] \<Longrightarrow> leading_ws (join newline ls) = leading_ws (hd ls)"
  by (cases ls) (simp_all add: join_Cons leading_ws_newline)

lemma block_lines_not_Nil [simp]: "block_lines s \<noteq> []"
proof -
  have "ls \<noteq> [] \<Longrightarrow> length ls > 1 \<Longrightarrow> butlast ls \<noteq> []" for ls :: "string list"
    by (cases ls) auto
  then show ?thesis by (auto simp: block_lines_def Let_def)
qed

lemma line_trimmed_region:
  assumes "line_trimmed_replace content old new = Some out"
  obtains pre mid post where "content = pre @ mid @ post"
    "out = pre @ rebase (leading_ws mid) new @ post"
    "map trim_space (lines_of mid) = map trim_space (block_lines old)"
    "pre = [] \<or> last pre = CHR 0x0A" "post = [] \<or> hd post = CHR 0x0A"
proof -
  define ls where "ls = lines_of content"
  define k where "k = length (block_lines old)"
  have k: "0 < k" by (simp add: k_def)
  obtain i where i: "block_matches ls (block_lines old) = [i]"
    and out: "out = (let stop = min (line_start ls (i + k - 1) + length (ls ! (i + k - 1))) (length content)
      in take (line_start ls i) content @ rebase (leading_ws (ls ! i)) new @ drop stop content)"
    using assms unfolding line_trimmed_replace_def ls_def [symmetric] k_def
    by (auto simp: Let_def split: list.splits)
  have "i \<in> set (block_matches ls (block_lines old))" by (simp add: i)
  then have le: "i + k \<le> length ls" and at: "block_at ls (block_lines old) i"
    by (auto simp: block_matches_def k_def split: if_splits)
  define pre where "pre = concat (map (\<lambda>l. l @ newline) (take i ls))"
  define block where "block = take k (drop i ls)"
  define mid where "mid = join newline block"
  define post where "post = (if drop (i + k) ls = [] then []
    else newline @ join newline (drop (i + k) ls))"
  have block: "block \<noteq> []" "drop i ls = block @ drop (i + k) ls" "hd block = ls ! i"
    using k le append_take_drop_id [of k "drop i ls"]
    by (auto simp: block_def hd_drop_conv_nth add.commute)
  have "join newline (drop i ls) = mid @ post"
    unfolding block(2) mid_def post_def by (simp add: join_append block(1))
  then have content: "content = pre @ mid @ post"
    using cut_lines [of i ls] k le by (simp add: ls_def pre_def)
  have start: "line_start ls i = length pre" using le by (simp add: line_start_length pre_def)
  have stop: "line_start ls (i + k - 1) + length (ls ! (i + k - 1)) = length (pre @ mid)"
    using join_block_length [OF k le] start by (simp add: mid_def block_def)
  have "\<forall>l\<in>set block. CHR 0x0A \<notin> set l"
    using line_no_newline [of _ content] unfolding block_def ls_def
    by (meson in_set_dropD in_set_takeD)
  then have lines: "lines_of mid = block" using block(1) by (simp add: mid_def lines_of_join)
  have ws: "leading_ws mid = leading_ws (ls ! i)"
    by (simp add: mid_def leading_ws_join block)
  show ?thesis
  proof (rule that)
    show "content = pre @ mid @ post" by (fact content)
    show "out = pre @ rebase (leading_ws mid) new @ post"
      unfolding out Let_def stop start ws by (simp add: content)
    show "map trim_space (lines_of mid) = map trim_space (block_lines old)"
      using at by (simp add: lines block_at_def block_def k_def)
    show "pre = [] \<or> last pre = CHR 0x0A"
      by (cases "take i ls" rule: rev_cases) (auto simp: pre_def newline_def)
    show "post = [] \<or> hd post = CHR 0x0A" by (simp add: post_def newline_def)
  qed
qed

subsection \<open>Line numbers\<close>

lemma tab_no_digit [simp]: "\<not> digit tab"
  by (simp add: digit_def tab_def)

lemma itoa_not_Nil: "0 \<le> n \<Longrightarrow> itoa n \<noteq> []"
  by (simp add: itoa_def nat_str.simps)

lemma strip_numbered:
  assumes "0 \<le> n"
  shows "strip_number (itoa n @ tab # l) = Some l"
proof -
  have d: "\<And>c. c \<in> set (itoa n) \<Longrightarrow> digit c" using itoa_digits [OF assms] .
  have "itoa n \<noteq> []" using assms by (subst itoa_def, subst nat_str.simps) auto
  with d have "dropWhile digit (itoa n @ tab # l) = tab # l"
    by (simp add: dropWhile_append)
  then show ?thesis using \<open>itoa n \<noteq> []\<close> by (simp add: strip_number_def Let_def)
qed

lemma length_numbered [simp]: "length (numbered_lines n ls) = length ls"
  by (simp add: numbered_lines_def)

lemma strip_numbered_lines:
  assumes "0 \<le> n"
  shows "map (\<lambda>l. case strip_number l of None \<Rightarrow> l | Some r \<Rightarrow> r) (numbered_lines n ls) = ls"
  using assms by (intro nth_equalityI) (auto simp: numbered_lines_def strip_numbered)

lemma numbered_no_newline:
  assumes "0 \<le> n" "\<forall>l\<in>set ls. CHR 0x0A \<notin> set l"
  shows "\<forall>l\<in>set (numbered_lines n ls). CHR 0x0A \<notin> set l"
proof
  fix l
  assume "l \<in> set (numbered_lines n ls)"
  then obtain i where i: "i < length ls" "l = itoa (n + int i) @ tab # ls ! i"
    by (auto simp: numbered_lines_def)
  have "\<not> digit (CHR 0x0A)" by (simp add: digit_def)
  with i assms show "CHR 0x0A \<notin> set l"
    using itoa_digits [of "n + int i" "CHR 0x0A"] by (auto simp: tab_def)
qed

text \<open>What a reader displays strips back to the lines displayed.\<close>

lemma block_lines_rendered:
  assumes "0 \<le> n" "\<forall>l\<in>set ls. CHR 0x0A \<notin> set l" "ls \<noteq> []"
  shows "block_lines (render_lines n ls) = numbered_lines n ls"
proof -
  let ?ns = "numbered_lines n ls"
  have nn: "?ns \<noteq> []" using assms(3) by (metis length_0_conv length_numbered)
  have "lines_of (render_lines n ls) = ?ns"
    unfolding render_lines_def
    using lines_of_join [OF nn] numbered_no_newline [OF assms(1,2)] by blast
  moreover have "last ?ns = itoa (n + int (length ls - 1)) @ tab # last ls"
    using assms(3) nn by (simp add: last_conv_nth numbered_lines_def)
  ultimately show ?thesis by (simp add: block_lines_def Let_def)
qed

lemma strip_rendered:
  assumes "0 \<le> n" "\<forall>l\<in>set ls. CHR 0x0A \<notin> set l" "list_ex (\<lambda>l. l \<noteq> []) ls"
  shows "strip_line_numbers (render_lines n ls) = Some (join newline ls)"
proof -
  let ?ns = "numbered_lines n ls"
  have ne: "ls \<noteq> []" using assms(3) by auto
  then have nn: "?ns \<noteq> []" by (metis length_0_conv length_numbered)
  note blk = block_lines_rendered [OF assms(1,2) ne]
  have "strip_number (?ns ! 0) = Some (ls ! 0)"
    using ne assms(1) by (simp add: numbered_lines_def strip_numbered)
  then have "list_ex (\<lambda>l. strip_number l \<noteq> None) ?ns"
    unfolding list_ex_iff using nn by (metis length_greater_0_conv nth_mem option.distinct(1))
  then show ?thesis
    unfolding strip_line_numbers_def blk Let_def strip_numbered_lines [OF assms(1)]
    using assms(3) by simp
qed

lemma cap_line_chars: "CHR 0x0A \<notin> set l \<Longrightarrow> CHR 0x0A \<notin> set (cap_line l)"
  by (auto simp: cap_line_def trim_cr_def Let_def dest: in_set_takeD)

lemma selected_lines:
  assumes "select_lines file a b = (sel, n)" "l \<in> set sel"
  shows "CHR 0x0A \<notin> set l"
proof -
  obtain l' where "l' \<in> set (lines_of (strip_bom file))" "l = cap_line l'"
    using assms by (auto simp: select_lines_def Let_def dest!: in_set_dropD in_set_takeD)
  then show ?thesis using line_no_newline cap_line_chars by blast
qed

lemma whole_selection:
  assumes "CHR 0x0D \<notin> set file" "strip_bom file = file"
    and "list_all (\<lambda>l. length l \<le> 60000) (lines_of file)"
  shows "select_lines file 0 (-1) = (lines_of file, int (length (lines_of file)))"
proof -
  have "cap_line l = l" if l: "l \<in> set (lines_of file)" for l
  proof -
    have "CHR 0x0D \<notin> set l"
      using l assms(1) split_p_chars [of l "\<lambda>x. x = CHR 0x0A" "file"]
      by (auto simp: lines_of_def split_char_def)
    then have "trim_cr l = l" by (auto simp: trim_cr_def has_suffix_iff)
    moreover have "length l \<le> 60000" using l assms(3) by (simp add: list_all_iff)
    ultimately show ?thesis by (simp add: cap_line_def)
  qed
  then have "map cap_line (lines_of file) = lines_of file" by (simp add: map_idI)
  then show ?thesis by (simp add: select_lines_def Let_def assms(2))
qed

subsection \<open>White space and line numbers\<close>

definition space_tail :: "char list" where
  "space_tail = [CHR 0x85, CHR 0xA0, CHR 0x9A, CHR 0x80, CHR 0x81, CHR 0x82, CHR 0x83, CHR 0x84,
     CHR 0x86, CHR 0x87, CHR 0x88, CHR 0x89, CHR 0x8A, CHR 0xA8, CHR 0xA9, CHR 0xAF, CHR 0x9F]"

lemma space_tail_lead:
  "list_all (\<lambda>d. \<not> ascii_space d \<and> d \<noteq> CHR 0xC2 \<and> d \<noteq> CHR 0xE1 \<and> d \<noteq> CHR 0xE2 \<and> d \<noteq> CHR 0xE3) space_tail"
  by code_simp

lemma space_len_lead:
  "\<not> ascii_space d \<Longrightarrow> d \<noteq> CHR 0xC2 \<Longrightarrow> d \<noteq> CHR 0xE1 \<Longrightarrow> d \<noteq> CHR 0xE2 \<Longrightarrow> d \<noteq> CHR 0xE3
     \<Longrightarrow> space_len (d # s) = 0"
  by (simp add: wide_space_def split: list.split)

lemma space_len_tail: "d \<in> set space_tail \<Longrightarrow> space_len (d # s) = 0"
proof -
  assume "d \<in> set space_tail"
  with space_tail_lead have "\<not> ascii_space d \<and> d \<noteq> CHR 0xC2 \<and> d \<noteq> CHR 0xE1 \<and> d \<noteq> CHR 0xE2 \<and> d \<noteq> CHR 0xE3"
    unfolding list_all_iff by (rule bspec)
  then show ?thesis by (intro space_len_lead) (elim conjE, assumption)+
qed

lemma wide_space_tail: "wide_space c d e \<Longrightarrow> d \<in> set space_tail \<and> e \<in> set space_tail"
proof -
  have sub: "set [CHR 0x80, CHR 0x81, CHR 0x82, CHR 0x83, CHR 0x84, CHR 0x85, CHR 0x86, CHR 0x87,
      CHR 0x88, CHR 0x89, CHR 0x8A, CHR 0xA8, CHR 0xA9, CHR 0xAF] \<subseteq> set space_tail"
    "CHR 0x9A \<in> set space_tail" "CHR 0x80 \<in> set space_tail" "CHR 0x81 \<in> set space_tail"
    "CHR 0x9F \<in> set space_tail"
    by (simp_all add: space_tail_def)
  assume "wide_space c d e"
  then show ?thesis unfolding wide_space_def
    by (elim disjE conjE) (use sub in \<open>blast\<close>)+
qed

lemma space_len_continuation:
  assumes "1 < space_len (c # s)"
  obtains d s' where "s = d # s'" "d \<in> set space_tail" "space_len (c # s) = 2"
  | d e s' where "s = d # e # s'" "d \<in> set space_tail" "e \<in> set space_tail" "space_len (c # s) = 3"
proof (cases s)
  case Nil
  with assms show ?thesis by (simp split: if_splits)
next
  case (Cons d s')
  have d: "d \<in> set space_tail" if "d = CHR 0x85 \<or> d = CHR 0xA0"
    using that by (elim disjE) (simp_all add: space_tail_def)
  show ?thesis
  proof (cases "c = CHR 0xC2 \<and> (d = CHR 0x85 \<or> d = CHR 0xA0)")
    case True
    with Cons assms d that(1) [of d s'] show ?thesis by (simp split: if_splits)
  next
    case False
    with assms Cons obtain e s'' where "s' = e # s''" "wide_space c d e" "space_len (c # s) = 3"
      by (simp split: if_splits list.splits)
    with Cons wide_space_tail that(2) show ?thesis by blast
  qed
qed

lemma trim_right_length:
  "trim_left l \<noteq> [] \<Longrightarrow> length (trim_right (trim_left l)) \<le> length (trim_right l)"
proof (induction l rule: trim_left.induct)
  case (2 c s)
  let ?n = "space_len (c # s)"
  show ?case
  proof (cases "?n = 0")
    case False
    have t: "trim_left (c # s) = trim_left (drop (?n - 1) s)"
      using False by (simp del: space_len.simps)
    then have ih: "length (trim_right (trim_left (c # s))) \<le> length (trim_right (drop (?n - 1) s))"
      using 2 False by (simp del: space_len.simps)
    have "length (trim_right (drop (?n - 1) s)) \<le> length (trim_right s)"
    proof (cases "?n = 1")
      case False
      with \<open>?n \<noteq> 0\<close> have "1 < ?n" by linarith
      then show ?thesis
      proof (cases rule: space_len_continuation)
        case (1 d s')
        with space_len_tail [of d s'] show ?thesis by (simp del: space_len.simps)
      next
        case (2 d e s')
        with space_len_tail [of d "e # s'"] space_len_tail [of e s'] show ?thesis
          by (simp del: space_len.simps)
      qed
    qed simp
    with ih 2(2) show ?thesis by (simp del: space_len.simps)
  qed (simp del: space_len.simps)
qed simp

lemma space_len_digit: "digit c \<Longrightarrow> space_len (c # s) = 0"
  by (rule space_len_lead) (auto simp: digit_def ascii_space_def)

lemma trim_right_digits: "list_all digit ds \<Longrightarrow> trim_right (ds @ s) = ds @ trim_right s"
  by (induction ds) (simp_all add: space_len_digit del: space_len.simps)

lemma numbered_trim:
  assumes "list_all digit ds" "ds \<noteq> []"
  shows "trim_space (ds @ tab # l) \<noteq> trim_space l"
proof
  assume eq: "trim_space (ds @ tab # l) = trim_space l"
  have "trim_left (ds @ tab # l) = ds @ tab # l"
    using assms by (cases ds) (simp_all add: space_len_digit del: space_len.simps)
  moreover have "space_len (tab # l) = 1" by (simp add: ascii_space_def tab_def)
  ultimately have r: "trim_space (ds @ tab # l)
      = ds @ (if trim_left l = [] then [] else tab # trim_right l)"
    by (simp add: trim_space_def trim_right_digits [OF assms(1)] del: space_len.simps)
  show False
  proof (cases "trim_left l = []")
    case True
    with eq r assms(2) show False by (simp add: trim_space_def)
  next
    case False
    with trim_right_length [OF this] arg_cong [OF eq, of length] r assms(2) show False
      by (simp add: trim_space_def)
  qed
qed

lemma strip_line_numbers_not_Nil: "strip_line_numbers s = Some t \<Longrightarrow> t \<noteq> []"
proof -
  assume "strip_line_numbers s = Some t"
  then obtain ls where "t = join newline ls" "list_ex (\<lambda>l. l \<noteq> []) ls"
    by (auto simp: strip_line_numbers_def Let_def split: if_splits)
  then show ?thesis
    by (cases ls) (auto simp: join_Cons newline_def split: if_splits)
qed

lemma join_length: "ls \<noteq> [] \<Longrightarrow> length (join newline ls) + 1 = sum_list (map (\<lambda>l. length l + 1) ls)"
  by (induction ls) (auto simp: join_Cons newline_def)

lemma contains_length: "contains s sub \<Longrightarrow> length sub \<le> length s"
  by (auto simp: contains_iff)

lemma count_str_self: "s \<noteq> [] \<Longrightarrow> count_str s s = 1 \<and> replace_first s s new = new"
proof -
  assume s: "s \<noteq> []"
  then have i: "str_index s s = Some 0" by (cases s) (simp_all add: has_prefix_def)
  have "split_str s [] = [[]]" by (subst split_str.simps) (simp add: s)
  then have "split_str s s = [[], []]" by (subst split_str.simps) (simp add: s i)
  with i show ?thesis by (simp add: count_str_def replace_first_def)
qed

text \<open>A text is replaced by an edit with its numbered display as the old text.\<close>

lemma edit_by_display:
  assumes "0 \<le> n" "\<forall>l\<in>set ls. CHR 0x0A \<notin> set l" "list_ex (\<lambda>l. l \<noteq> []) ls"
  shows "edit_text (join newline ls) (render_lines n ls) new False = Inr (new, 1)"
proof -
  let ?c = "join newline ls" and ?old = "render_lines n ls" and ?ns = "numbered_lines n ls"
  have ne: "ls \<noteq> []" "?ns \<noteq> []" using assms(3) by (auto simp: numbered_lines_def)
  have len: "length ?c < length ?old"
  proof -
    have "(\<Sum>i<length ls. length (ls ! i) + 1) < (\<Sum>i<length ls. length (?ns ! i) + 1)"
      using ne by (intro sum_strict_mono) (auto simp: numbered_lines_def)
    then have "sum_list (map (\<lambda>l. length l + 1) ls) < sum_list (map (\<lambda>l. length l + 1) ?ns)"
      by (simp add: sum_list_sum_nth atLeast0LessThan)
    with join_length [OF ne(1)] join_length [OF ne(2)] show ?thesis by (simp add: render_lines_def)
  qed
  have c: "?c \<noteq> []" using strip_line_numbers_not_Nil [OF strip_rendered [OF assms]] .
  have zero: "count_str ?c ?old = 0"
    using contains_length [of ?c ?old] count_str_zero [of ?old ?c] len by fastforce
  have blk: "block_lines ?old = ?ns" "lines_of ?c = ls"
    using block_lines_rendered [OF assms(1,2) ne(1)] lines_of_join [OF ne(1) assms(2)] by auto
  have "\<not> block_at ls ?ns 0"
  proof
    assume "block_at ls ?ns 0"
    then have "map trim_space ls ! 0 = map trim_space ?ns ! 0" by (simp add: block_at_def)
    then have "trim_space (ls ! 0) = trim_space (itoa n @ tab # ls ! 0)"
      using ne by (simp add: numbered_lines_def)
    moreover have "list_all digit (itoa n)" using itoa_digits [OF assms(1)] by (simp add: list_all_iff)
    ultimately show False using numbered_trim [of "itoa n" "ls ! 0"] itoa_not_Nil [OF assms(1)] by metis
  qed
  then have "block_matches ls ?ns = []" by (simp add: block_matches_def)
  then have "fuzzy_replace ?c ?old new False = None"
    by (simp add: fuzzy_replace_def line_trimmed_replace_def blk)
  moreover have "?c \<noteq> ?old" using len by auto
  ultimately show ?thesis
    using zero strip_rendered [OF assms] count_str_self [OF c]
    by (simp add: edit_text_def replace_found_def)
qed

subsection \<open>An edit\<close>

lemma replace_found_once:
  assumes "replace_found content old new False n = Inr (out, m)" "old \<noteq> []" "n = count_str content old" "0 < n"
  shows "m = 1 \<and> count_str content old = 1 \<and>
    (\<exists>pre post. content = pre @ old @ post \<and> out = pre @ new @ post)"
proof -
  have "n = 1" "m = 1" "out = replace_first content old new"
    using assms by (auto simp: replace_found_def split: if_splits)
  with replace_first_split [OF assms(2), of content new] assms(3,4) show ?thesis by metis
qed

text \<open>An edit by a numbered display whose own text occurs nowhere in the content: the text it shows is looked for,
  and replaced where it occurs once.\<close>

lemma edit_by_shown:
  assumes "0 \<le> n" "\<forall>l\<in>set ls. CHR 0x0A \<notin> set l" "list_ex (\<lambda>l. l \<noteq> []) ls"
    and "count_str content (render_lines n ls) = 0" "block_matches (lines_of content) (block_lines (render_lines n ls)) = []"
    and "0 < count_str content (join newline ls)"
  shows "edit_text content (render_lines n ls) new False =
    replace_found content (join newline ls) new False (count_str content (join newline ls))"
proof -
  have "fuzzy_replace content (render_lines n ls) new False = None"
    using assms(5) by (simp add: fuzzy_replace_def line_trimmed_replace_def)
  moreover have "join newline ls \<noteq> render_lines n ls" using assms(4,6) by auto
  ultimately show ?thesis using assms(4,6) strip_rendered [OF assms(1-3)] by (simp add: edit_text_def)
qed

end
