(* ===== verification/Fs_Laws.thy ===== *)
theory Fs_Laws
  imports Fs_Organ Fs_Text_Laws
begin

text \<open>
  Lemmas on the file-system organ: clean absolute paths as lists of segments, what the sandbox check
  establishes of a path, and the effect of each handler on the state.
\<close>

subsection \<open>Absolute clean paths\<close>

definition name_segs :: "string list \<Rightarrow> bool" where
  "name_segs segs = list_all (\<lambda>s. s \<noteq> [] \<and> s \<noteq> ''.'' \<and> s \<noteq> ''..'' \<and> CHR ''/'' \<notin> set s) segs"

lemma clean_step_names:
  "name_segs stack \<Longrightarrow> CHR ''/'' \<notin> set seg \<Longrightarrow> name_segs (clean_step True seg stack)"
  by (auto simp: name_segs_def split: list.splits)

lemma clean_fold_names:
  "name_segs stack \<Longrightarrow> \<forall>s\<in>set segs. CHR ''/'' \<notin> set s \<Longrightarrow> name_segs (fold (clean_step True) segs stack)"
  by (induction segs arbitrary: stack) (simp_all add: clean_step_names del: clean_step.simps)

lemma split_no_slash: "s \<in> set (split_char (CHR ''/'') p) \<Longrightarrow> CHR ''/'' \<notin> set s"
  by (auto simp: split_char_def dest: split_p_chars)

lemma abs_stack_names: "is_abs p \<Longrightarrow> name_segs (clean_stack p)"
  using clean_fold_names [of "[]" "split_char (CHR ''/'') p"]
  by (simp add: clean_stack_def is_abs_def name_segs_def split_no_slash)

lemma name_segs_rev [simp]: "name_segs (rev segs) = name_segs segs"
  by (simp add: name_segs_def)

lemma clean_fold_pushes:
  "name_segs segs \<Longrightarrow> fold (clean_step r) segs stack = rev segs @ stack"
  by (induction segs arbitrary: stack) (auto simp: name_segs_def)

definition abs_of :: "string list \<Rightarrow> string" where
  "abs_of segs = ''/'' @ join ''/'' segs"

lemma abs_of_abs [simp]: "is_abs (abs_of segs)"
  by (simp add: abs_of_def is_abs_def has_prefix_def)

lemma clean_abs_of: "is_abs p \<Longrightarrow> file_clean p = abs_of (rev (clean_stack p))"
  by (simp add: file_clean_def is_abs_def abs_of_def Let_def)

lemma split_abs_of: "name_segs segs \<Longrightarrow> segs \<noteq> [] \<Longrightarrow> split_char (CHR ''/'') (abs_of segs) = [] # segs"
  using split_join [of "[] # segs" "CHR ''/''"]
  by (auto simp: name_segs_def list_all_iff abs_of_def join_Cons)

lemma stack_abs_of: "name_segs segs \<Longrightarrow> clean_stack (abs_of segs) = rev segs"
proof (cases "segs = []")
  case True
  then show ?thesis by (simp add: clean_stack_def abs_of_def split_char_def has_prefix_def)
next
  case False
  assume "name_segs segs"
  then show ?thesis
    using split_abs_of [OF _ False] clean_fold_pushes [of segs] abs_of_abs [of segs]
    by (simp add: clean_stack_def is_abs_def)
qed

lemma clean_idem:
  assumes "is_abs p"
  shows "file_clean (file_clean p) = file_clean p" "is_abs (file_clean p)"
    "clean_stack (file_clean p) = clean_stack p"
  using abs_stack_names [OF assms] clean_abs_of [OF assms] stack_abs_of [of "rev (clean_stack p)"]
    clean_abs_of [of "abs_of (rev (clean_stack p))"] by simp_all

lemma clean_relative: "\<not> is_abs p \<Longrightarrow> \<not> is_abs (file_clean p)"
proof -
  assume p: "\<not> is_abs p"
  let ?segs = "rev (clean_stack p)"
  have "clean_segs (clean_stack p)" using clean_stack_inv [OF p] by simp
  then have "clean_segs ?segs" by (simp add: clean_segs_def)
  then have "\<not> has_prefix (join ''/'' ?segs) ''/''"
    by (cases ?segs; cases "hd ?segs") (auto simp: has_prefix_def join_Cons clean_segs_def)
  with p show ?thesis by (auto simp: file_clean_def is_abs_def Let_def has_prefix_def)
qed

text \<open>A path lies under a directory when its segments continue those of the directory.\<close>

definition inside :: "string \<Rightarrow> string \<Rightarrow> bool" where
  "inside dir p \<longleftrightarrow> is_abs p \<and> (\<exists>rest. rev (clean_stack p) = rev (clean_stack dir) @ rest)"

lemma drop_common_rest: "drop_common bs ts = ([], us) \<Longrightarrow> ts = bs @ us"
  by (induction bs ts rule: drop_common.induct) (auto split: if_splits)

lemma drop_common_keeps: "drop_common bs ts = (b # bs', us) \<Longrightarrow> b \<in> set bs"
  by (induction bs ts rule: drop_common.induct) (auto split: if_splits)

lemma escaping_join: "escapes (Some (join ''/'' (replicate (Suc n) ''..'' @ ts)))"
  by (simp add: escapes_def join_Cons has_prefix_def)

lemma rel_segs_abs_of: "name_segs segs \<Longrightarrow> rel_segs (abs_of segs) = [] # segs"
proof -
  assume n: "name_segs segs"
  show ?thesis
  proof (cases "segs = []")
    case True
    then show ?thesis by (simp add: rel_segs_def abs_of_def)
  next
    case False
    then have "abs_of segs \<noteq> ''/''" using n by (cases segs) (auto simp: abs_of_def join_Cons name_segs_def)
    moreover have "abs_of segs \<noteq> []" by (simp add: abs_of_def)
    ultimately show ?thesis using split_abs_of [OF n False] by (simp add: rel_segs_def)
  qed
qed

lemma not_escaping_inside:
  assumes "\<not> escapes (file_rel dir p)" "is_abs dir"
  shows "inside dir p"
proof (cases "file_clean p = file_clean dir")
  case True
  then have "is_abs p" using clean_relative clean_idem(2) assms(2) by metis
  with True show ?thesis using clean_idem(3) assms(2) by (metis append_Nil2 inside_def)
next
  case False
  have d: "is_abs (file_clean dir)" "file_clean dir \<noteq> ''.''"
    using clean_idem [OF assms(2)] by (auto simp: is_abs_def has_prefix_def)
  obtain r where r: "file_rel dir p = Some r"
    using assms(1) by (cases "file_rel dir p") (auto simp: escapes_def)
  then have p: "is_abs p"
    using d False clean_relative by (auto simp: file_rel_def Let_def split: if_splits)
  let ?bs = "rev (clean_stack dir)" and ?ts = "rev (clean_stack p)"
  have n: "name_segs ?bs" "name_segs ?ts" using abs_stack_names assms(2) p by auto
  obtain bs ts where c: "drop_common ([] # ?bs) ([] # ?ts) = (bs, ts)" by fastforce
  then have "r = join ''/'' (replicate (length bs) ''..'' @ ts)"
    using r d p False clean_idem(2) [OF p]
    by (auto simp: file_rel_def Let_def clean_abs_of assms(2) rel_segs_abs_of [OF n(1)] rel_segs_abs_of [OF n(2)]
        split: if_splits)
  with assms(1) r have "bs = []" using escaping_join by (cases bs) (auto simp del: replicate_Suc)
  with c have "?ts = ?bs @ ts" by (auto dest!: drop_common_rest)
  with p show ?thesis by (auto simp: inside_def)
qed

lemma inside_self [simp]: "is_abs dir \<Longrightarrow> inside dir dir"
  by (auto simp: inside_def)

lemma inside_clean: "is_abs dir \<Longrightarrow> inside (file_clean dir) p = inside dir p"
  by (simp add: inside_def clean_idem)

subsection \<open>The sandbox\<close>

lemma resolved:
  assumes "resolve_within os sroot path w = Inr p" "sroot \<noteq> []" "file_abs os sroot = Inr ra" "is_abs ra"
  obtains rr rp where "inside ra p" "file_clean p = p"
    "os_eval_symlinks os (file_clean ra) w = Inr rr" "eval_existing_prefix os p w = Inr rp"
    "is_abs rr \<Longrightarrow> inside rr rp"
proof -
  let ?rc = "file_clean ra" and ?q = "expand_user_path os path"
  have p: "p = sandbox_abs ?rc ?q" and e: "\<not> escapes (file_rel ?rc p)"
    and rr: "\<exists>rr rp. os_eval_symlinks os ?rc w = Inr rr \<and> eval_existing_prefix os p w = Inr rp
      \<and> \<not> escapes (file_rel rr rp)"
    using assms(1-3) by (auto simp: resolve_within_def Let_def split: if_splits sum.splits)
  have u: "inside ?rc p" using not_escaping_inside [OF e] clean_idem [OF assms(4)] by simp
  have "file_clean p = p"
  proof (cases "is_abs ?q")
    case True
    then show ?thesis using clean_idem by (simp add: p sandbox_abs_def)
  next
    case False
    have rc: "?rc \<noteq> []" "is_abs ?rc"
      using clean_idem(2) [OF assms(4)] by (auto simp: is_abs_def has_prefix_def)
    have "is_abs (?rc @ ''/'' @ ?q)" using rc by (cases ?rc) (auto simp: is_abs_def has_prefix_def)
    then show ?thesis using rc False clean_idem(1)
      by (auto simp: p sandbox_abs_def file_join_def)
  qed
  moreover obtain rr rp where "os_eval_symlinks os ?rc w = Inr rr" "eval_existing_prefix os p w = Inr rp"
    "\<not> escapes (file_rel rr rp)" using rr by blast
  ultimately show ?thesis
    using that u inside_clean [OF assms(4)] not_escaping_inside by metis
qed

lemma file_base_slash:
  assumes "x \<noteq> []" "CHR ''/'' \<notin> set x"
  shows "file_base (pre @ ''/'' @ x) = x"
proof -
  have "dropWhile (\<lambda>c. c = CHR ''/'') (rev (pre @ ''/'' @ x)) = rev (pre @ ''/'' @ x)"
    using assms by (cases "rev x") (auto simp: in_set_conv_decomp)
  moreover have "takeWhile (\<lambda>c. c \<noteq> CHR ''/'') (rev x @ CHR ''/'' # rev pre) = rev x"
    using assms(2) by (subst takeWhile_append2) auto
  ultimately show ?thesis using assms(1) by (simp add: file_base_def after_last_def Let_def)
qed

lemma base_abs_of:
  assumes "name_segs segs"
  shows "file_base (abs_of segs) = (if segs = [] then ''/'' else last segs)"
proof (cases segs rule: rev_cases)
  case Nil
  then show ?thesis by (simp add: abs_of_def file_base_def after_last_def)
next
  case (snoc us x)
  with assms have x: "x \<noteq> []" "CHR ''/'' \<notin> set x" by (auto simp: name_segs_def)
  have "abs_of segs = ''/'' @ x" if "us = []" using that snoc by (simp add: abs_of_def)
  moreover have "abs_of segs = (''/'' @ join ''/'' us) @ ''/'' @ x" if "us \<noteq> []"
    using that snoc by (simp add: abs_of_def join_append)
  ultimately show ?thesis using snoc file_base_slash [OF x, of "[]"] file_base_slash [OF x, of "''/'' @ join ''/'' us"]
    by (cases "us = []") simp_all
qed

lemma inside_entry:
  assumes "inside ra d" "file_clean d = d" "is_abs p" "file_clean p = p"
  shows "inside ra (file_join d (file_base p))" "file_clean (file_join d (file_base p)) = file_join d (file_base p)"
proof -
  let ?ds = "rev (clean_stack d)" and ?ps = "rev (clean_stack p)"
  have d: "is_abs d" "d \<noteq> []" using assms(1) by (auto simp: inside_def is_abs_def has_prefix_def)
  have n: "name_segs ?ds" "name_segs ?ps" using abs_stack_names d(1) assms(3) by auto
  have b: "file_base p = (if ?ps = [] then ''/'' else last ?ps)"
    using base_abs_of [OF n(2)] clean_abs_of [OF assms(3)] assms(4) by simp
  have j: "is_abs (d @ ''/'' @ file_base p)" using d by (cases d) (auto simp: is_abs_def has_prefix_def)
  have c: "file_join d (file_base p) = file_clean (d @ ''/'' @ file_base p)"
    using d b n(2) last_in_set [of ?ps] by (auto simp: file_join_def name_segs_def list_all_iff)
  show "file_clean (file_join d (file_base p)) = file_join d (file_base p)"
    unfolding c by (rule clean_idem(1) [OF j])
  have "split_char (CHR ''/'') (d @ ''/'' @ file_base p)
      = split_char (CHR ''/'') d @ split_char (CHR ''/'') (file_base p)"
    by (simp add: split_char_def split_p_append)
  then have "clean_stack (d @ ''/'' @ file_base p)
      = fold (clean_step True) (split_char (CHR ''/'') (file_base p)) (clean_stack d)"
    using d j by (simp add: clean_stack_def is_abs_def)
  moreover have "\<exists>rest. rev (fold (clean_step True) (split_char (CHR ''/'') (file_base p)) (clean_stack d)) = ?ds @ rest"
  proof (cases "?ps = []")
    case True
    then show ?thesis by (simp add: b split_char_def)
  next
    case False
    then have "name_segs [last ?ps]" using n(2) last_in_set [of ?ps] by (simp add: name_segs_def list_all_iff)
    moreover from this have "split_char (CHR ''/'') (last ?ps) = [last ?ps]"
      by (auto simp: name_segs_def split_char_def intro!: split_p_none)
    ultimately show ?thesis using clean_fold_pushes [of "[last ?ps]"] False by (simp add: b)
  qed
  ultimately show "inside ra (file_join d (file_base p))"
    using assms(1) j clean_idem(2,3) [OF j] by (auto simp: c inside_def)
qed

end
