(* ===== verification/Fs_Effects.thy ===== *)
theory Fs_Effects
  imports Fs_Laws
begin

text \<open>
  What the actions of the file-system organ do to its state: every change of the world is a call of
  the system at a path the sandbox has granted, or at its parent or an entry of it, and every change
  of the read registry is a mark. The lemmas follow the handlers downwards.
\<close>

subsection \<open>Where the world may change\<close>

text \<open>A path inside the sandbox root \<open>ra\<close>, by its segments and, for its existing part or the one
  of the directory it is an entry of, after symbolic links.\<close>

definition contained :: "'w os \<Rightarrow> string \<Rightarrow> 'w \<Rightarrow> string \<Rightarrow> bool" where
  "contained os ra w p =
     (inside ra p \<and> file_clean p = p
      \<and> (\<exists>rr rp. os_eval_symlinks os (file_clean ra) w = Inr rr \<and> eval_existing_prefix os p w = Inr rp
           \<and> (is_abs rr \<longrightarrow> inside rr rp)))"

text \<open>Where a move may put a file: at a contained path, or as an entry, by a single name, of a directory that is one.
  The entry itself may be a link, which a rename replaces.\<close>

definition contained_entry :: "'w os \<Rightarrow> string \<Rightarrow> 'w \<Rightarrow> string \<Rightarrow> bool" where
  "contained_entry os ra w p =
     (inside ra p \<and> file_clean p = p
      \<and> (contained os ra w p
         \<or> (\<exists>d b fi. contained os ra w d \<and> os_stat os d w = Inr fi \<and> fi_dir fi \<and> name_segs [b] \<and> p = file_join d b)))"

text \<open>A relation between worlds that every change at the paths of \<open>P\<close>, and every move from there to a path of \<open>Q\<close>,
  respects; the directory of such a path may be made.\<close>

definition os_respects :: "'w os \<Rightarrow> (string \<Rightarrow> bool) \<Rightarrow> (string \<Rightarrow> bool) \<Rightarrow> ('w \<Rightarrow> 'w \<Rightarrow> bool) \<Rightarrow> bool" where
  "os_respects os P Q R =
     (reflp R \<and> transp R
      \<and> (\<forall>p w. P p \<or> Q p \<longrightarrow> R w (snd (os_mkdir_all os (path_dir p) w)))
      \<and> (\<forall>p s w. P p \<longrightarrow> R w (snd (os_write_file os p s w)))
      \<and> (\<forall>p w. P p \<longrightarrow> R w (snd (os_remove os p w)))
      \<and> (\<forall>p w. P p \<longrightarrow> R w (snd (os_remove_all os p w)))
      \<and> (\<forall>p q w. P p \<longrightarrow> Q q \<longrightarrow> R w (snd (os_rename os p q w)))
      \<and> (\<forall>p q fi w. P p \<longrightarrow> Q q \<longrightarrow> R w (snd (os_copy_tree os p q fi w))))"

definition keeps_to :: "('w \<Rightarrow> 'w \<Rightarrow> bool) \<Rightarrow> 'w handler \<Rightarrow> 'w fs \<Rightarrow> bool" where
  "keeps_to R h s = R (fs_world s) (fs_world (snd (h s)))"

lemma os_respectsD:
  assumes "os_respects os P Q R"
  shows "R w w" "R u v \<Longrightarrow> R v w \<Longrightarrow> R u w"
    "P p \<Longrightarrow> os_mkdir_all os (path_dir p) w = (e, w1) \<Longrightarrow> R w w1"
    "P p \<Longrightarrow> os_write_file os p t w = (e, w1) \<Longrightarrow> R w w1"
    "P p \<Longrightarrow> os_remove os p w = (e, w1) \<Longrightarrow> R w w1"
    "P p \<Longrightarrow> os_remove_all os p w = (e, w1) \<Longrightarrow> R w w1"
    "P p \<Longrightarrow> Q q \<Longrightarrow> os_rename os p q w = (e, w1) \<Longrightarrow> R w w1"
    "P p \<Longrightarrow> Q q \<Longrightarrow> os_copy_tree os p q fi w = (e, w1) \<Longrightarrow> R w w1"
  using assms unfolding os_respects_def reflp_def transp_def by (blast, blast, (metis snd_conv)+)

lemma refuse_keeps [simp]: "os_respects os P Q R \<Longrightarrow> keeps_to R (refuse msg) s"
  by (simp add: keeps_to_def refuse_def os_respectsD(1))

lemma mark_written_world [simp]: "fs_world (mark_written os p s) = fs_world s"
  by (simp add: mark_written_def split: sum.splits)

lemma read_keeps: "os_respects os P Q R \<Longrightarrow> keeps_to R (read_file os rp p) s"
  by (auto simp: keeps_to_def read_file_def refuse_def os_respectsD(1) split: sum.splits prod.splits)

lemma write_mkdir_keeps:
  "os_respects os P Q R \<Longrightarrow> P p \<Longrightarrow> write_file_mkdir os p t w = (e, w1) \<Longrightarrow> R w w1"
  by (auto simp: write_file_mkdir_def split: prod.splits option.splits
      dest: os_respectsD(3,4) intro: os_respectsD(2))

lemma write_and_reply_keeps:
  "os_respects os P Q R \<Longrightarrow> P p \<Longrightarrow> keeps_to R (write_and_reply os l p t r) s"
  by (auto simp: keeps_to_def write_and_reply_def refuse_def split: prod.splits option.splits
      dest: write_mkdir_keeps)

lemma move_across_keeps:
  "os_respects os P Q R \<Longrightarrow> P p \<Longrightarrow> Q q \<Longrightarrow> keeps_to R (move_across os p q fi) s"
  by (auto simp: keeps_to_def move_across_def refuse_def split: prod.splits option.splits
      dest: os_respectsD(6,8) intro: os_respectsD(2))

lemma rename_to_keeps:
  assumes "os_respects os P Q R" "P p" "Q q"
  shows "keeps_to R (rename_to os p q fi) s"
proof -
  have m: "R w (snd (os_mkdir_all os (path_dir q) w))" "R w (snd (os_rename os p q w))" for w
    using assms unfolding os_respects_def by blast+
  have a: "R (fs_world t) (fs_world (snd (move_across os p q fi t)))" for t
    using move_across_keeps [OF assms] by (simp add: keeps_to_def)
  show ?thesis
    using m(1) [of "fs_world s"] m(2) [of "snd (os_mkdir_all os (path_dir q) (fs_world s))"]
      a [of "s\<lparr>fs_world := snd (os_rename os p q (snd (os_mkdir_all os (path_dir q) (fs_world s))))\<rparr>"]
    by (auto simp: keeps_to_def rename_to_def refuse_def move_reply_def split: prod.splits option.splits
        intro: os_respectsD(2) [OF assms(1)])
qed

lemma move_file_keeps:
  assumes "os_respects os P Q R" "P p" "Q (final_dest os p q (fs_world s))"
  shows "keeps_to R (move_file os p q) s"
  using rename_to_keeps [OF assms] os_respectsD(1) [OF assms(1)]
  by (auto simp: keeps_to_def move_file_def refuse_def Let_def split: sum.splits)

lemma remove_path_keeps:
  "os_respects os P Q R \<Longrightarrow> P p \<Longrightarrow> keeps_to R (remove_path os rec p) s"
  by (auto simp: keeps_to_def remove_path_def remove_with_def remove_reply_def refuse_def Let_def
      os_respectsD(1) split: sum.splits prod.splits option.splits dest: os_respectsD(5,6))

lemma write_file_keeps:
  assumes "os_respects os P Q R" "P p"
  shows "keeps_to R (write_file os t ov p) s"
proof -
  have "keeps_to R (if c then refuse m else write_and_reply os l p t r) s" for c m l r
    using assms by (simp add: write_and_reply_keeps)
  then show ?thesis
    using write_and_reply_keeps [OF assms] refuse_keeps [OF assms(1)]
    by (auto simp: keeps_to_def write_file_def split: sum.splits option.splits)
qed

lemma edit_file_keeps:
  assumes "os_respects os P Q R" "P p"
  shows "keeps_to R (edit_file os old new every p) s"
  using write_and_reply_keeps [OF assms] refuse_keeps [OF assms(1)]
  by (auto simp: keeps_to_def edit_file_def edit_existing_def Let_def split: sum.splits option.splits)

lemma in_sandbox_keeps:
  assumes "os_respects os P Q R"
    "\<And>q. resolve_within os sroot path (fs_world s) = Inr q \<Longrightarrow> keeps_to R (k q) s"
  shows "keeps_to R (in_sandbox os sroot l path k) s"
  using assms refuse_keeps [OF assms(1)]
  by (auto simp: keeps_to_def in_sandbox_def split: sum.splits)

text \<open>The sandbox grants the paths, and the handlers keep to them.\<close>

lemma granted_contained:
  assumes "resolve_within os sroot path w = Inr p" "sroot \<noteq> []" "file_abs os sroot = Inr ra" "is_abs ra"
  shows "contained os ra w p"
  using resolved [OF assms] unfolding contained_def by metis

lemma contained_is_entry: "contained os ra w p \<Longrightarrow> contained_entry os ra w p"
  by (auto simp: contained_entry_def contained_def)

lemma base_name:
  assumes "is_abs p" "file_clean p = p"
  shows "file_base p = ''/'' \<or> name_segs [file_base p]"
proof -
  have n: "name_segs (rev (clean_stack p))" using abs_stack_names [OF assms(1)] by simp
  show ?thesis
    using base_abs_of [OF n] clean_abs_of [OF assms(1)] assms(2) n
    by (cases "clean_stack p") (simp_all add: name_segs_def)
qed

lemma join_slash:
  assumes "is_abs q" "file_clean q = q"
  shows "file_join q ''/'' = q"
proof -
  let ?s = "q @ ''/'' @ ''/''"
  have q: "q \<noteq> []" "is_abs ?s" using assms(1) by (cases q; simp add: is_abs_def has_prefix_def)+
  have "split_char (CHR ''/'') ?s = split_char (CHR ''/'') q @ split_char (CHR ''/'') ''/''"
    by (simp add: split_char_def split_p_append)
  then have "clean_stack ?s = clean_stack q"
    using q(2) assms(1) by (simp add: clean_stack_def is_abs_def split_char_def)
  then have "file_clean ?s = file_clean q" using clean_abs_of [OF q(2)] clean_abs_of [OF assms(1)] by simp
  then show ?thesis using q(1) assms(2) by (simp add: file_join_def)
qed

lemma final_dest_contained:
  assumes "contained os ra w p" "contained os ra w q"
  shows "contained_entry os ra w (final_dest os p q w)"
proof -
  have p: "is_abs p" "file_clean p = p" and q: "is_abs q" "file_clean q = q"
    using assms by (simp_all add: contained_def inside_def)
  note at = inside_entry [of ra q p] contained_is_entry [OF assms(2)]
  show ?thesis
  proof (cases "final_dest os p q w = q")
    case False
    then obtain fi where fi: "os_stat os q w = Inr fi" "fi_dir fi" "final_dest os p q w = file_join q (file_base p)"
      by (auto simp: final_dest_def split: sum.splits if_splits)
    then have "name_segs [file_base p]" using base_name [OF p] join_slash [OF q] False by auto
    moreover have "inside ra (file_join q (file_base p))" "file_clean (file_join q (file_base p)) = file_join q (file_base p)"
      using at(1,2) assms(2) p q by (auto simp: contained_def)
    ultimately show ?thesis unfolding contained_entry_def fi(3) using fi(1,2) assms(2) by blast
  qed (use at(3) in simp)
qed

lemma fs_handle_keeps:
  assumes "os_respects os (contained os ra (fs_world s)) (contained_entry os ra (fs_world s)) R"
    "sroot \<noteq> []" "file_abs os sroot = Inr ra" "is_abs ra"
  shows "keeps_to R (fs_handle os sroot act ps) s"
proof -
  have g: "resolve_within os sroot path (fs_world s) = Inr q \<Longrightarrow> contained os ra (fs_world s) q" for path q
    by (rule granted_contained [OF _ assms(2-4)])
  note ok = os_respectsD(1) [OF assms(1)] refuse_keeps [OF assms(1)]
  have sand: "keeps_to R (in_sandbox os sroot l a (read_file os rp)) s"
    "keeps_to R (in_sandbox os sroot l a (write_file os t ov)) s"
    "keeps_to R (in_sandbox os sroot l a (edit_file os t u ov)) s"
    "keeps_to R (in_sandbox os sroot l a (remove_path os ov)) s" for l a rp t u ov
    by (intro in_sandbox_keeps [OF assms(1)] read_keeps [OF assms(1)] write_file_keeps [OF assms(1)]
        edit_file_keeps [OF assms(1)] remove_path_keeps [OF assms(1)] g; assumption)+
  have sand2: "keeps_to R (in_sandbox os sroot l a (\<lambda>p. in_sandbox os sroot l b (move_file os p))) s" for l a b
    by (intro in_sandbox_keeps [OF assms(1)] move_file_keeps [OF assms(1)] final_dest_contained g; assumption)
  note parts = ok sand sand2
  have "keeps_to R (handle_read os sroot ps) s" "keeps_to R (handle_write os sroot ps) s"
    "keeps_to R (handle_edit os sroot ps) s" "keeps_to R (handle_remove os sroot ps) s"
    "keeps_to R (handle_move os sroot ps) s"
    using parts unfolding keeps_to_def handle_read_def handle_write_def handle_edit_def
      handle_remove_def handle_move_def Let_def
    by (simp_all split: option.splits)
  then show ?thesis using ok by (simp add: keeps_to_def fs_handle_def)
qed

subsection \<open>How the registry changes\<close>

text \<open>The path of a call that reads, writes or edits one file.\<close>

definition call_path :: "(string \<rightharpoonup> go_value) option \<Rightarrow> string" where
  "call_path ps =
     (let obj = object_of ps
      in aliased ''path'' obj (case string_field ''file_path'' obj of None \<Rightarrow> [] | Some p \<Rightarrow> p))"

text \<open>A full mark that is new stands at the granted path of the action and carries the time the file has when the
  action succeeds; \<open>whole\<close> says whether the action makes full marks at all.\<close>

definition full_marks_true ::
  "'w os \<Rightarrow> bool \<Rightarrow> (string \<Rightarrow> bool) \<Rightarrow> 'w fs \<Rightarrow> fs_reply \<times> 'w fs \<Rightarrow> bool" where
  "full_marks_true os whole granted s out =
     (\<forall>k m. fs_reads (snd out) k = Some m \<longrightarrow> rm_full m \<longrightarrow>
        fs_reads s k = Some m
        \<or> (whole \<and> (\<exists>fields. fst out = FsOk fields)
           \<and> (\<exists>p fi. granted p \<and> abs_path os p = k \<and> os_stat os p (fs_world (snd out)) = Inr fi
                \<and> unix_milli fi = rm_mtime m)))"

lemma mark_read_full:
  assumes "mark_read os p t full reads k = Some m" "rm_full m"
  shows "reads k = Some m \<or> full \<and> k = abs_path os p \<and> rm_mtime m = t"
  using assms by (auto simp: mark_read_def Let_def split: option.splits if_splits)

lemma reads_kept: "fs_reads (snd out) = fs_reads s \<Longrightarrow> full_marks_true os b P s out"
  by (simp add: full_marks_true_def)

lemma refuse_marks [simp]:
  "full_marks_true os b P s (refuse msg s)" "full_marks_true os b P s (refuse msg (s\<lparr>fs_world := w\<rparr>))"
  by (simp_all add: full_marks_true_def refuse_def)

lemma read_marks:
  "full_marks_true os (rp_offset rp \<le> 1 \<and> rp_limit rp \<le> 0) (\<lambda>q. q = p) s (read_file os rp p s)"
proof (cases "\<exists>fi raw. os_stat os p (fs_world s) = Inr fi \<and> os_read_file os p (fs_world s) = Inr raw
    \<and> \<not> fi_dir fi \<and> \<not> (rp_limit rp \<le> 0 \<and> fi_size fi > max_read_size_bytes)")
  case True
  then obtain fi raw where f: "os_stat os p (fs_world s) = Inr fi" "os_read_file os p (fs_world s) = Inr raw"
    "\<not> fi_dir fi" "\<not> (rp_limit rp \<le> 0 \<and> fi_size fi > max_read_size_bytes)" by blast
  obtain fields where "read_file os rp p s = (FsOk fields, s\<lparr>fs_reads :=
      mark_read os p (unix_milli fi) (rp_offset rp \<le> 1 \<and> rp_limit rp \<le> 0) (fs_reads s)\<rparr>)"
    using f
    by (cases "select_lines raw (read_start rp - 1) (read_end rp)") (simp add: read_file_def read_reply_def)
  then show ?thesis
    using f(1) mark_read_full [of os p "unix_milli fi" "rp_offset rp \<le> 1 \<and> rp_limit rp \<le> 0"]
    by (simp add: full_marks_true_def) metis
next
  case False
  then have "fs_reads (snd (read_file os rp p s)) = fs_reads s"
    by (auto simp: read_file_def refuse_def split: sum.splits)
  then show ?thesis by (rule reads_kept)
qed

lemma mark_written_marks:
  "fs_reads (mark_written os p s) k = Some m \<Longrightarrow> rm_full m \<Longrightarrow>
     fs_reads s k = Some m \<or> (\<exists>fi. abs_path os p = k \<and> os_stat os p (fs_world s) = Inr fi
        \<and> unix_milli fi = rm_mtime m)"
  by (auto simp: mark_written_def split: sum.splits dest!: mark_read_full)

lemma write_and_reply_marks [simp]: "full_marks_true os True (\<lambda>q. q = p) s (write_and_reply os l p t r s)"
proof (cases "write_file_mkdir os p t (fs_world s)")
  case (Pair e w)
  show ?thesis
  proof (cases e)
    case None
    show ?thesis
      using mark_written_marks [of os p "s\<lparr>fs_world := w\<rparr>"]
      by (auto simp: full_marks_true_def write_and_reply_def Pair None)
  qed (simp add: write_and_reply_def Pair)
qed

lemma write_file_marks: "full_marks_true os True (\<lambda>q. q = p) s (write_file os t ov p s)"
  by (simp add: write_file_def split: sum.splits option.splits)

lemma edit_file_marks: "full_marks_true os True (\<lambda>q. q = p) s (edit_file os old new every p s)"
  by (simp add: edit_file_def edit_existing_def Let_def split: sum.splits option.splits)

lemma in_sandbox_marks:
  "(\<And>q. full_marks_true os b (\<lambda>p. p = q) s (k q s)) \<Longrightarrow>
     full_marks_true os b (\<lambda>p. resolve_within os sroot path (fs_world s) = Inr p) s (in_sandbox os sroot l path k s)"
  by (auto simp: in_sandbox_def full_marks_true_def refuse_def split: sum.splits)

lemma move_reads [simp]: "fs_reads (snd (move_file os p q s)) = fs_reads s"
  by (simp add: move_file_def rename_to_def move_across_def refuse_def Let_def
      split: sum.splits prod.splits option.splits)

lemma remove_reads [simp]: "fs_reads (snd (remove_path os b p s)) = fs_reads s"
  by (simp add: remove_path_def remove_with_def refuse_def Let_def split: sum.splits prod.splits option.splits)

lemma in_sandbox_reads:
  "(\<And>q. fs_reads (snd (k q s)) = fs_reads s) \<Longrightarrow> fs_reads (snd (in_sandbox os sroot l path k s)) = fs_reads s"
  by (simp add: in_sandbox_def refuse_def split: sum.splits)

text \<open>A read of the whole file, by its parameters.\<close>

definition asks_whole :: "(string \<rightharpoonup> go_value) option \<Rightarrow> bool" where
  "asks_whole ps =
     (case decode_read (object_of ps) of
        None \<Rightarrow> False | Some rp \<Rightarrow> rp_offset rp \<le> 1 \<and> rp_limit rp \<le> 0)"

definition marks_whole :: "string \<Rightarrow> (string \<rightharpoonup> go_value) option \<Rightarrow> bool" where
  "marks_whole act ps = (act = ''write'' \<or> act = ''edit'' \<or> (act = ''read'' \<and> asks_whole ps))"

lemma fs_handle_marks:
  "full_marks_true os (marks_whole act ps) (\<lambda>p. resolve_within os sroot (call_path ps) (fs_world s) = Inr p) s
     (fs_handle os sroot act ps s)"
proof -
  let ?granted = "\<lambda>p. resolve_within os sroot (call_path ps) (fs_world s) = Inr p"
  have read: "full_marks_true os (asks_whole ps) ?granted s (handle_read os sroot ps s)"
  proof (cases "decode_read (object_of ps)")
    case None
    then show ?thesis by (simp add: handle_read_def reads_kept)
  next
    case (Some rp)
    have "full_marks_true os (rp_offset rp \<le> 1 \<and> rp_limit rp \<le> 0)
        (\<lambda>p. resolve_within os sroot (rp_path rp) (fs_world s) = Inr p) s
        (in_sandbox os sroot l (rp_path rp) (read_file os rp) s)" for l
      by (rule in_sandbox_marks) (rule read_marks)
    moreover have "rp_path rp = call_path ps"
      using Some by (auto simp: decode_read_def call_path_def Let_def split: option.splits)
    ultimately show ?thesis using Some by (simp add: handle_read_def asks_whole_def)
  qed
  have "full_marks_true os True ?granted s (in_sandbox os sroot l (call_path ps) (write_file os t ov) s)"
    "full_marks_true os True ?granted s (in_sandbox os sroot l (call_path ps) (edit_file os t u ov) s)" for l t u ov
    by (rule in_sandbox_marks, rule write_file_marks edit_file_marks)+
  then have "full_marks_true os True ?granted s (handle_write os sroot ps s)"
    "full_marks_true os True ?granted s (handle_edit os sroot ps s)"
    by (cases "string_field ''file_path'' (object_of ps)";
        simp add: handle_write_def handle_edit_def call_path_def Let_def reads_kept split: option.splits)+
  moreover have "fs_reads (snd (handle_move os sroot ps s)) = fs_reads s"
    "fs_reads (snd (handle_remove os sroot ps s)) = fs_reads s"
    by (simp_all add: handle_move_def handle_remove_def Let_def in_sandbox_reads refuse_def
        split: option.splits)
  ultimately show ?thesis
    using read by (auto simp: fs_handle_def marks_whole_def reads_kept)
qed

subsection \<open>The guard of changes\<close>

definition may_change :: "'w os \<Rightarrow> string \<Rightarrow> 'w fs \<Rightarrow> bool" where
  "may_change os p s =
     (case os_stat os p (fs_world s) of
        Inl e \<Rightarrow> oe_kind e = OsNotExist
      | Inr fi \<Rightarrow> \<not> fi_dir fi \<and> check_writable os p (unix_milli fi) (fs_reads s) = None)"

lemma refuse_world [simp]: "fs_world (snd (refuse msg s)) = fs_world s"
  by (simp add: refuse_def)

lemma write_file_guarded:
  "fs_world (snd (write_file os t ov p s)) \<noteq> fs_world s \<Longrightarrow> may_change os p s"
  by (simp add: write_file_def may_change_def split: sum.splits if_splits option.splits)

lemma edit_file_guarded:
  "fs_world (snd (edit_file os old new every p s)) \<noteq> fs_world s \<Longrightarrow> may_change os p s"
  by (simp add: edit_file_def may_change_def split: sum.splits if_splits option.splits)

lemma in_sandbox_world:
  "fs_world (snd (in_sandbox os sroot l path k s)) \<noteq> fs_world s \<Longrightarrow>
     \<exists>p. resolve_within os sroot path (fs_world s) = Inr p \<and> fs_world (snd (k p s)) \<noteq> fs_world s"
  by (simp add: in_sandbox_def split: sum.splits)

lemma change_guarded:
  assumes "act = ''write'' \<or> act = ''edit''"
    "fs_world (snd (fs_handle os sroot act ps s)) \<noteq> fs_world s"
  obtains p where "resolve_within os sroot (call_path ps) (fs_world s) = Inr p" "may_change os p s"
proof -
  have "\<exists>k. (\<forall>p. fs_world (snd (k p s)) \<noteq> fs_world s \<longrightarrow> may_change os p s)
      \<and> (\<exists>l. fs_world (snd (in_sandbox os sroot l (call_path ps) k s)) \<noteq> fs_world s)"
    using assms(1)
  proof
    assume w: "act = ''write''"
    show ?thesis using assms(2) write_file_guarded
      by (simp add: w fs_handle_def handle_write_def call_path_def Let_def split: option.splits if_splits)
        blast
  next
    assume w: "act = ''edit''"
    show ?thesis using assms(2) edit_file_guarded
      by (simp add: w fs_handle_def handle_edit_def call_path_def Let_def split: option.splits if_splits)
        blast
  qed
  then show ?thesis using that in_sandbox_world by metis
qed

subsection \<open>Sessions\<close>

text \<open>A session of the organ over one sandbox root: calls, and changes of the world by others in
  between. Its trace has the calls, latest first, each with the world it was made in, its reply and the state
  it left.\<close>

type_synonym 'w fs_step = "string \<times> (string \<rightharpoonup> go_value) option \<times> 'w \<times> fs_reply \<times> 'w fs"

inductive fs_session :: "'w os \<Rightarrow> string \<Rightarrow> 'w fs \<Rightarrow> 'w fs_step list \<Rightarrow> bool" for os sroot where
  session_start: "fs_session os sroot (new_fs w) []"
| session_other: "fs_session os sroot s tr \<Longrightarrow> fs_session os sroot (s\<lparr>fs_world := w\<rparr>) tr"
| session_call: "fs_session os sroot s tr \<Longrightarrow> fs_handle os sroot act ps s = (reply, t) \<Longrightarrow>
    fs_session os sroot t ((act, ps, fs_world s, reply, t) # tr)"

text \<open>A step after which the content of the file at a place is known as of a time: a read of that whole
  file, or a write of it, that the sandbox granted and that succeeded.\<close>

definition step_knows :: "'w os \<Rightarrow> string \<Rightarrow> string \<Rightarrow> int \<Rightarrow> 'w fs_step \<Rightarrow> bool" where
  "step_knows os sroot key time step =
     (case step of (act, ps, w, reply, t) \<Rightarrow>
        marks_whole act ps \<and> (\<exists>fields. reply = FsOk fields)
        \<and> (\<exists>p fi. resolve_within os sroot (call_path ps) w = Inr p \<and> abs_path os p = key
             \<and> os_stat os p (fs_world t) = Inr fi \<and> unix_milli fi = time))"

lemma session_marks:
  "fs_session os sroot s tr \<Longrightarrow> fs_reads s k = Some m \<Longrightarrow> rm_full m \<Longrightarrow>
     \<exists>step\<in>set tr. step_knows os sroot k (rm_mtime m) step"
proof (induction arbitrary: m rule: fs_session.induct)
  case (session_start w)
  then show ?case by (simp add: new_fs_def)
next
  case (session_call s tr act ps reply t)
  then show ?case
    using fs_handle_marks [of os act ps sroot s] unfolding full_marks_true_def
    by (fastforce simp: step_knows_def)
qed simp

text \<open>A call that fails leaves the registry as it was.\<close>

definition fails_clean :: "'w fs \<Rightarrow> fs_reply \<times> 'w fs \<Rightarrow> bool" where
  "fails_clean s out = ((\<exists>fields. fst out = FsOk fields) \<or> fs_reads (snd out) = fs_reads s)"

lemma fails_clean_same: "fs_reads (snd out) = fs_reads s \<Longrightarrow> fails_clean s out"
  by (simp add: fails_clean_def)

lemma refuse_clean [simp]: "fails_clean s (refuse msg s)" "fails_clean s (refuse msg (s\<lparr>fs_world := w\<rparr>))"
  by (simp_all add: fails_clean_def refuse_def)

lemma write_and_reply_clean [simp]: "fails_clean s (write_and_reply os l p t r s)"
  by (simp add: write_and_reply_def fails_clean_def refuse_def split: prod.splits option.splits)

lemma file_actions_clean:
  "fails_clean s (read_file os rp p s)" "fails_clean s (write_file os t ov p s)"
  "fails_clean s (edit_file os old new every p s)"
  by (simp_all add: read_file_def write_file_def edit_file_def edit_existing_def Let_def
      split: sum.splits option.splits prod.splits)
    (simp add: fails_clean_def read_reply_def)

lemma in_sandbox_clean:
  "(\<And>q. fails_clean s (k q s)) \<Longrightarrow> fails_clean s (in_sandbox os sroot l path k s)"
  by (simp add: in_sandbox_def split: sum.splits)

lemma fs_handle_clean: "fails_clean s (fs_handle os sroot act ps s)"
proof -
  have [simp]: "fails_clean s (r, s)" for r by (simp add: fails_clean_same)
  have "fails_clean s (handle_read os sroot ps s)" "fails_clean s (handle_write os sroot ps s)"
    "fails_clean s (handle_edit os sroot ps s)"
    by (simp_all add: handle_read_def handle_write_def handle_edit_def Let_def file_actions_clean
        in_sandbox_clean split: option.splits)
  moreover have "fails_clean s (handle_move os sroot ps s)" "fails_clean s (handle_remove os sroot ps s)"
    by (simp_all add: handle_move_def handle_remove_def Let_def in_sandbox_reads fails_clean_same
        split: option.splits)
  ultimately show ?thesis by (simp add: fs_handle_def fails_clean_same)
qed

text \<open>The actions that do not change the world.\<close>

definition reading_actions :: "string list" where
  "reading_actions = [''read'', ''ls'', ''glob'', ''grep'']"

lemma read_file_world: "fs_world (snd (read_file os rp p s)) = fs_world s"
  by (simp add: read_file_def split: sum.splits prod.splits)

lemma reading_keeps_world:
  assumes "act \<in> set reading_actions"
  shows "fs_world (snd (fs_handle os sroot act ps s)) = fs_world s"
proof -
  have "fs_world (snd (in_sandbox os sroot l a (read_file os rp) s)) = fs_world s" for l a rp
    using in_sandbox_world [of os sroot l a "read_file os rp" s] read_file_world by metis
  then show ?thesis
    using assms by (auto simp: reading_actions_def fs_handle_def handle_read_def split: option.splits)
qed

text \<open>A file is known when the registry has its content as of now. Reading, of whatever part of
  whatever file, keeps it known.\<close>

definition file_known :: "'w os \<Rightarrow> string \<Rightarrow> 'w fs \<Rightarrow> bool" where
  "file_known os p s =
     (case os_stat os p (fs_world s) of
        Inl _ \<Rightarrow> False
      | Inr fi \<Rightarrow> fs_reads s p = Some \<lparr>rm_mtime = unix_milli fi, rm_full = True\<rparr>)"

lemma read_file_reads:
  assumes "abs_path os q = q"
  shows "fs_reads (snd (read_file os rp q s)) = fs_reads s
    \<or> (\<exists>fi full. os_stat os q (fs_world s) = Inr fi
         \<and> fs_reads (snd (read_file os rp q s)) = mark_read os q (unix_milli fi) full (fs_reads s))"
  by (auto simp: read_file_def refuse_def split: sum.splits prod.splits)

lemma mark_read_known:
  "reads p = Some \<lparr>rm_mtime = t, rm_full = True\<rparr> \<Longrightarrow> (abs_path os q = p \<Longrightarrow> t' = t) \<Longrightarrow>
     mark_read os q t' full reads p = Some \<lparr>rm_mtime = t, rm_full = True\<rparr>"
  by (auto simp: mark_read_def Let_def split: option.splits)

lemma read_file_known:
  assumes "file_known os p s" "abs_path os q = q"
  shows "file_known os p (snd (read_file os rp q s))"
proof -
  obtain fi where fi: "os_stat os p (fs_world s) = Inr fi"
    "fs_reads s p = Some \<lparr>rm_mtime = unix_milli fi, rm_full = True\<rparr>"
    using assms(1) by (auto simp: file_known_def split: sum.splits)
  have "fs_reads (snd (read_file os rp q s)) p = fs_reads s p"
    using read_file_reads [OF assms(2), of rp s]
  proof
    assume "\<exists>fi full. os_stat os q (fs_world s) = Inr fi
         \<and> fs_reads (snd (read_file os rp q s)) = mark_read os q (unix_milli fi) full (fs_reads s)"
    then show ?thesis using fi assms(2) mark_read_known [of "fs_reads s" p "unix_milli fi" os q]
      by fastforce
  qed simp
  with fi show ?thesis by (simp add: file_known_def read_file_world)
qed

lemma granted_abs:
  assumes "resolve_within os sroot path w = Inr p" "sroot \<noteq> []" "file_abs os sroot = Inr ra" "is_abs ra"
  shows "abs_path os p = p"
  using granted_contained [OF assms]
  by (auto simp: contained_def inside_def abs_path_def file_abs_def)

lemma in_sandbox_read_known:
  assumes "file_known os p s" "sroot \<noteq> []" "file_abs os sroot = Inr ra" "is_abs ra"
  shows "file_known os p (snd (in_sandbox os sroot l path (read_file os rp) s))"
  using assms(1) read_file_known [OF assms(1)] granted_abs [OF _ assms(2-4)]
  by (simp add: in_sandbox_def refuse_def split: sum.splits)

lemma reading_keeps_known:
  assumes "act \<in> set reading_actions" "file_known os p s"
    "sroot \<noteq> []" "file_abs os sroot = Inr ra" "is_abs ra"
  shows "file_known os p (snd (fs_handle os sroot act ps s))"
  using assms(1,2) in_sandbox_read_known [OF assms(2-5)]
  by (auto simp: reading_actions_def fs_handle_def handle_read_def refuse_def split: option.splits)

lemma whole_read_knows:
  assumes "fs_handle os sroot ''read'' ps s = (FsOk flds, t)" "asks_whole ps"
    "sroot \<noteq> []" "file_abs os sroot = Inr ra" "is_abs ra"
  obtains p where "resolve_within os sroot (call_path ps) (fs_world s) = Inr p" "file_known os p t"
proof -
  obtain rp where rp: "decode_read (object_of ps) = Some rp" "rp_offset rp \<le> 1" "rp_limit rp \<le> 0"
    using assms(2) by (auto simp: asks_whole_def split: option.splits)
  then have path: "call_path ps = rp_path rp"
    by (auto simp: decode_read_def call_path_def Let_def split: option.splits)
  obtain p where p: "resolve_within os sroot (call_path ps) (fs_world s) = Inr p"
    "read_file os rp p s = (FsOk flds, t)"
    using assms(1) rp(1) by (auto simp: fs_handle_def handle_read_def in_sandbox_def refuse_def path
        split: if_splits sum.splits)
  have "file_known os p t"
    using p(2) rp(2,3) granted_abs [OF p(1) assms(3-5)]
    by (auto simp: file_known_def read_file_def refuse_def mark_read_def Let_def
        split: sum.splits prod.splits if_splits option.splits)
  with p(1) that show ?thesis by blast
qed

lemma known_writable:
  assumes "file_known os p s" "os_stat os p (fs_world s) = Inr fi" "abs_path os p = p"
  shows "check_writable os p (unix_milli fi) (fs_reads s) = None"
  using assms by (simp add: file_known_def check_writable_def)

end
