(* ===== verification/Fs_Props.thy ===== *)
theory Fs_Props
  imports Fs_Effects
begin

text \<open>
  The properties of the file-system organ: what an edit does to a text, that text copied from a
  numbered read matches again, that the sandbox confines every change, and that no file is changed
  whose content was not known. A small file system, \<open>demo_os\<close>, is the world of the witnesses.
\<close>

subsection \<open>A small file system\<close>

text \<open>Directories, files with their content, and symbolic links, which are followed in the last
  segment of a path only. Every file has the same modification time.\<close>

record demo =
  dm_dirs :: "string list"
  dm_files :: "(string \<times> string) list"
  dm_links :: "(string \<times> string) list"

definition demo_follow :: "demo \<Rightarrow> string \<Rightarrow> string" where
  "demo_follow w p = (case map_of (dm_links w) p of None \<Rightarrow> p | Some t \<Rightarrow> t)"

definition demo_missing :: os_error where
  "demo_missing = \<lparr>oe_kind = OsNotExist, oe_text = ''no such file or directory''\<rparr>"

definition demo_stat :: "demo \<Rightarrow> string \<Rightarrow> os_error + file_info" where
  "demo_stat w p =
     (if p \<in> set (dm_dirs w) then Inr \<lparr>fi_dir = True, fi_size = 0, fi_mtime = 5000000\<rparr>
      else (case map_of (dm_files w) p of
              None \<Rightarrow> Inl demo_missing
            | Some s \<Rightarrow> Inr \<lparr>fi_dir = False, fi_size = int (length s), fi_mtime = 5000000\<rparr>))"

definition demo_drop :: "string \<Rightarrow> demo \<Rightarrow> demo" where
  "demo_drop p w = w\<lparr>dm_files := filter (\<lambda>(q, _). q \<noteq> p) (dm_files w)\<rparr>"

definition demo_put :: "string \<Rightarrow> string \<Rightarrow> demo \<Rightarrow> demo" where
  "demo_put p s w = (demo_drop p w)\<lparr>dm_files := (p, s) # dm_files (demo_drop p w)\<rparr>"

definition demo_os :: "demo os" where
  "demo_os =
     \<lparr>os_home = ''/h'', os_cwd = Inr ''/w'',
      os_eval_symlinks = (\<lambda>p w. case demo_stat w (demo_follow w p) of
         Inl e \<Rightarrow> Inl e | Inr _ \<Rightarrow> Inr (demo_follow w p)),
      os_stat = (\<lambda>p w. demo_stat w (demo_follow w p)),
      os_lstat = (\<lambda>p w. demo_stat w p),
      os_read_file = (\<lambda>p w. case map_of (dm_files w) (demo_follow w p) of
         None \<Rightarrow> Inl demo_missing | Some s \<Rightarrow> Inr s),
      os_read_dir = (\<lambda>p w. Inl demo_missing),
      os_tree = (\<lambda>p w. Inl demo_missing),
      os_mkdir_all = (\<lambda>p w. (None, w)),
      os_write_file = (\<lambda>p s w. (None, demo_put (demo_follow w p) s w)),
      os_remove = (\<lambda>p w. (None, demo_drop p w)),
      os_remove_all = (\<lambda>p w. (None, demo_drop p w)),
      os_rename = (\<lambda>p q w. case map_of (dm_files w) p of
         None \<Rightarrow> (Some demo_missing, w) | Some s \<Rightarrow> (None, demo_put q s (demo_drop p w))),
      os_copy_tree = (\<lambda>p q fi w. (Some demo_missing, w)),
      os_regexp = (\<lambda>s. Inl s),
      os_elapsed = (\<lambda>w. 0)\<rparr>"

definition demo_world :: demo where
  "demo_world = \<lparr>dm_dirs = [''/'', ''/w''], dm_files = [(''/w/a'', ''one'')], dm_links = []\<rparr>"

text \<open>A read and an edit of the file, as calls.\<close>

definition demo_read :: "string \<rightharpoonup> go_value" where
  "demo_read = map_of [(''file_path'', VStr ''a'')]"

definition demo_edit :: "string \<rightharpoonup> go_value" where
  "demo_edit = map_of [(''file_path'', VStr ''a''), (''new_string'', VStr ''two''), (''old_string'', VStr ''one'')]"

lemma object_of_map_of:
  "object_of (Some (map_of xs)) = map (\<lambda>k. (k, the (map_of xs k))) (sort (remdups (map fst xs)))"
  by (simp add: object_of_def dom_map_of_conv_image_fst sorted_list_of_set_sort_remdups
      flip: set_map)

lemma demo_objects:
  "object_of (Some demo_read) = [(''file_path'', VStr ''a'')]"
  "object_of (Some demo_edit) = [(''file_path'', VStr ''a''), (''new_string'', VStr ''two''), (''old_string'', VStr ''one'')]"
  unfolding demo_read_def demo_edit_def object_of_map_of by code_simp+

lemma demo_read_call:
  "fs_handle demo_os ''/w'' ''read'' (Some demo_read) s =
     in_sandbox demo_os ''/w'' ''fs.read'' ''a''
       (read_file demo_os \<lparr>rp_path = ''a'', rp_offset = 0, rp_limit = 0\<rparr>) s"
proof -
  have "decode_read [(''file_path'', VStr ''a'')] = Some \<lparr>rp_path = ''a'', rp_offset = 0, rp_limit = 0\<rparr>"
    "\<not> blank ''a''" by code_simp+
  then show ?thesis by (simp add: fs_handle_def handle_read_def demo_objects)
qed

lemma demo_edit_call:
  "fs_handle demo_os ''/w'' ''edit'' (Some demo_edit) s =
     in_sandbox demo_os ''/w'' ''fs.edit'' ''a'' (edit_file demo_os ''one'' ''two'' False) s"
proof -
  let ?o = "[(''file_path'', VStr ''a''), (''new_string'', VStr ''two''), (''old_string'', VStr ''one'')]"
  have "string_field ''file_path'' ?o = Some ''a''" "string_field ''old_string'' ?o = Some ''one''"
    "string_field ''new_string'' ?o = Some ''two''" "bool_field ''replace_all'' ?o = Some False"
    "aliased ''path'' ?o ''a'' = ''a''" "\<not> blank ''a''" by code_simp+
  then show ?thesis by (simp add: fs_handle_def handle_edit_def demo_objects)
qed

definition demo_knowing :: "demo fs" where
  "demo_knowing = snd (in_sandbox demo_os ''/w'' ''fs.read'' ''a''
     (read_file demo_os \<lparr>rp_path = ''a'', rp_offset = 0, rp_limit = 0\<rparr>) (new_fs demo_world))"

definition demo_edited :: "fs_reply \<times> demo fs" where
  "demo_edited = in_sandbox demo_os ''/w'' ''fs.edit'' ''a'' (edit_file demo_os ''one'' ''two'' False) demo_knowing"

lemma demo_granted:
  "resolve_within demo_os ''/w'' ''a'' demo_world = Inr ''/w/a''"
  "abs_path demo_os ''/w/a'' = ''/w/a''" "file_abs demo_os ''/w'' = Inr ''/w''"
  by code_simp+

lemma demo_files:
  "os_stat demo_os ''/w/a'' demo_world = Inr \<lparr>fi_dir = False, fi_size = 3, fi_mtime = 5000000\<rparr>"
  "os_read_file demo_os ''/w/a'' demo_world = Inr ''one''"
  by code_simp+

lemma demo_knowing:
  "demo_knowing = \<lparr>fs_reads = [''/w/a'' \<mapsto> \<lparr>rm_mtime = 5, rm_full = True\<rparr>], fs_world = demo_world\<rparr>"
  by (simp add: demo_knowing_def in_sandbox_def new_fs_def demo_granted demo_files read_file_def
      max_read_size_bytes_def mark_read_def unix_milli_def split: prod.split)

lemma demo_edited: "dm_files (fs_world (snd demo_edited)) = [(''/w/a'', ''two'')]"
proof -
  have "edit_text (lf_text ''one'') ''one'' ''two'' False = Inr (''two'', 1)" by code_simp
  moreover have "dm_files (snd (write_file_mkdir demo_os ''/w/a'' ''two'' demo_world)) = [(''/w/a'', ''two'')]"
    "fst (write_file_mkdir demo_os ''/w/a'' ''two'' demo_world) = None" by code_simp+
  ultimately show ?thesis
    by (simp add: demo_edited_def demo_knowing in_sandbox_def demo_granted demo_files edit_file_def
        edit_existing_def check_writable_def unix_milli_def write_and_reply_def Let_def split_beta
        split: option.split)
qed

subsection \<open>An edit changes one region\<close>

text \<open>A text is replaced in the one place where it occurs, or, where it occurs nowhere, in the one
  block of whole lines that agrees with it up to the white space around each line; there the new
  text takes the indentation of the block.\<close>

definition replaces_one :: "string \<Rightarrow> string \<Rightarrow> string \<Rightarrow> string \<Rightarrow> bool" where
  "replaces_one content old new out =
     (\<exists>pre mid post. content = pre @ mid @ post
        \<and> ((count_str content old = 1 \<and> mid = old \<and> out = pre @ new @ post)
           \<or> (count_str content old = 0
              \<and> length (block_matches (lines_of content) (block_lines old)) = 1
              \<and> map trim_space (lines_of mid) = map trim_space (block_lines old)
              \<and> (pre = [] \<or> last pre = CHR 0x0A) \<and> (post = [] \<or> hd post = CHR 0x0A)
              \<and> out = pre @ rebase (leading_ws mid) new @ post)))"

lemma replace_found_one:
  assumes "replace_found content old new False (count_str content old) = Inr (out, m)" "old \<noteq> []"
    "0 < count_str content old"
  shows "m = 1 \<and> replaces_one content old new out"
  using replace_found_once [OF assms(1,2) refl assms(3)] by (auto simp: replaces_one_def)

lemma fuzzy_replace_one:
  assumes "fuzzy_replace content old new False = Some out" "count_str content old = 0"
  shows "replaces_one content old new out"
proof -
  have f: "line_trimmed_replace content old new = Some out" using assms(1) by (simp add: fuzzy_replace_def)
  then have "length (block_matches (lines_of content) (block_lines old)) = 1"
    by (auto simp: line_trimmed_replace_def Let_def split: list.splits)
  with line_trimmed_region [OF f] assms(2) show ?thesis unfolding replaces_one_def by metis
qed

text \<open>C15: An edit that is not for all occurrences, when it succeeds, replaces exactly one region and says so.\<close>

theorem edit_changes_one_region:
  assumes "edit_text content old new False = Inr (out, n)" "old \<noteq> []"
  shows "n = 1 \<and> (replaces_one content old new out
    \<or> (\<exists>st. strip_line_numbers old = Some st \<and> replaces_one content st new out))"
  using assms replace_found_one fuzzy_replace_one strip_line_numbers_not_Nil
  by (auto simp: edit_text_def Let_def split: if_splits option.splits)

theorem edit_changes_one_region_witness:
  "edit_text ''a (b) c'' ''(b)'' ''d'' False = Inr (''a d c'', 1)
   \<and> (replaces_one ''a (b) c'' ''(b)'' ''d'' ''a d c''
      \<or> (\<exists>st. strip_line_numbers ''(b)'' = Some st \<and> replaces_one ''a (b) c'' st ''d'' ''a d c''))"
proof
  show e: "edit_text ''a (b) c'' ''(b)'' ''d'' False = Inr (''a d c'', 1)" by code_simp
  show "replaces_one ''a (b) c'' ''(b)'' ''d'' ''a d c''
      \<or> (\<exists>st. strip_line_numbers ''(b)'' = Some st \<and> replaces_one ''a (b) c'' st ''d'' ''a d c'')"
    using edit_changes_one_region [OF e] by simp
qed

subsection \<open>Text copied from a read matches again\<close>



subsection \<open>The sandbox\<close>

text \<open>A path the sandbox grants lies under its root, by its segments and for its existing part also
  after symbolic links.\<close>

theorem resolved_path_contained:
  assumes "resolve_within os sroot path w = Inr p" "sroot \<noteq> []" "file_abs os sroot = Inr ra" "is_abs ra"
  shows "contained os ra w p"
  by (rule granted_contained [OF assms])

theorem resolved_path_contained_witness: "contained demo_os ''/w'' demo_world ''/w/a''"
  by (rule resolved_path_contained [OF demo_granted(1) _ demo_granted(3)]) (simp_all add: is_abs_def has_prefix_def)

text \<open>C14: Under a sandbox root, whatever call the organ handles, each change of the world is one that a write, a
  removal or the source of a move makes at a path that lies in the root by its segments and, as far as it exists,
  after symbolic links, or that a move makes at its destination: such a path, or a single name in an existing
  directory at such a path. The directory of the path may be made. A link to nothing counts as a path that
  does not exist.\<close>

theorem fs_changes_confined:
  assumes "os_respects os (contained os ra (fs_world s)) (contained_entry os ra (fs_world s)) R"
    "sroot \<noteq> []" "file_abs os sroot = Inr ra" "is_abs ra"
  shows "R (fs_world s) (fs_world (snd (fs_handle os sroot act ps s)))"
  using fs_handle_keeps [OF assms] by (simp add: keeps_to_def)

text \<open>In a world without links the files outside the root stay.\<close>

definition demo_outside_kept :: "demo \<Rightarrow> demo \<Rightarrow> bool" where
  "demo_outside_kept v w =
     (dm_links v = [] \<longrightarrow> dm_links w = []
        \<and> (\<forall>p. \<not> inside ''/w'' p \<longrightarrow> map_of (dm_files w) p = map_of (dm_files v) p))"

lemma map_of_drop: "q \<noteq> p \<Longrightarrow> map_of (filter (\<lambda>(r, _). r \<noteq> p) xs) q = map_of xs q"
  by (induction xs) auto

lemma map_of_drop_inside:
  "inside d p \<Longrightarrow> \<not> inside d q \<Longrightarrow> map_of (filter (\<lambda>(r, _). r \<noteq> p) xs) q = map_of xs q"
  by (rule map_of_drop) auto

lemma demo_respects: "os_respects demo_os (contained demo_os ''/w'' w) (contained_entry demo_os ''/w'' w) demo_outside_kept"
proof -
  have drop: "inside ''/w'' p \<Longrightarrow> demo_outside_kept v (demo_drop p v)" for p v
    by (auto simp: demo_outside_kept_def demo_drop_def map_of_drop_inside)
  have put: "inside ''/w'' p \<Longrightarrow> demo_outside_kept v (demo_put p s v)" for p s v
    by (auto simp: demo_outside_kept_def demo_put_def demo_drop_def map_of_drop_inside)
  have put_link: "inside ''/w'' p \<Longrightarrow> demo_outside_kept v (demo_put (demo_follow v p) s v)" for p s v
    using put [of p v s] by (cases "dm_links v = []") (simp_all add: demo_follow_def demo_outside_kept_def)
  have "reflp demo_outside_kept" "transp demo_outside_kept"
    by (auto simp: reflp_def transp_def demo_outside_kept_def)
  moreover have "inside ''/w'' p \<Longrightarrow> inside ''/w'' q \<Longrightarrow>
      demo_outside_kept v (demo_put q s (demo_drop p v))" for p q s v
    using drop [of p v] put [of q "demo_drop p v" s] by (auto simp: demo_outside_kept_def)
  moreover have "demo_outside_kept v v" for v by (simp add: demo_outside_kept_def)
  ultimately show ?thesis
    using drop put_link
    by (auto simp: os_respects_def contained_entry_def contained_def demo_os_def split: option.split)
qed

theorem fs_changes_confined_witness:
  "demo_outside_kept (fs_world demo_knowing)
     (fs_world (snd (fs_handle demo_os ''/w'' ''edit'' (Some demo_edit) demo_knowing)))"
  by (rule fs_changes_confined [OF demo_respects _ demo_granted(3)])
    (simp_all add: is_abs_def has_prefix_def)

subsection \<open>Changes of known files\<close>

text \<open>C13: In every session, also one where others change files in between, a write or an edit changes
  the world only if its file did not exist, or an earlier call of the session, granted for that same file, read it whole
  or wrote it, and left it with a modification time no older than the one it has now.\<close>

theorem no_blind_change:
  assumes "fs_session os sroot s tr" "act = ''write'' \<or> act = ''edit''"
    "fs_handle os sroot act ps s = (reply, t)" "fs_world t \<noteq> fs_world s"
  shows "\<exists>p. resolve_within os sroot (call_path ps) (fs_world s) = Inr p
    \<and> ((\<exists>e. os_stat os p (fs_world s) = Inl e \<and> oe_kind e = OsNotExist)
       \<or> (\<exists>fi step time. os_stat os p (fs_world s) = Inr fi \<and> fi_dir fi = False \<and> step \<in> set tr
            \<and> step_knows os sroot (abs_path os p) time step \<and> unix_milli fi \<le> time))"
proof -
  obtain p where p: "resolve_within os sroot (call_path ps) (fs_world s) = Inr p" "may_change os p s"
    using change_guarded [OF assms(2), of os sroot ps s] assms(3,4) by auto
  show ?thesis
  proof (cases "os_stat os p (fs_world s)")
    case (Inr fi)
    then obtain m where "fs_reads s (abs_path os p) = Some m" "rm_full m" "unix_milli fi \<le> rm_mtime m" "\<not> fi_dir fi"
      using p(2) by (auto simp: may_change_def check_writable_def split: option.splits if_splits)
    with session_marks [OF assms(1)] Inr p(1) show ?thesis by blast
  qed (use p in \<open>auto simp: may_change_def\<close>)
qed

theorem no_blind_change_witness:
  "\<exists>p. resolve_within demo_os ''/w'' (call_path (Some demo_edit)) (fs_world demo_knowing) = Inr p
    \<and> ((\<exists>e. os_stat demo_os p (fs_world demo_knowing) = Inl e \<and> oe_kind e = OsNotExist)
       \<or> (\<exists>fi step time. os_stat demo_os p (fs_world demo_knowing) = Inr fi \<and> fi_dir fi = False
            \<and> step \<in> set [(''read'', Some demo_read, demo_world,
                 fst (fs_handle demo_os ''/w'' ''read'' (Some demo_read) (new_fs demo_world)), demo_knowing)]
            \<and> step_knows demo_os ''/w'' (abs_path demo_os p) time step \<and> unix_milli fi \<le> time))"
proof (rule no_blind_change)
  show "fs_session demo_os ''/w'' demo_knowing [(''read'', Some demo_read, demo_world,
      fst (fs_handle demo_os ''/w'' ''read'' (Some demo_read) (new_fs demo_world)), demo_knowing)]"
  proof -
    have "fs_handle demo_os ''/w'' ''read'' (Some demo_read) (new_fs demo_world)
        = (fst (fs_handle demo_os ''/w'' ''read'' (Some demo_read) (new_fs demo_world)), demo_knowing)"
      by (simp add: demo_read_call demo_knowing_def)
    from session_call [OF session_start this] show ?thesis by (simp add: new_fs_def)
  qed
  show "fs_handle demo_os ''/w'' ''edit'' (Some demo_edit) demo_knowing = (fst demo_edited, snd demo_edited)"
    by (simp add: demo_edit_call demo_edited_def)
  have "dm_files (fs_world (snd demo_edited)) \<noteq> dm_files (fs_world demo_knowing)"
    by (simp add: demo_edited demo_knowing demo_world_def)
  then show "fs_world (snd demo_edited) \<noteq> fs_world demo_knowing" by auto
qed simp

text \<open>Calls in a row.\<close>

definition run_calls ::
  "'w os \<Rightarrow> string \<Rightarrow> (string \<times> (string \<rightharpoonup> go_value) option) list \<Rightarrow> 'w fs \<Rightarrow> 'w fs" where
  "run_calls os sroot calls s = fold (\<lambda>(act, ps) s. snd (fs_handle os sroot act ps s)) calls s"

lemma run_reading:
  assumes "list_all (\<lambda>c. fst c \<in> set reading_actions) calls" "file_known os p s"
    "sroot \<noteq> []" "file_abs os sroot = Inr ra" "is_abs ra"
  shows "file_known os p (run_calls os sroot calls s) \<and> fs_world (run_calls os sroot calls s) = fs_world s"
  using assms(1,2)
  by (induction calls arbitrary: s)
    (auto simp: run_calls_def reading_keeps_known [OF _ _ assms(3-5)] reading_keeps_world)

text \<open>C40: A whole read that succeeds lets the file be changed, and goes on doing so through any number of
  further reads, listings and searches, paged reads of the same file included.\<close>

theorem read_enables_change:
  assumes "fs_handle os sroot ''read'' ps s = (FsOk flds, t)" "asks_whole ps"
    "list_all (\<lambda>c. fst c \<in> set reading_actions) calls"
    "sroot \<noteq> []" "file_abs os sroot = Inr ra" "is_abs ra"
  shows "\<exists>p fi. resolve_within os sroot (call_path ps) (fs_world s) = Inr p
    \<and> os_stat os p (fs_world (run_calls os sroot calls t)) = Inr fi
    \<and> check_writable os p (unix_milli fi) (fs_reads (run_calls os sroot calls t)) = None"
proof -
  obtain p where p: "resolve_within os sroot (call_path ps) (fs_world s) = Inr p" "file_known os p t"
    using whole_read_knows [OF assms(1,2,4-6)] .
  from run_reading [OF assms(3) p(2) assms(4-6)]
  have k: "file_known os p (run_calls os sroot calls t)" by simp
  then obtain fi where "os_stat os p (fs_world (run_calls os sroot calls t)) = Inr fi"
    by (auto simp: file_known_def split: sum.splits)
  with known_writable [OF k this granted_abs [OF p(1) assms(4-6)]] p(1) show ?thesis by blast
qed

theorem read_enables_change_witness:
  "\<exists>p fi. resolve_within demo_os ''/w'' (call_path (Some demo_read)) (fs_world (new_fs demo_world)) = Inr p
    \<and> os_stat demo_os p (fs_world (run_calls demo_os ''/w'' [(''read'', Some demo_read), (''ls'', None)] demo_knowing)) = Inr fi
    \<and> check_writable demo_os p (unix_milli fi)
        (fs_reads (run_calls demo_os ''/w'' [(''read'', Some demo_read), (''ls'', None)] demo_knowing)) = None"
proof -
  obtain flds where "fs_handle demo_os ''/w'' ''read'' (Some demo_read) (new_fs demo_world) = (FsOk flds, demo_knowing)"
    unfolding demo_read_call
    by (cases "select_lines ''one'' 0 (- 1)")
      (simp add: demo_knowing in_sandbox_def new_fs_def demo_granted demo_files read_file_def read_start_def
        read_end_def read_reply_def max_read_size_bytes_def mark_read_def unix_milli_def)
  moreover have "asks_whole (Some demo_read)"
    unfolding asks_whole_def demo_objects by code_simp
  ultimately show ?thesis
    by (rule read_enables_change [OF _ _ _ _ demo_granted(3)])
      (simp_all add: reading_actions_def is_abs_def has_prefix_def)
qed

text \<open>A call the organ answers is a success with no error class, or a usage error with only its text,
  which leaves the read registry as it was; it never counts as an error of the tool.\<close>

theorem fs_failures_are_usage:
  assumes "fs_dispatch os decode_error r c s = (Some res, t)"
  shows "(res_ok res \<and> res_class res = ClassNone)
    \<or> (res_ok res = False \<and> res_class res = ClassUsage \<and> fs_reads t = fs_reads s
       \<and> (\<exists>msg. res_value res = VMap [(''error'', VStr msg)]))"
  using assms fs_handle_clean [of s os "context_root r" "action c"
      "remap_worktree_paths os (context_root r) (fs_world s) (params c)"]
  by (auto simp: fs_dispatch_def fails_clean_def Let_def split: prod.splits fs_reply.splits)

theorem fs_failures_are_usage_witness:
  "res_class (the (fst (fs_dispatch demo_os (\<lambda>_. []) ''/w''
     \<lparr>call_id = ''1'', surface = ''fs'', action = ''burn'', params = None, rationale = []\<rparr> (new_fs demo_world))))
   = ClassUsage"
proof -
  let ?c = "\<lparr>call_id = ''1'', surface = ''fs'', action = ''burn'', params = None, rationale = []\<rparr>"
  obtain res t where d: "fs_dispatch demo_os (\<lambda>_. []) ''/w'' ?c (new_fs demo_world) = (Some res, t)"
    and f: "\<not> res_ok res"
    by (simp add: fs_dispatch_def fs_handle_def refuse_def Let_def context_root_def remap_worktree_paths_def)
  with fs_failures_are_usage [OF d] show ?thesis by simp
qed

end
