(* ===== verification/Fs_Findings.thy ===== *)
theory Fs_Findings
  imports Fs_Props Agent_Audit
begin

text \<open>
  Behaviour of the file-system organ, and of the guards before it, that differs from what the code's
  comments say, on concrete inputs.
\<close>

subsection \<open>Two spellings of a path\<close>

text \<open>The guards look at \<open>path\<close> before \<open>file_path\<close>, the organ at \<open>file_path\<close> before \<open>path\<close>.\<close>

definition two_paths :: "string \<rightharpoonup> go_value" where
  "two_paths = map_of [(''content'', VStr ''t''), (''file_path'', VStr ''x_test.go''), (''path'', VStr ''a.go'')]"

definition two_path_call :: call where
  "two_path_call = \<lparr>call_id = ''1'', surface = ''fs'', action = ''write'', params = Some two_paths, rationale = []\<rparr>"

lemma two_paths_object:
  "object_of (Some two_paths) = [(''content'', VStr ''t''), (''file_path'', VStr ''x_test.go''), (''path'', VStr ''a.go'')]"
  unfolding two_paths_def object_of_map_of by code_simp

lemma two_paths_write:
  "fs_handle demo_os ''/w'' ''write'' (Some two_paths) s =
     in_sandbox demo_os ''/w'' ''fs.write'' ''x_test.go'' (write_file demo_os ''t'' False) s"
proof -
  let ?o = "[(''content'', VStr ''t''), (''file_path'', VStr ''x_test.go''), (''path'', VStr ''a.go'')]"
  have "string_field ''file_path'' ?o = Some ''x_test.go''" "string_field ''content'' ?o = Some ''t''"
    "bool_field ''overwrite'' ?o = Some False" "aliased ''path'' ?o ''x_test.go'' = ''x_test.go''"
    "\<not> blank ''x_test.go''" by code_simp+
  then show ?thesis by (simp add: fs_handle_def handle_write_def two_paths_object)
qed

text \<open>A write whose two path parameters differ passes both protected-path guards and changes the
  protected file.\<close>

theorem protected_path_bypass:
  "is_protected ''x_test.go'' [''**/*_test.go'']
   \<and> fst (protect_path_guard [''**/*_test.go''] (ctx\<lparr>hc_tool_call := Some two_path_call\<rparr>))
       = ctx\<lparr>hc_tool_call := Some two_path_call\<rparr>
   \<and> fst (protected_path_guard [''**/*_test.go''] (ctx\<lparr>hc_tool_call := Some two_path_call\<rparr>))
       = ctx\<lparr>hc_tool_call := Some two_path_call\<rparr>
   \<and> map_of (dm_files (fs_world (snd (fs_handle demo_os ''/w'' ''write'' (params two_path_call) (new_fs demo_world)))))
       ''/w/x_test.go'' = Some ''t''"
proof (intro conjI)
  have p: "tool_call_path two_path_call = ''a.go''"
    by (simp add: tool_call_path_def string_param_def two_path_call_def two_paths_def)
  have "\<not> is_protected ''a.go'' [''**/*_test.go'']" by code_simp
  with p show "fst (protect_path_guard [''**/*_test.go''] (ctx\<lparr>hc_tool_call := Some two_path_call\<rparr>))
       = ctx\<lparr>hc_tool_call := Some two_path_call\<rparr>"
    "fst (protected_path_guard [''**/*_test.go''] (ctx\<lparr>hc_tool_call := Some two_path_call\<rparr>))
       = ctx\<lparr>hc_tool_call := Some two_path_call\<rparr>"
    by (simp_all add: protect_path_guard_def protected_path_guard_def protected_path_gate_def Let_def
        split: prod.split bool.split)
  show "is_protected ''x_test.go'' [''**/*_test.go'']" by code_simp
  have "resolve_within demo_os ''/w'' ''x_test.go'' demo_world = Inr ''/w/x_test.go''"
    "os_stat demo_os ''/w/x_test.go'' demo_world = Inl demo_missing"
    "fst (write_file_mkdir demo_os ''/w/x_test.go'' ''t'' demo_world) = None"
    "map_of (dm_files (snd (write_file_mkdir demo_os ''/w/x_test.go'' ''t'' demo_world))) ''/w/x_test.go'' = Some ''t''"
    by code_simp+
  then show "map_of (dm_files (fs_world (snd (fs_handle demo_os ''/w'' ''write'' (params two_path_call)
      (new_fs demo_world))))) ''/w/x_test.go'' = Some ''t''"
    by (simp add: two_path_call_def two_paths_write in_sandbox_def new_fs_def write_file_def
        demo_missing_def write_and_reply_def split_beta split: option.split)
qed

text \<open>Nor do the guards know a key in another case, which the organ's decoder matches.\<close>

definition cased_call :: call where
  "cased_call = \<lparr>call_id = ''1'', surface = ''fs'', action = ''write'',
     params = Some (map_of [(''File_Path'', VStr ''x_test.go''), (''content'', VStr ''t'')]), rationale = []\<rparr>"

lemma cased_path_bypass: "tool_call_path cased_call = [] \<and> call_path (params cased_call) = ''x_test.go''"
proof
  show "tool_call_path cased_call = []"
    by (simp add: tool_call_path_def string_param_def cased_call_def)
  have o: "object_of (params cased_call) = [(''File_Path'', VStr ''x_test.go''), (''content'', VStr ''t'')]"
    unfolding cased_call_def call.simps object_of_map_of by code_simp
  show "call_path (params cased_call) = ''x_test.go''"
    unfolding call_path_def o by code_simp
qed

subsection \<open>A link to nothing\<close>

definition link_world :: demo where
  "link_world = \<lparr>dm_dirs = [''/'', ''/w''], dm_files = [], dm_links = [(''/w/l'', ''/etc/x'')]\<rparr>"

text \<open>A symbolic link inside the sandbox whose target does not exist counts as a missing leaf, and the
  write through it creates the target outside.\<close>

theorem dangling_link_escapes:
  "resolve_within demo_os ''/w'' ''l'' link_world = Inr ''/w/l''
   \<and> dm_files (fs_world (snd (in_sandbox demo_os ''/w'' ''fs.write'' ''l'' (write_file demo_os ''t'' False)
       (new_fs link_world)))) = [(''/etc/x'', ''t'')]"
proof
  show r: "resolve_within demo_os ''/w'' ''l'' link_world = Inr ''/w/l''" by code_simp
  have "os_stat demo_os ''/w/l'' link_world = Inl demo_missing"
    "fst (write_file_mkdir demo_os ''/w/l'' ''t'' link_world) = None"
    "dm_files (snd (write_file_mkdir demo_os ''/w/l'' ''t'' link_world)) = [(''/etc/x'', ''t'')]"
    by code_simp+
  with r show "dm_files (fs_world (snd (in_sandbox demo_os ''/w'' ''fs.write'' ''l'' (write_file demo_os ''t'' False)
       (new_fs link_world)))) = [(''/etc/x'', ''t'')]"
    by (simp add: in_sandbox_def new_fs_def write_file_def demo_missing_def write_and_reply_def
        split_beta split: option.split)
qed

subsection \<open>Smaller ones\<close>

text \<open>A negative limit panics as soon as something matches.\<close>

theorem negative_limit_panics:
  assumes "ms \<noteq> []" "gp_head_limit gp = Some n" "n < 0" "gp_offset gp \<le> 0"
  shows "build_grep_count gp ms = FsPanic"
  using assms by (simp add: build_grep_count_def apply_head_limit_def)

text \<open>The pattern \<open>**/x\<close> matches a name that merely ends in x, and a pattern beyond ASCII does not match
  its own text.\<close>

theorem glob_surprises:
  "match_glob ''**/x'' ''ax'' \<and> match_glob [CHR 0xC3, CHR 0xA9] [CHR 0xC3, CHR 0xA9] = False"
  by code_simp

text \<open>In the tolerant replacement a final newline of the new text doubles the one of the block.\<close>

theorem fuzzy_edit_adds_line:
  "edit_text [tab, CHR ''f'', CHR 0x0A, CHR ''x''] [CHR '' '', CHR ''f'', CHR 0x0A] [CHR ''b'', CHR 0x0A] False
     = Inr ([tab, CHR ''b'', CHR 0x0A, CHR 0x0A, CHR ''x''], 1)"
  by code_simp

text \<open>A path that is new, but ends like an existing one, is replaced by it.\<close>

theorem new_path_redirected:
  "remap_key demo_os ''/w'' \<lparr>dm_dirs = [''/'', ''/w'', ''/w/p''], dm_files = [(''/w/p/x'', ''t'')], dm_links = []\<rparr>
     ''file_path'' [''file_path'' \<mapsto> VStr ''a/p/x''] ''file_path'' = Some (VStr ''p/x'')"
  by code_simp

end
