(* ===== verification/Routing.thy ===== *)
theory Routing
  imports Tool_Types
begin

text \<open>
  Duty routing, \<open>internal/routing\<close>: which job profile a duty runs under. Two heuristics on the text
  of the duty come before the classifier, whose label a table maps to a profile; what maps to nothing
  and every error falls back. \<open>evaluate\<close> scores a router against labelled cases. The classifier is a
  function of the world, in production a dispatch of a tool provider.
\<close>

subsection \<open>The heuristics\<close>

definition is_alphanum :: "char \<Rightarrow> bool" where
  "is_alphanum b =
     (let n = (of_char b :: nat) in (97 \<le> n \<and> n \<le> 122) \<or> (48 \<le> n \<and> n \<le> 57))"

lemma drop_index_shorter: "str_index d ext = Some i \<Longrightarrow> ext \<noteq> [] \<Longrightarrow> length (drop (i + length ext) d) < length d"
  by (cases d; cases ext) auto

text \<open>The search goes on behind an occurrence that a letter or digit follows. For an empty extension,
  which no caller passes, it would not end.\<close>

function has_file_ext :: "string \<Rightarrow> string \<Rightarrow> bool" where
  "has_file_ext d ext =
     (if ext = [] then False
      else (case str_index d ext of
              None \<Rightarrow> False
            | Some i \<Rightarrow>
                (let rest = drop (i + length ext) d
                 in (case rest of [] \<Rightarrow> True | c # _ \<Rightarrow> \<not> is_alphanum c) \<or> has_file_ext rest ext)))"
  by pat_completeness auto
termination by (relation "measure (\<lambda>(d, ext). length d)") (auto dest: drop_index_shorter)

declare has_file_ext.simps [simp del]

definition coding_file_exts :: "string list" where
  "coding_file_exts =
     [''.go'', ''.py'', ''.ts'', ''.tsx'', ''.js'', ''.jsx'', ''.rs'', ''.java'', ''.rb'',
      ''.c'', ''.cc'', ''.cpp'', ''.h'', ''.hpp'', ''.cs'', ''.kt'', ''.swift'', ''.scala'', ''.sh'', ''.sql'']"

definition coding_test_runners :: "string list" where
  "coding_test_runners =
     [''go test'', ''unit test'', ''pytest'', ''cargo test'', ''npm test'', ''go build'', ''go vet'']"

definition coding_path_segments :: "string list" where
  "coding_path_segments = [''internal/'', ''src/'', ''/pkg/'', ''/cmd/'', ''/migrations'', ''_test.'']"

definition coding_verbs :: "string list" where
  "coding_verbs =
     [''implement'', ''refactor'', ''debug'', ''patch'', ''rewrite'', ''fix '', ''edit '', ''modify'', ''create'',
      ''add '', ''added'', ''adding'', ''write '', ''writing'']"

definition coding_nouns :: "string list" where
  "coding_nouns =
     [''function'', ''method'', ''test'', ''bug'', ''compile'', ''build error'', ''code'', ''module'', ''package'',
      ''import'', ''struct'', ''class'', ''endpoint'', ''regression'', ''guard'']"

definition looks_like_coding :: "string \<Rightarrow> bool" where
  "looks_like_coding duty =
     (let d = to_lower duty
      in list_ex (has_file_ext d) coding_file_exts
         \<or> contains_any d coding_test_runners \<or> contains_any d coding_path_segments
         \<or> (contains_any d coding_verbs \<and> contains_any d coding_nouns))"

definition test_authoring_verbs :: "string list" where
  "test_authoring_verbs =
     [''add '', ''added'', ''adding'', ''write '', ''writing'', ''author'', ''create'', ''creating'', ''extend'', ''extending'']"

definition test_revision_verbs :: "string list" where
  "test_revision_verbs =
     [''improve'', ''strengthen'', ''expand'', ''enhance'', ''harden'', ''broaden'', ''flesh out'']"

definition test_weakness_signals :: "string list" where
  "test_weakness_signals = [''too simple'', ''too weak'', ''too shallow'', ''too thin'', ''too basic'']"

definition test_nouns :: "string list" where
  "test_nouns = [''test'', ''coverage'']"

definition production_fix_signals :: "string list" where
  "production_fix_signals =
     [''fix '', ''fixing'', ''bug'', ''failing'', ''make it pass'', ''make the test pass'', ''debug'', ''passing'',
      ''repair'', ''broken'', ''investigate'', ''failed to'', ''why '', ''root-cause'', ''root cause'', ''diagnose'']"

definition production_impl_signals :: "string list" where
  "production_impl_signals = [''implement'', ''implementation'']"

definition looks_like_test_authoring :: "string \<Rightarrow> bool" where
  "looks_like_test_authoring duty =
     (let d = to_lower duty
      in if contains_any d production_fix_signals then False
         else if contains_any d production_impl_signals then False
         else if \<not> contains_any d test_nouns then False
         else contains_any d test_authoring_verbs \<or> contains_any d test_revision_verbs
           \<or> contains_any d test_weakness_signals)"

subsection \<open>The classifier\<close>

datatype classify_error = DispatchFailed go_value | NotAnObject go_value | NoLabel go_value

type_synonym 'w classifier = "string \<Rightarrow> 'w \<Rightarrow> (classify_error + string) \<times> 'w"

definition classify_call :: "string \<Rightarrow> call" where
  "classify_call duty =
     \<lparr>call_id = [], surface = ''measure'', action = ''classify_session_routing_trigger'',
      params = Some [''user_input'' \<mapsto> VStr duty], rationale = []\<rparr>"

definition mcp_classify :: "(call \<Rightarrow> 'w \<Rightarrow> result \<times> 'w) \<Rightarrow> 'w classifier" where
  "mcp_classify dispatch duty w =
     (case dispatch (classify_call duty) w of
        (r, w1) \<Rightarrow>
          (if \<not> res_ok r then Inl (DispatchFailed (res_value r))
           else (case res_value r of
                   VMap body \<Rightarrow>
                     (case map_of body ''label'' of
                        Some (VStr label) \<Rightarrow> if label = [] then Inl (NoLabel (res_value r)) else Inr label
                      | _ \<Rightarrow> Inl (NoLabel (res_value r)))
                 | v \<Rightarrow> Inl (NotAnObject v)), w1))"

subsection \<open>Routing\<close>

record 'w duty_router =
  dr_classify :: "'w classifier"
  dr_table :: "(string \<times> string) list"
  dr_fallback :: string
  dr_coding_profile :: string
  dr_test_authoring_profile :: string

definition default_table :: "(string \<times> string) list" where
  "default_table =
     [(''chain-execution'', ''task-lifecycle''), (''execute-document'', ''doc-filing''),
      (''retirement-dispatch'', ''doc-filing''), (''tool-suggest'', ''file-sort''),
      (''role-invoke'', ''synthesis''), (''context-handoff'', ''synthesis''), (''no-trigger'', [])]"

definition new_duty_router :: "'w classifier \<Rightarrow> (string \<times> string) list \<Rightarrow> string \<Rightarrow> 'w duty_router" where
  "new_duty_router c table fallback =
     \<lparr>dr_classify = c, dr_table = (if table = [] then default_table else table),
      dr_fallback = (if fallback = [] then ''task-lifecycle'' else fallback),
      dr_coding_profile = ''atomic-coding-chain'', dr_test_authoring_profile = ''test-authoring-chain''\<rparr>"

record decision =
  d_profile :: string
  d_label :: string
  d_fellback :: bool

definition route :: "'w duty_router \<Rightarrow> string \<Rightarrow> 'w \<Rightarrow> (decision \<times> classify_error option) \<times> 'w" where
  "route r duty w =
     (if dr_test_authoring_profile r \<noteq> [] \<and> looks_like_test_authoring duty
      then ((\<lparr>d_profile = dr_test_authoring_profile r, d_label = ''test-authoring-heuristic'', d_fellback = False\<rparr>, None), w)
      else if dr_coding_profile r \<noteq> [] \<and> looks_like_coding duty
      then ((\<lparr>d_profile = dr_coding_profile r, d_label = ''coding-heuristic'', d_fellback = False\<rparr>, None), w)
      else (case dr_classify r duty w of
              (Inl e, w1) \<Rightarrow> ((\<lparr>d_profile = dr_fallback r, d_label = [], d_fellback = True\<rparr>, Some e), w1)
            | (Inr label, w1) \<Rightarrow>
                ((case map_of (dr_table r) label of
                    Some p \<Rightarrow>
                      if p \<noteq> [] then \<lparr>d_profile = p, d_label = label, d_fellback = False\<rparr>
                      else \<lparr>d_profile = dr_fallback r, d_label = label, d_fellback = True\<rparr>
                  | None \<Rightarrow> \<lparr>d_profile = dr_fallback r, d_label = label, d_fellback = True\<rparr>, None), w1)))"

subsection \<open>Evaluation\<close>

definition tier_rank :: "string \<Rightarrow> nat" where
  "tier_rank t = (if t = ''mid'' then 1 else if t = ''strong'' then 2 else 0)"

record quality =
  q_total :: int
  q_correct :: int
  q_over :: int
  q_under :: int
  q_correct_rate :: rat
  q_over_rate :: rat
  q_under_rate :: rat

text \<open>One case is a duty and the profile the oracle expects; the error names the duty, the chosen and
  the expected profile.\<close>

type_synonym tally3 = "int \<times> int \<times> int"

fun score_cases ::
  "'w duty_router \<Rightarrow> (string \<Rightarrow> string option) \<Rightarrow> (string \<times> string) list \<Rightarrow> tally3 \<Rightarrow> 'w
     \<Rightarrow> ((string \<times> string \<times> string) + tally3) \<times> 'w" where
  "score_cases r tier_of [] t w = (Inr t, w)"
| "score_cases r tier_of ((duty, expected) # cs) (ok, over, undr) w =
     (case route r duty w of
        ((d, _), w1) \<Rightarrow>
          if d_profile d = expected then score_cases r tier_of cs (ok + 1, over, undr) w1
          else (case (tier_of (d_profile d), tier_of expected) of
                  (Some chosen, Some want) \<Rightarrow>
                    if tier_rank chosen > tier_rank want
                    then score_cases r tier_of cs (ok, over + 1, undr) w1
                    else score_cases r tier_of cs (ok, over, undr + 1) w1
                | _ \<Rightarrow> (Inl (duty, d_profile d, expected), w1)))"

definition evaluate ::
  "'w duty_router \<Rightarrow> (string \<times> string) list \<Rightarrow> (string \<Rightarrow> string option) \<Rightarrow> 'w
     \<Rightarrow> ((string \<times> string \<times> string) + quality) \<times> 'w" where
  "evaluate r cases tier_of w =
     (case score_cases r tier_of cases (0, 0, 0) w of
        (Inl e, w1) \<Rightarrow> (Inl e, w1)
      | (Inr (ok, over, undr), w1) \<Rightarrow>
          (let n = int (length cases); rate = (\<lambda>k. if n > 0 then of_int k / of_int n else 0)
           in (Inr \<lparr>q_total = n, q_correct = ok, q_over = over, q_under = undr,
                 q_correct_rate = rate ok, q_over_rate = rate over, q_under_rate = rate undr\<rparr>, w1)))"

section \<open>Properties\<close>

text \<open>Properties of duty routing: the file-extension test, the order of the lanes, the scoring.\<close>

text \<open>The extension test holds exactly when the extension occurs with no letter or digit behind it.\<close>

theorem has_file_ext_iff:
  assumes "ext = CHR ''.'' # e" "CHR ''.'' \<notin> set e"
  shows "has_file_ext d ext \<longleftrightarrow>
    (\<exists>pre post. d = pre @ ext @ post \<and> (post = [] \<or> is_alphanum (hd post) = False))"
proof (induction "length d" arbitrary: d rule: less_induct)
  case less
  have ne: "ext \<noteq> []" using assms by simp
  show ?case
  proof (cases "str_index d ext")
    case None
    then have "d \<noteq> pre @ ext @ post" for pre post using None index_None contains_iff by metis
    with None show ?thesis by (subst has_file_ext.simps) auto
  next
    case (Some i)
    define rest where "rest = drop (i + length ext) d"
    have d0: "d = take i d @ ext @ rest" using index_split [OF Some] by (simp add: rest_def)
    then obtain t where d: "d = t @ ext @ rest" and t: "length t = i"
      using ne by (metis add_leE append.right_neutral append_eq_conv_conj drop_all le_cases length_take
          min.absorb2 rest_def self_append_conv take_all)
    have ih: "has_file_ext rest ext \<longleftrightarrow>
        (\<exists>pre post. rest = pre @ ext @ post \<and> (post = [] \<or> is_alphanum (hd post) = False))"
      using less drop_index_shorter [OF Some ne] by (simp add: rest_def)
    have step: "has_file_ext d ext \<longleftrightarrow> (rest = [] \<or> is_alphanum (hd rest) = False) \<or> has_file_ext rest ext"
      by (subst has_file_ext.simps) (auto simp: ne Some rest_def [symmetric] Let_def split: list.split)
    have parts: "post = rest \<or> (\<exists>pre'. rest = pre' @ ext @ post)" if p: "d = pre @ ext @ post" for pre post
    proof -
      have "i \<le> length pre" using index_prefix_free [OF Some p ne] .
      moreover have "\<not> (i < length pre \<and> length pre < i + length ext)"
      proof
        assume l: "i < length pre \<and> length pre < i + length ext"
        have "d ! length pre = CHR ''.''" using p assms(1) by simp
        moreover have "d ! length pre = ext ! (length pre - i)"
          using l t by (simp add: d nth_append less_diff_conv2)
        moreover have "length pre - i < length ext" "0 < length pre - i" using l by auto
        then have "ext ! (length pre - i) \<in> set e" using assms(1) by (auto simp: nth_Cons')
        ultimately show False using assms(2) by metis
      qed
      ultimately have "length pre = i \<or> i + length ext \<le> length pre" by auto
      then show ?thesis
      proof
        assume "length pre = i"
        then show ?thesis using p by (simp add: rest_def)
      next
        assume l: "i + length ext \<le> length pre"
        have "rest = drop (i + length ext) pre @ ext @ post" using p l by (simp add: rest_def)
        then show ?thesis by blast
      qed
    qed
    show ?thesis unfolding step ih
    proof
      assume "(rest = [] \<or> is_alphanum (hd rest) = False)
          \<or> (\<exists>pre post. rest = pre @ ext @ post \<and> (post = [] \<or> is_alphanum (hd post) = False))"
      then show "\<exists>pre post. d = pre @ ext @ post \<and> (post = [] \<or> is_alphanum (hd post) = False)"
      proof
        assume "rest = [] \<or> is_alphanum (hd rest) = False"
        with d show ?thesis by blast
      next
        assume "\<exists>pre post. rest = pre @ ext @ post \<and> (post = [] \<or> is_alphanum (hd post) = False)"
        then obtain pre post where "rest = pre @ ext @ post" "post = [] \<or> is_alphanum (hd post) = False"
          by blast
        then show ?thesis by (intro exI [of _ "t @ ext @ pre"] exI [of _ post]) (simp add: d)
      qed
    next
      assume "\<exists>pre post. d = pre @ ext @ post \<and> (post = [] \<or> is_alphanum (hd post) = False)"
      then show "(rest = [] \<or> is_alphanum (hd rest) = False)
          \<or> (\<exists>pre post. rest = pre @ ext @ post \<and> (post = [] \<or> is_alphanum (hd post) = False))"
        using parts by blast
    qed
  qed
qed

theorem has_file_ext_iff_witness:
  "has_file_ext ''abs.gopher'' ''.go'' \<longleftrightarrow>
    (\<exists>pre post. ''abs.gopher'' = pre @ ''.go'' @ post \<and> (post = [] \<or> is_alphanum (hd post) = False))"
  by (rule has_file_ext_iff [of _ "''go''"]) simp_all

subsection \<open>The lanes\<close>

definition lane :: "'w duty_router \<Rightarrow> string \<Rightarrow> string option" where
  "lane r duty =
     (if dr_test_authoring_profile r \<noteq> [] \<and> looks_like_test_authoring duty then Some (dr_test_authoring_profile r)
      else if dr_coding_profile r \<noteq> [] \<and> looks_like_coding duty then Some (dr_coding_profile r) else None)"

text \<open>Routing always yields a profile. A duty that reads as production work never takes the test-authoring
  lane; a lane decides without asking the classifier; and without one the label's profile, or else the
  fallback, is taken, the latter also on every error of the classifier.\<close>

theorem route_decides:
  "route (new_duty_router c table fb) duty w =
     (let r = new_duty_router c table fb
      in case lane r duty of
           Some p \<Rightarrow> ((\<lparr>d_profile = p,
             d_label = (if looks_like_test_authoring duty then ''test-authoring-heuristic'' else ''coding-heuristic''),
             d_fellback = False\<rparr>, None), w)
         | None \<Rightarrow>
             (case c duty w of
                (Inl e, w1) \<Rightarrow> ((\<lparr>d_profile = dr_fallback r, d_label = [], d_fellback = True\<rparr>, Some e), w1)
              | (Inr label, w1) \<Rightarrow>
                  (let p = (case map_of (dr_table r) label of None \<Rightarrow> [] | Some p \<Rightarrow> p)
                   in ((\<lparr>d_profile = (if p = [] then dr_fallback r else p), d_label = label, d_fellback = (p = [])\<rparr>, None), w1))))
   \<and> d_profile (fst (fst (route (new_duty_router c table fb) duty w))) \<noteq> []
   \<and> (contains_any (to_lower duty) (production_fix_signals @ production_impl_signals)
      \<longrightarrow> lane (new_duty_router c table fb) duty \<noteq> Some ''test-authoring-chain'')"
  by (auto simp: route_def new_duty_router_def lane_def Let_def looks_like_test_authoring_def contains_any_def
      split: option.split sum.split prod.split)

theorem route_decides_witness:
  "lane (new_duty_router c [] []) ''add a test for the prefix function'' \<noteq> Some ''test-authoring-chain''
   \<and> d_profile (fst (fst (route (new_duty_router c [] []) ''add a test for the prefix function'' w))) \<noteq> []"
proof -
  have "contains_any (to_lower ''add a test for the prefix function'') (production_fix_signals @ production_impl_signals)"
    by code_simp
  then show ?thesis
    using route_decides [of c "[]" "[]" "''add a test for the prefix function''" w] by blast
qed

text \<open>The fix signals are substrings: a duty to write a test for something called prefix goes to the lane that
  protects tests.\<close>

theorem prefix_reads_as_fix:
  "lane (new_duty_router c [] []) ''add a test for the prefix function'' = Some ''atomic-coding-chain''"
proof -
  have "looks_like_test_authoring ''add a test for the prefix function'' = False"
    "looks_like_coding ''add a test for the prefix function'' = True" by code_simp+
  then show ?thesis by (simp add: lane_def new_duty_router_def)
qed

subsection \<open>Scoring\<close>

lemma score_cases_counts:
  "score_cases r tier_of cs (ok, over, undr) w = (Inr (ok', over', undr'), w1) \<Longrightarrow>
     ok' + over' + undr' = ok + over + undr + int (length cs) \<and> ok \<le> ok' \<and> over \<le> over' \<and> undr \<le> undr'"
proof (induction cs arbitrary: ok over undr w)
  case (Cons c cs)
  obtain duty expected where c: "c = (duty, expected)" by (cases c)
  obtain d e w2 where d: "route r duty w = ((d, e), w2)" by (metis prod.exhaust)
  show ?case
    using Cons.prems Cons.IH [of "ok + 1" over undr w2] Cons.IH [of ok "over + 1" undr w2]
      Cons.IH [of ok over "undr + 1" w2]
    by (auto simp: c d split: if_splits option.splits)
qed simp

text \<open>An evaluation accounts for every case once, so the three rates are fractions that sum to one.\<close>

theorem evaluate_accounts:
  assumes "evaluate r cases tier_of w = (Inr q, w1)"
  shows "q_total q = int (length cases) \<and> q_correct q + q_over q + q_under q = q_total q
    \<and> q_correct_rate q + q_over_rate q + q_under_rate q = (if cases = [] then 0 else 1)
    \<and> 0 \<le> q_correct_rate q \<and> 0 \<le> q_over_rate q \<and> 0 \<le> q_under_rate q"
proof -
  obtain ok over undr where s: "score_cases r tier_of cases (0, 0, 0) w = (Inr (ok, over, undr), w1)"
    using assms by (auto simp: evaluate_def Let_def split: prod.splits sum.splits)
  have c: "ok + over + undr = int (length cases)" "0 \<le> ok" "0 \<le> over" "0 \<le> undr"
    using score_cases_counts [OF s] by auto
  have "(of_int ok + of_int over + of_int undr :: rat) = of_int (int (length cases))"
    using arg_cong [OF c(1), of "of_int :: int \<Rightarrow> rat"] by simp
  then have "(of_int ok / of_nat (length cases) + of_int over / of_nat (length cases)
      + of_int undr / of_nat (length cases) :: rat) = 1" if "cases \<noteq> []"
    using that by (simp flip: add_divide_distrib)
  with assms s c show ?thesis by (auto simp: evaluate_def Let_def)
qed

definition demo_duty_router :: "unit duty_router" where
  "demo_duty_router = new_duty_router (\<lambda>d w. (Inr ''tool-suggest'', w)) [] []"

theorem evaluate_accounts_witness:
  "(\<exists>q. fst (evaluate demo_duty_router [(''sort files'', ''file-sort'')] (\<lambda>p. Some ''local'') ()) = Inr q
     \<and> q_correct_rate q + q_over_rate q + q_under_rate q = 1)"
proof -
  have "evaluate demo_duty_router [(''sort files'', ''file-sort'')] (\<lambda>p. Some ''local'') ()
      = (Inr \<lparr>q_total = 1, q_correct = 1, q_over = 0, q_under = 0, q_correct_rate = 1, q_over_rate = 0,
           q_under_rate = 0\<rparr>, ())" by code_simp
  from evaluate_accounts [OF this] this show ?thesis by simp
qed

end
