(* ===== verification/Session_Store.thy ===== *)
theory Session_Store
  imports Go_Prelude "HOL-Library.List_Lexorder" "HOL-Library.Char_ord"
begin

text \<open>
  The session store, \<open>internal/session\<close>: one database per session with its header, messages, tool
  calls, escalations, costs and turns (\<open>store.go\<close>), and the tree of sessions that spawned each other
  (\<open>tree.go\<close>). A database is a record of its tables; a statement is what SQLite documents of it, and
  may instead fail with an error of the driver, which is an argument and leaves the tables alone. The
  time stamp of a statement is an argument too. Costs are exact rationals.
\<close>

subsection \<open>Rows\<close>

definition schema_version :: int where
  "schema_version = 3"

record header =
  h_run_id :: string
  h_created_at :: string
  h_model_cheap :: string
  h_model_strong :: string
  h_project :: string
  h_skills_digest :: string
  h_status :: string
  h_parent_run_id :: string
  h_profile :: string
  h_duty :: string
  h_selection :: string

record message_row =
  mr_id :: int
  mr_turn :: int
  mr_role :: string
  mr_content :: string
  mr_model :: string
  mr_created_at :: string

record cost_row =
  cr_turn :: int
  cr_model :: string
  cr_input :: int
  cr_output :: int
  cr_usd :: rat
  cr_created_at :: string

record tool_call_row =
  tr_turn :: int
  tr_surface :: string
  tr_action :: string
  tr_params_json :: string
  tr_result_json :: string
  tr_ok :: bool
  tr_error_class :: string
  tr_latency_ms :: int
  tr_model :: string
  tr_span_id :: string
  tr_created_at :: string

record turn_row =
  tn_index :: int
  tn_model :: string
  tn_started_at :: string
  tn_ended_at :: string
  tn_signals_json :: string

record escalation =
  es_turn :: int
  es_edge :: string
  es_trigger :: string
  es_from :: string
  es_to :: string

text \<open>A column that may be NULL holds an option: \<open>nullable\<close> stores the empty string as NULL, and a read
  turns NULL into the empty string.\<close>

definition nullable :: "string \<Rightarrow> string option" where
  "nullable s = (if s = [] then None else Some s)"

definition null_string :: "string option \<Rightarrow> string" where
  "null_string c = (case c of None \<Rightarrow> [] | Some s \<Rightarrow> s)"

definition bool_to_int :: "bool \<Rightarrow> int" where
  "bool_to_int b = (if b then 1 else 0)"

text \<open>The tables, in the order of insertion, with the sequences of the automatic keys.\<close>

type_synonym message_col = "int \<times> int \<times> string \<times> string \<times> string option \<times> string"
type_synonym tool_call_col =
  "int \<times> int \<times> (string \<times> string) \<times> (string \<times> string) \<times> int \<times> string option \<times> int \<times> string option \<times> string option \<times> string"
type_synonym escalation_col = "int \<times> int \<times> string \<times> string option \<times> string \<times> string \<times> string option \<times> string"
type_synonym cost_col = "int \<times> int \<times> string \<times> int \<times> int \<times> rat \<times> string"
type_synonym turn_col = "int \<times> string \<times> string \<times> string option \<times> string option"

record session_col =
  sc_header :: header
  sc_parent :: "string option"

record db =
  db_version :: int
  db_session :: "session_col list"
  db_messages :: "message_col list"
  db_tool_calls :: "tool_call_col list"
  db_escalations :: "escalation_col list"
  db_costs :: "cost_col list"
  db_turns :: "turn_col list"

definition next_id :: "(int \<times> 'a) list \<Rightarrow> int" where
  "next_id rows = (if rows = [] then 1 else Max (set (map fst rows)) + 1)"

subsection \<open>Creating and opening\<close>

text \<open>A directory of databases: each file, by its run id, is one, or gives the error of reading it.\<close>

type_synonym session_dir = "(string \<times> (string + db)) list"

definition empty_db :: db where
  "empty_db = \<lparr>db_version = 0, db_session = [], db_messages = [], db_tool_calls = [], db_escalations = [],
     db_costs = [], db_turns = []\<rparr>"

definition header_col :: "string \<Rightarrow> string \<Rightarrow> header \<Rightarrow> session_col" where
  "header_col rid stamp h =
     \<lparr>sc_header = h\<lparr>h_run_id := rid, h_created_at := stamp, h_status := ''open''\<rparr>,
      sc_parent = nullable (h_parent_run_id h)\<rparr>"

text \<open>The step at which the driver fails, if it does: making the directory, opening, applying the schema,
  setting its version, inserting the header. What was applied before the failure stays in the file.\<close>

datatype create_fault = FaultMkdir string | FaultOpen string | FaultSchema string | FaultVersion string | FaultInsert string

definition db_path :: "string \<Rightarrow> string \<Rightarrow> string" where
  "db_path dir rid = dir @ ''/'' @ rid @ ''.db''"

definition create_session ::
  "string \<Rightarrow> header \<Rightarrow> string \<Rightarrow> string \<Rightarrow> create_fault option \<Rightarrow> session_dir \<Rightarrow> (string + string) \<times> session_dir" where
  "create_session dir h fresh stamp fault files =
     (let rid = (if h_run_id h = [] then fresh else h_run_id h);
          put = (\<lambda>d. (rid, Inr d) # files);
          versioned = empty_db\<lparr>db_version := schema_version\<rparr>
      in case fault of
           Some (FaultMkdir e) \<Rightarrow> (Inl e, files)
         | _ \<Rightarrow>
             if map_of files rid \<noteq> None then (Inl (''session DB already exists: '' @ db_path dir rid), files)
             else (case fault of
                     Some (FaultOpen e) \<Rightarrow> (Inl e, files)
                   | Some (FaultSchema e) \<Rightarrow> (Inl (''apply schema: '' @ e), put empty_db)
                   | Some (FaultVersion e) \<Rightarrow> (Inl e, put empty_db)
                   | Some (FaultInsert e) \<Rightarrow> (Inl e, put versioned)
                   | _ \<Rightarrow> (Inr rid, put (versioned\<lparr>db_session := [header_col rid stamp h]\<rparr>))))"

definition open_session :: "string \<Rightarrow> session_dir \<Rightarrow> string \<Rightarrow> string + db" where
  "open_session dir files rid =
     (case map_of files rid of
        None \<Rightarrow> Inl (''no session DB at '' @ db_path dir rid)
      | Some (Inl e) \<Rightarrow> Inl e
      | Some (Inr d) \<Rightarrow>
          if db_version d \<noteq> schema_version
          then Inl (''session DB schema version '' @ itoa (db_version d) @ '' != supported '' @ itoa schema_version)
          else Inr d)"

subsection \<open>Writing\<close>

type_synonym 'a exec = "string option \<Rightarrow> db \<Rightarrow> (string + 'a) \<times> db"

definition exec :: "'a \<Rightarrow> (db \<Rightarrow> db) \<Rightarrow> 'a exec" where
  "exec x f fault d = (case fault of Some e \<Rightarrow> (Inl e, d) | None \<Rightarrow> (Inr x, f d))"

definition append_message :: "string \<Rightarrow> int \<Rightarrow> string \<Rightarrow> string \<Rightarrow> string \<Rightarrow> int exec" where
  "append_message stamp turn role content model fault d =
     (let i = next_id (db_messages d)
      in exec i (\<lambda>d. d\<lparr>db_messages := db_messages d @ [(i, turn, role, content, nullable model, stamp)]\<rparr>) fault d)"

definition record_tool_call ::
  "string \<Rightarrow> int \<Rightarrow> string \<Rightarrow> string \<Rightarrow> string \<Rightarrow> string \<Rightarrow> bool \<Rightarrow> string \<Rightarrow> int \<Rightarrow> string \<Rightarrow> string \<Rightarrow> unit exec" where
  "record_tool_call stamp turn surf act ps res ok cls latency model spid fault d =
     exec () (\<lambda>d. d\<lparr>db_tool_calls := db_tool_calls d @
        [(next_id (db_tool_calls d), turn, (surf, act), (ps, res), bool_to_int ok, nullable cls, latency,
          nullable model, nullable spid, stamp)]\<rparr>) fault d"

definition record_cost :: "string \<Rightarrow> int \<Rightarrow> string \<Rightarrow> int \<Rightarrow> int \<Rightarrow> rat \<Rightarrow> unit exec" where
  "record_cost stamp turn model input output usd fault d =
     exec () (\<lambda>d. d\<lparr>db_costs := db_costs d @ [(next_id (db_costs d), turn, model, input, output, usd, stamp)]\<rparr>) fault d"

definition record_escalation ::
  "string \<Rightarrow> int \<Rightarrow> string \<Rightarrow> string \<Rightarrow> string \<Rightarrow> string \<Rightarrow> string \<Rightarrow> unit exec" where
  "record_escalation stamp turn edge trigger from_model to_model event_id fault d =
     exec () (\<lambda>d. d\<lparr>db_escalations := db_escalations d @
        [(next_id (db_escalations d), turn, edge, nullable trigger, from_model, to_model, nullable event_id, stamp)]\<rparr>) fault d"

text \<open>The turn index is the key of its table; a turn that is there is left as it is.\<close>

definition start_turn_row :: "string \<Rightarrow> int \<Rightarrow> string \<Rightarrow> unit exec" where
  "start_turn_row stamp turn model fault d =
     exec () (\<lambda>d. if turn \<in> set (map fst (db_turns d)) then d
                 else d\<lparr>db_turns := db_turns d @ [(turn, model, stamp, None, None)]\<rparr>) fault d"

definition end_turn_row :: "string \<Rightarrow> int \<Rightarrow> string \<Rightarrow> unit exec" where
  "end_turn_row stamp turn signals fault d =
     exec () (\<lambda>d. d\<lparr>db_turns := map (\<lambda>(i, m, started, ended, sig).
        if i = turn then (i, m, started, Some stamp, Some signals) else (i, m, started, ended, sig)) (db_turns d)\<rparr>) fault d"

definition set_status :: "string \<Rightarrow> string \<Rightarrow> unit exec" where
  "set_status rid status fault d =
     exec () (\<lambda>d. d\<lparr>db_session := map (\<lambda>s.
        if h_run_id (sc_header s) = rid then s\<lparr>sc_header := (sc_header s)\<lparr>h_status := status\<rparr>\<rparr> else s) (db_session d)\<rparr>) fault d"

subsection \<open>Reading\<close>

definition header_row :: "string \<Rightarrow> db \<Rightarrow> header option" where
  "header_row rid d =
     (case filter (\<lambda>s. h_run_id (sc_header s) = rid) (db_session d) of
        [] \<Rightarrow> None
      | s # _ \<Rightarrow> Some ((sc_header s)\<lparr>h_parent_run_id := null_string (sc_parent s)\<rparr>))"

definition messages :: "db \<Rightarrow> message_row list" where
  "messages d = map (\<lambda>(i, turn, role, content, model, stamp).
     \<lparr>mr_id = i, mr_turn = turn, mr_role = role, mr_content = content, mr_model = null_string model, mr_created_at = stamp\<rparr>)
     (sort_key fst (db_messages d))"

definition next_turn_index :: "db \<Rightarrow> int" where
  "next_turn_index d = (if db_turns d = [] then 0 else Max (set (map fst (db_turns d))) + 1)"

definition cost_total :: "db \<Rightarrow> rat" where
  "cost_total d = sum_list (map (\<lambda>(_, _, _, _, _, usd, _). usd) (db_costs d))"

definition counts :: "db \<Rightarrow> int \<times> int" where
  "counts d = (int (length (db_turns d)), int (length (db_tool_calls d)))"

definition escalations :: "db \<Rightarrow> escalation list" where
  "escalations d = map (\<lambda>(_, turn, edge, trigger, from_model, to_model, _, _).
     \<lparr>es_turn = turn, es_edge = edge, es_trigger = null_string trigger, es_from = from_model, es_to = to_model\<rparr>)
     (sort_key fst (db_escalations d))"

definition costs :: "db \<Rightarrow> cost_row list" where
  "costs d = map (\<lambda>(_, turn, model, input, output, usd, stamp).
     \<lparr>cr_turn = turn, cr_model = model, cr_input = input, cr_output = output, cr_usd = usd, cr_created_at = stamp\<rparr>)
     (sort_key fst (db_costs d))"

definition tool_calls :: "db \<Rightarrow> tool_call_row list" where
  "tool_calls d = map (\<lambda>(_, turn, (surf, act), (ps, res), ok, cls, latency, model, spid, stamp).
     \<lparr>tr_turn = turn, tr_surface = surf, tr_action = act, tr_params_json = ps, tr_result_json = res, tr_ok = (ok \<noteq> 0),
      tr_error_class = null_string cls, tr_latency_ms = latency, tr_model = null_string model,
      tr_span_id = null_string spid, tr_created_at = stamp\<rparr>)
     (sort_key fst (db_tool_calls d))"

definition turns :: "db \<Rightarrow> turn_row list" where
  "turns d = map (\<lambda>(i, model, started, ended, signals).
     \<lparr>tn_index = i, tn_model = model, tn_started_at = started, tn_ended_at = null_string ended,
      tn_signals_json = null_string signals\<rparr>)
     (sort_key fst (db_turns d))"

subsection \<open>The tree of sessions\<close>

record node =
  nd_header :: header
  nd_cost_usd :: rat
  nd_turns :: int
  nd_tool_calls :: int
  nd_escalations :: "escalation list"

datatype tree_node = TreeNode (tree_data: node) (tree_children: "tree_node list")

fun tree_cost_usd :: "tree_node \<Rightarrow> rat" where
  "tree_cost_usd (TreeNode n cs) = nd_cost_usd n + sum_list (map tree_cost_usd cs)"

fun tree_size :: "tree_node \<Rightarrow> nat" where
  "tree_size (TreeNode n cs) = 1 + sum_list (map tree_size cs)"

definition load_node :: "string \<Rightarrow> session_dir \<Rightarrow> string \<Rightarrow> node option" where
  "load_node dir files rid =
     (case open_session dir files rid of
        Inl _ \<Rightarrow> None
      | Inr d \<Rightarrow>
          (case header_row rid d of
             None \<Rightarrow> None
           | Some h \<Rightarrow> Some \<lparr>nd_header = h, nd_cost_usd = cost_total d, nd_turns = fst (counts d),
               nd_tool_calls = snd (counts d), nd_escalations = escalations d\<rparr>))"

definition load_nodes :: "string \<Rightarrow> session_dir \<Rightarrow> (string \<times> node) list" where
  "load_nodes dir files =
     concat (map (\<lambda>(rid, _). case load_node dir files rid of None \<Rightarrow> [] | Some n \<Rightarrow> [(rid, n)]) files)"

definition children_of :: "(string \<times> node) list \<Rightarrow> string \<Rightarrow> string list" where
  "children_of nodes p =
     sort (map fst (filter (\<lambda>(_, n). p \<noteq> [] \<and> h_parent_run_id (nd_header n) = p) nodes))"

text \<open>The recursion attaches the children of a session and theirs. A session that is its own ancestor
  would make it run for ever, so the depth is bounded here; \<^const>\<open>None\<close> is a bound too small.\<close>

fun attach :: "nat \<Rightarrow> (string \<times> node) list \<Rightarrow> string \<Rightarrow> tree_node option" where
  "attach 0 nodes rid = None"
| "attach (Suc k) nodes rid =
     (case map_of nodes rid of
        None \<Rightarrow> None
      | Some n \<Rightarrow>
          (let kids = map (attach k nodes) (children_of nodes rid)
           in if None \<in> set kids then None else Some (TreeNode n (map the kids))))"

text \<open>The tree under a root session: an error, a tree, or, within the depth, neither.\<close>

definition load_tree :: "nat \<Rightarrow> string \<Rightarrow> session_dir \<Rightarrow> string \<Rightarrow> (string + tree_node) option" where
  "load_tree k dir files root_id =
     (let nodes = load_nodes dir files
      in if map_of nodes root_id = None then Some (Inl (''no session '' @ go_quote root_id @ '' under '' @ dir))
         else map_option Inr (attach k nodes root_id))"

section \<open>Properties\<close>

text \<open>
  Properties of the session store: what is read back is what was written, a resumed session gets a
  fresh turn index, and the tree of sessions is finite, complete and without repetition exactly when
  its root is not its own ancestor.
\<close>

subsection \<open>Reading back\<close>

datatype store_op =
    PutMessage string int string string string
  | PutToolCall tool_call_row
  | PutCost cost_row
  | PutEscalation string int string string string string string
  | StartTurn string int string
  | EndTurn string int string
  | PutStatus string string

fun apply_op :: "store_op \<times> string option \<Rightarrow> db \<Rightarrow> db" where
  "apply_op (PutMessage stamp turn role content model, fault) d =
     snd (append_message stamp turn role content model fault d)"
| "apply_op (PutToolCall r, fault) d =
     snd (record_tool_call (tr_created_at r) (tr_turn r) (tr_surface r) (tr_action r) (tr_params_json r)
       (tr_result_json r) (tr_ok r) (tr_error_class r) (tr_latency_ms r) (tr_model r) (tr_span_id r) fault d)"
| "apply_op (PutCost r, fault) d =
     snd (record_cost (cr_created_at r) (cr_turn r) (cr_model r) (cr_input r) (cr_output r) (cr_usd r) fault d)"
| "apply_op (PutEscalation stamp turn edge trigger a b ev, fault) d =
     snd (record_escalation stamp turn edge trigger a b ev fault d)"
| "apply_op (StartTurn stamp turn model, fault) d = snd (start_turn_row stamp turn model fault d)"
| "apply_op (EndTurn stamp turn signals, fault) d = snd (end_turn_row stamp turn signals fault d)"
| "apply_op (PutStatus rid status, fault) d = snd (set_status rid status fault d)"

definition apply_ops :: "(store_op \<times> string option) list \<Rightarrow> db \<Rightarrow> db" where
  "apply_ops ops d = fold apply_op ops d"

text \<open>The operations that the driver did not fail.\<close>

definition done_ops :: "(store_op \<times> string option) list \<Rightarrow> store_op list" where
  "done_ops ops = map fst (filter (\<lambda>(_, fault). fault = None) ops)"

definition op_messages :: "store_op list \<Rightarrow> (int \<times> string \<times> string \<times> string \<times> string) list" where
  "op_messages ops = concat (map (\<lambda>op. case op of
     PutMessage stamp turn role content model \<Rightarrow> [(turn, role, content, model, stamp)] | _ \<Rightarrow> []) ops)"

definition op_tool_calls :: "store_op list \<Rightarrow> tool_call_row list" where
  "op_tool_calls ops = concat (map (\<lambda>op. case op of PutToolCall r \<Rightarrow> [r] | _ \<Rightarrow> []) ops)"

definition op_costs :: "store_op list \<Rightarrow> cost_row list" where
  "op_costs ops = concat (map (\<lambda>op. case op of PutCost r \<Rightarrow> [r] | _ \<Rightarrow> []) ops)"

definition op_escalations :: "store_op list \<Rightarrow> escalation list" where
  "op_escalations ops = concat (map (\<lambda>op. case op of
     PutEscalation stamp turn edge trigger a b ev \<Rightarrow>
       [\<lparr>es_turn = turn, es_edge = edge, es_trigger = trigger, es_from = a, es_to = b\<rparr>] | _ \<Rightarrow> []) ops)"

lemma done_snoc: "done_ops (ops @ [(op, fault)]) = done_ops ops @ (if fault = None then [op] else [])"
  by (simp add: done_ops_def)

lemma op_snoc:
  "op_messages (ops @ ops') = op_messages ops @ op_messages ops'"
  "op_tool_calls (ops @ ops') = op_tool_calls ops @ op_tool_calls ops'"
  "op_costs (ops @ ops') = op_costs ops @ op_costs ops'"
  "op_escalations (ops @ ops') = op_escalations ops @ op_escalations ops'"
  by (simp_all add: op_messages_def op_tool_calls_def op_costs_def op_escalations_def)

lemma null_nullable [simp]: "null_string (nullable s) = s"
  by (simp add: null_string_def nullable_def)

text \<open>Automatic keys are numbered from one.\<close>

definition numbered :: "(int \<times> 'a) list \<Rightarrow> bool" where
  "numbered rows = (map fst rows = map (\<lambda>i. int i + 1) [0..<length rows])"

lemma numbered_max: "numbered rows \<Longrightarrow> next_id rows = int (length rows) + 1"
proof (cases "rows = []")
  case False
  assume n: "numbered rows"
  have "Max ((\<lambda>i. int i + 1) ` {0..<length rows}) = int (length rows)"
    using False by (intro Max_eqI) (auto simp: image_iff of_nat_diff Suc_leI intro!: bexI [of _ "length rows - 1"])
  moreover have "set (map fst rows) = (\<lambda>i. int i + 1) ` {0..<length rows}"
    using n unfolding numbered_def by (metis image_set set_upt)
  ultimately show ?thesis using False by (simp add: next_id_def)
qed (simp add: next_id_def)

lemma numbered_snoc: "numbered rows \<Longrightarrow> numbered (rows @ [(next_id rows, x)])"
  using numbered_max by (fastforce simp: numbered_def)

lemma numbered_sorted: "numbered rows \<Longrightarrow> sort_key fst rows = rows"
proof -
  assume "numbered rows"
  then have "sorted (map fst rows)" by (simp add: numbered_def sorted_iff_nth_mono)
  then show ?thesis by (simp add: sorted_sort_id sort_key_id_if_sorted)
qed

lemma sort_key_numbered_snoc [simp]:
  "numbered rows \<Longrightarrow> sort_key fst (rows @ [(next_id rows, x)]) = rows @ [(next_id rows, x)]"
  by (rule numbered_sorted [OF numbered_snoc])

definition store_inv :: "db \<Rightarrow> bool" where
  "store_inv d =
     (numbered (db_messages d) \<and> numbered (db_tool_calls d) \<and> numbered (db_costs d)
      \<and> numbered (db_escalations d) \<and> distinct (map fst (db_turns d)))"

definition fresh_db :: "string \<Rightarrow> string \<Rightarrow> header \<Rightarrow> db" where
  "fresh_db rid stamp h = empty_db\<lparr>db_version := schema_version, db_session := [header_col rid stamp h]\<rparr>"

lemma create_fresh:
  "create_session dir h fresh stamp fault files = (Inr rid, files') \<Longrightarrow>
     files' = (rid, Inr (fresh_db rid stamp h)) # files \<and> map_of files rid = None"
  by (auto simp: create_session_def fresh_db_def Let_def split: option.splits create_fault.splits if_splits)

lemma fresh_inv: "store_inv (fresh_db rid stamp h)"
  by (simp add: store_inv_def fresh_db_def empty_db_def numbered_def)

lemmas write_defs =
  exec_def append_message_def record_tool_call_def record_cost_def record_escalation_def start_turn_row_def
  end_turn_row_def set_status_def Let_def

lemma map_fst_end_turn [simp]:
  "map fst (map (\<lambda>(i, m, started, ended, sig). if i = turn then (i, m, started, x, y)
     else (i, m, started, ended, sig)) rows) = map fst rows"
  by (induction rows) auto

lemma apply_op_inv: "store_inv d \<Longrightarrow> store_inv (apply_op op d)"
  by (cases "(op, d)" rule: apply_op.cases)
    (auto simp: store_inv_def write_defs numbered_snoc simp del: map_map split: option.splits)

lemma reads_snoc [simp]:
  "numbered (db_messages d) \<Longrightarrow>
     messages (d\<lparr>db_messages := db_messages d @ [(next_id (db_messages d), turn, role, content, nullable model, stamp)]\<rparr>)
     = messages d @ [\<lparr>mr_id = next_id (db_messages d), mr_turn = turn, mr_role = role, mr_content = content,
         mr_model = model, mr_created_at = stamp\<rparr>]"
  "numbered (db_costs d) \<Longrightarrow>
     costs (d\<lparr>db_costs := db_costs d @ [(next_id (db_costs d), turn, model, input, output, usd, stamp)]\<rparr>)
     = costs d @ [\<lparr>cr_turn = turn, cr_model = model, cr_input = input, cr_output = output, cr_usd = usd,
         cr_created_at = stamp\<rparr>]"
  by (simp_all add: messages_def costs_def numbered_sorted)

lemma reads_other [simp]:
  "messages (d\<lparr>db_tool_calls := x1\<rparr>) = messages d" "messages (d\<lparr>db_costs := x2\<rparr>) = messages d"
  "messages (d\<lparr>db_escalations := x3\<rparr>) = messages d" "messages (d\<lparr>db_turns := x4\<rparr>) = messages d"
  "messages (d\<lparr>db_session := x5\<rparr>) = messages d"
  "costs (d\<lparr>db_tool_calls := x1\<rparr>) = costs d" "costs (d\<lparr>db_messages := x6\<rparr>) = costs d"
  "costs (d\<lparr>db_escalations := x3\<rparr>) = costs d" "costs (d\<lparr>db_turns := x4\<rparr>) = costs d"
  "costs (d\<lparr>db_session := x5\<rparr>) = costs d"
  "tool_calls (d\<lparr>db_messages := x6\<rparr>) = tool_calls d" "tool_calls (d\<lparr>db_costs := x2\<rparr>) = tool_calls d"
  "tool_calls (d\<lparr>db_escalations := x3\<rparr>) = tool_calls d" "tool_calls (d\<lparr>db_turns := x4\<rparr>) = tool_calls d"
  "tool_calls (d\<lparr>db_session := x5\<rparr>) = tool_calls d"
  "escalations (d\<lparr>db_messages := x6\<rparr>) = escalations d" "escalations (d\<lparr>db_costs := x2\<rparr>) = escalations d"
  "escalations (d\<lparr>db_tool_calls := x1\<rparr>) = escalations d" "escalations (d\<lparr>db_turns := x4\<rparr>) = escalations d"
  "escalations (d\<lparr>db_session := x5\<rparr>) = escalations d"
  by (simp_all add: messages_def costs_def tool_calls_def escalations_def)

text \<open>What the reads give back, without the keys of the messages.\<close>

definition read_back ::
  "db \<Rightarrow> (int \<times> string \<times> string \<times> string \<times> string) list \<times> tool_call_row list \<times> cost_row list \<times> escalation list" where
  "read_back d =
     (map (\<lambda>m. (mr_turn m, mr_role m, mr_content m, mr_model m, mr_created_at m)) (messages d),
      tool_calls d, costs d, escalations d)"

lemma read_back_step:
  assumes "store_inv d" "read_back d = (ms, ts, cs, es)"
  shows "read_back (apply_op (op, fault) d) =
    (let ops = (if fault = None then [op] else [])
     in (ms @ op_messages ops, ts @ op_tool_calls ops, cs @ op_costs ops, es @ op_escalations ops))"
proof (cases fault)
  case (Some e)
  then have "apply_op (op, fault) d = d" by (cases op) (simp_all add: write_defs)
  then show ?thesis
    using assms(2) Some by (simp add: op_messages_def op_tool_calls_def op_costs_def op_escalations_def)
next
  case None
  have n: "numbered (db_messages d)" "numbered (db_tool_calls d)" "numbered (db_costs d)" "numbered (db_escalations d)"
    using assms(1) by (simp_all add: store_inv_def)
  show ?thesis
  proof (cases op)
    case (PutToolCall r)
    have "tool_calls (apply_op (op, None) d) = tool_calls d @ [r]"
      using n(2) by (cases r) (simp add: PutToolCall write_defs tool_calls_def numbered_sorted bool_to_int_def)
    moreover have "messages (apply_op (op, None) d) = messages d" "costs (apply_op (op, None) d) = costs d"
      "escalations (apply_op (op, None) d) = escalations d"
      by (simp_all add: PutToolCall write_defs)
    ultimately show ?thesis using assms(2)
      by (simp add: read_back_def None PutToolCall op_messages_def op_tool_calls_def op_costs_def op_escalations_def)
  next
    case (PutCost r)
    then show ?thesis using assms(2) n(3)
      by (cases r) (simp add: read_back_def None write_defs op_messages_def op_tool_calls_def op_costs_def op_escalations_def)
  next
    case (PutEscalation stamp turn edge trigger a b ev)
    have "escalations (apply_op (op, None) d) = escalations d @
        [\<lparr>es_turn = turn, es_edge = edge, es_trigger = trigger, es_from = a, es_to = b\<rparr>]"
      using n(4) by (simp add: PutEscalation write_defs escalations_def numbered_sorted)
    moreover have "messages (apply_op (op, None) d) = messages d" "costs (apply_op (op, None) d) = costs d"
      "tool_calls (apply_op (op, None) d) = tool_calls d"
      by (simp_all add: PutEscalation write_defs)
    ultimately show ?thesis using assms(2)
      by (simp add: read_back_def None PutEscalation op_messages_def op_tool_calls_def op_costs_def op_escalations_def)
  qed (use assms(2) n in \<open>auto simp: read_back_def None write_defs op_messages_def op_tool_calls_def op_costs_def
      op_escalations_def\<close>)
qed

lemma apply_ops_back:
  assumes "store_inv d" "read_back d = ([], [], [], [])"
  shows "store_inv (apply_ops ops d) \<and> read_back (apply_ops ops d) =
    (op_messages (done_ops ops), op_tool_calls (done_ops ops), op_costs (done_ops ops), op_escalations (done_ops ops))"
proof (induction ops rule: rev_induct)
  case Nil
  then show ?case using assms
    by (simp add: apply_ops_def done_ops_def op_messages_def op_tool_calls_def op_costs_def op_escalations_def)
next
  case (snoc x ops)
  obtain op fault where x: "x = (op, fault)" by (cases x)
  have f: "apply_ops (ops @ [x]) d = apply_op (op, fault) (apply_ops ops d)" by (simp add: apply_ops_def x)
  from snoc read_back_step [of "apply_ops ops d"] apply_op_inv show ?case
    unfolding f by (simp add: x done_snoc op_snoc Let_def op_messages_def [of "[]"] op_tool_calls_def [of "[]"]
        op_costs_def [of "[]"] op_escalations_def [of "[]"])
qed

lemma cost_total_sum: "store_inv d \<Longrightarrow> cost_total d = sum_list (map cr_usd (costs d))"
  by (simp add: store_inv_def cost_total_def costs_def numbered_sorted comp_def case_prod_unfold)

lemma numbered_messages: "store_inv d \<Longrightarrow> map mr_id (messages d) = map (\<lambda>i. int i + 1) [0..<length (messages d)]"
  by (simp add: store_inv_def messages_def numbered_sorted comp_def split_beta numbered_def)

text \<open>C26: A session created and opened gives back its header, and after any writes, some failed by the driver,
  exactly the messages, tool calls, costs and escalations of the others, in order, the messages numbered
  from one and the total the sum of the costs.\<close>

theorem store_reads_back:
  assumes "create_session dir h fresh stamp fault files = (Inr rid, files')"
  shows "\<exists>d. open_session dir files' rid = Inr d
    \<and> header_row rid d = Some (h\<lparr>h_run_id := rid, h_created_at := stamp, h_status := ''open''\<rparr>)
    \<and> read_back (apply_ops ops d) =
        (op_messages (done_ops ops), op_tool_calls (done_ops ops), op_costs (done_ops ops), op_escalations (done_ops ops))
    \<and> map mr_id (messages (apply_ops ops d)) = map (\<lambda>i. int i + 1) [0..<length (op_messages (done_ops ops))]
    \<and> cost_total (apply_ops ops d) = sum_list (map cr_usd (op_costs (done_ops ops)))"
proof -
  let ?d = "fresh_db rid stamp h"
  have o: "open_session dir files' rid = Inr ?d"
    using create_fresh [OF assms] by (simp add: open_session_def fresh_db_def)
  have "read_back ?d = ([], [], [], [])"
    by (simp add: read_back_def fresh_db_def empty_db_def messages_def tool_calls_def costs_def escalations_def)
  from apply_ops_back [OF fresh_inv this, of ops]
  have b: "store_inv (apply_ops ops ?d)" "read_back (apply_ops ops ?d) =
      (op_messages (done_ops ops), op_tool_calls (done_ops ops), op_costs (done_ops ops), op_escalations (done_ops ops))"
    by auto
  have "length (messages (apply_ops ops ?d)) = length (op_messages (done_ops ops))"
    using arg_cong [OF b(2), of "length \<circ> fst"] by (simp add: read_back_def)
  moreover have "costs (apply_ops ops ?d) = op_costs (done_ops ops)" using b(2) by (simp add: read_back_def)
  moreover have "header_row rid ?d = Some (h\<lparr>h_run_id := rid, h_created_at := stamp, h_status := ''open''\<rparr>)"
    by (simp add: header_row_def fresh_db_def header_col_def)
  ultimately show ?thesis
    using o b numbered_messages [OF b(1)] cost_total_sum [OF b(1)] by (intro exI [of _ ?d]) simp
qed

definition demo_header :: header where
  "demo_header = \<lparr>h_run_id = ''R'', h_created_at = [], h_model_cheap = ''m'', h_model_strong = ''m'', h_project = ''p'',
     h_skills_digest = [], h_status = [], h_parent_run_id = [], h_profile = [], h_duty = [], h_selection = []\<rparr>"

theorem store_reads_back_witness:
  "\<exists>d. open_session ''d'' [(''R'', Inr (fresh_db ''R'' ''now'' demo_header))] ''R'' = Inr d
    \<and> map mr_id (messages (apply_ops [(PutMessage ''t'' 0 ''user'' ''hi'' [], None), (PutMessage ''t'' 0 ''user'' ''ho'' [], Some ''locked'')] d)) = [1]"
proof -
  have c: "create_session ''d'' demo_header [] ''now'' None [] = (Inr ''R'', [(''R'', Inr (fresh_db ''R'' ''now'' demo_header))])"
    by (simp add: create_session_def fresh_db_def demo_header_def Let_def)
  show ?thesis
    using store_reads_back [OF c, of "[(PutMessage ''t'' 0 ''user'' ''hi'' [], None), (PutMessage ''t'' 0 ''user'' ''ho'' [], Some ''locked'')]"]
    by (auto simp: done_ops_def op_messages_def)
qed

text \<open>The index a resumed session goes on with is beyond every turn on record, opening it records exactly
  one turn, and opening it again changes nothing.\<close>

theorem resume_index_fresh:
  "set (map tn_index (turns d)) \<subseteq> {..<next_turn_index d}
   \<and> (let d' = snd (start_turn_row stamp (next_turn_index d) model None d)
      in next_turn_index d' = next_turn_index d + 1 \<and> fst (counts d') = fst (counts d) + 1
         \<and> snd (start_turn_row stamp' (next_turn_index d) model' fault d') = d')"
proof -
  let ?i = "next_turn_index d"
  have s: "set (map tn_index (turns d)) = set (map fst (db_turns d))"
    by (force simp: turns_def)
  have lt: "set (map fst (db_turns d)) \<subseteq> {..<?i}"
    by (auto simp: next_turn_index_def less_le_trans intro!: le_imp_less_Suc zle_add1_eq_le [THEN iffD2] Max_ge)
  then have new: "?i \<notin> set (map fst (db_turns d))" by blast
  have "Max (insert ?i (fst ` set (db_turns d))) = ?i" using lt by (intro Max_eqI) auto
  then have "next_turn_index (d\<lparr>db_turns := db_turns d @ [(?i, model, stamp, None, None)]\<rparr>) = ?i + 1"
    by (simp add: next_turn_index_def [of "d\<lparr>db_turns := y\<rparr>" for y])
  with s lt new show ?thesis
    by (simp add: start_turn_row_def exec_def counts_def Let_def split: option.split)
qed

text \<open>A statement of the creation that fails leaves the file behind: a second attempt with the same run id is
  refused, and so is opening it.\<close>

lemma failed_create_blocks:
  assumes "create_session dir (h\<lparr>h_run_id := rid\<rparr>) fresh stamp (Some (FaultSchema e)) [] = (x, files)" "rid \<noteq> []"
  shows "x = Inl (''apply schema: '' @ e)
    \<and> fst (create_session dir (h\<lparr>h_run_id := rid\<rparr>) fresh' stamp' None files)
        = Inl (''session DB already exists: '' @ db_path dir rid)
    \<and> open_session dir files rid = Inl ''session DB schema version 0 != supported 3''"
proof -
  have v: "itoa 0 = ''0''" "itoa schema_version = ''3''" by code_simp+
  have x: "x = Inl (''apply schema: '' @ e)" "files = [(rid, Inr empty_db)]"
    using assms by (auto simp: create_session_def Let_def)
  show ?thesis
    using assms(2) v unfolding x
    by (simp add: create_session_def open_session_def empty_db_def schema_version_def [symmetric] Let_def)
       (simp add: schema_version_def)
qed

end
