(* ===== verification/Session_Tree.thy ===== *)
theory Session_Tree
  imports Session_Store
begin

text \<open>
  The tree of sessions: loading it ends exactly when the root is not its own ancestor, and then the tree
  holds every descendant once.
\<close>

subsection \<open>Ancestors\<close>

type_synonym nodes = "(string \<times> node) list"

definition parent_of :: "nodes \<Rightarrow> string \<Rightarrow> string option" where
  "parent_of nodes x =
     (case map_of nodes x of
        None \<Rightarrow> None
      | Some n \<Rightarrow> if h_parent_run_id (nd_header n) = [] then None else Some (h_parent_run_id (nd_header n)))"

fun ancestor :: "nodes \<Rightarrow> nat \<Rightarrow> string \<Rightarrow> string option" where
  "ancestor nodes 0 x = Some x"
| "ancestor nodes (Suc k) x = (case parent_of nodes x of None \<Rightarrow> None | Some p \<Rightarrow> ancestor nodes k p)"

lemma ancestor_add: "ancestor nodes (i + j) x = Option.bind (ancestor nodes i x) (ancestor nodes j)"
  by (induction i arbitrary: x) (auto split: option.splits)

lemma ancestor_suc: "ancestor nodes (Suc j) y = Some x \<longleftrightarrow>
    (\<exists>c. ancestor nodes j y = Some c \<and> parent_of nodes c = Some x)"
  using ancestor_add [of nodes j 1 y] by (auto split: option.splits bind_splits)

lemma parent_loaded: "parent_of nodes x = Some p \<Longrightarrow> x \<in> fst ` set nodes"
  by (force simp: parent_of_def split: option.splits dest: map_of_SomeD)

lemma ancestor_loaded: "ancestor nodes j y = Some c \<Longrightarrow> c \<in> fst ` set nodes \<Longrightarrow> y \<in> fst ` set nodes"
  by (cases j) (auto split: option.splits dest: parent_loaded)

lemma set_children:
  "distinct (map fst nodes) \<Longrightarrow> set (children_of nodes p) = {y. parent_of nodes y = Some p}"
proof -
  assume d: "distinct (map fst nodes)"
  have "y \<in> set (children_of nodes p) \<longleftrightarrow> parent_of nodes y = Some p" for y
  proof -
    have "y \<in> set (children_of nodes p) \<longleftrightarrow>
        (\<exists>n. (y, n) \<in> set nodes \<and> p \<noteq> [] \<and> h_parent_run_id (nd_header n) = p)"
      by (force simp: children_of_def)
    also have "\<dots> \<longleftrightarrow> (\<exists>n. map_of nodes y = Some n \<and> p \<noteq> [] \<and> h_parent_run_id (nd_header n) = p)"
      using map_of_eq_Some_iff [OF d] by simp
    also have "\<dots> \<longleftrightarrow> parent_of nodes y = Some p"
      by (cases "map_of nodes y") (auto simp: parent_of_def)
    finally show ?thesis .
  qed
  then show ?thesis by blast
qed

lemma distinct_children: "distinct (map fst nodes) \<Longrightarrow> distinct (children_of nodes p)"
  by (simp add: children_of_def distinct_map_filter)

subsection \<open>Loading ends\<close>

definition own_ancestor :: "nodes \<Rightarrow> string \<Rightarrow> bool" where
  "own_ancestor nodes r = (\<exists>d>0. ancestor nodes d r = Some r)"

text \<open>The way from a session up to the root does not repeat, so it is shorter than the number of sessions.\<close>

lemma ancestor_inj:
  assumes "\<not> own_ancestor nodes r" "ancestor nodes k x = Some r" "i < j" "j \<le> k"
  shows "ancestor nodes i x \<noteq> ancestor nodes j x"
proof
  assume e: "ancestor nodes i x = ancestor nodes j x"
  have "ancestor nodes (i + (k - j)) x = ancestor nodes (j + (k - j)) x"
    unfolding ancestor_add e ..
  then have r: "ancestor nodes (i + (k - j)) x = Some r" using assms(2,4) by simp
  have "i + (k - j) + (j - i) = k" using assms(3,4) by simp
  then have "Some r = Option.bind (Some r) (ancestor nodes (j - i))"
    using ancestor_add [of nodes "i + (k - j)" "j - i" x] r assms(2) by metis
  then have "ancestor nodes (j - i) r = Some r" by simp
  with assms(1,3) show False unfolding own_ancestor_def by (metis zero_less_diff)
qed

lemma rank_bound:
  assumes "\<not> own_ancestor nodes r" "ancestor nodes k x = Some r" "r \<in> fst ` set nodes"
  shows "k < length nodes"
proof -
  let ?f = "\<lambda>i. ancestor nodes i x"
  have "inj_on ?f {..k}"
    using ancestor_inj [OF assms(1,2)] by (intro inj_onI) (metis atMost_iff linorder_neqE_nat)
  moreover have "?f ` {..k} \<subseteq> Some ` fst ` set nodes"
  proof
    fix a assume "a \<in> ?f ` {..k}"
    then obtain i where i: "i \<le> k" "a = ?f i" by auto
    have b: "Option.bind (?f i) (ancestor nodes (k - i)) = Some r"
      using ancestor_add [of nodes i "k - i" x] assms(2) i(1) by simp
    then obtain c where "?f i = Some c" "ancestor nodes (k - i) c = Some r" by (auto split: bind_splits)
    with ancestor_loaded [OF this(2) assms(3)] i(2) show "a \<in> Some ` fst ` set nodes" by simp
  qed
  ultimately have "card {..k} \<le> card (Some ` fst ` set nodes)"
    by (intro card_inj_on_le [of ?f]) auto
  also have "\<dots> \<le> card (fst ` set nodes)" by (rule card_image_le) simp
  also have "\<dots> \<le> length nodes" using card_length [of "map fst nodes"] by simp
  finally show ?thesis by simp
qed

lemma attach_ends:
  assumes d: "distinct (map fst nodes)" and r: "\<not> own_ancestor nodes r" "r \<in> fst ` set nodes"
  shows "ancestor nodes k x = Some r \<Longrightarrow> length nodes \<le> n + k \<Longrightarrow> attach n nodes x \<noteq> None"
proof (induction n arbitrary: x k)
  case 0
  with rank_bound [OF r(1) 0(1) r(2)] show ?case by simp
next
  case (Suc n)
  have "x \<in> fst ` set nodes" using ancestor_loaded [OF Suc(2) r(2)] .
  then obtain m where m: "map_of nodes x = Some m" using map_of_eq_None_iff [of nodes x] by fastforce
  have "attach n nodes c \<noteq> None" if "c \<in> set (children_of nodes x)" for c
    using that Suc.prems Suc.IH [of "Suc k" c] by (simp add: set_children [OF d])
  then have "None \<notin> set (map (attach n nodes) (children_of nodes x))"
    by (metis image_iff set_map)
  with m show ?case by (simp add: Let_def)
qed

subsection \<open>What the tree holds\<close>

lemma distinct_concat_by_index:
  assumes "\<And>i. i < length xs \<Longrightarrow> distinct (f (xs ! i))"
    "\<And>i j. i < length xs \<Longrightarrow> j < length xs \<Longrightarrow> i \<noteq> j \<Longrightarrow> set (f (xs ! i)) \<inter> set (f (xs ! j)) = {}"
  shows "distinct (concat (map f xs))"
  using assms
proof (induction xs)
  case (Cons x xs)
  have "distinct (concat (map f xs))"
    using Cons.prems(1) [of "Suc i" for i] Cons.prems(2) [of "Suc i" "Suc j" for i j]
    by (intro Cons.IH) auto
  moreover have "set (f x) \<inter> set (f y) = {}" if "y \<in> set xs" for y
    using that Cons.prems(2) [of 0 "Suc i" for i] by (auto simp: in_set_conv_nth)
  ultimately show ?case using Cons.prems(1) [of 0] by auto
qed simp

fun tree_ids :: "tree_node \<Rightarrow> string list" where
  "tree_ids (TreeNode n cs) = h_run_id (nd_header n) # concat (map tree_ids cs)"

definition ids_are_keys :: "nodes \<Rightarrow> bool" where
  "ids_are_keys nodes = list_all (\<lambda>(x, n). h_run_id (nd_header n) = x) nodes"

lemma attach_cases:
  assumes "attach n nodes x = Some t"
  obtains k m ts where "n = Suc k" "map_of nodes x = Some m" "t = TreeNode m ts"
    "map (attach k nodes) (children_of nodes x) = map Some ts"
proof -
  obtain k m where k: "n = Suc k" "map_of nodes x = Some m"
    using assms by (cases n) (auto split: option.splits)
  let ?kids = "map (attach k nodes) (children_of nodes x)"
  have some: "None \<notin> set ?kids" "t = TreeNode m (map the ?kids)"
    using assms k by (auto simp: Let_def split: if_splits)
  have "map (\<lambda>a. Some (the a)) ?kids = ?kids"
  proof (rule map_idI)
    fix a assume "a \<in> set ?kids"
    with some(1) have "a \<noteq> None" by metis
    then show "Some (the a) = a" by simp
  qed
  then have "?kids = map Some (map the ?kids)" by (simp add: comp_def)
  with k some(2) that show ?thesis by blast
qed

lemma child_tree:
  assumes "map (attach k nodes) cs = map Some ts"
  shows "t \<in> set ts \<longleftrightarrow> (\<exists>c\<in>set cs. attach k nodes c = Some t)"
proof -
  have "t \<in> set ts \<longleftrightarrow> Some t \<in> set (map Some ts)" by auto
  also have "\<dots> \<longleftrightarrow> Some t \<in> attach k nodes ` set cs" using assms by (metis set_map)
  also have "\<dots> \<longleftrightarrow> (\<exists>c\<in>set cs. attach k nodes c = Some t)" by (metis image_iff)
  finally show ?thesis .
qed

lemma attach_id:
  "attach n nodes x = Some t \<Longrightarrow> ids_are_keys nodes \<Longrightarrow> h_run_id (nd_header (tree_data t)) = x"
  by (erule attach_cases) (auto simp: ids_are_keys_def list_all_iff dest!: map_of_SomeD)

lemma attach_ids:
  assumes d: "distinct (map fst nodes)" and ids: "ids_are_keys nodes"
  shows "attach n nodes x = Some t \<Longrightarrow> set (tree_ids t) = {y. \<exists>j. ancestor nodes j y = Some x}"
proof (induction n arbitrary: x t)
  case (Suc n)
  obtain k m ts where t: "n = k" "map_of nodes x = Some m" "t = TreeNode m ts"
    "map (attach k nodes) (children_of nodes x) = map Some ts" using attach_cases [OF Suc.prems] by auto
  have x: "h_run_id (nd_header m) = x" using attach_id [OF Suc.prems ids] t(3) by simp
  have "(\<Union>s\<in>set ts. set (tree_ids s)) = {y. \<exists>c j. parent_of nodes c = Some x \<and> ancestor nodes j y = Some c}"
  proof (intro set_eqI iffI)
    fix y assume "y \<in> (\<Union>s\<in>set ts. set (tree_ids s))"
    then obtain c s where "parent_of nodes c = Some x" "attach k nodes c = Some s" "y \<in> set (tree_ids s)"
      using child_tree [OF t(4)] set_children [OF d] by auto
    then show "y \<in> {y. \<exists>c j. parent_of nodes c = Some x \<and> ancestor nodes j y = Some c}"
      using Suc.IH t(1) by blast
  next
    fix y assume "y \<in> {y. \<exists>c j. parent_of nodes c = Some x \<and> ancestor nodes j y = Some c}"
    then obtain c j where c: "c \<in> set (children_of nodes x)" "ancestor nodes j y = Some c"
      using set_children [OF d] by auto
    then have "attach k nodes c \<in> set (map Some ts)" using t(4) by (metis image_eqI set_map)
    then obtain s where "attach k nodes c = Some s" "s \<in> set ts" by auto
    with Suc.IH t(1) c(2) show "y \<in> (\<Union>s\<in>set ts. set (tree_ids s))" by blast
  qed
  moreover have "{y. \<exists>j. ancestor nodes j y = Some x}
      = insert x {y. \<exists>c j. parent_of nodes c = Some x \<and> ancestor nodes j y = Some c}"
  proof (intro set_eqI iffI)
    fix y assume "y \<in> {y. \<exists>j. ancestor nodes j y = Some x}"
    then obtain j where "ancestor nodes j y = Some x" by blast
    then show "y \<in> insert x {y. \<exists>c j. parent_of nodes c = Some x \<and> ancestor nodes j y = Some c}"
      by (cases j) (auto simp: ancestor_suc simp del: ancestor.simps(2))
  next
    fix y assume "y \<in> insert x {y. \<exists>c j. parent_of nodes c = Some x \<and> ancestor nodes j y = Some c}"
    then show "y \<in> {y. \<exists>j. ancestor nodes j y = Some x}"
      using ancestor.simps(1) ancestor_suc by blast
  qed
  ultimately show ?case by (simp add: t(3) x)
qed simp

lemma attach_depth:
  assumes d: "distinct (map fst nodes)"
  shows "attach n nodes x = Some t \<Longrightarrow> ancestor nodes j y = Some x \<Longrightarrow> j < n"
proof (induction n arbitrary: x t j)
  case (Suc n)
  obtain k m ts where t: "n = k" "map_of nodes x = Some m" "t = TreeNode m ts"
    "map (attach k nodes) (children_of nodes x) = map Some ts" using attach_cases [OF Suc.prems(1)] by auto
  show ?case
  proof (cases j)
    case (Suc i)
    then obtain c where c: "ancestor nodes i y = Some c" "parent_of nodes c = Some x"
      using Suc.prems(2) ancestor_suc by blast
    then have "attach k nodes c \<in> set (map Some ts)"
      using t(4) set_children [OF d] by (metis (mono_tags, lifting) image_eqI mem_Collect_eq set_map)
    then show ?thesis using Suc.IH [OF _ c(1)] t(1) Suc by auto
  qed simp
qed simp

lemma attach_not_cyclic:
  assumes "distinct (map fst nodes)" "attach n nodes x = Some t"
  shows "\<not> own_ancestor nodes x"
proof
  assume "own_ancestor nodes x"
  then obtain d where d: "0 < d" "ancestor nodes d x = Some x" by (auto simp: own_ancestor_def)
  have "ancestor nodes (d * m) x = Some x" for m
    by (induction m) (simp_all add: ancestor_add d(2))
  from attach_depth [OF assms this [of n]] d(1) show False by simp
qed

lemma siblings_apart:
  assumes "\<not> own_ancestor nodes x" "parent_of nodes c = Some x" "parent_of nodes c' = Some x"
    "ancestor nodes i y = Some c" "ancestor nodes j y = Some c'" "i \<le> j"
  shows "c = c'"
proof (cases "i = j")
  case False
  have "ancestor nodes (Suc i) y = Some x" "ancestor nodes (Suc j) y = Some x"
    using assms(2-5) ancestor_suc by blast+
  moreover have "ancestor nodes (Suc i + (j - i)) y = Option.bind (ancestor nodes (Suc i) y) (ancestor nodes (j - i))"
    by (rule ancestor_add)
  ultimately have "ancestor nodes (j - i) x = Some x" using assms(6) by simp
  with assms(1,6) False show ?thesis unfolding own_ancestor_def by (metis le_neq_implies_less zero_less_diff)
qed (use assms in simp)

lemma attach_distinct:
  assumes d: "distinct (map fst nodes)" and ids: "ids_are_keys nodes"
  shows "attach n nodes x = Some t \<Longrightarrow> distinct (tree_ids t)"
proof (induction n arbitrary: x t)
  case (Suc n)
  obtain k m ts where t: "n = k" "map_of nodes x = Some m" "t = TreeNode m ts"
    "map (attach k nodes) (children_of nodes x) = map Some ts" using attach_cases [OF Suc.prems] by auto
  have x: "h_run_id (nd_header m) = x" using attach_id [OF Suc.prems ids] t(3) by simp
  note acyclic = attach_not_cyclic [OF d Suc.prems]
  let ?cs = "children_of nodes x"
  have len: "length ts = length ?cs" using t(4) by (metis length_map)
  have at: "attach k nodes (?cs ! i) = Some (ts ! i)" if "i < length ts" for i
    using that len arg_cong [OF t(4), of "\<lambda>l. l ! i"] by simp
  have child: "parent_of nodes (?cs ! i) = Some x" if "i < length ts" for i
    using that len set_children [OF d, of x] nth_mem [of i ?cs] by auto
  have sets: "set (tree_ids (ts ! i)) = {y. \<exists>j. ancestor nodes j y = Some (?cs ! i)}" if "i < length ts" for i
    using attach_ids [OF d ids at [OF that]] .
  have "set (tree_ids (ts ! i)) \<inter> set (tree_ids (ts ! j)) = {}" if ij: "i < length ts" "j < length ts" "i \<noteq> j" for i j
  proof -
    have "?cs ! i \<noteq> ?cs ! j" using distinct_children [OF d, of x] ij len by (simp add: nth_eq_iff_index_eq)
    moreover have "?cs ! i = ?cs ! j" if "ancestor nodes a y = Some (?cs ! i)" "ancestor nodes b y = Some (?cs ! j)" for a b y
      using siblings_apart [OF acyclic child [OF ij(1)] child [OF ij(2)] that]
        siblings_apart [OF acyclic child [OF ij(2)] child [OF ij(1)] that(2,1)] nat_le_linear [of a b] by auto
    ultimately show ?thesis unfolding sets [OF ij(1)] sets [OF ij(2)] by blast
  qed
  then have "distinct (concat (map tree_ids ts))"
    using Suc.IH [OF at [folded t(1)]] by (intro distinct_concat_by_index) simp_all
  moreover have "x \<notin> set (concat (map tree_ids ts))"
  proof
    assume "x \<in> set (concat (map tree_ids ts))"
    then obtain s where "s \<in> set ts" "x \<in> set (tree_ids s)" by auto
    then obtain i where i: "i < length ts" "x \<in> set (tree_ids (ts ! i))" by (metis in_set_conv_nth)
    then obtain j where "ancestor nodes j x = Some (?cs ! i)" using sets by blast
    then have "ancestor nodes (Suc j) x = Some x" using child [OF i(1)] ancestor_suc by blast
    with acyclic show False unfolding own_ancestor_def by blast
  qed
  ultimately show ?case by (simp add: t(3) x)
qed simp

text \<open>Sums over the tree are sums over its sessions.\<close>

lemma sum_list_pieces: "sum_list (concat xss) = sum_list (map sum_list xss)"
  for xss :: "rat list list"
  by (induction xss) simp_all

lemma tree_sums:
  assumes ids: "ids_are_keys nodes"
  shows "attach n nodes x = Some t \<Longrightarrow>
    tree_size t = length (tree_ids t)
    \<and> tree_cost_usd t = sum_list (map (\<lambda>y. nd_cost_usd (the (map_of nodes y))) (tree_ids t))"
proof (induction n arbitrary: x t)
  case (Suc n)
  obtain k m ts where t: "n = k" "map_of nodes x = Some m" "t = TreeNode m ts"
    "map (attach k nodes) (children_of nodes x) = map Some ts" using attach_cases [OF Suc.prems] by auto
  have x: "h_run_id (nd_header m) = x" using attach_id [OF Suc.prems ids] t(3) by simp
  have ih: "tree_size s = length (tree_ids s)
      \<and> tree_cost_usd s = sum_list (map (\<lambda>y. nd_cost_usd (the (map_of nodes y))) (tree_ids s))" if "s \<in> set ts" for s
    using that child_tree [OF t(4)] Suc.IH t(1) by blast
  have a: "map tree_size ts = map (\<lambda>s. length (tree_ids s)) ts"
    "map tree_cost_usd ts = map (\<lambda>s. sum_list (map (\<lambda>y. nd_cost_usd (the (map_of nodes y))) (tree_ids s))) ts"
    by (rule map_cong [OF refl]; simp add: ih)+
  show ?case
    unfolding t(3) tree_size.simps tree_cost_usd.simps a
    by (simp add: x t(2) length_concat map_concat sum_list_pieces comp_def)
qed simp

lemma loaded_keys:
  "map fst (concat (map (\<lambda>(rid, _). case g rid of None \<Rightarrow> [] | Some n \<Rightarrow> [(rid, n)]) files))
     = filter (\<lambda>rid. g rid \<noteq> None) (map fst files)"
  by (induction files) (auto split: option.splits)

lemma load_node_id: "load_node dir files x = Some n \<Longrightarrow> h_run_id (nd_header n) = x"
proof -
  assume "load_node dir files x = Some n"
  then obtain d h where "header_row x d = Some h" "nd_header n = h"
    by (auto simp: load_node_def split: sum.splits option.splits)
  moreover from this obtain s ss where "filter (\<lambda>s. h_run_id (sc_header s) = x) (db_session d) = s # ss"
    "h = (sc_header s)\<lparr>h_parent_run_id := null_string (sc_parent s)\<rparr>"
    by (auto simp: header_row_def split: list.splits)
  moreover from this(1) have s: "s \<in> set (filter (\<lambda>s. h_run_id (sc_header s) = x) (db_session d))" by simp
  then have "h_run_id (sc_header s) = x" by simp
  ultimately show ?thesis by simp
qed

lemma load_nodes_facts:
  assumes "distinct (map fst files)"
  shows "distinct (map fst (load_nodes dir files))" "ids_are_keys (load_nodes dir files)"
  using assms loaded_keys [of "load_node dir files" files]
  by (auto simp: load_nodes_def ids_are_keys_def list_all_iff load_node_id split: option.splits)

subsection \<open>The properties\<close>

text \<open>C27: A tree loads, with any bound on the depth that is at least the number of readable sessions, exactly when
  its root is not its own ancestor, and never otherwise. It then holds every session that descends from
  the root once, and its size and cost are the number and the summed cost of them.\<close>

theorem load_tree_exact:
  assumes "distinct (map fst files)" "map_of (load_nodes dir files) r \<noteq> None"
  shows "(own_ancestor (load_nodes dir files) r \<and> load_tree k dir files r = None)
    \<or> (own_ancestor (load_nodes dir files) r = False
       \<and> (k < length (load_nodes dir files)
          \<or> (\<exists>t. load_tree k dir files r = Some (Inr t) \<and> distinct (tree_ids t)
               \<and> set (tree_ids t) = {y. \<exists>j. ancestor (load_nodes dir files) j y = Some r}
               \<and> tree_size t = card (set (tree_ids t))
               \<and> tree_cost_usd t = (\<Sum>y\<in>set (tree_ids t). nd_cost_usd (the (map_of (load_nodes dir files) y))))))"
proof -
  let ?n = "load_nodes dir files"
  note f = load_nodes_facts [OF assms(1), of dir]
  have load: "load_tree k dir files r = map_option Inr (attach k ?n r)"
    using assms(2) unfolding load_tree_def Let_def by (simp only: if_False)
  show ?thesis
  proof (cases "own_ancestor ?n r")
    case True
    then have "attach k ?n r = None" using attach_not_cyclic [OF f(1), of k r] by (cases "attach k ?n r") auto
    with True load show ?thesis by simp
  next
    case False
    have r: "r \<in> fst ` set ?n" using assms(2) map_of_eq_None_iff [of ?n r] by simp
    show ?thesis
    proof (cases "k < length ?n")
      case enough: False
      then have "attach k ?n r \<noteq> None" using attach_ends [OF f(1) False r, of 0 r k] by simp
      then obtain t where t: "attach k ?n r = Some t" by blast
      have "distinct (tree_ids t)" by (rule attach_distinct [OF f t])
      then have "tree_size t = card (set (tree_ids t))"
        "tree_cost_usd t = (\<Sum>y\<in>set (tree_ids t). nd_cost_usd (the (map_of ?n y)))"
        using tree_sums [OF f(2) t] by (simp_all add: distinct_card sum_list_distinct_conv_sum_set)
      moreover have "load_tree k dir files r = Some (Inr t)" using load t by simp
      ultimately show ?thesis
        using \<open>distinct (tree_ids t)\<close> attach_ids [OF f t] False by blast
    qed (use False in simp)
  qed
qed

definition demo_db :: "string \<Rightarrow> string \<Rightarrow> db" where
  "demo_db rid parent = empty_db\<lparr>db_version := schema_version, db_session :=
     [header_col rid [] \<lparr>h_run_id = rid, h_created_at = [], h_model_cheap = [], h_model_strong = [], h_project = [],
        h_skills_digest = [], h_status = [], h_parent_run_id = parent, h_profile = [], h_duty = [],
        h_selection = []\<rparr>],
     db_costs := [(1, 0, ''m'', 1, 1, 2, [])]\<rparr>"

definition demo_dir :: session_dir where
  "demo_dir = [(''A'', Inr (demo_db ''A'' [])), (''B'', Inr (demo_db ''B'' ''A'')), (''X'', Inr (demo_db ''X'' ''X''))]"

theorem load_tree_exact_witness:
  "own_ancestor (load_nodes ''d'' demo_dir) ''X'' \<and> load_tree 100 ''d'' demo_dir ''X'' = None"
proof -
  have m: "map_of (load_nodes ''d'' demo_dir) ''X'' \<noteq> None" by code_simp
  have "parent_of (load_nodes ''d'' demo_dir) ''X'' = Some ''X''" by code_simp
  then have "ancestor (load_nodes ''d'' demo_dir) 1 ''X'' = Some ''X''" by simp
  then have o: "own_ancestor (load_nodes ''d'' demo_dir) ''X''" unfolding own_ancestor_def by (intro exI [of _ 1]) simp
  have "distinct (map fst demo_dir)" by (simp add: demo_dir_def)
  from load_tree_exact [OF this m, of 100] o show ?thesis by blast
qed

end
