(* ===== verification/Runrate.thy ===== *)
theory Runrate
  imports Cost Session_Store "HOL-Library.Multiset"
begin

text \<open>
  The run-rate report, \<open>internal/runrate\<close>: the costs of the sessions in a period by model and by tier,
  and the monthly projection. An instant is a number of nanoseconds, whose differences saturate as
  those of \<open>time.Time\<close> do. The parsing of dates is left to the standard library.
\<close>

record session_costs =
  ss_run_id :: string
  ss_created_at :: int
  ss_costs :: "cost_row list"

record model_spend =
  sp_model :: string
  sp_input :: int
  sp_output :: int
  sp_usd :: rat
  sp_priced :: bool

record tier_spend =
  ts_tier :: tier
  ts_input :: int
  ts_output :: int
  ts_usd :: rat
  ts_usd_share :: rat
  ts_token_share :: rat

record report =
  rep_since :: int
  rep_until :: int
  rep_elapsed_days :: rat
  rep_sessions :: int
  rep_paid_usd :: rat
  rep_projected_monthly_usd :: rat
  rep_per_model :: "model_spend list"
  rep_unpriced :: "string list"
  rep_per_tier :: "tier_spend list"

definition tier_order :: "tier list" where
  "tier_order = [TierLocal, TierMid, TierStrong, TierUnknown]"

definition tier_sum :: "tier \<Rightarrow> model_spend list \<Rightarrow> tier_spend list" where
  "tier_sum t per =
     (let own = filter (\<lambda>m. classify_tier (sp_model m) = t) per
      in if own = [] then []
         else [\<lparr>ts_tier = t, ts_input = sum_list (map sp_input own), ts_output = sum_list (map sp_output own),
                ts_usd = sum_list (map sp_usd own), ts_usd_share = 0, ts_token_share = 0\<rparr>])"

definition with_shares :: "rat \<Rightarrow> int \<Rightarrow> tier_spend \<Rightarrow> tier_spend" where
  "with_shares usd_sum tok_sum s =
     s\<lparr>ts_usd_share := (if usd_sum > 0 then ts_usd s / usd_sum else 0),
       ts_token_share := (if tok_sum > 0 then of_int (ts_input s + ts_output s) / of_int tok_sum else 0)\<rparr>"

definition rollup_tiers :: "model_spend list \<Rightarrow> tier_spend list" where
  "rollup_tiers per =
     map (with_shares (sum_list (map sp_usd per)) (sum_list (map (\<lambda>m. sp_input m + sp_output m) per)))
       (concat (map (\<lambda>t. tier_sum t per) tier_order))"

definition frontier_share :: "tier_spend list \<Rightarrow> rat \<times> rat" where
  "frontier_share tiers =
     (case filter (\<lambda>t. ts_tier t = TierStrong) tiers of
        [] \<Rightarrow> (0, 0) | t # _ \<Rightarrow> (ts_usd_share t, ts_token_share t))"

text \<open>The difference of two instants saturates at 64 bits.\<close>

definition time_sub :: "int \<Rightarrow> int \<Rightarrow> int" where
  "time_sub a b = max (- (2 ^ 63)) (min (2 ^ 63 - 1) (a - b))"

definition elapsed_days :: "int \<Rightarrow> int \<Rightarrow> rat" where
  "elapsed_days since until = of_int (time_sub until since) / (3600 * 10 ^ 9) / 24"

definition in_period :: "int \<Rightarrow> int \<Rightarrow> session_costs \<Rightarrow> bool" where
  "in_period since until s = (\<not> ss_created_at s < since \<and> \<not> ss_created_at s > until)"

text \<open>The entry of a model, made when it is first seen, takes one more cost row.\<close>

fun add_spend :: "cost_row \<Rightarrow> model_spend list \<Rightarrow> model_spend list" where
  "add_spend c [] =
     [\<lparr>sp_model = cr_model c, sp_input = cr_input c, sp_output = cr_output c, sp_usd = cr_usd c,
       sp_priced = is_priced (cr_model c)\<rparr>]"
| "add_spend c (m # ms) =
     (if sp_model m = cr_model c
      then m\<lparr>sp_input := sp_input m + cr_input c, sp_output := sp_output m + cr_output c,
             sp_usd := sp_usd m + cr_usd c\<rparr> # ms
      else m # add_spend c ms)"

definition spend_by_model :: "cost_row list \<Rightarrow> model_spend list" where
  "spend_by_model cs = fold add_spend cs []"

definition project :: "session_costs list \<Rightarrow> int \<Rightarrow> int \<Rightarrow> report option" where
  "project sessions since until =
     (let days = elapsed_days since until
      in if days \<le> 0 then None
         else (let counted = filter (in_period since until) sessions;
                   order = spend_by_model (concat (map ss_costs counted));
                   paid = sum_list (map sp_usd order);
                   per = sort_key (\<lambda>m. - sp_usd m) (sort_key sp_model order)
               in Some \<lparr>rep_since = since, rep_until = until, rep_elapsed_days = days,
                    rep_sessions = int (length counted), rep_paid_usd = paid,
                    rep_projected_monthly_usd = paid / days * 30, rep_per_model = per,
                    rep_unpriced = map sp_model (filter (\<lambda>m. \<not> sp_priced m) order),
                    rep_per_tier = rollup_tiers per\<rparr>))"

subsection \<open>Conservation\<close>

lemma add_spend_sums:
  "sum_list (map sp_usd (add_spend c ms)) = cr_usd c + sum_list (map sp_usd ms)"
  "sum_list (map (\<lambda>m. sp_input m + sp_output m) (add_spend c ms))
     = cr_input c + cr_output c + sum_list (map (\<lambda>m. sp_input m + sp_output m) ms)"
  by (induction ms) auto

lemma spend_sums:
  "sum_list (map sp_usd (fold add_spend cs ms)) = sum_list (map cr_usd cs) + sum_list (map sp_usd ms)"
  "sum_list (map (\<lambda>m. sp_input m + sp_output m) (fold add_spend cs ms))
     = sum_list (map (\<lambda>c. cr_input c + cr_output c) cs) + sum_list (map (\<lambda>m. sp_input m + sp_output m) ms)"
  by (induction cs arbitrary: ms) (simp_all add: add_spend_sums)

lemma add_spend_models:
  "set (map sp_model (add_spend c ms)) = insert (cr_model c) (set (map sp_model ms))"
  "distinct (map sp_model ms) \<Longrightarrow> distinct (map sp_model (add_spend c ms))"
proof -
  show s: "set (map sp_model (add_spend c ms)) = insert (cr_model c) (set (map sp_model ms))" for ms
    by (induction ms) auto
  show "distinct (map sp_model ms) \<Longrightarrow> distinct (map sp_model (add_spend c ms))"
  proof (induction ms)
    case (Cons m ms)
    then show ?case using s [of ms] by auto
  qed simp
qed

lemma spend_models:
  "distinct (map sp_model ms) \<Longrightarrow> distinct (map sp_model (fold add_spend cs ms))
     \<and> set (map sp_model (fold add_spend cs ms)) = cr_model ` set cs \<union> set (map sp_model ms)"
proof (induction cs arbitrary: ms)
  case (Cons c cs)
  show ?case using Cons.IH [OF add_spend_models(2) [OF Cons.prems]] add_spend_models(1) [of c ms] by auto
qed simp

text \<open>A sum over the models is the sum over the tiers of the sums over their models.\<close>

lemma tier_partition:
  fixes f :: "model_spend \<Rightarrow> 'a::comm_monoid_add"
  shows "sum_list (map (\<lambda>t. sum_list (map f (filter (\<lambda>m. classify_tier (sp_model m) = t) per))) tier_order)
    = sum_list (map f per)"
proof (induction per)
  case (Cons m per)
  then show ?case by (cases "classify_tier (sp_model m)") (simp_all add: tier_order_def ac_simps)
qed (simp add: tier_order_def)

lemma tier_sum_pieces:
  "sum_list (map ts_usd (tier_sum t per)) = sum_list (map sp_usd (filter (\<lambda>m. classify_tier (sp_model m) = t) per))"
  "sum_list (map (\<lambda>s. ts_input s + ts_output s) (tier_sum t per))
     = sum_list (map (\<lambda>m. sp_input m + sp_output m) (filter (\<lambda>m. classify_tier (sp_model m) = t) per))"
  by (simp_all add: tier_sum_def Let_def sum_list_addf)

lemma sum_list_concat_map: "sum_list (map f (concat (map g xs))) = sum_list (map (\<lambda>x. sum_list (map f (g x))) xs)"
  for f :: "'b \<Rightarrow> 'c::comm_monoid_add"
  by (induction xs) simp_all

lemma rollup_sums:
  "sum_list (map ts_usd (rollup_tiers per)) = sum_list (map sp_usd per)"
  "sum_list (map (\<lambda>s. ts_input s + ts_output s) (rollup_tiers per)) = sum_list (map (\<lambda>m. sp_input m + sp_output m) per)"
proof -
  have [simp]: "ts_usd (with_shares u n s) = ts_usd s" "ts_input (with_shares u n s) = ts_input s"
    "ts_output (with_shares u n s) = ts_output s" for u n s by (simp_all add: with_shares_def)
  show "sum_list (map ts_usd (rollup_tiers per)) = sum_list (map sp_usd per)"
    "sum_list (map (\<lambda>s. ts_input s + ts_output s) (rollup_tiers per)) = sum_list (map (\<lambda>m. sp_input m + sp_output m) per)"
    by (simp_all add: rollup_tiers_def comp_def sum_list_concat_map tier_sum_pieces tier_partition)
qed

lemma sum_list_divide: "sum_list (map (\<lambda>x. f x / c) xs) = sum_list (map f xs) / (c :: rat)"
  by (induction xs) (simp_all add: add_divide_distrib)

lemma sum_list_of_int: "sum_list (map (\<lambda>x. of_int (f x)) xs) = (of_int (sum_list (map f xs)) :: rat)"
  by (induction xs) simp_all

lemma rollup_shares:
  "sum_list (map ts_usd_share (rollup_tiers per)) = (if sum_list (map sp_usd per) > 0 then 1 else 0)"
  "sum_list (map ts_token_share (rollup_tiers per))
     = (if sum_list (map (\<lambda>m. sp_input m + sp_output m) per) > 0 then 1 else 0)"
proof -
  let ?u = "sum_list (map sp_usd per)" and ?n = "sum_list (map (\<lambda>m. sp_input m + sp_output m) per)"
  let ?ts = "concat (map (\<lambda>t. tier_sum t per) tier_order)"
  have u: "sum_list (map ts_usd ?ts) = ?u" and n: "sum_list (map (\<lambda>s. ts_input s + ts_output s) ?ts) = ?n"
    by (simp_all add: sum_list_concat_map tier_sum_pieces tier_partition)
  have "sum_list (map ts_usd_share (rollup_tiers per)) = sum_list (map (\<lambda>s. if ?u > 0 then ts_usd s / ?u else 0) ?ts)"
    by (simp add: rollup_tiers_def with_shares_def comp_def)
  then show "sum_list (map ts_usd_share (rollup_tiers per)) = (if ?u > 0 then 1 else 0)"
    by (cases "?u > 0") (simp_all add: sum_list_divide u)
  have "sum_list (map ts_token_share (rollup_tiers per))
      = sum_list (map (\<lambda>s. if ?n > 0 then of_int (ts_input s + ts_output s) / of_int ?n else 0) ?ts)"
    by (simp add: rollup_tiers_def with_shares_def comp_def)
  then show "sum_list (map ts_token_share (rollup_tiers per)) = (if ?n > 0 then 1 else 0)"
    by (cases "?n > 0") (simp_all add: sum_list_divide sum_list_of_int n del: of_int_add)
qed

lemma sum_list_sorted: "sum_list (map f (sort_key g xs)) = sum_list (map f xs)"
  for f :: "'b \<Rightarrow> 'c::comm_monoid_add" and g :: "'b \<Rightarrow> 'd::linorder"
proof -
  have "mset (map f (sort_key g xs)) = mset (map f xs)" by simp
  then show ?thesis by (metis sum_mset_sum_list)
qed

text \<open>A report loses nothing: the paid sum, the sum over the models and the sum over the tiers are all the sum of
  the costs of the sessions in the period, each model has one entry, and the tiers' shares of cost and
  tokens are fractions of one.\<close>

theorem project_conserves:
  assumes "project sessions since until = Some rep"
  shows "let rows = concat (map ss_costs (filter (in_period since until) sessions))
    in rep_paid_usd rep = sum_list (map cr_usd rows)
       \<and> sum_list (map sp_usd (rep_per_model rep)) = sum_list (map cr_usd rows)
       \<and> sum_list (map ts_usd (rep_per_tier rep)) = sum_list (map cr_usd rows)
       \<and> sum_list (map (\<lambda>s. ts_input s + ts_output s) (rep_per_tier rep))
           = sum_list (map (\<lambda>c. cr_input c + cr_output c) rows)
       \<and> distinct (map sp_model (rep_per_model rep)) \<and> set (map sp_model (rep_per_model rep)) = cr_model ` set rows
       \<and> sum_list (map ts_usd_share (rep_per_tier rep)) = (if rep_paid_usd rep > 0 then 1 else 0)
       \<and> rep_projected_monthly_usd rep * rep_elapsed_days rep = 30 * rep_paid_usd rep
       \<and> 0 < rep_elapsed_days rep"
proof -
  let ?rows = "concat (map ss_costs (filter (in_period since until) sessions))"
  let ?order = "spend_by_model ?rows"
  let ?per = "sort_key (\<lambda>m. - sp_usd m) (sort_key sp_model ?order)"
  have rep: "rep_paid_usd rep = sum_list (map sp_usd ?order)" "rep_per_model rep = ?per"
    "rep_per_tier rep = rollup_tiers ?per" "0 < rep_elapsed_days rep"
    "rep_projected_monthly_usd rep = rep_paid_usd rep / rep_elapsed_days rep * 30"
    using assms by (auto simp: project_def Let_def split: if_splits)
  have order: "sum_list (map sp_usd ?order) = sum_list (map cr_usd ?rows)"
    "sum_list (map (\<lambda>m. sp_input m + sp_output m) ?order) = sum_list (map (\<lambda>c. cr_input c + cr_output c) ?rows)"
    "distinct (map sp_model ?order)" "set (map sp_model ?order) = cr_model ` set ?rows"
    using spend_sums [of ?rows "[]"] spend_models [of "[]" ?rows] by (simp_all add: spend_by_model_def)
  have per: "sum_list (map f ?per) = sum_list (map f ?order)" for f :: "model_spend \<Rightarrow> 'z::comm_monoid_add"
    by (simp add: sum_list_sorted)
  have "distinct (map sp_model ?per)"
    using order(3) by (simp add: distinct_map)
  then show ?thesis
    unfolding Let_def rep(2,3) rollup_sums rollup_shares per
    using rep(1,4,5) order by simp
qed

theorem project_conserves_witness:
  "\<exists>rep. project [\<lparr>ss_run_id = ''A'', ss_created_at = 5, ss_costs = [\<lparr>cr_turn = 0, cr_model = ''m'', cr_input = 1,
     cr_output = 2, cr_usd = 3, cr_created_at = []\<rparr>]\<rparr>] 0 (86400 * 10 ^ 9) = Some rep \<and> rep_paid_usd rep = 3"
proof -
  let ?s = "[\<lparr>ss_run_id = ''A'', ss_created_at = 5, ss_costs = [\<lparr>cr_turn = 0, cr_model = ''m'', cr_input = 1,
     cr_output = 2, cr_usd = 3, cr_created_at = []\<rparr>]\<rparr>]"
  have "elapsed_days 0 (86400 * 10 ^ 9) > 0" by (simp add: elapsed_days_def time_sub_def)
  then obtain rep where r: "project ?s 0 (86400 * 10 ^ 9) = Some rep" by (simp add: project_def Let_def)
  from project_conserves [OF r] have "rep_paid_usd rep = 3"
    by (simp add: Let_def in_period_def)
  with r show ?thesis by blast
qed

end
