(* ===== verification/Profile.thy ===== *)
theory Profile
  imports Tool_Types "HOL-Library.List_Lexorder" "HOL-Library.Char_ord"
begin

text \<open>
  Job profiles, \<open>internal/profile\<close>: the capability envelope stamped on a worker (\<open>profile.go\<close>), the
  registry and its overlay (\<open>registry.go\<close>, \<open>embed.go\<close>), keyword matching (\<open>match.go\<close>) and the selection of
  a profile for a prompt (\<open>select.go\<close>). The TOML decoder is a parameter of the loaders, and a directory is
  the list of its entries in the order of their names, as \<open>fs.ReadDir\<close> gives them.
\<close>

subsection \<open>Profiles\<close>

record surface_scope =
  sco_surface :: string
  sco_actions :: "string list"

record profile =
  pf_name :: string
  pf_duty :: string
  pf_signals :: "string list"
  pf_rescope_to :: "string list"
  pf_tools :: "surface_scope list"
  pf_skills :: "string list"
  pf_context_shapes :: "string list"
  pf_required_shape :: string
  pf_tier :: string
  pf_escalate_on :: "string list"
  pf_system_prompt :: string
  pf_coding_rung :: bool
  pf_verify_command :: "string list"
  pf_verify_max_rounds :: int
  pf_protect_paths :: "string list"
  pf_max_tool_rounds :: int

definition valid_tiers :: "string list" where
  "valid_tiers = [''local'', ''mid'', ''strong'']"

datatype profile_error =
    ProfileNoName
  | ProfileNoTier string
  | ProfileUnknownTier string string
  | ScopeNoSurface string
  | ScopeTwice string string

fun validate_scopes :: "string \<Rightarrow> string list \<Rightarrow> surface_scope list \<Rightarrow> profile_error option" where
  "validate_scopes name seen [] = None"
| "validate_scopes name seen (t # ts) =
     (let s = trim_space (sco_surface t)
      in if s = [] then Some (ScopeNoSurface name)
         else if s \<in> set seen then Some (ScopeTwice name s)
         else validate_scopes name (s # seen) ts)"

definition validate_profile :: "profile \<Rightarrow> profile_error option" where
  "validate_profile p =
     (if trim_space (pf_name p) = [] then Some ProfileNoName
      else if pf_tier p = [] then Some (ProfileNoTier (pf_name p))
      else if pf_tier p \<notin> set valid_tiers then Some (ProfileUnknownTier (pf_name p) (pf_tier p))
      else validate_scopes (pf_name p) [] (pf_tools p))"

definition surfaces :: "profile \<Rightarrow> string list" where
  "surfaces p = sort (map sco_surface (pf_tools p))"

text \<open>What a scope grants: no action listed means every action of the surface.\<close>

definition mutating_actions :: "string \<Rightarrow> string list option" where
  "mutating_actions s =
     (if s = ''fs'' then Some [''write'', ''edit''] else if s = ''sys'' then Some [''exec''] else None)"

definition mutates_files :: "profile \<Rightarrow> bool" where
  "mutates_files p = list_ex (\<lambda>t. sco_surface t = ''fs'' \<and>
     (sco_actions t = [] \<or> list_ex (\<lambda>a. a \<in> set [''write'', ''edit'', ''move'', ''remove'']) (sco_actions t))) (pf_tools p)"

definition mutator_surface_dropped :: "profile option \<Rightarrow> string list \<Rightarrow> bool" where
  "mutator_surface_dropped p projected =
     (case p of None \<Rightarrow> False | Some p \<Rightarrow> mutates_files p \<and> ''fs'' \<notin> set projected)"

definition tool_dependent :: "profile \<Rightarrow> bool" where
  "tool_dependent p = list_ex (\<lambda>t. case mutating_actions (sco_surface t) of
       None \<Rightarrow> False
     | Some muts \<Rightarrow> sco_actions t = [] \<or> list_ex (\<lambda>a. a \<in> set muts) (sco_actions t)) (pf_tools p)"

definition toolless_text :: "string \<Rightarrow> bool \<Rightarrow> string" where
  "toolless_text name degraded =
     ''tool-dependent profile '' @ go_quote name @ '' projects 0 tool surfaces '' @ em_dash @ '' ''
     @ (if degraded
        then ''the MCP endpoint was unreachable at startup (tool specs degraded to enum-less stubs, so the action-scoped surfaces were dropped)''
        else ''the tool catalog is empty (no fs/sys surface to project)'')
     @ ''. A profile that writes code or runs commands cannot run toolless (it can only spin to its timeout and emit a fake-empty result). Bring up the MCP endpoint, or run a read-only/non-tool-dependent profile. Refusing to start.''"

definition toolless_abort :: "profile option \<Rightarrow> int \<Rightarrow> bool \<Rightarrow> bool \<times> string" where
  "toolless_abort p projected degraded =
     (case p of
        None \<Rightarrow> (False, [])
      | Some p \<Rightarrow> if \<not> tool_dependent p \<or> projected > 0 then (False, [])
                   else (True, toolless_text (pf_name p) degraded))"

subsection \<open>The registry\<close>

text \<open>A registry maps names to profiles; its order is not observable, as \<open>registry_names\<close> sorts.\<close>

type_synonym registry = "(string \<times> profile) list"

datatype load_error =
    InvalidProfile profile_error
  | DuplicateProfile string
  | OverlayNoName
  | ReadDirFailed string string
  | ReadProfileFailed string string
  | ParseProfileFailed string string

fun add_profiles :: "registry \<Rightarrow> profile list \<Rightarrow> load_error + registry" where
  "add_profiles m [] = Inr m"
| "add_profiles m (p # ps) =
     (case validate_profile p of
        Some e \<Rightarrow> Inl (InvalidProfile e)
      | None \<Rightarrow> if map_of m (pf_name p) \<noteq> None then Inl (DuplicateProfile (pf_name p))
                 else add_profiles (m @ [(pf_name p, p)]) ps)"

definition new_registry :: "profile list \<Rightarrow> load_error + registry" where
  "new_registry ps = add_profiles [] ps"

definition registry_get :: "registry \<Rightarrow> string \<Rightarrow> profile option" where
  "registry_get r name = map_of r name"

definition registry_names :: "registry \<Rightarrow> string list" where
  "registry_names r = sort (map fst r)"

definition registry_len :: "registry \<Rightarrow> int" where
  "registry_len r = int (length r)"

fun union_onto :: "string list \<Rightarrow> string list \<Rightarrow> string list" where
  "union_onto out [] = out"
| "union_onto out (s # ss) = union_onto (if s \<noteq> [] \<and> s \<notin> set out then out @ [s] else out) ss"

definition union_skills :: "string list \<Rightarrow> string list \<Rightarrow> string list" where
  "union_skills a b = union_onto (union_onto [] a) b"

text \<open>The index maps a name to the last profile of the base that has it.\<close>

definition last_index :: "string \<Rightarrow> profile list \<Rightarrow> nat option" where
  "last_index name ps = map_of (rev (zip (map pf_name ps) [0..<length ps])) name"

fun overlay_onto :: "profile list \<Rightarrow> profile list \<Rightarrow> load_error + profile list" where
  "overlay_onto out [] = Inr out"
| "overlay_onto out (p # ps) =
     (if trim_space (pf_name p) = [] then Inl OverlayNoName
      else case last_index (pf_name p) out of
             Some i \<Rightarrow> overlay_onto (out[i := (out ! i)\<lparr>pf_skills := union_skills (pf_skills (out ! i)) (pf_skills p)\<rparr>]) ps
           | None \<Rightarrow> overlay_onto (out @ [p]) ps)"

definition merge_profiles :: "profile list \<Rightarrow> profile list \<Rightarrow> load_error + profile list" where
  "merge_profiles base overlay = overlay_onto base overlay"

subsection \<open>Loading\<close>

record lib_entry =
  le_name :: string
  le_dir :: bool
  le_read :: "string + string"

fun load_entries :: "(string \<Rightarrow> string + profile) \<Rightarrow> lib_entry list \<Rightarrow> load_error + profile list" where
  "load_entries toml [] = Inr []"
| "load_entries toml (e # es) =
     (if le_dir e \<or> \<not> has_suffix (le_name e) ''.toml'' then load_entries toml es
      else case le_read e of
             Inl m \<Rightarrow> Inl (ReadProfileFailed (le_name e) m)
           | Inr b \<Rightarrow>
               (case toml b of
                  Inl m \<Rightarrow> Inl (ParseProfileFailed (le_name e) m)
                | Inr p \<Rightarrow> (case load_entries toml es of Inl x \<Rightarrow> Inl x | Inr ps \<Rightarrow> Inr (p # ps))))"

definition load_dir :: "(string \<Rightarrow> string + profile) \<Rightarrow> string \<Rightarrow> string + lib_entry list \<Rightarrow> load_error + profile list" where
  "load_dir toml label listing =
     (case listing of Inl m \<Rightarrow> Inl (ReadDirFailed label m) | Inr es \<Rightarrow> load_entries toml es)"

definition load_registry :: "(string \<Rightarrow> string + profile) \<Rightarrow> string \<Rightarrow> string + lib_entry list \<Rightarrow> load_error + registry" where
  "load_registry toml dir listing =
     (case load_dir toml dir listing of Inl e \<Rightarrow> Inl e | Inr ps \<Rightarrow> new_registry ps)"

definition builtin_registry ::
  "(string \<Rightarrow> string + profile) \<Rightarrow> string + lib_entry list \<Rightarrow> string + lib_entry list \<Rightarrow> load_error + registry" where
  "builtin_registry toml library userlib =
     (case load_dir toml ''builtin'' library of
        Inl e \<Rightarrow> Inl e
      | Inr base \<Rightarrow>
          (case load_dir toml ''builtin-userlib'' userlib of
             Inl e \<Rightarrow> Inl e
           | Inr overlay \<Rightarrow>
               (case merge_profiles base overlay of Inl e \<Rightarrow> Inl e | Inr ps \<Rightarrow> new_registry ps)))"

subsection \<open>Matching and selecting\<close>

definition word_set :: "string \<Rightarrow> string set" where
  "word_set prompt = set (map to_lower (Go_Prelude.fields prompt))"

fun hits_from :: "string set \<Rightarrow> string list \<Rightarrow> string list \<Rightarrow> string list" where
  "hits_from words counted [] = []"
| "hits_from words counted (kw # kws) =
     (let lk = to_lower kw
      in if lk \<in> set counted then hits_from words counted kws
         else (if lk \<in> words then [lk] else []) @ hits_from words (lk # counted) kws)"

definition signal_hits :: "string set \<Rightarrow> string list \<Rightarrow> int \<times> string list" where
  "signal_hits words kws = (let m = hits_from words [] kws in (int (length m), m))"

record candidate =
  cd_name :: string
  cd_keywords :: "string list"

fun match_from :: "string set \<Rightarrow> candidate list \<Rightarrow> string \<times> int \<Rightarrow> string \<times> int" where
  "match_from words [] best = best"
| "match_from words (c # cs) best =
     (let score = fst (signal_hits words (cd_keywords c))
      in match_from words cs (if score > snd best then (cd_name c, score) else best))"

definition match_prompt :: "string \<Rightarrow> candidate list \<Rightarrow> string \<Rightarrow> string \<times> int" where
  "match_prompt prompt cs fallback = match_from (word_set prompt) cs (fallback, 0)"

definition reference_shape :: "go_value \<Rightarrow> string list" where
  "reference_shape r =
     (case r of
        VMap kvs \<Rightarrow> (case map_of kvs ''shape'' of Some (VStr s) \<Rightarrow> if s \<noteq> [] then [s] else [] | _ \<Rightarrow> [])
      | _ \<Rightarrow> [])"

type_synonym envelope = "(string \<rightharpoonup> go_value) option"

definition envelope_shapes :: "envelope \<Rightarrow> string \<Rightarrow> int" where
  "envelope_shapes env =
     (case env of
        None \<Rightarrow> (\<lambda>_. 0)
      | Some e \<Rightarrow>
          (case e ''references'' of
             Some (VList refs) \<Rightarrow> (\<lambda>s. int (count_list (concat (map reference_shape refs)) s))
           | _ \<Rightarrow> (\<lambda>_. 0)))"

fun shapes_from :: "(string \<Rightarrow> int) \<Rightarrow> string list \<Rightarrow> string list \<Rightarrow> string list" where
  "shapes_from present seen [] = []"
| "shapes_from present seen (sh # shs) =
     (if sh \<in> set seen then shapes_from present seen shs
      else (if present sh > 0 then [sh] else []) @ shapes_from present (sh # seen) shs)"

definition shape_affinity :: "(string \<Rightarrow> int) \<Rightarrow> string list \<Rightarrow> int \<times> string list" where
  "shape_affinity present shs = (let m = shapes_from present [] shs in (int (length m), m))"

record selection =
  sel_profile :: string
  sel_score :: int
  sel_fallback :: bool
  sel_reason :: string
  sel_signals :: "string list"
  sel_shapes :: "string list"

record scored =
  sd_name :: string
  sd_total :: int
  sd_signals :: "string list"
  sd_shapes :: "string list"

definition signal_weight :: int where
  "signal_weight = 2"

definition shape_weight :: int where
  "shape_weight = 1"

text \<open>The evidence for one name of the registry, if it is a candidate at all and has any.\<close>

definition score_profile :: "string set \<Rightarrow> (string \<Rightarrow> int) \<Rightarrow> registry \<Rightarrow> string \<Rightarrow> scored list" where
  "score_profile words shapes reg name =
     (case registry_get reg name of
        None \<Rightarrow> []
      | Some p \<Rightarrow>
          if pf_signals p = [] then []
          else if pf_required_shape p \<noteq> [] \<and> shapes (pf_required_shape p) = 0 then []
          else (let (sig_n, sig_hits) = signal_hits words (pf_signals p);
                    (shape_n, shape_hits) = shape_affinity shapes (pf_context_shapes p);
                    total = sig_n * signal_weight + shape_n * shape_weight
                in if total = 0 then []
                   else [\<lparr>sd_name = name, sd_total = total, sd_signals = sig_hits, sd_shapes = shape_hits\<rparr>]))"

definition ranked_profiles :: "string \<Rightarrow> envelope \<Rightarrow> registry \<Rightarrow> scored list" where
  "ranked_profiles prompt env reg =
     sort_key (\<lambda>s. - sd_total s)
       (concat (map (score_profile (word_set prompt) (envelope_shapes env) reg) (registry_names reg)))"

definition arrow :: string where
  "arrow = [CHR 0xE2, CHR 0x86, CHR 0x92]"

definition select_winner :: "scored \<Rightarrow> selection" where
  "select_winner w =
     \<lparr>sel_profile = sd_name w, sel_score = sd_total w, sel_fallback = False,
      sel_reason = ''auto-selected '' @ go_quote (sd_name w) @ '' (score '' @ itoa (sd_total w) @ ''): signals=[''
        @ join '' '' (sd_signals w) @ ''] shapes=['' @ join '' '' (sd_shapes w) @ '']'',
      sel_signals = sd_signals w, sel_shapes = sd_shapes w\<rparr>"

definition select_profile :: "string \<Rightarrow> envelope \<Rightarrow> registry \<Rightarrow> string \<Rightarrow> selection" where
  "select_profile prompt env reg default_name =
     (case ranked_profiles prompt env reg of
        [] \<Rightarrow> \<lparr>sel_profile = default_name, sel_score = 0, sel_fallback = True,
           sel_reason = ''no profile signal matched the prompt '' @ arrow @ '' safe default '' @ go_quote default_name,
           sel_signals = [], sel_shapes = []\<rparr>
      | w # rest \<Rightarrow>
          (case rest of
             v # _ \<Rightarrow>
               if sd_total w = sd_total v
               then \<lparr>sel_profile = default_name, sel_score = sd_total w, sel_fallback = True,
                  sel_reason = ''ambiguous: '' @ go_quote (sd_name w) @ '' and '' @ go_quote (sd_name v) @ '' tied at ''
                    @ itoa (sd_total w) @ '' '' @ arrow @ '' safe default '' @ go_quote default_name,
                  sel_signals = [], sel_shapes = []\<rparr>
               else select_winner w
           | [] \<Rightarrow> select_winner w))"

definition footprint_floor :: "string \<Rightarrow> int \<Rightarrow> int \<Rightarrow> int \<Rightarrow> string" where
  "footprint_floor declared footprint reserve window =
     (if declared \<noteq> ''local'' \<or> window \<le> 0 then declared
      else if footprint + reserve > window then ''mid'' else declared)"

end
