(* ===== verification/Profile_Props.thy ===== *)
theory Profile_Props
  imports Profile "HOL-Library.Multiset"
begin

text \<open>Properties of job profiles: which libraries load, what an overlay may change, which profile a prompt
  selects.\<close>

subsection \<open>The registry\<close>






subsection \<open>The overlay\<close>

lemma union_onto_set: "set (union_onto out ss) = set out \<union> (set ss - {[]})"
  by (induction ss arbitrary: out) auto

lemma union_onto_prefix: "\<exists>more. union_onto out ss = out @ more"
proof (induction ss arbitrary: out)
  case (Cons s ss)
  show ?case using Cons.IH [of out] Cons.IH [of "out @ [s]"] by auto
qed simp

lemma union_onto_distinct: "distinct out \<Longrightarrow> distinct (union_onto out ss)"
  by (induction ss arbitrary: out) auto

lemma union_skills_facts:
  "set (union_skills a b) = (set a \<union> set b) - {[]}" "distinct (union_skills a b)"
  "\<exists>more. union_skills a b = union_onto [] a @ more"
  unfolding union_skills_def
  by (auto simp: union_onto_set union_onto_prefix intro!: union_onto_distinct)

lemma last_index_Some: "last_index n ps = Some i \<Longrightarrow> i < length ps \<and> pf_name (ps ! i) = n"
  by (force simp: last_index_def in_set_zip dest!: map_of_SomeD)

lemma last_index_None: "last_index n ps = None \<longleftrightarrow> n \<notin> pf_name ` set ps"
proof -
  have "fst ` set (zip (map pf_name ps) [0..<length ps]) = pf_name ` set ps"
    by (metis length_map length_upt list.set_map map_fst_zip minus_nat.diff_0)
  then show ?thesis by (simp add: last_index_def map_of_eq_None_iff)
qed

text \<open>\<open>extends ov b p\<close>: the profile \<open>p\<close> is \<open>b\<close> with skills of the overlay's entries of its name added, and
  nothing else.\<close>

definition extends :: "profile list \<Rightarrow> profile \<Rightarrow> profile \<Rightarrow> bool" where
  "extends ov b p \<longleftrightarrow> p\<lparr>pf_skills := []\<rparr> = b\<lparr>pf_skills := []\<rparr>
     \<and> set (pf_skills b) - {[]} \<subseteq> set (pf_skills p)
     \<and> set (pf_skills p) \<subseteq> set (pf_skills b) \<union> \<Union> (set ` pf_skills ` {x \<in> set ov. pf_name x = pf_name b})"

lemma extends_refl: "extends ov b b"
  by (auto simp: extends_def)

lemma same_name: "p\<lparr>pf_skills := []\<rparr> = b\<lparr>pf_skills := []\<rparr> \<Longrightarrow> pf_name p = pf_name b"
  by (drule arg_cong [of _ _ pf_name]) simp

lemma extends_name: "extends ov b p \<Longrightarrow> pf_name p = pf_name b"
  unfolding extends_def using same_name by blast

lemma extends_step:
  assumes "extends ov b p" "x \<in> set ov" "pf_name x = pf_name b"
  shows "extends ov b (p\<lparr>pf_skills := union_skills (pf_skills p) (pf_skills x)\<rparr>)"
  using assms by (auto simp: extends_def union_skills_facts)

lemma overlay_onto_extends:
  assumes "overlay_onto out xs = Inr res" "set xs \<subseteq> set ov" "list_all2 (extends ov) base (take (length base) out)"
  shows "list_all2 (extends ov) base (take (length base) res)"
  using assms
proof (induction xs arbitrary: out)
  case (Cons x xs)
  note len = list_all2_lengthD [OF Cons.prems(3)]
  show ?case
  proof (cases "last_index (pf_name x) out")
    case None
    with Cons.prems have "overlay_onto (out @ [x]) xs = Inr res" by (simp split: if_splits)
    with Cons.IH [of "out @ [x]"] Cons.prems(2,3) len show ?thesis by simp
  next
    case (Some i)
    let ?p = "(out ! i)\<lparr>pf_skills := union_skills (pf_skills (out ! i)) (pf_skills x)\<rparr>"
    have i: "i < length out" "pf_name (out ! i) = pf_name x" using last_index_Some [OF Some] by auto
    have "list_all2 (extends ov) base (take (length base) (out[i := ?p]))"
    proof (cases "i < length base")
      case True
      have e: "extends ov (base ! i) (out ! i)"
        using list_all2_nthD [OF Cons.prems(3) True] True by simp
      have "extends ov (base ! i) ?p"
        using extends_step [OF e, of x] Cons.prems(2) i(2) extends_name [OF e] by simp
      then have "list_all2 (extends ov) (base[i := base ! i]) ((take (length base) out)[i := ?p])"
        by (rule list_all2_update_cong [OF Cons.prems(3)])
      then show ?thesis by (simp add: take_update_swap)
    qed (use Cons.prems(3) in simp)
    moreover have "overlay_onto (out[i := ?p]) xs = Inr res" using Cons.prems Some by (simp split: if_splits)
    ultimately show ?thesis using Cons.IH [of "out[i := ?p]"] Cons.prems(2) by simp
  qed
qed simp

lemma overlay_onto_names:
  assumes "overlay_onto out xs = Inr res"
  shows "pf_name ` set res = pf_name ` set out \<union> pf_name ` set xs
    \<and> (distinct (map pf_name out) \<longrightarrow> distinct (map pf_name res))"
  using assms
proof (induction xs arbitrary: out)
  case (Cons x xs)
  show ?case
  proof (cases "last_index (pf_name x) out")
    case None
    with Cons.prems have "overlay_onto (out @ [x]) xs = Inr res" by (simp split: if_splits)
    from Cons.IH [OF this] None show ?thesis by (auto simp: last_index_None)
  next
    case (Some i)
    let ?p = "(out ! i)\<lparr>pf_skills := union_skills (pf_skills (out ! i)) (pf_skills x)\<rparr>"
    have i: "i < length out" "pf_name (out ! i) = pf_name x" using last_index_Some [OF Some] by auto
    have m: "map pf_name (out[i := ?p]) = map pf_name out"
      using i(1) by (simp add: map_update) (metis length_map list_update_id nth_map)
    from arg_cong [OF m, of set] have s: "pf_name ` set (out[i := ?p]) = pf_name ` set out" by simp
    have "pf_name x \<in> pf_name ` set out" using i by (metis image_eqI nth_mem)
    moreover have "overlay_onto (out[i := ?p]) xs = Inr res" using Cons.prems Some by (simp split: if_splits)
    from Cons.IH [OF this] have "pf_name ` set res = pf_name ` set out \<union> pf_name ` set xs
        \<and> (distinct (map pf_name out) \<longrightarrow> distinct (map pf_name res))" unfolding m s .
    ultimately show ?thesis by auto
  qed
qed simp

text \<open>An overlay only ever adds: a merge keeps every profile of the base, in its place and with every field
  unchanged but the skills, to which it adds those that entries of the same name list; everything else
  it holds is new under its own name.\<close>

theorem overlay_only_adds:
  assumes "merge_profiles base ov = Inr res"
  shows "list_all2 (extends ov) base (take (length base) res)
    \<and> pf_name ` set res = pf_name ` set base \<union> pf_name ` set ov
    \<and> (distinct (map pf_name res) = False \<longrightarrow> distinct (map pf_name base) = False)"
  using overlay_onto_extends [of base ov res ov base] overlay_onto_names [of base ov res] assms
  by (auto simp: merge_profiles_def list_all2_same extends_refl)

definition sample_profile :: "string \<Rightarrow> string list \<Rightarrow> string list \<Rightarrow> profile" where
  "sample_profile name signals skills =
     \<lparr>pf_name = name, pf_duty = [], pf_signals = signals, pf_rescope_to = [],
      pf_tools = [\<lparr>sco_surface = ''fs'', sco_actions = [''read'']\<rparr>], pf_skills = skills,
      pf_context_shapes = [''path''], pf_required_shape = [], pf_tier = ''local'', pf_escalate_on = [],
      pf_system_prompt = [], pf_coding_rung = False, pf_verify_command = [], pf_verify_max_rounds = 0,
      pf_protect_paths = [], pf_max_tool_rounds = 0\<rparr>"

theorem overlay_only_adds_witness:
  "\<exists>res. merge_profiles [sample_profile ''a'' [] [''x'']] [sample_profile ''a'' [''k''] [''y'', ''x'']] = Inr res
     \<and> pf_skills (hd res) = [''x'', ''y'']
     \<and> list_all2 (extends [sample_profile ''a'' [''k''] [''y'', ''x'']]) [sample_profile ''a'' [] [''x'']] res"
proof -
  let ?r = "[sample_profile ''a'' [] [''x'', ''y'']]"
  have m: "merge_profiles [sample_profile ''a'' [] [''x'']] [sample_profile ''a'' [''k''] [''y'', ''x'']] = Inr ?r"
    by code_simp
  have "pf_skills (hd ?r) = [''x'', ''y'']" by (simp add: sample_profile_def)
  with overlay_only_adds [OF m] m show ?thesis by (intro exI [of _ ?r]) simp
qed

subsection \<open>Selection\<close>

lemma hits_from_facts:
  "set (hits_from words counted kws) = to_lower ` set kws \<inter> words - set counted \<and> distinct (hits_from words counted kws)"
  by (induction kws arbitrary: counted) (auto simp: Let_def)

lemma shapes_from_facts:
  "set (shapes_from present seen shs) = {sh \<in> set shs. present sh > 0} - set seen \<and> distinct (shapes_from present seen shs)"
  by (induction shs arbitrary: seen) auto

text \<open>The evidence a prompt gives for a profile: two for each of its signals that is a word of the prompt, one
  for each of its shapes that the envelope refers to.\<close>

definition evidence :: "string set \<Rightarrow> (string \<Rightarrow> int) \<Rightarrow> profile \<Rightarrow> int" where
  "evidence words shapes p = 2 * int (card (to_lower ` set (pf_signals p) \<inter> words))
     + int (card {sh \<in> set (pf_context_shapes p). shapes sh > 0})"

definition eligible :: "(string \<Rightarrow> int) \<Rightarrow> profile \<Rightarrow> bool" where
  "eligible shapes p \<longleftrightarrow> pf_signals p \<noteq> [] \<and> (pf_required_shape p = [] \<or> shapes (pf_required_shape p) \<noteq> 0)"

definition contenders :: "string \<Rightarrow> envelope \<Rightarrow> registry \<Rightarrow> (string \<times> int) set" where
  "contenders prompt env reg =
     {(n, evidence (word_set prompt) (envelope_shapes env) p) | n p.
        registry_get reg n = Some p \<and> eligible (envelope_shapes env) p
        \<and> 0 < evidence (word_set prompt) (envelope_shapes env) p}"

lemma evidence_counts:
  "fst (signal_hits words (pf_signals p)) * signal_weight + fst (shape_affinity shapes (pf_context_shapes p)) * shape_weight
     = evidence words shapes p"
proof -
  have "length (hits_from words [] (pf_signals p)) = card (to_lower ` set (pf_signals p) \<inter> words)"
    using hits_from_facts [of words "[]" "pf_signals p"] distinct_card by fastforce
  moreover have "length (shapes_from shapes [] (pf_context_shapes p)) = card {sh \<in> set (pf_context_shapes p). shapes sh > 0}"
    using shapes_from_facts [of shapes "[]" "pf_context_shapes p"] distinct_card by fastforce
  ultimately show ?thesis
    by (simp add: signal_hits_def shape_affinity_def Let_def signal_weight_def shape_weight_def evidence_def)
qed

lemma score_profile_cases:
  "(\<exists>s. score_profile words shapes reg n = [s] \<and> sd_name s = n
      \<and> (\<exists>p. registry_get reg n = Some p \<and> eligible shapes p \<and> 0 < evidence words shapes p
           \<and> sd_total s = evidence words shapes p))
   \<or> (score_profile words shapes reg n = []
      \<and> (\<forall>p. registry_get reg n = Some p \<longrightarrow> eligible shapes p \<longrightarrow> evidence words shapes p = 0))"
proof (cases "registry_get reg n")
  case (Some p)
  have "0 \<le> evidence words shapes p" by (simp add: evidence_def)
  with Some evidence_counts [of words p shapes] show ?thesis
    by (auto simp: score_profile_def eligible_def split_beta Let_def)
qed (simp add: score_profile_def)

lemma scored_name: "s \<in> set (score_profile words shapes reg n) \<Longrightarrow> sd_name s = n"
  using score_profile_cases [of words shapes reg n] by auto

lemma scored_list:
  assumes "distinct names" and l: "l = concat (map (score_profile words shapes reg) names)"
  shows "distinct (map sd_name l)"
    "(\<lambda>s. (sd_name s, sd_total s)) ` set l = {(n, evidence words shapes p) | n p.
       n \<in> set names \<and> registry_get reg n = Some p \<and> eligible shapes p \<and> 0 < evidence words shapes p}"
proof -
  show "distinct (map sd_name l)"
    using assms(1) unfolding l
  proof (induction names)
    case (Cons n ns)
    have "n \<notin> sd_name ` set (concat (map (score_profile words shapes reg) ns))"
      using Cons.prems scored_name by fastforce
    moreover have "distinct (map sd_name (score_profile words shapes reg n))"
      using score_profile_cases [of words shapes reg n] by auto
    ultimately show ?case
      using Cons scored_name [of _ words shapes reg n] by auto
  qed simp
  have one: "(\<lambda>s. (sd_name s, sd_total s)) ` set (score_profile words shapes reg n) =
      {(n, evidence words shapes p) | p. registry_get reg n = Some p \<and> eligible shapes p \<and> 0 < evidence words shapes p}" for n
    using score_profile_cases [of words shapes reg n] by auto
  have "(\<lambda>s. (sd_name s, sd_total s)) ` set l
      = (\<Union>n\<in>set names. (\<lambda>s. (sd_name s, sd_total s)) ` set (score_profile words shapes reg n))"
    unfolding l by auto
  then show "(\<lambda>s. (sd_name s, sd_total s)) ` set l = {(n, evidence words shapes p) | n p.
       n \<in> set names \<and> registry_get reg n = Some p \<and> eligible shapes p \<and> 0 < evidence words shapes p}"
    unfolding one by blast
qed

lemma ranked_facts:
  assumes "distinct (map fst reg)"
  shows "distinct (map sd_name (ranked_profiles prompt env reg))"
    "(\<lambda>s. (sd_name s, sd_total s)) ` set (ranked_profiles prompt env reg) = contenders prompt env reg"
    "sorted (map (\<lambda>s. - sd_total s) (ranked_profiles prompt env reg))"
proof -
  let ?l = "concat (map (score_profile (word_set prompt) (envelope_shapes env) reg) (registry_names reg))"
  have d: "distinct (registry_names reg)" using assms by (simp add: registry_names_def)
  have names: "n \<in> set (registry_names reg)" if "registry_get reg n = Some p" for n p
    using map_of_SomeD [of reg n p] that by (force simp: registry_names_def registry_get_def)
  have "mset (map sd_name (ranked_profiles prompt env reg)) = mset (map sd_name ?l)"
    by (simp add: ranked_profiles_def)
  from mset_eq_imp_distinct_iff [OF this] scored_list(1) [OF d refl]
  show "distinct (map sd_name (ranked_profiles prompt env reg))" by simp
  show "(\<lambda>s. (sd_name s, sd_total s)) ` set (ranked_profiles prompt env reg) = contenders prompt env reg"
    unfolding ranked_profiles_def contenders_def set_sort scored_list(2) [OF d refl] using names by blast
  show "sorted (map (\<lambda>s. - sd_total s) (ranked_profiles prompt env reg))"
    by (simp add: ranked_profiles_def)
qed



text \<open>So shapes alone can out-vote a signal word: three referenced shapes beat it.\<close>

definition shape_reference :: "string \<Rightarrow> go_value" where
  "shape_reference sh = VMap [(''shape'', VStr sh)]"

lemma shapes_outvote_signal:
  "let reg = [(''lifecycle'', (sample_profile ''lifecycle'' [''task''] [])\<lparr>pf_context_shapes := [''path'', ''chain'', ''bug'']\<rparr>),
              (''reader'', (sample_profile ''reader'' [''review''] [])\<lparr>pf_context_shapes := []\<rparr>)];
       env = Some [''references'' \<mapsto> VList [shape_reference ''path'', shape_reference ''chain'', shape_reference ''bug'']];
       s = select_profile ''review it'' env reg ''coder''
   in sel_profile s = ''lifecycle'' \<and> sel_signals s = [] \<and> sel_score s = 3
      \<and> (''reader'', 2) \<in> contenders ''review it'' env reg"
proof -
  let ?p = "(sample_profile ''lifecycle'' [''task''] [])\<lparr>pf_context_shapes := [''path'', ''chain'', ''bug'']\<rparr>"
  let ?q = "(sample_profile ''reader'' [''review''] [])\<lparr>pf_context_shapes := []\<rparr>"
  let ?reg = "[(''lifecycle'', ?p), (''reader'', ?q)]"
  let ?env = "Some [''references'' \<mapsto> VList [shape_reference ''path'', shape_reference ''chain'', shape_reference ''bug'']]"
  have sh: "envelope_shapes ?env = (\<lambda>s. int (count_list [''path'', ''chain'', ''bug''] s))"
    by (simp add: envelope_shapes_def shape_reference_def reference_shape_def fun_eq_iff)
  have r: "ranked_profiles ''review it'' ?env ?reg =
      [\<lparr>sd_name = ''lifecycle'', sd_total = 3, sd_signals = [], sd_shapes = [''path'', ''chain'', ''bug'']\<rparr>,
       \<lparr>sd_name = ''reader'', sd_total = 2, sd_signals = [''review''], sd_shapes = []\<rparr>]"
    unfolding ranked_profiles_def sh by code_simp
  have "(''reader'', 2) \<in> (\<lambda>s. (sd_name s, sd_total s)) ` set (ranked_profiles ''review it'' ?env ?reg)"
    unfolding r by simp
  then have "(''reader'', 2) \<in> contenders ''review it'' ?env ?reg"
    using ranked_facts(2) [of ?reg "''review it''" ?env] by simp
  then show ?thesis by (simp add: Let_def select_profile_def r select_winner_def)
qed

end
