(* ===== verification/Ladder_Config.thy ===== *)
theory Ladder_Config
  imports Profile
begin

text \<open>
  The sizing policy of the model ladder, \<open>internal/laddercfg\<close>: the budgets a run gets for the context
  window of its model, and the rung a profile's tier rests on. Windows and budgets are tokens; Go's
  division and HOL's agree on them, except for negative windows, where the reserve is clamped anyway.
\<close>

definition max_live_context_budget :: int where
  "max_live_context_budget = 124000"

definition fallback_unknown_window :: int where
  "fallback_unknown_window = 128000"

definition window_reserve :: "int \<Rightarrow> int" where
  "window_reserve window =
     (let r = window div 4; r1 = (if r < 1024 then 1024 else r) in if r1 > 4096 then 4096 else r1)"

definition compaction_budget_for_window :: "int \<Rightarrow> int" where
  "compaction_budget_for_window window =
     (let b = window - window_reserve window;
          b1 = (if b > max_live_context_budget then max_live_context_budget else b)
      in if b1 < 1 then 1 else b1)"

definition skill_budget_fraction :: int where
  "skill_budget_fraction = 3"

definition skill_injection_budget :: "int \<Rightarrow> int" where
  "skill_injection_budget window =
     (if window \<le> 0 then 0 else compaction_budget_for_window window div skill_budget_fraction)"

text \<open>A fidelity is an \<open>int\<close> of which four values are named.\<close>

datatype fidelity = FidelityLow | FidelityMid | FidelityHigh | FidelityExtreme | OtherFidelity int

fun fidelity_string :: "fidelity \<Rightarrow> string" where
  "fidelity_string FidelityLow = ''low''"
| "fidelity_string FidelityMid = ''mid''"
| "fidelity_string FidelityHigh = ''high''"
| "fidelity_string FidelityExtreme = ''extreme''"
| "fidelity_string (OtherFidelity _) = ''unknown''"

definition parse_fidelity :: "string \<Rightarrow> fidelity \<times> bool" where
  "parse_fidelity s =
     (if s = ''low'' then (FidelityLow, True)
      else if s = ''mid'' then (FidelityMid, True)
      else if s = ''high'' then (FidelityHigh, True)
      else if s = ''extreme'' then (FidelityExtreme, True)
      else (FidelityLow, False))"

definition fidelity_mid_window :: int where "fidelity_mid_window = 16384"
definition fidelity_high_window :: int where "fidelity_high_window = 65536"
definition fidelity_extreme_window :: int where "fidelity_extreme_window = 200000"

definition fidelity_for :: "int \<Rightarrow> fidelity" where
  "fidelity_for window =
     (if window \<le> 0 then FidelityHigh
      else if window < fidelity_mid_window then FidelityLow
      else if window < fidelity_high_window then FidelityMid
      else if window < fidelity_extreme_window then FidelityHigh
      else FidelityExtreme)"

record allocation =
  al_window :: int
  al_fidelity :: fidelity
  al_compaction :: int
  al_skill :: int
  al_inject :: int
  al_per_result :: int

fun inject_divisor :: "fidelity \<Rightarrow> int" where
  "inject_divisor FidelityLow = 8"
| "inject_divisor FidelityMid = 6"
| "inject_divisor FidelityExtreme = 3"
| "inject_divisor _ = 4"

definition per_result_cap_floor :: int where
  "per_result_cap_floor = 512"

fun per_result_divisor :: "fidelity \<Rightarrow> int" where
  "per_result_divisor FidelityLow = 4"
| "per_result_divisor FidelityMid = 3"
| "per_result_divisor FidelityExtreme = 1"
| "per_result_divisor _ = 2"

definition per_result_cap :: "int \<Rightarrow> fidelity \<Rightarrow> int" where
  "per_result_cap compaction f =
     (let c = compaction div per_result_divisor f
      in if c < per_result_cap_floor then per_result_cap_floor else c)"

definition allocate_at :: "int \<Rightarrow> fidelity \<Rightarrow> allocation" where
  "allocate_at window f =
     (let a = \<lparr>al_window = window, al_fidelity = f, al_compaction = 0, al_skill = 0, al_inject = 0, al_per_result = 0\<rparr>
      in if window \<le> 0 then a
         else (let c = compaction_budget_for_window window
               in a\<lparr>al_compaction := c, al_skill := skill_injection_budget window,
                    al_inject := c div inject_divisor f, al_per_result := per_result_cap c f\<rparr>))"

definition allocate :: "int \<Rightarrow> allocation" where
  "allocate window = allocate_at window (fidelity_for window)"

definition floor_for_tier :: "profile option \<Rightarrow> int \<Rightarrow> int \<Rightarrow> int" where
  "floor_for_tier p mid_idx strong_idx =
     (case p of
        None \<Rightarrow> 0
      | Some p \<Rightarrow>
          if pf_tier p = ''mid'' then (if mid_idx \<ge> 0 then mid_idx else 0)
          else if pf_tier p = ''strong''
          then (if strong_idx \<ge> 0 then strong_idx else if mid_idx \<ge> 0 then mid_idx else 0)
          else 0)"

subsection \<open>Properties\<close>

theorem fidelity_roundtrip:
  "parse_fidelity s = (f, True) \<longleftrightarrow> fidelity_string f = s \<and> (\<nexists>n. f = OtherFidelity n)"
  by (cases f) (auto simp: parse_fidelity_def)

lemma compaction_budget_bounds:
  "1 \<le> compaction_budget_for_window w" "compaction_budget_for_window w \<le> max_live_context_budget"
  "compaction_budget_for_window w \<le> max 1 (w - 1024)"
  by ((simp add: compaction_budget_for_window_def window_reserve_def max_live_context_budget_def Let_def; linarith?)+)

lemma reserve_gap: "w \<le> w' \<Longrightarrow> w - window_reserve w \<le> w' - window_reserve w'"
  by (simp add: window_reserve_def Let_def) linarith

lemma compaction_budget_mono: "w \<le> w' \<Longrightarrow> compaction_budget_for_window w \<le> compaction_budget_for_window w'"
  using reserve_gap [of w w'] by (simp add: compaction_budget_for_window_def Let_def)

lemma per_result_cap_alt: "per_result_cap c f = max 512 (c div per_result_divisor f)"
  by (simp add: per_result_cap_def per_result_cap_floor_def Let_def)

lemma div_weaker: "0 \<le> c \<Longrightarrow> c \<le> c' \<Longrightarrow> 0 < d' \<Longrightarrow> d' \<le> d \<Longrightarrow> c div d \<le> c' div (d' :: int)"
  by (meson dual_order.trans zdiv_mono1 zdiv_mono2)

lemma divisors_decrease:
  assumes "0 < w" "w \<le> w'"
  shows "inject_divisor (fidelity_for w') \<le> inject_divisor (fidelity_for w) \<and> 0 < inject_divisor (fidelity_for w')
    \<and> per_result_divisor (fidelity_for w') \<le> per_result_divisor (fidelity_for w) \<and> 0 < per_result_divisor (fidelity_for w')"
  using assms by (simp add: fidelity_for_def fidelity_mid_window_def fidelity_high_window_def fidelity_extreme_window_def)

text \<open>The budgets a window gets are bounded and grow with it: the compaction budget leaves room for the model's
  output, the skill and injection budgets are at most a third of it, a tool result has at least the floor and,
  unless the window is tiny, at most the whole budget, and no budget shrinks when the window grows.\<close>

theorem allocation_scales:
  assumes "0 < w" "w \<le> w'"
  defines "a \<equiv> allocate w" and "b \<equiv> allocate w'"
  shows "1 \<le> al_compaction a \<and> al_compaction a \<le> 124000 \<and> al_compaction a \<le> max 1 (w - 1024)
    \<and> 3 * al_skill a \<le> al_compaction a \<and> 3 * al_inject a \<le> al_compaction a \<and> 0 \<le> al_skill a \<and> 0 \<le> al_inject a
    \<and> 512 \<le> al_per_result a \<and> al_per_result a \<le> max 512 (al_compaction a)
    \<and> al_compaction a \<le> al_compaction b \<and> al_skill a \<le> al_skill b \<and> al_inject a \<le> al_inject b
    \<and> al_per_result a \<le> al_per_result b"
proof -
  let ?c = "compaction_budget_for_window w" and ?d = "compaction_budget_for_window w'"
  let ?i = "inject_divisor (fidelity_for w)" and ?p = "per_result_divisor (fidelity_for w)"
  note c = compaction_budget_bounds [of w]
  have m: "?c \<le> ?d" by (rule compaction_budget_mono [OF assms(2)])
  note d = divisors_decrease [OF assms(1,2)]
  have a: "al_compaction a = ?c" "al_skill a = ?c div 3" "al_inject a = ?c div ?i" "al_per_result a = max 512 (?c div ?p)"
    using assms(1) by (simp_all add: a_def allocate_def allocate_at_def skill_injection_budget_def skill_budget_fraction_def
        per_result_cap_alt Let_def)
  have b: "al_compaction b = ?d" "al_skill b = ?d div 3" "al_inject b = ?d div inject_divisor (fidelity_for w')"
    "al_per_result b = max 512 (?d div per_result_divisor (fidelity_for w'))"
    using assms(1,2) by (simp_all add: b_def allocate_def allocate_at_def skill_injection_budget_def
        skill_budget_fraction_def per_result_cap_alt Let_def)
  have i3: "3 \<le> ?i" by (cases "fidelity_for w") simp_all
  have "?c div ?i \<le> ?c div 3" using c(1) i3 by (intro div_weaker) simp_all
  moreover have "?c div ?p \<le> ?c div 1" using c(1) d by (intro div_weaker) simp_all
  moreover have "?c div ?i \<le> ?d div inject_divisor (fidelity_for w')" using c(1) m d by (intro div_weaker) simp_all
  moreover have "?c div ?p \<le> ?d div per_result_divisor (fidelity_for w')" using c(1) m d by (intro div_weaker) simp_all
  moreover have "?c div 3 \<le> ?d div 3" using m by (simp add: zdiv_mono1)
  moreover have "0 \<le> ?c div ?i" using c(1) i3 by (simp add: pos_imp_zdiv_nonneg_iff)
  moreover have "3 * (?c div 3) \<le> ?c" "0 \<le> ?c div 3" using c(1) by simp_all
  moreover have "?c div ?p \<le> ?c" using calculation by simp
  ultimately show ?thesis unfolding a b using c m
    by (intro conjI max.mono max.boundedI) (simp_all add: max_live_context_budget_def le_max_iff_disj)
qed

theorem allocation_scales_witness:
  "al_compaction (allocate 8192) = 6144 \<and> al_compaction (allocate 8192) \<le> al_compaction (allocate 1000000)"
  using allocation_scales [of 8192 1000000]
  by (simp add: allocate_def allocate_at_def compaction_budget_for_window_def window_reserve_def
      max_live_context_budget_def Let_def)

text \<open>At the highest fidelity the caps are not lifted: the injected context still has a third of the budget.\<close>

lemma extreme_is_capped: "al_inject (allocate 1000000) = 41333 \<and> al_per_result (allocate 1000000) = 124000"
  by (simp add: allocate_def allocate_at_def fidelity_for_def fidelity_mid_window_def fidelity_high_window_def
      fidelity_extreme_window_def compaction_budget_for_window_def window_reserve_def per_result_cap_alt
      max_live_context_budget_def Let_def)

text \<open>The rung of a tier is one that is configured, or the base.\<close>

lemma floor_for_tier_range:
  "floor_for_tier p mid strong = 0 \<or> (floor_for_tier p mid strong \<in> {mid, strong} \<and> 0 \<le> floor_for_tier p mid strong)"
  by (auto simp: floor_for_tier_def split: option.split)

end
