(* ===== verification/Module_Dir.thy ===== *)
theory Module_Dir
  imports Fs_Laws Agent_Audit
begin

text \<open>
  Where a Go verify gate runs, the rest of \<open>internal/agent/verify.go\<close>: which commands are Go build or test
  gates, the search for the module they need, upwards and then in the subtree, and the check that a gate
  can run at all. The tree is the one \<open>filepath.WalkDir\<close> visits.
\<close>

subsection \<open>Go gates\<close>

definition go_verb :: "string \<Rightarrow> bool" where
  "go_verb w = (w = ''build'' \<or> w = ''test'' \<or> w = ''vet'')"

fun go_words :: "string list \<Rightarrow> bool" where
  "go_words (w # v # ws) = ((w = ''go'' \<and> go_verb v) \<or> go_words (v # ws))"
| "go_words _ = False"

definition is_go_build_gate :: "string list \<Rightarrow> bool" where
  "is_go_build_gate command =
     (list_ex (\<lambda>tok. go_words (Go_Prelude.fields tok) \<or> tok = ''go'') command
      \<or> (case command of c # v # _ \<Rightarrow> c = ''go'' \<and> go_verb v | _ \<Rightarrow> False))"

subsection \<open>The module upwards\<close>

text \<open>A clean path is the stack of its segments, deepest first; its parent drops the first. A relative path
  ends at the dot, whose parent is itself.\<close>

definition dir_of :: "bool \<Rightarrow> string list \<Rightarrow> string" where
  "dir_of rooted stack =
     (let body = join ''/'' (rev stack)
      in if rooted then ''/'' @ body else if body = [] then ''.'' else body)"

definition has_go_mod :: "'w os \<Rightarrow> 'w \<Rightarrow> string \<Rightarrow> bool" where
  "has_go_mod os w d =
     (case os_stat os (file_join d ''go.mod'') w of Inl _ \<Rightarrow> False | Inr fi \<Rightarrow> \<not> fi_dir fi)"

fun mod_upwards :: "(string \<Rightarrow> bool) \<Rightarrow> bool \<Rightarrow> string list \<Rightarrow> bool" where
  "mod_upwards found rooted [] = found (dir_of rooted [])"
| "mod_upwards found rooted (seg # up) =
     (if found (dir_of rooted (seg # up)) then True else mod_upwards found rooted up)"

definition go_mod_reachable :: "'w os \<Rightarrow> string \<Rightarrow> 'w \<Rightarrow> bool" where
  "go_mod_reachable os dir w =
     (case (if dir = [] then os_cwd os else Inr dir) of
        Inl _ \<Rightarrow> False
      | Inr d \<Rightarrow> mod_upwards (has_go_mod os w) (has_prefix d ''/'') (clean_stack d))"

subsection \<open>The module in the subtree\<close>

definition module_search_max_depth :: nat where
  "module_search_max_depth = 2"

definition module_skip_dirs :: "string list" where
  "module_skip_dirs = [''vendor'', ''.git'', ''node_modules'', ''testdata'']"

text \<open>The state of the search: the modules found at the shallowest depth so far, and that depth.\<close>

type_synonym mod_found = "string list \<times> nat option"

definition note_module :: "string \<Rightarrow> nat \<Rightarrow> mod_found \<Rightarrow> mod_found" where
  "note_module dir depth st =
     (case snd st of
        None \<Rightarrow> ([dir], Some depth)
      | Some k \<Rightarrow>
          if depth < k then ([dir], Some depth)
          else if depth = k then (fst st @ [dir], snd st) else st)"

fun mod_walk :: "nat \<Rightarrow> string \<Rightarrow> tree \<Rightarrow> mod_found \<Rightarrow> mod_found"
  and mod_walks :: "nat \<Rightarrow> string \<Rightarrow> tree list \<Rightarrow> mod_found \<Rightarrow> mod_found" where
  "mod_walk depth dir (TFile n) st = (if n \<noteq> ''go.mod'' then st else note_module dir depth st)"
| "mod_walk depth dir (TOther n) st = (if n \<noteq> ''go.mod'' then st else note_module dir depth st)"
| "mod_walk depth dir (TDir n entries) st =
     (if n \<in> set module_skip_dirs then st
      else if depth + 1 > module_search_max_depth then st
      else if (case snd st of None \<Rightarrow> False | Some k \<Rightarrow> depth + 1 > k) then st
      else (case entries of Inl _ \<Rightarrow> st | Inr ts \<Rightarrow> mod_walks (depth + 1) (file_join dir n) ts st))"
| "mod_walks depth dir [] st = st"
| "mod_walks depth dir (t # ts) st = mod_walks depth dir ts (mod_walk depth dir t st)"

definition resolve_go_module_dir :: "'w os \<Rightarrow> string \<Rightarrow> 'w \<Rightarrow> string option" where
  "resolve_go_module_dir os dir w =
     (case (if dir = [] then os_cwd os else Inr dir) of
        Inl _ \<Rightarrow> None
      | Inr d0 \<Rightarrow>
          (let d = file_clean d0
           in if go_mod_reachable os d w then Some d
              else (case os_tree os d w of
                      Inl _ \<Rightarrow> None
                    | Inr ts \<Rightarrow>
                        (case fst (mod_walks 0 d ts ([], None)) of
                           [m] \<Rightarrow> Some m
                         | _ \<Rightarrow> None))))"

definition verify_gate_runnable :: "'w os \<Rightarrow> string list \<Rightarrow> string \<Rightarrow> 'w \<Rightarrow> string option" where
  "verify_gate_runnable os command dir w =
     (if command = [] then None
      else if \<not> is_go_build_gate command then None
      else if resolve_go_module_dir os dir w \<noteq> None then None
      else Some (''verify-dir '' @ (if dir = [] then ''the process working directory'' else dir)
        @ '' has no go.mod reachable at/above it and no unique module in its subtree '' @ em_dash
        @ '' the gate cannot run here; point -verify-dir at the module root: verify gate not runnable''))"

subsection \<open>What the search finds\<close>

text \<open>All the modules of a subtree within the depth, in the order of the walk, with their depths.\<close>

fun mods :: "nat \<Rightarrow> string \<Rightarrow> tree \<Rightarrow> (string \<times> nat) list"
  and mods_list :: "nat \<Rightarrow> string \<Rightarrow> tree list \<Rightarrow> (string \<times> nat) list" where
  "mods depth dir (TFile n) = (if n = ''go.mod'' then [(dir, depth)] else [])"
| "mods depth dir (TOther n) = (if n = ''go.mod'' then [(dir, depth)] else [])"
| "mods depth dir (TDir n entries) =
     (if n \<in> set module_skip_dirs \<or> depth + 1 > module_search_max_depth then []
      else (case entries of Inl _ \<Rightarrow> [] | Inr ts \<Rightarrow> mods_list (depth + 1) (file_join dir n) ts))"
| "mods_list depth dir [] = []"
| "mods_list depth dir (t # ts) = mods depth dir t @ mods_list depth dir ts"

definition shallowest :: "(string \<times> nat) list \<Rightarrow> string list" where
  "shallowest ms = map fst (filter (\<lambda>(m, k). \<forall>(m', k')\<in>set ms. k \<le> k') ms)"

lemma mods_depth:
  "(m, k) \<in> set (mods depth dir t) \<Longrightarrow> depth \<le> k"
  "(m, k) \<in> set (mods_list depth dir ts) \<Longrightarrow> depth \<le> k"
  by (induction depth dir t and depth dir ts rule: mods_mods_list.induct)
     (auto split: if_splits sum.splits)

lemma deeper_ignored:
  "list_all (\<lambda>(m, k). d < k) ms \<Longrightarrow> fold (\<lambda>(m, k). note_module m k) ms (found, Some d) = (found, Some d)"
  by (induction ms) (auto simp: note_module_def)

lemma walk_notes:
  "mod_walk depth dir t st = fold (\<lambda>(m, k). note_module m k) (mods depth dir t) st"
  "mod_walks depth dir ts st = fold (\<lambda>(m, k). note_module m k) (mods_list depth dir ts) st"
proof (induction depth dir t and depth dir ts arbitrary: st and st rule: mods_mods_list.induct)
  case (3 depth dir n entries)
  show ?case
  proof (cases "entries")
    case (Inr ts)
    have "list_all (\<lambda>(m, k). d < k) (mods_list (Suc depth) (file_join dir n) ts)" if "d < Suc depth" for d
      using mods_depth(2) [of _ _ "Suc depth"] that by (fastforce simp: list_all_iff)
    with 3 Inr deeper_ignored show ?thesis
      by (cases st) (auto split: option.splits)
  qed auto
qed auto

definition found_so_far :: "(string \<times> nat) list \<Rightarrow> mod_found \<Rightarrow> bool" where
  "found_so_far ms st \<longleftrightarrow> (ms = [] \<and> st = ([], None))
     \<or> (\<exists>d. d \<in> snd ` set ms \<and> (\<forall>(m, k)\<in>set ms. d \<le> k) \<and> st = (map fst (filter (\<lambda>(m, k). k = d) ms), Some d))"

lemma found_step:
  assumes "found_so_far ms st"
  shows "found_so_far (ms @ [(m, k)]) (note_module m k st)"
proof (cases "ms = []")
  case True
  with assms show ?thesis by (auto simp: found_so_far_def note_module_def)
next
  case False
  then obtain d where d: "d \<in> snd ` set ms" "\<forall>(m, k)\<in>set ms. d \<le> k" "st = (map fst (filter (\<lambda>(m, k). k = d) ms), Some d)"
    using assms by (auto simp: found_so_far_def)
  have none: "filter (\<lambda>(m', k'). k' = k) ms = []" if "k < d"
    using d(2) that by (force simp: filter_empty_conv)
  show ?thesis
    unfolding found_so_far_def
  proof (intro disjI2 exI [of _ "min k d"] conjI)
    show "min k d \<in> snd ` set (ms @ [(m, k)])" using d(1) by (auto simp: min_def)
    show "\<forall>(m', k')\<in>set (ms @ [(m, k)]). min k d \<le> k'" using d(2) by (force simp: min_le_iff_disj)
    show "note_module m k st = (map fst (filter (\<lambda>(m', k'). k' = min k d) (ms @ [(m, k)])), Some (min k d))"
      using none by (cases k d rule: linorder_cases) (simp_all add: d(3) note_module_def)
  qed
qed

lemma found_fold: "found_so_far ms (fold (\<lambda>(m, k). note_module m k) ms ([], None))"
proof (induction ms rule: rev_induct)
  case Nil
  show ?case by (simp add: found_so_far_def)
next
  case (snoc x ms)
  then show ?case by (cases x) (simp add: found_step)
qed

lemma found_shallowest:
  assumes "found_so_far ms st"
  shows "fst st = shallowest ms"
proof (cases "ms = []")
  case True
  with assms show ?thesis by (auto simp: found_so_far_def shallowest_def)
next
  case False
  then obtain d where d: "d \<in> snd ` set ms" "\<forall>(m, k)\<in>set ms. d \<le> k" "st = (map fst (filter (\<lambda>(m, k). k = d) ms), Some d)"
    using assms by (auto simp: found_so_far_def)
  have "filter (\<lambda>(m, k). k = d) ms = filter (\<lambda>(m, k). \<forall>(m', k')\<in>set ms. k \<le> k') ms"
    using d(1,2) by (intro filter_cong) (force simp: image_iff)+
  then show ?thesis by (simp add: d(3) shallowest_def)
qed

text \<open>The reading without a search: a module is reachable upwards when some directory above an absolute one, or it
  itself, has a \<open>go.mod\<close> file; the modules of the subtree are all of them, by the names on the way, and those are
  eligible that lie at most two levels down with no skipped name on the way.\<close>

definition has_module_above :: "'w os \<Rightarrow> string \<Rightarrow> 'w \<Rightarrow> bool" where
  "has_module_above os d w \<longleftrightarrow>
     (\<exists>up below fi. rev (clean_stack d) = up @ below
        \<and> os_stat os (file_join (''/'' @ join ''/'' up) ''go.mod'') w = Inr fi \<and> \<not> fi_dir fi)"

fun tree_modules :: "string list \<Rightarrow> tree \<Rightarrow> string list list"
  and trees_modules :: "string list \<Rightarrow> tree list \<Rightarrow> string list list" where
  "tree_modules way (TFile n) = (if n = ''go.mod'' then [way] else [])"
| "tree_modules way (TOther n) = (if n = ''go.mod'' then [way] else [])"
| "tree_modules way (TDir n entries) = (case entries of Inl _ \<Rightarrow> [] | Inr ts \<Rightarrow> trees_modules (way @ [n]) ts)"
| "trees_modules way [] = []"
| "trees_modules way (t # ts) = tree_modules way t @ trees_modules way ts"

definition within_reach :: "string list \<Rightarrow> bool" where
  "within_reach way \<longleftrightarrow> length way \<le> 2 \<and> set way \<inter> {''vendor'', ''.git'', ''node_modules'', ''testdata''} = {}"

definition least_deep :: "string list list \<Rightarrow> string list list" where
  "least_deep ways = filter (\<lambda>x. \<forall>y \<in> set ways. length x \<le> length y) ways"

lemma upwards_above:
  "mod_upwards found rooted stack \<longleftrightarrow> (\<exists>up below. rev stack = up @ below \<and> found (dir_of rooted (rev up)))"
proof (induction stack)
  case (Cons seg up)
  have "(\<exists>v below. rev (seg # up) = v @ below \<and> P v) \<longleftrightarrow> P (rev (seg # up)) \<or> (\<exists>v below. rev up = v @ below \<and> P v)" for P
  proof
    assume "\<exists>v below. rev (seg # up) = v @ below \<and> P v"
    then obtain v below where v: "rev (seg # up) = v @ below" "P v" by blast
    then show "P (rev (seg # up)) \<or> (\<exists>v below. rev up = v @ below \<and> P v)"
      by (cases below rule: rev_cases) auto
  next
    assume "P (rev (seg # up)) \<or> (\<exists>v below. rev up = v @ below \<and> P v)"
    then show "\<exists>v below. rev (seg # up) = v @ below \<and> P v"
      by (metis append_Nil2 append_assoc rev.simps(2))
  qed
  with Cons.IH show ?case by auto
qed simp

lemma reachable_above: "is_abs d \<Longrightarrow> go_mod_reachable os (file_clean d) w \<longleftrightarrow> has_module_above os d w"
proof -
  assume a: "is_abs d"
  then have c: "file_clean d \<noteq> []" "has_prefix (file_clean d) ''/''" "clean_stack (file_clean d) = clean_stack d"
    using clean_idem [OF a] by (auto simp: is_abs_def has_prefix_def)
  have found: "has_go_mod os w p \<longleftrightarrow> (\<exists>fi. os_stat os (file_join p ''go.mod'') w = Inr fi \<and> \<not> fi_dir fi)" for p
    by (auto simp: has_go_mod_def split: sum.splits)
  show ?thesis
    using c by (auto simp: go_mod_reachable_def has_module_above_def upwards_above found dir_of_def)
qed

lemma way_extends:
  "x \<in> set (tree_modules way t) \<Longrightarrow> \<exists>more. x = way @ more"
  "x \<in> set (trees_modules way ts) \<Longrightarrow> \<exists>more. x = way @ more"
  by (induction way t and way ts rule: tree_modules_trees_modules.induct) (auto split: if_splits sum.splits)

lemma mods_eligible:
  "within_reach way \<Longrightarrow> mods (length way) (foldl file_join d way) t
     = map (\<lambda>x. (foldl file_join d x, length x)) (filter within_reach (tree_modules way t))"
  "within_reach way \<Longrightarrow> mods_list (length way) (foldl file_join d way) ts
     = map (\<lambda>x. (foldl file_join d x, length x)) (filter within_reach (trees_modules way ts))"
proof (induction way t and way ts rule: tree_modules_trees_modules.induct)
  case (3 way n entries)
  show ?case
  proof (cases "within_reach (way @ [n])")
    case True
    then show ?thesis using 3
      by (auto simp: within_reach_def module_skip_dirs_def module_search_max_depth_def split: sum.splits)
  next
    case False
    have "\<not> within_reach x" if "x \<in> set (tree_modules way (TDir n entries))" for x
    proof -
      have "\<exists>more. x = (way @ [n]) @ more" using that by (cases entries) (auto dest: way_extends(2))
      with False show ?thesis by (auto simp: within_reach_def)
    qed
    then have "filter within_reach (tree_modules way (TDir n entries)) = []" by (simp add: filter_empty_conv)
    moreover have "n \<in> set module_skip_dirs \<or> length way + 1 > module_search_max_depth"
      using False 3(2) by (auto simp: within_reach_def module_skip_dirs_def module_search_max_depth_def)
    ultimately show ?thesis by auto
  qed
qed auto

lemma shallowest_least:
  "shallowest (map (\<lambda>x. (f x, length x)) ways) = map f (least_deep ways)"
  by (simp add: shallowest_def least_deep_def filter_map o_def)

text \<open>C37: For an absolute directory the search for a module is exact: a gate runs in its configured directory if
  that directory or one above it has a module, and else in the only shallowest eligible module of its whole subtree, where
  a module is eligible at most two levels down and not below a directory named \<open>vendor\<close>, \<open>.git\<close>, \<open>node_modules\<close> or
  \<open>testdata\<close>; in all other cases, and only then, a Go gate is refused.\<close>

theorem module_search_exact:
  assumes "d = (if dir = [] then (case os_cwd os of Inr c \<Rightarrow> c | Inl _ \<Rightarrow> []) else dir)" "is_abs d"
  shows "resolve_go_module_dir os dir w =
      (if has_module_above os d w then Some (file_clean d)
       else case os_tree os (file_clean d) w of
              Inl _ \<Rightarrow> None
            | Inr ts \<Rightarrow>
                (let best = least_deep (filter within_reach (trees_modules [] ts))
                 in if length best = 1 then Some (foldl file_join (file_clean d) (hd best)) else None))
    \<and> (verify_gate_runnable os cmd dir w \<noteq> None) = (cmd \<noteq> [] \<and> is_go_build_gate cmd \<and> resolve_go_module_dir os dir w = None)"
proof -
  have "d \<noteq> []" using assms(2) by (auto simp: is_abs_def has_prefix_def)
  then have c: "(if dir = [] then os_cwd os else Inr dir) = Inr d"
    using assms(1) by (cases "os_cwd os") auto
  have s: "fst (mod_walks 0 p ts ([], None)) = map (foldl file_join p) (least_deep (filter within_reach (trees_modules [] ts)))" for p ts
    using found_shallowest [OF found_fold] mods_eligible(2) [of "[]" p ts]
    by (simp add: walk_notes shallowest_least within_reach_def)
  have one: "(case map f ms of [m] \<Rightarrow> Some m | _ \<Rightarrow> None) = (if length ms = 1 then Some (f (hd ms)) else None)"
    for f and ms :: "string list list"
    by (cases ms rule: remdups_adj.cases) auto
  show ?thesis
    unfolding resolve_go_module_dir_def verify_gate_runnable_def c
    by (auto simp: Let_def s one reachable_above [OF assms(2)] split: sum.splits)
qed

definition mono_repo :: "unit os" where
  "mono_repo = (let no = \<lparr>oe_kind = OsNotExist, oe_text = []\<rparr> in
     \<lparr>os_home = [], os_cwd = Inr ''/r'', os_eval_symlinks = (\<lambda>p w. Inr p), os_stat = (\<lambda>p w. Inl no),
      os_lstat = (\<lambda>p w. Inl no), os_read_file = (\<lambda>p w. Inl no), os_read_dir = (\<lambda>p w. Inl no),
      os_tree = (\<lambda>p w. Inr [TDir ''app'' (Inr [TDir ''deep'' (Inr [TFile ''go.mod''])]), TDir ''go'' (Inr [TFile ''go.mod'']),
        TDir ''vendor'' (Inr [TFile ''go.mod''])]),
      os_mkdir_all = (\<lambda>p w. (None, w)), os_write_file = (\<lambda>p c w. (None, w)), os_remove = (\<lambda>p w. (None, w)),
      os_remove_all = (\<lambda>p w. (None, w)), os_rename = (\<lambda>a b w. (None, w)), os_copy_tree = (\<lambda>a b i w. (None, w)),
      os_regexp = (\<lambda>s. Inl []), os_elapsed = (\<lambda>w. 0)\<rparr>)"

theorem module_search_exact_witness:
  "resolve_go_module_dir mono_repo ''/r'' () = Some ''/r/go''
   \<and> verify_gate_runnable mono_repo [''go'', ''test'', ''./...''] ''/r'' () = None"
proof -
  have d: "''/r'' = (if ''/r'' = [] then (case os_cwd mono_repo of Inr c \<Rightarrow> c | Inl _ \<Rightarrow> []) else ''/r'')" "is_abs ''/r''"
    by (simp_all add: is_abs_def has_prefix_def)
  have n: "\<not> has_module_above mono_repo ''/r'' ()" by (simp add: has_module_above_def mono_repo_def Let_def)
  have t: "os_tree mono_repo ''/r'' () = Inr [TDir ''app'' (Inr [TDir ''deep'' (Inr [TFile ''go.mod''])]), TDir ''go'' (Inr [TFile ''go.mod'']),
        TDir ''vendor'' (Inr [TFile ''go.mod''])]" by (simp add: mono_repo_def Let_def)
  have e: "file_clean ''/r'' = ''/r''" "foldl file_join ''/r'' [''go''] = ''/r/go''"
    "least_deep (filter within_reach (trees_modules [] [TDir ''app'' (Inr [TDir ''deep'' (Inr [TFile ''go.mod''])]), TDir ''go'' (Inr [TFile ''go.mod'']),
        TDir ''vendor'' (Inr [TFile ''go.mod''])])) = [[''go'']]" by code_simp+
  note r = module_search_exact [OF d, of "()" "[''go'', ''test'', ''./...'']"]
  have "resolve_go_module_dir mono_repo ''/r'' () = Some ''/r/go''"
    using r n unfolding e(1) t Let_def by (simp add: e(2,3) del: trees_modules.simps foldl_Cons)
  with conjunct2 [OF r] show ?thesis by simp
qed

text \<open>A directory given as a dot is not the same as one not given: from a subdirectory of a module the
  ancestors of a relative directory are not searched, and the gate is refused.\<close>

lemma dot_misses_ancestor:
  assumes "os_cwd os = Inr ''/r/pkg''" "\<And>p. os_stat os p w = (if p = ''/r/go.mod'' then Inr fi else Inl e)" "\<not> fi_dir fi"
    "os_tree os ''.'' w = Inr []"
  shows "resolve_go_module_dir os [] w = Some ''/r/pkg'' \<and> resolve_go_module_dir os ''.'' w = None
    \<and> verify_gate_runnable os [''go'', ''test''] ''.'' w \<noteq> None"
proof -
  have s: "clean_stack ''/r/pkg'' = [''pkg'', ''r'']" "file_clean ''/r/pkg'' = ''/r/pkg''" "clean_stack ''.'' = []" "file_clean ''.'' = ''.''"
    "dir_of True [''r''] = ''/r''" "file_join ''/r'' ''go.mod'' = ''/r/go.mod''" "dir_of False [] = ''.''"
    "file_join ''.'' ''go.mod'' = ''go.mod''" "is_go_build_gate [''go'', ''test'']"
    by code_simp+
  have p: "has_prefix ''/r/pkg'' ''/''" "\<not> has_prefix ''.'' ''/''" by (simp_all add: has_prefix_def)
  have a: "go_mod_reachable os ''/r/pkg'' w"
    using assms(3) p s by (simp add: go_mod_reachable_def has_go_mod_def assms(2))
  have b: "\<not> go_mod_reachable os ''.'' w"
    using p s by (simp add: go_mod_reachable_def has_go_mod_def assms(2))
  show ?thesis
    using a b s by (simp add: resolve_go_module_dir_def verify_gate_runnable_def assms(1,4))
qed

end
