(* ===== verification/Worker.thy ===== *)
theory Worker
  imports Agent_Loop Ladder_Config Module_Dir
begin

text \<open>
  Spawning a worker, \<open>internal/agent/worker.go\<close>: the \<open>Spawner\<close> stamps a job profile on a loop of its own,
  with the profile's tools, prompt, hooks, verify gate and a router over the tiers that are configured,
  and runs it on one duty, within the spawn budget of the tree and a time budget of its own.

  An adapter is the name of its model and \<^const>\<open>None\<close> one that is not configured; the environment \<open>'w env\<close>
  that the composition root shares with its workers is an argument, of which \<open>Spawn\<close> replaces what \<open>New\<close>
  and the options set.
\<close>

subsection \<open>Contexts\<close>

text \<open>A context knows when and why it ends, and carries the run id of the parent session and the depth of
  the spawn tree. Deriving a deadline from an ended context leaves its end.\<close>

datatype ctx_err = CtxCanceled | CtxDeadline

record run_context =
  cx_end :: "(int \<times> ctx_err) option"
  cx_parent_run :: string
  cx_depth :: int

definition with_parent_run_id :: "string \<Rightarrow> run_context \<Rightarrow> run_context" where
  "with_parent_run_id rid cx = cx\<lparr>cx_parent_run := rid\<rparr>"

definition with_deadline :: "int \<Rightarrow> run_context \<Rightarrow> run_context" where
  "with_deadline d cx =
     (case cx_end cx of
        Some (t, k) \<Rightarrow> if t \<le> d then cx else cx\<lparr>cx_end := Some (d, CtxDeadline)\<rparr>
      | None \<Rightarrow> cx\<lparr>cx_end := Some (d, CtxDeadline)\<rparr>)"

definition ctx_done :: "run_context \<Rightarrow> int \<Rightarrow> bool" where
  "ctx_done cx now = (case cx_end cx of None \<Rightarrow> False | Some (t, _) \<Rightarrow> t \<le> now)"

text \<open>The values of the parent without its end, a deadline of its own when the budget is positive, and the
  end of the parent after all when that is a cancellation.\<close>

definition worker_context :: "run_context \<Rightarrow> int \<Rightarrow> int \<Rightarrow> run_context" where
  "worker_context parent budget now =
     (let base = parent\<lparr>cx_end := None\<rparr>;
          own = (if budget > 0 then with_deadline (now + budget) base else base)
      in case cx_end parent of
           Some (t, CtxCanceled) \<Rightarrow>
             (case cx_end own of
                Some (d, k) \<Rightarrow> if d \<le> t then own else own\<lparr>cx_end := Some (t, CtxCanceled)\<rparr>
              | None \<Rightarrow> own\<lparr>cx_end := Some (t, CtxCanceled)\<rparr>)
         | _ \<Rightarrow> own)"

subsection \<open>The spawner\<close>

record 'w spawner =
  sw_provider :: "call \<Rightarrow> 'w \<Rightarrow> result \<times> 'w"
  sw_scope :: "(profile \<Rightarrow> call \<Rightarrow> 'w \<Rightarrow> result \<times> 'w) option"
  sw_project :: "(profile \<Rightarrow> string list) option"
  sw_build_hooks :: "(profile \<Rightarrow> 'w hook_rest hook_surface option) option"
  sw_base :: string
  sw_mid :: "string option"
  sw_strong :: "string option"
  sw_coding :: "string option"
  sw_escalate_after :: int
  sw_strong_bound :: int
  sw_verify_dir :: string
  sw_child_store :: "(string \<Rightarrow> string \<Rightarrow> string \<Rightarrow> 'w \<Rightarrow> string option \<times> 'w) option"
  sw_detach :: bool
  sw_timeout :: int
  sw_emitter :: "(edge \<Rightarrow> int \<Rightarrow> 'w \<Rightarrow> string option \<times> 'w) option"
  sw_esc_config :: "config option"
  sw_meter :: "('w \<Rightarrow> meter option) option"
  sw_budget :: "(('w \<Rightarrow> spawn_budget) \<times> (spawn_budget \<Rightarrow> 'w \<Rightarrow> 'w)) option"
  sw_strong_budget :: bool

type_synonym 'w spawner_option = "'w spawner \<Rightarrow> 'w spawner"

definition with_mid_tier :: "string option \<Rightarrow> 'w spawner_option" where
  "with_mid_tier mid s = (if mid = None then s else s\<lparr>sw_mid := mid\<rparr>)"

definition with_strong_tier :: "string option \<Rightarrow> int \<Rightarrow> 'w spawner_option" where
  "with_strong_tier strong after s =
     (if strong = None then s else s\<lparr>sw_strong := strong, sw_escalate_after := (if after < 1 then 1 else after)\<rparr>)"

definition with_strong_bound :: "int \<Rightarrow> 'w spawner_option" where
  "with_strong_bound n s = (if n > 0 then s\<lparr>sw_strong_bound := n\<rparr> else s)"

definition with_coding_rung :: "string option \<Rightarrow> 'w spawner_option" where
  "with_coding_rung coding s = (if coding = None then s else s\<lparr>sw_coding := coding\<rparr>)"

definition with_spawn_verify_dir :: "string \<Rightarrow> 'w spawner_option" where
  "with_spawn_verify_dir dir s = (if dir \<noteq> [] then s\<lparr>sw_verify_dir := dir\<rparr> else s)"

definition with_escalation_contract ::
  "(edge \<Rightarrow> int \<Rightarrow> 'w \<Rightarrow> string option \<times> 'w) option \<Rightarrow> config \<Rightarrow> 'w spawner_option" where
  "with_escalation_contract em cfg s =
     (let s1 = s\<lparr>sw_emitter := em\<rparr>
      in if c_triggers cfg \<noteq> None then s1\<lparr>sw_esc_config := Some cfg\<rparr> else s1)"

definition with_scoped_provider :: "(profile \<Rightarrow> call \<Rightarrow> 'w \<Rightarrow> result \<times> 'w) option \<Rightarrow> 'w spawner_option" where
  "with_scoped_provider fn s = (case fn of None \<Rightarrow> s | Some _ \<Rightarrow> s\<lparr>sw_scope := fn\<rparr>)"

definition with_child_store ::
  "(string \<Rightarrow> string \<Rightarrow> string \<Rightarrow> 'w \<Rightarrow> string option \<times> 'w) option \<Rightarrow> 'w spawner_option" where
  "with_child_store fn s = (case fn of None \<Rightarrow> s | Some _ \<Rightarrow> s\<lparr>sw_child_store := fn\<rparr>)"

definition with_worker_timeout :: "int \<Rightarrow> 'w spawner_option" where
  "with_worker_timeout budget s = s\<lparr>sw_detach := True, sw_timeout := budget\<rparr>"

definition with_spawner_cost_meter :: "('w \<Rightarrow> meter option) option \<Rightarrow> 'w spawner_option" where
  "with_spawner_cost_meter m s = (case m of None \<Rightarrow> s | Some _ \<Rightarrow> s\<lparr>sw_meter := m\<rparr>)"

definition with_spawner_spawn_budget ::
  "(('w \<Rightarrow> spawn_budget) \<times> (spawn_budget \<Rightarrow> 'w \<Rightarrow> 'w)) option \<Rightarrow> 'w spawner_option" where
  "with_spawner_spawn_budget b s = (case b of None \<Rightarrow> s | Some _ \<Rightarrow> s\<lparr>sw_budget := b\<rparr>)"

definition with_spawner_strong_turn_budget :: "bool \<Rightarrow> 'w spawner_option" where
  "with_spawner_strong_turn_budget present s = (if present then s\<lparr>sw_strong_budget := True\<rparr> else s)"

definition new_spawner ::
  "(call \<Rightarrow> 'w \<Rightarrow> result \<times> 'w) \<Rightarrow> (profile \<Rightarrow> string list) option
     \<Rightarrow> (profile \<Rightarrow> 'w hook_rest hook_surface option) option \<Rightarrow> string \<Rightarrow> 'w spawner_option list \<Rightarrow> 'w spawner" where
  "new_spawner provider project hooks base opts =
     fold (\<lambda>opt s. opt s) opts
       \<lparr>sw_provider = provider, sw_scope = None, sw_project = project, sw_build_hooks = hooks, sw_base = base,
        sw_mid = None, sw_strong = None, sw_coding = None, sw_escalate_after = 1, sw_strong_bound = 0,
        sw_verify_dir = [], sw_child_store = None, sw_detach = False, sw_timeout = 0, sw_emitter = None,
        sw_esc_config = None, sw_meter = None, sw_budget = None, sw_strong_budget = False\<rparr>"

subsection \<open>The router of a worker\<close>

text \<open>The ladder, with the index of the rung the profile's tier rests on.\<close>

definition ladder_for :: "'w spawner \<Rightarrow> profile \<Rightarrow> string list \<times> int" where
  "ladder_for s p =
     (let t1 = [sw_base s];
          t2 = (case sw_mid s of None \<Rightarrow> t1 | Some m \<Rightarrow> t1 @ [m]);
          mid_idx = (if sw_mid s = None then -1 else int (length t2) - 1);
          t3 = (case sw_coding s of None \<Rightarrow> t2 | Some c \<Rightarrow> if pf_coding_rung p then t2 @ [c] else t2);
          t4 = (case sw_strong s of None \<Rightarrow> t3 | Some m \<Rightarrow> t3 @ [m]);
          strong_idx = (if sw_strong s = None then -1 else int (length t4) - 1)
      in (t4,
          if pf_tier p = ''mid'' then (if mid_idx \<ge> 0 then mid_idx else 0)
          else if pf_tier p = ''strong''
          then (if strong_idx \<ge> 0 then strong_idx else if mid_idx \<ge> 0 then mid_idx else 0)
          else 0))"

definition escalates_on_tool_error :: "profile \<Rightarrow> bool" where
  "escalates_on_tool_error p = list_ex (\<lambda>sig. sig = ''tool_error'') (pf_escalate_on p)"

definition router_for :: "'w spawner \<Rightarrow> profile \<Rightarrow> router" where
  "router_for s p =
     (let (tiers, floor) = ladder_for s p
      in if floor \<ge> int (length tiers) - 1 then (let top = tiers ! nat floor in new_router top top [])
         else new_ladder tiers floor
           ((if escalates_on_tool_error p
             then [case sw_esc_config s of
                     Some cfg \<Rightarrow> with_config (with_repeated_tool_error cfg (sw_escalate_after s))
                   | None \<Rightarrow> with_escalation (sw_escalate_after s) 2]
             else [])
            @ (if sw_strong s \<noteq> None \<and> sw_strong_bound s > 0 then [with_bounded_top (sw_strong_bound s)] else [])
            @ (if sw_strong_budget s then [with_shared_strong_budget True] else [])))"

subsection \<open>Building a worker\<close>

definition with_profile :: "profile \<Rightarrow> 'w loop_option" where
  "with_profile p = (\<lambda>(e, s).
     (e\<lparr>e_profile_tools := Some (map (\<lambda>t. (sco_surface t, sco_actions t)) (pf_tools p))\<rparr>, s))"

definition with_cost_meter :: "('w \<Rightarrow> meter option) \<Rightarrow> 'w loop_option" where
  "with_cost_meter m = (\<lambda>(e, s). (e\<lparr>e_meter := m\<rparr>, s))"

definition with_hooks :: "'w hook_rest hook_surface option \<Rightarrow> 'w loop_option" where
  "with_hooks h = (\<lambda>(e, s). (case h of None \<Rightarrow> (e, s) | Some hs \<Rightarrow> (e\<lparr>e_hooks := hs\<rparr>, s)))"

definition with_escalation_emitter :: "(edge \<Rightarrow> int \<Rightarrow> 'w \<Rightarrow> string option \<times> 'w) \<Rightarrow> 'w loop_option" where
  "with_escalation_emitter em = (\<lambda>(e, s). (e\<lparr>e_propose := Some em\<rparr>, s))"

definition with_store :: "'w loop_option" where
  "with_store = (\<lambda>(e, s). (e\<lparr>e_store := True\<rparr>, s))"

definition with_session :: "string \<Rightarrow> 'w loop_option" where
  "with_session sid = (\<lambda>(e, s). (e\<lparr>e_session := sid\<rparr>, s))"

definition coding_opportunistic_every :: int where
  "coding_opportunistic_every = 4"

definition auto_verify_opts :: "'w spawner \<Rightarrow> 'w os \<Rightarrow> 'w \<Rightarrow> profile \<Rightarrow> 'w loop_option list" where
  "auto_verify_opts s os w p =
     (if pf_verify_command p = [] then []
      else (let gate_dir = (case resolve_go_module_dir os (sw_verify_dir s) w of
                              None \<Rightarrow> sw_verify_dir s | Some md \<Rightarrow> md)
            in [with_verify (Some \<lparr>vg_command = pf_verify_command p, vg_dir = gate_dir,
                                  vg_max_rounds = pf_verify_max_rounds p, vg_timeout = 0\<rparr>),
                with_opportunistic_verify coding_opportunistic_every]
               @ (if pf_protect_paths p \<noteq> []
                  then [with_extra_hook PreToolUse ''protect-paths'' (Some (protect_path_guard (pf_protect_paths p)))]
                  else [])
               @ [with_guard (ScaffoldFabricationGuard (sw_verify_dir s))]))"

text \<open>The environment of a loop before its options.\<close>

definition bare_env :: "'w env \<Rightarrow> 'w env" where
  "bare_env e = e\<lparr>e_session := [], e_profile_tools := None, e_prober := None, e_store := False, e_propose := None,
     e_meter := (\<lambda>_. None)\<rparr>"

definition profile_options :: "'w spawner \<Rightarrow> profile \<Rightarrow> 'w loop_option list" where
  "profile_options s p =
     [with_profile p]
     @ (case sw_meter s of None \<Rightarrow> [] | Some m \<Rightarrow> [with_cost_meter m])
     @ (if pf_system_prompt p \<noteq> [] then [with_system_prompt (pf_system_prompt p)] else [])
     @ (if pf_max_tool_rounds p > 0 then [with_max_rounds (pf_max_tool_rounds p)] else [])
     @ (case sw_build_hooks s of None \<Rightarrow> []
        | Some build \<Rightarrow> (case build p of None \<Rightarrow> [] | Some h \<Rightarrow> [with_hooks (Some h)]))
     @ (case sw_emitter s of None \<Rightarrow> [] | Some em \<Rightarrow> [with_escalation_emitter em])"

definition spawn_worker ::
  "'w spawner \<Rightarrow> 'w env \<Rightarrow> 'w os \<Rightarrow> profile \<Rightarrow> 'w loop_option list \<Rightarrow> 'w \<Rightarrow> 'w env \<times> 'w agent" where
  "spawn_worker s base os p opts w =
     (let specs = (case sw_project s of None \<Rightarrow> [] | Some pr \<Rightarrow> pr p);
          prov = (case sw_scope s of None \<Rightarrow> sw_provider s | Some f \<Rightarrow> f p)
      in new_loop ((bare_env base)\<lparr>e_specs := specs, e_dispatch := prov\<rparr>) (router_for s p) w
           ((profile_options s p @ opts) @ auto_verify_opts s os w p))"

subsection \<open>Running a worker\<close>

datatype spawn_sentinel = VerifyGateUnrunnable | SpawnBudgetExhausted | WorkerToolsUnrunnable

datatype spawn_end = SpawnRefused spawn_sentinel string | WorkerEnded turn_outcome

definition budget_text :: "int \<Rightarrow> string" where
  "budget_text n = ''spawn budget exhausted: '' @ itoa n @ '' workers already spawned across this run '' @ em_dash
     @ '' STOP decomposing: do NOT spawn another worker. Synthesize a final answer from the workers' results so far, or report plainly what is blocking completion''"

definition no_tools_text :: "string \<Rightarrow> string list \<Rightarrow> string" where
  "no_tools_text name projected = ''worker profile '' @ go_quote name @ '' mutates files but projected no fs surface (projected: ['' @ join '' '' projected
     @ '']) '' @ em_dash @ '' the action-scoped fs spec was dropped because the raw toolkit fs spec is enum-less and fails closed under projection; mount the native fs organ or advertise the fs action enum, else the worker has no file tools and can only fabricate a done: worker tools not runnable''"

definition reserve_worker :: "'w spawner \<Rightarrow> 'w \<Rightarrow> string option \<times> 'w" where
  "reserve_worker s w =
     (case sw_budget s of
        None \<Rightarrow> (None, w)
      | Some (get, put) \<Rightarrow>
          (case reserve (get w) of
             (True, b) \<Rightarrow> (None, put b w)
           | (False, b) \<Rightarrow> (Some (budget_text (sp_count b)), put b w)))"

definition misconfigured :: "'w spawner \<Rightarrow> 'w os \<Rightarrow> profile \<Rightarrow> 'w \<Rightarrow> (spawn_sentinel \<times> string) option" where
  "misconfigured s os p w =
     (case verify_gate_runnable os (pf_verify_command p) (sw_verify_dir s) w of
        Some t \<Rightarrow> Some (VerifyGateUnrunnable, t)
      | None \<Rightarrow>
          (case sw_project s of
             None \<Rightarrow> None
           | Some pr \<Rightarrow>
               if mutator_surface_dropped (Some p) (pr p)
               then Some (WorkerToolsUnrunnable, no_tools_text (pf_name p) (pr p)) else None))"

text \<open>The context decides when the environment of the worker is done; the store, when one is opened, gives
  the session its id. The run is closed whatever its outcome.\<close>

definition run_worker ::
  "'w spawner \<Rightarrow> 'w env \<Rightarrow> 'w os \<Rightarrow> nat \<Rightarrow> run_context \<Rightarrow> profile \<Rightarrow> string \<Rightarrow> 'w loop_option list \<Rightarrow> 'w
     \<Rightarrow> (spawn_end \<times> 'w) option" where
  "run_worker s base os fuel cx p duty opts w =
     (case reserve_worker s w of
        (Some t, w1) \<Rightarrow> Some (SpawnRefused SpawnBudgetExhausted t, w1)
      | (None, w1) \<Rightarrow>
          (case misconfigured s os p w1 of
             Some (k, t) \<Rightarrow> Some (SpawnRefused k t, w1)
           | None \<Rightarrow>
               (let cx1 = (if sw_detach s then worker_context cx (sw_timeout s) (e_now base w1) else cx);
                    (sid, w2) = (case sw_child_store s of
                                   None \<Rightarrow> (None, w1) | Some mk \<Rightarrow> mk (cx_parent_run cx1) (pf_name p) duty w1);
                    opts1 = opts @ (case sid of None \<Rightarrow> [] | Some i \<Rightarrow> [with_store, with_session i]);
                    (e, a) = spawn_worker s base os p opts1 w2;
                    e1 = e\<lparr>e_done := (\<lambda>w. ctx_done cx1 (e_now base w))\<rparr>
                in case run_turn e1 fuel duty a of
                     None \<Rightarrow> None
                   | Some (res, a1) \<Rightarrow> Some (WorkerEnded res, world (close_loop e1 a1)))))"

end
