(* ===== verification/Worker_Props.thy ===== *)
theory Worker_Props
  imports Worker Agent_Demo Risk_Props Router_Laws Fs_Effects
begin

text \<open>
  Properties of spawned workers: the router a profile gets, the refusals, what a clean answer of a coding
  worker means, and which calls the hooks keep from the tools: those that a gate or a guard of protected
  paths objects to. Each combines the spawner with a part it is built from: the router, the agent loop, the
  hooks.
\<close>

subsection \<open>The router\<close>

text \<open>The positions of the mid and the strong rung on the ladder of a worker.\<close>

definition rung_indices :: "'w spawner \<Rightarrow> profile \<Rightarrow> int \<times> int" where
  "rung_indices s p =
     ((if sw_mid s = None then -1 else 1),
      (if sw_strong s = None then -1
       else 1 + (if sw_mid s = None then 0 else 1) + (if sw_coding s \<noteq> None \<and> pf_coding_rung p then 1 else 0)))"

lemma ladder_floor: "snd (ladder_for s p) = floor_for_tier (Some p) (fst (rung_indices s p)) (snd (rung_indices s p))"
  by (cases "sw_mid s"; cases "sw_strong s"; cases "sw_coding s")
     (simp_all add: ladder_for_def rung_indices_def floor_for_tier_def Let_def)

lemma ladder_range:
  "fst (ladder_for s p) \<noteq> []" "0 \<le> snd (ladder_for s p)" "snd (ladder_for s p) < int (length (fst (ladder_for s p)))"
  by (cases "sw_mid s"; cases "sw_strong s"; cases "sw_coding s"; simp add: ladder_for_def Let_def)+

lemma router_options [simp]:
  "list_all ladder_option (if b then [with_bounded_top n] else [])"
  "list_all ladder_option (if b then [with_shared_strong_budget x] else [])"
  "list_all ladder_option (if b then [case c of Some cfg \<Rightarrow> with_config (f cfg) | None \<Rightarrow> with_escalation m k] else [])"
  by (auto intro: ladder_option.intros split: option.split)

lemma escalation_keeps:
  "r_tiers (opt r) = r_tiers r \<and> r_cur (opt r) = r_cur r \<and> r_floor (opt r) = r_floor r \<and> r_bound_max (opt r) = r_bound_max r
     \<and> r_bound_rung (opt r) = r_bound_rung r \<and> r_has_budget (opt r) = r_has_budget r"
  if "opt = (case c of Some cfg \<Rightarrow> with_config (f cfg) | None \<Rightarrow> with_escalation m k)"
  using that by (auto simp: with_config_def with_escalation_def Let_def split: option.split)

text \<open>A worker starts on the rung its profile's tier rests on, as the ladder policy computes it, on a
  well-formed ladder of the configured tiers; unless that rung is the top one, the strong rung has the
  configured bound and draws from the shared pool when there is one.\<close>

theorem worker_router_exact:
  "let r = router_for s p; tiers = fst (ladder_for s p); fl = snd (ladder_for s p)
   in wf_router r \<and> current_model r = tiers ! nat fl
     \<and> fl = floor_for_tier (Some p) (fst (rung_indices s p)) (snd (rung_indices s p))
     \<and> (fl = int (length tiers) - 1 \<or>
          (r_tiers r = tiers \<and> r_cur r = fl \<and> r_has_budget r = sw_strong_budget s
           \<and> r_bound_max r = (if sw_strong s = None then 0 else max 0 (sw_strong_bound s))
           \<and> (r_bound_rung r = (if r_bound_max r = 0 \<and> r_has_budget r = False then -1 else int (length tiers) - 1))))"
proof -
  obtain tiers fl where l: "ladder_for s p = (tiers, fl)" by (cases "ladder_for s p")
  have n: "tiers \<noteq> []" "0 \<le> fl" "fl < int (length tiers)" using ladder_range [of s p] by (simp_all add: l)
  have f: "fl = floor_for_tier (Some p) (fst (rung_indices s p)) (snd (rung_indices s p))"
    using ladder_floor [of s p] by (simp add: l)
  show ?thesis
  proof (cases "fl \<ge> int (length tiers) - 1")
    case True
    then have r: "router_for s p = new_router (tiers ! nat fl) (tiers ! nat fl) []" by (simp add: router_for_def l Let_def)
    have "wf_router (router_for s p)" unfolding r new_router_def by (intro new_ladder_wf) simp_all
    moreover have "current_model (router_for s p) = tiers ! nat fl"
      by (simp add: r new_router_def new_ladder_def current_model_def model_at_def)
    ultimately show ?thesis using True n f by (simp add: l Let_def)
  next
    case False
    define es where "es = (if escalates_on_tool_error p
             then [case sw_esc_config s of
                     Some cfg \<Rightarrow> with_config (with_repeated_tool_error cfg (sw_escalate_after s))
                   | None \<Rightarrow> with_escalation (sw_escalate_after s) 2]
             else [])"
    define bs where "bs = (if sw_strong s \<noteq> None \<and> sw_strong_bound s > 0 then [with_bounded_top (sw_strong_bound s)] else [])"
    define ps where "ps = (if sw_strong_budget s then [with_shared_strong_budget True] else [])"
    have r: "router_for s p = new_ladder tiers fl (es @ bs @ ps)"
      using False by (simp add: router_for_def l Let_def es_def bs_def ps_def)
    have w: "wf_router (router_for s p)"
      unfolding r using n(1) by (intro new_ladder_wf) (simp_all only: list_all_append es_def bs_def ps_def router_options, simp)
    let ?z = "new_ladder tiers fl []"
    have z: "r_tiers ?z = tiers" "r_cur ?z = fl" "r_bound_max ?z = 0" "r_bound_rung ?z = -1" "r_has_budget ?z = False"
      using n by (simp_all add: new_ladder_def)
    have ez: "r_tiers (fold (\<lambda>opt r. opt r) es ?z) = tiers \<and> r_cur (fold (\<lambda>opt r. opt r) es ?z) = fl
        \<and> r_bound_max (fold (\<lambda>opt r. opt r) es ?z) = 0 \<and> r_bound_rung (fold (\<lambda>opt r. opt r) es ?z) = -1
        \<and> r_has_budget (fold (\<lambda>opt r. opt r) es ?z) = False"
      using z escalation_keeps [OF refl, where c = "sw_esc_config s" and f = "\<lambda>cfg. with_repeated_tool_error cfg (sw_escalate_after s)"
          and m = "sw_escalate_after s" and k = 2 and r = ?z] by (simp add: es_def)
    have e: "router_for s p = fold (\<lambda>opt r. opt r) ps (fold (\<lambda>opt r. opt r) bs (fold (\<lambda>opt r. opt r) es ?z))"
      unfolding r by (simp add: new_ladder_def Let_def)
    have two: "\<not> length tiers < 2" using False n by linarith
    have "r_tiers (router_for s p) = tiers \<and> r_cur (router_for s p) = fl \<and> r_has_budget (router_for s p) = sw_strong_budget s
        \<and> r_bound_max (router_for s p) = (if sw_strong s = None then 0 else max 0 (sw_strong_bound s))
        \<and> r_bound_rung (router_for s p) = (if r_bound_max (router_for s p) = 0 \<and> r_has_budget (router_for s p) = False
              then -1 else int (length tiers) - 1)"
      unfolding e using ez two
      by (auto simp: bs_def ps_def with_bounded_top_def with_shared_strong_budget_def top_rung_def Let_def)
    then show ?thesis using w f by (simp add: l Let_def current_model_def model_at_def)
  qed
qed

text \<open>A worker whose profile rests on the strong tier runs on a router of its own with no bound and no pool: it
  serves strong turns that the tree-wide cap never counts.\<close>

lemma strong_tier_worker_unpooled:
  assumes "pf_tier p = ''strong''" "sw_strong s = Some m"
  shows "current_model (router_for s p) = m \<and> r_has_budget (router_for s p) = False \<and> r_bound_max (router_for s p) = 0"
proof -
  have "fst (ladder_for s p) ! nat (snd (ladder_for s p)) = m \<and> snd (ladder_for s p) = int (length (fst (ladder_for s p))) - 1"
    using assms by (cases "sw_mid s"; cases "sw_coding s") (simp_all add: ladder_for_def Let_def nth_append)
  then show ?thesis
    by (cases "ladder_for s p") (simp add: router_for_def Let_def new_router_def new_ladder_def current_model_def model_at_def)
qed

text \<open>Without a strong tier the pool is wired all the same, and turns of the mid rung are drawn from it.\<close>

lemma pool_without_strong:
  assumes "sw_strong s = None" "sw_mid s = Some m" "sw_strong_budget s" "pf_tier p = ''local''" "sw_coding s = None"
  shows "guards_top (router_for s p) 1 \<and> r_tiers (router_for s p) = [sw_base s, m]"
  using assms
  by (auto simp: router_for_def ladder_for_def Let_def new_ladder_def with_shared_strong_budget_def guards_top_def top_rung_def
      with_config_def with_escalation_def split: option.split)

subsection \<open>Contexts\<close>

text \<open>The watch on the parent fires once, when the parent ends. If that is its deadline, the worker goes on, as
  intended; a cancellation of the run that comes later no longer reaches it.\<close>

lemma late_cancel_is_lost:
  assumes "d < c" "cx_end root_cx = Some (c, CtxCanceled)"
  shows "ctx_done (with_deadline d root_cx) c \<and> ctx_done root_cx c
    \<and> ctx_done (worker_context (with_deadline d root_cx) 0 now) t = False"
  using assms by (simp add: with_deadline_def ctx_done_def worker_context_def Let_def)

text \<open>Before the deadline it does.\<close>

lemma early_cancel_arrives:
  assumes "c \<le> d" "cx_end root_cx = Some (c, CtxCanceled)" "c \<le> t"
  shows "ctx_done (worker_context (with_deadline d root_cx) budget now) t"
  using assms by (simp add: with_deadline_def ctx_done_def worker_context_def Let_def)

subsection \<open>Refusals\<close>

lemma run_worker_cases:
  assumes "run_worker s base os n cx p duty opts w = Some (x, w')"
  obtains (Spent) t where "reserve_worker s w = (Some t, w')" "x = SpawnRefused SpawnBudgetExhausted t"
  | (Config) k t where "reserve_worker s w = (None, w')" "misconfigured s os p w' = Some (k, t)" "x = SpawnRefused k t"
  | (Ran) w1 cx1 sid w2 opts1 e a res a1 where "reserve_worker s w = (None, w1)" "misconfigured s os p w1 = None"
      "opts1 = opts @ (case sid of None \<Rightarrow> [] | Some i \<Rightarrow> [with_store, with_session i])"
      "spawn_worker s base os p opts1 w2 = (e, a)"
      "run_turn (e\<lparr>e_done := (\<lambda>w. ctx_done cx1 (e_now base w))\<rparr>) n duty a = Some (res, a1)" "x = WorkerEnded res"
      "w' = world (close_loop (e\<lparr>e_done := (\<lambda>w. ctx_done cx1 (e_now base w))\<rparr>) a1)"
proof -
  obtain r w1 where r: "reserve_worker s w = (r, w1)" by fastforce
  show thesis
  proof (cases r)
    case (Some t)
    with assms r show thesis by (intro Spent [of t]) (simp_all add: run_worker_def)
  next
    case None
    show thesis
    proof (cases "misconfigured s os p w1")
      case (Some kt)
      obtain k t where "kt = (k, t)" by fastforce
      with assms r None Some show thesis by (intro Config [of k t]) (simp_all add: run_worker_def)
    next
      case none: None
      let ?cx = "if sw_detach s then worker_context cx (sw_timeout s) (e_now base w1) else cx"
      obtain sid w2 where st: "(case sw_child_store s of None \<Rightarrow> (None, w1)
          | Some mk \<Rightarrow> mk (cx_parent_run ?cx) (pf_name p) duty w1) = (sid, w2)" by fastforce
      let ?opts = "opts @ (case sid of None \<Rightarrow> [] | Some i \<Rightarrow> [with_store, with_session i])"
      obtain e a where sp: "spawn_worker s base os p ?opts w2 = (e, a)" by fastforce
      let ?e = "e\<lparr>e_done := (\<lambda>w. ctx_done ?cx (e_now base w))\<rparr>"
      have "run_worker s base os n cx p duty opts w = (case run_turn ?e n duty a of None \<Rightarrow> None
          | Some (res, a1) \<Rightarrow> Some (WorkerEnded res, world (close_loop ?e a1)))"
        by (simp add: run_worker_def r None none st sp Let_def)
      with assms obtain res a1 where "run_turn ?e n duty a = Some (res, a1)" "x = WorkerEnded res"
        "w' = world (close_loop ?e a1)" by (auto split: option.splits)
      with r None none sp show thesis by (intro Ran [of w1 "?opts" sid w2 e a ?cx res a1]) simp_all
    qed
  qed
qed

text \<open>Every spawn draws from the budget of the tree before anything else. A refused one leaves the world as
  the reservation left it: the budget is spent, or the profile's gate cannot run, or its file tools were
  dropped; a worker that ran had none of these faults.\<close>

theorem spawn_refusals_exact:
  assumes "run_worker s base os n cx p duty opts w = Some (x, w')"
  shows "(case x of
      SpawnRefused k t \<Rightarrow> w' = snd (reserve_worker s w) \<and>
        (if k = SpawnBudgetExhausted then fst (reserve_worker s w) = Some t
         else fst (reserve_worker s w) = None \<and>
           (if k = VerifyGateUnrunnable then verify_gate_runnable os (pf_verify_command p) (sw_verify_dir s) w' = Some t
            else mutates_files p \<and> (\<exists>pr. sw_project s = Some pr \<and> ''fs'' \<notin> set (pr p))))
    | WorkerEnded _ \<Rightarrow> fst (reserve_worker s w) = None
        \<and> verify_gate_runnable os (pf_verify_command p) (sw_verify_dir s) (snd (reserve_worker s w)) = None
        \<and> (\<nexists>pr. sw_project s = Some pr \<and> mutates_files p \<and> ''fs'' \<notin> set (pr p)))"
  using assms
proof (cases rule: run_worker_cases)
  case (Config k t)
  then have "k \<noteq> SpawnBudgetExhausted" by (auto simp: misconfigured_def split: option.splits if_splits)
  with Config show ?thesis
    by (auto simp: misconfigured_def mutator_surface_dropped_def split: option.splits if_splits)
next
  case Ran
  then show ?thesis
    by (auto simp: misconfigured_def mutator_surface_dropped_def split: option.splits if_splits)
qed simp

text \<open>A spawn that is refused for its configuration has used up one of the budget all the same.\<close>

lemma refused_spawn_is_counted:
  assumes "sw_budget s = Some ((\<lambda>b. b), (\<lambda>b _. b))" "sp_count w < sp_cap w" "misconfigured s os p (w\<lparr>sp_count := sp_count w + 1\<rparr>) = Some (k, t)"
  shows "run_worker s base os n cx p duty opts w = Some (SpawnRefused k t, w\<lparr>sp_count := sp_count w + 1\<rparr>)"
  using assms by (simp add: run_worker_def reserve_worker_def reserve_def)

subsection \<open>The verify gate of a worker\<close>

lemma with_extra_hook_last:
  "\<exists>hs. e_hooks (fst (with_extra_hook PreToolUse name (Some f) (e, a))) PreToolUse = hs @ [(name, f)]"
  by (auto simp: with_extra_hook_def register_def valid_kind_def hook_order_def split: sum.split)

lemma with_extra_hook_rest:
  "\<exists>h. with_extra_hook k name f (e, a) = (e\<lparr>e_hooks := h\<rparr>, a)"
proof (cases f)
  case None
  then show ?thesis by (intro exI [of _ "e_hooks e"]) (simp add: with_extra_hook_def)
next
  case (Some g)
  then show ?thesis by (auto simp: with_extra_hook_def split: sum.split intro: exI [of _ "e_hooks e"])
qed

text \<open>What the profile fixes of its worker, whatever the other options are: the gate's command, the audits of a
  passing gate, the guard of the protected paths.\<close>

lemma spawn_worker_shape:
  assumes "spawn_worker s base os p opts w = (e, a)" "pf_verify_command p \<noteq> []"
  shows "\<exists>g gs hs. e_verify e = Some g \<and> vg_command g = pf_verify_command p \<and> vg_max_rounds g = pf_verify_max_rounds p
    \<and> e_guards e = gs @ [ScaffoldFabricationGuard (sw_verify_dir s), FakeGreenGuard] \<and> e_opp_every e = 4
    \<and> (pf_protect_paths p = [] \<or> e_hooks e PreToolUse = hs @ [(''protect-paths'', protect_path_guard (pf_protect_paths p))])"
proof -
  define before where "before = profile_options s p @ opts"
  define specs where "specs = (case sw_project s of None \<Rightarrow> [] | Some pr \<Rightarrow> pr p)"
  define prov where "prov = (case sw_scope s of None \<Rightarrow> sw_provider s | Some f \<Rightarrow> f p)"
  have sp: "spawn_worker s base os p opts w =
      new_loop ((bare_env base)\<lparr>e_specs := specs, e_dispatch := prov\<rparr>) (router_for s p) w (before @ auto_verify_opts s os w p)"
    by (simp add: before_def spawn_worker_def specs_def prov_def Let_def)
  let ?e0 = "loop_defaults ((bare_env base)\<lparr>e_specs := specs, e_dispatch := prov\<rparr>)"
  obtain e1 a1 where pre: "fold (\<lambda>opt es. opt es) before (?e0, fresh_agent (router_for s p) w) = (e1, a1)" by fastforce
  let ?dir = "case resolve_go_module_dir os (sw_verify_dir s) w of None \<Rightarrow> sw_verify_dir s | Some md \<Rightarrow> md"
  let ?g = "\<lparr>vg_command = pf_verify_command p, vg_dir = ?dir, vg_max_rounds = pf_verify_max_rounds p, vg_timeout = 0\<rparr>"
  define e2 where "e2 = e1\<lparr>e_verify := Some ?g, e_opp_every := 4\<rparr>"
  obtain h where h: "with_extra_hook PreToolUse ''protect-paths'' (Some (protect_path_guard (pf_protect_paths p))) (e2, a1)
      = (e2\<lparr>e_hooks := h\<rparr>, a1)" using with_extra_hook_rest by blast
  define e3 where "e3 = (if pf_protect_paths p \<noteq> [] then e2\<lparr>e_hooks := h\<rparr> else e2)"
  define e4 where "e4 = e3\<lparr>e_guards := e_guards e3 @ [ScaffoldFabricationGuard (sw_verify_dir s)]\<rparr>"
  obtain hs where hs: "h PreToolUse = hs @ [(''protect-paths'', protect_path_guard (pf_protect_paths p))]"
    using with_extra_hook_last [of "''protect-paths''" "protect_path_guard (pf_protect_paths p)" e2 a1] h by auto
  have "fold (\<lambda>opt es. opt es) (auto_verify_opts s os w p) (e1, a1) = (e4, a1)"
    using assms(2) h
    by (simp add: auto_verify_opts_def Let_def with_verify_def usable_gate_def with_opportunistic_verify_def
        coding_opportunistic_every_def with_guard_def e2_def [symmetric] e3_def e4_def)
  then have "fold (\<lambda>opt es. opt es) (before @ auto_verify_opts s os w p) (?e0, fresh_agent (router_for s p) w) = (e4, a1)"
    using pre by simp
  moreover have "e_verify e4 = Some ?g" "e_opp_every e4 = 4" "e_guards e4 = e_guards e1 @ [ScaffoldFabricationGuard (sw_verify_dir s)]"
    "pf_protect_paths p \<noteq> [] \<Longrightarrow> e_hooks e4 = h"
    by (simp_all add: e4_def e3_def e2_def)
  ultimately show ?thesis
    using assms(1) hs unfolding sp new_loop_def
    by (cases "pf_protect_paths p = []"; cases "e_verify_dir e4 = []") (auto simp: Let_def)
qed

text \<open>C4: A coding worker that answers cleanly ended on a passing run of its own profile's gate, scoped to the
  tool calls of the result; only the closing of the session came after it. No option of the spawn can take
  the gate away.\<close>

theorem worker_done_is_verified:
  assumes "run_worker s base os n cx p duty opts w = Some (WorkerEnded (Answered r), w')" "pf_verify_command p \<noteq> []" "clean_result r"
  shows "\<exists>e g a. e_verify e = Some g \<and> vg_command g = pf_verify_command p \<and> closed_on_green e g (tr_dispatches r) a
    \<and> ScaffoldFabricationGuard (sw_verify_dir s) \<in> set (e_guards e) \<and> FakeGreenGuard \<in> set (e_guards e)
    \<and> w' = world (close_loop e a)"
  using assms(1)
proof (cases rule: run_worker_cases)
  case (Ran w1 cx1 sid w2 opts1 e a res a1)
  from spawn_worker_shape [OF Ran(4) assms(2)] obtain g gs where g: "e_verify e = Some g" "vg_command g = pf_verify_command p"
    "e_guards e = gs @ [ScaffoldFabricationGuard (sw_verify_dir s), FakeGreenGuard]" by blast
  let ?e = "e\<lparr>e_done := (\<lambda>w. ctx_done cx1 (e_now base w))\<rparr>"
  have "closed_on_green ?e g (tr_dispatches r) a1"
    using Ran(5,6) g(1) assms(3) by (intro run_turn_closed [of ?e n duty a]) auto
  with g Ran(7) show ?thesis by (intro exI [of _ ?e] exI [of _ g] exI [of _ a1]) simp
qed simp_all

subsection \<open>The hooks before a tool call\<close>

text \<open>The pre-tool-use hooks that the program registers, and when each objects to a call.\<close>

datatype pre_hook = RiskGateHook gate_fn | ProtectPathsHook "string list" | ProtectedAcceptanceHook "string list"

fun hook_of :: "pre_hook \<Rightarrow> 'x hook_func" where
  "hook_of (RiskGateHook g) = guard g"
| "hook_of (ProtectPathsHook ps) = protect_path_guard ps"
| "hook_of (ProtectedAcceptanceHook ps) = protected_path_guard ps"

definition writes_protected :: "string list \<Rightarrow> call \<Rightarrow> bool" where
  "writes_protected ps c \<longleftrightarrow> ps \<noteq> [] \<and> surface c = ''fs'' \<and> (action c = ''write'' \<or> action c = ''edit'')
     \<and> tool_call_path c \<noteq> [] \<and> is_protected (tool_call_path c) ps"

fun objects :: "pre_hook \<Rightarrow> call \<Rightarrow> bool" where
  "objects (RiskGateHook g) c = (v_gated (classify c) \<and> \<not> fst (g c (classify c)))"
| "objects (ProtectPathsHook ps) c = writes_protected ps c"
| "objects (ProtectedAcceptanceHook ps) c = writes_protected ps c"

fun is_protect_paths :: "pre_hook \<Rightarrow> bool" where
  "is_protect_paths (ProtectPathsHook ps) = True"
| "is_protect_paths _ = False"

lemma writes_are_mutating: "surface c = ''fs'' \<Longrightarrow> action c = ''write'' \<or> action c = ''edit'' \<Longrightarrow> v_class (classify c) = Mutating"
  by (auto simp: classify_def)

lemma fire_one_of:
  assumes "hc_tool_call ctx = Some c"
  shows "hc_tool_call (fire_one (n, hook_of h) ctx) = Some c"
    "hc_rest (fire_one (n, hook_of h) ctx) = hc_rest ctx"
    "hc_request_escalation (fire_one (n, hook_of h) ctx) = hc_request_escalation ctx"
    "hc_deny (fire_one (n, hook_of h) ctx) \<longleftrightarrow> hc_deny ctx \<or> objects h c"
    "hc_deny_non_escalatable (fire_one (n, hook_of h) ctx) \<longleftrightarrow> hc_deny_non_escalatable ctx \<or> is_protect_paths h \<and> objects h c"
proof -
  note d = fire_one_def guard_def protect_path_guard_def protected_path_guard_def protected_path_gate_def Let_def
    writes_protected_def
  show "hc_tool_call (fire_one (n, hook_of h) ctx) = Some c"
    "hc_rest (fire_one (n, hook_of h) ctx) = hc_rest ctx"
    "hc_request_escalation (fire_one (n, hook_of h) ctx) = hc_request_escalation ctx"
    "hc_deny (fire_one (n, hook_of h) ctx) \<longleftrightarrow> hc_deny ctx \<or> objects h c"
    "hc_deny_non_escalatable (fire_one (n, hook_of h) ctx) \<longleftrightarrow> hc_deny_non_escalatable ctx \<or> is_protect_paths h \<and> objects h c"
    using assms writes_are_mutating [of c] by (cases h; auto simp: d split: prod.splits bool.splits)+
qed

lemma fire_hooks_of:
  assumes "hc_tool_call ctx = Some c"
  shows "hc_tool_call (fold fire_one (map (\<lambda>(n, h). (n, hook_of h)) hs) ctx) = Some c
    \<and> hc_rest (fold fire_one (map (\<lambda>(n, h). (n, hook_of h)) hs) ctx) = hc_rest ctx
    \<and> (hc_deny (fold fire_one (map (\<lambda>(n, h). (n, hook_of h)) hs) ctx) \<longleftrightarrow> hc_deny ctx \<or> (\<exists>h \<in> snd ` set hs. objects h c))
    \<and> (hc_deny_non_escalatable (fold fire_one (map (\<lambda>(n, h). (n, hook_of h)) hs) ctx)
         \<longleftrightarrow> hc_deny_non_escalatable ctx \<or> (\<exists>h \<in> snd ` set hs. is_protect_paths h \<and> objects h c))"
  using assms
proof (induction hs arbitrary: ctx)
  case Nil
  then show ?case by simp
next
  case (Cons nh hs)
  obtain n h where nh: "nh = (n, h)" by fastforce
  note one = fire_one_of [OF Cons.prems, of n h]
  show ?case using Cons.IH [OF one(1)] one by (auto simp: nh)
qed

lemma dispatches_kept:
  "tn_dispatches (snd (fire_hook e k hc s)) = tn_dispatches s"
  "tn_dispatches (harvest hc s) = tn_dispatches s"
  "tn_dispatches (record_row e row s) = tn_dispatches s"
  "tn_dispatches (track_truncated_view e c raw s) = tn_dispatches s"
  "tn_dispatches (snd (resolve_call e hc c s)) = tn_dispatches s"
  by (simp_all add: fire_hook_def harvest_def record_row_def track_truncated_view_def resolve_call_def split_beta Let_def)

text \<open>A vetoed call is recorded as a failure, and the tools play no part in it.\<close>

lemma denied_dispatch:
  assumes "fire (e_hooks e) PreToolUse ((hook_ctx e PreToolUse (tn_turn st) st)\<lparr>hc_tool_call := Some c\<rparr>) = pc"
    and "hc_deny pc" "hc_tool_call pc = Some c"
  shows "dispatch_call (e\<lparr>e_dispatch := tools\<rparr>) c (mutated, elapsed, st) = dispatch_call e c (mutated, elapsed, st)"
    "tn_dispatches (snd (snd (dispatch_call e c (mutated, elapsed, st)))) = tn_dispatches st
       @ [denial c (if hc_deny_non_escalatable pc then ClassUsage else ClassTool) (hc_deny_reason pc) ''risk_gate'' ''blocked'']"
proof -
  have same: "fire_hook (e\<lparr>e_dispatch := tools\<rparr>) k = fire_hook e k" "hook_ctx (e\<lparr>e_dispatch := tools\<rparr>) = hook_ctx e"
    "record_row (e\<lparr>e_dispatch := tools\<rparr>) = record_row e" "track_truncated_view (e\<lparr>e_dispatch := tools\<rparr>) = track_truncated_view e"
    "cap_tool_result (e\<lparr>e_dispatch := tools\<rparr>) = cap_tool_result e" for k
    by (simp_all add: fun_eq_iff fire_hook_def hook_ctx_def record_row_def track_truncated_view_def cap_tool_result_def
        tool_result_cap_def Let_def)
  let ?d = "denial c (if hc_deny_non_escalatable pc then ClassUsage else ClassTool) (hc_deny_reason pc) ''risk_gate'' ''blocked''"
  have res: "resolve_call e' pc c s2 = (?d, s2)" for e' :: "'a env" and s2 using assms(2) by (simp add: resolve_call_def)
  obtain s1 where pc: "fire_hook e PreToolUse ((hook_ctx e PreToolUse (tn_turn st) st)\<lparr>hc_tool_call := Some c\<rparr>) st = (pc, s1)"
    using assms(1) by (simp add: fire_hook_def Let_def)
  then have keep2: "tn_dispatches s1 = tn_dispatches st" using dispatches_kept(1) by (metis snd_conv)
  show "dispatch_call (e\<lparr>e_dispatch := tools\<rparr>) c (mutated, elapsed, st) = dispatch_call e c (mutated, elapsed, st)"
    unfolding dispatch_call_def prod.case same pc by (simp add: assms(3) res Let_def)
  show "tn_dispatches (snd (snd (dispatch_call e c (mutated, elapsed, st)))) = tn_dispatches st @ [?d]"
    unfolding dispatch_call_def prod.case pc
    by (simp add: assms(3) res Let_def case_prod_beta dispatches_kept keep2)
qed

text \<open>C10: Where the pre-tool-use hooks of a loop are those the program registers (the risk gate with any gate
  function, the guards of protected paths), in any number and order, a call reaches the tools exactly when no hook
  objects to it, and it is no whole-file write after a truncated read. The risk gate objects to a gated call that its gate
  function does not approve. A call that a hook objects to is recorded as one failed result, a usage failure if a
  protected path is the reason, and whatever the tools are the turn goes on the same.\<close>

theorem objected_calls_never_run:
  assumes "e_hooks e PreToolUse = map (\<lambda>(n, h). (n, hook_of h)) hs"
  shows "\<exists>d. tn_dispatches (snd (snd (dispatch_call e c (mutated, elapsed, st)))) = tn_dispatches st @ [d]
    \<and> (if \<exists>h \<in> snd ` set hs. objects h c
        then res_call d = c \<and> \<not> res_ok d
          \<and> res_class d = (if \<exists>h \<in> snd ` set hs. is_protect_paths h \<and> objects h c then ClassUsage else ClassTool)
          \<and> (\<forall>tools. dispatch_call (e\<lparr>e_dispatch := tools\<rparr>) c (mutated, elapsed, st) = dispatch_call e c (mutated, elapsed, st))
        else if truncated_write_reason st c \<noteq> [] then d = denial c ClassUsage (truncated_write_reason st c) ''fs_guard'' ''truncated_view''
        else d = fst (e_dispatch e c (world st)))"
proof -
  let ?ctx = "(hook_ctx e PreToolUse (tn_turn st) st)\<lparr>hc_tool_call := Some c\<rparr>"
  define pc where "pc = fire (e_hooks e) PreToolUse ?ctx"
  have "pc = fold fire_one (map (\<lambda>(n, h). (n, hook_of h)) hs) (?ctx\<lparr>hc_kind := PreToolUse\<rparr>)"
    by (simp add: pc_def fire_def assms)
  then have pc: "hc_tool_call pc = Some c" "hc_rest pc = hc_rest ?ctx"
    "hc_deny pc \<longleftrightarrow> (\<exists>h \<in> snd ` set hs. objects h c)"
    "hc_deny_non_escalatable pc \<longleftrightarrow> (\<exists>h \<in> snd ` set hs. is_protect_paths h \<and> objects h c)"
    using fire_hooks_of [of "?ctx\<lparr>hc_kind := PreToolUse\<rparr>" c hs] by (simp_all add: hook_ctx_def)
  show ?thesis
  proof (cases "hc_deny pc")
    case True
    from denied_dispatch [OF pc_def [symmetric] True pc(1)] True pc(3,4) show ?thesis by (simp add: denial_def)
  next
    case False
    have s1: "fire_hook e PreToolUse ?ctx st = (pc, st)"
      unfolding fire_hook_def Let_def pc_def [symmetric] pc(2) by (simp add: hook_ctx_def)
    have h: "world (harvest pc st) = world st" "truncated_write_reason (harvest pc st) c = truncated_write_reason st c"
      "tn_dispatches (harvest pc st) = tn_dispatches st"
      by (simp_all add: harvest_def truncated_write_reason_def)
    let ?d = "fst (resolve_call e pc c (harvest pc st))"
    have "tn_dispatches (snd (snd (dispatch_call e c (mutated, elapsed, st)))) = tn_dispatches st @ [?d]"
      unfolding dispatch_call_def prod.case s1
      by (simp add: pc(1) Let_def case_prod_beta dispatches_kept h(3))
    moreover have "?d = (if truncated_write_reason st c \<noteq> [] then denial c ClassUsage (truncated_write_reason st c) ''fs_guard'' ''truncated_view''
        else fst (e_dispatch e c (world st)))"
      using False by (simp add: resolve_call_def h split_beta)
    ultimately show ?thesis using False pc(3) by simp
  qed
qed

subsection \<open>Protected paths\<close>

lemma guard_keeps_call: "keeps_call (protect_path_guard ps)"
  by (auto simp: keeps_call_def protect_path_guard_def Let_def split: option.split)

lemma protect_path_guard_denies:
  assumes "hc_tool_call ctx = Some c" "surface c = ''fs''" "action c = ''write'' \<or> action c = ''edit''" "ps \<noteq> []"
    "tool_call_path c \<noteq> []" "is_protected (tool_call_path c) ps"
  shows "hc_deny (fire_one (name, protect_path_guard ps) ctx) \<and> hc_deny_non_escalatable (fire_one (name, protect_path_guard ps) ctx)"
  using assms by (auto simp: fire_one_def protect_path_guard_def Let_def)

text \<open>The file that a write or edit names: every parameter that spells \<open>path\<close> or \<open>file_path\<close>, up to letter case, gives
  it, and one of the two is spelled exactly. Then the guard and the organ, which look at the two parameters in
  opposite orders, read the same path off the call.\<close>

definition names_file :: "call \<Rightarrow> string \<Rightarrow> bool" where
  "names_file c f \<longleftrightarrow> \<not> blank f \<and> json_text f = f
     \<and> (\<exists>ps. params c = Some ps \<and> finite (dom ps)
           \<and> (\<forall>k v. ps k = Some v \<longrightarrow> fold_key k = ''path'' \<or> fold_key k = ''file_path'' \<longrightarrow> v = VStr f)
           \<and> (ps ''path'' \<noteq> None \<or> ps ''file_path'' \<noteq> None))"

lemma blank_Nil: "blank []"
  by code_simp

lemma string_values:
  assumes "\<forall>v \<in> set vs. v = VStr f" "json_text f = f"
  shows "decode_values as_string x vs = Some (if vs = [] then x else f)" "decode_lax y vs = (if vs = [] then y else f)"
  using assms by (induction vs arbitrary: x y) auto

lemma named_file_read:
  assumes "names_file c f"
  shows "tool_call_path c = f" "call_path (params c) = f"
proof -
  from assms obtain ps where ps: "params c = Some ps" "finite (dom ps)"
      "\<And>k v. ps k = Some v \<Longrightarrow> fold_key k = ''path'' \<or> fold_key k = ''file_path'' \<Longrightarrow> v = VStr f"
      "ps ''path'' \<noteq> None \<or> ps ''file_path'' \<noteq> None" and f: "\<not> blank f" "json_text f = f" "f \<noteq> []"
    using blank_Nil by (auto simp: names_file_def)
  have self: "fold_key ''path'' = ''path''" "fold_key ''file_path'' = ''file_path''" by code_simp+
  have at: "ps ''path'' = None \<or> ps ''path'' = Some (VStr f)" "ps ''file_path'' = None \<or> ps ''file_path'' = Some (VStr f)"
    using ps(3) [of "''path''"] ps(3) [of "''file_path''"] self by (cases "ps ''path''"; cases "ps ''file_path''"; simp)+
  show "tool_call_path c = f" using at ps(4) f(3) by (auto simp: tool_call_path_def string_param_def ps(1))
  let ?vals = "\<lambda>name. field_values name (object_of (Some ps))"
  have mem: "v \<in> set (?vals name) \<longleftrightarrow> (\<exists>k. ps k = Some v \<and> fold_key k = name)" for v name
    using ps(2) by (force simp: field_values_def object_of_def)
  have all: "\<forall>v \<in> set (?vals ''path''). v = VStr f" "\<forall>v \<in> set (?vals ''file_path''). v = VStr f"
    using mem ps(3) by blast+
  have "set (?vals ''path'') \<noteq> {} \<or> set (?vals ''file_path'') \<noteq> {}"
    using ps(4) self mem [of _ "''path''"] mem [of _ "''file_path''"] by (metis equals0D not_Some_eq)
  then have some: "?vals ''path'' \<noteq> [] \<or> ?vals ''file_path'' \<noteq> []" by auto
  show "call_path (params c) = f"
    using string_values [OF all(1) f(2)] string_values [OF all(2) f(2)] some f(1) blank_Nil
    by (auto simp: call_path_def ps(1) string_field_def aliased_def Let_def)
qed

text \<open>C8: A write or edit by a coding worker of a file that its profile protects never reaches the tools: whatever
  the provider is, the dispatch records a usage failure for it and goes on the same way. The call names the file in
  every path parameter it carries (with two different ones, or a spelling the guard does not know, the guard is
  bypassed), and the hooks that the spawn's options add may do anything but change the pending call.\<close>

theorem worker_respects_protected:
  assumes "spawn_worker s base os p opts w = (e, a)" "pf_verify_command p \<noteq> []" "pf_protect_paths p \<noteq> []"
    and "list_all (\<lambda>h. keeps_call (snd h)) (e_hooks e PreToolUse)"
    and "surface c = ''fs''" "action c = ''write'' \<or> action c = ''edit''"
    and "names_file c f" "is_protected f (pf_protect_paths p)"
  shows "call_path (params c) = f
    \<and> dispatch_call (e\<lparr>e_dispatch := tools\<rparr>) c (mutated, elapsed, st) = dispatch_call e c (mutated, elapsed, st)
    \<and> (\<exists>d. tn_dispatches (snd (snd (dispatch_call e c (mutated, elapsed, st)))) = tn_dispatches st @ [d]
         \<and> res_call d = c \<and> res_ok d = False \<and> res_class d = ClassUsage)"
proof -
  from spawn_worker_shape [OF assms(1,2)] assms(3) obtain hs where
    hs: "e_hooks e PreToolUse = hs @ [(''protect-paths'', protect_path_guard (pf_protect_paths p))]" by blast
  let ?ctx = "(hook_ctx e PreToolUse (tn_turn st) st)\<lparr>hc_tool_call := Some c\<rparr>"
  let ?mid = "fold fire_one hs (?ctx\<lparr>hc_kind := PreToolUse\<rparr>)"
  define pc where "pc = fire (e_hooks e) PreToolUse ?ctx"
  have fire: "pc = fire_one (''protect-paths'', protect_path_guard (pf_protect_paths p)) ?mid"
    by (simp add: pc_def fire_def hs)
  have mid: "hc_tool_call ?mid = Some c"
    using fold_fire_keeps_call [of hs "?ctx\<lparr>hc_kind := PreToolUse\<rparr>"] assms(4) by (simp add: hs)
  note path = named_file_read [OF assms(7)]
  have "f \<noteq> []" using assms(7) blank_Nil by (auto simp: names_file_def)
  then have deny: "hc_deny pc" "hc_deny_non_escalatable pc"
    using protect_path_guard_denies [OF mid assms(5,6,3)] assms(8) path(1) by (simp_all add: fire)
  have call: "hc_tool_call pc = Some c"
    using fold_fire_keeps_call [of "e_hooks e PreToolUse" "?ctx\<lparr>hc_kind := PreToolUse\<rparr>"] assms(4)
    by (simp add: fire hs)
  from denied_dispatch [OF pc_def [symmetric] deny(1) call] path(2) deny(2) show ?thesis by (simp add: denial_def)
qed

subsection \<open>A worker in the small world\<close>

definition no_os :: "nat os" where
  "no_os =
     \<lparr>os_home = [], os_cwd = Inl \<lparr>oe_kind = OsOther, oe_text = []\<rparr>, os_eval_symlinks = (\<lambda>p w. Inr p),
      os_stat = (\<lambda>p w. Inl \<lparr>oe_kind = OsNotExist, oe_text = []\<rparr>), os_lstat = (\<lambda>p w. Inl \<lparr>oe_kind = OsNotExist, oe_text = []\<rparr>),
      os_read_file = (\<lambda>p w. Inr []), os_read_dir = (\<lambda>p w. Inr []), os_tree = (\<lambda>p w. Inr []),
      os_mkdir_all = (\<lambda>p w. (None, w)), os_write_file = (\<lambda>p c w. (None, w)), os_remove = (\<lambda>p w. (None, w)),
      os_remove_all = (\<lambda>p w. (None, w)), os_rename = (\<lambda>a b w. (None, w)), os_copy_tree = (\<lambda>a b i w. (None, w)),
      os_regexp = (\<lambda>s. Inl []), os_elapsed = (\<lambda>w. 0)\<rparr>"

definition demo_worker_profile :: profile where
  "demo_worker_profile =
     \<lparr>pf_name = ''coder'', pf_duty = [], pf_signals = [], pf_rescope_to = [],
      pf_tools = [\<lparr>sco_surface = ''fs'', sco_actions = []\<rparr>], pf_skills = [], pf_context_shapes = [], pf_required_shape = [],
      pf_tier = ''local'', pf_escalate_on = [], pf_system_prompt = [], pf_coding_rung = False, pf_verify_command = [''make''],
      pf_verify_max_rounds = 1, pf_protect_paths = [''**/*_test.go''], pf_max_tool_rounds = 0\<rparr>"

definition demo_spawner :: "nat spawner" where
  "demo_spawner = new_spawner (\<lambda>c w. (succeed c, w)) None None ''floor'' []"

definition demo_base :: "nat env" where
  "demo_base = scripted (\<lambda>_ _. says ''ok'' []) 0"

definition demo_context :: run_context where
  "demo_context = \<lparr>cx_end = None, cx_parent_run = [], cx_depth = 0\<rparr>"

lemma demo_fields: "sw_child_store demo_spawner = None" "sw_detach demo_spawner = False" "sw_verify_dir demo_spawner = []"
  by (simp_all add: demo_spawner_def new_spawner_def)

lemma demo_ready: "reserve_worker demo_spawner w = (None, w)" "misconfigured demo_spawner no_os demo_worker_profile w = None"
proof -
  have "is_go_build_gate [''make''] = False" by code_simp
  then show "reserve_worker demo_spawner w = (None, w)" "misconfigured demo_spawner no_os demo_worker_profile w = None"
    by (simp_all add: demo_spawner_def new_spawner_def reserve_worker_def misconfigured_def demo_worker_profile_def verify_gate_runnable_def)
qed

lemma register_first: "register new_surface PreToolUse n f = Inr (new_surface(PreToolUse := [(n, f)]))"
  by (simp add: register_def valid_kind_def hook_order_def new_surface_def fun_eq_iff)

lemma demo_spawned:
  "spawn_worker demo_spawner demo_base no_os demo_worker_profile [] 0 =
     (demo_base\<lparr>e_max_rounds := 12, e_profile_tools := Some [(''fs'', [])], e_specs := [], e_stuck_after := 2, e_fab_reprompts := 2,
        e_verify := Some demo_gate, e_opp_every := 4,
        e_hooks := new_surface(PreToolUse := [(''protect-paths'', protect_path_guard [''**/*_test.go''])]),
        e_guards := [ScaffoldFabricationGuard [], FakeGreenGuard]\<rparr>,
      fresh_agent (new_router ''floor'' ''floor'' []) 0)"
proof -
  have "router_for demo_spawner demo_worker_profile = new_router ''floor'' ''floor'' []"
    by (simp add: router_for_def ladder_for_def demo_spawner_def new_spawner_def demo_worker_profile_def Let_def)
  then show ?thesis
    by (simp add: register_first spawn_worker_def new_loop_def Let_def profile_options_def auto_verify_opts_def with_profile_def
        with_verify_def usable_gate_def with_opportunistic_verify_def coding_opportunistic_every_def with_extra_hook_def with_guard_def
        demo_spawner_def new_spawner_def demo_worker_profile_def resolve_go_module_dir_def no_os_def demo_base_def scripted_def
        bare_env_def loop_defaults_def demo_gate_def fresh_agent_def)
qed

definition demo_worker_env :: "nat env" where
  "demo_worker_env = demo_base\<lparr>e_max_rounds := 12, e_profile_tools := Some [(''fs'', [])], e_specs := [], e_stuck_after := 2,
     e_fab_reprompts := 2, e_verify := Some demo_gate, e_opp_every := 4,
     e_hooks := new_surface(PreToolUse := [(''protect-paths'', protect_path_guard [''**/*_test.go''])]),
     e_guards := [ScaffoldFabricationGuard [], FakeGreenGuard], e_done := (\<lambda>w. False)\<rparr>"

definition demo_worker :: "nat agent" where
  "demo_worker = fresh_agent (new_router ''floor'' ''floor'' []) 0"

lemmas demo_worker_defs = demo_worker_env_def demo_worker_def demo_base_def new_router_def new_ladder_def

lemma begin_worker: "begin_turn demo_worker_env ''p'' demo_worker = demo_worker\<lparr>l_started := True, l_turns := 1,
      l_transcript := [text_message RoleUser ''p''], l_goal_anchor := ''p''\<rparr>"
  by (simp add: turn_defs demo_defs demo_worker_defs)

lemma guards_worker: "guard_phases demo_worker_env (demo_worker\<lparr>l_started := True,
      l_turns := 1, l_transcript := t, l_goal_anchor := g\<rparr>) =
    (None, demo_worker\<lparr>l_started := True,
      l_turns := 1, l_transcript := t, l_goal_anchor := g, tn_prev_rung := ''floor''\<rparr>)"
  by (simp add: guard_defs turn_defs model_defs demo_defs demo_worker_defs total_usd_def)

lemma detect_empty: "c_triggers (r_config r) = Some Map.empty \<Longrightarrow> detect r sg = None"
proof -
  assume "c_triggers (r_config r) = Some Map.empty"
  then have "detect_in ts (r_config r) sg = None" for ts
    by (induction ts) (simp_all add: config_lookup_def)
  then show ?thesis by (simp add: detect_def)
qed

lemma no_dispatches_audited: "fake_green_verdict [] = []"
  by code_simp

lemma work_worker:
  obtains r s1 where "work_phase demo_worker_env (demo_worker\<lparr>l_started := True,
      l_turns := 1, l_transcript := t, l_goal_anchor := g, tn_prev_rung := ''floor''\<rparr>) =
    (Some (EndTurnWith (Answered r)), s1)" "clean_result r"
  by (simp add: Let_def reply_defs end_defs turn_defs demo_defs demo_worker_defs clean_result_def total_usd_def detect_empty
      no_dispatches_audited)

lemma worker_run:
  obtains r w' where "run_worker demo_spawner demo_base no_os 1 demo_context demo_worker_profile ''p'' [] 0 =
    Some (WorkerEnded (Answered r), w')" "clean_result r"
proof -
  obtain r s1 where w: "work_phase demo_worker_env (demo_worker\<lparr>l_started := True, l_turns := 1,
      l_transcript := [text_message RoleUser ''p''], l_goal_anchor := ''p'', tn_prev_rung := ''floor''\<rparr>) =
      (Some (EndTurnWith (Answered r)), s1)" and c: "clean_result r" by (rule work_worker)
  have t: "run_turn demo_worker_env 1 ''p'' demo_worker = Some (Answered (r\<lparr>tr_highest := highest_model (l_router s1)\<rparr>), s1)"
    by (simp add: run_turn_def begin_worker run_round_def next_phase_def guards_worker w stamp_highest_def)
  have env: "demo_base\<lparr>e_max_rounds := 12, e_profile_tools := Some [(''fs'', [])], e_specs := [], e_stuck_after := 2, e_fab_reprompts := 2,
        e_verify := Some demo_gate, e_opp_every := 4,
        e_hooks := new_surface(PreToolUse := [(''protect-paths'', protect_path_guard [''**/*_test.go''])]),
        e_guards := [ScaffoldFabricationGuard [], FakeGreenGuard], e_done := \<lambda>w. False\<rparr> = demo_worker_env"
    by (simp add: demo_worker_env_def)
  have "run_worker demo_spawner demo_base no_os 1 demo_context demo_worker_profile ''p'' [] 0 =
      Some (WorkerEnded (Answered (r\<lparr>tr_highest := highest_model (l_router s1)\<rparr>)), world (close_loop demo_worker_env s1))"
    using t by (simp add: run_worker_def demo_ready demo_fields Let_def demo_spawned env demo_context_def ctx_done_def
        flip: demo_worker_def)
  moreover have "clean_result (r\<lparr>tr_highest := highest_model (l_router s1)\<rparr>)" using c by (simp add: clean_result_def)
  ultimately show thesis by (rule that)
qed

theorem worker_done_is_verified_witness:
  "\<exists>e g ds a. e_verify e = Some g \<and> vg_command g = [''make''] \<and> closed_on_green (e :: nat env) g ds a"
proof -
  obtain r w' where r: "run_worker demo_spawner demo_base no_os 1 demo_context demo_worker_profile ''p'' [] 0 =
    Some (WorkerEnded (Answered r), w')" "clean_result r" by (rule worker_run)
  show ?thesis
    using worker_done_is_verified [OF r(1) _ r(2)] unfolding demo_worker_profile_def profile.simps by blast
qed

theorem spawn_refusals_exact_witness:
  "verify_gate_runnable no_os [''make''] [] (0 :: nat) = None"
proof -
  obtain r w' where r: "run_worker demo_spawner demo_base no_os 1 demo_context demo_worker_profile ''p'' [] 0 =
    Some (WorkerEnded (Answered r), w')" by (rule worker_run)
  show ?thesis
    using spawn_refusals_exact [OF r]
    by (simp add: demo_ready demo_worker_profile_def demo_fields)
qed

lemma demo_names_file: "names_file (demo_call ''write'' ''pkg/a_test.go'') ''pkg/a_test.go''"
proof -
  have "\<not> blank ''pkg/a_test.go''" "json_text ''pkg/a_test.go'' = ''pkg/a_test.go''" by code_simp+
  then show ?thesis by (auto simp: names_file_def demo_call_def call_param_def split: if_splits)
qed

theorem worker_respects_protected_witness:
  "let e = fst (spawn_worker demo_spawner demo_base no_os demo_worker_profile [] 0);
       st = demo_worker; c = demo_call ''write'' ''pkg/a_test.go''
   in tn_dispatches (snd (snd (dispatch_call e c (False, 0, st)))) \<noteq> []"
proof -
  have p: "is_protected ''pkg/a_test.go'' [''**/*_test.go'']" by code_simp
  have c: "surface (demo_call ''write'' ''pkg/a_test.go'') = ''fs''" "action (demo_call ''write'' ''pkg/a_test.go'') = ''write''"
    "tool_call_path (demo_call ''write'' ''pkg/a_test.go'') = ''pkg/a_test.go''"
    by (simp_all add: demo_call_def tool_call_path_def string_param_def call_param_def)
  obtain e a where s: "spawn_worker demo_spawner demo_base no_os demo_worker_profile [] 0 = (e, a)" by fastforce
  have k: "list_all (\<lambda>h. keeps_call (snd h)) (e_hooks e PreToolUse)"
    using s by (simp add: demo_spawned, elim conjE) (auto simp: guard_keeps_call)
  show ?thesis
    using worker_respects_protected [OF s, of "demo_call ''write'' ''pkg/a_test.go''" "''pkg/a_test.go''" undefined False 0 demo_worker]
      p c k s demo_names_file
    by (auto simp: demo_worker_profile_def)
qed

text \<open>A removal under the risk gate: it is refused, whatever the tools would have done.\<close>

definition demo_gated_env :: "nat env" where
  "demo_gated_env = demo_base\<lparr>e_hooks := new_surface(PreToolUse := map (\<lambda>(n, h). (n, hook_of h))
     [(''risk-gate'', RiskGateHook build_test_gate), (''protect-paths'', ProtectPathsHook [''**/*_test.go''])])\<rparr>"

lemma objected_calls_never_run_witness:
  "\<exists>d. tn_dispatches (snd (snd (dispatch_call demo_gated_env remove_call (False, 0, demo_worker)))) = tn_dispatches demo_worker @ [d]
     \<and> \<not> res_ok d \<and> res_class d = ClassTool"
proof -
  let ?hs = "[(''risk-gate'', RiskGateHook build_test_gate), (''protect-paths'', ProtectPathsHook [''**/*_test.go''])]"
  have h: "e_hooks demo_gated_env PreToolUse = map (\<lambda>(n, h). (n, hook_of h)) ?hs"
    by (simp add: demo_gated_env_def)
  have o: "objects (RiskGateHook build_test_gate) remove_call"
    by (simp add: remove_call_def classify_def build_test_gate_def)
  have n: "\<not> (\<exists>h \<in> snd ` set ?hs. is_protect_paths h \<and> objects h remove_call)"
    by (simp add: writes_protected_def remove_call_def)
  have "\<exists>h \<in> snd ` set ?hs. objects h remove_call" using o by simp
  with objected_calls_never_run [OF h, of remove_call False 0 demo_worker] n show ?thesis by auto
qed

end
