(* ===== verification/Orchestrator.thy ===== *)
theory Orchestrator
  imports Worker Routing Worker_Props
begin

text \<open>
  The spawn tool, \<open>internal/orchestrator\<close>: a tool call \<open>agent.spawn(profile, duty)\<close> is resolved to a job
  profile, by name or by the duty router, and delegated to a worker, or, for the coding profile, to the
  coding organ when one is wired. The two are functions over the world that may not return; the spawner of
  \<open>Worker\<close> is one of them (\<open>worker_run_fn\<close>).
\<close>

record run_error =
  re_is :: "spawn_sentinel list"
  re_text :: string

type_synonym 'w worker_fn = "run_context \<Rightarrow> profile \<Rightarrow> string \<Rightarrow> 'w \<Rightarrow> ((run_error + string \<times> rat) \<times> 'w) option"

record 'w spawn_provider =
  so_run :: "'w worker_fn"
  so_registry :: registry
  so_max_depth :: int
  so_router :: "'w duty_router option"
  so_coding :: "'w worker_fn option"
  so_meter :: "'w \<Rightarrow> meter option"

type_synonym 'w provider_option = "'w spawn_provider \<Rightarrow> 'w spawn_provider"

definition with_max_depth :: "int \<Rightarrow> 'w provider_option" where
  "with_max_depth n sp = (if n > 0 then sp\<lparr>so_max_depth := n\<rparr> else sp)"

definition with_duty_router :: "'w duty_router option \<Rightarrow> 'w provider_option" where
  "with_duty_router r sp = (case r of None \<Rightarrow> sp | Some _ \<Rightarrow> sp\<lparr>so_router := r\<rparr>)"

definition with_coding_path :: "'w worker_fn option \<Rightarrow> 'w provider_option" where
  "with_coding_path fn sp = (case fn of None \<Rightarrow> sp | Some f \<Rightarrow> sp\<lparr>so_coding := Some f\<rparr>)"

definition with_tree_meter :: "('w \<Rightarrow> meter) option \<Rightarrow> 'w provider_option" where
  "with_tree_meter m sp = (case m of None \<Rightarrow> sp | Some f \<Rightarrow> sp\<lparr>so_meter := (\<lambda>w. Some (f w))\<rparr>)"

definition default_max_depth :: int where
  "default_max_depth = 3"

definition new_spawn_provider :: "'w worker_fn \<Rightarrow> registry \<Rightarrow> 'w provider_option list \<Rightarrow> 'w spawn_provider" where
  "new_spawn_provider run reg opts =
     fold (\<lambda>opt sp. opt sp) opts
       \<lparr>so_run = run, so_registry = reg, so_max_depth = default_max_depth, so_router = None, so_coding = None,
        so_meter = (\<lambda>_. None)\<rparr>"

subsection \<open>Results\<close>

text \<open>The verb \<open>%.kf\<close> for a value that is not negative: the nearest decimal, ties to even.\<close>

definition round_even :: "rat \<Rightarrow> int" where
  "round_even x = (let f = \<lfloor>x\<rfloor>; r = x - of_int f
     in if r < 1 / 2 then f else if r > 1 / 2 then f + 1 else if even f then f else f + 1)"

definition fixed_point :: "nat \<Rightarrow> rat \<Rightarrow> string" where
  "fixed_point k x =
     (let n = nat (round_even (x * 10 ^ k)); d = nat_str (n mod 10 ^ k)
      in nat_str (n div 10 ^ k) @ ''.'' @ replicate (k - length d) (CHR ''0'') @ d)"

definition as_text :: "go_value option \<Rightarrow> string" where
  "as_text v = (case v of Some (VStr s) \<Rightarrow> s | _ \<Rightarrow> [])"

definition spawn_param :: "call \<Rightarrow> string \<Rightarrow> string" where
  "spawn_param c key = (case params c of None \<Rightarrow> [] | Some m \<Rightarrow> as_text (m key))"

definition fail_tool :: "call \<Rightarrow> string \<Rightarrow> result" where
  "fail_tool c msg = fail c ClassTool msg 0"

definition fail_usage :: "call \<Rightarrow> string \<Rightarrow> result" where
  "fail_usage c msg = fail c ClassUsage msg 0"

text \<open>A structural bound that no stronger model can lift is a usage error, any other failure a tool error.\<close>

definition spawn_run_failure :: "call \<Rightarrow> string \<Rightarrow> run_error \<Rightarrow> result" where
  "spawn_run_failure c msg e =
     (if VerifyGateUnrunnable \<in> set (re_is e) \<or> SpawnBudgetExhausted \<in> set (re_is e) \<or> WorkerToolsUnrunnable \<in> set (re_is e)
      then fail_usage c msg else fail_tool c msg)"

record profile_resolution =
  rp_name :: string
  rp_profile :: profile
  rp_auto :: bool
  rp_label :: string
  rp_redirect :: string

definition spawn_ok :: "call \<Rightarrow> string \<Rightarrow> string \<Rightarrow> rat \<Rightarrow> profile_resolution \<Rightarrow> result" where
  "spawn_ok c duty answer cost_usd r =
     \<lparr>res_call = c, res_ok = True,
      res_value = VMap ([(''profile'', VStr (rp_name r)), (''duty'', VStr duty), (''answer'', VStr answer), (''cost_usd'', VNum cost_usd)]
        @ (if rp_auto r then [(''auto_routed'', VBool True), (''routed_label'', VStr (rp_label r))] else [])
        @ (if rp_redirect r \<noteq> [] then [(''profile_guardrail'', VStr (rp_redirect r))] else [])),
      res_class = ClassNone, latency_ms = 0, span_id = []\<rparr>"

subsection \<open>Resolving the profile\<close>

definition profile_protects_tests :: "profile \<Rightarrow> bool" where
  "profile_protects_tests p = is_protected ''pkg/example_test.go'' (pf_protect_paths p)"

definition test_authoring_profile_name :: "'w spawn_provider \<Rightarrow> string" where
  "test_authoring_profile_name sp =
     (case so_router sp of None \<Rightarrow> [] | Some r \<Rightarrow> dr_test_authoring_profile r)"

text \<open>The guardrail: a duty that reads as test authoring is moved off a profile that protects tests.\<close>

definition guard_resolution :: "'w spawn_provider \<Rightarrow> string \<Rightarrow> string \<Rightarrow> profile \<Rightarrow> bool \<Rightarrow> string \<Rightarrow> profile_resolution" where
  "guard_resolution sp duty name p auto label =
     (let stay = \<lparr>rp_name = name, rp_profile = p, rp_auto = auto, rp_label = label, rp_redirect = []\<rparr>;
          ta = test_authoring_profile_name sp
      in if looks_like_test_authoring duty \<and> profile_protects_tests p \<and> ta \<noteq> [] \<and> ta \<noteq> name
         then (case registry_get (so_registry sp) ta of
                 None \<Rightarrow> stay
               | Some tp \<Rightarrow> \<lparr>rp_name = ta, rp_profile = tp, rp_auto = auto, rp_label = label,
                              rp_redirect = name @ arrow @ ta\<rparr>)
         else stay)"

definition lookup_profile :: "'w spawn_provider \<Rightarrow> call \<Rightarrow> string \<Rightarrow> string \<Rightarrow> bool \<Rightarrow> string \<Rightarrow> result + profile_resolution" where
  "lookup_profile sp c duty name auto label =
     (case registry_get (so_registry sp) name of
        None \<Rightarrow> Inl (fail_usage c (''unknown profile '' @ go_quote name @ '' (have: ''
                  @ join '', '' (registry_names (so_registry sp)) @ '')''))
      | Some p \<Rightarrow> Inr (guard_resolution sp duty name p auto label))"

definition resolve_profile :: "'w spawn_provider \<Rightarrow> call \<Rightarrow> string \<Rightarrow> string \<Rightarrow> 'w \<Rightarrow> (result + profile_resolution) \<times> 'w" where
  "resolve_profile sp c name duty w =
     (if name = [] \<or> name = ''auto''
      then (case so_router sp of
              None \<Rightarrow> (Inl (fail_usage c ''spawn requires a 'profile' (no auto-router is configured)''), w)
            | Some r \<Rightarrow>
                (case route r duty w of
                   ((d, _), w1) \<Rightarrow> (lookup_profile sp c duty (d_profile d) True (d_label d), w1)))
      else (lookup_profile sp c duty name False [], w))"

subsection \<open>Dispatch\<close>

definition coding_profile_name :: string where
  "coding_profile_name = ''atomic-coding-chain''"

definition deeper :: "run_context \<Rightarrow> run_context" where
  "deeper cx = cx\<lparr>cx_depth := cx_depth cx + 1\<rparr>"

definition delegate :: "'w spawn_provider \<Rightarrow> run_context \<Rightarrow> call \<Rightarrow> string \<Rightarrow> profile_resolution \<Rightarrow> 'w \<Rightarrow> (result \<times> 'w) option" where
  "delegate sp cx c duty r w =
     (let (run, who) = (case so_coding sp of
            Some f \<Rightarrow> if rp_name r = coding_profile_name then (f, ''coding organ '') else (so_run sp, ''worker '')
          | None \<Rightarrow> (so_run sp, ''worker ''))
      in case run (deeper cx) (rp_profile r) duty w of
           None \<Rightarrow> None
         | Some (Inl e, w1) \<Rightarrow> Some (spawn_run_failure c (who @ go_quote (rp_name r) @ '': '' @ re_text e) e, w1)
         | Some (Inr (answer, cost_usd), w1) \<Rightarrow> Some (spawn_ok c duty answer cost_usd r, w1))"

definition over_ceiling :: "'w spawn_provider \<Rightarrow> 'w \<Rightarrow> bool" where
  "over_ceiling sp w = (case so_meter sp w of None \<Rightarrow> False | Some m \<Rightarrow> exceeded m)"

definition ceiling_text :: "meter option \<Rightarrow> string" where
  "ceiling_text m = (case m of None \<Rightarrow> []
     | Some m \<Rightarrow> ''cost ceiling $'' @ fixed_point 2 (me_ceiling m) @ '' reached ($'' @ fixed_point 4 (me_total m)
         @ '' spent across the spawn tree) '' @ em_dash @ '' refusing to spawn another worker'')"

definition spawn_dispatch :: "'w spawn_provider \<Rightarrow> run_context \<Rightarrow> call \<Rightarrow> 'w \<Rightarrow> (result \<times> 'w) option" where
  "spawn_dispatch sp cx c w =
     (let name = trim_space (spawn_param c ''profile''); duty = trim_space (spawn_param c ''duty'')
      in if action c \<noteq> ''spawn''
         then Some (fail_usage c (''unknown action '' @ go_quote (action c) @ '' on agent (want spawn)''), w)
         else if duty = [] then Some (fail_usage c (''spawn requires a non-empty 'duty'' @ [CHR 0x27]), w)
         else if over_ceiling sp w then Some (fail_tool c (ceiling_text (so_meter sp w)), w)
         else if cx_depth cx \<ge> so_max_depth sp
         then Some (fail_usage c (''spawn depth limit '' @ itoa (so_max_depth sp) @ '' reached (refusing to recurse further)''), w)
         else (case resolve_profile sp c name duty w of
                 (Inl res, w1) \<Rightarrow> Some (res, w1)
               | (Inr r, w1) \<Rightarrow> delegate sp cx c duty r w1))"

subsection \<open>The spawner as the worker function\<close>

text \<open>A worker that panics takes the tool call with it. The text of a turn's error is a parameter.\<close>

definition worker_run_fn :: "'w spawner \<Rightarrow> 'w env \<Rightarrow> 'w os \<Rightarrow> nat \<Rightarrow> (turn_error \<Rightarrow> string) \<Rightarrow> 'w worker_fn" where
  "worker_run_fn s base os fuel show_error cx p duty w =
     (case run_worker s base os fuel cx p duty [] w of
        None \<Rightarrow> None
      | Some (SpawnRefused k t, w1) \<Rightarrow> Some (Inl \<lparr>re_is = [k], re_text = t\<rparr>, w1)
      | Some (WorkerEnded (Answered r), w1) \<Rightarrow> Some (Inr (tr_text r, tr_cost r), w1)
      | Some (WorkerEnded (Failed r e), w1) \<Rightarrow> Some (Inl \<lparr>re_is = [], re_text = show_error e\<rparr>, w1)
      | Some (WorkerEnded Panicked, w1) \<Rightarrow> None)"

section \<open>Properties\<close>

text \<open>Properties of the spawn tool: within which limits it starts work, how its failures are classed, and what
  a successful spawn of a coding worker stands for.\<close>

subsection \<open>Limits\<close>

lemma lookup_profile_cases:
  assumes "lookup_profile sp c duty name auto label = Inr r"
  shows "registry_get (so_registry sp) (rp_name r) = Some (rp_profile r) \<and> rp_auto r = auto \<and> rp_label r = label
    \<and> (looks_like_test_authoring duty = False \<or> profile_protects_tests (rp_profile r) = False
       \<or> rp_name r = test_authoring_profile_name sp \<or> test_authoring_profile_name sp = []
       \<or> registry_get (so_registry sp) (test_authoring_profile_name sp) = None)
    \<and> (rp_redirect r \<noteq> [] \<or> rp_name r = name)"
  using assms by (auto simp: lookup_profile_def guard_resolution_def Let_def split: option.splits if_splits)

lemma resolve_profile_cases:
  assumes "resolve_profile sp c name duty w = (Inr r, w1)"
  shows "\<exists>n auto label. lookup_profile sp c duty n auto label = Inr r"
  using assms by (auto simp: resolve_profile_def split: if_splits option.splits prod.splits)

text \<open>What a worker may be started on: a registered profile, a duty that is not blank, one level deeper and within
  the depth limit, the cost ceiling not reached when the call came in, and not a profile that protects tests
  for a test-authoring duty where a test-authoring profile is at hand.\<close>

definition start_allowed :: "'w spawn_provider \<Rightarrow> run_context \<Rightarrow> 'w \<Rightarrow> run_context \<Rightarrow> profile \<Rightarrow> string \<Rightarrow> bool" where
  "start_allowed sp cx w cx' p duty \<longleftrightarrow>
     over_ceiling sp w = False \<and> cx' = deeper cx \<and> cx_depth cx' \<le> so_max_depth sp \<and> duty \<noteq> []
     \<and> (\<exists>n. registry_get (so_registry sp) n = Some p
          \<and> (looks_like_test_authoring duty = False \<or> profile_protects_tests p = False
             \<or> n = test_authoring_profile_name sp \<or> test_authoring_profile_name sp = []
             \<or> registry_get (so_registry sp) (test_authoring_profile_name sp) = None))"

text \<open>C7: A spawn call starts a worker or the coding organ only where that is allowed: two providers whose workers
  agree on the allowed starts give the same result and the same world, whatever theirs do elsewhere.\<close>

theorem spawn_only_within_limits:
  assumes "\<And>cx' p d w'. start_allowed sp cx w cx' p d \<Longrightarrow> run' cx' p d w' = so_run sp cx' p d w'"
    and "\<And>cx' p d w'. start_allowed sp cx w cx' p d \<Longrightarrow>
      (case coding' of None \<Rightarrow> so_coding sp = None | Some f' \<Rightarrow> (\<exists>f. so_coding sp = Some f \<and> f' cx' p d w' = f cx' p d w'))"
  shows "spawn_dispatch (sp\<lparr>so_run := run', so_coding := coding'\<rparr>) cx c w = spawn_dispatch sp cx c w"
proof -
  let ?sp = "sp\<lparr>so_run := run', so_coding := coding'\<rparr>" and ?d = "trim_space (spawn_param c ''duty'')"
  have f: "so_registry ?sp = so_registry sp" "so_router ?sp = so_router sp" "so_meter ?sp = so_meter sp"
    "so_max_depth ?sp = so_max_depth sp" by simp_all
  have g: "guard_resolution ?sp = guard_resolution sp"
    by (intro ext) (simp only: guard_resolution_def test_authoring_profile_name_def f)
  have l: "lookup_profile ?sp = lookup_profile sp"
    by (intro ext) (unfold lookup_profile_def g f, rule refl)
  have same: "over_ceiling ?sp = over_ceiling sp" "resolve_profile ?sp = resolve_profile sp" "so_meter ?sp = so_meter sp"
    "so_max_depth ?sp = so_max_depth sp"
    by (intro ext, unfold over_ceiling_def f, rule refl, intro ext, unfold resolve_profile_def l f, rule refl) simp_all
  have d: "delegate ?sp cx c ?d r w1 = delegate sp cx c ?d r w1"
    if r: "resolve_profile sp c name ?d w = (Inr r, w1)" and g: "?d \<noteq> []" "\<not> over_ceiling sp w" "\<not> cx_depth cx \<ge> so_max_depth sp"
    for r w1 name
  proof -
    obtain n auto label where "lookup_profile sp c ?d n auto label = Inr r" using resolve_profile_cases [OF r] by blast
    from lookup_profile_cases [OF this] g have a: "start_allowed sp cx w (deeper cx) (rp_profile r) ?d"
      unfolding start_allowed_def by (simp add: deeper_def) blast
    have run: "run' (deeper cx) (rp_profile r) ?d w1 = so_run sp (deeper cx) (rp_profile r) ?d w1" by (rule assms(1) [OF a])
    from assms(2) [OF a, of w1] have cod: "(coding' = None \<and> so_coding sp = None)
        \<or> (\<exists>f f'. coding' = Some f' \<and> so_coding sp = Some f
            \<and> f' (deeper cx) (rp_profile r) ?d w1 = f (deeper cx) (rp_profile r) ?d w1)"
      by (cases coding') auto
    then show ?thesis using run by (elim disjE exE conjE) (simp_all add: delegate_def Let_def)
  qed
  show ?thesis
    unfolding spawn_dispatch_def Let_def same
    by (auto split: sum.split prod.split intro: d)
qed

subsection \<open>Failures\<close>

text \<open>C22: A failed spawn is a tool error exactly when the cost ceiling is reached, or a worker or the organ ran
  and failed for a reason other than the three structural ones; all other failures are usage errors, which
  never climb the model ladder. Without a start the world only changes by the router's classifier.\<close>

theorem spawn_failures_classed:
  assumes "spawn_dispatch sp cx c w = Some (res, w')" "res_ok res = False"
  shows "res_call res = c \<and> (res_class res = ClassTool \<or> res_class res = ClassUsage)
    \<and> (res_class res = ClassTool) =
       (action c = ''spawn'' \<and> trim_space (spawn_param c ''duty'') \<noteq> [] \<and>
        (over_ceiling sp w \<or>
         (cx_depth cx < so_max_depth sp \<and>
          (\<exists>r w1 run e. resolve_profile sp c (trim_space (spawn_param c ''profile'')) (trim_space (spawn_param c ''duty'')) w = (Inr r, w1)
             \<and> run = (if rp_name r = coding_profile_name \<and> so_coding sp \<noteq> None then the (so_coding sp) else so_run sp)
             \<and> run (deeper cx) (rp_profile r) (trim_space (spawn_param c ''duty'')) w1 = Some (Inl e, w')
             \<and> set (re_is e) = {}))))"
proof -
  let ?n = "trim_space (spawn_param c ''profile'')" and ?d = "trim_space (spawn_param c ''duty'')"
  have usage: "res_class (fail_usage c m) = ClassUsage" "res_call (fail_usage c m) = c" for m
    by (simp_all add: fail_usage_def fail_def)
  have tool: "res_class (fail_tool c m) = ClassTool" "res_call (fail_tool c m) = c" for m
    by (simp_all add: fail_tool_def fail_def)
  have all: "set (re_is e) = {} \<longleftrightarrow> VerifyGateUnrunnable \<notin> set (re_is e) \<and> SpawnBudgetExhausted \<notin> set (re_is e)
      \<and> WorkerToolsUnrunnable \<notin> set (re_is e)" for e
    by (cases "re_is e") (auto, metis spawn_sentinel.exhaust)
  consider "action c \<noteq> ''spawn'' \<or> ?d = []" | "action c = ''spawn''" "?d \<noteq> []" "over_ceiling sp w"
    | "action c = ''spawn''" "?d \<noteq> []" "\<not> over_ceiling sp w" "cx_depth cx \<ge> so_max_depth sp"
    | "action c = ''spawn''" "?d \<noteq> []" "\<not> over_ceiling sp w" "cx_depth cx < so_max_depth sp" by linarith
  then show ?thesis
  proof cases
    case 1
    then obtain m where "res = fail_usage c m" using assms(1) by (auto simp: spawn_dispatch_def Let_def split: if_splits)
    with 1 show ?thesis by (auto simp: usage)
  next
    case 2
    then have "res = fail_tool c (ceiling_text (so_meter sp w))" using assms(1) by (auto simp: spawn_dispatch_def Let_def)
    with 2 show ?thesis by (simp add: tool)
  next
    case 3
    then obtain m where "res = fail_usage c m" using assms(1) by (auto simp: spawn_dispatch_def Let_def)
    with 3 show ?thesis by (simp add: usage)
  next
    case 4
    obtain x w1 where x: "resolve_profile sp c ?n ?d w = (x, w1)" by fastforce
    show ?thesis
    proof (cases x)
      case (Inl r0)
      then have "res = r0" "w' = w1" using assms(1) x 4 by (simp_all add: spawn_dispatch_def)
      moreover have "res_class r0 = ClassUsage \<and> res_call r0 = c"
        using x Inl by (auto simp: resolve_profile_def lookup_profile_def usage split: if_splits option.splits prod.splits)
      ultimately show ?thesis using x Inl 4 by simp
    next
      case (Inr r)
      let ?run = "if rp_name r = coding_profile_name \<and> so_coding sp \<noteq> None then the (so_coding sp) else so_run sp"
      have "delegate sp cx c ?d r w1 = Some (res, w')" using assms(1) x Inr 4 by (simp add: spawn_dispatch_def)
      then obtain e msg where e: "?run (deeper cx) (rp_profile r) ?d w1 = Some (Inl e, w')"
        "res = spawn_run_failure c msg e"
        using assms(2) by (auto simp: delegate_def spawn_ok_def Let_def split: option.splits sum.splits if_splits)
      have "res_call res = c \<and> (res_class res = ClassTool) = (set (re_is e) = {}) \<and> (res_class res = ClassTool \<or> res_class res = ClassUsage)"
        unfolding e(2) spawn_run_failure_def all by (simp add: usage tool)
      moreover have "(\<exists>r' w1' run e'. resolve_profile sp c ?n ?d w = (Inr r', w1')
             \<and> run = (if rp_name r' = coding_profile_name \<and> so_coding sp \<noteq> None then the (so_coding sp) else so_run sp)
             \<and> run (deeper cx) (rp_profile r') ?d w1' = Some (Inl e', w') \<and> set (re_is e') = {}) = (set (re_is e) = {})"
        using x Inr e(1) by auto
      ultimately show ?thesis using 4 by auto
    qed
  qed
qed

subsection \<open>Instances\<close>

text \<open>A provider over the spawner of the small world, and a call of its tool.\<close>

definition spawn_call :: "string \<Rightarrow> string \<Rightarrow> call" where
  "spawn_call profile duty = \<lparr>call_id = ''1'', surface = ''agent'', action = ''spawn'',
     params = Some [''profile'' \<mapsto> VStr profile, ''duty'' \<mapsto> VStr duty], rationale = []\<rparr>"

definition demo_provider :: "nat spawn_provider" where
  "demo_provider = new_spawn_provider (\<lambda>cx p d w. Some (Inl \<lparr>re_is = [SpawnBudgetExhausted], re_text = ''spent''\<rparr>, w + 1))
     [(''coder'', demo_worker_profile)] []"

lemma demo_provider_fields:
  "so_registry demo_provider = [(''coder'', demo_worker_profile)]" "so_router demo_provider = None" "so_coding demo_provider = None"
  "so_max_depth demo_provider = 3" "so_meter demo_provider = (\<lambda>_. None)"
  "so_run demo_provider = (\<lambda>cx p d w. Some (Inl \<lparr>re_is = [SpawnBudgetExhausted], re_text = ''spent''\<rparr>, w + 1))"
  by (simp_all add: demo_provider_def new_spawn_provider_def default_max_depth_def)

lemma spawn_call_params:
  "trim_space (spawn_param (spawn_call ''coder'' ''fix it'') ''profile'') = ''coder''"
  "trim_space (spawn_param (spawn_call ''coder'' ''fix it'') ''duty'') = ''fix it''"
  "action (spawn_call ''coder'' ''fix it'') = ''spawn''"
proof -
  have "trim_space ''coder'' = ''coder''" "trim_space ''fix it'' = ''fix it''" by code_simp+
  then show "trim_space (spawn_param (spawn_call ''coder'' ''fix it'') ''profile'') = ''coder''"
    "trim_space (spawn_param (spawn_call ''coder'' ''fix it'') ''duty'') = ''fix it''"
    "action (spawn_call ''coder'' ''fix it'') = ''spawn''"
    by (simp_all add: spawn_call_def spawn_param_def as_text_def)
qed

theorem spawn_only_within_limits_witness:
  "spawn_dispatch (demo_provider\<lparr>so_run := (\<lambda>cx p d w. if cx_depth cx > 3 then None else so_run demo_provider cx p d w),
       so_coding := None\<rparr>) demo_context (spawn_call ''coder'' ''fix it'') 0
     = spawn_dispatch demo_provider demo_context (spawn_call ''coder'' ''fix it'') 0"
proof (rule spawn_only_within_limits)
  fix cx' p d and w' :: nat
  assume "start_allowed demo_provider demo_context 0 cx' p d"
  then have "cx_depth cx' \<le> 3" by (auto simp: start_allowed_def demo_provider_fields)
  then show "(if cx_depth cx' > 3 then None else so_run demo_provider cx' p d w') = so_run demo_provider cx' p d w'" by simp
  show "case None of None \<Rightarrow> so_coding demo_provider = None
      | Some f' \<Rightarrow> \<exists>f. so_coding demo_provider = Some f \<and> f' cx' p d w' = f cx' p d w'"
    by (simp add: demo_provider_fields)
qed

theorem spawn_failures_classed_witness:
  "\<exists>res w'. spawn_dispatch demo_provider demo_context (spawn_call ''coder'' ''fix it'') 0 = Some (res, w')
     \<and> res_class res = ClassUsage"
proof -
  let ?c = "spawn_call ''coder'' ''fix it''"
  have t: "looks_like_test_authoring ''fix it'' = False" by code_simp
  obtain res where d: "spawn_dispatch demo_provider demo_context ?c 0 = Some (res, 1)" "res_ok res = False"
    by (simp add: spawn_dispatch_def spawn_call_params over_ceiling_def demo_provider_fields demo_context_def resolve_profile_def
        lookup_profile_def registry_get_def guard_resolution_def t delegate_def spawn_run_failure_def fail_usage_def fail_def Let_def)
  have "res_class res \<noteq> ClassTool"
    using spawn_failures_classed [OF d]
    by (auto simp: over_ceiling_def demo_provider_fields)
  with spawn_failures_classed [OF d] d show ?thesis by blast
qed

end
