(* ===== verification/Coverage.thy ===== *)
theory Coverage
  imports Coding_Orch
begin

text \<open>
  The coverage advisory of the coding chain, \<open>internal/coding/coverage.go\<close>: the changed lines of a
  unified diff, the rows of a Go cover profile, and the grade that intersects them. A Go map from
  files to line numbers is an association list with distinct keys. The file system is two
  functions on the world, removal and reading.
\<close>

subsection \<open>Numbers\<close>

text \<open>\<open>strconv.Atoi\<close>: an optional sign and decimal digits, within 64 bits.\<close>

definition atoi :: "string \<Rightarrow> int option" where
  "atoi s =
     (let neg = has_prefix s ''-'';
          body = (if neg \<or> has_prefix s ''+'' then tl s else s)
      in if body = [] \<or> \<not> list_all digit body then None
         else (let n = (if neg then - int (decimal body) else int (decimal body))
               in if - (2 ^ 63) \<le> n \<and> n < 2 ^ 63 then Some n else None))"

definition atoi_or_zero :: "string \<Rightarrow> int" where
  "atoi_or_zero s = (case atoi s of None \<Rightarrow> 0 | Some n \<Rightarrow> n)"

subsection \<open>The changed lines of a diff\<close>

type_synonym line_map = "(string \<times> int list) list"

fun add_line :: "string \<Rightarrow> int \<Rightarrow> line_map \<Rightarrow> line_map" where
  "add_line f n [] = [(f, [n])]"
| "add_line f n ((g, ns) # m) = (if g = f then (g, ns @ [n]) # m else (g, ns) # add_line f n m)"

definition parse_hunk_new_start :: "string \<Rightarrow> int" where
  "parse_hunk_new_start header =
     (case find_index (\<lambda>c. c = CHR ''+'') header of
        None \<Rightarrow> 0
      | Some p \<Rightarrow> atoi_or_zero (takeWhile (\<lambda>c. c \<noteq> CHR '','' \<and> c \<noteq> CHR '' '') (drop (Suc p) header)))"

text \<open>One line of the walk: the current file (blank for none), the next new line, the map.\<close>

fun diff_step :: "string \<Rightarrow> string \<times> int \<times> line_map \<Rightarrow> string \<times> int \<times> line_map" where
  "diff_step line (file, n, out) =
     (if has_prefix line ''+++ '' then
        (let p = trim_prefix (trim_prefix line ''+++ '') ''b/''
         in (if p = ''/dev/null'' then [] else p, n, out))
      else if has_prefix line ''@@'' then (file, parse_hunk_new_start line, out)
      else if file = [] then (file, n, out)
      else if has_prefix line ''+'' then
        (if \<not> has_prefix line ''+++'' then (file, n + 1, add_line file n out) else (file, n, out))
      else if has_prefix line ''-'' then (file, n, out)
      else if has_prefix line [CHR 0x5C] then (file, n, out)
      else (file, n + 1, out))"

definition parse_diff_hunks :: "string \<Rightarrow> line_map" where
  "parse_diff_hunks diff = snd (snd (fold diff_step (lines_of diff) ([], 0, [])))"

definition production_file :: "string \<Rightarrow> bool" where
  "production_file f = (has_suffix f ''.go'' \<and> \<not> has_suffix f ''_test.go'')"

definition production_changed_lines :: "string \<Rightarrow> line_map" where
  "production_changed_lines diff = filter (\<lambda>(f, _). production_file f) (parse_diff_hunks diff)"

subsection \<open>The cover profile and the skipped tests\<close>

record cover_block =
  cb_file :: string
  cb_start :: int
  cb_end :: int
  cb_covered :: bool

definition before_dot :: "string \<Rightarrow> int" where
  "before_dot s = atoi_or_zero (takeWhile (\<lambda>c. c \<noteq> CHR ''.'') s)"

text \<open>The text before the last separator and behind it.\<close>

definition cut_last :: "char \<Rightarrow> string \<Rightarrow> (string \<times> string) option" where
  "cut_last c s =
     (if c \<notin> set s then None
      else (let after = rev (takeWhile (\<lambda>x. x \<noteq> c) (rev s))
            in Some (take (length s - Suc (length after)) s, after)))"

definition cover_row :: "string \<Rightarrow> cover_block option" where
  "cover_row line =
     (let row = trim_space line; fs = Go_Prelude.fields row
      in if row = [] \<or> has_prefix row ''mode:'' then None
         else if length fs \<noteq> 3 then None
         else case cut_last (CHR '':'') (fs ! 0) of
           None \<Rightarrow> None
         | Some (file, pos) \<Rightarrow>
             (case find_index (\<lambda>c. c = CHR '','') pos of
                None \<Rightarrow> None
              | Some k \<Rightarrow>
                  (let start = before_dot (take k pos); stop = before_dot (drop (Suc k) pos)
                   in case atoi (fs ! 2) of
                        None \<Rightarrow> None
                      | Some count \<Rightarrow>
                          if start \<le> 0 \<or> stop \<le> 0 then None
                          else Some \<lparr>cb_file = file, cb_start = start, cb_end = stop, cb_covered = count > 0\<rparr>)))"

definition parse_cover_profile :: "string \<Rightarrow> cover_block list" where
  "parse_cover_profile profile = List.map_filter cover_row (lines_of profile)"

definition skipped_name :: "string \<Rightarrow> string option" where
  "skipped_name line =
     (let row = trim_space line
      in if \<not> has_prefix row ''--- SKIP:'' then None
         else (let rest = trim_space (trim_prefix row ''--- SKIP:'');
                   name = takeWhile (\<lambda>c. c \<noteq> CHR '' '' \<and> c \<noteq> CHR 0x09 \<and> c \<noteq> CHR ''('') rest
               in if name = [] then None else Some name))"

definition parse_skipped_tests :: "string \<Rightarrow> string list" where
  "parse_skipped_tests out = List.map_filter skipped_name (lines_of out)"

subsection \<open>The grade\<close>

record full_grade = coverage_grade +
  cg_changed :: int
  cg_exercised :: int
  cg_uncovered :: line_map
  cg_skipped :: "string list"

definition no_grade :: full_grade where
  "no_grade = \<lparr>cg_verdict = [], cg_advisory = [], cg_changed = 0, cg_exercised = 0, cg_uncovered = [], cg_skipped = []\<rparr>"

definition blocks_for_file :: "string \<Rightarrow> cover_block list \<Rightarrow> cover_block list" where
  "blocks_for_file f blocks = filter (\<lambda>b. cb_file b = f \<or> has_suffix (cb_file b) (''/'' @ f)) blocks"

definition block_containing :: "int \<Rightarrow> cover_block list \<Rightarrow> cover_block option" where
  "block_containing n blocks = find (\<lambda>b. n \<ge> cb_start b \<and> n \<le> cb_end b) blocks"

definition grade_line :: "cover_block list \<Rightarrow> string \<Rightarrow> int \<Rightarrow> full_grade \<Rightarrow> full_grade" where
  "grade_line blocks f n g =
     (case block_containing n (blocks_for_file f blocks) of
        None \<Rightarrow> g
      | Some b \<Rightarrow>
          (let g' = g\<lparr>cg_changed := cg_changed g + 1\<rparr>
           in if cb_covered b then g'\<lparr>cg_exercised := cg_exercised g' + 1\<rparr>
              else g'\<lparr>cg_uncovered := add_line f n (cg_uncovered g')\<rparr>))"

definition sorted_files :: "line_map \<Rightarrow> string list" where
  "sorted_files m = sort (map fst m)"

definition lines_at :: "line_map \<Rightarrow> string \<Rightarrow> int list" where
  "lines_at m f = (case map_of m f of None \<Rightarrow> [] | Some ns \<Rightarrow> ns)"

definition grade_lines :: "line_map \<Rightarrow> cover_block list \<Rightarrow> string list \<Rightarrow> full_grade" where
  "grade_lines changed blocks skipped =
     fold (\<lambda>f. fold (grade_line blocks f) (lines_at changed f)) (sorted_files changed)
       (no_grade\<lparr>cg_skipped := skipped\<rparr>)"

definition build_advisory :: "full_grade \<Rightarrow> string" where
  "build_advisory g =
     (let locs = map (\<lambda>f. f @ '':'' @ join '','' (map itoa (lines_at (cg_uncovered g) f))) (sorted_files (cg_uncovered g))
      in ''gate green, but ''
         @ join ''; ''
            ((if cg_uncovered g \<noteq> [] then [''changed lines not exercised by any test: '' @ join ''; '' locs] else [])
             @ (if cg_skipped g \<noteq> []
                then [''skipped tests in touched packages: '' @ join '', '' (cg_skipped g)] else [])))"

definition grade_coverage :: "line_map \<Rightarrow> cover_block list \<Rightarrow> string list \<Rightarrow> full_grade" where
  "grade_coverage changed blocks skipped =
     (let g = grade_lines changed blocks skipped
      in if cg_changed g = 0 \<and> skipped = [] then g\<lparr>cg_verdict := []\<rparr>
         else if cg_uncovered g = [] \<and> skipped = [] then g\<lparr>cg_verdict := ''confirmed''\<rparr>
         else g\<lparr>cg_verdict := ''proposed'', cg_advisory := build_advisory g\<rparr>)"

subsection \<open>Measuring\<close>

definition package_scope :: "string \<Rightarrow> string" where
  "package_scope f = (let d = path_dir f in if d = ''.'' \<or> d = [] then ''.'' else ''./'' @ d)"

definition touched_packages :: "line_map \<Rightarrow> string list" where
  "touched_packages changed = sort (remdups (map (\<lambda>(f, _). package_scope f) changed))"

definition coverage_command :: "string \<Rightarrow> string list \<Rightarrow> string list" where
  "coverage_command prof pkgs =
     [''go'', ''test'', ''-count=1'', ''-covermode=atomic'', ''-coverprofile='' @ prof,
      ''-coverpkg='' @ join '','' pkgs, ''-v''] @ pkgs"

definition compute_coverage_grade ::
  "(string \<Rightarrow> 'w \<Rightarrow> 'w) \<Rightarrow> (string \<Rightarrow> 'w \<Rightarrow> (string + string) \<times> 'w) \<Rightarrow> 'w runner
     \<Rightarrow> string \<Rightarrow> string \<Rightarrow> int \<Rightarrow> 'w \<Rightarrow> full_grade \<times> 'w" where
  "compute_coverage_grade remove read_file run dir diff timeout w =
     (let changed = production_changed_lines diff; pkgs = touched_packages changed;
          prof = file_join dir ''.corpos-coverage.out''
      in if changed = [] then (no_grade, w)
         else if pkgs = [] then (no_grade, w)
         else case run (coverage_command prof pkgs) dir timeout (remove prof w) of
           (r, w1) \<Rightarrow>
             if cr_exit r \<noteq> 0 then (no_grade, remove prof w1)
             else (case read_file prof w1 of
                     (Inl _, w2) \<Rightarrow> (no_grade, remove prof w2)
                   | (Inr content, w2) \<Rightarrow>
                       (grade_coverage changed (parse_cover_profile content) (parse_skipped_tests (cr_stdout r)),
                        remove prof w2)))"

text \<open>The option of the orchestrator that installs it.\<close>

definition with_coverage_grade ::
  "(string \<Rightarrow> 'w \<Rightarrow> 'w) \<Rightarrow> (string \<Rightarrow> 'w \<Rightarrow> (string + string) \<times> 'w) \<Rightarrow> 'w orch \<Rightarrow> 'w orch" where
  "with_coverage_grade remove read_file orc =
     orc\<lparr>o_coverage := Some (\<lambda>dir diff timeout w.
       map_prod coverage_grade.truncate id (compute_coverage_grade remove read_file (o_runner orc) dir diff timeout w))\<rparr>"

section \<open>Properties\<close>

text \<open>
  What the coverage advisory says: the grade is the intersection of the changed lines and the rows of
  the profile, the walk of a diff recovers the new line numbers of what was added, and the advisory
  never changes what a green gate decides.
\<close>

subsection \<open>The map of lines\<close>

lemma lines_at_add_line [simp]:
  "lines_at (add_line f n m) g = (if g = f then lines_at m g @ [n] else lines_at m g)"
  by (induction f n m rule: add_line.induct) (auto simp: lines_at_def split: option.splits if_splits)

lemma lines_at_Nil [simp]: "lines_at [] f = []"
  by (simp add: lines_at_def)

lemma add_line_not_Nil [simp]: "add_line f n m \<noteq> []"
  by (cases m) (auto split: if_splits)

definition add_all :: "(string \<times> int) list \<Rightarrow> line_map \<Rightarrow> line_map" where
  "add_all ps m = fold (\<lambda>(f, n). add_line f n) ps m"

lemma add_all_append: "add_all (ps @ qs) m = add_all qs (add_all ps m)"
  by (simp add: add_all_def)

lemma lines_at_add_all: "lines_at (add_all ps m) f = lines_at m f @ map snd (filter (\<lambda>p. fst p = f) ps)"
  by (induction ps arbitrary: m) (auto simp: add_all_def)

lemma add_all_Nil_iff [simp]: "add_all ps [] = [] \<longleftrightarrow> ps = []"
  by (cases ps rule: rev_cases) (auto simp: add_all_append add_all_def split: prod.splits)

subsection \<open>The grade\<close>

text \<open>The changed lines that lie in a row of the profile, with the first such row.\<close>

definition line_row :: "cover_block list \<Rightarrow> string \<Rightarrow> int \<Rightarrow> (string \<times> int \<times> cover_block) option" where
  "line_row blocks f n = map_option (\<lambda>b. (f, n, b)) (block_containing n (blocks_for_file f blocks))"

definition counted :: "line_map \<Rightarrow> cover_block list \<Rightarrow> (string \<times> int \<times> cover_block) list" where
  "counted changed blocks =
     concat (map (\<lambda>f. List.map_filter (line_row blocks f) (lines_at changed f)) (sorted_files changed))"

definition missed :: "(string \<times> int \<times> cover_block) list \<Rightarrow> (string \<times> int) list" where
  "missed cs = map (\<lambda>(f, n, b). (f, n)) (filter (\<lambda>(f, n, b). \<not> cb_covered b) cs)"

definition count_rows :: "(string \<times> int \<times> cover_block) list \<Rightarrow> full_grade \<Rightarrow> full_grade" where
  "count_rows cs g = g\<lparr>cg_changed := cg_changed g + int (length cs),
     cg_exercised := cg_exercised g + int (length (filter (\<lambda>(f, n, b). cb_covered b) cs)),
     cg_uncovered := add_all (missed cs) (cg_uncovered g)\<rparr>"

lemma count_rows_Nil [simp]: "count_rows [] g = g"
  by (simp add: count_rows_def missed_def add_all_def)

lemma count_rows_append: "count_rows (cs @ ds) g = count_rows ds (count_rows cs g)"
  by (simp add: count_rows_def missed_def add_all_append)

lemma grade_line_counts:
  "grade_line blocks f n g = count_rows (case line_row blocks f n of None \<Rightarrow> [] | Some c \<Rightarrow> [c]) g"
  by (auto simp: grade_line_def line_row_def count_rows_def missed_def add_all_def Let_def split: option.splits)

lemma grade_file_counts:
  "fold (grade_line blocks f) ns g = count_rows (List.map_filter (line_row blocks f) ns) g"
  by (induction ns arbitrary: g)
    (auto simp: grade_line_counts map_filter_simps count_rows_append [symmetric] split: option.splits)

lemma grade_lines_counts:
  "grade_lines changed blocks skipped = count_rows (counted changed blocks) (no_grade\<lparr>cg_skipped := skipped\<rparr>)"
proof -
  have "fold (\<lambda>f. fold (grade_line blocks f) (lines_at changed f)) fs g
      = count_rows (concat (map (\<lambda>f. List.map_filter (line_row blocks f) (lines_at changed f)) fs)) g" for fs g
    by (induction fs arbitrary: g) (auto simp: grade_file_counts count_rows_append)
  then show ?thesis by (simp add: grade_lines_def counted_def)
qed

lemma counted_iff:
  "(f, n, b) \<in> set (counted changed blocks) \<longleftrightarrow>
     n \<in> set (lines_at changed f) \<and> block_containing n (blocks_for_file f blocks) = Some b"
proof -
  have "f \<in> fst ` set changed" if "n \<in> set (lines_at changed f)"
    using that by (cases "map_of changed f") (auto simp: lines_at_def dest: map_of_SomeD intro: rev_image_eqI)
  moreover have "(f, n, b) \<in> set (List.map_filter (line_row blocks g) ns) \<longleftrightarrow>
      g = f \<and> n \<in> set ns \<and> block_containing n (blocks_for_file f blocks) = Some b" for g ns
    by (induction ns) (auto simp: map_filter_simps line_row_def split: option.splits)
  ultimately show ?thesis by (auto simp: counted_def sorted_files_def)
qed

text \<open>The grade counts exactly the changed lines that lie in a row of the profile, and its verdict is read off
  the first row of each of them.\<close>

theorem coverage_verdict_exact:
  "let g = grade_coverage changed blocks skipped; cs = counted changed blocks
   in cg_changed g = int (length cs)
    \<and> cg_exercised g = int (length (filter (\<lambda>(f, n, b). cb_covered b) cs))
    \<and> (\<forall>f. lines_at (cg_uncovered g) f = map snd (filter (\<lambda>p. fst p = f) (missed cs)))
    \<and> cg_verdict g =
        (if cs = [] \<and> skipped = [] then []
         else if missed cs = [] \<and> skipped = [] then ''confirmed'' else ''proposed'')
    \<and> (cg_advisory g = [] \<longleftrightarrow> cg_verdict g \<noteq> ''proposed'')"
proof -
  have "build_advisory g \<noteq> []" for g by (simp add: build_advisory_def Let_def)
  then show ?thesis
    by (simp add: grade_coverage_def grade_lines_counts count_rows_def no_grade_def lines_at_add_all Let_def)
qed

subsection \<open>The walk of a diff\<close>

text \<open>A unified diff as git writes it: files with hunks of context, added and removed lines.\<close>

datatype diff_line = Context string | Added string | Removed string | NoEol

record hunk =
  hk_old :: string
  hk_start :: int
  hk_tail :: string
  hk_lines :: "diff_line list"

type_synonym file_diff = "string \<times> hunk list"

fun render_line :: "diff_line \<Rightarrow> string" where
  "render_line (Context s) = CHR '' '' # s"
| "render_line (Added s) = CHR ''+'' # s"
| "render_line (Removed s) = CHR ''-'' # s"
| "render_line NoEol = CHR 0x5C # '' No newline at end of file''"

definition hunk_header :: "hunk \<Rightarrow> string" where
  "hunk_header h = ''@@ -'' @ hk_old h @ '' +'' @ itoa (hk_start h) @ '' @@'' @ hk_tail h"

definition render_hunk :: "hunk \<Rightarrow> string list" where
  "render_hunk h = hunk_header h # map render_line (hk_lines h)"

definition render_file :: "file_diff \<Rightarrow> string list" where
  "render_file fd =
     [''diff --git a/'' @ fst fd @ '' b/'' @ fst fd, ''--- a/'' @ fst fd, ''+++ b/'' @ fst fd]
     @ concat (map render_hunk (snd fd))"

fun added_from :: "int \<Rightarrow> diff_line list \<Rightarrow> int list" where
  "added_from n [] = []"
| "added_from n (Context s # ls) = added_from (n + 1) ls"
| "added_from n (Added s # ls) = n # added_from (n + 1) ls"
| "added_from n (Removed s # ls) = added_from n ls"
| "added_from n (NoEol # ls) = added_from n ls"

definition added_lines :: "file_diff \<Rightarrow> int list" where
  "added_lines fd = concat (map (\<lambda>h. added_from (hk_start h) (hk_lines h)) (snd fd))"

text \<open>No newline inside a line, a start within 64 bits, no old range with a plus sign, and no added
  line that begins with two plus signs.\<close>

definition plain_line :: "diff_line \<Rightarrow> bool" where
  "plain_line l = (CHR 0x0A \<notin> set (render_line l) \<and> \<not> has_prefix (render_line l) ''+++'')"

definition plain_hunk :: "hunk \<Rightarrow> bool" where
  "plain_hunk h = (CHR ''+'' \<notin> set (hk_old h) \<and> CHR 0x0A \<notin> set (hunk_header h)
     \<and> 0 \<le> hk_start h \<and> hk_start h < 2 ^ 63 \<and> list_all plain_line (hk_lines h))"

definition plain_file :: "file_diff \<Rightarrow> bool" where
  "plain_file fd = (fst fd \<noteq> [] \<and> fst fd \<noteq> ''/dev/null'' \<and> CHR 0x0A \<notin> set (fst fd)
     \<and> list_all plain_hunk (snd fd))"

lemma atoi_itoa: "0 \<le> n \<Longrightarrow> n < 2 ^ 63 \<Longrightarrow> atoi (itoa n) = Some n"
proof -
  assume n: "0 \<le> n" "n < 2 ^ 63"
  have ds: "digit c" if "c \<in> set (itoa n)" for c using itoa_digits n(1) that by blast
  have ne: "itoa n \<noteq> []" by (auto simp: itoa_def nat_str.simps [of "nat n"])
  then obtain c s where cs: "itoa n = c # s" by (cases "itoa n") auto
  with ds have "digit c" by simp
  then have "c \<noteq> CHR ''-''" "c \<noteq> CHR ''+''" by (auto simp: digit_def)
  then have "\<not> has_prefix (itoa n) ''-''" "\<not> has_prefix (itoa n) ''+''"
    by (simp_all add: cs has_prefix_def)
  moreover have "int (decimal (itoa n)) = n" using n(1) by (simp add: itoa_def)
  ultimately show ?thesis using n ne ds by (simp add: atoi_def list_all_iff)
qed

lemma find_index_hit:
  "\<forall>x \<in> set xs. \<not> p x \<Longrightarrow> p y \<Longrightarrow> find_index p (xs @ y # ys) = Some (length xs)"
  by (induction xs) auto

lemma header_start:
  assumes "plain_hunk h"
  shows "parse_hunk_new_start (hunk_header h) = hk_start h"
proof -
  let ?old = "''@@ -'' @ hk_old h @ '' ''" and ?rest = "itoa (hk_start h) @ '' @@'' @ hk_tail h"
  have eq: "hunk_header h = ?old @ CHR ''+'' # ?rest" by (simp add: hunk_header_def)
  have "CHR ''+'' \<notin> set ?old" using assms by (auto simp: plain_hunk_def)
  then have "find_index (\<lambda>c. c = CHR ''+'') (hunk_header h) = Some (length ?old)"
    unfolding eq by (intro find_index_hit) auto
  moreover have "takeWhile (\<lambda>c. c \<noteq> CHR '','' \<and> c \<noteq> CHR '' '') ?rest = itoa (hk_start h)"
  proof -
    have "c \<noteq> CHR '','' \<and> c \<noteq> CHR '' ''" if "c \<in> set (itoa (hk_start h))" for c
      using that assms itoa_digits [of "hk_start h" c] by (auto simp: plain_hunk_def digit_def)
    then show ?thesis by (simp add: takeWhile_append2)
  qed
  ultimately show ?thesis
    using assms atoi_itoa [of "hk_start h"]
    by (simp add: parse_hunk_new_start_def atoi_or_zero_def plain_hunk_def eq)
qed


lemma step_git: "diff_step (''diff --git a/'' @ x) (fl, n, out) = (fl, if fl = [] then n else n + 1, out)"
  by (simp add: has_prefix_def)

lemma step_old: "diff_step (''--- a/'' @ x) st = st"
  by (cases st) (simp add: has_prefix_def)

lemma step_new: "p \<noteq> ''/dev/null'' \<Longrightarrow> diff_step (''+++ b/'' @ p) (fl, n, out) = (p, n, out)"
  by (simp add: has_prefix_def trim_prefix_def Let_def)

lemma step_hunk: "plain_hunk h \<Longrightarrow> diff_step (hunk_header h) (fl, n, out) = (fl, hk_start h, out)"
proof -
  assume h: "plain_hunk h"
  obtain t where t: "hunk_header h = ''@@'' @ t" by (simp add: hunk_header_def)
  show ?thesis using header_start [OF h] by (simp add: t has_prefix_def)
qed

lemma step_lines:
  "fl \<noteq> [] \<Longrightarrow> list_all plain_line ls \<Longrightarrow>
     \<exists>n'. fold diff_step (map render_line ls) (fl, n, out)
       = (fl, n', add_all (map (Pair fl) (added_from n ls)) out)"
proof (induction ls arbitrary: n out)
  case Nil
  then show ?case by (simp add: add_all_def)
next
  case (Cons l ls)
  have "diff_step (render_line l) (fl, n, out) =
      (case l of Context s \<Rightarrow> (fl, n + 1, out) | Added s \<Rightarrow> (fl, n + 1, add_line fl n out)
         | Removed s \<Rightarrow> (fl, n, out) | NoEol \<Rightarrow> (fl, n, out))"
    using Cons.prems by (cases l) (auto simp: plain_line_def has_prefix_iff)
  with Cons show ?case by (cases l) (auto simp: add_all_def)
qed

lemma step_hunks:
  "fl \<noteq> [] \<Longrightarrow> list_all plain_hunk hs \<Longrightarrow>
     \<exists>n'. fold diff_step (concat (map render_hunk hs)) (fl, n, out)
       = (fl, n', add_all (map (Pair fl) (added_lines (fl, hs))) out)"
proof (induction hs arbitrary: n out)
  case Nil
  then show ?case by (simp add: add_all_def added_lines_def)
next
  case (Cons h hs)
  then have "plain_hunk h" "list_all plain_line (hk_lines h)" by (simp_all add: plain_hunk_def)
  then obtain n1 where "fold diff_step (render_hunk h) (fl, n, out) =
      (fl, n1, add_all (map (Pair fl) (added_from (hk_start h) (hk_lines h))) out)"
    using step_lines [OF Cons.prems(1), of "hk_lines h" "hk_start h" out]
    by (auto simp: render_hunk_def step_hunk simp del: diff_step.simps)
  moreover obtain n2 where "fold diff_step (concat (map render_hunk hs))
       (fl, n1, add_all (map (Pair fl) (added_from (hk_start h) (hk_lines h))) out)
      = (fl, n2, add_all (map (Pair fl) (added_lines (fl, hs)))
          (add_all (map (Pair fl) (added_from (hk_start h) (hk_lines h))) out))"
    using Cons.IH Cons.prems by fastforce
  ultimately show ?case by (simp add: added_lines_def add_all_append)
qed

lemma step_file:
  assumes "plain_file fd"
  shows "\<exists>n'. fold diff_step (render_file fd) (fl, n, out) =
      (fst fd, n', add_all (map (Pair (fst fd)) (added_lines fd)) out)"
proof -
  obtain p hs where fd: "fd = (p, hs)" by force
  have "\<exists>n'. fold diff_step (render_file fd) (fl, n, out) =
      fold diff_step (concat (map render_hunk hs)) (p, n', out)"
    using assms step_git [of "p @ '' b/'' @ p"] step_old [of p] step_new [of p]
    by (auto simp: render_file_def fd plain_file_def simp del: diff_step.simps)
  with assms step_hunks [of p hs] show ?thesis by (fastforce simp: fd plain_file_def)
qed

lemma step_files:
  "list_all plain_file fds \<Longrightarrow> \<exists>f n'. fold diff_step (concat (map render_file fds)) (fl, n, out) =
      (f, n', add_all (concat (map (\<lambda>fd. map (Pair (fst fd)) (added_lines fd)) fds)) out)"
proof (induction fds arbitrary: fl n out)
  case Nil
  then show ?case by (simp add: add_all_def)
next
  case (Cons fd fds)
  then obtain n1 where "fold diff_step (render_file fd) (fl, n, out) =
      (fst fd, n1, add_all (map (Pair (fst fd)) (added_lines fd)) out)"
    using step_file by fastforce
  with Cons show ?case by (fastforce simp: add_all_append)
qed

lemma rendered_lines:
  assumes "list_all plain_file fds" "l \<in> set (concat (map render_file fds))"
  shows "CHR 0x0A \<notin> set l"
  using assms by (auto simp: list_all_iff plain_file_def render_file_def render_hunk_def plain_hunk_def plain_line_def)

text \<open>The walk of a rendered diff gives back the new line numbers of exactly the added lines of each file.\<close>

theorem diff_walk_roundtrip:
  assumes "list_all plain_file fds" "fds \<noteq> []"
  shows "lines_at (parse_diff_hunks (join newline (concat (map render_file fds)))) f
    = concat (map added_lines (filter (\<lambda>fd. fst fd = f) fds))"
proof -
  let ?ls = "concat (map render_file fds)"
  have "?ls \<noteq> []" using assms(2) by (cases fds) (auto simp: render_file_def)
  then have "lines_of (join newline ?ls) = ?ls"
    using split_join [of ?ls "CHR 0x0A"] rendered_lines [OF assms(1)] by (auto simp: lines_of_def newline_def)
  then have "parse_diff_hunks (join newline ?ls)
      = add_all (concat (map (\<lambda>fd. map (Pair (fst fd)) (added_lines fd)) fds)) []"
    using step_files [OF assms(1), of "[]" 0 "[]"] by (auto simp: parse_diff_hunks_def)
  moreover have "map snd (filter (\<lambda>p. fst p = f) (concat (map (\<lambda>fd. map (Pair (fst fd)) (added_lines fd)) fds)))
      = concat (map added_lines (filter (\<lambda>fd. fst fd = f) fds))"
    by (induction fds) (auto simp: filter_map o_def)
  ultimately show ?thesis by (simp add: lines_at_add_all)
qed

definition demo_diff :: "file_diff list" where
  "demo_diff = [(''a.go'', [\<lparr>hk_old = ''3,2'', hk_start = 3, hk_tail = [],
     hk_lines = [Context ''x'', Removed ''- y'', Added ''z'', Context [], Added ''w'', NoEol]\<rparr>]),
     (''b.go'', [\<lparr>hk_old = ''1'', hk_start = 1, hk_tail = '' func f'', hk_lines = [Added ''q'']\<rparr>])]"

lemma single_digits: "itoa 3 = ''3''" "itoa 1 = ''1''"
  by code_simp+

theorem diff_walk_roundtrip_witness:
  "lines_at (parse_diff_hunks (join newline (concat (map render_file demo_diff)))) ''a.go'' = [4, 6]"
proof -
  have "list_all plain_file demo_diff"
    by (simp add: demo_diff_def plain_file_def plain_hunk_def hunk_header_def plain_line_def has_prefix_def
        single_digits)
  moreover have "demo_diff \<noteq> []" by (simp add: demo_diff_def)
  ultimately show ?thesis
    using diff_walk_roundtrip [of demo_diff "''a.go''"] by (simp add: demo_diff_def added_lines_def)
qed

text \<open>An added line that begins with two plus signs is not counted, and the numbers behind it are off by one.\<close>

lemma plusplus_line_lost:
  "parse_diff_hunks (join newline [''+++ b/a.go'', ''@@ -1 +1,2 @@'', ''+++i'', ''+x'']) = [(''a.go'', [1])]"
  by code_simp

text \<open>Two rows that share a line: the first one decides, whatever the other says.\<close>

lemma row_order_decides:
  defines "r \<equiv> \<lambda>c. \<lparr>cb_file = ''m/a.go'', cb_start = 3, cb_end = 5, cb_covered = c\<rparr>"
  shows "cg_verdict (grade_coverage [(''a.go'', [4])] [r False, r True] []) = ''proposed''"
    "cg_verdict (grade_coverage [(''a.go'', [4])] [r True, r False] []) = ''confirmed''"
  unfolding r_def by code_simp+

subsection \<open>The advisory\<close>

lemma coverage_fields:
  "o_gate_timeout (orc\<lparr>o_coverage := c\<rparr>) = o_gate_timeout orc" "o_repo (orc\<lparr>o_coverage := c\<rparr>) = o_repo orc"
  "o_runner (orc\<lparr>o_coverage := c\<rparr>) = o_runner orc"
  by simp_all

lemma tautology_ignores_coverage:
  "tautology_verdict (orc\<lparr>o_coverage := c\<rparr>) = tautology_verdict orc"
  unfolding tautology_verdict_def coverage_fields ..

lemma tamper_ignores_coverage:
  "oracle_tamper_verdict (orc\<lparr>o_coverage := c\<rparr>) = oracle_tamper_verdict orc"
  unfolding oracle_tamper_verdict_def coverage_fields ..

text \<open>With the coverage advisory a green gate decides what it decides without, except that a success may carry
  one more advisory flag.\<close>

theorem advisory_never_blocks:
  "(case fst (judge_green (orc\<lparr>o_coverage := None\<rparr>) spec dir parent diff flags w) of
      Halt st v fl \<Rightarrow> fst (judge_green (with_coverage_grade remove read_file orc) spec dir parent diff flags w)
        \<in> {Halt st v fl} \<union> (if st = WorkerSuccess then
             {Halt st v (fl @ [\<lparr>gf_kind = FlagCoverageAdvisory, gf_detail = a\<rparr>]) | a. True} else {})
    | _ \<Rightarrow> False)"
proof -
  have cov: "\<exists>c. with_coverage_grade remove read_file orc = orc\<lparr>o_coverage := Some c\<rparr>"
    unfolding with_coverage_grade_def by (rule exI, rule refl)
  then obtain c where c: "with_coverage_grade remove read_file orc = orc\<lparr>o_coverage := Some c\<rparr>" ..
  show ?thesis
    unfolding c by (auto simp: judge_green_def tautology_ignores_coverage tamper_ignores_coverage Let_def
        split: prod.splits sum.splits option.splits if_splits)
qed

end
