(* ===== verification/Plan_Quality.thy ===== *)
theory Plan_Quality
  imports Coding_Gate
begin

text \<open>
  The quality gate of a plan, \<open>internal/coding/plan_quality.go\<close>: the checks on a planner's
  decomposition and the text that is fed back. Go maps whose keys are walked in sorted order are
  association lists; \<open>strings.ToLower\<close> is exact on ASCII.
\<close>

record plan_task =
  pt_slug :: string
  pt_goal :: string
  pt_assertion :: string
  pt_depends :: "string list"
  pt_package :: string

record feature_invariant =
  fi_name :: string
  fi_keywords :: "string list"

record plan =
  pl_slug :: string
  pl_tasks :: "plan_task list"
  pl_invariants :: "feature_invariant list"
  pl_packages :: "string list"

record plan_problem =
  pp_task :: string
  pp_kind :: string
  pp_detail :: string

subsection \<open>Words and assertions\<close>

definition token_char :: "char \<Rightarrow> bool" where
  "token_char c = ((97 \<le> (of_char c :: nat) \<and> (of_char c :: nat) \<le> 122) \<or> digit c)"

definition tokenize :: "string \<Rightarrow> string list" where
  "tokenize s = fields_func (\<lambda>c. \<not> token_char c) (to_lower s)"

definition covers_invariant :: "string \<Rightarrow> feature_invariant \<Rightarrow> bool" where
  "covers_invariant assertion iv =
     (fi_keywords iv \<noteq> []
      \<and> list_all (\<lambda>kw. list_all (\<lambda>w. w \<in> set (tokenize assertion)) (tokenize kw)) (fi_keywords iv))"

definition pinned_markers :: "string list" where
  "pinned_markers =
     [''=='', ''!='', ''>='', ''<='', ''equals'', ''equal to'', ''matches expected'', ''returns'', ''return '',
      ''exit'', ''true'', ''false'', ''nil'', ''error'', ''exactly'', ''byte-identical'', ''len('', ''count is'']"

definition weak_markers :: "string list" where
  "weak_markers =
     [''contains'', ''present'', ''exists'', ''works'', ''without '', ''is displayed'', ''is generated'',
      ''successfully'', ''is created'', ''is added'', ''appears'', ''is shown'', ''handled'', ''as expected,'']"

definition assertion_pins_value :: "string \<Rightarrow> bool" where
  "assertion_pins_value assertion =
     (let a = to_lower assertion
      in if contains_any a pinned_markers then True
         else if list_ex digit a \<or> list_ex (\<lambda>c. c \<in> set [CHR 0x22, CHR 0x27, CHR 0x60]) a then True
         else \<not> contains_any a weak_markers)"

subsection \<open>The tasks\<close>

definition problem :: "string \<Rightarrow> string \<Rightarrow> string \<Rightarrow> plan_problem" where
  "problem task kind detail = \<lparr>pp_task = task, pp_kind = kind, pp_detail = detail\<rparr>"

definition check_dep :: "plan_task \<Rightarrow> string list \<Rightarrow> string \<Rightarrow> plan_problem list" where
  "check_dep t seen dep =
     (if dep = pt_slug t then [problem (pt_slug t) ''structural'' ''depends on itself'']
      else if dep \<notin> set seen
      then [problem (pt_slug t) ''structural''
              (''depends on '' @ go_quote dep @ '', which is not an EARLIER task (deps must point backward)'')]
      else [])"

definition check_task :: "plan_task \<Rightarrow> string list \<Rightarrow> plan_problem list" where
  "check_task t seen =
     (if pt_slug t \<in> set seen then [problem (pt_slug t) ''structural'' ''duplicate task slug''] else [])
     @ (if blank (pt_goal t) then [problem (pt_slug t) ''structural'' ''empty goal''] else [])
     @ (if blank (pt_assertion t)
        then [problem (pt_slug t) ''structural''
                (''no acceptance assertion '' @ em_dash @ '' every atom needs a test it can be gated on'')] else [])
     @ concat (map (check_dep t seen) (pt_depends t))
     @ (let a = trim_space (pt_assertion t)
        in if a \<noteq> [] \<and> \<not> assertion_pins_value a
           then [problem (pt_slug t) ''weak-assertion''
                   (''assertion '' @ go_quote a @ '' tests presence, not a pinned value '' @ em_dash
                    @ '' restate it to assert a concrete expected result (an exact value, a comparison, a return, or an exit code)'')]
           else [])"

fun check_tasks :: "nat \<Rightarrow> string list \<Rightarrow> plan_task list \<Rightarrow> plan_problem list" where
  "check_tasks i seen [] = []"
| "check_tasks i seen (t # ts) =
     (if blank (pt_slug t)
      then problem [] ''structural'' (''task at position '' @ itoa (int i) @ '' has no slug'') # check_tasks (Suc i) seen ts
      else check_task t seen @ check_tasks (Suc i) (seen @ [pt_slug t]) ts)"

subsection \<open>The invariants\<close>

fun add_name :: "string \<Rightarrow> string \<Rightarrow> (string \<times> string list) list \<Rightarrow> (string \<times> string list) list" where
  "add_name k n [] = [(k, [n])]"
| "add_name k n ((k', ns) # m) = (if k' = k then (k', ns @ [n]) # m else (k', ns) # add_name k n m)"

definition covering :: "plan_task list \<Rightarrow> feature_invariant \<Rightarrow> string list" where
  "covering ts iv = map pt_slug (filter (\<lambda>t. covers_invariant (pt_assertion t) iv) ts)"

definition task_covers :: "plan \<Rightarrow> (string \<times> string list) list" where
  "task_covers p =
     fold (\<lambda>iv. fold (\<lambda>slug. add_name slug (fi_name iv)) (covering (pl_tasks p) iv)) (pl_invariants p) []"

definition uncovered :: "plan \<Rightarrow> plan_problem list" where
  "uncovered p =
     map (\<lambda>iv. problem [] ''uncovered-invariant''
            (''invariant '' @ go_quote (fi_name iv) @ '' is not covered by any atom'' @ [CHR 0x27] @ ''s assertion '' @ em_dash
             @ '' add a dedicated atom that tests it (keywords: '' @ join '', '' (fi_keywords iv) @ '')''))
       (filter (\<lambda>iv. covering (pl_tasks p) iv = []) (pl_invariants p))"

definition names_at :: "(string \<times> string list) list \<Rightarrow> string \<Rightarrow> string list" where
  "names_at m k = (case map_of m k of None \<Rightarrow> [] | Some ns \<Rightarrow> ns)"

definition folded :: "plan \<Rightarrow> plan_problem list" where
  "folded p =
     (let m = task_covers p
      in map (\<lambda>slug. problem slug ''folded-invariants''
                (''atom folds '' @ itoa (int (length (names_at m slug))) @ '' invariants ('' @ join '', '' (sort (names_at m slug))
                 @ '') '' @ em_dash @ '' give each invariant its own dedicated atom''))
           (filter (\<lambda>slug. length (names_at m slug) > 1) (sort (map fst m))))"

subsection \<open>Symbols, packages, duplicates\<close>

text \<open>The identifiers of a text that are followed by an opening parenthesis, as the expression
  \<open>symbolCallRe\<close> finds them: \<open>prev\<close> tells that the character before is part of a word.\<close>

fun called_symbols :: "bool \<Rightarrow> string \<Rightarrow> string list" where
  "called_symbols prev [] = []"
| "called_symbols prev (c # s) =
     (if word_char c \<and> \<not> prev \<and> \<not> digit c
         \<and> has_prefix (dropWhile regexp_space (dropWhile word_char (c # s))) ''(''
      then takeWhile word_char (c # s) # called_symbols True s
      else called_symbols (word_char c) s)"

definition plan_symbols :: "plan \<Rightarrow> string list" where
  "plan_symbols p =
     concat (map (\<lambda>t. called_symbols False (pt_goal t) @ called_symbols False (pt_assertion t)) (pl_tasks p))"

definition spellings :: "plan \<Rightarrow> string \<Rightarrow> string list" where
  "spellings p key = remdups (filter (\<lambda>s. to_lower s = key) (plan_symbols p))"

definition check_symbol_consistency :: "plan \<Rightarrow> plan_problem list" where
  "check_symbol_consistency p =
     map (\<lambda>key. let variants = sort (spellings p key)
                in problem [] ''inconsistent-symbol''
                     (''the API symbol is spelled '' @ itoa (int (length variants)) @ '' ways across atoms ('' @ join '', '' variants
                      @ '') '' @ em_dash @ '' these name different functions; pin ONE spelling and use it in every atom'' @ [CHR 0x27]
                      @ ''s goal and assertion''))
       (filter (\<lambda>key. length (spellings p key) > 1) (sort (remdups (map to_lower (plan_symbols p)))))"

definition check_task_package :: "string list \<Rightarrow> plan_task \<Rightarrow> plan_problem list" where
  "check_task_package pkgs t =
     (let pkg = trim_space (pt_package t)
      in if pkg = []
         then [problem (pt_slug t) ''task-package''
                 (''atom has no `package` '' @ em_dash @ '' this is a multi-package feature, so assign it one of the declared packages: ''
                  @ join '', '' pkgs)]
         else if pkg \<notin> set pkgs
         then [problem (pt_slug t) ''task-package''
                 (''atom'' @ [CHR 0x27] @ ''s package '' @ go_quote pkg
                  @ '' is not a declared package of this feature '' @ em_dash @ '' use exactly one of: '' @ join '', '' pkgs)]
         else [])"

definition check_task_packages :: "plan \<Rightarrow> plan_problem list" where
  "check_task_packages p =
     (if length (pl_packages p) \<le> 1 then []
      else concat (map (check_task_package (pl_packages p)) (pl_tasks p)))"

definition norm_assertion :: "string \<Rightarrow> string" where
  "norm_assertion s = join '' '' (Go_Prelude.fields (to_lower s))"

fun check_duplicates :: "(string \<times> string) list \<Rightarrow> plan_task list \<Rightarrow> plan_problem list" where
  "check_duplicates firsts [] = []"
| "check_duplicates firsts (t # ts) =
     (let a = norm_assertion (pt_assertion t)
      in if a = [] then check_duplicates firsts ts
         else case map_of firsts a of
           Some first \<Rightarrow>
             problem (pt_slug t) ''duplicate-assertion''
               (''assertion is identical to task '' @ go_quote first @ [CHR 0x27] @ ''s '' @ em_dash
                @ '' two atoms testing the same behavior is redundant and risks the later atom regressing the earlier'' @ [CHR 0x27]
                @ ''s work; drop this atom or give it a DISTINCT assertion (a different input/expected value)'')
             # check_duplicates firsts ts
         | None \<Rightarrow> check_duplicates ((a, pt_slug t) # firsts) ts)"

definition check_duplicate_assertions :: "plan \<Rightarrow> plan_problem list" where
  "check_duplicate_assertions p = check_duplicates [] (pl_tasks p)"

subsection \<open>The gate\<close>

definition check_plan_quality :: "plan \<Rightarrow> plan_problem list" where
  "check_plan_quality p =
     (if pl_tasks p = [] then [problem [] ''structural'' ''plan has no tasks'']
      else check_tasks 0 [] (pl_tasks p) @ uncovered p @ folded p
        @ check_symbol_consistency p @ check_task_packages p @ check_duplicate_assertions p)"

fun number_problems :: "nat \<Rightarrow> plan_problem list \<Rightarrow> string" where
  "number_problems i [] = []"
| "number_problems i (q # qs) =
     itoa (int i) @ ''. ['' @ pp_kind q @ ''] '' @ (if pp_task q \<noteq> [] then ''task '' @ pp_task q else ''plan'')
     @ '': '' @ pp_detail q @ newline @ number_problems (Suc i) qs"

definition format_plan_problems :: "plan_problem list \<Rightarrow> string" where
  "format_plan_problems probs =
     (if probs = [] then []
      else ''The plan does not yet meet the gate-quality contract; fix each:'' @ newline @ number_problems 1 probs)"

subsection \<open>What the gate accepts\<close>

text \<open>The contract of an acceptable plan, without the texts of the problems.\<close>

definition sound_task :: "plan_task list \<Rightarrow> nat \<Rightarrow> bool" where
  "sound_task ts i =
     (let t = ts ! i
      in \<not> blank (pt_slug t) \<and> \<not> blank (pt_goal t) \<and> \<not> blank (pt_assertion t)
         \<and> assertion_pins_value (trim_space (pt_assertion t))
         \<and> set (pt_depends t) \<subseteq> set (map pt_slug (take i ts)))"

definition gate_worthy :: "plan \<Rightarrow> bool" where
  "gate_worthy p =
     (let ts = pl_tasks p
      in ts \<noteq> [] \<and> distinct (map pt_slug ts) \<and> (\<forall>i < length ts. sound_task ts i)
         \<and> (\<forall>iv \<in> set (pl_invariants p). \<exists>t \<in> set ts. covers_invariant (pt_assertion t) iv)
         \<and> (\<forall>t \<in> set ts. length (filter (covers_invariant (pt_assertion t)) (pl_invariants p)) \<le> 1)
         \<and> inj_on to_lower (set (plan_symbols p))
         \<and> (length (pl_packages p) > 1 \<longrightarrow>
              (\<forall>t \<in> set ts. \<not> blank (pt_package t) \<and> trim_space (pt_package t) \<in> set (pl_packages p)))
         \<and> distinct (filter (\<lambda>a. a \<noteq> []) (map (\<lambda>t. norm_assertion (pt_assertion t)) ts)))"

lemma check_tasks_iff:
  "check_tasks k seen ts = [] \<longleftrightarrow>
     distinct (map pt_slug ts) \<and> set (map pt_slug ts) \<inter> set seen = {}
     \<and> (\<forall>i < length ts. let t = ts ! i
         in \<not> blank (pt_slug t) \<and> \<not> blank (pt_goal t) \<and> \<not> blank (pt_assertion t)
            \<and> assertion_pins_value (trim_space (pt_assertion t))
            \<and> set (pt_depends t) \<subseteq> set seen \<union> set (map pt_slug (take i ts)))"
proof (induction ts arbitrary: k seen)
  case Nil
  then show ?case by simp
next
  case (Cons t ts)
  have deps: "concat (map (check_dep t seen) ds) = [] \<longleftrightarrow> set ds \<subseteq> set seen - {pt_slug t}" for ds
    by (induction ds) (auto simp: check_dep_def)
  have head: "check_task t seen = [] \<longleftrightarrow> pt_slug t \<notin> set seen \<and> \<not> blank (pt_goal t) \<and> \<not> blank (pt_assertion t)
      \<and> assertion_pins_value (trim_space (pt_assertion t)) \<and> set (pt_depends t) \<subseteq> set seen"
    unfolding check_task_def deps append_is_Nil_conv Let_def by (auto simp: blank_def)
  show ?case
    by (simp add: Cons.IH head All_less_Suc2 Let_def) blast
qed

lemma covering_Nil: "covering ts iv = [] \<longleftrightarrow> \<not> (\<exists>t \<in> set ts. covers_invariant (pt_assertion t) iv)"
  by (auto simp: covering_def filter_empty_conv)

lemma names_at_add [simp]: "names_at (add_name k n m) k' = (if k' = k then names_at m k' @ [n] else names_at m k')"
  by (induction k n m rule: add_name.induct) (auto simp: names_at_def split: option.splits if_splits)

lemma keys_add_name: "fst ` set (add_name k n m) = insert k (fst ` set m)"
  by (induction k n m rule: add_name.induct) auto

lemma names_at_key: "k \<notin> fst ` set m \<Longrightarrow> names_at m k = []"
  by (force simp: names_at_def split: option.splits dest: map_of_SomeD)

lemma names_at_slugs:
  "names_at (fold (\<lambda>slug. add_name slug n) slugs m) k = names_at m k @ replicate (count_list slugs k) n"
  by (induction slugs arbitrary: m) (auto simp: replicate_append_same)

lemma names_at_covers:
  assumes "distinct (map pt_slug ts)" "t \<in> set ts"
  shows "names_at (fold (\<lambda>iv. fold (\<lambda>slug. add_name slug (fi_name iv)) (covering ts iv)) ivs m) (pt_slug t)
    = names_at m (pt_slug t) @ map fi_name (filter (covers_invariant (pt_assertion t)) ivs)"
proof -
  have one: "count_list (covering ts iv) (pt_slug t) = (if covers_invariant (pt_assertion t) iv then 1 else 0)" for iv
    using assms by (induction ts) (auto simp: covering_def count_list_0_iff)
  show ?thesis by (induction ivs arbitrary: m) (auto simp: names_at_slugs one)
qed

lemma keys_covers:
  "fst ` set (fold (\<lambda>iv. fold (\<lambda>slug. add_name slug (fi_name iv)) (covering ts iv)) ivs m)
    \<subseteq> fst ` set m \<union> pt_slug ` set ts"
proof -
  have "fst ` set (fold (\<lambda>slug. add_name slug n) slugs m) = fst ` set m \<union> set slugs" for n slugs m
    by (induction slugs arbitrary: m) (auto simp: keys_add_name)
  moreover have "set (covering ts iv) \<subseteq> pt_slug ` set ts" for iv by (auto simp: covering_def)
  ultimately have step: "fst ` set (fold (\<lambda>slug. add_name slug n) (covering ts iv) m)
      \<subseteq> fst ` set m \<union> pt_slug ` set ts" for n iv m by (metis Un_mono order_refl)
  show ?thesis
  proof (induction ivs arbitrary: m)
    case (Cons iv ivs)
    show ?case using Cons [of "fold (\<lambda>slug. add_name slug (fi_name iv)) (covering ts iv) m"]
        step [of "fi_name iv" iv m] by (simp add: subset_iff) blast
  qed simp
qed

lemma folded_iff:
  assumes "distinct (map pt_slug (pl_tasks p))"
  shows "folded p = [] \<longleftrightarrow>
    (\<forall>t \<in> set (pl_tasks p). length (filter (covers_invariant (pt_assertion t)) (pl_invariants p)) \<le> 1)"
proof -
  have n: "names_at (task_covers p) (pt_slug t) = map fi_name (filter (covers_invariant (pt_assertion t)) (pl_invariants p))"
    if "t \<in> set (pl_tasks p)" for t
    using names_at_covers [OF assms that, of "pl_invariants p" "[]"] by (simp add: task_covers_def names_at_def)
  have keys: "fst ` set (task_covers p) \<subseteq> pt_slug ` set (pl_tasks p)"
    using keys_covers [of "pl_tasks p" "pl_invariants p" "[]"] by (simp add: task_covers_def)
  have "folded p = [] \<longleftrightarrow> (\<forall>k \<in> fst ` set (task_covers p). length (names_at (task_covers p) k) \<le> 1)"
    by (auto simp: folded_def Let_def filter_empty_conv not_less)
  also have "\<dots> \<longleftrightarrow> (\<forall>k \<in> pt_slug ` set (pl_tasks p). length (names_at (task_covers p) k) \<le> 1)"
    using keys names_at_key [of _ "task_covers p"] by fastforce
  finally show ?thesis by (simp add: n)
qed

lemma spellings_small: "length (spellings p key) \<le> 1 \<longleftrightarrow>
    (\<forall>a \<in> set (plan_symbols p). \<forall>b \<in> set (plan_symbols p). to_lower a = key \<longrightarrow> to_lower b = key \<longrightarrow> a = b)"
proof -
  have "length (remdups xs) \<le> 1 \<longleftrightarrow> (\<forall>a \<in> set xs. \<forall>b \<in> set xs. a = b)" for xs :: "string list"
    by (metis One_nat_def card_le_Suc0_iff_eq finite_set length_remdups_card_conv)
  then show ?thesis by (auto simp: spellings_def)
qed

lemma symbols_iff: "check_symbol_consistency p = [] \<longleftrightarrow> inj_on to_lower (set (plan_symbols p))"
  by (auto simp: check_symbol_consistency_def filter_empty_conv not_less spellings_small [unfolded One_nat_def] inj_on_def)

lemma packages_iff: "check_task_packages p = [] \<longleftrightarrow> (length (pl_packages p) > 1 \<longrightarrow>
    (\<forall>t \<in> set (pl_tasks p). \<not> blank (pt_package t) \<and> trim_space (pt_package t) \<in> set (pl_packages p)))"
proof -
  have "check_task_package pkgs t = [] \<longleftrightarrow> \<not> blank (pt_package t) \<and> trim_space (pt_package t) \<in> set pkgs" for pkgs t
    by (simp add: check_task_package_def Let_def blank_def)
  then show ?thesis by (simp add: check_task_packages_def not_le)
qed

lemma duplicates_iff:
  "check_duplicates firsts ts = [] \<longleftrightarrow>
     (let as = filter (\<lambda>a. a \<noteq> []) (map (\<lambda>t. norm_assertion (pt_assertion t)) ts)
      in distinct as \<and> set as \<inter> fst ` set firsts = {})"
proof (induction ts arbitrary: firsts)
  case Nil
  then show ?case by simp
next
  case (Cons t ts)
  let ?a = "norm_assertion (pt_assertion t)"
  show ?case
  proof (cases "map_of firsts ?a")
    case None
    then have "?a \<notin> fst ` set firsts" by (simp add: map_of_eq_None_iff)
    with None show ?thesis by (auto simp: Cons.IH Let_def)
  next
    case (Some first)
    then have "?a \<in> fst ` set firsts" by (force dest: map_of_SomeD)
    with Some show ?thesis by (auto simp: Cons.IH Let_def)
  qed
qed

text \<open>C39: The gate finds no problem exactly in the plans that keep the contract.\<close>

theorem plan_gate_exact: "check_plan_quality p = [] \<longleftrightarrow> gate_worthy p"
proof (cases "pl_tasks p = []")
  case True
  then show ?thesis by (simp add: check_plan_quality_def gate_worthy_def)
next
  case False
  have unc: "uncovered p = [] \<longleftrightarrow>
      (\<forall>iv \<in> set (pl_invariants p). \<exists>t \<in> set (pl_tasks p). covers_invariant (pt_assertion t) iv)"
    by (auto simp: uncovered_def filter_empty_conv covering_Nil)
  have tasks: "check_tasks 0 [] (pl_tasks p) = [] \<longleftrightarrow>
      distinct (map pt_slug (pl_tasks p)) \<and> (\<forall>i < length (pl_tasks p). sound_task (pl_tasks p) i)"
    by (simp add: check_tasks_iff sound_task_def)
  show ?thesis
    using False folded_iff [of p]
    by (auto simp: check_plan_quality_def gate_worthy_def tasks unc symbols_iff packages_iff
        check_duplicate_assertions_def duplicates_iff Let_def)
qed

text \<open>A keyword without a letter or digit is covered by every assertion.\<close>

lemma symbol_keyword_always_covered:
  "covers_invariant assertion \<lparr>fi_name = n, fi_keywords = [''!='', ''->'']\<rparr>"
  by (simp add: covers_invariant_def tokenize_def fields_func_def to_lower_def lower_char_def
      token_char_def digit_def)

end
