(* ===== verification/Planner.thy ===== *)
theory Planner
  imports Plan_Quality Coding_Orch
begin

text \<open>
  The model-driven planning around the chain: the planner (\<open>internal/coding/planner.go\<close>), the oracle
  author (\<open>gate_author.go\<close>), the red check (\<open>red_checker.go\<close>) and the assembly of a feature chain
  (\<open>feature_planner.go\<close>). A model call takes the two prompts and gives a text or an error; the JSON
  codec and the Go parser of the standard library are parameters, the latter by the part of the
  syntax tree that the code looks at.
\<close>

type_synonym 'w ask = "string \<Rightarrow> string \<Rightarrow> 'w \<Rightarrow> (string + string) \<times> 'w"

record package_target =
  tg_dir :: string
  tg_package :: string
  tg_module :: string

record feature_spec =
  fs_slug :: string
  fs_goal :: string
  fs_invariants :: "feature_invariant list"
  fs_packages :: "package_target list"

subsection \<open>The planner\<close>

record 'w planner =
  pn_ask :: "'w ask"
  pn_max_rounds :: int
  pn_marshal :: "plan_task list \<Rightarrow> string option"
  pn_unmarshal :: "string \<Rightarrow> string + plan_task list"

definition package_dirs_of :: "feature_spec \<Rightarrow> string list" where
  "package_dirs_of sp = map tg_dir (fs_packages sp)"

definition planner_rounds :: "'w planner \<Rightarrow> int" where
  "planner_rounds pn = (if pn_max_rounds pn > 0 then pn_max_rounds pn else 4)"

definition planner_system_prompt :: string where
  "planner_system_prompt =
     ''You decompose a software feature into a chain of ATOMIC coding tasks for an automated codi'' @
     ''ng agent. Each task MUST be:'' @ newline @
     ''- CRISP: one single, localized change (one function / one file / one focused behavior) '' @
     em_dash @ '' never '' @ [CHR 0x22] @ ''implement the whole thing'' @ [CHR 0x22] @ ''.'' @ newline @
     ''- INDIVIDUALLY VERIFIABLE by exactly ONE acceptance test, and you MUST state that test'' @
     [CHR 0x27] @ ''s assertion so it PINS A CONCRETE EXPECTED VALUE '' @ em_dash @
     '' a comparison, a return value, an exit code, or an exact literal. NEVER a presence-only as'' @
     ''sertion ('' @ [CHR 0x22] @ ''contains X'' @ [CHR 0x22] @ '', '' @ [CHR 0x22] @ ''works'' @
     [CHR 0x22] @ '', '' @ [CHR 0x22] @ ''is generated'' @ [CHR 0x22] @ '', '' @ [CHR 0x22] @
     ''without error'' @ [CHR 0x22] @ '').'' @ newline @
     ''- ORDERED with explicit backward dependencies: a task may only depend on EARLIER tasks (by'' @
     '' slug).'' @ newline @
     ''- CONSISTENT in naming: use ONE exact spelling for every API symbol (function / type name)'' @
     '' across ALL tasks '' @ em_dash @ '' if one task names '' @ [CHR 0x22] @ ''Gcd'' @ [CHR 0x22] @
     '', no other task may write '' @ [CHR 0x22] @ ''GCD'' @ [CHR 0x22] @ '' or '' @ [CHR 0x22] @ ''gcd'' @
     [CHR 0x22] @ ''; differing casings name DIFFERENT functions.'' @ newline @
     ''- PLACED, when the feature spans multiple packages: set '' @ [CHR 0x22] @ ''package'' @ [CHR 0x22] @
     '' to the ONE listed package directory the atom implements (omit it when only one package is'' @
     '' in play).'' @ newline @
     ''Every stated INVARIANT must get its OWN dedicated task whose assertion tests exactly that '' @
     ''invariant (e.g. an invariant '' @ [CHR 0x22] @ ''never blocks'' @ [CHR 0x22] @
     '' gets a task asserting '' @ [CHR 0x22] @ ''exit code 0'' @ [CHR 0x22] @ '').'' @ newline @
     ''Output ONLY a JSON array '' @ em_dash @ '' no prose, no markdown fences:'' @ newline @ ''[{'' @
     [CHR 0x22] @ ''slug'' @ [CHR 0x22] @ '':'' @ [CHR 0x22] @ ''kebab-slug'' @ [CHR 0x22] @ '','' @
     [CHR 0x22] @ ''goal'' @ [CHR 0x22] @ '':'' @ [CHR 0x22] @ ''one line'' @ [CHR 0x22] @ '','' @
     [CHR 0x22] @ ''assertion'' @ [CHR 0x22] @ '':'' @ [CHR 0x22] @ ''the pinned assertion'' @ [CHR 0x22] @
     '','' @ [CHR 0x22] @ ''depends_on'' @ [CHR 0x22] @ '':['' @ [CHR 0x22] @ ''earlier-slug'' @
     [CHR 0x22] @ ''],'' @ [CHR 0x22] @ ''package'' @ [CHR 0x22] @ '':'' @ [CHR 0x22] @ ''repo/rel/dir '' @
     em_dash @ '' only when packages are listed below'' @ [CHR 0x22] @ ''}]''"

definition planner_user_prompt :: "'w planner \<Rightarrow> feature_spec \<Rightarrow> plan_task list \<Rightarrow> string \<Rightarrow> string" where
  "planner_user_prompt pn sp prior feedback =
     ''FEATURE: '' @ fs_goal sp @ newline
     @ (if length (fs_packages sp) > 1
        then newline @ ''PACKAGES '' @ em_dash @ '' this feature spans these directories; set each task'' @ [CHR 0x27]
          @ ''s '' @ [CHR 0x22] @ ''package'' @ [CHR 0x22] @ '' to EXACTLY ONE of them:'' @ newline
          @ concat (map (\<lambda>t. ''- '' @ tg_dir t @ '' (package '' @ tg_package t @ '')'' @ newline) (fs_packages sp))
        else [])
     @ (if fs_invariants sp \<noteq> []
        then newline @ ''INVARIANTS '' @ em_dash @ '' each REQUIRES its own dedicated task whose assertion tests it:'' @ newline
          @ concat (map (\<lambda>iv. ''- '' @ fi_name iv @ '' '' @ em_dash @ '' its task'' @ [CHR 0x27] @ ''s assertion must mention: ''
              @ join '', '' (fi_keywords iv) @ newline) (fs_invariants sp))
        else [])
     @ (if prior \<noteq> [] \<and> feedback \<noteq> []
        then (case pn_marshal pn prior of None \<Rightarrow> []
              | Some js \<Rightarrow> newline @ ''YOUR CURRENT PLAN:'' @ newline @ js @ newline)
          @ newline @ ''It was REJECTED. '' @ feedback @ newline
          @ ''Return the FULL corrected JSON array: fix every problem above, KEEP every other task unchanged, ''
          @ ''and do NOT drop or merge tasks to reduce the count.'' @ newline
        else [])"

text \<open>The length of the balanced array at the head of a text, if it closes.\<close>

fun array_length :: "nat \<Rightarrow> bool \<Rightarrow> bool \<Rightarrow> string \<Rightarrow> nat option" where
  "array_length depth in_str esc [] = None"
| "array_length depth in_str esc (c # s) =
     (if in_str then
        map_option Suc
          (if esc then array_length depth True False s
           else if c = CHR 0x5C then array_length depth True True s
           else array_length depth (c \<noteq> CHR 0x22) False s)
      else if c = CHR 0x22 then map_option Suc (array_length depth True esc s)
      else if c = CHR ''['' then map_option Suc (array_length (Suc depth) False esc s)
      else if c = CHR '']'' then
        (if depth = 1 then Some 1 else map_option Suc (array_length (depth - 1) False esc s))
      else map_option Suc (array_length depth False esc s))"

definition extract_json_array :: "string \<Rightarrow> string" where
  "extract_json_array s =
     (let r = dropWhile (\<lambda>c. c \<noteq> CHR ''['') s
      in case array_length 0 False False r of None \<Rightarrow> [] | Some n \<Rightarrow> take n r)"

definition parse_plan_tasks :: "'w planner \<Rightarrow> string \<Rightarrow> string + plan_task list" where
  "parse_plan_tasks pn txt =
     (let s = extract_json_array txt
      in if s = [] then Inl ''no JSON array found in planner response''
         else case pn_unmarshal pn s of
           Inl e \<Rightarrow> Inl (''parse plan JSON: '' @ e)
         | Inr ts \<Rightarrow> if ts = [] then Inl ''planner produced an empty task list'' else Inr ts)"

definition draft_plan :: "'w planner \<Rightarrow> feature_spec \<Rightarrow> plan_task list \<Rightarrow> string \<Rightarrow> 'w \<Rightarrow> (string + plan_task list) \<times> 'w" where
  "draft_plan pn sp prior feedback w =
     (case pn_ask pn planner_system_prompt (planner_user_prompt pn sp prior feedback) w of
        (Inl e, w1) \<Rightarrow> (Inl e, w1)
      | (Inr txt, w1) \<Rightarrow> (parse_plan_tasks pn txt, w1))"

record plan_outcome =
  po_plan :: plan
  po_problems :: "plan_problem list"
  po_rounds :: int
  po_error :: "string option"

definition empty_plan :: plan where
  "empty_plan = \<lparr>pl_slug = [], pl_tasks = [], pl_invariants = [], pl_packages = []\<rparr>"

definition plan_of :: "feature_spec \<Rightarrow> plan_task list \<Rightarrow> plan" where
  "plan_of sp ts = \<lparr>pl_slug = fs_slug sp, pl_tasks = ts, pl_invariants = fs_invariants sp, pl_packages = package_dirs_of sp\<rparr>"

text \<open>The loop of \<open>Plan\<close>: the rounds left, the round, the tasks and the problems of the last draft.\<close>

fun plan_loop ::
  "'w planner \<Rightarrow> feature_spec \<Rightarrow> nat \<Rightarrow> int \<Rightarrow> plan_task list \<Rightarrow> plan \<Rightarrow> plan_problem list \<Rightarrow> 'w \<Rightarrow> plan_outcome \<times> 'w" where
  "plan_loop pn sp 0 r prior pl probs w =
     (\<lparr>po_plan = pl, po_problems = probs, po_rounds = planner_rounds pn, po_error = None\<rparr>, w)"
| "plan_loop pn sp (Suc n) r prior pl probs w =
     (case draft_plan pn sp prior (format_plan_problems probs) w of
        (Inl e, w1) \<Rightarrow>
          (\<lparr>po_plan = empty_plan, po_problems = [], po_rounds = r,
            po_error = Some (''planner draft (round '' @ itoa r @ ''): '' @ e)\<rparr>, w1)
      | (Inr ts, w1) \<Rightarrow>
          (let pl' = plan_of sp ts; probs' = check_plan_quality pl'
           in if probs' = []
              then (\<lparr>po_plan = pl', po_problems = [], po_rounds = r, po_error = None\<rparr>, w1)
              else plan_loop pn sp n (r + 1) ts pl' probs' w1))"

definition plan_feature :: "'w planner \<Rightarrow> feature_spec \<Rightarrow> 'w \<Rightarrow> plan_outcome \<times> 'w" where
  "plan_feature pn sp w = plan_loop pn sp (nat (planner_rounds pn)) 1 [] empty_plan [] w"

subsection \<open>The oracle of a task\<close>

definition import_path :: "package_target \<Rightarrow> string" where
  "import_path t = (if blank (tg_module t) then [] else tg_module t @ ''/'' @ tg_dir t)"

record authored_oracle =
  or_slug :: string
  or_test_path :: string
  or_test_func :: string
  or_test_source :: string
  or_gate :: "string list list"
  or_workspace :: "string list"

definition to_feature_task :: "authored_oracle \<Rightarrow> plan_task \<Rightarrow> feature_task" where
  "to_feature_task a t =
     \<lparr>ft_slug = pt_slug t,
      ft_goal = pt_goal t @ newline @ newline @ ''The acceptance test '' @ or_test_func a @ '' in '' @ or_test_path a
        @ '' defines DONE '' @ em_dash @ '' read it for the exact API and expected values, then write the implementation ''
        @ ''until it passes. Do NOT modify any _test.go file.'',
      ft_gate = or_gate a, ft_oracles = [(or_test_path a, or_test_source a)], ft_workspace = or_workspace a,
      ft_inputs = [], ft_max_iterations = 0\<rparr>"

text \<open>The syntax tree of a file: a declaration is a general one with its keyword or a function with
  its receiver, name and number of parameter groups; an import has an optional alias and its literal.\<close>

datatype go_decl = GenDecl string | FuncDecl bool string "nat option"

record go_file =
  go_package :: string
  go_decls :: "go_decl list"
  go_imports :: "(string option \<times> string) list"
  go_selected :: "string list"

type_synonym 'w red_checker = "authored_oracle \<Rightarrow> 'w \<Rightarrow> (string + bool \<times> string) \<times> 'w"

record 'w author =
  au_ask :: "'w ask"
  au_checker :: "'w red_checker option"
  au_max_rounds :: int
  au_parse :: "string \<Rightarrow> string + go_file"

definition author_rounds :: "'w author \<Rightarrow> int" where
  "author_rounds a = (if au_max_rounds a > 0 then au_max_rounds a else 3)"

definition upper_char :: "char \<Rightarrow> char" where
  "upper_char c = (if 97 \<le> (of_char c :: nat) \<and> (of_char c :: nat) \<le> 122
     then char_of ((of_char c :: nat) - 32) else c)"

fun camel :: "bool \<Rightarrow> string \<Rightarrow> string" where
  "camel up [] = []"
| "camel up (c # s) =
     (if c \<in> set [CHR ''-'', CHR ''_'', CHR '' ''] then camel True s
      else if up then upper_char c # camel False s
      else c # camel False s)"

definition derive_test_func :: "string \<Rightarrow> string" where
  "derive_test_func slug = ''TestAccept_'' @ camel True slug"

definition import_lines :: "package_target list \<Rightarrow> string" where
  "import_lines ups =
     rev (dropWhile (\<lambda>c. c = CHR 0x0A) (rev (concat (map (\<lambda>u.
       if import_path u \<noteq> [] then ''  - '' @ import_path u @ '' (package '' @ tg_package u @ '')'' @ newline else []) ups))))"

definition oracle_system_prompt :: string where
  "oracle_system_prompt =
     ''You author ONE Go acceptance test '' @ em_dash @ '' the executable oracle that defines '' @
     [CHR 0x22] @ ''done'' @ [CHR 0x22] @
     '' for a single feature task an automated coding agent will implement next.'' @ newline @ newline @
     ''Hard rules:'' @ newline @
     ''- Output ONLY a complete Go test file: a package clause, imports, and the test function. N'' @
     ''O prose, NO markdown fences.'' @ newline @
     ''- The file MUST declare EXACTLY the test function name you are given, with signature func('' @
     ''t *testing.T).'' @ newline @
     ''- The test must encode the stated ASSERTION as a CONCRETE check that PINS the expected val'' @
     ''ue (compare against an exact value / return / error / exit code). Never a presence-only ch'' @
     ''eck.'' @ newline @
     ''- The feature does NOT exist yet. Your test MUST call the real API you expect the implemen'' @
     ''ter to build and assert its behavior '' @ em_dash @ '' so it FAILS on today'' @ [CHR 0x27] @
     ''s tree (a missing symbol is a compile failure, which is correct) and PASSES once the featu'' @
     ''re is built. A test that passes before the feature exists is wrong.'' @ newline @
     ''- Do NOT declare, implement, or stub the feature'' @ [CHR 0x27] @
     ''s functions, types, vars, or consts '' @ em_dash @
     '' a separate implementer builds them, and a stub here both collides with that implementatio'' @
     ''n and makes the test pass for the wrong reason. Your file contains ONLY the package clause'' @
     '', imports, and the Test function(s). Referencing an as-yet-undefined symbol is REQUIRED an'' @
     ''d correct.'' @ newline @ ''- To build an INPUT value of one of the feature'' @ [CHR 0x27] @
     ''s struct types, write a COMPOSITE LITERAL that references the type '' @ em_dash @ '' e.g. '' @
     [CHR 0x60] @ ''[]Candidate{{Name: '' @ [CHR 0x22] @ ''x'' @ [CHR 0x22] @ '', Keywords: []string{'' @
     [CHR 0x22] @ ''a'' @ [CHR 0x22] @ ''}}}'' @ [CHR 0x60] @ '' '' @ em_dash @ '' and NEVER add a '' @
     [CHR 0x60] @ ''type Candidate struct{'' @ [CHR 0xE2, CHR 0x80, CHR 0xA6] @ ''}'' @ [CHR 0x60] @
     '' declaration to make it compile. The type is defined by the implementation; a '' @ [CHR 0x60] @
     ''type'' @ [CHR 0x60] @
     '' declaration in your test collides with it and is rejected. Reference the feature'' @ [CHR 0x27] @
     ''s types and functions; do not define them.'' @ newline @
     ''- Keep it minimal and self-contained: one focused behavior, the package'' @ [CHR 0x27] @
     ''s own API, the standard library. Do not invent unrelated helpers.''"

definition oracle_user_prompt :: "plan_task \<Rightarrow> package_target \<Rightarrow> package_target list \<Rightarrow> string \<Rightarrow> string \<Rightarrow> string" where
  "oracle_user_prompt t target ups fn feedback =
     ''PACKAGE: '' @ tg_package target @ '' (directory '' @ tg_dir target @ '')'' @ newline
     @ ''TEST FUNCTION (declare exactly this): '' @ fn @ newline
     @ ''TASK GOAL: '' @ pt_goal t @ newline
     @ ''ASSERTION the test must encode: '' @ pt_assertion t @ newline
     @ (let imps = import_lines ups
        in if imps \<noteq> []
           then newline @ ''UPSTREAM PACKAGES available to the implementation (built by earlier tasks):'' @ newline @ imps @ newline
             @ ''Import one ONLY if your TEST BODY references its API directly (e.g. to construct an input or assert a returned value''
             @ [CHR 0x27] @ ''s type). The function under test may call these packages INTERNALLY without your test importing them ''
             @ em_dash @ '' if your test only calls THIS package'' @ [CHR 0x27] @ ''s own API, do not import an upstream package. ''
             @ ''Never import a package you do not reference (Go rejects an unused import), and do not invent upstream symbols ''
             @ ''the task did not describe.'' @ newline
           else [])
     @ (if feedback \<noteq> []
        then newline @ ''Your previous attempt was REJECTED: '' @ feedback @ newline
          @ ''Fix it and output the corrected complete test file.'' @ newline
        else [])"

definition extract_fenced :: "string \<Rightarrow> string" where
  "extract_fenced txt =
     (case str_index txt Coding_Verify.fence of
        None \<Rightarrow> []
      | Some i \<Rightarrow>
          (let rest0 = drop (i + 3) txt;
               rest = (case find_index (\<lambda>c. c = CHR 0x0A) rest0 of None \<Rightarrow> rest0 | Some k \<Rightarrow> drop (Suc k) rest0)
           in case str_index rest Coding_Verify.fence of
                None \<Rightarrow> []
              | Some e \<Rightarrow> trim_space (take e rest)))"

definition extract_go_source :: "string \<Rightarrow> string" where
  "extract_go_source txt0 =
     (let fenced = extract_fenced txt0; txt = (if fenced \<noteq> [] then fenced else txt0)
      in case str_index txt ''package '' of None \<Rightarrow> [] | Some i \<Rightarrow> trim_space (drop i txt))"

definition is_test_func_name :: "string \<Rightarrow> bool" where
  "is_test_func_name name = list_ex (has_prefix name) [''Test'', ''Benchmark'', ''Example'', ''Fuzz'']"

definition import_local_name :: "string option \<times> string \<Rightarrow> string \<Rightarrow> string" where
  "import_local_name imp path =
     (case fst imp of
        Some n \<Rightarrow> n
      | None \<Rightarrow> rev (takeWhile (\<lambda>c. c \<noteq> CHR ''/'') (rev path)))"

fun check_imports :: "string list \<Rightarrow> (string option \<times> string) list \<Rightarrow> string option" where
  "check_imports used [] = None"
| "check_imports used (imp # imps) =
     (let path = trim_char (CHR 0x22) (snd imp); name = import_local_name imp path
      in if name = ''_'' \<or> name = ''.'' then check_imports used imps
         else if name \<notin> set used
         then Some (''oracle imports '' @ go_quote path @ '' but never references it '' @ em_dash
            @ '' an acceptance test must carry NO unused import (Go rejects it as a compile error, making the gate ungreenable). ''
            @ ''The function under test uses upstream packages internally; your test should import one ONLY if it calls that package''
            @ [CHR 0x27] @ ''s API directly. Remove the unused import'')
         else check_imports used imps)"

definition check_no_unused_imports :: "go_file \<Rightarrow> string option" where
  "check_no_unused_imports f = check_imports (go_selected f) (go_imports f)"

text \<open>The walk over the declarations: a refusal, or whether the acceptance function was seen.\<close>

fun check_decls :: "string \<Rightarrow> bool \<Rightarrow> go_decl list \<Rightarrow> string + bool" where
  "check_decls fn seen [] = Inr seen"
| "check_decls fn seen (GenDecl tok # ds) =
     (if tok \<noteq> ''import''
      then Inl (''oracle must not declare a package-level '' @ tok @ '' '' @ em_dash
         @ '' an acceptance test only CALLS the feature'' @ [CHR 0x27] @ ''s API, it does not define it'')
      else check_decls fn seen ds)"
| "check_decls fn seen (FuncDecl recv name groups # ds) =
     (if recv \<or> \<not> is_test_func_name name
      then Inl (''oracle must not define '' @ go_quote name @ '' '' @ em_dash
         @ '' an acceptance test contains only its Test function(s); reference the feature'' @ [CHR 0x27]
         @ ''s API, do not implement or stub it'')
      else if name = fn then
        (if groups \<noteq> Some 1
         then Inl (''acceptance func '' @ fn @ '' must have signature func(t *testing.T)'')
         else check_decls fn True ds)
      else check_decls fn seen ds)"

definition validate_oracle_source :: "'w author \<Rightarrow> string \<Rightarrow> string \<Rightarrow> string \<Rightarrow> string option" where
  "validate_oracle_source a src pkg fn =
     (case au_parse a src of
        Inl e \<Rightarrow> Some (''authored oracle is not valid Go: '' @ e)
      | Inr f \<Rightarrow>
          if go_package f \<noteq> pkg \<and> go_package f \<noteq> pkg @ ''_test''
          then Some (''oracle is in package '' @ go_quote (go_package f) @ '' but must be '' @ go_quote pkg @ '' or '' @ go_quote pkg @ ''_test'')
          else case check_decls fn False (go_decls f) of
            Inl e \<Rightarrow> Some e
          | Inr has_accept \<Rightarrow>
              if \<not> has_accept then Some (''oracle must declare the acceptance test func '' @ fn @ ''(t *testing.T)'')
              else check_no_unused_imports f)"

definition draft_oracle ::
  "'w author \<Rightarrow> plan_task \<Rightarrow> package_target \<Rightarrow> package_target list \<Rightarrow> string \<Rightarrow> string \<Rightarrow> 'w \<Rightarrow> (string + string) \<times> 'w" where
  "draft_oracle a t target ups fn feedback w =
     (case au_ask a oracle_system_prompt (oracle_user_prompt t target ups fn feedback) w of
        (Inl e, w1) \<Rightarrow> (Inl e, w1)
      | (Inr txt, w1) \<Rightarrow>
          (let src = extract_go_source txt
           in if src = [] then (Inl ''model response contained no Go source'', w1) else (Inr src, w1)))"

definition vacuous_text :: "string \<Rightarrow> string" where
  "vacuous_text detail =
     ''the oracle PASSES on the current tree, where the feature is NOT yet built '' @ em_dash
     @ '' a vacuous test. It MUST fail until the feature exists: call the real API you expect and assert the pinned value. '' @ detail"

fun author_loop ::
  "'w author \<Rightarrow> plan_task \<Rightarrow> package_target \<Rightarrow> package_target list \<Rightarrow> authored_oracle \<Rightarrow> nat \<Rightarrow> int \<Rightarrow> string \<Rightarrow> 'w
     \<Rightarrow> (string + authored_oracle) \<times> 'w" where
  "author_loop a t target ups o0 0 r feedback w =
     (Inl (''oracle author for '' @ go_quote (pt_slug t) @ '' did not converge in '' @ itoa (author_rounds a) @ '' rounds: '' @ feedback), w)"
| "author_loop a t target ups o0 (Suc n) r feedback w =
     (case draft_oracle a t target ups (or_test_func o0) feedback w of
        (Inl e, w1) \<Rightarrow> (Inl (''oracle draft (round '' @ itoa r @ ''): '' @ e), w1)
      | (Inr src, w1) \<Rightarrow>
          (case validate_oracle_source a src (tg_package target) (or_test_func o0) of
             Some e \<Rightarrow> author_loop a t target ups o0 n (r + 1) e w1
           | None \<Rightarrow>
               (let o1 = o0\<lparr>or_test_source := src\<rparr>
                in case au_checker a of
                     None \<Rightarrow> (Inr o1, w1)
                   | Some chk \<Rightarrow>
                       (case chk o1 w1 of
                          (Inl e, w2) \<Rightarrow> (Inl (''oracle red-check (round '' @ itoa r @ ''): '' @ e), w2)
                        | (Inr (red, detail), w2) \<Rightarrow>
                            if \<not> red then author_loop a t target ups o1 n (r + 1) (vacuous_text detail) w2
                            else (Inr o1, w2)))))"

definition oracle_skeleton :: "plan_task \<Rightarrow> package_target \<Rightarrow> authored_oracle" where
  "oracle_skeleton t target =
     (let fn = derive_test_func (pt_slug t)
      in \<lparr>or_slug = pt_slug t, or_test_path = tg_dir target @ ''/'' @ pt_slug t @ ''_accept_test.go'', or_test_func = fn,
          or_test_source = [],
          or_gate = [[''go'', ''test'', ''-count=1'', ''-run'', ''^'' @ fn @ ''$'', ''./'' @ tg_dir target]],
          or_workspace = [tg_dir target @ ''/**'']\<rparr>)"

definition author_oracle ::
  "'w author \<Rightarrow> plan_task \<Rightarrow> package_target \<Rightarrow> package_target list \<Rightarrow> 'w \<Rightarrow> (string + authored_oracle) \<times> 'w" where
  "author_oracle a t target ups w =
     (if blank (pt_slug t) \<or> blank (pt_assertion t)
      then (Inl ''oracle author: task needs a slug and a pinned assertion'', w)
      else if blank (tg_dir target) \<or> blank (tg_package target)
      then (Inl ''oracle author: target needs a package dir and name'', w)
      else author_loop a t target ups (oracle_skeleton t target) (nat (author_rounds a)) 1 [] w)"

subsection \<open>The red check\<close>

text \<open>The file system of the check: a fresh directory, its subdirectories, a file, the removal.\<close>

record 'w temp_fs =
  tf_mkdir_temp :: "'w \<Rightarrow> (string + string) \<times> 'w"
  tf_mkdir_all :: "string \<Rightarrow> 'w \<Rightarrow> string option \<times> 'w"
  tf_write :: "string \<Rightarrow> string \<Rightarrow> 'w \<Rightarrow> string option \<times> 'w"
  tf_remove_all :: "string \<Rightarrow> 'w \<Rightarrow> 'w"

definition oracle_is_red :: "'w temp_fs \<Rightarrow> 'w replay \<Rightarrow> string \<Rightarrow> int \<Rightarrow> 'w red_checker" where
  "oracle_is_red fs replay fork timeout orac w =
     (case tf_mkdir_temp fs w of
        (Inl e, w1) \<Rightarrow> (Inl e, w1)
      | (Inr src_dir, w1) \<Rightarrow>
          (let finish = (\<lambda>res w'. (res, tf_remove_all fs src_dir w'));
               dst = file_join src_dir (or_test_path orac)
           in case tf_mkdir_all fs (path_dir dst) w1 of
                (Some e, w2) \<Rightarrow> finish (Inl e) w2
              | (None, w2) \<Rightarrow>
                  (case tf_write fs dst (or_test_source orac) w2 of
                     (Some e, w3) \<Rightarrow> finish (Inl e) w3
                   | (None, w3) \<Rightarrow>
                       (case replay fork src_dir [or_test_path orac]
                               [\<lparr>tr_pkg = path_dir (or_test_path orac), tr_funcs = [or_test_func orac]\<rparr>] timeout w3 of
                          (Inl e, w4) \<Rightarrow> finish (Inl e) w4
                        | (Inr [], w4) \<Rightarrow> finish (Inr (False, ''no result'')) w4
                        | (Inr (r # rs), w4) \<Rightarrow>
                            finish (Inr (cr_exit r \<noteq> 0, tail_of (cr_stderr r @ cr_stdout r) 400)) w4))))"

subsection \<open>The assembly of a feature chain\<close>

record assemble_report =
  ar_plan :: plan
  ar_rounds :: int
  ar_problems :: "plan_problem list"
  ar_oracles :: "authored_oracle list"

definition target_at :: "feature_spec \<Rightarrow> string \<Rightarrow> package_target option" where
  "target_at sp dir = find (\<lambda>t. tg_dir t = dir) (rev (fs_packages sp))"

definition task_package_dir :: "feature_spec \<Rightarrow> plan_task \<Rightarrow> string" where
  "task_package_dir sp t = (case fs_packages sp of [p] \<Rightarrow> tg_dir p | _ \<Rightarrow> trim_space (pt_package t))"

definition slug_package :: "feature_spec \<Rightarrow> plan_task list \<Rightarrow> string \<Rightarrow> string" where
  "slug_package sp ts slug =
     (case find (\<lambda>t. pt_slug t = slug) (rev ts) of None \<Rightarrow> [] | Some t \<Rightarrow> task_package_dir sp t)"

fun upstream_from :: "(string \<Rightarrow> string) \<Rightarrow> (string \<Rightarrow> package_target option) \<Rightarrow> string list \<Rightarrow> string list \<Rightarrow> package_target list" where
  "upstream_from slug_pkg by_dir seen [] = []"
| "upstream_from slug_pkg by_dir seen (dep # deps) =
     (let dir = slug_pkg dep
      in if dir = [] \<or> dir \<in> set seen then upstream_from slug_pkg by_dir seen deps
         else (case by_dir dir of None \<Rightarrow> [] | Some t \<Rightarrow> [t]) @ upstream_from slug_pkg by_dir (dir # seen) deps)"

definition upstream_targets :: "plan_task \<Rightarrow> (string \<Rightarrow> string) \<Rightarrow> (string \<Rightarrow> package_target option) \<Rightarrow> string \<Rightarrow> package_target list" where
  "upstream_targets t slug_pkg by_dir own = upstream_from slug_pkg by_dir [own] (pt_depends t)"

text \<open>The oracles of the tasks in order: those authored so far, and the error that stopped the walk.\<close>

fun author_tasks ::
  "'w author \<Rightarrow> feature_spec \<Rightarrow> (string \<Rightarrow> string) \<Rightarrow> plan_task list \<Rightarrow> 'w \<Rightarrow> (authored_oracle list \<times> string option) \<times> 'w" where
  "author_tasks a sp slug_pkg [] w = (([], None), w)"
| "author_tasks a sp slug_pkg (t # ts) w =
     (let dir = slug_pkg (pt_slug t)
      in case target_at sp dir of
           None \<Rightarrow> (([], Some (''author oracle for task '' @ go_quote (pt_slug t) @ '': placed in package '' @ go_quote dir
              @ '', which the feature did not declare'')), w)
         | Some target \<Rightarrow>
             (case author_oracle a t target (upstream_targets t slug_pkg (target_at sp) (tg_dir target)) w of
                (Inl e, w1) \<Rightarrow> (([], Some (''author oracle for task '' @ go_quote (pt_slug t) @ '': '' @ e)), w1)
              | (Inr orac, w1) \<Rightarrow>
                  (case author_tasks a sp slug_pkg ts w1 of ((os, err), w2) \<Rightarrow> ((orac # os, err), w2))))"

datatype assemble_error = NoPackage | PlanFailed string | NotConverged int "plan_problem list" | AuthorFailed string | BuildFailed spec_error

definition assemble ::
  "'w planner \<Rightarrow> 'w author \<Rightarrow> feature_spec \<Rightarrow> string \<Rightarrow> string \<Rightarrow> 'w \<Rightarrow> ((assemble_error + chain) \<times> assemble_report) \<times> 'w" where
  "assemble pn au sp chain_slug target_repo w =
     (if fs_packages sp = []
      then ((Inl NoPackage, \<lparr>ar_plan = empty_plan, ar_rounds = 0, ar_problems = [], ar_oracles = []\<rparr>), w)
      else case plan_feature pn sp w of
        (po, w1) \<Rightarrow>
          (let report = \<lparr>ar_plan = po_plan po, ar_rounds = po_rounds po, ar_problems = po_problems po, ar_oracles = []\<rparr>
           in case po_error po of
                Some e \<Rightarrow> ((Inl (PlanFailed e), report), w1)
              | None \<Rightarrow>
                  if po_problems po \<noteq> [] then ((Inl (NotConverged (po_rounds po) (po_problems po)), report), w1)
                  else
                    (let ts = pl_tasks (po_plan po)
                     in case author_tasks au sp (slug_package sp ts) ts w1 of
                          ((os, err), w2) \<Rightarrow>
                            (let report' = report\<lparr>ar_oracles := os\<rparr>
                             in case err of
                                  Some e \<Rightarrow> ((Inl (AuthorFailed e), report'), w2)
                                | None \<Rightarrow>
                                    (case build_feature_chain chain_slug target_repo (map2 to_feature_task os ts) of
                                       Inl e \<Rightarrow> ((Inl (BuildFailed e), report'), w2)
                                     | Inr c \<Rightarrow> ((Inr c, report'), w2))))))"

section \<open>Properties\<close>

text \<open>
  What the planning pipeline guarantees: a plan that converged keeps the contract of the quality gate,
  an authored oracle was validated and found red, and an assembled chain carries such an oracle, seeded
  and protected, for every task of such a plan.
\<close>

subsection \<open>The planner\<close>

lemma plan_loop_cases:
  assumes "plan_loop pn sp n r prior pl probs w = (po, w')"
    "n = 0 \<longrightarrow> probs = check_plan_quality pl \<and> pl = plan_of sp (pl_tasks pl)"
    "r + int n = planner_rounds pn + 1"
  shows "(case po_error po of Some e \<Rightarrow> r \<le> po_rounds po
      | None \<Rightarrow> po_problems po = check_plan_quality (po_plan po) \<and> po_plan po = plan_of sp (pl_tasks (po_plan po))
          \<and> (po_problems po \<noteq> [] \<longrightarrow> po_rounds po = planner_rounds pn))
    \<and> po_rounds po \<le> planner_rounds pn"
  using assms
proof (induction n arbitrary: r prior pl probs w)
  case 0
  then show ?case by auto
next
  case (Suc n)
  show ?case
  proof (cases "draft_plan pn sp prior (format_plan_problems probs) w")
    case (Pair d w1)
    show ?thesis
    proof (cases d)
      case (Inl e)
      with Pair Suc.prems show ?thesis by auto
    next
      case (Inr ts)
      show ?thesis
      proof (cases "check_plan_quality (plan_of sp ts) = []")
        case True
        with Pair Inr Suc.prems show ?thesis by (auto simp: plan_of_def)
      next
        case False
        have next_loop: "plan_loop pn sp n (r + 1) ts (plan_of sp ts) (check_plan_quality (plan_of sp ts)) w1 = (po, w')"
          using False Pair Inr Suc.prems(1) by (simp add: Let_def)
        have "plan_of sp ts = plan_of sp (pl_tasks (plan_of sp ts))" by (simp add: plan_of_def)
        with Suc.IH [OF next_loop] Suc.prems(3) show ?thesis by (auto split: option.splits)
      qed
    qed
  qed
qed

lemma converged_plan_is_worthy:
  assumes "plan_feature pn sp w = (po, w')" "po_error po = None"
  shows "po_rounds po \<le> planner_rounds pn"
    "po_plan po = plan_of sp (pl_tasks (po_plan po))"
    "po_problems po = [] \<longleftrightarrow> gate_worthy (po_plan po)"
    "po_problems po \<noteq> [] \<Longrightarrow> po_rounds po = planner_rounds pn"
proof -
  have "planner_rounds pn > 0" by (simp add: planner_rounds_def)
  with assms plan_loop_cases [of pn sp "nat (planner_rounds pn)" 1 "[]" empty_plan "[]" w po w']
  show "po_rounds po \<le> planner_rounds pn" "po_plan po = plan_of sp (pl_tasks (po_plan po))"
    "po_problems po = [] \<longleftrightarrow> gate_worthy (po_plan po)"
    "po_problems po \<noteq> [] \<Longrightarrow> po_rounds po = planner_rounds pn"
    by (auto simp: plan_feature_def plan_gate_exact [symmetric])
qed

subsection \<open>The oracle\<close>

text \<open>A source that passed the validation declares the acceptance function and nothing else but
  imports and test functions, in the package of the target or its external test package.\<close>

lemma check_decls_sound:
  "check_decls fn seen ds = Inr b \<Longrightarrow>
     (\<forall>d \<in> set ds. d = GenDecl ''import'' \<or> (\<exists>name g. d = FuncDecl False name g \<and> is_test_func_name name))
     \<and> (b \<longrightarrow> seen \<or> FuncDecl False fn (Some 1) \<in> set ds)"
  by (induction fn seen ds rule: check_decls.induct) (auto split: if_splits)

lemma validated_source:
  assumes "validate_oracle_source a src pkg fn = None"
  obtains f where "au_parse a src = Inr f" "go_package f \<in> {pkg, pkg @ ''_test''}"
    "FuncDecl False fn (Some 1) \<in> set (go_decls f)"
    "\<forall>d \<in> set (go_decls f). d = GenDecl ''import'' \<or> (\<exists>name g. d = FuncDecl False name g \<and> is_test_func_name name)"
    "check_no_unused_imports f = None"
proof -
  from assms obtain f b where *: "au_parse a src = Inr f" "go_package f = pkg \<or> go_package f = pkg @ ''_test''"
    "check_decls fn False (go_decls f) = Inr b" "b" "check_no_unused_imports f = None"
    by (auto simp: validate_oracle_source_def split: sum.splits if_splits)
  from check_decls_sound [OF *(3)] * show ?thesis by (intro that) auto
qed

definition trusted :: "'w author \<Rightarrow> package_target \<Rightarrow> authored_oracle \<Rightarrow> bool" where
  "trusted a target orac \<longleftrightarrow>
     validate_oracle_source a (or_test_source orac) (tg_package target) (or_test_func orac) = None
     \<and> (\<forall>chk. au_checker a = Some chk \<longrightarrow> (\<exists>w0 d w1. chk orac w0 = (Inr (True, d), w1)))"

lemma author_loop_trusted:
  "author_loop a t target ups o0 n r feedback w = (Inr orac, w') \<Longrightarrow>
     trusted a target orac \<and> (\<exists>src. orac = o0\<lparr>or_test_source := src\<rparr>)"
proof (induction n arbitrary: o0 r feedback w)
  case 0
  then show ?case by simp
next
  case (Suc n)
  obtain src w1 where d: "draft_oracle a t target ups (or_test_func o0) feedback w = (Inr src, w1)"
    using Suc.prems by (auto split: prod.splits sum.splits)
  show ?case
  proof (cases "validate_oracle_source a src (tg_package target) (or_test_func o0)")
    case (Some e)
    with Suc.IH Suc.prems d show ?thesis by auto
  next
    case None
    let ?o1 = "o0\<lparr>or_test_source := src\<rparr>"
    show ?thesis
    proof (cases "au_checker a")
      case none: None
      with None Suc.prems d have o: "orac = ?o1" by simp
      with None none have "trusted a target orac" by (simp add: trusted_def)
      with o show ?thesis by blast
    next
      case (Some chk)
      with None Suc.prems d obtain red detail w2 where c: "chk ?o1 w1 = (Inr (red, detail), w2)"
        by (auto simp: Let_def split: prod.splits sum.splits)
      show ?thesis
      proof (cases red)
        case True
        with c Some None Suc.prems d have o: "orac = ?o1" by simp
        with None Some c True have "trusted a target orac" by (auto simp: trusted_def)
        with o show ?thesis by blast
      next
        case False
        with c Some None Suc.prems d
        have "author_loop a t target ups ?o1 n (r + 1) (vacuous_text detail) w2 = (Inr orac, w')" by simp
        from Suc.IH [OF this] obtain s where "trusted a target orac" "orac = ?o1\<lparr>or_test_source := s\<rparr>" by blast
        moreover have "?o1\<lparr>or_test_source := s\<rparr> = o0\<lparr>or_test_source := s\<rparr>" by simp
        ultimately show ?thesis by metis
      qed
    qed
  qed
qed

lemma author_oracle_trusted:
  assumes "author_oracle a t target ups w = (Inr orac, w')"
  shows "trusted a target orac \<and> (\<exists>src. orac = (oracle_skeleton t target)\<lparr>or_test_source := src\<rparr>)"
proof -
  from assms have "author_loop a t target ups (oracle_skeleton t target) (nat (author_rounds a)) 1 [] w = (Inr orac, w')"
    by (auto simp: author_oracle_def split: if_splits)
  then show ?thesis by (rule author_loop_trusted)
qed

text \<open>With the checker of the repository, red means that the test was run on the fork and failed.\<close>

lemma red_means_failing_run:
  assumes "oracle_is_red fs replay fork timeout orac w = (Inr (True, d), w')"
  shows "\<exists>src_dir w3 r rs w4. replay fork src_dir [or_test_path orac]
      [\<lparr>tr_pkg = path_dir (or_test_path orac), tr_funcs = [or_test_func orac]\<rparr>] timeout w3 = (Inr (r # rs), w4)
      \<and> cr_exit r \<noteq> 0"
  using assms unfolding oracle_is_red_def Let_def
  by (auto split: prod.splits sum.splits option.splits list.splits) blast

subsection \<open>The assembled chain\<close>

lemma author_tasks_all:
  "author_tasks a sp sl ts w = ((os, None), w') \<Longrightarrow>
     list_all2 (\<lambda>t orac. \<exists>target. target_at sp (sl (pt_slug t)) = Some target
        \<and> trusted a target orac
        \<and> (\<exists>src. orac = (oracle_skeleton t target)\<lparr>or_test_source := src\<rparr>)) ts os"
proof (induction ts arbitrary: os w)
  case Nil
  then show ?case by simp
next
  case (Cons t ts)
  then obtain target orac w1 os' where *: "target_at sp (sl (pt_slug t)) = Some target"
    "author_oracle a t target (upstream_targets t sl (target_at sp) (tg_dir target)) w = (Inr orac, w1)"
    "author_tasks a sp sl ts w1 = ((os', None), w')" "os = orac # os'"
    by (auto simp: Let_def split: option.splits prod.splits sum.splits)
  from Cons.IH [OF *(3)] author_oracle_trusted [OF *(2)] * show ?case by auto
qed

text \<open>What the task of a chain has of the task of the plan.\<close>

definition gated_by :: "'w author \<Rightarrow> feature_spec \<Rightarrow> plan_task \<Rightarrow> atomic_task \<Rightarrow> bool" where
  "gated_by a sp t k \<longleftrightarrow> (\<exists>target src. target \<in> set (fs_packages sp)
     \<and> trusted a target ((oracle_skeleton t target)\<lparr>or_test_source := src\<rparr>)
     \<and> at_slug k = pt_slug t
     \<and> at_oracles k = [(tg_dir target @ ''/'' @ pt_slug t @ ''_accept_test.go'', src)]
     \<and> at_gate k = [[''go'', ''test'', ''-count=1'', ''-run'', ''^'' @ derive_test_func (pt_slug t) @ ''$'', ''./'' @ tg_dir target]]
     \<and> at_protected k = [''**/*_test.go''])"

text \<open>C33: A feature chain is assembled only from a plan that keeps the contract of the quality gate; each of its
  tasks is gated by a seeded and protected test of its own, which was validated and, where a checker is
  wired, found red on the tree without the feature.\<close>

theorem assembled_chain_is_gated:
  assumes "assemble pn au sp slug repo w = ((Inr c, rep), w')"
  shows "gate_worthy (ar_plan rep) \<and> ar_plan rep = plan_of sp (pl_tasks (ar_plan rep))
    \<and> ar_rounds rep \<le> planner_rounds pn \<and> validate c = None
    \<and> list_all2 (gated_by au sp) (pl_tasks (ar_plan rep)) (ch_tasks c)"
proof -
  obtain po w1 where po: "plan_feature pn sp w = (po, w1)" by force
  let ?ts = "pl_tasks (po_plan po)"
  obtain os err w2 where os: "author_tasks au sp (slug_package sp ?ts) ?ts w1 = ((os, err), w2)" by (metis surj_pair)
  from assms have facts: "po_error po = None" "po_problems po = []" "err = None" "ar_plan rep = po_plan po"
    "ar_rounds rep = po_rounds po"
    "build_feature_chain slug repo (map2 to_feature_task os ?ts) = Inr c"
    unfolding assemble_def po os Let_def
    by (auto simp: os Let_def split: if_splits option.splits sum.splits)
  note plan = converged_plan_is_worthy [OF po facts(1)]
  from facts(6) obtain ats where ats: "feature_ats 0 (map2 to_feature_task os ?ts) = Inr ats" "ch_tasks c = ats" "validate c = None"
    by (auto simp: build_feature_chain_def Let_def split: if_splits sum.splits option.splits)
  have eq: "ch_tasks c = map feature_at (map2 to_feature_task os ?ts)"
    using feature_ats_Inr [OF ats(1)] ats(2) by simp
  have all: "list_all2 (\<lambda>t orac. \<exists>target. target_at sp (slug_package sp ?ts (pt_slug t)) = Some target
        \<and> trusted au target orac
        \<and> (\<exists>src. orac = (oracle_skeleton t target)\<lparr>or_test_source := src\<rparr>)) ?ts os"
    using os unfolding facts(3) by (rule author_tasks_all)
  have one: "gated_by au sp t (feature_at (to_feature_task orac t))"
    if h: "target_at sp d = Some target" "trusted au target orac"
      "(\<exists>src. orac = (oracle_skeleton t target)\<lparr>or_test_source := src\<rparr>)" for t orac target d
  proof -
    obtain src where o: "orac = (oracle_skeleton t target)\<lparr>or_test_source := src\<rparr>" using h(3) by blast
    have "target \<in> set (fs_packages sp)"
      using h(1) by (auto simp: target_at_def find_Some_iff) (metis nth_mem set_rev length_rev)
    with h(2) show ?thesis unfolding o
      by (auto simp: gated_by_def oracle_skeleton_def Let_def to_feature_task_def feature_at_def)
  qed
  have "list_all2 (gated_by au sp) ?ts (map feature_at (map2 to_feature_task os ?ts))"
    using all one unfolding list_all2_conv_all_nth by fastforce
  with plan facts ats(3) show ?thesis by (simp add: eq)
qed

subsection \<open>A feature that is planned and assembled\<close>

text \<open>A planner that answers with a plan of one task, an author whose source declares the test, and a
  checker that finds it red.\<close>

definition demo_task :: plan_task where
  "demo_task = \<lparr>pt_slug = ''add-sum'', pt_goal = ''add Sum'', pt_assertion = ''Sum(1, 2) == 3'', pt_depends = [], pt_package = []\<rparr>"

definition demo_planner :: "unit planner" where
  "demo_planner = \<lparr>pn_ask = (\<lambda>_ _ w. (Inr ''[1]'', w)), pn_max_rounds = 2, pn_marshal = (\<lambda>_. None),
     pn_unmarshal = (\<lambda>_. Inr [demo_task])\<rparr>"

definition demo_author :: "unit author" where
  "demo_author = \<lparr>au_ask = (\<lambda>_ _ w. (Inr ''package calc'', w)), au_checker = Some (\<lambda>_ w. (Inr (True, []), w)),
     au_max_rounds = 1,
     au_parse = (\<lambda>_. Inr \<lparr>go_package = ''calc'',
       go_decls = [GenDecl ''import'', FuncDecl False ''TestAccept_AddSum'' (Some 1)],
       go_imports = [(None, [CHR 0x22] @ ''testing'' @ [CHR 0x22])], go_selected = [''testing'']\<rparr>)\<rparr>"

definition demo_feature :: feature_spec where
  "demo_feature = \<lparr>fs_slug = ''sum'', fs_goal = ''a sum'', fs_invariants = [\<lparr>fi_name = ''three'', fi_keywords = [''sum'', ''3'']\<rparr>],
     fs_packages = [\<lparr>tg_dir = ''calc'', tg_package = ''calc'', tg_module = []\<rparr>]\<rparr>"

lemma demo_assembled:
  "case assemble demo_planner demo_author demo_feature ''c'' ''/r'' () of ((Inr c, rep), w) \<Rightarrow> True | _ \<Rightarrow> False"
  by code_simp

theorem assembled_chain_is_gated_witness:
  "\<exists>c rep. assemble demo_planner demo_author demo_feature ''c'' ''/r'' () = ((Inr c, rep), ())
     \<and> gate_worthy (ar_plan rep) \<and> list_all2 (gated_by demo_author demo_feature) (pl_tasks (ar_plan rep)) (ch_tasks c)"
proof -
  obtain c rep w where a: "assemble demo_planner demo_author demo_feature ''c'' ''/r'' () = ((Inr c, rep), w)"
    using demo_assembled by (auto split: prod.splits sum.splits)
  from assembled_chain_is_gated [OF a] a show ?thesis by auto
qed

text \<open>Two slugs the quality gate takes as different give one test function; in one package the second
  oracle redeclares it and nothing compiles.\<close>

lemma test_func_collision:
  "derive_test_func ''tie-break'' = derive_test_func ''tie_break''"
  by code_simp

lemma colliding_plan_is_worthy:
  "check_plan_quality \<lparr>pl_slug = ''f'', pl_tasks =
     [\<lparr>pt_slug = ''tie-break'', pt_goal = ''a'', pt_assertion = ''F(1) == 2'', pt_depends = [], pt_package = []\<rparr>,
      \<lparr>pt_slug = ''tie_break'', pt_goal = ''b'', pt_assertion = ''F(2) == 3'', pt_depends = [], pt_package = []\<rparr>],
     pl_invariants = [], pl_packages = [''p'']\<rparr> = []"
  by code_simp

end
