(* ===== verification/Model_Worker.thy ===== *)
theory Model_Worker
  imports Worker_Props Coding_Orch
begin

text \<open>
  The model worker of the coding chain, \<open>internal/coding/worker.go\<close>: the duty it composes for a task and
  one attempt through the spawner. The tools of a run are sandboxed to the worktree of the attempt, so the
  spawner is a function of that root. \<open>fmt_v\<close> is the verb \<open>%v\<close> on a decoded value, \<open>read\<close> is
  \<open>os.ReadFile\<close>, \<open>show_error\<close> the text of the error of a turn.
\<close>

subsection \<open>The duty\<close>

definition protects_test_files :: "string list \<Rightarrow> bool" where
  "protects_test_files protected = list_ex (\<lambda>g. contains g ''_test.go'') protected"

definition convention_text :: "(string \<Rightarrow> string + string) \<Rightarrow> string \<Rightarrow> string" where
  "convention_text read ref =
     (case read ref of
        Inl e \<Rightarrow> newline @ ''(could not load conventions_ref '' @ ref @ '': '' @ e @ '')'' @ newline
      | Inr body \<Rightarrow> newline @ ''--- Conventions from '' @ ref @ '' ---'' @ newline @ body @ newline @ ''--- end conventions ---'' @ newline)"

definition test_exists_text :: string where
  "test_exists_text =
     newline @ ''The acceptance/regression test for this fix ALREADY EXISTS '' @ em_dash
     @ '' it is the gate above, and it is READ-ONLY to you (you cannot edit any *_test.go file, and you do not need to). ''
     @ ''Do NOT author, add, or modify any test. If the goal text mentions adding a test, that test is already present as the gate; ''
     @ ''make ONLY the production-code change that turns it green.'' @ newline"

definition build_duty ::
  "(go_value \<Rightarrow> string) \<Rightarrow> (string \<Rightarrow> string + string) \<Rightarrow> atomic_task \<Rightarrow> string \<Rightarrow> feedback \<Rightarrow> string" where
  "build_duty fmt_v read task dir fb =
     ''Goal: '' @ at_goal task @ newline
     @ newline @ ''Write files using your fs tools, under the worktree root '' @ go_quote dir @ ''.'' @ newline
     @ (if at_workspace task \<noteq> []
        then ''Workspace allowlist '' @ em_dash @ '' write ONLY paths matching these patterns:'' @ newline @ ''  - ''
          @ join (newline @ ''  - '') (at_workspace task) @ newline
        else [])
     @ (if fb_inputs fb \<noteq> []
        then newline @ ''Upstream inputs (from earlier tasks in the chain):'' @ newline
          @ concat (map (\<lambda>(name, v). ''  '' @ name @ '': '' @ fmt_v v @ newline) (fb_inputs fb))
        else [])
     @ (if at_gate task \<noteq> []
        then newline @ ''The gate that determines success (you do not run it; the orchestrator does):'' @ newline
          @ concat (map (\<lambda>cmd. ''  - '' @ join '' '' cmd @ newline) (at_gate task))
        else [])
     @ concat (map (convention_text read) (at_conventions task))
     @ newline @ ''Make the smallest edit to the existing code that turns the gate green; do not add new files unless unavoidable, ''
     @ ''and stop once the fix is in place.'' @ newline
     @ (if protects_test_files (at_protected task) \<and> \<not> at_allow_test_only task then test_exists_text else [])
     @ (if fb_prior_diagnostic fb \<noteq> []
        then newline @ ''PRIOR ATTEMPT FAILED THE GATE (files remain on disk; emit the corrected versions):'' @ newline
          @ fb_prior_diagnostic fb @ newline
        else [])"

subsection \<open>One attempt\<close>

definition attempt_options :: "atomic_task \<Rightarrow> string \<Rightarrow> feedback \<Rightarrow> 'w loop_option list" where
  "attempt_options task dir fb =
     [with_guard (WorkAudit True), with_verify_dir dir]
     @ (if fb_carried_tier fb \<noteq> [] then [with_start_rung (fb_carried_tier fb)] else [])
     @ (if at_protected task \<noteq> []
        then [with_extra_hook PreToolUse ''protected-acceptance-path'' (Some (protected_path_guard (at_protected task)))]
        else [])"

definition failed_attempt :: "string \<Rightarrow> attempt_result" where
  "failed_attempt e = \<lparr>att_error = Some e, att_note = [], att_tier = []\<rparr>"

text \<open>\<^const>\<open>None\<close> when the run does not come back within the fuel, or panics.\<close>

definition model_attempt ::
  "(string \<Rightarrow> 'w spawner) \<Rightarrow> 'w env \<Rightarrow> 'w os \<Rightarrow> nat \<Rightarrow> run_context \<Rightarrow> profile \<Rightarrow> (go_value \<Rightarrow> string) \<Rightarrow> (turn_error \<Rightarrow> string)
     \<Rightarrow> atomic_task \<Rightarrow> string \<Rightarrow> feedback \<Rightarrow> 'w \<Rightarrow> (attempt_result \<times> 'w) option" where
  "model_attempt spawner_at base os fuel cx p fmt_v show_error task dir fb w =
     (let duty = build_duty fmt_v (\<lambda>ref. case os_read_file os ref w of Inl e \<Rightarrow> Inl (oe_text e) | Inr b \<Rightarrow> Inr b) task dir fb
      in case run_worker (spawner_at dir) base os fuel cx p duty (attempt_options task dir fb) w of
           None \<Rightarrow> None
         | Some (SpawnRefused k t, w1) \<Rightarrow> Some (failed_attempt (''model worker spawn: '' @ t), w1)
         | Some (WorkerEnded Panicked, w1) \<Rightarrow> None
         | Some (WorkerEnded (Failed r e), w1) \<Rightarrow> Some (failed_attempt (''model worker spawn: '' @ show_error e), w1)
         | Some (WorkerEnded (Answered r), w1) \<Rightarrow>
             if tr_fabricated r \<noteq> [] then Some (failed_attempt (''model worker fabrication: '' @ tr_fabricated r), w1)
             else Some (\<lparr>att_error = None, att_note = tr_text r, att_tier = tr_highest r\<rparr>, w1))"

subsection \<open>What an attempt guarantees\<close>

text \<open>A fact about the environment that one option establishes and the options behind it keep.\<close>

definition keeps_fact :: "('w env \<Rightarrow> bool) \<Rightarrow> 'w loop_option \<Rightarrow> bool" where
  "keeps_fact P opt \<longleftrightarrow> (\<forall>e a. P e \<longrightarrow> P (fst (opt (e, a))))"

lemma fold_keeps_fact:
  "list_all (keeps_fact P) opts \<Longrightarrow> P e \<Longrightarrow> P (fst (fold (\<lambda>opt es. opt es) opts (e, a)))"
proof (induction opts arbitrary: e a)
  case (Cons opt opts)
  obtain e1 a1 where o: "opt (e, a) = (e1, a1)" by force
  from Cons.prems have "keeps_fact P opt" "P e" by simp_all
  then have "P e1" unfolding keeps_fact_def by (metis fst_conv o)
  with Cons o show ?case by simp
qed simp

lemma new_loop_fact:
  assumes "new_loop b r w (pre @ opt # post) = (e, a)" "\<And>e0 a0. P (fst (opt (e0, a0)))" "list_all (keeps_fact P) post"
    "\<And>e0 v gs. P e0 \<Longrightarrow> P (e0\<lparr>e_verify := v, e_guards := e_guards e0 @ gs\<rparr>)" "\<And>e0 gs. P e0 \<Longrightarrow> P (e0\<lparr>e_guards := e_guards e0 @ gs\<rparr>)"
  shows "P e"
proof -
  obtain e1 a1 where p: "fold (\<lambda>opt es. opt es) pre (loop_defaults b, fresh_agent r w) = (e1, a1)" by force
  obtain e2 a2 where o: "opt (e1, a1) = (e2, a2)" by force
  obtain e3 a3 where f: "fold (\<lambda>opt es. opt es) post (e2, a2) = (e3, a3)" by force
  have "P e2" using assms(2) [of e1 a1] by (simp add: o)
  then have "P e3" using fold_keeps_fact [OF assms(3), of e2 a2] by (simp add: f)
  with assms(1,4,5) show ?thesis
    by (auto simp: new_loop_def p o f Let_def split: option.splits if_splits)
qed

lemma keeps_if: "list_all (keeps_fact P) (if b then xs else ys) = (if b then list_all (keeps_fact P) xs else list_all (keeps_fact P) ys)"
  by simp

definition audited :: "'w env \<Rightarrow> bool" where
  "audited e = (WorkAudit True \<in> set (e_guards e))"

definition gate_dir_is :: "string \<Rightarrow> 'w env \<Rightarrow> bool" where
  "gate_dir_is dir e = (e_verify_dir e = dir)"

definition hooked :: "string \<Rightarrow> 'w hook_rest hook_func \<Rightarrow> 'w env \<Rightarrow> bool" where
  "hooked name f e = ((name, f) \<in> set (e_hooks e PreToolUse))"

lemmas attempt_facts = audited_def gate_dir_is_def hooked_def keeps_fact_def with_guard_def with_start_rung_def
  with_store_def with_session_def with_verify_def with_opportunistic_verify_def with_verify_dir_def

lemma hook_keeps:
  "keeps_fact audited (with_extra_hook PreToolUse name f)" "keeps_fact (gate_dir_is dir) (with_extra_hook PreToolUse name f)"
  "keeps_fact (hooked n g) (with_extra_hook PreToolUse name f)"
  by (auto simp: attempt_facts with_extra_hook_def register_def split: option.splits sum.splits if_splits)

lemma verify_dir_keeps: "keeps_fact audited (with_verify_dir d)"
  by (simp add: attempt_facts)

lemma later_options_keep:
  assumes "P = audited \<or> P = gate_dir_is dir \<or> P = hooked n g"
  shows "keeps_fact P (with_start_rung m)" "keeps_fact P with_store" "keeps_fact P (with_session i)" "keeps_fact P (with_guard gd)"
    "keeps_fact P (with_verify v)" "keeps_fact P (with_opportunistic_verify k)" "keeps_fact P (with_extra_hook PreToolUse name f)"
    "list_all (keeps_fact P) (auto_verify_opts s os w p)"
proof -
  have hook: "keeps_fact P (with_extra_hook PreToolUse name f)" for name f
    using assms by (elim disjE) (simp_all add: hook_keeps)
  show "keeps_fact P (with_extra_hook PreToolUse name f)" by (rule hook)
  have guard: "keeps_fact P (with_guard gd)" and verify: "keeps_fact P (with_verify v)"
    and opp: "keeps_fact P (with_opportunistic_verify k)" for gd v k
    using assms by (auto simp: attempt_facts)
  show "keeps_fact P (with_start_rung m)" "keeps_fact P with_store" "keeps_fact P (with_session i)" "keeps_fact P (with_guard gd)"
    "keeps_fact P (with_verify v)" "keeps_fact P (with_opportunistic_verify k)"
    using assms by (auto simp: attempt_facts)
  show "list_all (keeps_fact P) (auto_verify_opts s os w p)" by (simp add: auto_verify_opts_def Let_def hook guard verify opp)
qed

lemma new_loop_gate_dir:
  assumes "new_loop b r w opts = (e, a)" "e_verify e = Some g" "e_verify_dir e \<noteq> []"
  shows "vg_dir g = (case e_module_dir e (e_verify_dir e) of None \<Rightarrow> e_verify_dir e | Some md \<Rightarrow> md)"
proof -
  obtain e1 a1 where f: "fold (\<lambda>opt es. opt es) opts (loop_defaults b, fresh_agent r w) = (e1, a1)" by force
  show ?thesis
  proof (cases "e_verify e1")
    case None
    with assms f show ?thesis by (auto simp: new_loop_def Let_def)
  next
    case (Some g1)
    show ?thesis
    proof (cases "e_verify_dir e1 = []")
      case True
      with assms f Some show ?thesis by (auto simp: new_loop_def Let_def)
    next
      case False
      with assms f Some show ?thesis by (auto simp: new_loop_def Let_def split: option.splits)
    qed
  qed
qed

text \<open>An attempt of the model worker without an error is an answered turn that was not judged a fabrication,
  under the audit that asks for a change and with the task's protected paths guarded; when the profile has
  a gate and the answer carries no verdict, the turn ended on a passing run of that gate, and that gate runs
  in the worktree of the attempt or in the module found from there.\<close>

theorem model_attempt_sound:
  fixes base :: "'w env"
  assumes "model_attempt sp base os n cx p fmt_v show_error task dir fb w = Some (r, w')" "att_error r = None"
  shows "\<exists>(e :: 'w env) a a1 res. run_turn e n (build_duty fmt_v (\<lambda>ref. case os_read_file os ref w of Inl e \<Rightarrow> Inl (oe_text e) | Inr b \<Rightarrow> Inr b) task dir fb) a
      = Some (Answered res, a1)
    \<and> tr_fabricated res = [] \<and> att_note r = tr_text res \<and> att_tier r = tr_highest res
    \<and> WorkAudit True \<in> set (e_guards e) \<and> e_verify_dir e = dir
    \<and> (at_protected task \<noteq> [] \<longrightarrow>
         (''protected-acceptance-path'', protected_path_guard (at_protected task)) \<in> set (e_hooks e PreToolUse))
    \<and> (pf_verify_command p \<noteq> [] \<longrightarrow> clean_result res \<longrightarrow>
         (\<exists>g. e_verify e = Some g \<and> vg_command g = pf_verify_command p \<and> closed_on_green e g (tr_dispatches res) a1
            \<and> (dir \<noteq> [] \<longrightarrow> vg_dir g = (case e_module_dir e dir of None \<Rightarrow> dir | Some md \<Rightarrow> md))))"
proof -
  define duty where "duty = build_duty fmt_v (\<lambda>ref. case os_read_file os ref w of Inl e \<Rightarrow> Inl (oe_text e) | Inr b \<Rightarrow> Inr b) task dir fb"
  from assms obtain res where run: "run_worker (sp dir) base os n cx p duty (attempt_options task dir fb) w = Some (WorkerEnded (Answered res), w')"
    and res: "tr_fabricated res = []" "att_note r = tr_text res" "att_tier r = tr_highest res"
    unfolding model_attempt_def Let_def duty_def [symmetric]
    by (auto simp: failed_attempt_def split: option.splits spawn_end.splits turn_outcome.splits if_splits)
  from run show ?thesis
  proof (cases rule: run_worker_cases)
    case (Ran w1 cx1 sid w2 opts1 e a out a1)
    let ?e = "e\<lparr>e_done := (\<lambda>w. ctx_done cx1 (e_now base w))\<rparr>"
    let ?rest = "(case sid of None \<Rightarrow> [] | Some i \<Rightarrow> [with_store, with_session i]) @ auto_verify_opts (sp dir) os w2 p"
    let ?start = "if fb_carried_tier fb \<noteq> [] then [with_start_rung (fb_carried_tier fb)] else []"
    let ?hook = "with_extra_hook PreToolUse ''protected-acceptance-path'' (Some (protected_path_guard (at_protected task)))"
    let ?hooks = "if at_protected task \<noteq> [] then [?hook] else []"
    obtain b where sw: "spawn_worker (sp dir) base os p opts1 w2 =
        new_loop b (router_for (sp dir) p) w2 (profile_options (sp dir) p @ opts1 @ auto_verify_opts (sp dir) os w2 p)"
      by (simp add: spawn_worker_def Let_def)
    have loop: "new_loop b (router_for (sp dir) p) w2 (profile_options (sp dir) p
        @ with_guard (WorkAudit True) # with_verify_dir dir # ?start @ ?hooks @ ?rest) = (e, a)"
      using Ran(4) sw by (simp add: Ran(3) attempt_options_def)
    note keep = later_options_keep [OF disjI1 [OF refl]] later_options_keep [OF disjI2 [OF disjI1 [OF refl]]]
      later_options_keep [OF disjI2 [OF disjI2 [OF refl]]]
    have "audited e"
    proof (rule new_loop_fact [OF loop])
      show "list_all (keeps_fact audited) (with_verify_dir dir # ?start @ ?hooks @ ?rest)"
        by (simp add: keep verify_dir_keeps split: option.split)
    qed (simp_all add: audited_def with_guard_def)
    moreover have "gate_dir_is dir e"
    proof (rule new_loop_fact [of b _ w2 "profile_options (sp dir) p @ [with_guard (WorkAudit True)]" "with_verify_dir dir"
          "?start @ ?hooks @ ?rest" e a])
      show "new_loop b (router_for (sp dir) p) w2 ((profile_options (sp dir) p @ [with_guard (WorkAudit True)])
          @ with_verify_dir dir # ?start @ ?hooks @ ?rest) = (e, a)" using loop by simp
      show "list_all (keeps_fact (gate_dir_is dir)) (?start @ ?hooks @ ?rest)" by (simp add: keep split: option.split)
    qed (simp_all add: gate_dir_is_def with_verify_dir_def)
    moreover have "hooked ''protected-acceptance-path'' (protected_path_guard (at_protected task)) e" if "at_protected task \<noteq> []"
    proof (rule new_loop_fact [of b _ w2 "profile_options (sp dir) p @ [with_guard (WorkAudit True), with_verify_dir dir] @ ?start" ?hook
          ?rest e a])
      show "new_loop b (router_for (sp dir) p) w2 ((profile_options (sp dir) p @ [with_guard (WorkAudit True), with_verify_dir dir] @ ?start)
          @ ?hook # ?rest) = (e, a)" using loop that by simp
      show "list_all (keeps_fact (hooked ''protected-acceptance-path'' (protected_path_guard (at_protected task)))) ?rest"
        by (simp add: keep split: option.split)
    qed (simp_all add: hooked_def with_extra_hook_def register_def valid_kind_def hook_order_def split: sum.split)
    moreover have "\<exists>g. e_verify e = Some g \<and> vg_command g = pf_verify_command p \<and> closed_on_green ?e g (tr_dispatches res) a1
        \<and> (dir \<noteq> [] \<longrightarrow> vg_dir g = (case e_module_dir e dir of None \<Rightarrow> dir | Some md \<Rightarrow> md))"
      if "pf_verify_command p \<noteq> []" "clean_result res"
    proof -
      from spawn_worker_shape [OF Ran(4) that(1)] obtain g where g: "e_verify e = Some g" "vg_command g = pf_verify_command p" by blast
      have "closed_on_green ?e g (tr_dispatches res) a1"
        using Ran(5,6) g(1) that(2) by (intro run_turn_closed [of ?e n duty a]) auto
      moreover have "dir \<noteq> [] \<Longrightarrow> vg_dir g = (case e_module_dir e dir of None \<Rightarrow> dir | Some md \<Rightarrow> md)"
        using new_loop_gate_dir [OF loop g(1)] \<open>gate_dir_is dir e\<close> by (simp add: gate_dir_is_def split: option.split)
      ultimately show ?thesis using g by blast
    qed
    moreover have "run_turn ?e n duty a = Some (Answered res, a1)" using Ran(5,6) by simp
    ultimately have "run_turn ?e n duty a = Some (Answered res, a1)
      \<and> tr_fabricated res = [] \<and> att_note r = tr_text res \<and> att_tier r = tr_highest res
      \<and> WorkAudit True \<in> set (e_guards ?e) \<and> e_verify_dir ?e = dir
      \<and> (at_protected task \<noteq> [] \<longrightarrow>
           (''protected-acceptance-path'', protected_path_guard (at_protected task)) \<in> set (e_hooks ?e PreToolUse))
      \<and> (pf_verify_command p \<noteq> [] \<longrightarrow> clean_result res \<longrightarrow>
           (\<exists>g. e_verify ?e = Some g \<and> vg_command g = pf_verify_command p \<and> closed_on_green ?e g (tr_dispatches res) a1
              \<and> (dir \<noteq> [] \<longrightarrow> vg_dir g = (case e_module_dir ?e dir of None \<Rightarrow> dir | Some md \<Rightarrow> md))))"
      using res by (simp add: audited_def gate_dir_is_def hooked_def)
    then show ?thesis unfolding duty_def [symmetric] by blast
  qed simp_all
qed

end
