(* ===== verification/Sys_Organ.thy ===== *)
theory Sys_Organ
  imports Fs_Organ Exec_Allowlist
begin

text \<open>
  The system organ, \<open>internal/sysorgan/sysorgan.go\<close> and \<open>exec.go\<close>, with the environment scrubbing of
  \<open>internal/gitenv\<close>: dispatch, the two native actions and the runner with its persistent directory. The
  process is a parameter: started in a directory with an environment, it writes chunks and ends; a file
  system is the record of \<^theory_text>\<open>Fs_Os\<close>.
\<close>

subsection \<open>The environment of a child\<close>

definition context_vars :: "string list" where
  "context_vars = [''GIT_DIR='', ''GIT_WORK_TREE='', ''GIT_INDEX_FILE='', ''GIT_COMMON_DIR='', ''GIT_PREFIX='']"

definition has_any_prefix :: "string \<Rightarrow> string list \<Rightarrow> bool" where
  "has_any_prefix s prefixes = list_ex (has_prefix s) prefixes"

definition git_clean :: "string list \<Rightarrow> string list" where
  "git_clean environ = filter (\<lambda>kv. \<not> has_any_prefix kv context_vars) environ"

definition build_env :: "string list \<Rightarrow> string \<Rightarrow> string list" where
  "build_env environ cwd = filter (\<lambda>kv. \<not> has_prefix kv ''PWD='') (git_clean environ) @ [''PWD='' @ cwd]"

subsection \<open>Output and limits\<close>

definition default_exec_timeout_ms :: int where "default_exec_timeout_ms = 120000"
definition max_exec_timeout_ms :: int where "max_exec_timeout_ms = 600000"
definition default_max_output_chars :: int where "default_max_output_chars = 30000"
definition max_output_chars_upper :: int where "max_output_chars_upper = 150000"
definition capture_ceiling :: nat where "capture_ceiling = 1048576"
definition timeout_exit_code :: int where "timeout_exit_code = 124"

definition effective_timeout_ms :: "int \<Rightarrow> int" where
  "effective_timeout_ms ms =
     (if ms \<le> 0 then default_exec_timeout_ms else if ms > max_exec_timeout_ms then max_exec_timeout_ms else ms)"

definition effective_max_output_chars :: "int \<Rightarrow> int" where
  "effective_max_output_chars n =
     (if n \<le> 0 then default_max_output_chars else if n > max_output_chars_upper then max_output_chars_upper else n)"

text \<open>The writer that keeps the first bytes and drops the rest.\<close>

definition capped_write :: "nat \<Rightarrow> string \<Rightarrow> string \<Rightarrow> string" where
  "capped_write cap p buf =
     (if length buf < cap
      then (if length p \<le> cap - length buf then buf @ p else buf @ take (cap - length buf) p)
      else buf)"

definition capped_output :: "nat \<Rightarrow> string list \<Rightarrow> string" where
  "capped_output cap chunks = fold (capped_write cap) chunks []"

definition strip_blank_edges :: "string \<Rightarrow> string" where
  "strip_blank_edges s =
     (let kept = dropWhile blank (rev (dropWhile blank (split_char (CHR 0x0A) s)))
      in join newline (rev kept))"

definition truncate_output :: "string \<Rightarrow> nat \<Rightarrow> string \<times> bool" where
  "truncate_output content cap =
     (if length content \<le> cap then (content, False)
      else (take cap content @ newline @ newline @ ''... ['' @ nat_str (length (filter (\<lambda>x. x = CHR 0x0A) (drop cap content)) + 1)
              @ '' lines truncated] ...'', True))"

definition shell_single_quote :: "string \<Rightarrow> string" where
  "shell_single_quote s = [CHR 0x27] @ replace_every s [CHR 0x27] [CHR 0x27, CHR 0x5C, CHR 0x27, CHR 0x27] @ [CHR 0x27]"

subsection \<open>The runner\<close>

record sh_runner =
  rn_cwd :: string
  rn_origin :: string
  rn_shell :: string

text \<open>How a started process ends: its deadline, the end of the caller's context before that, its exit
  code (-1 for a signal), or a failed wait.\<close>

datatype run_end = DeadlineHit | Cancelled | ExitedWith int | WaitFailed

record 'w processes =
  px_environ :: "'w \<Rightarrow> string list"
  px_shell_env :: string
  px_mode :: "string \<Rightarrow> 'w \<Rightarrow> nat"
  px_temp :: "'w \<Rightarrow> string option \<times> 'w"
  px_start :: "string \<Rightarrow> string \<Rightarrow> string \<Rightarrow> string list \<Rightarrow> int \<Rightarrow> 'w \<Rightarrow> (string + string list \<times> run_end \<times> int) \<times> 'w"

definition is_executable_file :: "'w os \<Rightarrow> 'w processes \<Rightarrow> 'w \<Rightarrow> string \<Rightarrow> bool" where
  "is_executable_file os px w p =
     (case os_stat os p w of Inl e \<Rightarrow> False
      | Inr fi \<Rightarrow> \<not> fi_dir fi \<and> list_ex (bit (px_mode px p w)) [0, 3, 6])"

definition resolve_shell :: "'w os \<Rightarrow> 'w processes \<Rightarrow> 'w \<Rightarrow> string" where
  "resolve_shell os px w =
     (let sh = px_shell_env px
      in if sh \<noteq> [] \<and> (contains sh ''bash'' \<or> contains sh ''zsh'') \<and> is_executable_file os px w sh then sh
         else if is_executable_file os px w ''/bin/bash'' then ''/bin/bash'' else ''/bin/sh'')"

definition new_runner :: "'w os \<Rightarrow> 'w processes \<Rightarrow> 'w \<Rightarrow> string \<Rightarrow> string + sh_runner" where
  "new_runner os px w origin =
     (case (if blank origin then os_cwd os else Inr origin) of
        Inl e \<Rightarrow> Inl (''sys: resolve working directory: '' @ oe_text e)
      | Inr dir \<Rightarrow>
          (case file_abs os dir of
             Inl e \<Rightarrow> Inl (''sys: absolutize '' @ go_quote dir @ '': '' @ oe_text e)
           | Inr a \<Rightarrow> Inr \<lparr>rn_cwd = a, rn_origin = a, rn_shell = resolve_shell os px w\<rparr>))"

record run_options =
  ro_cwd :: string
  ro_timeout_ms :: int
  ro_max_output :: int

record run_result =
  rr_output :: string
  rr_exit_code :: int
  rr_timed_out :: bool
  rr_truncated :: bool
  rr_duration_ms :: int
  rr_cwd :: string

definition is_dir :: "'w os \<Rightarrow> string \<Rightarrow> 'w \<Rightarrow> bool" where
  "is_dir os p w = (case os_stat os p w of Inl e \<Rightarrow> False | Inr fi \<Rightarrow> fi_dir fi)"

definition recover_cwd :: "'w os \<Rightarrow> 'w \<Rightarrow> string \<Rightarrow> sh_runner \<Rightarrow> string \<times> sh_runner" where
  "recover_cwd os w cwd r =
     (if is_dir os cwd w then (cwd, r)
      else (rn_origin r, if cwd = rn_cwd r then r\<lparr>rn_cwd := rn_origin r\<rparr> else r))"

definition adopt_captured_cwd :: "'w os \<Rightarrow> 'w \<Rightarrow> string option \<Rightarrow> sh_runner \<Rightarrow> sh_runner" where
  "adopt_captured_cwd os w cwd_file r =
     (case cwd_file of None \<Rightarrow> r
      | Some f \<Rightarrow>
          (case os_read_file os f w of Inl e \<Rightarrow> r
           | Inr raw \<Rightarrow> if trim_space raw \<noteq> [] \<and> is_dir os (trim_space raw) w then r\<lparr>rn_cwd := trim_space raw\<rparr> else r))"

definition exit_code_of :: "run_end \<Rightarrow> int" where
  "exit_code_of e =
     (case e of DeadlineHit \<Rightarrow> timeout_exit_code | Cancelled \<Rightarrow> 0 | ExitedWith n \<Rightarrow> n | WaitFailed \<Rightarrow> -1)"

definition capture_script :: "string \<Rightarrow> string option \<Rightarrow> string" where
  "capture_script command cwd_file =
     (case cwd_file of None \<Rightarrow> command
      | Some f \<Rightarrow> command @ newline @ ''__corpos_ec=$?'' @ newline @ ''pwd -P > '' @ shell_single_quote f
          @ '' 2>/dev/null'' @ newline @ ''exit $__corpos_ec'')"

definition drop_file :: "'w os \<Rightarrow> string option \<Rightarrow> 'w \<Rightarrow> 'w" where
  "drop_file os cwd_file w = (case cwd_file of None \<Rightarrow> w | Some f \<Rightarrow> snd (os_remove os f w))"

definition run_command ::
  "'w os \<Rightarrow> 'w processes \<Rightarrow> string \<Rightarrow> run_options \<Rightarrow> sh_runner \<Rightarrow> 'w \<Rightarrow> (string + run_result) \<times> sh_runner \<times> 'w" where
  "run_command os px command opts r w =
     (if blank command then (Inl ''sys.exec: empty command'', r, w)
      else
        (let override = \<not> blank (ro_cwd opts);
             (cwd, r1) = recover_cwd os w (if override then ro_cwd opts else rn_cwd r) r;
             (cwd_file, w1) = (if override then (None, w) else px_temp px w)
         in case px_start px (rn_shell r1) (capture_script command cwd_file) cwd (build_env (px_environ px w1) cwd)
                   (effective_timeout_ms (ro_timeout_ms opts)) w1 of
              (Inl e, w2) \<Rightarrow> (Inl (''sys.exec: start: '' @ e), r1, drop_file os cwd_file w2)
            | (Inr (chunks, ending, ms), w2) \<Rightarrow>
                (let (output, truncated) = truncate_output (strip_blank_edges (capped_output capture_ceiling chunks))
                       (nat (effective_max_output_chars (ro_max_output opts)));
                     r2 = (if \<not> override \<and> ending \<noteq> DeadlineHit then adopt_captured_cwd os w2 cwd_file r1 else r1)
                 in (Inr \<lparr>rr_output = output, rr_exit_code = exit_code_of ending, rr_timed_out = (ending = DeadlineHit),
                       rr_truncated = truncated, rr_duration_ms = ms, rr_cwd = rn_cwd r2\<rparr>, r2, drop_file os cwd_file w2))))"

subsection \<open>The actions\<close>

record 'w sys =
  sy_runner :: "sh_runner option"
  sy_world :: 'w

text \<open>The text of a refusal of the allowlist.\<close>

definition permit_text :: "permit_error \<Rightarrow> string" where
  "permit_text e =
     (case e of EmptyCommand \<Rightarrow> ''empty command'' | ShellShape t \<Rightarrow> t @ '' is not permitted in gated exec''
      | NoCommandFound \<Rightarrow> ''no command found''
      | NotAllowlisted h \<Rightarrow> ''command '' @ go_quote h @ '' is not in the exec allowlist (extend via CORPOS_EXEC_ALLOWLIST)'')"

definition result_map :: "run_result \<Rightarrow> (string \<times> go_value) list" where
  "result_map res =
     [(''cwd'', VStr (json_text (rr_cwd res))), (''duration_ms'', VNum (of_int (rr_duration_ms res))),
      (''exit_code'', VNum (of_int (rr_exit_code res))), (''output'', VStr (json_text (rr_output res))),
      (''timed_out'', VBool (rr_timed_out res)), (''truncated'', VBool (rr_truncated res))]"

definition run_in ::
  "'w os \<Rightarrow> 'w processes \<Rightarrow> string \<Rightarrow> run_options \<Rightarrow> sh_runner \<Rightarrow> 'w sys \<Rightarrow> (string + (string \<times> go_value) list) \<times> 'w sys" where
  "run_in os px command opts r s =
     (case run_command os px command opts r (sy_world s) of
        (res, r', w') \<Rightarrow> (map_sum id result_map res, \<lparr>sy_runner = Some r', sy_world = w'\<rparr>))"

record exec_params =
  ep_command :: string
  ep_cwd :: string
  ep_timeout_ms :: int
  ep_sandbox :: string

definition decode_exec :: "(string \<times> go_value) list \<Rightarrow> exec_params option" where
  "decode_exec obj =
     (case (string_field ''command'' obj, string_field ''cwd'' obj, int_field ''timeout_ms'' obj, string_field ''sandbox'' obj) of
        (Some c, Some d, Some t, Some sb) \<Rightarrow> Some \<lparr>ep_command = c, ep_cwd = d, ep_timeout_ms = t, ep_sandbox = sb\<rparr>
      | _ \<Rightarrow> None)"

text \<open>A command that is no string and can be read as one replaces the parameter, in the caller's map.\<close>

definition is_string :: "go_value option \<Rightarrow> bool" where
  "is_string v = (case v of Some (VStr s) \<Rightarrow> True | _ \<Rightarrow> False)"

definition salvage_command :: "(string \<rightharpoonup> go_value) option \<Rightarrow> (string \<rightharpoonup> go_value) option" where
  "salvage_command ps =
     (case ps of None \<Rightarrow> None
      | Some p \<Rightarrow>
          (let cmd = command_string (case p ''command'' of None \<Rightarrow> VNil | Some v \<Rightarrow> v)
           in if \<not> is_string (p ''command'') \<and> cmd \<noteq> [] then Some (p(''command'' \<mapsto> VStr cmd)) else ps))"

definition handle_exec ::
  "'w os \<Rightarrow> 'w processes \<Rightarrow> (string \<Rightarrow> string) \<Rightarrow> string set \<Rightarrow> (string \<rightharpoonup> go_value) option \<Rightarrow> 'w sys
     \<Rightarrow> (string + (string \<times> go_value) list) \<times> 'w sys" where
  "handle_exec os px decode_error allow ps s =
     (case decode_exec (object_of ps) of
        None \<Rightarrow> (Inl (''sys.exec: invalid params: '' @ decode_error ''exec''), s)
      | Some ep \<Rightarrow>
          (case sy_runner s of
             None \<Rightarrow> (Inl ''sys.exec: runner unavailable (no resolvable working directory)'', s)
           | Some r \<Rightarrow>
               if blank (ep_command ep) then (Inl ''sys.exec requires command'', s)
               else if ep_sandbox ep \<noteq> [] \<and> ep_sandbox ep \<noteq> ''none''
               then (Inl (''sys.exec: sandbox '' @ go_quote (ep_sandbox ep) @ '' is not supported by the native organ ''
                      @ ''(only sandbox=none); run host-native or use the toolkit for sandboxed exec''), s)
               else (case permit allow (ep_command ep) of
                       Some e \<Rightarrow> (Inl (''sys.exec: '' @ permit_text e), s)
                     | None \<Rightarrow> run_in os px (ep_command ep)
                         \<lparr>ro_cwd = ep_cwd ep, ro_timeout_ms = ep_timeout_ms ep, ro_max_output = 0\<rparr> r s)))"

definition go_doc_char :: "string \<Rightarrow> bool" where
  "go_doc_char r =
     (case r of [c] \<Rightarrow> byte_in 97 122 c \<or> byte_in 65 90 c \<or> byte_in 48 57 c \<or> c \<in> {CHR ''.'', CHR ''/'', CHR ''_'', CHR ''-'', CHR '' ''}
      | _ \<Rightarrow> False)"

definition validate_go_doc_symbol :: "(string \<Rightarrow> string) \<Rightarrow> string \<Rightarrow> string option" where
  "validate_go_doc_symbol quote_rune symb =
     (if 200 < length symb then Some ''symbol is too long''
      else if 2 < length (Go_Prelude.fields symb) then Some ''symbol takes at most two tokens: an optional package path and a symbol''
      else if list_ex (\<lambda>tok. has_prefix tok ''-'') (Go_Prelude.fields symb)
      then Some ''flags are not allowed; pass only a package path and/or symbol''
      else (case find (\<lambda>r. \<not> go_doc_char r) (runes symb) of
              Some r \<Rightarrow> Some (''unsupported character '' @ quote_rune r @ '' (allowed: letters, digits, . / _ - and a single space)'')
            | None \<Rightarrow> None))"

definition go_doc_timeout_ms :: int where "go_doc_timeout_ms = 30000"

definition go_doc_usage :: string where
  "go_doc_usage = ''sys.go_doc requires symbol (e.g. '' @ [CHR 0x22] @ ''corpos/internal/tool.Spec'' @ [CHR 0x22] @ '', ''
     @ [CHR 0x22] @ ''session.Create'' @ [CHR 0x22] @ '', or '' @ [CHR 0x22] @ ''bytes.Buffer.Write'' @ [CHR 0x22] @ '')''"

definition handle_go_doc ::
  "'w os \<Rightarrow> 'w processes \<Rightarrow> (string \<Rightarrow> string) \<Rightarrow> (string \<Rightarrow> string) \<Rightarrow> string set \<Rightarrow> (string \<rightharpoonup> go_value) option \<Rightarrow> 'w sys
     \<Rightarrow> (string + (string \<times> go_value) list) \<times> 'w sys" where
  "handle_go_doc os px decode_error quote_rune allow ps s =
     (case (string_field ''symbol'' (object_of ps), string_field ''cwd'' (object_of ps)) of
        (Some symbol, Some cwd) \<Rightarrow>
          (case sy_runner s of
             None \<Rightarrow> (Inl ''sys.go_doc: runner unavailable (no resolvable working directory)'', s)
           | Some r \<Rightarrow>
               (let symb = trim_space symbol
                in if symb = [] then (Inl go_doc_usage, s)
                   else (case validate_go_doc_symbol quote_rune symb of
                           Some e \<Rightarrow> (Inl (''sys.go_doc: '' @ e), s)
                         | None \<Rightarrow>
                             (case permit allow (''go doc '' @ symb) of
                                Some e \<Rightarrow> (Inl (''sys.go_doc: '' @ permit_text e), s)
                              | None \<Rightarrow> run_in os px (''go doc '' @ symb)
                                  \<lparr>ro_cwd = cwd, ro_timeout_ms = go_doc_timeout_ms, ro_max_output = 0\<rparr> r s))))
      | _ \<Rightarrow> (Inl (''sys.go_doc: invalid params: '' @ decode_error ''go_doc''), s))"

subsection \<open>Dispatch\<close>

definition introspection_actions :: "string list" where
  "introspection_actions = [''ps'', ''ports'', ''units'', ''containers'']"

definition sys_handle ::
  "'w os \<Rightarrow> 'w processes \<Rightarrow> (string \<Rightarrow> string) \<Rightarrow> (string \<Rightarrow> string) \<Rightarrow> string set \<Rightarrow> call \<Rightarrow> 'w sys
     \<Rightarrow> (string + (string \<times> go_value) list) \<times> 'w sys" where
  "sys_handle os px decode_error quote_rune allow c s =
     (if action c = ''exec'' then handle_exec os px decode_error allow (params c) s
      else if action c = ''go_doc'' then handle_go_doc os px decode_error quote_rune allow (params c) s
      else (Inl (''sys.'' @ action c @ '': unknown action''), s))"

definition sys_fail :: "call \<Rightarrow> string \<Rightarrow> int \<Rightarrow> result" where
  "sys_fail c msg latency = fail c ClassUsage msg latency"

definition sys_dispatch ::
  "'w os \<Rightarrow> 'w processes \<Rightarrow> (string \<Rightarrow> string) \<Rightarrow> (string \<Rightarrow> string) \<Rightarrow> string set \<Rightarrow> (call \<Rightarrow> 'w \<Rightarrow> result \<times> 'w) option
     \<Rightarrow> call \<Rightarrow> 'w sys \<Rightarrow> result \<times> 'w sys" where
  "sys_dispatch os px decode_error quote_rune allow delegate c s =
     (if action c \<in> set introspection_actions
      then (case delegate of
              None \<Rightarrow> (sys_fail c (''sys.'' @ action c @ '': no toolkit provider is mounted to serve introspection'') 0, s)
            | Some f \<Rightarrow> (case f c (sy_world s) of (res, w) \<Rightarrow> (res, s\<lparr>sy_world := w\<rparr>)))
      else
        (let c' = (if action c = ''exec'' then c\<lparr>params := salvage_command (params c)\<rparr> else c)
         in case sys_handle os px decode_error quote_rune allow c' s of
              (Inl e, s') \<Rightarrow> (sys_fail c' e (os_elapsed os (sy_world s')), s')
            | (Inr reply, s') \<Rightarrow>
                (\<lparr>res_call = c', res_ok = True, res_value = VMap reply, res_class = ClassNone,
                   latency_ms = os_elapsed os (sy_world s'), span_id = []\<rparr>, s')))"

definition new_sys :: "'w os \<Rightarrow> 'w processes \<Rightarrow> 'w \<Rightarrow> 'w sys" where
  "new_sys os px w = \<lparr>sy_runner = (case new_runner os px w [] of Inl e \<Rightarrow> None | Inr r \<Rightarrow> Some r), sy_world = w\<rparr>"

end
