(* ===== verification/Sys_Props.thy ===== *)
theory Sys_Props
  imports Sys_Organ Risk_Props Fs_Text_Laws
begin

text \<open>
  Properties of the system organ: a call that the build/test gate approves runs the very command the gate
  judged, the text kept of a process is a prefix of what it wrote, the quoting of the capture file is undone
  by the shell, and the directory of the runner is one that existed.
\<close>

subsection \<open>The command a gate judges and the organ runs\<close>

lemma rune_width_ascii: "rune_width (c # s) = 1 \<Longrightarrow> byte_in 0 127 c"
  by (cases "(c # s)" rule: rune_width.cases) (auto split: if_splits)

lemma rune_width_wide: "rune_width (c # s) = n \<Longrightarrow> 1 < n \<Longrightarrow> 194 \<le> (of_char c :: nat)"
  by (cases "(c # s)" rule: rune_width.cases) (auto simp: byte_in_def split: if_splits)

lemma lower_wide: "128 \<le> (of_char c :: nat) \<Longrightarrow> lower_char c = c"
  by (auto simp: lower_char_def Let_def)

lemma fold_key_Cons:
  "fold_key (c # s) = (if rune_width (c # s) = 0 then rune_error @ fold_key s
     else fold_rune (take (rune_width (c # s)) (c # s)) @ fold_key (drop (rune_width (c # s) - 1) s))"
proof -
  have "fold_rune rune_error = rune_error" by (simp add: fold_rune_def rune_error_def to_lower_def lower_char_def)
  then show ?thesis unfolding fold_key_def by (subst runes.simps) (simp only: Let_def list.map concat.simps split: if_split, simp)
qed

text \<open>A key without the letters s and k has, up to case, only spellings in ASCII.\<close>

lemma fold_key_spelling:
  "fold_key k = t \<Longrightarrow> list_all (\<lambda>c. (of_char c :: nat) < 128 \<and> c \<noteq> CHR ''s'' \<and> c \<noteq> CHR ''k'') t
     \<Longrightarrow> list_all2 (\<lambda>a b. lower_char a = b) k t"
proof (induction k arbitrary: t rule: runes.induct)
  case 1
  then show ?case by (simp add: fold_key_def)
next
  case (2 c s)
  define n where "n = rune_width (c # s)"
  note t = fold_key_Cons [of c s, unfolded n_def [symmetric] "2.prems"(1)]
  consider "n = 0" | "n = 1" | "1 < n" by linarith
  then show ?case
  proof cases
    case 1
    with t have "CHR 0xEF \<in> set t" by (simp add: rune_error_def)
    with "2.prems"(2) have "(of_char (CHR 0xEF) :: nat) < 128" unfolding list_all_iff by blast
    then show ?thesis by simp
  next
    case 2
    with t have "t = lower_char c # fold_key s" by (simp add: fold_rune_def to_lower_def)
    moreover have "drop (n - 1) s = s" using 2 by simp
    ultimately show ?thesis using "2.IH"(2) [OF n_def, of "fold_key s"] 2 "2.prems"(2) by simp
  next
    case 3
    then obtain r where r: "take n (c # s) = c # r" by (cases n) auto
    have "194 \<le> (of_char c :: nat)" using rune_width_wide [OF n_def [symmetric] 3] .
    then have "c \<in> set (to_lower (c # r))" and big: "\<not> (of_char c :: nat) < 128"
      by (simp_all add: to_lower_def lower_wide)
    moreover have "t = fold_rune (c # r) @ fold_key (drop (n - 1) s)" using t r 3 by simp
    ultimately have "c \<in> set t \<or> CHR ''s'' \<in> set t \<or> CHR ''k'' \<in> set t"
      by (auto simp: fold_rune_def split: if_splits)
    with big "2.prems"(2) show ?thesis unfolding list_all_iff by blast
  qed
qed

lemma lower_ge: "(a :: char) \<le> lower_char a"
  by (auto simp: lower_char_def Let_def less_eq_char_def)

lemma lower_spelling_le: "list_all2 (\<lambda>a b. lower_char a = b) k t \<Longrightarrow> k \<le> (t :: string)"
  by (induction rule: list_all2_induct) (use lower_ge in \<open>auto simp: order_le_less\<close>)

lemma last_filter_max:
  assumes "sorted xs" "x \<in> set xs" "P x" "\<And>y. y \<in> set xs \<Longrightarrow> P y \<Longrightarrow> y \<le> x"
  shows "filter P xs \<noteq> [] \<and> last (filter P xs) = (x :: 'a :: linorder)"
proof -
  have ne: "filter P xs \<noteq> []" using assms(2,3) by (auto simp: filter_empty_conv)
  have srt: "sorted (filter P xs)" using assms(1) sorted_filter [of id] by simp
  have "x \<in> set (filter P xs)" using assms(2,3) by simp
  then obtain i where i: "i < length (filter P xs)" "filter P xs ! i = x" by (meson in_set_conv_nth)
  have "x \<le> last (filter P xs)"
    using sorted_nth_mono [OF srt, of i "length (filter P xs) - 1"] i ne by (simp add: last_conv_nth)
  moreover have "last (filter P xs) \<le> x" using assms(4) last_in_set [OF ne] by simp
  ultimately show ?thesis using ne by simp
qed

lemma decode_last: "decode_values f x (vs @ [v]) = Some y \<Longrightarrow> v \<noteq> VNil \<Longrightarrow> f v = Some y"
  by (induction vs arbitrary: x) (auto split: option.splits if_splits)

lemma command_field:
  assumes "p ''command'' = Some (VStr cmd)" "string_field ''command'' (object_of (Some p)) = Some got" "got \<noteq> []"
  shows "got = json_text cmd"
proof (cases "finite (dom p)")
  case False
  with assms show ?thesis by (simp add: object_of_def string_field_def field_values_def)
next
  case True
  let ?ks = "filter (\<lambda>k. fold_key k = ''command'') (sorted_list_of_set (dom p))"
  have self: "fold_key ''command'' = ''command''" by code_simp
  have "y \<le> ''command''" if "fold_key y = ''command''" for y
    using fold_key_spelling [OF that] by (intro lower_spelling_le) simp
  with True self assms(1) have ks: "?ks \<noteq> [] \<and> last ?ks = ''command''"
    by (intro last_filter_max) auto
  have "field_values ''command'' (object_of (Some p)) = map (\<lambda>k. the (p k)) ?ks"
    by (simp add: field_values_def object_of_def filter_map o_def)
  also have "\<dots> = map (\<lambda>k. the (p k)) (butlast ?ks) @ [VStr cmd]"
  proof -
    have "?ks = butlast ?ks @ [''command'']" using ks append_butlast_last_id by metis
    then have "map (\<lambda>k. the (p k)) ?ks = map (\<lambda>k. the (p k)) (butlast ?ks @ [''command''])" by (rule arg_cong)
    then show ?thesis using assms(1) by simp
  qed
  finally have "as_string (VStr cmd) = Some got"
    using decode_last [of as_string "[]" _ "VStr cmd" got] assms(2) unfolding string_field_def by simp
  then show ?thesis by simp
qed

lemma salvaged_command:
  assumes "exec_command_of c \<noteq> []"
  shows "\<exists>p. salvage_command (params c) = Some p \<and> p ''command'' = Some (VStr (exec_command_of c))"
proof -
  from assms obtain p where p: "params c = Some p" by (cases "params c") (auto simp: exec_command_of_def)
  show ?thesis
  proof (cases "is_string (p ''command'')")
    case True
    then obtain t where "p ''command'' = Some (VStr t)"
      unfolding is_string_def by (auto split: option.splits go_value.splits)
    with p show ?thesis by (simp add: salvage_command_def exec_command_of_def is_string_def)
  next
    case False
    with p assms show ?thesis by (simp add: salvage_command_def exec_command_of_def Let_def)
  qed
qed

text \<open>What one exec call does: nothing, with an error, or a run of a permitted command.\<close>

lemma handle_exec_cases:
  assumes "handle_exec os px de allow ps s = (out, s')"
  obtains (Refused) e where "out = Inl e" "s' = s"
  | (Ran) ep r res r' w' where "decode_exec (object_of ps) = Some ep" "sy_runner s = Some r" "\<not> blank (ep_command ep)"
      "permit allow (ep_command ep) = None"
      "run_command os px (ep_command ep) \<lparr>ro_cwd = ep_cwd ep, ro_timeout_ms = ep_timeout_ms ep, ro_max_output = 0\<rparr> r (sy_world s)
         = (res, r', w')"
      "out = map_sum id result_map res" "s' = \<lparr>sy_runner = Some r', sy_world = w'\<rparr>"
  using assms unfolding handle_exec_def run_in_def
  by (auto split: option.splits if_splits prod.splits)

text \<open>C28: The command run is, up to bytes that are no text, the one the gate read from the same call.\<close>

theorem approved_exec_runs_judged_command:
  assumes "fst (build_test_gate c v)" "sys_dispatch os px de qr allow delegate c s = (res, s')"
  shows "(s' = s \<and> \<not> res_ok res \<and> res_class res = ClassUsage)
    \<or> (\<exists>r opts out r' w'. sy_runner s = Some r \<and> permit allow (json_text (exec_command_of c)) = None
         \<and> run_command os px (json_text (exec_command_of c)) opts r (sy_world s) = (out, r', w')
         \<and> s' = \<lparr>sy_runner = Some r', sy_world = w'\<rparr> \<and> (res_ok res \<longleftrightarrow> (\<exists>rr. out = Inr rr)))"
proof -
  from assms(1) have c: "action c = ''exec''" "exec_command_of c \<noteq> []"
    by (auto simp: build_test_approves trim_space_def)
  then obtain p where p: "salvage_command (params c) = Some p" "p ''command'' = Some (VStr (exec_command_of c))"
    using salvaged_command by blast
  obtain out s1 where h: "handle_exec os px de allow (Some p) s = (out, s1)" by force
  have d: "s' = s1 \<and> (res_ok res \<longleftrightarrow> (\<exists>m. out = Inr m)) \<and> (\<not> res_ok res \<longrightarrow> res_class res = ClassUsage)"
    using assms(2) c(1) p(1) h
    by (cases out) (auto simp: sys_dispatch_def sys_handle_def introspection_actions_def sys_fail_def fail_def Let_def)
  from h show ?thesis
  proof (cases rule: handle_exec_cases)
    case Refused
    with d show ?thesis by auto
  next
    case (Ran ep r out' r' w')
    have "string_field ''command'' (object_of (Some p)) = Some (ep_command ep)"
      using Ran(1) unfolding decode_exec_def by (auto split: option.splits prod.splits)
    then have "ep_command ep = json_text (exec_command_of c)"
      using command_field [of p "exec_command_of c" "ep_command ep"] p(2) Ran(3) by (cases "ep_command ep = []") (auto simp: blank_def trim_space_def)
    with Ran d show ?thesis by (cases out') auto
  qed
qed

subsection \<open>What is kept of the output\<close>

lemma capped_write_take: "capped_write cap p (take cap buf) = take cap (buf @ p)"
  by (auto simp: capped_write_def min_def)

theorem capped_output_take: "capped_output cap chunks = take cap (concat chunks)"
proof -
  have "fold (capped_write cap) chunks (take cap buf) = take cap (buf @ concat chunks)" for buf
  proof (induction chunks arbitrary: buf)
    case (Cons p chunks)
    show ?case using Cons [of "buf @ p"] by (simp only: fold_simps capped_write_take concat.simps append_assoc)
  qed simp
  from this [of "[]"] show ?thesis by (simp add: capped_output_def)
qed

subsection \<open>Quoting\<close>

text \<open>How a shell reads a word made of quoted parts and escaped characters.\<close>

fun sh_word :: "bool \<Rightarrow> string \<Rightarrow> string option" where
  "sh_word quoted [] = (if quoted then None else Some [])"
| "sh_word True (c # s) = (if c = CHR 0x27 then sh_word False s else map_option ((#) c) (sh_word True s))"
| "sh_word False (c # s) =
     (if c = CHR 0x27 then sh_word True s
      else if c = CHR 0x5C then (case s of [] \<Rightarrow> None | d # s' \<Rightarrow> map_option ((#) d) (sh_word False s'))
      else map_option ((#) c) (sh_word False s))"

definition escape_quote :: "char \<Rightarrow> string" where
  "escape_quote c = (if c = CHR 0x27 then [CHR 0x27, CHR 0x5C, CHR 0x27, CHR 0x27] else [c])"

lemma replace_every_char: "replace_every s [c] new = concat (map (\<lambda>x. if x = c then new else [x]) s)"
proof (induction s)
  case Nil
  then show ?case by (simp add: replace_every_def split_str.simps has_prefix_def)
next
  case (Cons x s)
  have ne: "split_str [c] s \<noteq> []" by simp
  show ?case
  proof (cases "x = c")
    case True
    then have "replace_every (x # s) [c] new = join new ([] # split_str [c] s)"
      by (simp add: replace_every_def has_prefix_def split_str.simps [of "[c]" "c # s"] split_str.simps [of "[c]" "x # s"])
    with True Cons ne show ?thesis by (cases "split_str [c] s") (auto simp: replace_every_def)
  next
    case False
    obtain y ys where y: "split_str [c] s = y # ys" using ne by (cases "split_str [c] s") auto
    have "split_str [c] (x # s) = (x # y) # ys"
      using False y [unfolded split_str.simps [of "[c]" s]] unfolding split_str.simps [of "[c]" "x # s"]
      by (cases "str_index s [c]") (auto simp: has_prefix_def)
    then have "replace_every (x # s) [c] new = join new ((x # y) # ys)" by (simp add: replace_every_def)
    with False Cons y show ?thesis by (cases ys) (auto simp: replace_every_def)
  qed
qed

lemma sh_word_escaped: "sh_word True (concat (map escape_quote s) @ [CHR 0x27]) = Some s"
  by (induction s) (simp_all add: escape_quote_def)

theorem quote_roundtrip: "sh_word False (shell_single_quote s) = Some s"
proof -
  have "replace_every s [CHR 0x27] [CHR 0x27, CHR 0x5C, CHR 0x27, CHR 0x27] = concat (map escape_quote s)"
    unfolding replace_every_char by (rule arg_cong [of _ _ concat]) (simp add: escape_quote_def)
  then show ?thesis by (simp add: shell_single_quote_def sh_word_escaped)
qed

subsection \<open>The environment of a child\<close>

theorem child_env_clean:
  "kv \<in> set (build_env environ cwd) \<longleftrightarrow>
     kv = ''PWD='' @ cwd \<or> (kv \<in> set environ \<and> \<not> has_prefix kv ''PWD='' \<and> \<not> has_any_prefix kv context_vars)"
  by (auto simp: build_env_def git_clean_def)

subsection \<open>The directory of the runner\<close>

theorem run_command_keeps:
  assumes "run_command os px command opts r w = (out, r', w')"
  shows "rn_origin r' = rn_origin r \<and> rn_shell r' = rn_shell r
    \<and> (rn_cwd r' = rn_cwd r \<or> rn_cwd r' = rn_origin r \<or> (\<exists>w2. is_dir os (rn_cwd r') w2))"
  using assms unfolding run_command_def Let_def
  by (auto simp: recover_cwd_def adopt_captured_cwd_def split: if_splits prod.splits sum.splits option.splits)

theorem override_keeps_cwd:
  assumes "run_command os px command opts r w = (out, r', w')" "\<not> blank (ro_cwd opts)"
    "is_dir os (ro_cwd opts) w \<or> ro_cwd opts \<noteq> rn_cwd r"
  shows "r' = r"
  using assms unfolding run_command_def Let_def
  by (auto simp: recover_cwd_def split: if_splits prod.splits sum.splits)

text \<open>An override that spells the directory of the runner, when that is gone, resets it: the detour that is
  said never to change the directory does.\<close>

lemma override_resets_cwd:
  assumes "run_command os px command opts r w = (out, r', w')" "\<not> blank command" "\<not> blank (ro_cwd opts)"
    "\<not> is_dir os (ro_cwd opts) w" "ro_cwd opts = rn_cwd r"
  shows "rn_cwd r' = rn_origin r"
  using assms unfolding run_command_def Let_def
  by (auto simp: recover_cwd_def split: if_splits prod.splits sum.splits)

text \<open>A run whose caller gives up before the deadline is killed and reports the exit code of success.\<close>

lemma cancelled_run_reads_as_success:
  assumes "run_command os px command opts r w = (Inr rr, r', w')"
    "\<And>sh script dir env ms w0. \<exists>out t w1. px_start px sh script dir env ms w0 = (Inr (out, Cancelled, t), w1)"
  shows "rr_exit_code rr = 0 \<and> \<not> rr_timed_out rr"
proof -
  from assms(1) obtain sh script dir env ms w0 chunks ending t w1 where
    "px_start px sh script dir env ms w0 = (Inr (chunks, ending, t), w1)"
    "rr_exit_code rr = exit_code_of ending" "rr_timed_out rr = (ending = DeadlineHit)"
    unfolding run_command_def Let_def by (auto split: if_splits prod.splits sum.splits)
  moreover obtain out' t' w1' where "px_start px sh script dir env ms w0 = (Inr (out', Cancelled, t'), w1')"
    using assms(2) by blast
  ultimately show ?thesis by (simp add: exit_code_of_def)
qed

subsection \<open>A run\<close>

text \<open>A system whose shell writes one line and succeeds.\<close>

definition demo_processes :: "unit processes" where
  "demo_processes = \<lparr>px_environ = (\<lambda>w. [''GIT_DIR=/h'', ''HOME=/root'', ''PWD=/old'']), px_shell_env = ''/bin/bash'', px_mode = (\<lambda>p w. 493),
     px_temp = (\<lambda>w. (None, w)), px_start = (\<lambda>sh script dir env ms w. (Inr ([''ok'', newline], ExitedWith 0, 3), w))\<rparr>"

definition demo_system :: "unit os" where
  "demo_system = \<lparr>os_home = [], os_cwd = Inr ''/w'', os_eval_symlinks = (\<lambda>p w. Inr p),
     os_stat = (\<lambda>p w. Inr \<lparr>fi_dir = True, fi_size = 0, fi_mtime = 0\<rparr>),
     os_lstat = (\<lambda>p w. Inr \<lparr>fi_dir = True, fi_size = 0, fi_mtime = 0\<rparr>), os_read_file = (\<lambda>p w. Inr []),
     os_read_dir = (\<lambda>p w. Inr []), os_tree = (\<lambda>p w. Inr []), os_mkdir_all = (\<lambda>p w. (None, w)),
     os_write_file = (\<lambda>p s w. (None, w)), os_remove = (\<lambda>p w. (None, w)), os_remove_all = (\<lambda>p w. (None, w)),
     os_rename = (\<lambda>p q w. (None, w)), os_copy_tree = (\<lambda>p q fi w. (None, w)), os_regexp = (\<lambda>s. Inl s), os_elapsed = (\<lambda>w. 0)\<rparr>"

definition demo_sys :: "unit sys" where
  "demo_sys = \<lparr>sy_runner = Some \<lparr>rn_cwd = ''/w'', rn_origin = ''/w'', rn_shell = ''/bin/bash''\<rparr>, sy_world = ()\<rparr>"

definition demo_exec :: "result \<times> unit sys" where
  "demo_exec = sys_dispatch demo_system demo_processes (\<lambda>a. []) (\<lambda>r. r) (load_allowlist []) None go_test_call demo_sys"

lemma demo_params: "decode_exec (object_of (salvage_command (params go_test_call)))
  = Some \<lparr>ep_command = ''go test ./...'', ep_cwd = [], ep_timeout_ms = 0, ep_sandbox = []\<rparr>"
proof -
  have "salvage_command (params go_test_call) = Some [''command'' \<mapsto> VStr ''go test ./...'']"
    by (simp add: salvage_command_def go_test_call_def is_string_def join_argv_def Let_def)
  then have "object_of (salvage_command (params go_test_call)) = [(''command'', VStr ''go test ./...'')]"
    by (simp add: object_of_def)
  moreover have "decode_exec [(''command'', VStr ''go test ./...'')]
      = Some \<lparr>ep_command = ''go test ./...'', ep_cwd = [], ep_timeout_ms = 0, ep_sandbox = []\<rparr>" by code_simp
  ultimately show ?thesis by simp
qed

lemma demo_permit: "permit (load_allowlist []) ''go test ./...'' = None"
  by code_simp

lemma demo_exec_ok: "res_ok (fst demo_exec)"
proof -
  have "\<not> blank ''go test ./...''" by code_simp
  moreover have "action go_test_call = ''exec''" by (simp add: go_test_call_def)
  ultimately show ?thesis
    by (simp add: demo_exec_def sys_dispatch_def sys_handle_def introspection_actions_def handle_exec_def Let_def demo_params
        demo_permit demo_sys_def run_in_def run_command_def demo_processes_def demo_system_def recover_cwd_def is_dir_def blank_def
        trim_space_def adopt_captured_cwd_def split: prod.split)
qed

theorem approved_exec_runs_judged_command_witness:
  "\<exists>r opts out r' w'. sy_runner demo_sys = Some r
     \<and> permit (load_allowlist []) (json_text (exec_command_of go_test_call)) = None
     \<and> run_command demo_system demo_processes (json_text (exec_command_of go_test_call)) opts r () = (out, r', w')
     \<and> (\<exists>rr. out = Inr rr)"
proof -
  have "fst (build_test_gate go_test_call safe_verdict)" by code_simp
  moreover have "sys_dispatch demo_system demo_processes (\<lambda>a. []) (\<lambda>r. r) (load_allowlist []) None go_test_call demo_sys
      = (fst demo_exec, snd demo_exec)" by (simp add: demo_exec_def)
  ultimately have "(snd demo_exec = demo_sys \<and> \<not> res_ok (fst demo_exec) \<and> res_class (fst demo_exec) = ClassUsage)
    \<or> (\<exists>r opts out r' w'. sy_runner demo_sys = Some r \<and> permit (load_allowlist []) (json_text (exec_command_of go_test_call)) = None
         \<and> run_command demo_system demo_processes (json_text (exec_command_of go_test_call)) opts r (sy_world demo_sys) = (out, r', w')
         \<and> snd demo_exec = \<lparr>sy_runner = Some r', sy_world = w'\<rparr> \<and> (res_ok (fst demo_exec) \<longleftrightarrow> (\<exists>rr. out = Inr rr)))"
    by (rule approved_exec_runs_judged_command)
  with demo_exec_ok show ?thesis by auto
qed

end
