(* ===== verification/Model_Wire.thy ===== *)
theory Model_Wire
  imports Agent_State Fs_Os
begin

text \<open>
  The model adapters of \<open>internal/model\<close>: the OpenAI-compatible one (\<open>openaicompat.go\<close>), the one of the
  Anthropic Messages API (\<open>anthropic.go\<close>), the scripted one (\<open>echo.go\<close>), the salvage of tool arguments
  (\<open>toolargs.go\<close>) and the known windows (\<open>window.go\<close>). JSON is a codec: the decoder of a text into a
  \<open>go_value\<close> (\<^const>\<open>Inl\<close> the text of its error), the text of the error for a value of an unfit type, and
  the encoder; the transport is a function over
  the world that gives the error of the call, or the status and the body or the error of reading it. A
  number of a reply is taken by its value, a repeated array replaces the earlier one.
\<close>

subsection \<open>Windows\<close>

definition is_anthropic_model_id :: "string \<Rightarrow> bool" where
  "is_anthropic_model_id i = (contains i ''claude'' \<or> contains i ''opus'' \<or> contains i ''sonnet'' \<or> contains i ''haiku'')"

definition known_context_window :: "string \<Rightarrow> int" where
  "known_context_window model_id =
     (let i = to_lower model_id
      in if contains i ''gemini'' then 1000000
         else if contains i ''deepseek'' then 163840
         else if is_anthropic_model_id i then (if contains i ''1m'' then 1000000 else 200000)
         else 0)"

subsection \<open>Decoding\<close>

record codec =
  jc_decode :: "string \<Rightarrow> string + go_value"
  jc_mismatch :: "go_value \<Rightarrow> string"
  jc_encode :: "go_value \<Rightarrow> string + string"

text \<open>A struct is filled from an object: a field that occurs again continues from what it holds.\<close>

fun decode_into :: "('a \<Rightarrow> (string \<times> go_value) list \<Rightarrow> 'a option) \<Rightarrow> 'a \<Rightarrow> go_value list \<Rightarrow> 'a option" where
  "decode_into f x [] = Some x"
| "decode_into f x (VNil # vs) = decode_into f x vs"
| "decode_into f x (VMap obj # vs) = (case f x obj of None \<Rightarrow> None | Some y \<Rightarrow> decode_into f y vs)"
| "decode_into f x (v # vs) = None"

fun as_list :: "(go_value \<Rightarrow> 'a option) \<Rightarrow> go_value \<Rightarrow> 'a list option" where
  "as_list f (VList vs) = those (map f vs)"
| "as_list f (VStrs ss) = those (map (\<lambda>s. f (VStr s)) ss)"
| "as_list f _ = None"

fun as_number :: "go_value \<Rightarrow> rat option" where
  "as_number (VNum q) = Some q"
| "as_number _ = None"

text \<open>A slice and a map: null empties them, a later object adds its keys to the map.\<close>

fun decode_slice :: "(go_value \<Rightarrow> 'a option) \<Rightarrow> 'a list \<Rightarrow> go_value list \<Rightarrow> 'a list option" where
  "decode_slice f x [] = Some x"
| "decode_slice f x (v # vs) =
     (if v = VNil then decode_slice f [] vs
      else (case as_list f v of None \<Rightarrow> None | Some y \<Rightarrow> decode_slice f y vs))"

fun decode_map :: "(string \<times> go_value) list \<Rightarrow> go_value list \<Rightarrow> (string \<times> go_value) list option" where
  "decode_map x [] = Some x"
| "decode_map x (VNil # vs) = decode_map [] vs"
| "decode_map x (VMap obj # vs) = decode_map (x @ obj) vs"
| "decode_map x (v # vs) = None"

text \<open>An object as a Go map: of a repeated key the last value stays; null is the nil map.\<close>

definition go_map :: "(string \<times> go_value) list \<Rightarrow> string \<rightharpoonup> go_value" where
  "go_map obj = map_of (rev obj)"

subsection \<open>Tool arguments\<close>

text \<open>The loop of \<open>firstBalancedJSONObject\<close> behind position \<open>i\<close>.\<close>

fun first_scan :: "string \<Rightarrow> nat \<Rightarrow> nat \<Rightarrow> nat option \<Rightarrow> bool \<Rightarrow> bool \<Rightarrow> string \<Rightarrow> string" where
  "first_scan s i depth start in_str esc [] = []"
| "first_scan s i depth start in_str esc (ch # rest) =
     (if in_str then
        (if esc then first_scan s (Suc i) depth start True False rest
         else if ch = escape_ch then first_scan s (Suc i) depth start True True rest
         else if ch = quote_ch then first_scan s (Suc i) depth start False esc rest
         else first_scan s (Suc i) depth start True esc rest)
      else if ch = quote_ch then first_scan s (Suc i) depth start True esc rest
      else if ch = CHR ''{'' then first_scan s (Suc i) (depth + 1) (if depth = 0 then Some i else start) False esc rest
      else if ch = CHR ''}'' \<and> depth > 0 then
        (case start of
           Some st \<Rightarrow> if depth - 1 = 0 then take (Suc i - st) (drop st s)
             else first_scan s (Suc i) (depth - 1) start False esc rest
         | None \<Rightarrow> first_scan s (Suc i) (depth - 1) start False esc rest)
      else first_scan s (Suc i) depth start False esc rest)"

definition first_balanced_json_object :: "string \<Rightarrow> string" where
  "first_balanced_json_object s = first_scan s 0 0 None False False s"

definition salvage_tool_args :: "(string \<Rightarrow> bool) \<Rightarrow> string \<Rightarrow> string option" where
  "salvage_tool_args valid raw =
     (let cand = first_balanced_json_object raw
      in if cand = [] then None
         else if valid cand then Some cand
         else if \<not> contains cand [quote_ch] \<and> valid (map (\<lambda>c. if c = CHR 0x27 then quote_ch else c) cand)
         then Some (map (\<lambda>c. if c = CHR 0x27 then quote_ch else c) cand)
         else None)"

text \<open>The \<open>params\<close> field, \<^const>\<open>None\<close> when it is absent: an object, nothing, or an object written as a
  string.\<close>

definition decode_params_field :: "codec \<Rightarrow> go_value option \<Rightarrow> string + (string \<rightharpoonup> go_value) option" where
  "decode_params_field j raw =
     (case raw of
        None \<Rightarrow> Inr None
      | Some VNil \<Rightarrow> Inr None
      | Some (VMap obj) \<Rightarrow> Inr (Some (go_map obj))
      | Some (VStr s) \<Rightarrow>
          if blank s then Inr None
          else (case jc_decode j s of
                  Inl e \<Rightarrow> Inl (''params arrived as a string that is not a JSON object: '' @ e)
                | Inr VNil \<Rightarrow> Inr None
                | Inr (VMap obj) \<Rightarrow> Inr (Some (go_map obj))
                | Inr v \<Rightarrow> Inl (''params arrived as a string that is not a JSON object: '' @ jc_mismatch j v))
      | Some v \<Rightarrow> Inl (jc_mismatch j v))"

record tool_args =
  ta_action :: string
  ta_params :: "go_value option"
  ta_rationale :: string

definition last_value :: "string \<Rightarrow> (string \<times> go_value) list \<Rightarrow> go_value option" where
  "last_value name obj = (case field_values name obj of [] \<Rightarrow> None | vs \<Rightarrow> Some (last vs))"

definition no_args :: tool_args where
  "no_args = \<lparr>ta_action = [], ta_params = None, ta_rationale = []\<rparr>"

text \<open>\<open>json.Unmarshal\<close> into the struct of the arguments.\<close>

definition decode_args :: "codec \<Rightarrow> string \<Rightarrow> string + tool_args" where
  "decode_args j s =
     (case jc_decode j s of
        Inl e \<Rightarrow> Inl e
      | Inr VNil \<Rightarrow> Inr no_args
      | Inr (VMap obj) \<Rightarrow>
          (case (string_field ''action'' obj, string_field ''rationale'' obj) of
             (Some a, Some rat) \<Rightarrow> Inr \<lparr>ta_action = a, ta_params = last_value ''params'' obj, ta_rationale = rat\<rparr>
           | _ \<Rightarrow> Inl (jc_mismatch j (VMap obj)))
      | Inr v \<Rightarrow> Inl (jc_mismatch j v))"

definition is_valid :: "codec \<Rightarrow> string \<Rightarrow> bool" where
  "is_valid j s = (case jc_decode j s of Inl e \<Rightarrow> False | Inr v \<Rightarrow> True)"

definition read_args :: "codec \<Rightarrow> string \<Rightarrow> string + tool_args" where
  "read_args j raw =
     (if raw = [] then Inr no_args
      else (case decode_args j raw of
              Inr a \<Rightarrow> Inr a
            | Inl e \<Rightarrow> (case salvage_tool_args (is_valid j) raw of None \<Rightarrow> Inl e | Some t \<Rightarrow> decode_args j t)))"

definition wrapped :: "string \<Rightarrow> sentinel \<Rightarrow> go_error" where
  "wrapped t snt = \<lparr>err_wraps = [snt], err_text = t\<rparr>"

definition plain_error :: "string \<Rightarrow> go_error" where
  "plain_error t = \<lparr>err_wraps = [], err_text = t\<rparr>"

definition prefixed :: "string \<Rightarrow> go_error \<Rightarrow> go_error" where
  "prefixed t e = e\<lparr>err_text := t @ err_text e\<rparr>"

definition malformed_text :: string where
  "malformed_text = '': model emitted a malformed tool call''"

record oac_tool_call =
  oc_id :: string
  oc_name :: string
  oc_arguments :: string

fun to_tool_calls :: "codec \<Rightarrow> oac_tool_call list \<Rightarrow> go_error + call list" where
  "to_tool_calls j [] = Inr []"
| "to_tool_calls j (w # ws) =
     (case read_args j (oc_arguments w) of
        Inl e \<Rightarrow> Inl (wrapped (''decode tool arguments for '' @ go_quote (oc_name w) @ '' ('' @ e @ '')'' @ malformed_text) ErrMalformedToolCall)
      | Inr args \<Rightarrow>
          (case decode_params_field j (ta_params args) of
             Inl e \<Rightarrow> Inl (wrapped (''decode tool params for '' @ go_quote (oc_name w) @ '' ('' @ e @ '')'' @ malformed_text) ErrMalformedToolCall)
           | Inr ps \<Rightarrow>
               (case to_tool_calls j ws of
                  Inl e \<Rightarrow> Inl e
                | Inr cs \<Rightarrow> Inr (\<lparr>call_id = oc_id w, surface = oc_name w, action = ta_action args, params = ps,
                    rationale = ta_rationale args\<rparr> # cs))))"

subsection \<open>The envelope of a call\<close>

definition tool_envelope :: "call \<Rightarrow> (string \<times> go_value) list" where
  "tool_envelope tc =
     [(''action'', VStr (action tc))]
     @ (case params tc of None \<Rightarrow> [] | Some p \<Rightarrow> [(''params'', VMap (object_of (Some p)))])
     @ (if rationale tc \<noteq> [] then [(''rationale'', VStr (rationale tc))] else [])"

definition encode_args :: "codec \<Rightarrow> call \<Rightarrow> string" where
  "encode_args j tc = (case jc_encode j (VMap (tool_envelope tc)) of Inl e \<Rightarrow> ''{}'' | Inr s \<Rightarrow> s)"

subsection \<open>The transport\<close>

record http_reply =
  hr_status :: int
  hr_body :: "go_error + string"

record http_request =
  rq_url :: string
  rq_key :: string
  rq_payload :: string

text \<open>A request may fail to be built, to be answered, or to be read.\<close>

datatype http_end = NotBuilt go_error | NotAnswered go_error | Replied http_reply

type_synonym 'w http = "http_request \<Rightarrow> 'w \<Rightarrow> http_end \<times> 'w"

definition ok_status :: "int \<Rightarrow> bool" where
  "ok_status st = (200 \<le> st \<and> st < 300)"

text \<open>What both adapters make of a reply with another status.\<close>

definition status_error :: "string \<Rightarrow> int \<Rightarrow> string \<Rightarrow> go_error" where
  "status_error model_id st body =
     (if looks_like_context_overflow st body
      then wrapped (''model '' @ go_quote model_id @ '' context overflow (status '' @ itoa st @ ''): '' @ body @ '': model context window exceeded'')
             ErrContextOverflow
      else if looks_like_rate_limit st
      then wrapped (''model '' @ go_quote model_id @ '' rate-limited (status '' @ itoa st @ ''): '' @ body @ '': model provider rate-limited the request'')
             ErrRateLimit
      else plain_error (''model '' @ go_quote model_id @ '' returned status '' @ itoa st @ '': '' @ body))"

record tool_spec =
  ts_name :: string
  ts_description :: string
  ts_schema :: go_value

text \<open>The exchange of both adapters: marshal, send, read, and hand on a reply of success.\<close>

definition exchange ::
  "codec \<Rightarrow> 'w http \<Rightarrow> string \<Rightarrow> string \<Rightarrow> string \<Rightarrow> go_value \<Rightarrow> 'w \<Rightarrow> (go_error + string) \<times> 'w" where
  "exchange j http model_id url key body w =
     (case jc_encode j body of
        Inl e \<Rightarrow> (Inl (plain_error (''marshal request: '' @ e)), w)
      | Inr raw \<Rightarrow>
          (case http \<lparr>rq_url = url, rq_key = key, rq_payload = raw\<rparr> w of
             (NotBuilt e, w1) \<Rightarrow> (Inl (prefixed ''build request: '' e), w1)
           | (NotAnswered e, w1) \<Rightarrow> (Inl (prefixed ''call model: '' e), w1)
           | (Replied rep, w1) \<Rightarrow>
               (case hr_body rep of
                  Inl e \<Rightarrow> (Inl (prefixed ''read response: '' e), w1)
                | Inr data \<Rightarrow>
                    if ok_status (hr_status rep) then (Inr data, w1)
                    else (Inl (status_error model_id (hr_status rep) data), w1))))"

text \<open>A reply with the reason the turn stopped.\<close>

datatype stop_reason = StopEndTurn | StopToolUse

type_synonym reply = "response \<times> stop_reason"

definition cost_free :: cost_usage where
  "cost_free = \<lparr>cu_input = 0, cu_cached = 0, cu_cache_write = 0, cu_output = 0, cu_provider_usd = 0, cu_reported = False\<rparr>"

subsection \<open>The OpenAI-compatible adapter\<close>

record oac =
  oa_model :: string
  oa_base_url :: string
  oa_api_key :: string
  oa_require_key :: bool
  oa_usage :: bool
  oa_max_tokens :: int
  oa_window :: int
  oa_timeout :: int

definition oac_default_timeout :: int where "oac_default_timeout = 300"
definition oac_default_max_tokens :: int where "oac_default_max_tokens = 4096"

definition with_oac_key :: "string \<Rightarrow> oac \<Rightarrow> oac" where "with_oac_key k a = a\<lparr>oa_api_key := k\<rparr>"
definition with_oac_require_key :: "oac \<Rightarrow> oac" where "with_oac_require_key a = a\<lparr>oa_require_key := True\<rparr>"
definition with_oac_usage :: "oac \<Rightarrow> oac" where "with_oac_usage a = a\<lparr>oa_usage := True\<rparr>"
definition with_oac_timeout :: "int \<Rightarrow> oac \<Rightarrow> oac" where
  "with_oac_timeout d a = (if d > 0 then a\<lparr>oa_timeout := d\<rparr> else a)"
definition with_oac_max_tokens :: "int \<Rightarrow> oac \<Rightarrow> oac" where "with_oac_max_tokens n a = a\<lparr>oa_max_tokens := n\<rparr>"
definition with_oac_window :: "int \<Rightarrow> oac \<Rightarrow> oac" where "with_oac_window n a = a\<lparr>oa_window := n\<rparr>"

definition trim_slashes :: "string \<Rightarrow> string" where
  "trim_slashes s = rev (dropWhile (\<lambda>c. c = CHR ''/'') (rev s))"

definition new_oac :: "string \<Rightarrow> string \<Rightarrow> (oac \<Rightarrow> oac) list \<Rightarrow> oac" where
  "new_oac model_id url opts = fold (\<lambda>opt. opt) opts
     \<lparr>oa_model = model_id, oa_base_url = trim_slashes url, oa_api_key = [], oa_require_key = False, oa_usage = False,
      oa_max_tokens = oac_default_max_tokens, oa_window = 0, oa_timeout = oac_default_timeout\<rparr>"

definition oac_available :: "oac \<Rightarrow> bool" where
  "oac_available a = (if oa_base_url a = [] then False else \<not> oa_require_key a \<or> oa_api_key a \<noteq> [])"

text \<open>The models an endpoint lists, each with its identifier and loaded context.\<close>

fun probe_models :: "string \<Rightarrow> int \<Rightarrow> (string \<times> int) list \<Rightarrow> int option" where
  "probe_models model_id spare [] = (if spare > 0 then Some spare else None)"
| "probe_models model_id spare ((i, n) # ms) =
     (if n \<le> 0 then probe_models model_id spare ms
      else if i = model_id then Some n
      else probe_models model_id (if spare = 0 then n else spare) ms)"

definition oac_context_window :: "oac \<Rightarrow> (string \<times> int) list option \<Rightarrow> int option" where
  "oac_context_window a listed =
     (case Option.bind listed (probe_models (oa_model a) 0) of
        Some n \<Rightarrow> Some n
      | None \<Rightarrow> if oa_window a > 0 then Some (oa_window a) else None)"

definition nonempty_field :: "string \<Rightarrow> string \<Rightarrow> (string \<times> go_value) list" where
  "nonempty_field k s = (if s = [] then [] else [(k, VStr s)])"

definition oac_call :: "codec \<Rightarrow> call \<Rightarrow> go_value" where
  "oac_call j tc = VMap [(''id'', VStr (call_id tc)), (''type'', VStr ''function''),
     (''function'', VMap [(''name'', VStr (surface tc)), (''arguments'', VStr (encode_args j tc))])]"

definition oac_message :: "codec \<Rightarrow> chat_message \<Rightarrow> go_value" where
  "oac_message j m =
     VMap ([(''role'', VStr (role_name (m_role m))), (''content'', VStr (m_content m))]
       @ nonempty_field ''tool_call_id'' (m_tool_call_id m)
       @ (if m_tool_calls m = [] then [] else [(''tool_calls'', VList (map (oac_call j) (m_tool_calls m)))]))"

definition oac_tool :: "tool_spec \<Rightarrow> go_value" where
  "oac_tool t = VMap [(''type'', VStr ''function''),
     (''function'', VMap [(''name'', VStr (ts_name t)), (''description'', VStr (ts_description t)), (''parameters'', ts_schema t)])]"

definition oac_request :: "codec \<Rightarrow> oac \<Rightarrow> chat_message list \<Rightarrow> tool_spec list \<Rightarrow> go_value" where
  "oac_request j a ms ts =
     VMap ([(''model'', VStr (oa_model a)), (''messages'', VList (map (oac_message j) ms))]
       @ (if ts = [] then [] else [(''tools'', VList (map oac_tool ts))])
       @ (if oa_usage a then [(''usage'', VMap [(''include'', VBool True)])] else [])
       @ (if oa_max_tokens a = 0 then [] else [(''max_tokens'', VNum (of_int (oa_max_tokens a)))]))"

text \<open>The reply.\<close>

record oac_choice =
  ch_content :: string
  ch_calls :: "oac_tool_call list"
  ch_finish :: string

record oac_usage =
  ou_prompt :: int
  ou_completion :: int
  ou_cost :: "rat option"
  ou_cached :: int

abbreviation str_from :: "string \<Rightarrow> string \<Rightarrow> (string \<times> go_value) list \<Rightarrow> string option" where
  "str_from x name obj \<equiv> decode_values as_string x (field_values name obj)"

abbreviation int_from :: "int \<Rightarrow> string \<Rightarrow> (string \<times> go_value) list \<Rightarrow> int option" where
  "int_from x name obj \<equiv> decode_values as_int x (field_values name obj)"

definition decode_function :: "oac_tool_call \<Rightarrow> (string \<times> go_value) list \<Rightarrow> oac_tool_call option" where
  "decode_function c obj =
     (case (str_from (oc_name c) ''name'' obj, str_from (oc_arguments c) ''arguments'' obj) of
        (Some n, Some a) \<Rightarrow> Some (c\<lparr>oc_name := n, oc_arguments := a\<rparr>) | _ \<Rightarrow> None)"

definition decode_tool_call :: "oac_tool_call \<Rightarrow> (string \<times> go_value) list \<Rightarrow> oac_tool_call option" where
  "decode_tool_call c obj =
     (case (str_from (oc_id c) ''id'' obj, string_field ''type'' obj, decode_into decode_function c (field_values ''function'' obj)) of
        (Some i, Some t, Some c1) \<Rightarrow> Some (c1\<lparr>oc_id := i\<rparr>) | _ \<Rightarrow> None)"

definition decode_message :: "oac_choice \<Rightarrow> (string \<times> go_value) list \<Rightarrow> oac_choice option" where
  "decode_message c obj =
     (case (string_field ''role'' obj, str_from (ch_content c) ''content'' obj, string_field ''tool_call_id'' obj,
            decode_slice (\<lambda>v. decode_into decode_tool_call \<lparr>oc_id = [], oc_name = [], oc_arguments = []\<rparr> [v])
              (ch_calls c) (field_values ''tool_calls'' obj)) of
        (Some r, Some t, Some i, Some cs) \<Rightarrow> Some (c\<lparr>ch_content := t, ch_calls := cs\<rparr>) | _ \<Rightarrow> None)"

definition decode_choice :: "oac_choice \<Rightarrow> (string \<times> go_value) list \<Rightarrow> oac_choice option" where
  "decode_choice c obj =
     (case (decode_into decode_message c (field_values ''message'' obj), str_from (ch_finish c) ''finish_reason'' obj) of
        (Some c1, Some f) \<Rightarrow> Some (c1\<lparr>ch_finish := f\<rparr>) | _ \<Rightarrow> None)"

definition decode_details :: "int \<Rightarrow> (string \<times> go_value) list \<Rightarrow> int option" where
  "decode_details n obj = int_from n ''cached_tokens'' obj"

definition decode_oac_usage :: "oac_usage \<Rightarrow> (string \<times> go_value) list \<Rightarrow> oac_usage option" where
  "decode_oac_usage u obj =
     (case (int_from (ou_prompt u) ''prompt_tokens'' obj, int_from (ou_completion u) ''completion_tokens'' obj,
            decode_pointer as_number (ou_cost u) (field_values ''cost'' obj),
            decode_into decode_details (ou_cached u) (field_values ''prompt_tokens_details'' obj)) of
        (Some p, Some c, Some k, Some n) \<Rightarrow> Some \<lparr>ou_prompt = p, ou_completion = c, ou_cost = k, ou_cached = n\<rparr> | _ \<Rightarrow> None)"

definition decode_oac_response ::
  "oac_choice list \<times> oac_usage \<Rightarrow> (string \<times> go_value) list \<Rightarrow> (oac_choice list \<times> oac_usage) option" where
  "decode_oac_response st obj =
     (case (decode_slice (\<lambda>v. decode_into decode_choice \<lparr>ch_content = [], ch_calls = [], ch_finish = []\<rparr> [v])
              (fst st) (field_values ''choices'' obj),
            decode_into decode_oac_usage (snd st) (field_values ''usage'' obj)) of
        (Some cs, Some u) \<Rightarrow> Some (cs, u) | _ \<Rightarrow> None)"

definition stop_of_finish :: "string \<Rightarrow> stop_reason" where
  "stop_of_finish finish = (if finish = ''tool_calls'' then StopToolUse else StopEndTurn)"

definition oac_usage_of :: "oac_usage \<Rightarrow> cost_usage" where
  "oac_usage_of u = \<lparr>cu_input = ou_prompt u, cu_cached = ou_cached u, cu_cache_write = 0, cu_output = ou_completion u,
     cu_provider_usd = (case ou_cost u of None \<Rightarrow> 0 | Some k \<Rightarrow> k), cu_reported = (ou_cost u \<noteq> None)\<rparr>"

definition read_oac_reply :: "codec \<Rightarrow> oac \<Rightarrow> string \<Rightarrow> go_error + reply" where
  "read_oac_reply j a data =
     (case jc_decode j data of
        Inl e \<Rightarrow> Inl (plain_error (''decode response: '' @ e))
      | Inr v \<Rightarrow>
          (case decode_into decode_oac_response ([], \<lparr>ou_prompt = 0, ou_completion = 0, ou_cost = None, ou_cached = 0\<rparr>) [v] of
             None \<Rightarrow> Inl (plain_error (''decode response: '' @ jc_mismatch j v))
           | Some ([], u) \<Rightarrow> Inl (plain_error (''model '' @ go_quote (oa_model a) @ '' returned no choices''))
           | Some (c # cs, u) \<Rightarrow>
               (case to_tool_calls j (ch_calls c) of
                  Inl e \<Rightarrow> Inl e
                | Inr calls \<Rightarrow> Inr (\<lparr>rs_model = oa_model a, rs_text = ch_content c, rs_calls = calls, rs_usage = oac_usage_of u\<rparr>,
                    stop_of_finish (ch_finish c)))))"

definition oac_complete ::
  "codec \<Rightarrow> 'w http \<Rightarrow> oac \<Rightarrow> chat_message list \<Rightarrow> tool_spec list \<Rightarrow> 'w \<Rightarrow> (go_error + reply) \<times> 'w" where
  "oac_complete j http a ms ts w =
     (case exchange j http (oa_model a) (oa_base_url a @ ''/chat/completions'') (oa_api_key a) (oac_request j a ms ts) w of
        (Inl e, w1) \<Rightarrow> (Inl e, w1)
      | (Inr data, w1) \<Rightarrow> (read_oac_reply j a data, w1))"

subsection \<open>The adapter of the Messages API\<close>

record anthropic =
  an_model :: string
  an_base_url :: string
  an_api_key :: string
  an_max_tokens :: int
  an_window :: int

definition anthropic_default_base_url :: string where "anthropic_default_base_url = ''https://api.anthropic.com''"
definition anthropic_default_max_tokens :: int where "anthropic_default_max_tokens = 4096"

definition with_anthropic_key :: "string \<Rightarrow> anthropic \<Rightarrow> anthropic" where "with_anthropic_key k a = a\<lparr>an_api_key := k\<rparr>"
definition with_anthropic_base_url :: "string \<Rightarrow> anthropic \<Rightarrow> anthropic" where
  "with_anthropic_base_url u a = a\<lparr>an_base_url := trim_slashes u\<rparr>"
definition with_anthropic_max_tokens :: "int \<Rightarrow> anthropic \<Rightarrow> anthropic" where
  "with_anthropic_max_tokens n a = (if n > 0 then a\<lparr>an_max_tokens := n\<rparr> else a)"
definition with_anthropic_window :: "int \<Rightarrow> anthropic \<Rightarrow> anthropic" where
  "with_anthropic_window n a = a\<lparr>an_window := n\<rparr>"

definition new_anthropic :: "string \<Rightarrow> (anthropic \<Rightarrow> anthropic) list \<Rightarrow> anthropic" where
  "new_anthropic model_id opts = fold (\<lambda>opt. opt) opts
     \<lparr>an_model = model_id, an_base_url = anthropic_default_base_url, an_api_key = [],
      an_max_tokens = anthropic_default_max_tokens, an_window = 0\<rparr>"

definition anthropic_available :: "anthropic \<Rightarrow> bool" where
  "anthropic_available a = (an_api_key a \<noteq> [])"

definition anthropic_context_window :: "anthropic \<Rightarrow> int option" where
  "anthropic_context_window a =
     (if an_window a > 0 then Some (an_window a)
      else if known_context_window (an_model a) > 0 then Some (known_context_window (an_model a)) else None)"

record ant_block =
  ab_type :: string
  ab_text :: string
  ab_id :: string
  ab_name :: string
  ab_input :: "(string \<times> go_value) list"
  ab_tool_use_id :: string
  ab_content :: string

definition ant_block_of :: "string \<Rightarrow> ant_block" where
  "ant_block_of t = \<lparr>ab_type = t, ab_text = [], ab_id = [], ab_name = [], ab_input = [], ab_tool_use_id = [], ab_content = []\<rparr>"

definition text_block :: "string \<Rightarrow> ant_block" where
  "text_block s = (ant_block_of ''text'')\<lparr>ab_text := s\<rparr>"

definition use_block :: "call \<Rightarrow> ant_block" where
  "use_block tc = (ant_block_of ''tool_use'')\<lparr>ab_id := call_id tc, ab_name := surface tc, ab_input := tool_envelope tc\<rparr>"

definition result_block :: "chat_message \<Rightarrow> ant_block" where
  "result_block m = (ant_block_of ''tool_result'')\<lparr>ab_tool_use_id := m_tool_call_id m, ab_content := m_content m\<rparr>"

record ant_message =
  am_role :: string
  am_blocks :: "ant_block list"

definition assistant_blocks :: "chat_message \<Rightarrow> ant_block list" where
  "assistant_blocks m = (if m_content m \<noteq> [] then [text_block (m_content m)] else []) @ map use_block (m_tool_calls m)"

text \<open>The system texts, and the messages with every run of tool results as one message of the user.\<close>

function split_messages :: "chat_message list \<Rightarrow> string list \<times> ant_message list" where
  "split_messages [] = ([], [])"
| "split_messages (m # ms) =
     (case m_role m of
        RoleSystem \<Rightarrow> (let (sys, out) = split_messages ms in (m_content m # sys, out))
      | RoleUser \<Rightarrow> (let (sys, out) = split_messages ms
                   in (sys, \<lparr>am_role = ''user'', am_blocks = [text_block (m_content m)]\<rparr> # out))
      | RoleAssistant \<Rightarrow> (let (sys, out) = split_messages ms
                   in (sys, if assistant_blocks m = [] then out
                            else \<lparr>am_role = ''assistant'', am_blocks = assistant_blocks m\<rparr> # out))
      | RoleTool \<Rightarrow> (let (sys, out) = split_messages (dropWhile (\<lambda>x. m_role x = RoleTool) ms)
                   in (sys, \<lparr>am_role = ''user'', am_blocks = map result_block (m # takeWhile (\<lambda>x. m_role x = RoleTool) ms)\<rparr> # out)))"
  by pat_completeness auto
termination
  by (relation "measure length") (auto simp: le_imp_less_Suc length_dropWhile_le)

definition split_anthropic_messages :: "chat_message list \<Rightarrow> string \<times> ant_message list" where
  "split_anthropic_messages ms = (case split_messages ms of (sys, out) \<Rightarrow> (join (newline @ newline) sys, out))"

definition block_value :: "ant_block \<Rightarrow> go_value" where
  "block_value b =
     VMap ([(''type'', VStr (ab_type b))] @ nonempty_field ''text'' (ab_text b) @ nonempty_field ''id'' (ab_id b)
       @ nonempty_field ''name'' (ab_name b) @ (if ab_input b = [] then [] else [(''input'', VMap (ab_input b))])
       @ nonempty_field ''tool_use_id'' (ab_tool_use_id b) @ nonempty_field ''content'' (ab_content b))"

definition message_value :: "ant_message \<Rightarrow> go_value" where
  "message_value m = VMap [(''role'', VStr (am_role m)), (''content'', VList (map block_value (am_blocks m)))]"

definition ant_tool :: "tool_spec \<Rightarrow> go_value" where
  "ant_tool t = VMap [(''name'', VStr (ts_name t)), (''description'', VStr (ts_description t)), (''input_schema'', ts_schema t)]"

definition ant_request :: "anthropic \<Rightarrow> chat_message list \<Rightarrow> tool_spec list \<Rightarrow> go_value" where
  "ant_request a ms ts =
     (let (system, out) = split_anthropic_messages ms
      in VMap ([(''model'', VStr (an_model a)), (''max_tokens'', VNum (of_int (an_max_tokens a)))]
           @ nonempty_field ''system'' system @ [(''messages'', VList (map message_value out))]
           @ (if ts = [] then [] else [(''tools'', VList (map ant_tool ts))])))"

definition call_from_anthropic_block :: "ant_block \<Rightarrow> call" where
  "call_from_anthropic_block b =
     (let p = go_map (ab_input b)
      in \<lparr>call_id = ab_id b, surface = ab_name b,
          action = (case p ''action'' of Some (VStr s) \<Rightarrow> s | _ \<Rightarrow> []),
          params = (case p ''params'' of Some (VMap obj) \<Rightarrow> Some (go_map obj) | _ \<Rightarrow> None),
          rationale = (case p ''rationale'' of Some (VStr s) \<Rightarrow> s | _ \<Rightarrow> [])\<rparr>)"

text \<open>The reply.\<close>

record ant_usage =
  au_input :: int
  au_output :: int
  au_creation :: int
  au_read :: int

definition decode_block :: "ant_block \<Rightarrow> (string \<times> go_value) list \<Rightarrow> ant_block option" where
  "decode_block b obj =
     (case (str_from (ab_type b) ''type'' obj, str_from (ab_text b) ''text'' obj, str_from (ab_id b) ''id'' obj, str_from (ab_name b) ''name'' obj,
            decode_map (ab_input b) (field_values ''input'' obj), str_from (ab_tool_use_id b) ''tool_use_id'' obj,
            str_from (ab_content b) ''content'' obj) of
        (Some t, Some x, Some i, Some n, Some p, Some u, Some c) \<Rightarrow>
          Some \<lparr>ab_type = t, ab_text = x, ab_id = i, ab_name = n, ab_input = p, ab_tool_use_id = u, ab_content = c\<rparr>
      | _ \<Rightarrow> None)"

definition decode_ant_usage :: "ant_usage \<Rightarrow> (string \<times> go_value) list \<Rightarrow> ant_usage option" where
  "decode_ant_usage u obj =
     (case (int_from (au_input u) ''input_tokens'' obj, int_from (au_output u) ''output_tokens'' obj,
            int_from (au_creation u) ''cache_creation_input_tokens'' obj, int_from (au_read u) ''cache_read_input_tokens'' obj) of
        (Some i, Some n, Some c, Some r) \<Rightarrow> Some \<lparr>au_input = i, au_output = n, au_creation = c, au_read = r\<rparr> | _ \<Rightarrow> None)"

record ant_response =
  ar_content :: "ant_block list"
  ar_stop :: string
  ar_usage :: ant_usage

definition decode_ant_response :: "ant_response \<Rightarrow> (string \<times> go_value) list \<Rightarrow> ant_response option" where
  "decode_ant_response r obj =
     (case (decode_slice (\<lambda>v. decode_into decode_block (ant_block_of []) [v]) (ar_content r) (field_values ''content'' obj),
            str_from (ar_stop r) ''stop_reason'' obj, decode_into decode_ant_usage (ar_usage r) (field_values ''usage'' obj)) of
        (Some bs, Some s, Some u) \<Rightarrow> Some \<lparr>ar_content = bs, ar_stop = s, ar_usage = u\<rparr> | _ \<Rightarrow> None)"

definition ant_usage_of :: "ant_usage \<Rightarrow> cost_usage" where
  "ant_usage_of u = \<lparr>cu_input = au_input u + au_read u + au_creation u, cu_cached = au_read u, cu_cache_write = au_creation u,
     cu_output = au_output u, cu_provider_usd = 0, cu_reported = False\<rparr>"

definition read_ant_reply :: "codec \<Rightarrow> anthropic \<Rightarrow> string \<Rightarrow> go_error + reply" where
  "read_ant_reply j a data =
     (case jc_decode j data of
        Inl e \<Rightarrow> Inl (plain_error (''decode response: '' @ e))
      | Inr v \<Rightarrow>
          (case decode_into decode_ant_response
                  \<lparr>ar_content = [], ar_stop = [], ar_usage = \<lparr>au_input = 0, au_output = 0, au_creation = 0, au_read = 0\<rparr>\<rparr> [v] of
             None \<Rightarrow> Inl (plain_error (''decode response: '' @ jc_mismatch j v))
           | Some r \<Rightarrow>
               Inr (\<lparr>rs_model = an_model a, rs_text = concat (map ab_text (filter (\<lambda>b. ab_type b = ''text'') (ar_content r))),
                     rs_calls = map call_from_anthropic_block (filter (\<lambda>b. ab_type b = ''tool_use'') (ar_content r)),
                     rs_usage = ant_usage_of (ar_usage r)\<rparr>,
                    if ar_stop r = ''tool_use'' then StopToolUse else StopEndTurn)))"

definition anthropic_complete ::
  "codec \<Rightarrow> 'w http \<Rightarrow> anthropic \<Rightarrow> chat_message list \<Rightarrow> tool_spec list \<Rightarrow> 'w \<Rightarrow> (go_error + reply) \<times> 'w" where
  "anthropic_complete j http a ms ts w =
     (case exchange j http (an_model a) (an_base_url a @ ''/v1/messages'') (an_api_key a) (ant_request a ms ts) w of
        (Inl e, w1) \<Rightarrow> (Inl e, w1)
      | (Inr data, w1) \<Rightarrow> (read_ant_reply j a data, w1))"

subsection \<open>The scripted adapter\<close>

record echo =
  ec_model :: string
  ec_script :: "reply list"
  ec_next :: nat

definition last_user_content :: "chat_message list \<Rightarrow> string" where
  "last_user_content ms = (case find (\<lambda>m. m_role m = RoleUser) (rev ms) of None \<Rightarrow> [] | Some m \<Rightarrow> m_content m)"

definition echo_complete :: "chat_message list \<Rightarrow> echo \<Rightarrow> reply \<times> echo" where
  "echo_complete ms e =
     (if ec_next e < length (ec_script e)
      then (let (r, stop) = ec_script e ! ec_next e
            in ((if rs_model r = [] then r\<lparr>rs_model := ec_model e\<rparr> else r, stop), e\<lparr>ec_next := ec_next e + 1\<rparr>))
      else ((\<lparr>rs_model = ec_model e, rs_text = last_user_content ms, rs_calls = [], rs_usage = cost_free\<rparr>, StopEndTurn), e))"

end
