(* ===== verification/Wire_Props.thy ===== *)
theory Wire_Props
  imports Model_Wire Agent_Demo
begin

text \<open>
  Properties of the model adapters: the messages sent to the Messages API answer every tool use in the next
  message, an envelope decodes to the call it was made of, the salvage of arguments repairs only what the
  decoder rejects, and a reply of the server becomes the fault the agent loop recovers from.
\<close>

subsection \<open>Requests to the Messages API\<close>

definition uses_in :: "ant_message \<Rightarrow> string list" where
  "uses_in m = map ab_id (filter (\<lambda>b. ab_type b = ''tool_use'') (am_blocks m))"

definition results_in :: "ant_message \<Rightarrow> string list" where
  "results_in m = map ab_tool_use_id (filter (\<lambda>b. ab_type b = ''tool_result'') (am_blocks m))"

text \<open>What the API demands: every message answers exactly the tool uses of the one before, has content, and
  only assistants use tools.\<close>

fun api_paired :: "string list \<Rightarrow> ant_message list \<Rightarrow> bool" where
  "api_paired ps [] = (ps = [])"
| "api_paired ps (m # ms) =
     (results_in m = ps \<and> am_blocks m \<noteq> [] \<and> (uses_in m \<noteq> [] \<longrightarrow> am_role m = ''assistant'')
      \<and> (results_in m \<noteq> [] \<longrightarrow> am_role m = ''user'') \<and> api_paired (uses_in m) ms)"

lemma block_types [simp]:
  "ab_type (text_block s) = ''text''" "ab_type (use_block c) = ''tool_use''" "ab_type (result_block m) = ''tool_result''"
  "ab_id (use_block c) = call_id c" "ab_tool_use_id (result_block m) = m_tool_call_id m"
  by (simp_all add: text_block_def use_block_def result_block_def ant_block_of_def)

lemma assistant_uses:
  "map ab_id (filter (\<lambda>b. ab_type b = ''tool_use'') (assistant_blocks m)) = map call_id (m_tool_calls m)"
  "filter (\<lambda>b. ab_type b = ''tool_result'') (assistant_blocks m) = []"
  by (simp_all add: assistant_blocks_def filter_map o_def)

lemma paired_run:
  "paired_from (p # ps) (m # ms) \<Longrightarrow>
     map m_tool_call_id (m # takeWhile (\<lambda>x. m_role x = RoleTool) ms) = p # ps
     \<and> paired (dropWhile (\<lambda>x. m_role x = RoleTool) ms)"
proof (induction ps arbitrary: p m ms)
  case Nil
  then show ?case by (cases ms) auto
next
  case (Cons q ps)
  then show ?case by (cases ms) auto
qed

lemma split_paired: "paired_from ps ms \<Longrightarrow> api_paired ps (snd (split_messages ms))"
proof (induction ms arbitrary: ps rule: split_messages.induct)
  case 1
  then show ?case by (cases ps) auto
next
  case (2 m ms)
  show ?case
  proof (cases ps)
    case Nil
    with "2.prems" have p: "m_role m \<noteq> RoleTool"
      "paired_from (if m_role m = RoleAssistant then map call_id (m_tool_calls m) else []) ms" by simp_all
    show ?thesis
    proof (cases "m_role m")
      case RoleSystem
      have "api_paired [] (snd (split_messages ms))" using "2.IH"(1) RoleSystem p by simp
      with RoleSystem Nil show ?thesis by (cases "split_messages ms") simp
    next
      case RoleUser
      have "api_paired [] (snd (split_messages ms))" using "2.IH"(2) RoleUser p by simp
      with RoleUser Nil show ?thesis by (cases "split_messages ms") (simp add: uses_in_def results_in_def)
    next
      case RoleAssistant
      have a: "api_paired (map call_id (m_tool_calls m)) (snd (split_messages ms))" using "2.IH"(3) RoleAssistant p by simp
      show ?thesis
      proof (cases "assistant_blocks m = []")
        case True
        then have "m_tool_calls m = []" by (simp add: assistant_blocks_def)
        with a True RoleAssistant Nil show ?thesis by (cases "split_messages ms") simp
      next
        case False
        with a RoleAssistant Nil show ?thesis
          by (cases "split_messages ms") (simp add: uses_in_def results_in_def assistant_uses)
      qed
    next
      case RoleTool
      with p show ?thesis by simp
    qed
  next
    case (Cons q qs)
    with "2.prems" have t: "m_role m = RoleTool" by simp
    note run = paired_run [OF "2.prems" [unfolded Cons]]
    have "api_paired [] (snd (split_messages (dropWhile (\<lambda>x. m_role x = RoleTool) ms)))"
      using "2.IH"(4) t run by blast
    with t run Cons show ?thesis
      by (cases "split_messages (dropWhile (\<lambda>x. m_role x = RoleTool) ms)") (simp add: uses_in_def results_in_def filter_map o_def)
  qed
qed

text \<open>C35: Whenever a round of a turn calls the model of the Messages API, the messages it sends answer every tool
  use, exactly and in order, in the next message, which is the user's, and each message has a block: the pairing
  that the loop keeps survives the splitting, dropping and merging of the adapter. As for that pairing, the hooks leave
  transcript and calls alone, no answer of a model and no encoded result starts with a reminder marker, and the turn
  starts from a paired transcript in which no message that requests or answers a call starts so.\<close>

theorem anthropic_requests_answer_calls:
  assumes "tame_env e" "paired (l_transcript s)" "unmarked (l_transcript s)"
    "round_state e (begin_turn e prompt s) s1" "guard_phases e s1 = (None, s2)"
  shows "api_paired [] (snd (split_anthropic_messages (l_transcript s2)))"
proof -
  have th: "tame_hooks e" using assms(1) by (simp add: tame_env_def)
  have "well_paired (begin_turn e prompt s)"
    using begin_turn_keeps [OF th] assms(2,3) by (simp add: well_paired_def)
  from keeps_pairedD [OF guard_phases_keeps [OF th] assms(5) round_state_paired [OF assms(4,1) this]]
  have "paired (l_transcript s2)" by (simp add: well_paired_def)
  then have "api_paired [] (snd (split_messages (l_transcript s2)))" by (rule split_paired)
  then show ?thesis by (cases "split_messages (l_transcript s2)") (simp add: split_anthropic_messages_def)
qed

theorem anthropic_requests_answer_calls_witness:
  "\<exists>s2. guard_phases (done_env 0) (begin_turn (done_env 0) ''p'' (demo_agent [''floor''])) = (None, s2)
     \<and> api_paired [] (snd (split_anthropic_messages (l_transcript s2)))"
proof -
  let ?s = "begin_turn (done_env 0) ''p'' (demo_agent [''floor''])"
  obtain s2 where g: "guard_phases (done_env 0) ?s = (None, s2)"
    unfolding begin_done guards_done by blast
  have "paired (l_transcript (demo_agent [''floor'']))" "unmarked (l_transcript (demo_agent [''floor'']))"
    by (simp_all add: demo_agent_def fresh_agent_def)
  from anthropic_requests_answer_calls [OF done_env_calm(2) this first_round g] g show ?thesis by blast
qed

subsection \<open>Envelopes\<close>

lemma object_go_map: "finite (dom p) \<Longrightarrow> go_map (object_of (Some p)) = p"
proof -
  assume f: "finite (dom p)"
  let ?ks = "sorted_list_of_set (dom p)"
  have "map_of (map (\<lambda>k. (k, the (p k))) (rev ?ks)) k = p k" for k
    using f by (auto simp: map_of_map_restrict restrict_map_def domIff)
  then show ?thesis by (auto simp: go_map_def object_of_def rev_map)
qed

text \<open>A call whose parameters are a finite map survives the way through a tool-use block.\<close>

theorem block_roundtrip:
  assumes "\<And>p. params c = Some p \<Longrightarrow> finite (dom p)"
  shows "call_from_anthropic_block (use_block c) = c"
proof (cases "params c")
  case None
  then show ?thesis
    by (cases c) (simp add: call_from_anthropic_block_def use_block_def ant_block_of_def tool_envelope_def go_map_def Let_def)
next
  case (Some p)
  with assms have f: "map_of (rev (object_of (Some p))) = p" using object_go_map by (simp add: go_map_def)
  show ?thesis using Some
    by (cases c) (auto simp: call_from_anthropic_block_def use_block_def ant_block_of_def tool_envelope_def go_map_def Let_def f)
qed

lemma envelope_fields:
  "string_field ''action'' (tool_envelope c) = Some (json_text (action c))"
  "string_field ''rationale'' (tool_envelope c) = Some (json_text (rationale c))"
  "last_value ''params'' (tool_envelope c) = map_option (\<lambda>p. VMap (object_of (Some p))) (params c)"
proof -
  have k: "fold_key ''action'' = ''action''" "fold_key ''params'' = ''params''" "fold_key ''rationale'' = ''rationale''"
    by code_simp+
  show "string_field ''action'' (tool_envelope c) = Some (json_text (action c))"
    "string_field ''rationale'' (tool_envelope c) = Some (json_text (rationale c))"
    "last_value ''params'' (tool_envelope c) = map_option (\<lambda>p. VMap (object_of (Some p))) (params c)"
    by (auto simp: string_field_def field_values_def tool_envelope_def last_value_def k json_text_def split: option.splits)
qed

text \<open>The arguments that the adapter writes for a call decode, through a codec that reads its own text back, to
  that call.\<close>

theorem arguments_roundtrip:
  assumes "jc_encode j (VMap (tool_envelope c)) = Inr s" "jc_decode j s = Inr (VMap (tool_envelope c))" "s \<noteq> []"
    "\<And>p. params c = Some p \<Longrightarrow> finite (dom p)" "json_text (action c) = action c" "json_text (rationale c) = rationale c"
  shows "to_tool_calls j [\<lparr>oc_id = call_id c, oc_name = surface c, oc_arguments = encode_args j c\<rparr>] = Inr [c]"
proof -
  have "read_args j s = Inr \<lparr>ta_action = action c, ta_params = map_option (\<lambda>p. VMap (object_of (Some p))) (params c),
      ta_rationale = rationale c\<rparr>"
    using assms(2,3,5,6) by (simp add: read_args_def decode_args_def envelope_fields)
  moreover have "decode_params_field j (map_option (\<lambda>p. VMap (object_of (Some p))) (params c)) = Inr (params c)"
    using assms(4) object_go_map by (cases "params c") (simp_all add: decode_params_field_def)
  ultimately show ?thesis using assms(1) by (cases c) (simp add: encode_args_def)
qed

subsection \<open>Salvage\<close>

text \<open>The two copies of the scanner, of the adapters and of the agent loop, agree.\<close>

lemma first_scan_agrees:
  "first_scan s i d st q esc r = (case scan_objects s True i d st q esc r of [] \<Rightarrow> [] | x # _ \<Rightarrow> x)"
  by (induction s i d st q esc r rule: first_scan.induct) (auto split: option.splits)

theorem scanners_agree: "first_balanced_json_object s = first_balanced_object s"
  by (simp add: first_balanced_json_object_def first_balanced_object_def balanced_objects_def first_scan_agrees)

theorem salvage_is_valid:
  assumes "salvage_tool_args valid raw = Some t"
  shows "valid t \<and> (t = first_balanced_json_object raw \<or> CHR 0x22 \<notin> set (first_balanced_json_object raw))"
  using assms by (auto simp: salvage_tool_args_def Let_def contains_single quote_ch_def split: if_splits)

text \<open>Arguments that decode are taken as they are.\<close>

lemma salvage_not_needed: "raw \<noteq> [] \<Longrightarrow> decode_args j raw = Inr a \<Longrightarrow> read_args j raw = Inr a"
  by (simp add: read_args_def)

subsection \<open>Faults\<close>

theorem status_fault:
  "classify_fault (Some (status_error i st body)) =
     (if looks_like_context_overflow st body then FaultContextOverflow
      else if st = 429 \<or> st = 529 then FaultRateLimit else FaultNone)"
  by (simp add: status_error_def wrapped_def plain_error_def classify_fault_def looks_like_rate_limit_def is_timeout_def)

lemma malformed_calls: "to_tool_calls j ws = Inl err \<Longrightarrow> err_wraps err = [ErrMalformedToolCall]"
  by (induction ws) (auto simp: wrapped_def split: sum.splits)

lemma read_oac_reply_fault: "read_oac_reply j a data = Inl err \<Longrightarrow> err_wraps err = [] \<or> err_wraps err = [ErrMalformedToolCall]"
  unfolding read_oac_reply_def
  by (auto simp: plain_error_def dest: malformed_calls split: sum.splits option.splits list.splits)

lemma exchange_fault:
  assumes "exchange j http i url key body w = (Inl err, w')"
  obtains "classify_fault (Some err) \<in> {FaultNone, FaultContextOverflow, FaultRateLimit}"
  | raw err0 st where "http raw w = (NotBuilt err0, w') \<or> http raw w = (NotAnswered err0, w')
      \<or> http raw w = (Replied \<lparr>hr_status = st, hr_body = Inl err0\<rparr>, w')"
      "classify_fault (Some err) = classify_fault (Some err0)"
proof -
  have pre: "classify_fault (Some (prefixed t e0)) = classify_fault (Some e0)" for t e0
    by (simp add: prefixed_def classify_fault_def is_timeout_def)
  show ?thesis
  proof (cases "jc_encode j body")
    case (Inl e)
    with assms show ?thesis
      by (intro that(1)) (auto simp: exchange_def plain_error_def classify_fault_def is_timeout_def)
  next
    case (Inr raw)
    obtain res w1 where h: "http \<lparr>rq_url = url, rq_key = key, rq_payload = raw\<rparr> w = (res, w1)" by force
    show ?thesis
    proof (cases res)
      case (NotBuilt e)
      with assms Inr h show ?thesis by (intro that(2) [of _ e 0]) (auto simp: exchange_def pre)
    next
      case (NotAnswered e)
      with assms Inr h show ?thesis by (intro that(2) [of _ e 0]) (auto simp: exchange_def pre)
    next
      case (Replied rep)
      show ?thesis
      proof (cases "hr_body rep")
        case (Inl e)
        moreover obtain st where "rep = \<lparr>hr_status = st, hr_body = Inl e\<rparr>" using Inl by (cases rep) auto
        ultimately show ?thesis using assms Inr h Replied
          by (intro that(2) [of "\<lparr>rq_url = url, rq_key = key, rq_payload = raw\<rparr>" e st]) (auto simp: exchange_def pre)
      next
        case (Inr data)
        with assms \<open>jc_encode j body = Inr raw\<close> h Replied show ?thesis
          by (intro that(1)) (auto simp: exchange_def status_fault split: if_splits)
      qed
    qed
  qed
qed

text \<open>A transport error keeps its kind: a timeout of the call is a timeout of the adapter.\<close>

theorem oac_fault_kinds:
  assumes "oac_complete j http a ms ts w = (Inl err, w')"
  shows "classify_fault (Some err) \<in> {FaultNone, FaultContextOverflow, FaultRateLimit, FaultMalformedToolCall}
    \<or> (\<exists>raw err0 st. (http raw w = (NotBuilt err0, w') \<or> http raw w = (NotAnswered err0, w')
          \<or> http raw w = (Replied \<lparr>hr_status = st, hr_body = Inl err0\<rparr>, w'))
        \<and> classify_fault (Some err) = classify_fault (Some err0))"
proof -
  obtain out w1 where x: "exchange j http (oa_model a) (oa_base_url a @ ''/chat/completions'') (oa_api_key a)
      (oac_request j a ms ts) w = (out, w1)" by force
  show ?thesis
  proof (cases out)
    case (Inr data)
    with assms x have "read_oac_reply j a data = Inl err" by (simp add: oac_complete_def)
    from read_oac_reply_fault [OF this] show ?thesis by (auto simp: classify_fault_def is_timeout_def)
  next
    case (Inl e1)
    with assms x have "exchange j http (oa_model a) (oa_base_url a @ ''/chat/completions'') (oa_api_key a)
      (oac_request j a ms ts) w = (Inl err, w')" by (simp add: oac_complete_def)
    then show ?thesis by (rule exchange_fault) blast+
  qed
qed

text \<open>The input tokens that the adapters report hold the cached ones, when the server counts none negative.\<close>

lemma ant_usage_contains_cache:
  "0 \<le> au_input u \<Longrightarrow> 0 \<le> au_creation u \<Longrightarrow> 0 \<le> au_read u \<Longrightarrow>
     cu_cached (ant_usage_of u) + cu_cache_write (ant_usage_of u) \<le> cu_input (ant_usage_of u)"
  by (simp add: ant_usage_of_def)

end
