(* ===== verification/Skills.thy ===== *)
theory Skills
  imports Fs_Os Profile "HOL-Library.AList"
begin

text \<open>
  The skills that a session's system prompt carries, \<open>internal/skills/skills.go\<close> and \<open>embed.go\<close>: discovery
  in the embedded roots and in the tree on disk, selection by name, and the prompt within a budget, where a
  skill is written in full, by its core, or as a digest. A file tree is the list of its entries with a reader;
  a Go map is an association list without repeated keys.
\<close>

record skill =
  sk_name :: string
  sk_path :: string
  sk_description :: string
  sk_body :: string

record file_tree =
  ft_entries :: "string + (string \<times> bool) list"
  ft_read :: "string \<Rightarrow> string option"

subsection \<open>Reading a skill\<close>

definition first_heading :: "string \<Rightarrow> string" where
  "first_heading body =
     (case find (\<lambda>s. s \<noteq> []) (map trim_space (split_char (CHR 0x0A) body)) of
        None \<Rightarrow> []
      | Some s \<Rightarrow> if has_prefix s ''#'' then trim_space (dropWhile (\<lambda>c. c = CHR ''#'' \<or> c = CHR '' '') s) else s)"

fun metadata_lines :: "(string \<times> string) list \<Rightarrow> string list \<Rightarrow> (string \<times> string) list" where
  "metadata_lines meta [] = meta"
| "metadata_lines meta (line # ls) =
     (if line \<noteq> [] \<and> (hd line = CHR '' '' \<or> hd line = CHR 0x09) then metadata_lines meta ls
      else (case find_index (\<lambda>c. c = CHR '':'') line of
              None \<Rightarrow> metadata_lines meta ls
            | Some i \<Rightarrow> metadata_lines
                (AList.update (trim_space (take i line)) (trim_char (CHR 0x22) (trim_space (drop (Suc i) line))) meta) ls))"

definition split_frontmatter :: "string \<Rightarrow> (string \<times> string) list \<times> string" where
  "split_frontmatter text =
     (if \<not> has_prefix text ''---'' then ([], text)
      else (let lines = split_char (CHR 0x0A) text
            in case find_index (\<lambda>l. trim_space l = ''---'') (drop 1 lines) of
                 None \<Rightarrow> ([], text)
               | Some i \<Rightarrow> (metadata_lines [] (take i (drop 1 lines)),
                   dropWhile (\<lambda>c. c = CHR 0x0A) (join newline (drop (i + 2) lines)))))"

definition meta_value :: "string \<Rightarrow> (string \<times> string) list \<Rightarrow> string" where
  "meta_value k meta = (case map_of meta k of None \<Rightarrow> [] | Some v \<Rightarrow> v)"

definition read_skill :: "string \<Rightarrow> string \<Rightarrow> string \<Rightarrow> skill" where
  "read_skill name path raw =
     (let (meta, body) = split_frontmatter raw;
          d0 = meta_value ''description'' meta;
          d1 = (if d0 = [] then first_heading body else d0);
          d2 = (if d1 = [] then name else d1)
      in \<lparr>sk_name = (if meta_value ''name'' meta \<noteq> [] then meta_value ''name'' meta else name), sk_path = path,
          sk_description = d2, sk_body = body\<rparr>)"

subsection \<open>Discovery\<close>

type_synonym skill_map = "(string \<times> skill) list"

definition add_dir_skill :: "file_tree \<Rightarrow> string \<Rightarrow> string \<times> bool \<Rightarrow> skill_map \<Rightarrow> skill_map" where
  "add_dir_skill ft base e found =
     (case e of (name, is_directory) \<Rightarrow>
        if \<not> is_directory then found
        else (let p = file_join (file_join base name) ''SKILL.md''
              in case ft_read ft p of None \<Rightarrow> found | Some b \<Rightarrow> AList.update name (read_skill name p b) found))"

definition add_file_skill :: "file_tree \<Rightarrow> string \<Rightarrow> string \<times> bool \<Rightarrow> skill_map \<Rightarrow> skill_map" where
  "add_file_skill ft base e found =
     (case e of (entry, is_directory) \<Rightarrow>
        if is_directory \<or> \<not> has_suffix entry ''.md'' then found
        else (let name = take (length entry - 3) entry
              in if fold_key name = ''readme'' \<or> map_of found name \<noteq> None then found
                 else (let p = file_join base entry
                       in case ft_read ft p of None \<Rightarrow> found | Some b \<Rightarrow> AList.update name (read_skill name p b) found)))"

definition discover_fs :: "file_tree \<Rightarrow> string \<Rightarrow> string + skill_map" where
  "discover_fs ft base =
     (case ft_entries ft of
        Inl e \<Rightarrow> Inl e
      | Inr es \<Rightarrow> Inr (fold (add_file_skill ft base) es (fold (add_dir_skill ft base) es [])))"

definition sorted_skills :: "skill_map \<Rightarrow> skill list" where
  "sorted_skills found = map snd (sort_key fst found)"

text \<open>The overlay on disk: no tree, a tree that cannot be examined, or its entries.\<close>

datatype disk_tree = NoTree | BadTree string | DiskTree file_tree

record loader =
  ld_disk :: disk_tree
  ld_builtin :: "skill list"

definition new_loader :: "disk_tree \<Rightarrow> loader" where
  "new_loader d = \<lparr>ld_disk = d, ld_builtin = []\<rparr>"

definition discover_disk :: "loader \<Rightarrow> string + skill_map" where
  "discover_disk l =
     (case ld_disk l of NoTree \<Rightarrow> Inr [] | BadTree e \<Rightarrow> Inl e | DiskTree ft \<Rightarrow> discover_fs ft ''.'')"

definition overlay :: "(string \<times> skill) list \<Rightarrow> skill_map \<Rightarrow> skill_map" where
  "overlay new found = fold (\<lambda>(k, s). AList.update k s) new found"

definition discover :: "loader \<Rightarrow> string + skill list" where
  "discover l =
     (let found = overlay (map (\<lambda>s. (sk_name s, s)) (ld_builtin l)) []
      in case discover_disk l of Inl e \<Rightarrow> Inl e | Inr disk \<Rightarrow> Inr (sorted_skills (overlay disk found)))"

definition select_skills :: "loader \<Rightarrow> string list option \<Rightarrow> string + skill list" where
  "select_skills l names =
     (case discover l of
        Inl e \<Rightarrow> Inl e
      | Inr found \<Rightarrow>
          (case names of
             None \<Rightarrow> Inr found
           | Some ns \<Rightarrow> Inr (List.map_filter (map_of (overlay (map (\<lambda>s. (sk_name s, s)) found) [])) ns)))"

text \<open>The embedded roots in the order of their precedence, each with its path.\<close>

fun builtin_from :: "skill_map \<Rightarrow> (file_tree \<times> string) list \<Rightarrow> string + skill_map" where
  "builtin_from found [] = Inr found"
| "builtin_from found ((ft, base) # roots) =
     (case discover_fs ft base of Inl e \<Rightarrow> Inl e | Inr got \<Rightarrow> builtin_from (overlay got found) roots)"

definition builtin_loader :: "(file_tree \<times> string) list \<Rightarrow> string + loader" where
  "builtin_loader roots =
     (case builtin_from [] roots of Inl e \<Rightarrow> Inl e
      | Inr found \<Rightarrow> Inr \<lparr>ld_disk = NoTree, ld_builtin = sorted_skills found\<rparr>)"

definition builtin_with_override :: "(file_tree \<times> string) list \<Rightarrow> disk_tree \<Rightarrow> string + loader" where
  "builtin_with_override roots d =
     (case builtin_loader roots of Inl e \<Rightarrow> Inl e | Inr l \<Rightarrow> Inr (l\<lparr>ld_disk := d\<rparr>))"

subsection \<open>The prompt\<close>

definition system_prompt_preamble :: string where
  "system_prompt_preamble = ''You are an agent operating through Corp-OS over toolkit-server. ''
     @ ''The disciplines below are loaded from the skills tree and are binding for this session. Follow them as written.''"

definition est_tokens :: "string \<Rightarrow> nat" where
  "est_tokens s = length s div 4"

definition headings :: "string \<Rightarrow> string list" where
  "headings body = map (\<lambda>t. trim_space (drop 3 t))
     (filter (\<lambda>t. has_prefix t ''## '') (map trim_space (split_char (CHR 0x0A) body)))"

definition is_core_heading :: "string \<Rightarrow> bool" where
  "is_core_heading t = (has_prefix t ''## '' \<and> fold_key (trim_space (drop 3 t)) = ''core'')"

definition core_section :: "string \<Rightarrow> string" where
  "core_section body =
     (case dropWhile (\<lambda>l. \<not> is_core_heading (trim_space l)) (split_char (CHR 0x0A) body) of
        [] \<Rightarrow> []
      | _ # ls \<Rightarrow> trim_space (join newline
          (takeWhile (\<lambda>l. \<not> has_prefix (trim_space l) ''## '' \<and> \<not> has_prefix (trim_space l) ''# '') ls)))"

definition digest_body :: "skill \<Rightarrow> string" where
  "digest_body s =
     (let d = trim_space (sk_description s)
      in (if d = [] then ''(no description)'' else d) @ newline @ newline
         @ ''(Full skill omitted to fit the context window; read the skill if a call turns on its detail.)'')"

definition terse_body :: "skill \<Rightarrow> string" where
  "terse_body s =
     (if core_section (sk_body s) \<noteq> [] then core_section (sk_body s)
      else trim_space (sk_description s)
           @ (if headings (sk_body s) \<noteq> [] then newline @ newline @ ''Covers: '' @ join ''; '' (headings (sk_body s)) @ ''.'' else [])
           @ newline @ newline
           @ ''(Full discipline text omitted to fit the context window; read the skill if a call turns on its detail.)'')"

datatype text_tier = Full | Terse | Digested

definition tier_cost :: "skill \<Rightarrow> string \<Rightarrow> nat" where
  "tier_cost s body = est_tokens body + est_tokens (sk_name s) + 4"

definition tier_body :: "text_tier \<Rightarrow> skill \<Rightarrow> string" where
  "tier_body t s = (case t of Full \<Rightarrow> trim_space (sk_body s) | Terse \<Rightarrow> terse_body s | Digested \<Rightarrow> digest_body s)"

definition choose_tier :: "int \<Rightarrow> nat \<Rightarrow> skill \<Rightarrow> text_tier" where
  "choose_tier cap used s =
     (if cap \<le> 0 \<or> int (used + tier_cost s (tier_body Full s)) \<le> cap then Full
      else if int (used + tier_cost s (tier_body Terse s)) \<le> cap then Terse else Digested)"

definition tier_heading :: "text_tier \<Rightarrow> string" where
  "tier_heading t =
     (case t of Full \<Rightarrow> ''# Skill: ''
      | Terse \<Rightarrow> ''# Skill (terse '' @ em_dash @ '' full text omitted to fit the context window): ''
      | Digested \<Rightarrow> ''# Skill (digest '' @ em_dash @ '' name + summary only; read the skill for detail): '')"

fun skill_blocks :: "int \<Rightarrow> nat \<Rightarrow> skill list \<Rightarrow> (text_tier \<times> skill) list" where
  "skill_blocks cap used [] = []"
| "skill_blocks cap used (s # ss) =
     (let t = choose_tier cap used s
      in (t, s) # skill_blocks cap (used + tier_cost s (tier_body t s)) ss)"

definition block_text :: "text_tier \<times> skill \<Rightarrow> string" where
  "block_text ts = (case ts of (t, s) \<Rightarrow> newline @ newline @ tier_heading t @ sk_name s @ newline @ newline @ tier_body t s)"

definition system_prompt_within :: "skill list \<Rightarrow> int \<Rightarrow> string" where
  "system_prompt_within ss cap =
     system_prompt_preamble @ concat (map block_text (skill_blocks cap (est_tokens system_prompt_preamble) ss))"

definition system_prompt_of :: "skill list \<Rightarrow> string" where
  "system_prompt_of ss = system_prompt_within ss 0"

subsection \<open>The budget\<close>

definition blocks_cost :: "(text_tier \<times> skill) list \<Rightarrow> nat" where
  "blocks_cost bs = sum_list (map (\<lambda>(t, s). tier_cost s (tier_body t s)) bs)"

text \<open>Every skill is there, in order, at one tier or another.\<close>

lemma blocks_complete: "map snd (skill_blocks cap used ss) = ss"
  by (induction ss arbitrary: used) (simp_all add: Let_def)

lemma uncapped_full: "cap \<le> 0 \<Longrightarrow> skill_blocks cap used ss = map (Pair Full) ss"
  by (induction ss arbitrary: used) (simp_all add: choose_tier_def Let_def)

text \<open>As long as no skill is reduced to its digest, the estimate stays within the budget; and a skill is reduced
  only when the tier above would break it.\<close>

theorem prompt_within_budget:
  assumes "0 < cap" "int used \<le> cap" "\<forall>(t, s) \<in> set (skill_blocks cap used ss). t \<noteq> Digested"
  shows "int (used + blocks_cost (skill_blocks cap used ss)) \<le> cap"
  using assms
proof (induction ss arbitrary: used)
  case Nil
  then show ?case by (simp add: blocks_cost_def)
next
  case (Cons s ss)
  let ?t = "choose_tier cap used s"
  have nd: "?t \<noteq> Digested" using Cons.prems(3) by (auto simp: Let_def)
  then have "int (used + tier_cost s (tier_body ?t s)) \<le> cap"
    using Cons.prems(1) by (auto simp: choose_tier_def split: if_splits)
  moreover have "\<forall>(t, s') \<in> set (skill_blocks cap (used + tier_cost s (tier_body ?t s)) ss). t \<noteq> Digested"
    using Cons.prems(3) by (auto simp: Let_def)
  ultimately have "int (used + tier_cost s (tier_body ?t s) + blocks_cost (skill_blocks cap (used + tier_cost s (tier_body ?t s)) ss)) \<le> cap"
    by (rule Cons.IH [OF Cons.prems(1)])
  then show ?case by (simp add: blocks_cost_def Let_def add.assoc)
qed

theorem reduced_only_when_needed:
  "skill_blocks cap used (pre @ s # post) ! length pre =
     (let u = used + blocks_cost (skill_blocks cap used pre)
      in (if cap \<le> 0 \<or> int (u + tier_cost s (tier_body Full s)) \<le> cap then Full
          else if int (u + tier_cost s (tier_body Terse s)) \<le> cap then Terse else Digested, s))"
  by (induction pre arbitrary: used) (simp_all add: blocks_cost_def choose_tier_def Let_def add.assoc)

subsection \<open>Precedence\<close>

text \<open>The overlay is said to win over an embedded skill of the same name. It replaces by the name of the directory,
  while embedded skills and the selection go by the name of the front matter: an overlay in a directory that
  sorts before that name loses.\<close>

definition skill_text :: "string \<Rightarrow> string" where
  "skill_text body = ''---'' @ newline @ ''name: go'' @ newline @ ''---'' @ newline @ body"

definition shadowed_overlay :: loader where
  "shadowed_overlay = \<lparr>ld_disk = DiskTree \<lparr>ft_entries = Inr [(''a'', True)],
       ft_read = (\<lambda>p. if p = ''a/SKILL.md'' then Some (skill_text ''live'') else None)\<rparr>,
     ld_builtin = [\<lparr>sk_name = ''go'', sk_path = ''library/go/SKILL.md'', sk_description = ''go'', sk_body = ''old''\<rparr>]\<rparr>"

lemma overlay_loses:
  "map_sum id (map sk_body) (select_skills shadowed_overlay (Some [''go''])) = Inr [''old'']"
  by code_simp

section \<open>Profile hooks and disciplines\<close>

text \<open>
  The hooks a job profile adds before a prompt, \<open>internal/profilehooks/profilehooks.go\<close> and
  \<open>internal/discipline/discipline.go\<close>: the injection of skills, the pruning and the rendering of the
  \<open>parse_context\<close> envelope, and the policy by which discipline reminders fire. A hook takes the profile and
  the metadata of the context and gives the additions to the system prompt; what a hook remembers between
  turns is its state.
\<close>

type_synonym metadata = "(string \<rightharpoonup> go_value) option"
type_synonym context_envelope = "(string \<times> go_value) list"

definition metadata_key :: string where
  "metadata_key = ''parse_context''"

definition envelope_of :: "metadata \<Rightarrow> context_envelope option" where
  "envelope_of md = (case md of None \<Rightarrow> None | Some m \<Rightarrow> (case m metadata_key of Some (VMap env) \<Rightarrow> Some env | _ \<Rightarrow> None))"

definition string_at :: "string \<Rightarrow> context_envelope \<Rightarrow> string" where
  "string_at k env = (case map_of env k of Some (VStr s) \<Rightarrow> s | _ \<Rightarrow> [])"

definition list_at :: "string \<Rightarrow> context_envelope \<Rightarrow> go_value list option" where
  "list_at k env = (case map_of env k of Some (VList vs) \<Rightarrow> Some vs | _ \<Rightarrow> None)"

fun object_value :: "go_value \<Rightarrow> context_envelope option" where
  "object_value (VMap obj) = Some obj"
| "object_value _ = None"

subsection \<open>Skills\<close>

text \<open>The state is whether the injection was tried; it is tried once, also when it fails.\<close>

definition skill_injector :: "loader option \<Rightarrow> int \<Rightarrow> profile option \<Rightarrow> bool \<Rightarrow> string list \<times> bool" where
  "skill_injector ld budget p tried =
     (case (p, ld) of
        (Some pf, Some l) \<Rightarrow>
          (if pf_skills pf = [] then ([], tried)
           else if tried then ([], True)
           else (case select_skills l (Some (pf_skills pf)) of
                   Inl e \<Rightarrow> ([], True)
                 | Inr [] \<Rightarrow> ([], True)
                 | Inr ss \<Rightarrow> ([system_prompt_within ss budget], True)))
      | _ \<Rightarrow> ([], tried))"

subsection \<open>The envelope\<close>

definition shape_allowed :: "string list \<Rightarrow> go_value \<Rightarrow> bool" where
  "shape_allowed shapes r = (case object_value r of None \<Rightarrow> False | Some rm \<Rightarrow> string_at ''shape'' rm \<in> set shapes)"

definition prune_envelope :: "context_envelope \<Rightarrow> string list \<Rightarrow> context_envelope" where
  "prune_envelope env shapes =
     (case list_at ''references'' env of None \<Rightarrow> env
      | Some refs \<Rightarrow> AList.update ''references'' (VList (filter (shape_allowed shapes) refs)) env)"

definition context_pruner :: "profile option \<Rightarrow> metadata \<Rightarrow> metadata" where
  "context_pruner p md =
     (case (p, md, envelope_of md) of
        (Some pf, Some m, Some env) \<Rightarrow> Some (m(metadata_key \<mapsto> VMap (prune_envelope env (pf_context_shapes pf))))
      | _ \<Rightarrow> md)"

definition ellipsis_mark :: string where
  "ellipsis_mark = [CHR 0xE2, CHR 0x80, CHR 0xA6]"

definition truncate_text :: "string \<Rightarrow> nat \<Rightarrow> string" where
  "truncate_text s n = (if length s \<le> n then s else trim_space (take n s) @ ellipsis_mark)"

definition first_candidate :: "context_envelope \<Rightarrow> context_envelope option" where
  "first_candidate rm = (case list_at ''top_candidates'' rm of Some (v # vs) \<Rightarrow> object_value v | _ \<Rightarrow> None)"

definition reference_summary :: "context_envelope \<Rightarrow> string" where
  "reference_summary rm =
     (let c = (case first_candidate rm of None \<Rightarrow> [] | Some f \<Rightarrow> f)
      in if string_at ''Title'' c \<noteq> [] then truncate_text (string_at ''Title'' c) 100
         else if string_at ''ID'' c \<noteq> [] then truncate_text (string_at ''ID'' c) 100
         else if string_at ''presented_as'' rm \<noteq> [] then truncate_text (string_at ''presented_as'' rm) 100
         else [])"

definition reference_line :: "go_value \<Rightarrow> string option" where
  "reference_line r =
     (case object_value r of None \<Rightarrow> None
      | Some rm \<Rightarrow>
          if string_at ''token'' rm = [] then None
          else Some (newline @ ''- '' @ string_at ''token'' rm
                 @ (if string_at ''shape'' rm \<noteq> [] then '' ['' @ string_at ''shape'' rm @ '']'' else [])
                 @ (if reference_summary rm \<noteq> [] then '': '' @ reference_summary rm else [])))"

definition context_injector :: "metadata \<Rightarrow> string list" where
  "context_injector md =
     (case Option.bind (envelope_of md) (list_at ''references'') of
        None \<Rightarrow> []
      | Some refs \<Rightarrow>
          (case List.map_filter reference_line refs of
             [] \<Rightarrow> []
           | ls \<Rightarrow> [''Resolved references in your request (scoped to this profile):'' @ concat ls]))"

subsection \<open>Disciplines\<close>

record fire_tracker =
  ft_fired :: "(string \<times> string \<times> string) \<rightharpoonup> int"
  ft_ttl :: int
  ft_cap :: int

text \<open>Times and the window are in nanoseconds.\<close>

definition default_max_per_envelope :: int where "default_max_per_envelope = 2"
definition default_recent_fire_ttl :: int where "default_recent_fire_ttl = 5 * 60 * 1000000000"

definition with_ttl :: "int \<Rightarrow> fire_tracker \<Rightarrow> fire_tracker" where
  "with_ttl d t = (if d > 0 then t\<lparr>ft_ttl := d\<rparr> else t)"

definition with_max_per_envelope :: "int \<Rightarrow> fire_tracker \<Rightarrow> fire_tracker" where
  "with_max_per_envelope n t = (if n > 0 then t\<lparr>ft_cap := n\<rparr> else t)"

definition new_fire_tracker :: "(fire_tracker \<Rightarrow> fire_tracker) list \<Rightarrow> fire_tracker" where
  "new_fire_tracker opts = fold (\<lambda>opt. opt) opts
     \<lparr>ft_fired = Map.empty, ft_ttl = default_recent_fire_ttl, ft_cap = default_max_per_envelope\<rparr>"

record discipline_candidate =
  cd_discipline :: string
  cd_presented :: string
  cd_body_path :: string

definition recently :: "fire_tracker \<Rightarrow> int \<Rightarrow> string \<Rightarrow> string \<Rightarrow> string \<Rightarrow> bool" where
  "recently t now session intent d =
     (case ft_fired t (session, intent, d) of None \<Rightarrow> False | Some at0 \<Rightarrow> now - at0 < ft_ttl t)"

fun fire_loop ::
  "int \<Rightarrow> string \<Rightarrow> string \<Rightarrow> string list \<Rightarrow> discipline_candidate list \<Rightarrow> discipline_candidate list \<Rightarrow> fire_tracker \<Rightarrow> discipline_candidate list \<times> fire_tracker" where
  "fire_loop now session intent seen out [] t = (out, t)"
| "fire_loop now session intent seen out (c # cs) t =
     (if int (length out) \<ge> ft_cap t then (out, t)
      else if cd_discipline c = [] \<or> cd_discipline c \<in> set seen then fire_loop now session intent seen out cs t
      else if recently t now session intent (cd_discipline c)
      then fire_loop now session intent (cd_discipline c # seen) out cs t
      else fire_loop now session intent (cd_discipline c # seen) (out @ [c]) cs
             (t\<lparr>ft_fired := (ft_fired t)((session, intent, cd_discipline c) \<mapsto> now)\<rparr>))"

definition fire_disciplines :: "int \<Rightarrow> string \<Rightarrow> string \<Rightarrow> discipline_candidate list \<Rightarrow> fire_tracker \<Rightarrow> discipline_candidate list \<times> fire_tracker" where
  "fire_disciplines now session intent cands t = fire_loop now session intent [] [] cands t"

definition body_path_of :: "context_envelope \<Rightarrow> string" where
  "body_path_of rm = (case first_candidate rm of None \<Rightarrow> [] | Some f \<Rightarrow> trim_prefix (string_at ''source_ref'' f) ''skill:'')"

definition parse_candidate :: "go_value \<Rightarrow> discipline_candidate option" where
  "parse_candidate r =
     (case object_value r of None \<Rightarrow> None
      | Some rm \<Rightarrow> if string_at ''token'' rm = [] then None
          else Some \<lparr>cd_discipline = string_at ''token'' rm, cd_presented = string_at ''presented_as'' rm, cd_body_path = body_path_of rm\<rparr>)"

definition parse_candidates :: "context_envelope \<Rightarrow> discipline_candidate list" where
  "parse_candidates env = (case list_at ''candidate_disciplines'' env of None \<Rightarrow> [] | Some vs \<Rightarrow> List.map_filter parse_candidate vs)"

definition intent_shape :: "context_envelope \<Rightarrow> string" where
  "intent_shape env = (case map_of env ''intent'' of Some (VMap i) \<Rightarrow> string_at ''shape'' i | _ \<Rightarrow> [])"

definition candidate_line :: "discipline_candidate \<Rightarrow> string" where
  "candidate_line c =
     (if cd_presented c \<noteq> [] then cd_presented c
      else [CHR 0x60] @ cd_discipline c @ [CHR 0x60]
           @ (if cd_body_path c \<noteq> [] then '' '' @ em_dash @ '' body at '' @ cd_body_path c else []))"

definition render_disciplines :: "discipline_candidate list \<Rightarrow> string" where
  "render_disciplines cs = ''# Disciplines triggered by this request'' @ newline @ newline
     @ ''Conventions that apply to what you'' @ [CHR 0x27] @ ''re about to do '' @ em_dash
     @ '' consider them; read the body if relevant:'' @ newline
     @ concat (map (\<lambda>c. newline @ ''- '' @ candidate_line c) cs)"

definition discipline_hook :: "int \<Rightarrow> string \<Rightarrow> metadata \<Rightarrow> fire_tracker \<Rightarrow> string list \<times> fire_tracker" where
  "discipline_hook now session md t =
     (case envelope_of md of
        None \<Rightarrow> ([], t)
      | Some env \<Rightarrow>
          (case parse_candidates env of
             [] \<Rightarrow> ([], t)
           | cs \<Rightarrow>
               (case fire_disciplines now session (intent_shape env) cs t of
                  ([], t') \<Rightarrow> ([], t')
                | (survivors, t') \<Rightarrow> ([render_disciplines survivors], t'))))"

subsection \<open>What fires\<close>

text \<open>The first occurrence of every named discipline.\<close>

fun firsts :: "string list \<Rightarrow> discipline_candidate list \<Rightarrow> discipline_candidate list" where
  "firsts seen [] = []"
| "firsts seen (c # cs) =
     (if cd_discipline c = [] \<or> cd_discipline c \<in> set seen then firsts seen cs
      else c # firsts (cd_discipline c # seen) cs)"

lemma firsts_fresh: "c \<in> set (firsts seen cs) \<Longrightarrow> cd_discipline c \<noteq> [] \<and> cd_discipline c \<notin> set seen"
  by (induction seen cs rule: firsts.induct) (auto split: if_splits)

lemma firsts_distinct: "distinct (map cd_discipline (firsts seen cs))"
  by (induction seen cs rule: firsts.induct) (auto dest: firsts_fresh)

lemma recently_other:
  "d \<noteq> d' \<Longrightarrow> recently (t\<lparr>ft_fired := (ft_fired t)((s, i, d') \<mapsto> now)\<rparr>) n s i d = recently t n s i d"
  by (simp add: recently_def split: option.split)

lemma fire_loop_exact:
  "fst (fire_loop now s i seen out cs t)
     = (if int (length out) \<ge> ft_cap t then out
        else out @ take (nat (ft_cap t) - length out) (filter (\<lambda>c. \<not> recently t now s i (cd_discipline c)) (firsts seen cs)))"
proof (induction now s i seen out cs t rule: fire_loop.induct)
  case (1 now session intent seen out t)
  then show ?case by simp
next
  case (2 now session intent seen out c cs t)
  let ?t = "t\<lparr>ft_fired := (ft_fired t)((session, intent, cd_discipline c) \<mapsto> now)\<rparr>"
  have same: "filter (\<lambda>x. \<not> recently ?t now session intent (cd_discipline x)) (firsts (cd_discipline c # seen) cs)
      = filter (\<lambda>x. \<not> recently t now session intent (cd_discipline x)) (firsts (cd_discipline c # seen) cs)"
  proof (rule filter_cong [OF refl])
    fix x assume "x \<in> set (firsts (cd_discipline c # seen) cs)"
    then have "cd_discipline x \<noteq> cd_discipline c" using firsts_fresh by fastforce
    then show "(\<not> recently ?t now session intent (cd_discipline x)) = (\<not> recently t now session intent (cd_discipline x))"
      using recently_other by blast
  qed
  show ?case
  proof (cases "int (length out) \<ge> ft_cap t")
    case True
    then show ?thesis by simp
  next
    case False
    show ?thesis
    proof (cases "cd_discipline c = [] \<or> cd_discipline c \<in> set seen \<or> recently t now session intent (cd_discipline c)")
      case True
      with False 2(1,2) show ?thesis by auto
    next
      case no: False
      have ih: "fst (fire_loop now session intent (cd_discipline c # seen) (out @ [c]) cs ?t)
        = (if int (length (out @ [c])) \<ge> ft_cap t then out @ [c]
           else (out @ [c]) @ take (nat (ft_cap t) - length (out @ [c]))
             (filter (\<lambda>x. \<not> recently t now session intent (cd_discipline x)) (firsts (cd_discipline c # seen) cs)))"
        using 2(3) False no same by simp
      obtain k where k: "nat (ft_cap t) - length out = Suc k" "nat (ft_cap t) - length (out @ [c]) = k"
        using False by (cases "nat (ft_cap t) - length out") auto
      have "ft_cap t \<le> int (length (out @ [c])) \<Longrightarrow> k = 0" using k by simp
      with False no ih k show ?thesis by auto
    qed
  qed
qed

text \<open>What surfaces for one envelope: the named disciplines that did not fire lately, each once, in order, and no
  more than the cap.\<close>

theorem fire_exact:
  assumes "0 \<le> ft_cap t"
  shows "fst (fire_disciplines now s i cs t)
    = take (nat (ft_cap t)) (filter (\<lambda>c. \<not> recently t now s i (cd_discipline c)) (firsts [] cs))"
  using assms by (simp add: fire_disciplines_def fire_loop_exact)

lemma fire_loop_keeps:
  "ft_ttl (snd (fire_loop now s i seen out cs t)) = ft_ttl t \<and> ft_cap (snd (fire_loop now s i seen out cs t)) = ft_cap t"
  by (induction now s i seen out cs t rule: fire_loop.induct) auto

lemma fire_loop_stays: "ft_fired t k = Some now \<Longrightarrow> ft_fired (snd (fire_loop now s i seen out cs t)) k = Some now"
  by (induction now s i seen out cs t rule: fire_loop.induct) auto

lemma fire_loop_marks:
  "c \<in> set (fst (fire_loop now s i seen out cs t)) \<Longrightarrow>
     c \<in> set out \<or> ft_fired (snd (fire_loop now s i seen out cs t)) (s, i, cd_discipline c) = Some now"
proof (induction now s i seen out cs t rule: fire_loop.induct)
  case (2 now session intent seen out c' cs t)
  let ?t = "t\<lparr>ft_fired := (ft_fired t)((session, intent, cd_discipline c') \<mapsto> now)\<rparr>"
  have "ft_fired (snd (fire_loop now session intent (cd_discipline c' # seen) (out @ [c']) cs ?t))
      (session, intent, cd_discipline c') = Some now" by (rule fire_loop_stays) simp
  with 2 show ?case by (auto split: if_splits)
qed simp

text \<open>A key of the tracker changes only to the present time, and only when it is new or its window is over.\<close>

lemma fire_loop_fired:
  "ft_fired (snd (fire_loop now s i seen out cs t)) k = ft_fired t k
   \<or> (ft_fired (snd (fire_loop now s i seen out cs t)) k = Some now
      \<and> (\<forall>a. ft_fired t k = Some a \<longrightarrow> ft_ttl t \<le> now - a))"
proof (induction now s i seen out cs t rule: fire_loop.induct)
  case (2 now session intent seen out c cs t)
  show ?case
  proof (cases "int (length out) \<ge> ft_cap t \<or> cd_discipline c = [] \<or> cd_discipline c \<in> set seen
      \<or> recently t now session intent (cd_discipline c)")
    case True
    with 2(1,2) show ?thesis by auto
  next
    case False
    with 2(3) show ?thesis
      by (auto simp: recently_def split: if_splits option.splits)
  qed
qed simp

type_synonym fire_call = "int \<times> string \<times> string \<times> discipline_candidate list"

fun fire_log :: "fire_tracker \<Rightarrow> fire_call list \<Rightarrow> (int \<times> string \<times> string \<times> string) list" where
  "fire_log t [] = []"
| "fire_log t ((now, s, i, cs) # calls) =
     (let (out, t') = fire_disciplines now s i cs t
      in map (\<lambda>c. (now, s, i, cd_discipline c)) out @ fire_log t' calls)"

lemma fire_log_Cons:
  "fire_log t ((now, s, i, cs) # calls) =
     map (\<lambda>c. (now, s, i, cd_discipline c)) (fst (fire_disciplines now s i cs t))
     @ fire_log (snd (fire_disciplines now s i cs t)) calls"
  by (simp add: case_prod_beta)

lemma survivors_old:
  assumes "c \<in> set (fst (fire_disciplines now s i cs t))"
  shows "\<not> recently t now s i (cd_discipline c)"
  using assms by (auto simp: fire_disciplines_def fire_loop_exact split: if_splits dest: in_set_takeD)

lemma survivors_distinct: "distinct (map cd_discipline (fst (fire_disciplines now s i cs t)))"
proof -
  have "distinct (map cd_discipline (filter P (firsts [] cs)))" for P
    using firsts_distinct distinct_map_filter by blast
  then show ?thesis
    by (auto simp: fire_disciplines_def fire_loop_exact take_map [symmetric] distinct_take)
qed

lemma log_after:
  assumes "0 \<le> ft_ttl t" "ft_fired t (s, i, d) = Some a" "(n, s, i, d) \<in> set (fire_log t calls)"
  shows "a + ft_ttl t \<le> n"
  using assms
proof (induction calls arbitrary: t a)
  case (Cons call calls)
  obtain now s' i' cs where c: "call = (now, s', i', cs)" by (cases call) auto
  let ?o = "fst (fire_disciplines now s' i' cs t)" and ?t = "snd (fire_disciplines now s' i' cs t)"
  have keep: "ft_ttl ?t = ft_ttl t" using fire_loop_keeps by (simp add: fire_disciplines_def)
  from Cons.prems(3) consider (Now) "n = now" "s' = s" "i' = i" "d \<in> cd_discipline ` set ?o" | (Later) "(n, s, i, d) \<in> set (fire_log ?t calls)"
    unfolding c fire_log_Cons by auto
  then show ?case
  proof cases
    case Now
    then obtain x where x: "x \<in> set ?o" "cd_discipline x = d" by auto
    with survivors_old Now have "\<not> recently t now s i d" by blast
    with Cons.prems(2) Now show ?thesis by (simp add: recently_def)
  next
    case Later
    from fire_loop_fired [of now s' i' "[]" "[]" cs t "(s, i, d)"] Cons.prems(2)
    consider "ft_fired ?t (s, i, d) = Some a" | "ft_fired ?t (s, i, d) = Some now" "ft_ttl t \<le> now - a"
      by (auto simp: fire_disciplines_def)
    then show ?thesis
    proof cases
      case 1
      from Cons.IH [OF _ 1 Later] Cons.prems(1) keep show ?thesis by simp
    next
      case 2
      from Cons.IH [OF _ 2(1) Later] Cons.prems(1) keep 2(2) show ?thesis by simp
    qed
  qed
qed simp

text \<open>Over any sequence of envelopes, of any sessions and at any times, two surfacings of one discipline for one
  session and intent are a window apart.\<close>

theorem fires_spaced:
  assumes "0 \<le> ft_ttl t"
  shows "sorted_wrt (\<lambda>(n, k) (n', k'). k = k' \<longrightarrow> n + ft_ttl t \<le> n') (fire_log t calls)"
  using assms
proof (induction calls arbitrary: t)
  case (Cons call calls)
  obtain now s i cs where c: "call = (now, s, i, cs)" by (cases call) auto
  let ?o = "fst (fire_disciplines now s i cs t)" and ?t = "snd (fire_disciplines now s i cs t)"
  have keep: "ft_ttl ?t = ft_ttl t" using fire_loop_keeps by (simp add: fire_disciplines_def)
  have "distinct (map cd_discipline ?o)" by (rule survivors_distinct)
  then have "sorted_wrt (\<lambda>(n, k) (n', k'). k = k' \<longrightarrow> n + ft_ttl t \<le> n') (map (\<lambda>c. (now, s, i, cd_discipline c)) ?o)"
    by (auto simp: sorted_wrt_iff_nth_less distinct_conv_nth)
  moreover have "sorted_wrt (\<lambda>(n, k) (n', k'). k = k' \<longrightarrow> n + ft_ttl t \<le> n') (fire_log ?t calls)"
    using Cons.IH [of ?t] Cons.prems keep by simp
  moreover have "now + ft_ttl t \<le> n" if "x \<in> set ?o" "(n, s, i, cd_discipline x) \<in> set (fire_log ?t calls)" for x n
  proof -
    have "ft_fired ?t (s, i, cd_discipline x) = Some now"
      using fire_loop_marks [of x now s i "[]" "[]" cs t] that(1) by (auto simp: fire_disciplines_def)
    from log_after [OF _ this that(2)] keep Cons.prems show ?thesis by simp
  qed
  ultimately show ?case unfolding c fire_log_Cons by (auto simp: sorted_wrt_append)
qed simp

text \<open>Pruning leaves only references of the profile's shapes, and it is idempotent.\<close>

theorem pruned_shapes:
  "list_at ''references'' (prune_envelope env shapes) = Some refs \<Longrightarrow> list_all (shape_allowed shapes) refs"
  by (auto simp: prune_envelope_def list_at_def update_conv' list_all_iff split: option.splits go_value.splits)

theorem prune_idem: "prune_envelope (prune_envelope env shapes) shapes = prune_envelope env shapes"
  by (auto simp: prune_envelope_def list_at_def update_conv' split: option.splits go_value.splits)

end
