(* ===== verification/Grounding.thy ===== *)
theory Grounding
  imports Agent_State Fs_Text
begin

text \<open>
  Structural grounding, \<open>internal/agent/grounding.go\<close>, and the part of the loop that uses it: from the output
  of a failed gate, the symbols whose declarations \<open>go doc\<close> is asked for, the import paths that \<open>go list\<close>
  corrects, and the import cycles of in-package tests. The patterns are read as the greedy matches they have:
  in each the class of a group does not contain the character that follows it. A lookup is a function over
  the world, \<^const>\<open>None\<close> when nothing resolves.
\<close>

subsection \<open>Patterns\<close>

text \<open>The first occurrence of \<open>pre\<close>, a non-empty run of \<open>cls\<close>, and \<open>post\<close>: the run.\<close>

fun capture :: "string \<Rightarrow> (char \<Rightarrow> bool) \<Rightarrow> string \<Rightarrow> string \<Rightarrow> string option" where
  "capture pre cls post [] = None"
| "capture pre cls post (c # s) =
     (let rest = drop (length pre) (c # s); w = takeWhile cls rest
      in if has_prefix (c # s) pre \<and> w \<noteq> [] \<and> has_prefix (drop (length w) rest) post then Some w
         else capture pre cls post s)"

definition symbol_class :: "char \<Rightarrow> bool" where
  "symbol_class c = (word_char c \<or> c = CHR ''.'' \<or> c = CHR ''/'')"

definition path_class :: "char \<Rightarrow> bool" where
  "path_class c = (symbol_class c \<or> c = CHR ''-'')"

definition blank_char :: "char \<Rightarrow> bool" where
  "blank_char c = (c = CHR '' '' \<or> c = CHR 0x09 \<or> c = CHR 0x0A \<or> c = CHR 0x0C \<or> c = CHR 0x0D)"

text \<open>The position behind a file name: a line and a column number, each with its colon.\<close>

definition colon_number :: "string \<Rightarrow> string option" where
  "colon_number s =
     (case s of CHR '':'' # t \<Rightarrow> if takeWhile digit t \<noteq> [] then Some (dropWhile digit t) else None | _ \<Rightarrow> None)"

definition error_position :: "string \<Rightarrow> bool" where
  "error_position s =
     (has_prefix s ''.go'' \<and>
      (case Option.bind (colon_number (drop 3 s)) colon_number of Some (CHR '':'' # t) \<Rightarrow> True | _ \<Rightarrow> False))"

fun error_file :: "string \<Rightarrow> string option" where
  "error_file [] = None"
| "error_file (c # s) =
     (case find (\<lambda>k. error_position (drop k (c # s))) (rev [1..<length (takeWhile (\<lambda>x. \<not> blank_char x) (c # s))]) of
        Some k \<Rightarrow> Some (take (k + 3) (c # s))
      | None \<Rightarrow> error_file s)"

definition unknown_field_type :: "string \<Rightarrow> string option" where
  "unknown_field_type line =
     (let tails = map (\<lambda>i. drop i line) [0..<length line];
          rests = List.map_filter (\<lambda>t.
            let w = takeWhile word_char (drop 14 t); u = drop (14 + length w) t
            in if has_prefix t ''unknown field '' \<and> w \<noteq> [] \<and> has_prefix u '' in struct literal of type ''
                  \<and> takeWhile word_char (drop 27 u) \<noteq> []
               then Some (takeWhile word_char (drop 27 u)) else None) tails
      in case rests of [] \<Rightarrow> None | x # xs \<Rightarrow> Some x)"

subsection \<open>Symbols\<close>

definition max_grounded_symbols :: nat where "max_grounded_symbols = 5"
definition grounded_doc_tail :: nat where "grounded_doc_tail = 1200"

record grounding_target =
  gr_pkg_dir :: string
  gr_symbol :: string

definition is_groundable_symbol :: "string \<Rightarrow> bool" where
  "is_groundable_symbol s = (s \<noteq> [] \<and> length s \<le> 128 \<and> list_all symbol_class s)"

definition add_target :: "string \<Rightarrow> string option \<Rightarrow> grounding_target list \<Rightarrow> grounding_target list" where
  "add_target dir found ts =
     (case found of None \<Rightarrow> ts
      | Some raw \<Rightarrow>
          (let t = \<lparr>gr_pkg_dir = dir, gr_symbol = trim_space raw\<rparr>
           in if \<not> is_groundable_symbol (gr_symbol t) \<or> t \<in> set ts then ts else ts @ [t]))"

definition line_dir :: "string \<Rightarrow> string" where
  "line_dir line = (case error_file line of None \<Rightarrow> [] | Some f \<Rightarrow> if path_dir f = ''.'' then [] else path_dir f)"

definition line_targets :: "string \<Rightarrow> grounding_target list \<Rightarrow> grounding_target list" where
  "line_targets line ts =
     (let d = line_dir line
      in add_target d (capture ''undefined: '' symbol_class [] line)
           (add_target d (capture ''type '' word_char '' has no field or method'' line)
             (add_target d (unknown_field_type line) ts)))"

fun targets_from :: "grounding_target list \<Rightarrow> string list \<Rightarrow> grounding_target list" where
  "targets_from ts [] = ts"
| "targets_from ts (line # ls) =
     (let ts' = line_targets line ts in if max_grounded_symbols \<le> length ts' then ts' else targets_from ts' ls)"

definition parse_grounding_targets :: "string \<Rightarrow> grounding_target list" where
  "parse_grounding_targets out = targets_from [] (split_char (CHR 0x0A) out)"

type_synonym 'w lookup = "string \<Rightarrow> string \<Rightarrow> 'w \<Rightarrow> string option \<times> 'w"

definition trim_newlines :: "string \<Rightarrow> string" where
  "trim_newlines s = rev (dropWhile (\<lambda>c. c = CHR 0x0A) (rev s))"

fun grounded_docs :: "'w lookup \<Rightarrow> string \<Rightarrow> grounding_target list \<Rightarrow> 'w \<Rightarrow> (string \<times> string) list \<times> 'w" where
  "grounded_docs doc dir [] w = ([], w)"
| "grounded_docs doc dir (t # ts) w =
     (let (found, w1) = doc (file_join dir (gr_pkg_dir t)) (gr_symbol t) w;
          (rest, w2) = grounded_docs doc dir ts w1
      in (case found of
            None \<Rightarrow> (rest, w2)
          | Some d \<Rightarrow> if trim_space d = [] then (rest, w2) else ((gr_symbol t, trim_space d) # rest, w2)))"

definition grounded_heading :: string where
  "grounded_heading = ''Grounded signatures (resolved by '' @ backtick @ ''go doc'' @ backtick @ '' '' @ em_dash
     @ '' these are the REAL declarations your code referenced but got wrong; use these exact names, fields, and signatures rather than guessing):''
     @ newline"

definition tail_string :: "string \<Rightarrow> nat \<Rightarrow> string" where
  "tail_string s limit =
     (if length s \<le> limit then s
      else [CHR 0xE2, CHR 0x80, CHR 0xA6] @ ''truncated'' @ [CHR 0xE2, CHR 0x80, CHR 0xA6] @ newline @ drop (length s - limit) s)"

definition grounded_block :: "string \<times> string \<Rightarrow> string" where
  "grounded_block sd = (case sd of (symb, d) \<Rightarrow>
     newline @ ''--- '' @ symb @ '' ---'' @ newline @ tail_string d grounded_doc_tail @ newline)"

definition ground_from_gate_output :: "'w lookup \<Rightarrow> string \<Rightarrow> string \<Rightarrow> 'w \<Rightarrow> string \<times> 'w" where
  "ground_from_gate_output doc out dir w =
     (let (docs, w1) = grounded_docs doc dir (parse_grounding_targets out) w
      in (if docs = [] then [] else trim_newlines (grounded_heading @ concat (map grounded_block docs)), w1))"

subsection \<open>Import paths\<close>

definition max_grounded_imports :: nat where "max_grounded_imports = 5"

definition is_groundable_import_path :: "string \<Rightarrow> bool" where
  "is_groundable_import_path p = (p \<noteq> [] \<and> length p \<le> 256 \<and> \<not> has_prefix p ''/'' \<and> list_all path_class p)"

definition add_path :: "string option \<Rightarrow> string list \<Rightarrow> string list" where
  "add_path found ps =
     (case found of None \<Rightarrow> ps
      | Some raw \<Rightarrow> if \<not> is_groundable_import_path (trim_space raw) \<or> trim_space raw \<in> set ps then ps else ps @ [trim_space raw])"

definition line_paths :: "string \<Rightarrow> string list \<Rightarrow> string list" where
  "line_paths line ps = fold add_path
     [capture ''package '' path_class '' is not in std'' line, capture ''package '' path_class '' is not in GOROOT'' line,
      capture ''no required module provides package '' path_class [] line,
      capture (''cannot find package '' @ [quote_ch]) (\<lambda>c. c \<noteq> quote_ch) [quote_ch] line] ps"

fun paths_from :: "string list \<Rightarrow> string list \<Rightarrow> string list" where
  "paths_from ps [] = ps"
| "paths_from ps (line # ls) =
     (let ps' = line_paths line ps in if max_grounded_imports \<le> length ps' then ps' else paths_from ps' ls)"

definition parse_import_path_errors :: "string \<Rightarrow> string list" where
  "parse_import_path_errors out = take max_grounded_imports (paths_from [] (split_char (CHR 0x0A) out))"

fun corrected_paths :: "'w lookup \<Rightarrow> string \<Rightarrow> string list \<Rightarrow> 'w \<Rightarrow> (string \<times> string) list \<times> 'w" where
  "corrected_paths resolve dir [] w = ([], w)"
| "corrected_paths resolve dir (bad # ps) w =
     (let (found, w1) = resolve dir bad w;
          (rest, w2) = corrected_paths resolve dir ps w1
      in (case found of
            None \<Rightarrow> (rest, w2)
          | Some c \<Rightarrow> if trim_space c = [] \<or> trim_space c = bad then (rest, w2) else ((bad, trim_space c) # rest, w2)))"

definition corrected_heading :: string where
  "corrected_heading = ''Corrected import paths (the import path you wrote does not resolve '' @ em_dash
     @ '' it is almost always a repo-relative path; use the REAL module path on the right, not the one you guessed):'' @ newline"

definition ground_import_paths :: "'w lookup \<Rightarrow> string \<Rightarrow> string \<Rightarrow> 'w \<Rightarrow> string \<times> 'w" where
  "ground_import_paths resolve out dir w =
     (let (fixes, w1) = corrected_paths resolve dir (parse_import_path_errors out) w
      in (if fixes = [] then []
          else trim_newlines (corrected_heading @ concat (map (\<lambda>(bad, c). newline @ ''--- '' @ bad @ '' ''
                 @ [CHR 0xE2, CHR 0x86, CHR 0x92] @ '' '' @ c @ '' ---'' @ newline) fixes)), w1))"

text \<open>The candidates that \<open>go list\<close> is asked for: the path without more and more of its leading segments.\<close>

fun list_candidates :: "'w lookup \<Rightarrow> string \<Rightarrow> string \<Rightarrow> string list \<Rightarrow> 'w \<Rightarrow> string option \<times> 'w" where
  "list_candidates go_list dir bad [] w = (None, w)"
| "list_candidates go_list dir bad (seg # segs) w =
     (let rel = join ''/'' (seg # segs)
      in if rel = [] then list_candidates go_list dir bad segs w
         else (case go_list dir rel w of
                 (Some p, w1) \<Rightarrow> if p \<noteq> bad then (Some p, w1) else list_candidates go_list dir bad segs w1
               | (None, w1) \<Rightarrow> list_candidates go_list dir bad segs w1))"

definition real_go_list_import_path :: "'w lookup \<Rightarrow> 'w lookup" where
  "real_go_list_import_path go_list dir bad w =
     list_candidates go_list dir bad (split_char (CHR ''/'') (trim_char (CHR ''/'') bad)) w"

subsection \<open>Import cycles\<close>

record import_cycle =
  ic_pkg :: string
  ic_file :: string

definition cycle_package_line :: "string \<Rightarrow> string option" where
  "cycle_package_line line =
     (let w = takeWhile path_class (drop 8 line)
      in if has_prefix line ''package '' \<and> w \<noteq> [] \<and> list_all blank_char (drop (8 + length w) line) then Some w else None)"

definition cycle_mark :: string where
  "cycle_mark = '': import cycle not allowed in test''"

text \<open>The imports line at the head of a text: the package and, when it is named, the file.\<close>

definition imports_at :: "string \<Rightarrow> (string \<times> string) option" where
  "imports_at t =
     (let w = takeWhile path_class (drop 8 t); u = drop (8 + length w) t;
          f = takeWhile path_class (drop 6 u)
      in if \<not> has_prefix t ''imports '' \<or> w = [] then None
         else if has_prefix u '' from '' \<and> f \<noteq> [] \<and> has_prefix (drop (6 + length f) u) cycle_mark then Some (w, f)
         else if has_prefix u cycle_mark then Some (w, []) else None)"

definition cycle_imports_line :: "string \<Rightarrow> (string \<times> string) option" where
  "cycle_imports_line line =
     (case List.map_filter (\<lambda>i. imports_at (drop i line)) [0..<length line] of [] \<Rightarrow> None | x # xs \<Rightarrow> Some x)"

fun cycles_from :: "string \<Rightarrow> import_cycle list \<Rightarrow> string list \<Rightarrow> import_cycle list" where
  "cycles_from cur cs [] = cs"
| "cycles_from cur cs (line # ls) =
     (case cycle_package_line line of
        Some p \<Rightarrow> cycles_from p cs ls
      | None \<Rightarrow>
          (case cycle_imports_line line of
             None \<Rightarrow> cycles_from cur cs ls
           | Some (imported, f) \<Rightarrow>
               if cur = [] \<or> cur \<noteq> imported then cycles_from cur cs ls
               else if \<not> is_groundable_import_path imported \<or> imported \<in> ic_pkg ` set cs then cycles_from cur cs ls
               else (let cs' = cs @ [\<lparr>ic_pkg = imported, ic_file = f\<rparr>]
                     in if max_grounded_imports \<le> length cs' then cs' else cycles_from cur cs' ls)))"

definition parse_import_cycle_errors :: "string \<Rightarrow> import_cycle list" where
  "parse_import_cycle_errors out = cycles_from [] [] (split_char (CHR 0x0A) out)"

definition cycle_heading :: string where
  "cycle_heading =
     ''Import-cycle fix '' @ em_dash @
     '' your *_test.go is an IN-PACKAGE (white-box) test: it declares the SAME '' @ [CHR 0x60] @
     ''package'' @ [CHR 0x60] @
     '' as the code under test, so it must NOT import that package; importing your own package is'' @
     '' exactly what '' @ [CHR 0x22] @ ''import cycle not allowed in test'' @ [CHR 0x22] @
     '' means. Remove the self-import below and reference the package'' @ [CHR 0x27] @
     ''s identifiers DIRECTLY (write '' @ [CHR 0x60] @ ''Foo(x)'' @ [CHR 0x60] @ '', not '' @ [CHR 0x60] @
     ''pkg.Foo(x)'' @ [CHR 0x60] @ ''). To write an external black-box test instead, change the file'' @
     [CHR 0x27] @ ''s clause to '' @ [CHR 0x60] @ ''package <name>_test'' @ [CHR 0x60] @
     '' and import the package '' @ em_dash @
     '' but to reach UNEXPORTED identifiers, keep the in-package clause and just drop the import.''"

definition cycle_block :: "import_cycle \<Rightarrow> string" where
  "cycle_block c =
     newline @ ''--- remove '' @ backtick @ ''import '' @ [quote_ch] @ ic_pkg c @ [quote_ch] @ backtick
     @ (if ic_file c \<noteq> [] then '' in '' @ ic_file c else [])
     @ '' '' @ em_dash @ '' it is this test'' @ [CHR 0x27] @ ''s own package '' @ after_last (\<lambda>x. x = CHR ''/'') (ic_pkg c)
     @ '' ---'' @ newline"

definition ground_import_cycles :: "string \<Rightarrow> string" where
  "ground_import_cycles out =
     (case parse_import_cycle_errors out of [] \<Rightarrow> []
      | cs \<Rightarrow> trim_newlines (cycle_heading @ concat (map cycle_block cs)))"

subsection \<open>The grounds of a failed gate\<close>

text \<open>\<open>Loop.groundGateOutput\<close>, which the loop model takes as \<^const>\<open>e_ground\<close>.\<close>

definition ground_gate_output :: "'w lookup \<Rightarrow> 'w lookup \<Rightarrow> string \<Rightarrow> string \<Rightarrow> 'w \<Rightarrow> string list \<times> 'w" where
  "ground_gate_output doc resolve out dir w =
     (let (g1, w1) = ground_from_gate_output doc out dir w;
          (g2, w2) = ground_import_paths resolve out dir w1
      in (filter (\<lambda>g. g \<noteq> []) [g1, g2, ground_import_cycles out], w2))"

subsection \<open>What is looked up\<close>

definition targets_ok :: "grounding_target list \<Rightarrow> bool" where
  "targets_ok ts = (distinct ts \<and> list_all (\<lambda>t. is_groundable_symbol (gr_symbol t)) ts)"

lemma add_target_ok: "targets_ok ts \<Longrightarrow> targets_ok (add_target d f ts) \<and> length (add_target d f ts) \<le> Suc (length ts)"
  by (auto simp: targets_ok_def add_target_def Let_def split: option.split)

lemma line_targets_ok: "targets_ok ts \<Longrightarrow> targets_ok (line_targets line ts) \<and> length (line_targets line ts) \<le> length ts + 3"
proof -
  assume a: "targets_ok ts"
  let ?d = "line_dir line"
  note 1 = add_target_ok [OF a, of ?d "unknown_field_type line"]
  note 2 = add_target_ok [OF conjunct1 [OF 1], of ?d "capture ''type '' word_char '' has no field or method'' line"]
  note 3 = add_target_ok [OF conjunct1 [OF 2], of ?d "capture ''undefined: '' symbol_class [] line"]
  show ?thesis using 1 2 3 unfolding line_targets_def Let_def by linarith
qed

lemma targets_from_ok:
  "targets_ok ts \<Longrightarrow> length ts < max_grounded_symbols \<Longrightarrow>
     targets_ok (targets_from ts ls) \<and> length (targets_from ts ls) \<le> max_grounded_symbols + 2"
proof (induction ls arbitrary: ts)
  case Nil
  then show ?case by simp
next
  case (Cons line ls)
  have l: "targets_ok (line_targets line ts)" "length (line_targets line ts) \<le> length ts + 3"
    using line_targets_ok Cons.prems(1) by blast+
  show ?case
  proof (cases "max_grounded_symbols \<le> length (line_targets line ts)")
    case True
    with l Cons.prems(2) show ?thesis by (simp add: Let_def)
  next
    case False
    with Cons.IH [OF l(1)] show ?thesis by (simp add: Let_def)
  qed
qed

text \<open>Whatever a gate prints, at most seven symbols are looked up, each once for its directory, and the argument of
  \<open>go doc\<close> is never a flag; the cap that is documented is five.\<close>

theorem grounding_targets_safe:
  "distinct (parse_grounding_targets out) \<and> length (parse_grounding_targets out) \<le> 7
   \<and> (\<forall>t \<in> set (parse_grounding_targets out). gr_symbol t \<noteq> [] \<and> length (gr_symbol t) \<le> 128
        \<and> list_all (\<lambda>c. word_char c \<or> c = CHR ''.'' \<or> c = CHR ''/'') (gr_symbol t))"
proof -
  have "targets_ok [] \<and> length ([] :: grounding_target list) < max_grounded_symbols"
    by (simp add: targets_ok_def max_grounded_symbols_def)
  then have "targets_ok (parse_grounding_targets out) \<and> length (parse_grounding_targets out) \<le> max_grounded_symbols + 2"
    unfolding parse_grounding_targets_def using targets_from_ok by blast
  then show ?thesis
    by (auto simp: targets_ok_def max_grounded_symbols_def list_all_iff is_groundable_symbol_def symbol_class_def)
qed

definition crowded_output :: string where
  "crowded_output = join newline
     [''a.go:1:2: undefined: A'', ''a.go:1:2: undefined: B'', ''a.go:1:2: undefined: C'', ''a.go:1:2: undefined: D'',
      ''unknown field x in struct literal of type E type F has no field or method g undefined: H'']"

lemma cap_exceeded: "length (parse_grounding_targets crowded_output) = 7"
  by code_simp

lemma add_path_ok:
  "distinct ps \<and> list_all is_groundable_import_path ps \<Longrightarrow> distinct (add_path f ps) \<and> list_all is_groundable_import_path (add_path f ps)"
  by (auto simp: add_path_def split: option.split)

lemma line_paths_ok:
  "distinct ps \<and> list_all is_groundable_import_path ps \<Longrightarrow> distinct (line_paths l ps) \<and> list_all is_groundable_import_path (line_paths l ps)"
  unfolding line_paths_def by (simp add: add_path_ok)

lemma paths_from_ok:
  "distinct ps \<and> list_all is_groundable_import_path ps \<Longrightarrow> distinct (paths_from ps ls) \<and> list_all is_groundable_import_path (paths_from ps ls)"
  by (induction ps ls rule: paths_from.induct) (auto simp: Let_def line_paths_ok)

theorem import_paths_safe:
  "distinct (parse_import_path_errors out) \<and> length (parse_import_path_errors out) \<le> 5
   \<and> list_all is_groundable_import_path (parse_import_path_errors out)"
  using paths_from_ok [of "[]" "split_char (CHR 0x0A) out"]
  by (auto simp: parse_import_path_errors_def max_grounded_imports_def list_all_iff dest: in_set_takeD)

text \<open>A correction is one that \<open>go list\<close> gave, and it differs from what was written.\<close>

lemma corrected_differ: "(bad, c) \<in> set (fst (corrected_paths resolve dir ps w)) \<Longrightarrow> bad \<in> set ps \<and> c \<noteq> bad \<and> c \<noteq> []"
proof (induction ps arbitrary: w)
  case (Cons p ps)
  obtain found w1 where 1: "resolve dir p w = (found, w1)" by force
  obtain rest w2 where 2: "corrected_paths resolve dir ps w1 = (rest, w2)" by force
  from Cons.IH [of w1] Cons.prems 1 2 show ?case by (auto split: option.splits if_splits)
qed simp

lemma list_candidates_differ: "fst (list_candidates go_list dir bad segs w) = Some p \<Longrightarrow> p \<noteq> bad"
  by (induction segs arbitrary: w) (auto simp: Let_def split: prod.splits option.splits if_splits)

lemma cycles_from_ok:
  "distinct (map ic_pkg cs) \<Longrightarrow> length cs < max_grounded_imports \<Longrightarrow>
     distinct (map ic_pkg (cycles_from cur cs ls)) \<and> length (cycles_from cur cs ls) \<le> max_grounded_imports"
  by (induction cur cs ls rule: cycles_from.induct) (auto simp: Let_def split: option.splits)

theorem cycles_safe:
  "distinct (map ic_pkg (parse_import_cycle_errors out)) \<and> length (parse_import_cycle_errors out) \<le> 5"
  using cycles_from_ok [of "[]" "[]" "split_char (CHR 0x0A) out"]
  by (simp add: parse_import_cycle_errors_def max_grounded_imports_def)

text \<open>A cycle among packages that are not the same is passed over.\<close>

definition tab_char :: string where "tab_char = [CHR 0x09]"

lemma self_cycle_found:
  "parse_import_cycle_errors (join newline [''package a/b'', tab_char @ ''imports a/b from x_test.go: import cycle not allowed in test''])
     = [\<lparr>ic_pkg = ''a/b'', ic_file = ''x_test.go''\<rparr>]"
  "parse_import_cycle_errors (join newline [''package a/b'', tab_char @ ''imports a/c from x_test.go: import cycle not allowed in test'']) = []"
  by code_simp+

end
