(* ===== verification/Mcp.thy ===== *)
theory Mcp
  imports Model_Wire Profile "HOL-Library.AList"
begin

text \<open>
  The tool providers of \<open>internal/mcp\<close>: scopes and their projection on the offered tools
  (\<open>project.go\<close>), the dispatch boundary with its ladder of wider scopes (\<open>scoped.go\<close>), the aggregator
  (\<open>aggregate.go\<close>), the client (\<open>client.go\<close>), the enriched descriptions (\<open>enrich.go\<close>,
  \<open>surfaces.go\<close>, \<open>footprint.go\<close>), the reconciliation of bug records (\<open>groundtruth.go\<close>) and the
  configuration (\<open>config.go\<close>), with the scopes that \<open>cmd/corpos\<close> builds from a profile. A provider is a
  function over the world.
\<close>

type_synonym 'w provider = "call \<Rightarrow> 'w \<Rightarrow> result \<times> 'w"
type_synonym scope = "string \<rightharpoonup> string list"

subsection \<open>Scopes\<close>

definition allows :: "scope \<Rightarrow> string \<Rightarrow> string \<Rightarrow> bool" where
  "allows sc srf act = (case sc srf of None \<Rightarrow> False | Some acts \<Rightarrow> acts = [] \<or> act \<in> set acts)"

fun union_actions :: "string list \<Rightarrow> string list \<Rightarrow> string list" where
  "union_actions acc [] = acc"
| "union_actions acc (a # as) = union_actions (if a \<in> set acc then acc else acc @ [a]) as"

definition scope_union :: "scope \<Rightarrow> scope \<Rightarrow> scope" where
  "scope_union sc other = (\<lambda>srf.
     case (sc srf, other srf) of
       (x, None) \<Rightarrow> x
     | (None, Some acts) \<Rightarrow> Some acts
     | (Some existing, Some acts) \<Rightarrow>
         if existing = [] \<or> acts = [] then Some [] else Some (union_actions existing acts))"

definition scope_surfaces :: "scope \<Rightarrow> string list" where
  "scope_surfaces sc = sorted_list_of_set (dom sc)"

text \<open>The scope of a profile; of two entries for a surface the later counts.\<close>

definition scope_of :: "profile \<Rightarrow> scope" where
  "scope_of p = fold (\<lambda>t sc. sc(sco_surface t \<mapsto> sco_actions t)) (pf_tools p) Map.empty"

definition profile_scopes_agent :: "profile \<Rightarrow> bool" where
  "profile_scopes_agent p = list_ex (\<lambda>t. sco_surface t = ''agent'') (pf_tools p)"

subsection \<open>The dispatch boundary\<close>

record rescope_rung =
  rr_name :: string
  rr_scope :: scope

record scoped =
  sc_scope :: scope
  sc_name :: string
  sc_ladder :: "rescope_rung list"
  sc_budget :: int
  sc_applied :: nat

text \<open>A widening as it is logged: from, to, surface, action.\<close>

type_synonym rescope_event = "string \<times> string \<times> string \<times> string"

definition with_rescope_ladder :: "string \<Rightarrow> rescope_rung list \<Rightarrow> int \<Rightarrow> scoped \<Rightarrow> scoped" where
  "with_rescope_ladder name ladder budget s = s\<lparr>sc_name := name, sc_ladder := ladder, sc_budget := budget\<rparr>"

definition new_scoped :: "scope \<Rightarrow> (scoped \<Rightarrow> scoped) list \<Rightarrow> scoped" where
  "new_scoped sc opts = fold (\<lambda>opt. opt) opts
     \<lparr>sc_scope = sc, sc_name = [], sc_ladder = [], sc_budget = 0, sc_applied = 0\<rparr>"

definition scoped_allows :: "scoped \<Rightarrow> call \<Rightarrow> bool" where
  "scoped_allows s c = allows (sc_scope s) (surface c) (action c)"

definition next_rung :: "scoped \<Rightarrow> call \<Rightarrow> nat option" where
  "next_rung s c = find (\<lambda>i. allows (rr_scope (sc_ladder s ! i)) (surface c) (action c)) [sc_applied s..<length (sc_ladder s)]"

definition try_rescope :: "call \<Rightarrow> scoped \<Rightarrow> (rescope_event \<times> scoped) option" where
  "try_rescope c s =
     (if sc_budget s \<le> 0 then None
      else (case next_rung s c of
              None \<Rightarrow> None
            | Some i \<Rightarrow>
                (let rung = sc_ladder s ! i
                 in Some ((sc_name s, rr_name rung, surface c, action c),
                      s\<lparr>sc_scope := scope_union (sc_scope s) (rr_scope rung), sc_name := rr_name rung,
                        sc_applied := i + 1, sc_budget := sc_budget s - 1\<rparr>))))"

definition deny_reason :: "call \<Rightarrow> scoped \<Rightarrow> string" where
  "deny_reason c s =
     (let have0 = join '', '' (scope_surfaces (sc_scope s));
          have = (if have0 = [] then ''(none)'' else have0);
          tail = '' is not in this run'' @ [CHR 0x27] @ ''s profile scope '' @ em_dash
            @ '' denied at the dispatch boundary; the surfaces you may use are: '' @ have
      in if sc_scope s (surface c) \<noteq> None
         then ''action '' @ go_quote (action c) @ '' on surface '' @ go_quote (surface c) @ tail
         else ''surface '' @ go_quote (surface c) @ tail)"

definition scoped_dispatch :: "'w provider \<Rightarrow> call \<Rightarrow> scoped \<times> 'w \<Rightarrow> result \<times> rescope_event list \<times> scoped \<times> 'w" where
  "scoped_dispatch inner c sw =
     (case sw of (s, w) \<Rightarrow>
        if scoped_allows s c then (case inner c w of (r, w') \<Rightarrow> (r, [], s, w'))
        else (case try_rescope c s of
                Some (ev, s') \<Rightarrow> (case inner c w of (r, w') \<Rightarrow> (r, [ev], s', w'))
              | None \<Rightarrow> (fail c ClassTool (deny_reason c s) 0, [], s, w)))"

text \<open>The ladder of a profile from the registry; names that are not found are passed over.\<close>

definition rescope_ladder :: "profile option \<Rightarrow> (string \<Rightarrow> profile option) option \<Rightarrow> rescope_rung list" where
  "rescope_ladder active reg =
     (case (active, reg) of
        (Some p, Some get) \<Rightarrow> map (\<lambda>q. \<lparr>rr_name = pf_name q, rr_scope = scope_of q\<rparr>) (List.map_filter get (pf_rescope_to p))
      | _ \<Rightarrow> [])"

subsection \<open>Schemas\<close>

definition schema_head :: "go_value" where
  "schema_head = VMap [(''type'', VStr ''string''), (''description'', VStr ''the action to dispatch on this surface'')]"

definition envelope_schema :: go_value where
  "envelope_schema = VMap [(''type'', VStr ''object''),
     (''properties'', VMap [(''action'', schema_head),
        (''params'', VMap [(''type'', VStr ''object''), (''description'', VStr ''action parameters'')]),
        (''rationale'', VMap [(''type'', VStr ''string''), (''description'', VStr ''required for write actions'')])]),
     (''required'', VList [VStr ''action''])]"

definition enriched_schema :: "string list \<Rightarrow> go_value" where
  "enriched_schema actions = VMap [(''type'', VStr ''object''),
     (''properties'', VMap [(''action'', VMap [(''type'', VStr ''string''), (''description'', VStr ''the action to dispatch on this surface''),
          (''enum'', VList (map VStr actions))]),
        (''params'', VMap [(''type'', VStr ''object''),
          (''description'', VStr (''action parameters (keys are listed in the action signature in this tool'' @ [CHR 0x27] @ ''s description)''))]),
        (''rationale'', VMap [(''type'', VStr ''string''), (''description'', VStr ''required for write actions'')])]),
     (''required'', VList [VStr ''action''])]"

fun member :: "string \<Rightarrow> go_value \<Rightarrow> go_value option" where
  "member k (VMap obj) = map_of obj k"
| "member k _ = None"

fun string_of_value :: "go_value \<Rightarrow> string option" where
  "string_of_value (VStr s) = Some s"
| "string_of_value _ = None"

definition enum_of :: "tool_spec \<Rightarrow> string list option" where
  "enum_of s =
     (case Option.bind (member ''properties'' (ts_schema s)) (\<lambda>ps. Option.bind (member ''action'' ps) (member ''enum'')) of
        Some (VList raw) \<Rightarrow> Some (List.map_filter string_of_value raw)
      | _ \<Rightarrow> None)"

subsection \<open>Projection\<close>

definition action_of_line :: "string \<Rightarrow> string" where
  "action_of_line line = takeWhile (\<lambda>c. c \<noteq> CHR ''('' \<and> c \<noteq> CHR '' '') (trim_prefix line ''- '')"

definition filter_action_lines :: "string \<Rightarrow> string list \<Rightarrow> string" where
  "filter_action_lines desc allowed =
     join newline (filter (\<lambda>l. \<not> has_prefix l ''- '' \<or> action_of_line l \<in> set allowed) (split_char (CHR 0x0A) desc))"

definition project_actions :: "tool_spec \<Rightarrow> string list \<Rightarrow> tool_spec option" where
  "project_actions s allowed =
     (case enum_of s of
        None \<Rightarrow> None
      | Some enum \<Rightarrow>
          (let kept = filter (\<lambda>a. a \<in> set allowed) enum
           in if kept = [] then None
              else Some \<lparr>ts_name = ts_name s, ts_description = filter_action_lines (ts_description s) allowed,
                         ts_schema = enriched_schema kept\<rparr>))"

definition project_spec :: "scope \<Rightarrow> tool_spec \<Rightarrow> tool_spec option" where
  "project_spec sc s =
     (case sc (ts_name s) of
        None \<Rightarrow> None
      | Some allowed \<Rightarrow> if allowed = [] then Some s else project_actions s allowed)"

definition project_specs :: "tool_spec list \<Rightarrow> scope \<Rightarrow> tool_spec list" where
  "project_specs specs sc = List.map_filter (project_spec sc) specs"

definition is_enriched :: "tool_spec \<Rightarrow> bool" where
  "is_enriched s = (enum_of s \<noteq> None)"

definition scoped_surfaces_degraded :: "profile option \<Rightarrow> tool_spec list \<Rightarrow> bool" where
  "scoped_surfaces_degraded p specs =
     (case p of None \<Rightarrow> False
      | Some pf \<Rightarrow> list_ex (\<lambda>s. ts_name s \<in> sco_surface ` set (pf_tools pf) \<and> \<not> is_enriched s) specs)"

record spec_footprint =
  sf_name :: string
  sf_description_bytes :: nat
  sf_schema_bytes :: nat
  sf_tokens :: nat
  sf_enriched :: bool

definition footprint_of :: "(go_value \<Rightarrow> string option) \<Rightarrow> tool_spec \<Rightarrow> spec_footprint" where
  "footprint_of jm s =
     (let d = length (ts_description s); n = (case jm (ts_schema s) of None \<Rightarrow> 0 | Some t \<Rightarrow> length t)
      in \<lparr>sf_name = ts_name s, sf_description_bytes = d, sf_schema_bytes = n, sf_tokens = (d + n + 3) div 4, sf_enriched = is_enriched s\<rparr>)"

definition footprint :: "(go_value \<Rightarrow> string option) \<Rightarrow> tool_spec list \<Rightarrow> spec_footprint list \<times> nat \<times> nat" where
  "footprint jm specs =
     (let per = map (footprint_of jm) specs
      in (per, sum_list (map sf_tokens per), length (filter sf_enriched per)))"

subsection \<open>The aggregator\<close>

record 'w server =
  sv_name :: string
  sv_provider :: "'w provider option"
  sv_specs :: "tool_spec list"

record 'w aggregator =
  ag_routes :: "string \<rightharpoonup> 'w provider"
  ag_owner :: "string \<rightharpoonup> string"
  ag_specs :: "tool_spec list"

fun mount_specs :: "string \<Rightarrow> 'w provider \<Rightarrow> tool_spec list \<Rightarrow> 'w aggregator \<Rightarrow> string + 'w aggregator" where
  "mount_specs name p [] a = Inr a"
| "mount_specs name p (t # ts) a =
     (case ag_owner a (ts_name t) of
        Some prev \<Rightarrow> Inl (''surface '' @ go_quote (ts_name t) @ '' is offered by both server '' @ go_quote prev
          @ '' and server '' @ go_quote name)
      | None \<Rightarrow> mount_specs name p ts
          \<lparr>ag_routes = (ag_routes a)(ts_name t \<mapsto> p), ag_owner = (ag_owner a)(ts_name t \<mapsto> name), ag_specs = ag_specs a @ [t]\<rparr>)"

fun mount_servers :: "'w server list \<Rightarrow> 'w aggregator \<Rightarrow> string + 'w aggregator" where
  "mount_servers [] a = Inr a"
| "mount_servers (sv # svs) a =
     (case sv_provider sv of
        None \<Rightarrow> Inl (''server '' @ go_quote (sv_name sv) @ '' has no provider'')
      | Some p \<Rightarrow> (case mount_specs (sv_name sv) p (sv_specs sv) a of Inl e \<Rightarrow> Inl e | Inr a' \<Rightarrow> mount_servers svs a'))"

definition new_aggregator :: "'w server list \<Rightarrow> string + 'w aggregator" where
  "new_aggregator svs =
     (if svs = [] then Inl ''aggregator needs at least one server''
      else mount_servers svs \<lparr>ag_routes = Map.empty, ag_owner = Map.empty, ag_specs = []\<rparr>)"

definition aggregator_dispatch :: "'w aggregator \<Rightarrow> 'w provider" where
  "aggregator_dispatch a c w =
     (case ag_routes a (surface c) of
        None \<Rightarrow> (fail c ClassTool (''no mounted server offers surface '' @ go_quote (surface c)) 0, w)
      | Some p \<Rightarrow> p c w)"

subsection \<open>Bug records\<close>

definition ground_truth_status_fields :: "string list" where
  "ground_truth_status_fields = [''status'', ''resolution_kind'', ''resolved_commit_sha'', ''resolved_at'']"

definition ground_truth_directive :: string where
  "ground_truth_directive =
     ''The fields under '' @ [CHR 0x60] @ ''ledger_status'' @ [CHR 0x60] @ '' are the work ledger'' @
     [CHR 0x27] @
     ''s bookkeeping, NOT proof the code currently works: a reverted or seeded-regression fix lea'' @
     ''ves status='' @ [CHR 0x27] @ ''fixed'' @ [CHR 0x27] @
     '' while the repo gate is RED. Treat the actual build/test gate + repo state as authoritativ'' @
     ''e. If the gate is RED this bug is NOT fixed regardless of ledger_status '' @ em_dash @
     '' frame the duty as '' @ [CHR 0x27] @ ''fix the failing behavior'' @ [CHR 0x27] @ '', never '' @
     [CHR 0x27] @ ''verify the existing fix + add a test'' @ [CHR 0x27] @ ''.''"

text \<open>A record as a Go map: a list without repeated keys.\<close>

definition status_part :: "(string \<times> go_value) list \<Rightarrow> (string \<times> go_value) list" where
  "status_part m = List.map_filter (\<lambda>f. map_option (Pair f) (map_of m f)) ground_truth_status_fields"

definition reconcile_record :: "(string \<times> go_value) list \<Rightarrow> (string \<times> go_value) list" where
  "reconcile_record m =
     (if status_part m = [] then m
      else (let rest = filter (\<lambda>(k, v). k \<notin> set ground_truth_status_fields) m
            in AList.update ''ground_truth_directive'' (VStr ground_truth_directive)
                 (AList.update ''ledger_status'' (VMap (status_part m)) rest)))"

definition reconcile :: "call \<Rightarrow> result \<Rightarrow> result" where
  "reconcile c res =
     (if \<not> res_ok res \<or> surface c \<noteq> ''work'' \<or> action c \<noteq> ''bug_read'' then res
      else (case res_value res of VMap m \<Rightarrow> res\<lparr>res_value := VMap (reconcile_record m)\<rparr> | _ \<Rightarrow> res))"

definition reconciled :: "'w provider \<Rightarrow> 'w provider" where
  "reconciled inner c w = (case inner c w of (res, w') \<Rightarrow> (reconcile c res, w'))"

subsection \<open>The client\<close>

text \<open>How the transport fails: on the network, on a body that does not decode, otherwise.\<close>

datatype client_error = TransportError string | ParseError string | OtherError string

type_synonym 'w transport = "string \<Rightarrow> (string \<times> go_value) list \<Rightarrow> 'w \<Rightarrow> (client_error + go_value) \<times> 'w"

definition classify_client :: "client_error \<Rightarrow> error_class \<times> string" where
  "classify_client e =
     (case e of TransportError t \<Rightarrow> (ClassTransient, t) | ParseError t \<Rightarrow> (ClassParse, t) | OtherError t \<Rightarrow> (ClassFatal, t))"

definition span_id_of :: "(string \<times> go_value) list \<Rightarrow> string" where
  "span_id_of m = (case map_of m ''span_id'' of Some (VStr s) \<Rightarrow> s | _ \<Rightarrow> [])"

definition call_body :: "string \<Rightarrow> call \<Rightarrow> (string \<times> go_value) list" where
  "call_body proj c =
     [(''action'', VStr (action c)), (''params'', VMap (object_of (params c)))]
     @ nonempty_field ''rationale'' (rationale c) @ nonempty_field ''project'' proj"

fun type_name :: "go_value \<Rightarrow> string" where
  "type_name VNil = ''<nil>''"
| "type_name (VBool b) = ''bool''"
| "type_name (VNum q) = ''float64''"
| "type_name (VStr s) = ''string''"
| "type_name (VStrs ss) = ''[]string''"
| "type_name (VList vs) = ''[]interface {}''"
| "type_name (VMap m) = ''map[string]interface {}''"

definition client_result :: "call \<Rightarrow> int \<Rightarrow> go_value \<Rightarrow> result" where
  "client_result c ms v =
     (case v of
        VMap m \<Rightarrow>
          (if map_of m ''error'' \<noteq> None
           then \<lparr>res_call = c, res_ok = False, res_value = v, res_class = ClassTool, latency_ms = ms, span_id = span_id_of m\<rparr>
           else \<lparr>res_call = c, res_ok = True, res_value = v, res_class = ClassNone, latency_ms = ms, span_id = span_id_of m\<rparr>)
      | VList vs \<Rightarrow> \<lparr>res_call = c, res_ok = True, res_value = v, res_class = ClassNone, latency_ms = ms, span_id = []\<rparr>
      | _ \<Rightarrow> fail c ClassFatal (''unexpected response type '' @ type_name v) ms)"

definition client_dispatch :: "'w transport \<Rightarrow> ('w \<Rightarrow> int) \<Rightarrow> string \<Rightarrow> 'w provider" where
  "client_dispatch transport elapsed proj c w =
     (case transport (''/mcp/'' @ surface c) (call_body proj c) w of
        (Inl e, w') \<Rightarrow> (case classify_client e of (cls, t) \<Rightarrow> (fail c cls t (elapsed w'), w'))
      | (Inr v, w') \<Rightarrow> (client_result c (elapsed w') v, w'))"

definition truncate_bytes :: "string \<Rightarrow> nat \<Rightarrow> string" where
  "truncate_bytes b n = (if length b \<le> n then b else take n b @ [CHR 0xE2, CHR 0x80, CHR 0xA6])"

definition http_transport :: "codec \<Rightarrow> 'w http \<Rightarrow> string \<Rightarrow> 'w transport" where
  "http_transport j http base path body w =
     (case jc_encode j (VMap body) of
        Inl e \<Rightarrow> (Inl (OtherError (''marshal request: '' @ e)), w)
      | Inr raw \<Rightarrow>
          (case http \<lparr>rq_url = base @ path, rq_key = [], rq_payload = raw\<rparr> w of
             (NotBuilt e, w1) \<Rightarrow> (Inl (TransportError (err_text e)), w1)
           | (NotAnswered e, w1) \<Rightarrow> (Inl (TransportError (err_text e)), w1)
           | (Replied rep, w1) \<Rightarrow>
               (case hr_body rep of
                  Inl e \<Rightarrow> (Inl (TransportError (err_text e)), w1)
                | Inr data \<Rightarrow>
                    (case jc_decode j data of
                       Inl e \<Rightarrow> (Inl (ParseError (''non-JSON response (status '' @ itoa (hr_status rep) @ ''): '' @ truncate_bytes data 200)), w1)
                     | Inr v \<Rightarrow> (Inr v, w1)))))"

definition new_client :: "codec \<Rightarrow> 'w http \<Rightarrow> ('w \<Rightarrow> int) \<Rightarrow> string \<Rightarrow> string \<Rightarrow> 'w provider" where
  "new_client j http elapsed url proj =
     client_dispatch (http_transport j http (rev (dropWhile (\<lambda>c. c = CHR ''/'') (rev url)))) elapsed proj"

subsection \<open>Enriched tools\<close>

definition ab_surfaces :: "(string \<times> string) list" where
  "ab_surfaces = [
     (''work'', ''Chains, tasks, bugs, roadmap, and forge on the toolkit-server work ledger.''),
     (''knowledge'', ''Vault, kiwix, library, and parse_context on the knowledge surface.''),
     (''fs'', ''Owned filesystem: read, write, edit, grep (regex content search), glob (file pattern match''
        @ ''), ls (directory listing).''),
     (''measure'', ''Benchmarks (record/query/replay) and the Qwen-local rubric-classify family '' @ em_dash
        @ '' severity, proportionality, routing-trigger, and other classifiers.''),
     (''sys'', ''Owned system surface. Read-only introspection (ungated): ps (processes), ports (listening ''
        @ ''sockets + owning pid), units (systemd-user units), containers (podman+docker). Plus exec (''
        @ ''gated: allowlisted command + rationale) to run shell commands.'')]"

definition thin_spec :: "string \<Rightarrow> string \<Rightarrow> tool_spec" where
  "thin_spec name desc = \<lparr>ts_name = name, ts_description = desc, ts_schema = envelope_schema\<rparr>"

definition lines_block :: "string list \<Rightarrow> string" where
  "lines_block es = concat (map (\<lambda>e. newline @ ''- '' @ e) es)"

definition build_lazy_description :: "string \<Rightarrow> string list \<Rightarrow> string" where
  "build_lazy_description purpose names =
     purpose @ newline @ newline @ ''Actions (params NOT inlined '' @ em_dash
     @ '' call admin.action_describe(surface, action) for each one'' @ [CHR 0x27]
     @ ''s params, aliases, and examples before using it):'' @ lines_block names @ newline @ newline
     @ ''Use these exact action names. admin.action_describe(surface, action) on the substrate is the canonical per-action doc.''"

definition build_description :: "string \<Rightarrow> string list \<Rightarrow> string" where
  "build_description purpose entries =
     purpose @ newline @ newline @ ''Actions '' @ em_dash @ '' name(params) '' @ em_dash
     @ '' purpose; ? marks an optional param:'' @ lines_block entries @ newline @ newline
     @ ''Use these exact action names and param keys. For full param docs, aliases, and examples, ''
     @ ''admin.action_describe(surface, action) on the substrate is canonical.''"

definition lazy_envelope_spec :: "string \<Rightarrow> string \<Rightarrow> string list \<Rightarrow> tool_spec" where
  "lazy_envelope_spec srf purpose names =
     \<lparr>ts_name = srf, ts_description = build_lazy_description purpose names, ts_schema = enriched_schema names\<rparr>"

definition envelope_spec :: "string \<Rightarrow> string \<Rightarrow> string list \<Rightarrow> string list \<Rightarrow> tool_spec" where
  "envelope_spec srf purpose names entries =
     \<lparr>ts_name = srf, ts_description = build_description purpose entries, ts_schema = enriched_schema names\<rparr>"

text \<open>A parameter of an action: its name and whether it is required.\<close>

type_synonym spec_param = "string \<times> bool"

definition param_label :: "spec_param \<Rightarrow> string" where
  "param_label p = (if snd p then fst p else fst p @ ''?'')"

definition signature :: "string \<Rightarrow> spec_param list \<Rightarrow> string" where
  "signature act ps =
     act @ ''('' @ join '', '' (map param_label (take 8 ps) @ (if 8 < length ps then [[CHR 0xE2, CHR 0x80, CHR 0xA6]] else [])) @ '')''"

definition cut_at :: "string \<Rightarrow> string \<Rightarrow> string" where
  "cut_at sep p = (case str_index p sep of Some (Suc i) \<Rightarrow> take (Suc i) p | _ \<Rightarrow> p)"

definition trim_dots :: "string \<Rightarrow> string" where
  "trim_dots s = rev (dropWhile (\<lambda>c. c = CHR ''.'') (rev s))"

definition short_purpose :: "string \<Rightarrow> string" where
  "short_purpose p0 =
     (let p = trim_dots (cut_at ''; '' (cut_at ('' '' @ em_dash @ '' '') (cut_at ''. '' (trim_space p0))))
      in if trim_space p0 = [] then []
         else if 80 < length p then trim_space (take 80 p) @ [CHR 0xE2, CHR 0x80, CHR 0xA6] else p)"

definition list_member :: "string \<Rightarrow> go_value \<Rightarrow> go_value list" where
  "list_member k v = (case member k v of Some (VList vs) \<Rightarrow> vs | _ \<Rightarrow> [])"

definition string_member :: "string \<Rightarrow> go_value \<Rightarrow> string" where
  "string_member k v = (case member k v of Some (VStr s) \<Rightarrow> s | _ \<Rightarrow> [])"

definition actions_from :: "go_value \<Rightarrow> string list" where
  "actions_from v = filter (\<lambda>s. s \<noteq> []) (List.map_filter string_of_value (list_member ''actions'' v))"

definition params_from :: "go_value \<Rightarrow> spec_param list" where
  "params_from v =
     List.map_filter (\<lambda>p. if string_member ''name'' p = [] then None
       else Some (string_member ''name'' p, member ''required'' p = Some (VBool True))) (list_member ''params'' v)"

definition plain_call :: "string \<Rightarrow> string \<Rightarrow> (string \<rightharpoonup> go_value) option \<Rightarrow> call" where
  "plain_call srf act ps = \<lparr>call_id = [], surface = srf, action = act, params = ps, rationale = []\<rparr>"

definition describe_call :: "string \<Rightarrow> string \<Rightarrow> call" where
  "describe_call srf act = plain_call ''admin'' ''action_describe'' (Some [''surface'' \<mapsto> VStr srf, ''action'' \<mapsto> VStr act])"

definition entry_of :: "string \<Rightarrow> result \<Rightarrow> string" where
  "entry_of act res =
     (if \<not> res_ok res then act
      else (let p = short_purpose (string_member ''purpose'' (res_value res))
            in signature act (params_from (res_value res)) @ (if p = [] then [] else '' '' @ em_dash @ '' '' @ p)))"

fun entries_of :: "'w provider \<Rightarrow> string \<Rightarrow> string list \<Rightarrow> 'w \<Rightarrow> string list \<times> 'w" where
  "entries_of src srf [] w = ([], w)"
| "entries_of src srf (a # as) w =
     (let (res, w1) = src (describe_call srf a) w; (es, w2) = entries_of src srf as w1 in (entry_of a res # es, w2))"

definition surface_actions :: "'w provider \<Rightarrow> string \<Rightarrow> 'w \<Rightarrow> string list \<times> 'w" where
  "surface_actions src srf w =
     (case src (plain_call srf ''__actions__'' None) w of
        (res, w1) \<Rightarrow> (if res_ok res then sort (actions_from (res_value res)) else [], w1))"

definition enrich_surface :: "'w provider \<Rightarrow> string \<times> string \<Rightarrow> 'w \<Rightarrow> tool_spec \<times> 'w" where
  "enrich_surface src sp w =
     (case sp of (srf, purpose) \<Rightarrow>
        (let (actions, w1) = surface_actions src srf w
         in if actions = [] then (thin_spec srf purpose, w1)
            else (let (es, w2) = entries_of src srf actions w1 in (envelope_spec srf purpose actions es, w2))))"

definition lazy_surface :: "'w provider \<Rightarrow> string \<times> string \<Rightarrow> 'w \<Rightarrow> tool_spec \<times> 'w" where
  "lazy_surface src sp w =
     (case sp of (srf, purpose) \<Rightarrow>
        (let (actions, w1) = surface_actions src srf w
         in (if actions = [] then thin_spec srf purpose else lazy_envelope_spec srf purpose actions, w1)))"

fun build_specs :: "(string \<times> string \<Rightarrow> 'w \<Rightarrow> tool_spec \<times> 'w) \<Rightarrow> (string \<times> string) list \<Rightarrow> 'w \<Rightarrow> tool_spec list \<times> 'w" where
  "build_specs f [] w = ([], w)"
| "build_specs f (sp # sps) w = (let (t, w1) = f sp w; (ts, w2) = build_specs f sps w1 in (t # ts, w2))"

definition enriched_specs :: "'w provider \<Rightarrow> 'w \<Rightarrow> tool_spec list \<times> 'w" where
  "enriched_specs src w = build_specs (enrich_surface src) ab_surfaces w"

definition lazy_enriched_specs :: "'w provider \<Rightarrow> 'w \<Rightarrow> tool_spec list \<times> 'w" where
  "lazy_enriched_specs src w = build_specs (lazy_surface src) ab_surfaces w"

subsection \<open>Configuration\<close>

record server_config =
  sg_type :: string
  sg_url :: string
  sg_project :: string
  sg_search_url :: string
  sg_user_agent :: string

type_synonym mcp_config = "string \<rightharpoonup> server_config"

definition known_server_types :: "string list" where
  "known_server_types = [''toolkit-http'', ''web'']"

definition config_names :: "mcp_config \<Rightarrow> string list" where
  "config_names c = sorted_list_of_set (dom c)"

definition server_problem :: "string \<Rightarrow> server_config \<Rightarrow> string option" where
  "server_problem name s =
     (if sg_type s \<notin> set known_server_types
      then Some (''server '' @ go_quote name @ '' has unknown type '' @ go_quote (sg_type s) @ '' (want toolkit-http|web)'')
      else if sg_type s = ''toolkit-http'' \<and> blank (sg_url s)
      then Some (''server '' @ go_quote name @ '' (toolkit-http) has no url'') else None)"

fun first_problem :: "mcp_config \<Rightarrow> string list \<Rightarrow> string option" where
  "first_problem c [] = None"
| "first_problem c (n # ns) =
     (case c n of None \<Rightarrow> first_problem c ns
      | Some s \<Rightarrow> (case server_problem n s of Some e \<Rightarrow> Some e | None \<Rightarrow> first_problem c ns))"

definition validate_config :: "mcp_config \<Rightarrow> string option" where
  "validate_config c =
     (if config_names c = [] then Some (''mcp config mounts no servers (need at least one under '' @ go_quote ''mcpServers'' @ '')'')
      else first_problem c (config_names c))"

definition default_mcp_config :: "string \<Rightarrow> string \<Rightarrow> mcp_config" where
  "default_mcp_config url proj =
     [''toolkit'' \<mapsto> \<lparr>sg_type = ''toolkit-http'', sg_url = url, sg_project = proj, sg_search_url = [], sg_user_agent = []\<rparr>,
      ''web'' \<mapsto> \<lparr>sg_type = ''web'', sg_url = [], sg_project = [], sg_search_url = [], sg_user_agent = []\<rparr>]"

text \<open>The strict decoder is an argument.\<close>

definition parse_config :: "(string \<Rightarrow> string + mcp_config) \<Rightarrow> string \<Rightarrow> string + mcp_config" where
  "parse_config decode data =
     (case decode data of
        Inl e \<Rightarrow> Inl (''parse mcp config: '' @ e)
      | Inr c \<Rightarrow> (case validate_config c of Some e \<Rightarrow> Inl e | None \<Rightarrow> Inr c))"

definition load_config :: "(string \<Rightarrow> string + mcp_config) \<Rightarrow> (string \<Rightarrow> string + string) \<Rightarrow> string \<Rightarrow> string + mcp_config" where
  "load_config decode read path =
     (case read path of Inl e \<Rightarrow> Inl (''read mcp config '' @ path @ '': '' @ e) | Inr data \<Rightarrow> parse_config decode data)"

subsection \<open>The mounted servers\<close>

text \<open>The constructors of the providers: the toolkit client for an address and a project, the web surface, the two
  organs of the host.\<close>

record 'w mounts =
  mk_client :: "string \<Rightarrow> string \<Rightarrow> 'w provider"
  mk_web :: "string \<Rightarrow> string \<Rightarrow> 'w provider \<times> tool_spec list"
  mk_fs :: "'w provider \<times> tool_spec list"
  mk_sys :: "'w provider option \<Rightarrow> 'w provider \<times> tool_spec list"

definition drop_surface_spec :: "string \<Rightarrow> 'w server \<Rightarrow> 'w server" where
  "drop_surface_spec srf sv = sv\<lparr>sv_specs := filter (\<lambda>t. ts_name t \<noteq> srf) (sv_specs sv)\<rparr>"

definition mount_native_fs :: "'w mounts \<Rightarrow> 'w server list \<Rightarrow> 'w server list" where
  "mount_native_fs mk svs = map (drop_surface_spec ''fs'') svs
     @ [\<lparr>sv_name = ''fs-native'', sv_provider = Some (fst (mk_fs mk)), sv_specs = snd (mk_fs mk)\<rparr>]"

definition mount_native_sys :: "'w mounts \<Rightarrow> 'w provider option \<Rightarrow> 'w server list \<Rightarrow> 'w server list" where
  "mount_native_sys mk delegate svs = map (drop_surface_spec ''sys'') svs
     @ [\<lparr>sv_name = ''sys-native'', sv_provider = Some (fst (mk_sys mk delegate)), sv_specs = snd (mk_sys mk delegate)\<rparr>]"

text \<open>The full catalog of a toolkit server is fetched also when only the envelopes are offered.\<close>

fun configured_servers ::
  "'w mounts \<Rightarrow> bool \<Rightarrow> (string \<times> server_config) list \<Rightarrow> 'w provider option \<Rightarrow> 'w
     \<Rightarrow> (string + 'w server list \<times> 'w provider option) \<times> 'w" where
  "configured_servers mk lazy [] delegate w = (Inr ([], delegate), w)"
| "configured_servers mk lazy ((name, cfg) # cs) delegate w =
     (if sg_type cfg = ''toolkit-http'' then
        (let client = mk_client mk (sg_url cfg) (sg_project cfg);
             (full, w1) = enriched_specs client w;
             (specs, w2) = (if lazy then lazy_enriched_specs client w1 else (full, w1))
         in (case configured_servers mk lazy cs (Some client) w2 of
               (Inl e, w3) \<Rightarrow> (Inl e, w3)
             | (Inr (svs, d), w3) \<Rightarrow> (Inr (\<lparr>sv_name = name, sv_provider = Some client, sv_specs = specs\<rparr> # svs, d), w3)))
      else if sg_type cfg = ''web'' then
        (let (p, specs) = mk_web mk (sg_search_url cfg) (sg_user_agent cfg)
         in (case configured_servers mk lazy cs delegate w of
               (Inl e, w3) \<Rightarrow> (Inl e, w3)
             | (Inr (svs, d), w3) \<Rightarrow> (Inr (\<lparr>sv_name = name, sv_provider = Some p, sv_specs = specs\<rparr> # svs, d), w3)))
      else (Inl (''unsupported server type '' @ go_quote (sg_type cfg) @ '' for server '' @ go_quote name), w))"

definition build_servers :: "'w mounts \<Rightarrow> mcp_config \<Rightarrow> bool \<Rightarrow> 'w \<Rightarrow> (string + 'w server list) \<times> 'w" where
  "build_servers mk c lazy w =
     (case configured_servers mk lazy (map (\<lambda>n. (n, the (c n))) (config_names c)) None w of
        (Inl e, w1) \<Rightarrow> (Inl e, w1)
      | (Inr (svs, d), w1) \<Rightarrow> (Inr (mount_native_sys mk d (mount_native_fs mk svs)), w1))"

end
