(* ===== verification/Mcp_Props.thy ===== *)
theory Mcp_Props
  imports Mcp "HOL-Library.Sublist"
begin

text \<open>
  Properties of the tool providers: widening grants exactly the union, a scoped run reaches its provider only
  with calls that its scope or a rung it took grants, what is offered is allowed, the aggregator routes every
  surface to its one owner, the host's organs own their surfaces, bug records are reconciled once.
\<close>

subsection \<open>Widening\<close>

lemma union_actions_set: "set (union_actions acc as) = set acc \<union> set as"
  by (induction acc as rule: union_actions.induct) auto

lemma union_actions_Nil: "union_actions acc as = [] \<Longrightarrow> acc = []"
  by (induction acc as rule: union_actions.induct) (auto split: if_splits)

theorem union_exact: "allows (scope_union a b) srf act \<longleftrightarrow> allows a srf act \<or> allows b srf act"
proof (cases "a srf"; cases "b srf")
  fix x y assume "a srf = Some x" "b srf = Some y"
  then show ?thesis
    using union_actions_Nil [of x y] by (auto simp: allows_def scope_union_def union_actions_set)
qed (auto simp: allows_def scope_union_def)

subsection \<open>The boundary\<close>

text \<open>A provider whose calls are recorded in the world.\<close>

definition recording :: "'w provider \<Rightarrow> (call list \<times> 'w) provider" where
  "recording inner c lw = (case lw of (cs, w) \<Rightarrow> (case inner c w of (r, w') \<Rightarrow> (r, (cs @ [c], w'))))"

fun scoped_run :: "'w provider \<Rightarrow> call list \<Rightarrow> scoped \<times> 'w \<Rightarrow> result list \<times> rescope_event list \<times> scoped \<times> 'w" where
  "scoped_run inner [] (s, w) = ([], [], s, w)"
| "scoped_run inner (c # cs) (s, w) =
     (case scoped_dispatch inner c (s, w) of (r, evs, s1, w1) \<Rightarrow>
        (case scoped_run inner cs (s1, w1) of (rs, evs', s2, w2) \<Rightarrow> (r # rs, evs @ evs', s2, w2)))"

definition granted_by :: "scoped \<Rightarrow> nat list \<Rightarrow> call \<Rightarrow> bool" where
  "granted_by s taken c \<longleftrightarrow> allows (sc_scope s) (surface c) (action c)
     \<or> (\<exists>i \<in> set taken. allows (rr_scope (sc_ladder s ! i)) (surface c) (action c))"

lemma next_rung_Some:
  "next_rung s c = Some i \<Longrightarrow>
     sc_applied s \<le> i \<and> i < length (sc_ladder s) \<and> allows (rr_scope (sc_ladder s ! i)) (surface c) (action c)"
  by (auto simp: next_rung_def find_Some_iff)

lemma recorded_dispatch:
  assumes "scoped_dispatch (recording inner) c (s, (log0, w)) = (r, evs, s1, (log1, w1))"
  obtains (Granted) "scoped_allows s c" "s1 = s" "log1 = log0 @ [c]" "evs = []"
  | (Widened) i where "next_rung s c = Some i" "0 < sc_budget s" "log1 = log0 @ [c]" "length evs = 1"
      "s1 = s\<lparr>sc_scope := scope_union (sc_scope s) (rr_scope (sc_ladder s ! i)), sc_name := rr_name (sc_ladder s ! i),
              sc_applied := i + 1, sc_budget := sc_budget s - 1\<rparr>"
  | (Denied) "s1 = s" "log1 = log0" "w1 = w" "evs = []" "\<not> res_ok r" "\<not> scoped_allows s c"
proof -
  obtain r0 w0 where i: "inner c w = (r0, w0)" by force
  show thesis
  proof (cases "scoped_allows s c")
    case True
    with assms i show thesis by (intro that(1)) (auto simp: scoped_dispatch_def recording_def)
  next
    case no: False
    show thesis
    proof (cases "sc_budget s \<le> 0 \<or> next_rung s c = None")
      case True
      with no assms show thesis by (intro that(3)) (auto simp: scoped_dispatch_def try_rescope_def fail_def split: if_splits)
    next
      case False
      then obtain k where k: "next_rung s c = Some k" "0 < sc_budget s" by auto
      with no assms i show thesis
        by (intro that(2) [of k]) (auto simp: scoped_dispatch_def try_rescope_def recording_def Let_def)
    qed
  qed
qed

text \<open>C12: Over any calls, in any order: every call that reaches the provider is granted by the scope of the profile or
  by a rung of its ladder that was taken; rungs are taken upwards, each once, and no more than the budget; each
  is logged; and what the scope allows in the end is what it allowed at first with what the taken rungs grant.\<close>

theorem scoped_run_confined:
  assumes "scoped_run (recording inner) cs (s, (log0, w)) = (rs, evs, s', (log1, w'))"
  shows "\<exists>taken passed. sorted_wrt (<) taken \<and> set taken \<subseteq> {sc_applied s..<length (sc_ladder s)}
    \<and> length taken \<le> nat (sc_budget s) \<and> length evs = length taken
    \<and> log1 = log0 @ passed \<and> subseq passed cs \<and> list_all (granted_by s taken) passed
    \<and> (\<forall>c. scoped_allows s' c \<longleftrightarrow> granted_by s taken c)"
  using assms
proof (induction cs arbitrary: s log0 w rs evs)
  case Nil
  then show ?case by (auto simp: granted_by_def scoped_allows_def intro!: exI [of _ "[]"])
next
  case (Cons c cs)
  obtain r evs1 s1 log2 w1 where d: "scoped_dispatch (recording inner) c (s, (log0, w)) = (r, evs1, s1, (log2, w1))"
    by (metis prod.collapse)
  obtain rs2 evs2 where rest: "scoped_run (recording inner) cs (s1, (log2, w1)) = (rs2, evs2, s', (log1, w'))" "evs = evs1 @ evs2"
    using Cons.prems d by (auto split: prod.splits)
  from Cons.IH [OF rest(1)] obtain taken passed where t: "sorted_wrt (<) taken" "set taken \<subseteq> {sc_applied s1..<length (sc_ladder s1)}"
    "length taken \<le> nat (sc_budget s1)" "length evs2 = length taken" "log1 = log2 @ passed" "subseq passed cs"
    "list_all (granted_by s1 taken) passed" "\<forall>c. scoped_allows s' c \<longleftrightarrow> granted_by s1 taken c" by blast
  from d show ?case
  proof (cases rule: recorded_dispatch)
    case Granted
    then have "granted_by s taken c" by (simp add: granted_by_def scoped_allows_def)
    with t Granted rest(2) show ?thesis by (intro exI [of _ taken] exI [of _ "c # passed"]) simp
  next
    case (Widened i)
    note nr = next_rung_Some [OF Widened(1)]
    have lad: "sc_ladder s1 = sc_ladder s" using Widened(5) by simp
    have eq: "granted_by s1 taken x \<longleftrightarrow> granted_by s (i # taken) x" for x
      using Widened(5) by (auto simp: granted_by_def union_exact)
    have "granted_by s (i # taken) c" using nr by (auto simp: granted_by_def)
    moreover have "sorted_wrt (<) (i # taken)" using t(1,2) Widened(5) by auto
    moreover have "set (i # taken) \<subseteq> {sc_applied s..<length (sc_ladder s)}" using t(2) nr Widened(5) by auto
    moreover have "length (i # taken) \<le> nat (sc_budget s)" using t(3) Widened(2,5) by simp
    moreover have "list_all (granted_by s (i # taken)) passed" "\<forall>x. scoped_allows s' x \<longleftrightarrow> granted_by s (i # taken) x"
      using t(7,8) eq by (auto simp: list_all_iff)
    ultimately show ?thesis using t(4-6) Widened(3,4) rest(2)
      by (intro exI [of _ "i # taken"] exI [of _ "c # passed"]) simp
  next
    case Denied
    with t rest(2) show ?thesis by (intro exI [of _ taken] exI [of _ passed]) auto
  qed
qed

subsection \<open>A run\<close>

definition narrow_scope :: scope where "narrow_scope = [''fs'' \<mapsto> [''read'']]"

definition demo_scoped :: scoped where
  "demo_scoped = new_scoped narrow_scope
     [with_rescope_ladder ''reader'' [\<lparr>rr_name = ''docs'', rr_scope = [''web'' \<mapsto> []]\<rparr>, \<lparr>rr_name = ''coder'', rr_scope = [''fs'' \<mapsto> [''write'']]\<rparr>] 1]"

definition silent_provider :: "unit provider" where
  "silent_provider c w = (\<lparr>res_call = c, res_ok = True, res_value = VNil, res_class = ClassNone, latency_ms = 0, span_id = []\<rparr>, w)"

definition demo_calls :: "call list" where
  "demo_calls = [plain_call ''fs'' ''read'' None, plain_call ''sys'' ''exec'' None, plain_call ''fs'' ''write'' None, plain_call ''web'' ''search'' None]"

lemma demo_confined:
  "fst (snd (snd (snd (scoped_run (recording silent_provider) demo_calls (demo_scoped, ([], ()))))))
     = [plain_call ''fs'' ''read'' None, plain_call ''fs'' ''write'' None]"
  by (simp add: demo_calls_def demo_scoped_def new_scoped_def with_rescope_ladder_def plain_call_def scoped_dispatch_def
      scoped_allows_def allows_def narrow_scope_def recording_def silent_provider_def try_rescope_def next_rung_def scope_union_def
      upt_rec numeral_2_eq_2 Let_def)

theorem scoped_run_confined_witness:
  "\<exists>taken. sorted_wrt (<) taken \<and> length taken \<le> 1
     \<and> list_all (granted_by demo_scoped taken) [plain_call ''fs'' ''read'' None, plain_call ''fs'' ''write'' None]"
proof -
  obtain rs evs s' log1 w' where r: "scoped_run (recording silent_provider) demo_calls (demo_scoped, ([], ())) = (rs, evs, s', (log1, w'))"
    by (metis prod.collapse)
  have "sc_budget demo_scoped = 1" by (simp add: demo_scoped_def new_scoped_def with_rescope_ladder_def)
  with scoped_run_confined [OF r] r demo_confined show ?thesis by auto
qed

subsection \<open>Projection\<close>

lemma enriched_enum: "enum_of \<lparr>ts_name = n, ts_description = d, ts_schema = enriched_schema acts\<rparr> = Some acts"
  by (induction acts) (simp_all add: enum_of_def enriched_schema_def)

text \<open>What is offered to a model is what the boundary lets through: every action listed on a projected tool is
  allowed, a tool without a list is there only for a scope of the whole surface; and an allowed action that the
  catalog lists stays on offer.\<close>

theorem projection_agrees:
  "t \<in> set (project_specs specs sc) \<Longrightarrow>
     sc (ts_name t) \<noteq> None
     \<and> (case enum_of t of None \<Rightarrow> \<forall>act. allows sc (ts_name t) act | Some acts \<Rightarrow> \<forall>act \<in> set acts. allows sc (ts_name t) act)"
proof -
  assume "t \<in> set (project_specs specs sc)"
  then obtain s where s: "s \<in> set specs" "project_spec sc s = Some t"
    by (auto simp: project_specs_def List.map_filter_def)
  show ?thesis
  proof (cases "sc (ts_name s)")
    case None
    with s(2) show ?thesis by (simp add: project_spec_def)
  next
    case (Some allowed)
    show ?thesis
    proof (cases "allowed = []")
      case True
      with s(2) Some have "t = s" by (simp add: project_spec_def)
      moreover have "allows sc (ts_name s) = (\<lambda>act. True)" using Some True by (auto simp: allows_def)
      ultimately show ?thesis using Some by (auto split: option.split)
    next
      case False
      with s(2) Some have p: "project_actions s allowed = Some t" by (simp add: project_spec_def)
      then obtain enum where e: "enum_of s = Some enum" "filter (\<lambda>a. a \<in> set allowed) enum \<noteq> []"
        "t = \<lparr>ts_name = ts_name s, ts_description = filter_action_lines (ts_description s) allowed,
              ts_schema = enriched_schema (filter (\<lambda>a. a \<in> set allowed) enum)\<rparr>"
        by (auto simp: project_actions_def Let_def split: option.splits if_splits)
      show ?thesis using Some by (simp add: e(3) enriched_enum allows_def)
    qed
  qed
qed

theorem projection_complete:
  assumes "s \<in> set specs" "enum_of s = Some acts" "act \<in> set acts" "allows sc (ts_name s) act"
  shows "\<exists>t \<in> set (project_specs specs sc). ts_name t = ts_name s \<and> (\<exists>as. enum_of t = Some as \<and> act \<in> set as)"
proof -
  obtain allowed where sc: "sc (ts_name s) = Some allowed" "allowed = [] \<or> act \<in> set allowed"
    using assms(4) by (auto simp: allows_def split: option.splits)
  show ?thesis
  proof (cases "allowed = []")
    case True
    with sc have "project_spec sc s = Some s" by (simp add: project_spec_def)
    then have "s \<in> set (project_specs specs sc)" using assms(1) by (force simp: project_specs_def List.map_filter_def)
    with assms(2,3) show ?thesis by blast
  next
    case False
    let ?kept = "filter (\<lambda>a. a \<in> set allowed) acts"
    let ?t = "\<lparr>ts_name = ts_name s, ts_description = filter_action_lines (ts_description s) allowed, ts_schema = enriched_schema ?kept\<rparr>"
    have act: "act \<in> set ?kept" using assms(3) sc(2) False by auto
    then have "?kept \<noteq> []" by (metis empty_iff empty_set)
    with sc(1) False assms(2) have "project_spec sc s = Some ?t" by (simp add: project_spec_def project_actions_def)
    then have "?t \<in> set (project_specs specs sc)" using assms(1) by (force simp: project_specs_def List.map_filter_def)
    moreover have "enum_of ?t = Some ?kept" by (rule enriched_enum)
    ultimately show ?thesis using act by (intro bexI [of _ ?t]) auto
  qed
qed

subsection \<open>Routing\<close>

text \<open>What the routes of an aggregator are: for each mounted surface, the provider of the one server that offers it.\<close>

definition ag_wf :: "'w aggregator \<Rightarrow> bool" where
  "ag_wf a \<longleftrightarrow> distinct (map ts_name (ag_specs a)) \<and> dom (ag_owner a) = ts_name ` set (ag_specs a)
     \<and> dom (ag_routes a) = ts_name ` set (ag_specs a)"

definition owned_by :: "'w aggregator \<Rightarrow> 'w server \<Rightarrow> bool" where
  "owned_by a sv \<longleftrightarrow> (\<forall>t \<in> set (sv_specs sv). ag_routes a (ts_name t) = sv_provider sv \<and> ag_owner a (ts_name t) = Some (sv_name sv))"

definition routes_of :: "'w server list \<Rightarrow> 'w aggregator \<Rightarrow> bool" where
  "routes_of svs a \<longleftrightarrow> ag_wf a \<and> ag_specs a = concat (map sv_specs svs) \<and> (\<forall>sv \<in> set svs. owned_by a sv)"

lemma mount_specs_step:
  assumes "ag_owner a (ts_name t) = None" "ag_wf a"
  shows "ag_wf \<lparr>ag_routes = (ag_routes a)(ts_name t \<mapsto> p), ag_owner = (ag_owner a)(ts_name t \<mapsto> name), ag_specs = ag_specs a @ [t]\<rparr>"
    and "ts_name t \<notin> ts_name ` set (ag_specs a)"
proof -
  have wf: "distinct (map ts_name (ag_specs a))" "dom (ag_owner a) = ts_name ` set (ag_specs a)"
    "dom (ag_routes a) = ts_name ` set (ag_specs a)" using assms(2) by (simp_all only: ag_wf_def simp_thms)
  show fresh: "ts_name t \<notin> ts_name ` set (ag_specs a)" unfolding wf(2) [symmetric] using assms(1) by (simp only: domIff simp_thms)
  show "ag_wf \<lparr>ag_routes = (ag_routes a)(ts_name t \<mapsto> p), ag_owner = (ag_owner a)(ts_name t \<mapsto> name), ag_specs = ag_specs a @ [t]\<rparr>"
    unfolding ag_wf_def by (simp add: wf fresh)
qed

lemma mount_specs_Inr:
  "mount_specs name p ts a = Inr a' \<Longrightarrow> ag_wf a \<Longrightarrow>
     ag_wf a' \<and> ag_specs a' = ag_specs a @ ts
     \<and> (\<forall>t \<in> set ts. ag_routes a' (ts_name t) = Some p \<and> ag_owner a' (ts_name t) = Some name)
     \<and> (\<forall>x \<in> ts_name ` set (ag_specs a). ag_routes a' x = ag_routes a x \<and> ag_owner a' x = ag_owner a x)"
proof (induction ts arbitrary: a)
  case Nil
  then show ?case by simp
next
  case (Cons t ts)
  let ?b = "\<lparr>ag_routes = (ag_routes a)(ts_name t \<mapsto> p), ag_owner = (ag_owner a)(ts_name t \<mapsto> name), ag_specs = ag_specs a @ [t]\<rparr>"
  have new: "ag_owner a (ts_name t) = None" and m: "mount_specs name p ts ?b = Inr a'"
    using Cons.prems(1) by (auto split: option.splits)
  note fresh = mount_specs_step(2) [OF new Cons.prems(2)]
  note ih = Cons.IH [OF m mount_specs_step(1) [OF new Cons.prems(2)]]
  have kept: "ag_routes a' x = ag_routes a x \<and> ag_owner a' x = ag_owner a x" if "x \<in> ts_name ` set (ag_specs a)" for x
  proof -
    have "x \<noteq> ts_name t" using fresh that by blast
    moreover have "x \<in> ts_name ` set (ag_specs ?b)" using that by auto
    then have "ag_routes a' x = ag_routes ?b x \<and> ag_owner a' x = ag_owner ?b x" using ih by blast
    ultimately show ?thesis by simp
  qed
  moreover have "ag_routes a' (ts_name t) = Some p \<and> ag_owner a' (ts_name t) = Some name" using ih by simp
  ultimately show ?case using ih by simp
qed

lemma mount_servers_Inr:
  "mount_servers svs a = Inr a' \<Longrightarrow> routes_of done a \<Longrightarrow> routes_of (done @ svs) a'"
proof (induction svs arbitrary: a "done")
  case Nil
  then show ?case by simp
next
  case (Cons sv svs)
  obtain p b where p: "sv_provider sv = Some p" "mount_specs (sv_name sv) p (sv_specs sv) a = Inr b" "mount_servers svs b = Inr a'"
    using Cons.prems(1) by (auto split: option.splits sum.splits)
  have wf: "ag_wf a" and specs: "ag_specs a = concat (map sv_specs done)" and own: "\<And>x. x \<in> set done \<Longrightarrow> owned_by a x"
    using Cons.prems(2) by (auto simp: routes_of_def)
  note ms = mount_specs_Inr [OF p(2) wf]
  have "owned_by b sv" using ms p(1) by (simp add: owned_by_def)
  moreover have "owned_by b x" if "x \<in> set done" for x
    unfolding owned_by_def
  proof
    fix t assume t: "t \<in> set (sv_specs x)"
    then have "ts_name t \<in> ts_name ` set (ag_specs a)" using specs that by auto
    with ms have "ag_routes b (ts_name t) = ag_routes a (ts_name t)" "ag_owner b (ts_name t) = ag_owner a (ts_name t)" by blast+
    with own [OF that] t show "ag_routes b (ts_name t) = sv_provider x \<and> ag_owner b (ts_name t) = Some (sv_name x)"
      by (simp add: owned_by_def)
  qed
  ultimately have "routes_of (done @ [sv]) b" using ms specs by (auto simp: routes_of_def)
  from Cons.IH [OF p(3) this] show ?case by simp
qed

lemma new_aggregator_routes: "new_aggregator svs = Inr a \<Longrightarrow> routes_of svs a"
proof -
  assume "new_aggregator svs = Inr a"
  then have m: "mount_servers svs \<lparr>ag_routes = Map.empty, ag_owner = Map.empty, ag_specs = []\<rparr> = Inr a"
    by (simp add: new_aggregator_def split: if_splits)
  have "routes_of [] \<lparr>ag_routes = Map.empty, ag_owner = Map.empty, ag_specs = []\<rparr>" by (simp add: routes_of_def ag_wf_def)
  from mount_servers_Inr [OF m this] show ?thesis by simp
qed

lemma routes_of_at:
  assumes "routes_of svs a" "sv \<in> set svs" "t \<in> set (sv_specs sv)"
  obtains p where "sv_provider sv = Some p" "ag_routes a (ts_name t) = Some p"
proof -
  have "ts_name t \<in> ts_name ` set (ag_specs a)" using assms by (auto simp: routes_of_def)
  with assms(1) have "ts_name t \<in> dom (ag_routes a)" by (simp only: routes_of_def ag_wf_def)
  then obtain p where p: "ag_routes a (ts_name t) = Some p" by blast
  moreover have "ag_routes a (ts_name t) = sv_provider sv" using assms by (auto simp: routes_of_def owned_by_def)
  ultimately show thesis by (intro that [of p]) simp_all
qed

theorem aggregator_routes:
  assumes "new_aggregator svs = Inr a" "sv \<in> set svs" "t \<in> set (sv_specs sv)" "surface c = ts_name t"
  shows "\<exists>p. sv_provider sv = Some p \<and> aggregator_dispatch a c w = p c w"
proof (rule routes_of_at [OF new_aggregator_routes [OF assms(1)] assms(2,3)])
  fix p assume "sv_provider sv = Some p" "ag_routes a (ts_name t) = Some p"
  with assms(4) show ?thesis by (simp add: aggregator_dispatch_def)
qed

lemma mounted_surfaces_distinct: "new_aggregator svs = Inr a \<Longrightarrow> distinct (map ts_name (concat (map sv_specs svs)))"
  by (drule new_aggregator_routes) (auto simp: routes_of_def ag_wf_def)

lemma unmounted_surface:
  assumes "new_aggregator svs = Inr a" "surface c \<notin> ts_name ` set (concat (map sv_specs svs))"
  shows "aggregator_dispatch a c w = (fail c ClassTool (''no mounted server offers surface '' @ go_quote (surface c)) 0, w)"
proof -
  have "ag_wf a" "ag_specs a = concat (map sv_specs svs)" using new_aggregator_routes [OF assms(1)] by (simp_all add: routes_of_def)
  then have "dom (ag_routes a) = ts_name ` set (concat (map sv_specs svs))" by (simp add: ag_wf_def)
  then have "surface c \<notin> dom (ag_routes a)" using assms(2) by (simp del: set_concat)
  then have "ag_routes a (surface c) = None" by blast
  then show ?thesis by (simp add: aggregator_dispatch_def)
qed

subsection \<open>The surfaces of the host\<close>

text \<open>Whatever the other servers offer, the two organs own the surfaces \<open>fs\<close> and \<open>sys\<close>.\<close>

lemma built_servers:
  assumes "build_servers mk c lazy w = (Inr svs, w')"
  obtains base d where "svs = map (drop_surface_spec ''sys'')
       (map (drop_surface_spec ''fs'') base @ [\<lparr>sv_name = ''fs-native'', sv_provider = Some (fst (mk_fs mk)), sv_specs = snd (mk_fs mk)\<rparr>])
     @ [\<lparr>sv_name = ''sys-native'', sv_provider = Some (fst (mk_sys mk d)), sv_specs = snd (mk_sys mk d)\<rparr>]"
  using assms by (auto simp: build_servers_def mount_native_sys_def mount_native_fs_def split: sum.splits prod.splits)

theorem native_organs_own:
  assumes "build_servers mk c lazy w = (Inr svs, w')" "new_aggregator svs = Inr a"
    and "\<And>t. t \<in> set (snd (mk_fs mk)) \<Longrightarrow> ts_name t = ''fs''" "snd (mk_fs mk) \<noteq> []"
  shows "surface x = ''fs'' \<Longrightarrow> aggregator_dispatch a x v = fst (mk_fs mk) x v"
proof -
  assume x: "surface x = ''fs''"
  obtain base d where svs: "svs = map (drop_surface_spec ''sys'')
       (map (drop_surface_spec ''fs'') base @ [\<lparr>sv_name = ''fs-native'', sv_provider = Some (fst (mk_fs mk)), sv_specs = snd (mk_fs mk)\<rparr>])
     @ [\<lparr>sv_name = ''sys-native'', sv_provider = Some (fst (mk_sys mk d)), sv_specs = snd (mk_sys mk d)\<rparr>]"
    using built_servers [OF assms(1)] by blast
  obtain t where t: "t \<in> set (snd (mk_fs mk))" using assms(4) by (cases "snd (mk_fs mk)") auto
  let ?sv = "drop_surface_spec ''sys'' \<lparr>sv_name = ''fs-native'', sv_provider = Some (fst (mk_fs mk)), sv_specs = snd (mk_fs mk)\<rparr>"
  have sv: "?sv \<in> set svs" unfolding svs by simp
  have ts: "t \<in> set (sv_specs ?sv)" using t assms(3) [OF t] by (simp add: drop_surface_spec_def)
  have "\<exists>p. sv_provider ?sv = Some p \<and> aggregator_dispatch a x v = p x v"
  proof (rule routes_of_at [OF new_aggregator_routes [OF assms(2)] sv ts])
    fix p assume "sv_provider ?sv = Some p" "ag_routes a (ts_name t) = Some p"
    with x assms(3) [OF t] show ?thesis by (simp add: aggregator_dispatch_def)
  qed
  then show ?thesis by (simp add: drop_surface_spec_def)
qed

subsection \<open>Bug records\<close>

lemma status_part_empty: "status_part m = [] \<longleftrightarrow> (\<forall>f \<in> set ground_truth_status_fields. map_of m f = None)"
  by (auto simp: status_part_def List.map_filter_def filter_empty_conv)

lemma reconciled_lookup:
  assumes "status_part m \<noteq> []"
  shows "map_of (reconcile_record m) k =
    (if k = ''ground_truth_directive'' then Some (VStr ground_truth_directive)
     else if k = ''ledger_status'' then Some (VMap (status_part m))
     else if k \<in> set ground_truth_status_fields then None else map_of m k)"
proof -
  have "map_of (filter (\<lambda>(k, v). k \<notin> set ground_truth_status_fields) m) k
      = (if k \<in> set ground_truth_status_fields then None else map_of m k)"
    by (induction m) auto
  then show ?thesis using assms by (simp add: reconcile_record_def Let_def update_conv)
qed

theorem reconcile_record_idem: "reconcile_record (reconcile_record m) = reconcile_record m"
proof (cases "status_part m = []")
  case True
  then show ?thesis by (simp add: reconcile_record_def)
next
  case False
  have "map_of (reconcile_record m) f = None" if "f \<in> set ground_truth_status_fields" for f
    using that by (simp add: reconciled_lookup [OF False] ground_truth_status_fields_def) auto
  then have "status_part (reconcile_record m) = []" by (simp add: status_part_empty)
  then show ?thesis by (simp add: reconcile_record_def)
qed

lemma no_bare_status: "f \<in> set ground_truth_status_fields \<Longrightarrow> map_of (reconcile_record m) f = None"
proof (cases "status_part m = []")
  case True
  assume "f \<in> set ground_truth_status_fields"
  with True show ?thesis by (simp add: reconcile_record_def) (simp add: status_part_empty)
next
  case False
  assume "f \<in> set ground_truth_status_fields"
  then show ?thesis by (simp add: reconciled_lookup [OF False] ground_truth_status_fields_def) auto
qed

lemma picked_lookup:
  "map_of (List.map_filter (\<lambda>f. map_option (Pair f) (g f)) fs) f = (if f \<in> set fs then g f else None)"
proof (induction fs)
  case (Cons x xs)
  then show ?case by (cases "g x") (auto simp: List.map_filter_simps)
qed (simp add: List.map_filter_simps)

lemma status_part_lookup: "f \<in> set ground_truth_status_fields \<Longrightarrow> map_of (status_part m) f = map_of m f"
  by (simp add: status_part_def picked_lookup)

lemma reconcile_bug_read:
  assumes "res_ok res" "surface c = ''work''" "action c = ''bug_read''"
  shows "reconcile c res = (case res_value res of VMap m \<Rightarrow> res\<lparr>res_value := VMap (reconcile_record m)\<rparr> | _ \<Rightarrow> res)"
  unfolding reconcile_def by (simp only: assms simp_thms if_False)

lemma reconcile_map:
  assumes "res_ok res" "surface c = ''work''" "action c = ''bug_read''" "res_value res = VMap m"
  shows "reconcile c res = res\<lparr>res_value := VMap (reconcile_record m)\<rparr>"
  unfolding reconcile_bug_read [OF assms(1-3)] assms(4) by (rule go_value.case)

lemma reconcile_else:
  "\<not> (res_ok res \<and> surface c = ''work'' \<and> action c = ''bug_read'' \<and> (\<exists>m. res_value res = VMap m)) \<Longrightarrow> reconcile c res = res"
  by (cases "res_value res") (simp_all add: reconcile_def)

lemma reconcile_dispatch_idem: "reconcile c (reconcile c res) = reconcile c res"
proof (cases "res_ok res \<and> surface c = ''work'' \<and> action c = ''bug_read'' \<and> (\<exists>m. res_value res = VMap m)")
  case True
  then obtain m where m: "res_ok res" "surface c = ''work''" "action c = ''bug_read''" "res_value res = VMap m" by blast
  show ?thesis by (simp add: reconcile_map [OF m] reconcile_map m(1-3) reconcile_record_idem)
next
  case False
  from reconcile_else [OF False] show ?thesis by (simp only:)
qed

subsection \<open>Enriched tools and configuration\<close>

lemma enrich_surface_name: "ts_name (fst (enrich_surface src sp w)) = fst sp"
  by (simp add: enrich_surface_def thin_spec_def envelope_spec_def case_prod_unfold Let_def)

lemma lazy_surface_name: "ts_name (fst (lazy_surface src sp w)) = fst sp"
  by (simp add: lazy_surface_def thin_spec_def lazy_envelope_spec_def case_prod_unfold Let_def)

lemma build_specs_names:
  "(\<And>sp w. ts_name (fst (f sp w)) = fst sp) \<Longrightarrow> map ts_name (fst (build_specs f sps v)) = map fst sps"
  by (induction sps arbitrary: v) (simp_all add: case_prod_unfold Let_def)

lemma enriched_specs_surfaces: "map ts_name (fst (enriched_specs src w)) = map fst ab_surfaces"
  by (simp add: enriched_specs_def build_specs_names enrich_surface_name)

lemma lazy_specs_surfaces: "map ts_name (fst (lazy_enriched_specs src w)) = map fst ab_surfaces"
  by (simp add: lazy_enriched_specs_def build_specs_names lazy_surface_name)

lemma default_config_valid: "validate_config (default_mcp_config url proj) = None \<longleftrightarrow> \<not> blank url"
proof -
  have "config_names (default_mcp_config url proj) = [''toolkit'', ''web'']"
    by (simp add: config_names_def default_mcp_config_def)
  then show ?thesis
    by (simp add: validate_config_def default_mcp_config_def server_problem_def known_server_types_def)
qed

subsection \<open>The documentation surface\<close>

text \<open>The descriptions of the tools send the model to the surface \<open>admin\<close>, which no mounted server offers.\<close>

lemma configured_toolkit:
  assumes "sg_type cfg = ''toolkit-http''"
  shows "\<exists>w1 specs. map ts_name specs = map fst ab_surfaces
    \<and> configured_servers mk lazy ((name, cfg) # cs) d0 w =
      (case configured_servers mk lazy cs (Some (mk_client mk (sg_url cfg) (sg_project cfg))) w1 of
         (Inl e, w3) \<Rightarrow> (Inl e, w3)
       | (Inr (svs, d), w3) \<Rightarrow>
           (Inr (\<lparr>sv_name = name, sv_provider = Some (mk_client mk (sg_url cfg) (sg_project cfg)), sv_specs = specs\<rparr> # svs, d), w3))"
proof -
  let ?client = "mk_client mk (sg_url cfg) (sg_project cfg)"
  obtain full w1 where f: "enriched_specs ?client w = (full, w1)" by force
  obtain thin w2 where t: "lazy_enriched_specs ?client w1 = (thin, w2)" by force
  have n: "map ts_name full = map fst ab_surfaces" "map ts_name thin = map fst ab_surfaces"
    using enriched_specs_surfaces [of ?client w] lazy_specs_surfaces [of ?client w1] f t by simp_all
  show ?thesis
  proof (cases lazy)
    case True
    then show ?thesis by (intro exI [of _ w2] exI [of _ thin] conjI n(2)) (simp add: assms f t Let_def)
  next
    case False
    then show ?thesis by (intro exI [of _ w1] exI [of _ full] conjI n(1)) (simp add: assms f Let_def)
  qed
qed

lemma configured_surfaces:
  assumes web: "\<And>u a. ts_name ` set (snd (mk_web mk u a)) \<subseteq> W"
  shows "configured_servers mk lazy cs d0 w = (Inr (svs, d), w') \<Longrightarrow>
     (\<Union>sv \<in> set svs. ts_name ` set (sv_specs sv)) \<subseteq> fst ` set ab_surfaces \<union> W"
proof (induction cs arbitrary: d0 w svs)
  case Nil
  then show ?case by simp
next
  case (Cons nc cs)
  obtain name cfg where nc: "nc = (name, cfg)" by force
  show ?case
  proof (cases "sg_type cfg = ''toolkit-http''")
    case True
    let ?p = "mk_client mk (sg_url cfg) (sg_project cfg)"
    obtain w1 specs where names: "map ts_name specs = map fst ab_surfaces"
      and step: "configured_servers mk lazy ((name, cfg) # cs) d0 w =
        (case configured_servers mk lazy cs (Some ?p) w1 of
           (Inl e, w3) \<Rightarrow> (Inl e, w3)
         | (Inr (svs, d), w3) \<Rightarrow> (Inr (\<lparr>sv_name = name, sv_provider = Some ?p, sv_specs = specs\<rparr> # svs, d), w3))"
      using configured_toolkit [OF True, of mk lazy name cs d0 w] by blast
    obtain rest where r: "configured_servers mk lazy cs (Some ?p) w1 = (Inr (rest, d), w')"
        "svs = \<lparr>sv_name = name, sv_provider = Some ?p, sv_specs = specs\<rparr> # rest"
      using Cons.prems [unfolded nc step] by (auto split: prod.splits sum.splits)
    have "ts_name ` set specs = fst ` set ab_surfaces" using names by (metis list.set_map)
    with Cons.IH [OF r(1)] r(2) show ?thesis by auto
  next
    case other: False
    show ?thesis
    proof (cases "sg_type cfg = ''web''")
      case True
      obtain p specs where m: "mk_web mk (sg_search_url cfg) (sg_user_agent cfg) = (p, specs)" by force
      then obtain rest where r: "configured_servers mk lazy cs d0 w = (Inr (rest, d), w')"
          "svs = \<lparr>sv_name = name, sv_provider = Some p, sv_specs = specs\<rparr> # rest"
        using Cons.prems other True unfolding nc by (auto split: prod.splits sum.splits)
      have "ts_name ` set specs \<subseteq> W" using web [of "sg_search_url cfg" "sg_user_agent cfg"] m by simp
      with Cons.IH [OF r(1)] r(2) show ?thesis by auto
    next
      case False
      with Cons.prems other show ?thesis unfolding nc by simp
    qed
  qed
qed

lemma admin_unmounted:
  assumes web: "\<And>u a t. t \<in> set (snd (mk_web mk u a)) \<Longrightarrow> ts_name t = ''web''"
    and organs: "\<And>t. t \<in> set (snd (mk_fs mk)) \<Longrightarrow> ts_name t = ''fs''" "\<And>d t. t \<in> set (snd (mk_sys mk d)) \<Longrightarrow> ts_name t = ''sys''"
    and built: "build_servers mk c lazy w = (Inr svs, w')" "new_aggregator svs = Inr a" and admin: "surface x = ''admin''"
  shows "aggregator_dispatch a x v = (fail x ClassTool (''no mounted server offers surface '' @ go_quote ''admin'') 0, v)"
proof -
  obtain base d where svs: "configured_servers mk lazy (map (\<lambda>n. (n, the (c n))) (config_names c)) None w = (Inr (base, d), w')"
      "svs = mount_native_sys mk d (mount_native_fs mk base)"
    using built(1) by (auto simp: build_servers_def split: sum.splits prod.splits)
  have "(\<Union>sv \<in> set base. ts_name ` set (sv_specs sv)) \<subseteq> fst ` set ab_surfaces \<union> {''web''}"
    by (rule configured_surfaces [OF _ svs(1)]) (use web in auto)
  then have inner: "(\<Union>sv \<in> set base. ts_name ` set (sv_specs sv)) \<subseteq> {''work'', ''knowledge'', ''fs'', ''measure'', ''sys'', ''web''}"
    by (simp add: ab_surfaces_def insert_commute)
  have outer: "ts_name ` set (concat (map sv_specs svs)) \<subseteq> (\<Union>sv \<in> set base. ts_name ` set (sv_specs sv)) \<union> {''fs'', ''sys''}"
    using organs unfolding svs(2) by (auto simp: mount_native_sys_def mount_native_fs_def drop_surface_spec_def)
  note offered = subset_trans [OF outer Un_mono [OF inner subset_refl]]
  have "''admin'' \<notin> {''work'', ''knowledge'', ''fs'', ''measure'', ''sys'', ''web''} \<union> {''fs'', ''sys''}" by simp
  then have "''admin'' \<notin> ts_name ` set (concat (map sv_specs svs))" by (rule contra_subsetD [OF offered])
  with unmounted_surface [OF built(2)] admin show ?thesis by simp
qed

end
