(* ===== verification/Git_Repo.thy ===== *)
theory Git_Repo
  imports Coding_Orch Fs_Laws
begin

text \<open>
  The git repository of the coding chain, \<open>internal/coding/repo_git.go\<close>, with \<open>seedFiles\<close> of \<open>repo.go\<close>: every
  operation is a sequence of git processes run by the owned runner. The world of the chain is paired with the two
  fields that \<open>Init\<close> sets. Over any sequence of operations the processes are among those listed by
  \<open>target_args\<close> and \<open>tree_args\<close>; the facts on paths that keep the worktrees apart from the target are those
  of the file-system organ.
\<close>

record git_fields =
  gf_integration :: string
  gf_run_id :: string

type_synonym 'w git_world = "git_fields \<times> 'w"

text \<open>The file system as seeding and overlaying use it; a missing file is the left result of a read.\<close>

datatype read_failure = ReadMissing | ReadFailed string

record 'w disk =
  dk_read :: "string \<Rightarrow> 'w \<Rightarrow> (read_failure + string) \<times> 'w"
  dk_mkdir :: "string \<Rightarrow> 'w \<Rightarrow> string option \<times> 'w"
  dk_write :: "string \<Rightarrow> string \<Rightarrow> 'w \<Rightarrow> string option \<times> 'w"

record 'w git_repo =
  gp_runner :: "'w runner"
  gp_repo_dir :: string
  gp_worktree_dir :: string
  gp_disk :: "'w disk"
  gp_new_id :: "'w \<Rightarrow> string \<times> 'w"

definition with_world :: "('w \<Rightarrow> 'a \<times> 'w) \<Rightarrow> 'w git_world \<Rightarrow> 'a \<times> 'w git_world" where
  "with_world f sw = (case f (snd sw) of (x, w') \<Rightarrow> (x, (fst sw, w')))"

definition git_run_in :: "'w git_repo \<Rightarrow> string \<Rightarrow> string list \<Rightarrow> 'w git_world \<Rightarrow> command_result \<times> 'w git_world" where
  "git_run_in g dir args = with_world (gp_runner g ([''git'', ''-C'', dir] @ args) dir 0)"

definition git :: "'w git_repo \<Rightarrow> string \<Rightarrow> string list \<Rightarrow> 'w git_world \<Rightarrow> (string + string) \<times> 'w git_world" where
  "git g dir args sw =
     (case git_run_in g dir args sw of
        (r, sw') \<Rightarrow>
          if cr_exit r \<noteq> 0
          then (Inl (''git '' @ join '' '' args @ '' (exit '' @ itoa (cr_exit r) @ ''): '' @ tail_of (cr_stderr r) gate_tail_bytes), sw')
          else (Inr (trim_space (cr_stdout r)), sw'))"

text \<open>A git command run for its effect.\<close>

definition git_do :: "'w git_repo \<Rightarrow> string \<Rightarrow> string list \<Rightarrow> 'w git_world \<Rightarrow> string option \<times> 'w git_world" where
  "git_do g dir args sw = (case git g dir args sw of (Inl e, sw') \<Rightarrow> (Some e, sw') | (Inr s, sw') \<Rightarrow> (None, sw'))"

subsection \<open>The run\<close>

definition resolve_base_ref :: "'w git_repo \<Rightarrow> 'w git_world \<Rightarrow> (string + string) \<times> 'w git_world" where
  "resolve_base_ref g sw =
     (case git g (gp_repo_dir g) [''symbolic-ref'', ''--short'', ''-q'', ''HEAD''] sw of
        (Inr (c # cs), sw1) \<Rightarrow> (Inr (c # cs), sw1)
      | (branch, sw1) \<Rightarrow>
          (case git g (gp_repo_dir g) [''rev-parse'', ''HEAD''] sw1 of
             (Inl e, sw2) \<Rightarrow> (Inl (''resolve base ref: '' @ e), sw2)
           | (Inr sha, sw2) \<Rightarrow> (Inr sha, sw2)))"

definition git_init :: "'w git_repo \<Rightarrow> run_state \<Rightarrow> 'w git_world \<Rightarrow> string option \<times> 'w git_world" where
  "git_init g s sw =
     (let sw0 = (\<lparr>gf_integration = rs_integration s, gf_run_id = rs_run_id s\<rparr>, snd sw)
      in case (if rs_base_branch s = [] then resolve_base_ref g sw0 else (Inr (rs_base_branch s), sw0)) of
           (Inl e, sw1) \<Rightarrow> (Some e, sw1)
         | (Inr base, sw1) \<Rightarrow> git_do g (gp_repo_dir g) [''branch'', ''-f'', rs_integration s, base] sw1)"

definition git_head_sha :: "'w git_repo \<Rightarrow> 'w git_world \<Rightarrow> (string + string) \<times> 'w git_world" where
  "git_head_sha g sw = git g (gp_repo_dir g) [''rev-parse'', gf_integration (fst sw)] sw"

definition git_set_ref :: "'w git_repo \<Rightarrow> string \<Rightarrow> 'w git_world \<Rightarrow> string option \<times> 'w git_world" where
  "git_set_ref g sha sw = git_do g (gp_repo_dir g) [''update-ref'', ''refs/heads/'' @ gf_integration (fst sw), sha] sw"

definition git_promote :: "'w git_repo \<Rightarrow> 'w git_world \<Rightarrow> string option \<times> 'w git_world" where
  "git_promote g sw =
     (case git_do g (gp_repo_dir g) [''merge'', ''--ff-only'', gf_integration (fst sw)] sw of
        (Some e, sw') \<Rightarrow> (Some (''promote integration to working tree: '' @ e), sw')
      | (None, sw') \<Rightarrow> (None, sw'))"

subsection \<open>The worktree of a task\<close>

fun seed_files :: "'w disk \<Rightarrow> string \<Rightarrow> (string \<times> string) list \<Rightarrow> 'w \<Rightarrow> string option \<times> 'w" where
  "seed_files d dir [] w = (None, w)"
| "seed_files d dir ((rel, content) # rest) w =
     (case dk_mkdir d (path_dir (file_join dir rel)) w of
        (Some e, w1) \<Rightarrow> (Some (''seed mkdir '' @ rel @ '': '' @ e), w1)
      | (None, w1) \<Rightarrow>
          (case dk_write d (file_join dir rel) content w1 of
             (Some e, w2) \<Rightarrow> (Some (''seed write '' @ rel @ '': '' @ e), w2)
           | (None, w2) \<Rightarrow> seed_files d dir rest w2))"

definition git_commit :: "'w git_repo \<Rightarrow> string \<Rightarrow> string \<Rightarrow> 'w git_world \<Rightarrow> (string + string option) \<times> 'w git_world" where
  "git_commit g dir msg sw =
     (case git g dir [''add'', ''-A''] sw of
        (Inl e, sw1) \<Rightarrow> (Inl e, sw1)
      | (Inr out, sw1) \<Rightarrow>
          (case git_run_in g dir [''diff'', ''--cached'', ''--quiet''] sw1 of
             (check, sw2) \<Rightarrow>
               if cr_exit check = 0 then (Inr None, sw2)
               else (case git g dir [''commit'', ''-m'', msg] sw2 of
                       (Inl e, sw3) \<Rightarrow> (Inl e, sw3)
                     | (Inr out', sw3) \<Rightarrow>
                         (case git g dir [''rev-parse'', ''HEAD''] sw3 of
                            (Inl e, sw4) \<Rightarrow> (Inl e, sw4)
                          | (Inr sha, sw4) \<Rightarrow> (Inr (Some sha), sw4)))))"

definition git_close :: "'w git_repo \<Rightarrow> string \<Rightarrow> 'w git_world \<Rightarrow> string option \<times> 'w git_world" where
  "git_close g dir = git_do g (gp_repo_dir g) [''worktree'', ''remove'', ''--force'', dir]"

definition git_workspace :: "'w git_repo \<Rightarrow> string \<Rightarrow> ('w git_world) workspace" where
  "git_workspace g dir = \<lparr>ws_dir = dir, ws_seed = (\<lambda>files. with_world (seed_files (gp_disk g) dir files)),
     ws_commit = git_commit g dir, ws_close = git_close g dir\<rparr>"

text \<open>The printing \<open>%02d\<close>.\<close>

definition two_digits :: "int \<Rightarrow> string" where
  "two_digits n = (if 0 \<le> n \<and> n < 10 then ''0'' @ itoa n else itoa n)"

definition worktree_name :: "at_record \<Rightarrow> string" where
  "worktree_name ar = two_digits (ar_position ar) @ ''-'' @ ar_slug ar
     @ (if 0 < ar_branch_index ar then ''-b'' @ itoa (ar_branch_index ar) else [])"

definition worktree_branch :: "string \<Rightarrow> at_record \<Rightarrow> string" where
  "worktree_branch rid ar = ''coding/runs/'' @ rid @ ''/at'' @ worktree_name ar"

definition git_open :: "'w git_repo \<Rightarrow> string \<Rightarrow> at_record \<Rightarrow> 'w git_world \<Rightarrow> (string + ('w git_world) workspace) \<times> 'w git_world" where
  "git_open g fork ar sw =
     (let path = file_join (gp_worktree_dir g) (worktree_name ar);
          branch = worktree_branch (gf_run_id (fst sw)) ar;
          base = (if fork = [] then gf_integration (fst sw) else fork);
          sw1 = snd (git g (gp_repo_dir g) [''worktree'', ''remove'', ''--force'', path] sw);
          sw2 = snd (git g (gp_repo_dir g) [''worktree'', ''prune''] sw1)
      in case git g (gp_repo_dir g) [''worktree'', ''add'', ''-f'', ''-B'', branch, path, base] sw2 of
           (Inl e, sw3) \<Rightarrow> (Inl e, sw3)
         | (Inr out, sw3) \<Rightarrow> (Inr (git_workspace g path), sw3))"

subsection \<open>Reading\<close>

definition git_show :: "'w git_repo \<Rightarrow> string \<Rightarrow> 'w git_world \<Rightarrow> (string + string) \<times> 'w git_world" where
  "git_show g path sw =
     (case git_run_in g (gp_repo_dir g) [''show'', gf_integration (fst sw) @ '':'' @ path] sw of
        (r, sw') \<Rightarrow> (Inr (if cr_exit r \<noteq> 0 then [] else cr_stdout r), sw'))"

definition git_list_package :: "'w git_repo \<Rightarrow> string \<Rightarrow> 'w git_world \<Rightarrow> (string + string list) \<times> 'w git_world" where
  "git_list_package g dir sw =
     (case git g (gp_repo_dir g) [''ls-tree'', ''-r'', ''--name-only'', gf_integration (fst sw), ''--'', dir] sw of
        (Inl e, sw') \<Rightarrow> (Inl e, sw')
      | (Inr out, sw') \<Rightarrow> (Inr (filter (\<lambda>l. l \<noteq> []) (map trim_space (split_char (CHR 0x0A) out))), sw'))"

definition git_diff :: "'w git_repo \<Rightarrow> string \<Rightarrow> string \<Rightarrow> 'w git_world \<Rightarrow> (string + string) \<times> 'w git_world" where
  "git_diff g a b sw =
     (case git_run_in g (gp_repo_dir g) [''diff'', a @ ''..'' @ b] sw of
        (r, sw') \<Rightarrow> (if cr_exit r \<noteq> 0 then Inl (''git diff: '' @ tail_of (cr_stderr r) gate_tail_bytes) else Inr (cr_stdout r), sw'))"

definition git_diff_worktree :: "'w git_repo \<Rightarrow> string \<Rightarrow> string \<Rightarrow> 'w git_world \<Rightarrow> (string + string) \<times> 'w git_world" where
  "git_diff_worktree g dir base sw =
     (case git g dir [''add'', ''-A''] sw of
        (Inl e, sw1) \<Rightarrow> (Inl e, sw1)
      | (Inr out, sw1) \<Rightarrow>
          (case git_run_in g dir [''diff'', ''--cached'', base, ''--''] sw1 of
             (r, sw2) \<Rightarrow>
               (if cr_exit r \<noteq> 0 then Inl (''git diff worktree: '' @ tail_of (cr_stderr r) gate_tail_bytes)
                else Inr (cr_stdout r), sw2)))"

subsection \<open>The replay on the tree before the fix\<close>

fun overlay_files :: "'w disk \<Rightarrow> string \<Rightarrow> string \<Rightarrow> string list \<Rightarrow> 'w \<Rightarrow> string option \<times> 'w" where
  "overlay_files d src scratch [] w = (None, w)"
| "overlay_files d src scratch (rel # rels) w =
     (case dk_read d (file_join src rel) w of
        (Inl ReadMissing, w1) \<Rightarrow> overlay_files d src scratch rels w1
      | (Inl (ReadFailed e), w1) \<Rightarrow> (Some (''overlay read '' @ rel @ '': '' @ e), w1)
      | (Inr data, w1) \<Rightarrow>
          (case dk_mkdir d (path_dir (file_join scratch rel)) w1 of
             (Some e, w2) \<Rightarrow> (Some (''overlay mkdir '' @ rel @ '': '' @ e), w2)
           | (None, w2) \<Rightarrow>
               (case dk_write d (file_join scratch rel) data w2 of
                  (Some e, w3) \<Rightarrow> (Some (''overlay write '' @ rel @ '': '' @ e), w3)
                | (None, w3) \<Rightarrow> overlay_files d src scratch rels w3)))"

definition replay_command :: "test_run_spec \<Rightarrow> string list" where
  "replay_command sp = [''go'', ''test'', ''-count=1'', ''-run'', ''^('' @ join ''|'' (tr_funcs sp) @ '')$'', ''./'' @ tr_pkg sp]"

fun replay_specs :: "'w runner \<Rightarrow> string \<Rightarrow> int \<Rightarrow> test_run_spec list \<Rightarrow> 'w \<Rightarrow> command_result list \<times> 'w" where
  "replay_specs run scratch timeout [] w = ([], w)"
| "replay_specs run scratch timeout (sp # sps) w =
     (case run (replay_command sp) scratch timeout w of
        (r, w1) \<Rightarrow> (case replay_specs run scratch timeout sps w1 of (rs, w2) \<Rightarrow> (r # rs, w2)))"

definition replay_in :: "'w git_repo \<Rightarrow> string \<Rightarrow> string \<Rightarrow> string list \<Rightarrow> test_run_spec list \<Rightarrow> int \<Rightarrow> 'w \<Rightarrow> (string + command_result list) \<times> 'w" where
  "replay_in g scratch src overlay specs timeout w =
     (case overlay_files (gp_disk g) src scratch overlay w of
        (Some e, w1) \<Rightarrow> (Inl e, w1)
      | (None, w1) \<Rightarrow> (case replay_specs (gp_runner g) scratch timeout specs w1 of (rs, w2) \<Rightarrow> (Inr rs, w2)))"

text \<open>The scratch worktree is removed whatever happened after it was added.\<close>

definition git_replay :: "'w git_repo \<Rightarrow> ('w git_world) replay" where
  "git_replay g ref src overlay specs timeout sw =
     (case with_world (gp_new_id g) sw of
        (rid, sw0) \<Rightarrow>
          (let scratch = file_join (gp_worktree_dir g) (''redgreen-'' @ rid)
           in case git g (gp_repo_dir g) [''worktree'', ''add'', ''-f'', ''--detach'', scratch, ref] sw0 of
                (Inl e, sw1) \<Rightarrow> (Inl e, sw1)
              | (Inr out, sw1) \<Rightarrow>
                  (case with_world (replay_in g scratch src overlay specs timeout) sw1 of
                     (res, sw2) \<Rightarrow> (res, snd (git g (gp_repo_dir g) [''worktree'', ''remove'', ''--force'', scratch] sw2)))))"

subsection \<open>The repository\<close>

definition git_reader :: "'w git_repo \<Rightarrow> ('w git_world) package_reader" where
  "git_reader g = \<lparr>list_package = git_list_package g, show_file = git_show g, diff_commits = git_diff g, diff_worktree = git_diff_worktree g\<rparr>"

definition git_as_repo :: "'w git_repo \<Rightarrow> ('w git_world) repo" where
  "git_as_repo g = \<lparr>repo_init = git_init g, head_sha = git_head_sha g, open_ws = git_open g, fast_forward = git_set_ref g,
     reset_to = git_set_ref g, promote = git_promote g, reader = Some (git_reader g), red_green = Some (git_replay g), is_git_repo = True\<rparr>"

section \<open>Properties\<close>

text \<open>
  What the git repository runs in the target: over any sequence of its operations every process works in a worktree of
  its own, or in the target with a subcommand that leaves the checked-out files alone and moves no branch but that of
  the run. Only promoting touches the checkout.
\<close>

subsection \<open>The operations as they are called\<close>

datatype git_op =
    GInit run_state
  | GHead
  | GOpen string at_record
  | GSeed at_record "(string \<times> string) list"
  | GCommit at_record string
  | GClose at_record
  | GSetRef string
  | GPromote
  | GShow string
  | GList string
  | GDiff string string
  | GDiffTree at_record string
  | GReplay string at_record "string list" "test_run_spec list" int

definition worktree_path :: "'w git_repo \<Rightarrow> at_record \<Rightarrow> string" where
  "worktree_path g ar = file_join (gp_worktree_dir g) (worktree_name ar)"

definition git_step :: "'w git_repo \<Rightarrow> git_op \<Rightarrow> 'w git_world \<Rightarrow> 'w git_world" where
  "git_step g op sw =
     (case op of
        GInit s \<Rightarrow> snd (git_init g s sw)
      | GHead \<Rightarrow> snd (git_head_sha g sw)
      | GOpen fork ar \<Rightarrow> snd (git_open g fork ar sw)
      | GSeed ar files \<Rightarrow> snd (ws_seed (git_workspace g (worktree_path g ar)) files sw)
      | GCommit ar msg \<Rightarrow> snd (ws_commit (git_workspace g (worktree_path g ar)) msg sw)
      | GClose ar \<Rightarrow> snd (ws_close (git_workspace g (worktree_path g ar)) sw)
      | GSetRef sha \<Rightarrow> snd (git_set_ref g sha sw)
      | GPromote \<Rightarrow> snd (git_promote g sw)
      | GShow path \<Rightarrow> snd (git_show g path sw)
      | GList dir \<Rightarrow> snd (git_list_package g dir sw)
      | GDiff a b \<Rightarrow> snd (git_diff g a b sw)
      | GDiffTree ar base \<Rightarrow> snd (git_diff_worktree g (worktree_path g ar) base sw)
      | GReplay ref ar overlay specs t \<Rightarrow> snd (git_replay g ref (worktree_path g ar) overlay specs t sw))"

definition git_steps :: "'w git_repo \<Rightarrow> git_op list \<Rightarrow> 'w git_world \<Rightarrow> 'w git_world" where
  "git_steps g ops = fold (git_step g) ops"

subsection \<open>The log of processes\<close>

text \<open>A process as it was started: its arguments and its directory.\<close>

type_synonym process = "string list \<times> string"

definition beside :: "('w \<Rightarrow> 'a \<times> 'w) \<Rightarrow> 'l \<times> 'w \<Rightarrow> 'a \<times> ('l \<times> 'w)" where
  "beside f lw = (case f (snd lw) of (x, w') \<Rightarrow> (x, (fst lw, w')))"

definition logged_runner :: "'w runner \<Rightarrow> (process list \<times> 'w) runner" where
  "logged_runner run cmd dir t lw = (case run cmd dir t (snd lw) of (r, w') \<Rightarrow> (r, (fst lw @ [(cmd, dir)], w')))"

definition logged :: "'w git_repo \<Rightarrow> (process list \<times> 'w) git_repo" where
  "logged g = \<lparr>gp_runner = logged_runner (gp_runner g), gp_repo_dir = gp_repo_dir g, gp_worktree_dir = gp_worktree_dir g,
     gp_disk = \<lparr>dk_read = (\<lambda>p. beside (dk_read (gp_disk g) p)), dk_mkdir = (\<lambda>p. beside (dk_mkdir (gp_disk g) p)),
                dk_write = (\<lambda>p c. beside (dk_write (gp_disk g) p c))\<rparr>,
     gp_new_id = beside (gp_new_id g)\<rparr>"

text \<open>The worktrees of the repository: the entries of its worktree directory, by a single name.\<close>

definition own_worktree :: "'w git_repo \<Rightarrow> string \<Rightarrow> bool" where
  "own_worktree g dir \<longleftrightarrow> (\<exists>name. name_segs [name] \<and> dir = file_join (gp_worktree_dir g) name)"

text \<open>What is run in the target: commands that only look, worktrees of its own made and removed, with the branch of a
  task or none, and the integration branch moved.\<close>

definition target_args :: "'w git_repo \<Rightarrow> string \<Rightarrow> string list \<Rightarrow> bool" where
  "target_args g integ args \<longleftrightarrow>
     args \<in> {[''symbolic-ref'', ''--short'', ''-q'', ''HEAD''], [''rev-parse'', ''HEAD''], [''rev-parse'', integ], [''worktree'', ''prune'']}
     \<or> (\<exists>path. args = [''show'', integ @ '':'' @ path])
     \<or> (\<exists>dir. args = [''ls-tree'', ''-r'', ''--name-only'', integ, ''--'', dir])
     \<or> (\<exists>a b. args = [''diff'', a @ ''..'' @ b])
     \<or> (\<exists>dir. own_worktree g dir \<and> args = [''worktree'', ''remove'', ''--force'', dir])
     \<or> (\<exists>dir ref. own_worktree g dir \<and> args = [''worktree'', ''add'', ''-f'', ''--detach'', dir, ref])
     \<or> (\<exists>rid name base. name_segs [name]
          \<and> args = [''worktree'', ''add'', ''-f'', ''-B'', ''coding/runs/'' @ rid @ ''/at'' @ name, file_join (gp_worktree_dir g) name, base])
     \<or> (\<exists>base. args = [''branch'', ''-f'', integ, base])
     \<or> (\<exists>sha. args = [''update-ref'', ''refs/heads/'' @ integ, sha])"

definition target_process :: "'w git_repo \<Rightarrow> string \<Rightarrow> process \<Rightarrow> bool" where
  "target_process g integ p \<longleftrightarrow>
     (\<exists>args. target_args g integ args \<and> p = ([''git'', ''-C'', gp_repo_dir g] @ args, gp_repo_dir g))"

text \<open>What is run in a worktree.\<close>

definition tree_args :: "string list \<Rightarrow> bool" where
  "tree_args args \<longleftrightarrow>
     args \<in> {[''add'', ''-A''], [''diff'', ''--cached'', ''--quiet''], [''rev-parse'', ''HEAD'']}
     \<or> (\<exists>msg. args = [''commit'', ''-m'', msg]) \<or> (\<exists>base. args = [''diff'', ''--cached'', base, ''--''])"

definition tree_process :: "'w git_repo \<Rightarrow> process \<Rightarrow> bool" where
  "tree_process g p \<longleftrightarrow>
     (\<exists>dir. own_worktree g dir
        \<and> ((\<exists>args. tree_args args \<and> p = ([''git'', ''-C'', dir] @ args, dir)) \<or> (\<exists>sp. p = (replay_command sp, dir))))"

definition merge_process :: "'w git_repo \<Rightarrow> string \<Rightarrow> process" where
  "merge_process g integ = ([''git'', ''-C'', gp_repo_dir g, ''merge'', ''--ff-only'', integ], gp_repo_dir g)"

definition confined :: "'w git_repo \<Rightarrow> string \<Rightarrow> process \<Rightarrow> bool" where
  "confined g integ p \<longleftrightarrow> target_process g integ p \<or> tree_process g p"

text \<open>A worktree of the repository is none of the target, if that is not itself inside the worktree directory.\<close>

lemma own_worktree_apart:
  assumes "own_worktree g dir" "is_abs (gp_worktree_dir g)"
  shows "inside (gp_worktree_dir g) dir \<and> (\<not> inside (gp_worktree_dir g) (gp_repo_dir g) \<longrightarrow> dir \<noteq> gp_repo_dir g)"
proof -
  obtain name where n: "name_segs [name]" "dir = file_join (gp_worktree_dir g) name"
    using assms(1) by (auto simp: own_worktree_def)
  let ?d = "gp_worktree_dir g"
  have d: "?d \<noteq> []" "name \<noteq> []" using assms(2) n(1) by (auto simp: is_abs_def has_prefix_def name_segs_def)
  have j: "is_abs (?d @ ''/'' @ name)" using d assms(2) by (cases "gp_worktree_dir g") (auto simp: is_abs_def has_prefix_def)
  have "split_char (CHR ''/'') (?d @ ''/'' @ name) = split_char (CHR ''/'') ?d @ split_char (CHR ''/'') name"
    by (simp add: split_char_def split_p_append)
  moreover have "split_char (CHR ''/'') name = [name]"
    using n(1) by (auto simp: name_segs_def split_char_def intro!: split_p_none)
  ultimately have "clean_stack (?d @ ''/'' @ name) = name # clean_stack ?d"
    using j assms(2) clean_fold_pushes [OF n(1), of True "clean_stack ?d"] by (simp add: clean_stack_def is_abs_def)
  then have "rev (clean_stack dir) = rev (clean_stack ?d) @ [name]" "is_abs dir"
    using clean_idem [OF j] d by (simp_all add: n(2) file_join_def)
  then have "inside ?d dir" by (auto simp: inside_def)
  then show ?thesis by auto
qed

definition adds :: "'w git_repo \<Rightarrow> string \<Rightarrow> nat \<Rightarrow> (process list \<times> 'w) git_world \<Rightarrow> (process list \<times> 'w) git_world \<Rightarrow> bool" where
  "adds g integ n sw sw' \<longleftrightarrow>
     (gf_integration (fst sw) = integ \<longrightarrow>
        gf_integration (fst sw') = integ
        \<and> (\<exists>new. fst (snd sw') = fst (snd sw) @ new
             \<and> list_all (\<lambda>p. confined g integ p \<or> p = merge_process g integ) new
             \<and> length (filter (\<lambda>p. \<not> confined g integ p) new) \<le> n))"

lemma adds_refl: "fst sw = fst sw' \<Longrightarrow> fst (snd sw) = fst (snd sw') \<Longrightarrow> adds g integ 0 sw sw'"
  by (auto simp: adds_def intro: exI [of _ "[]"])

lemma adds_trans: "adds g integ n a b \<Longrightarrow> adds g integ m b c \<Longrightarrow> adds g integ (n + m) a c"
  unfolding adds_def
proof (intro impI)
  assume a: "gf_integration (fst a) = integ \<longrightarrow> gf_integration (fst b) = integ \<and>
      (\<exists>new. fst (snd b) = fst (snd a) @ new \<and> list_all (\<lambda>p. confined g integ p \<or> p = merge_process g integ) new
        \<and> length (filter (\<lambda>p. \<not> confined g integ p) new) \<le> n)"
    and b: "gf_integration (fst b) = integ \<longrightarrow> gf_integration (fst c) = integ \<and>
      (\<exists>new. fst (snd c) = fst (snd b) @ new \<and> list_all (\<lambda>p. confined g integ p \<or> p = merge_process g integ) new
        \<and> length (filter (\<lambda>p. \<not> confined g integ p) new) \<le> m)"
    and i: "gf_integration (fst a) = integ"
  from a i obtain xs where x: "gf_integration (fst b) = integ" "fst (snd b) = fst (snd a) @ xs"
    "list_all (\<lambda>p. confined g integ p \<or> p = merge_process g integ) xs" "length (filter (\<lambda>p. \<not> confined g integ p) xs) \<le> n" by blast
  from b x(1) obtain ys where y: "gf_integration (fst c) = integ" "fst (snd c) = fst (snd b) @ ys"
    "list_all (\<lambda>p. confined g integ p \<or> p = merge_process g integ) ys" "length (filter (\<lambda>p. \<not> confined g integ p) ys) \<le> m" by blast
  show "gf_integration (fst c) = integ \<and>
      (\<exists>new. fst (snd c) = fst (snd a) @ new \<and> list_all (\<lambda>p. confined g integ p \<or> p = merge_process g integ) new
        \<and> length (filter (\<lambda>p. \<not> confined g integ p) new) \<le> n + m)"
    using x y by (intro conjI exI [of _ "xs @ ys"]) auto
qed

lemma adds_trans0: "adds g integ 0 a b \<Longrightarrow> adds g integ n b c \<Longrightarrow> adds g integ n a c"
  using adds_trans [of g integ 0 a b n c] by simp

lemma git_snd: "snd (git g dir args sw) = snd (git_run_in g dir args sw)"
  by (simp add: git_def case_prod_unfold)

lemma git_do_snd: "snd (git_do g dir args sw) = snd (git_run_in g dir args sw)"
  by (simp add: git_do_def git_def case_prod_unfold split: sum.split)

lemma git_run_in_logged:
  "snd (git_run_in (logged g) dir args sw) = (fst sw, (fst (snd sw) @ [([''git'', ''-C'', dir] @ args, dir)], snd (snd (snd (git_run_in (logged g) dir args sw)))))"
  by (simp add: git_run_in_def with_world_def logged_def logged_runner_def case_prod_unfold)

lemma run_in_target:
  assumes "gf_integration (fst sw) = integ \<Longrightarrow> target_args g integ args"
  shows "adds g integ 0 sw (snd (git_run_in (logged g) (gp_repo_dir g) args sw))"
  using assms by (subst git_run_in_logged) (auto simp: adds_def confined_def target_process_def)

lemma run_in_worktree:
  "own_worktree g dir \<Longrightarrow> tree_args args \<Longrightarrow> adds g integ 0 sw (snd (git_run_in (logged g) dir args sw))"
  by (subst git_run_in_logged) (auto simp: adds_def confined_def tree_process_def)

lemma merge_logged:
  "adds g integ 1 sw (snd (git_run_in (logged g) (gp_repo_dir g) [''merge'', ''--ff-only'', gf_integration (fst sw)] sw))"
  by (subst git_run_in_logged) (auto simp: adds_def merge_process_def)

lemma logged_dirs: "gp_repo_dir (logged g) = gp_repo_dir g" "gp_worktree_dir (logged g) = gp_worktree_dir g"
  by (simp_all add: logged_def)

lemma git_target:
  assumes "git (logged g) (gp_repo_dir g) args sw = (x, sw')" "gf_integration (fst sw) = integ \<Longrightarrow> target_args g integ args"
  shows "adds g integ 0 sw sw'"
  using run_in_target [OF assms(2)] git_snd [of "logged g" "gp_repo_dir g" args sw] assms(1) by simp

lemma git_do_target:
  assumes "git_do (logged g) (gp_repo_dir g) args sw = (x, sw')" "gf_integration (fst sw) = integ \<Longrightarrow> target_args g integ args"
  shows "adds g integ 0 sw sw'"
  using run_in_target [OF assms(2)] git_do_snd [of "logged g" "gp_repo_dir g" args sw] assms(1) by simp

lemma git_worktree:
  "git (logged g) dir args sw = (x, sw') \<Longrightarrow> own_worktree g dir \<Longrightarrow> tree_args args \<Longrightarrow> adds g integ 0 sw sw'"
  using run_in_worktree [of g dir args integ sw] git_snd [of "logged g" dir args sw] by simp

lemma run_worktree:
  "git_run_in (logged g) dir args sw = (x, sw') \<Longrightarrow> own_worktree g dir \<Longrightarrow> tree_args args \<Longrightarrow> adds g integ 0 sw sw'"
  using run_in_worktree [of g dir args integ sw] by simp

lemma run_target:
  assumes "git_run_in (logged g) (gp_repo_dir g) args sw = (x, sw')" "gf_integration (fst sw) = integ \<Longrightarrow> target_args g integ args"
  shows "adds g integ 0 sw sw'"
  using run_in_target [where g = g and sw = sw, OF assms(2)] assms(1) by simp

lemma target_args_simps [simp]:
  "target_args g integ [''symbolic-ref'', ''--short'', ''-q'', ''HEAD'']" "target_args g integ [''rev-parse'', ''HEAD'']"
  "target_args g integ [''rev-parse'', integ]" "target_args g integ [''worktree'', ''prune'']"
  "target_args g integ [''show'', integ @ CHR '':'' # path]" "target_args g integ [''ls-tree'', ''-r'', ''--name-only'', integ, ''--'', dir]"
  "own_worktree g dir \<Longrightarrow> target_args g integ [''worktree'', ''remove'', ''--force'', dir]"
  "own_worktree g dir \<Longrightarrow> target_args g integ [''worktree'', ''add'', ''-f'', ''--detach'', dir, ref]"
  "target_args g integ [''branch'', ''-f'', integ, base]" "target_args g integ [''update-ref'', ''refs/heads/'' @ integ, sha]"
  by (simp_all add: target_args_def)

lemma target_args_diff [simp]: "target_args g integ [''diff'', a @ CHR ''.'' # CHR ''.'' # b]"
proof -
  have "\<exists>x y. [''diff'', a @ CHR ''.'' # CHR ''.'' # b] = [''diff'', x @ ''..'' @ y]" by (intro exI [of _ a] exI [of _ b]) simp
  then show ?thesis unfolding target_args_def by (rule disjI2 [OF disjI2 [OF disjI2 [OF disjI1]]])
qed

lemma target_args_add:
  assumes "name_segs [name]"
  shows "target_args g integ
    [''worktree'', ''add'', ''-f'', ''-B'', ''coding/runs/'' @ rid @ ''/at'' @ name, file_join (gp_worktree_dir g) name, base]"
proof -
  have "\<exists>rid' name' base'. name_segs [name'] \<and> [''worktree'', ''add'', ''-f'', ''-B'', ''coding/runs/'' @ rid @ ''/at'' @ name, file_join (gp_worktree_dir g) name, base]
      = [''worktree'', ''add'', ''-f'', ''-B'', ''coding/runs/'' @ rid' @ ''/at'' @ name', file_join (gp_worktree_dir g) name', base']"
    using assms by (intro exI [of _ rid] exI [of _ name] exI [of _ base]) simp
  then show ?thesis unfolding target_args_def by (rule disjI2 [OF disjI2 [OF disjI2 [OF disjI2 [OF disjI2 [OF disjI2 [OF disjI1]]]]]])
qed

lemma tree_args_simps [simp]:
  "tree_args [''add'', ''-A'']" "tree_args [''diff'', ''--cached'', ''--quiet'']" "tree_args [''rev-parse'', ''HEAD'']"
  "tree_args [''commit'', ''-m'', msg]" "tree_args [''diff'', ''--cached'', base, ''--'']"
  by (simp_all add: tree_args_def)

text \<open>The names of the worktrees are single when the slug, and the identifier of a replay, hold no slash.\<close>

lemma itoa_no_slash: "CHR ''/'' \<notin> set (itoa n)"
proof -
  have slash: "\<not> digit (CHR ''/'')" by code_simp
  show ?thesis
  proof (cases "0 \<le> n")
    case True
    then show ?thesis using itoa_digits slash by blast
  next
    case False
    then have "itoa n = CHR ''-'' # itoa (- n)" by (simp add: itoa_def)
    with False slash show ?thesis using itoa_digits [of "- n"] by auto
  qed
qed

lemma worktree_name_single: "CHR ''/'' \<notin> set (ar_slug ar) \<Longrightarrow> name_segs [worktree_name ar]"
proof -
  assume "CHR ''/'' \<notin> set (ar_slug ar)"
  then have slash: "CHR ''/'' \<notin> set (worktree_name ar)" by (simp add: worktree_name_def two_digits_def itoa_no_slash)
  have "CHR ''-'' \<in> set (worktree_name ar)" by (simp add: worktree_name_def)
  then have "worktree_name ar \<notin> {[], ''.'', ''..''}" by auto
  with slash show ?thesis by (simp add: name_segs_def)
qed

lemma worktree_path_own: "CHR ''/'' \<notin> set (ar_slug ar) \<Longrightarrow> own_worktree g (worktree_path g ar)"
  unfolding own_worktree_def worktree_path_def using worktree_name_single by blast

lemma scratch_own: "CHR ''/'' \<notin> set rid \<Longrightarrow> own_worktree g (file_join (gp_worktree_dir g) (''redgreen-'' @ rid))"
  unfolding own_worktree_def by (rule exI [of _ "''redgreen-'' @ rid"]) (auto simp: name_segs_def)

subsection \<open>Each operation\<close>

lemma resolve_adds: "resolve_base_ref (logged g) sw = (x, sw') \<Longrightarrow> adds g integ 0 sw sw'"
  unfolding resolve_base_ref_def logged_dirs
  by (auto split: prod.splits sum.splits list.splits intro: adds_trans0 git_target dest!: git_target [where integ = integ])

lemma init_adds: "rs_integration s = integ \<Longrightarrow> git_init (logged g) s sw = (x, sw') \<Longrightarrow> adds g integ 0 sw sw'"
proof -
  assume i: "rs_integration s = integ" and r: "git_init (logged g) s sw = (x, sw')"
  let ?sw0 = "(\<lparr>gf_integration = rs_integration s, gf_run_id = rs_run_id s\<rparr>, snd sw)"
  have set: "adds g integ 0 sw ?sw0" using i by (auto simp: adds_def intro: exI [of _ "[]"])
  obtain y sw1 where base: "(if rs_base_branch s = [] then resolve_base_ref (logged g) ?sw0 else (Inr (rs_base_branch s), ?sw0)) = (y, sw1)"
    by (metis prod.collapse)
  have one: "adds g integ 0 ?sw0 sw1"
    using base resolve_adds [of g ?sw0 y sw1 integ] adds_refl [of ?sw0 ?sw0 g integ] by (auto split: if_splits)
  have two: "adds g integ 0 sw1 sw'"
  proof (cases y)
    case (Inl e)
    with r base have "sw' = sw1" by (simp add: git_init_def Let_def)
    then show ?thesis by (simp add: adds_refl)
  next
    case (Inr b)
    with r base have "git_do (logged g) (gp_repo_dir g) [''branch'', ''-f'', rs_integration s, b] sw1 = (x, sw')"
      by (simp add: git_init_def Let_def logged_dirs)
    then have "git_do (logged g) (gp_repo_dir g) [''branch'', ''-f'', integ, b] sw1 = (x, sw')" unfolding i .
    then show ?thesis by (rule git_do_target) simp
  qed
  show ?thesis by (rule adds_trans0 [OF set adds_trans0 [OF one two]])
qed

lemma set_ref_adds: "git_set_ref (logged g) sha sw = (x, sw') \<Longrightarrow> adds g integ 0 sw sw'"
  unfolding git_set_ref_def logged_dirs by (erule git_do_target) (simp add: target_args_def)

lemma promote_adds: "adds g integ 1 sw (snd (git_promote (logged g) sw))"
proof -
  have "snd (git_promote (logged g) sw)
      = snd (git_run_in (logged g) (gp_repo_dir g) [''merge'', ''--ff-only'', gf_integration (fst sw)] sw)"
    by (simp add: git_promote_def logged_dirs case_prod_unfold git_do_snd split: option.split)
  then show ?thesis using merge_logged [of g integ sw] by (simp add: adds_def)
qed

lemma open_adds:
  assumes "CHR ''/'' \<notin> set (ar_slug ar)"
  shows "adds g integ 0 sw (snd (git_open (logged g) fork ar sw))"
proof -
  note own = worktree_path_own [OF assms, of g, unfolded worktree_path_def]
  have "target_args g integ [''worktree'', ''add'', ''-f'', ''-B'', worktree_branch rid ar, file_join (gp_worktree_dir g) (worktree_name ar), base]"
    for rid base using target_args_add [OF worktree_name_single [OF assms]] by (simp only: worktree_branch_def)
  then have step: "adds g integ 0 a (snd (git (logged g) (gp_repo_dir g)
        [''worktree'', ''add'', ''-f'', ''-B'', worktree_branch rid ar, file_join (gp_worktree_dir g) (worktree_name ar), base] a))"
    "adds g integ 0 a (snd (git (logged g) (gp_repo_dir g) [''worktree'', ''prune''] a))"
    "adds g integ 0 a (snd (git (logged g) (gp_repo_dir g)
        [''worktree'', ''remove'', ''--force'', file_join (gp_worktree_dir g) (worktree_name ar)] a))" for a rid base
    unfolding git_snd using own by (intro run_in_target; simp)+
  let ?path = "file_join (gp_worktree_dir g) (worktree_name ar)"
  let ?a = "snd (git (logged g) (gp_repo_dir g) [''worktree'', ''remove'', ''--force'', ?path] sw)"
  let ?b = "snd (git (logged g) (gp_repo_dir g) [''worktree'', ''prune''] ?a)"
  let ?add = "[''worktree'', ''add'', ''-f'', ''-B'', worktree_branch (gf_run_id (fst sw)) ar, ?path,
      if fork = [] then gf_integration (fst sw) else fork]"
  have "snd (git_open (logged g) fork ar sw) = snd (git (logged g) (gp_repo_dir g) ?add ?b)"
    by (simp only: git_open_def Let_def logged_dirs) (simp add: case_prod_unfold split: sum.split)
  then show ?thesis using adds_trans0 [OF adds_trans0 [OF step(3) step(2)] step(1)] by metis
qed

lemma commit_adds: "own_worktree g dir \<Longrightarrow> adds g integ 0 sw (snd (git_commit (logged g) dir msg sw))"
  unfolding git_commit_def
  by (auto split: prod.splits sum.splits dest!: git_worktree [where integ = integ] run_worktree [where integ = integ] intro: adds_trans0)

lemma close_adds: "own_worktree g dir \<Longrightarrow> adds g integ 0 sw (snd (git_close (logged g) dir sw))"
  unfolding git_close_def logged_dirs git_do_snd by (rule run_in_target) simp

lemma diff_tree_adds: "own_worktree g dir \<Longrightarrow> adds g integ 0 sw (snd (git_diff_worktree (logged g) dir base sw))"
  unfolding git_diff_worktree_def
  by (auto split: prod.splits sum.splits dest!: git_worktree [where integ = integ] run_worktree [where integ = integ] intro: adds_trans0)

lemma reads_add:
  "adds g integ 0 sw (snd (git_head_sha (logged g) sw))" "adds g integ 0 sw (snd (git_show (logged g) path sw))"
  "adds g integ 0 sw (snd (git_list_package (logged g) dir sw))" "adds g integ 0 sw (snd (git_diff (logged g) a b sw))"
  unfolding git_head_sha_def git_show_def git_list_package_def git_diff_def logged_dirs
  by (auto split: prod.splits sum.splits simp: git_snd dest: git_target [where integ = integ] run_target [where integ = integ] intro: run_in_target)

lemma with_world_log: "fst (snd (snd (with_world (f :: 'l \<times> 'w \<Rightarrow> 'a \<times> 'l \<times> 'w) sw))) = fst (snd (f (snd sw)))"
  by (simp add: with_world_def case_prod_unfold)

lemma seed_log: "fst (snd (seed_files (gp_disk (logged g)) dir files lw)) = fst lw"
proof (induction files arbitrary: lw)
  case (Cons f files)
  then show ?case by (cases f) (auto simp: logged_def beside_def split: prod.splits option.splits)
qed simp

lemma overlay_log: "fst (snd (overlay_files (gp_disk (logged g)) src scratch rels lw)) = fst lw"
proof (induction rels arbitrary: lw)
  case (Cons r rels)
  then show ?case by (auto simp: logged_def beside_def split: prod.splits option.splits sum.splits read_failure.splits)
qed simp

lemma replay_specs_adds:
  assumes "own_worktree g dir"
  shows "fst sw = f \<Longrightarrow> adds g integ 0 sw (f, snd (replay_specs (logged_runner run) dir t specs (snd sw)))"
proof (induction specs arbitrary: sw)
  case Nil
  then show ?case by (cases sw) (simp add: adds_refl)
next
  case (Cons sp specs)
  let ?lw = "snd (logged_runner run (replay_command sp) dir t (snd sw))"
  have "fst ?lw = fst (snd sw) @ [(replay_command sp, dir)]" by (simp add: logged_runner_def case_prod_unfold)
  then have "adds g integ 0 sw (f, ?lw)" using Cons.prems assms
    by (auto simp: adds_def confined_def tree_process_def)
  moreover have "adds g integ 0 (f, ?lw) (f, snd (replay_specs (logged_runner run) dir t specs ?lw))"
    using Cons.IH [of "(f, ?lw)"] by simp
  ultimately show ?case by (simp add: case_prod_unfold) (rule adds_trans0)
qed

lemma replay_in_adds:
  assumes "own_worktree g dir"
  shows "adds g integ 0 sw (fst sw, snd (replay_in (logged g) dir src overlay specs t (snd sw)))"
proof -
  let ?o = "overlay_files (gp_disk (logged g)) src dir overlay (snd sw)"
  have o: "adds g integ 0 sw (fst sw, snd ?o)"
    by (rule adds_refl) (simp_all add: overlay_log)
  have runner: "gp_runner (logged g) = logged_runner (gp_runner g)" by (simp add: logged_def)
  have "adds g integ 0 (fst sw, snd ?o) (fst sw, snd (replay_specs (gp_runner (logged g)) dir t specs (snd ?o)))"
    unfolding runner using replay_specs_adds [OF assms, of "(fst sw, snd ?o)"] by simp
  with o have both: "adds g integ 0 sw (fst sw, snd (replay_specs (gp_runner (logged g)) dir t specs (snd ?o)))" by (rule adds_trans0)
  show ?thesis
  proof (cases "fst ?o")
    case None
    with both show ?thesis by (simp add: replay_in_def case_prod_unfold)
  next
    case (Some e)
    with o show ?thesis by (simp add: replay_in_def case_prod_unfold)
  qed
qed

lemma replay_adds:
  assumes "\<And>w. CHR ''/'' \<notin> set (fst (gp_new_id g w))"
  shows "adds g integ 0 sw (snd (git_replay (logged g) ref src overlay specs t sw))"
proof -
  obtain rid lw where rid: "gp_new_id (logged g) (snd sw) = (rid, lw)" by (metis prod.collapse)
  then have "rid = fst (gp_new_id g (snd (snd sw)))" by (auto simp: logged_def beside_def split: prod.splits)
  then have own: "own_worktree g (file_join (gp_worktree_dir g) (''redgreen-'' @ rid))" using assms by (intro scratch_own) simp
  have "fst lw = fst (snd sw)" using rid by (auto simp: logged_def beside_def split: prod.splits)
  then have start: "adds g integ 0 sw (fst sw, lw)" by (simp add: adds_refl)
  let ?dir = "file_join (gp_worktree_dir g) (''redgreen-'' @ rid)"
  have step: "adds g integ 0 a (snd (git (logged g) (gp_repo_dir g) [''worktree'', ''add'', ''-f'', ''--detach'', ?dir, ref] a))"
    "adds g integ 0 a (snd (git (logged g) (gp_repo_dir g) [''worktree'', ''remove'', ''--force'', ?dir] a))" for a
    unfolding git_snd using own by (intro run_in_target; simp)+
  let ?a = "git (logged g) (gp_repo_dir g) [''worktree'', ''add'', ''-f'', ''--detach'', ?dir, ref] (fst sw, lw)"
  have added: "adds g integ 0 sw (snd ?a)" by (rule adds_trans0 [OF start step(1)])
  show ?thesis
  proof (cases "fst ?a")
    case (Inl e)
    with added rid show ?thesis
      by (simp add: git_replay_def with_world_def logged_dirs case_prod_unfold Let_def)
  next
    case (Inr out)
    have "adds g integ 0 (snd ?a) (fst (snd ?a), snd (replay_in (logged g) ?dir src overlay specs t (snd (snd ?a))))"
      by (rule replay_in_adds [OF own])
    from adds_trans0 [OF adds_trans0 [OF added this] step(2)]
    show ?thesis using Inr rid
      by (simp add: git_replay_def with_world_def logged_dirs case_prod_unfold Let_def)
  qed
qed

lemma worktree_path_logged: "worktree_path (logged g) ar = worktree_path g ar"
  by (simp add: worktree_path_def logged_dirs)

text \<open>An operation whose task, if it has one, has a slug without a slash.\<close>

fun plain_op :: "git_op \<Rightarrow> bool" where
  "plain_op (GOpen fork ar) = (CHR ''/'' \<notin> set (ar_slug ar))"
| "plain_op (GSeed ar files) = (CHR ''/'' \<notin> set (ar_slug ar))"
| "plain_op (GCommit ar msg) = (CHR ''/'' \<notin> set (ar_slug ar))"
| "plain_op (GClose ar) = (CHR ''/'' \<notin> set (ar_slug ar))"
| "plain_op (GDiffTree ar base) = (CHR ''/'' \<notin> set (ar_slug ar))"
| "plain_op (GReplay ref ar overlay specs t) = (CHR ''/'' \<notin> set (ar_slug ar))"
| "plain_op _ = True"

lemma step_adds:
  assumes "\<And>s. op = GInit s \<Longrightarrow> rs_integration s = integ" "plain_op op" "\<And>w. CHR ''/'' \<notin> set (fst (gp_new_id g w))"
  shows "adds g integ (if op = GPromote then 1 else 0) sw (git_step (logged g) op sw)"
proof (cases op)
  case (GInit s)
  then show ?thesis using init_adds [OF assms(1) [OF GInit], of g sw] by (simp add: git_step_def prod_eq_iff)
next
  case (GSeed ar files)
  then show ?thesis
    by (simp add: git_step_def git_workspace_def with_world_def case_prod_unfold adds_refl seed_log)
next
  case (GSetRef sha)
  then show ?thesis using set_ref_adds [of g sha sw] by (simp add: git_step_def prod_eq_iff)
qed (use assms(2,3) in \<open>simp_all add: git_step_def git_workspace_def worktree_path_logged reads_add open_adds commit_adds close_adds
    promote_adds [simplified] diff_tree_adds replay_adds worktree_path_own\<close>)

lemma steps_add:
  assumes "\<And>w. CHR ''/'' \<notin> set (fst (gp_new_id g w))"
  shows "(\<And>s. GInit s \<in> set ops \<Longrightarrow> rs_integration s = integ) \<Longrightarrow> list_all plain_op ops \<Longrightarrow>
     adds g integ (length (filter (\<lambda>op. op = GPromote) ops)) sw (git_steps (logged g) ops sw)"
proof (induction ops arbitrary: sw)
  case Nil
  then show ?case by (simp add: git_steps_def adds_refl)
next
  case (Cons op ops)
  have "adds g integ (if op = GPromote then 1 else 0) sw (git_step (logged g) op sw)" by (rule step_adds) (use Cons.prems assms in auto)
  moreover have "adds g integ (length (filter (\<lambda>op. op = GPromote) ops)) (git_step (logged g) op sw) (git_steps (logged g) ops (git_step (logged g) op sw))"
    by (rule Cons.IH) (use Cons.prems in auto)
  ultimately show ?case using adds_trans by (fastforce simp: git_steps_def)
qed

subsection \<open>The target is left alone\<close>

text \<open>C17: Over any sequence of operations of the git repository in one run, every process it starts is one of a short
  list: in a worktree of its own, staging, looking at or committing what is there, or a replay of tests; in the target,
  looking, adding and removing worktrees of its own, with the branch of a task, and moving the integration branch of
  the run. The one exception is the fast-forward of a promotion, run at most once for each promotion asked for. The worktrees lie
  in the worktree directory, an absolute path that does not hold the target, by a single name: no slug and no
  identifier of a replay holds a slash.\<close>

theorem git_leaves_target_alone:
  assumes "gf_integration f = integ" "\<And>s. GInit s \<in> set ops \<Longrightarrow> rs_integration s = integ"
    "list_all plain_op ops" "\<And>w. CHR ''/'' \<notin> set (fst (gp_new_id g w))"
    "is_abs (gp_worktree_dir g)" "\<not> inside (gp_worktree_dir g) (gp_repo_dir g)"
  shows "\<exists>f' w' log. git_steps (logged g) ops (f, ([], w)) = (f', (log, w')) \<and> gf_integration f' = integ
    \<and> (\<forall>p \<in> set log. target_process g integ p \<or> p = merge_process g integ \<or> (tree_process g p \<and> inside (gp_worktree_dir g) (snd p) \<and> snd p \<noteq> gp_repo_dir g))
    \<and> length (filter (\<lambda>p. \<not> confined g integ p) log) \<le> length (filter (\<lambda>op. op = GPromote) ops)"
proof -
  obtain f' log w' where r: "git_steps (logged g) ops (f, ([], w)) = (f', (log, w'))" by (metis prod.collapse)
  have "adds g integ (length (filter (\<lambda>op. op = GPromote) ops)) (f, ([], w)) (f', (log, w'))"
    using steps_add [OF assms(4), of ops integ "(f, ([], w))"] assms(2,3) r by simp
  with assms(1) have log: "gf_integration f' = integ" "\<forall>p \<in> set log. confined g integ p \<or> p = merge_process g integ"
    "length (filter (\<lambda>p. \<not> confined g integ p) log) \<le> length (filter (\<lambda>op. op = GPromote) ops)"
    by (auto simp: adds_def list_all_iff)
  moreover have "inside (gp_worktree_dir g) (snd p) \<and> snd p \<noteq> gp_repo_dir g" if "tree_process g p" for p
    using that own_worktree_apart [OF _ assms(5)] assms(6) by (auto simp: tree_process_def)
  ultimately show ?thesis using r unfolding confined_def by blast
qed

definition demo_git :: "unit git_repo" where
  "demo_git = \<lparr>gp_runner = (\<lambda>cmd dir t w. (\<lparr>cr_command = cmd, cr_exit = 0, cr_stdout = ''abc'', cr_stderr = []\<rparr>, w)),
     gp_repo_dir = ''/repo'', gp_worktree_dir = ''/tmp/wt'',
     gp_disk = \<lparr>dk_read = (\<lambda>p w. (Inl ReadMissing, w)), dk_mkdir = (\<lambda>p w. (None, w)), dk_write = (\<lambda>p c w. (None, w))\<rparr>,
     gp_new_id = (\<lambda>w. (''id'', w))\<rparr>"

definition demo_git_task :: at_record where
  "demo_git_task = new_record ''duty''
     \<lparr>at_slug = ''duty'', at_goal = ''g'', at_inputs = [], at_workspace = [], at_protected = [], at_allow_test_only = False,
      at_gate = [], at_oracles = [], at_contract = \<lparr>oc_assertions = [], oc_extractions = []\<rparr>,
      at_worker = \<lparr>wc_kind = WorkerModel, wc_command = [], wc_timeout_seconds = 0, wc_system_prompt = [], wc_inline_sibling_docs = False\<rparr>, at_conventions = [], at_max_iterations = 1\<rparr> 0"

definition demo_git_ops :: "git_op list" where
  "demo_git_ops = [GHead, GOpen [] demo_git_task, GCommit demo_git_task ''done'', GSetRef ''abc'', GPromote]"

theorem git_leaves_target_alone_witness:
  "\<exists>f' w' log. git_steps (logged demo_git) demo_git_ops (\<lparr>gf_integration = ''run/i'', gf_run_id = ''r''\<rparr>, ([], ())) = (f', (log, w'))
     \<and> length (filter (\<lambda>p. \<not> confined demo_git ''run/i'' p) log) \<le> 1"
proof -
  have plain: "list_all plain_op demo_git_ops" by (simp add: demo_git_ops_def demo_git_task_def new_record_def)
  have dirs: "is_abs (gp_worktree_dir demo_git)" by (simp add: demo_git_def is_abs_def has_prefix_def)
  have "rev (clean_stack ''/tmp/wt'') = [''tmp'', ''wt'']" "rev (clean_stack ''/repo'') = [''repo'']" by code_simp+
  then have apart: "\<not> inside (gp_worktree_dir demo_git) (gp_repo_dir demo_git)" by (simp add: demo_git_def inside_def)
  have ids: "CHR ''/'' \<notin> set (fst (gp_new_id demo_git w))" for w by (simp add: demo_git_def)
  have "length (filter (\<lambda>op. op = GPromote) demo_git_ops) = 1" by (simp add: demo_git_ops_def)
  with git_leaves_target_alone [OF _ _ plain ids dirs apart, of "\<lparr>gf_integration = ''run/i'', gf_run_id = ''r''\<rparr>" "''run/i''" "()"]
  show ?thesis by (auto simp: demo_git_ops_def)
qed

text \<open>The slug of a task is checked only for being unique and not blank. One with dots and slashes is joined into the
  path of a worktree, and opening it asks git to remove by force the worktree that is there; here the path is that of
  the target itself.\<close>

lemma slug_leaves_worktree_dir:
  "ar_slug ar = ''/../../../repo'' \<Longrightarrow> ar_position ar = 0 \<Longrightarrow> ar_branch_index ar = 0 \<Longrightarrow>
     worktree_path demo_git ar = gp_repo_dir demo_git"
proof -
  assume "ar_slug ar = ''/../../../repo''" "ar_position ar = 0" "ar_branch_index ar = 0"
  then have "worktree_path demo_git ar = file_join ''/tmp/wt'' (two_digits 0 @ ''-'' @ ''/../../../repo'')"
    by (simp add: worktree_path_def worktree_name_def demo_git_def)
  also have "\<dots> = ''/repo''" by code_simp
  finally show ?thesis by (simp add: demo_git_def)
qed

text \<open>The same run, as it is logged.\<close>

lemma demo_git_log:
  "fst (snd (git_steps (logged demo_git) [GHead, GSetRef ''abc'', GPromote] (\<lparr>gf_integration = ''run/i'', gf_run_id = ''r''\<rparr>, ([], ()))))
     = [([''git'', ''-C'', ''/repo'', ''rev-parse'', ''run/i''], ''/repo''),
        ([''git'', ''-C'', ''/repo'', ''update-ref'', ''refs/heads/run/i'', ''abc''], ''/repo''),
        ([''git'', ''-C'', ''/repo'', ''merge'', ''--ff-only'', ''run/i''], ''/repo'')]"
  by (simp add: git_steps_def git_step_def git_head_sha_def git_set_ref_def git_promote_def git_do_def git_def git_run_in_def
      with_world_def logged_def logged_runner_def demo_git_def)

subsection \<open>Commits and reads\<close>

text \<open>A commit is reported only when a process made it: nothing is committed when the index equals the head.\<close>

lemma commit_reported:
  assumes "git_commit g dir msg sw = (Inr (Some sha), sw')"
  shows "\<exists>sw1 sw2 sw3 out out'. git g dir [''add'', ''-A''] sw = (Inr out, sw1)
    \<and> cr_exit (fst (git_run_in g dir [''diff'', ''--cached'', ''--quiet''] sw1)) \<noteq> 0
    \<and> git g dir [''commit'', ''-m'', msg] sw2 = (Inr out', sw3) \<and> git g dir [''rev-parse'', ''HEAD''] sw3 = (Inr sha, sw')"
  using assms unfolding git_commit_def by (fastforce split: prod.splits sum.splits if_splits)

text \<open>Every file of the package is listed, not only its Go files.\<close>

lemma list_package_not_filtered:
  assumes "git g (gp_repo_dir g) [''ls-tree'', ''-r'', ''--name-only'', gf_integration (fst sw), ''--'', dir] sw = (Inr (''p/a.go'' @ newline @ ''p/data.txt''), sw')"
  shows "git_list_package g dir sw = (Inr [''p/a.go'', ''p/data.txt''], sw')"
proof -
  have "filter (\<lambda>l. l \<noteq> []) (map trim_space (split_char (CHR 0x0A) (''p/a.go'' @ newline @ ''p/data.txt''))) = [''p/a.go'', ''p/data.txt'']"
    by code_simp
  then show ?thesis by (simp only: git_list_package_def assms prod.case sum.case)
qed

lemma show_hides_failure: "fst (git_show g path sw) \<noteq> Inl e"
  by (simp add: git_show_def case_prod_unfold)

end
