(* ===== verification/Parity_Check.thy ===== *)
theory Parity_Check
  imports Planner
begin

text \<open>
  Two checks that follow a green chain: forward parity, \<open>internal/coding/forwardparity.go\<close>, which runs the reference
  tests on the result, and the conformance critic, \<open>conformance.go\<close>. The file system is a record of operations over
  the world; the tree that \<open>filepath.WalkDir\<close> visits is given as a tree.
\<close>

subsection \<open>The verdict of a parity run\<close>

record parity_result =
  pr_compiled :: bool
  pr_passed :: bool
  pr_failures :: "string list"
  pr_false_pass :: bool
  pr_allowlisted :: "string list"
  pr_output_tail :: string

definition matches_allowlist :: "string \<Rightarrow> string list \<Rightarrow> bool" where
  "matches_allowlist line allowlist = list_ex (\<lambda>a. a \<noteq> [] \<and> contains line a) allowlist"

text \<open>The false pass, and the failures that are explained.\<close>

definition classify_false_pass :: "parity_result \<Rightarrow> string list \<Rightarrow> parity_result" where
  "classify_false_pass res allowlist =
     (if \<not> pr_compiled res \<or> pr_passed res then res\<lparr>pr_false_pass := False\<rparr>
      else res\<lparr>pr_allowlisted := pr_allowlisted res @ filter (\<lambda>f. matches_allowlist f allowlist) (pr_failures res),
               pr_false_pass := list_ex (\<lambda>f. \<not> matches_allowlist f allowlist \<and> \<not> has_prefix f ''FAIL'') (pr_failures res)\<rparr>)"

definition failure_line :: "string \<Rightarrow> bool" where
  "failure_line t = (has_prefix t ''--- FAIL'' \<or> has_prefix t ''FAIL'' \<or> has_prefix t ''# '')"

definition read_parity_run :: "command_result \<Rightarrow> string list \<Rightarrow> parity_result" where
  "read_parity_run run allowlist =
     (let out = cr_stdout run @ cr_stderr run
      in classify_false_pass
           \<lparr>pr_compiled = (\<not> contains out ''[build failed]''), pr_passed = (cr_exit run = 0),
            pr_failures = filter failure_line (map trim_space (split_char (CHR 0x0A) out)), pr_false_pass = False,
            pr_allowlisted = [], pr_output_tail = tail_of out gate_tail_bytes\<rparr> allowlist)"

subsection \<open>The scratch tree\<close>

datatype src_tree = SrcFile string | SrcDir string "src_tree list" | SrcLocked string string

record 'w parity_fs =
  pf_temp :: "'w \<Rightarrow> (string + string) \<times> 'w"
  pf_remove_all :: "string \<Rightarrow> 'w \<Rightarrow> 'w"
  pf_walk :: "'w \<Rightarrow> string \<Rightarrow> string + src_tree"
  pf_is_dir :: "'w \<Rightarrow> string \<Rightarrow> bool"
  pf_test_files :: "'w \<Rightarrow> string \<Rightarrow> string + string list"
  pf_remove :: "string \<Rightarrow> 'w \<Rightarrow> string option \<times> 'w"
  pf_mkdir :: "string \<Rightarrow> 'w \<Rightarrow> string option \<times> 'w"
  pf_copy :: "string \<Rightarrow> string \<Rightarrow> 'w \<Rightarrow> string option \<times> 'w"

text \<open>Steps that stop at the first error.\<close>

fun each :: "('a \<Rightarrow> 'w \<Rightarrow> string option \<times> 'w) \<Rightarrow> 'a list \<Rightarrow> 'w \<Rightarrow> string option \<times> 'w" where
  "each f [] w = (None, w)"
| "each f (x # xs) w = (case f x w of (Some e, w1) \<Rightarrow> (Some e, w1) | (None, w1) \<Rightarrow> each f xs w1)"

definition copy_file :: "'w parity_fs \<Rightarrow> string \<Rightarrow> string \<Rightarrow> 'w \<Rightarrow> string option \<times> 'w" where
  "copy_file d src dst w =
     (case pf_mkdir d (path_dir dst) w of (Some e, w1) \<Rightarrow> (Some e, w1) | (None, w1) \<Rightarrow> pf_copy d src dst w1)"

text \<open>The copy of a node found at a path below the source; \<open>.git\<close> directories are skipped.\<close>

fun copy_node :: "'w parity_fs \<Rightarrow> string \<Rightarrow> string \<Rightarrow> string \<Rightarrow> src_tree \<Rightarrow> 'w \<Rightarrow> string option \<times> 'w"
  and copy_nodes :: "'w parity_fs \<Rightarrow> string \<Rightarrow> string \<Rightarrow> string \<Rightarrow> src_tree list \<Rightarrow> 'w \<Rightarrow> string option \<times> 'w" where
  "copy_node d src dst rel (SrcFile n) w = copy_file d (file_join src rel) (file_join dst rel) w"
| "copy_node d src dst rel (SrcDir n ts) w =
     (if n = ''.git'' then (None, w)
      else (case pf_mkdir d (file_join dst rel) w of
              (Some e, w1) \<Rightarrow> (Some e, w1)
            | (None, w1) \<Rightarrow> copy_nodes d src dst rel ts w1))"
| "copy_node d src dst rel (SrcLocked n e) w =
     (if n = ''.git'' then (None, w)
      else (case pf_mkdir d (file_join dst rel) w of (Some e', w1) \<Rightarrow> (Some e', w1) | (None, w1) \<Rightarrow> (Some e, w1)))"
| "copy_nodes d src dst rel [] w = (None, w)"
| "copy_nodes d src dst rel (t # ts) w =
     (case copy_node d src dst (file_join rel (case t of SrcFile n \<Rightarrow> n | SrcDir n ts' \<Rightarrow> n | SrcLocked n e \<Rightarrow> n)) t w of
        (Some e, w1) \<Rightarrow> (Some e, w1)
      | (None, w1) \<Rightarrow> copy_nodes d src dst rel ts w1)"

definition copy_tree :: "'w parity_fs \<Rightarrow> string \<Rightarrow> string \<Rightarrow> 'w \<Rightarrow> string option \<times> 'w" where
  "copy_tree d src dst w = (case pf_walk d w src of Inl e \<Rightarrow> (Some e, w) | Inr t \<Rightarrow> copy_node d src dst ''.'' t w)"

definition swap_reference_tests :: "'w parity_fs \<Rightarrow> string \<Rightarrow> string \<Rightarrow> string \<Rightarrow> 'w \<Rightarrow> string option \<times> 'w" where
  "swap_reference_tests d reference work pkg w =
     (let target = file_join work pkg; ref = file_join reference pkg
      in if \<not> pf_is_dir d w target \<or> \<not> pf_is_dir d w ref then (None, w)
         else (case pf_test_files d w target of
                 Inl e \<Rightarrow> (Some e, w)
               | Inr existing \<Rightarrow>
                   (case each (pf_remove d) existing w of
                      (Some e, w1) \<Rightarrow> (Some e, w1)
                    | (None, w1) \<Rightarrow>
                        (case pf_test_files d w1 ref of
                           Inl e \<Rightarrow> (Some e, w1)
                         | Inr tests \<Rightarrow> each (\<lambda>t. copy_file d t (file_join target (file_base t))) tests w1))))"

definition swap_package :: "'w parity_fs \<Rightarrow> string \<Rightarrow> string \<Rightarrow> string \<Rightarrow> 'w \<Rightarrow> string option \<times> 'w" where
  "swap_package d reference work pkg w =
     (case swap_reference_tests d reference work pkg w of
        (Some e, w1) \<Rightarrow> (Some (''swap reference tests for '' @ go_quote pkg @ '': '' @ e), w1)
      | (None, w1) \<Rightarrow> (None, w1))"

definition parity_in ::
  "'w parity_fs \<Rightarrow> 'w runner \<Rightarrow> string \<Rightarrow> string \<Rightarrow> string \<Rightarrow> string list \<Rightarrow> string list \<Rightarrow> string list \<Rightarrow> 'w
     \<Rightarrow> (string + parity_result) \<times> 'w" where
  "parity_in d run work src reference packages test_cmd allowlist w =
     (case copy_tree d src work w of
        (Some e, w1) \<Rightarrow> (Inl (''copy src tree: '' @ e), w1)
      | (None, w1) \<Rightarrow>
          (case each (swap_package d reference work) packages w1 of
             (Some e, w2) \<Rightarrow> (Inl e, w2)
           | (None, w2) \<Rightarrow>
               (case run (if test_cmd = [] then [''go'', ''test'', ''./...''] else test_cmd) work 0 w2 of
                  (r, w3) \<Rightarrow> (Inr (read_parity_run r allowlist), w3))))"

text \<open>The scratch tree is removed at the end, whatever happened.\<close>

definition forward_parity ::
  "'w parity_fs \<Rightarrow> 'w runner \<Rightarrow> string \<Rightarrow> string \<Rightarrow> string list \<Rightarrow> string list \<Rightarrow> string list \<Rightarrow> 'w
     \<Rightarrow> (string + parity_result) \<times> 'w" where
  "forward_parity d run src reference packages test_cmd allowlist w =
     (case pf_temp d w of
        (Inl e, w1) \<Rightarrow> (Inl (''parity workdir: '' @ e), w1)
      | (Inr work, w1) \<Rightarrow>
          (case parity_in d run work src reference packages test_cmd allowlist w1 of
             (res, w2) \<Rightarrow> (res, pf_remove_all d work w2)))"

subsection \<open>The conformance critic\<close>

datatype conformance_verdict = Conforms | Violation string

text \<open>\<open>conformanceRe\<close> at the head of a text (over ASCII letters), and at its leftmost match: whether the word is the
  good one.\<close>

definition conformance_here :: "string \<Rightarrow> bool option" where
  "conformance_here s =
     (if to_lower (take 11 s) \<noteq> ''conformance'' then None
      else (case dropWhile regexp_space (drop 11 s) of
              [] \<Rightarrow> None
            | c # t \<Rightarrow>
                if c \<noteq> CHR '':'' \<and> c \<noteq> CHR ''='' then None
                else (let u = dropWhile regexp_space t
                      in if to_lower (take 8 u) = ''conforms'' then Some True
                         else if to_lower (take 9 u) = ''violation'' then Some False else None)))"

fun first_conformance :: "string \<Rightarrow> bool option" where
  "first_conformance [] = None"
| "first_conformance (c # s) = (case conformance_here (c # s) of Some b \<Rightarrow> Some b | None \<Rightarrow> first_conformance s)"

definition parse_conformance_report :: "string \<Rightarrow> conformance_verdict option" where
  "parse_conformance_report s =
     (case first_conformance s of None \<Rightarrow> None | Some True \<Rightarrow> Some Conforms | Some False \<Rightarrow> Some (Violation (trim_space s)))"

definition conformance_system_prompt :: string where
  "conformance_system_prompt =
          ''You are an adversarial code reviewer. You are given a feature'' @ [CHR 0x27] @
     ''s PROSE SPECIFICATION and an IMPLEMENTATION that already passes its automated tests. Those'' @
     '' tests pin only one example per behavior, so the implementation may satisfy the tests whil'' @
     ''e still CONTRADICTING the specification.'' @ newline @ newline @
     ''Your job: find ONE concrete input on which the implementation'' @ [CHR 0x27] @
     ''s actual behavior differs from what the specification requires. Reason specifically about '' @
     ''the ways a minimal implementation cheats a thin test:'' @ newline @
     ''- MAGNITUDE: a value the spec says to COMPUTE (a count, a sum) that the code instead hard-'' @
     ''codes or caps.'' @ newline @
     ''- SELECTION/ORDER: the spec says pick the best / highest / earliest, but the code returns '' @
     ''the first / last / an arbitrary one.'' @ newline @
     ''- CASE & FORMAT: the spec says case-insensitive / trimmed / whole-word, but the code compa'' @
     ''res raw.'' @ newline @ ''- BOUNDARIES: empty, zero, ties, duplicates, missing.'' @ newline @ newline @
     ''Trace the code on candidate inputs until you either find a contradiction or convince yours'' @
     ''elf none exists.'' @ newline @ newline @ ''Reply with EXACTLY one verdict line:'' @ newline @ ''- '' @
     [CHR 0x60] @ ''CONFORMANCE: CONFORMS'' @ [CHR 0x60] @
     '' if the implementation fully satisfies the specification, OR'' @ newline @ ''- '' @ [CHR 0x60] @
     ''CONFORMANCE: VIOLATION'' @ [CHR 0x60] @
     '' followed by: the concrete input, what the SPEC requires for it, and what the IMPLEMENTATI'' @
     ''ON actually produces.''"

definition conformance_user_prompt :: "string \<Rightarrow> string \<Rightarrow> string" where
  "conformance_user_prompt goal impl =
     ''SPECIFICATION:'' @ newline @ trim_space goal @ newline @ newline @ ''IMPLEMENTATION:'' @ newline
     @ [CHR 0x60, CHR 0x60, CHR 0x60] @ ''go'' @ newline @ trim_space impl @ newline @ [CHR 0x60, CHR 0x60, CHR 0x60] @ newline"

definition conformance_probe :: "'w ask \<Rightarrow> string \<Rightarrow> string \<Rightarrow> 'w \<Rightarrow> (string + conformance_verdict) \<times> 'w" where
  "conformance_probe ask goal impl w =
     (if blank goal \<or> blank impl then (Inl ''conformance probe: goal and implementation are both required'', w)
      else (case ask conformance_system_prompt (conformance_user_prompt goal impl) w of
              (Inl e, w1) \<Rightarrow> (Inl (''conformance probe: '' @ e), w1)
            | (Inr reply, w1) \<Rightarrow>
                (case parse_conformance_report reply of
                   None \<Rightarrow> (Inl (''conformance probe: no parseable '' @ [CHR 0x60] @ ''CONFORMANCE: CONFORMS|VIOLATION'' @ [CHR 0x60]
                             @ '' verdict in reply''), w1)
                 | Some v \<Rightarrow> (Inr v, w1))))"

subsection \<open>What the verdicts say\<close>

text \<open>A false pass is exactly a run that compiled and failed with a failure line other than a summary that no entry
  of the list explains; nothing is suppressed without being recorded.\<close>

lemma false_pass_exact:
  "pr_false_pass (read_parity_run run allowlist) \<longleftrightarrow>
     pr_compiled (read_parity_run run allowlist) \<and> \<not> pr_passed (read_parity_run run allowlist)
     \<and> (\<exists>f \<in> set (pr_failures (read_parity_run run allowlist)). \<not> matches_allowlist f allowlist \<and> \<not> has_prefix f ''FAIL'')"
  by (simp add: read_parity_run_def classify_false_pass_def Let_def list_ex_iff)

lemma suppressed_is_recorded:
  assumes "pr_compiled (read_parity_run run allowlist)" "\<not> pr_passed (read_parity_run run allowlist)"
    and "\<not> pr_false_pass (read_parity_run run allowlist)" "f \<in> set (pr_failures (read_parity_run run allowlist))"
  shows "f \<in> set (pr_allowlisted (read_parity_run run allowlist)) \<or> has_prefix f ''FAIL''"
  using assms by (auto simp: read_parity_run_def classify_false_pass_def Let_def list_ex_iff split: if_splits)

text \<open>A run that only prints the summary line of a package (a panic outside a test, a timeout, a failing \<open>TestMain\<close>)
  is red, nothing explains it, and yet it is not a false pass.\<close>

lemma bare_fail_not_false_pass:
  "let res = read_parity_run \<lparr>cr_command = [], cr_exit = 1,
       cr_stdout = ''panic: test timed out after 10m0s'' @ newline @ ''FAIL'' @ [CHR 0x09] @ ''corpos/internal/x'' @ newline, cr_stderr = []\<rparr> []
   in pr_compiled res \<and> \<not> pr_passed res \<and> \<not> pr_false_pass res \<and> pr_allowlisted res = []"
  by code_simp

text \<open>The scratch tree is removed on every path.\<close>

lemma parity_cleans_up:
  assumes "pf_temp d w = (Inr work, w1)" "forward_parity d run src reference packages test_cmd allowlist w = (res, w')"
  shows "\<exists>w2. w' = pf_remove_all d work w2"
  using assms by (auto simp: forward_parity_def split: prod.splits)

lemma conformance_leftmost:
  "conformance_here s = Some b \<Longrightarrow> s \<noteq> [] \<Longrightarrow> first_conformance s = Some b"
  by (cases s) simp_all

text \<open>An answer that quotes the request before its verdict is read at the quotation.\<close>

lemma quoted_verdict_wins:
  "parse_conformance_report (''I was asked for CONFORMANCE: CONFORMS or not. CONFORMANCE: VIOLATION on empty input'') = Some Conforms"
  by code_simp

end
