(* ===== verification/Arc_Review.thy ===== *)
theory Arc_Review
  imports Mcp Agent_Audit
begin

text \<open>
  The arc-close filing review, \<open>internal/arcreview/arcreview.go\<close>: the reviewer of a session counts turns, looks for a
  closing shape in the last user message, fires a review of the transcript, forges the short filings at once and
  queues reminders for the next turn. The provider, the scratch file and the decoders are parameters.
\<close>

subsection \<open>Closing shapes\<close>

definition word_then :: "string \<Rightarrow> string \<Rightarrow> re" where
  "word_then a b = RSeq [RBound, lit a, spaces1, lit b, RBound]"

definition shape_patterns :: "(string \<times> re) list" where
  "shape_patterns = [
     (''session_end'', word_then ''session'' ''end''),
     (''any_else'', RSeq [RBound, lit ''any'', opt_re (lit ''thing''), spaces1, lit ''else'', RBound]),
     (''thats_all'', RSeq [RBound, lit ''that'', opt_re (lit [CHR 0x27]), lit ''s'', spaces1, lit ''all'', RBound]),
     (''looks_good'', RSeq [RBound, lit ''look'', opt_re (lit ''s''), spaces1, lit ''good'', RBound]),
     (''wrapping'', RSeq [RClass (\<lambda>c. c \<noteq> CHR ''/''), RBound, lit ''wrapping'', RBound]),
     (''thanks'', RSeq [RBound, lit ''thank'', opt_re (lit ''s''), RBound]),
     (''done'', RSeq [RBound, lit ''done'', RBound]),
     (''clear_command'', RSeq [lit ''/clear'', RBound])]"

text \<open>The alternative of \<open>wrapping\<close> at the very start of a text.\<close>

definition shape_matches :: "string \<times> re \<Rightarrow> string \<Rightarrow> bool" where
  "shape_matches p txt = (match_string (snd p) txt
     \<or> fst p = ''wrapping'' \<and> re_ends txt (RSeq [RBound, lit ''wrapping'', RBound]) 0 \<noteq> [])"

definition detect_shape :: "string \<Rightarrow> string" where
  "detect_shape txt =
     (if txt = [] then []
      else (let low = to_lower (join '' '' (Go_Prelude.fields txt))
            in case find (\<lambda>p. shape_matches p low) shape_patterns of None \<Rightarrow> [] | Some p \<Rightarrow> fst p))"

definition last_user_message :: "chat_message list \<Rightarrow> string" where
  "last_user_message ms =
     (case find (\<lambda>m. m_role m = RoleUser) (rev ms) of None \<Rightarrow> [] | Some m \<Rightarrow> m_content m)"

subsection \<open>Slugs\<close>

definition cap80 :: "string \<Rightarrow> string" where
  "cap80 s = take 80 s"

definition slug_char :: "char \<Rightarrow> bool" where
  "slug_char c = (CHR ''a'' \<le> c \<and> c \<le> CHR ''z'' \<or> CHR ''0'' \<le> c \<and> c \<le> CHR ''9'')"

text \<open>Runs of other characters become one dash each.\<close>

fun dashed :: "bool \<Rightarrow> string \<Rightarrow> string" where
  "dashed gap [] = (if gap then ''-'' else [])"
| "dashed gap (c # s) = (if slug_char c then (if gap then [CHR ''-''] else []) @ c # dashed False s else dashed True s)"

definition trim_dashes :: "string \<Rightarrow> string" where
  "trim_dashes s = rev (dropWhile (\<lambda>c. c = CHR ''-'') (rev (dropWhile (\<lambda>c. c = CHR ''-'') s)))"

definition kebab :: "string \<Rightarrow> string" where
  "kebab s = trim_dashes (dashed False (to_lower s))"

definition derive_slug :: "(string \<times> go_value) list \<Rightarrow> string" where
  "derive_slug flds =
     (let n = string_member ''name'' (VMap flds); t = string_member ''title'' (VMap flds)
      in if n \<noteq> [] then cap80 n else if t \<noteq> [] then cap80 (kebab t) else ''arc-review-filing'')"

subsection \<open>The review\<close>

record filing_decision =
  fd_action :: string
  fd_payload :: string
  fd_confidence :: rat
  fd_reasoning :: string

record review_result =
  rv_status :: string
  rv_auto :: "filing_decision list"
  rv_staged :: "filing_decision list"
  rv_confirm :: "filing_decision list"
  rv_triggers :: "string list"
  rv_event_id :: string

record reviewer =
  rw_session :: string
  rw_threshold :: int
  rw_turns :: int
  rw_pending :: "string list"

definition default_turn_threshold :: int where
  "default_turn_threshold = 5"

definition with_turn_threshold :: "int \<Rightarrow> reviewer \<Rightarrow> reviewer" where
  "with_turn_threshold n r = (if 0 < n then r\<lparr>rw_threshold := n\<rparr> else r)"

definition new_reviewer :: "string \<Rightarrow> (reviewer \<Rightarrow> reviewer) list \<Rightarrow> reviewer" where
  "new_reviewer session opts =
     fold (\<lambda>opt. opt) opts \<lparr>rw_session = session, rw_threshold = default_turn_threshold, rw_turns = 0, rw_pending = []\<rparr>"

text \<open>\<open>av_two_decimals\<close> prints with two decimals; \<open>av_line\<close> encodes a line of the transcript.\<close>

record 'w arc_env =
  av_dispatch :: "'w provider"
  av_now :: "'w \<Rightarrow> string"
  av_create :: "string \<Rightarrow> 'w \<Rightarrow> string option \<times> 'w"
  av_remove :: "string \<Rightarrow> 'w \<Rightarrow> 'w"
  av_line :: "string \<Rightarrow> string \<Rightarrow> string"
  av_decode :: "go_value \<Rightarrow> review_result option"
  av_fields :: "string \<Rightarrow> (string \<times> go_value) list option"
  av_two_decimals :: "rat \<Rightarrow> string"

definition transcript_rows :: "chat_message list \<Rightarrow> chat_message list" where
  "transcript_rows ms = filter (\<lambda>m. (m_role m = RoleUser \<or> m_role m = RoleAssistant) \<and> \<not> blank (m_content m)) ms"

definition materialize :: "'w arc_env \<Rightarrow> chat_message list \<Rightarrow> 'w \<Rightarrow> string option \<times> 'w" where
  "materialize e ms w = av_create e (concat (map (\<lambda>m. av_line e (role_name (m_role m)) (m_content m)) (transcript_rows ms))) w"

definition attribute :: "(string \<times> go_value) list \<Rightarrow> (string \<times> go_value) list" where
  "attribute flds = AList.update ''qwen_task_id'' (VStr ''arc-review-decisions'') flds"

definition forge_call :: "reviewer \<Rightarrow> string \<Rightarrow> (string \<times> go_value) list \<Rightarrow> call" where
  "forge_call r schema flds =
     (plain_call ''work'' ''forge'' (Some [''schema_name'' \<mapsto> VStr schema, ''slug'' \<mapsto> VStr (derive_slug (attribute flds)),
        ''fields'' \<mapsto> VMap (attribute flds)]))
     \<lparr>rationale := ''arc-close-filing-review auto-forge ('' @ schema @ '') for session '' @ rw_session r\<rparr>"

definition forge :: "'w arc_env \<Rightarrow> reviewer \<Rightarrow> string \<Rightarrow> string \<Rightarrow> call option" where
  "forge e r schema payload =
     (case av_fields e payload of
        None \<Rightarrow> None
      | Some flds \<Rightarrow> if flds = [] then None else Some (forge_call r schema flds))"

text \<open>Only the short kinds are forged without the agent.\<close>

definition auto_call :: "'w arc_env \<Rightarrow> reviewer \<Rightarrow> filing_decision \<Rightarrow> call option" where
  "auto_call e r d =
     (if fd_action d = ''forge_bug'' then forge e r ''bug'' (fd_payload d)
      else if fd_action d = ''forge_suggestion'' then forge e r ''suggestion'' (fd_payload d)
      else None)"

definition auto_calls :: "'w arc_env \<Rightarrow> reviewer \<Rightarrow> review_result \<Rightarrow> call list" where
  "auto_calls e r rr = List.map_filter (auto_call e r) (rv_auto rr)"

definition authoring_reminder :: "review_result \<Rightarrow> string" where
  "authoring_reminder rr =
     (if rv_staged rr = [] then []
      else ''<system-reminder>'' @ newline @ ''Arc-close filing review fired (triggers: '' @ join '', '' (rv_triggers rr)
        @ ''). Qwen decided '' @ itoa (int (length (rv_staged rr)))
        @ '' body-heavy item(s) are worth filing and chose the kind + a seed title for each. YOU hold the full conversation ''
        @ em_dash @ '' AUTHOR the body; don'' @ [CHR 0x27] @ ''t rubber-stamp the draft.'' @ newline
        @ concat (map (\<lambda>(i, d). itoa (int i + 1) @ ''. '' @ fd_action d @ '' '' @ em_dash @ '' rationale: '' @ fd_reasoning d @ newline
            @ ''   payload: '' @ fd_payload d @ newline) (enumerate 0 (rv_staged rr)))
        @ ''(staged from arc-review event '' @ rv_event_id rr @ '')'' @ newline @ ''</system-reminder>'')"

definition confirm_reminder :: "(rat \<Rightarrow> string) \<Rightarrow> review_result \<Rightarrow> string" where
  "confirm_reminder two rr =
     (if rv_confirm rr = [] then []
      else ''<system-reminder>'' @ newline @ ''Arc-close filing review fired (triggers: '' @ join '', '' (rv_triggers rr)
        @ ''). Qwen returned '' @ itoa (int (length (rv_confirm rr))) @ '' filing decision(s) for confirm:'' @ newline
        @ concat (map (\<lambda>(i, d). itoa (int i + 1) @ ''. [confidence='' @ two (fd_confidence d) @ ''] '' @ fd_action d @ '' ''
            @ em_dash @ '' '' @ fd_reasoning d @ newline @ ''   payload: '' @ fd_payload d @ newline) (enumerate 0 (rv_confirm rr)))
        @ ''Execute via mcp__toolkit-server__work.forge(...) with the matching schema, or skip if covered.'' @ newline
        @ ''</system-reminder>'')"

definition reminders :: "(rat \<Rightarrow> string) \<Rightarrow> review_result \<Rightarrow> string list" where
  "reminders two rr = filter (\<lambda>s. s \<noteq> []) [authoring_reminder rr, confirm_reminder two rr]"

definition dispatch_review :: "'w arc_env \<Rightarrow> review_result \<Rightarrow> reviewer \<times> 'w \<Rightarrow> reviewer \<times> 'w" where
  "dispatch_review e rr rw =
     (case rw of (r, w) \<Rightarrow>
        (r\<lparr>rw_pending := rw_pending r @ reminders (av_two_decimals e) rr\<rparr>,
         fold (\<lambda>c v. snd (av_dispatch e c v)) (auto_calls e r rr) w))"

definition review_call :: "string \<Rightarrow> string \<Rightarrow> string list \<Rightarrow> int \<Rightarrow> string \<Rightarrow> call" where
  "review_call session now triggers turns path =
     plain_call ''work'' ''review_arc_for_filing'' (Some [''session_id'' \<mapsto> VStr session, ''fired_at'' \<mapsto> VStr now,
       ''triggers'' \<mapsto> VStrs triggers, ''user_turns_since_review'' \<mapsto> VNum (of_int turns), ''transcript_path'' \<mapsto> VStr path])"

text \<open>The scratch file is removed when the review is over.\<close>

definition fire_review :: "'w arc_env \<Rightarrow> string \<Rightarrow> chat_message list \<Rightarrow> string list \<Rightarrow> int \<Rightarrow> reviewer \<times> 'w \<Rightarrow> reviewer \<times> 'w" where
  "fire_review e session ms triggers turns rw =
     (case rw of (r, w) \<Rightarrow>
        (case materialize e ms w of
           (None, w1) \<Rightarrow> (r, w1)
         | (Some path, w1) \<Rightarrow>
             (case av_dispatch e (review_call session (av_now e w1) triggers turns path) w1 of
                (res, w2) \<Rightarrow>
                  (case (if \<not> res_ok res then (r, w2)
                         else (case av_decode e (res_value res) of
                                 None \<Rightarrow> (r, w2)
                               | Some rr \<Rightarrow> if rv_status rr \<noteq> ''fired'' then (r, w2) else dispatch_review e rr (r, w2))) of
                     (r', w3) \<Rightarrow> (r', av_remove e path w3)))))"

definition turn_triggers :: "reviewer \<Rightarrow> chat_message list \<Rightarrow> string list" where
  "turn_triggers r ms =
     (if rw_turns r \<ge> rw_threshold r then [''counter_user_turns_'' @ itoa (rw_turns r)] else [])
     @ (let shape = detect_shape (last_user_message ms) in if shape = [] then [] else [''user_shape_'' @ shape])"

definition on_turn_end :: "'w arc_env \<Rightarrow> string \<Rightarrow> chat_message list \<Rightarrow> reviewer \<times> 'w \<Rightarrow> reviewer \<times> 'w" where
  "on_turn_end e session ms rw =
     (case rw of (r0, w) \<Rightarrow>
        (let r = r0\<lparr>rw_turns := rw_turns r0 + 1\<rparr>; triggers = turn_triggers r ms
         in if triggers = [] then (r, w)
            else (case fire_review e session ms triggers (rw_turns r) (r, w) of (r', w') \<Rightarrow> (r'\<lparr>rw_turns := 0\<rparr>, w'))))"

text \<open>The hook before a prompt: the additions to the system prompt, and the reviewer with its queue drained.\<close>

definition on_user_prompt :: "string list \<Rightarrow> reviewer \<Rightarrow> string list \<times> reviewer" where
  "on_user_prompt additions r =
     (if rw_pending r = [] then (additions, r) else (additions @ rw_pending r, r\<lparr>rw_pending := []\<rparr>))"

subsection \<open>What a session can rely on\<close>

lemma fire_review_turns: "fire_review e session ms triggers turns (r, w) = (r', w') \<Longrightarrow>
    rw_threshold r' = rw_threshold r \<and> rw_session r' = rw_session r \<and> (\<exists>new. rw_pending r' = rw_pending r @ new)"
  by (auto simp: fire_review_def dispatch_review_def split: prod.splits option.splits if_splits)

text \<open>The count of turns never reaches the threshold: a review is tried at the latest every \<open>rw_threshold\<close> turns.\<close>

lemma turns_below_threshold:
  assumes "0 < rw_threshold r" "on_turn_end e session ms (r, w) = (r', w')"
  shows "rw_turns r' < rw_threshold r' \<and> rw_threshold r' = rw_threshold r"
proof -
  let ?r = "r\<lparr>rw_turns := rw_turns r + 1\<rparr>"
  show ?thesis
  proof (cases "turn_triggers ?r ms = []")
    case True
    then have "rw_turns ?r < rw_threshold ?r" by (auto simp: turn_triggers_def Let_def split: if_splits)
    with True assms(2) show ?thesis by (auto simp: on_turn_end_def Let_def)
  next
    case False
    obtain r1 w1 where f: "fire_review e session ms (turn_triggers ?r ms) (rw_turns ?r) (?r, w) = (r1, w1)" by force
    with False assms(2) have "r' = r1\<lparr>rw_turns := 0\<rparr>" by (simp add: on_turn_end_def Let_def)
    with fire_review_turns [OF f] assms(1) show ?thesis by simp
  qed
qed

text \<open>A queued reminder is surfaced once.\<close>

lemma reminders_surface_once:
  "on_user_prompt additions r = (adds, r') \<Longrightarrow> adds = additions @ rw_pending r \<and> on_user_prompt [] r' = ([], r')"
  by (auto simp: on_user_prompt_def split: if_splits)

text \<open>What is filed without the agent is a bug or a suggestion, attributed to the review.\<close>

lemma auto_calls_short:
  assumes "c \<in> set (auto_calls e r rr)"
  shows "surface c = ''work'' \<and> action c = ''forge''
    \<and> (\<exists>schema flds. c = forge_call r schema flds \<and> schema \<in> {''bug'', ''suggestion''} \<and> flds \<noteq> [])"
proof -
  from assms obtain d where "auto_call e r d = Some c" by (auto simp: auto_calls_def List.map_filter_def)
  then obtain schema where s: "forge e r schema (fd_payload d) = Some c" "schema \<in> {''bug'', ''suggestion''}"
    by (auto simp: auto_call_def split: if_splits)
  then obtain flds where "flds \<noteq> []" "c = forge_call r schema flds" by (auto simp: forge_def split: option.splits if_splits)
  with s(2) show ?thesis by (auto simp: forge_call_def plain_call_def)
qed

lemma attributed: "map_of (attribute flds) ''qwen_task_id'' = Some (VStr ''arc-review-decisions'')"
  by (simp add: attribute_def update_conv)

lemma auto_calls_bounded: "length (auto_calls e r rr) \<le> length (rv_auto rr)"
  by (simp add: auto_calls_def List.map_filter_def)

text \<open>The scratch file does not outlive its review.\<close>

lemma scratch_removed:
  assumes "materialize e ms w = (Some path, w1)" "fire_review e session ms triggers turns (r, w) = (r', w')"
  shows "\<exists>v. w' = av_remove e path v"
  using assms by (auto simp: fire_review_def split: prod.splits)

lemma slug_short: "length (derive_slug flds) \<le> 80"
  by (simp add: derive_slug_def Let_def cap80_def)

lemma dashed_chars: "c \<in> set (dashed gap s) \<Longrightarrow> slug_char c \<or> c = CHR ''-''"
  by (induction gap s rule: dashed.induct) (auto split: if_splits)

lemma kebab_chars: "c \<in> set (kebab s) \<Longrightarrow> slug_char c \<or> c = CHR ''-''"
  unfolding kebab_def trim_dashes_def
  by (metis dashed_chars set_dropWhileD set_rev)

text \<open>A title without a letter or digit gives the empty slug instead of the stable fallback, and a name is taken as it is.\<close>

lemma symbol_title_empty_slug: "derive_slug [(''title'', VStr ''???'')] = []"
  by code_simp

lemma name_not_kebab: "derive_slug [(''name'', VStr ''Not a/slug'')] = ''Not a/slug''"
  by code_simp

text \<open>The shapes on a few messages.\<close>

lemma shapes_demo:
  "detect_shape ''OK,  Thanks!'' = ''thanks''" "detect_shape ''run /wrapping now'' = []"
  "detect_shape ''wrapping up'' = ''wrapping''" "detect_shape ''it is not done yet'' = ''done''"
  by code_simp+

end
