(* ===== verification/Web.thy ===== *)
theory Web
  imports Mcp Agent_Audit
begin

text \<open>
  The web surface, \<open>internal/web/web.go\<close>: searching and fetching over an injected transport, and the reduction of HTML
  to text. The expressions of the file are sequences, matched here with the priorities of the source (greedy or lazy,
  leftmost first). \<open>net/url\<close> and \<open>html.UnescapeString\<close> are parameters; numbers are not bounded.
\<close>

subsection \<open>Expressions\<close>

text \<open>A word without regard to case, one of two words, a run of a class taken greedily, such a run that is captured,
  any text taken lazily and captured or not, one character of a class, the end of a word.\<close>

datatype item =
    Word string | OneOf string string | Run "char \<Rightarrow> bool" | Captured "char \<Rightarrow> bool" | LazyCapture | Lazy
  | Single "char \<Rightarrow> bool" | WordEnd

fun fold_prefix :: "string \<Rightarrow> string \<Rightarrow> string option" where
  "fold_prefix [] s = Some s"
| "fold_prefix (c # cs) s = (case fold_ends s c 0 of [] \<Rightarrow> None | n # _ \<Rightarrow> fold_prefix cs (drop n s))"

text \<open>The preferred match at the head of a text: what is captured, and the rest; and the same for the first of some
  lengths, which are left out or captured.\<close>

fun match_items :: "item list \<Rightarrow> string \<Rightarrow> (string list \<times> string) option"
  and match_after :: "bool \<Rightarrow> item list \<Rightarrow> string \<Rightarrow> nat list \<Rightarrow> (string list \<times> string) option" where
  "match_items [] s = Some ([], s)"
| "match_items (Word w # is) s = (case fold_prefix w s of None \<Rightarrow> None | Some r \<Rightarrow> match_items is r)"
| "match_items (OneOf v w # is) s =
     (case (case fold_prefix v s of None \<Rightarrow> None | Some r \<Rightarrow> match_items is r) of
        Some x \<Rightarrow> Some x
      | None \<Rightarrow> (case fold_prefix w s of None \<Rightarrow> None | Some r \<Rightarrow> match_items is r))"
| "match_items (Run p # is) s = match_after False is s (rev [0..<Suc (length (takeWhile p s))])"
| "match_items (Captured p # is) s = match_after True is s (rev [0..<Suc (length (takeWhile p s))])"
| "match_items (LazyCapture # is) s = match_after True is s [0..<Suc (length s)]"
| "match_items (Lazy # is) s = match_after False is s [0..<Suc (length s)]"
| "match_items (Single p # is) s = (case s of [] \<Rightarrow> None | c # t \<Rightarrow> if p c then match_items is t else None)"
| "match_items (WordEnd # is) s = (if s \<noteq> [] \<and> word_char (hd s) then None else match_items is s)"
| "match_after cap is s [] = None"
| "match_after cap is s (n # ns) =
     (case match_items is (drop n s) of
        None \<Rightarrow> match_after cap is s ns
      | Some (cs, r) \<Rightarrow> Some (if cap then take n s # cs else cs, r))"

text \<open>All matches from left to right, none overlapping; and the text with each replaced.\<close>

function find_all :: "item list \<Rightarrow> string \<Rightarrow> string list list" where
  "find_all is [] = []"
| "find_all is (c # s) =
     (case match_items is (c # s) of
        None \<Rightarrow> find_all is s
      | Some (cs, r) \<Rightarrow> cs # (if length r < length (c # s) then find_all is r else find_all is s))"
  by pat_completeness auto
termination by (relation "measure (length \<circ> snd)") auto

function replace_all :: "item list \<Rightarrow> string \<Rightarrow> string \<Rightarrow> string" where
  "replace_all is by_text [] = []"
| "replace_all is by_text (c # s) =
     (case match_items is (c # s) of
        None \<Rightarrow> c # replace_all is by_text s
      | Some (cs, r) \<Rightarrow> by_text @ (if length r < length (c # s) then replace_all is by_text r else c # replace_all is by_text s))"
  by pat_completeness auto
termination by (relation "measure (length \<circ> snd \<circ> snd)") auto

definition quote_mark :: char where "quote_mark = CHR 0x22"

definition not_gt :: "char \<Rightarrow> bool" where "not_gt c = (c \<noteq> CHR ''>'')"

definition not_quote :: "char \<Rightarrow> bool" where "not_quote c = (c \<noteq> quote_mark)"

definition result_link_re :: "item list" where
  "result_link_re = [Word ''<a'', Run not_gt, Word (''class='' @ [quote_mark]), Run not_quote, Word ''result__a'', Run not_quote,
     Word [quote_mark], Run not_gt, Word (''href='' @ [quote_mark]), Captured not_quote, Word [quote_mark], Run not_gt, Word ''>'',
     LazyCapture, Word ''</a>'']"

definition result_snip_re :: "item list" where
  "result_snip_re = [Word ''<a'', Run not_gt, Word (''class='' @ [quote_mark]), Run not_quote, Word ''result__snippet'', Run not_quote,
     Word [quote_mark], Run not_gt, Word ''>'', LazyCapture, Word ''</a>'']"

definition script_style :: "item list" where
  "script_style = [Word ''<'', OneOf ''script'' ''style'', WordEnd, Run not_gt, Word ''>'', Lazy, Word ''</'', OneOf ''script'' ''style'', Word ''>'']"

definition tag_re :: "item list" where
  "tag_re = [Word ''<'', Single not_gt, Run not_gt, Word ''>'']"

text \<open>The length of a white rune at the head: an ASCII space of the class, or a rune of category Z.\<close>

definition white_len :: "string \<Rightarrow> nat" where
  "white_len s =
     (if s \<noteq> [] \<and> regexp_space (hd s) then 1
      else if take 2 s = [CHR 0xC2, CHR 0xA0] then 2
      else if take 3 s \<in> {[CHR 0xE1, CHR 0x9A, CHR 0x80], [CHR 0xE2, CHR 0x80, CHR 0xA8], [CHR 0xE2, CHR 0x80, CHR 0xA9],
                          [CHR 0xE2, CHR 0x80, CHR 0xAF], [CHR 0xE2, CHR 0x81, CHR 0x9F], [CHR 0xE3, CHR 0x80, CHR 0x80]}
           \<or> 3 \<le> length s \<and> take 2 s = [CHR 0xE2, CHR 0x80] \<and> CHR 0x80 \<le> s ! 2 \<and> s ! 2 \<le> CHR 0x8A then 3
      else 0)"

text \<open>Each run of white runes as one blank: whether a blank was just written, and the bytes of the rune still to skip.\<close>

fun squeeze :: "bool \<Rightarrow> nat \<Rightarrow> string \<Rightarrow> string" where
  "squeeze gap k [] = []"
| "squeeze gap (Suc k) (c # s) = squeeze gap k s"
| "squeeze gap 0 (c # s) =
     (let n = white_len (c # s)
      in if n = 0 then c # squeeze False 0 s
         else (if gap then [] else '' '') @ squeeze True (n - 1) s)"

definition html_to_text :: "(string \<Rightarrow> string) \<Rightarrow> string \<Rightarrow> string" where
  "html_to_text unescape s =
     trim_space (squeeze False 0 (unescape (replace_all tag_re '' '' (replace_all script_style '' '' s))))"

definition clean_text :: "(string \<Rightarrow> string) \<Rightarrow> string \<Rightarrow> string" where
  "clean_text unescape s = trim_space (squeeze False 0 (unescape (replace_all tag_re [] s)))"

subsection \<open>Results\<close>

text \<open>\<open>net/url\<close> and \<open>html\<close> as the surface uses them.\<close>

record 'u net_url =
  nu_parse :: "string \<Rightarrow> string + 'u"
  nu_scheme :: "'u \<Rightarrow> string"
  nu_string :: "'u \<Rightarrow> string"
  nu_query :: "'u \<Rightarrow> string \<Rightarrow> string"
  nu_set_query :: "'u \<Rightarrow> string \<Rightarrow> string \<Rightarrow> 'u"
  nu_unescape :: "string \<Rightarrow> string"

record search_result =
  se_title :: string
  se_url :: string
  se_snippet :: string

definition resolve_url :: "'u net_url \<Rightarrow> string \<Rightarrow> string" where
  "resolve_url n href0 =
     (let href = nu_unescape n (trim_space href0)
      in case nu_parse n href of
           Inl e \<Rightarrow> href
         | Inr u \<Rightarrow> if nu_query n u ''uddg'' \<noteq> [] then nu_query n u ''uddg'' else href)"

definition result_at :: "'u net_url \<Rightarrow> string list list \<Rightarrow> nat \<times> string list \<Rightarrow> search_result" where
  "result_at n snips im =
     (let (i, m) = im
      in \<lparr>se_title = clean_text (nu_unescape n) (m ! 1), se_url = resolve_url n (m ! 0),
          se_snippet = (if i < length snips then clean_text (nu_unescape n) (snips ! i ! 0) else [])\<rparr>)"

definition parse_results :: "'u net_url \<Rightarrow> string \<Rightarrow> int \<Rightarrow> search_result list" where
  "parse_results n page most =
     (let links = find_all result_link_re page; snips = find_all result_snip_re page
      in map (result_at n snips) (enumerate 0 (if 0 < most then take (nat most) links else links)))"

definition is_html :: "string \<Rightarrow> string \<Rightarrow> bool" where
  "is_html ctype body =
     (if contains (to_lower ctype) ''html'' then True
      else if ctype = [] \<or> contains (to_lower ctype) ''octet-stream''
           then (let h = to_lower (trim_space body) in has_prefix h ''<!doctype html'' \<or> has_prefix h ''<html'')
           else False)"

subsection \<open>The surface\<close>

type_synonym 'w fetcher = "string \<Rightarrow> string \<Rightarrow> int \<Rightarrow> 'w \<Rightarrow> (string + string \<times> int \<times> string) \<times> 'w"

record 'w web =
  wb_search_url :: string
  wb_user_agent :: string
  wb_fetcher :: "'w fetcher option"
  wb_max_results :: int
  wb_max_bytes :: int

definition default_search_url :: string where "default_search_url = ''https://html.duckduckgo.com/html/''"
definition default_user_agent :: string where "default_user_agent = ''corpos-web/1.0''"
definition default_max_results :: int where "default_max_results = 10"
definition default_max_bytes :: int where "default_max_bytes = 512 * 1024"
definition search_page_cap :: int where "search_page_cap = 2 * 2 ^ 20"

definition with_search_url :: "string \<Rightarrow> 'w web \<Rightarrow> 'w web" where "with_search_url u p = p\<lparr>wb_search_url := u\<rparr>"
definition with_user_agent :: "string \<Rightarrow> 'w web \<Rightarrow> 'w web" where "with_user_agent u p = p\<lparr>wb_user_agent := u\<rparr>"
definition with_fetcher :: "'w fetcher \<Rightarrow> 'w web \<Rightarrow> 'w web" where "with_fetcher f p = p\<lparr>wb_fetcher := Some f\<rparr>"
definition with_max_results :: "int \<Rightarrow> 'w web \<Rightarrow> 'w web" where "with_max_results n p = p\<lparr>wb_max_results := n\<rparr>"
definition with_max_bytes :: "int \<Rightarrow> 'w web \<Rightarrow> 'w web" where "with_max_bytes n p = p\<lparr>wb_max_bytes := n\<rparr>"

definition new_web :: "'w fetcher \<Rightarrow> ('w web \<Rightarrow> 'w web) list \<Rightarrow> 'w web" where
  "new_web net opts =
     (let p = fold (\<lambda>opt. opt) opts \<lparr>wb_search_url = default_search_url, wb_user_agent = default_user_agent, wb_fetcher = None,
                wb_max_results = default_max_results, wb_max_bytes = default_max_bytes\<rparr>
      in \<lparr>wb_search_url = (if wb_search_url p = [] then default_search_url else wb_search_url p),
          wb_user_agent = (if wb_user_agent p = [] then default_user_agent else wb_user_agent p),
          wb_fetcher = (case wb_fetcher p of None \<Rightarrow> Some net | Some f \<Rightarrow> Some f),
          wb_max_results = (if wb_max_results p \<le> 0 then default_max_results else wb_max_results p),
          wb_max_bytes = (if wb_max_bytes p \<le> 0 then default_max_bytes else wb_max_bytes p)\<rparr>)"

definition web_specs :: "tool_spec list" where
  "web_specs = [envelope_spec ''web''
     ''Owned web surface: search the web and fetch page text. Use for current/external information the substrate does not hold.''
     [''fetch'', ''search'']
     [''fetch(url, max_bytes?) '' @ em_dash @ '' fetch a URL and return its readable text (HTML stripped to plain text)'',
      ''search(query, max_results?) '' @ em_dash @ '' web search; returns ranked results as {title, url, snippet}'']]"

definition web_int_param :: "call \<Rightarrow> string \<Rightarrow> int option" where
  "web_int_param c key =
     (case call_param c key of VNum q \<Rightarrow> Some (if 0 \<le> q then \<lfloor>q\<rfloor> else - \<lfloor>- q\<rfloor>) | _ \<Rightarrow> None)"

definition bounded_by :: "int \<Rightarrow> int option \<Rightarrow> int" where
  "bounded_by dflt n = (case n of Some k \<Rightarrow> if 0 < k then k else dflt | None \<Rightarrow> dflt)"

definition good :: "call \<Rightarrow> go_value \<Rightarrow> int \<Rightarrow> result" where
  "good c v ms = \<lparr>res_call = c, res_ok = True, res_value = v, res_class = ClassNone, latency_ms = ms, span_id = []\<rparr>"

definition result_value :: "search_result \<Rightarrow> go_value" where
  "result_value r = VMap [(''title'', VStr (se_title r)), (''url'', VStr (se_url r)), (''snippet'', VStr (se_snippet r))]"

text \<open>\<open>ms\<close> is the time a call took, read from the world.\<close>

definition web_search :: "'u net_url \<Rightarrow> 'w fetcher \<Rightarrow> ('w \<Rightarrow> int) \<Rightarrow> 'w web \<Rightarrow> 'w provider" where
  "web_search n get ms p c w =
     (let query = trim_space (string_param c ''query'')
      in if query = [] then (fail c ClassTool (''search requires a non-empty '' @ [CHR 0x27] @ ''query'' @ [CHR 0x27]) (ms w), w)
         else (case nu_parse n (wb_search_url p) of
                 Inl e \<Rightarrow> (fail c ClassFatal (''bad search_url: '' @ e) (ms w), w)
               | Inr u \<Rightarrow>
                   (case get (nu_string n (nu_set_query n u ''q'' query)) (wb_user_agent p) search_page_cap w of
                      (Inl e, w1) \<Rightarrow> (fail c ClassTransient e (ms w1), w1)
                    | (Inr (body, status, ctype), w1) \<Rightarrow>
                        (let rs = parse_results n body (bounded_by (wb_max_results p) (web_int_param c ''max_results''))
                         in (good c (VMap [(''query'', VStr query), (''count'', VNum (of_nat (length rs))),
                                           (''results'', VList (map result_value rs))]) (ms w1), w1)))))"

definition web_fetch :: "'u net_url \<Rightarrow> 'w fetcher \<Rightarrow> ('w \<Rightarrow> int) \<Rightarrow> 'w web \<Rightarrow> 'w provider" where
  "web_fetch n get ms p c w =
     (let raw = trim_space (string_param c ''url'')
      in if raw = [] then (fail c ClassTool (''fetch requires a '' @ [CHR 0x27] @ ''url'' @ [CHR 0x27]) (ms w), w)
         else (case (case nu_parse n raw of Inl e \<Rightarrow> None | Inr u \<Rightarrow> if nu_scheme n u \<in> {''http'', ''https''} then Some u else None) of
                 None \<Rightarrow> (fail c ClassTool (''fetch needs an http(s) url, got '' @ go_quote raw) (ms w), w)
               | Some u \<Rightarrow>
                   (let limit = bounded_by (wb_max_bytes p) (web_int_param c ''max_bytes'')
                    in case get (nu_string n u) (wb_user_agent p) (limit + 1) w of
                         (Inl e, w1) \<Rightarrow> (fail c ClassTransient e (ms w1), w1)
                       | (Inr (body0, status, ctype), w1) \<Rightarrow>
                           (let body = take (nat limit) body0;
                                txt = (if is_html ctype body then html_to_text (nu_unescape n) body else body)
                            in (good c (VMap [(''url'', VStr (nu_string n u)), (''status'', VNum (of_int status)),
                                    (''content_type'', VStr ctype), (''text'', VStr txt), (''bytes'', VNum (of_nat (length body))),
                                    (''truncated'', VBool (int (length body0) > limit))]) (ms w1), w1)))))"

definition web_dispatch :: "'u net_url \<Rightarrow> 'w fetcher \<Rightarrow> ('w \<Rightarrow> int) \<Rightarrow> 'w web \<Rightarrow> 'w provider" where
  "web_dispatch n net ms p c w =
     (let get = (case wb_fetcher p of None \<Rightarrow> net | Some f \<Rightarrow> f)
      in if action c = ''search'' then web_search n get ms p c w
         else if action c = ''fetch'' then web_fetch n get ms p c w
         else (fail c ClassTool (''unknown web action '' @ go_quote (action c) @ '' (want search|fetch)'') 0, w))"

subsection \<open>What the surface keeps\<close>

text \<open>The network is asked for nothing but an \<open>http\<close> or \<open>https\<close> address, and for no more than one byte over the limit.\<close>

lemma fetch_only_http:
  assumes "\<And>u. nu_parse n (trim_space (string_param c ''url'')) = Inr u \<Longrightarrow> nu_scheme n u \<notin> {''http'', ''https''}"
  shows "snd (web_fetch n get ms p c w) = w \<and> res_class (fst (web_fetch n get ms p c w)) = ClassTool"
proof (cases "trim_space (string_param c ''url'') = []")
  case True
  then show ?thesis by (simp add: web_fetch_def fail_def)
next
  case False
  have none: "(case nu_parse n (trim_space (string_param c ''url'')) of Inl e \<Rightarrow> None
      | Inr u \<Rightarrow> if nu_scheme n u \<in> {''http'', ''https''} then Some u else None) = None"
    using assms by (cases "nu_parse n (trim_space (string_param c ''url''))") simp_all
  show ?thesis unfolding web_fetch_def Let_def none using False by (simp add: fail_def)
qed

lemma results_bounded: "0 < most \<Longrightarrow> length (parse_results n page most) \<le> nat most"
  by (simp add: parse_results_def Let_def length_enumerate)

lemma new_web_usable:
  "0 < wb_max_results (new_web net opts) \<and> 0 < wb_max_bytes (new_web net opts) \<and> wb_search_url (new_web net opts) \<noteq> []
     \<and> wb_fetcher (new_web net opts) \<noteq> None"
  by (simp add: new_web_def Let_def default_max_results_def default_max_bytes_def default_search_url_def split: option.split)

lemma unknown_action_untouched:
  "action c \<notin> {''search'', ''fetch''} \<Longrightarrow> snd (web_dispatch n net ms p c w) = w \<and> \<not> res_ok (fst (web_dispatch n net ms p c w))"
  by (simp add: web_dispatch_def fail_def)

text \<open>Readable text has no two blanks in a row.\<close>

lemma squeeze_gap: "squeeze True k s = [] \<or> hd (squeeze True k s) \<noteq> CHR '' ''"
proof (induction True k s rule: squeeze.induct)
  case (3 c s)
  then show ?case by (auto simp: Let_def white_len_def regexp_space_def)
qed simp_all

lemma squeeze_no_double: "\<not> contains (squeeze gap k s) ''  ''"
proof (induction gap k s rule: squeeze.induct)
  case (3 gap c s)
  define n where "n = white_len (c # s)"
  show ?case
  proof (cases "n = 0")
    case True
    have "c \<noteq> CHR '' ''" using True by (auto simp: n_def white_len_def regexp_space_def)
    with 3(1) True show ?thesis by (simp add: n_def Let_def has_prefix_def)
  next
    case False
    with 3(2) have inner: "\<not> contains (squeeze True (n - 1) s) ''  ''" by (simp add: n_def)
    moreover have "\<not> has_prefix (CHR '' '' # squeeze True (n - 1) s) ''  ''"
      using squeeze_gap [of "n - 1" s] by (cases "squeeze True (n - 1) s") (auto simp: has_prefix_def)
    moreover have "squeeze gap 0 (c # s) = (if gap then [] else '' '') @ squeeze True (n - 1) s"
      using False by (simp add: n_def Let_def)
    ultimately show ?thesis by simp
  qed
qed simp_all

subsection \<open>Findings\<close>

definition plain_url :: "string net_url" where
  "plain_url = \<lparr>nu_parse = Inr, nu_scheme = (\<lambda>u. ''https''), nu_string = (\<lambda>u. u), nu_query = (\<lambda>u k. []), nu_set_query = (\<lambda>u k v. u),
     nu_unescape = (\<lambda>s. s)\<rparr>"

definition two_results_page :: string where
  "two_results_page =
     ''<a class='' @ [quote_mark] @ ''result__a'' @ [quote_mark] @ '' href='' @ [quote_mark] @ ''u1'' @ [quote_mark] @ ''>One</a>''
     @ ''<a class='' @ [quote_mark] @ ''result__a'' @ [quote_mark] @ '' href='' @ [quote_mark] @ ''u2'' @ [quote_mark] @ ''>Two</a>''
     @ ''<a class='' @ [quote_mark] @ ''result__snippet'' @ [quote_mark] @ ''>about two</a>''"

text \<open>Snippets are paired by position: when the first result has none, it takes that of the second.\<close>

lemma snippet_shifts:
  "map (\<lambda>r. (se_title r, se_snippet r)) (parse_results plain_url two_results_page 10) = [(''One'', ''about two''), (''Two'', [])]"
  by code_simp

lemma text_of_page:
  "html_to_text (\<lambda>s. s) ''<html><style>p {}</style> <p>Hello   <b>you</b></p></html>'' = ''Hello you''"
  by code_simp

end
