(* ===== verification/Command_Line.thy ===== *)
theory Command_Line
  imports Mcp Module_Dir Coverage Git_Repo Operator_Seat Ladder_Config Session_Store Risk_Gate Agent_State
begin

text \<open>
  The composition root, \<open>cmd/corpos/main.go\<close>, as far as it decides something: the ladder and its adapters, the coding path
  that wires the git repository, the orchestrator and the operator seat together for a duty, the choice of a profile and
  its scope, the checks of directories, the session, the exit code; and the prompt loop, \<open>internal/repl/repl.go\<close>. An
  adapter of the ladder is its model id. Flags and printing are left out.
\<close>

subsection \<open>The ladder\<close>

record tier_set =
  ti_base :: string
  ti_mid :: "string option"
  ti_strong :: "string option"
  ti_bound :: int

definition run_adapter :: "tier_set \<Rightarrow> profile option \<Rightarrow> string" where
  "run_adapter t p =
     (case p of
        None \<Rightarrow> ti_base t
      | Some q \<Rightarrow>
          if pf_tier q = ''mid'' then (case ti_mid t of Some m \<Rightarrow> m | None \<Rightarrow> ti_base t)
          else if pf_tier q = ''strong''
          then (case ti_strong t of Some s \<Rightarrow> s | None \<Rightarrow> (case ti_mid t of Some m \<Rightarrow> m | None \<Rightarrow> ti_base t))
          else ti_base t)"

definition tiers_of :: "tier_set \<Rightarrow> string list" where
  "tiers_of t = [ti_base t] @ (case ti_mid t of None \<Rightarrow> [] | Some m \<Rightarrow> [m]) @ (case ti_strong t of None \<Rightarrow> [] | Some s \<Rightarrow> [s])"

definition mid_index :: "tier_set \<Rightarrow> int" where
  "mid_index t = (if ti_mid t = None then -1 else 1)"

definition strong_index :: "tier_set \<Rightarrow> int" where
  "strong_index t = (if ti_strong t = None then -1 else if ti_mid t = None then 1 else 2)"

definition router_from_tiers :: "tier_set \<Rightarrow> profile option \<Rightarrow> int \<Rightarrow> config \<Rightarrow> bool \<Rightarrow> router" where
  "router_from_tiers t p escalate_after cfg has_pool =
     (if length (tiers_of t) = 1 then new_router (ti_base t) (ti_base t) []
      else (let after = (if escalate_after < 1 then 1 else escalate_after)
            in new_ladder (tiers_of t) (floor_for_tier p (mid_index t) (strong_index t))
                 ([with_config (with_repeated_tool_error cfg after)]
                  @ (if ti_strong t \<noteq> None \<and> 0 < ti_bound t then [with_bounded_top (ti_bound t)] else [])
                  @ (if ti_strong t \<noteq> None \<and> has_pool then [with_shared_strong_budget True] else []))))"

definition canonical_low_model :: string where "canonical_low_model = ''Qwen2.5-32B-Instruct-Q4_K_M.gguf''"
definition canonical_mid_model :: string where "canonical_mid_model = ''google/gemini-3.1-flash-lite''"
definition canonical_strong_model :: string where "canonical_strong_model = ''claude-opus-4-8''"
definition cloud_call_timeout :: int where "cloud_call_timeout = 90 * 1000000000"

definition ladder_overridden :: "string list \<Rightarrow> bool" where
  "ladder_overridden visited =
     list_ex (\<lambda>n. n \<in> {''mid-provider'', ''mid-model'', ''mid-model-url'', ''strong-provider'', ''strong-model'', ''strong-model-url''}) visited"

datatype built_adapter = BuiltAnthropic anthropic | BuiltCompat oac

definition or_default :: "string \<Rightarrow> string \<Rightarrow> string" where
  "or_default s d = (if s = [] then d else s)"

text \<open>\<open>env\<close> gives the variables of the process.\<close>

definition build_adapter :: "(string \<Rightarrow> string) \<Rightarrow> string \<Rightarrow> string \<Rightarrow> string \<Rightarrow> string + built_adapter" where
  "build_adapter env provider_name model_id url =
     (if provider_name = ''anthropic''
      then Inr (BuiltAnthropic (new_anthropic (or_default model_id canonical_strong_model) [with_anthropic_key (env ''ANTHROPIC_API_KEY'')]))
      else if provider_name = ''openrouter''
      then (let i = or_default model_id canonical_mid_model
            in Inr (BuiltCompat (new_oac i (or_default url ''https://openrouter.ai/api/v1'')
                 [with_oac_key (env ''OPENROUTER_API_KEY''), with_oac_require_key, with_oac_usage, with_oac_timeout cloud_call_timeout,
                  with_oac_window (known_context_window i)])))
      else if provider_name = ''openai'' \<or> provider_name = []
      then Inr (BuiltCompat (new_oac (or_default model_id canonical_low_model) url [with_oac_key (env ''OPENAI_API_KEY'')]))
      else Inl (''unknown provider '' @ go_quote provider_name @ '' (want openai|anthropic|openrouter)''))"

definition build_rung :: "(string \<Rightarrow> string) \<Rightarrow> string \<Rightarrow> string \<Rightarrow> string \<Rightarrow> string \<Rightarrow> string + built_adapter option" where
  "build_rung env what provider_name model_id url =
     (if provider_name = [] then Inr None
      else (case build_adapter env provider_name model_id url of Inl e \<Rightarrow> Inl (what @ '' tier: '' @ e) | Inr a \<Rightarrow> Inr (Some a)))"

definition adapter_model :: "built_adapter \<Rightarrow> string" where
  "adapter_model a = (case a of BuiltAnthropic x \<Rightarrow> an_model x | BuiltCompat x \<Rightarrow> oa_model x)"

definition build_tiers ::
  "(string \<Rightarrow> string) \<Rightarrow> string \<Rightarrow> string \<times> string \<times> string \<Rightarrow> string \<times> string \<times> string \<Rightarrow> int \<Rightarrow> string + tier_set" where
  "build_tiers env base mid strong bound =
     (case mid of (mp, mm, mu) \<Rightarrow> case strong of (sp, sm, su) \<Rightarrow>
        (case build_rung env ''mid'' mp mm mu of
           Inl e \<Rightarrow> Inl e
         | Inr m \<Rightarrow>
             (case build_rung env ''strong'' sp sm su of
                Inl e \<Rightarrow> Inl e
              | Inr s \<Rightarrow> Inr \<lparr>ti_base = base, ti_mid = map_option adapter_model m, ti_strong = map_option adapter_model s, ti_bound = bound\<rparr>)))"

definition risk_gate_for :: "string \<Rightarrow> gate_fn option" where
  "risk_gate_for mode = (if mode = ''off'' then None else if mode = ''build-test'' then Some build_test_gate else Some deny_gated)"

subsection \<open>Directories\<close>

definition dot_git :: "'w os \<Rightarrow> 'w \<Rightarrow> string \<Rightarrow> bool" where
  "dot_git os w d = (case os_stat os (file_join d ''.git'') w of Inl e \<Rightarrow> False | Inr fi \<Rightarrow> True)"

fun repo_upwards :: "(string \<Rightarrow> bool) \<Rightarrow> bool \<Rightarrow> string list \<Rightarrow> string" where
  "repo_upwards found rooted [] = (if found (dir_of rooted []) then dir_of rooted [] else [])"
| "repo_upwards found rooted (seg # up) =
     (if found (dir_of rooted (seg # up)) then dir_of rooted (seg # up) else repo_upwards found rooted up)"

text \<open>The root of the repository around a clean directory.\<close>

definition git_repo_root :: "'w os \<Rightarrow> string \<Rightarrow> 'w \<Rightarrow> string" where
  "git_repo_root os dir w = (if dir = [] then [] else repo_upwards (dot_git os w) (has_prefix dir ''/'') (clean_stack dir))"

definition resolve_path :: "'w os \<Rightarrow> 'w \<Rightarrow> string \<Rightarrow> string" where
  "resolve_path os w p =
     (case (if is_abs p then Inr (file_clean p) else (case os_cwd os of Inl e \<Rightarrow> Inl e | Inr cwd \<Rightarrow> Inr (file_join cwd p))) of
        Inl e \<Rightarrow> []
      | Inr a \<Rightarrow> (case os_eval_symlinks os a w of Inl e \<Rightarrow> a | Inr ev \<Rightarrow> ev))"

definition path_contains :: "string \<Rightarrow> string \<Rightarrow> bool" where
  "path_contains parent child =
     (case file_rel parent child of None \<Rightarrow> False | Some rel \<Rightarrow> rel = ''.'' \<or> (rel \<noteq> ''..'' \<and> \<not> has_prefix rel ''../''))"

definition verify_dir_divergent :: "'w os \<Rightarrow> 'w \<Rightarrow> string \<Rightarrow> string \<Rightarrow> bool" where
  "verify_dir_divergent os w cwd dir =
     (let rc = resolve_path os w cwd; rv = resolve_path os w dir
      in rc \<noteq> [] \<and> rv \<noteq> [] \<and> \<not> path_contains rc rv \<and> \<not> path_contains rv rc)"

definition coding_path_off_reason :: "string \<Rightarrow> bool \<Rightarrow> string" where
  "coding_path_off_reason target have_strong =
     (if target = [] \<and> \<not> have_strong then ''no git repo at CWD and no strong rung''
      else if target = [] then ''no git repo at CWD''
      else ''no strong rung (the organ'' @ [CHR 0x27] @ ''s escalation top)'')"

text \<open>\<open>env\<close> gives the variables, \<open>home\<close> the home directory, \<open>tmp\<close> the temporary one.\<close>

definition dir_or_default :: "(string \<Rightarrow> string) \<Rightarrow> string option \<Rightarrow> string \<Rightarrow> string \<Rightarrow> string" where
  "dir_or_default env home tmp configured =
     (if configured \<noteq> [] then configured
      else if env ''XDG_STATE_HOME'' \<noteq> [] then file_join (env ''XDG_STATE_HOME'') ''corpos/sessions''
      else (case home of Some (c # cs) \<Rightarrow> file_join (c # cs) ''.local/state/corpos/sessions'' | _ \<Rightarrow> file_join tmp ''corpos-sessions''))"

definition default_skills_dir :: "string option \<Rightarrow> string" where
  "default_skills_dir home = (case home of Some (c # cs) \<Rightarrow> file_join (c # cs) ''.claude/skills'' | _ \<Rightarrow> [])"

subsection \<open>The coding path\<close>

definition coding_operator_k :: int where "coding_operator_k = 2"
definition coding_gate_timeout :: int where "coding_gate_timeout = 600 * 1000000000"

text \<open>What the path is built from: an orchestrator that carries the operations of the host (its runner is on the world of
  the repository), the git processes and disk, the worker for a profile, the operator, the rungs and the caps.\<close>

record 'w coding_host =
  ho_orch :: "('w git_world) orch"
  ho_git :: "'w git_repo"
  ho_worker :: "profile \<Rightarrow> ('w git_world) worker"
  ho_operator :: "('w git_world) operator"
  ho_available :: "'w git_world \<Rightarrow> string \<Rightarrow> bool"
  ho_remove :: "string \<Rightarrow> 'w git_world \<Rightarrow> 'w git_world"
  ho_read :: "string \<Rightarrow> 'w git_world \<Rightarrow> (string + string) \<times> 'w git_world"
  ho_mid :: string
  ho_coder :: "string option"
  ho_strong :: string
  ho_respawn_cap :: int
  ho_max_respawns :: int

text \<open>What one run of the program remembers between the duties.\<close>

record coding_memory =
  cm_tier :: string
  cm_fails :: int

definition coding_orch :: "'w coding_host \<Rightarrow> string \<Rightarrow> string \<Rightarrow> profile \<Rightarrow> ('w git_world) orch" where
  "coding_orch h rid tier p =
     (let g = (ho_git h)\<lparr>gp_worktree_dir := file_join (gp_worktree_dir (ho_git h)) rid\<rparr>
      in with_coverage_grade (ho_remove h) (ho_read h)
           ((ho_orch h)\<lparr>o_repo := git_as_repo g, o_unbound_noop := False, o_model := Some (ho_worker h p), o_gate_timeout := coding_gate_timeout,
              o_seeded_tier := tier, o_gofmt := True, o_respawn_cap := ho_respawn_cap h\<rparr>))"

definition coding_seat :: "'w coding_host \<Rightarrow> ('w git_world) orch \<Rightarrow> ('w git_world) seat" where
  "coding_seat h orc =
     with_coder_rung (ho_coder h) (with_k coding_operator_k (new_operator_seat orc (ho_operator h) (ho_mid h) (ho_strong h) (ho_available h)))"

definition job_of :: "profile \<Rightarrow> job_profile" where
  "job_of p = \<lparr>jp_verify_command = pf_verify_command p, jp_verify_max_rounds = pf_verify_max_rounds p, jp_protect_paths = pf_protect_paths p\<rparr>"

definition respawn_refusal :: "int \<Rightarrow> string" where
  "respawn_refusal n =
     ''coding respawn cap reached: '' @ itoa n @ '' consecutive coding attempts on this run failed to converge '' @ em_dash
     @ '' do NOT spawn another coding worker for this goal; report it as STUCK/blocked to the principal with the last diagnostic. ''
     @ ''Re-decomposing the same goal only re-thrashes.''"

definition remember :: "bridge_result \<Rightarrow> coding_memory \<Rightarrow> coding_memory" where
  "remember res m =
     \<lparr>cm_tier = (if br_highest_tier res \<noteq> [] then br_highest_tier res else cm_tier m),
      cm_fails = (if br_success res then 0 else cm_fails m + 1)\<rparr>"

definition coding_path ::
  "'w coding_host \<Rightarrow> string \<Rightarrow> profile \<Rightarrow> coding_memory \<times> 'w \<Rightarrow> ((string + spec_error) + string \<times> rat) \<times> coding_memory \<times> 'w" where
  "coding_path h duty p mw =
     (case mw of (m, w) \<Rightarrow>
        if 0 < ho_max_respawns h \<and> cm_fails m \<ge> ho_max_respawns h then (Inr (respawn_refusal (cm_fails m), 0), m, w)
        else (case gp_new_id (ho_git h) w of
                (rid, w0) \<Rightarrow>
                  (let orc = coding_orch h rid (cm_tier m) p
                   in case run_duty orc (Some (coding_seat h orc)) (bridge_chain rid duty (gp_repo_dir (ho_git h)) (job_of p)) rid []
                             (\<lparr>gf_integration = [], gf_run_id = []\<rparr>, w0) of
                        (Inl e, lg, (f, w1)) \<Rightarrow> (Inl e, m, w1)
                      | (Inr (res, s), lg, (f, w1)) \<Rightarrow> (Inr (br_answer res, br_cost_usd res), remember res m, w1))))"

subsection \<open>The profile of a run\<close>

text \<open>\<open>regs\<close> is the registry that \<open>loadProfiles\<close> gives, \<open>projected\<close> what is offered.\<close>

definition scope_specs :: "tool_spec list \<Rightarrow> string \<Rightarrow> string + registry \<Rightarrow> string + profile option \<times> tool_spec list" where
  "scope_specs specs name regs =
     (if name = [] then Inr (None, specs)
      else (case regs of
              Inl e \<Rightarrow> Inl (''load profiles: '' @ e)
            | Inr reg \<Rightarrow>
                (case registry_get reg name of
                   None \<Rightarrow> Inl (''unknown profile '' @ go_quote name @ '' (have: '' @ join '', '' (registry_names reg) @ '')'')
                 | Some p \<Rightarrow> Inr (Some p, project_specs specs (scope_of p)))))"

definition parse_context_prober :: "'w provider \<Rightarrow> string \<Rightarrow> 'w \<Rightarrow> (string \<times> go_value) list option \<times> 'w" where
  "parse_context_prober d prompt w =
     (case d (plain_call ''knowledge'' ''parse_context'' (Some [''message_text'' \<mapsto> VStr prompt, ''discipline_firing'' \<mapsto> VStr ''client''])) w of
        (res, w') \<Rightarrow> (if \<not> res_ok res then None else (case res_value res of VMap env \<Rightarrow> Some env | _ \<Rightarrow> None), w'))"

definition auto_select_profile ::
  "(selection \<Rightarrow> string) \<Rightarrow> 'w provider \<Rightarrow> string \<Rightarrow> string \<Rightarrow> string + registry \<Rightarrow> 'w \<Rightarrow> (string \<times> string) \<times> 'w" where
  "auto_select_profile marshal d prompt dflt regs w =
     (if prompt = [] then ((dflt, []), w)
      else (case regs of
              Inl e \<Rightarrow> ((dflt, []), w)
            | Inr reg \<Rightarrow>
                (case parse_context_prober d prompt w of
                   (env, w') \<Rightarrow>
                     (let sel = select_profile prompt (map_option map_of env) reg dflt in ((sel_profile sel, marshal sel), w')))))"

definition allocate_for :: "int \<Rightarrow> string \<Rightarrow> allocation" where
  "allocate_for window fid =
     (if fid = [] \<or> fid = ''auto'' then allocate window
      else (case parse_fidelity fid of (f, ok) \<Rightarrow> if ok then allocate_at window f else allocate window))"

definition arm_no_work_audit :: "profile option \<Rightarrow> bool" where
  "arm_no_work_audit p = (case p of None \<Rightarrow> False | Some q \<Rightarrow> mutates_files q)"

subsection \<open>The end of a run\<close>

definition exit_incomplete :: int where "exit_incomplete = 3"

definition run_outcome_code :: "turn_result \<Rightarrow> int" where
  "run_outcome_code res =
     (if tr_escalate res \<noteq> None \<or> tr_fabricated res \<noteq> [] \<or> tr_verify_failed res \<or> tr_model_fault res \<noteq> FaultNone then exit_incomplete
      else if tr_stopped res \<noteq> None \<and> blank (tr_text res) then exit_incomplete
      else 0)"

subsection \<open>The prompt loop\<close>

definition exit_word :: "string \<Rightarrow> bool" where
  "exit_word line = (to_lower line \<in> {''exit'', ''quit'', '':q''})"

text \<open>\<open>turn\<close> runs one prompt and prints; the lines are those the scanner gives, \<open>err\<close> its error at the end.\<close>

fun repl_lines :: "(string \<Rightarrow> 'w \<Rightarrow> 'w) \<Rightarrow> string list \<Rightarrow> 'w \<Rightarrow> 'w" where
  "repl_lines turn [] w = w"
| "repl_lines turn (l # ls) w =
     (let line = trim_space l
      in if line = [] then repl_lines turn ls w
         else if exit_word line then w
         else repl_lines turn ls (turn line w))"

definition repl_run :: "(string \<Rightarrow> 'w \<Rightarrow> 'w) \<Rightarrow> string list \<Rightarrow> string option \<Rightarrow> 'w \<Rightarrow> string option \<times> 'w" where
  "repl_run turn ls err w = (map_option (\<lambda>e. ''read stdin: '' @ e) err, repl_lines turn ls w)"

subsection \<open>What the composition keeps\<close>

text \<open>The adapter that the sizes are taken from is the rung the router rests on.\<close>

lemma run_adapter_is_floor:
  "run_adapter t p = tiers_of t ! nat (floor_for_tier p (mid_index t) (strong_index t))"
  by (auto simp: run_adapter_def tiers_of_def floor_for_tier_def mid_index_def strong_index_def split: option.split)

text \<open>The exit code is that of a delivered answer only when no verdict, fault or red gate stands against it.\<close>

lemma exit_zero_iff:
  "run_outcome_code res = 0 \<longleftrightarrow>
     tr_escalate res = None \<and> tr_fabricated res = [] \<and> \<not> tr_verify_failed res \<and> tr_model_fault res = FaultNone
     \<and> (tr_stopped res = None \<or> \<not> blank (tr_text res))"
  by (auto simp: run_outcome_code_def exit_incomplete_def)

lemma unknown_mode_fails_safe: "mode \<notin> {''off'', ''build-test''} \<Longrightarrow> risk_gate_for mode = Some deny_gated"
  by (simp add: risk_gate_for_def)

text \<open>The prompt loop runs exactly the prompts before the first exit word, trimmed, blank lines left out.\<close>

lemma repl_prompts:
  "repl_lines turn ls w = fold turn (filter (\<lambda>l. l \<noteq> []) (takeWhile (\<lambda>l. \<not> exit_word l) (map trim_space ls))) w"
proof (induction ls arbitrary: w)
  case (Cons l ls)
  have "\<not> exit_word []" by (simp add: exit_word_def to_lower_def)
  with Cons show ?case by (simp add: Let_def)
qed simp

text \<open>The cap of consecutive attempts that did not converge: with it, the memory of a run never passes it, a duty
  beyond it starts nothing, and a success makes room again.\<close>

definition duties :: "'w coding_host \<Rightarrow> (string \<times> profile) list \<Rightarrow> coding_memory \<times> 'w \<Rightarrow> coding_memory \<times> 'w" where
  "duties h ds mw = fold (\<lambda>(duty, p) v. snd (coding_path h duty p v)) ds mw"

lemma coding_path_memory:
  assumes "coding_path h duty p (m, w) = (res, m', w')"
  shows "m' = m \<or> ((ho_max_respawns h \<le> 0 \<or> cm_fails m < ho_max_respawns h) \<and> (\<exists>br. m' = remember br m))"
  using assms by (auto simp: coding_path_def Let_def split: prod.splits if_splits sum.splits)

theorem coding_respawns_capped:
  assumes "0 < ho_max_respawns h" "0 \<le> cm_fails m" "cm_fails m \<le> ho_max_respawns h" "duties h ds (m, w) = (m', w')"
  shows "0 \<le> cm_fails m' \<and> cm_fails m' \<le> ho_max_respawns h"
  using assms(2-4)
proof (induction ds arbitrary: m w)
  case Nil
  then show ?case by (simp add: duties_def)
next
  case (Cons d ds)
  obtain duty p where d: "d = (duty, p)" by force
  obtain res m1 w1 where s: "coding_path h duty p (m, w) = (res, m1, w1)" by (metis prod.collapse)
  have "0 \<le> cm_fails m1 \<and> cm_fails m1 \<le> ho_max_respawns h"
    using coding_path_memory [OF s] Cons.prems(1,2) assms(1) by (auto simp: remember_def)
  moreover have "duties h ds (m1, w1) = (m', w')" using Cons.prems(3) d s by (simp add: duties_def)
  ultimately show ?case using Cons.IH by blast
qed

lemma capped_duty_starts_nothing:
  "0 < ho_max_respawns h \<Longrightarrow> cm_fails m \<ge> ho_max_respawns h \<Longrightarrow>
     coding_path h duty p (m, w) = (Inr (respawn_refusal (cm_fails m), 0), m, w)"
  by (simp add: coding_path_def)

text \<open>An attempt that ends in an error (the target cannot be branched, say) is not counted, although a streak is said to
  be extended by every attempt that is no success: such attempts are never capped.\<close>

lemma failed_start_not_counted:
  "coding_path h duty p (m, w) = (Inl e, m', w') \<Longrightarrow> m' = m"
  by (auto simp: coding_path_def Let_def split: prod.splits if_splits sum.splits)

lemma path_contains_demo:
  "path_contains ''/a/b'' ''/a/b/c''" "path_contains ''/a/b'' ''/a/b''" "\<not> path_contains ''/a/b'' ''/a/bc''" "\<not> path_contains ''/a/b'' ''/a''"
  by code_simp+

lemma repo_upwards_found: "repo_upwards found rooted segs \<noteq> [] \<Longrightarrow> found (repo_upwards found rooted segs)"
  by (induction segs) (auto split: if_splits)

end
