(* ===== verification/Spec2Isabelle.thy ===== *)
theory Spec2Isabelle
  imports Router_Props Risk_Props Coding_Props Coding_Gate_Props Seat_Props Compaction_Props Agent_Props
    Agent_Findings Fs_Findings Routing Session_Store Session_Tree Runrate Profile_Props Ladder_Config Module_Dir
    Orchestrator Coverage Planner Model_Worker Sys_Props Wire_Props Skills Grounding Mcp_Props Git_Repo
    Parity_Check Telemetry Arc_Review Web Command_Line
begin

text \<open>
  \<^bold>\<open>Corpos, verified: routing, risk gating, the coding chain, the agent loop and the organs and clients around them.\<close>

  Corpos is an agent harness in Go. A model works through tool calls; a router decides which model
  tier serves each turn; budgets shared by a spawn tree bound what the tree may use; hooks and risk
  gates decide which tool calls may run; the agent loop calls the model, dispatches its calls, compacts
  the transcript and recovers from faults; the coding organ runs a chain of atomic tasks, each written by
  a worker and judged by a gate the orchestrator owns, with an operator who intervenes when a task
  fails; the file-system and system organs are what a worker reads, changes and runs things with, inside a
  worktree; the spawn tool starts workers under job profiles; and clients connect all of this to tool
  servers, model servers and a store of sessions. This development models these parts function by function
  from the sources under \<open>src/internal\<close> and \<open>src/cmd/corpos\<close> and proves what makes them correct. Everything
  outside them (models, git, processes, the file system, the clock, codecs) is a parameter: a function on an
  abstract world, or an argument.

  \<^bold>\<open>The theories, in the order of the call graph.\<close>

  \<^item> \<open>Go_Prelude\<close>: the Go string functions the sources use, over byte strings; the lemma collections;
    shared lemmas on lists.
  \<^item> \<open>Budget\<close> (\<open>cost/cost.go\<close>): \<open>SpawnBudget\<close> and \<open>StrongTurnBudget\<close> as counters whose locked methods
    are atomic steps; the locale \<open>strong_budget\<close> is the interface the router draws from.
  \<^item> \<open>Cost\<close> (\<open>cost/cost.go\<close>): the price table, pricing, tiers, the ledger and the meter, over exact
    rationals; the ledger's total is the sum of what its calls returned.
  \<^item> \<open>Router\<close>, \<open>Router_Laws\<close>, \<open>Router_Props\<close> (\<open>router/router.go\<close>): the ladder, its options, serving a
    turn (\<open>next_adapter\<close>), folding a turn (\<open>observe\<close>), the event-driven escalations. \<open>router_step\<close> is one
    call, \<open>tree_step\<close> one call of one router of a spawn tree, under a given availability of the adapters;
    \<open>race_step\<close> splits a turn at the lock of the shared pool, so that calls of different workers overlap.
  \<^item> \<open>Tool_Types\<close>, \<open>Shell_Safe\<close>, \<open>Hooks\<close>, \<open>Exec_Allowlist\<close>, \<open>Risk_Gate\<close>, \<open>Risk_Props\<close>
    (\<open>tool\<close>, \<open>shellsafe\<close>, \<open>hooks\<close>, \<open>sysorgan/allowlist.go\<close>, \<open>risk/risk.go\<close>): the data of a tool call, the
    shell-shape rule, the hook surface with panicking hooks, the two command checks, and the guard. The
    locale \<open>risk_gate\<close> is the contract of a gate; all the gates of the sources are interpretations of it.
  \<^item> \<open>Path_Glob\<close> (\<open>pathglob/pathglob.go\<close>): the glob matcher, with \<open>path.Match\<close>, against a declarative
    reading of the patterns.
  \<^item> \<open>Coding_Spec\<close> (\<open>coding/spec.go\<close>, \<open>feature_chain.go\<close>): chains, their validation, feature chains.
  \<^item> \<open>Coding_State\<close> (\<open>state.go\<close>, \<open>events.go\<close>): the run state, the events, \<open>fold_log\<close> and \<open>compact\<close>.
  \<^item> \<open>Coding_Gate\<close> (\<open>gate.go\<close>, \<open>flags.go\<close>, \<open>guard.go\<close>, \<open>redgreen.go\<close>, \<open>gatescope.go\<close> and the helpers of
    \<open>agent\<close> they share): running a gate, reading a diff, scoping a gate to the edited packages.
  \<^item> \<open>Coding_Verify\<close> (\<open>verifier.go\<close>, \<open>taskio.go\<close>, \<open>classify.go\<close>): the independent verify phase, the typed
    inputs and outputs of tasks, failure triage.
  \<^item> \<open>Coding_Orch\<close> (\<open>worker.go\<close>, \<open>repo.go\<close>, \<open>orchestrator.go\<close>): the interfaces of the orchestrator, the
    checks it runs on the worktree, and the worker-gate loop \<open>run_worker_loop\<close>.
  \<^item> \<open>Coding_Run\<close> (\<open>orchestrator.go\<close>, \<open>staging.go\<close>, \<open>intervene.go\<close>): \<open>start\<close>, \<open>run_one\<close>,
    \<open>run_to_completion\<close>, and the operations retry, skip, abort, edit, force-advance and branch-fix.
  \<^item> \<open>Coding_Laws\<close>: the invariant \<open>settled\<close> of a chain between operations, that every operation keeps it,
    and the transition relation \<open>chain_step\<close>; \<open>Coding_Demo\<close> a concrete chain for the instances;
    \<open>Coding_Props\<close> and \<open>Coding_Gate_Props\<close> the properties.
  \<^item> \<open>Operator_Seat\<close>, \<open>Seat_Laws\<close>, \<open>Seat_Props\<close> (\<open>context.go\<close>, \<open>operator.go\<close>, \<open>operator_seat.go\<close>,
    \<open>bridge.go\<close>): the operator's context and decisions, the intervention loop over a router of its own,
    and \<open>run_duty\<close>, the whole coding path of one duty.

  \<^item> \<open>Compaction\<close>, \<open>Compaction_Laws\<close>, \<open>Compaction_Props\<close> (\<open>agent/compaction.go\<close>, \<open>model/model.go\<close>):
    messages, reminders, size estimates, eviction of tool results, the compactor that folds old turns
    into a rolling summary.
  \<^item> \<open>Agent_Audit\<close>, \<open>Narrated\<close> (\<open>agent/guards.go\<close>, \<open>workaudit.go\<close>, \<open>fakegreen.go\<close>, \<open>scaffoldfab.go\<close>,
    \<open>requiredread.go\<close>, \<open>protectpath.go\<close>, \<open>verify.go\<close>, \<open>verifyscope.go\<close>, \<open>gatedistill.go\<close>, \<open>narrated.go\<close>): the
    guards on what a worker claims, the scope and the distilled output of a gate, and the recovery of a
    tool call that a model narrates in prose.
  \<^item> \<open>Agent_State\<close>, \<open>Agent_Loop\<close> (\<open>agent/loop.go\<close>, \<open>recovery.go\<close>, \<open>model/fault.go\<close>): the loop with its options
    and state, and one turn of it, \<open>run_turn\<close>, from the prompt to the result: guards, model call, faults
    and their recovery, tool dispatch, verification, persistence.
  \<^item> \<open>Agent_Laws\<close>, \<open>Agent_Bounds\<close>, \<open>Agent_Pairing\<close>, \<open>Agent_Faults\<close>, \<open>Agent_Props\<close>: what a phase of a round may
    conclude, the potential that bounds the rounds, the pairing of calls and results, the errors, and the
    properties; \<open>Agent_Demo\<close>, \<open>Agent_Thrash\<close>, \<open>Agent_Findings\<close> concrete loops.
  \<^item> \<open>Fs_Text\<close>, \<open>Fs_Text_Laws\<close> (\<open>fsorgan/edit.go\<close>, \<open>read.go\<close>): lines, runes and the edit of a text.
  \<^item> \<open>Fs_Os\<close>, \<open>Fs_Search\<close>, \<open>Fs_Organ\<close> (the rest of \<open>fsorgan\<close>): paths, the sandbox, the read registry, the
    decoding of parameters, and the handlers, \<open>fs_handle\<close> and \<open>fs_dispatch\<close>, over a state of the registry
    and the world.
  \<^item> \<open>Fs_Laws\<close>, \<open>Fs_Effects\<close>, \<open>Fs_Props\<close>, \<open>Fs_Findings\<close>: clean paths as lists of segments, what the handlers
    may change, sessions of calls, the properties, and behaviour that differs from the comments.

  \<^item> \<open>Routing\<close> (\<open>routing\<close>), \<open>Profile\<close>, \<open>Profile_Props\<close> (\<open>profile\<close>), \<open>Ladder_Config\<close> (\<open>laddercfg\<close>): which job
    profile a duty runs under, the registry of profiles with its overlay and its selection, and the budgets a
    context window gives.
  \<^item> \<open>Worker\<close>, \<open>Worker_Props\<close> (\<open>agent/worker.go\<close>), \<open>Module_Dir\<close> (\<open>agent/verify.go\<close>), \<open>Orchestrator\<close>
    (\<open>orchestrator\<close>): a worker is a loop of its own that a profile stamps, with a router, guards and a gate in
    the module's directory; the spawn tool resolves, guards and delegates. \<open>Grounding\<close> (\<open>agent/grounding.go\<close>):
    from the output of a gate to the blocks a loop shows the model.
  \<^item> \<open>Plan_Quality\<close>, \<open>Planner\<close>, \<open>Model_Worker\<close>, \<open>Git_Repo\<close>, \<open>Coverage\<close>, \<open>Parity_Check\<close> (the rest of
    \<open>coding\<close>): the gate on a plan, the planner with its oracle author and the assembly of a feature chain, the
    worker and the repository of a production chain, and the checks that follow a green one.
  \<^item> \<open>Session_Store\<close>, \<open>Session_Tree\<close> (\<open>session\<close>), \<open>Runrate\<close> (\<open>runrate\<close>): the tables of a session with every
    statement on them, the tree of sessions, and the costs of a period.
  \<^item> \<open>Sys_Organ\<close>, \<open>Sys_Props\<close> (\<open>sysorgan\<close>): the dispatch of exec and go_doc, and the runner with its persistent
    directory, limits and scrubbed environment.
  \<^item> \<open>Model_Wire\<close>, \<open>Wire_Props\<close> (\<open>model\<close>): the two model adapters, from the transcript to the request and from
    the reply to text, calls or a fault, with the repair of arguments.
  \<^item> \<open>Mcp\<close>, \<open>Mcp_Props\<close> (\<open>mcp\<close>): scopes and their widening, the dispatch boundary, the aggregation of providers,
    the client of a tool server, the descriptions of the tools.
  \<^item> \<open>Skills\<close> (\<open>skills\<close>, \<open>profilehooks\<close>, \<open>discipline\<close>): what a system prompt carries and which reminders fire;
    \<open>Telemetry\<close> (\<open>escalation\<close>, \<open>memory\<close>, \<open>grounding\<close>), \<open>Arc_Review\<close> (\<open>arcreview\<close>) and \<open>Web\<close> (\<open>web\<close>): the
    clients around a session; \<open>Command_Line\<close> (\<open>cmd/corpos\<close>): what the composition root decides.

  \<^bold>\<open>State and effects.\<close> A Go struct is a record, an enumeration a datatype, an error a value of a sum. An
  operation that mutates a run state returns the new state with the log it extended; an operation that
  touches the world takes and returns the world, in the order of the calls in the source, so interleaved
  changes of files are covered by quantifying over worlds. Optional collaborators are options. A Go map
  whose order is not observable is a map or a list with distinct keys. Go's \<open>int\<close> is \<open>int\<close>: the counters
  are bounded by the turns of a run. Costs, thresholds and scores are exact rationals
  where the source has \<open>float64\<close>. Parameters of the agent loop are the adapters, tools, store and clock
  (\<open>env\<close>), the JSON encoder, the summarizer, the gate runner and the grounding of gate output; those of the
  file-system organ are the functions of the operating system, \<open>os\<close>, the copy across devices and the
  compiler of a caller's regular expression among them; those of the stores and clients are the database
  driver, which may fail any statement, the transports, and the codecs of JSON, TOML and URLs.

  \<^bold>\<open>Loops.\<close> The loops of the coding chain and of the text algorithms terminate and have no fuel: the
  chain loop is recursive with a measure (tasks left), the worker loop counts down the attempt budget,
  the seat loop the interventions left. The rounds of a turn are different: a throttled model can keep a
  turn running for ever, so \<open>run_rounds\<close> takes fuel. \<open>turn_terminates\<close> bounds the rounds of a turn
  without throttling by a potential of its budgets, so that fuel gives the result and more changes nothing;
  \<open>throttled_turn_never_ends\<close> shows that no fuel is enough otherwise. Loading a tree of sessions has fuel for
  the same reason: \<open>load_tree_exact\<close> says when it ends.

  \<^bold>\<open>What the properties show.\<close> For the router: indices stay in range in every reachable state of a spawn
  tree; over a run of turns the ladder moves by one rung at a trigger or after the required clean turns, and
  the edge describes the move; the per-worker bound holds, and workers that draw from the shared pool serve
  no more strong turns than it has, up to one for each call that overlaps. For risk gating: among the hooks of
  the program a call reaches the tools exactly when none objects; the build/test gate approves exactly the
  commands its documentation describes; approved commands are permitted by the organ. For the coding chain: the event log
  projects to the run state after every sequence of operations, where no task has the slug of a branch;
  success is reported only for resolved tasks and a task succeeds only behind a green gate, within its
  attempts, that passed the integrity checks; the respawn cap bounds how often a worker starts on a task;
  branches keep their place; scopes cover edits; the verify phase and the protected-path guard are exact. For
  the seat and the bridge: the log projects for whole duties, interventions are bounded, and the ladder is
  climbed on a fixed schedule.

  For the agent loop: a clean answer is verified by a passing gate, turns terminate, the overshoot of a cost
  ceiling is one call, the transcript of every model call is paired, and errors are exactly classified.
  For compaction: budgets are met, eviction is least, rewriting keeps the pairing, a split undoes a
  compaction. For the file-system organ: the sandbox confines every change of the world, after symbolic
  links, up to links to nothing; no existing file is changed that the session had not read whole or written
  under that name; an edit changes one region; text pasted from a read matches.

  For workers: a spawn happens only within the limits and each way it fails has its class, a clean answer of
  a coding worker is behind a gate, and no write that names a protected file reaches the tools. A scoped run reaches
  its provider only with calls its scope, or a rung it took, grants; an approved command is the one that
  runs; the git repository runs only listed commands in its target and in worktrees of its own, as
  long as no slug has a slash; requests to a model server
  answer every tool use; an assembled chain is gated, and the gate on plans is exact; the store of sessions
  reads back what was written; the search for a module from an absolute directory is exact; the profile
  selected is the unique best or the default.

  Modelling also showed gaps, some of them properties and the others theorems beside them: commands
  behind a newline pass both exec checks; compaction reorders branch records; a task may be named like a
  branch; a renamed oracle is not noticed; an argv gate is not scoped; a cold-start fallback overdraws the
  strong pool; an operator's abort is undone by the resume that follows it; a skipped duty is reported as
  verified; a slug with a slash leads a worktree of the git repository out of its directory; shapes alone
  can out-vote a signal in the selection of a profile; a throttled turn never ends; a recovered overflow
  panics; a fault launders a fake green; a write with two spellings of its path bypasses the protected paths,
  and so does a key in another case; a dangling link leads out of the sandbox; a
  negative limit panics; a session that is its own ancestor is loaded for ever; a failed creation of a
  session blocks its name; a command cancelled early reports success; a refused spawn uses up a slot; a
  worker at the strong tier is not counted by the shared cap; an added line that begins with \<open>++\<close> is missed by
  the coverage; a missing threshold is one of zero; search results are
  paired with the wrong snippets.

  \<^bold>\<open>Not modelled, and why.\<close> The operating system's side of processes, git itself, the model calls and the
  verifier agent are parameters (I/O and third parties), and so are the codecs, the compiled regular
  expressions whose source is not constant, and the clock. Costs are exact, so the rounding of floats is not
  modelled; neither are the timeouts and contexts of the calls in \<open>Telemetry\<close>, \<open>Arc_Review\<close> and \<open>Web\<close>. Of the
  command line the parsing of flags, the printing, the inspection of past sessions and the sequence of calls
  in \<open>run\<close> are wiring.
\<close>

end
